(* ===== verification/Prelude.thy ===== *)
theory Prelude
  imports Main "HOL-Library.AList" "HOL-Library.List_Lexorder" "HOL-Library.Char_ord"
begin

text \<open>
  What the component theories share: Go maps as association lists, Go strings as character
  lists (ordered bytewise), the early-return idiom of validation code, \<open>sort.Slice\<close> over a
  comparison function, and the collections of facts the component proofs draw on.
\<close>

named_theorems gomap_simps "lookups in updated and deleted Go maps"
named_theorems frame_simps "fields and lookups that an operation leaves alone"

section \<open>Go maps\<close>

text \<open>
  A Go map is an association list with distinct keys. A lookup is \<open>map_of\<close>, an assignment
  \<open>mput\<close>, the builtin \<open>delete\<close> is \<open>mdel\<close>. Go leaves the order of iteration
  open; a model whose result depends on it says so where it is defined.
\<close>

type_synonym ('k, 'v) gomap = "('k \<times> 'v) list"

abbreviation mget :: "('k, 'v) gomap \<Rightarrow> 'k \<Rightarrow> 'v option" where
  "mget m k \<equiv> map_of m k"

abbreviation mput :: "'k \<Rightarrow> 'v \<Rightarrow> ('k, 'v) gomap \<Rightarrow> ('k, 'v) gomap" where
  "mput k v m \<equiv> AList.update k v m"

abbreviation mdel :: "'k \<Rightarrow> ('k, 'v) gomap \<Rightarrow> ('k, 'v) gomap" where
  "mdel k m \<equiv> AList.delete k m"

abbreviation mkeys :: "('k, 'v) gomap \<Rightarrow> 'k list" where
  "mkeys m \<equiv> map fst m"

abbreviation mvals :: "('k, 'v) gomap \<Rightarrow> 'v list" where
  "mvals m \<equiv> map snd m"

abbreviation gowf :: "('k, 'v) gomap \<Rightarrow> bool" where
  "gowf m \<equiv> distinct (mkeys m)"

text \<open>Reading a missing key yields the zero value of the element type.\<close>

definition mget0 :: "'v \<Rightarrow> ('k, 'v) gomap \<Rightarrow> 'k \<Rightarrow> 'v" where
  "mget0 z m k = (case mget m k of None \<Rightarrow> z | Some v \<Rightarrow> v)"

lemma mget_mput [simp, gomap_simps]:
  "mget (mput k v m) k' = (if k' = k then Some v else mget m k')"
  by (simp add: update_conv')

lemma mget_mdel [simp, gomap_simps]:
  "mget (mdel k m) k' = (if k' = k then None else mget m k')"
  by (simp add: delete_conv')

lemma mget0_mput [simp, gomap_simps]:
  "mget0 z (mput k v m) k' = (if k' = k then v else mget0 z m k')"
  by (simp add: mget0_def)

lemma mget0_mdel [simp, gomap_simps]:
  "mget0 z (mdel k m) k' = (if k' = k then z else mget0 z m k')"
  by (simp add: mget0_def)

lemma mget0_Some [simp]: "mget m k = Some v \<Longrightarrow> mget0 z m k = v"
  by (simp add: mget0_def)

lemma mget0_None [simp]: "mget m k = None \<Longrightarrow> mget0 z m k = z"
  by (simp add: mget0_def)

lemma mget0_Nil [simp]: "mget0 z [] k = z"
  by (simp add: mget0_def)

lemma gowf_mput [simp, intro]: "gowf m \<Longrightarrow> gowf (mput k v m)"
  by (rule distinct_update)

lemma gowf_mdel [simp, intro]: "gowf m \<Longrightarrow> gowf (mdel k m)"
  by (rule distinct_delete)

lemma mget_in_set: "gowf m \<Longrightarrow> mget m k = Some v \<longleftrightarrow> (k, v) \<in> set m"
  by (rule map_of_eq_Some_iff)

text \<open>A loop over a map that rewrites every entry in place.\<close>

definition map_entries :: "('k \<Rightarrow> 'v \<Rightarrow> 'v) \<Rightarrow> ('k, 'v) gomap \<Rightarrow> ('k, 'v) gomap" where
  "map_entries f m = map (\<lambda>(k, v). (k, f k v)) m"

lemma mkeys_map_entries [simp]: "mkeys (map_entries f m) = mkeys m"
  by (simp add: map_entries_def split_beta comp_def)

lemma mget_map_entries [simp, gomap_simps]:
  "mget (map_entries f m) k = map_option (f k) (mget m k)"
  by (induction m) (auto simp: map_entries_def)

lemma map_entries_comp: "map_entries f (map_entries g m) = map_entries (\<lambda>k v. f k (g k v)) m"
  by (simp add: map_entries_def split_beta comp_def)

lemma map_entries_cong:
  "(\<And>k v. (k, v) \<in> set m \<Longrightarrow> f k v = g k v) \<Longrightarrow> map_entries f m = map_entries g m"
  by (auto simp: map_entries_def)

section \<open>Validation with early returns\<close>

text \<open>
  A Go validation function returns the first error it meets; \<open>None\<close> is the nil error.
  \<open>first_err\<close> takes the checks in the order of the source, \<open>guard\<close> is one
  \<open>if cond { return err }\<close> and \<open>each\<close> one loop whose body returns at the first element that
  meets a condition.
\<close>

fun first_err :: "'e option list \<Rightarrow> 'e option" where
  "first_err [] = None"
| "first_err (Some e # es) = Some e"
| "first_err (None # es) = first_err es"

definition guard :: "bool \<Rightarrow> 'e \<Rightarrow> 'e option" where
  "guard b e = (if b then Some e else None)"

definition each :: "'a list \<Rightarrow> ('a \<Rightarrow> bool) \<Rightarrow> ('a \<Rightarrow> 'e) \<Rightarrow> 'e option" where
  "each xs p e = map_option e (find p xs)"

lemma first_err_None [simp]: "first_err es = None \<longleftrightarrow> (\<forall>e \<in> set es. e = None)"
  by (induction es rule: first_err.induct) auto

lemma guard_None [simp]: "guard b e = None \<longleftrightarrow> \<not> b"
  by (simp add: guard_def)

lemma guard_simps [simp]: "guard True e = Some e" "guard False e = None"
  by (simp_all add: guard_def)

lemma each_None [simp]: "each xs p e = None \<longleftrightarrow> (\<forall>x \<in> set xs. \<not> p x)"
  by (auto simp: each_def find_None_iff)

lemma find_SomeD: "find p xs = Some x \<Longrightarrow> x \<in> set xs \<and> p x"
  by (auto simp: find_Some_iff)

section \<open>Sorting with a comparison function\<close>

text \<open>
  \<open>sort.Slice(xs, less)\<close>. Go's algorithm is not stable: elements that \<open>less\<close> does not
  separate may come out in any order. The model is a stable insertion sort; where no two elements
  of the slice tie, every sorting algorithm returns the same list (\<open>slice_order.sort_slice_unique\<close>).
\<close>

fun insert_slice :: "('a \<Rightarrow> 'a \<Rightarrow> bool) \<Rightarrow> 'a \<Rightarrow> 'a list \<Rightarrow> 'a list" where
  "insert_slice lt x [] = [x]"
| "insert_slice lt x (y # ys) =
     (if lt y x then y # insert_slice lt x ys else x # y # ys)"

fun sort_slice :: "('a \<Rightarrow> 'a \<Rightarrow> bool) \<Rightarrow> 'a list \<Rightarrow> 'a list" where
  "sort_slice lt [] = []"
| "sort_slice lt (x # xs) = insert_slice lt x (sort_slice lt xs)"

lemma set_insert_slice [simp]: "set (insert_slice lt x xs) = insert x (set xs)"
  by (induction xs) auto

lemma set_sort_slice [simp]: "set (sort_slice lt xs) = set xs"
  by (induction xs) auto

lemma length_insert_slice [simp]: "length (insert_slice lt x xs) = Suc (length xs)"
  by (induction xs) auto

lemma length_sort_slice [simp]: "length (sort_slice lt xs) = length xs"
  by (induction xs) auto

lemma distinct_insert_slice [simp]:
  "distinct (insert_slice lt x xs) \<longleftrightarrow> x \<notin> set xs \<and> distinct xs"
  by (induction xs) auto

lemma distinct_sort_slice [simp]: "distinct (sort_slice lt xs) \<longleftrightarrow> distinct xs"
  by (induction xs) auto

lemma distinct_map_insert_slice [simp]:
  "distinct (map f (insert_slice lt x xs)) \<longleftrightarrow> f x \<notin> f ` set xs \<and> distinct (map f xs)"
  by (induction xs) auto

lemma distinct_map_sort_slice [simp]: "distinct (map f (sort_slice lt xs)) \<longleftrightarrow> distinct (map f xs)"
  by (induction xs) auto

text \<open>The contract a comparison function owes \<open>sort.Slice\<close>: a strict weak order.\<close>

locale slice_order =
  fixes lt :: "'a \<Rightarrow> 'a \<Rightarrow> bool"
  assumes asym: "lt x y \<Longrightarrow> \<not> lt y x"
    and neg_trans: "lt x z \<Longrightarrow> lt x y \<or> lt y z"
begin

lemma less_trans: "lt x y \<Longrightarrow> lt y z \<Longrightarrow> lt x z"
  using asym neg_trans by blast

lemma le_trans: "\<not> lt y x \<Longrightarrow> \<not> lt z y \<Longrightarrow> \<not> lt z x"
  using neg_trans by blast

lemma sorted_insert_slice:
  "sorted_wrt (\<lambda>x y. \<not> lt y x) xs \<Longrightarrow> sorted_wrt (\<lambda>x y. \<not> lt y x) (insert_slice lt x xs)"
proof (induction xs)
  case Nil
  then show ?case by simp
next
  case (Cons y ys)
  then show ?case
    by (auto dest: asym le_trans)
qed

lemma sorted_sort_slice: "sorted_wrt (\<lambda>x y. \<not> lt y x) (sort_slice lt xs)"
  by (induction xs) (auto intro: sorted_insert_slice)

lemma sort_slice_head:
  assumes "sort_slice lt xs = y # ys" and "x \<in> set xs"
  shows "\<not> lt x y"
proof -
  have "sorted_wrt (\<lambda>x y. \<not> lt y x) (y # ys)"
    using sorted_sort_slice [of xs] assms(1) by simp
  moreover have "x \<in> set (y # ys)"
    using assms set_sort_slice [of lt xs] by simp
  ultimately show ?thesis using asym by fastforce
qed

text \<open>The first element of a sorted slice that meets a test: no element that meets it comes before.\<close>

lemma find_sorted:
  assumes "find p (sort_slice lt xs) = Some y" and "x \<in> set xs" and "p x"
  shows "\<not> lt x y"
proof -
  from assms(1) obtain i where i: "i < length (sort_slice lt xs)" "p (sort_slice lt xs ! i)"
    "y = sort_slice lt xs ! i" and before: "\<And>j. j < i \<Longrightarrow> \<not> p (sort_slice lt xs ! j)"
    by (auto simp: find_Some_iff)
  from assms(2) obtain j where j: "j < length (sort_slice lt xs)" "x = sort_slice lt xs ! j"
    by (metis in_set_conv_nth set_sort_slice)
  have "i \<le> j" using before [of j] assms(3) j by (meson leI)
  then show ?thesis
  proof (cases "i = j")
    case True
    then show ?thesis using i j asym by blast
  next
    case False
    with \<open>i \<le> j\<close> sorted_sort_slice [of xs] i j show ?thesis
      by (simp add: sorted_wrt_iff_nth_less)
  qed
qed

text \<open>Two sorted lists with the same elements, no two of which tie, are the same list.\<close>

lemma sorted_unique:
  assumes "sorted_wrt (\<lambda>x y. \<not> lt y x) xs" and "sorted_wrt (\<lambda>x y. \<not> lt y x) ys"
    and "distinct xs" and "distinct ys" and "set xs = set ys"
    and "\<And>x y. x \<in> set xs \<Longrightarrow> y \<in> set xs \<Longrightarrow> x \<noteq> y \<Longrightarrow> lt x y \<or> lt y x"
  shows "xs = ys"
  using assms
proof (induction xs arbitrary: ys)
  case Nil
  then show ?case by simp
next
  case (Cons x xs)
  then obtain y zs where ys: "ys = y # zs" by (cases ys) auto
  have "x = y"
  proof (rule ccontr)
    assume "x \<noteq> y"
    then have "\<not> lt y x" and "\<not> lt x y"
      using Cons.prems(1,2,5) ys by auto
    with Cons.prems(5,6) ys \<open>x \<noteq> y\<close> show False
      by (metis list.set_intros(1))
  qed
  moreover have "xs = zs"
  proof (rule Cons.IH)
    show "set xs = set zs"
      using Cons.prems(3,4,5) ys \<open>x = y\<close> by auto
    show "lt a b \<or> lt b a" if "a \<in> set xs" "b \<in> set xs" "a \<noteq> b" for a b
      using Cons.prems(6) that by simp
  qed (use Cons.prems(1-4) ys in auto)
  ultimately show ?case using ys by simp
qed

lemma sort_slice_unique:
  assumes "sorted_wrt (\<lambda>x y. \<not> lt y x) ys" and "distinct xs" and "distinct ys"
    and "set ys = set xs"
    and "\<And>x y. x \<in> set xs \<Longrightarrow> y \<in> set xs \<Longrightarrow> x \<noteq> y \<Longrightarrow> lt x y \<or> lt y x"
  shows "sort_slice lt xs = ys"
  by (rule sorted_unique) (use assms sorted_sort_slice in auto)

end

text \<open>Sorting by a key of a linear order, as in \<open>xs[i].ID < xs[j].ID\<close>.\<close>

interpretation by_key: slice_order "\<lambda>x y. (f x :: 'k::linorder) < f y" for f
  by unfold_locales auto

lemma sorted_key_strict:
  assumes "distinct (map f xs)"
  shows "sorted_wrt (<) (map f (sort_slice (\<lambda>x y. (f x :: 'k::linorder) < f y) xs))"
proof -
  have "sorted_wrt (<) (map f ys)" if "sorted_wrt (\<lambda>x y. \<not> f y < f x) ys" "distinct (map f ys)" for ys
    using that by (induction ys) (auto simp: not_less order.strict_iff_order)
  then show ?thesis using by_key.sorted_sort_slice [of f xs] assms by simp
qed

text \<open>The values of a map.\<close>

lemma set_mvals: "gowf m \<Longrightarrow> v \<in> set (mvals m) \<longleftrightarrow> (\<exists>k. mget m k = Some v)"
  by (force simp: map_of_eq_Some_iff image_iff)

end
