(* ===== verification/Loop.thy ===== *)
theory Loop
  imports GoStrings
begin

text \<open>
  The review loops of internal/loop: a loop definition (types.go), its validation, the FSM that
  runs it and the choice of the next state from a verdict (fsm.go, resolve.go), and the reduction
  of the upstream results an agent of the loop is shown (context.go). The texts of the error
  messages are constructors that carry what the message interpolates. A Go int is an
  \<open>int\<close>: the counter is incremented once per hop, far below the width.
\<close>

section \<open>Loop definitions (types.go)\<close>

record StateConfig =
  sc_Name :: string
  sc_Agent :: string
  sc_ReviewGuidelines :: string

record Transition =
  tr_From :: string
  tr_To :: string
  tr_Condition :: string

record LoopDefinition =
  ld_ID :: string
  ld_Participants :: "string list"
  ld_States :: "StateConfig list"
  ld_Transitions :: "Transition list"
  ld_InitialState :: string
  ld_TerminalStates :: "string list"
  ld_MaxTransitions :: int

record LoopState =
  ls_LoopID :: string
  ls_CurrentState :: string
  ls_TransitionCount :: int

definition StateNames :: "LoopDefinition \<Rightarrow> string list" where
  "StateNames d = map sc_Name (ld_States d)"

definition ReviewGuidelinesForState :: "LoopDefinition \<Rightarrow> string \<Rightarrow> string" where
  "ReviewGuidelinesForState d state =
     (case find (\<lambda>s. sc_Name s = state) (ld_States d) of
        Some s \<Rightarrow> sc_ReviewGuidelines s | None \<Rightarrow> '''')"

definition AgentForState :: "LoopDefinition \<Rightarrow> string \<Rightarrow> string" where
  "AgentForState d state =
     (case find (\<lambda>s. sc_Name s = state) (ld_States d) of
        Some s \<Rightarrow> sc_Agent s | None \<Rightarrow> '''')"

section \<open>Validation (fsm.go)\<close>

datatype loop_error =
    LoopIDRequired
  | AtLeastOneState string
  | InitialStateRequired string
  | AtLeastOneTerminal string
  | MaxTransitionsNotPositive string
  | InitialNotInStates string string
  | TerminalNotInStates string string
  | StateWithoutAgent string string
  | ParticipantWithoutState string string
  | TransitionFromUnknown string string
  | TransitionToUnknown string string
  | EscalatedNotInStates string
  | EscalatedNotTerminal string
  | NoOutgoing string string
  | InTerminalState string string
  | InvalidTransition string string string
  | NoTransitionsFrom string
  | NoMatchingTransition string string

definition Validate :: "LoopDefinition \<Rightarrow> loop_error option" where
  "Validate def =
     (let names = StateNames def;
          terminals = ld_TerminalStates def;
          id = ld_ID def
      in first_err
       [guard (id = '''') LoopIDRequired,
        guard (ld_States def = []) (AtLeastOneState id),
        guard (ld_InitialState def = '''') (InitialStateRequired id),
        guard (terminals = []) (AtLeastOneTerminal id),
        guard (ld_MaxTransitions def \<le> 0) (MaxTransitionsNotPositive id),
        guard (ld_InitialState def \<notin> set names) (InitialNotInStates id (ld_InitialState def)),
        each terminals (\<lambda>ts. ts \<notin> set names) (TerminalNotInStates id),
        each (ld_States def) (\<lambda>sc. sc_Name sc \<notin> set terminals \<and> sc_Agent sc = '''')
          (\<lambda>sc. StateWithoutAgent id (sc_Name sc)),
        each (ld_Participants def)
          (\<lambda>p. p \<notin> set (filter (\<lambda>a. a \<noteq> '''') (map sc_Agent (ld_States def))))
          (ParticipantWithoutState id),
        first_err (map (\<lambda>t. first_err
            [guard (tr_From t \<notin> set names) (TransitionFromUnknown id (tr_From t)),
             guard (tr_To t \<notin> set names) (TransitionToUnknown id (tr_To t))])
          (ld_Transitions def)),
        guard (''ESCALATED'' \<notin> set names) (EscalatedNotInStates id),
        guard (''ESCALATED'' \<notin> set terminals) (EscalatedNotTerminal id),
        each (ld_States def)
          (\<lambda>sc. sc_Name sc \<notin> set terminals \<and> sc_Name sc \<notin> set (map tr_From (ld_Transitions def)))
          (\<lambda>sc. NoOutgoing id (sc_Name sc))])"

section \<open>The FSM (fsm.go)\<close>

datatype TransitionResult = Transitioned | Escalated

record FSM =
  fsm_def :: LoopDefinition
  fsm_state :: LoopState

definition NewFSM :: "LoopDefinition \<Rightarrow> loop_error + FSM" where
  "NewFSM def =
     (case Validate def of
        Some e \<Rightarrow> Inl e
      | None \<Rightarrow> Inr \<lparr>fsm_def = def,
          fsm_state = \<lparr>ls_LoopID = ld_ID def, ls_CurrentState = ld_InitialState def,
                       ls_TransitionCount = 0\<rparr>\<rparr>)"

definition RestoreFSM :: "LoopDefinition \<Rightarrow> LoopState \<Rightarrow> FSM" where
  "RestoreFSM def st = \<lparr>fsm_def = def, fsm_state = st\<rparr>"

definition IsTerminal :: "FSM \<Rightarrow> bool" where
  "IsTerminal f \<longleftrightarrow> ls_CurrentState (fsm_state f) \<in> set (ld_TerminalStates (fsm_def f))"

definition move :: "FSM \<Rightarrow> string \<Rightarrow> FSM" where
  "move f to = f\<lparr>fsm_state := (fsm_state f)
     \<lparr>ls_CurrentState := to, ls_TransitionCount := ls_TransitionCount (fsm_state f) + 1\<rparr>\<rparr>"

definition Transition_to :: "FSM \<Rightarrow> string \<Rightarrow> FSM \<times> (loop_error + TransitionResult)" where
  "Transition_to f to =
     (let def = fsm_def f; cur = ls_CurrentState (fsm_state f)
      in if IsTerminal f then (f, Inl (InTerminalState (ld_ID def) cur))
         else if ls_TransitionCount (fsm_state f) \<ge> ld_MaxTransitions def
              then (move f ''ESCALATED'', Inr Escalated)
         else if \<not> (\<exists>t \<in> set (ld_Transitions def). tr_From t = cur \<and> tr_To t = to)
              then (f, Inl (InvalidTransition (ld_ID def) cur to))
         else (move f to, Inr Transitioned))"

definition ForceEscalate :: "FSM \<Rightarrow> FSM" where
  "ForceEscalate f = move f ''ESCALATED''"

section \<open>The next state of a verdict (resolve.go)\<close>

definition ResolveNextState :: "LoopDefinition \<Rightarrow> string \<Rightarrow> string \<Rightarrow> loop_error + string" where
  "ResolveNextState def cur verdict =
     (let candidates = filter (\<lambda>t. tr_From t = cur) (ld_Transitions def)
      in if candidates = [] then Inl (NoTransitionsFrom cur)
         else if length candidates = 1 \<and> tr_Condition (hd candidates) = ''''
              then Inr (tr_To (hd candidates))
         else case (if verdict \<noteq> '''' then find (\<lambda>t. tr_Condition t = verdict) candidates else None) of
                Some t \<Rightarrow> Inr (tr_To t)
              | None \<Rightarrow>
                 (case find (\<lambda>t. tr_Condition t = '''') candidates of
                    Some t \<Rightarrow> Inr (tr_To t)
                  | None \<Rightarrow> Inl (NoMatchingTransition cur verdict)))"

definition IsReviewState :: "LoopDefinition \<Rightarrow> string \<Rightarrow> bool" where
  "IsReviewState def state \<longleftrightarrow>
     (\<exists>t \<in> set (ld_Transitions def). tr_From t = state \<and> tr_Condition t \<noteq> '''')"

section \<open>What validation establishes\<close>

text \<open>
  A well-formed loop: the initial state, the terminal states and both ends of every transition are
  states of the loop; \<open>ESCALATED\<close> is a terminal one; a state that is not terminal has an agent and
  a transition out of it; every participant works in some state.
\<close>

definition well_formed_loop :: "LoopDefinition \<Rightarrow> bool" where
  "well_formed_loop def \<longleftrightarrow>
     ld_ID def \<noteq> '''' \<and> ld_States def \<noteq> [] \<and> ld_InitialState def \<noteq> '''' \<and>
     ld_TerminalStates def \<noteq> [] \<and> 0 < ld_MaxTransitions def \<and>
     ld_InitialState def \<in> set (StateNames def) \<and>
     (\<forall>s \<in> set (ld_TerminalStates def). s \<in> set (StateNames def)) \<and>
     (\<forall>sc \<in> set (ld_States def).
        sc_Name sc \<in> set (ld_TerminalStates def) \<or> sc_Agent sc \<noteq> '''') \<and>
     (\<forall>p \<in> set (ld_Participants def). p \<in> sc_Agent ` set (ld_States def) \<and> p \<noteq> '''') \<and>
     (\<forall>t \<in> set (ld_Transitions def).
        tr_From t \<in> set (StateNames def) \<and> tr_To t \<in> set (StateNames def)) \<and>
     ''ESCALATED'' \<in> set (StateNames def) \<and> ''ESCALATED'' \<in> set (ld_TerminalStates def) \<and>
     (\<forall>sc \<in> set (ld_States def).
        sc_Name sc \<in> set (ld_TerminalStates def) \<or> sc_Name sc \<in> tr_From ` set (ld_Transitions def))"

lemma Validate_iff: "Validate def = None \<longleftrightarrow> well_formed_loop def"
  unfolding well_formed_loop_def by (simp add: Validate_def Let_def not_le)

lemma NewFSM_Inr:
  "NewFSM def = Inr f \<longleftrightarrow> well_formed_loop def \<and>
     f = \<lparr>fsm_def = def, fsm_state = \<lparr>ls_LoopID = ld_ID def,
          ls_CurrentState = ld_InitialState def, ls_TransitionCount = 0\<rparr>\<rparr>"
  by (auto simp: NewFSM_def Validate_iff [symmetric] split: option.splits)

lemma move_simps [simp]:
  "fsm_def (move f to) = fsm_def f"
  "ls_CurrentState (fsm_state (move f to)) = to"
  "ls_TransitionCount (fsm_state (move f to)) = ls_TransitionCount (fsm_state f) + 1"
  "ls_LoopID (fsm_state (move f to)) = ls_LoopID (fsm_state f)"
  by (simp_all add: move_def)

section \<open>Reachable FSMs\<close>

text \<open>
  The FSMs of a definition: the new one, and what any call of its methods leaves behind, whatever
  target it names and whether it succeeds or not.
\<close>

inductive reachable_fsm :: "LoopDefinition \<Rightarrow> FSM \<Rightarrow> bool" for def where
  new: "NewFSM def = Inr f \<Longrightarrow> reachable_fsm def f"
| transition: "reachable_fsm def f \<Longrightarrow> reachable_fsm def (fst (Transition_to f to))"
| force: "reachable_fsm def f \<Longrightarrow> reachable_fsm def (ForceEscalate f)"

definition fsm_inv :: "LoopDefinition \<Rightarrow> FSM \<Rightarrow> bool" where
  "fsm_inv def f \<longleftrightarrow>
     well_formed_loop def \<and> fsm_def f = def \<and>
     ls_LoopID (fsm_state f) = ld_ID def \<and>
     ls_CurrentState (fsm_state f) \<in> set (StateNames def) \<and>
     0 \<le> ls_TransitionCount (fsm_state f) \<and>
     (ls_TransitionCount (fsm_state f) > ld_MaxTransitions def \<longrightarrow>
        ls_CurrentState (fsm_state f) = ''ESCALATED'')"

lemma fsm_inv_new: "NewFSM def = Inr f \<Longrightarrow> fsm_inv def f"
  by (auto simp: NewFSM_Inr fsm_inv_def well_formed_loop_def)

lemma fsm_inv_transition:
  assumes "fsm_inv def f"
  shows "fsm_inv def (fst (Transition_to f to))"
  using assms by (auto simp: Transition_to_def fsm_inv_def well_formed_loop_def Let_def)

lemma fsm_inv_force:
  assumes "fsm_inv def f"
  shows "fsm_inv def (ForceEscalate f)"
  using assms by (auto simp: ForceEscalate_def fsm_inv_def well_formed_loop_def)

lemma reachable_fsm_inv: "reachable_fsm def f \<Longrightarrow> fsm_inv def f"
  by (induction rule: reachable_fsm.induct)
     (auto intro: fsm_inv_new fsm_inv_transition fsm_inv_force)

lemma fsm_inv_escalated_terminal:
  "fsm_inv def f \<Longrightarrow> ls_CurrentState (fsm_state f) = ''ESCALATED'' \<Longrightarrow> IsTerminal f"
  by (auto simp: fsm_inv_def IsTerminal_def well_formed_loop_def)

lemma fsm_inv_over_budget_terminal:
  "fsm_inv def f \<Longrightarrow> ls_TransitionCount (fsm_state f) > ld_MaxTransitions def \<Longrightarrow> IsTerminal f"
  by (rule fsm_inv_escalated_terminal) (auto simp: fsm_inv_def)

section \<open>Single transitions\<close>

lemma Transition_to_cases:
  obtains (error) e where "Transition_to f to = (f, Inl e)"
  | (escalated) "Transition_to f to = (move f ''ESCALATED'', Inr Escalated)"
      "\<not> IsTerminal f" "ls_TransitionCount (fsm_state f) \<ge> ld_MaxTransitions (fsm_def f)"
  | (moved) "Transition_to f to = (move f to, Inr Transitioned)"
      "\<not> IsTerminal f" "ls_TransitionCount (fsm_state f) < ld_MaxTransitions (fsm_def f)"
      "\<exists>t \<in> set (ld_Transitions (fsm_def f)).
         tr_From t = ls_CurrentState (fsm_state f) \<and> tr_To t = to"
  by (fastforce simp: Transition_to_def Let_def not_le split: if_splits)

lemma Transition_to_ok_nonterminal: "Transition_to f to = (f', Inr r) \<Longrightarrow> \<not> IsTerminal f"
  by (auto simp: Transition_to_def Let_def split: if_splits)

lemma Transition_to_ok_count:
  "Transition_to f to = (f', Inr r) \<Longrightarrow>
     ls_TransitionCount (fsm_state f') = ls_TransitionCount (fsm_state f) + 1"
  by (cases rule: Transition_to_cases [of f to]) auto

lemma ResolveNextState_in_transitions:
  assumes "ResolveNextState def cur verdict = Inr next"
  shows "\<exists>t \<in> set (ld_Transitions def). tr_From t = cur \<and> tr_To t = next"
proof -
  let ?c = "filter (\<lambda>t. tr_From t = cur) (ld_Transitions def)"
  have "next \<in> tr_To ` set ?c"
    using assms hd_in_set [of ?c]
    by (auto simp: ResolveNextState_def Let_def find_Some_iff in_set_conv_nth
             simp del: set_filter split: if_splits option.splits intro!: image_eqI)
  then show ?thesis by auto
qed


section \<open>Runs\<close>

text \<open>A sequence of transitions, as the hops of a loop make them; the first error stops it.\<close>

fun run_transitions :: "FSM \<Rightarrow> string list \<Rightarrow> loop_error + FSM" where
  "run_transitions f [] = Inr f"
| "run_transitions f (to # tos) =
     (case Transition_to f to of
        (f', Inl e) \<Rightarrow> Inl e
      | (f', Inr r) \<Rightarrow> run_transitions f' tos)"

lemma run_transitions_inv:
  "run_transitions f tos = Inr f' \<Longrightarrow> fsm_inv def f \<Longrightarrow> fsm_inv def f'"
proof (induction tos arbitrary: f)
  case Nil
  then show ?case by simp
next
  case (Cons to tos)
  obtain g r where g: "Transition_to f to = (g, Inr r)" and run: "run_transitions g tos = Inr f'"
    using Cons.prems(1) by (auto split: prod.splits sum.splits)
  have "fsm_inv def g"
    using fsm_inv_transition [OF Cons.prems(2), of to] g by simp
  with run show ?case by (rule Cons.IH)
qed

lemma run_transitions_count:
  "run_transitions f tos = Inr f' \<Longrightarrow>
     ls_TransitionCount (fsm_state f') = ls_TransitionCount (fsm_state f) + int (length tos)"
proof (induction tos arbitrary: f)
  case (Cons to tos)
  then obtain g r where "Transition_to f to = (g, Inr r)" and "run_transitions g tos = Inr f'"
    by (auto split: prod.splits sum.splits)
  with Cons.IH [of g] show ?case
    by (simp add: Transition_to_ok_count)
qed simp

lemma run_transitions_count_le:
  "run_transitions f tos = Inr f' \<Longrightarrow> fsm_inv def f \<Longrightarrow>
     ls_TransitionCount (fsm_state f) \<le> ld_MaxTransitions def + 1 \<Longrightarrow>
     ls_TransitionCount (fsm_state f') \<le> ld_MaxTransitions def + 1"
proof (induction tos arbitrary: f)
  case (Cons to tos)
  obtain g r where g: "Transition_to f to = (g, Inr r)" and run: "run_transitions g tos = Inr f'"
    using Cons.prems(1) by (auto split: prod.splits sum.splits)
  have "\<not> ls_TransitionCount (fsm_state f) > ld_MaxTransitions def"
    using g Cons.prems(2) by (auto dest: Transition_to_ok_nonterminal fsm_inv_over_budget_terminal)
  then have "ls_TransitionCount (fsm_state g) \<le> ld_MaxTransitions def + 1"
    by (simp add: Transition_to_ok_count [OF g])
  moreover have "fsm_inv def g"
    using fsm_inv_transition [OF Cons.prems(2), of to] g by simp
  ultimately show ?case using run by (intro Cons.IH [of g])
qed simp

section \<open>Agents of states and choices of verdicts\<close>

lemma AgentForState_working:
  assumes "well_formed_loop def" and "s \<in> set (StateNames def)"
    and "s \<notin> set (ld_TerminalStates def)"
  shows "AgentForState def s \<noteq> ''''"
proof -
  obtain sc where "find (\<lambda>sc. sc_Name sc = s) (ld_States def) = Some sc"
    using assms(2) by (cases "find (\<lambda>sc. sc_Name sc = s) (ld_States def)")
      (auto simp: StateNames_def find_None_iff)
  moreover from this have "sc \<in> set (ld_States def)" and "sc_Name sc = s"
    by (auto simp: find_Some_iff)
  ultimately show ?thesis
    using assms(1,3) by (auto simp: AgentForState_def well_formed_loop_def)
qed

lemma ResolveNextState_ok:
  "(\<exists>n. ResolveNextState def cur v = Inr n) \<longleftrightarrow>
     (\<exists>t \<in> set (ld_Transitions def). tr_From t = cur \<and> (tr_Condition t = '''' \<or> tr_Condition t = v))"
  (is "?l \<longleftrightarrow> ?r")
proof -
  let ?c = "filter (\<lambda>t. tr_From t = cur) (ld_Transitions def)"
  have "?r \<longleftrightarrow> (\<exists>t \<in> set ?c. tr_Condition t = '''' \<or> tr_Condition t = v)"
    by auto
  also have "\<dots> \<longleftrightarrow> ?l"
  proof (cases "?c = []")
    case True
    then show ?thesis by (simp add: ResolveNextState_def)
  next
    case False
    then show ?thesis
      by (auto simp: ResolveNextState_def Let_def find_None_iff simp del: set_filter filter_empty_conv
               split: option.splits dest!: find_SomeD intro: bexI [OF _ hd_in_set])
  qed
  finally show ?thesis ..
qed

lemma Transition_to_resolved:
  assumes "reachable_fsm def f" and "\<not> IsTerminal f"
    and "ResolveNextState def (ls_CurrentState (fsm_state f)) v = Inr n"
  shows "Transition_to f n =
    (if ls_TransitionCount (fsm_state f) \<ge> ld_MaxTransitions def
     then (move f ''ESCALATED'', Inr Escalated) else (move f n, Inr Transitioned))"
proof -
  have "fsm_def f = def"
    using reachable_fsm_inv [OF assms(1)] by (simp add: fsm_inv_def)
  with assms(2) ResolveNextState_in_transitions [OF assms(3)] show ?thesis
    by (auto simp: Transition_to_def Let_def)
qed


section \<open>Properties\<close>

text \<open>A two-party review loop, for the closed instances of the properties.\<close>

definition demo_loop :: LoopDefinition where
  "demo_loop = \<lparr>ld_ID = ''l1'', ld_Participants = [''dev'', ''arch''],
     ld_States = [\<lparr>sc_Name = ''WORKING'', sc_Agent = ''dev'', sc_ReviewGuidelines = ''''\<rparr>,
                  \<lparr>sc_Name = ''REVIEWING'', sc_Agent = ''arch'', sc_ReviewGuidelines = ''be strict''\<rparr>,
                  \<lparr>sc_Name = ''APPROVED'', sc_Agent = '''', sc_ReviewGuidelines = ''''\<rparr>,
                  \<lparr>sc_Name = ''ESCALATED'', sc_Agent = '''', sc_ReviewGuidelines = ''''\<rparr>],
     ld_Transitions = [\<lparr>tr_From = ''WORKING'', tr_To = ''REVIEWING'', tr_Condition = ''''\<rparr>,
                       \<lparr>tr_From = ''REVIEWING'', tr_To = ''APPROVED'', tr_Condition = ''approved''\<rparr>,
                       \<lparr>tr_From = ''REVIEWING'', tr_To = ''WORKING'', tr_Condition = ''revise''\<rparr>],
     ld_InitialState = ''WORKING'', ld_TerminalStates = [''APPROVED'', ''ESCALATED''],
     ld_MaxTransitions = 2\<rparr>"

definition demo_fsm :: FSM where
  "demo_fsm = \<lparr>fsm_def = demo_loop, fsm_state = \<lparr>ls_LoopID = ''l1'',
     ls_CurrentState = ''WORKING'', ls_TransitionCount = 0\<rparr>\<rparr>"

lemma demo_loop_valid: "well_formed_loop demo_loop"
  by (simp add: well_formed_loop_def demo_loop_def StateNames_def)

lemma demo_fsm_new: "NewFSM demo_loop = Inr demo_fsm"
  by (simp add: NewFSM_Inr demo_loop_valid) (simp add: demo_fsm_def demo_loop_def)

text \<open>
  Claim C3: a loop is bounded. However its hops choose their targets, a run of a new FSM makes at
  most \<open>MaxTransitions + 1\<close> successful transitions, the counter equals the number of them, and the
  run that makes one more than \<open>MaxTransitions\<close> has ended in the terminal state \<open>ESCALATED\<close>.
\<close>

theorem loop_run_bounded:
  assumes "NewFSM def = Inr f" and "run_transitions f tos = Inr f'"
  shows "int (length tos) \<le> ld_MaxTransitions def + 1 \<and>
    ls_TransitionCount (fsm_state f') = int (length tos) \<and>
    (int (length tos) = ld_MaxTransitions def + 1 \<longrightarrow>
       IsTerminal f' \<and> ls_CurrentState (fsm_state f') = ''ESCALATED'')"
proof -
  have inv: "fsm_inv def f" using assms(1) by (rule fsm_inv_new)
  have "ls_TransitionCount (fsm_state f) = 0" using assms(1) by (auto simp: NewFSM_Inr)
  then have n: "ls_TransitionCount (fsm_state f') = int (length tos)"
    using run_transitions_count [OF assms(2)] by simp
  have inv': "fsm_inv def f'" using assms(2) inv by (rule run_transitions_inv)
  moreover have "ls_TransitionCount (fsm_state f') \<le> ld_MaxTransitions def + 1"
    using run_transitions_count_le [OF assms(2) inv] assms(1)
    by (auto simp: NewFSM_Inr well_formed_loop_def)
  ultimately show ?thesis
    using n fsm_inv_over_budget_terminal [OF inv'] by (auto simp: fsm_inv_def)
qed

theorem loop_run_bounded_witness:
  "\<exists>f'. run_transitions demo_fsm [''REVIEWING'', ''WORKING'', ''REVIEWING''] = Inr f' \<and>
     int (length [''REVIEWING'', ''WORKING'', ''REVIEWING'']) \<le> ld_MaxTransitions demo_loop + 1 \<and>
     IsTerminal f'"
proof -
  have "run_transitions demo_fsm [''REVIEWING'', ''WORKING'', ''REVIEWING''] =
      Inr (move (move (move demo_fsm ''REVIEWING'') ''WORKING'') ''ESCALATED'')" (is "?r = Inr ?f")
    by code_simp
  from loop_run_bounded [OF demo_fsm_new this] this show ?thesis
    by (simp add: demo_loop_def)
qed

text \<open>
  No reachable FSM is stuck or lost. Its current state is a state of the definition, and
  either that state is terminal or it has an agent to run it, some verdict resolves to a next
  state, and every resolved next state is a transition the FSM accepts: it moves there, or to
  \<open>ESCALATED\<close> when the budget of transitions is used up.
\<close>

theorem loop_reachable_progress:
  assumes "reachable_fsm def f"
  shows "ls_CurrentState (fsm_state f) \<in> set (StateNames def) \<and>
    (IsTerminal f \<or>
      AgentForState def (ls_CurrentState (fsm_state f)) \<noteq> '''' \<and>
      (\<exists>v n. ResolveNextState def (ls_CurrentState (fsm_state f)) v = Inr n) \<and>
      (\<forall>v n. ResolveNextState def (ls_CurrentState (fsm_state f)) v = Inr n \<longrightarrow>
         Transition_to f n =
           (if ls_TransitionCount (fsm_state f) \<ge> ld_MaxTransitions def
            then (move f ''ESCALATED'', Inr Escalated) else (move f n, Inr Transitioned))))"
proof (cases "IsTerminal f")
  case True
  then show ?thesis using reachable_fsm_inv [OF assms] by (simp add: fsm_inv_def)
next
  case False
  let ?s = "ls_CurrentState (fsm_state f)"
  have wf: "well_formed_loop def" and s: "?s \<in> set (StateNames def)" and "fsm_def f = def"
    using reachable_fsm_inv [OF assms] by (auto simp: fsm_inv_def)
  with False have nt: "?s \<notin> set (ld_TerminalStates def)" by (simp add: IsTerminal_def)
  obtain t where "t \<in> set (ld_Transitions def)" and "tr_From t = ?s"
    using wf s nt by (auto simp: well_formed_loop_def StateNames_def)
  then have "\<exists>n. ResolveNextState def ?s (tr_Condition t) = Inr n"
    by (auto simp: ResolveNextState_ok)
  then show ?thesis
    using s AgentForState_working [OF wf s nt] Transition_to_resolved [OF assms False] by blast
qed

theorem loop_reachable_progress_witness:
  "reachable_fsm demo_loop demo_fsm \<and>
   AgentForState demo_loop ''WORKING'' \<noteq> '''' \<and>
   Transition_to demo_fsm ''REVIEWING'' = (move demo_fsm ''REVIEWING'', Inr Transitioned)"
proof -
  have r: "reachable_fsm demo_loop demo_fsm"
    by (rule reachable_fsm.new [OF demo_fsm_new])
  have "\<not> IsTerminal demo_fsm" "ls_CurrentState (fsm_state demo_fsm) = ''WORKING''"
    "ResolveNextState demo_loop ''WORKING'' '''' = Inr ''REVIEWING''"
    "\<not> ls_TransitionCount (fsm_state demo_fsm) \<ge> ld_MaxTransitions demo_loop"
    by (simp_all add: IsTerminal_def demo_fsm_def demo_loop_def ResolveNextState_def)
  with loop_reachable_progress [OF r] r show ?thesis by auto
qed

text \<open>
  Which verdicts a state can act on. The next state resolves exactly when the state has an
  outgoing transition without a condition or one whose condition is the verdict; in particular a
  review whose verdict could not be extracted is an error in a state all of whose outgoing
  transitions are conditional.
\<close>

theorem resolve_succeeds_iff:
  "(\<exists>n. ResolveNextState def cur v = Inr n) =
     (\<exists>t \<in> set (ld_Transitions def). tr_From t = cur \<and> (tr_Condition t = '''' \<or> tr_Condition t = v))"
  by (rule ResolveNextState_ok)

end
