(* ===== verification/TaskGraph.thy ===== *)
theory TaskGraph
  imports Loop
begin

text \<open>
  The task graph of a request (internal/taskgraph/types.go). A pointer \<open>*TaskNode\<close> that may be nil
  is an option; the pointers in a graph's slice of tasks never are. A duration is a number of
  nanoseconds. The status and the scope are Go string types: a value outside the declared
  constants, which decoded JSON or YAML can carry, is \<open>StatusOther\<close> or \<open>ScopeOther\<close>.
\<close>

datatype TaskStatus =
    StatusPending | StatusRunning | StatusCompleted | StatusFailed | StatusEscalated
  | StatusCancelled | StatusOther string

datatype TaskScope = ScopeSmall | ScopeStandard | ScopeLarge | ScopeOther string

fun EffectiveScope :: "TaskScope \<Rightarrow> TaskScope" where
  "EffectiveScope ScopeSmall = ScopeSmall"
| "EffectiveScope ScopeStandard = ScopeStandard"
| "EffectiveScope ScopeLarge = ScopeLarge"
| "EffectiveScope _ = ScopeStandard"

record ArtifactFile =
  af_URI :: string
  af_MimeType :: string
  af_Name :: string

record TaskNode =
  tn_ID :: string
  tn_Agent :: string
  tn_Profile :: string
  tn_Description :: string
  tn_DependsOn :: "string list"
  tn_LoopID :: string
  tn_Scope :: TaskScope
  tn_Timeout :: int
  tn_Budget :: int
  tn_Status :: TaskStatus
  tn_Result :: string
  tn_ArtifactURI :: string
  tn_ArtifactFiles :: "ArtifactFile list"
  tn_AssignedInstance :: string
  tn_ExecutionNode :: string
  tn_LeaseEpoch :: int
  tn_ChatContext :: string

definition TargetProfile :: "TaskNode option \<Rightarrow> string" where
  "TargetProfile t =
     (case t of
        None \<Rightarrow> ''''
      | Some t \<Rightarrow> if tn_Profile t \<noteq> '''' then tn_Profile t else tn_Agent t)"

definition ExecutionTarget :: "TaskNode option \<Rightarrow> string" where
  "ExecutionTarget t =
     (case t of
        None \<Rightarrow> ''''
      | Some n \<Rightarrow> if tn_AssignedInstance n \<noteq> '''' then tn_AssignedInstance n else TargetProfile t)"

record TaskGraph =
  tg_RequestID :: string
  tg_Name :: string
  tg_Tasks :: "TaskNode list"
  tg_Loops :: "LoopDefinition list"

definition Get :: "TaskGraph \<Rightarrow> string \<Rightarrow> TaskNode option" where
  "Get g tid = find (\<lambda>t. tn_ID t = tid) (tg_Tasks g)"

definition GetLoop :: "TaskGraph \<Rightarrow> string \<Rightarrow> LoopDefinition option" where
  "GetLoop g tid = find (\<lambda>l. ld_ID l = tid) (tg_Loops g)"

section \<open>Tasks of a slice by their ID\<close>

abbreviation task_ids :: "TaskNode list \<Rightarrow> string list" where
  "task_ids ts \<equiv> map tn_ID ts"

text \<open>
  Writing through the pointer that \<open>Get\<close> returns changes the first task with the ID.
\<close>

fun update_task :: "string \<Rightarrow> (TaskNode \<Rightarrow> TaskNode) \<Rightarrow> TaskNode list \<Rightarrow> TaskNode list" where
  "update_task tid f [] = []"
| "update_task tid f (t # ts) = (if tn_ID t = tid then f t # ts else t # update_task tid f ts)"

lemma find_task:
  "distinct (task_ids ts) \<Longrightarrow> t \<in> set ts \<Longrightarrow> find (\<lambda>u. tn_ID u = tn_ID t) ts = Some t"
  by (induction ts) (auto simp: image_iff)

lemma find_task_iff:
  "distinct (task_ids ts) \<Longrightarrow>
     find (\<lambda>u. tn_ID u = tid) ts = Some t \<longleftrightarrow> t \<in> set ts \<and> tn_ID t = tid"
  by (auto dest: find_SomeD find_task)

lemma find_task_None: "find (\<lambda>u. tn_ID u = tid) ts = None \<longleftrightarrow> tid \<notin> set (task_ids ts)"
  by (auto simp: find_None_iff)

lemma update_task_map:
  "distinct (task_ids ts) \<Longrightarrow> update_task tid f ts = map (\<lambda>t. if tn_ID t = tid then f t else t) ts"
proof (induction ts)
  case (Cons t ts)
  have "map (\<lambda>u. if tn_ID u = tid then f u else u) ts = ts" if "tn_ID t = tid"
    using Cons.prems that by (auto intro!: map_idI simp: image_iff)
  with Cons show ?case by auto
qed simp

lemma task_ids_update [simp]:
  "(\<And>t. tn_ID (f t) = tn_ID t) \<Longrightarrow> task_ids (update_task tid f ts) = task_ids ts"
  by (induction ts) auto

lemma unique_task:
  "distinct (task_ids ts) \<Longrightarrow> t \<in> set ts \<Longrightarrow> u \<in> set ts \<Longrightarrow> tn_ID t = tn_ID u \<Longrightarrow> t = u"
  by (metis find_task option.inject)

end
