(* ===== verification/Dag.thy ===== *)
theory Dag
  imports TaskGraph
begin

text \<open>
  The task graph as a DAG (internal/taskgraph/dag.go): validation, Kahn's topological sort, the
  tasks that are ready to run, and the two breadth-first traversals (the cascade of a failure to the
  dependents, the search for a dependent in a given status). The two loops over a queue are
  defined with a measure: the queue plus what can still be pushed on it.
\<close>

section \<open>Dependents\<close>

text \<open>
  The map \<open>dependents\<close> every traversal starts by building, as a lookup: one entry per occurrence of
  \<open>dep\<close> in a \<open>DependsOn\<close>, in the order of the tasks.
\<close>

definition dependents :: "TaskNode list \<Rightarrow> string \<Rightarrow> string list" where
  "dependents ts dep = concat (map (\<lambda>t. map (\<lambda>_. tn_ID t) (filter (\<lambda>d. d = dep) (tn_DependsOn t))) ts)"

definition dep_edges :: "TaskNode list \<Rightarrow> (string \<times> string) set" where
  "dep_edges ts = {(d, tn_ID t) | d t. t \<in> set ts \<and> d \<in> set (tn_DependsOn t)}"

lemma set_dependents: "set (dependents ts dep) = {c. (dep, c) \<in> dep_edges ts}"
  by (auto simp: dependents_def dep_edges_def)

lemma dep_edges_target: "(a, b) \<in> dep_edges ts \<Longrightarrow> b \<in> set (task_ids ts)"
  by (auto simp: dep_edges_def)

lemma dep_edges_trancl_target: "(a, b) \<in> (dep_edges ts)\<^sup>+ \<Longrightarrow> b \<in> set (task_ids ts)"
  by (induction rule: trancl_induct) (auto dest: dep_edges_target)

lemma count_dependents:
  "distinct (task_ids ts) \<Longrightarrow> t \<in> set ts \<Longrightarrow>
     count_list (dependents ts dep) (tn_ID t) = count_list (tn_DependsOn t) dep"
proof (induction ts)
  case (Cons u ts)
  have repl: "count_list (map (\<lambda>_. i) (filter (\<lambda>d. d = dep) ds)) j =
      (if i = j then count_list ds dep else 0)" for i j and ds :: "string list"
    by (induction ds) auto
  have absent: "count_list (dependents ts dep) (tn_ID u) = 0"
    using Cons.prems(1) by (auto simp: set_dependents dep_edges_def image_iff intro!: count_notin)
  show ?case
  proof (cases "t = u")
    case True
    with absent show ?thesis by (simp add: dependents_def repl)
  next
    case False
    with Cons show ?thesis by (auto simp: dependents_def repl image_iff)
  qed
qed simp

section \<open>Kahn's algorithm (TopologicalSort)\<close>

definition inDegree0 :: "TaskNode list \<Rightarrow> (string, int) gomap" where
  "inDegree0 ts = foldl (\<lambda>m t. mput (tn_ID t) (int (length (tn_DependsOn t))) m) [] ts"

text \<open>The inner loop: decrement each dependent, and queue it when it reaches zero.\<close>

fun release :: "(string, int) gomap \<times> string list \<Rightarrow> string list \<Rightarrow> (string, int) gomap \<times> string list" where
  "release (deg, q) [] = (deg, q)"
| "release (deg, q) (dep # ds) =
     (let n = mget0 0 deg dep - 1
      in release (mput dep n deg, if n = 0 then q @ [dep] else q) ds)"

definition positive :: "(string, int) gomap \<Rightarrow> nat" where
  "positive deg = length (filter (\<lambda>(k, v). 0 < v) deg)"

lemma positive_mput_Some:
  "mget deg k = Some v \<Longrightarrow>
     positive (mput k w deg) + (if 0 < v then 1 else 0) = positive deg + (if 0 < w then 1 else 0)"
  by (induction deg) (auto simp: positive_def)

lemma positive_mput_None:
  "mget deg k = None \<Longrightarrow> positive (mput k w deg) = positive deg + (if 0 < w then 1 else 0)"
  by (induction deg) (auto simp: positive_def)

lemma release_measure:
  "release (deg, q) ds = (deg', q') \<Longrightarrow> length q' + positive deg' \<le> length q + positive deg"
proof (induction ds arbitrary: deg q)
  case (Cons d ds)
  let ?n = "mget0 0 deg d - 1"
  let ?q = "if ?n = 0 then q @ [d] else q"
  have "length ?q + positive (mput d ?n deg) \<le> length q + positive deg"
  proof (cases "mget deg d")
    case None
    then show ?thesis by (simp add: mget0_def positive_mput_None)
  next
    case (Some v)
    then show ?thesis
      using positive_mput_Some [OF Some, of "v - 1"]
      by (cases "v = 1") (auto simp: mget0_def split: if_splits)
  qed
  moreover have "length q' + positive deg' \<le> length ?q + positive (mput d ?n deg)"
    using Cons.prems by (intro Cons.IH) (simp add: Let_def)
  ultimately show ?case by simp
qed simp

function kahn :: "(string \<Rightarrow> string list) \<Rightarrow> (string, int) gomap \<Rightarrow> string list \<Rightarrow> string list \<Rightarrow> string list" where
  "kahn deps deg [] out = out"
| "kahn deps deg (x # queue) out =
     (let r = release (deg, queue) (deps x) in kahn deps (fst r) (snd r) (out @ [x]))"
  by pat_completeness auto
termination
  by (relation "measure (\<lambda>(deps, deg, queue, out). length queue + positive deg)")
     (auto simp: less_Suc_eq_le intro!: release_measure)

datatype graph_error =
    EmptyTaskID
  | DuplicateTaskID string
  | UnknownDependency string string
  | SelfDependency string
  | GraphCycle
  | LoopValidation loop_error
  | UnknownLoop string string
  | UnknownAgent string string "string list"
  | UnknownLoopAgent string string string

definition TopologicalSort :: "TaskGraph \<Rightarrow> graph_error + string list" where
  "TopologicalSort g =
     (let ts = tg_Tasks g;
          deg = inDegree0 ts;
          queue = filter (\<lambda>i. mget0 0 deg i = 0) (task_ids ts);
          out = kahn (dependents ts) deg queue []
      in if length out \<noteq> length ts then Inl GraphCycle else Inr out)"


section \<open>Correctness of the sort\<close>

text \<open>\<open>topo ts xs\<close>: every task of \<open>xs\<close> comes after all its dependencies.\<close>

definition topo :: "TaskNode list \<Rightarrow> string list \<Rightarrow> bool" where
  "topo ts xs \<longleftrightarrow>
     (\<forall>ys x zs t. xs = ys @ x # zs \<longrightarrow> t \<in> set ts \<longrightarrow> tn_ID t = x \<longrightarrow> set (tn_DependsOn t) \<subseteq> set ys)"

lemma topo_Nil [simp]: "topo ts []"
  by (simp add: topo_def)

lemma topo_snoc:
  "topo ts (xs @ [x]) \<longleftrightarrow>
     topo ts xs \<and> (\<forall>t \<in> set ts. tn_ID t = x \<longrightarrow> set (tn_DependsOn t) \<subseteq> set xs)" (is "?l \<longleftrightarrow> ?r")
proof
  assume l: ?l
  have "topo ts xs"
    unfolding topo_def
  proof (intro allI impI)
    fix ys y zs t
    assume "xs = ys @ y # zs" "t \<in> set ts" "tn_ID t = y"
    moreover from this have "xs @ [x] = ys @ y # (zs @ [x])" by simp
    ultimately show "set (tn_DependsOn t) \<subseteq> set ys"
      using l unfolding topo_def by blast
  qed
  with l show ?r unfolding topo_def by blast
next
  assume r: ?r
  show ?l
    unfolding topo_def
  proof (intro allI impI)
    fix ys y zs t
    assume eq: "xs @ [x] = ys @ y # zs" and t: "t \<in> set ts" "tn_ID t = y"
    show "set (tn_DependsOn t) \<subseteq> set ys"
    proof (cases zs rule: rev_cases)
      case Nil
      with eq r t show ?thesis by auto
    next
      case (snoc vs v)
      with eq have "xs = ys @ y # vs" by simp
      with r t show ?thesis unfolding topo_def by blast
    qed
  qed
qed

lemma release_spec:
  "release (deg, q) ds = (deg', q') \<Longrightarrow>
     (\<forall>x. mget0 0 deg' x = mget0 0 deg x - int (count_list ds x)) \<and>
     (\<exists>new. q' = q @ new \<and> distinct new \<and>
        set new = {x. 0 < mget0 0 deg x \<and> mget0 0 deg x \<le> int (count_list ds x)})"
proof (induction ds arbitrary: deg q)
  case Nil
  then show ?case by auto
next
  case (Cons d ds)
  let ?n = "mget0 0 deg d - 1"
  let ?deg = "mput d ?n deg"
  let ?q = "if ?n = 0 then q @ [d] else q"
  have "release (?deg, ?q) ds = (deg', q')"
    using Cons.prems by (simp add: Let_def)
  from Cons.IH [OF this] obtain new where
    deg': "\<forall>x. mget0 0 deg' x = mget0 0 ?deg x - int (count_list ds x)" and
    q': "q' = ?q @ new" and dist: "distinct new" and
    new: "set new = {x. 0 < mget0 0 ?deg x \<and> mget0 0 ?deg x \<le> int (count_list ds x)}"
    by blast
  have "q' = q @ ((if ?n = 0 then [d] else []) @ new)" using q' by simp
  moreover have "distinct ((if ?n = 0 then [d] else []) @ new)"
    using dist new by auto
  moreover have "set ((if ?n = 0 then [d] else []) @ new) =
      {x. 0 < mget0 0 deg x \<and> mget0 0 deg x \<le> int (count_list (d # ds) x)}" (is "?A = ?B")
  proof (rule set_eqI)
    fix x
    have "x \<in> set new \<longleftrightarrow> 0 < mget0 0 ?deg x \<and> mget0 0 ?deg x \<le> int (count_list ds x)"
      using new by blast
    then show "x \<in> ?A \<longleftrightarrow> x \<in> ?B" by (cases "x = d") auto
  qed
  moreover have "\<forall>x. mget0 0 deg' x = mget0 0 deg x - int (count_list (d # ds) x)"
    using deg' by auto
  ultimately show ?case by blast
qed

text \<open>The invariant of the loop over the queue.\<close>

definition kahn_inv :: "TaskNode list \<Rightarrow> (string, int) gomap \<Rightarrow> string list \<Rightarrow> string list \<Rightarrow> bool" where
  "kahn_inv ts deg queue out \<longleftrightarrow>
     (\<forall>t \<in> set ts. mget0 0 deg (tn_ID t) =
        int (length (filter (\<lambda>d. d \<notin> set out) (tn_DependsOn t)))) \<and>
     distinct (out @ queue) \<and>
     set (out @ queue) = {tn_ID t | t. t \<in> set ts \<and> mget0 0 deg (tn_ID t) = 0} \<and>
     topo ts out"

lemma count_filter_notin:
  "x \<notin> A \<Longrightarrow> length (filter (\<lambda>d. d \<notin> insert x A) ds) =
     length (filter (\<lambda>d. d \<notin> A) ds) - count_list ds x \<and>
     count_list ds x \<le> length (filter (\<lambda>d. d \<notin> A) ds)"
  by (induction ds) (auto simp: Suc_diff_le)

lemma kahn_inv_step:
  assumes ids: "distinct (task_ids ts)" and inv: "kahn_inv ts deg (x # queue) out"
    and rel: "release (deg, queue) (dependents ts x) = (deg', q')"
  shows "kahn_inv ts deg' q' (out @ [x])"
proof -
  obtain new where
    deg': "\<And>y. mget0 0 deg' y = mget0 0 deg y - int (count_list (dependents ts x) y)" and
    q': "q' = queue @ new" and dist: "distinct new" and
    new: "set new = {y. 0 < mget0 0 deg y \<and> mget0 0 deg y \<le> int (count_list (dependents ts x) y)}"
    using release_spec [OF rel] by blast
  have x: "x \<notin> set out" and d0: "distinct (out @ x # queue)"
    and zero: "set (out @ x # queue) = {tn_ID t | t. t \<in> set ts \<and> mget0 0 deg (tn_ID t) = 0}"
    and old: "\<And>t. t \<in> set ts \<Longrightarrow> mget0 0 deg (tn_ID t) =
        int (length (filter (\<lambda>d. d \<notin> set out) (tn_DependsOn t)))"
    using inv by (auto simp: kahn_inv_def)
  have cnt: "mget0 0 deg' (tn_ID t) =
      int (length (filter (\<lambda>d. d \<notin> set (out @ [x])) (tn_DependsOn t)))" if "t \<in> set ts" for t
    using that deg' [of "tn_ID t"] old [OF that] count_dependents [OF ids that, of x]
      count_filter_notin [OF x, of "tn_DependsOn t"] by (simp add: of_nat_diff)
  have ids_new: "y \<in> set (task_ids ts)" if "y \<in> set new" for y
  proof -
    have "count_list (dependents ts x) y \<noteq> 0" using that new by auto
    then have "(x, y) \<in> dep_edges ts" by (auto simp: count_list_0_iff set_dependents)
    then show ?thesis by (rule dep_edges_target)
  qed
  have "set ((out @ [x]) @ q') = {tn_ID t | t. t \<in> set ts \<and> mget0 0 deg' (tn_ID t) = 0}"
  proof (intro equalityI subsetI)
    fix y assume "y \<in> set ((out @ [x]) @ q')"
    then consider (old) "y \<in> set (out @ x # queue)" | (new) "y \<in> set new" using q' by auto
    then show "y \<in> {tn_ID t | t. t \<in> set ts \<and> mget0 0 deg' (tn_ID t) = 0}"
    proof cases
      case old
      then obtain t where t: "t \<in> set ts" "y = tn_ID t" "mget0 0 deg (tn_ID t) = 0"
        using zero by auto
      then have "mget0 0 deg' (tn_ID t) = 0"
        using deg' [of "tn_ID t"] cnt [OF t(1)] by simp
      with t show ?thesis by auto
    next
      case new
      then obtain t where t: "t \<in> set ts" "y = tn_ID t" using ids_new by auto
      have "mget0 0 deg' (tn_ID t) \<le> 0" using new t(2) \<open>set new = _\<close> deg' by auto
      with cnt [OF t(1)] t show ?thesis by auto
    qed
  next
    fix y assume "y \<in> {tn_ID t | t. t \<in> set ts \<and> mget0 0 deg' (tn_ID t) = 0}"
    then obtain t where t: "t \<in> set ts" "y = tn_ID t" "mget0 0 deg' (tn_ID t) = 0" by auto
    show "y \<in> set ((out @ [x]) @ q')"
    proof (cases "mget0 0 deg (tn_ID t) = 0")
      case True
      with t zero show ?thesis using q' by auto
    next
      case False
      then have "0 < mget0 0 deg (tn_ID t)" using old [OF t(1)] by simp
      then have "y \<in> set new" using new t deg' [of "tn_ID t"] by simp
      then show ?thesis using q' by simp
    qed
  qed
  moreover have "distinct ((out @ [x]) @ q')"
  proof -
    have "set new \<inter> set (out @ x # queue) = {}" using new zero by auto
    then show ?thesis using d0 dist q' by auto
  qed
  moreover have "topo ts (out @ [x])"
  proof -
    have "set (tn_DependsOn t) \<subseteq> set out" if "t \<in> set ts" "tn_ID t = x" for t
    proof -
      have "mget0 0 deg (tn_ID t) = 0" using zero that ids by (auto dest: unique_task)
      with old [OF that(1)] show ?thesis by (auto simp: filter_empty_conv)
    qed
    with inv show ?thesis by (auto simp: topo_snoc kahn_inv_def)
  qed
  ultimately show ?thesis using cnt by (auto simp: kahn_inv_def)
qed

lemma kahn_result:
  "kahn_inv ts deg queue out \<Longrightarrow> distinct (task_ids ts) \<Longrightarrow>
     \<exists>deg'. kahn_inv ts deg' [] (kahn (dependents ts) deg queue out)"
proof (induction "dependents ts" deg queue out rule: kahn.induct)
  case (1 deg out)
  then show ?case by auto
next
  case (2 deg x queue out)
  let ?r = "release (deg, queue) (dependents ts x)"
  have "kahn_inv ts (fst ?r) (snd ?r) (out @ [x])"
    using kahn_inv_step [OF 2(3,2), of "fst ?r" "snd ?r"] by simp
  with 2(1) [OF refl] 2(3) show ?case by (simp add: Let_def)
qed


definition closed_deps :: "TaskNode list \<Rightarrow> bool" where
  "closed_deps ts \<longleftrightarrow> (\<forall>t \<in> set ts. set (tn_DependsOn t) \<subseteq> set (task_ids ts))"

lemma inDegree_absent:
  "i \<notin> set (task_ids ts) \<Longrightarrow>
   mget0 0 (foldl (\<lambda>m t. mput (tn_ID t) (int (length (tn_DependsOn t))) m) m0 ts) i = mget0 0 m0 i"
  by (induction ts arbitrary: m0) auto

lemma inDegree_foldl:
  "distinct (task_ids ts) \<Longrightarrow> t \<in> set ts \<Longrightarrow>
   mget0 0 (foldl (\<lambda>m t. mput (tn_ID t) (int (length (tn_DependsOn t))) m) m0 ts) (tn_ID t) =
     int (length (tn_DependsOn t))"
proof (induction ts arbitrary: m0)
  case (Cons u ts)
  then show ?case by (cases "t = u") (auto simp: inDegree_absent)
qed simp

lemma inDegree0_spec:
  "distinct (task_ids ts) \<Longrightarrow> t \<in> set ts \<Longrightarrow>
     mget0 0 (inDegree0 ts) (tn_ID t) = int (length (tn_DependsOn t))"
  unfolding inDegree0_def by (rule inDegree_foldl)

lemma kahn_inv_init:
  "distinct (task_ids ts) \<Longrightarrow>
   kahn_inv ts (inDegree0 ts) (filter (\<lambda>i. mget0 0 (inDegree0 ts) i = 0) (task_ids ts)) []"
  by (auto simp: kahn_inv_def inDegree0_spec)

text \<open>A topological order of all tasks makes the dependency relation acyclic.\<close>

lemma topo_acyclic:
  assumes "topo ts xs" and "distinct xs" and "set xs = set (task_ids ts)"
  shows "acyclic (dep_edges ts)"
proof (rule wf_acyclic, rule wf_subset [OF wf_measure])
  let ?idx = "\<lambda>x. length (takeWhile (\<lambda>y. y \<noteq> x) xs)"
  show "dep_edges ts \<subseteq> measure ?idx"
  proof (rule subrelI)
    fix a b assume "(a, b) \<in> dep_edges ts"
    then obtain t where t: "t \<in> set ts" "b = tn_ID t" "a \<in> set (tn_DependsOn t)"
      by (auto simp: dep_edges_def)
    then obtain ys zs where xs: "xs = ys @ b # zs"
      using assms(3) by (metis image_eqI list.set_map split_list)
    then have "a \<in> set ys" using assms(1) t by (auto simp: topo_def)
    then obtain us vs where ys: "ys = us @ a # vs" "a \<notin> set us" by (metis split_list_first)
    have tw: "takeWhile (\<lambda>y. y \<noteq> c) (ps @ c # qs) = ps" if "c \<notin> set ps" for c and ps qs :: "string list"
      using that by (induction ps) auto
    have "?idx a = length us" using tw [of a us "vs @ b # zs"] ys xs by simp
    moreover have "?idx b = length ys" using tw [of b ys zs] assms(2) xs by simp
    moreover have "length us < length ys" using ys by simp
    ultimately show "(a, b) \<in> measure ?idx" by simp
  qed
qed

text \<open>Tasks each of which waits for another of them: there is a cycle.\<close>

lemma waiting_cycle:
  assumes "R \<noteq> {}" and "finite R" and "\<And>x. x \<in> R \<Longrightarrow> \<exists>y \<in> R. (y, x) \<in> E"
  shows "\<not> acyclic E"
proof
  assume "acyclic E"
  then have "acyclic (E \<inter> R \<times> R)" by (rule acyclic_subset) auto
  then have "wf (E \<inter> R \<times> R)" using assms(2) by (simp add: finite_acyclic_wf)
  moreover obtain x where "x \<in> R" using assms(1) by blast
  ultimately obtain z where "z \<in> R" and "\<And>y. (y, z) \<in> E \<inter> R \<times> R \<Longrightarrow> y \<notin> R"
    by (metis wfE_min)
  with assms(3) show False by blast
qed

lemma TopologicalSort_spec:
  assumes ids: "distinct (task_ids (tg_Tasks g))"
  shows "TopologicalSort g = Inr xs \<Longrightarrow>
      distinct xs \<and> set xs = set (task_ids (tg_Tasks g)) \<and> topo (tg_Tasks g) xs"
    and "closed_deps (tg_Tasks g) \<Longrightarrow> TopologicalSort g = Inl e \<Longrightarrow>
      e = GraphCycle \<and> \<not> acyclic (dep_edges (tg_Tasks g))"
proof -
  let ?ts = "tg_Tasks g"
  let ?out = "kahn (dependents ?ts) (inDegree0 ?ts)
    (filter (\<lambda>i. mget0 0 (inDegree0 ?ts) i = 0) (task_ids ?ts)) []"
  obtain deg' where inv: "kahn_inv ?ts deg' [] ?out"
    using kahn_result [OF kahn_inv_init [OF ids] ids] by blast
  note inv' = inv [unfolded kahn_inv_def append_Nil2]
  from inv' have dist: "distinct ?out" and topo: "topo ?ts ?out"
    and out: "set ?out = {tn_ID t | t. t \<in> set ?ts \<and> mget0 0 deg' (tn_ID t) = 0}"
    by blast+
  from inv' have deg': "\<And>t. t \<in> set ?ts \<Longrightarrow> mget0 0 deg' (tn_ID t) =
        int (length (filter (\<lambda>d. d \<notin> set ?out) (tn_DependsOn t)))"
    by blast
  have sub: "set ?out \<subseteq> set (task_ids ?ts)" using out by auto
  have len: "length ?out = length ?ts \<longleftrightarrow> set ?out = set (task_ids ?ts)"
  proof
    assume "length ?out = length ?ts"
    then have "card (set ?out) = card (set (task_ids ?ts))"
      using dist ids by (simp only: distinct_card length_map)
    with sub show "set ?out = set (task_ids ?ts)" by (rule card_subset_eq [OF finite_set])
  next
    assume "set ?out = set (task_ids ?ts)"
    then have "card (set ?out) = card (set (task_ids ?ts))" by (rule arg_cong)
    then show "length ?out = length ?ts"
      using dist ids by (simp only: distinct_card length_map)
  qed
  show "distinct xs \<and> set xs = set (task_ids ?ts) \<and> topo ?ts xs" if "TopologicalSort g = Inr xs"
    using that dist topo len by (auto simp: TopologicalSort_def Let_def split: if_splits)
  show "e = GraphCycle \<and> \<not> acyclic (dep_edges ?ts)"
    if closed: "closed_deps ?ts" and err: "TopologicalSort g = Inl e"
  proof -
    let ?R = "set (task_ids ?ts) - set ?out"
    have "e = GraphCycle" and ne: "?R \<noteq> {}"
      using err len sub by (auto simp: TopologicalSort_def Let_def split: if_splits)
    have "\<exists>y \<in> ?R. (y, x) \<in> dep_edges ?ts" if "x \<in> ?R" for x
    proof -
      from that obtain t where t: "t \<in> set ?ts" "x = tn_ID t" by auto
      with that out have "mget0 0 deg' (tn_ID t) \<noteq> 0" by auto
      then obtain d where "d \<in> set (tn_DependsOn t)" "d \<notin> set ?out"
        using deg' [OF t(1)] by (auto simp: filter_empty_conv)
      moreover from this t closed have "d \<in> set (task_ids ?ts)" by (auto simp: closed_deps_def)
      ultimately show ?thesis using t by (auto simp: dep_edges_def)
    qed
    from waiting_cycle [OF ne _ this] \<open>e = GraphCycle\<close> show ?thesis by simp
  qed
qed

section \<open>Validation\<close>

text \<open>The first ID that an earlier task already has, or that is empty.\<close>

fun check_ids :: "string list \<Rightarrow> TaskNode list \<Rightarrow> graph_error option" where
  "check_ids seen [] = None"
| "check_ids seen (t # ts) =
     (if tn_ID t = '''' then Some EmptyTaskID
      else if tn_ID t \<in> set seen then Some (DuplicateTaskID (tn_ID t))
      else check_ids (tn_ID t # seen) ts)"

definition check_dep :: "string list \<Rightarrow> TaskNode \<Rightarrow> string \<Rightarrow> graph_error option" where
  "check_dep ids t dep =
     first_err [guard (dep \<notin> set ids) (UnknownDependency (tn_ID t) dep),
       guard (dep = tn_ID t) (SelfDependency (tn_ID t))]"

definition check_loop :: "LoopDefinition \<Rightarrow> graph_error option" where
  "check_loop l = map_option LoopValidation (Validate l)"

definition Graph_Validate :: "TaskGraph \<Rightarrow> graph_error option" where
  "Graph_Validate g =
     first_err
       [check_ids [] (tg_Tasks g),
        first_err (concat (map (\<lambda>t. map (check_dep (task_ids (tg_Tasks g)) t) (tn_DependsOn t)) (tg_Tasks g))),
        (case TopologicalSort g of Inl e \<Rightarrow> Some e | Inr _ \<Rightarrow> None),
        first_err (map check_loop (tg_Loops g)),
        each (tg_Tasks g) (\<lambda>t. tn_LoopID t \<noteq> '''' \<and> tn_LoopID t \<notin> set (map ld_ID (tg_Loops g)))
          (\<lambda>t. UnknownLoop (tn_ID t) (tn_LoopID t))]"

definition ValidateWithRoster :: "TaskGraph \<Rightarrow> string list \<Rightarrow> graph_error option" where
  "ValidateWithRoster g roster =
     first_err
       [Graph_Validate g,
        each (tg_Tasks g) (\<lambda>t. TargetProfile (Some t) \<noteq> '''' \<and> TargetProfile (Some t) \<notin> set roster)
          (\<lambda>t. UnknownAgent (tn_ID t) (TargetProfile (Some t)) roster),
        first_err (map (\<lambda>l. each (ld_States l) (\<lambda>sc. sc_Agent sc \<noteq> '''' \<and> sc_Agent sc \<notin> set roster)
          (\<lambda>sc. UnknownLoopAgent (ld_ID l) (sc_Name sc) (sc_Agent sc))) (tg_Loops g))]"

text \<open>What a validated graph is.\<close>

definition valid_graph :: "TaskGraph \<Rightarrow> bool" where
  "valid_graph g \<longleftrightarrow>
     '''' \<notin> set (task_ids (tg_Tasks g)) \<and> distinct (task_ids (tg_Tasks g)) \<and>
     closed_deps (tg_Tasks g) \<and> acyclic (dep_edges (tg_Tasks g)) \<and>
     (\<forall>l \<in> set (tg_Loops g). well_formed_loop l) \<and>
     (\<forall>t \<in> set (tg_Tasks g). tn_LoopID t = '''' \<or> tn_LoopID t \<in> ld_ID ` set (tg_Loops g))"

lemma check_ids_None:
  "check_ids seen ts = None \<longleftrightarrow>
     '''' \<notin> set (task_ids ts) \<and> distinct (task_ids ts) \<and> set seen \<inter> set (task_ids ts) = {}"
  by (induction ts arbitrary: seen) auto

lemma check_dep_None: "check_dep ids t dep = None \<longleftrightarrow> dep \<in> set ids \<and> dep \<noteq> tn_ID t"
  by (auto simp: check_dep_def)

lemma check_loop_None: "check_loop l = None \<longleftrightarrow> well_formed_loop l"
  by (simp add: check_loop_def Validate_iff)

lemma acyclic_no_self: "acyclic (dep_edges ts) \<Longrightarrow> t \<in> set ts \<Longrightarrow> tn_ID t \<notin> set (tn_DependsOn t)"
  by (auto simp: acyclic_def dep_edges_def)

lemma TopologicalSort_ok_iff:
  assumes "distinct (task_ids (tg_Tasks g))" and "closed_deps (tg_Tasks g)"
  shows "(\<exists>xs. TopologicalSort g = Inr xs) \<longleftrightarrow> acyclic (dep_edges (tg_Tasks g))"
  using TopologicalSort_spec [OF assms(1)] topo_acyclic assms(2)
  by (cases "TopologicalSort g") blast+

lemma Graph_Validate_iff: "Graph_Validate g = None \<longleftrightarrow> valid_graph g" (is "?l \<longleftrightarrow> ?r")
proof
  assume l: ?l
  then have "distinct (task_ids (tg_Tasks g))" "closed_deps (tg_Tasks g)"
    by (auto simp: Graph_Validate_def check_ids_None check_dep_None closed_deps_def)
  moreover from l have "\<exists>xs. TopologicalSort g = Inr xs"
    by (auto simp: Graph_Validate_def split: sum.splits)
  ultimately show ?r
    using l TopologicalSort_ok_iff [of g]
    by (fastforce simp: Graph_Validate_def valid_graph_def check_ids_None check_loop_None)
next
  assume r: ?r
  then obtain xs where "TopologicalSort g = Inr xs"
    using TopologicalSort_ok_iff [of g] by (auto simp: valid_graph_def)
  with r show ?l
    using acyclic_no_self [of "tg_Tasks g"]
    by (auto simp: Graph_Validate_def valid_graph_def check_ids_None check_loop_None check_dep_None
        closed_deps_def)
qed

section \<open>Ready tasks\<close>

definition dep_done :: "TaskStatus \<Rightarrow> bool" where
  "dep_done s \<longleftrightarrow> s = StatusCompleted \<or> s = StatusEscalated"

definition ReadyTasks :: "TaskGraph \<Rightarrow> TaskNode list" where
  "ReadyTasks g =
     (let completed = task_ids (filter (\<lambda>t. dep_done (tn_Status t)) (tg_Tasks g))
      in filter (\<lambda>t. tn_Status t = StatusPending \<and> (\<forall>dep \<in> set (tn_DependsOn t). dep \<in> set completed))
           (tg_Tasks g))"

definition AllDone :: "TaskGraph \<Rightarrow> bool" where
  "AllDone g = (\<forall>t \<in> set (tg_Tasks g). tn_Status t \<noteq> StatusPending \<and> tn_Status t \<noteq> StatusRunning)"

lemma finite_dep_edges: "finite (dep_edges ts)"
proof -
  have "dep_edges ts = set (concat (map (\<lambda>t. map (\<lambda>d. (d, tn_ID t)) (tn_DependsOn t)) ts))"
    by (auto simp: dep_edges_def)
  then show ?thesis by (metis List.finite_set)
qed

lemma ready_exists:
  assumes g: "valid_graph g"
    and u: "u \<in> set (tg_Tasks g)" "tn_Status u = StatusPending"
    and sound: "\<And>t d. t \<in> set (tg_Tasks g) \<Longrightarrow> tn_Status t = StatusPending \<Longrightarrow>
      d \<in> set (tg_Tasks g) \<Longrightarrow> tn_ID d \<in> set (tn_DependsOn t) \<Longrightarrow>
      tn_Status d = StatusPending \<or> dep_done (tn_Status d)"
  shows "ReadyTasks g \<noteq> []"
proof
  assume none: "ReadyTasks g = []"
  let ?ts = "tg_Tasks g"
  let ?R = "tn_ID ` {t \<in> set ?ts. tn_Status t = StatusPending}"
  have "\<exists>y \<in> ?R. (y, x) \<in> dep_edges ?ts" if "x \<in> ?R" for x
  proof -
    from that obtain t where t: "t \<in> set ?ts" "tn_Status t = StatusPending" "x = tn_ID t" by auto
    with none obtain d where d: "d \<in> set (tn_DependsOn t)"
      "d \<notin> tn_ID ` {v \<in> set ?ts. dep_done (tn_Status v)}"
      by (auto simp: ReadyTasks_def filter_empty_conv)
    moreover have "d \<in> set (task_ids ?ts)"
      using d(1) t g by (auto simp: valid_graph_def closed_deps_def)
    then obtain v where "v \<in> set ?ts" "tn_ID v = d" by auto
    ultimately have "tn_Status v = StatusPending" using sound [OF t(1,2), of v] by auto
    with \<open>v \<in> set ?ts\<close> \<open>tn_ID v = d\<close> t d(1) show ?thesis by (auto simp: dep_edges_def)
  qed
  moreover have "?R \<noteq> {}" "finite ?R" using u by auto
  ultimately have "\<not> acyclic (dep_edges ?ts)" by (intro waiting_cycle)
  with g show False by (simp add: valid_graph_def)
qed

section \<open>Properties\<close>

text \<open>A graph for the witnesses: a fans out to b and c, which join in d.\<close>

definition demo_task :: "string \<Rightarrow> string list \<Rightarrow> TaskStatus \<Rightarrow> TaskNode" where
  "demo_task tid deps st =
     \<lparr>tn_ID = tid, tn_Agent = ''dev'', tn_Profile = '''', tn_Description = '''', tn_DependsOn = deps,
      tn_LoopID = '''', tn_Scope = ScopeStandard, tn_Timeout = 0, tn_Budget = 0, tn_Status = st,
      tn_Result = '''', tn_ArtifactURI = '''', tn_ArtifactFiles = [], tn_AssignedInstance = '''',
      tn_ExecutionNode = '''', tn_LeaseEpoch = 0, tn_ChatContext = ''''\<rparr>"

definition demo_graph :: "TaskStatus \<Rightarrow> TaskStatus \<Rightarrow> TaskGraph" where
  "demo_graph st st' =
     \<lparr>tg_RequestID = ''r1'', tg_Name = '''',
      tg_Tasks = [demo_task ''d'' [''b'', ''c''] StatusPending, demo_task ''b'' [''a''] st',
        demo_task ''c'' [''a''] StatusPending, demo_task ''a'' [] st],
      tg_Loops = []\<rparr>"

lemma demo_task_simps [simp]:
  "tn_ID (demo_task i ds st) = i" "tn_DependsOn (demo_task i ds st) = ds"
  "tn_Status (demo_task i ds st) = st" "tn_LoopID (demo_task i ds st) = ''''"
  "tn_Agent (demo_task i ds st) = ''dev''" "tn_Profile (demo_task i ds st) = ''''"
  by (simp_all add: demo_task_def)

lemma demo_graph_simps [simp]:
  "tg_Tasks (demo_graph st st') =
     [demo_task ''d'' [''b'', ''c''] StatusPending, demo_task ''b'' [''a''] st',
      demo_task ''c'' [''a''] StatusPending, demo_task ''a'' [] st]"
  "tg_Loops (demo_graph st st') = []"
  by (simp_all add: demo_graph_def)

lemma demo_graph_valid: "Graph_Validate (demo_graph st st') = None"
  by (simp add: Graph_Validate_def check_dep_def TopologicalSort_def inDegree0_def dependents_def
      mget0_def Let_def)

text \<open>
  Claim C17: Kahn's algorithm sorts. On a graph with distinct IDs and known dependencies,
  \<open>TopologicalSort\<close> returns every task once, each after all the tasks it depends on, and it does so
  exactly when the dependency relation has no cycle; the only error it has is the cycle error.
\<close>

theorem topological_sort_correct:
  assumes "distinct (task_ids (tg_Tasks g))" and "closed_deps (tg_Tasks g)"
  shows "case TopologicalSort g of
      Inr xs \<Rightarrow> acyclic (dep_edges (tg_Tasks g)) \<and> distinct xs \<and>
        set xs = set (task_ids (tg_Tasks g)) \<and> topo (tg_Tasks g) xs
    | Inl e \<Rightarrow> e = GraphCycle \<and> \<not> acyclic (dep_edges (tg_Tasks g))"
  using TopologicalSort_spec [OF assms(1)] TopologicalSort_ok_iff [OF assms] assms(2)
  by (auto split: sum.split)

theorem topological_sort_correct_witness:
  "TopologicalSort (demo_graph StatusPending StatusPending) = Inr [''a'', ''b'', ''c'', ''d''] \<and>
   topo (tg_Tasks (demo_graph StatusPending StatusPending)) [''a'', ''b'', ''c'', ''d'']"
proof -
  let ?g = "demo_graph StatusPending StatusPending"
  have "TopologicalSort ?g = Inr [''a'', ''b'', ''c'', ''d'']"
    by (simp add: TopologicalSort_def inDegree0_def dependents_def mget0_def Let_def)
  moreover have "distinct (task_ids (tg_Tasks ?g))" "closed_deps (tg_Tasks ?g)"
    by (simp_all add: closed_deps_def)
  ultimately show ?thesis using topological_sort_correct [of ?g] by simp
qed

text \<open>
  What validation accepts. \<open>ValidateWithRoster\<close> returns nil exactly for a graph with
  distinct, non-empty IDs whose dependencies are known and acyclic, whose loops are all well formed
  and referenced by ID only, and whose tasks and loop states name only agents of the roster.
\<close>

theorem validate_with_roster_iff:
  "ValidateWithRoster g roster = None \<longleftrightarrow>
     valid_graph g \<and>
     (\<forall>t \<in> set (tg_Tasks g). TargetProfile (Some t) \<in> insert '''' (set roster)) \<and>
     (\<forall>l \<in> set (tg_Loops g). sc_Agent ` set (ld_States l) \<subseteq> insert '''' (set roster))"
  by (auto simp: ValidateWithRoster_def Graph_Validate_iff)

theorem validate_with_roster_iff_witness:
  "ValidateWithRoster (demo_graph StatusPending StatusPending) [''dev''] = None \<and>
   valid_graph (demo_graph StatusPending StatusPending) \<and>
   ValidateWithRoster (demo_graph StatusPending StatusPending) [''arch''] \<noteq> None"
proof -
  let ?g = "demo_graph StatusPending StatusPending"
  have "valid_graph ?g" using demo_graph_valid by (simp add: Graph_Validate_iff)
  then have "ValidateWithRoster ?g [''dev''] = None" "ValidateWithRoster ?g [''arch''] \<noteq> None"
    unfolding validate_with_roster_iff by (simp_all add: TargetProfile_def)
  with \<open>valid_graph ?g\<close> show ?thesis by simp
qed

text \<open>
  Claim C24: a validated graph does not deadlock. \<open>ReadyTasks\<close> returns exactly the pending tasks all of whose
  dependencies are completed or escalated; and while some task is pending, it returns one unless some pending task waits directly for
  a task that is running, failed or cancelled. When the pending tasks depend only on pending, completed or escalated tasks, there is
  therefore always one to dispatch.
\<close>

theorem validated_graph_progress:
  assumes "Graph_Validate g = None"
  shows "(\<forall>t. t \<in> set (ReadyTasks g) \<longleftrightarrow> t \<in> set (tg_Tasks g) \<and> tn_Status t = StatusPending \<and>
      (\<forall>d \<in> set (tg_Tasks g). tn_ID d \<in> set (tn_DependsOn t) \<longrightarrow> tn_Status d \<in> {StatusCompleted, StatusEscalated})) \<and>
    ((\<exists>u \<in> set (tg_Tasks g). tn_Status u = StatusPending) \<longrightarrow>
      ReadyTasks g \<noteq> [] \<or>
      (\<exists>t \<in> set (tg_Tasks g). \<exists>d \<in> set (tg_Tasks g). tn_Status t = StatusPending \<and> tn_ID d \<in> set (tn_DependsOn t) \<and>
         tn_Status d \<notin> {StatusPending, StatusCompleted, StatusEscalated}))"
proof (intro conjI allI impI)
  have v: "valid_graph g" using assms by (simp add: Graph_Validate_iff)
  have uniq: "d = e" if "d \<in> set (tg_Tasks g)" "e \<in> set (tg_Tasks g)" "tn_ID d = tn_ID e" for d e
    using v that unique_task by (auto simp: valid_graph_def)
  fix t
  show "t \<in> set (ReadyTasks g) \<longleftrightarrow> t \<in> set (tg_Tasks g) \<and> tn_Status t = StatusPending \<and>
      (\<forall>d \<in> set (tg_Tasks g). tn_ID d \<in> set (tn_DependsOn t) \<longrightarrow> tn_Status d \<in> {StatusCompleted, StatusEscalated})"
  proof (cases "t \<in> set (tg_Tasks g) \<and> tn_Status t = StatusPending")
    case True
    then have "set (tn_DependsOn t) \<subseteq> tn_ID ` set (tg_Tasks g)"
      using v by (auto simp: valid_graph_def closed_deps_def)
    then have "(\<forall>k \<in> set (tn_DependsOn t). k \<in> tn_ID ` {d \<in> set (tg_Tasks g). dep_done (tn_Status d)}) \<longleftrightarrow>
        (\<forall>d \<in> set (tg_Tasks g). tn_ID d \<in> set (tn_DependsOn t) \<longrightarrow> dep_done (tn_Status d))"
      using uniq by (auto simp: image_iff subset_iff) metis+
    with True show ?thesis by (auto simp: ReadyTasks_def Let_def list_all_iff dep_done_def)
  qed (auto simp: ReadyTasks_def Let_def)
next
  have v: "valid_graph g" using assms by (simp add: Graph_Validate_iff)
  assume "\<exists>u \<in> set (tg_Tasks g). tn_Status u = StatusPending"
  then obtain u where u: "u \<in> set (tg_Tasks g)" "tn_Status u = StatusPending" by blast
  show "ReadyTasks g \<noteq> [] \<or>
      (\<exists>t \<in> set (tg_Tasks g). \<exists>d \<in> set (tg_Tasks g). tn_Status t = StatusPending \<and> tn_ID d \<in> set (tn_DependsOn t) \<and>
         tn_Status d \<notin> {StatusPending, StatusCompleted, StatusEscalated})"
    using ready_exists [OF v u] by (auto simp: dep_done_def)
qed

theorem validated_graph_progress_witness:
  "task_ids (ReadyTasks (demo_graph StatusCompleted StatusEscalated)) = [''c''] \<and>
   ReadyTasks (demo_graph StatusCompleted StatusEscalated) \<noteq> []"
proof -
  let ?g = "demo_graph StatusCompleted StatusEscalated"
  have "demo_task ''c'' [''a''] StatusPending \<in> set (ReadyTasks ?g)"
    unfolding validated_graph_progress [OF demo_graph_valid, THEN conjunct1, THEN spec] by simp
  then have "ReadyTasks ?g \<noteq> []" by auto
  then show ?thesis by (simp add: ReadyTasks_def dep_done_def)
qed

end
