(* ===== verification/Cascade.thy ===== *)
theory Cascade
  imports Dag
begin

text \<open>
  The traversals of internal/taskgraph/dag.go that follow a failure: the cascade to the dependents
  (\<open>FailDependents\<close>), the search for a dependent in a given status (\<open>HasIncompleteDependents\<close>,
  \<open>HasRunningDependents\<close>), and the summaries of what failed.
\<close>

section \<open>FailDependents\<close>

definition fail_task :: "string \<Rightarrow> TaskNode \<Rightarrow> TaskNode" where
  "fail_task failedID t =
     t\<lparr>tn_Status := StatusFailed, tn_Result := ''dependency '' @ quote failedID @ '' failed''\<rparr>"

lemma fail_task_simps [simp]:
  "tn_ID (fail_task f t) = tn_ID t" "tn_Status (fail_task f t) = StatusFailed"
  "tn_DependsOn (fail_task f t) = tn_DependsOn t"
  by (simp_all add: fail_task_def)

definition settled :: "TaskStatus \<Rightarrow> bool" where
  "settled s = (s = StatusFailed \<or> s = StatusCompleted)"

text \<open>The inner loop: the tasks after it, and the children it failed, in order.\<close>

fun fail_children :: "string \<Rightarrow> TaskNode list \<Rightarrow> string list \<Rightarrow> TaskNode list \<times> string list" where
  "fail_children failedID ts [] = (ts, [])"
| "fail_children failedID ts (childID # cs) =
     (case find (\<lambda>t. tn_ID t = childID) ts of
        None \<Rightarrow> fail_children failedID ts cs
      | Some child \<Rightarrow>
          if settled (tn_Status child) then fail_children failedID ts cs
          else
            (let r = fail_children failedID (update_task childID (fail_task failedID) ts) cs
             in (fst r, childID # snd r)))"

definition unsettled :: "TaskNode list \<Rightarrow> nat" where
  "unsettled ts = length (filter (\<lambda>t. \<not> settled (tn_Status t)) ts)"

lemma unsettled_update:
  "find (\<lambda>t. tn_ID t = c) ts = Some child \<Longrightarrow> \<not> settled (tn_Status child) \<Longrightarrow>
     Suc (unsettled (update_task c (fail_task f) ts)) = unsettled ts"
  by (induction ts) (auto simp: unsettled_def settled_def split: if_splits)

lemma fail_children_measure:
  "length (snd (fail_children f ts cs)) + unsettled (fst (fail_children f ts cs)) = unsettled ts"
  by (induction f ts cs rule: fail_children.induct)
     (auto simp: Let_def unsettled_update split: option.splits)

function fail_loop ::
  "string \<Rightarrow> (string \<Rightarrow> string list) \<Rightarrow> TaskNode list \<Rightarrow> string list \<Rightarrow> string list \<Rightarrow>
     TaskNode list \<times> string list" where
  "fail_loop failedID deps ts [] cascaded = (ts, cascaded)"
| "fail_loop failedID deps ts (x # queue) cascaded =
     (let r = fail_children failedID ts (deps x)
      in fail_loop failedID deps (fst r) (queue @ snd r) (cascaded @ snd r))"
  by pat_completeness auto
termination
proof (relation "measure (\<lambda>(f, deps, ts, queue, c). length queue + unsettled ts)", goal_cases)
  case (2 failedID deps ts x queue cascaded r)
  then show ?case using fail_children_measure [of failedID ts "deps x"] by simp
qed simp

definition FailDependents :: "TaskGraph \<Rightarrow> string \<Rightarrow> TaskGraph \<times> string list" where
  "FailDependents g failedID =
     (let r = fail_loop failedID (dependents (tg_Tasks g)) (tg_Tasks g) [failedID] []
      in (g\<lparr>tg_Tasks := fst r\<rparr>, snd r))"

section \<open>What the cascade reaches\<close>

text \<open>
  The tasks reached from the failed one along dependency edges into tasks that are neither failed
  nor completed: the cascade stops at a settled task and does not look behind it.
\<close>

definition open_edges :: "TaskNode list \<Rightarrow> (string \<times> string) set" where
  "open_edges ts = {(a, tn_ID t) | a t.
     t \<in> set ts \<and> a \<in> set (tn_DependsOn t) \<and> \<not> settled (tn_Status t)}"

definition cascade_set :: "TaskNode list \<Rightarrow> string \<Rightarrow> string set" where
  "cascade_set ts failedID = {c. (failedID, c) \<in> (open_edges ts)\<^sup>+}"

definition marked :: "string \<Rightarrow> string set \<Rightarrow> TaskNode list \<Rightarrow> TaskNode list" where
  "marked f A ts = map (\<lambda>t. if tn_ID t \<in> A then fail_task f t else t) ts"

lemma marked_empty [simp]: "marked f {} ts = ts"
  by (simp add: marked_def)

lemma task_ids_marked [simp]: "task_ids (marked f A ts) = task_ids ts"
  by (simp add: marked_def)

lemma marked_insert:
  "distinct (task_ids ts) \<Longrightarrow>
     update_task c (fail_task f) (marked f A ts) = marked f (insert c A) ts"
  by (simp add: update_task_map) (auto simp: marked_def fail_task_def)

lemma find_marked:
  assumes "distinct (task_ids ts)" and "t \<in> set ts"
  shows "find (\<lambda>u. tn_ID u = tn_ID t) (marked f A ts) =
    Some (if tn_ID t \<in> A then fail_task f t else t)"
proof -
  let ?u = "if tn_ID t \<in> A then fail_task f t else t"
  have "?u \<in> set (marked f A ts)" using assms(2) by (auto simp: marked_def)
  from find_task [OF _ this] assms(1) show ?thesis by (simp split: if_splits)
qed

lemma fail_children_spec:
  assumes "distinct (task_ids ts)"
  shows "\<exists>new. fail_children f (marked f A ts) cs = (marked f (A \<union> set new) ts, new) \<and>
    distinct new \<and>
    set new = {c \<in> set cs. c \<notin> A \<and> (\<exists>t \<in> set ts. tn_ID t = c \<and> \<not> settled (tn_Status t))}"
proof (induction cs arbitrary: A)
  case Nil
  then show ?case by simp
next
  case (Cons c cs)
  let ?open = "\<lambda>c. \<exists>t \<in> set ts. tn_ID t = c \<and> \<not> settled (tn_Status t)"
  show ?case
  proof (cases "c \<in> A \<or> \<not> ?open c")
    case True
    have "fail_children f (marked f A ts) (c # cs) = fail_children f (marked f A ts) cs"
    proof (cases "c \<in> set (task_ids ts)")
      case False
      then have "find (\<lambda>t. tn_ID t = c) (marked f A ts) = None"
        by (simp only: find_task_None task_ids_marked not_False_eq_True)
      then show ?thesis by simp
    next
      case c: True
      then obtain t where "t \<in> set ts" "c = tn_ID t" by auto
      with True find_marked [OF assms this(1), of f A] show ?thesis
        by (auto simp: settled_def)
    qed
    with Cons [of A] True show ?thesis by auto
  next
    case False
    then obtain t where t: "t \<in> set ts" "tn_ID t = c" "\<not> settled (tn_Status t)" and c: "c \<notin> A"
      by auto
    from Cons [of "insert c A"] obtain new where
      new: "fail_children f (marked f (insert c A) ts) cs = (marked f (insert c A \<union> set new) ts, new)"
        "distinct new" "set new = {d \<in> set cs. d \<notin> insert c A \<and> ?open d}" by blast
    have "fail_children f (marked f A ts) (c # cs) = (marked f (A \<union> set (c # new)) ts, c # new)"
      using find_marked [OF assms t(1), of f A] t c new(1)
      by (simp add: marked_insert [OF assms])
    moreover have "distinct (c # new)" using new(2,3) by auto
    moreover have "set (c # new) = {d \<in> set (c # cs). d \<notin> A \<and> ?open d}"
      using new(3) False by auto
    ultimately show ?thesis by blast
  qed
qed

definition cascade_inv :: "TaskNode list \<Rightarrow> string \<Rightarrow> TaskNode list \<Rightarrow> string list \<Rightarrow> string list \<Rightarrow> bool" where
  "cascade_inv ts0 f ts queue casc \<longleftrightarrow>
     ts = marked f (set casc) ts0 \<and> distinct casc \<and> set casc \<subseteq> cascade_set ts0 f \<and>
     set queue \<subseteq> insert f (set casc) \<and>
     (\<forall>x \<in> insert f (set casc). x \<notin> set queue \<longrightarrow> (\<forall>c. (x, c) \<in> open_edges ts0 \<longrightarrow> c \<in> set casc))"

lemma open_edges_dependents:
  "(x, c) \<in> open_edges ts \<longleftrightarrow>
     (c \<in> set (dependents ts x) \<and> (\<exists>t \<in> set ts. tn_ID t = c \<and> \<not> settled (tn_Status t)))"
  if "distinct (task_ids ts)"
proof -
  have "t = u" if "t \<in> set ts" "u \<in> set ts" "tn_ID t = tn_ID u" for t u
    using unique_task [OF \<open>distinct (task_ids ts)\<close> that] .
  then show ?thesis
    unfolding open_edges_def set_dependents dep_edges_def by blast
qed

lemma cascade_inv_step:
  assumes "distinct (task_ids ts0)" and inv: "cascade_inv ts0 f ts (x # queue) casc"
  shows "cascade_inv ts0 f (fst (fail_children f ts (dependents ts0 x)))
    (queue @ snd (fail_children f ts (dependents ts0 x)))
    (casc @ snd (fail_children f ts (dependents ts0 x)))"
proof -
  have ts: "ts = marked f (set casc) ts0" using inv by (simp add: cascade_inv_def)
  obtain new where r:
    "fail_children f ts (dependents ts0 x) = (marked f (set casc \<union> set new) ts0, new)"
    "distinct new"
    "set new = {c \<in> set (dependents ts0 x). c \<notin> set casc \<and>
       (\<exists>t \<in> set ts0. tn_ID t = c \<and> \<not> settled (tn_Status t))}"
    using fail_children_spec [OF assms(1), of f "set casc" "dependents ts0 x"] unfolding ts by blast
  have "set new = {c. (x, c) \<in> open_edges ts0 \<and> c \<notin> set casc}"
    unfolding r(3) open_edges_dependents [OF assms(1)] by blast
  note new = r(1,2) this
  have x: "x = f \<or> x \<in> cascade_set ts0 f"
    using inv by (auto simp: cascade_inv_def)
  have "set new \<subseteq> cascade_set ts0 f"
    using x new(3) by (auto simp: cascade_set_def intro: trancl_into_trancl)
  with inv new show ?thesis
    by (auto simp: cascade_inv_def)
qed

lemma fail_loop_spec:
  "distinct (task_ids ts0) \<Longrightarrow> cascade_inv ts0 f ts queue casc \<Longrightarrow>
     \<exists>ts' casc'. fail_loop f (dependents ts0) ts queue casc = (ts', casc') \<and>
       cascade_inv ts0 f ts' [] casc'"
proof (induction f "dependents ts0" ts queue casc rule: fail_loop.induct)
  case (1 f ts casc)
  then show ?case by auto
next
  case (2 f ts x queue casc)
  from 2(1) [OF refl 2(2) cascade_inv_step [OF 2(2,3)]] show ?case
    by (simp add: Let_def)
qed

lemma cascade_inv_done:
  assumes "cascade_inv ts0 f ts [] casc"
  shows "set casc = cascade_set ts0 f"
proof
  show "cascade_set ts0 f \<subseteq> set casc"
  proof
    fix c assume "c \<in> cascade_set ts0 f"
    then have "(f, c) \<in> (open_edges ts0)\<^sup>+" by (simp add: cascade_set_def)
    then show "c \<in> set casc"
      by (induction rule: trancl_induct) (use assms in \<open>auto simp: cascade_inv_def\<close>)
  qed
qed (use assms in \<open>simp add: cascade_inv_def\<close>)

lemma FailDependents_spec:
  assumes "distinct (task_ids (tg_Tasks g))"
  obtains casc where
    "FailDependents g f = (g\<lparr>tg_Tasks := marked f (cascade_set (tg_Tasks g) f) (tg_Tasks g)\<rparr>, casc)"
    "distinct casc" "set casc = cascade_set (tg_Tasks g) f"
proof -
  let ?ts = "tg_Tasks g"
  have "cascade_inv ?ts f ?ts [f] []" by (simp add: cascade_inv_def)
  from fail_loop_spec [OF assms this] obtain ts' casc where
    r: "fail_loop f (dependents ?ts) ?ts [f] [] = (ts', casc)" and inv: "cascade_inv ?ts f ts' [] casc"
    by blast
  have "set casc = cascade_set ?ts f" using inv by (rule cascade_inv_done)
  with r inv that [of casc] show thesis
    by (simp add: FailDependents_def cascade_inv_def)
qed

section \<open>The search for a dependent in a status\<close>

text \<open>
  \<open>HasIncompleteDependents\<close> and \<open>HasRunningDependents\<close> are the same loop with another test on the
  child. \<open>None\<close> is the early \<open>return true\<close>; otherwise the children that were not visited yet are
  marked and queued.
\<close>

fun scan_children ::
  "(TaskStatus \<Rightarrow> bool) \<Rightarrow> TaskNode list \<Rightarrow> string list \<Rightarrow> string list \<Rightarrow> (string list \<times> string list) option" where
  "scan_children p ts visited [] = Some (visited, [])"
| "scan_children p ts visited (childID # cs) =
     (if childID \<in> set visited then scan_children p ts visited cs
      else
        (case find (\<lambda>t. tn_ID t = childID) ts of
           Some child \<Rightarrow>
             if p (tn_Status child) then None
             else map_option (\<lambda>r. (fst r, childID # snd r)) (scan_children p ts (childID # visited) cs)
         | None \<Rightarrow> map_option (\<lambda>r. (fst r, childID # snd r)) (scan_children p ts (childID # visited) cs)))"

lemma scan_children_Cons_Some:
  assumes "scan_children p ts V (c # cs) = Some (V', new)"
  shows "c \<in> set V \<and> scan_children p ts V cs = Some (V', new) \<or>
    c \<notin> set V \<and> (\<forall>t. find (\<lambda>t. tn_ID t = c) ts = Some t \<longrightarrow> \<not> p (tn_Status t)) \<and>
      (\<exists>new'. new = c # new' \<and> scan_children p ts (c # V) cs = Some (V', new'))"
  using assms by (auto split: if_splits option.splits)

lemma scan_children_visited:
  "scan_children p ts V cs = Some (V', new) \<Longrightarrow>
     set V' = set V \<union> set new \<and> distinct new \<and> set new = set cs - set V"
proof (induction cs arbitrary: V V' new)
  case (Cons c cs)
  from scan_children_Cons_Some [OF Cons.prems] show ?case
  proof (elim disjE conjE exE)
    assume "c \<in> set V" "scan_children p ts V cs = Some (V', new)"
    with Cons.IH [OF this(2)] show ?thesis by auto
  next
    fix new'
    assume "c \<notin> set V" "new = c # new'" "scan_children p ts (c # V) cs = Some (V', new')"
    with Cons.IH [OF this(3)] show ?thesis by auto
  qed
qed simp

lemma scan_children_measure:
  assumes "scan_children p ts V cs = Some (V', new)" and "set cs \<subseteq> set U"
  shows "length new + card (set U - set V') \<le> card (set U - set V)"
proof -
  note s = scan_children_visited [OF assms(1)]
  have "set U - set V = set new \<union> (set U - set V')" using s assms(2) by auto
  moreover have "card (set new \<union> (set U - set V')) = card (set new) + card (set U - set V')"
    using s by (intro card_Un_disjoint) auto
  moreover have "card (set new) = length new" using s distinct_card by blast
  ultimately show ?thesis by simp
qed

function search_dependents ::
  "(TaskStatus \<Rightarrow> bool) \<Rightarrow> TaskNode list \<Rightarrow> string list \<Rightarrow> string list \<Rightarrow> bool" where
  "search_dependents p ts visited [] = False"
| "search_dependents p ts visited (x # queue) =
     (case scan_children p ts visited (dependents ts x) of
        None \<Rightarrow> True
      | Some (visited', new) \<Rightarrow> search_dependents p ts visited' (queue @ new))"
  by pat_completeness auto
termination
proof (relation "measure (\<lambda>(p, ts, V, q). length q + card (set (task_ids ts) - set V))", goal_cases)
  case (2 p ts visited x queue r visited' new)
  have "set (dependents ts x) \<subseteq> set (task_ids ts)"
    by (auto simp: set_dependents dest: dep_edges_target)
  with 2 scan_children_measure [of p ts visited "dependents ts x" visited' new "task_ids ts"]
  show ?case by simp
qed simp

definition HasIncompleteDependents :: "TaskGraph \<Rightarrow> string \<Rightarrow> bool" where
  "HasIncompleteDependents g taskID =
     search_dependents (\<lambda>s. s \<noteq> StatusCompleted) (tg_Tasks g) [taskID] [taskID]"

definition HasRunningDependents :: "TaskGraph \<Rightarrow> string \<Rightarrow> bool" where
  "HasRunningDependents g taskID =
     search_dependents (\<lambda>s. s = StatusRunning) (tg_Tasks g) [taskID] [taskID]"

text \<open>A transitive dependent, other than the task itself, whose status meets the test.\<close>

definition has_dependent :: "(TaskStatus \<Rightarrow> bool) \<Rightarrow> TaskNode list \<Rightarrow> string \<Rightarrow> bool" where
  "has_dependent p ts taskID \<longleftrightarrow>
     (\<exists>t \<in> set ts. (taskID, tn_ID t) \<in> (dep_edges ts)\<^sup>+ \<and> tn_ID t \<noteq> taskID \<and> p (tn_Status t))"

lemma scan_children_None:
  "scan_children p ts V cs = None \<Longrightarrow> \<exists>c \<in> set cs. c \<notin> set V \<and>
     (\<exists>t. find (\<lambda>t. tn_ID t = c) ts = Some t \<and> p (tn_Status t))"
  by (induction p ts V cs rule: scan_children.induct) (auto split: if_splits option.splits)

lemma scan_children_Some:
  "scan_children p ts V cs = Some (V', new) \<Longrightarrow> c \<in> set new \<Longrightarrow>
     find (\<lambda>t. tn_ID t = c) ts = Some t \<Longrightarrow> \<not> p (tn_Status t)"
proof (induction cs arbitrary: V V' new)
  case (Cons d cs)
  from scan_children_Cons_Some [OF Cons.prems(1)] Cons.IH Cons.prems(2,3) show ?case by auto
qed simp

definition search_inv ::
  "(TaskStatus \<Rightarrow> bool) \<Rightarrow> TaskNode list \<Rightarrow> string \<Rightarrow> string list \<Rightarrow> string list \<Rightarrow> bool" where
  "search_inv p ts s V queue \<longleftrightarrow>
     s \<in> set V \<and> set queue \<subseteq> set V \<and> (\<forall>x \<in> set V. x = s \<or> (s, x) \<in> (dep_edges ts)\<^sup>+) \<and>
     (\<forall>t \<in> set ts. tn_ID t \<in> set V \<longrightarrow> tn_ID t \<noteq> s \<longrightarrow> \<not> p (tn_Status t)) \<and>
     (\<forall>x \<in> set V. x \<notin> set queue \<longrightarrow> (\<forall>c. (x, c) \<in> dep_edges ts \<longrightarrow> c \<in> set V))"

lemma search_inv_step:
  assumes "distinct (task_ids ts)" and inv: "search_inv p ts s V (x # queue)"
    and r: "scan_children p ts V (dependents ts x) = Some (V', new)"
  shows "search_inv p ts s V' (queue @ new)"
proof -
  have V': "set V' = set V \<union> set new" and new: "set new = {c. (x, c) \<in> dep_edges ts} - set V"
    using scan_children_visited [OF r] by (auto simp: set_dependents)
  have no: "\<not> p (tn_Status t)" if "t \<in> set ts" "tn_ID t \<in> set new" for t
    using scan_children_Some [OF r that(2)] find_task [OF assms(1) that(1)] by blast
  have x: "x = s \<or> (s, x) \<in> (dep_edges ts)\<^sup>+" using inv by (auto simp: search_inv_def)
  have "(s, c) \<in> (dep_edges ts)\<^sup>+" if "c \<in> set new" for c
    using x that new by (auto intro: trancl_into_trancl)
  with inv no V' new show ?thesis
    unfolding search_inv_def by auto
qed

lemma search_dependents_spec:
  "distinct (task_ids ts) \<Longrightarrow> search_inv p ts s V queue \<Longrightarrow>
     search_dependents p ts V queue \<longleftrightarrow> has_dependent p ts s"
proof (induction p ts V queue rule: search_dependents.induct)
  case (1 p ts V)
  have "c \<in> set V" if "(s, c) \<in> (dep_edges ts)\<^sup>+" for c
    using that by (induction rule: trancl_induct) (use 1 in \<open>auto simp: search_inv_def\<close>)
  with 1 show ?case by (auto simp: search_inv_def has_dependent_def)
next
  case (2 p ts V x queue)
  show ?case
  proof (cases "scan_children p ts V (dependents ts x)")
    case None
    then obtain c t where c: "(x, c) \<in> dep_edges ts" "c \<notin> set V" "t \<in> set ts" "tn_ID t = c"
      "p (tn_Status t)"
      using scan_children_None [OF None] by (auto simp: set_dependents dest: find_SomeD)
    moreover have "x = s \<or> (s, x) \<in> (dep_edges ts)\<^sup>+" "s \<in> set V"
      using 2(3) by (auto simp: search_inv_def)
    ultimately have "has_dependent p ts s"
      by (auto simp: has_dependent_def intro: trancl_into_trancl)
    with None show ?thesis by simp
  next
    case (Some r)
    obtain V' new where r: "r = (V', new)" by (cases r)
    from search_inv_step [OF 2(2,3), of V' new] Some r have "search_inv p ts s V' (queue @ new)" by simp
    from 2(1) [OF Some r [symmetric] 2(2) this] Some r show ?thesis by simp
  qed
qed

lemma search_dependents_correct:
  "distinct (task_ids ts) \<Longrightarrow> search_dependents p ts [s] [s] \<longleftrightarrow> has_dependent p ts s"
  by (rule search_dependents_spec) (simp_all add: search_inv_def)

section \<open>What failed\<close>

definition no_artifacts :: "TaskNode \<Rightarrow> bool" where
  "no_artifacts t = (tn_ArtifactFiles t = [] \<and> tn_ArtifactURI t = '''')"

definition summary_line :: "TaskNode \<Rightarrow> string \<Rightarrow> string" where
  "summary_line t what = ''Task '' @ tn_ID t @ '' ('' @ TargetProfile (Some t) @ ''): '' @ what"

definition failure_summary :: "TaskNode \<Rightarrow> string list" where
  "failure_summary t =
     (case tn_Status t of
        StatusFailed \<Rightarrow> [summary_line t (if tn_Result t \<noteq> '''' then tn_Result t else ''failed'')]
      | StatusEscalated \<Rightarrow>
          (if no_artifacts t then [summary_line t ''escalated (review loop exhausted, no artifacts)''] else [])
      | StatusCancelled \<Rightarrow> [summary_line t ''cancelled'']
      | _ \<Rightarrow> [])"

definition FailureSummaries :: "TaskGraph \<Rightarrow> string list" where
  "FailureSummaries g = concat (map failure_summary (tg_Tasks g))"

definition task_failed :: "TaskNode \<Rightarrow> bool" where
  "task_failed t =
     (case tn_Status t of
        StatusFailed \<Rightarrow> True | StatusCancelled \<Rightarrow> True | StatusEscalated \<Rightarrow> no_artifacts t | _ \<Rightarrow> False)"

definition HasFailures :: "TaskGraph \<Rightarrow> bool" where
  "HasFailures g = (\<exists>t \<in> set (tg_Tasks g). task_failed t)"

lemma failure_summary_length: "length (failure_summary t) = (if task_failed t then 1 else 0)"
  by (simp add: failure_summary_def task_failed_def split: TaskStatus.split)

lemma FailureSummaries_length:
  "length (FailureSummaries g) = length (filter task_failed (tg_Tasks g))"
proof -
  have "length (concat (map failure_summary ts)) = length (filter task_failed ts)" for ts
    by (induction ts) (simp_all add: failure_summary_length)
  then show ?thesis by (simp add: FailureSummaries_def)
qed

section \<open>Properties\<close>

text \<open>
  Claim C18: the cascade of a failure. On a graph with distinct IDs, \<open>FailDependents\<close> returns, each
  once, the tasks reached from the failed one through tasks that are neither failed nor completed;
  exactly these become failed with a result naming the failed task, and nothing else of the graph
  changes. No direct dependent of the failed task, or of a task it cascaded to, stays pending or
  running.
\<close>

theorem fail_dependents_correct:
  assumes "distinct (task_ids (tg_Tasks g))" and "FailDependents g failedID = (g', cascaded)"
  shows "distinct cascaded \<and> set cascaded = cascade_set (tg_Tasks g) failedID \<and>
    g' = g\<lparr>tg_Tasks := map (\<lambda>t. if tn_ID t \<in> set cascaded then fail_task failedID t else t) (tg_Tasks g)\<rparr> \<and>
    (\<forall>t \<in> set (tg_Tasks g'). set (tn_DependsOn t) \<inter> insert failedID (set cascaded) \<noteq> {} \<longrightarrow>
       settled (tn_Status t))"
proof -
  obtain casc where r: "g' = g\<lparr>tg_Tasks := marked failedID (set casc) (tg_Tasks g)\<rparr>" "cascaded = casc"
    "distinct casc" "set casc = cascade_set (tg_Tasks g) failedID"
    using FailDependents_spec [OF assms(1), of failedID] assms(2) by auto
  have "settled (tn_Status t)" if "t \<in> set (tg_Tasks g)" "a \<in> set (tn_DependsOn t)"
    "a \<in> insert failedID (set casc)" "tn_ID t \<notin> set casc" for t a
  proof (rule ccontr)
    assume "\<not> settled (tn_Status t)"
    then have "(a, tn_ID t) \<in> open_edges (tg_Tasks g)" using that by (auto simp: open_edges_def)
    with that(3,4) r(4) show False by (auto simp: cascade_set_def intro: trancl_into_trancl)
  qed
  with r show ?thesis by (auto simp: marked_def settled_def)
qed

theorem fail_dependents_correct_witness:
  "snd (FailDependents (demo_graph StatusFailed StatusCompleted) ''a'') = [''c'', ''d''] \<and>
   cascade_set (tg_Tasks (demo_graph StatusFailed StatusCompleted)) ''a'' = {''c'', ''d''}"
proof -
  let ?g = "demo_graph StatusFailed StatusCompleted"
  have "snd (FailDependents ?g ''a'') = [''c'', ''d'']"
    by (simp add: FailDependents_def dependents_def settled_def Let_def)
  moreover have "distinct (task_ids (tg_Tasks ?g))" by simp
  ultimately show ?thesis
    using fail_dependents_correct [of ?g "''a''" "fst (FailDependents ?g ''a'')" "[''c'', ''d'']"]
    by (metis (no_types, lifting) list.simps(15) list.set(1) prod.collapse)
qed

text \<open>
  The two searches are exact. On a graph with distinct IDs, \<open>HasIncompleteDependents\<close>
  and \<open>HasRunningDependents\<close> are true exactly when some transitive dependent other than the task
  itself is not completed, or is running; the early return and the visited set lose none.
\<close>

theorem has_dependents_correct:
  assumes "distinct (task_ids (tg_Tasks g))"
  shows "(HasIncompleteDependents g taskID \<longleftrightarrow>
      (\<exists>t \<in> set (tg_Tasks g). (taskID, tn_ID t) \<in> (dep_edges (tg_Tasks g))\<^sup>+ \<and> tn_ID t \<noteq> taskID \<and>
         tn_Status t \<noteq> StatusCompleted)) \<and>
    (HasRunningDependents g taskID \<longleftrightarrow>
      (\<exists>t \<in> set (tg_Tasks g). (taskID, tn_ID t) \<in> (dep_edges (tg_Tasks g))\<^sup>+ \<and> tn_ID t \<noteq> taskID \<and>
         tn_Status t = StatusRunning))"
  using search_dependents_correct [OF assms]
  by (auto simp: HasIncompleteDependents_def HasRunningDependents_def has_dependent_def)

theorem has_dependents_correct_witness:
  "HasIncompleteDependents (demo_graph StatusCompleted StatusRunning) ''a'' \<and>
   HasRunningDependents (demo_graph StatusCompleted StatusRunning) ''a'' \<and>
   \<not> HasRunningDependents (demo_graph StatusCompleted StatusRunning) ''b'' \<and>
   (\<exists>t \<in> set (tg_Tasks (demo_graph StatusCompleted StatusRunning)).
      (''a'', tn_ID t) \<in> (dep_edges (tg_Tasks (demo_graph StatusCompleted StatusRunning)))\<^sup>+ \<and>
      tn_Status t = StatusRunning)"
proof -
  let ?g = "demo_graph StatusCompleted StatusRunning"
  have "HasIncompleteDependents ?g ''a''" "HasRunningDependents ?g ''a''"
    "\<not> HasRunningDependents ?g ''b''"
    by (simp_all add: HasIncompleteDependents_def HasRunningDependents_def dependents_def)
  moreover have "distinct (task_ids (tg_Tasks ?g))" by simp
  ultimately show ?thesis using has_dependents_correct [of ?g "''a''"] by blast
qed

text \<open>
  The failure report agrees with the failure flag. \<open>FailureSummaries\<close> has one line per task
  that failed, was cancelled or was escalated without artifacts, and \<open>HasFailures\<close> is true exactly
  when there is such a line.
\<close>

theorem failure_report_consistent:
  "length (FailureSummaries g) =
     length (filter (\<lambda>t. tn_Status t = StatusFailed \<or> tn_Status t = StatusCancelled \<or>
       tn_Status t = StatusEscalated \<and> tn_ArtifactFiles t = [] \<and> tn_ArtifactURI t = '''') (tg_Tasks g)) \<and>
   (HasFailures g \<longleftrightarrow> FailureSummaries g \<noteq> [])"
proof
  have "task_failed = (\<lambda>t. tn_Status t = StatusFailed \<or> tn_Status t = StatusCancelled \<or>
      tn_Status t = StatusEscalated \<and> tn_ArtifactFiles t = [] \<and> tn_ArtifactURI t = '''')"
    by (rule ext) (simp add: task_failed_def no_artifacts_def split: TaskStatus.split)
  with FailureSummaries_length [of g] show "length (FailureSummaries g) =
     length (filter (\<lambda>t. tn_Status t = StatusFailed \<or> tn_Status t = StatusCancelled \<or>
       tn_Status t = StatusEscalated \<and> tn_ArtifactFiles t = [] \<and> tn_ArtifactURI t = '''') (tg_Tasks g))"
    by simp
  show "HasFailures g \<longleftrightarrow> FailureSummaries g \<noteq> []"
    using FailureSummaries_length [of g]
    by (simp add: HasFailures_def filter_empty_conv flip: length_greater_0_conv) (metis filter_empty_conv length_greater_0_conv)
qed

end
