(* ===== verification/Membership.thy ===== *)
theory Membership
  imports Prelude
begin

text \<open>
  The records of the control plane (internal/controlplane/types.go) and the liveness rule that
  marks nodes and instances without a recent heartbeat (liveness.go). A \<open>time.Time\<close> is a number of
  nanoseconds since the zero time, so \<open>IsZero\<close> is equality with 0; durations are nanoseconds. The
  named string types carry their declared constants, the empty string and any other value.
\<close>

section \<open>Records (types.go)\<close>

type_synonym time = int

datatype NodeState =
    NodeStateUnset | NodeStateUnknown | NodeStateReady | NodeStateDegraded | NodeStateDraining
  | NodeStateUnavailable | NodeStateOther string

datatype InstanceState =
    InstanceStateUnset | InstanceStateUnknown | InstanceStateStarting | InstanceStateReady
  | InstanceStateBusy | InstanceStateDraining | InstanceStateUnavailable | InstanceStateOther string

datatype RequestState =
    RequestStatePending | RequestStateRunning | RequestStateCompleted | RequestStateFailed
  | RequestStateCancelled | RequestStateInterrupted | RequestStateOther string

record Endpoint =
  ep_Address :: string
  ep_Local :: bool

record NodeCapacity =
  cap_MaxInstances :: int
  cap_MaxTasks :: int

record Node =
  nd_ID :: string
  nd_Address :: string
  nd_State :: NodeState
  nd_Labels :: "(string, string) gomap"
  nd_BundleDigest :: string
  nd_ProfileDigests :: "(string, string) gomap"
  nd_Capacity :: NodeCapacity
  nd_StartedAt :: time
  nd_LastHeartbeatAt :: time

record AgentInstance =
  in_ID :: string
  in_Profile :: string
  in_NodeID :: string
  in_BundleDigest :: string
  in_ProfileDigest :: string
  in_Endpoint :: Endpoint
  in_State :: InstanceState
  in_StartedAt :: time
  in_LastHeartbeatAt :: time

record AttestedNodeRecord =
  an_NodeID :: string
  an_TrustDomain :: string
  an_Claims :: "(string, string) gomap"
  an_Measurements :: "(string, string) gomap"
  an_AttestedAt :: time
  an_ExpiresAt :: time

record LeaderLease =
  ll_Fabric :: string
  ll_HolderID :: string
  ll_HolderAddress :: string
  ll_Epoch :: int
  ll_AcquiredAt :: time
  ll_LastHeartbeatAt :: time
  ll_ExpiresAt :: time

record RequestRecord =
  rq_ID :: string
  rq_State :: RequestState
  rq_UserRequest :: string
  rq_GraphVersion :: int
  rq_LeaderID :: string
  rq_CreatedAt :: time
  rq_UpdatedAt :: time

record TaskRecord =
  tk_RequestID :: string
  tk_TaskID :: string
  tk_Profile :: string
  tk_AssignedInstance :: string
  tk_ExecutionNode :: string
  tk_Status :: string
  tk_LeaseEpoch :: int
  tk_UpdatedAt :: time

record TaskLease =
  tl_RequestID :: string
  tl_TaskID :: string
  tl_Profile :: string
  tl_AssignedInstance :: string
  tl_ExecutionNode :: string
  tl_OwnerID :: string
  tl_Epoch :: int
  tl_AcquiredAt :: time
  tl_LastHeartbeatAt :: time
  tl_ExpiresAt :: time

record ProfileLease =
  pl_Profile :: string
  pl_AssignedInstance :: string
  pl_ExecutionNode :: string
  pl_OwnerID :: string
  pl_Epoch :: int
  pl_AcquiredAt :: time
  pl_LastHeartbeatAt :: time
  pl_ExpiresAt :: time

record InstanceFilter =
  if_Profile :: string
  if_NodeID :: string
  if_State :: InstanceState

section \<open>Liveness (liveness.go)\<close>

definition NodeHeartbeatTTL :: int where "NodeHeartbeatTTL = 20000000000"
definition InstanceHeartbeatTTL :: int where "InstanceHeartbeatTTL = 20000000000"

text \<open>\<open>Time.Sub\<close> saturates at the range of an int64 duration.\<close>

definition time_sub :: "time \<Rightarrow> time \<Rightarrow> int" where
  "time_sub t u = max (- (2 ^ 63)) (min (2 ^ 63 - 1) (t - u))"

definition nodeHeartbeatExpired :: "Node \<Rightarrow> time \<Rightarrow> bool" where
  "nodeHeartbeatExpired node now =
     (if nd_State node = NodeStateUnavailable then False
      else if nd_LastHeartbeatAt node = 0 then False
      else time_sub now (nd_LastHeartbeatAt node) > NodeHeartbeatTTL)"

definition instanceHeartbeatExpired :: "AgentInstance \<Rightarrow> Node option \<Rightarrow> time \<Rightarrow> bool" where
  "instanceHeartbeatExpired inst node now =
     (if in_State inst = InstanceStateUnavailable then False
      else if (case node of Some n \<Rightarrow> nd_State n = NodeStateUnavailable | None \<Rightarrow> False) then True
      else if in_LastHeartbeatAt inst = 0 then False
      else time_sub now (in_LastHeartbeatAt inst) > InstanceHeartbeatTTL)"

definition live_node :: "time \<Rightarrow> Node \<Rightarrow> Node" where
  "live_node now node =
     (if nodeHeartbeatExpired node now then node\<lparr>nd_State := NodeStateUnavailable\<rparr> else node)"

definition live_instance :: "time \<Rightarrow> (string, Node) gomap \<Rightarrow> AgentInstance \<Rightarrow> AgentInstance" where
  "live_instance now nodes inst =
     (if instanceHeartbeatExpired inst (mget nodes (in_NodeID inst)) now
      then inst\<lparr>in_State := InstanceStateUnavailable\<rparr> else inst)"

definition live_nodes :: "time \<Rightarrow> (string, Node) gomap \<Rightarrow> (string, Node) gomap" where
  "live_nodes now nodes = map_entries (\<lambda>_. live_node now) nodes"

definition live_instances ::
  "time \<Rightarrow> (string, Node) gomap \<Rightarrow> (string, AgentInstance) gomap \<Rightarrow> (string, AgentInstance) gomap" where
  "live_instances now nodes instances = map_entries (\<lambda>_. live_instance now nodes) instances"

text \<open>The two loops: the instances are checked against the nodes the first loop left.\<close>

definition normalizeMembershipLiveness ::
  "(string, Node) gomap \<Rightarrow> (string, AgentInstance) gomap \<Rightarrow> time \<Rightarrow>
     (string, Node) gomap \<times> (string, AgentInstance) gomap" where
  "normalizeMembershipLiveness nodes instances now =
     (let nodes' = live_nodes now nodes in (nodes', live_instances now nodes' instances))"

section \<open>What normalising does\<close>

text \<open>The saturation is invisible in a comparison with a heartbeat TTL.\<close>

lemma time_sub_gt: "0 \<le> d \<Longrightarrow> d < 2 ^ 63 - 1 \<Longrightarrow> d < time_sub t u \<longleftrightarrow> d < t - u"
  by (auto simp: time_sub_def)

lemma nodeHeartbeatExpired_iff:
  "nodeHeartbeatExpired n now \<longleftrightarrow>
     nd_State n \<noteq> NodeStateUnavailable \<and> nd_LastHeartbeatAt n \<noteq> 0 \<and>
     NodeHeartbeatTTL < now - nd_LastHeartbeatAt n"
  by (auto simp: nodeHeartbeatExpired_def NodeHeartbeatTTL_def time_sub_gt)

lemma instanceHeartbeatExpired_iff:
  "instanceHeartbeatExpired i n now \<longleftrightarrow>
     in_State i \<noteq> InstanceStateUnavailable \<and>
     ((\<exists>m. n = Some m \<and> nd_State m = NodeStateUnavailable) \<or>
      in_LastHeartbeatAt i \<noteq> 0 \<and> InstanceHeartbeatTTL < now - in_LastHeartbeatAt i)"
  by (auto simp: instanceHeartbeatExpired_def InstanceHeartbeatTTL_def time_sub_gt split: option.splits)

lemma live_node_simps [simp, frame_simps]:
  "nd_ID (live_node t n) = nd_ID n" "nd_LastHeartbeatAt (live_node t n) = nd_LastHeartbeatAt n"
  "nd_Address (live_node t n) = nd_Address n" "nd_Labels (live_node t n) = nd_Labels n"
  "nd_Capacity (live_node t n) = nd_Capacity n"
  by (simp_all add: live_node_def)

lemma live_instance_simps [simp, frame_simps]:
  "in_ID (live_instance t ns i) = in_ID i" "in_Profile (live_instance t ns i) = in_Profile i"
  "in_NodeID (live_instance t ns i) = in_NodeID i"
  "in_LastHeartbeatAt (live_instance t ns i) = in_LastHeartbeatAt i"
  "in_Endpoint (live_instance t ns i) = in_Endpoint i"
  by (simp_all add: live_instance_def)

lemma mkeys_live [simp]:
  "mkeys (live_nodes t ns) = mkeys ns" "mkeys (live_instances t ns' is) = mkeys is"
  by (simp_all add: live_nodes_def live_instances_def)

lemma mget_live_nodes [simp]: "mget (live_nodes t ns) k = map_option (live_node t) (mget ns k)"
  by (simp add: live_nodes_def)

lemma mget_live_instances [simp]:
  "mget (live_instances t ns is) k = map_option (live_instance t ns) (mget is k)"
  by (simp add: live_instances_def)

text \<open>
  Normalising again at a later time is normalising once at that time: what was marked stays
  marked, and nothing is marked that the later pass would not mark by itself.
\<close>

lemma live_node_absorb: "t \<le> u \<Longrightarrow> live_node u (live_node t n) = live_node u n"
  by (auto simp: live_node_def nodeHeartbeatExpired_iff)

lemma live_nodes_absorb: "t \<le> u \<Longrightarrow> live_nodes u (live_nodes t ns) = live_nodes u ns"
  by (simp add: live_nodes_def map_entries_comp live_node_absorb)

lemma live_node_unavailable_mono:
  "t \<le> u \<Longrightarrow> nd_State (live_node t n) = NodeStateUnavailable \<Longrightarrow>
     nd_State (live_node u n) = NodeStateUnavailable"
  by (auto simp: live_node_def nodeHeartbeatExpired_iff split: if_splits)

lemma live_instance_absorb:
  assumes "t \<le> u"
  shows "live_instance u (live_nodes u ns) (live_instance t (live_nodes t ns) i) =
    live_instance u (live_nodes u ns) i"
proof (cases "instanceHeartbeatExpired i (mget (live_nodes t ns) (in_NodeID i)) t")
  case False
  then show ?thesis by (simp add: live_instance_def [of t])
next
  case True
  then have "instanceHeartbeatExpired i (mget (live_nodes u ns) (in_NodeID i)) u"
    using assms live_node_unavailable_mono [OF assms]
    by (auto simp: instanceHeartbeatExpired_iff)
  with True show ?thesis
    by (simp add: live_instance_def instanceHeartbeatExpired_iff)
qed

lemma live_instances_absorb:
  "t \<le> u \<Longrightarrow> live_instances u (live_nodes u ns) (live_instances t (live_nodes t ns) is) =
     live_instances u (live_nodes u ns) is"
  by (simp add: live_instances_def map_entries_comp live_instance_absorb)

lemma normalize_absorb:
  "t \<le> u \<Longrightarrow> normalizeMembershipLiveness ns is t = (ns', is') \<Longrightarrow>
     normalizeMembershipLiveness ns' is' u = normalizeMembershipLiveness ns is u"
  by (auto simp: normalizeMembershipLiveness_def Let_def live_nodes_absorb live_instances_absorb)

section \<open>Properties\<close>

text \<open>
  The liveness rule. After normalising at \<open>now\<close>, an entry is unavailable exactly when it
  was before, when its heartbeat (if it ever had one) is older than 20 seconds, or, for an
  instance, when its node is unavailable after the pass; everything else keeps its state. Normalising
  again at a later time gives what one pass at that time gives.
\<close>

theorem liveness_rule:
  assumes "normalizeMembershipLiveness nodes instances now = (nodes', instances')" and "now \<le> later"
  shows "(\<forall>k. mget nodes' k = map_option (\<lambda>n.
      if nd_LastHeartbeatAt n \<noteq> 0 \<and> 20000000000 < now - nd_LastHeartbeatAt n
      then n\<lparr>nd_State := NodeStateUnavailable\<rparr> else n) (mget nodes k)) \<and>
    (\<forall>k. mget instances' k = map_option (\<lambda>i.
      if (\<exists>n. mget nodes' (in_NodeID i) = Some n \<and> nd_State n = NodeStateUnavailable) \<or>
         in_LastHeartbeatAt i \<noteq> 0 \<and> 20000000000 < now - in_LastHeartbeatAt i
      then i\<lparr>in_State := InstanceStateUnavailable\<rparr> else i) (mget instances k)) \<and>
    normalizeMembershipLiveness nodes' instances' later =
      normalizeMembershipLiveness nodes instances later"
proof (intro conjI)
  have r: "nodes' = live_nodes now nodes" "instances' = live_instances now nodes' instances"
    using assms(1) by (auto simp: normalizeMembershipLiveness_def Let_def)
  show "\<forall>k. mget nodes' k = map_option (\<lambda>n.
      if nd_LastHeartbeatAt n \<noteq> 0 \<and> 20000000000 < now - nd_LastHeartbeatAt n
      then n\<lparr>nd_State := NodeStateUnavailable\<rparr> else n) (mget nodes k)"
    unfolding r(1)
    by (auto simp: live_node_def nodeHeartbeatExpired_iff NodeHeartbeatTTL_def intro!: option.map_cong0)
  show "\<forall>k. mget instances' k = map_option (\<lambda>i.
      if (\<exists>n. mget nodes' (in_NodeID i) = Some n \<and> nd_State n = NodeStateUnavailable) \<or>
         in_LastHeartbeatAt i \<noteq> 0 \<and> 20000000000 < now - in_LastHeartbeatAt i
      then i\<lparr>in_State := InstanceStateUnavailable\<rparr> else i) (mget instances k)"
    unfolding r(2)
    by (auto simp: live_instance_def instanceHeartbeatExpired_iff InstanceHeartbeatTTL_def
        simp del: mget_live_nodes intro!: option.map_cong0)
  show "normalizeMembershipLiveness nodes' instances' later =
      normalizeMembershipLiveness nodes instances later"
    using assms by (rule normalize_absorb [rotated])
qed

definition demo_node :: "string \<Rightarrow> NodeState \<Rightarrow> time \<Rightarrow> Node" where
  "demo_node i st hb =
     \<lparr>nd_ID = i, nd_Address = ''addr'', nd_State = st, nd_Labels = [], nd_BundleDigest = '''',
      nd_ProfileDigests = [], nd_Capacity = \<lparr>cap_MaxInstances = 2, cap_MaxTasks = 2\<rparr>,
      nd_StartedAt = 1, nd_LastHeartbeatAt = hb\<rparr>"

definition demo_instance :: "string \<Rightarrow> string \<Rightarrow> InstanceState \<Rightarrow> time \<Rightarrow> AgentInstance" where
  "demo_instance i node st hb =
     \<lparr>in_ID = i, in_Profile = ''dev'', in_NodeID = node, in_BundleDigest = '''',
      in_ProfileDigest = '''', in_Endpoint = \<lparr>ep_Address = ''host'', ep_Local = False\<rparr>,
      in_State = st, in_StartedAt = 1, in_LastHeartbeatAt = hb\<rparr>"

lemma demo_member_simps [simp]:
  "nd_ID (demo_node i ns hb) = i" "nd_State (demo_node i ns hb) = ns"
  "nd_LastHeartbeatAt (demo_node i ns hb) = hb" "nd_StartedAt (demo_node i ns hb) = 1"
  "in_ID (demo_instance i n is hb) = i" "in_NodeID (demo_instance i n is hb) = n"
  "in_State (demo_instance i n is hb) = is" "in_LastHeartbeatAt (demo_instance i n is hb) = hb"
  "in_Profile (demo_instance i n is hb) = ''dev''" "in_StartedAt (demo_instance i n is hb) = 1"
  by (simp_all add: demo_node_def demo_instance_def)

theorem liveness_rule_witness:
  "map_option nd_State (mget (fst (normalizeMembershipLiveness
       [(''n1'', demo_node ''n1'' NodeStateReady 1)]
       [(''i1'', demo_instance ''i1'' ''n1'' InstanceStateBusy 29000000000)] 30000000000)) ''n1'') =
     Some NodeStateUnavailable \<and>
   map_option in_State (mget (snd (normalizeMembershipLiveness
       [(''n1'', demo_node ''n1'' NodeStateReady 1)]
       [(''i1'', demo_instance ''i1'' ''n1'' InstanceStateBusy 29000000000)] 30000000000)) ''i1'') =
     Some InstanceStateUnavailable"
proof -
  let ?ns = "[(''n1'', demo_node ''n1'' NodeStateReady 1)]"
  let ?is = "[(''i1'', demo_instance ''i1'' ''n1'' InstanceStateBusy 29000000000)]"
  obtain ns' is' where r: "normalizeMembershipLiveness ?ns ?is 30000000000 = (ns', is')"
    by fastforce
  note p = liveness_rule [OF r order_refl]
  have "mget ns' ''n1'' = Some ((demo_node ''n1'' NodeStateReady 1)\<lparr>nd_State := NodeStateUnavailable\<rparr>)"
    using conjunct1 [OF p] by simp
  moreover from this have "mget is' ''i1'' =
      Some ((demo_instance ''i1'' ''n1'' InstanceStateBusy 29000000000)\<lparr>in_State := InstanceStateUnavailable\<rparr>)"
    using conjunct1 [OF conjunct2 [OF p]] by simp
  ultimately show ?thesis using r by simp
qed

end
