(* ===== verification/MemoryStore.thy ===== *)
theory MemoryStore
  imports Membership
begin

text \<open>
  The control-plane store of internal/controlplane/memory.go, operation by operation. Every method
  is one critical section, so an operation is a function on the store; the readings of \<open>time.Now()\<close>
  it makes are arguments (they happen before the lock is taken, so nothing relates the reading of
  one operation to that of the next). The part under the lock is a definition of its own where the
  file store runs the same code between loading and saving its state.
  A nil inner map is an absent key of the outer one. Cloning a map is the identity on its value.
  Epochs are unbounded here and \<open>int64\<close> in the code: they differ after 2^63 grants of one lease.
\<close>

section \<open>State\<close>

record MemoryStore =
  ms_fabric :: string
  ms_leader :: "LeaderLease option"
  ms_leaderEpoch :: int
  ms_attestedNodes :: "(string, AttestedNodeRecord) gomap"
  ms_nodes :: "(string, Node) gomap"
  ms_instances :: "(string, AgentInstance) gomap"
  ms_requests :: "(string, RequestRecord) gomap"
  ms_tasks :: "(string, (string, TaskRecord) gomap) gomap"
  ms_profileLeases :: "(string, ProfileLease) gomap"
  ms_profileEpochs :: "(string, int) gomap"
  ms_leases :: "(string, (string, TaskLease) gomap) gomap"
  ms_taskLeaseEpochs :: "(string, (string, int) gomap) gomap"

definition NewMemoryStore :: "string \<Rightarrow> MemoryStore" where
  "NewMemoryStore fabric =
     \<lparr>ms_fabric = fabric, ms_leader = None, ms_leaderEpoch = 0, ms_attestedNodes = [], ms_nodes = [],
      ms_instances = [], ms_requests = [], ms_tasks = [], ms_profileLeases = [], ms_profileEpochs = [],
      ms_leases = [], ms_taskLeaseEpochs = []\<rparr>"

datatype store_error =
    IDRequired string
  | TTLNotPositive
  | NoLeaderLease
  | NotOwned string
  | LeaseExpired
  | NodeNotFound string
  | InstanceNotFound string
  | ProfileLeaseNotFound string
  | RequestLeaseNotFound string
  | TaskLeaseNotFound string
  | FabricMismatch string string
  | StorageError

type_synonym 'r store_op = "MemoryStore \<Rightarrow> MemoryStore \<times> (store_error + 'r)"

text \<open>The argument checks an operation makes before it takes the lock.\<close>

definition checked :: "store_error option \<Rightarrow> 'r store_op \<Rightarrow> 'r store_op" where
  "checked e f s = (case e of Some err \<Rightarrow> (s, Inl err) | None \<Rightarrow> f s)"

section \<open>Attested nodes\<close>

definition UpsertAttestedNode :: "AttestedNodeRecord \<Rightarrow> unit store_op" where
  "UpsertAttestedNode record =
     checked (guard (an_NodeID record = '''') (IDRequired ''attested node ID''))
       (\<lambda>s. (s\<lparr>ms_attestedNodes := mput (an_NodeID record) record (ms_attestedNodes s)\<rparr>, Inr ()))"

definition GetAttestedNode :: "string \<Rightarrow> (AttestedNodeRecord option) store_op" where
  "GetAttestedNode nodeID s = (s, Inr (mget (ms_attestedNodes s) nodeID))"

section \<open>The leader lease\<close>

definition leader_checks :: "string \<Rightarrow> int \<Rightarrow> store_error option" where
  "leader_checks candidateID ttl =
     first_err [guard (candidateID = '''') (IDRequired ''candidate ID''), guard (ttl \<le> 0) TTLNotPositive]"

definition acquire_leader :: "time \<Rightarrow> string \<Rightarrow> string \<Rightarrow> int \<Rightarrow> (LeaderLease \<times> bool) store_op" where
  "acquire_leader now candidateID candidateAddress ttl s =
     (let granted =
        (let epoch = ms_leaderEpoch s + 1;
             lease = \<lparr>ll_Fabric = ms_fabric s, ll_HolderID = candidateID,
               ll_HolderAddress = candidateAddress, ll_Epoch = epoch, ll_AcquiredAt = now,
               ll_LastHeartbeatAt = now, ll_ExpiresAt = now + ttl\<rparr>
         in (s\<lparr>ms_leader := Some lease, ms_leaderEpoch := epoch\<rparr>, Inr (lease, True)))
      in case ms_leader s of
           Some cur \<Rightarrow>
             if ll_ExpiresAt cur > now \<and> ll_HolderID cur \<noteq> candidateID then (s, Inr (cur, False))
             else granted
         | None \<Rightarrow> granted)"

definition AcquireLeader :: "time \<Rightarrow> string \<Rightarrow> string \<Rightarrow> int \<Rightarrow> (LeaderLease \<times> bool) store_op" where
  "AcquireLeader now candidateID candidateAddress ttl =
     checked (leader_checks candidateID ttl) (acquire_leader now candidateID candidateAddress ttl)"

definition renew_leader :: "time \<Rightarrow> LeaderLease \<Rightarrow> int \<Rightarrow> LeaderLease store_op" where
  "renew_leader now lease ttl s =
     (case ms_leader s of
        None \<Rightarrow> (s, Inl NoLeaderLease)
      | Some cur \<Rightarrow>
          if ll_HolderID cur \<noteq> ll_HolderID lease \<or> ll_Epoch cur \<noteq> ll_Epoch lease
          then (s, Inl (NotOwned (ll_HolderID lease)))
          else if ll_ExpiresAt cur < now then (s, Inl LeaseExpired)
          else
            (let cur' = cur\<lparr>ll_LastHeartbeatAt := now, ll_ExpiresAt := now + ttl\<rparr>
             in (s\<lparr>ms_leader := Some cur'\<rparr>, Inr cur')))"

definition RenewLeader :: "time \<Rightarrow> LeaderLease \<Rightarrow> int \<Rightarrow> LeaderLease store_op" where
  "RenewLeader now lease ttl = checked (guard (ttl \<le> 0) TTLNotPositive) (renew_leader now lease ttl)"

definition GetLeader :: "time \<Rightarrow> (LeaderLease option) store_op" where
  "GetLeader now s =
     (case ms_leader s of
        None \<Rightarrow> (s, Inr None)
      | Some cur \<Rightarrow>
          if ll_ExpiresAt cur < now then (s\<lparr>ms_leader := None\<rparr>, Inr None) else (s, Inr (Some cur)))"

definition ReleaseLeader :: "LeaderLease \<Rightarrow> unit store_op" where
  "ReleaseLeader lease s =
     (case ms_leader s of
        None \<Rightarrow> (s, Inr ())
      | Some cur \<Rightarrow>
          if ll_HolderID cur \<noteq> ll_HolderID lease \<or> ll_Epoch cur \<noteq> ll_Epoch lease then (s, Inr ())
          else (s\<lparr>ms_leader := None\<rparr>, Inr ()))"

section \<open>Nodes\<close>

definition normalize :: "time \<Rightarrow> MemoryStore \<Rightarrow> MemoryStore" where
  "normalize now s =
     (let r = normalizeMembershipLiveness (ms_nodes s) (ms_instances s) now
      in s\<lparr>ms_nodes := fst r, ms_instances := snd r\<rparr>)"

lemma normalize_frame [simp, frame_simps]:
  "ms_fabric (normalize now s) = ms_fabric s" "ms_leader (normalize now s) = ms_leader s"
  "ms_leaderEpoch (normalize now s) = ms_leaderEpoch s"
  "ms_attestedNodes (normalize now s) = ms_attestedNodes s"
  "ms_requests (normalize now s) = ms_requests s" "ms_tasks (normalize now s) = ms_tasks s"
  "ms_profileLeases (normalize now s) = ms_profileLeases s"
  "ms_profileEpochs (normalize now s) = ms_profileEpochs s"
  "ms_leases (normalize now s) = ms_leases s"
  "ms_taskLeaseEpochs (normalize now s) = ms_taskLeaseEpochs s"
  by (simp_all add: normalize_def Let_def)

lemma normalize_members [simp]:
  "ms_nodes (normalize now s) = live_nodes now (ms_nodes s)"
  "ms_instances (normalize now s) = live_instances now (live_nodes now (ms_nodes s)) (ms_instances s)"
  by (simp_all add: normalize_def normalizeMembershipLiveness_def Let_def)

text \<open>The defaults of a new node; \<open>t0\<close> is the reading for a zero \<open>StartedAt\<close>.\<close>

definition node_defaults :: "time \<Rightarrow> Node \<Rightarrow> Node" where
  "node_defaults t0 node =
     (let n1 = (if nd_State node = NodeStateUnset then node\<lparr>nd_State := NodeStateReady\<rparr> else node);
          n2 = (if nd_StartedAt n1 = 0 then n1\<lparr>nd_StartedAt := t0\<rparr> else n1)
      in if nd_LastHeartbeatAt n2 = 0 then n2\<lparr>nd_LastHeartbeatAt := nd_StartedAt n2\<rparr> else n2)"

definition register_node :: "time \<Rightarrow> Node \<Rightarrow> unit store_op" where
  "register_node now node s =
     (let s' = normalize now s
      in (s'\<lparr>ms_nodes := mput (nd_ID node) node (ms_nodes s')\<rparr>, Inr ()))"

definition RegisterNode :: "time \<Rightarrow> time \<Rightarrow> Node \<Rightarrow> unit store_op" where
  "RegisterNode t0 now node =
     checked (guard (nd_ID node = '''') (IDRequired ''node ID''))
       (register_node now (node_defaults t0 node))"

definition revive_node :: "time \<Rightarrow> Node \<Rightarrow> Node" where
  "revive_node at_time node =
     (let n = node\<lparr>nd_LastHeartbeatAt := at_time\<rparr>
      in if nd_State n \<in> {NodeStateUnset, NodeStateUnknown, NodeStateUnavailable}
         then n\<lparr>nd_State := NodeStateReady\<rparr> else n)"

definition heartbeat_node :: "time \<Rightarrow> string \<Rightarrow> time \<Rightarrow> unit store_op" where
  "heartbeat_node now nodeID at_time s =
     (let s' = normalize now s
      in case mget (ms_nodes s') nodeID of
           None \<Rightarrow> (s', Inl (NodeNotFound nodeID))
         | Some node \<Rightarrow>
             (s'\<lparr>ms_nodes := mput nodeID (revive_node at_time node) (ms_nodes s')\<rparr>, Inr ()))"

definition HeartbeatNode :: "time \<Rightarrow> time \<Rightarrow> string \<Rightarrow> time \<Rightarrow> unit store_op" where
  "HeartbeatNode t0 now nodeID at_time =
     checked (guard (nodeID = '''') (IDRequired ''node ID''))
       (heartbeat_node now nodeID (if at_time = 0 then t0 else at_time))"

definition GetNode :: "time \<Rightarrow> string \<Rightarrow> (Node option) store_op" where
  "GetNode now nodeID s = (let s' = normalize now s in (s', Inr (mget (ms_nodes s') nodeID)))"

definition ListNodes :: "time \<Rightarrow> (Node list) store_op" where
  "ListNodes now s =
     (let s' = normalize now s
      in (s', Inr (sort_slice (\<lambda>x y. nd_ID x < nd_ID y) (mvals (ms_nodes s')))))"

section \<open>Instances\<close>

definition instance_defaults :: "time \<Rightarrow> AgentInstance \<Rightarrow> AgentInstance" where
  "instance_defaults t0 inst =
     (let i1 = (if in_State inst = InstanceStateUnset then inst\<lparr>in_State := InstanceStateReady\<rparr> else inst);
          i2 = (if in_StartedAt i1 = 0 then i1\<lparr>in_StartedAt := t0\<rparr> else i1)
      in if in_LastHeartbeatAt i2 = 0 then i2\<lparr>in_LastHeartbeatAt := in_StartedAt i2\<rparr> else i2)"

definition register_instance :: "time \<Rightarrow> AgentInstance \<Rightarrow> unit store_op" where
  "register_instance now inst s =
     (let s' = normalize now s
      in (s'\<lparr>ms_instances := mput (in_ID inst) inst (ms_instances s')\<rparr>, Inr ()))"

definition instance_checks :: "AgentInstance \<Rightarrow> store_error option" where
  "instance_checks inst =
     first_err [guard (in_ID inst = '''') (IDRequired ''instance ID''),
       guard (in_Profile inst = '''') (IDRequired ''instance profile'')]"

definition RegisterInstance :: "time \<Rightarrow> time \<Rightarrow> AgentInstance \<Rightarrow> unit store_op" where
  "RegisterInstance t0 now inst =
     checked (instance_checks inst) (register_instance now (instance_defaults t0 inst))"

definition revive_instance :: "time \<Rightarrow> AgentInstance \<Rightarrow> AgentInstance" where
  "revive_instance at_time inst =
     (let i = inst\<lparr>in_LastHeartbeatAt := at_time\<rparr>
      in if in_State i \<in> {InstanceStateUnset, InstanceStateUnknown, InstanceStateUnavailable}
         then i\<lparr>in_State := InstanceStateReady\<rparr> else i)"

definition heartbeat_instance :: "time \<Rightarrow> string \<Rightarrow> time \<Rightarrow> unit store_op" where
  "heartbeat_instance now instanceID at_time s =
     (let s' = normalize now s
      in case mget (ms_instances s') instanceID of
           None \<Rightarrow> (s', Inl (InstanceNotFound instanceID))
         | Some inst \<Rightarrow>
             (s'\<lparr>ms_instances := mput instanceID (revive_instance at_time inst) (ms_instances s')\<rparr>, Inr ()))"

definition HeartbeatInstance :: "time \<Rightarrow> time \<Rightarrow> string \<Rightarrow> time \<Rightarrow> unit store_op" where
  "HeartbeatInstance t0 now instanceID at_time =
     checked (guard (instanceID = '''') (IDRequired ''instance ID''))
       (heartbeat_instance now instanceID (if at_time = 0 then t0 else at_time))"

definition GetInstance :: "time \<Rightarrow> string \<Rightarrow> (AgentInstance option) store_op" where
  "GetInstance now instanceID s =
     (let s' = normalize now s in (s', Inr (mget (ms_instances s') instanceID)))"

definition matches_filter :: "InstanceFilter \<Rightarrow> AgentInstance \<Rightarrow> bool" where
  "matches_filter flt inst =
     (if if_Profile flt \<noteq> '''' \<and> in_Profile inst \<noteq> if_Profile flt then False
      else if if_NodeID flt \<noteq> '''' \<and> in_NodeID inst \<noteq> if_NodeID flt then False
      else if if_State flt \<noteq> InstanceStateUnset \<and> in_State inst \<noteq> if_State flt then False
      else True)"

definition list_instances :: "InstanceFilter \<Rightarrow> MemoryStore \<Rightarrow> AgentInstance list" where
  "list_instances flt s =
     sort_slice (\<lambda>x y. in_ID x < in_ID y) (filter (matches_filter flt) (mvals (ms_instances s)))"

definition ListInstances :: "time \<Rightarrow> InstanceFilter \<Rightarrow> (AgentInstance list) store_op" where
  "ListInstances now flt s = (let s' = normalize now s in (s', Inr (list_instances flt s')))"

definition RemoveInstance :: "string \<Rightarrow> unit store_op" where
  "RemoveInstance instanceID s = (s\<lparr>ms_instances := mdel instanceID (ms_instances s)\<rparr>, Inr ())"

section \<open>Requests and tasks\<close>

definition upsert_request :: "time \<Rightarrow> RequestRecord \<Rightarrow> unit store_op" where
  "upsert_request now request s =
     (let r1 =
        (if rq_CreatedAt request = 0 then
           (case mget (ms_requests s) (rq_ID request) of
              Some existing \<Rightarrow> request\<lparr>rq_CreatedAt := rq_CreatedAt existing\<rparr>
            | None \<Rightarrow> request\<lparr>rq_CreatedAt := now\<rparr>)
         else request);
          r2 = r1\<lparr>rq_UpdatedAt := now\<rparr>
      in (s\<lparr>ms_requests := mput (rq_ID request) r2 (ms_requests s)\<rparr>, Inr ()))"

definition UpsertRequest :: "time \<Rightarrow> RequestRecord \<Rightarrow> unit store_op" where
  "UpsertRequest now request =
     checked (guard (rq_ID request = '''') (IDRequired ''request ID'')) (upsert_request now request)"

definition GetRequest :: "string \<Rightarrow> (RequestRecord option) store_op" where
  "GetRequest requestID s = (s, Inr (mget (ms_requests s) requestID))"

definition ListRequests :: "(RequestRecord list) store_op" where
  "ListRequests s = (s, Inr (sort_slice (\<lambda>x y. rq_ID x < rq_ID y) (mvals (ms_requests s))))"

definition task_checks :: "TaskRecord \<Rightarrow> store_error option" where
  "task_checks task =
     first_err [guard (tk_RequestID task = '''') (IDRequired ''task request ID''),
       guard (tk_TaskID task = '''') (IDRequired ''task ID'')]"

definition upsert_task :: "TaskRecord \<Rightarrow> unit store_op" where
  "upsert_task task s =
     (let inner = mget0 [] (ms_tasks s) (tk_RequestID task)
      in (s\<lparr>ms_tasks := mput (tk_RequestID task) (mput (tk_TaskID task) task inner) (ms_tasks s)\<rparr>, Inr ()))"

definition UpsertTask :: "time \<Rightarrow> TaskRecord \<Rightarrow> unit store_op" where
  "UpsertTask now task = checked (task_checks task) (upsert_task (task\<lparr>tk_UpdatedAt := now\<rparr>))"

definition ListTasks :: "string \<Rightarrow> (TaskRecord list) store_op" where
  "ListTasks requestID s =
     (s, Inr (sort_slice (\<lambda>x y. tk_TaskID x < tk_TaskID y) (mvals (mget0 [] (ms_tasks s) requestID))))"

section \<open>Task leases\<close>

definition task_lease_checks :: "TaskLease \<Rightarrow> int \<Rightarrow> store_error option" where
  "task_lease_checks lease ttl =
     first_err [guard (tl_RequestID lease = '''') (IDRequired ''task lease request ID''),
       guard (tl_TaskID lease = '''') (IDRequired ''task lease task ID''),
       guard (tl_OwnerID lease = '''') (IDRequired ''task lease owner ID''),
       guard (ttl \<le> 0) TTLNotPositive]"

definition acquire_task_lease :: "time \<Rightarrow> TaskLease \<Rightarrow> int \<Rightarrow> (TaskLease \<times> bool) store_op" where
  "acquire_task_lease now lease ttl s =
     (let r = tl_RequestID lease; t = tl_TaskID lease;
          leases = mget0 [] (ms_leases s) r;
          epochs = mget0 [] (ms_taskLeaseEpochs s) r;
          s1 = s\<lparr>ms_leases := mput r leases (ms_leases s),
                 ms_taskLeaseEpochs := mput r epochs (ms_taskLeaseEpochs s)\<rparr>;
          granted =
            (let epoch = mget0 0 epochs t + 1;
                 lease' = lease\<lparr>tl_Epoch := epoch, tl_AcquiredAt := now, tl_LastHeartbeatAt := now,
                   tl_ExpiresAt := now + ttl\<rparr>
             in (s1\<lparr>ms_leases := mput r (mput t lease' leases) (ms_leases s1),
                    ms_taskLeaseEpochs := mput r (mput t epoch epochs) (ms_taskLeaseEpochs s1)\<rparr>,
                 Inr (lease', True)))
      in case mget leases t of
           Some existing \<Rightarrow>
             if tl_ExpiresAt existing > now \<and> tl_OwnerID existing \<noteq> tl_OwnerID lease
             then (s1, Inr (existing, False)) else granted
         | None \<Rightarrow> granted)"

definition AcquireTaskLease :: "time \<Rightarrow> TaskLease \<Rightarrow> int \<Rightarrow> (TaskLease \<times> bool) store_op" where
  "AcquireTaskLease now lease ttl =
     checked (task_lease_checks lease ttl) (acquire_task_lease now lease ttl)"

definition renew_task_lease :: "time \<Rightarrow> TaskLease \<Rightarrow> int \<Rightarrow> TaskLease store_op" where
  "renew_task_lease now lease ttl s =
     (case mget (ms_leases s) (tl_RequestID lease) of
        None \<Rightarrow> (s, Inl (RequestLeaseNotFound (tl_RequestID lease)))
      | Some requestLeases \<Rightarrow>
          (case mget requestLeases (tl_TaskID lease) of
             None \<Rightarrow> (s, Inl (TaskLeaseNotFound (tl_TaskID lease)))
           | Some cur \<Rightarrow>
               if tl_OwnerID cur \<noteq> tl_OwnerID lease \<or> tl_Epoch cur \<noteq> tl_Epoch lease
               then (s, Inl (NotOwned (tl_OwnerID lease)))
               else if tl_ExpiresAt cur < now then (s, Inl LeaseExpired)
               else
                 (let cur' = cur\<lparr>tl_LastHeartbeatAt := now, tl_ExpiresAt := now + ttl\<rparr>
                  in (s\<lparr>ms_leases := mput (tl_RequestID lease) (mput (tl_TaskID lease) cur' requestLeases)
                          (ms_leases s)\<rparr>, Inr cur'))))"

definition RenewTaskLease :: "time \<Rightarrow> TaskLease \<Rightarrow> int \<Rightarrow> TaskLease store_op" where
  "RenewTaskLease now lease ttl =
     checked (guard (ttl \<le> 0) TTLNotPositive) (renew_task_lease now lease ttl)"

definition GetTaskLease :: "time \<Rightarrow> string \<Rightarrow> string \<Rightarrow> (TaskLease option) store_op" where
  "GetTaskLease now requestID taskID s =
     (case mget (ms_leases s) requestID of
        None \<Rightarrow> (s, Inr None)
      | Some requestLeases \<Rightarrow>
          (case mget requestLeases taskID of
             None \<Rightarrow> (s, Inr None)
           | Some lease \<Rightarrow>
               if tl_ExpiresAt lease < now
               then (s\<lparr>ms_leases := mput requestID (mdel taskID requestLeases) (ms_leases s)\<rparr>, Inr None)
               else (s, Inr (Some lease))))"

definition ReleaseTaskLease :: "TaskLease \<Rightarrow> unit store_op" where
  "ReleaseTaskLease lease s =
     (case mget (ms_leases s) (tl_RequestID lease) of
        None \<Rightarrow> (s, Inr ())
      | Some requestLeases \<Rightarrow>
          (case mget requestLeases (tl_TaskID lease) of
             None \<Rightarrow> (s, Inr ())
           | Some cur \<Rightarrow>
               if tl_OwnerID cur \<noteq> tl_OwnerID lease \<or> tl_Epoch cur \<noteq> tl_Epoch lease then (s, Inr ())
               else
                 (let rest = mdel (tl_TaskID lease) requestLeases
                  in (s\<lparr>ms_leases := (if rest = [] then mdel (tl_RequestID lease) (ms_leases s)
                          else mput (tl_RequestID lease) rest (ms_leases s))\<rparr>, Inr ()))))"

section \<open>Profile leases\<close>

definition profile_lease_checks :: "ProfileLease \<Rightarrow> int \<Rightarrow> store_error option" where
  "profile_lease_checks lease ttl =
     first_err [guard (pl_Profile lease = '''') (IDRequired ''profile lease profile''),
       guard (pl_AssignedInstance lease = '''') (IDRequired ''profile lease assigned instance''),
       guard (pl_OwnerID lease = '''') (IDRequired ''profile lease owner ID''),
       guard (ttl \<le> 0) TTLNotPositive]"

definition acquire_profile_lease :: "time \<Rightarrow> ProfileLease \<Rightarrow> int \<Rightarrow> (ProfileLease \<times> bool) store_op" where
  "acquire_profile_lease now lease ttl s =
     (let p = pl_Profile lease;
          granted =
            (let epoch = mget0 0 (ms_profileEpochs s) p + 1;
                 lease' = lease\<lparr>pl_Epoch := epoch, pl_AcquiredAt := now, pl_LastHeartbeatAt := now,
                   pl_ExpiresAt := now + ttl\<rparr>
             in (s\<lparr>ms_profileLeases := mput p lease' (ms_profileLeases s),
                   ms_profileEpochs := mput p epoch (ms_profileEpochs s)\<rparr>, Inr (lease', True)))
      in case mget (ms_profileLeases s) p of
           Some existing \<Rightarrow>
             if pl_ExpiresAt existing > now then
               (if pl_OwnerID existing = pl_OwnerID lease \<and>
                   pl_AssignedInstance existing = pl_AssignedInstance lease
                then
                  (let ext = existing\<lparr>pl_LastHeartbeatAt := now, pl_ExpiresAt := now + ttl\<rparr>
                   in (s\<lparr>ms_profileLeases := mput p ext (ms_profileLeases s)\<rparr>, Inr (ext, True)))
                else (s, Inr (existing, False)))
             else granted
         | None \<Rightarrow> granted)"

definition AcquireProfileLease :: "time \<Rightarrow> ProfileLease \<Rightarrow> int \<Rightarrow> (ProfileLease \<times> bool) store_op" where
  "AcquireProfileLease now lease ttl =
     checked (profile_lease_checks lease ttl) (acquire_profile_lease now lease ttl)"

definition same_profile_lease :: "ProfileLease \<Rightarrow> ProfileLease \<Rightarrow> bool" where
  "same_profile_lease cur lease =
     (pl_OwnerID cur = pl_OwnerID lease \<and> pl_Epoch cur = pl_Epoch lease \<and>
      pl_AssignedInstance cur = pl_AssignedInstance lease)"

definition renew_profile_lease :: "time \<Rightarrow> ProfileLease \<Rightarrow> int \<Rightarrow> ProfileLease store_op" where
  "renew_profile_lease now lease ttl s =
     (case mget (ms_profileLeases s) (pl_Profile lease) of
        None \<Rightarrow> (s, Inl (ProfileLeaseNotFound (pl_Profile lease)))
      | Some cur \<Rightarrow>
          if \<not> same_profile_lease cur lease then (s, Inl (NotOwned (pl_OwnerID lease)))
          else if pl_ExpiresAt cur < now then (s, Inl LeaseExpired)
          else
            (let cur' = cur\<lparr>pl_LastHeartbeatAt := now, pl_ExpiresAt := now + ttl\<rparr>
             in (s\<lparr>ms_profileLeases := mput (pl_Profile lease) cur' (ms_profileLeases s)\<rparr>, Inr cur')))"

definition RenewProfileLease :: "time \<Rightarrow> ProfileLease \<Rightarrow> int \<Rightarrow> ProfileLease store_op" where
  "RenewProfileLease now lease ttl =
     checked (guard (ttl \<le> 0) TTLNotPositive) (renew_profile_lease now lease ttl)"

definition GetProfileLease :: "time \<Rightarrow> string \<Rightarrow> (ProfileLease option) store_op" where
  "GetProfileLease now profile s =
     (case mget (ms_profileLeases s) profile of
        None \<Rightarrow> (s, Inr None)
      | Some lease \<Rightarrow>
          if pl_ExpiresAt lease < now
          then (s\<lparr>ms_profileLeases := mdel profile (ms_profileLeases s)\<rparr>, Inr None)
          else (s, Inr (Some lease)))"

definition ReleaseProfileLease :: "ProfileLease \<Rightarrow> unit store_op" where
  "ReleaseProfileLease lease s =
     (case mget (ms_profileLeases s) (pl_Profile lease) of
        None \<Rightarrow> (s, Inr ())
      | Some cur \<Rightarrow>
          if \<not> same_profile_lease cur lease then (s, Inr ())
          else (s\<lparr>ms_profileLeases := mdel (pl_Profile lease) (ms_profileLeases s)\<rparr>, Inr ()))"

section \<open>What an operation leaves alone\<close>

lemma fst_checked [frame_simps]: "fst (checked e f s) = (if e = None then fst (f s) else s)"
  by (simp add: checked_def split: option.split)

lemma leases_keep_members [frame_simps]:
  "ms_nodes (fst (acquire_leader now c a ttl s)) = ms_nodes s"
  "ms_instances (fst (acquire_leader now c a ttl s)) = ms_instances s"
  "ms_nodes (fst (renew_leader now l ttl s)) = ms_nodes s"
  "ms_instances (fst (renew_leader now l ttl s)) = ms_instances s"
  "ms_nodes (fst (GetLeader now s)) = ms_nodes s"
  "ms_instances (fst (GetLeader now s)) = ms_instances s"
  "ms_nodes (fst (ReleaseLeader l s)) = ms_nodes s"
  "ms_instances (fst (ReleaseLeader l s)) = ms_instances s"
  "ms_nodes (fst (upsert_request now r s)) = ms_nodes s"
  "ms_instances (fst (upsert_request now r s)) = ms_instances s"
  "ms_nodes (fst (upsert_task tk s)) = ms_nodes s"
  "ms_instances (fst (upsert_task tk s)) = ms_instances s"
  "ms_nodes (fst (acquire_task_lease now tlease ttl s)) = ms_nodes s"
  "ms_instances (fst (acquire_task_lease now tlease ttl s)) = ms_instances s"
  "ms_nodes (fst (renew_task_lease now tlease ttl s)) = ms_nodes s"
  "ms_instances (fst (renew_task_lease now tlease ttl s)) = ms_instances s"
  "ms_nodes (fst (GetTaskLease now rid tid s)) = ms_nodes s"
  "ms_instances (fst (GetTaskLease now rid tid s)) = ms_instances s"
  "ms_nodes (fst (ReleaseTaskLease tlease s)) = ms_nodes s"
  "ms_instances (fst (ReleaseTaskLease tlease s)) = ms_instances s"
  "ms_nodes (fst (acquire_profile_lease now please ttl s)) = ms_nodes s"
  "ms_instances (fst (acquire_profile_lease now please ttl s)) = ms_instances s"
  "ms_nodes (fst (renew_profile_lease now please ttl s)) = ms_nodes s"
  "ms_instances (fst (renew_profile_lease now please ttl s)) = ms_instances s"
  "ms_nodes (fst (GetProfileLease now p s)) = ms_nodes s"
  "ms_instances (fst (GetProfileLease now p s)) = ms_instances s"
  "ms_nodes (fst (ReleaseProfileLease please s)) = ms_nodes s"
  "ms_instances (fst (ReleaseProfileLease please s)) = ms_instances s"
  by (simp_all add: acquire_leader_def renew_leader_def GetLeader_def ReleaseLeader_def upsert_request_def upsert_task_def acquire_task_lease_def renew_task_lease_def GetTaskLease_def ReleaseTaskLease_def acquire_profile_lease_def renew_profile_lease_def GetProfileLease_def ReleaseProfileLease_def
    Let_def split: option.split)

end
