(* ===== verification/Leases.thy ===== *)
theory Leases
  imports MemoryStore
begin

text \<open>
  What the leases of the control-plane store promise. A call of the store is a value of
  \<open>store_call\<close>, with the clock readings it makes; \<open>exec\<close> runs it, and a run of the store is any
  sequence of calls, by any clients, with any readings (clocks of clients are not synchronised, and
  a reading is taken before the lock is). The contract is the locale \<open>lease_cell\<close>, interpreted for
  the leader, for every profile and for every task.
\<close>

section \<open>Runs of the store\<close>

datatype store_call =
    CUpsertAttestedNode AttestedNodeRecord | CGetAttestedNode string
  | CAcquireLeader time string string int | CRenewLeader time LeaderLease int
  | CGetLeader time | CReleaseLeader LeaderLease
  | CRegisterNode time time Node | CHeartbeatNode time time string time
  | CGetNode time string | CListNodes time
  | CRegisterInstance time time AgentInstance | CHeartbeatInstance time time string time
  | CGetInstance time string | CListInstances time InstanceFilter | CRemoveInstance string
  | CUpsertRequest time RequestRecord | CGetRequest string | CListRequests
  | CUpsertTask time TaskRecord | CListTasks string
  | CAcquireTaskLease time TaskLease int | CRenewTaskLease time TaskLease int
  | CGetTaskLease time string string | CReleaseTaskLease TaskLease
  | CAcquireProfileLease time ProfileLease int | CRenewProfileLease time ProfileLease int
  | CGetProfileLease time string | CReleaseProfileLease ProfileLease

fun exec :: "store_call \<Rightarrow> MemoryStore \<Rightarrow> MemoryStore" where
  "exec (CUpsertAttestedNode r) s = fst (UpsertAttestedNode r s)"
| "exec (CGetAttestedNode n) s = fst (GetAttestedNode n s)"
| "exec (CAcquireLeader now c a ttl) s = fst (AcquireLeader now c a ttl s)"
| "exec (CRenewLeader now l ttl) s = fst (RenewLeader now l ttl s)"
| "exec (CGetLeader now) s = fst (GetLeader now s)"
| "exec (CReleaseLeader l) s = fst (ReleaseLeader l s)"
| "exec (CRegisterNode t0 now n) s = fst (RegisterNode t0 now n s)"
| "exec (CHeartbeatNode t0 now n a) s = fst (HeartbeatNode t0 now n a s)"
| "exec (CGetNode now n) s = fst (GetNode now n s)"
| "exec (CListNodes now) s = fst (ListNodes now s)"
| "exec (CRegisterInstance t0 now i) s = fst (RegisterInstance t0 now i s)"
| "exec (CHeartbeatInstance t0 now i a) s = fst (HeartbeatInstance t0 now i a s)"
| "exec (CGetInstance now i) s = fst (GetInstance now i s)"
| "exec (CListInstances now f) s = fst (ListInstances now f s)"
| "exec (CRemoveInstance i) s = fst (RemoveInstance i s)"
| "exec (CUpsertRequest now r) s = fst (UpsertRequest now r s)"
| "exec (CGetRequest r) s = fst (GetRequest r s)"
| "exec CListRequests s = fst (ListRequests s)"
| "exec (CUpsertTask now t) s = fst (UpsertTask now t s)"
| "exec (CListTasks r) s = fst (ListTasks r s)"
| "exec (CAcquireTaskLease now l ttl) s = fst (AcquireTaskLease now l ttl s)"
| "exec (CRenewTaskLease now l ttl) s = fst (RenewTaskLease now l ttl s)"
| "exec (CGetTaskLease now r t) s = fst (GetTaskLease now r t s)"
| "exec (CReleaseTaskLease l) s = fst (ReleaseTaskLease l s)"
| "exec (CAcquireProfileLease now l ttl) s = fst (AcquireProfileLease now l ttl s)"
| "exec (CRenewProfileLease now l ttl) s = fst (RenewProfileLease now l ttl s)"
| "exec (CGetProfileLease now p) s = fst (GetProfileLease now p s)"
| "exec (CReleaseProfileLease l) s = fst (ReleaseProfileLease l s)"

definition run_store :: "store_call list \<Rightarrow> MemoryStore \<Rightarrow> MemoryStore" where
  "run_store cs s = foldl (\<lambda>s c. exec c s) s cs"

lemma run_store_simps [simp]:
  "run_store [] s = s" "run_store (c # cs) s = run_store cs (exec c s)"
  "run_store (cs @ ds) s = run_store ds (run_store cs s)"
  by (simp_all add: run_store_def)

lemmas store_op_defs =
  UpsertAttestedNode_def GetAttestedNode_def AcquireLeader_def acquire_leader_def RenewLeader_def
  renew_leader_def GetLeader_def ReleaseLeader_def RegisterNode_def register_node_def
  HeartbeatNode_def heartbeat_node_def GetNode_def ListNodes_def RegisterInstance_def
  register_instance_def HeartbeatInstance_def heartbeat_instance_def GetInstance_def
  ListInstances_def RemoveInstance_def UpsertRequest_def upsert_request_def GetRequest_def
  ListRequests_def UpsertTask_def upsert_task_def ListTasks_def AcquireTaskLease_def
  acquire_task_lease_def RenewTaskLease_def renew_task_lease_def GetTaskLease_def
  ReleaseTaskLease_def AcquireProfileLease_def acquire_profile_lease_def RenewProfileLease_def
  renew_profile_lease_def GetProfileLease_def ReleaseProfileLease_def checked_def

section \<open>The contract of a lease\<close>

text \<open>
  A cell has a holder, with the epoch of its grant, and the highest epoch granted so far. A step
  leaves both alone, or drops the holder, or grants the next epoch.
\<close>

locale lease_cell =
  fixes run :: "'c list \<Rightarrow> 's \<Rightarrow> 's"
    and holder :: "'s \<Rightarrow> ('o \<times> int) option"
    and top :: "'s \<Rightarrow> int"
  assumes run_Nil: "run [] s = s"
    and run_Cons: "run (c # cs) s = run cs (run [c] s)"
    and step: "(top (run [c] s) = top s \<and> (holder (run [c] s) = holder s \<or> holder (run [c] s) = None)) \<or>
      (top (run [c] s) = top s + 1 \<and> (\<exists>own. holder (run [c] s) = Some (own, top s + 1)))"
begin

lemma top_mono: "top s \<le> top (run cs s)"
proof (induction cs arbitrary: s)
  case (Cons c cs)
  have "top s \<le> top (run [c] s)" using step [of c s] by auto
  also have "\<dots> \<le> top (run cs (run [c] s))" by (rule Cons.IH)
  finally show ?case by (simp only: run_Cons [of c cs s])
qed (simp add: run_Nil)

text \<open>A later holder is the holder of before, or holds an epoch granted since.\<close>

lemma holder_later:
  "holder (run cs s) = Some (own, e) \<Longrightarrow> holder s = Some (own, e) \<or> top s < e"
proof (induction cs arbitrary: s)
  case (Cons c cs)
  from Cons.prems have "holder (run cs (run [c] s)) = Some (own, e)" by (simp only: run_Cons [of c cs s])
  from Cons.IH [OF this] step [of c s] show ?case by auto
qed (simp add: run_Nil)

lemma lost_stays_lost:
  "e \<le> top s \<Longrightarrow> holder s \<noteq> Some (own, e) \<Longrightarrow> holder (run cs s) \<noteq> Some (own, e)"
  using holder_later by fastforce

lemma one_owner_per_epoch:
  "holder s = Some (own, e) \<Longrightarrow> e \<le> top s \<Longrightarrow> holder (run cs s) = Some (own', e) \<Longrightarrow> own' = own"
  using holder_later by fastforce

definition holder_bounded :: "'s \<Rightarrow> bool" where
  "holder_bounded s \<longleftrightarrow> (\<forall>own e. holder s = Some (own, e) \<longrightarrow> e \<le> top s)"

lemma holder_bounded_run: "holder_bounded s \<Longrightarrow> holder_bounded (run cs s)"
proof (induction cs arbitrary: s)
  case (Cons c cs)
  have "holder_bounded (run [c] s)"
    using Cons.prems step [of c s] by (auto simp: holder_bounded_def)
  from Cons.IH [OF this] show ?case by (simp only: run_Cons [of c cs s])
qed (simp add: run_Nil)

end

section \<open>The three kinds of leases of the store\<close>

definition leader_holder :: "MemoryStore \<Rightarrow> (string \<times> int) option" where
  "leader_holder s = map_option (\<lambda>l. (ll_HolderID l, ll_Epoch l)) (ms_leader s)"

definition profile_holder :: "string \<Rightarrow> MemoryStore \<Rightarrow> ((string \<times> string) \<times> int) option" where
  "profile_holder p s =
     map_option (\<lambda>l. ((pl_OwnerID l, pl_AssignedInstance l), pl_Epoch l)) (mget (ms_profileLeases s) p)"

definition profile_epoch :: "string \<Rightarrow> MemoryStore \<Rightarrow> int" where
  "profile_epoch p s = mget0 0 (ms_profileEpochs s) p"

definition task_lease_of :: "string \<Rightarrow> string \<Rightarrow> MemoryStore \<Rightarrow> TaskLease option" where
  "task_lease_of r t s = mget (mget0 [] (ms_leases s) r) t"

definition task_holder :: "string \<Rightarrow> string \<Rightarrow> MemoryStore \<Rightarrow> (string \<times> int) option" where
  "task_holder r t s = map_option (\<lambda>l. (tl_OwnerID l, tl_Epoch l)) (task_lease_of r t s)"

definition task_epoch :: "string \<Rightarrow> string \<Rightarrow> MemoryStore \<Rightarrow> int" where
  "task_epoch r t s = mget0 0 (mget0 [] (ms_taskLeaseEpochs s) r) t"

lemmas lease_view_defs =
  leader_holder_def profile_holder_def profile_epoch_def task_lease_of_def task_holder_def task_epoch_def

lemma leader_step:
  "(ms_leaderEpoch (exec c s) = ms_leaderEpoch s \<and>
      (leader_holder (exec c s) = leader_holder s \<or> leader_holder (exec c s) = None)) \<or>
   (ms_leaderEpoch (exec c s) = ms_leaderEpoch s + 1 \<and>
      (\<exists>own. leader_holder (exec c s) = Some (own, ms_leaderEpoch s + 1)))"
proof (cases "(\<exists>now c' a ttl. c = CAcquireLeader now c' a ttl) \<or> (\<exists>now l ttl. c = CRenewLeader now l ttl) \<or> (\<exists>now. c = CGetLeader now) \<or>
    (\<exists>l. c = CReleaseLeader l)")
  case True
  then show ?thesis
    by (elim disjE exE) (auto simp: store_op_defs leader_holder_def Let_def split: option.splits)
next
  case False
  then have "ms_leaderEpoch (exec c s) = ms_leaderEpoch s \<and> ms_leader (exec c s) = ms_leader s" 
    by (cases c) (auto simp: store_op_defs Let_def split: option.splits)
  then show ?thesis by (simp add: leader_holder_def)
qed

lemma profile_step:
  "(profile_epoch p (exec c s) = profile_epoch p s \<and>
      (profile_holder p (exec c s) = profile_holder p s \<or> profile_holder p (exec c s) = None)) \<or>
   (profile_epoch p (exec c s) = profile_epoch p s + 1 \<and>
      (\<exists>own. profile_holder p (exec c s) = Some (own, profile_epoch p s + 1)))"
proof (cases "(\<exists>now l ttl. c = CAcquireProfileLease now l ttl) \<or> (\<exists>now l ttl. c = CRenewProfileLease now l ttl) \<or>
    (\<exists>now q. c = CGetProfileLease now q) \<or> (\<exists>l. c = CReleaseProfileLease l)")
  case True
  then show ?thesis
    by (elim disjE exE) (auto simp: store_op_defs profile_holder_def profile_epoch_def Let_def split: option.splits)
next
  case False
  then have "ms_profileEpochs (exec c s) = ms_profileEpochs s \<and> ms_profileLeases (exec c s) = ms_profileLeases s"
    by (cases c) (auto simp: store_op_defs Let_def split: option.splits)
  then show ?thesis by (simp add: profile_holder_def profile_epoch_def)
qed

lemma task_step_AcquireTaskLease:
  "(task_epoch r t s' = task_epoch r t s \<and> task_holder r t s' = task_holder r t s) \<or>
   (task_epoch r t s' = task_epoch r t s + 1 \<and> task_holder r t s' = Some (tl_OwnerID l, task_epoch r t s + 1))"
  if "s' = fst (AcquireTaskLease now l ttl s)"
proof -
  let ?cur = "mget (mget0 [] (ms_leases s) (tl_RequestID l)) (tl_TaskID l)"
  note defs = that AcquireTaskLease_def acquire_task_lease_def checked_def task_epoch_def task_holder_def task_lease_of_def Let_def
  show ?thesis
  proof (cases "task_lease_checks l ttl = None")
    case True
    then show ?thesis by (cases ?cur) (simp_all add: defs)
  qed (auto simp: defs)
qed

lemma task_step_RenewTaskLease:
  "task_epoch r t (fst (RenewTaskLease now l ttl s)) = task_epoch r t s \<and>
   task_holder r t (fst (RenewTaskLease now l ttl s)) = task_holder r t s"
proof -
  note defs = RenewTaskLease_def renew_task_lease_def checked_def task_epoch_def task_holder_def task_lease_of_def guard_def
  show ?thesis
  proof (cases "mget (ms_leases s) (tl_RequestID l)")
    case (Some rl)
    then show ?thesis by (cases "mget rl (tl_TaskID l)") (simp_all add: defs Let_def)
  qed (simp add: defs)
qed

lemma task_step_GetTaskLease:
  "task_epoch r t (fst (GetTaskLease now r' t' s)) = task_epoch r t s \<and>
   (task_holder r t (fst (GetTaskLease now r' t' s)) = task_holder r t s \<or>
    task_holder r t (fst (GetTaskLease now r' t' s)) = None)"
  by (auto simp: GetTaskLease_def lease_view_defs split: option.split)

lemma task_step_ReleaseTaskLease:
  "task_epoch r t (fst (ReleaseTaskLease l s)) = task_epoch r t s \<and>
   (task_holder r t (fst (ReleaseTaskLease l s)) = task_holder r t s \<or>
    task_holder r t (fst (ReleaseTaskLease l s)) = None)"
proof (cases "mget (ms_leases s) (tl_RequestID l)")
  case (Some rl)
  have "mget rl k = None" if "mdel (tl_TaskID l) rl = []" "k \<noteq> tl_TaskID l" for k
    using mget_mdel [of "tl_TaskID l" rl k] that by simp
  with Some show ?thesis
    by (cases "mget rl (tl_TaskID l)")
       (auto simp: ReleaseTaskLease_def lease_view_defs Let_def)
qed (simp add: ReleaseTaskLease_def)

lemma task_step:
  "(task_epoch r t (exec c s) = task_epoch r t s \<and>
      (task_holder r t (exec c s) = task_holder r t s \<or> task_holder r t (exec c s) = None)) \<or>
   (task_epoch r t (exec c s) = task_epoch r t s + 1 \<and>
      (\<exists>own. task_holder r t (exec c s) = Some (own, task_epoch r t s + 1)))"
proof (cases "(\<exists>now l ttl. c = CAcquireTaskLease now l ttl) \<or> (\<exists>now l ttl. c = CRenewTaskLease now l ttl) \<or>
    (\<exists>now r t. c = CGetTaskLease now r t) \<or> (\<exists>l. c = CReleaseTaskLease l)")
  case True
  then show ?thesis
  proof (elim disjE exE)
    fix now l ttl assume "c = CAcquireTaskLease now l ttl"
    then show ?thesis using task_step_AcquireTaskLease [OF refl, of r t now l ttl s] by auto
  next
    fix now l ttl assume "c = CRenewTaskLease now l ttl"
    then show ?thesis using task_step_RenewTaskLease [of r t now l ttl s] by simp
  next
    fix now r' t' assume "c = CGetTaskLease now r' t'"
    then show ?thesis using task_step_GetTaskLease [of r t now r' t' s] by simp
  next
    fix l assume "c = CReleaseTaskLease l"
    then show ?thesis using task_step_ReleaseTaskLease [of r t l s] by simp
  qed
next
  case False
  then have "ms_leases (exec c s) = ms_leases s \<and> ms_taskLeaseEpochs (exec c s) = ms_taskLeaseEpochs s"
    by (cases c) (auto simp: store_op_defs Let_def split: option.splits)
  then show ?thesis by (simp add: lease_view_defs)
qed

interpretation leader: lease_cell run_store leader_holder ms_leaderEpoch
  by unfold_locales (use leader_step in simp_all)

interpretation profile: lease_cell run_store "profile_holder p" "profile_epoch p" for p
  by unfold_locales (use profile_step in simp_all)

interpretation task: lease_cell run_store "task_holder r t" "task_epoch r t" for r t
  by unfold_locales (use task_step in simp_all)

section \<open>Properties\<close>

text \<open>
  Claim C5: the leader lease is fenced. After a candidate is granted the lease, along any run of the
  store: a later grant carries a strictly larger epoch; a renewal that succeeds proves that the
  granted lease is still the current one and has not expired; once it is no longer current, no
  renewal of it ever succeeds again; and while it is current and unexpired, every other candidate is
  refused and shown it, and the store does not change.
\<close>

theorem leader_lease_fenced:
  assumes "AcquireLeader now cand addr ttl s = (s1, Inr (l, True))" and "s2 = run_store cs s1"
  shows "(\<forall>now' cand' addr' ttl' s3 l'. AcquireLeader now' cand' addr' ttl' s2 = (s3, Inr (l', True)) \<longrightarrow>
      ll_Epoch l < ll_Epoch l') \<and>
    (\<forall>now' ttl' s3 l'. RenewLeader now' l ttl' s2 = (s3, Inr l') \<longrightarrow>
      (\<exists>cur. ms_leader s2 = Some cur \<and> ll_HolderID cur = cand \<and> ll_Epoch cur = ll_Epoch l \<and>
         now' \<le> ll_ExpiresAt cur)) \<and>
    (leader_holder s2 \<noteq> Some (cand, ll_Epoch l) \<longrightarrow>
      (\<forall>ds now' ttl'. \<exists>e. snd (RenewLeader now' l ttl' (run_store ds s2)) = Inl e)) \<and>
    (\<forall>cur now' cand' addr' ttl'. ms_leader s2 = Some cur \<longrightarrow> now' < ll_ExpiresAt cur \<longrightarrow>
      cand' \<noteq> ll_HolderID cur \<longrightarrow> leader_checks cand' ttl' = None \<longrightarrow>
      AcquireLeader now' cand' addr' ttl' s2 = (s2, Inr (cur, False)))"
proof -
  have l: "ll_HolderID l = cand" "ll_Epoch l = ms_leaderEpoch s1"
    using assms(1)
    by (auto simp: AcquireLeader_def acquire_leader_def checked_def Let_def split: option.splits if_splits)
  have le: "ll_Epoch l \<le> ms_leaderEpoch s2"
    using leader.top_mono [of s1 cs] assms(2) l by simp
  have renew: "\<exists>cur. ms_leader s' = Some cur \<and> ll_HolderID cur = cand \<and> ll_Epoch cur = ll_Epoch l \<and>
      now' \<le> ll_ExpiresAt cur" if "RenewLeader now' l ttl' s' = (s3, Inr l')" for now' ttl' s' s3 l'
    using that l(1)
    by (auto simp: RenewLeader_def renew_leader_def checked_def Let_def split: option.splits if_splits)
  have lost: "\<exists>e. snd (RenewLeader now' l ttl' (run_store ds s2)) = Inl e"
    if h: "leader_holder s2 \<noteq> Some (cand, ll_Epoch l)" for ds now' ttl'
  proof (cases "snd (RenewLeader now' l ttl' (run_store ds s2))")
    case (Inr l')
    with renew [of now' ttl' "run_store ds s2" "fst (RenewLeader now' l ttl' (run_store ds s2))" l']
    have "leader_holder (run_store ds s2) = Some (cand, ll_Epoch l)"
      by (auto simp: leader_holder_def prod_eq_iff)
    with leader.lost_stays_lost [OF le h] show ?thesis by simp
  qed simp
  have later: "ll_Epoch l < ll_Epoch l'"
    if "AcquireLeader now' cand' addr' ttl' s2 = (s3, Inr (l', True))" for now' cand' addr' ttl' s3 l'
    using that le
    by (auto simp: AcquireLeader_def acquire_leader_def checked_def Let_def split: option.splits if_splits)
  show ?thesis
    using renew lost later by (auto simp: AcquireLeader_def acquire_leader_def checked_def Let_def)
qed

definition demo_store :: MemoryStore where
  "demo_store = NewMemoryStore ''fab''"

definition demo_leader :: "string \<Rightarrow> int \<Rightarrow> time \<Rightarrow> LeaderLease" where
  "demo_leader who epoch t =
     \<lparr>ll_Fabric = ''fab'', ll_HolderID = who, ll_HolderAddress = ''addr'', ll_Epoch = epoch,
      ll_AcquiredAt = t, ll_LastHeartbeatAt = t, ll_ExpiresAt = t + 10\<rparr>"

theorem leader_lease_fenced_witness:
  "\<exists>e. snd (RenewLeader 30 (demo_leader ''c1'' 1 5) 10
      (run_store [CGetLeader 20, CAcquireLeader 21 ''c2'' ''addr'' 10]
        (fst (AcquireLeader 5 ''c1'' ''addr'' 10 demo_store)))) = Inl e"
proof -
  let ?s1 = "fst (AcquireLeader 5 ''c1'' ''addr'' 10 demo_store)"
  let ?s2 = "run_store [CGetLeader 20, CAcquireLeader 21 ''c2'' ''addr'' 10] ?s1"
  have grant: "AcquireLeader 5 ''c1'' ''addr'' 10 demo_store = (?s1, Inr (demo_leader ''c1'' 1 5, True))"
    by (simp add: AcquireLeader_def acquire_leader_def checked_def leader_checks_def demo_store_def
        NewMemoryStore_def demo_leader_def Let_def prod_eq_iff)
  have "leader_holder ?s2 = Some (''c2'', 2)"
    by (simp add: AcquireLeader_def acquire_leader_def GetLeader_def checked_def leader_checks_def
        demo_store_def NewMemoryStore_def leader_holder_def Let_def)
  then have "leader_holder ?s2 \<noteq> Some (''c1'', ll_Epoch (demo_leader ''c1'' 1 5))" by simp
  with leader_lease_fenced [OF grant refl, of "[CGetLeader 20, CAcquireLeader 21 ''c2'' ''addr'' 10]"]
  have "\<forall>ds now' ttl'. \<exists>e. snd (RenewLeader now' (demo_leader ''c1'' 1 5) ttl' (run_store ds ?s2)) = Inl e"
    by blast
  from this [THEN spec, of "[]"] show ?thesis by simp
qed

text \<open>
  A task lease is fenced, the same way, per task. In addition a lease is only ever granted
  under the request and task ID it names, so the lease of one task says nothing of another.
\<close>

theorem task_lease_fenced:
  assumes "AcquireTaskLease now lease ttl s = (s1, Inr (l, True))" and "s2 = run_store cs s1"
  shows "tl_RequestID l = tl_RequestID lease \<and> tl_TaskID l = tl_TaskID lease \<and>
    (\<forall>now' lease' ttl' s3 l'. AcquireTaskLease now' lease' ttl' s2 = (s3, Inr (l', True)) \<longrightarrow>
      tl_RequestID lease' = tl_RequestID l \<longrightarrow> tl_TaskID lease' = tl_TaskID l \<longrightarrow>
      tl_Epoch l < tl_Epoch l') \<and>
    (\<forall>now' ttl' s3 l'. RenewTaskLease now' l ttl' s2 = (s3, Inr l') \<longrightarrow>
      (\<exists>cur. task_lease_of (tl_RequestID l) (tl_TaskID l) s2 = Some cur \<and>
         tl_OwnerID cur = tl_OwnerID lease \<and> tl_Epoch cur = tl_Epoch l \<and> now' \<le> tl_ExpiresAt cur)) \<and>
    (task_holder (tl_RequestID l) (tl_TaskID l) s2 \<noteq> Some (tl_OwnerID l, tl_Epoch l) \<longrightarrow>
      (\<forall>ds now' ttl'. \<exists>e. snd (RenewTaskLease now' l ttl' (run_store ds s2)) = Inl e)) \<and>
    (\<forall>cur now' lease' ttl'. task_lease_of (tl_RequestID lease') (tl_TaskID lease') s2 = Some cur \<longrightarrow>
      now' < tl_ExpiresAt cur \<longrightarrow> tl_OwnerID lease' \<noteq> tl_OwnerID cur \<longrightarrow>
      task_lease_checks lease' ttl' = None \<longrightarrow>
      snd (AcquireTaskLease now' lease' ttl' s2) = Inr (cur, False))"
proof -
  have l: "tl_RequestID l = tl_RequestID lease" "tl_TaskID l = tl_TaskID lease"
    "tl_OwnerID l = tl_OwnerID lease" "tl_Epoch l = task_epoch (tl_RequestID l) (tl_TaskID l) s1"
    using assms(1)
    by (auto simp: AcquireTaskLease_def acquire_task_lease_def checked_def Let_def task_epoch_def
        split: option.splits if_splits)
  have le: "tl_Epoch l \<le> task_epoch (tl_RequestID l) (tl_TaskID l) s2"
    using task.top_mono [of "tl_RequestID l" "tl_TaskID l" s1 cs] assms(2) l(4) by simp
  have renew: "\<exists>cur. task_lease_of (tl_RequestID l) (tl_TaskID l) s' = Some cur \<and>
      tl_OwnerID cur = tl_OwnerID l \<and> tl_Epoch cur = tl_Epoch l \<and> now' \<le> tl_ExpiresAt cur"
    if "RenewTaskLease now' l ttl' s' = (s3, Inr l')" for now' ttl' s' s3 l'
    using that
    by (auto simp: RenewTaskLease_def renew_task_lease_def checked_def Let_def task_lease_of_def
        split: option.splits if_splits)
  have lost: "\<exists>e. snd (RenewTaskLease now' l ttl' (run_store ds s2)) = Inl e"
    if h: "task_holder (tl_RequestID l) (tl_TaskID l) s2 \<noteq> Some (tl_OwnerID l, tl_Epoch l)" for ds now' ttl'
  proof (cases "snd (RenewTaskLease now' l ttl' (run_store ds s2))")
    case (Inr l')
    with renew [of now' ttl' "run_store ds s2" "fst (RenewTaskLease now' l ttl' (run_store ds s2))" l']
    have "task_holder (tl_RequestID l) (tl_TaskID l) (run_store ds s2) = Some (tl_OwnerID l, tl_Epoch l)"
      by (auto simp: task_holder_def prod_eq_iff)
    with task.lost_stays_lost [OF le h] show ?thesis by simp
  qed simp
  have later: "tl_Epoch l < tl_Epoch l'"
    if "AcquireTaskLease now' lease' ttl' s2 = (s3, Inr (l', True))" "tl_RequestID lease' = tl_RequestID l"
      "tl_TaskID lease' = tl_TaskID l" for now' lease' ttl' s3 l'
    using that le
    by (auto simp: AcquireTaskLease_def acquire_task_lease_def checked_def Let_def task_epoch_def
        split: option.splits if_splits)
  have refused: "snd (AcquireTaskLease now' lease' ttl' s2) = Inr (cur, False)"
    if "task_lease_of (tl_RequestID lease') (tl_TaskID lease') s2 = Some cur" "now' < tl_ExpiresAt cur"
      "tl_OwnerID lease' \<noteq> tl_OwnerID cur" "task_lease_checks lease' ttl' = None" for cur now' lease' ttl'
    using that
    by (simp add: AcquireTaskLease_def acquire_task_lease_def checked_def Let_def task_lease_of_def)
  have renew2: "\<exists>cur. task_lease_of (tl_RequestID l) (tl_TaskID l) s2 = Some cur \<and>
      tl_OwnerID cur = tl_OwnerID lease \<and> tl_Epoch cur = tl_Epoch l \<and> now' \<le> tl_ExpiresAt cur"
    if "RenewTaskLease now' l ttl' s2 = (s3, Inr l')" for now' ttl' s3 l'
    using renew [OF that] l(3) by simp
  show ?thesis
    by (intro conjI allI impI) (fact l(1), fact l(2), (erule later renew2 lost refused; assumption)+)
qed

definition demo_task_lease :: "string \<Rightarrow> int \<Rightarrow> time \<Rightarrow> TaskLease" where
  "demo_task_lease who epoch t =
     \<lparr>tl_RequestID = ''r'', tl_TaskID = ''t'', tl_Profile = ''dev'', tl_AssignedInstance = ''i1'',
      tl_ExecutionNode = ''n1'', tl_OwnerID = who, tl_Epoch = epoch, tl_AcquiredAt = t,
      tl_LastHeartbeatAt = t, tl_ExpiresAt = t + 10\<rparr>"

theorem task_lease_fenced_witness:
  "\<forall>ds now' ttl'. \<exists>e. snd (RenewTaskLease now' (demo_task_lease ''c1'' 1 5) ttl'
     (run_store ds (run_store [CAcquireTaskLease 15 (demo_task_lease ''c2'' 0 0) 10]
       (fst (AcquireTaskLease 5 (demo_task_lease ''c1'' 0 5) 10 demo_store))))) = Inl e"
proof -
  let ?s1 = "fst (AcquireTaskLease 5 (demo_task_lease ''c1'' 0 5) 10 demo_store)"
  let ?cs = "[CAcquireTaskLease 15 (demo_task_lease ''c2'' 0 0) 10]"
  have grant: "AcquireTaskLease 5 (demo_task_lease ''c1'' 0 5) 10 demo_store =
      (?s1, Inr (demo_task_lease ''c1'' 1 5, True))"
    by (simp add: AcquireTaskLease_def acquire_task_lease_def checked_def task_lease_checks_def
        demo_store_def NewMemoryStore_def demo_task_lease_def Let_def prod_eq_iff)
  have "task_holder ''r'' ''t'' (run_store ?cs ?s1) = Some (''c2'', 2)"
    by (simp add: AcquireTaskLease_def acquire_task_lease_def checked_def task_lease_checks_def
        demo_store_def NewMemoryStore_def demo_task_lease_def lease_view_defs Let_def)
  then have "task_holder (tl_RequestID (demo_task_lease ''c1'' 1 5)) (tl_TaskID (demo_task_lease ''c1'' 1 5))
      (run_store ?cs ?s1) \<noteq> Some (tl_OwnerID (demo_task_lease ''c1'' 1 5), tl_Epoch (demo_task_lease ''c1'' 1 5))"
    by (simp add: demo_task_lease_def)
  with task_lease_fenced [OF grant refl, of ?cs] show ?thesis by blast
qed

text \<open>
  A profile sticks to its instance. While the lease of a profile is unexpired, an
  acquisition returns the instance, owner and epoch of that lease, and is granted (and extended)
  exactly when it comes from the same owner for the same instance. Once the lease is no longer
  current, no renewal of it ever succeeds again.
\<close>

theorem profile_lease_sticky:
  assumes "mget (ms_profileLeases s) (pl_Profile lease) = Some cur" and "now < pl_ExpiresAt cur"
    and "AcquireProfileLease now lease ttl s = (s1, Inr (l, ok))"
  shows "pl_AssignedInstance l = pl_AssignedInstance cur \<and> pl_OwnerID l = pl_OwnerID cur \<and>
    pl_Epoch l = pl_Epoch cur \<and>
    (ok \<longleftrightarrow> pl_OwnerID lease = pl_OwnerID cur \<and> pl_AssignedInstance lease = pl_AssignedInstance cur) \<and>
    (ok \<longrightarrow> pl_ExpiresAt l = now + ttl) \<and> (\<not> ok \<longrightarrow> l = cur \<and> s1 = s) \<and>
    (\<forall>cs. pl_Epoch cur \<le> profile_epoch (pl_Profile lease) s \<longrightarrow>
       profile_holder (pl_Profile lease) (run_store cs s1) \<noteq>
         Some ((pl_OwnerID cur, pl_AssignedInstance cur), pl_Epoch cur) \<longrightarrow>
       (\<forall>ds now' ttl' c. pl_Profile c = pl_Profile lease \<and> same_profile_lease cur c \<longrightarrow>
          (\<exists>e. snd (RenewProfileLease now' c ttl' (run_store ds (run_store cs s1))) = Inl e)))"
proof -
  let ?p = "pl_Profile lease"
  have acq: "acquire_profile_lease now lease ttl s = (s1, Inr (l, ok))"
    using assms(3) by (auto simp: AcquireProfileLease_def checked_def split: option.splits)
  have top: "profile_epoch ?p s1 = profile_epoch ?p s"
    using acq assms(1,2) by (auto simp: acquire_profile_lease_def Let_def profile_epoch_def split: if_splits)
  have lost: "\<exists>e. snd (RenewProfileLease now' c ttl' (run_store ds (run_store cs s1))) = Inl e"
    if e: "pl_Epoch cur \<le> profile_epoch ?p s"
      and h: "profile_holder ?p (run_store cs s1) \<noteq> Some ((pl_OwnerID cur, pl_AssignedInstance cur), pl_Epoch cur)"
      and c: "pl_Profile c = ?p" "same_profile_lease cur c" for cs ds now' ttl' c
  proof (cases "snd (RenewProfileLease now' c ttl' (run_store ds (run_store cs s1)))")
    case (Inr l')
    then obtain s2 where "RenewProfileLease now' c ttl' (run_store ds (run_store cs s1)) = (s2, Inr l')"
      by (metis prod.collapse)
    then have "profile_holder ?p (run_store ds (run_store cs s1)) =
        Some ((pl_OwnerID cur, pl_AssignedInstance cur), pl_Epoch cur)"
      using c by (auto simp: RenewProfileLease_def renew_profile_lease_def checked_def Let_def
          profile_holder_def same_profile_lease_def split: option.splits if_splits)
    moreover have "pl_Epoch cur \<le> profile_epoch ?p (run_store cs s1)"
      using profile.top_mono [of ?p s1 cs] top e by simp
    ultimately show ?thesis using profile.lost_stays_lost h by blast
  qed simp
  show ?thesis
    using acq assms(1,2) lost by (auto simp: acquire_profile_lease_def Let_def split: if_splits)
qed

definition demo_profile_lease :: "string \<Rightarrow> string \<Rightarrow> int \<Rightarrow> time \<Rightarrow> ProfileLease" where
  "demo_profile_lease who inst epoch t =
     \<lparr>pl_Profile = ''dev'', pl_AssignedInstance = inst, pl_ExecutionNode = ''n1'', pl_OwnerID = who,
      pl_Epoch = epoch, pl_AcquiredAt = t, pl_LastHeartbeatAt = t, pl_ExpiresAt = t + 10\<rparr>"

theorem profile_lease_sticky_witness:
  "snd (AcquireProfileLease 6 (demo_profile_lease ''c2'' ''i2'' 0 0) 10
     (demo_store\<lparr>ms_profileLeases := [(''dev'', demo_profile_lease ''c1'' ''i1'' 1 5)]\<rparr>)) =
     Inr (demo_profile_lease ''c1'' ''i1'' 1 5, False) \<and>
   pl_AssignedInstance (demo_profile_lease ''c1'' ''i1'' 1 5) = ''i1''"
proof -
  let ?s = "demo_store\<lparr>ms_profileLeases := [(''dev'', demo_profile_lease ''c1'' ''i1'' 1 5)]\<rparr>"
  have r: "AcquireProfileLease 6 (demo_profile_lease ''c2'' ''i2'' 0 0) 10 ?s =
      (?s, Inr (demo_profile_lease ''c1'' ''i1'' 1 5, False))"
    by (simp add: AcquireProfileLease_def acquire_profile_lease_def checked_def profile_lease_checks_def
        demo_profile_lease_def Let_def)
  have "mget (ms_profileLeases ?s) (pl_Profile (demo_profile_lease ''c2'' ''i2'' 0 0)) =
      Some (demo_profile_lease ''c1'' ''i1'' 1 5)" "6 < pl_ExpiresAt (demo_profile_lease ''c1'' ''i1'' 1 5)"
    by (simp_all add: demo_profile_lease_def)
  from profile_lease_sticky [OF this r] r show ?thesis by (simp add: demo_profile_lease_def)
qed

end
