(* ===== verification/Discovery.thy ===== *)
theory Discovery
  imports Leases
begin

text \<open>
  Name resolution (internal/controlplane/discovery.go): which endpoint a name stands for, and the
  names there are. The \<open>Store\<close> interface is a record of the three methods that discovery calls, each
  a function on the state of the store; \<open>memory_reader\<close> is the memory store behind it.
\<close>

section \<open>Choosing an instance\<close>

fun isRoutableInstanceState :: "InstanceState \<Rightarrow> bool" where
  "isRoutableInstanceState InstanceStateReady = True"
| "isRoutableInstanceState InstanceStateBusy = True"
| "isRoutableInstanceState _ = False"

fun instancePriority :: "InstanceState \<Rightarrow> int" where
  "instancePriority InstanceStateReady = 0"
| "instancePriority InstanceStateBusy = 1"
| "instancePriority InstanceStateStarting = 2"
| "instancePriority _ = 3"

definition instance_before :: "AgentInstance \<Rightarrow> AgentInstance \<Rightarrow> bool" where
  "instance_before a b =
     (let left = instancePriority (in_State a); right = instancePriority (in_State b)
      in if left \<noteq> right then left < right
         else if in_LastHeartbeatAt a \<noteq> in_LastHeartbeatAt b
         then in_LastHeartbeatAt a > in_LastHeartbeatAt b
         else in_ID a < in_ID b)"

definition selectInstance :: "AgentInstance list \<Rightarrow> AgentInstance option" where
  "selectInstance instances =
     find (\<lambda>i. ep_Address (in_Endpoint i) \<noteq> '''' \<and> isRoutableInstanceState (in_State i))
       (sort_slice instance_before instances)"

interpretation by_priority: slice_order instance_before
  by unfold_locales (auto simp: instance_before_def Let_def split: if_splits)

section \<open>Resolving a name\<close>

record 's store_reader =
  sr_GetLeader :: "'s \<Rightarrow> 's \<times> (store_error + LeaderLease option)"
  sr_GetInstance :: "string \<Rightarrow> 's \<Rightarrow> 's \<times> (store_error + AgentInstance option)"
  sr_ListInstances :: "InstanceFilter \<Rightarrow> 's \<Rightarrow> 's \<times> (store_error + AgentInstance list)"

definition profile_filter :: "string \<Rightarrow> InstanceFilter" where
  "profile_filter p = \<lparr>if_Profile = p, if_NodeID = '''', if_State = InstanceStateUnset\<rparr>"

definition routable :: "AgentInstance \<Rightarrow> bool" where
  "routable i = (ep_Address (in_Endpoint i) \<noteq> '''' \<and> isRoutableInstanceState (in_State i))"

definition ResolveEndpoint :: "'s store_reader \<Rightarrow> string \<Rightarrow> 's \<Rightarrow> 's \<times> (store_error + Endpoint option)" where
  "ResolveEndpoint st name s =
     (if name = ''conductor'' then
        (case sr_GetLeader st s of
           (s1, Inl e) \<Rightarrow> (s1, Inl e)
         | (s1, Inr None) \<Rightarrow> (s1, Inr None)
         | (s1, Inr (Some leader)) \<Rightarrow>
             if ll_HolderAddress leader = '''' then (s1, Inr None)
             else (s1, Inr (Some \<lparr>ep_Address = ll_HolderAddress leader, ep_Local = False\<rparr>)))
      else
        (case sr_GetInstance st name s of
           (s1, Inl e) \<Rightarrow> (s1, Inl e)
         | (s1, Inr found) \<Rightarrow>
             (case (case found of Some i \<Rightarrow> if routable i then Some i else None | None \<Rightarrow> None) of
                Some i \<Rightarrow> (s1, Inr (Some (in_Endpoint i)))
              | None \<Rightarrow>
                  (case sr_ListInstances st (profile_filter name) s1 of
                     (s2, Inl e) \<Rightarrow> (s2, Inl e)
                   | (s2, Inr instances) \<Rightarrow>
                       (s2, Inr (map_option in_Endpoint (selectInstance instances)))))))"

text \<open>The names already listed, and the ID and the profile of each instance that are not yet.\<close>

definition add_name :: "string \<Rightarrow> string list \<Rightarrow> string list" where
  "add_name n names = (if n \<noteq> '''' \<and> n \<notin> set names then names @ [n] else names)"

definition instance_names :: "AgentInstance list \<Rightarrow> string list" where
  "instance_names instances =
     foldl (\<lambda>names i. add_name (in_Profile i) (add_name (in_ID i) names)) [] instances"

definition ListParticipants :: "'s store_reader \<Rightarrow> 's \<Rightarrow> 's \<times> (store_error + string list)" where
  "ListParticipants st s =
     (case sr_ListInstances st (profile_filter '''') s of
        (s1, Inl e) \<Rightarrow> (s1, Inl e)
      | (s1, Inr instances) \<Rightarrow>
          (let names = instance_names instances;
               r = sr_GetLeader st s1;
               named = (case snd r of
                   Inr (Some leader) \<Rightarrow>
                     if ll_HolderAddress leader \<noteq> '''' \<and> ''conductor'' \<notin> set names
                     then names @ [''conductor''] else names
                 | _ \<Rightarrow> names)
           in (fst r, Inr (sort named))))"

section \<open>The Discovery object\<close>

record 's Discovery =
  ds_store :: 's
  ds_overrides :: "(string, Endpoint) gomap"

datatype discovery_error = AgentNotFound string | StoreFailed store_error

definition Register :: "string \<Rightarrow> Endpoint \<Rightarrow> 's Discovery \<Rightarrow> 's Discovery" where
  "Register name endpoint d = d\<lparr>ds_overrides := mput name endpoint (ds_overrides d)\<rparr>"

definition Deregister :: "string \<Rightarrow> 's Discovery \<Rightarrow> 's Discovery" where
  "Deregister name d = d\<lparr>ds_overrides := mdel name (ds_overrides d)\<rparr>"

definition Resolve :: "'s store_reader \<Rightarrow> string \<Rightarrow> 's Discovery \<Rightarrow> 's Discovery \<times> (discovery_error + Endpoint)" where
  "Resolve st name d =
     (case mget (ds_overrides d) name of
        Some endpoint \<Rightarrow> (d, Inr endpoint)
      | None \<Rightarrow>
          (case ResolveEndpoint st name (ds_store d) of
             (s1, Inl e) \<Rightarrow> (d\<lparr>ds_store := s1\<rparr>, Inl (StoreFailed e))
           | (s1, Inr None) \<Rightarrow> (d\<lparr>ds_store := s1\<rparr>, Inl (AgentNotFound name))
           | (s1, Inr (Some endpoint)) \<Rightarrow> (d\<lparr>ds_store := s1\<rparr>, Inr endpoint)))"

definition List_names :: "'s store_reader \<Rightarrow> 's Discovery \<Rightarrow> 's Discovery \<times> (discovery_error + string list)" where
  "List_names st d =
     (let names = mkeys (ds_overrides d)
      in case ListParticipants st (ds_store d) of
           (s1, Inl e) \<Rightarrow> (d\<lparr>ds_store := s1\<rparr>, Inl (StoreFailed e))
         | (s1, Inr discovered) \<Rightarrow>
             (d\<lparr>ds_store := s1\<rparr>,
              Inr (sort (foldl (\<lambda>ns n. if n \<in> set ns then ns else ns @ [n]) names discovered))))"

section \<open>Facts\<close>

text \<open>The members are kept under their IDs.\<close>

definition members_wf :: "MemoryStore \<Rightarrow> bool" where
  "members_wf s \<longleftrightarrow>
     gowf (ms_nodes s) \<and> gowf (ms_instances s) \<and>
     (\<forall>k n. mget (ms_nodes s) k = Some n \<longrightarrow> nd_ID n = k) \<and>
     (\<forall>k i. mget (ms_instances s) k = Some i \<longrightarrow> in_ID i = k)"

lemma members_wf_New: "members_wf (NewMemoryStore f)"
  by (simp add: members_wf_def NewMemoryStore_def)

lemma members_wf_normalize [simp]: "members_wf s \<Longrightarrow> members_wf (normalize now s)"
  by (auto simp: members_wf_def)

lemma members_wf_cong:
  "ms_nodes s' = ms_nodes s \<Longrightarrow> ms_instances s' = ms_instances s \<Longrightarrow> members_wf s' = members_wf s"
  by (simp add: members_wf_def)

lemma members_wf_put_node:
  "members_wf s \<Longrightarrow> nd_ID n = k \<Longrightarrow> members_wf (s\<lparr>ms_nodes := mput k n (ms_nodes s)\<rparr>)"
  by (simp add: members_wf_def distinct_update)

lemma members_wf_put_instance:
  "members_wf s \<Longrightarrow> in_ID i = k \<Longrightarrow> members_wf (s\<lparr>ms_instances := mput k i (ms_instances s)\<rparr>)"
  by (simp add: members_wf_def distinct_update)

lemma members_wf_del_instance:
  "members_wf s \<Longrightarrow> members_wf (s\<lparr>ms_instances := mdel k (ms_instances s)\<rparr>)"
  by (simp add: members_wf_def distinct_delete)

lemma member_ids [simp]:
  "nd_ID (node_defaults t n) = nd_ID n" "in_ID (instance_defaults t i) = in_ID i"
  "nd_ID (revive_node t n) = nd_ID n" "in_ID (revive_instance t i) = in_ID i"
  by (simp_all add: node_defaults_def instance_defaults_def revive_node_def revive_instance_def Let_def)

definition membership_call :: "store_call \<Rightarrow> bool" where
  "membership_call c =
     (case c of
        CRegisterNode _ _ _ \<Rightarrow> True | CHeartbeatNode _ _ _ _ \<Rightarrow> True | CGetNode _ _ \<Rightarrow> True
      | CListNodes _ \<Rightarrow> True | CRegisterInstance _ _ _ \<Rightarrow> True | CHeartbeatInstance _ _ _ _ \<Rightarrow> True
      | CGetInstance _ _ \<Rightarrow> True | CListInstances _ _ \<Rightarrow> True | CRemoveInstance _ \<Rightarrow> True | _ \<Rightarrow> False)"

lemma exec_members_frame:
  "\<not> membership_call c \<Longrightarrow> ms_nodes (exec c s) = ms_nodes s \<and> ms_instances (exec c s) = ms_instances s"
  by (cases c)
     (simp_all add: membership_call_def frame_simps UpsertAttestedNode_def GetAttestedNode_def
       AcquireLeader_def RenewLeader_def UpsertRequest_def GetRequest_def ListRequests_def UpsertTask_def
       ListTasks_def AcquireTaskLease_def RenewTaskLease_def AcquireProfileLease_def RenewProfileLease_def)

lemma members_wf_ids:
  "members_wf s \<Longrightarrow> mget (ms_nodes s) k = Some n \<Longrightarrow> nd_ID n = k"
  "members_wf s \<Longrightarrow> mget (ms_instances s) k = Some i \<Longrightarrow> in_ID i = k"
  by (simp_all add: members_wf_def)

lemma members_wf_register_node: "members_wf s \<Longrightarrow> members_wf (fst (register_node now n s))"
  unfolding register_node_def Let_def fst_conv by (intro members_wf_put_node members_wf_normalize) simp_all

lemma members_wf_register_instance: "members_wf s \<Longrightarrow> members_wf (fst (register_instance now i s))"
  unfolding register_instance_def Let_def fst_conv
  by (intro members_wf_put_instance members_wf_normalize) simp_all

lemma members_wf_heartbeat_node: "members_wf s \<Longrightarrow> members_wf (fst (heartbeat_node now k t s))"
proof (cases "mget (ms_nodes (normalize now s)) k")
  case (Some n)
  assume "members_wf s"
  then have wf: "members_wf (normalize now s)" by simp
  with Some show ?thesis
    unfolding heartbeat_node_def Let_def
    by (simp only: option.case fst_conv) (intro members_wf_put_node wf, simp add: members_wf_ids del: normalize_members)
qed (simp add: heartbeat_node_def Let_def)

lemma members_wf_heartbeat_instance: "members_wf s \<Longrightarrow> members_wf (fst (heartbeat_instance now k t s))"
proof (cases "mget (ms_instances (normalize now s)) k")
  case (Some i)
  assume "members_wf s"
  then have wf: "members_wf (normalize now s)" by simp
  with Some show ?thesis
    unfolding heartbeat_instance_def Let_def
    by (simp only: option.case fst_conv) (intro members_wf_put_instance wf, simp add: members_wf_ids del: normalize_members)
qed (simp add: heartbeat_instance_def Let_def)

lemma members_wf_exec: "members_wf s \<Longrightarrow> members_wf (exec c s)"
proof (cases "membership_call c")
  case False
  then show "members_wf s \<Longrightarrow> ?thesis" using exec_members_frame members_wf_cong by blast
next
  case True
  then show "members_wf s \<Longrightarrow> ?thesis"
    by (cases c)
       (simp_all add: membership_call_def RegisterNode_def HeartbeatNode_def GetNode_def ListNodes_def
         RegisterInstance_def HeartbeatInstance_def GetInstance_def ListInstances_def RemoveInstance_def
         fst_checked Let_def members_wf_register_node members_wf_register_instance
         members_wf_heartbeat_node members_wf_heartbeat_instance members_wf_del_instance)
qed

lemma members_wf_run: "members_wf s \<Longrightarrow> members_wf (run_store cs s)"
  by (induction cs arbitrary: s) (simp_all add: members_wf_exec)

text \<open>The memory store as a reader, with the clock readings of its three calls.\<close>

definition memory_reader :: "time \<Rightarrow> time \<Rightarrow> time \<Rightarrow> MemoryStore store_reader" where
  "memory_reader t_leader t_get t_list =
     \<lparr>sr_GetLeader = GetLeader t_leader, sr_GetInstance = GetInstance t_get,
      sr_ListInstances = ListInstances t_list\<rparr>"

lemma selectInstance_Some:
  assumes "selectInstance xs = Some i"
  shows "i \<in> set xs" and "routable i" and "x \<in> set xs \<Longrightarrow> routable x \<Longrightarrow> \<not> instance_before x i"
proof -
  show "i \<in> set xs" "routable i"
    using find_SomeD [OF assms [unfolded selectInstance_def]] by (simp_all add: routable_def)
  show "\<not> instance_before x i" if "x \<in> set xs" "routable x"
    using by_priority.find_sorted [OF assms [unfolded selectInstance_def] that(1)] that(2)
    by (simp add: routable_def)
qed

lemma selectInstance_None: "selectInstance xs = None \<longleftrightarrow> (\<forall>x \<in> set xs. \<not> routable x)"
  by (auto simp: selectInstance_def find_None_iff routable_def)

lemma list_profile:
  assumes "gowf (ms_instances s)"
  shows "set (list_instances (profile_filter p) s) =
    {i. \<exists>k. mget (ms_instances s) k = Some i \<and> (p = '''' \<or> in_Profile i = p)}"
  using assms by (force simp: list_instances_def matches_filter_def profile_filter_def mget_in_set)

lemma routable_state: "routable i \<Longrightarrow> in_State i \<noteq> InstanceStateUnavailable"
  by (auto simp: routable_def)

lemma live_node_alive:
  "nd_State (live_node t n) \<noteq> NodeStateUnavailable \<Longrightarrow>
     nd_LastHeartbeatAt n = 0 \<or> t - nd_LastHeartbeatAt n \<le> NodeHeartbeatTTL"
  by (auto simp: live_node_def nodeHeartbeatExpired_iff split: if_splits)

text \<open>An instance that is not marked by the pass is alive at that time, and so is its node.\<close>

lemma live_instance_alive:
  assumes "i = live_instance t (live_nodes t ns) i0" and "in_State i \<noteq> InstanceStateUnavailable"
  shows "i = i0 \<and> (in_LastHeartbeatAt i = 0 \<or> t - in_LastHeartbeatAt i \<le> InstanceHeartbeatTTL) \<and>
    (\<forall>n. mget ns (in_NodeID i) = Some n \<longrightarrow>
       nd_LastHeartbeatAt n = 0 \<or> t - nd_LastHeartbeatAt n \<le> NodeHeartbeatTTL)"
proof -
  have ne: "\<not> instanceHeartbeatExpired i0 (mget (live_nodes t ns) (in_NodeID i0)) t"
    using assms by (auto simp: live_instance_def)
  then have "i = i0" using assms(1) by (simp add: live_instance_def)
  moreover have "nd_LastHeartbeatAt n = 0 \<or> t - nd_LastHeartbeatAt n \<le> NodeHeartbeatTTL"
    if "mget ns (in_NodeID i) = Some n" for n
    using ne assms(2) that \<open>i = i0\<close> by (intro live_node_alive) (auto simp: instanceHeartbeatExpired_iff)
  ultimately show ?thesis
    using ne assms(2) by (auto simp: instanceHeartbeatExpired_iff)
qed

definition alive_at :: "time \<Rightarrow> MemoryStore \<Rightarrow> AgentInstance \<Rightarrow> bool" where
  "alive_at t s i \<longleftrightarrow>
     (in_LastHeartbeatAt i = 0 \<or> t - in_LastHeartbeatAt i \<le> InstanceHeartbeatTTL) \<and>
     (\<forall>n. mget (ms_nodes s) (in_NodeID i) = Some n \<longrightarrow>
        nd_LastHeartbeatAt n = 0 \<or> t - nd_LastHeartbeatAt n \<le> NodeHeartbeatTTL)"

lemma normalize_alive:
  assumes "mget (ms_instances (normalize t s)) k = Some i" and "routable i"
  shows "mget (ms_instances s) k = Some i \<and> alive_at t s i"
proof -
  obtain i0 where i0: "mget (ms_instances s) k = Some i0"
    "i = live_instance t (live_nodes t (ms_nodes s)) i0"
    using assms(1) by auto
  have "in_State i \<noteq> InstanceStateUnavailable" using assms(2) by (rule routable_state)
  from live_instance_alive [OF i0(2) this] i0(1) show ?thesis by (auto simp: alive_at_def)
qed

lemma normalize_twice_alive:
  assumes "mget (ms_instances (normalize u (normalize t s))) k = Some i" and "routable i"
  shows "mget (ms_instances s) k = Some i \<and> alive_at t s i"
proof -
  have "mget (ms_instances (normalize t s)) k = Some i" using normalize_alive [OF assms] by blast
  from normalize_alive [OF this assms(2)] show ?thesis .
qed

definition instance_hit :: "time \<Rightarrow> string \<Rightarrow> MemoryStore \<Rightarrow> AgentInstance option" where
  "instance_hit t name s =
     (case mget (ms_instances (normalize t s)) name of
        Some i \<Rightarrow> if routable i then Some i else None
      | None \<Rightarrow> None)"

lemma ResolveEndpoint_memory:
  "name \<noteq> ''conductor'' \<Longrightarrow>
     ResolveEndpoint (memory_reader tlead tg ts) name s =
       (case instance_hit tg name s of
          Some i \<Rightarrow> (normalize tg s, Inr (Some (in_Endpoint i)))
        | None \<Rightarrow>
            (normalize ts (normalize tg s),
             Inr (map_option in_Endpoint
               (selectInstance (list_instances (profile_filter name) (normalize ts (normalize tg s)))))))"
  unfolding ResolveEndpoint_def memory_reader_def GetInstance_def ListInstances_def instance_hit_def
  by (simp add: Let_def split: option.split del: normalize_members)

section \<open>Properties\<close>

text \<open>
  Claim C22: a name resolves to a live instance. Whatever calls the store has seen before, when
  \<open>ResolveEndpoint\<close> on the memory store returns an endpoint for a name other than conductor, it is the
  endpoint of a stored instance with that ID or that profile, in state ready or busy and with an
  address, whose last heartbeat, and that of its node, is at most 20 seconds old at the time of the
  lookup; and when it returns none, no instance that is still routable at the later lookup has the
  profile.
\<close>

theorem resolve_only_live:
  assumes "s = run_store cs (NewMemoryStore fabric)" and "name \<noteq> ''conductor''" and "name \<noteq> ''''"
    and "ResolveEndpoint (memory_reader tlead tg ts) name s = (s', r)"
  shows "(\<forall>ep. r = Inr (Some ep) \<longrightarrow>
      (\<exists>i. mget (ms_instances s) (in_ID i) = Some i \<and> (in_ID i = name \<or> in_Profile i = name) \<and>
         in_Endpoint i = ep \<and> ep_Address ep \<noteq> '''' \<and>
         in_State i \<in> {InstanceStateReady, InstanceStateBusy} \<and> alive_at tg s i)) \<and>
    (r = Inr None \<longrightarrow>
      (\<forall>i. mget (ms_instances s') (in_ID i) = Some i \<longrightarrow> in_Profile i = name \<longrightarrow> \<not> routable i))"
proof -
  have wf: "members_wf s" using assms(1) by (simp add: members_wf_run members_wf_New)
  let ?s1 = "normalize tg s" and ?s2 = "normalize ts (normalize tg s)"
  have wf2: "members_wf ?s2" using wf by (intro members_wf_normalize)
  have st: "in_State i \<in> {InstanceStateReady, InstanceStateBusy} \<and> ep_Address (in_Endpoint i) \<noteq> ''''"
    if "routable i" for i
    using that by (cases "in_State i") (auto simp: routable_def)
  show ?thesis
  proof (cases "instance_hit tg name s")
    case (Some i)
    then have i: "mget (ms_instances ?s1) name = Some i" "routable i"
      by (auto simp: instance_hit_def split: option.splits if_splits simp del: normalize_members)
    have r: "r = Inr (Some (in_Endpoint i))"
      using assms(4) Some by (simp add: ResolveEndpoint_memory [OF assms(2)] del: normalize_members)
    have "mget (ms_instances s) name = Some i \<and> alive_at tg s i" using normalize_alive [OF i] .
    with r st [OF i(2)] members_wf_ids(2) [OF wf] show ?thesis by auto
  next
    case None
    have "(s', r) = (?s2, Inr (map_option in_Endpoint (selectInstance (list_instances (profile_filter name) ?s2))))"
      unfolding assms(4) [symmetric] ResolveEndpoint_memory [OF assms(2)] None by simp
    then have r: "s' = ?s2"
        "r = Inr (map_option in_Endpoint (selectInstance (list_instances (profile_filter name) ?s2)))"
      by (simp_all only: prod.inject)
    have lst: "set (list_instances (profile_filter name) ?s2) =
        {i. \<exists>k. mget (ms_instances ?s2) k = Some i \<and> in_Profile i = name}"
      using list_profile [of ?s2 name] wf2 assms(3) unfolding members_wf_def by blast
    have "\<exists>i. mget (ms_instances s) (in_ID i) = Some i \<and> in_Profile i = name \<and> in_Endpoint i = ep \<and>
        routable i \<and> alive_at tg s i"
      if ep: "r = Inr (Some ep)" for ep
    proof -
      from ep r(2) obtain i where sel: "selectInstance (list_instances (profile_filter name) ?s2) = Some i"
        and i: "in_Endpoint i = ep" by auto
      from selectInstance_Some(1,2) [OF sel] obtain k where
        k: "mget (ms_instances ?s2) k = Some i" "in_Profile i = name" "routable i"
        unfolding lst by blast
      from normalize_twice_alive [OF k(1,3)] members_wf_ids(2) [OF wf, of k i] k i show ?thesis by blast
    qed
    moreover have "\<not> routable i"
      if "r = Inr None" "mget (ms_instances s') (in_ID i) = Some i" "in_Profile i = name" for i
      using that r lst by (auto simp: selectInstance_None simp del: normalize_members)
    ultimately show ?thesis using st by blast
  qed
qed

theorem resolve_only_live_witness:
  "\<exists>i. mget (ms_instances (run_store [CRegisterInstance 5 5 (demo_instance ''i1'' ''n1'' InstanceStateReady 5)]
       (NewMemoryStore ''fab''))) (in_ID i) = Some i \<and> in_Profile i = ''dev'' \<and>
     in_Endpoint i = \<lparr>ep_Address = ''host'', ep_Local = False\<rparr>"
proof -
  let ?s = "run_store [CRegisterInstance 5 5 (demo_instance ''i1'' ''n1'' InstanceStateReady 5)] (NewMemoryStore ''fab'')"
  have inst: "ms_instances ?s = [(''i1'', demo_instance ''i1'' ''n1'' InstanceStateReady 5)]" "ms_nodes ?s = []"
    by (simp_all add: RegisterInstance_def register_instance_def checked_def instance_checks_def
        instance_defaults_def NewMemoryStore_def live_nodes_def live_instances_def map_entries_def Let_def)
  have "snd (ResolveEndpoint (memory_reader 7 7 7) ''dev'' ?s) =
      Inr (Some \<lparr>ep_Address = ''host'', ep_Local = False\<rparr>)"
    by (simp add: ResolveEndpoint_def memory_reader_def GetInstance_def ListInstances_def inst
        live_instances_def live_nodes_def map_entries_def list_instances_def matches_filter_def
        profile_filter_def selectInstance_def live_instance_def instanceHeartbeatExpired_iff
        InstanceHeartbeatTTL_def Let_def del: run_store_simps) (simp add: demo_instance_def)
  then have "ResolveEndpoint (memory_reader 7 7 7) ''dev'' ?s =
      (fst (ResolveEndpoint (memory_reader 7 7 7) ''dev'' ?s),
       Inr (Some \<lparr>ep_Address = ''host'', ep_Local = False\<rparr>))"
    by (metis prod.collapse)
  from resolve_only_live [OF refl _ _ this] obtain i where
    "mget (ms_instances ?s) (in_ID i) = Some i" "in_ID i = ''dev'' \<or> in_Profile i = ''dev''"
    "in_Endpoint i = \<lparr>ep_Address = ''host'', ep_Local = False\<rparr>"
    by auto
  moreover from this(1,2) inst have "in_Profile i = ''dev''" by (auto split: if_splits)
  ultimately show ?thesis by blast
qed

end
