(* ===== verification/FileStore.thy ===== *)
theory FileStore
  imports Leases
begin

text \<open>
  The file-backed control-plane store of internal/controlplane/file.go. Every method takes the file
  lock, reads state.json into the fields of the store, runs its body on them and, when it changes
  anything, writes the file back through a temporary file and a rename. The file holds a
  \<open>MemoryStore\<close> (its JSON encoding and decoding are taken as inverse to each other; omitted and
  empty maps are both empty). The outcomes of the system calls are the argument \<open>io\<close>.
\<close>

section \<open>Loading and saving\<close>

datatype disk = NoState | Undecodable | Stored MemoryStore

record io =
  io_lock :: bool
  io_read :: bool
  io_write :: bool

definition loadLocked :: "io \<Rightarrow> disk \<Rightarrow> MemoryStore \<Rightarrow> store_error + MemoryStore" where
  "loadLocked io d s =
     (case d of
        NoState \<Rightarrow> Inr (NewMemoryStore (ms_fabric s))
      | Undecodable \<Rightarrow> Inl StorageError
      | Stored st \<Rightarrow>
          if \<not> io_read io then Inl StorageError
          else if ms_fabric st \<noteq> '''' \<and> ms_fabric s \<noteq> '''' \<and> ms_fabric st \<noteq> ms_fabric s
          then Inl (FabricMismatch (ms_fabric st) (ms_fabric s))
          else Inr (st\<lparr>ms_fabric := (if ms_fabric st \<noteq> '''' then ms_fabric st else ms_fabric s)\<rparr>))"

definition saveLocked :: "io \<Rightarrow> MemoryStore \<Rightarrow> disk \<Rightarrow> disk \<times> store_error option" where
  "saveLocked io s d = (if io_write io then (Stored s, None) else (d, Some StorageError))"

text \<open>
  A call on the store maps its cached fields and the file to new ones, and returns a value (the zero
  value where the method returns one) together with an error.
\<close>

type_synonym 'r file_op = "io \<Rightarrow> MemoryStore \<times> disk \<Rightarrow> (MemoryStore \<times> disk) \<times> 'r \<times> store_error option"

definition withFileLock :: "'r \<Rightarrow> 'r file_op \<Rightarrow> 'r file_op" where
  "withFileLock zero fn io w = (if io_lock io then fn io w else (w, zero, Some StorageError))"

definition withState :: "'r \<Rightarrow> 'r store_op \<Rightarrow> 'r file_op" where
  "withState zero fn =
     withFileLock zero (\<lambda>io (s, d).
       case loadLocked io d s of
         Inl e \<Rightarrow> ((s, d), zero, Some e)
       | Inr s1 \<Rightarrow>
           (case fn s1 of
              (s2, Inl e) \<Rightarrow> ((s2, d), zero, Some e)
            | (s2, Inr v) \<Rightarrow> ((s2, d), v, None)))"

definition withMutableState :: "'r \<Rightarrow> 'r store_op \<Rightarrow> 'r file_op" where
  "withMutableState zero fn =
     withFileLock zero (\<lambda>io (s, d).
       case loadLocked io d s of
         Inl e \<Rightarrow> ((s, d), zero, Some e)
       | Inr s1 \<Rightarrow>
           (case fn s1 of
              (s2, Inl e) \<Rightarrow> ((s2, d), zero, Some e)
            | (s2, Inr v) \<Rightarrow> (case saveLocked io s2 d of (d', e) \<Rightarrow> ((s2, d'), v, e))))"

definition NewFileStore :: "string \<Rightarrow> io \<Rightarrow> disk \<Rightarrow> store_error + MemoryStore" where
  "NewFileStore fabric io d =
     (if io_lock io then loadLocked io d (NewMemoryStore fabric) else Inl StorageError)"

text \<open>The argument checks before the lock.\<close>

definition file_checked :: "store_error option \<Rightarrow> 'r \<Rightarrow> 'r file_op \<Rightarrow> 'r file_op" where
  "file_checked e zero f io w = (case e of Some err \<Rightarrow> (w, zero, Some err) | None \<Rightarrow> f io w)"

text \<open>The zero leases that the methods return with an error.\<close>

definition zero_leader :: LeaderLease where
  "zero_leader = \<lparr>ll_Fabric = '''', ll_HolderID = '''', ll_HolderAddress = '''', ll_Epoch = 0,
     ll_AcquiredAt = 0, ll_LastHeartbeatAt = 0, ll_ExpiresAt = 0\<rparr>"

definition zero_task_lease :: TaskLease where
  "zero_task_lease = \<lparr>tl_RequestID = '''', tl_TaskID = '''', tl_Profile = '''',
     tl_AssignedInstance = '''', tl_ExecutionNode = '''', tl_OwnerID = '''', tl_Epoch = 0,
     tl_AcquiredAt = 0, tl_LastHeartbeatAt = 0, tl_ExpiresAt = 0\<rparr>"

definition zero_profile_lease :: ProfileLease where
  "zero_profile_lease = \<lparr>pl_Profile = '''', pl_AssignedInstance = '''', pl_ExecutionNode = '''',
     pl_OwnerID = '''', pl_Epoch = 0, pl_AcquiredAt = 0, pl_LastHeartbeatAt = 0, pl_ExpiresAt = 0\<rparr>"

section \<open>Leader and attestations\<close>

definition File_AcquireLeader :: "time \<Rightarrow> string \<Rightarrow> string \<Rightarrow> int \<Rightarrow> (LeaderLease \<times> bool) file_op" where
  "File_AcquireLeader now candidateID candidateAddress ttl =
     file_checked (leader_checks candidateID ttl) (zero_leader, False)
       (withMutableState (zero_leader, False) (acquire_leader now candidateID candidateAddress ttl))"

definition File_RenewLeader :: "time \<Rightarrow> LeaderLease \<Rightarrow> int \<Rightarrow> LeaderLease file_op" where
  "File_RenewLeader now lease ttl =
     file_checked (guard (ttl \<le> 0) TTLNotPositive) zero_leader
       (withMutableState zero_leader (renew_leader now lease ttl))"

definition File_GetLeader :: "time \<Rightarrow> (LeaderLease option) file_op" where
  "File_GetLeader now = withMutableState None (GetLeader now)"

definition File_ReleaseLeader :: "LeaderLease \<Rightarrow> unit file_op" where
  "File_ReleaseLeader lease = withMutableState () (ReleaseLeader lease)"

definition File_UpsertAttestedNode :: "AttestedNodeRecord \<Rightarrow> unit file_op" where
  "File_UpsertAttestedNode record =
     file_checked (guard (an_NodeID record = '''') (IDRequired ''attested node ID'')) ()
       (withMutableState () (\<lambda>s. (s\<lparr>ms_attestedNodes :=
          mput (an_NodeID record) record (ms_attestedNodes s)\<rparr>, Inr ())))"

definition File_GetAttestedNode :: "string \<Rightarrow> (AttestedNodeRecord option) file_op" where
  "File_GetAttestedNode nodeID = withState None (GetAttestedNode nodeID)"

section \<open>Membership\<close>

definition File_RegisterNode :: "time \<Rightarrow> time \<Rightarrow> Node \<Rightarrow> unit file_op" where
  "File_RegisterNode t0 now node =
     file_checked (guard (nd_ID node = '''') (IDRequired ''node ID'')) ()
       (withMutableState () (register_node now (node_defaults t0 node)))"

definition File_HeartbeatNode :: "time \<Rightarrow> time \<Rightarrow> string \<Rightarrow> time \<Rightarrow> unit file_op" where
  "File_HeartbeatNode t0 now nodeID at_time =
     file_checked (guard (nodeID = '''') (IDRequired ''node ID'')) ()
       (withMutableState () (heartbeat_node now nodeID (if at_time = 0 then t0 else at_time)))"

definition File_GetNode :: "time \<Rightarrow> string \<Rightarrow> (Node option) file_op" where
  "File_GetNode now nodeID = withState None (GetNode now nodeID)"

definition File_ListNodes :: "time \<Rightarrow> (Node list) file_op" where
  "File_ListNodes now = withState [] (ListNodes now)"

definition File_RegisterInstance :: "time \<Rightarrow> time \<Rightarrow> AgentInstance \<Rightarrow> unit file_op" where
  "File_RegisterInstance t0 now inst =
     file_checked (instance_checks inst) ()
       (withMutableState () (register_instance now (instance_defaults t0 inst)))"

definition File_HeartbeatInstance :: "time \<Rightarrow> time \<Rightarrow> string \<Rightarrow> time \<Rightarrow> unit file_op" where
  "File_HeartbeatInstance t0 now instanceID at_time =
     file_checked (guard (instanceID = '''') (IDRequired ''instance ID'')) ()
       (withMutableState () (heartbeat_instance now instanceID (if at_time = 0 then t0 else at_time)))"

definition File_GetInstance :: "time \<Rightarrow> string \<Rightarrow> (AgentInstance option) file_op" where
  "File_GetInstance now instanceID = withState None (GetInstance now instanceID)"

definition File_ListInstances :: "time \<Rightarrow> InstanceFilter \<Rightarrow> (AgentInstance list) file_op" where
  "File_ListInstances now flt = withState [] (ListInstances now flt)"

definition File_RemoveInstance :: "string \<Rightarrow> unit file_op" where
  "File_RemoveInstance instanceID = withMutableState () (RemoveInstance instanceID)"

section \<open>Requests and tasks\<close>

definition File_UpsertRequest :: "time \<Rightarrow> RequestRecord \<Rightarrow> unit file_op" where
  "File_UpsertRequest now request =
     file_checked (guard (rq_ID request = '''') (IDRequired ''request ID'')) ()
       (withMutableState () (upsert_request now request))"

definition File_GetRequest :: "string \<Rightarrow> (RequestRecord option) file_op" where
  "File_GetRequest requestID = withState None (GetRequest requestID)"

definition File_ListRequests :: "(RequestRecord list) file_op" where
  "File_ListRequests = withState [] ListRequests"

definition File_UpsertTask :: "time \<Rightarrow> TaskRecord \<Rightarrow> unit file_op" where
  "File_UpsertTask now task =
     file_checked (task_checks task) ()
       (withMutableState () (upsert_task (task\<lparr>tk_UpdatedAt := now\<rparr>)))"

definition File_ListTasks :: "string \<Rightarrow> (TaskRecord list) file_op" where
  "File_ListTasks requestID = withState [] (ListTasks requestID)"

section \<open>Leases\<close>

text \<open>
  \<open>AcquireTaskLease\<close> and \<open>AcquireProfileLease\<close> write the result into their argument: when the file
  cannot be loaded they return the lease they were asked for, together with the error.
\<close>

definition File_AcquireTaskLease :: "time \<Rightarrow> TaskLease \<Rightarrow> int \<Rightarrow> (TaskLease \<times> bool) file_op" where
  "File_AcquireTaskLease now lease ttl =
     file_checked (task_lease_checks lease ttl) (zero_task_lease, False)
       (withMutableState (lease, False) (acquire_task_lease now lease ttl))"

definition File_RenewTaskLease :: "time \<Rightarrow> TaskLease \<Rightarrow> int \<Rightarrow> TaskLease file_op" where
  "File_RenewTaskLease now lease ttl =
     file_checked (guard (ttl \<le> 0) TTLNotPositive) zero_task_lease
       (withMutableState zero_task_lease (renew_task_lease now lease ttl))"

text \<open>Unlike the memory store, the file store drops the request's map with its last expired lease.\<close>

definition file_get_task_lease :: "time \<Rightarrow> string \<Rightarrow> string \<Rightarrow> (TaskLease option) store_op" where
  "file_get_task_lease now requestID taskID s =
     (case mget (ms_leases s) requestID of
        None \<Rightarrow> (s, Inr None)
      | Some requestLeases \<Rightarrow>
          (case mget requestLeases taskID of
             None \<Rightarrow> (s, Inr None)
           | Some lease \<Rightarrow>
               if tl_ExpiresAt lease < now
               then
                 (let rest = mdel taskID requestLeases
                  in (s\<lparr>ms_leases := (if rest = [] then mdel requestID (ms_leases s)
                         else mput requestID rest (ms_leases s))\<rparr>, Inr None))
               else (s, Inr (Some lease))))"

definition File_GetTaskLease :: "time \<Rightarrow> string \<Rightarrow> string \<Rightarrow> (TaskLease option) file_op" where
  "File_GetTaskLease now requestID taskID =
     withMutableState None (file_get_task_lease now requestID taskID)"

definition File_ReleaseTaskLease :: "TaskLease \<Rightarrow> unit file_op" where
  "File_ReleaseTaskLease lease = withMutableState () (ReleaseTaskLease lease)"

definition File_AcquireProfileLease ::
  "time \<Rightarrow> ProfileLease \<Rightarrow> int \<Rightarrow> (ProfileLease \<times> bool) file_op" where
  "File_AcquireProfileLease now lease ttl =
     file_checked (profile_lease_checks lease ttl) (zero_profile_lease, False)
       (withMutableState (lease, False) (acquire_profile_lease now lease ttl))"

definition File_RenewProfileLease :: "time \<Rightarrow> ProfileLease \<Rightarrow> int \<Rightarrow> ProfileLease file_op" where
  "File_RenewProfileLease now lease ttl =
     file_checked (guard (ttl \<le> 0) TTLNotPositive) zero_profile_lease
       (withMutableState zero_profile_lease (renew_profile_lease now lease ttl))"

definition File_GetProfileLease :: "time \<Rightarrow> string \<Rightarrow> (ProfileLease option) file_op" where
  "File_GetProfileLease now profile = withMutableState None (GetProfileLease now profile)"

definition File_ReleaseProfileLease :: "ProfileLease \<Rightarrow> unit file_op" where
  "File_ReleaseProfileLease lease = withMutableState () (ReleaseProfileLease lease)"

end
