(* ===== verification/FileLeases.thy ===== *)
theory FileLeases
  imports FileStore
begin

text \<open>
  The file store used by several processes at once. Each process has its own cached fields, all
  share the file; a step is one call of one process, with its I/O outcomes. The contract of a lease
  (\<open>lease_cell\<close>) holds of the file, whatever the caches hold and whichever reads and writes fail.
\<close>

fun file_exec :: "store_call \<Rightarrow> io \<Rightarrow> MemoryStore \<times> disk \<Rightarrow> MemoryStore \<times> disk" where
  "file_exec (CUpsertAttestedNode r) io w = fst (File_UpsertAttestedNode r io w)"
| "file_exec (CGetAttestedNode n) io w = fst (File_GetAttestedNode n io w)"
| "file_exec (CAcquireLeader now c a ttl) io w = fst (File_AcquireLeader now c a ttl io w)"
| "file_exec (CRenewLeader now l ttl) io w = fst (File_RenewLeader now l ttl io w)"
| "file_exec (CGetLeader now) io w = fst (File_GetLeader now io w)"
| "file_exec (CReleaseLeader l) io w = fst (File_ReleaseLeader l io w)"
| "file_exec (CRegisterNode t0 now n) io w = fst (File_RegisterNode t0 now n io w)"
| "file_exec (CHeartbeatNode t0 now n a) io w = fst (File_HeartbeatNode t0 now n a io w)"
| "file_exec (CGetNode now n) io w = fst (File_GetNode now n io w)"
| "file_exec (CListNodes now) io w = fst (File_ListNodes now io w)"
| "file_exec (CRegisterInstance t0 now i) io w = fst (File_RegisterInstance t0 now i io w)"
| "file_exec (CHeartbeatInstance t0 now i a) io w = fst (File_HeartbeatInstance t0 now i a io w)"
| "file_exec (CGetInstance now i) io w = fst (File_GetInstance now i io w)"
| "file_exec (CListInstances now f) io w = fst (File_ListInstances now f io w)"
| "file_exec (CRemoveInstance i) io w = fst (File_RemoveInstance i io w)"
| "file_exec (CUpsertRequest now r) io w = fst (File_UpsertRequest now r io w)"
| "file_exec (CGetRequest r) io w = fst (File_GetRequest r io w)"
| "file_exec CListRequests io w = fst (File_ListRequests io w)"
| "file_exec (CUpsertTask now t) io w = fst (File_UpsertTask now t io w)"
| "file_exec (CListTasks r) io w = fst (File_ListTasks r io w)"
| "file_exec (CAcquireTaskLease now l ttl) io w = fst (File_AcquireTaskLease now l ttl io w)"
| "file_exec (CRenewTaskLease now l ttl) io w = fst (File_RenewTaskLease now l ttl io w)"
| "file_exec (CGetTaskLease now r t) io w = fst (File_GetTaskLease now r t io w)"
| "file_exec (CReleaseTaskLease l) io w = fst (File_ReleaseTaskLease l io w)"
| "file_exec (CAcquireProfileLease now l ttl) io w = fst (File_AcquireProfileLease now l ttl io w)"
| "file_exec (CRenewProfileLease now l ttl) io w = fst (File_RenewProfileLease now l ttl io w)"
| "file_exec (CGetProfileLease now p) io w = fst (File_GetProfileLease now p io w)"
| "file_exec (CReleaseProfileLease l) io w = fst (File_ReleaseProfileLease l io w)"

record world =
  w_cache :: "nat \<Rightarrow> MemoryStore"
  w_disk :: disk

type_synonym file_call = "nat \<times> store_call \<times> io"

definition file_step :: "file_call \<Rightarrow> world \<Rightarrow> world" where
  "file_step fc w =
     (case fc of (p, c, io) \<Rightarrow>
        (case file_exec c io (w_cache w p, w_disk w) of
           (s', d') \<Rightarrow> w\<lparr>w_cache := (w_cache w)(p := s'), w_disk := d'\<rparr>))"

definition run_files :: "file_call list \<Rightarrow> world \<Rightarrow> world" where
  "run_files cs w = foldl (\<lambda>w c. file_step c w) w cs"

lemma run_files_simps [simp]:
  "run_files [] w = w" "run_files (c # cs) w = run_files cs (file_step c w)"
  "run_files (cs @ ds) w = run_files ds (run_files cs w)"
  by (simp_all add: run_files_def)

section \<open>One call and the file\<close>

definition disk_state :: "disk \<Rightarrow> MemoryStore" where
  "disk_state d = (case d of Stored st \<Rightarrow> st | _ \<Rightarrow> NewMemoryStore '''')"

text \<open>What a call does to the state under the lock.\<close>

definition locked :: "store_call \<Rightarrow> MemoryStore \<Rightarrow> MemoryStore" where
  "locked c s = (case c of CGetTaskLease now r t \<Rightarrow> fst (file_get_task_lease now r t s) | _ \<Rightarrow> exec c s)"

lemma loadLocked_Inr:
  "loadLocked io d s = Inr st \<Longrightarrow> \<exists>f. st = (disk_state d)\<lparr>ms_fabric := f\<rparr>"
proof (cases d)
  case NoState
  moreover assume "loadLocked io d s = Inr st"
  ultimately have "st = (disk_state d)\<lparr>ms_fabric := ms_fabric s\<rparr>"
    by (simp add: loadLocked_def disk_state_def NewMemoryStore_def)
  then show ?thesis ..
next
  case (Stored x)
  moreover assume "loadLocked io d s = Inr st"
  ultimately have "st = (disk_state d)\<lparr>ms_fabric := (if ms_fabric x \<noteq> '''' then ms_fabric x else ms_fabric s)\<rparr>"
    by (auto simp: loadLocked_def disk_state_def split: if_split_asm)
  then show ?thesis ..
qed (simp add: loadLocked_def)

lemma withState_disk: "snd (fst (withState z fn io (s, d))) = d"
  by (auto simp: withState_def withFileLock_def split: sum.split prod.split)

lemma withMutableState_disk:
  "snd (fst (withMutableState z fn io (s, d))) = d \<or>
     (\<exists>f. snd (fst (withMutableState z fn io (s, d))) = Stored (fst (fn ((disk_state d)\<lparr>ms_fabric := f\<rparr>))))"
proof (cases "loadLocked io d s")
  case (Inl e)
  then show ?thesis by (simp add: withMutableState_def withFileLock_def)
next
  case (Inr st)
  then obtain f where st: "st = (disk_state d)\<lparr>ms_fabric := f\<rparr>" using loadLocked_Inr by blast
  obtain s2 r where fn: "fn st = (s2, r)" by fastforce
  have "snd (fst (withMutableState z fn io (s, d))) = d \<or>
      snd (fst (withMutableState z fn io (s, d))) = Stored s2"
    using Inr fn by (cases r) (auto simp: withMutableState_def withFileLock_def saveLocked_def)
  moreover have "s2 = fst (fn ((disk_state d)\<lparr>ms_fabric := f\<rparr>))" using fn st by simp
  ultimately show ?thesis by blast
qed

lemma checked_disk:
  assumes "\<And>io s d. snd (fst (f io (s, d))) = d \<or>
    (\<exists>fab. snd (fst (f io (s, d))) = Stored (fst (fn ((disk_state d)\<lparr>ms_fabric := fab\<rparr>))))"
  shows "snd (fst (file_checked e z f io (s, d))) = d \<or>
    (\<exists>fab. snd (fst (file_checked e z f io (s, d))) =
       Stored (fst (checked e fn ((disk_state d)\<lparr>ms_fabric := fab\<rparr>))))"
  using assms by (cases e) (simp_all add: file_checked_def checked_def)

lemmas file_op_defs =
  File_AcquireLeader_def File_RenewLeader_def File_GetLeader_def File_ReleaseLeader_def
  File_UpsertAttestedNode_def File_GetAttestedNode_def File_RegisterNode_def File_HeartbeatNode_def
  File_GetNode_def File_ListNodes_def File_RegisterInstance_def File_HeartbeatInstance_def
  File_GetInstance_def File_ListInstances_def File_RemoveInstance_def File_UpsertRequest_def
  File_GetRequest_def File_ListRequests_def File_UpsertTask_def File_ListTasks_def
  File_AcquireTaskLease_def File_RenewTaskLease_def File_GetTaskLease_def File_ReleaseTaskLease_def
  File_AcquireProfileLease_def File_RenewProfileLease_def File_GetProfileLease_def
  File_ReleaseProfileLease_def

lemmas checked_op_defs =
  UpsertAttestedNode_def AcquireLeader_def RenewLeader_def RegisterNode_def HeartbeatNode_def
  RegisterInstance_def HeartbeatInstance_def UpsertRequest_def UpsertTask_def
  AcquireTaskLease_def RenewTaskLease_def AcquireProfileLease_def RenewProfileLease_def

lemma file_exec_disk:
  "snd (file_exec c io (s, d)) = d \<or>
     (\<exists>f. snd (file_exec c io (s, d)) = Stored (locked c ((disk_state d)\<lparr>ms_fabric := f\<rparr>)))"
  by (cases c; simp only: file_exec.simps file_op_defs locked_def exec.simps store_call.case
        checked_op_defs)
     ((rule disjI1, rule withState_disk) | (rule checked_disk, rule withMutableState_disk) |
       rule withMutableState_disk)+

section \<open>The leases in the file\<close>

lemma lease_views_fabric [simp]:
  "leader_holder (s\<lparr>ms_fabric := f\<rparr>) = leader_holder s"
  "task_holder r t (s\<lparr>ms_fabric := f\<rparr>) = task_holder r t s"
  "task_epoch r t (s\<lparr>ms_fabric := f\<rparr>) = task_epoch r t s"
  "profile_holder p (s\<lparr>ms_fabric := f\<rparr>) = profile_holder p s"
  "profile_epoch p (s\<lparr>ms_fabric := f\<rparr>) = profile_epoch p s"
  by (simp_all add: lease_view_defs)

lemma file_get_task_lease_views:
  "leader_holder (fst (file_get_task_lease now r' t' s)) = leader_holder s"
  "ms_leaderEpoch (fst (file_get_task_lease now r' t' s)) = ms_leaderEpoch s"
  "profile_holder p (fst (file_get_task_lease now r' t' s)) = profile_holder p s"
  "profile_epoch p (fst (file_get_task_lease now r' t' s)) = profile_epoch p s"
  "task_epoch r t (fst (file_get_task_lease now r' t' s)) = task_epoch r t s"
  by (simp_all add: file_get_task_lease_def lease_view_defs Let_def split: option.split)

lemma file_get_task_lease_holder:
  "task_holder r t (fst (file_get_task_lease now r' t' s)) = task_holder r t s \<or>
   task_holder r t (fst (file_get_task_lease now r' t' s)) = None"
proof (cases "mget (ms_leases s) r'")
  case (Some rl)
  have "mget rl k = None" if "mdel t' rl = []" "k \<noteq> t'" for k
    using mget_mdel [of t' rl k] that by simp
  with Some show ?thesis
    by (cases "mget rl t'") (auto simp: file_get_task_lease_def lease_view_defs Let_def)
qed (simp add: file_get_task_lease_def)

lemma locked_exec: "(\<And>now r t. c \<noteq> CGetTaskLease now r t) \<Longrightarrow> locked c s = exec c s"
  by (cases c) (auto simp: locked_def)

lemma locked_leader_step:
  "(ms_leaderEpoch (locked c s) = ms_leaderEpoch s \<and>
      (leader_holder (locked c s) = leader_holder s \<or> leader_holder (locked c s) = None)) \<or>
   (ms_leaderEpoch (locked c s) = ms_leaderEpoch s + 1 \<and>
      (\<exists>own. leader_holder (locked c s) = Some (own, ms_leaderEpoch s + 1)))"
  using leader_step [of c s]
  by (cases "\<exists>now r t. c = CGetTaskLease now r t")
     (auto simp: locked_exec, auto simp: locked_def file_get_task_lease_views)

lemma locked_task_step:
  "(task_epoch r t (locked c s) = task_epoch r t s \<and>
      (task_holder r t (locked c s) = task_holder r t s \<or> task_holder r t (locked c s) = None)) \<or>
   (task_epoch r t (locked c s) = task_epoch r t s + 1 \<and>
      (\<exists>own. task_holder r t (locked c s) = Some (own, task_epoch r t s + 1)))"
proof (cases "\<exists>now r t. c = CGetTaskLease now r t")
  case True
  then obtain now r' t' where "locked c s = fst (file_get_task_lease now r' t' s)"
    by (auto simp: locked_def)
  then show ?thesis
    using file_get_task_lease_holder [of r t now r' t' s] by (simp add: file_get_task_lease_views)
next
  case False
  then show ?thesis using task_step [of r t c s] by (simp add: locked_exec)
qed

lemma file_step_disk:
  "w_disk (file_step fc w) = w_disk w \<or>
     (\<exists>c f. w_disk (file_step fc w) = Stored (locked c ((disk_state (w_disk w))\<lparr>ms_fabric := f\<rparr>)))"
proof -
  obtain p c io where fc: "fc = (p, c, io)" by (cases fc)
  obtain s' d' where r: "file_exec c io (w_cache w p, w_disk w) = (s', d')" by fastforce
  have "w_disk (file_step fc w) = d'" by (simp add: file_step_def fc r)
  with file_exec_disk [of c io "w_cache w p" "w_disk w"] r show ?thesis by auto
qed

definition disk_leader :: "world \<Rightarrow> (string \<times> int) option" where
  "disk_leader w = leader_holder (disk_state (w_disk w))"

definition disk_leader_epoch :: "world \<Rightarrow> int" where
  "disk_leader_epoch w = ms_leaderEpoch (disk_state (w_disk w))"

definition disk_task :: "string \<Rightarrow> string \<Rightarrow> world \<Rightarrow> (string \<times> int) option" where
  "disk_task r t w = task_holder r t (disk_state (w_disk w))"

definition disk_task_epoch :: "string \<Rightarrow> string \<Rightarrow> world \<Rightarrow> int" where
  "disk_task_epoch r t w = task_epoch r t (disk_state (w_disk w))"

lemma disk_state_Stored [simp]: "disk_state (Stored s) = s"
  by (simp add: disk_state_def)

lemma disk_leader_step:
  "(disk_leader_epoch (file_step c w) = disk_leader_epoch w \<and>
      (disk_leader (file_step c w) = disk_leader w \<or> disk_leader (file_step c w) = None)) \<or>
    (disk_leader_epoch (file_step c w) = disk_leader_epoch w + 1 \<and>
      (\<exists>own. disk_leader (file_step c w) = Some (own, disk_leader_epoch w + 1)))"
proof -
  consider (same) "w_disk (file_step c w) = w_disk w"
    | (call) k f where "w_disk (file_step c w) = Stored (locked k ((disk_state (w_disk w))\<lparr>ms_fabric := f\<rparr>))"
    using file_step_disk by blast
  then show ?thesis
  proof cases
    case same
    then show ?thesis by (simp add: disk_leader_def disk_leader_epoch_def)
  next
    case call
    with locked_leader_step [of k "(disk_state (w_disk w))\<lparr>ms_fabric := f\<rparr>"] show ?thesis
      by (simp add: disk_leader_def disk_leader_epoch_def)
  qed
qed

lemma disk_task_step:
  "(disk_task_epoch r t (file_step c w) = disk_task_epoch r t w \<and>
      (disk_task r t (file_step c w) = disk_task r t w \<or> disk_task r t (file_step c w) = None)) \<or>
    (disk_task_epoch r t (file_step c w) = disk_task_epoch r t w + 1 \<and>
      (\<exists>own. disk_task r t (file_step c w) = Some (own, disk_task_epoch r t w + 1)))"
proof -
  consider (same) "w_disk (file_step c w) = w_disk w"
    | (call) k f where "w_disk (file_step c w) = Stored (locked k ((disk_state (w_disk w))\<lparr>ms_fabric := f\<rparr>))"
    using file_step_disk by blast
  then show ?thesis
  proof cases
    case same
    then show ?thesis by (simp add: disk_task_def disk_task_epoch_def)
  next
    case call
    with locked_task_step [of r t k "(disk_state (w_disk w))\<lparr>ms_fabric := f\<rparr>"] show ?thesis
      by (simp add: disk_task_def disk_task_epoch_def)
  qed
qed

interpretation file_leader: lease_cell run_files disk_leader disk_leader_epoch
  by unfold_locales (use disk_leader_step in simp_all)

interpretation file_task: lease_cell run_files "disk_task r t" "disk_task_epoch r t" for r t
  by unfold_locales (use disk_task_step in simp_all)

section \<open>Properties\<close>

text \<open>
  A call of the file store is a transaction. Its result and the file it leaves depend on
  the file, the I/O outcomes and the fabric name only, never on the cached fields of the process; a
  call that returns an error leaves the file as it was; and a mutating call without error has run
  its body on the loaded state and left exactly the state of the body in the file.
\<close>

theorem file_call_transaction:
  assumes "ms_fabric s = ms_fabric s'"
  shows "withMutableState zero fn io (s, d) = ((s1, d1), v, e) \<Longrightarrow>
      (e \<noteq> None \<longrightarrow> d1 = d) \<and>
      (e = None \<longrightarrow> (\<exists>st s2. loadLocked io d s = Inr st \<and> fn st = (s2, Inr v) \<and> d1 = Stored s2)) \<and>
      (\<exists>s1'. withMutableState zero fn io (s', d) = ((s1', d1), v, e)) \<and>
      (\<exists>s1' v' e'. withState zero fn io (s, d) = ((s1', d), v', e') \<and> (e = None \<longrightarrow> v' = v \<and> e' = None))"
proof -
  assume r: "withMutableState zero fn io (s, d) = ((s1, d1), v, e)"
  have load: "loadLocked io d s' = loadLocked io d s"
    using assms by (simp add: loadLocked_def split: disk.split)
  show ?thesis
  proof (cases "io_lock io \<and> (\<exists>st. loadLocked io d s = Inr st)")
    case False
    then show ?thesis
      using r load by (auto simp: withMutableState_def withState_def withFileLock_def split: sum.splits)
  next
    case True
    then obtain st where st: "loadLocked io d s = Inr st" and lock: "io_lock io" by blast
    obtain s2 x where fn: "fn st = (s2, x)" by fastforce
    show ?thesis
      using r load st lock fn
      by (cases x) (auto simp: withMutableState_def withState_def withFileLock_def saveLocked_def
          split: if_splits)
  qed
qed

definition io_ok :: io where
  "io_ok = \<lparr>io_lock = True, io_read = True, io_write = True\<rparr>"

theorem file_call_transaction_witness:
  "withMutableState () (RemoveInstance ''i'') (io_ok\<lparr>io_write := False\<rparr>) (demo_store, NoState) =
     ((demo_store, NoState), (), Some StorageError) \<and>
   (\<exists>s1'. withMutableState () (RemoveInstance ''i'') (io_ok\<lparr>io_write := False\<rparr>)
      (demo_store\<lparr>ms_leaderEpoch := 7\<rparr>, NoState) = ((s1', NoState), (), Some StorageError))"
proof -
  have r: "withMutableState () (RemoveInstance ''i'') (io_ok\<lparr>io_write := False\<rparr>) (demo_store, NoState) =
     ((demo_store, NoState), (), Some StorageError)"
    by (simp add: withMutableState_def withFileLock_def loadLocked_def saveLocked_def io_ok_def
        RemoveInstance_def demo_store_def NewMemoryStore_def)
  have "ms_fabric demo_store = ms_fabric (demo_store\<lparr>ms_leaderEpoch := 7\<rparr>)" by simp
  from file_call_transaction [OF this r] r show ?thesis by blast
qed

lemma file_acquire_leader_granted:
  assumes "File_AcquireLeader now cand addr ttl io (s, d) = ((s1, d1), (l, True), None)"
  shows "ll_HolderID l = cand" and "ll_Epoch l = ms_leaderEpoch (disk_state d) + 1"
    and "ms_leaderEpoch (disk_state d1) = ll_Epoch l"
proof -
  from assms have "withMutableState (zero_leader, False) (acquire_leader now cand addr ttl) io (s, d) =
      ((s1, d1), (l, True), None)"
    by (auto simp: File_AcquireLeader_def file_checked_def split: option.splits)
  then obtain st s2 where st: "loadLocked io d s = Inr st"
    and fn: "acquire_leader now cand addr ttl st = (s2, Inr (l, True))" and d1: "d1 = Stored s2"
    by (auto simp: withMutableState_def withFileLock_def saveLocked_def
        split: sum.splits prod.splits if_splits)
  have "ms_leaderEpoch st = ms_leaderEpoch (disk_state d)" using loadLocked_Inr [OF st] by auto
  with fn d1 show "ll_HolderID l = cand" "ll_Epoch l = ms_leaderEpoch (disk_state d) + 1"
    "ms_leaderEpoch (disk_state d1) = ll_Epoch l"
    by (auto simp: acquire_leader_def Let_def split: option.splits if_splits)
qed

lemma file_renew_leader_ok:
  assumes "File_RenewLeader now l ttl io (s, d) = (sd', l', None)"
  shows "leader_holder (disk_state d) = Some (ll_HolderID l, ll_Epoch l)"
proof -
  obtain s1 d1 where sd': "sd' = (s1, d1)" by fastforce
  from assms have "withMutableState zero_leader (renew_leader now l ttl) io (s, d) = ((s1, d1), l', None)"
    by (auto simp: File_RenewLeader_def file_checked_def sd' split: option.splits)
  then obtain st s2 where st: "loadLocked io d s = Inr st"
    and fn: "renew_leader now l ttl st = (s2, Inr l')"
    by (auto simp: withMutableState_def withFileLock_def saveLocked_def
        split: sum.splits prod.splits if_splits)
  have "ms_leader st = ms_leader (disk_state d)" using loadLocked_Inr [OF st] by auto
  with fn show ?thesis
    by (auto simp: renew_leader_def leader_holder_def Let_def split: option.splits if_splits)
qed

text \<open>
  Claim C19: the leader lease of the file store is fenced across processes. When one process is granted
  the lease without an error, then after any calls of any processes, with any I/O failures among
  them, a grant to any process carries a larger epoch, and once the file no longer holds the lease,
  no process ever renews it without an error.
\<close>

theorem file_leader_fenced:
  assumes "File_AcquireLeader now cand addr ttl io (s, d) = ((s1, d1), (l, True), None)"
    and "w_disk w1 = d1" and "w2 = run_files cs w1"
  shows "(\<forall>now' cand' addr' ttl' io' s' sd l'.
      File_AcquireLeader now' cand' addr' ttl' io' (s', w_disk w2) = (sd, (l', True), None) \<longrightarrow>
      ll_Epoch l < ll_Epoch l') \<and>
    (disk_leader w2 \<noteq> Some (cand, ll_Epoch l) \<longrightarrow>
      (\<forall>ds now' ttl' io' s'. snd (snd (File_RenewLeader now' l ttl' io' (s', w_disk (run_files ds w2)))) \<noteq> None))"
proof -
  note l = file_acquire_leader_granted [OF assms(1)]
  have "ll_Epoch l = disk_leader_epoch w1" using l(3) assms(2) by (simp add: disk_leader_epoch_def)
  with file_leader.top_mono [of w1 cs] assms(3) have le: "ll_Epoch l \<le> disk_leader_epoch w2" by simp
  have later: "ll_Epoch l < ll_Epoch l'"
    if "File_AcquireLeader now' cand' addr' ttl' io' (s', w_disk w2) = (sd, (l', True), None)"
    for now' cand' addr' ttl' io' s' sd l'
  proof -
    from that file_acquire_leader_granted(2) have "ll_Epoch l' = ms_leaderEpoch (disk_state (w_disk w2)) + 1"
      by (metis prod.collapse)
    with le show ?thesis by (simp add: disk_leader_epoch_def)
  qed
  have lost: "snd (snd (File_RenewLeader now' l ttl' io' (s', w_disk (run_files ds w2)))) \<noteq> None"
    if h: "disk_leader w2 \<noteq> Some (cand, ll_Epoch l)" for ds now' ttl' io' s'
  proof
    assume "snd (snd (File_RenewLeader now' l ttl' io' (s', w_disk (run_files ds w2)))) = None"
    then have "disk_leader (run_files ds w2) = Some (cand, ll_Epoch l)"
      using file_renew_leader_ok [of now' l ttl' io' s' "w_disk (run_files ds w2)"] l(1)
      by (metis disk_leader_def prod.collapse)
    with file_leader.lost_stays_lost [OF le h] show False by simp
  qed
  from later lost show ?thesis by blast
qed

theorem file_leader_fenced_witness:
  "\<forall>ds. snd (snd (File_RenewLeader 30 (demo_leader ''c1'' 1 5) 10 io_ok
     (demo_store, w_disk (run_files ds (run_files [(2, CGetLeader 20, io_ok)]
        \<lparr>w_cache = (\<lambda>_. demo_store),
         w_disk = snd (fst (File_AcquireLeader 5 ''c1'' ''addr'' 10 io_ok (demo_store, NoState)))\<rparr>))))) \<noteq> None"
proof -
  let ?r = "File_AcquireLeader 5 ''c1'' ''addr'' 10 io_ok (demo_store, NoState)"
  let ?w1 = "\<lparr>w_cache = (\<lambda>_. demo_store), w_disk = snd (fst ?r)\<rparr>"
  let ?w2 = "run_files [(2, CGetLeader 20, io_ok)] ?w1"
  note defs = File_AcquireLeader_def acquire_leader_def file_checked_def leader_checks_def
    withMutableState_def withFileLock_def loadLocked_def saveLocked_def io_ok_def demo_store_def
    NewMemoryStore_def demo_leader_def Let_def
  have grant: "?r = ((fst (fst ?r), snd (fst ?r)), (demo_leader ''c1'' 1 5, True), None)"
    by (simp add: defs)
  have "disk_leader ?w2 = None"
    by (simp add: defs file_step_def File_GetLeader_def GetLeader_def disk_leader_def disk_state_def
        leader_holder_def)
  then have "disk_leader ?w2 \<noteq> Some (''c1'', ll_Epoch (demo_leader ''c1'' 1 5))" by simp
  with file_leader_fenced [OF grant, of ?w1, OF _ refl, of "[(2, CGetLeader 20, io_ok)]"]
  show ?thesis by simp
qed

end
