(* ===== verification/FileRefine.thy ===== *)
theory FileRefine
  imports FileLeases
begin

text \<open>
  The file store against the memory store: what its callers are told. The responses of the calls of
  several processes on one file, whichever of their I/O fails, are those of a single memory store
  that runs, in the order of the file lock, the calls that did not fail with an I/O error.
\<close>

section \<open>Responses\<close>

datatype payload =
    PUnit | PAttested "AttestedNodeRecord option" | PGrant "LeaderLease \<times> bool" | PLease LeaderLease
  | PLeader "LeaderLease option" | PNode "Node option" | PNodes "Node list"
  | PInstance "AgentInstance option" | PInstances "AgentInstance list"
  | PRequest "RequestRecord option" | PRequests "RequestRecord list" | PTasks "TaskRecord list"
  | PTaskGrant "TaskLease \<times> bool" | PTaskLease TaskLease | PTaskHolder "TaskLease option"
  | PProfileGrant "ProfileLease \<times> bool" | PProfileLease ProfileLease
  | PProfileHolder "ProfileLease option"

type_synonym response = "store_error + payload"

definition lift_op :: "('r \<Rightarrow> payload) \<Rightarrow> 'r store_op \<Rightarrow> payload store_op" where
  "lift_op f op s = apsnd (map_sum id f) (op s)"

fun memory_call :: "store_call \<Rightarrow> payload store_op" where
  "memory_call (CUpsertAttestedNode r) = lift_op (\<lambda>_. PUnit) (UpsertAttestedNode r)"
| "memory_call (CGetAttestedNode n) = lift_op PAttested (GetAttestedNode n)"
| "memory_call (CAcquireLeader now c a ttl) = lift_op PGrant (AcquireLeader now c a ttl)"
| "memory_call (CRenewLeader now l ttl) = lift_op PLease (RenewLeader now l ttl)"
| "memory_call (CGetLeader now) = lift_op PLeader (GetLeader now)"
| "memory_call (CReleaseLeader l) = lift_op (\<lambda>_. PUnit) (ReleaseLeader l)"
| "memory_call (CRegisterNode t0 now n) = lift_op (\<lambda>_. PUnit) (RegisterNode t0 now n)"
| "memory_call (CHeartbeatNode t0 now n a) = lift_op (\<lambda>_. PUnit) (HeartbeatNode t0 now n a)"
| "memory_call (CGetNode now n) = lift_op PNode (GetNode now n)"
| "memory_call (CListNodes now) = lift_op PNodes (ListNodes now)"
| "memory_call (CRegisterInstance t0 now i) = lift_op (\<lambda>_. PUnit) (RegisterInstance t0 now i)"
| "memory_call (CHeartbeatInstance t0 now i a) = lift_op (\<lambda>_. PUnit) (HeartbeatInstance t0 now i a)"
| "memory_call (CGetInstance now i) = lift_op PInstance (GetInstance now i)"
| "memory_call (CListInstances now f) = lift_op PInstances (ListInstances now f)"
| "memory_call (CRemoveInstance i) = lift_op (\<lambda>_. PUnit) (RemoveInstance i)"
| "memory_call (CUpsertRequest now r) = lift_op (\<lambda>_. PUnit) (UpsertRequest now r)"
| "memory_call (CGetRequest r) = lift_op PRequest (GetRequest r)"
| "memory_call CListRequests = lift_op PRequests ListRequests"
| "memory_call (CUpsertTask now t) = lift_op (\<lambda>_. PUnit) (UpsertTask now t)"
| "memory_call (CListTasks r) = lift_op PTasks (ListTasks r)"
| "memory_call (CAcquireTaskLease now l ttl) = lift_op PTaskGrant (AcquireTaskLease now l ttl)"
| "memory_call (CRenewTaskLease now l ttl) = lift_op PTaskLease (RenewTaskLease now l ttl)"
| "memory_call (CGetTaskLease now r t) = lift_op PTaskHolder (GetTaskLease now r t)"
| "memory_call (CReleaseTaskLease l) = lift_op (\<lambda>_. PUnit) (ReleaseTaskLease l)"
| "memory_call (CAcquireProfileLease now l ttl) = lift_op PProfileGrant (AcquireProfileLease now l ttl)"
| "memory_call (CRenewProfileLease now l ttl) = lift_op PProfileLease (RenewProfileLease now l ttl)"
| "memory_call (CGetProfileLease now p) = lift_op PProfileHolder (GetProfileLease now p)"
| "memory_call (CReleaseProfileLease l) = lift_op (\<lambda>_. PUnit) (ReleaseProfileLease l)"

text \<open>A Go caller that checks the error sees the value only when there is none.\<close>

definition lift_file :: "('r \<Rightarrow> payload) \<Rightarrow> 'r file_op \<Rightarrow> io \<Rightarrow> MemoryStore \<times> disk \<Rightarrow>
    (MemoryStore \<times> disk) \<times> response" where
  "lift_file f op io w =
     (case op io w of (w', v, e) \<Rightarrow> (w', case e of None \<Rightarrow> Inr (f v) | Some err \<Rightarrow> Inl err))"

fun file_call_response :: "store_call \<Rightarrow> io \<Rightarrow> MemoryStore \<times> disk \<Rightarrow> (MemoryStore \<times> disk) \<times> response" where
  "file_call_response (CUpsertAttestedNode r) = lift_file (\<lambda>_. PUnit) (File_UpsertAttestedNode r)"
| "file_call_response (CGetAttestedNode n) = lift_file PAttested (File_GetAttestedNode n)"
| "file_call_response (CAcquireLeader now c a ttl) = lift_file PGrant (File_AcquireLeader now c a ttl)"
| "file_call_response (CRenewLeader now l ttl) = lift_file PLease (File_RenewLeader now l ttl)"
| "file_call_response (CGetLeader now) = lift_file PLeader (File_GetLeader now)"
| "file_call_response (CReleaseLeader l) = lift_file (\<lambda>_. PUnit) (File_ReleaseLeader l)"
| "file_call_response (CRegisterNode t0 now n) = lift_file (\<lambda>_. PUnit) (File_RegisterNode t0 now n)"
| "file_call_response (CHeartbeatNode t0 now n a) = lift_file (\<lambda>_. PUnit) (File_HeartbeatNode t0 now n a)"
| "file_call_response (CGetNode now n) = lift_file PNode (File_GetNode now n)"
| "file_call_response (CListNodes now) = lift_file PNodes (File_ListNodes now)"
| "file_call_response (CRegisterInstance t0 now i) = lift_file (\<lambda>_. PUnit) (File_RegisterInstance t0 now i)"
| "file_call_response (CHeartbeatInstance t0 now i a) = lift_file (\<lambda>_. PUnit) (File_HeartbeatInstance t0 now i a)"
| "file_call_response (CGetInstance now i) = lift_file PInstance (File_GetInstance now i)"
| "file_call_response (CListInstances now f) = lift_file PInstances (File_ListInstances now f)"
| "file_call_response (CRemoveInstance i) = lift_file (\<lambda>_. PUnit) (File_RemoveInstance i)"
| "file_call_response (CUpsertRequest now r) = lift_file (\<lambda>_. PUnit) (File_UpsertRequest now r)"
| "file_call_response (CGetRequest r) = lift_file PRequest (File_GetRequest r)"
| "file_call_response CListRequests = lift_file PRequests File_ListRequests"
| "file_call_response (CUpsertTask now t) = lift_file (\<lambda>_. PUnit) (File_UpsertTask now t)"
| "file_call_response (CListTasks r) = lift_file PTasks (File_ListTasks r)"
| "file_call_response (CAcquireTaskLease now l ttl) = lift_file PTaskGrant (File_AcquireTaskLease now l ttl)"
| "file_call_response (CRenewTaskLease now l ttl) = lift_file PTaskLease (File_RenewTaskLease now l ttl)"
| "file_call_response (CGetTaskLease now r t) = lift_file PTaskHolder (File_GetTaskLease now r t)"
| "file_call_response (CReleaseTaskLease l) = lift_file (\<lambda>_. PUnit) (File_ReleaseTaskLease l)"
| "file_call_response (CAcquireProfileLease now l ttl) = lift_file PProfileGrant (File_AcquireProfileLease now l ttl)"
| "file_call_response (CRenewProfileLease now l ttl) = lift_file PProfileLease (File_RenewProfileLease now l ttl)"
| "file_call_response (CGetProfileLease now p) = lift_file PProfileHolder (File_GetProfileLease now p)"
| "file_call_response (CReleaseProfileLease l) = lift_file (\<lambda>_. PUnit) (File_ReleaseProfileLease l)"

text \<open>
  When the memory store has dropped the last lease of a request it still knows the request: a renewal
  then names the task, the file store's names the request. Both errors say that there is no lease.
\<close>

datatype observed = Done payload | Failed store_error | NoTaskLease

fun observe :: "response \<Rightarrow> observed" where
  "observe (Inr v) = Done v"
| "observe (Inl (RequestLeaseNotFound r)) = NoTaskLease"
| "observe (Inl (TaskLeaseNotFound t)) = NoTaskLease"
| "observe (Inl e) = Failed e"

section \<open>Runs with their responses\<close>

fun memory_log :: "store_call list \<Rightarrow> MemoryStore \<Rightarrow> response list" where
  "memory_log [] s = []"
| "memory_log (c # cs) s = (case memory_call c s of (s', r) \<Rightarrow> r # memory_log cs s')"

fun file_log :: "file_call list \<Rightarrow> world \<Rightarrow> (store_call \<times> response) list" where
  "file_log [] w = []"
| "file_log ((p, c, io) # cs) w =
     (case file_call_response c io (w_cache w p, w_disk w) of
        ((s', d'), r) \<Rightarrow> (c, r) # file_log cs (w\<lparr>w_cache := (w_cache w)(p := s'), w_disk := d'\<rparr>))"

text \<open>The reading of the clock with which a call judges who is alive.\<close>

fun liveness_time :: "store_call \<Rightarrow> time option" where
  "liveness_time (CRegisterNode t0 now n) = Some now"
| "liveness_time (CHeartbeatNode t0 now n a) = Some now"
| "liveness_time (CGetNode now n) = Some now"
| "liveness_time (CListNodes now) = Some now"
| "liveness_time (CRegisterInstance t0 now i) = Some now"
| "liveness_time (CHeartbeatInstance t0 now i a) = Some now"
| "liveness_time (CGetInstance now i) = Some now"
| "liveness_time (CListInstances now f) = Some now"
| "liveness_time _ = None"

definition liveness_times :: "store_call list \<Rightarrow> time list" where
  "liveness_times cs = List.map_filter liveness_time cs"

definition completed :: "(store_call \<times> response) list \<Rightarrow> (store_call \<times> response) list" where
  "completed lg = filter (\<lambda>(c, r). r \<noteq> Inl StorageError) lg"

section \<open>The simulation\<close>

text \<open>
  The file and the memory store agree up to two things: the file has not been told of members found
  silent by a reading call, and it has no entry for a request without leases.
\<close>

definition same_members ::
  "time \<Rightarrow> (string, Node) gomap \<Rightarrow> (string, AgentInstance) gomap \<Rightarrow>
     (string, Node) gomap \<Rightarrow> (string, AgentInstance) gomap \<Rightarrow> bool" where
  "same_members now ns is ns' is' =
     (\<forall>t\<ge>now. live_nodes t ns = live_nodes t ns' \<and>
        live_instances t (live_nodes t ns) is = live_instances t (live_nodes t ns') is')"

definition same_leases ::
  "(string, (string, TaskLease) gomap) gomap \<Rightarrow> (string, (string, TaskLease) gomap) gomap \<Rightarrow> bool" where
  "same_leases ls ls' = (\<forall>r. mget0 [] ls r = mget0 [] ls' r)"

definition similar :: "time \<Rightarrow> MemoryStore \<Rightarrow> MemoryStore \<Rightarrow> bool" where
  "similar now st ms =
     (\<exists>ns is ls. st = ms\<lparr>ms_nodes := ns, ms_instances := is, ms_leases := ls\<rparr> \<and>
        same_members now ns is (ms_nodes ms) (ms_instances ms) \<and> same_leases ls (ms_leases ms))"

lemma similarI:
  "st = ms\<lparr>ms_nodes := ns, ms_instances := is, ms_leases := ls\<rparr> \<Longrightarrow>
   same_members now ns is (ms_nodes ms) (ms_instances ms) \<Longrightarrow> same_leases ls (ms_leases ms) \<Longrightarrow>
   similar now st ms"
  by (auto simp: similar_def)

lemma similar_refl: "similar now s s"
  by (rule similarI [where ns = "ms_nodes s" and ?is = "ms_instances s" and ls = "ms_leases s"])
    (simp_all add: same_members_def same_leases_def)

lemma same_members_refl [simp]: "same_members now ns is ns is"
  by (simp add: same_members_def)

lemma same_leases_refl [simp]: "same_leases ls ls"
  by (simp add: same_leases_def)

lemma same_membersD:
  assumes "same_members now ns is ns' is'" "now \<le> t"
  shows "live_nodes t ns = live_nodes t ns'"
    "live_instances t (live_nodes t ns') is = live_instances t (live_nodes t ns') is'"
  using assms by (metis same_members_def)+

lemma same_members_normal:
  assumes "same_members now ns is ns' is'" "now \<le> u"
  shows "same_members u ns is (live_nodes u ns') (live_instances u (live_nodes u ns') is')"
  unfolding same_members_def
proof (intro allI impI)
  fix t assume "u \<le> t"
  with assms(2) have "now \<le> t" by simp
  with same_membersD [OF assms(1)] \<open>u \<le> t\<close> show "live_nodes t ns = live_nodes t (live_nodes u ns') \<and>
      live_instances t (live_nodes t ns) is =
      live_instances t (live_nodes t (live_nodes u ns')) (live_instances u (live_nodes u ns') is')"
    by (simp add: live_nodes_absorb live_instances_absorb)
qed

lemma live_instances_mdel:
  "live_instances t ns (mdel i is) = mdel i (live_instances t ns is)"
  by (induction "is") (auto simp: live_instances_def map_entries_def)

lemma same_members_mdel:
  "same_members now ns is ns' is' \<Longrightarrow> same_members now ns (mdel i is) ns' (mdel i is')"
  by (auto simp: same_members_def live_instances_mdel)

lemma same_leases_mput:
  "same_leases ls ls' \<Longrightarrow> same_leases (mput r m ls) (mput r m ls')"
  by (simp add: same_leases_def)

lemma same_leases_mdel:
  "same_leases ls ls' \<Longrightarrow> same_leases (mdel r ls) (mdel r ls')"
  by (simp add: same_leases_def)

lemma same_leases_drop:
  "same_leases ls ls' \<Longrightarrow> same_leases (mdel r ls) (mput r [] ls')"
  by (simp add: same_leases_def)

lemma same_leases_mget:
  assumes "same_leases ls ls'"
  shows "mget0 [] ls r = mget0 [] ls' r"
  using assms by (simp add: same_leases_def)

text \<open>What a call does to similar states: similar states again, and the same answer.\<close>

definition locked_call :: "store_call \<Rightarrow> payload store_op" where
  "locked_call c = (case c of CGetTaskLease now r t \<Rightarrow> lift_op PTaskHolder (file_get_task_lease now r t)
     | _ \<Rightarrow> memory_call c)"

definition after :: "time \<Rightarrow> store_call \<Rightarrow> time" where
  "after now c = (case liveness_time c of None \<Rightarrow> now | Some t \<Rightarrow> t)"

definition agree :: "time \<Rightarrow> MemoryStore \<times> response \<Rightarrow> MemoryStore \<times> response \<Rightarrow> bool" where
  "agree now x y = (similar now (fst x) (fst y) \<and> observe (snd x) = observe (snd y))"

lemma normalize_similar:
  assumes "similar now st ms" "now \<le> u"
  obtains ls where "normalize u st = (normalize u ms)\<lparr>ms_leases := ls\<rparr>" "same_leases ls (ms_leases ms)"
proof -
  obtain ns ins ls where st: "st = ms\<lparr>ms_nodes := ns, ms_instances := ins, ms_leases := ls\<rparr>"
      "same_members now ns ins (ms_nodes ms) (ms_instances ms)" "same_leases ls (ms_leases ms)"
    using assms(1) by (auto simp: similar_def)
  have "normalize u st = (normalize u ms)\<lparr>ms_leases := ls\<rparr>"
    using same_membersD [OF st(2) assms(2)]
    by (simp add: st(1) normalize_def normalizeMembershipLiveness_def Let_def)
  then show thesis using st(3) that by blast
qed

lemma similar_leases: "same_leases ls (ms_leases s) \<Longrightarrow> similar now (s\<lparr>ms_leases := ls\<rparr>) s"
  by (rule similarI [where ns = "ms_nodes s" and ?is = "ms_instances s" and ls = ls]) simp_all

lemma similar_leases_members:
  "same_leases ls (ms_leases s) \<Longrightarrow> similar now (s\<lparr>ms_leases := ls, ms_nodes := ns\<rparr>) (s\<lparr>ms_nodes := ns\<rparr>)"
  "same_leases ls (ms_leases s) \<Longrightarrow>
     similar now (s\<lparr>ms_leases := ls, ms_instances := ins\<rparr>) (s\<lparr>ms_instances := ins\<rparr>)"
  by (rule similarI [where ns = ns and ?is = "ms_instances s" and ls = ls]; simp)
    (rule similarI [where ns = "ms_nodes s" and ?is = ins and ls = ls]; simp)

lemma same_members_mono: "same_members now ns is ns' is' \<Longrightarrow> now \<le> u \<Longrightarrow> same_members u ns is ns' is'"
  unfolding same_members_def by (meson order_trans)

lemma similar_cases [consumes 1]:
  assumes "similar now st ms"
  obtains ns ins ls where "st = ms\<lparr>ms_nodes := ns, ms_instances := ins, ms_leases := ls\<rparr>"
    "same_members now ns ins (ms_nodes ms) (ms_instances ms)" "same_leases ls (ms_leases ms)"
  using assms by (auto simp: similar_def)

lemma similar_mono: "similar now st ms \<Longrightarrow> now \<le> u \<Longrightarrow> similar u st ms"
  by (erule similar_cases, rule similarI) (auto intro: same_members_mono)

lemma similar_normalize: "similar now st ms \<Longrightarrow> now \<le> u \<Longrightarrow> similar u st (normalize u ms)"
  by (erule similar_cases, rule similarI)
    (auto simp: normalize_def normalizeMembershipLiveness_def Let_def intro: same_members_normal)

lemma agree_member_call:
  assumes "similar now st ms" "liveness_time c = Some u" "now \<le> u"
  shows "agree u (locked_call c st) (memory_call c ms)"
proof -
  obtain ls where n: "normalize u st = (normalize u ms)\<lparr>ms_leases := ls\<rparr>" "same_leases ls (ms_leases ms)"
    using normalize_similar [OF assms(1,3)] .
  show ?thesis
    using assms(2) n
    by (cases c)
      (auto simp: agree_def locked_call_def lift_op_def RegisterNode_def HeartbeatNode_def GetNode_def
        ListNodes_def RegisterInstance_def HeartbeatInstance_def GetInstance_def ListInstances_def
        register_node_def heartbeat_node_def register_instance_def heartbeat_instance_def checked_def
        Let_def list_instances_def intro: similar_leases similar_leases_members similar_mono [OF assms(1,3)] split: option.split)
qed

fun lease_call :: "store_call \<Rightarrow> bool" where
  "lease_call (CAcquireTaskLease now l ttl) = True"
| "lease_call (CRenewTaskLease now l ttl) = True"
| "lease_call (CGetTaskLease now r t) = True"
| "lease_call (CReleaseTaskLease l) = True"
| "lease_call _ = False"

lemma agree_remove: 
  assumes "similar now st ms"
  shows "agree now (locked_call (CRemoveInstance i) st) (memory_call (CRemoveInstance i) ms)"
  using assms
proof (cases rule: similar_cases)
  case st: (1 ns ins ls)
  show ?thesis
    using st(2,3) unfolding st(1)
    by (auto simp: agree_def locked_call_def lift_op_def RemoveInstance_def
        intro!: similarI [where ns = ns and ?is = "mdel i ins" and ls = ls] same_members_mdel)
qed

lemma agree_other_call:
  assumes "similar now st ms" "liveness_time c = None" "\<not> lease_call c"
  shows "agree now (locked_call c st) (memory_call c ms)"
proof (cases "\<exists>i. c = CRemoveInstance i")
  case False
  show ?thesis
    using assms(1)
  proof (cases rule: similar_cases)
    case st: (1 ns ins ls)
    show ?thesis
      using assms(2,3) st(2,3) False unfolding st(1)
      by (cases c)
        (auto simp: agree_def locked_call_def lift_op_def store_op_defs Let_def
          intro!: similarI [where ns = ns and ?is = ins and ls = ls] split: option.split)
  qed
qed (use agree_remove [OF assms(1)] in auto)

lemma similar_fields:
  "ms_fabric st = ms_fabric ms \<Longrightarrow> ms_leader st = ms_leader ms \<Longrightarrow>
   ms_leaderEpoch st = ms_leaderEpoch ms \<Longrightarrow> ms_attestedNodes st = ms_attestedNodes ms \<Longrightarrow>
   ms_requests st = ms_requests ms \<Longrightarrow> ms_tasks st = ms_tasks ms \<Longrightarrow>
   ms_profileLeases st = ms_profileLeases ms \<Longrightarrow> ms_profileEpochs st = ms_profileEpochs ms \<Longrightarrow>
   ms_taskLeaseEpochs st = ms_taskLeaseEpochs ms \<Longrightarrow>
   same_members now (ms_nodes st) (ms_instances st) (ms_nodes ms) (ms_instances ms) \<Longrightarrow>
   same_leases (ms_leases st) (ms_leases ms) \<Longrightarrow> similar now st ms"
  by (rule similarI [where ns = "ms_nodes st" and ?is = "ms_instances st" and ls = "ms_leases st"]) simp_all

lemma same_leases_cases:
  assumes "same_leases ls ls'"
  obtains "mget ls r = mget ls' r"
  | "mget ls r = None" "mget ls' r = Some []" | "mget ls r = Some []" "mget ls' r = None"
  using assms unfolding same_leases_def mget0_def
  by (cases "mget ls r"; cases "mget ls' r") (force dest: spec [of _ r])+

lemma agree_lease_call:
  assumes "similar now st ms" "lease_call c"
  shows "agree now (locked_call c st) (memory_call c ms)"
  using assms(1)
proof (cases rule: similar_cases)
  case st: (1 ns ins ls)
  have eq: "mget0 [] ls r = mget0 [] (ms_leases ms) r" for r
    using st(2,3) by (simp add: same_leases_def)
  show ?thesis
  proof (cases c)
    case (CAcquireTaskLease u l ttl)
    then show ?thesis
      unfolding st(1)
      using st(2,3) by (auto simp: agree_def locked_call_def lift_op_def AcquireTaskLease_def checked_def
          acquire_task_lease_def Let_def eq intro!: similar_fields same_leases_mput split: option.split)
  next
    case (CRenewTaskLease u l ttl)
    then show ?thesis
      unfolding st(1)
      using st(2,3) by (cases "tl_RequestID l" rule: same_leases_cases [OF st(3)])
        (auto simp: agree_def locked_call_def lift_op_def RenewTaskLease_def checked_def renew_task_lease_def Let_def
          intro!: similar_fields same_leases_mput same_leases_mdel same_leases_drop split: option.split)
  next
    case (CGetTaskLease u l ttl)
    then show ?thesis
      unfolding st(1)
      using st(2,3) by (cases "l" rule: same_leases_cases [OF st(3)])
        (auto simp: agree_def locked_call_def lift_op_def GetTaskLease_def file_get_task_lease_def checked_def Let_def
          intro!: similar_fields same_leases_mput same_leases_mdel same_leases_drop split: option.split)
  next
    case (CReleaseTaskLease l)
    then show ?thesis
      unfolding st(1)
      using st(2,3) by (cases "tl_RequestID l" rule: same_leases_cases [OF st(3)])
        (auto simp: agree_def locked_call_def lift_op_def ReleaseTaskLease_def checked_def Let_def
          intro!: similar_fields same_leases_mput same_leases_mdel same_leases_drop split: option.split)
  qed (use assms(2) in simp_all)
qed

lemma agree_call:
  assumes "similar now st ms" "now \<le> after now c"
  shows "agree (after now c) (locked_call c st) (memory_call c ms)"
proof (cases "liveness_time c")
  case None
  then show ?thesis
    using agree_lease_call [OF assms(1)] agree_other_call [OF assms(1) None]
    by (cases "lease_call c") (simp_all add: after_def)
next
  case (Some u)
  then show ?thesis using agree_member_call [OF assms(1) Some] assms(2) by (simp add: after_def)
qed

lemma observe_isl: "observe x = observe y \<Longrightarrow> isl x = isl y"
  by (cases x rule: observe.cases; cases y rule: observe.cases) simp_all

section \<open>One call on the file\<close>

fun reads :: "store_call \<Rightarrow> bool" where
  "reads (CGetAttestedNode n) = True"
| "reads (CGetNode now n) = True"
| "reads (CListNodes now) = True"
| "reads (CGetInstance now i) = True"
| "reads (CListInstances now f) = True"
| "reads (CGetRequest r) = True"
| "reads CListRequests = True"
| "reads (CListTasks r) = True"
| "reads _ = False"

text \<open>A call that only reads, or fails, changes at most who is known to be silent.\<close>

definition fails_clean :: "time option \<Rightarrow> 'r store_op \<Rightarrow> bool" where
  "fails_clean t op = (\<forall>s. isl (snd (op s)) \<longrightarrow>
     fst (op s) = s \<or> (\<exists>u. t = Some u \<and> fst (op s) = normalize u s))"

lemma fails_clean_checked: "fails_clean t op \<Longrightarrow> fails_clean t (checked e op)"
  by (cases e) (simp_all add: fails_clean_def checked_def)

lemma fails_clean_lift: "fails_clean t op \<Longrightarrow> fails_clean t (lift_op f op)"
  by (simp add: fails_clean_def lift_op_def isl_map_sum)

lemma fails_clean_total: "(\<And>s. \<not> isl (snd (op s))) \<Longrightarrow> fails_clean t op"
  by (simp add: fails_clean_def)

lemma fails_clean_renew:
  "fails_clean t (renew_leader now l ttl)" "fails_clean t (renew_task_lease now tl1 ttl)"
  "fails_clean t (renew_profile_lease now pl1 ttl)"
  by (auto simp: fails_clean_def renew_leader_def renew_task_lease_def renew_profile_lease_def Let_def
      split: option.split)

lemma fails_clean_heartbeat:
  "fails_clean (Some now) (heartbeat_node now n a)" "fails_clean (Some now) (heartbeat_instance now n a)"
  by (auto simp: fails_clean_def heartbeat_node_def heartbeat_instance_def Let_def split: option.split)

lemma fails_clean_call: "fails_clean (liveness_time c) (memory_call c)"
  by (cases c; simp only: memory_call.simps liveness_time.simps checked_op_defs)
    ((intro fails_clean_lift fails_clean_checked fails_clean_renew fails_clean_heartbeat) |
     (intro fails_clean_lift fails_clean_checked fails_clean_total,
      simp add: store_op_defs Let_def split: option.split))+

lemma reads_call:
  "reads c \<Longrightarrow> fst (memory_call c ms) = ms \<or>
    (\<exists>u. liveness_time c = Some u \<and> fst (memory_call c ms) = normalize u ms)"
  by (cases c) (simp_all add: lift_op_def GetAttestedNode_def GetNode_def ListNodes_def GetInstance_def
      ListInstances_def GetRequest_def ListRequests_def ListTasks_def Let_def)

lemma unsaved_call:
  assumes "reads c \<or> isl (snd (memory_call c ms))"
  shows "fst (memory_call c ms) = ms \<or>
    (\<exists>u. liveness_time c = Some u \<and> fst (memory_call c ms) = normalize u ms)"
  using assms fails_clean_call [of c] reads_call [of c ms] by (auto simp: fails_clean_def)

lemma unsaved_similar:
  assumes "similar now st ms" "now \<le> after now c" "reads c \<or> isl (snd (memory_call c ms))"
  shows "similar (after now c) st (fst (memory_call c ms))"
  using unsaved_call [OF assms(3)] similar_mono [OF assms(1,2)] similar_normalize [OF assms(1)] assms(2)
  by (auto simp: after_def)

lemma locked_call_fabric [simp]: "ms_fabric (fst (locked_call c s)) = ms_fabric s"
  by (cases c)
    (simp_all add: locked_call_def lift_op_def store_op_defs file_get_task_lease_def Let_def split: option.split)

definition loads :: "MemoryStore \<Rightarrow> disk \<Rightarrow> MemoryStore \<Rightarrow> bool" where
  "loads s d st = (ms_fabric s = ms_fabric st \<and>
     (d = Stored st \<or> d = NoState \<and> st = NewMemoryStore (ms_fabric st)))"

definition served :: "MemoryStore \<Rightarrow> disk \<Rightarrow> bool \<Rightarrow> payload store_op \<Rightarrow>
    (MemoryStore \<times> disk) \<times> response \<Rightarrow> bool" where
  "served st d ro op x =
     (ms_fabric (fst (fst x)) \<in> {ms_fabric st, ms_fabric (fst (op st))} \<and>
      (snd x = Inl StorageError \<and> snd (fst x) = d \<or>
       snd x = snd (op st) \<and>
         (snd (fst x) = Stored (fst (op st)) \<and> \<not> isl (snd (op st)) \<or>
          snd (fst x) = d \<and> (ro \<or> isl (snd (op st))))))"

lemma loadLocked_loads:
  assumes "loads s d st"
  shows "loadLocked io d s = Inr st \<or> loadLocked io d s = Inl StorageError"
  using assms by (cases "io_read io") (auto simp: loads_def loadLocked_def NewMemoryStore_def)

lemma served_withState:
  assumes "loads s d st"
  shows "served st d True (lift_op f op) (lift_file f (withState z op) io (s, d))"
  using loadLocked_loads [OF assms, of io] assms
  by (auto simp: served_def lift_op_def lift_file_def withState_def withFileLock_def loads_def
      split: sum.split prod.split)

lemma served_withMutableState:
  assumes "loads s d st"
  shows "served st d ro (lift_op f op) (lift_file f (withMutableState z op) io (s, d))"
  using loadLocked_loads [OF assms, of io] assms
  by (auto simp: served_def lift_op_def lift_file_def withMutableState_def withFileLock_def loads_def
      saveLocked_def split: sum.split prod.split)

lemma served_checked:
  assumes "loads s d st" "served st d ro (lift_op f op) (lift_file f g io (s, d))"
  shows "served st d ro (lift_op f (checked e op)) (lift_file f (file_checked e z g) io (s, d))"
  using assms
  by (cases e) (auto simp: served_def lift_op_def lift_file_def checked_def file_checked_def loads_def)

lemma file_call_served:
  assumes "loads s d st"
  shows "served st d (reads c) (locked_call c) (file_call_response c io (s, d))"
  by (cases c; simp only: file_call_response.simps file_op_defs locked_call_def memory_call.simps
        store_call.case checked_op_defs reads.simps)
    (intro served_checked served_withMutableState served_withState assms)+

section \<open>Properties\<close>

definition in_step :: "time \<Rightarrow> world \<Rightarrow> MemoryStore \<Rightarrow> bool" where
  "in_step now w ms = (\<exists>st. (\<forall>p. loads (w_cache w p) (w_disk w) st) \<and> similar now st ms)"

lemma in_step_same:
  assumes "loads s d st" "\<And>q. loads (w_cache w q) (w_disk w) st" "similar now st ms"
    "ms_fabric s' = ms_fabric st" "d = w_disk w"
  shows "in_step now (w\<lparr>w_cache := (w_cache w)(p := s'), w_disk := d\<rparr>) ms"
  using assms by (auto simp: in_step_def loads_def)

lemma in_step_call:
  assumes "in_step now w ms"
    "file_call_response c io (w_cache w p, w_disk w) = ((s', d'), r)"
  defines "w' \<equiv> w\<lparr>w_cache := (w_cache w)(p := s'), w_disk := d'\<rparr>"
  shows "r = Inl StorageError \<Longrightarrow> in_step now w' ms"
    "r \<noteq> Inl StorageError \<Longrightarrow> now \<le> after now c \<Longrightarrow>
       in_step (after now c) w' (fst (memory_call c ms)) \<and> observe r = observe (snd (memory_call c ms))"
proof -
  obtain st where st: "\<And>q. loads (w_cache w q) (w_disk w) st" "similar now st ms"
    using assms(1) unfolding in_step_def by blast
  have "served st (w_disk w) (reads c) (locked_call c) ((s', d'), r)"
    using file_call_served [OF st(1), of c io p] assms(2) by simp
  then have fab: "ms_fabric s' = ms_fabric st"
    and out: "r = Inl StorageError \<and> d' = w_disk w \<or> r = snd (locked_call c st) \<and>
      (d' = Stored (fst (locked_call c st)) \<and> \<not> isl r \<or> d' = w_disk w \<and> (reads c \<or> isl r))"
    by (auto simp: served_def)
  have same: "in_step t w' ms'" if "d' = w_disk w" "similar t st ms'" for t ms'
    unfolding w'_def using in_step_same [OF st(1) st(1) that(2) fab] that(1) by simp
  show "in_step now w' ms" if "r = Inl StorageError"
    using out that same [OF _ st(2)] by (metis isl_def)
  assume r: "r \<noteq> Inl StorageError" and n: "now \<le> after now c"
  then have rr: "r = snd (locked_call c st)" using out by blast
  have ag: "similar (after now c) (fst (locked_call c st)) (fst (memory_call c ms))"
      "observe r = observe (snd (memory_call c ms))"
    using agree_call [OF st(2) n] by (simp_all add: agree_def rr)
  have "in_step (after now c) w' (fst (memory_call c ms))"
  proof (cases "d' = w_disk w \<and> (reads c \<or> isl r)")
    case True
    then show ?thesis
      using same unsaved_similar [OF st(2) n] observe_isl [OF ag(2)] by blast
  next
    case False
    then have "d' = Stored (fst (locked_call c st))" using out r by blast
    then show ?thesis
      unfolding in_step_def
      using ag(1) fab st(1) by (intro exI [of _ "fst (locked_call c st)"]) (auto simp: w'_def loads_def)
  qed
  with ag(2) show "in_step (after now c) w' (fst (memory_call c ms)) \<and>
      observe r = observe (snd (memory_call c ms))" by blast
qed

lemma liveness_times_Cons:
  "liveness_times (c # cs) = (case liveness_time c of None \<Rightarrow> liveness_times cs | Some t \<Rightarrow> t # liveness_times cs)"
  by (simp add: liveness_times_def map_filter_simps split: option.split)

lemma sorted_after:
  assumes "sorted (now # liveness_times (c # cs))"
  shows "now \<le> after now c" "sorted (after now c # liveness_times cs)"
  using assms by (auto simp: liveness_times_Cons after_def split: option.splits)

lemma file_log_refines:
  assumes "in_step now w ms" "sorted (now # liveness_times (map fst (completed (file_log cs w))))"
  shows "map (observe \<circ> snd) (completed (file_log cs w)) =
    map observe (memory_log (map fst (completed (file_log cs w))) ms)"
  using assms
proof (induction cs arbitrary: w now ms)
  case (Cons fc cs)
  obtain p c io where fc: "fc = (p, c, io)" by (metis prod.exhaust)
  obtain s' d' r where call: "file_call_response c io (w_cache w p, w_disk w) = ((s', d'), r)"
    by (metis prod.exhaust)
  define w' where "w' = w\<lparr>w_cache := (w_cache w)(p := s'), w_disk := d'\<rparr>"
  have log: "file_log (fc # cs) w = (c, r) # file_log cs w'"
    using call by (simp add: w'_def fc)
  note step = in_step_call [OF Cons.prems(1) call, folded w'_def]
  show ?case
  proof (cases "r = Inl StorageError")
    case True
    then have "completed (file_log (fc # cs) w) = completed (file_log cs w')"
      by (simp add: log completed_def)
    then show ?thesis using Cons.IH [OF step(1) [OF True]] Cons.prems(2) by simp
  next
    case False
    then have comp: "completed (file_log (fc # cs) w) = (c, r) # completed (file_log cs w')"
      by (simp add: log completed_def)
    note srt = sorted_after [OF Cons.prems(2) [unfolded comp list.map fst_conv]]
    show ?thesis
      using Cons.IH [OF conjunct1 [OF step(2) [OF False srt(1)]] srt(2)] step(2) [OF False srt(1)]
      by (simp add: comp split_beta)
  qed
qed (simp add: completed_def)

text \<open>
  Claim C15: the file store implements the memory store. Let any processes call the file store in any
  order, with any locks, reads and writes failing, on a file and caches that hold the store \<open>s\<close>. The calls
  that did not end in an I/O error get, one by one, the answers a memory store that starts as \<open>s\<close> gives
  to these calls, provided the clock readings that judge who is alive do not go back from one such
  call to the next. The answers are equal but for the text of the error that there is no task lease.
\<close>

theorem file_store_refines_memory:
  assumes "\<And>p. loads (w_cache w p) (w_disk w) s"
    and "sorted (liveness_times (map fst (completed (file_log cs w))))"
  shows "map (\<lambda>(c, r). observe r) (completed (file_log cs w)) =
    map observe (memory_log (map fst (completed (file_log cs w))) s)"
proof -
  define ts where "ts = liveness_times (map fst (completed (file_log cs w)))"
  define now where "now = (case ts of [] \<Rightarrow> 0 | t # _ \<Rightarrow> t)"
  have "sorted (now # ts)" using assms(2) by (cases ts) (auto simp: now_def ts_def)
  moreover have "in_step now w s" using assms(1) similar_refl by (auto simp: in_step_def)
  ultimately show ?thesis
    using file_log_refines [of now w s cs] by (simp add: ts_def case_prod_beta' comp_def)
qed

definition demo_io :: io where
  "demo_io = \<lparr>io_lock = True, io_read = True, io_write = True\<rparr>"

definition demo_world :: world where
  "demo_world = \<lparr>w_cache = (\<lambda>_. NewMemoryStore ''fab''), w_disk = NoState\<rparr>"

definition demo_lease :: "string \<Rightarrow> TaskLease" where
  "demo_lease owner = zero_task_lease\<lparr>tl_RequestID := ''r'', tl_TaskID := ''t'', tl_OwnerID := owner\<rparr>"

definition demo_calls :: "file_call list" where
  "demo_calls =
     [(0, CRegisterNode 1 1 (demo_node ''n'' NodeStateReady 1), demo_io),
      (0, CAcquireTaskLease 5 (demo_lease ''a'') 10, demo_io),
      (1, CAcquireTaskLease 6 (demo_lease ''b'') 10, demo_io\<lparr>io_write := False\<rparr>),
      (1, CGetTaskLease 20 ''r'' ''t'', demo_io),
      (2, CGetNode 30000000000 ''n'', demo_io),
      (0, CRenewTaskLease 21 ((demo_lease ''a'')\<lparr>tl_Epoch := 1\<rparr>) 10, demo_io)]"

definition demo_answers :: "(store_call \<times> response) list" where
  "demo_answers =
     [(CRegisterNode 1 1 (demo_node ''n'' NodeStateReady 1), Inr PUnit),
      (CAcquireTaskLease 5 (demo_lease ''a'') 10, Inr (PTaskGrant ((demo_lease ''a'')\<lparr>tl_Epoch := 1,
         tl_AcquiredAt := 5, tl_LastHeartbeatAt := 5, tl_ExpiresAt := 15\<rparr>, True))),
      (CGetTaskLease 20 ''r'' ''t'', Inr (PTaskHolder None)),
      (CGetNode 30000000000 ''n'', Inr (PNode (Some (demo_node ''n'' NodeStateUnavailable 1)))),
      (CRenewTaskLease 21 ((demo_lease ''a'')\<lparr>tl_Epoch := 1\<rparr>) 10, Inl (RequestLeaseNotFound ''r''))]"

lemma demo_log: "completed (file_log demo_calls demo_world) = demo_answers"
  unfolding demo_calls_def demo_answers_def
  by (simp add: demo_world_def lift_file_def file_op_defs withState_def withMutableState_def
      withFileLock_def demo_io_def loadLocked_def saveLocked_def file_checked_def store_op_defs
      NewMemoryStore_def node_defaults_def Let_def normalize_def normalizeMembershipLiveness_def
      task_lease_checks_def demo_lease_def zero_task_lease_def completed_def file_get_task_lease_def
      live_nodes_def live_instances_def map_entries_def live_node_def nodeHeartbeatExpired_def
      instanceHeartbeatExpired_def NodeHeartbeatTTL_def demo_node_def InstanceHeartbeatTTL_def
      time_sub_def)

theorem file_store_refines_memory_witness:
  "map (\<lambda>(c, r). observe r) demo_answers =
     map observe (memory_log (map fst demo_answers) (NewMemoryStore ''fab''))"
proof -
  have "\<And>p. loads (w_cache demo_world p) (w_disk demo_world) (NewMemoryStore ''fab'')"
    by (simp add: loads_def demo_world_def NewMemoryStore_def)
  moreover have "sorted (liveness_times (map fst (completed (file_log demo_calls demo_world))))"
    by (simp add: demo_log demo_answers_def liveness_times_def map_filter_simps)
  ultimately show ?thesis
    using file_store_refines_memory [of demo_world "NewMemoryStore ''fab''" demo_calls]
    unfolding demo_log by blast
qed

end
