(* ===== verification/Routing.thy ===== *)
theory Routing
  imports Prelude
begin

text \<open>
  Tier-based model routing (internal/routing: router.go, tracker.go). The tracker keeps the tier of
  every agent and task under the concatenated key, and success counts per agent and model. Each
  method of the tracker is one critical section; \<open>RecordOutcome\<close> makes two, so its tier is read
  before the section that counts. The base model factory is a parameter.
\<close>

section \<open>The tracker\<close>

record tierAcc =
  ta_agent :: string
  ta_model :: string
  ta_tier :: int
  ta_success :: int
  ta_failure :: int

record TierStat =
  ts_Agent :: string
  ts_Model :: string
  ts_Tier :: int
  ts_Success :: int
  ts_Failure :: int
  ts_Total :: int

record tracker =
  tr_state :: "(string, int) gomap"
  tr_stats :: "(string, tierAcc) gomap"

definition newTracker :: tracker where
  "newTracker = \<lparr>tr_state = [], tr_stats = []\<rparr>"

definition tierKey :: "string \<Rightarrow> string \<Rightarrow> string" where
  "tierKey agent taskID = agent @ '':'' @ taskID"

definition statKey :: "string \<Rightarrow> string \<Rightarrow> string" where
  "statKey agent model = agent @ '':'' @ model"

definition currentTier :: "tracker \<Rightarrow> string \<Rightarrow> string \<Rightarrow> int" where
  "currentTier t agent taskID = mget0 0 (tr_state t) (tierKey agent taskID)"

definition escalate :: "tracker \<Rightarrow> string \<Rightarrow> string \<Rightarrow> int \<Rightarrow> tracker \<times> int \<times> bool" where
  "escalate t agent taskID maxTier =
     (let key = tierKey agent taskID; cur = mget0 0 (tr_state t) key
      in if cur \<ge> maxTier then (t, cur, False)
         else (t\<lparr>tr_state := mput key (cur + 1) (tr_state t)\<rparr>, cur + 1, True))"

definition recordOutcome :: "tracker \<Rightarrow> string \<Rightarrow> string \<Rightarrow> int \<Rightarrow> bool \<Rightarrow> tracker" where
  "recordOutcome t agent model tier success =
     (let key = statKey agent model;
          acc = (case mget (tr_stats t) key of
              Some acc \<Rightarrow> acc
            | None \<Rightarrow> \<lparr>ta_agent = agent, ta_model = model, ta_tier = tier, ta_success = 0, ta_failure = 0\<rparr>);
          acc' = (if success then acc\<lparr>ta_success := ta_success acc + 1\<rparr>
                  else acc\<lparr>ta_failure := ta_failure acc + 1\<rparr>)
      in t\<lparr>tr_stats := mput key acc' (tr_stats t)\<rparr>)"

definition tracker_report :: "tracker \<Rightarrow> TierStat list" where
  "tracker_report t =
     map (\<lambda>acc. \<lparr>ts_Agent = ta_agent acc, ts_Model = ta_model acc, ts_Tier = ta_tier acc,
         ts_Success = ta_success acc, ts_Failure = ta_failure acc,
         ts_Total = ta_success acc + ta_failure acc\<rparr>) (mvals (tr_stats t))"

section \<open>The router\<close>

record AdaptiveRouter =
  ar_Tiers :: "(string, string list) gomap"
  ar_tracker :: tracker

definition NewAdaptiveRouter :: "(string, string list) gomap \<Rightarrow> AdaptiveRouter" where
  "NewAdaptiveRouter tiers = \<lparr>ar_Tiers = tiers, ar_tracker = newTracker\<rparr>"

text \<open>
  The index into the tiers is a Go index expression: \<open>None\<close> is the panic it raises out of range.
\<close>

definition tier_index :: "'a list \<Rightarrow> int \<Rightarrow> 'a option" where
  "tier_index xs i = (if 0 \<le> i \<and> i < int (length xs) then Some (xs ! nat i) else None)"

definition tiers_of :: "AdaptiveRouter \<Rightarrow> string \<Rightarrow> string list" where
  "tiers_of r agent = (case mget (ar_Tiers r) agent of Some tiers \<Rightarrow> tiers | None \<Rightarrow> [])"

definition clamp_tier :: "int \<Rightarrow> string list \<Rightarrow> int" where
  "clamp_tier tier tiers = (if tier \<ge> int (length tiers) then int (length tiers) - 1 else tier)"

definition ModelFactory ::
  "(string \<Rightarrow> 'm) \<Rightarrow> AdaptiveRouter \<Rightarrow> string \<Rightarrow> string \<Rightarrow> string \<Rightarrow> 'm option" where
  "ModelFactory base r agent taskID defaultModel =
     (let tiers = tiers_of r agent
      in if tiers = [] then Some (base defaultModel)
         else map_option base (tier_index tiers (clamp_tier (currentTier (ar_tracker r) agent taskID) tiers)))"

definition Escalate :: "AdaptiveRouter \<Rightarrow> string \<Rightarrow> string \<Rightarrow> AdaptiveRouter \<times> bool" where
  "Escalate r agent taskID =
     (let tiers = tiers_of r agent
      in if tiers = [] then (r, False)
         else
           (case escalate (ar_tracker r) agent taskID (int (length tiers) - 1) of
              (t', newTier, escalated) \<Rightarrow> (r\<lparr>ar_tracker := t'\<rparr>, escalated)))"

definition RecordOutcome :: "AdaptiveRouter \<Rightarrow> string \<Rightarrow> string \<Rightarrow> bool \<Rightarrow> AdaptiveRouter option" where
  "RecordOutcome r agent taskID success =
     (let tiers = tiers_of r agent
      in if tiers = [] then Some r
         else
           (let tier = clamp_tier (currentTier (ar_tracker r) agent taskID) tiers
            in map_option (\<lambda>model. r\<lparr>ar_tracker := recordOutcome (ar_tracker r) agent model tier success\<rparr>)
                 (tier_index tiers tier)))"

definition Report :: "AdaptiveRouter \<Rightarrow> TierStat list" where
  "Report r = tracker_report (ar_tracker r)"

section \<open>Runs of a router\<close>

datatype router_call = CallEscalate string string | CallRecord string string bool

fun call_agent :: "router_call \<Rightarrow> string" where
  "call_agent (CallEscalate a t) = a"
| "call_agent (CallRecord a t s) = a"

fun router_exec :: "router_call \<Rightarrow> AdaptiveRouter \<Rightarrow> AdaptiveRouter option" where
  "router_exec (CallEscalate a t) r = Some (fst (Escalate r a t))"
| "router_exec (CallRecord a t s) r = RecordOutcome r a t s"

fun router_run :: "router_call list \<Rightarrow> AdaptiveRouter \<Rightarrow> AdaptiveRouter option" where
  "router_run [] r = Some r"
| "router_run (c # cs) r = (case router_exec c r of None \<Rightarrow> None | Some r' \<Rightarrow> router_run cs r')"

definition tiers_nonneg :: "AdaptiveRouter \<Rightarrow> bool" where
  "tiers_nonneg r \<longleftrightarrow> (\<forall>k. 0 \<le> mget0 0 (tr_state (ar_tracker r)) k)"

lemma clamp_in_range:
  "0 \<le> tier \<Longrightarrow> tiers \<noteq> [] \<Longrightarrow>
     tier_index tiers (clamp_tier tier tiers) = Some (tiers ! min (nat tier) (length tiers - 1))"
  by (cases tiers) (auto simp: tier_index_def clamp_tier_def min_def nat_le_iff)

lemma router_exec_Some:
  assumes "tiers_nonneg r"
  shows "\<exists>r'. router_exec c r = Some r' \<and> tiers_nonneg r' \<and> ar_Tiers r' = ar_Tiers r"
proof (cases c)
  case (CallEscalate a t)
  with assms show ?thesis
    by (auto simp: Escalate_def escalate_def tiers_nonneg_def Let_def)
next
  case (CallRecord a t s)
  have "0 \<le> currentTier (ar_tracker r) a t"
    using assms by (simp add: tiers_nonneg_def currentTier_def)
  with CallRecord assms show ?thesis
    by (auto simp: RecordOutcome_def recordOutcome_def clamp_in_range tiers_nonneg_def Let_def)
qed

lemma router_run_Some:
  "tiers_nonneg r \<Longrightarrow> \<exists>r'. router_run cs r = Some r' \<and> tiers_nonneg r' \<and> ar_Tiers r' = ar_Tiers r"
proof (induction cs arbitrary: r)
  case (Cons c cs)
  then show ?case using router_exec_Some [of r c] by fastforce
qed simp

lemma tiers_nonneg_New: "tiers_nonneg (NewAdaptiveRouter tiers)"
  by (simp add: tiers_nonneg_def NewAdaptiveRouter_def newTracker_def)

lemma tierKey_inject:
  "CHR '':'' \<notin> set a \<Longrightarrow> CHR '':'' \<notin> set a' \<Longrightarrow> tierKey a t = tierKey a' t' \<Longrightarrow> a = a' \<and> t = t'"
proof (induction a arbitrary: a')
  case Nil
  then show ?case by (cases a') (auto simp: tierKey_def)
next
  case (Cons x xs)
  then show ?case by (cases a') (auto simp: tierKey_def)
qed

fun escalations :: "string \<Rightarrow> string \<Rightarrow> router_call list \<Rightarrow> nat" where
  "escalations a t [] = 0"
| "escalations a t (CallEscalate a' t' # cs) =
     (if a' = a \<and> t' = t then Suc (escalations a t cs) else escalations a t cs)"
| "escalations a t (CallRecord _ _ _ # cs) = escalations a t cs"

lemma router_exec_tier:
  assumes "router_exec c r = Some r'" and "CHR '':'' \<notin> set agent" and "CHR '':'' \<notin> set (call_agent c)"
    and "tiers_of r agent \<noteq> []"
  shows "currentTier (ar_tracker r') agent task =
    (if c = CallEscalate agent task
     then max (currentTier (ar_tracker r) agent task)
       (min (currentTier (ar_tracker r) agent task + 1) (int (length (tiers_of r agent)) - 1))
     else currentTier (ar_tracker r) agent task)"
proof (cases c)
  case (CallEscalate a t)
  show ?thesis
  proof (cases "a = agent \<and> t = task")
    case True
    with CallEscalate assms(1) have "r' = fst (Escalate r agent task)" by simp
    then have "currentTier (ar_tracker r') agent task =
        (let cur = currentTier (ar_tracker r) agent task; top = int (length (tiers_of r agent)) - 1
         in if cur \<ge> top then cur else cur + 1)"
      using assms(4) by (simp add: Escalate_def escalate_def currentTier_def Let_def)
    with True CallEscalate show ?thesis by (simp add: Let_def max_def min_def)
  next
    case False
    have "CHR '':'' \<notin> set a" using assms(3) CallEscalate by simp
    from tierKey_inject [OF assms(2) this] False have "tierKey agent task \<noteq> tierKey a t" by blast
    with False CallEscalate assms(1) show ?thesis
      by (auto simp: Escalate_def escalate_def currentTier_def Let_def split: if_splits)
  qed
next
  case (CallRecord a t s)
  with assms(1) show ?thesis
    by (auto simp: RecordOutcome_def recordOutcome_def currentTier_def Let_def split: if_splits)
qed

lemma router_run_tier:
  "router_run cs r = Some r' \<Longrightarrow> tiers_nonneg r \<Longrightarrow> CHR '':'' \<notin> set agent \<Longrightarrow>
     (\<forall>c \<in> set cs. CHR '':'' \<notin> set (call_agent c)) \<Longrightarrow> tiers_of r agent \<noteq> [] \<Longrightarrow>
     currentTier (ar_tracker r) agent task = int (min n (length (tiers_of r agent) - 1)) \<Longrightarrow>
     currentTier (ar_tracker r') agent task =
       int (min (n + escalations agent task cs) (length (tiers_of r agent) - 1))"
proof (induction cs arbitrary: r n)
  case (Cons c cs)
  let ?L = "length (tiers_of r agent)"
  obtain r1 where r1: "router_exec c r = Some r1" "tiers_nonneg r1" "ar_Tiers r1 = ar_Tiers r"
    using router_exec_Some [OF Cons.prems(2)] by blast
  have tiers: "tiers_of r1 agent = tiers_of r agent" using r1(3) by (simp add: tiers_of_def)
  have run: "router_run cs r1 = Some r'" using Cons.prems(1) r1(1) by simp
  let ?k = "if c = CallEscalate agent task then 1 else (0::nat)"
  have L: "int ?L - 1 = int (?L - 1)" using Cons.prems(5) by (cases "tiers_of r agent") simp_all
  have "CHR '':'' \<notin> set (call_agent c)" using Cons.prems(4) by simp
  from router_exec_tier [OF r1(1) Cons.prems(3) this Cons.prems(5), of task]
  have "currentTier (ar_tracker r1) agent task = int (min (n + ?k) (?L - 1))"
    unfolding Cons.prems(6) L by (simp add: min_def max_def)
  then have now: "currentTier (ar_tracker r1) agent task = int (min (n + ?k) (length (tiers_of r1 agent) - 1))"
    by (simp only: tiers)
  have ne: "tiers_of r1 agent \<noteq> []" using Cons.prems(5) by (simp only: tiers not_False_eq_True)
  have "\<forall>c \<in> set cs. CHR '':'' \<notin> set (call_agent c)" using Cons.prems(4) by simp
  from Cons.IH [OF run r1(2) Cons.prems(3) this ne now]
  have "currentTier (ar_tracker r') agent task = int (min (n + ?k + escalations agent task cs) (?L - 1))"
    by (simp only: tiers)
  moreover have "escalations agent task (c # cs) = ?k + escalations agent task cs" by (cases c) auto
  ultimately show ?case by (simp only: add.assoc)
qed simp

section \<open>Properties\<close>

text \<open>
  Claim C31: the model in use is the tier reached by escalation. On a fresh router no run of calls
  panics; when no agent name contains a colon, the model selected for a task is the one at the
  number of times this agent and task were escalated, capped at the last tier, whatever was
  escalated or recorded for other tasks in between.
\<close>

theorem router_selects_escalated_tier:
  assumes "mget tiers agent = Some models" and "models \<noteq> []" and "CHR '':'' \<notin> set agent"
    and "\<forall>c \<in> set cs. CHR '':'' \<notin> set (call_agent c)"
  shows "\<exists>r. router_run cs (NewAdaptiveRouter tiers) = Some r \<and>
    ModelFactory base r agent task def =
      Some (base (models ! min (escalations agent task cs) (length models - 1))) \<and>
    (snd (Escalate r agent task) \<longleftrightarrow> escalations agent task cs < length models - 1)"
proof -
  let ?r0 = "NewAdaptiveRouter tiers"
  obtain r where r: "router_run cs ?r0 = Some r" "ar_Tiers r = ar_Tiers ?r0"
    using router_run_Some [OF tiers_nonneg_New] by blast
  have t0: "tiers_of ?r0 agent = models" using assms(1) by (simp add: tiers_of_def NewAdaptiveRouter_def)
  then have t: "tiers_of r agent = models" using r(2) by (simp add: tiers_of_def)
  have "currentTier (ar_tracker ?r0) agent task = int (min 0 (length (tiers_of ?r0 agent) - 1))"
    by (simp add: currentTier_def NewAdaptiveRouter_def newTracker_def)
  from router_run_tier [OF r(1) tiers_nonneg_New assms(3,4) _ this] t0 assms(2)
  have cur: "currentTier (ar_tracker r) agent task = int (min (escalations agent task cs) (length models - 1))"
    by simp
  then have "ModelFactory base r agent task def =
      Some (base (models ! min (escalations agent task cs) (length models - 1)))"
    using assms(2) by (simp add: ModelFactory_def t clamp_in_range Let_def)
  moreover have "snd (Escalate r agent task) \<longleftrightarrow> escalations agent task cs < length models - 1"
    using cur assms(2) by (cases models) (auto simp: Escalate_def escalate_def t Let_def currentTier_def min_def)
  ultimately show ?thesis using r(1) by blast
qed

theorem router_selects_escalated_tier_witness:
  "\<exists>r. router_run [CallEscalate ''dev'' ''t1'', CallRecord ''dev'' ''t1'' False, CallEscalate ''dev'' ''t2'',
       CallEscalate ''dev'' ''t1'', CallEscalate ''dev'' ''t1''] (NewAdaptiveRouter [(''dev'', [''a'', ''b'', ''c''])]) = Some r \<and>
     ModelFactory (\<lambda>m. m) r ''dev'' ''t1'' ''d'' = Some ''c''"
proof -
  let ?cs = "[CallEscalate ''dev'' ''t1'', CallRecord ''dev'' ''t1'' False, CallEscalate ''dev'' ''t2'',
    CallEscalate ''dev'' ''t1'', CallEscalate ''dev'' ''t1'']"
  let ?tiers = "[(''dev'', [''a'', ''b'', ''c''])]"
  have "mget ?tiers ''dev'' = Some [''a'', ''b'', ''c'']" "[''a'', ''b'', ''c''] \<noteq> []"
    "CHR '':'' \<notin> set ''dev''" "\<forall>c \<in> set ?cs. CHR '':'' \<notin> set (call_agent c)" by simp_all
  from router_selects_escalated_tier [OF this, of "\<lambda>m. m" "''t1''" "''d''"]
  obtain r where "router_run ?cs (NewAdaptiveRouter ?tiers) = Some r"
    "ModelFactory (\<lambda>m. m) r ''dev'' ''t1'' ''d'' =
       Some ([''a'', ''b'', ''c''] ! min (escalations ''dev'' ''t1'' ?cs) (length [''a'', ''b'', ''c''] - 1))"
    by blast
  moreover have "[''a'', ''b'', ''c''] ! min (escalations ''dev'' ''t1'' ?cs) (length [''a'', ''b'', ''c''] - 1) = ''c''"
    by (simp add: numeral_2_eq_2)
  ultimately show ?thesis by auto
qed

end
