(* ===== verification/Artifact.thy ===== *)
theory Artifact
  imports GoStrings
begin

text \<open>
  File blocks in a model's answer (internal/agent/artifact.go): a line \<open>```file:path\<close> opens a block,
  a fence of at least as many backticks closes it, fences inside the block nest, and a block left
  open at the end of the answer is kept. Paths are cleaned with \<open>filepath.Clean\<close> (Unix).
\<close>

section \<open>filepath.Clean on Unix\<close>

definition slash :: char where "slash = CHR ''/''"

text \<open>One path element against the cleaned elements so far, the last one first.\<close>

definition clean_elem :: "bool \<Rightarrow> string \<Rightarrow> string list \<Rightarrow> string list" where
  "clean_elem rooted e out =
     (if e = '''' \<or> e = ''.'' then out
      else if e = ''..'' then
        (case out of
           [] \<Rightarrow> if rooted then [] else [''..'']
         | x # xs \<Rightarrow> if x = ''..'' then ''..'' # out else xs)
      else e # out)"

definition clean_elems :: "bool \<Rightarrow> string list \<Rightarrow> string list" where
  "clean_elems rooted es = rev (foldl (\<lambda>out e. clean_elem rooted e out) [] es)"

definition is_abs :: "string \<Rightarrow> bool" where
  "is_abs p = has_prefix p ''/''"

definition path_clean :: "string \<Rightarrow> string" where
  "path_clean p =
     (let body = join ''/'' (clean_elems (is_abs p) (split_on slash p))
      in if is_abs p then ''/'' @ body else if body = '''' then ''.'' else body)"

section \<open>Fences\<close>

definition backtick :: char where "backtick = char_of (96 :: nat)"

definition ticks :: "string \<Rightarrow> nat" where
  "ticks line = length (takeWhile (\<lambda>c. c = backtick) line)"

definition parseFileFence :: "string \<Rightarrow> string \<times> string" where
  "parseFileFence line =
     (let i = ticks line; fence = take i line; rest = drop i line
      in if i < 3 then ('''', '''')
         else if \<not> has_prefix rest ''file:'' then ('''', '''')
         else
           (let path = trim_space (drop 5 rest)
            in if path = '''' then ('''', '''') else (fence, path)))"

definition isClosingFence :: "string \<Rightarrow> string \<Rightarrow> bool" where
  "isClosingFence line openFence =
     (let i = ticks line in if i < length openFence then False else trim_space (drop i line) = '''')"

definition isOpenFence :: "string \<Rightarrow> nat \<Rightarrow> bool" where
  "isOpenFence line minBackticks =
     (let i = ticks line in if i < minBackticks then False else trim_space (drop i line) \<noteq> '''')"

definition isValidPath :: "string \<Rightarrow> bool" where
  "isValidPath path =
     (if path = '''' then False
      else
        (let cleaned = path_clean path
         in if is_abs cleaned then False else ''..'' \<notin> set (split_on slash cleaned)))"

section \<open>The parser\<close>

record FileBlock =
  fb_Path :: string
  fb_Content :: string

text \<open>The variables of the loop; an open block has its path, fence, nesting depth and lines.\<close>

record open_block =
  ob_path :: string
  ob_fence :: string
  ob_depth :: nat
  ob_lines :: "string list"

record parse_state =
  ps_blocks :: "FileBlock list"
  ps_summary :: "string list"
  ps_current :: "open_block option"

definition close_block :: "open_block \<Rightarrow> FileBlock" where
  "close_block b = \<lparr>fb_Path = ob_path b, fb_Content = join newline (ob_lines b)\<rparr>"

definition parse_line :: "string \<Rightarrow> parse_state \<Rightarrow> parse_state" where
  "parse_line line s =
     (let trimmed = trim_space line
      in case ps_current s of
           Some b \<Rightarrow>
             if isClosingFence trimmed (ob_fence b) then
               (if ob_depth b > 0
                then s\<lparr>ps_current := Some (b\<lparr>ob_depth := ob_depth b - 1, ob_lines := ob_lines b @ [line]\<rparr>)\<rparr>
                else s\<lparr>ps_blocks := ps_blocks s @ [close_block b], ps_current := None\<rparr>)
             else if isOpenFence trimmed (length (ob_fence b))
             then s\<lparr>ps_current := Some (b\<lparr>ob_depth := ob_depth b + 1, ob_lines := ob_lines b @ [line]\<rparr>)\<rparr>
             else s\<lparr>ps_current := Some (b\<lparr>ob_lines := ob_lines b @ [line]\<rparr>)\<rparr>
         | None \<Rightarrow>
             (case parseFileFence trimmed of
                (fence, path) \<Rightarrow>
                  if fence \<noteq> '''' \<and> path \<noteq> '''' \<and> isValidPath path
                  then s\<lparr>ps_current := Some \<lparr>ob_path = path_clean path, ob_fence = fence, ob_depth = 0, ob_lines = []\<rparr>\<rparr>
                  else s\<lparr>ps_summary := ps_summary s @ [line]\<rparr>))"

definition parse_lines :: "string list \<Rightarrow> parse_state \<Rightarrow> parse_state" where
  "parse_lines ls s = foldl (\<lambda>s l. parse_line l s) s ls"

definition parse_init :: parse_state where
  "parse_init = \<lparr>ps_blocks = [], ps_summary = [], ps_current = None\<rparr>"

definition ParseFileBlocks :: "string \<Rightarrow> FileBlock list \<times> string" where
  "ParseFileBlocks content =
     (let s = parse_lines (split_on (char_of (10 :: nat)) content) parse_init;
          blocks = ps_blocks s @ (case ps_current s of Some b \<Rightarrow> [close_block b] | None \<Rightarrow> [])
      in if blocks = [] then ([], content)
         else (blocks, trim_space (join newline (ps_summary s))))"

section \<open>Paths stay inside\<close>

text \<open>The files a relative path without \<open>..\<close> elements can name.\<close>

definition inside :: "string \<Rightarrow> bool" where
  "inside p \<longleftrightarrow> \<not> is_abs p \<and> ''..'' \<notin> set (split_on slash p)"

lemma isValidPath_inside: "isValidPath p \<Longrightarrow> inside (path_clean p)"
  by (simp add: isValidPath_def inside_def Let_def split: if_splits)

definition parse_inv :: "parse_state \<Rightarrow> bool" where
  "parse_inv s \<longleftrightarrow> (\<forall>b \<in> set (ps_blocks s). inside (fb_Path b)) \<and>
     (\<forall>b. ps_current s = Some b \<longrightarrow> inside (ob_path b))"

lemma parse_line_inv: "parse_inv s \<Longrightarrow> parse_inv (parse_line l s)"
  by (auto simp: parse_line_def parse_inv_def Let_def close_block_def isValidPath_inside
      split: option.split prod.split)

lemma parse_lines_inv: "parse_inv s \<Longrightarrow> parse_inv (parse_lines ls s)"
  unfolding parse_lines_def by (induction ls arbitrary: s) (simp_all add: parse_line_inv)

lemma parse_lines_simps [simp]:
  "parse_lines [] s = s" "parse_lines (l # ls) s = parse_lines ls (parse_line l s)"
  "parse_lines (ls @ ls') s = parse_lines ls' (parse_lines ls s)"
  by (simp_all add: parse_lines_def)

section \<open>Round trip\<close>

text \<open>A block as the prompts ask for it.\<close>

definition render_lines :: "FileBlock \<Rightarrow> string list" where
  "render_lines b =
     (replicate 3 backtick @ ''file:'' @ fb_Path b) #
     split_on (char_of (10 :: nat)) (fb_Content b) @ [replicate 3 backtick]"

definition render_block :: "FileBlock \<Rightarrow> string" where
  "render_block b = join newline (render_lines b)"

text \<open>
  Content that can be carried: with \<open>d\<close> code blocks open, every fence of three or more backticks that closes a block closes
  one that was opened by a fence with a language, and none is left open at the end.
\<close>

fun fences_match :: "nat \<Rightarrow> string list \<Rightarrow> bool" where
  "fences_match d [] \<longleftrightarrow> d = 0"
| "fences_match d (l # ls) \<longleftrightarrow>
     (if ticks (trim_space l) < 3 then fences_match d ls
      else if trim_space (drop (ticks (trim_space l)) (trim_space l)) = '''' then d > 0 \<and> fences_match (d - 1) ls
      else fences_match (d + 1) ls)"

definition fences_matched :: "string \<Rightarrow> bool" where
  "fences_matched content \<longleftrightarrow> fences_match 0 (split_on (char_of (10 :: nat)) content)"

definition renderable :: "FileBlock \<Rightarrow> bool" where
  "renderable b \<longleftrightarrow>
     isValidPath (fb_Path b) \<and> path_clean (fb_Path b) = fb_Path b \<and> trim_space (fb_Path b) = fb_Path b \<and>
     char_of (10 :: nat) \<notin> set (fb_Path b) \<and> fences_matched (fb_Content b)"

lemma ticks_append: "s = [] \<or> hd s \<noteq> backtick \<Longrightarrow> ticks (replicate n backtick @ s) = n"
  by (cases s) (induction n, simp_all add: ticks_def)+

lemma not_space_backtick: "\<not> is_space backtick"
  by code_simp

lemma header_trim:
  assumes "trim_space p = p" and "p \<noteq> []"
  shows "trim_space (replicate 3 backtick @ ''file:'' @ p) = replicate 3 backtick @ ''file:'' @ p"
  using assms trim_space_last [OF assms]
  by (intro trim_space_idem) (simp_all add: not_space_backtick numeral_3_eq_3)

lemma header_fence:
  assumes "trim_space p = p" and "p \<noteq> []"
  shows "parseFileFence (replicate 3 backtick @ ''file:'' @ p) = (replicate 3 backtick, p)"
proof -
  have "CHR ''f'' \<noteq> backtick" by code_simp
  then have "ticks (replicate 3 backtick @ ''file:'' @ p) = 3"
    by (intro ticks_append) simp
  then show ?thesis
    using assms by (simp add: parseFileFence_def Let_def has_prefix_def)
qed

lemma fence_line: "trim_space (replicate 3 backtick) = replicate 3 backtick"
  "isClosingFence (replicate 3 backtick) (replicate 3 backtick)"
  using ticks_append [of "[]" 3]
  by (simp_all add: trim_space_idem not_space_backtick isClosingFence_def numeral_3_eq_3)

lemma parse_body:
  "fences_match d ls \<Longrightarrow> ps_current s = Some b \<Longrightarrow> ob_fence b = replicate 3 backtick \<Longrightarrow> ob_depth b = d \<Longrightarrow>
     parse_lines ls s = s\<lparr>ps_current := Some (b\<lparr>ob_depth := 0, ob_lines := ob_lines b @ ls\<rparr>)\<rparr>"
proof (induction d ls arbitrary: s b rule: fences_match.induct)
  case (2 d l ls)
  let ?t = "trim_space l"
  let ?b = "b\<lparr>ob_depth := (if ticks ?t < 3 then d else if trim_space (drop (ticks ?t) ?t) = '''' then d - 1 else d + 1),
    ob_lines := ob_lines b @ [l]\<rparr>"
  have "parse_line l s = s\<lparr>ps_current := Some ?b\<rparr>"
    using "2.prems" by (auto simp: parse_line_def isClosingFence_def isOpenFence_def Let_def)
  moreover have "parse_lines ls (s\<lparr>ps_current := Some ?b\<rparr>) = s\<lparr>ps_current := Some (?b\<lparr>ob_depth := 0, ob_lines := ob_lines ?b @ ls\<rparr>)\<rparr>"
    using "2.IH" [of "s\<lparr>ps_current := Some ?b\<rparr>" ?b] "2.prems" by (auto split: if_splits)
  ultimately show ?case by simp
qed simp

lemma parse_render:
  assumes "renderable b" and "ps_current s = None"
  shows "parse_lines (render_lines b) s = s\<lparr>ps_blocks := ps_blocks s @ [b]\<rparr>"
proof -
  have b: "isValidPath (fb_Path b)" "path_clean (fb_Path b) = fb_Path b" "trim_space (fb_Path b) = fb_Path b"
    "fences_match 0 (split_on (char_of (10 :: nat)) (fb_Content b))"
    using assms(1) by (simp_all add: renderable_def fences_matched_def)
  then have ne: "fb_Path b \<noteq> []" by (auto simp: isValidPath_def)
  let ?o = "\<lparr>ob_path = fb_Path b, ob_fence = replicate 3 backtick, ob_depth = 0, ob_lines = []\<rparr>"
  let ?s1 = "s\<lparr>ps_current := Some ?o\<rparr>"
  have "parse_line (replicate 3 backtick @ ''file:'' @ fb_Path b) s = ?s1"
    unfolding parse_line_def header_trim [OF b(3) ne] header_fence [OF b(3) ne] Let_def
    using assms(2) b ne by simp
  moreover have "parse_lines (split_on (char_of (10 :: nat)) (fb_Content b)) ?s1 =
      ?s1\<lparr>ps_current := Some (?o\<lparr>ob_lines := split_on (char_of (10 :: nat)) (fb_Content b)\<rparr>)\<rparr>"
    using parse_body [OF b(4), of ?s1 ?o] by simp
  moreover have "join newline (split_on (char_of (10 :: nat)) (fb_Content b)) = fb_Content b"
    unfolding newline_def by (rule join_split_on)
  ultimately show ?thesis
    using assms(2) fence_line by (simp add: render_lines_def parse_line_def close_block_def Let_def)
qed

lemma parse_render_all:
  "\<forall>b \<in> set bs. renderable b \<Longrightarrow> ps_current s = None \<Longrightarrow>
     parse_lines (concat (map render_lines bs)) s = s\<lparr>ps_blocks := ps_blocks s @ bs\<rparr>"
  by (induction bs arbitrary: s) (simp_all add: parse_render)

lemma render_lines_no_newline:
  "renderable b \<Longrightarrow> l \<in> set (render_lines b) \<Longrightarrow> char_of (10 :: nat) \<notin> set l"
proof -
  have "backtick \<noteq> char_of (10 :: nat)" "char_of (10 :: nat) \<notin> set ''file:''" by code_simp+
  then show "renderable b \<Longrightarrow> l \<in> set (render_lines b) \<Longrightarrow> ?thesis"
    by (auto simp: render_lines_def renderable_def dest: split_on_sep)
qed

section \<open>Properties\<close>

text \<open>
  File blocks survive the round trip. Blocks written the way the prompts ask for them, with
  clean relative paths and content in which the fences of code blocks match, come back from
  \<open>ParseFileBlocks\<close> as they were, in order and with nothing added.
\<close>

theorem file_blocks_roundtrip:
  assumes "\<forall>b \<in> set bs. renderable b"
  shows "bs \<noteq> [] \<Longrightarrow> ParseFileBlocks (join newline (concat (map render_lines bs))) = (bs, '''')"
proof -
  assume ne: "bs \<noteq> []"
  let ?ls = "concat (map render_lines bs)"
  have "?ls \<noteq> []" using ne by (cases bs) (auto simp: render_lines_def)
  moreover have "\<forall>l \<in> set ?ls. char_of (10 :: nat) \<notin> set l"
    using assms render_lines_no_newline by auto
  ultimately have "split_on (char_of (10 :: nat)) (join newline ?ls) = ?ls"
    unfolding newline_def by (rule split_on_join)
  then show ?thesis
    using parse_render_all [OF assms, of parse_init] ne
    by (simp add: ParseFileBlocks_def parse_init_def Let_def)
qed

theorem file_blocks_roundtrip_witness:
  "ParseFileBlocks (join newline (concat (map render_lines
     [\<lparr>fb_Path = ''src/a.go'', fb_Content = ''package a''\<rparr>]))) =
   ([\<lparr>fb_Path = ''src/a.go'', fb_Content = ''package a''\<rparr>], '''')"
proof (rule file_blocks_roundtrip)
  show "\<forall>b \<in> set [\<lparr>fb_Path = ''src/a.go'', fb_Content = ''package a''\<rparr>]. renderable b"
    unfolding renderable_def fences_matched_def by code_simp
qed simp

text \<open>
  Claim C33: an answer cannot name a file outside. Whatever the model answers, the path of every
  block that is parsed from it is relative and has no \<open>..\<close> element, so that joined to the artifact
  directory of the agent it stays below it.
\<close>

theorem file_blocks_stay_inside:
  assumes "b \<in> set (fst (ParseFileBlocks content))"
  shows "\<not> is_abs (fb_Path b) \<and> ''..'' \<notin> set (split_on slash (fb_Path b))"
proof -
  have "parse_inv (parse_lines (split_on (char_of (10 :: nat)) content) parse_init)"
    by (rule parse_lines_inv) (simp add: parse_inv_def parse_init_def)
  then have "inside (fb_Path b)"
    using assms by (auto simp: ParseFileBlocks_def parse_inv_def Let_def close_block_def
        split: option.splits if_splits)
  then show ?thesis by (simp add: inside_def)
qed

theorem file_blocks_stay_inside_witness:
  "let content = join newline [replicate 3 backtick @ ''file:a/../b'', ''x'', replicate 3 backtick,
       replicate 3 backtick @ ''file:../../etc'', ''y'']
   in fst (ParseFileBlocks content) = [\<lparr>fb_Path = ''b'', fb_Content = ''x''\<rparr>] \<and>
      ''..'' \<notin> set (split_on slash ''b'')"
proof -
  let ?c = "join newline [replicate 3 backtick @ ''file:a/../b'', ''x'', replicate 3 backtick,
    replicate 3 backtick @ ''file:../../etc'', ''y'']"
  have "fst (ParseFileBlocks ?c) = [\<lparr>fb_Path = ''b'', fb_Content = ''x''\<rparr>]" by code_simp
  with file_blocks_stay_inside [of "\<lparr>fb_Path = ''b'', fb_Content = ''x''\<rparr>" ?c] show ?thesis
    by (simp add: Let_def)
qed

end
