(* ===== verification/Message.thy ===== *)
theory Message
  imports GoStrings
begin

text \<open>
  Messages between agents (internal/message: types.go, json.go, convert.go, annotated.go). A value
  of Go type \<open>any\<close> is one of the values the code stores in a data part; \<open>AStrings\<close> is a \<open>[]string\<close>,
  which is not a \<open>[]any\<close>. The protobuf \<open>Struct\<close> library is not part of the repository: its
  \<open>NewStruct\<close> and \<open>AsMap\<close> are parameters of the conversions.
\<close>

section \<open>Types (types.go)\<close>

datatype any =
    ANil | ABool bool | ANum int | AStr string | AList "any list" | AStrings "string list"
  | AMap "(string \<times> any) list"

type_synonym data = "(string, any) gomap"

datatype MessageType =
    TypeTaskAssignment | TypeTaskResult | TypeEscalation | TypeEscalationResponse
  | TypeReviewRequest | TypeReviewResponse | TypeStatusUpdate | TypeUserQuery | TypeUserResponse
  | TypeOther string

record TokenUsage =
  tu_InputTokens :: int
  tu_OutputTokens :: int
  tu_TotalTokens :: int
  tu_TotalCalls :: int
  tu_CacheReadTokens :: int
  tu_Model :: string

datatype Part = TextPart string | FilePart string string string | DataPart data

record Message =
  m_ID :: string
  m_RequestID :: string
  m_From :: string
  m_To :: string
  m_Type :: MessageType
  m_Parts :: "Part list"
  m_Metadata :: "(string, string) gomap"
  m_TokenUsage :: "TokenUsage option"
  m_Timestamp :: int

section \<open>Conversion to protobuf (convert.go)\<close>

datatype pb_MessageType =
    PB_UNSPECIFIED | PB_TASK_ASSIGNMENT | PB_TASK_RESULT | PB_ESCALATION | PB_ESCALATION_RESPONSE
  | PB_REVIEW_REQUEST | PB_REVIEW_RESPONSE | PB_STATUS_UPDATE | PB_USER_QUERY | PB_USER_RESPONSE
  | PB_OTHER int

text \<open>A lookup of a missing key in the two tables yields the zero value of the other type.\<close>

fun protoMessageType :: "MessageType \<Rightarrow> pb_MessageType" where
  "protoMessageType TypeTaskAssignment = PB_TASK_ASSIGNMENT"
| "protoMessageType TypeTaskResult = PB_TASK_RESULT"
| "protoMessageType TypeEscalation = PB_ESCALATION"
| "protoMessageType TypeEscalationResponse = PB_ESCALATION_RESPONSE"
| "protoMessageType TypeReviewRequest = PB_REVIEW_REQUEST"
| "protoMessageType TypeReviewResponse = PB_REVIEW_RESPONSE"
| "protoMessageType TypeStatusUpdate = PB_STATUS_UPDATE"
| "protoMessageType TypeUserQuery = PB_USER_QUERY"
| "protoMessageType TypeUserResponse = PB_USER_RESPONSE"
| "protoMessageType (TypeOther _) = PB_UNSPECIFIED"

fun nativeMessageType :: "pb_MessageType \<Rightarrow> MessageType" where
  "nativeMessageType PB_TASK_ASSIGNMENT = TypeTaskAssignment"
| "nativeMessageType PB_TASK_RESULT = TypeTaskResult"
| "nativeMessageType PB_ESCALATION = TypeEscalation"
| "nativeMessageType PB_ESCALATION_RESPONSE = TypeEscalationResponse"
| "nativeMessageType PB_REVIEW_REQUEST = TypeReviewRequest"
| "nativeMessageType PB_REVIEW_RESPONSE = TypeReviewResponse"
| "nativeMessageType PB_STATUS_UPDATE = TypeStatusUpdate"
| "nativeMessageType PB_USER_QUERY = TypeUserQuery"
| "nativeMessageType PB_USER_RESPONSE = TypeUserResponse"
| "nativeMessageType PB_UNSPECIFIED = TypeOther ''''"
| "nativeMessageType (PB_OTHER _) = TypeOther ''''"

text \<open>
  The oneof of a part: an empty part, and a data part whose struct may be nil. The type \<open>'s\<close> stands
  for the library's struct.
\<close>

datatype 's pb_Part =
    PB_Empty | PB_Text string | PB_File string string string | PB_Data "'s option"

record 's pb_Message =
  pb_Id :: string
  pb_RequestId :: string
  pb_From :: string
  pb_To :: string
  pb_Type :: pb_MessageType
  pb_Parts :: "'s pb_Part list"
  pb_Metadata :: "(string, string) gomap"
  pb_TokenUsage :: "TokenUsage option"
  pb_Timestamp :: int

text \<open>
  \<open>UnixNano\<close> of a time given in nanoseconds since the zero time: an int64 that wraps outside the
  years 1678 to 2262; \<open>time.Unix(0, n)\<close> is its inverse on the int64 range.
\<close>

definition unix_epoch :: int where
  "unix_epoch = 62135596800 * 1000000000"

definition wrap64 :: "int \<Rightarrow> int" where
  "wrap64 n = (n + 2 ^ 63) mod 2 ^ 64 - 2 ^ 63"

definition UnixNano :: "int \<Rightarrow> int" where
  "UnixNano t = wrap64 (t - unix_epoch)"

definition time_Unix :: "int \<Rightarrow> int" where
  "time_Unix n = unix_epoch + n"

fun partToProto :: "(data \<Rightarrow> 's option) \<Rightarrow> Part \<Rightarrow> 's pb_Part" where
  "partToProto newStruct (TextPart t) = PB_Text t"
| "partToProto newStruct (FilePart u m n) = PB_File u m n"
| "partToProto newStruct (DataPart d) =
     (case newStruct d of Some s \<Rightarrow> PB_Data (Some s) | None \<Rightarrow> PB_Empty)"

fun protoToPart :: "('s \<Rightarrow> data) \<Rightarrow> 's pb_Part \<Rightarrow> Part" where
  "protoToPart asMap (PB_Text t) = TextPart t"
| "protoToPart asMap (PB_File u m n) = FilePart u m n"
| "protoToPart asMap (PB_Data (Some s)) = DataPart (asMap s)"
| "protoToPart asMap (PB_Data None) = DataPart []"
| "protoToPart asMap PB_Empty = TextPart ''''"

definition ToProto :: "(data \<Rightarrow> 's option) \<Rightarrow> Message option \<Rightarrow> 's pb_Message option" where
  "ToProto newStruct msg =
     (case msg of
        None \<Rightarrow> None
      | Some m \<Rightarrow> Some \<lparr>pb_Id = m_ID m, pb_RequestId = m_RequestID m, pb_From = m_From m, pb_To = m_To m,
          pb_Type = protoMessageType (m_Type m), pb_Parts = map (partToProto newStruct) (m_Parts m),
          pb_Metadata = m_Metadata m, pb_TokenUsage = m_TokenUsage m,
          pb_Timestamp = UnixNano (m_Timestamp m)\<rparr>)"

definition FromProto :: "('s \<Rightarrow> data) \<Rightarrow> 's pb_Message option \<Rightarrow> Message option" where
  "FromProto asMap msg =
     (case msg of
        None \<Rightarrow> None
      | Some p \<Rightarrow> Some \<lparr>m_ID = pb_Id p, m_RequestID = pb_RequestId p, m_From = pb_From p, m_To = pb_To p,
          m_Type = nativeMessageType (pb_Type p), m_Parts = map (protoToPart asMap) (pb_Parts p),
          m_Metadata = pb_Metadata p, m_TokenUsage = pb_TokenUsage p,
          m_Timestamp = time_Unix (pb_Timestamp p)\<rparr>)"

section \<open>JSON (json.go)\<close>

text \<open>
  The JSON values are trees of type \<open>any\<close>. Decoding into a struct matches keys to field names
  without regard to case, lets the last of several win, leaves a field alone for null, and fails on
  a value of another type.
\<close>

definition json_string_field :: "string \<Rightarrow> any \<Rightarrow> string option" where
  "json_string_field name v =
     (case v of
        AMap m \<Rightarrow>
          foldl (\<lambda>acc (k, x).
              case acc of None \<Rightarrow> None | Some s \<Rightarrow>
                if to_lower k = to_lower name then
                  (case x of AStr t \<Rightarrow> Some t | ANil \<Rightarrow> Some s | _ \<Rightarrow> None)
                else Some s) (Some '''') m
      | ANil \<Rightarrow> Some ''''
      | _ \<Rightarrow> None)"

definition json_data_field :: "any \<Rightarrow> data option" where
  "json_data_field v =
     (case v of
        AMap m \<Rightarrow>
          foldl (\<lambda>acc (k, x).
              case acc of None \<Rightarrow> None | Some d \<Rightarrow>
                if to_lower k = ''data'' then
                  (case x of AMap e \<Rightarrow> Some (foldl (\<lambda>d (k, x). mput k x d) d e) | ANil \<Rightarrow> Some [] | _ \<Rightarrow> None)
                else Some d) (Some []) m
      | ANil \<Rightarrow> Some []
      | _ \<Rightarrow> None)"

record partJSON =
  pj_Type :: string
  pj_Data :: any

fun partType :: "Part \<Rightarrow> string" where
  "partType (TextPart _) = ''text''"
| "partType (FilePart _ _ _) = ''file''"
| "partType (DataPart _) = ''data''"

text \<open>Encoding forgets that a slice is a slice of strings; decoding yields generic values.\<close>

fun json_value :: "any \<Rightarrow> any" where
  "json_value (AStrings ss) = AList (map AStr ss)"
| "json_value (AList vs) = AList (map json_value vs)"
| "json_value (AMap m) = AMap (map (\<lambda>(k, v). (k, json_value v)) m)"
| "json_value v = v"

definition json_data :: "data \<Rightarrow> data" where
  "json_data d = map (\<lambda>(k, v). (k, json_value v)) d"

fun marshal_part_data :: "Part \<Rightarrow> any" where
  "marshal_part_data (TextPart t) = AMap [(''text'', AStr t)]"
| "marshal_part_data (FilePart u m n) = AMap [(''uri'', AStr u), (''mime_type'', AStr m), (''name'', AStr n)]"
| "marshal_part_data (DataPart d) = AMap [(''data'', AMap (json_data d))]"

definition marshal_parts :: "Part list \<Rightarrow> partJSON list" where
  "marshal_parts ps = map (\<lambda>p. \<lparr>pj_Type = partType p, pj_Data = marshal_part_data p\<rparr>) ps"

datatype json_error = BadPart nat | UnknownPartType string nat

definition unmarshal_part :: "nat \<Rightarrow> partJSON \<Rightarrow> json_error + Part" where
  "unmarshal_part i p =
     (let bad = (\<lambda>r. case r of Some x \<Rightarrow> Inr x | None \<Rightarrow> Inl (BadPart i)); d = pj_Data p
      in if pj_Type p = ''text'' then bad (map_option TextPart (json_string_field ''text'' d))
         else if pj_Type p = ''file'' then
           (case (json_string_field ''uri'' d, json_string_field ''mime_type'' d, json_string_field ''name'' d) of
              (Some u, Some m, Some n) \<Rightarrow> Inr (FilePart u m n)
            | _ \<Rightarrow> Inl (BadPart i))
         else if pj_Type p = ''data'' then bad (map_option DataPart (json_data_field d))
         else Inl (UnknownPartType (pj_Type p) i))"

fun unmarshal_parts :: "nat \<Rightarrow> partJSON list \<Rightarrow> json_error + Part list" where
  "unmarshal_parts i [] = Inr []"
| "unmarshal_parts i (p # ps) =
     (case unmarshal_part i p of
        Inl e \<Rightarrow> Inl e
      | Inr x \<Rightarrow> (case unmarshal_parts (Suc i) ps of Inl e \<Rightarrow> Inl e | Inr xs \<Rightarrow> Inr (x # xs)))"

section \<open>Annotating the sender (annotated.go)\<close>

definition annotate_sender :: "string \<Rightarrow> string \<Rightarrow> Message \<Rightarrow> Message" where
  "annotate_sender senderNode instanceID m =
     m\<lparr>m_Metadata := mput ''sender_instance'' instanceID (mput ''sender_node'' senderNode (m_Metadata m))\<rparr>"

section \<open>Properties\<close>

text \<open>
  The messages a protobuf message can carry without loss. The struct library is the parameter \<open>newStruct\<close>, \<open>asMap\<close>: it gives
  back strings, booleans, nil and floating-point numbers as they were, but a number of an integer type as a float64, and it rejects
  a slice that is no \<open>[]any\<close>; so what a data part needs is that the library accepts its map and gives back this same map.
\<close>

definition proto_representable :: "(data \<Rightarrow> 's option) \<Rightarrow> ('s \<Rightarrow> data) \<Rightarrow> Message \<Rightarrow> bool" where
  "proto_representable newStruct asMap m \<longleftrightarrow>
     (\<forall>s. m_Type m \<noteq> TypeOther s) \<and>
     (\<forall>d. DataPart d \<in> set (m_Parts m) \<longrightarrow> map_option asMap (newStruct d) = Some d) \<and>
     - (2 ^ 63) \<le> m_Timestamp m - unix_epoch \<and> m_Timestamp m - unix_epoch < 2 ^ 63"

text \<open>What arrives in place of a part.\<close>

fun arriving :: "(data \<Rightarrow> 's option) \<Rightarrow> ('s \<Rightarrow> data) \<Rightarrow> Part \<Rightarrow> Part" where
  "arriving newStruct asMap (TextPart t) = TextPart t"
| "arriving newStruct asMap (FilePart u mt n) = FilePart u mt n"
| "arriving newStruct asMap (DataPart d) = (case newStruct d of Some s \<Rightarrow> DataPart (asMap s) | None \<Rightarrow> TextPart '''')"

lemma message_type_roundtrip: "(\<forall>s. t \<noteq> TypeOther s) \<Longrightarrow> nativeMessageType (protoMessageType t) = t"
  by (cases t) simp_all

lemma wrap64_id: "- (2 ^ 63) \<le> n \<Longrightarrow> n < 2 ^ 63 \<Longrightarrow> wrap64 n = n"
  by (simp add: wrap64_def)

lemma part_arrives: "protoToPart asMap (partToProto newStruct p) = arriving newStruct asMap p"
  by (cases p) (simp_all split: option.split)

lemma arriving_same: "(\<And>d. p = DataPart d \<Longrightarrow> map_option asMap (newStruct d) = Some d) \<Longrightarrow> arriving newStruct asMap p = p"
  by (cases p) auto

lemma undeclared_type: "nativeMessageType (protoMessageType t) = (if t \<in> range TypeOther then TypeOther '''' else t)"
  by (cases t) auto

lemma timestamp_arrives:
  "time_Unix (UnixNano t) = t \<longleftrightarrow> - (2 ^ 63) \<le> t - unix_epoch \<and> t - unix_epoch < 2 ^ 63"
proof
  assume "time_Unix (UnixNano t) = t"
  then have "t - unix_epoch = wrap64 (t - unix_epoch)" by (simp add: time_Unix_def UnixNano_def)
  moreover have "- (2 ^ 63) \<le> wrap64 n \<and> wrap64 n < 2 ^ 63" for n by (simp add: wrap64_def)
  ultimately show "- (2 ^ 63) \<le> t - unix_epoch \<and> t - unix_epoch < 2 ^ 63" by metis
qed (simp add: time_Unix_def UnixNano_def wrap64_id)

text \<open>
  Claim C36: what arrives of a message that is sent over the wire. After \<open>ToProto\<close> and \<open>FromProto\<close>, whatever the struct library
  does, the identifiers, the sender and the receiver, the metadata and the token usage are those that were sent; the type is, unless
  it is none of the nine declared ones, and then it is empty; there are as many parts, in the same order, the text and file
  parts as they were, a data part with the map the library gives back, and an empty text part for a data part that the library
  rejects; and the timestamp is the one that was sent exactly when it lies in the years 1678 to 2262, the range of an int64 of
  nanoseconds. So a message of a declared type, with a timestamp in that range and with data parts that the library gives back
  as they are, arrives unchanged.
\<close>

theorem proto_roundtrip:
  "\<exists>arrived. FromProto asMap (ToProto newStruct (Some m)) = Some arrived \<and>
     m_ID arrived = m_ID m \<and> m_RequestID arrived = m_RequestID m \<and> m_From arrived = m_From m \<and> m_To arrived = m_To m \<and>
     m_Metadata arrived = m_Metadata m \<and> m_TokenUsage arrived = m_TokenUsage m \<and>
     m_Type arrived = (if m_Type m \<in> range TypeOther then TypeOther '''' else m_Type m) \<and>
     m_Parts arrived = map (arriving newStruct asMap) (m_Parts m) \<and>
     (m_Timestamp arrived = m_Timestamp m \<longleftrightarrow>
        - (2 ^ 63) \<le> m_Timestamp m - unix_epoch \<and> m_Timestamp m - unix_epoch < 2 ^ 63) \<and>
     (proto_representable newStruct asMap m \<longrightarrow> arrived = m)"
proof -
  have parts: "map (protoToPart asMap \<circ> partToProto newStruct) (m_Parts m) = map (arriving newStruct asMap) (m_Parts m)"
    by (simp add: part_arrives)
  have same: "map (arriving newStruct asMap) (m_Parts m) = m_Parts m" if "proto_representable newStruct asMap m"
    using that by (intro map_idI arriving_same) (auto simp: proto_representable_def)
  have type: "nativeMessageType (protoMessageType (m_Type m)) = m_Type m" if "proto_representable newStruct asMap m"
    using that by (intro message_type_roundtrip) (simp add: proto_representable_def)
  have stamp: "time_Unix (UnixNano (m_Timestamp m)) = m_Timestamp m" if "proto_representable newStruct asMap m"
    using that by (simp add: timestamp_arrives proto_representable_def)
  show ?thesis
    using same type stamp
    by (auto simp: FromProto_def ToProto_def parts undeclared_type timestamp_arrives)
qed

text \<open>A struct library for the witness: it accepts string values and wraps the map.\<close>

definition demo_new_struct :: "data \<Rightarrow> data option" where
  "demo_new_struct d = (if (\<forall>(k, v) \<in> set d. case v of AStr _ \<Rightarrow> True | _ \<Rightarrow> False) then Some d else None)"

definition demo_message :: Message where
  "demo_message = \<lparr>m_ID = ''1'', m_RequestID = ''r'', m_From = ''a'', m_To = ''b'',
     m_Type = TypeTaskResult, m_Parts = [TextPart ''hi'', DataPart [(''k'', AStr ''v'')]],
     m_Metadata = [(''task_id'', ''t'')], m_TokenUsage = None, m_Timestamp = unix_epoch + 5\<rparr>"

theorem proto_roundtrip_witness:
  "FromProto (\<lambda>d. d) (ToProto demo_new_struct (Some demo_message)) = Some demo_message \<and>
   (\<exists>arrived. FromProto (\<lambda>d. d) (ToProto demo_new_struct (Some (demo_message\<lparr>m_Parts := [DataPart [(''files'', AStrings [''a''])]]\<rparr>))) =
      Some arrived \<and> m_Parts arrived = [TextPart ''''])"
proof -
  have "proto_representable demo_new_struct (\<lambda>d. d) demo_message"
    by (simp add: proto_representable_def demo_message_def demo_new_struct_def)
  moreover have "demo_new_struct [(''files'', AStrings [''a''])] = None"
    by (simp add: demo_new_struct_def)
  ultimately show ?thesis
    using proto_roundtrip [of "\<lambda>d. d" demo_new_struct demo_message]
      proto_roundtrip [of "\<lambda>d. d" demo_new_struct "demo_message\<lparr>m_Parts := [DataPart [(''files'', AStrings [''a''])]]\<rparr>"]
    by auto
qed

fun json_part :: "Part \<Rightarrow> Part" where
  "json_part (DataPart d) = DataPart (json_data d)"
| "json_part p = p"

lemma gowf_json_data [simp]: "gowf (json_data d) = gowf d"
  by (simp add: json_data_def split_beta comp_def)

lemma json_value_idem: "json_value (json_value v) = json_value v"
  by (induction v) (auto simp: comp_def)

lemma json_part_idem: "json_part (json_part p) = json_part p"
  by (cases p) (simp_all add: json_data_def json_value_idem split_beta comp_def)

lemma put_all:
  "gowf (acc @ d) \<Longrightarrow> foldl (\<lambda>d (k, x). mput k x d) acc d = acc @ d"
proof (induction d arbitrary: acc)
  case (Cons kv d)
  have "k \<notin> fst ` set acc \<Longrightarrow> mput k x acc = acc @ [(k, x)]" for k x
    by (induction acc) auto
  with Cons show ?case by (cases kv) auto
qed simp

lemma unmarshal_marshal_part:
  assumes "\<And>d. p = DataPart d \<Longrightarrow> gowf d"
  shows "unmarshal_part i \<lparr>pj_Type = partType p, pj_Data = marshal_part_data p\<rparr> = Inr (json_part p)"
proof (cases p)
  case (DataPart d)
  from put_all [of "[]" "json_data d"] assms DataPart show ?thesis
    by (simp add: unmarshal_part_def json_data_field_def) (simp add: to_lower_def char_lower_def Let_def)
qed (simp_all add: unmarshal_part_def json_string_field_def to_lower_def char_lower_def Let_def)

text \<open>
  Parts survive the log. Decoding the encoded parts of a message gives back the same parts,
  whatever their texts, paths and data, except that a slice of strings in a data part has become
  a slice of any; a second trip changes nothing more; and an unknown type tag is an error that
  names its index.
\<close>

theorem parts_json_roundtrip:
  assumes "\<forall>d. DataPart d \<in> set ps \<longrightarrow> gowf d"
  shows "unmarshal_parts i (marshal_parts ps) = Inr (map json_part ps) \<and>
    unmarshal_parts i (marshal_parts (map json_part ps)) = Inr (map json_part ps) \<and>
    (\<forall>t v rest. t \<notin> {''text'', ''file'', ''data''} \<longrightarrow>
      unmarshal_parts i (marshal_parts ps @ \<lparr>pj_Type = t, pj_Data = v\<rparr> # rest) =
        Inl (UnknownPartType t (i + length ps)))"
  using assms
proof (induction ps arbitrary: i)
  case Nil
  then show ?case by (simp add: marshal_parts_def unmarshal_part_def)
next
  case (Cons p ps)
  have "unmarshal_part i \<lparr>pj_Type = partType p, pj_Data = marshal_part_data p\<rparr> = Inr (json_part p)"
    using Cons.prems by (intro unmarshal_marshal_part) simp
  moreover have "unmarshal_part i \<lparr>pj_Type = partType (json_part p), pj_Data = marshal_part_data (json_part p)\<rparr> =
      Inr (json_part (json_part p))"
    using Cons.prems by (intro unmarshal_marshal_part) (cases p; auto)
  ultimately show ?case using Cons by (auto simp: marshal_parts_def json_part_idem)
qed

theorem parts_json_roundtrip_witness:
  "unmarshal_parts 0 (marshal_parts [TextPart ''hi'', DataPart [(''k'', AStrings [''a''])]]) =
     Inr [TextPart ''hi'', DataPart [(''k'', AList [AStr ''a''])]]"
proof -
  have "\<forall>d. DataPart d \<in> set [TextPart ''hi'', DataPart [(''k'', AStrings [''a''])]] \<longrightarrow> gowf d" by simp
  from parts_json_roundtrip [OF this, of 0] show ?thesis by (simp add: json_data_def)
qed

end
