(* ===== verification/LoopContext.thy ===== *)
theory LoopContext
  imports Loop Message
begin

text \<open>
  What travels with a review loop and what the agent of a state is told (internal/loop: context.go,
  and BuildStatePrompt of resolve.go). The texts are the bytes of the source, the dash of the
  prompts being the three bytes of its UTF-8 encoding.
\<close>

section \<open>The context of a loop (context.go)\<close>

record LoopContext =
  lc_Definition :: LoopDefinition
  lc_State :: LoopState
  lc_TaskID :: string
  lc_Conductor :: string
  lc_OriginalTask :: string
  lc_UserRequest :: string
  lc_DepParts :: "data list"
  lc_AssignedInstances :: "(string, string) gomap"
  lc_ExecutionNodes :: "(string, string) gomap"
  lc_WorkSummary :: string
  lc_WorkArtifactURI :: string
  lc_WorkArtifactFiles :: "string list"
  lc_DispatchNonce :: string
  lc_DecisionContext :: string

text \<open>A type assertion to string that yields the empty string when it fails.\<close>

definition str_field :: "data \<Rightarrow> string \<Rightarrow> string" where
  "str_field d k = (case mget d k of Some (AStr s) \<Rightarrow> s | _ \<Rightarrow> '''')"

definition truncation_note :: string where
  "truncation_note = newline @
     ''[... truncated for revision context; use artifact files for authoritative details]''"

definition revision_limit :: "data \<Rightarrow> nat" where
  "revision_limit dp =
     (if str_field dp ''context_kind'' = ''loop_feedback'' then 1800
      else if trim_space (str_field dp ''artifact_uri'') \<noteq> '''' then 320
      else 800)"

definition compactDepPart :: "data \<Rightarrow> data" where
  "compactDepPart dp =
     (let result = str_field dp ''result''; limit = revision_limit dp
      in if trim_space result = '''' then dp
         else if length result \<le> limit then dp
         else mput ''result'' (AStr (take limit result @ truncation_note)) dp)"

definition from_agent :: "string \<Rightarrow> data \<Rightarrow> bool" where
  "from_agent nextAgent dp =
     (let agent = str_field dp ''dependency_agent'' in agent \<noteq> '''' \<and> agent = nextAgent)"

definition FilterDepParts ::
  "data list \<Rightarrow> LoopDefinition \<Rightarrow> string \<Rightarrow> string \<Rightarrow> string \<Rightarrow> data list" where
  "FilterDepParts depParts def nextState verdict nextAgent =
     (if verdict = ''revise'' \<and> \<not> IsReviewState def nextState
      then map compactDepPart (filter (\<lambda>dp. \<not> from_agent nextAgent dp) depParts)
      else if IsReviewState def nextState
      then filter (\<lambda>dp. \<not> from_agent nextAgent dp) depParts
      else depParts)"

section \<open>The prompt of a state (resolve.go)\<close>

definition em_dash :: string where "em_dash = map char_of [226, 128, 148 :: nat]"
definition dquote :: string where "dquote = [char_of (34 :: nat)]"
definition squote :: string where "squote = [char_of (39 :: nat)]"
definition btick :: string where "btick = [char_of (96 :: nat)]"

definition initial_prompt :: "string \<Rightarrow> string" where
  "initial_prompt lastOutput =
     ''This is the initial work phase. Complete the task and submit your output.'' @ newline
     @ ''Optionally, include a JSON response envelope for structured metadata:'' @ newline
     @ btick @ btick @ btick @ ''json'' @ newline @ ''{'' @ dquote @ ''type'' @ dquote @ '': '' @ dquote @ ''task_result'' @ dquote @ '', '' @ dquote @ ''status'' @ dquote @ '': '' @ dquote @ ''success'' @ dquote @ '', '' @ dquote @ ''summary'' @ dquote @ '': '' @ dquote @ ''...'' @ dquote @ '', '' @ dquote @ ''artifacts'' @ dquote @ '': ['' @ dquote @ ''path/to/file'' @ dquote @ '']}'' @ newline @ btick @ btick @ btick @ newline
     @ (if lastOutput \<noteq> '''' then
     ''You are receiving context from a prior agent. Use it as input '' @ em_dash @ '' produce YOUR OWN work, do not echo or summarize it.'' @ newline
        else '''')"

definition feedback_text :: "string \<Rightarrow> string" where
  "feedback_text lastOutput =
     (if lastOutput \<noteq> '''' then
     ''The reviewer'' @ squote @ ''s most recent verdict and feedback follows. Use this as the authoritative list of required revisions.'' @ newline @ newline
     @ lastOutput @ newline @ newline
        else
     ''_No reviewer feedback was captured for this revision. Either (a) the reviewer'' @ squote @ ''s response was empty, or (b) the loop was triggered without an explicit verdict. If you cannot determine concrete revisions to apply, resubmit your previous work unchanged via end_turn and note that no actionable feedback was received '' @ em_dash @ '' do not invent issues to fix._'' @ newline @ newline)"

definition revision_prompt :: "string \<Rightarrow> string list \<Rightarrow> string" where
  "revision_prompt lastOutput workArtifactFiles =
     ''Your previous work was reviewed and needs revision.'' @ newline
     @ ''Your files from the previous iteration are still on disk in $SCRATCH_DIR.'' @ newline
     @ (if workArtifactFiles \<noteq> [] then
     ''Files you produced in the previous iteration (available in $SCRATCH_DIR):'' @ newline
     @ concat (map (\<lambda>f. ''  - '' @ f @ newline) workArtifactFiles)
     @ ''Do not waste a tool call listing these '' @ em_dash @ '' they are already known.'' @ newline
        else '''')
     @ ''Only modify files that the reviewer flagged '' @ em_dash @ '' do not regenerate unchanged files.'' @ newline
     @ ''You MUST use '' @ btick @ btick @ btick @ ''file:path'' @ btick @ btick @ btick @ '' blocks to save any modifications you make.'' @ newline
     @ newline @ ''## Iterative Loop Feedback Context'' @ newline
     @ feedback_text lastOutput
     @ ''Address the review feedback above.'' @ newline
     @ ''Do NOT search for a separate review.md file.'' @ newline
     @ ''Treat upstream dependency artifacts as source-of-truth constraints; reviewer feedback is advisory until verified.'' @ newline
     @ ''If reviewer feedback conflicts with upstream artifacts, preserve artifact fidelity and explicitly note the conflict with file references.'' @ newline
     @ ''Do not introduce new requirements that are absent from the original request and upstream dependencies.'' @ newline
     @ ''Upstream dependency artifacts have not changed since the initial work phase. Only re-read them if the reviewer questions specific values from those files.'' @ newline
     @ ''Re-read the flagged implementation files via shell to verify the reviewer'' @ squote @ ''s claims before responding.'' @ newline
     @ ''If the reviewer is correct, fix the issues. If the reviewer is wrong, cite the specific file contents that disprove their claim.'' @ newline
     @ ''Responding with '' @ dquote @ ''no changes needed'' @ dquote @ '' without re-reading files is not acceptable.'' @ newline"

definition state_verdicts :: "LoopDefinition \<Rightarrow> string \<Rightarrow> string list" where
  "state_verdicts def state =
     map tr_Condition (filter (\<lambda>t. tr_From t = state \<and> tr_Condition t \<noteq> '''') (ld_Transitions def))"

definition guideline_text :: "LoopDefinition \<Rightarrow> string \<Rightarrow> string" where
  "guideline_text def state =
     (let guidelines = ReviewGuidelinesForState def state
        in if guidelines \<noteq> '''' then
     ''Focus your review on these areas:'' @ newline
     @ guidelines @ newline
        else
     ''Check that the implementation is broadly correct:'' @ newline
     @ ''- Required features from the spec are present and functional'' @ newline
     @ ''- Layout structure matches the spec (correct component types, sections present)'' @ newline
     @ ''- No broken functionality (runtime errors, missing exports, broken imports)'' @ newline
     @ ''- Data model matches upstream specifications'' @ newline
     @ ''Do NOT flag minor cosmetic differences '' @ em_dash @ '' approve if the work is functionally sound.'' @ newline)"

definition decision_text :: "string \<Rightarrow> string" where
  "decision_text decisionContext =
     (if decisionContext \<noteq> '''' then
          newline @ decisionContext @ newline
     @ ''Verify the implementation adheres to these active project decisions.'' @ newline
        else '''')"

definition review_prompt :: "LoopDefinition \<Rightarrow> string \<Rightarrow> string \<Rightarrow> string" where
  "review_prompt def state decisionContext =
     ''Review the work below. You MUST include your verdict using one of these formats:'' @ newline @ newline
     @ ''**Option A (preferred):** Include a JSON response envelope:'' @ newline
     @ btick @ btick @ btick @ ''json'' @ newline @ ''{'' @ dquote @ ''type'' @ dquote @ '': '' @ dquote @ ''verdict'' @ dquote @ '', '' @ dquote @ ''verdict'' @ dquote @ '': '' @ dquote @ ''approved|revise'' @ dquote @ '', '' @ dquote @ ''summary'' @ dquote @ '': '' @ dquote @ ''...'' @ dquote @ '', '' @ dquote @ ''issues'' @ dquote @ '': [...]}'' @ newline @ btick @ btick @ btick @ newline
     @ ''The issues array is for structured feedback (file, line, severity, message).'' @ newline @ newline
     @ ''**Option B:** Start your response with:'' @ newline
     @ concat (map (\<lambda>v. ''  VERDICT: '' @ v @ newline) (state_verdicts def state))
     @ newline @ ''Either format is accepted. The VERDICT line or JSON envelope must appear in your response.'' @ newline @ newline
     @ ''**IMPORTANT '' @ em_dash @ '' approval bias:** Approve if the work is functionally correct and ''
     @ ''reasonably matches the spec, even if not pixel-perfect. Revision cycles are expensive. ''
     @ ''Only request revisions for issues a user would immediately notice as wrong or broken. ''
     @ ''Minor cosmetic differences (spacing, color shades, font weights) are NOT grounds for revision.'' @ newline @ newline
     @ ''Review against the artifact files provided as dependency context.'' @ newline
     @ ''Do not report '' @ squote @ ''missing implementation'' @ squote @ '' if artifact files are listed '' @ em_dash @ '' read them first.'' @ newline
     @ ''Cite specific file paths in your review feedback.'' @ newline
     @ ''Base findings on evidence from artifacts and upstream dependencies; do not invent requirements.'' @ newline
     @ ''For each major issue, cite both expected source artifact and observed implementation file.'' @ newline
     @ guideline_text def state
     @ decision_text decisionContext"

definition BuildStatePrompt ::
  "string \<Rightarrow> LoopDefinition \<Rightarrow> string \<Rightarrow> string \<Rightarrow> string \<Rightarrow> string \<Rightarrow> string list \<Rightarrow> string" where
  "BuildStatePrompt taskDesc def state lastVerdict lastOutput decisionContext workArtifactFiles =
     taskDesc @ newline @ newline
     @ ''## Loop Context'' @ newline @ ''You are in state '' @ state @ '' of review loop ''
     @ quote (ld_ID def) @ ''.'' @ newline
     @ (if state = ld_InitialState def then initial_prompt lastOutput
        else if lastVerdict = ''revise'' then revision_prompt lastOutput workArtifactFiles
        else if state_verdicts def state \<noteq> [] then review_prompt def state decisionContext
        else '''')"

section \<open>Facts\<close>

lemma contains_here: "contains (p @ b) p"
  by (auto simp: contains_iff)

lemma contains_self: "contains p p"
  using contains_here [of p "[]"] by simp

lemma IsReviewState_verdicts: "IsReviewState def s \<longleftrightarrow> state_verdicts def s \<noteq> []"
  by (auto simp: IsReviewState_def state_verdicts_def filter_empty_conv)

lemma contains_concat:
  assumes "x \<in> set xs"
  shows "contains (concat (map f xs)) (f x)"
proof -
  from assms obtain us vs where "xs = us @ x # vs" by (meson split_list)
  then show ?thesis by (auto simp: contains_iff)
qed

lemma contains_trans: "contains a b \<Longrightarrow> contains b c \<Longrightarrow> contains a c"
  by (auto simp: contains_iff) (metis append.assoc)

lemma review_prompt_verdict:
  assumes "v \<in> set (state_verdicts def state)"
  shows "contains (review_prompt def state dec) (''  VERDICT: '' @ v @ newline)"
proof -
  let ?c = "concat (map (\<lambda>v. ''  VERDICT: '' @ v @ newline) (state_verdicts def state))"
  have "contains (review_prompt def state dec) ?c"
    unfolding review_prompt_def by (rule contains_here | rule contains_append_right)+
  moreover have "contains ?c (''  VERDICT: '' @ v @ newline)" using assms by (rule contains_concat)
  ultimately show ?thesis by (rule contains_trans)
qed

lemma review_prompt_decisions:
  assumes "dec \<noteq> ''''"
  shows "contains (review_prompt def state dec) dec"
proof -
  have "contains (review_prompt def state dec) (decision_text dec)"
    unfolding review_prompt_def by (rule contains_self | rule contains_append_right)+
  moreover have "contains (decision_text dec) dec"
    unfolding decision_text_def if_P [OF assms] by (rule contains_here | rule contains_append_right)+
  ultimately show ?thesis by (rule contains_trans)
qed

lemma review_prompt_guidelines:
  assumes "ReviewGuidelinesForState def state \<noteq> ''''"
  shows "contains (review_prompt def state dec) (ReviewGuidelinesForState def state)"
proof -
  have "contains (review_prompt def state dec) (guideline_text def state)"
    unfolding review_prompt_def by (rule contains_here | rule contains_append_right)+
  moreover have "contains (guideline_text def state) (ReviewGuidelinesForState def state)"
    unfolding guideline_text_def Let_def if_P [OF assms]
    by (rule contains_here | rule contains_append_right)+
  ultimately show ?thesis by (rule contains_trans)
qed

lemma revision_prompt_feedback:
  assumes "fb \<noteq> ''''"
  shows "contains (revision_prompt fb files) fb"
proof -
  have "contains (revision_prompt fb files) (feedback_text fb)"
    unfolding revision_prompt_def by (rule contains_here | rule contains_append_right)+
  moreover have "contains (feedback_text fb) fb"
    unfolding feedback_text_def if_P [OF assms] by (rule contains_here | rule contains_append_right)+
  ultimately show ?thesis by (rule contains_trans)
qed

section \<open>Properties\<close>

text \<open>
  What the agent of a state is told. A prompt contains the task. Outside the initial state, a
  revision prompt contains the feedback of the reviewer, and a prompt of a review state that does
  not follow a verdict to revise contains the line of every verdict the state can act on, the
  review guidelines of the state and the active decisions.
\<close>

theorem state_prompt_complete:
  shows "contains (BuildStatePrompt task def state verdict out dec files) task \<and>
    (state \<noteq> ld_InitialState def \<and> verdict = ''revise'' \<and> out \<noteq> '''' \<longrightarrow>
      contains (BuildStatePrompt task def state verdict out dec files) out) \<and>
    (state \<noteq> ld_InitialState def \<and> verdict \<noteq> ''revise'' \<and> IsReviewState def state \<longrightarrow>
      (\<forall>t \<in> set (ld_Transitions def). tr_From t = state \<and> tr_Condition t \<noteq> '''' \<longrightarrow>
        contains (BuildStatePrompt task def state verdict out dec files)
          (''  VERDICT: '' @ tr_Condition t @ newline)) \<and>
      (ReviewGuidelinesForState def state \<noteq> '''' \<longrightarrow>
        contains (BuildStatePrompt task def state verdict out dec files) (ReviewGuidelinesForState def state)) \<and>
      (dec \<noteq> '''' \<longrightarrow> contains (BuildStatePrompt task def state verdict out dec files) dec))"
proof (intro conjI impI)
  let ?p = "BuildStatePrompt task def state verdict out dec files"
  show "contains ?p task" unfolding BuildStatePrompt_def by (rule contains_here)
  have body: "contains ?p (if state = ld_InitialState def then initial_prompt out
      else if verdict = ''revise'' then revision_prompt out files
      else if state_verdicts def state \<noteq> [] then review_prompt def state dec else '''')"
    unfolding BuildStatePrompt_def by (rule contains_self | rule contains_append_right)+
  {
    assume "state \<noteq> ld_InitialState def \<and> verdict = ''revise'' \<and> out \<noteq> ''''"
    with body revision_prompt_feedback [of out files] show "contains ?p out"
      by (auto intro: contains_trans)
  }
  assume r: "state \<noteq> ld_InitialState def \<and> verdict \<noteq> ''revise'' \<and> IsReviewState def state"
  with body have body: "contains ?p (review_prompt def state dec)"
    by (simp add: IsReviewState_verdicts)
  show "\<forall>t \<in> set (ld_Transitions def). tr_From t = state \<and> tr_Condition t \<noteq> '''' \<longrightarrow>
      contains ?p (''  VERDICT: '' @ tr_Condition t @ newline)"
    by (intro ballI impI contains_trans [OF body] review_prompt_verdict) (auto simp: state_verdicts_def)
  show "contains ?p (ReviewGuidelinesForState def state)" if "ReviewGuidelinesForState def state \<noteq> ''''"
    by (rule contains_trans [OF body review_prompt_guidelines [OF that]])
  show "contains ?p dec" if "dec \<noteq> ''''"
    by (rule contains_trans [OF body review_prompt_decisions [OF that]])
qed

theorem state_prompt_complete_witness:
  "contains (BuildStatePrompt ''Build it'' demo_loop ''REVIEWING'' '''' ''done'' ''use sqlite'' [])
     ''use sqlite'' \<and>
   contains (BuildStatePrompt ''Build it'' demo_loop ''REVIEWING'' '''' ''done'' ''use sqlite'' [])
     (''  VERDICT: '' @ ''revise'' @ newline)"
proof -
  have r: "''REVIEWING'' \<noteq> ld_InitialState demo_loop \<and> '''' \<noteq> ''revise'' \<and> IsReviewState demo_loop ''REVIEWING''"
    by (simp add: demo_loop_def IsReviewState_def)
  have t: "\<exists>t \<in> set (ld_Transitions demo_loop). tr_From t = ''REVIEWING'' \<and> tr_Condition t = ''revise''"
    by (simp add: demo_loop_def)
  note p = state_prompt_complete [of "''Build it''" demo_loop "''REVIEWING''" "''''" "''done''"
      "''use sqlite''" "[]", THEN conjunct2, THEN conjunct2, rule_format, OF r]
  from t obtain t where "t \<in> set (ld_Transitions demo_loop)" "tr_From t = ''REVIEWING''"
    "tr_Condition t = ''revise''" by blast
  with p show ?thesis by fastforce
qed

end
