(* ===== verification/Verdict.thy ===== *)
theory Verdict
  imports LoopContext Artifact
begin

text \<open>
  How an agent reads a model's answer in a review loop (internal/agent: the verdict, evidence and
  merging functions of agent.go, envelope.go, and the extraction of a JSON object from prose in
  internal/structuredoutput/validate.go). The JSON decoder of the standard library is a parameter:
  \<open>valid\<close> is \<open>json.Valid\<close>, \<open>decode\<close> is \<open>json.Unmarshal\<close> into the envelope.
\<close>

section \<open>Extracting a JSON object (validate.go)\<close>

definition brace_open :: char where "brace_open = char_of (123 :: nat)"
definition brace_close :: char where "brace_close = char_of (125 :: nat)"
definition bracket_open :: char where "bracket_open = char_of (91 :: nat)"
definition backslash :: char where "backslash = char_of (92 :: nat)"
definition quote_mark :: char where "quote_mark = char_of (34 :: nat)"

text \<open>The scan from the first brace: the characters up to the one that closes it.\<close>

fun scan_object :: "int \<Rightarrow> bool \<Rightarrow> bool \<Rightarrow> string \<Rightarrow> string" where
  "scan_object depth inString escaped [] = []"
| "scan_object depth inString escaped (c # s) =
     (if escaped then c # scan_object depth inString False s
      else if c = backslash \<and> inString then c # scan_object depth inString True s
      else if c = quote_mark then c # scan_object depth (\<not> inString) False s
      else if inString then c # scan_object depth inString False s
      else if c = brace_open then c # scan_object (depth + 1) inString False s
      else if c = brace_close then
        (if depth - 1 = 0 then [c] else c # scan_object (depth - 1) inString False s)
      else c # scan_object depth inString False s)"

definition extractJSONObject :: "string \<Rightarrow> string" where
  "extractJSONObject s = scan_object 0 False False (dropWhile (\<lambda>c. c \<noteq> brace_open) s)"

definition ExtractJSONFromContent :: "(string \<Rightarrow> bool) \<Rightarrow> string \<Rightarrow> string option" where
  "ExtractJSONFromContent valid content =
     (let s = trim_space content
      in if s = '''' then None
         else if valid s \<and> (hd s = brace_open \<or> hd s = bracket_open) then Some s
         else
           (let extracted = extractJSONObject s
            in if extracted = '''' then None
               else if \<not> valid extracted then None else Some extracted))"

section \<open>The response envelope (envelope.go)\<close>

text \<open>The fields of an envelope that decide a verdict.\<close>

record ResponseEnvelope =
  re_Type :: string
  re_Verdict :: string

definition extractEnvelope ::
  "(string \<Rightarrow> bool) \<Rightarrow> (string \<Rightarrow> ResponseEnvelope option) \<Rightarrow> string \<Rightarrow> ResponseEnvelope option" where
  "extractEnvelope valid decode content =
     (case ExtractJSONFromContent valid content of
        None \<Rightarrow> None
      | Some raw \<Rightarrow>
          (case decode raw of
             None \<Rightarrow> None
           | Some env \<Rightarrow> if re_Type env = '''' then None else Some env))"

section \<open>The verdict of a review\<close>

definition line_verdict :: "string \<Rightarrow> string option" where
  "line_verdict line =
     (let line = trim_space line
      in if has_prefix (to_lower line) ''verdict:'' then
           (let v = to_lower (trim_space (drop 8 line))
            in if has_prefix v ''approved'' then Some ''approved''
               else if has_prefix v ''revise'' then Some ''revise'' else None)
         else None)"

definition approveSignals :: "string list" where
  "approveSignals = [''approved'', ''approve'', ''looks good'', ''lgtm'', ''well done'',
     ''passes review'', ''no issues'', ''ready for'', ''all good'']"

definition reviseSignals :: "string list" where
  "reviseSignals = [''needs revision'', ''needs revising'', ''needs work'', ''must fix'',
     ''please fix'', ''please revise'', ''send back for revision'', ''not ready'', ''critical issues'']"

fun first_some :: "('a \<Rightarrow> 'b option) \<Rightarrow> 'a list \<Rightarrow> 'b option" where
  "first_some f [] = None"
| "first_some f (x # xs) = (case f x of Some y \<Rightarrow> Some y | None \<Rightarrow> first_some f xs)"

definition extractVerdict :: "string \<Rightarrow> string" where
  "extractVerdict content =
     (case first_some line_verdict (split_on (char_of (10 :: nat)) content) of
        Some v \<Rightarrow> v
      | None \<Rightarrow>
          (let lower = to_lower content
           in if \<exists>sig \<in> set approveSignals. contains lower sig then ''approved''
              else if \<exists>sig \<in> set reviseSignals. contains lower sig then ''revise''
              else ''''))"

definition extractVerdictFromEnvelope ::
  "(string \<Rightarrow> bool) \<Rightarrow> (string \<Rightarrow> ResponseEnvelope option) \<Rightarrow> string \<Rightarrow> string" where
  "extractVerdictFromEnvelope valid decode content =
     (case extractEnvelope valid decode content of
        Some env \<Rightarrow>
          (let v = to_lower (re_Verdict env)
           in if re_Verdict env \<noteq> '''' \<and> (v = ''approved'' \<or> v = ''revise'') then v
              else extractVerdict content)
      | None \<Rightarrow> extractVerdict content)"

section \<open>Feedback and evidence\<close>

definition parseSummary :: "string \<Rightarrow> string" where
  "parseSummary content =
     (let summary = snd (ParseFileBlocks content) in if summary \<noteq> '''' then summary else content)"

definition reviewFeedbackSummary :: "string \<Rightarrow> string \<Rightarrow> string" where
  "reviewFeedbackSummary summary verdict =
     (let s = trim_space summary
      in if s = '''' then (if verdict = '''' then '''' else ''VERDICT: '' @ verdict)
         else
           (let s' =
              (case index_of (to_lower s) ''verdict:'' of
                 Some idx \<Rightarrow> trim_space (drop idx s)
               | None \<Rightarrow> if verdict \<noteq> '''' then ''VERDICT: '' @ verdict @ newline @ newline @ s else s)
            in if length s' > 5000 then take 5000 s' @ newline @ ''[... truncated feedback]'' else s'))"

definition toStringSlice :: "any option \<Rightarrow> string list" where
  "toStringSlice v =
     (case v of
        Some (AStrings ss) \<Rightarrow> ss
      | Some (AList vs) \<Rightarrow> concat (map (\<lambda>x. case x of AStr s \<Rightarrow> [s] | _ \<Rightarrow> []) vs)
      | _ \<Rightarrow> [])"

fun dedupe :: "string list \<Rightarrow> string list \<Rightarrow> string list" where
  "dedupe seen [] = []"
| "dedupe seen (s # ss) =
     (let s = trim_space s
      in if s = '''' \<or> s \<in> set seen then dedupe seen ss else s # dedupe (s # seen) ss)"

definition dedupeNonEmpty :: "string list \<Rightarrow> string list" where
  "dedupeNonEmpty xs = dedupe [] xs"

definition collectDepArtifactFiles :: "data list \<Rightarrow> string list" where
  "collectDepArtifactFiles depParts =
     dedupeNonEmpty
       (filter (\<lambda>f. f \<noteq> '''')
         (map trim_space (concat (map (\<lambda>dp. toStringSlice (mget dp ''artifact_files'')) depParts))))"

text \<open>\<open>filepath.Base\<close> on Unix.\<close>

definition path_base :: "string \<Rightarrow> string" where
  "path_base p =
     (if p = '''' then ''.''
      else
        (let q = rev (dropWhile (\<lambda>c. c = slash) (rev p))
         in if q = '''' then ''/'' else last (split_on slash q)))"

definition containsAnyFileRef :: "string \<Rightarrow> string list \<Rightarrow> bool" where
  "containsAnyFileRef summaryLower files =
     (\<exists>f \<in> set files.
        (let f = trim_space f; full = to_lower f; base = to_lower (path_base f)
         in f \<noteq> '''' \<and>
            (full \<noteq> '''' \<and> contains summaryLower full \<or>
             base \<noteq> '''' \<and> base \<noteq> full \<and> contains summaryLower base)))"

definition reviewHasFileEvidence :: "string \<Rightarrow> string list \<Rightarrow> string list \<Rightarrow> bool" where
  "reviewHasFileEvidence summary upstreamFiles workFiles =
     (let s = to_lower summary
      in if trim_space s = '''' then False
         else containsAnyFileRef s upstreamFiles \<and> containsAnyFileRef s workFiles)"

definition evidence_feedback :: "string list \<Rightarrow> string list \<Rightarrow> string" where
  "evidence_feedback upstreamFiles workFiles =
     ''VERDICT: revise'' @ newline @ newline
     @ ''Approval lacks file-level evidence. Re-review against upstream artifacts and implementation files, then cite concrete file paths.'' @ newline
     @ ''Expected upstream files: '' @ join '', '' (take 4 upstreamFiles) @ newline
     @ ''Observed implementation files: '' @ join '', '' (take 4 workFiles) @ newline
     @ ''Only approve after confirming fidelity with explicit file references.''"

definition requireReviewEvidenceForApproval :: "string \<Rightarrow> LoopContext \<Rightarrow> string option" where
  "requireReviewEvidenceForApproval summary lc =
     (let upstreamFiles = collectDepArtifactFiles (lc_DepParts lc);
          workFiles = dedupeNonEmpty (lc_WorkArtifactFiles lc)
      in if upstreamFiles = [] \<or> workFiles = [] then None
         else if reviewHasFileEvidence summary upstreamFiles workFiles then None
         else Some (evidence_feedback upstreamFiles workFiles))"

section \<open>Merging the work of several iterations\<close>

definition merge_anchor :: string where
  "merge_anchor = newline @ newline @ ''## Revision Update'' @ newline"

definition mergeWorkSummary :: "string \<Rightarrow> string \<Rightarrow> string" where
  "mergeWorkSummary existing0 latest0 =
     (let existing = trim_space existing0; latest = trim_space latest0
      in if existing = '''' then latest
         else if latest = '''' then existing
         else if contains existing latest then existing
         else if contains latest existing then latest
         else
           (let merged = existing @ merge_anchor @ latest
            in if length merged \<le> 12000 then merged
               else
                 (let keepTail = max 300 (12000 - int (length existing) - 32);
                      tail =
                        (if int (length latest) > keepTail then drop (length latest - nat keepTail) latest
                         else latest)
                  in existing @ merge_anchor @ ''[... truncated older details]'' @ newline @ tail)))"

fun add_unseen :: "string list \<Rightarrow> string list \<Rightarrow> string list" where
  "add_unseen acc [] = acc"
| "add_unseen acc (f # fs) = (if f \<in> set acc then add_unseen acc fs else add_unseen (acc @ [f]) fs)"

definition mergeArtifactFiles :: "string list \<Rightarrow> string list \<Rightarrow> string list" where
  "mergeArtifactFiles existing latest = (if existing = [] then latest else add_unseen existing latest)"

text \<open>\<open>filepath.Ext\<close>: from the last dot after the last slash.\<close>

definition path_ext :: "string \<Rightarrow> string" where
  "path_ext p =
     (let name = last (split_on slash p); suffix = takeWhile (\<lambda>c. c \<noteq> CHR ''.'') (rev name)
      in if CHR ''.'' \<in> set name then CHR ''.'' # rev suffix else '''')"

definition mime_table :: "(string \<times> string) list" where
  "mime_table = [(''.go'', ''text/x-go''), (''.md'', ''text/markdown''), (''.json'', ''application/json''),
     (''.yaml'', ''text/yaml''), (''.yml'', ''text/yaml''), (''.js'', ''text/javascript''),
     (''.ts'', ''text/typescript''), (''.py'', ''text/x-python''), (''.html'', ''text/html''),
     (''.htm'', ''text/html''), (''.css'', ''text/css''), (''.png'', ''image/png'')]"

definition mimeForPath :: "string \<Rightarrow> string" where
  "mimeForPath path =
     (case map_of mime_table (to_lower (path_ext path)) of Some m \<Rightarrow> m | None \<Rightarrow> ''text/plain'')"

end
