(* ===== verification/VerdictProps.thy ===== *)
theory VerdictProps
  imports Verdict
begin

text \<open>
  What the reading of a model's answer guarantees: the extraction of a JSON object from prose, the
  explicit verdict line, and the merging of summaries and files across revisions.
\<close>

section \<open>Writing JSON\<close>

text \<open>A JSON text of a value, with the escapes that matter to the scanner.\<close>

fun digits :: "nat \<Rightarrow> string" where
  "digits n = (if n < 10 then [char_of (48 + n)] else digits (n div 10) @ [char_of (48 + n mod 10)])"

declare digits.simps [simp del]

definition json_int :: "int \<Rightarrow> string" where
  "json_int n = (if n < 0 then CHR ''-'' # digits (nat (- n)) else digits (nat n))"

definition json_char :: "char \<Rightarrow> string" where
  "json_char c = (if c = quote_mark \<or> c = backslash then [backslash, c] else [c])"

definition json_str :: "string \<Rightarrow> string" where
  "json_str s = [quote_mark] @ concat (map json_char s) @ [quote_mark]"

fun json_text :: "any \<Rightarrow> string" where
  "json_text ANil = ''null''"
| "json_text (ABool b) = (if b then ''true'' else ''false'')"
| "json_text (ANum n) = json_int n"
| "json_text (AStr s) = json_str s"
| "json_text (AStrings ss) = ''['' @ join '','' (map json_str ss) @ '']''"
| "json_text (AList vs) = ''['' @ join '','' (map json_text vs) @ '']''"
| "json_text (AMap m) = [brace_open] @ join '','' (map (\<lambda>(k, v). json_str k @ '':'' @ json_text v) m) @ [brace_close]"

section \<open>The scanner passes over complete values\<close>

definition passes :: "string \<Rightarrow> bool" where
  "passes x \<longleftrightarrow> (\<forall>d s. 1 \<le> d \<longrightarrow> scan_object d False False (x @ s) = x @ scan_object d False False s)"

definition plain :: "char \<Rightarrow> bool" where
  "plain c \<longleftrightarrow> c \<noteq> quote_mark \<and> c \<noteq> brace_open \<and> c \<noteq> brace_close"

lemma passes_Nil [simp]: "passes []"
  by (simp add: passes_def)

lemma passes_append: "passes x \<Longrightarrow> passes y \<Longrightarrow> passes (x @ y)"
  by (simp add: passes_def)

lemma passes_plain: "list_all plain x \<Longrightarrow> passes x"
proof (induction x)
  case (Cons c x)
  then show ?case by (simp add: passes_def plain_def)
qed simp

lemma passes_join: "passes sep \<Longrightarrow> (\<forall>x \<in> set xs. passes x) \<Longrightarrow> passes (join sep xs)"
  by (induction sep xs rule: join.induct) (simp_all add: passes_append)

lemma special_chars [simp]:
  "quote_mark \<noteq> backslash" "backslash \<noteq> quote_mark" "brace_open \<noteq> quote_mark" "brace_close \<noteq> quote_mark"
  "brace_open \<noteq> backslash" "brace_close \<noteq> backslash" "brace_open \<noteq> brace_close" "brace_close \<noteq> brace_open"
  "quote_mark \<noteq> brace_open" "quote_mark \<noteq> brace_close"
  by code_simp+

lemma scan_string_body:
  "scan_object d True False (concat (map json_char s) @ quote_mark # t) =
     concat (map json_char s) @ quote_mark # scan_object d False False t"
  by (induction s) (simp_all add: json_char_def)

lemma passes_json_str: "passes (json_str s)"
  by (simp add: passes_def json_str_def scan_string_body)

lemma digits_plain: "list_all plain (digits n)"
proof (induction n rule: digits.induct)
  case (1 n)
  have "list_all plain [char_of (48 + m)]" if "m < 10" for m :: nat
  proof -
    have "list_all (\<lambda>m. plain (char_of (48 + m))) [0 ..< 10 :: nat]" by code_simp
    with that show ?thesis by (auto simp: list_all_iff)
  qed
  with 1 show ?case by (subst digits.simps) simp
qed

lemma passes_braces:
  assumes "passes x"
  shows "passes ([brace_open] @ x @ [brace_close])"
  unfolding passes_def
proof (intro allI impI)
  fix d :: int and s assume "1 \<le> d"
  then have "scan_object (d + 1) False False (x @ [brace_close] @ s) =
      x @ scan_object (d + 1) False False ([brace_close] @ s)"
    using assms by (simp add: passes_def)
  with \<open>1 \<le> d\<close> show "scan_object d False False (([brace_open] @ x @ [brace_close]) @ s) =
      ([brace_open] @ x @ [brace_close]) @ scan_object d False False s"
    by simp
qed

lemma passes_members:
  assumes "\<And>k v. (k, v) \<in> set m \<Longrightarrow> passes (f v)"
  shows "passes (join '','' (map (\<lambda>(k, v). json_str k @ '':'' @ f v) m))"
proof -
  have sep: "passes '',''" "passes '':''" by (rule passes_plain, code_simp)+
  have "passes (json_str k @ '':'' @ f v)" if "(k, v) \<in> set m" for k v
    by (intro passes_append passes_json_str sep(2) assms [OF that])
  with sep(1) show ?thesis by (intro passes_join) auto
qed

lemma passes_json_text: "passes (json_text v)"
proof (induction v)
  case (ANum n)
  have "plain (CHR ''-'')" by code_simp
  then show ?case by (auto simp: json_int_def digits_plain intro!: passes_plain)
next
  case (AList vs)
  have "passes ''[''" "passes '']''" "passes '',''" by (rule passes_plain, code_simp)+
  with AList show ?case unfolding json_text.simps
    by (intro passes_append passes_join) auto
next
  case (AStrings ss)
  have "passes ''[''" "passes '']''" "passes '',''" by (rule passes_plain, code_simp)+
  then show ?case unfolding json_text.simps
    by (intro passes_append passes_join) (auto simp: passes_json_str)
next
  case (AMap m)
  then show ?case unfolding json_text.simps
    by (intro passes_braces passes_members) auto
qed (auto simp: passes_json_str intro!: passes_plain, code_simp+)

lemma scan_top_object:
  assumes "passes x"
  shows "scan_object 0 False False ([brace_open] @ x @ [brace_close] @ s) = [brace_open] @ x @ [brace_close]"
proof -
  have "scan_object 1 False False (x @ [brace_close] @ s) = x @ scan_object 1 False False ([brace_close] @ s)"
    using assms by (simp add: passes_def)
  then show ?thesis by simp
qed

section \<open>Properties\<close>

text \<open>
  The object is found in prose. For every JSON object, with any nesting and any strings,
  escaped quotes and braces inside strings included, \<open>extractJSONObject\<close> finds exactly its text in an
  answer that has no brace before it, whatever follows it.
\<close>

theorem extract_object_exact:
  assumes "brace_open \<notin> set prose"
  shows "extractJSONObject (prose @ json_text (AMap m) @ rest) = json_text (AMap m)"
proof -
  let ?x = "join '','' (map (\<lambda>(k, v). json_str k @ '':'' @ json_text v) m)"
  have "passes ?x" by (intro passes_members passes_json_text)
  then have "scan_object 0 False False ([brace_open] @ ?x @ [brace_close] @ rest) = [brace_open] @ ?x @ [brace_close]"
    by (rule scan_top_object)
  moreover have "dropWhile (\<lambda>c. c \<noteq> brace_open) (prose @ json_text (AMap m) @ rest) =
      [brace_open] @ ?x @ [brace_close] @ rest"
    using assms by (subst dropWhile_append2) auto
  ultimately show ?thesis by (simp add: extractJSONObject_def)
qed

theorem extract_object_exact_witness:
  "extractJSONObject (''Sure: '' @ json_text (AMap [(''summary'', AStr [brace_close, quote_mark])]) @ '' done'') =
     json_text (AMap [(''summary'', AStr [brace_close, quote_mark])])"
proof (rule extract_object_exact)
  show "brace_open \<notin> set ''Sure: ''" by code_simp
qed

text \<open>
  How a verdict is read. The verdict is approved, revise or missing. A line that starts with
  the word verdict and a colon and continues with approved or revise decides, the first such line if
  there are several, in any letter case; without one, any mention of approval decides for approved,
  before revision language is looked for, even one that is negated.
\<close>

theorem verdict_reading:
  shows "extractVerdict content \<in> {'''', ''approved'', ''revise''} \<and>
    (\<forall>us l vs v. split_on (char_of (10 :: nat)) content = us @ l # vs \<longrightarrow>
       (\<forall>u \<in> set us. line_verdict u = None) \<longrightarrow> line_verdict l = Some v \<longrightarrow> extractVerdict content = v) \<and>
    ((\<forall>l \<in> set (split_on (char_of (10 :: nat)) content). line_verdict l = None) \<longrightarrow>
       contains (to_lower content) ''approve'' \<longrightarrow> extractVerdict content = ''approved'')"
proof (intro conjI allI impI)
  have lv: "line_verdict l = Some v \<Longrightarrow> v \<in> {''approved'', ''revise''}" for l v
    by (auto simp: line_verdict_def Let_def split: if_splits)
  have first: "first_some f xs = Some y \<Longrightarrow> \<exists>x \<in> set xs. f x = Some y" for f :: "string \<Rightarrow> string option" and xs y
    by (induction xs) (auto split: option.splits)
  show "extractVerdict content \<in> {'''', ''approved'', ''revise''}"
  proof (cases "first_some line_verdict (split_on (char_of (10 :: nat)) content)")
    case (Some v)
    from first [OF Some] lv have "v \<in> {''approved'', ''revise''}" by blast
    with Some show ?thesis by (simp add: extractVerdict_def)
  qed (simp add: extractVerdict_def Let_def)
next
  fix us l vs v
  assume "split_on (char_of (10 :: nat)) content = us @ l # vs" "\<forall>u \<in> set us. line_verdict u = None"
    "line_verdict l = Some v"
  moreover have "first_some f (us @ l # vs) = Some y" if "\<forall>u \<in> set us. f u = None" "f l = Some y"
    for f :: "string \<Rightarrow> string option" and y
    using that by (induction us) auto
  ultimately show "extractVerdict content = v" by (simp add: extractVerdict_def)
next
  assume none: "\<forall>l \<in> set (split_on (char_of (10 :: nat)) content). line_verdict l = None"
    and approve: "contains (to_lower content) ''approve''"
  have "first_some line_verdict xs = None" if "\<forall>l \<in> set xs. line_verdict l = None" for xs
    using that by (induction xs) auto
  with none approve show "extractVerdict content = ''approved''"
    by (simp add: extractVerdict_def approveSignals_def)
qed

theorem verdict_reading_witness:
  "extractVerdict ''This is not approved and not ready.'' = ''approved'' \<and>
   extractVerdict (''I cannot approve.'' @ newline @ ''Verdict: Revise the parser'') = ''revise''"
proof
  have "\<forall>l \<in> set (split_on (char_of (10 :: nat)) ''This is not approved and not ready.''). line_verdict l = None"
    "contains (to_lower ''This is not approved and not ready.'') ''approve''" by code_simp+
  with verdict_reading [of "''This is not approved and not ready.''"]
  show "extractVerdict ''This is not approved and not ready.'' = ''approved''" by blast
  have "split_on (char_of (10 :: nat)) (''I cannot approve.'' @ newline @ ''Verdict: Revise the parser'') =
      [''I cannot approve.''] @ ''Verdict: Revise the parser'' # []" by code_simp
  moreover have "\<forall>u \<in> set [''I cannot approve.'']. line_verdict u = None"
    "line_verdict ''Verdict: Revise the parser'' = Some ''revise''" by code_simp+
  ultimately show "extractVerdict (''I cannot approve.'' @ newline @ ''Verdict: Revise the parser'') = ''revise''"
    using verdict_reading [of "''I cannot approve.'' @ newline @ ''Verdict: Revise the parser''"] by blast
qed

lemma add_unseen_spec:
  "\<exists>new. add_unseen acc fs = acc @ new \<and> set (acc @ new) = set acc \<union> set fs \<and>
     (distinct acc \<longrightarrow> distinct (acc @ new))"
proof (induction fs arbitrary: acc)
  case (Cons f fs)
  show ?case
  proof (cases "f \<in> set acc")
    case True
    with Cons [of acc] show ?thesis by auto
  next
    case False
    with Cons [of "acc @ [f]"] show ?thesis by auto
  qed
qed simp

definition merges_default :: "string \<Rightarrow> string \<Rightarrow> bool" where
  "merges_default existing latest \<longleftrightarrow> existing \<noteq> '''' \<and> latest \<noteq> '''' \<and>
     \<not> contains existing latest \<and> \<not> contains latest existing"

lemma merge_lengths: "length merge_anchor = 21" "length (''[... truncated older details]'' @ newline) = 30"
  by (simp_all add: merge_anchor_def newline_def)

lemma mergeWorkSummary_length:
  assumes "trim_space existing = existing" and "trim_space latest = latest" and "merges_default existing latest"
  shows "int (length (mergeWorkSummary existing latest)) =
    (if length existing + 21 + length latest \<le> 12000 then int (length existing + 21 + length latest)
     else int (length existing) + 51 + min (int (length latest)) (max 300 (11968 - int (length existing))))"
  using assms merge_lengths
  by (auto simp: mergeWorkSummary_def merges_default_def Let_def min_def max_def)

text \<open>
  The history of the work is kept across revisions, and how far the cap on summaries goes.
  Merging artifact files keeps those of before, in order, as a prefix, and adds the new ones. A merged
  summary of two texts neither of which contains the other is at most 12019 characters long while the
  earlier one has at most 11668, and grows by up to 351 with every merge beyond that: the cap of
  12000 that the code states is exceeded.
\<close>

theorem merge_keeps_history:
  shows "(\<exists>new. mergeArtifactFiles existing latest = existing @ new \<and>
      set (mergeArtifactFiles existing latest) = set existing \<union> set latest) \<and>
    (trim_space s = s \<and> trim_space t = t \<and> merges_default s t \<longrightarrow>
      (length s \<le> 11668 \<longrightarrow> length (mergeWorkSummary s t) \<le> 12019) \<and>
      (length s > 11668 \<and> length t \<ge> 12000 \<longrightarrow> length (mergeWorkSummary s t) = length s + 351) \<and>
      (length s = 6000 \<and> length t = 7000 \<longrightarrow> length (mergeWorkSummary s t) = 12019))"
proof (intro conjI impI)
  show "\<exists>new. mergeArtifactFiles existing latest = existing @ new \<and>
      set (mergeArtifactFiles existing latest) = set existing \<union> set latest"
  proof (cases "existing = []")
    case False
    obtain new where "add_unseen existing latest = existing @ new" "set (existing @ new) = set existing \<union> set latest"
      using add_unseen_spec [of existing latest] by blast
    with False show ?thesis by (intro exI [of _ new]) (simp add: mergeArtifactFiles_def)
  qed (simp add: mergeArtifactFiles_def)
  assume "trim_space s = s \<and> trim_space t = t \<and> merges_default s t"
  then have len: "int (length (mergeWorkSummary s t)) =
    (if length s + 21 + length t \<le> 12000 then int (length s + 21 + length t)
     else int (length s) + 51 + min (int (length t)) (max 300 (11968 - int (length s))))"
    using mergeWorkSummary_length by blast
  { assume "length s \<le> 11668" with len show "length (mergeWorkSummary s t) \<le> 12019"
      by (auto simp: min_def max_def split: if_splits) }
  { assume "length s > 11668 \<and> length t \<ge> 12000" with len show "length (mergeWorkSummary s t) = length s + 351"
      by (auto simp: min_def max_def split: if_splits) }
  { assume "length s = 6000 \<and> length t = 7000" with len show "length (mergeWorkSummary s t) = 12019" by simp }
qed

lemma replicate_not_contained:
  assumes "a \<noteq> b" and "0 < m"
  shows "\<not> contains (replicate n a) (replicate m b)"
proof
  assume "contains (replicate n a) (replicate m b)"
  then obtain us vs where "replicate n a = us @ replicate m b @ vs" by (auto simp: contains_iff)
  moreover have "b \<in> set (us @ replicate m b @ vs)" using assms(2) by simp
  ultimately have "b \<in> set (replicate n a)" by simp
  with assms(1) show False by simp
qed

theorem merge_keeps_history_witness:
  "\<exists>s t. length s = 6000 \<and> length t = 7000 \<and> length (mergeWorkSummary s t) = 12019"
proof -
  have "\<exists>s t. length s = n \<and> length t = m \<and> trim_space s = s \<and> trim_space t = t \<and> merges_default s t"
    if "0 < n" "0 < m" for n m
  proof (intro exI conjI)
    have "\<not> is_space (CHR ''a'')" "\<not> is_space (CHR ''b'')" by code_simp+
    then show "trim_space (replicate n CHR ''a'') = replicate n CHR ''a''"
      "trim_space (replicate m CHR ''b'') = replicate m CHR ''b''"
      using that by (simp_all add: trim_space_idem)
    show "merges_default (replicate n CHR ''a'') (replicate m CHR ''b'')"
      using that by (simp add: merges_default_def replicate_not_contained)
  qed simp_all
  from this [of 6000 7000] obtain s t where "length s = 6000" "length t = 7000"
    "trim_space s = s \<and> trim_space t = t \<and> merges_default s t" by auto
  with merge_keeps_history [of "[]" "[]" s t] show ?thesis by blast
qed

end
