(* ===== verification/Circuit.thy ===== *)
theory Circuit
  imports Prelude
begin

text \<open>
  The circuit breaker of an agent (internal/agent/circuit.go): it trips after a number of errors
  without a success in between, and stays tripped.
\<close>

record CircuitBreaker =
  cb_threshold :: int
  cb_count :: int
  cb_tripped :: bool

definition NewCircuitBreaker :: "int \<Rightarrow> CircuitBreaker" where
  "NewCircuitBreaker threshold =
     \<lparr>cb_threshold = (if threshold \<le> 0 then 3 else threshold), cb_count = 0, cb_tripped = False\<rparr>"

definition RecordSuccess :: "CircuitBreaker \<Rightarrow> CircuitBreaker" where
  "RecordSuccess cb = cb\<lparr>cb_count := 0\<rparr>"

text \<open>The result is the count in the error message, \<open>None\<close> the nil error.\<close>

definition RecordError :: "CircuitBreaker \<Rightarrow> CircuitBreaker \<times> int option" where
  "RecordError cb =
     (let cb1 = cb\<lparr>cb_count := cb_count cb + 1\<rparr>
      in if cb_count cb1 \<ge> cb_threshold cb1 then (cb1\<lparr>cb_tripped := True\<rparr>, Some (cb_count cb1))
         else (cb1, None))"

definition IsTripped :: "CircuitBreaker \<Rightarrow> bool" where
  "IsTripped cb = cb_tripped cb"

text \<open>A run of outcomes, \<open>True\<close> an error.\<close>

definition record_outcome :: "CircuitBreaker \<Rightarrow> bool \<Rightarrow> CircuitBreaker" where
  "record_outcome cb err = (if err then fst (RecordError cb) else RecordSuccess cb)"

definition run_breaker :: "int \<Rightarrow> bool list \<Rightarrow> CircuitBreaker" where
  "run_breaker threshold es = foldl record_outcome (NewCircuitBreaker threshold) es"

text \<open>The errors at the end of a run.\<close>

definition streak :: "bool list \<Rightarrow> nat" where
  "streak es = length (takeWhile (\<lambda>e. e) (rev es))"

lemma streak_snoc [simp]: "streak [] = 0" "streak (es @ [True]) = Suc (streak es)" "streak (es @ [False]) = 0"
  by (simp_all add: streak_def)

lemma run_breaker_spec:
  "cb_count (run_breaker n es) = int (streak es) \<and>
   cb_threshold (run_breaker n es) = (if n \<le> 0 then 3 else n) \<and>
   (cb_tripped (run_breaker n es) \<longleftrightarrow>
      (\<exists>us vs. es = us @ vs \<and> int (streak us) \<ge> (if n \<le> 0 then 3 else n)))"
proof (induction es rule: rev_induct)
  case Nil
  then show ?case by (simp add: run_breaker_def NewCircuitBreaker_def)
next
  case (snoc e es)
  let ?t = "if n \<le> 0 then 3 else n"
  have step: "run_breaker n (es @ [e]) = record_outcome (run_breaker n es) e"
    by (simp add: run_breaker_def)
  have split: "(\<exists>us vs. es @ [e] = us @ vs \<and> int (streak us) \<ge> ?t) \<longleftrightarrow>
      (\<exists>us vs. es = us @ vs \<and> int (streak us) \<ge> ?t) \<or> int (streak (es @ [e])) \<ge> ?t" (is "?l \<longleftrightarrow> ?r")
  proof
    assume ?l
    then obtain us vs where "es @ [e] = us @ vs" "int (streak us) \<ge> ?t" by blast
    then show ?r by (cases vs rule: rev_cases) auto
  next
    assume ?r
    then show ?l
    proof
      assume "\<exists>us vs. es = us @ vs \<and> int (streak us) \<ge> ?t"
      then obtain us vs where "es @ [e] = us @ (vs @ [e])" "int (streak us) \<ge> ?t" by auto
      then show ?l by blast
    next
      assume "int (streak (es @ [e])) \<ge> ?t"
      then show ?l by (metis append_Nil2)
    qed
  qed
  show ?case
    unfolding split step record_outcome_def
    using snoc by (cases e) (auto simp: RecordError_def RecordSuccess_def Let_def)
qed

text \<open>
  When the breaker trips. After any run of successes and errors it is tripped exactly when
  at some point the number of errors since the last success had reached the threshold (3 for a
  threshold that is not positive); a success resets the count but never the trip.
\<close>

theorem breaker_trips_iff:
  "(IsTripped (run_breaker threshold es) \<longleftrightarrow>
     (\<exists>us vs. es = us @ vs \<and> int (streak us) \<ge> (if threshold \<le> 0 then 3 else threshold))) \<and>
   (snd (RecordError (run_breaker threshold es)) =
     (if int (streak es) + 1 \<ge> (if threshold \<le> 0 then 3 else threshold) then Some (int (streak es) + 1) else None))"
  using run_breaker_spec [of threshold es]
  by (simp add: IsTripped_def RecordError_def Let_def)

end
