(* ===== verification/Hub.thy ===== *)
theory Hub
  imports Message
begin

text \<open>
  The in-process transport (internal/local/communicator.go): a hub of one buffered channel per
  registered agent. A channel is a heap cell with its buffer and a closed flag; the hub maps names
  to channels, and a receiver keeps the channel it was given. \<open>Send\<close> holds the read lock over the
  lookup and the send, \<open>Register\<close> and \<open>Deregister\<close> the write lock, so each is one step. Sending on a
  closed channel is the panic it is in Go.
\<close>

definition channelBufferSize :: nat where
  "channelBufferSize = 64"

record channel =
  ch_buf :: "Message list"
  ch_closed :: bool

record Hub =
  hub_channels :: "(string, nat) gomap"
  hub_heap :: "channel list"

definition NewHub :: Hub where
  "NewHub = \<lparr>hub_channels = [], hub_heap = []\<rparr>"

definition Hub_Register :: "string \<Rightarrow> Hub \<Rightarrow> Hub" where
  "Hub_Register agentName h =
     h\<lparr>hub_heap := hub_heap h @ [\<lparr>ch_buf = [], ch_closed = False\<rparr>],
       hub_channels := mput agentName (length (hub_heap h)) (hub_channels h)\<rparr>"

definition Hub_Deregister :: "string \<Rightarrow> Hub \<Rightarrow> Hub" where
  "Hub_Deregister agentName h =
     (case mget (hub_channels h) agentName of
        Some ch \<Rightarrow>
          h\<lparr>hub_heap := (hub_heap h)[ch := (hub_heap h ! ch)\<lparr>ch_closed := True\<rparr>],
            hub_channels := mdel agentName (hub_channels h)\<rparr>
      | None \<Rightarrow> h)"

datatype send_result = Sent | NotRegistered string | BufferFull string | SendPanic

definition Hub_Send :: "Message \<Rightarrow> Hub \<Rightarrow> Hub \<times> send_result" where
  "Hub_Send msg h =
     (case mget (hub_channels h) (m_To msg) of
        None \<Rightarrow> (h, NotRegistered (m_To msg))
      | Some ch \<Rightarrow>
          (let c = hub_heap h ! ch
           in if ch_closed c then (h, SendPanic)
              else if length (ch_buf c) < channelBufferSize
              then (h\<lparr>hub_heap := (hub_heap h)[ch := c\<lparr>ch_buf := ch_buf c @ [msg]\<rparr>]\<rparr>, Sent)
              else (h, BufferFull (m_To msg))))"

text \<open>\<open>Receive\<close> hands out the channel (\<open>None\<close> is the nil channel); \<open>recv\<close> is one receive on it.\<close>

definition Hub_Receive :: "string \<Rightarrow> Hub \<Rightarrow> nat option" where
  "Hub_Receive agentName h = mget (hub_channels h) agentName"

definition recv :: "nat \<Rightarrow> Hub \<Rightarrow> Hub \<times> Message option" where
  "recv ch h =
     (if ch < length (hub_heap h) then
        (case ch_buf (hub_heap h ! ch) of
           [] \<Rightarrow> (h, None)
         | m # ms \<Rightarrow> (h\<lparr>hub_heap := (hub_heap h)[ch := (hub_heap h ! ch)\<lparr>ch_buf := ms\<rparr>]\<rparr>, Some m))
      else (h, None))"

datatype hub_call = HRegister string | HDeregister string | HSend Message | HRecv nat

fun hub_exec :: "hub_call \<Rightarrow> Hub \<Rightarrow> Hub" where
  "hub_exec (HRegister n) h = Hub_Register n h"
| "hub_exec (HDeregister n) h = Hub_Deregister n h"
| "hub_exec (HSend m) h = fst (Hub_Send m h)"
| "hub_exec (HRecv ch) h = fst (recv ch h)"

definition hub_run :: "hub_call list \<Rightarrow> Hub \<Rightarrow> Hub" where
  "hub_run cs h = foldl (\<lambda>h c. hub_exec c h) h cs"

text \<open>
  The messages put on channel \<open>ch\<close> and those taken from it during a run, in order.
\<close>

fun put_on :: "nat \<Rightarrow> hub_call list \<Rightarrow> Hub \<Rightarrow> Message list" where
  "put_on ch [] h = []"
| "put_on ch (c # cs) h =
     (case c of
        HSend m \<Rightarrow> if Hub_Receive (m_To m) h = Some ch \<and> snd (Hub_Send m h) = Sent then [m] else []
      | _ \<Rightarrow> []) @ put_on ch cs (hub_exec c h)"

fun taken_from :: "nat \<Rightarrow> hub_call list \<Rightarrow> Hub \<Rightarrow> Message list" where
  "taken_from ch [] h = []"
| "taken_from ch (c # cs) h =
     (case c of
        HRecv ch' \<Rightarrow> if ch' = ch then (case snd (recv ch h) of Some m \<Rightarrow> [m] | None \<Rightarrow> []) else []
      | _ \<Rightarrow> []) @ taken_from ch cs (hub_exec c h)"

definition hub_inv :: "Hub \<Rightarrow> bool" where
  "hub_inv h \<longleftrightarrow>
     (\<forall>n ch. mget (hub_channels h) n = Some ch \<longrightarrow> ch < length (hub_heap h) \<and> \<not> ch_closed (hub_heap h ! ch)) \<and>
     (\<forall>n n' ch. mget (hub_channels h) n = Some ch \<longrightarrow> mget (hub_channels h) n' = Some ch \<longrightarrow> n = n') \<and>
     (\<forall>ch < length (hub_heap h). length (ch_buf (hub_heap h ! ch)) \<le> channelBufferSize)"

lemma hub_inv_New: "hub_inv NewHub"
  by (simp add: hub_inv_def NewHub_def)

lemma hub_inv_Register: "hub_inv h \<Longrightarrow> hub_inv (Hub_Register n h)"
  by (auto simp: hub_inv_def Hub_Register_def nth_append less_Suc_eq split: if_splits)

lemma hub_inv_Deregister:
  assumes "hub_inv h"
  shows "hub_inv (Hub_Deregister n h)"
proof (cases "mget (hub_channels h) n")
  case (Some ch)
  have "ch' \<noteq> ch" if "mget (hub_channels h) n' = Some ch'" "n' \<noteq> n" for n' ch'
    using assms that Some unfolding hub_inv_def by blast
  with Some assms show ?thesis
    by (auto simp: hub_inv_def Hub_Deregister_def nth_list_update split: if_splits)
qed (use assms in \<open>simp add: Hub_Deregister_def\<close>)

lemma hub_inv_Send: "hub_inv h \<Longrightarrow> hub_inv (fst (Hub_Send m h))"
  by (auto simp: hub_inv_def Hub_Send_def Let_def nth_list_update split: option.split)

lemma hub_inv_recv: "hub_inv h \<Longrightarrow> hub_inv (fst (recv ch h))"
  by (fastforce simp: hub_inv_def recv_def nth_list_update split: list.split)

lemma hub_inv_exec: "hub_inv h \<Longrightarrow> hub_inv (hub_exec c h)"
  by (cases c) (simp_all add: hub_inv_Register hub_inv_Deregister hub_inv_Send hub_inv_recv)

lemma hub_run_simps [simp]:
  "hub_run [] h = h" "hub_run (c # cs) h = hub_run cs (hub_exec c h)"
  by (simp_all add: hub_run_def)

lemma hub_inv_run: "hub_inv h \<Longrightarrow> hub_inv (hub_run cs h)"
  by (induction cs arbitrary: h) (simp_all add: hub_inv_exec)

text \<open>What one call does to the buffer of a channel.\<close>

definition buffer :: "nat \<Rightarrow> Hub \<Rightarrow> Message list" where
  "buffer ch h = (if ch < length (hub_heap h) then ch_buf (hub_heap h ! ch) else [])"

lemma buffer_exec:
  assumes "hub_inv h"
  shows "buffer ch h @ put_on ch [c] h = taken_from ch [c] h @ buffer ch (hub_exec c h)"
proof (cases c)
  case (HRegister n)
  then show ?thesis by (auto simp: buffer_def Hub_Register_def nth_append less_Suc_eq)
next
  case (HDeregister n)
  have "ch_buf (xs[i := (xs ! i)\<lparr>ch_closed := True\<rparr>] ! ch) = ch_buf (xs ! ch)" if "ch < length xs" for xs :: "channel list" and i
    using that by (cases "i = ch") simp_all
  with HDeregister show ?thesis
    by (simp add: buffer_def Hub_Deregister_def split: option.split)
next
  case (HSend m)
  then show ?thesis
    using assms
    by (auto simp: buffer_def Hub_Send_def Hub_Receive_def Let_def nth_list_update hub_inv_def
        split: option.split)
next
  case (HRecv ch')
  then show ?thesis
    by (auto simp: buffer_def recv_def nth_list_update split: list.split)
qed

lemma buffer_run:
  "hub_inv h \<Longrightarrow> buffer ch h @ put_on ch cs h = taken_from ch cs h @ buffer ch (hub_run cs h)"
proof (induction cs arbitrary: h)
  case (Cons c cs)
  have "buffer ch (hub_exec c h) @ put_on ch cs (hub_exec c h) =
      taken_from ch cs (hub_exec c h) @ buffer ch (hub_run cs (hub_exec c h))"
    using Cons by (simp add: hub_inv_exec)
  with buffer_exec [OF Cons.prems, of ch c] show ?case
    by (simp add: append_assoc [symmetric] del: append_assoc) (simp add: append_assoc)
qed simp

text \<open>
  Claim C35: the hub delivers in order and never panics. In any run from a new hub, no send hits a
  closed channel, no buffer holds more than 64 messages, and for every channel the messages sent to it
  successfully are those received from it, in the same order, followed by those still buffered: none
  is lost, duplicated or reordered.
\<close>

theorem hub_fifo:
  "(\<forall>m. snd (Hub_Send m (hub_run cs NewHub)) \<noteq> SendPanic) \<and>
   put_on ch cs NewHub = taken_from ch cs NewHub @ buffer ch (hub_run cs NewHub) \<and>
   length (buffer ch (hub_run cs NewHub)) \<le> 64"
proof (intro conjI allI)
  have inv: "hub_inv (hub_run cs NewHub)" by (intro hub_inv_run hub_inv_New)
  show "snd (Hub_Send m (hub_run cs NewHub)) \<noteq> SendPanic" for m
    using inv by (auto simp: Hub_Send_def hub_inv_def Let_def split: option.split)
  show "put_on ch cs NewHub = taken_from ch cs NewHub @ buffer ch (hub_run cs NewHub)"
    using buffer_run [OF hub_inv_New, of ch cs] by (simp add: buffer_def NewHub_def)
  show "length (buffer ch (hub_run cs NewHub)) \<le> 64"
    using inv by (simp add: buffer_def hub_inv_def channelBufferSize_def)
qed

end
