(* ===== verification/LoopCodec.thy ===== *)
theory LoopCodec
  imports LoopContext "HOL-Library.Log_Nat" "HOL-Library.Monad_Syntax"
begin

text \<open>
  The loop context as it travels inside a message (internal/loop/context.go, with the JSON tags of
  context.go and types.go): \<open>EncodeContext\<close> turns the struct into the generic map that a data part
  carries, \<open>DecodeContext\<close> finds it again. An empty slice is encoded as an empty array where the tag
  does not omit it; the null of a nil slice decodes to the same empty slice.
\<close>

section \<open>Encoding\<close>

text \<open>An int passes through a float64: beyond 53 bits it is rounded to the nearest, ties to even.\<close>

definition float64_int :: "int \<Rightarrow> int" where
  "float64_int n =
     (if \<bar>n\<bar> \<le> 2 ^ 53 then n
      else
        (let e = floorlog 2 (nat \<bar>n\<bar>) - 53;
             q = \<bar>n\<bar> div 2 ^ e; r = \<bar>n\<bar> mod 2 ^ e;
             q' = (if 2 * r > 2 ^ e \<or> 2 * r = 2 ^ e \<and> odd q then q + 1 else q)
         in sgn n * q' * 2 ^ e))"

text \<open>The tag \<open>omitempty\<close>.\<close>

definition omit :: "bool \<Rightarrow> string \<Rightarrow> any \<Rightarrow> data" where
  "omit z k v = (if z then [] else [(k, v)])"

definition enc_strings :: "string list \<Rightarrow> any" where
  "enc_strings ss = AList (map AStr ss)"

definition enc_map :: "(string, string) gomap \<Rightarrow> any" where
  "enc_map m = AMap (map (\<lambda>(k, v). (k, AStr v)) m)"

definition enc_state_config :: "StateConfig \<Rightarrow> any" where
  "enc_state_config s = AMap
     ([(''name'', AStr (sc_Name s))]
      @ omit (sc_Agent s = '''') ''agent'' (AStr (sc_Agent s))
      @ omit (sc_ReviewGuidelines s = '''') ''review_guidelines'' (AStr (sc_ReviewGuidelines s)))"

definition enc_transition :: "Transition \<Rightarrow> any" where
  "enc_transition t = AMap
     ([(''from'', AStr (tr_From t)), (''to'', AStr (tr_To t))]
      @ omit (tr_Condition t = '''') ''condition'' (AStr (tr_Condition t)))"

definition enc_definition :: "LoopDefinition \<Rightarrow> any" where
  "enc_definition d = AMap
     [(''id'', AStr (ld_ID d)),
      (''participants'', enc_strings (ld_Participants d)),
      (''states'', AList (map enc_state_config (ld_States d))),
      (''transitions'', AList (map enc_transition (ld_Transitions d))),
      (''initial_state'', AStr (ld_InitialState d)),
      (''terminal_states'', enc_strings (ld_TerminalStates d)),
      (''max_transitions'', ANum (float64_int (ld_MaxTransitions d)))]"

definition enc_state :: "LoopState \<Rightarrow> any" where
  "enc_state s = AMap
     [(''loop_id'', AStr (ls_LoopID s)),
      (''current_state'', AStr (ls_CurrentState s)),
      (''transition_count'', ANum (float64_int (ls_TransitionCount s)))]"

definition enc_context :: "LoopContext \<Rightarrow> data" where
  "enc_context lc =
     [(''definition'', enc_definition (lc_Definition lc)),
      (''state'', enc_state (lc_State lc)),
      (''task_id'', AStr (lc_TaskID lc)),
      (''conductor'', AStr (lc_Conductor lc)),
      (''original_task'', AStr (lc_OriginalTask lc))]
     @ omit (lc_UserRequest lc = '''') ''user_request'' (AStr (lc_UserRequest lc))
     @ omit (lc_DepParts lc = []) ''dep_parts'' (AList (map (\<lambda>d. AMap (json_data d)) (lc_DepParts lc)))
     @ omit (lc_AssignedInstances lc = []) ''assigned_instances'' (enc_map (lc_AssignedInstances lc))
     @ omit (lc_ExecutionNodes lc = []) ''execution_nodes'' (enc_map (lc_ExecutionNodes lc))
     @ omit (lc_WorkSummary lc = '''') ''work_summary'' (AStr (lc_WorkSummary lc))
     @ omit (lc_WorkArtifactURI lc = '''') ''work_artifact_uri'' (AStr (lc_WorkArtifactURI lc))
     @ omit (lc_WorkArtifactFiles lc = []) ''work_artifact_files'' (enc_strings (lc_WorkArtifactFiles lc))
     @ omit (lc_DispatchNonce lc = '''') ''dispatch_nonce'' (AStr (lc_DispatchNonce lc))
     @ omit (lc_DecisionContext lc = '''') ''decision_context'' (AStr (lc_DecisionContext lc))"

definition EncodeContext :: "LoopContext \<Rightarrow> Part" where
  "EncodeContext lc = DataPart [(''loop_context'', AMap (enc_context lc))]"

section \<open>Decoding\<close>

text \<open>
  The value of a field: that of the last key that matches its name without regard to case. An absent
  field and a null leave the zero value, a value of another type is an error.
\<close>

definition json_field :: "string \<Rightarrow> data \<Rightarrow> any" where
  "json_field name m =
     (case filter (\<lambda>(k, v). to_lower k = name) m of [] \<Rightarrow> ANil | kvs \<Rightarrow> snd (last kvs))"

fun dec_str :: "any \<Rightarrow> string option" where
  "dec_str (AStr s) = Some s"
| "dec_str ANil = Some ''''"
| "dec_str _ = None"

fun dec_int :: "any \<Rightarrow> int option" where
  "dec_int (ANum n) = (if - (2 ^ 63) \<le> n \<and> n < 2 ^ 63 then Some n else None)"
| "dec_int ANil = Some 0"
| "dec_int _ = None"

fun dec_all :: "('a \<Rightarrow> 'b option) \<Rightarrow> 'a list \<Rightarrow> 'b list option" where
  "dec_all f [] = Some []"
| "dec_all f (x # xs) =
     (case f x of None \<Rightarrow> None | Some y \<Rightarrow> (case dec_all f xs of None \<Rightarrow> None | Some ys \<Rightarrow> Some (y # ys)))"

fun dec_slice :: "(any \<Rightarrow> 'b option) \<Rightarrow> any \<Rightarrow> 'b list option" where
  "dec_slice f (AList vs) = dec_all f vs"
| "dec_slice f ANil = Some []"
| "dec_slice f _ = None"

fun dec_object :: "any \<Rightarrow> data option" where
  "dec_object (AMap m) = Some m"
| "dec_object ANil = Some []"
| "dec_object _ = None"

fun dec_map :: "any \<Rightarrow> (string, string) gomap option" where
  "dec_map (AMap m) =
     dec_all (\<lambda>(k, v). case dec_str v of None \<Rightarrow> None | Some s \<Rightarrow> Some (k, s)) m"
| "dec_map ANil = Some []"
| "dec_map _ = None"

definition dec_state_config :: "any \<Rightarrow> StateConfig option" where
  "dec_state_config v = do {
     m \<leftarrow> dec_object v;
     n \<leftarrow> dec_str (json_field ''name'' m);
     a \<leftarrow> dec_str (json_field ''agent'' m);
     g \<leftarrow> dec_str (json_field ''review_guidelines'' m);
     Some \<lparr>sc_Name = n, sc_Agent = a, sc_ReviewGuidelines = g\<rparr>}"

definition dec_transition :: "any \<Rightarrow> Transition option" where
  "dec_transition v = do {
     m \<leftarrow> dec_object v;
     a \<leftarrow> dec_str (json_field ''from'' m);
     b \<leftarrow> dec_str (json_field ''to'' m);
     c \<leftarrow> dec_str (json_field ''condition'' m);
     Some \<lparr>tr_From = a, tr_To = b, tr_Condition = c\<rparr>}"

definition dec_definition :: "any \<Rightarrow> LoopDefinition option" where
  "dec_definition v = do {
     m \<leftarrow> dec_object v;
     i \<leftarrow> dec_str (json_field ''id'' m);
     ps \<leftarrow> dec_slice dec_str (json_field ''participants'' m);
     ss \<leftarrow> dec_slice dec_state_config (json_field ''states'' m);
     ts \<leftarrow> dec_slice dec_transition (json_field ''transitions'' m);
     s0 \<leftarrow> dec_str (json_field ''initial_state'' m);
     fs \<leftarrow> dec_slice dec_str (json_field ''terminal_states'' m);
     n \<leftarrow> dec_int (json_field ''max_transitions'' m);
     Some \<lparr>ld_ID = i, ld_Participants = ps, ld_States = ss, ld_Transitions = ts,
       ld_InitialState = s0, ld_TerminalStates = fs, ld_MaxTransitions = n\<rparr>}"

definition dec_state :: "any \<Rightarrow> LoopState option" where
  "dec_state v = do {
     m \<leftarrow> dec_object v;
     i \<leftarrow> dec_str (json_field ''loop_id'' m);
     c \<leftarrow> dec_str (json_field ''current_state'' m);
     n \<leftarrow> dec_int (json_field ''transition_count'' m);
     Some \<lparr>ls_LoopID = i, ls_CurrentState = c, ls_TransitionCount = n\<rparr>}"

definition dec_context :: "any \<Rightarrow> LoopContext option" where
  "dec_context v = do {
     m \<leftarrow> dec_object v;
     d \<leftarrow> dec_definition (json_field ''definition'' m);
     s \<leftarrow> dec_state (json_field ''state'' m);
     tid \<leftarrow> dec_str (json_field ''task_id'' m);
     con \<leftarrow> dec_str (json_field ''conductor'' m);
     tsk \<leftarrow> dec_str (json_field ''original_task'' m);
     ur \<leftarrow> dec_str (json_field ''user_request'' m);
     dps \<leftarrow> dec_slice dec_object (json_field ''dep_parts'' m);
     ai \<leftarrow> dec_map (json_field ''assigned_instances'' m);
     en \<leftarrow> dec_map (json_field ''execution_nodes'' m);
     ws \<leftarrow> dec_str (json_field ''work_summary'' m);
     wu \<leftarrow> dec_str (json_field ''work_artifact_uri'' m);
     wf \<leftarrow> dec_slice dec_str (json_field ''work_artifact_files'' m);
     dn \<leftarrow> dec_str (json_field ''dispatch_nonce'' m);
     dc \<leftarrow> dec_str (json_field ''decision_context'' m);
     Some \<lparr>lc_Definition = d, lc_State = s, lc_TaskID = tid, lc_Conductor = con,
       lc_OriginalTask = tsk, lc_UserRequest = ur, lc_DepParts = dps, lc_AssignedInstances = ai,
       lc_ExecutionNodes = en, lc_WorkSummary = ws, lc_WorkArtifactURI = wu,
       lc_WorkArtifactFiles = wf, lc_DispatchNonce = dn, lc_DecisionContext = dc\<rparr>}"

text \<open>
  The first data part with the key decides, and one that does not decode is passed over. A part that
  crossed a process boundary holds generic values; the encoder is applied once more.
\<close>

fun decode_parts :: "Part list \<Rightarrow> LoopContext option" where
  "decode_parts [] = None"
| "decode_parts (DataPart d # ps) =
     (case mget d ''loop_context'' of
        None \<Rightarrow> decode_parts ps
      | Some raw \<Rightarrow> (case dec_context (json_value raw) of None \<Rightarrow> decode_parts ps | Some lc \<Rightarrow> Some lc))"
| "decode_parts (_ # ps) = decode_parts ps"

definition DecodeContext :: "Message \<Rightarrow> LoopContext option" where
  "DecodeContext msg = decode_parts (m_Parts msg)"

section \<open>The round trip\<close>

text \<open>The field names in lower case are themselves.\<close>

lemma lower_keys:
  "map to_lower [''definition'', ''state'', ''task_id'', ''conductor'', ''original_task'',
     ''user_request'', ''dep_parts'', ''assigned_instances'', ''execution_nodes'', ''work_summary'',
     ''work_artifact_uri'', ''work_artifact_files'', ''dispatch_nonce'', ''decision_context'',
     ''id'', ''participants'', ''states'', ''transitions'', ''initial_state'', ''terminal_states'',
     ''max_transitions'', ''name'', ''agent'', ''review_guidelines'', ''from'', ''to'', ''condition'',
     ''loop_id'', ''current_state'', ''transition_count''] =
   [''definition'', ''state'', ''task_id'', ''conductor'', ''original_task'',
     ''user_request'', ''dep_parts'', ''assigned_instances'', ''execution_nodes'', ''work_summary'',
     ''work_artifact_uri'', ''work_artifact_files'', ''dispatch_nonce'', ''decision_context'',
     ''id'', ''participants'', ''states'', ''transitions'', ''initial_state'', ''terminal_states'',
     ''max_transitions'', ''name'', ''agent'', ''review_guidelines'', ''from'', ''to'', ''condition'',
     ''loop_id'', ''current_state'', ''transition_count'']"
  by code_simp

lemmas lower_key = lower_keys [unfolded list.map list.inject simp_thms]

definition unmatched :: "string \<Rightarrow> data \<Rightarrow> bool" where
  "unmatched n m \<longleftrightarrow> (\<forall>(k, v) \<in> set m. to_lower k \<noteq> n)"

lemma unmatched_simps:
  "unmatched n []"
  "unmatched n ((k, v) # m) \<longleftrightarrow> to_lower k \<noteq> n \<and> unmatched n m"
  "unmatched n (m @ m') \<longleftrightarrow> unmatched n m \<and> unmatched n m'"
  "to_lower k \<noteq> n \<Longrightarrow> unmatched n (omit z k v)"
  by (auto simp: unmatched_def omit_def)

lemma json_field_other:
  "to_lower k \<noteq> n \<Longrightarrow> json_field n ((k, v) # m) = json_field n m"
  "to_lower k \<noteq> n \<Longrightarrow> json_field n (omit z k v @ m) = json_field n m"
  "to_lower k \<noteq> n \<Longrightarrow> json_field n (omit z k v) = ANil"
  by (simp_all add: json_field_def omit_def)

lemma json_field_here:
  "to_lower k = n \<Longrightarrow> unmatched n m \<Longrightarrow> json_field n ((k, v) # m) = v"
  "to_lower k = n \<Longrightarrow> unmatched n m \<Longrightarrow> json_field n (omit z k v @ m) = (if z then ANil else v)"
  "to_lower k = n \<Longrightarrow> json_field n (omit z k v) = (if z then ANil else v)"
proof -
  have "filter (\<lambda>(k, v). to_lower k = n) m = []" if "unmatched n m"
    using that by (auto simp: unmatched_def filter_empty_conv)
  then show "to_lower k = n \<Longrightarrow> unmatched n m \<Longrightarrow> json_field n ((k, v) # m) = v"
    and "to_lower k = n \<Longrightarrow> unmatched n m \<Longrightarrow> json_field n (omit z k v @ m) = (if z then ANil else v)"
    and "to_lower k = n \<Longrightarrow> json_field n (omit z k v) = (if z then ANil else v)"
    by (simp_all add: json_field_def omit_def)
qed

lemmas json_field_simps = json_field_other json_field_here unmatched_simps lower_key

lemma dec_all_map: "(\<And>x. x \<in> set xs \<Longrightarrow> f (g x) = Some (h x)) \<Longrightarrow> dec_all f (map g xs) = Some (map h xs)"
  by (induction xs) auto

lemma dec_strings [simp]: "dec_slice dec_str (enc_strings ss) = Some ss"
  using dec_all_map [of ss dec_str AStr id] by (simp add: enc_strings_def)

lemma dec_enc_map [simp]: "dec_map (enc_map m) = Some m"
  using dec_all_map [of m "\<lambda>(k, v). case dec_str v of None \<Rightarrow> None | Some s \<Rightarrow> Some (k, s)" "\<lambda>(k, v). (k, AStr v)" id]
  by (simp add: enc_map_def split_beta)

lemma json_value_enc [simp]:
  "json_value (enc_strings ss) = enc_strings ss"
  "json_value (enc_map m) = enc_map m"
  by (auto simp: enc_strings_def enc_map_def)

lemma dec_enc_state_config [simp]: "dec_state_config (enc_state_config s) = Some s"
  by (simp add: dec_state_config_def enc_state_config_def json_field_simps)

lemma dec_enc_transition [simp]: "dec_transition (enc_transition t) = Some t"
  by (simp add: dec_transition_def enc_transition_def json_field_simps)

text \<open>The integers a float64 and an int hold.\<close>

definition exact_int :: "int \<Rightarrow> bool" where
  "exact_int n \<longleftrightarrow> \<bar>n\<bar> \<le> 2 ^ 53"

lemma dec_enc_int [simp]:
  assumes "exact_int n"
  shows "dec_int (ANum (float64_int n)) = Some n"
proof -
  have "- (2 ^ 63) \<le> n \<and> n < 2 ^ 63" using assms by (auto simp: exact_int_def abs_le_iff)
  then show ?thesis using assms by (simp add: exact_int_def float64_int_def)
qed

lemma dec_enc_definition [simp]:
  "exact_int (ld_MaxTransitions d) \<Longrightarrow> dec_definition (enc_definition d) = Some d"
  using dec_all_map [of "ld_States d" dec_state_config enc_state_config id]
    dec_all_map [of "ld_Transitions d" dec_transition enc_transition id]
  by (simp add: dec_definition_def enc_definition_def json_field_simps del: dec_int.simps)

lemma dec_enc_state [simp]: "exact_int (ls_TransitionCount s) \<Longrightarrow> dec_state (enc_state s) = Some s"
  by (simp add: dec_state_def enc_state_def json_field_simps del: dec_int.simps)

text \<open>The encoded tree holds generic values only, so that encoding it again changes nothing.\<close>

lemma json_value_omit: "map (\<lambda>(k, v). (k, json_value v)) (omit z k v) = omit z k (json_value v)"
  by (simp add: omit_def)

lemma json_value_enc_definition [simp]: "json_value (enc_definition d) = enc_definition d"
  by (simp add: enc_definition_def enc_state_config_def enc_transition_def comp_def json_value_omit)

lemma json_value_enc_state [simp]: "json_value (enc_state s) = enc_state s"
  by (simp add: enc_state_def)

lemma json_data_idem: "json_data (json_data d) = json_data d"
  by (simp add: json_data_def json_value_idem split_beta comp_def)

lemma json_value_AMap: "json_value (AMap d) = AMap (json_data d)"
  by (simp add: json_data_def)

lemma json_value_dep_parts:
  "json_value (AList (map (\<lambda>d. AMap (json_data d)) ds)) = AList (map (\<lambda>d. AMap (json_data d)) ds)"
  by (simp add: json_value_AMap json_data_idem del: json_value.simps(3))

lemma json_data_enc_context: "json_data (enc_context lc) = enc_context lc"
proof -
  have "map (\<lambda>(k, v). (k, json_value v)) (enc_context lc) = enc_context lc"
    unfolding enc_context_def
    by (simp only: map_append list.map prod.case json_value_omit json_value_dep_parts json_value_enc
        json_value_enc_definition json_value_enc_state json_value.simps(4-7))
  then show ?thesis by (simp add: json_data_def)
qed

definition json_context :: "LoopContext \<Rightarrow> LoopContext" where
  "json_context lc = lc\<lparr>lc_DepParts := map json_data (lc_DepParts lc)\<rparr>"

lemma dec_enc_context:
  assumes "exact_int (ld_MaxTransitions (lc_Definition lc))" and "exact_int (ls_TransitionCount (lc_State lc))"
  shows "dec_context (AMap (enc_context lc)) = Some (json_context lc)"
  using assms dec_all_map [of "lc_DepParts lc" dec_object "\<lambda>d. AMap (json_data d)" json_data]
  by (simp add: dec_context_def enc_context_def json_field_simps json_context_def)

lemma mget_json_data: "mget (json_data d) k = map_option json_value (mget d k)"
  by (induction d) (auto simp: json_data_def)

definition no_context :: "Part list \<Rightarrow> bool" where
  "no_context ps \<longleftrightarrow> (\<forall>d. DataPart d \<in> set ps \<longrightarrow> mget d ''loop_context'' = None)"

lemma decode_parts_skip: "no_context ps \<Longrightarrow> decode_parts (ps @ qs) = decode_parts qs"
proof (induction ps)
  case (Cons p ps)
  then show ?case by (cases p) (auto simp: no_context_def)
qed simp

lemma no_context_json:
  assumes "no_context ps"
  shows "no_context (map json_part ps)"
  unfolding no_context_def
proof (intro allI impI)
  fix d assume "DataPart d \<in> set (map json_part ps)"
  then obtain p where p: "p \<in> set ps" "json_part p = DataPart d" by auto
  from p(2) obtain e where "p = DataPart e" "d = json_data e" by (cases p) simp_all
  with assms p(1) show "mget d ''loop_context'' = None" by (simp add: no_context_def mget_json_data)
qed

lemma decode_encoded:
  assumes "exact_int (ld_MaxTransitions (lc_Definition lc))" and "exact_int (ls_TransitionCount (lc_State lc))"
  shows "decode_parts (EncodeContext lc # qs) = Some (json_context lc)"
    and "decode_parts (json_part (EncodeContext lc) # qs) = Some (json_context lc)"
proof -
  have *: "json_value (AMap (enc_context lc)) = AMap (enc_context lc)"
    by (simp only: json_value_AMap json_data_enc_context)
  show "decode_parts (EncodeContext lc # qs) = Some (json_context lc)"
    using dec_enc_context [OF assms] *
    by (simp add: EncodeContext_def del: json_value.simps)
  show "decode_parts (json_part (EncodeContext lc) # qs) = Some (json_context lc)"
    using dec_enc_context [OF assms] *
    by (simp add: EncodeContext_def json_data_def [of "[_]"] del: json_value.simps)
qed

section \<open>Properties\<close>

text \<open>
  A hop hands the next agent the context it was given. The context that \<open>DecodeContext\<close>
  finds in a message is the one that was encoded, every field of the loop definition and of its state
  included, up to the typing of slices inside the dependency parts (a slice of strings comes back as
  a slice of any), also when the message was written to JSON in between and whatever other
  parts surround it, provided no earlier part uses the key and the two counters fit 53 bits.
\<close>

theorem loop_context_roundtrip:
  assumes "no_context ps" and "exact_int (ld_MaxTransitions (lc_Definition lc))"
    and "exact_int (ls_TransitionCount (lc_State lc))"
  shows "DecodeContext (m\<lparr>m_Parts := ps @ EncodeContext lc # qs\<rparr>) = Some (json_context lc) \<and>
    DecodeContext (m\<lparr>m_Parts := map json_part (ps @ EncodeContext lc # qs)\<rparr>) = Some (json_context lc) \<and>
    json_context (json_context lc) = json_context lc"
proof (intro conjI)
  show "json_context (json_context lc) = json_context lc"
    by (simp add: json_context_def json_data_idem comp_def)
qed (use assms in \<open>simp_all add: DecodeContext_def decode_parts_skip no_context_json decode_encoded
       del: json_part.simps\<close>)

definition demo_context :: LoopContext where
  "demo_context = \<lparr>lc_Definition = demo_loop,
     lc_State = \<lparr>ls_LoopID = ''l1'', ls_CurrentState = ''WORKING'', ls_TransitionCount = 0\<rparr>,
     lc_TaskID = ''t1'', lc_Conductor = ''conductor'', lc_OriginalTask = ''build it'', lc_UserRequest = ''app'',
     lc_DepParts = [[(''dependency_id'', AStr ''t0''), (''artifact_files'', AStrings [''spec.md''])]],
     lc_AssignedInstances = [(''arch'', ''i2'')], lc_ExecutionNodes = [], lc_WorkSummary = '''',
     lc_WorkArtifactURI = '''', lc_WorkArtifactFiles = [], lc_DispatchNonce = ''n1'',
     lc_DecisionContext = ''use Go''\<rparr>"

theorem loop_context_roundtrip_witness:
  "DecodeContext (demo_message\<lparr>m_Parts := [TextPart ''go''] @ EncodeContext demo_context # []\<rparr>) =
     Some (demo_context\<lparr>lc_DepParts :=
       [[(''dependency_id'', AStr ''t0''), (''artifact_files'', AList [AStr ''spec.md''])]]\<rparr>)"
proof -
  have "no_context [TextPart ''go'']" by (simp add: no_context_def)
  moreover have "exact_int (ld_MaxTransitions (lc_Definition demo_context))"
    and "exact_int (ls_TransitionCount (lc_State demo_context))"
    by (simp_all add: exact_int_def demo_context_def demo_loop_def)
  moreover have "json_context demo_context = demo_context\<lparr>lc_DepParts :=
       [[(''dependency_id'', AStr ''t0''), (''artifact_files'', AList [AStr ''spec.md''])]]\<rparr>"
    by (simp add: json_context_def demo_context_def json_data_def)
  ultimately show ?thesis
    using loop_context_roundtrip [where ps = "[TextPart ''go'']" and lc = demo_context and m = demo_message and qs = "[]"] by metis
qed

end
