(* ===== verification/AgentResult.thy ===== *)
theory AgentResult
  imports Verdict LoopCodec
begin

text \<open>
  What an agent writes and sends when a piece of work is over (internal/agent/agent.go: the
  building of result parts and the messages for a result, an escalation, a loop result and a loop
  status update). The state of the agent that these functions read is the record \<open>AgentEnv\<close>; what
  they do is returned as the list of their effects, in order, with whether they succeeded.
\<close>

section \<open>The environment of an agent\<close>

text \<open>
  The outcome of a storage write and of a send, the identifier and time of the n-th message sent, the
  token usage so far and of a single reply, and the outputs of the post-processing commands come from outside: they are functions of the
  environment. \<open>ae_Scratch\<close> and \<open>ae_Shared\<close> list the readable files of the scratch directory, in the
  order of the directory walk, and of the shared tier.
\<close>

record AgentEnv =
  ae_Name :: string
  ae_EscalationTarget :: string
  ae_ShellOnly :: bool
  ae_HasStorage :: bool
  ae_HasToolExecutor :: bool
  ae_Scratch :: "(string \<times> string) list"
  ae_Shared :: "(string \<times> string) list"
  ae_WriteOK :: "string \<Rightarrow> bool"
  ae_PostTools :: "string list \<Rightarrow> (string \<times> string \<times> string) list"
  ae_SendOK :: "Message \<Rightarrow> bool"
  ae_Stamp :: "nat \<Rightarrow> string \<times> int"
  ae_Usage :: "TokenUsage option"
  ae_ReplyUsage :: "TokenUsage option"
  ae_Valid :: "string \<Rightarrow> bool"
  ae_Decode :: "string \<Rightarrow> ResponseEnvelope option"

record LoopEvent =
  ev_TaskID :: string
  ev_LoopID :: string
  ev_FromState :: string
  ev_ToState :: string
  ev_Verdict :: string
  ev_LoopCount :: int

datatype effect = EWrite string string | EEvent LoopEvent | ESend Message

definition sends :: "effect list \<Rightarrow> Message list" where
  "sends es = concat (map (\<lambda>e. case e of ESend m \<Rightarrow> [m] | _ \<Rightarrow> []) es)"

lemma sends_simps [simp]:
  "sends [] = []" "sends (ESend m # es) = m # sends es" "sends (EWrite p d # es) = sends es"
  "sends (EEvent v # es) = sends es" "sends (es @ fs) = sends es @ sends fs"
  by (simp_all add: sends_def)

definition transmit :: "AgentEnv \<Rightarrow> Message \<Rightarrow> effect list \<times> bool" where
  "transmit a m = ([ESend m], ae_SendOK a m)"

section \<open>Artifacts of a result\<close>

record resultParts =
  rp_parts :: "Part list"
  rp_dir :: string
  rp_files :: "string list"

definition noiseSegments :: "string list" where
  "noiseSegments = [''node_modules/'', ''.git/'', ''dist/'', ''build/'', ''.next/'',
     ''__pycache__/'', ''vendor/'', ''.cache/'', ''coverage/'', ''.vite/'']"

definition noiseFiles :: "string list" where
  "noiseFiles = [''package-lock.json'', ''yarn.lock'', ''pnpm-lock.yaml'', ''.ds_store'']"

definition isArtifactNoise :: "string \<Rightarrow> bool" where
  "isArtifactNoise path =
     (let p = to_lower path; base = to_lower (path_base p)
      in if \<exists>seg \<in> set noiseSegments. contains (p @ ''/'') seg then True
         else if base \<in> set noiseFiles then True
         else has_prefix base ''.cmd_'' \<and> has_suffix base ''.log'')"

definition isUpstreamCopy :: "AgentEnv \<Rightarrow> string \<Rightarrow> string \<Rightarrow> bool" where
  "isUpstreamCopy a relPath data =
     (\<exists>(path, upstream) \<in> set (ae_Shared a).
        has_prefix path ''artifacts/'' \<and>
        (let trimmed = drop 10 path; owner = takeWhile (\<lambda>c. c \<noteq> slash) trimmed
         in slash \<in> set trimmed \<and> owner \<noteq> '''' \<and> owner \<noteq> ae_Name a) \<and>
        has_suffix path (''/'' @ relPath) \<and> upstream = data)"

definition skipDirs :: "string list" where
  "skipDirs = [''node_modules'', ''.git'', ''dist'', ''build'', ''.next'', ''__pycache__'', ''vendor'',
     ''.cache'', ''coverage'', ''.vite'', ''_requests'', ''.tool-results'']"

definition maxFileSize :: nat where "maxFileSize = 256 * 2 ^ 20"

text \<open>One file of the walk; a file below a directory that is skipped is not visited.\<close>

definition persist_file ::
  "AgentEnv \<Rightarrow> string list \<Rightarrow> string \<times> string \<Rightarrow> effect list \<times> resultParts \<Rightarrow> effect list \<times> resultParts" where
  "persist_file a persisted file acc =
     (let (rel, data) = file; (es, rp) = acc; path = rp_dir rp @ ''/'' @ rel
      in if (\<exists>d \<in> set (butlast (split_on slash rel)). to_lower d \<in> set skipDirs) then acc
         else if path_clean rel \<in> set persisted then acc
         else if isArtifactNoise rel then acc
         else if length data = 0 \<or> length data > maxFileSize then acc
         else if isUpstreamCopy a rel data then acc
         else if ae_WriteOK a path then (es @ [EWrite path data], rp\<lparr>rp_files := rp_files rp @ [rel]\<rparr>)
         else acc)"

definition persistScratchToShared ::
  "AgentEnv \<Rightarrow> resultParts \<Rightarrow> FileBlock list \<Rightarrow> effect list \<times> resultParts" where
  "persistScratchToShared a rp existingBlocks =
     (if \<not> ae_HasToolExecutor a \<or> rp_dir rp = '''' then ([], rp)
      else fold (persist_file a (map (\<lambda>b. path_clean (fb_Path b)) existingBlocks)) (ae_Scratch a) ([], rp))"

text \<open>The outputs of the post-processing commands on the files produced.\<close>

definition tool_output ::
  "AgentEnv \<Rightarrow> string \<times> string \<times> string \<Rightarrow> effect list \<times> resultParts \<Rightarrow> effect list \<times> resultParts" where
  "tool_output a out acc =
     (let (p, mime, data) = out; (es, rp) = acc; path = rp_dir rp @ ''/'' @ p
      in if ae_WriteOK a path
         then (es @ [EWrite path data], rp\<lparr>rp_parts := rp_parts rp @ [FilePart path mime p]\<rparr>)
         else acc)"

definition write_block ::
  "AgentEnv \<Rightarrow> FileBlock \<Rightarrow> effect list \<times> resultParts \<Rightarrow> effect list \<times> resultParts" where
  "write_block a b acc =
     (let (es, rp) = acc; path = rp_dir rp @ ''/'' @ fb_Path b
      in if ae_WriteOK a path
         then (es @ [EWrite path (fb_Content b)],
               rp\<lparr>rp_files := rp_files rp @ [fb_Path b],
                  rp_parts := rp_parts rp @ [FilePart path (mimeForPath (fb_Path b)) (fb_Path b)]\<rparr>)
         else acc)"

definition write_trace ::
  "AgentEnv \<Rightarrow> string \<Rightarrow> string \<Rightarrow> string \<Rightarrow> effect list \<times> resultParts \<Rightarrow> effect list \<times> resultParts" where
  "write_trace a traceDir name text acc =
     (let (es, rp) = acc; path = traceDir @ ''/'' @ name
      in if ae_WriteOK a path
         then (es @ [EWrite path text], rp\<lparr>rp_parts := rp_parts rp @ [FilePart path ''text/markdown'' name]\<rparr>)
         else acc)"

definition set_text :: "string \<Rightarrow> effect list \<times> resultParts \<Rightarrow> effect list \<times> resultParts" where
  "set_text text acc = (fst acc, (snd acc)\<lparr>rp_parts := (rp_parts (snd acc))[0 := TextPart text]\<rparr>)"

definition buildResultParts :: "AgentEnv \<Rightarrow> string \<Rightarrow> string \<Rightarrow> bool \<Rightarrow> effect list \<times> resultParts" where
  "buildResultParts a requestID content failed =
     (let rp = \<lparr>rp_parts = [TextPart content], rp_dir = '''', rp_files = []\<rparr>
      in if failed \<or> \<not> ae_HasStorage a then ([], rp)
         else
           (let dir = ''artifacts/'' @ ae_Name a;
                traceDir = dir @ ''/_requests/'' @ requestID;
                (blocks, summary) = (if ae_ShellOnly a then ([], '''') else ParseFileBlocks content);
                start = ([], rp\<lparr>rp_dir := dir\<rparr>);
                written =
                  (if blocks \<noteq> [] then
                     (let st = fold (write_block a) blocks start;
                          st = (if summary \<noteq> '''' then write_trace a traceDir ''summary.md'' summary st else st);
                          text = (if summary = '''' then ''Produced '' @ join '', '' (map fb_Path blocks) else summary)
                      in set_text text st)
                   else write_trace a traceDir ''result.md'' content start);
                (es, rp) =
                  (if ae_ShellOnly a then written
                   else (let (fs, rp) = persistScratchToShared a (snd written) blocks in (fst written @ fs, rp)))
            in if rp_files rp \<noteq> [] then fold (tool_output a) (ae_PostTools a (rp_files rp)) (es, rp)
               else (es, rp)))"

section \<open>Messages of a task\<close>

definition meta :: "Message \<Rightarrow> string \<Rightarrow> string" where
  "meta m k = mget0 '''' (m_Metadata m) k"

definition taskMeta :: "Message \<Rightarrow> (string, string) gomap" where
  "taskMeta msg =
     (let m = [(''task_id'', meta msg ''task_id'')]
      in if meta msg ''dispatch_nonce'' \<noteq> '''' then mput ''dispatch_nonce'' (meta msg ''dispatch_nonce'') m else m)"

fun part_text :: "Part \<Rightarrow> string option" where
  "part_text (TextPart t) = Some t"
| "part_text _ = None"

definition extractText :: "Message \<Rightarrow> string" where
  "extractText msg = (case first_some part_text (m_Parts msg) of Some t \<Rightarrow> t | None \<Rightarrow> '''')"

definition put_all :: "('k, 'v) gomap \<Rightarrow> ('k, 'v) gomap \<Rightarrow> ('k, 'v) gomap" where
  "put_all extra m = fold (\<lambda>(k, v). mput k v) extra m"

definition sendResult ::
  "AgentEnv \<Rightarrow> nat \<Rightarrow> Message \<Rightarrow> string \<Rightarrow> bool \<Rightarrow> TokenUsage option \<Rightarrow> (string, string) gomap \<Rightarrow> effect list \<times> bool" where
  "sendResult a n original content failed usage extraMeta =
     (let (ws, rp) = buildResultParts a (m_RequestID original) content failed;
          msgType = (if m_Type original = TypeReviewRequest then TypeReviewResponse else TypeTaskResult);
          md = (if failed then mput ''status'' ''failed'' [] else []);
          md = (if msgType = TypeReviewResponse \<and> \<not> failed \<and> extractVerdict content \<noteq> ''''
                then mput ''verdict'' (extractVerdict content) md else md);
          (es, ok) = transmit a \<lparr>m_ID = fst (ae_Stamp a n), m_RequestID = m_RequestID original,
            m_From = ae_Name a, m_To = m_From original, m_Type = msgType, m_Parts = rp_parts rp,
            m_Metadata = put_all extraMeta md, m_TokenUsage = usage, m_Timestamp = snd (ae_Stamp a n)\<rparr>
      in (ws @ es, ok))"

definition escalation :: "AgentEnv \<Rightarrow> nat \<Rightarrow> Message \<Rightarrow> string \<Rightarrow> Message" where
  "escalation a n original reason =
     \<lparr>m_ID = fst (ae_Stamp a n), m_RequestID = m_RequestID original, m_From = ae_Name a,
      m_To = ae_EscalationTarget a, m_Type = TypeEscalation,
      m_Parts = [TextPart reason,
        DataPart [(''original_from'', AStr (m_From original)), (''original_task'', AStr (extractText original))]],
      m_Metadata = [], m_TokenUsage = None, m_Timestamp = snd (ae_Stamp a n)\<rparr>"

text \<open>The outcome of sending the escalation itself is only logged.\<close>

definition escalate_task :: "AgentEnv \<Rightarrow> nat \<Rightarrow> Message \<Rightarrow> string \<Rightarrow> effect list \<times> bool" where
  "escalate_task a n original reason =
     (if ae_EscalationTarget a = '''' then
        sendResult a n original (''Cannot complete task: '' @ reason @ '' (no escalation target)'') True None
          (taskMeta original)
      else
        (let (es, _) = transmit a (escalation a n original reason);
             (fs, ok) = sendResult a (n + 1) original
               (''Escalated to '' @ ae_EscalationTarget a @ '': '' @ reason) True None (taskMeta original)
         in (es @ fs, ok)))"

section \<open>Messages of a loop\<close>

definition carry :: "Message \<Rightarrow> string \<Rightarrow> (string, string) gomap \<Rightarrow> (string, string) gomap" where
  "carry original k md =
     (let v = trim_space (meta original k) in if v \<noteq> '''' then mput k v md else md)"

definition sendLoopStatusUpdate :: "AgentEnv \<Rightarrow> nat \<Rightarrow> Message \<Rightarrow> LoopContext \<Rightarrow> effect list" where
  "sendLoopStatusUpdate a n original lc =
     (let cur = ls_CurrentState (lc_State lc);
          md = [(''task_id'', lc_TaskID lc), (''loop_id'', ld_ID (lc_Definition lc)), (''loop_state'', cur)];
          md = (if lc_DispatchNonce lc \<noteq> '''' then mput ''dispatch_nonce'' (lc_DispatchNonce lc) md else md);
          md = carry original ''execution_node'' (carry original ''assigned_instance'' md)
      in fst (transmit a \<lparr>m_ID = fst (ae_Stamp a n), m_RequestID = m_RequestID original,
           m_From = ae_Name a, m_To = lc_Conductor lc, m_Type = TypeStatusUpdate,
           m_Parts = [TextPart (''Loop state '' @ cur @ '' active on '' @ ae_Name a)],
           m_Metadata = md, m_TokenUsage = None, m_Timestamp = snd (ae_Stamp a n)\<rparr>))"

definition part_name :: "Part \<Rightarrow> string option" where
  "part_name p = (case p of FilePart _ _ n \<Rightarrow> Some n | _ \<Rightarrow> None)"

text \<open>The parts of a loop result: a reviewer's text gives way to the summary of the worker.\<close>

definition loop_result_parts :: "resultParts \<Rightarrow> LoopContext \<Rightarrow> Part list" where
  "loop_result_parts rp lc =
     (if lc_WorkSummary lc \<noteq> '''' \<and> IsReviewState (lc_Definition lc) (ls_CurrentState (lc_State lc)) then
        (let parts = (rp_parts rp)[0 := TextPart (lc_WorkSummary lc)]
         in if lc_WorkArtifactURI lc \<noteq> '''' \<and> lc_WorkArtifactFiles lc \<noteq> [] then
              parts @ map (\<lambda>name. FilePart (lc_WorkArtifactURI lc @ name) (mimeForPath name) name)
                (filter (\<lambda>name. Some name \<notin> part_name ` set parts) (lc_WorkArtifactFiles lc))
            else parts)
      else rp_parts rp)"

definition loop_result ::
  "AgentEnv \<Rightarrow> nat \<Rightarrow> Message \<Rightarrow> resultParts \<Rightarrow> TokenUsage option \<Rightarrow> LoopContext \<Rightarrow> bool \<Rightarrow> bool \<Rightarrow> Message" where
  "loop_result a n original rp usage lc escalated failed =
     (let md = [(''task_id'', lc_TaskID lc), (''loop_id'', ld_ID (lc_Definition lc))];
          md = (if lc_DispatchNonce lc \<noteq> '''' then mput ''dispatch_nonce'' (lc_DispatchNonce lc) md else md);
          md = (if escalated then mput ''loop_escalated'' ''true'' md else md);
          md = (if failed then mput ''status'' ''failed'' md else md);
          md = carry original ''execution_node'' (carry original ''assigned_instance'' md)
      in \<lparr>m_ID = fst (ae_Stamp a n), m_RequestID = m_RequestID original, m_From = ae_Name a,
          m_To = lc_Conductor lc, m_Type = TypeTaskResult, m_Parts = loop_result_parts rp lc,
          m_Metadata = md, m_TokenUsage = usage, m_Timestamp = snd (ae_Stamp a n)\<rparr>)"

definition sendLoopResult ::
  "AgentEnv \<Rightarrow> nat \<Rightarrow> Message \<Rightarrow> resultParts \<Rightarrow> TokenUsage option \<Rightarrow> LoopContext \<Rightarrow> bool \<Rightarrow> bool \<Rightarrow> effect list \<times> bool" where
  "sendLoopResult a n original rp usage lc escalated failed =
     transmit a (loop_result a n original rp usage lc escalated failed)"

definition failLoopTask :: "AgentEnv \<Rightarrow> nat \<Rightarrow> Message \<Rightarrow> LoopContext \<Rightarrow> string \<Rightarrow> effect list \<times> bool" where
  "failLoopTask a n original lc reason =
     (if ae_EscalationTarget a \<noteq> '''' then
        (let (es, _) = transmit a (escalation a n original reason);
             (ws, rp) = buildResultParts a (m_RequestID original)
               (''Escalated to '' @ ae_EscalationTarget a @ '': '' @ reason) True;
             (fs, ok) = sendLoopResult a (n + 1) original rp None lc False True
         in (es @ ws @ fs, ok))
      else
        (let (ws, rp) = buildResultParts a (m_RequestID original) (''Cannot complete task: '' @ reason) True;
             (fs, ok) = sendLoopResult a n original rp None lc False True
         in (ws @ fs, ok)))"

end
