(* ===== verification/LoopRouting.thy ===== *)
theory LoopRouting
  imports AgentResult
begin

text \<open>
  One hop of a review loop and the handling of a task (internal/agent/agent.go: executeTask,
  completeLoopStep, forwardLoopMessage). The answers of the model are the calls' outcomes in order;
  materialising files for the model's tools changes nothing that the messages depend on.
\<close>

section \<open>Reading the verdict of a hop\<close>

definition no_tools_feedback :: string where
  "no_tools_feedback = ''VERDICT: revise'' @ newline @ newline @
     ''You must use shell tools to read implementation files before approving. Read the files, compare values, then issue your verdict.''"

definition review_verdict :: "AgentEnv \<Rightarrow> LoopContext \<Rightarrow> int \<Rightarrow> string \<Rightarrow> string \<times> string" where
  "review_verdict a lc toolCallCount content =
     (if IsReviewState (lc_Definition lc) (ls_CurrentState (lc_State lc)) then
        (let verdict = extractVerdictFromEnvelope (ae_Valid a) (ae_Decode a) content;
             (verdict, content) =
               (if verdict = ''approved'' \<and> toolCallCount = 0 \<and> ae_HasToolExecutor a
                then (''revise'', no_tools_feedback) else (verdict, content))
         in if verdict = ''approved'' then
              (case requireReviewEvidenceForApproval (parseSummary content) lc of
                 Some forcedFeedback \<Rightarrow> (''revise'', forcedFeedback)
               | None \<Rightarrow> (verdict, content))
            else (verdict, content))
      else ('''', content))"

section \<open>Forwarding to the next agent\<close>

definition worker_state :: "LoopContext \<Rightarrow> bool" where
  "worker_state lc \<longleftrightarrow> \<not> IsReviewState (lc_Definition lc) (ls_CurrentState (lc_State lc))"

definition forwarded_context :: "LoopContext \<Rightarrow> string \<Rightarrow> resultParts \<Rightarrow> LoopState \<Rightarrow> LoopContext" where
  "forwarded_context lc summary rp newState =
     (let produced = worker_state lc \<and> rp_files rp \<noteq> []
      in \<lparr>lc_Definition = lc_Definition lc, lc_State = newState, lc_TaskID = lc_TaskID lc,
          lc_Conductor = lc_Conductor lc, lc_OriginalTask = lc_OriginalTask lc,
          lc_UserRequest = lc_UserRequest lc, lc_DepParts = lc_DepParts lc,
          lc_AssignedInstances = lc_AssignedInstances lc, lc_ExecutionNodes = lc_ExecutionNodes lc,
          lc_WorkSummary = (if worker_state lc then mergeWorkSummary (lc_WorkSummary lc) summary
                            else lc_WorkSummary lc),
          lc_WorkArtifactURI = (if produced then rp_dir rp @ ''/'' else lc_WorkArtifactURI lc),
          lc_WorkArtifactFiles = (if produced then mergeArtifactFiles (lc_WorkArtifactFiles lc) (rp_files rp)
                                  else lc_WorkArtifactFiles lc),
          lc_DispatchNonce = lc_DispatchNonce lc, lc_DecisionContext = ''''\<rparr>)"

definition feedback_part :: "AgentEnv \<Rightarrow> LoopContext \<Rightarrow> string \<Rightarrow> LoopContext \<Rightarrow> Part" where
  "feedback_part a lc summary updatedLC =
     (let d = [(''dependency_id'', AStr (lc_TaskID lc)), (''dependency_agent'', AStr (ae_Name a)),
               (''context_kind'', AStr ''loop_feedback''),
               (''result'', AStr (if worker_state lc then lc_WorkSummary updatedLC else summary))]
      in DataPart
          (if lc_WorkArtifactURI updatedLC \<noteq> '''' \<and> lc_WorkArtifactFiles updatedLC \<noteq> []
           then d @ [(''artifact_uri'', AStr (lc_WorkArtifactURI updatedLC)),
                     (''artifact_files'', AStrings (lc_WorkArtifactFiles updatedLC))]
           else d))"

definition forward_parts ::
  "AgentEnv \<Rightarrow> string \<Rightarrow> resultParts \<Rightarrow> string \<Rightarrow> LoopState \<Rightarrow> LoopContext \<Rightarrow> string \<Rightarrow> Part list" where
  "forward_parts a summary rp verdict newState lc nextStateName =
     (let def = lc_Definition lc; updatedLC = forwarded_context lc summary rp newState
      in [TextPart (BuildStatePrompt (lc_OriginalTask lc) def nextStateName verdict summary
            (lc_DecisionContext lc) (if verdict = ''revise'' then lc_WorkArtifactFiles lc else []))]
         @ (if lc_UserRequest lc \<noteq> '''' then [DataPart [(''user_request'', AStr (lc_UserRequest lc))]] else [])
         @ map DataPart (FilterDepParts (lc_DepParts lc) def nextStateName verdict (AgentForState def nextStateName))
         @ [feedback_part a lc summary updatedLC]
         @ [EncodeContext updatedLC])"

definition put_nonempty :: "string \<Rightarrow> string \<Rightarrow> (string, string) gomap \<Rightarrow> (string, string) gomap" where
  "put_nonempty k v m = (if v \<noteq> '''' then mput k v m else m)"

definition forward_message ::
  "AgentEnv \<Rightarrow> nat \<Rightarrow> Message \<Rightarrow> string \<Rightarrow> resultParts \<Rightarrow> string \<Rightarrow> LoopState \<Rightarrow> LoopContext \<Rightarrow> string \<Rightarrow> Message" where
  "forward_message a n original summary rp verdict newState lc nextStateName =
     (let def = lc_Definition lc; nextAgent = AgentForState def nextStateName;
          md = [(''task_id'', lc_TaskID lc), (''loop_id'', ld_ID def), (''loop_state'', nextStateName)];
          md = put_nonempty ''task_scope'' (meta original ''task_scope'') md;
          md = put_nonempty ''assigned_instance'' (mget0 '''' (lc_AssignedInstances lc) nextAgent) md;
          md = put_nonempty ''execution_node'' (mget0 '''' (lc_ExecutionNodes lc) nextAgent) md
      in \<lparr>m_ID = fst (ae_Stamp a n), m_RequestID = m_RequestID original, m_From = ae_Name a, m_To = nextAgent,
          m_Type = (if IsReviewState def nextStateName then TypeReviewRequest else TypeTaskAssignment),
          m_Parts = forward_parts a summary rp verdict newState lc nextStateName,
          m_Metadata = md, m_TokenUsage = None, m_Timestamp = snd (ae_Stamp a n)\<rparr>)"

definition forwardLoopMessage ::
  "AgentEnv \<Rightarrow> nat \<Rightarrow> Message \<Rightarrow> string \<Rightarrow> resultParts \<Rightarrow> string \<Rightarrow> LoopState \<Rightarrow> LoopContext \<Rightarrow> string \<Rightarrow>
     effect list \<times> bool" where
  "forwardLoopMessage a n original summary rp verdict newState lc nextStateName =
     (if AgentForState (lc_Definition lc) nextStateName = '''' then ([], False)
      else transmit a (forward_message a n original summary rp verdict newState lc nextStateName))"

section \<open>Completing a hop\<close>

definition loop_event :: "LoopContext \<Rightarrow> LoopState \<Rightarrow> string \<Rightarrow> effect" where
  "loop_event lc st verdict = EEvent
     \<lparr>ev_TaskID = lc_TaskID lc, ev_LoopID = ld_ID (lc_Definition lc),
      ev_FromState = ls_CurrentState (lc_State lc), ev_ToState = ls_CurrentState st,
      ev_Verdict = verdict, ev_LoopCount = ls_TransitionCount st\<rparr>"

text \<open>Artifacts are written and the result of the loop is sent.\<close>

definition finish_loop ::
  "AgentEnv \<Rightarrow> nat \<Rightarrow> Message \<Rightarrow> string \<Rightarrow> TokenUsage option \<Rightarrow> LoopContext \<Rightarrow> bool \<Rightarrow> effect list \<times> bool" where
  "finish_loop a n msg content usage lc escalated =
     (let (ws, rp) = buildResultParts a (m_RequestID msg) content False;
          (es, ok) = sendLoopResult a n msg rp usage lc escalated False
      in (ws @ es, ok))"

definition completeLoopStep ::
  "AgentEnv \<Rightarrow> nat \<Rightarrow> Message \<Rightarrow> string \<Rightarrow> TokenUsage option \<Rightarrow> LoopContext \<Rightarrow> int \<Rightarrow> effect list \<times> bool" where
  "completeLoopStep a n msg content0 usage lc toolCallCount =
     (let def = lc_Definition lc; cur = ls_CurrentState (lc_State lc);
          (verdict, content) = review_verdict a lc toolCallCount content0
      in case ResolveNextState def cur verdict of
           Inl _ \<Rightarrow> finish_loop a n msg content usage lc True
         | Inr nextState \<Rightarrow>
             (case Transition_to (RestoreFSM def (lc_State lc)) nextState of
                (_, Inl _) \<Rightarrow> finish_loop a n msg content usage lc True
              | (f, Inr Escalated) \<Rightarrow>
                  (let (es, ok) = finish_loop a n msg content usage lc True
                   in (loop_event lc (fsm_state f) ''escalated'' # es, ok))
              | (f, Inr Transitioned) \<Rightarrow>
                  (let ev = loop_event lc (fsm_state f) verdict
                   in if IsTerminal f then
                        (let (es, ok) = finish_loop a n msg content usage lc False in (ev # es, ok))
                      else
                        (let (ws, rp) = buildResultParts a (m_RequestID msg) content False;
                             summary = parseSummary content;
                             summary = (if IsReviewState def cur then reviewFeedbackSummary summary verdict else summary);
                             (es, ok) = forwardLoopMessage a n msg summary rp verdict (fsm_state f) lc nextState
                         in if ok then (ev # ws @ es, True)
                            else
                              (let (fs, ok) = sendLoopResult a (n + length (sends es)) msg rp usage lc True False
                               in (ev # ws @ es @ fs, ok))))))"

section \<open>Handling a task\<close>

definition ask_user_prefix :: string where "ask_user_prefix = ''ASK_USER:''"

definition stripUserQueryLines :: "string \<Rightarrow> string" where
  "stripUserQueryLines content =
     join newline (filter (\<lambda>l. \<not> has_prefix (to_upper (trim_space l)) ask_user_prefix)
       (split_on (char_of (10 :: nat)) content))"

definition line_query :: "string \<Rightarrow> string option" where
  "line_query line =
     (let trimmed = trim_space line; question = trim_space (drop (length ask_user_prefix) trimmed)
      in if has_prefix (to_upper trimmed) ask_user_prefix \<and> question \<noteq> '''' then Some question else None)"

definition extractUserQuery :: "string \<Rightarrow> string option" where
  "extractUserQuery content = first_some line_query (split_on (char_of (10 :: nat)) content)"

text \<open>What a call of the model with its tools returns: content, number of tool calls, failed verification.\<close>

datatype gen = GenError string | GenOk string int bool

definition user_query :: "AgentEnv \<Rightarrow> nat \<Rightarrow> Message \<Rightarrow> string \<Rightarrow> Message" where
  "user_query a n original question =
     \<lparr>m_ID = fst (ae_Stamp a n), m_RequestID = m_RequestID original, m_From = ae_Name a, m_To = ''conductor'',
      m_Type = TypeUserQuery, m_Parts = [TextPart question],
      m_Metadata = [(''task_id'', meta original ''task_id'')], m_TokenUsage = None,
      m_Timestamp = snd (ae_Stamp a n)\<rparr>"

text \<open>
  At most three questions to the user. Whether an answer came only changes what the model is asked
  next, hence its next answer: the k-th call of the model returns \<open>g k\<close>.
\<close>

fun ask_loop ::
  "nat \<Rightarrow> AgentEnv \<Rightarrow> nat \<Rightarrow> Message \<Rightarrow> (nat \<Rightarrow> gen) \<Rightarrow> nat \<Rightarrow> string \<Rightarrow> int \<Rightarrow> bool \<Rightarrow> effect list \<times> gen" where
  "ask_loop 0 a n original g k content tools vf = ([], GenOk content tools vf)"
| "ask_loop (Suc m) a n original g k content tools vf =
     (case extractUserQuery content of
        None \<Rightarrow> ([], GenOk content tools vf)
      | Some question \<Rightarrow>
          (let (es, _) = transmit a (user_query a n original question)
           in case g k of
                GenError e \<Rightarrow> (es, GenError (''model call failed after user answer: '' @ e))
              | GenOk content' tools' vf' \<Rightarrow>
                  (let (fs, r) = ask_loop m a (n + 1) original g (k + 1) content' tools' vf' in (es @ fs, r))))"

definition generate_answer :: "AgentEnv \<Rightarrow> nat \<Rightarrow> Message \<Rightarrow> (nat \<Rightarrow> gen) \<Rightarrow> effect list \<times> gen" where
  "generate_answer a n original g =
     (case g 0 of
        GenError e \<Rightarrow> ([], GenError (''model call failed: '' @ e))
      | GenOk content tools vf \<Rightarrow> ask_loop 3 a n original g 1 content tools vf)"

text \<open>The budget check of the meter is an argument: the text of its error, or none.\<close>

definition executeTask :: "AgentEnv \<Rightarrow> Message \<Rightarrow> string option \<Rightarrow> (nat \<Rightarrow> gen) \<Rightarrow> effect list \<times> bool" where
  "executeTask a msg budget g =
     (case DecodeContext msg of
        Some lc \<Rightarrow>
          (let st = sendLoopStatusUpdate a 0 msg lc; n = length (sends st)
           in case budget of
                Some e \<Rightarrow> (let (es, ok) = failLoopTask a n msg lc (''Budget exceeded: '' @ e) in (st @ es, ok))
              | None \<Rightarrow>
                  (let (qs, r) = generate_answer a n msg g; n' = n + length (sends qs)
                   in case r of
                        GenError e \<Rightarrow> (let (es, ok) = failLoopTask a n' msg lc e in (st @ qs @ es, ok))
                      | GenOk content tools vf \<Rightarrow>
                          (let (es, ok) = completeLoopStep a n' msg (stripUserQueryLines content) (ae_Usage a) lc tools
                           in (st @ qs @ es, ok))))
      | None \<Rightarrow>
          (case budget of
             Some e \<Rightarrow> sendResult a 0 msg (''Budget exceeded: '' @ e) False None (taskMeta msg)
           | None \<Rightarrow>
               (let (qs, r) = generate_answer a 0 msg g; n = length (sends qs)
                in case r of
                     GenError e \<Rightarrow> (let (es, ok) = escalate_task a n msg e in (qs @ es, ok))
                   | GenOk content tools vf \<Rightarrow>
                       (let (es, ok) = sendResult a n msg (stripUserQueryLines content) vf (ae_Usage a) (taskMeta msg)
                        in (qs @ es, ok)))))"

text \<open>The escalation of another agent is answered with one call of the model; its failure ends the matter.\<close>

definition handleEscalation :: "AgentEnv \<Rightarrow> Message \<Rightarrow> (nat \<Rightarrow> gen) \<Rightarrow> effect list \<times> bool" where
  "handleEscalation a msg g =
     (case g 0 of
        GenError _ \<Rightarrow> ([], True)
      | GenOk content _ _ \<Rightarrow>
          transmit a \<lparr>m_ID = fst (ae_Stamp a 0), m_RequestID = m_RequestID msg, m_From = ae_Name a,
            m_To = m_From msg, m_Type = TypeEscalationResponse, m_Parts = [TextPart content],
            m_Metadata = [], m_TokenUsage = ae_ReplyUsage a, m_Timestamp = snd (ae_Stamp a 0)\<rparr>)"

definition handleMessage :: "AgentEnv \<Rightarrow> Message \<Rightarrow> string option \<Rightarrow> (nat \<Rightarrow> gen) \<Rightarrow> effect list \<times> bool" where
  "handleMessage a msg budget g =
     (case m_Type msg of
        TypeTaskAssignment \<Rightarrow> executeTask a msg budget g
      | TypeEscalation \<Rightarrow> handleEscalation a msg g
      | TypeEscalationResponse \<Rightarrow> ([], True)
      | TypeReviewRequest \<Rightarrow> executeTask a msg budget g
      | _ \<Rightarrow> ([], True))"

end
