(* ===== verification/LoopRun.thy ===== *)
theory LoopRun
  imports LoopRouting
begin

text \<open>
  Whole review loops: what one hop sends (a result to the conductor, or the task to the next agent),
  and that a loop ends with a result after a bounded number of hops, whatever the models answer and
  whichever messages cannot be delivered.
\<close>

section \<open>What is sent besides writes\<close>

lemma fold_fst_inv:
  "P (fst acc) \<Longrightarrow> (\<And>x acc. P (fst acc) \<Longrightarrow> P (fst (f x acc))) \<Longrightarrow> P (fst (fold f xs acc))"
  by (induction xs arbitrary: acc) auto

lemma sends_persist_file: "sends (fst acc) = [] \<Longrightarrow> sends (fst (persist_file a ps f acc)) = []"
  by (simp add: persist_file_def Let_def split_beta)

lemma sends_tool_output: "sends (fst acc) = [] \<Longrightarrow> sends (fst (tool_output a f acc)) = []"
  by (simp add: tool_output_def Let_def split_beta)

lemma sends_write_block: "sends (fst acc) = [] \<Longrightarrow> sends (fst (write_block a f acc)) = []"
  by (simp add: write_block_def Let_def split_beta)

lemma sends_write_trace: "sends (fst acc) = [] \<Longrightarrow> sends (fst (write_trace a d n t acc)) = []"
  by (simp add: write_trace_def Let_def split_beta)

lemma sends_set_text [simp]: "fst (set_text t acc) = fst acc"
  by (simp add: set_text_def)

lemma sends_persist: "sends (fst (persistScratchToShared a rp bs)) = []"
  unfolding persistScratchToShared_def
  by (auto intro!: fold_fst_inv [where P = "\<lambda>es. sends es = []"] sends_persist_file)

lemma sends_blocks: "sends (fst acc) = [] \<Longrightarrow> sends (fst (fold (write_block a) bs acc)) = []"
  by (rule fold_fst_inv [where P = "\<lambda>es. sends es = []"]) (auto intro: sends_write_block)

lemma sends_tools: "sends (fst acc) = [] \<Longrightarrow> sends (fst (fold (tool_output a) xs acc)) = []"
  by (rule fold_fst_inv [where P = "\<lambda>es. sends es = []"]) (auto intro: sends_tool_output)

lemma sends_build [simp]: "sends (fst (buildResultParts a rid content failed)) = []"
  unfolding buildResultParts_def Let_def
  by (auto simp: split_beta sends_persist intro!: sends_tools sends_write_trace sends_blocks)

section \<open>The messages of one hop\<close>

definition is_loop_result :: "LoopContext \<Rightarrow> Message \<Rightarrow> bool" where
  "is_loop_result lc m \<longleftrightarrow>
     m_Type m = TypeTaskResult \<and> m_To m = lc_Conductor lc \<and> meta m ''task_id'' = lc_TaskID lc \<and>
     meta m ''loop_id'' = ld_ID (lc_Definition lc) \<and>
     (lc_DispatchNonce lc \<noteq> '''' \<longrightarrow> meta m ''dispatch_nonce'' = lc_DispatchNonce lc)"

lemma mget0_carry [simp]:
  "k' \<noteq> k \<Longrightarrow> mget0 z (carry original k md) k' = mget0 z md k'"
  by (simp add: carry_def Let_def)

lemma mget0_Cons: "mget0 z ((k, v) # m) k' = (if k = k' then v else mget0 z m k')"
  by (simp add: mget0_def)

lemma loop_result_is: "is_loop_result lc (loop_result a n original rp usage lc escalated failed)"
  by (simp add: is_loop_result_def loop_result_def meta_def Let_def mget0_Cons)

lemma sends_transmit [simp]: "sends (fst (transmit a m)) = [m]" "snd (transmit a m) = ae_SendOK a m"
  by (simp_all add: transmit_def)

lemma sends_finish [simp]:
  "\<exists>r. sends (fst (finish_loop a n msg content usage lc escalated)) = [r] \<and> is_loop_result lc r"
  by (auto simp: finish_loop_def Let_def split_beta sendLoopResult_def intro!: loop_result_is)

lemma sends_failLoopTask:
  "\<exists>pre r. sends (fst (failLoopTask a n msg lc reason)) = pre @ [r] \<and> is_loop_result lc r \<and>
     (\<forall>m \<in> set pre. m_Type m = TypeEscalation)"
proof (cases "ae_EscalationTarget a = ''''")
  case True
  then show ?thesis
    by (auto simp: failLoopTask_def Let_def split_beta sendLoopResult_def intro!: exI [of _ "[]"] loop_result_is)
next
  case False
  then show ?thesis
    by (auto simp: failLoopTask_def Let_def split_beta sendLoopResult_def escalation_def
        intro!: exI [of _ "[escalation a n msg reason]"] loop_result_is)
qed

text \<open>The message that a hop forwards when it stays in the loop.\<close>

definition hop_forward :: "AgentEnv \<Rightarrow> Message \<Rightarrow> LoopContext \<Rightarrow> Message \<Rightarrow> bool" where
  "hop_forward a msg lc m \<longleftrightarrow>
     (\<exists>n summary rp verdict f next.
        Transition_to (RestoreFSM (lc_Definition lc) (lc_State lc)) next = (f, Inr Transitioned) \<and>
        \<not> IsTerminal f \<and> AgentForState (lc_Definition lc) next \<noteq> '''' \<and> ae_SendOK a m \<and>
        m = forward_message a n msg summary rp verdict (fsm_state f) lc next)"

lemma forward_type: "m_Type (forward_message a n msg s rp v st lc next) \<in> {TypeTaskAssignment, TypeReviewRequest}"
  by (simp add: forward_message_def Let_def)

lemma completeLoopStep_sends:
  "(\<exists>pre r. sends (fst (completeLoopStep a n msg content usage lc tools)) = pre @ [r] \<and> is_loop_result lc r \<and>
      (\<forall>m \<in> set pre. \<not> ae_SendOK a m \<and> m_Type m \<in> {TypeTaskAssignment, TypeReviewRequest})) \<or>
   (\<exists>m. sends (fst (completeLoopStep a n msg content usage lc tools)) = [m] \<and> hop_forward a msg lc m)"
proof -
  obtain verdict content' where v: "review_verdict a lc tools content = (verdict, content')"
    by (cases "review_verdict a lc tools content")
  show ?thesis
  proof (cases "ResolveNextState (lc_Definition lc) (ls_CurrentState (lc_State lc)) verdict")
    case (Inl e)
    have "fst (completeLoopStep a n msg content usage lc tools) = fst (finish_loop a n msg content' usage lc True)"
      by (simp add: completeLoopStep_def v Inl)
    with sends_finish show ?thesis by (metis append_Nil empty_iff empty_set)
  next
    case (Inr nextState)
    show ?thesis
    proof (cases rule: Transition_to_cases [of "RestoreFSM (lc_Definition lc) (lc_State lc)" nextState])
      case (error e)
      have "fst (completeLoopStep a n msg content usage lc tools) = fst (finish_loop a n msg content' usage lc True)"
        by (simp add: completeLoopStep_def v Inr error)
      with sends_finish show ?thesis by (metis append_Nil empty_iff empty_set)
    next
      case escalated
      have "sends (fst (completeLoopStep a n msg content usage lc tools)) =
          sends (fst (finish_loop a n msg content' usage lc True))"
        by (simp add: completeLoopStep_def v Inr escalated(1) loop_event_def Let_def split_beta)
      with sends_finish show ?thesis by (metis append_Nil empty_iff empty_set)
    next
      case moved
      let ?f = "move (RestoreFSM (lc_Definition lc) (lc_State lc)) nextState"
      let ?summary = "if IsReviewState (lc_Definition lc) (ls_CurrentState (lc_State lc))
        then reviewFeedbackSummary (parseSummary content') verdict else parseSummary content'"
      let ?b = "buildResultParts a (m_RequestID msg) content' False"
      let ?fw = "forwardLoopMessage a n msg ?summary (snd ?b) verdict (fsm_state ?f) lc nextState"
      have eq: "sends (fst (completeLoopStep a n msg content usage lc tools)) =
          (if IsTerminal ?f then sends (fst (finish_loop a n msg content' usage lc False))
           else if snd ?fw then sends (fst ?fw)
           else sends (fst ?fw) @
             [loop_result a (n + length (sends (fst ?fw))) msg (snd ?b) usage lc True False])"
        by (simp add: completeLoopStep_def v Inr moved(1) loop_event_def Let_def sendLoopResult_def
            split_beta)
      show ?thesis
      proof (cases "IsTerminal ?f")
        case True
        with eq sends_finish show ?thesis by (metis append_Nil empty_iff empty_set)
      next
        case nonterm: False
        let ?m = "forward_message a n msg ?summary (snd ?b) verdict (fsm_state ?f) lc nextState"
        show ?thesis
        proof (cases "AgentForState (lc_Definition lc) nextState \<noteq> '''' \<and> ae_SendOK a ?m")
          case True
          then have "hop_forward a msg lc ?m"
            unfolding hop_forward_def using moved(1) nonterm by blast
          with eq True nonterm show ?thesis by (simp add: forwardLoopMessage_def)
        next
          case False
          then have "\<exists>pre. sends (fst ?fw) = pre \<and> \<not> snd ?fw \<and>
              (\<forall>m \<in> set pre. \<not> ae_SendOK a m \<and> m_Type m \<in> {TypeTaskAssignment, TypeReviewRequest})"
            using forward_type by (auto simp: forwardLoopMessage_def simp del: insert_iff)
          with eq nonterm loop_result_is show ?thesis by metis
        qed
      qed
    qed
  qed
qed

section \<open>What a forwarded message carries\<close>

lemma mget_compact: "k \<noteq> ''result'' \<Longrightarrow> mget (compactDepPart d) k = mget d k"
  by (simp add: compactDepPart_def Let_def)

lemma FilterDepParts_keys:
  assumes "\<forall>d \<in> set ds. mget d ''loop_context'' = None"
  shows "\<forall>d \<in> set (FilterDepParts ds def next verdict agent). mget d ''loop_context'' = None"
  using assms by (auto simp: FilterDepParts_def mget_compact)

lemma no_context_simps [simp]:
  "no_context []" "no_context (ps @ qs) \<longleftrightarrow> no_context ps \<and> no_context qs"
  "no_context (TextPart t # ps) \<longleftrightarrow> no_context ps"
  "no_context (DataPart d # ps) \<longleftrightarrow> mget d ''loop_context'' = None \<and> no_context ps"
  by (auto simp: no_context_def)

lemma no_context_deps: "\<forall>d \<in> set ds. mget d ''loop_context'' = None \<Longrightarrow> no_context (map DataPart ds)"
  by (auto simp: no_context_def)

lemma no_context_feedback: "no_context [feedback_part a lc s lc']"
  by (simp add: feedback_part_def Let_def)

lemma forward_decodes:
  assumes "\<forall>d \<in> set (lc_DepParts lc). mget d ''loop_context'' = None"
    and "exact_int (ld_MaxTransitions (lc_Definition lc))" and "exact_int (ls_TransitionCount st)"
  shows "DecodeContext (forward_message a n msg s rp v st lc next) =
    Some (json_context (forwarded_context lc s rp st))"
proof -
  let ?lc = "forwarded_context lc s rp st"
  obtain ps where ps: "forward_parts a s rp v st lc next = ps @ [EncodeContext ?lc]" and "no_context ps"
    unfolding forward_parts_def Let_def append_assoc [symmetric]
    using no_context_deps [OF FilterDepParts_keys [OF assms(1)]] no_context_feedback
    by (auto simp del: append_assoc)
  moreover have "exact_int (ld_MaxTransitions (lc_Definition ?lc))" and "exact_int (ls_TransitionCount (lc_State ?lc))"
    using assms(2,3) by (simp_all add: forwarded_context_def Let_def)
  ultimately show ?thesis
    by (simp add: DecodeContext_def forward_message_def Let_def decode_parts_skip decode_encoded)
qed

section \<open>From hop to hop\<close>

text \<open>The contexts a loop runs with: a live FSM, counters of 53 bits, the key of the context unused.\<close>

definition loop_ok :: "LoopContext \<Rightarrow> bool" where
  "loop_ok lc \<longleftrightarrow>
     (let f = RestoreFSM (lc_Definition lc) (lc_State lc)
      in fsm_inv (lc_Definition lc) f \<and> \<not> IsTerminal f \<and> exact_int (ld_MaxTransitions (lc_Definition lc)) \<and>
         (\<forall>d \<in> set (lc_DepParts lc). mget d ''loop_context'' = None))"

definition budget_left :: "LoopContext \<Rightarrow> int" where
  "budget_left lc = ld_MaxTransitions (lc_Definition lc) - ls_TransitionCount (lc_State lc)"

definition hop_step :: "LoopContext \<Rightarrow> LoopContext \<Rightarrow> bool" where
  "hop_step lc lc' \<longleftrightarrow>
     lc_Definition lc' = lc_Definition lc \<and> lc_TaskID lc' = lc_TaskID lc \<and>
     lc_Conductor lc' = lc_Conductor lc \<and> lc_OriginalTask lc' = lc_OriginalTask lc \<and>
     lc_UserRequest lc' = lc_UserRequest lc \<and> lc_DispatchNonce lc' = lc_DispatchNonce lc \<and>
     lc_DepParts lc' = map json_data (lc_DepParts lc) \<and> lc_DecisionContext lc' = '''' \<and>
     (\<exists>t \<in> set (ld_Transitions (lc_Definition lc)).
        tr_From t = ls_CurrentState (lc_State lc) \<and> tr_To t = ls_CurrentState (lc_State lc')) \<and>
     ls_TransitionCount (lc_State lc') = ls_TransitionCount (lc_State lc) + 1 \<and> 0 < budget_left lc"

lemma hop_forward_step:
  assumes ok: "loop_ok lc" and fw: "hop_forward a msg lc m"
  shows "\<exists>lc'. DecodeContext m = Some lc' \<and> loop_ok lc' \<and> hop_step lc lc' \<and>
    m_To m = AgentForState (lc_Definition lc) (ls_CurrentState (lc_State lc')) \<and> m_To m \<noteq> '''' \<and>
    m_Type m \<in> {TypeTaskAssignment, TypeReviewRequest} \<and> ae_SendOK a m"
proof -
  let ?f = "RestoreFSM (lc_Definition lc) (lc_State lc)"
  from fw obtain n summary rp verdict f "next" where
    tr: "Transition_to ?f next = (f, Inr Transitioned)" and nt: "\<not> IsTerminal f"
    and ag: "AgentForState (lc_Definition lc) next \<noteq> ''''" and snd: "ae_SendOK a m"
    and m: "m = forward_message a n msg summary rp verdict (fsm_state f) lc next"
    unfolding hop_forward_def by blast
  have inv: "fsm_inv (lc_Definition lc) ?f" and ex: "exact_int (ld_MaxTransitions (lc_Definition lc))"
    and deps: "\<forall>d \<in> set (lc_DepParts lc). mget d ''loop_context'' = None"
    using ok by (simp_all add: loop_ok_def Let_def)
  have f: "f = move ?f next" and lt: "ls_TransitionCount (lc_State lc) < ld_MaxTransitions (lc_Definition lc)"
    and t: "\<exists>t \<in> set (ld_Transitions (lc_Definition lc)). tr_From t = ls_CurrentState (lc_State lc) \<and> tr_To t = next"
    using tr by (auto simp: Transition_to_def Let_def RestoreFSM_def not_le split: if_splits)
  have inv': "fsm_inv (lc_Definition lc) f"
    using fsm_inv_transition [OF inv, of "next"] tr by simp
  have cnt: "ls_TransitionCount (fsm_state f) = ls_TransitionCount (lc_State lc) + 1"
    and cur: "ls_CurrentState (fsm_state f) = next" and fdef: "fsm_def f = lc_Definition lc"
    by (simp_all add: f RestoreFSM_def)
  have "0 \<le> ls_TransitionCount (fsm_state f)" using inv' by (simp add: fsm_inv_def)
  then have "exact_int (ls_TransitionCount (fsm_state f))"
    using lt cnt ex by (simp add: exact_int_def)
  with deps ex have dec: "DecodeContext m = Some (json_context (forwarded_context lc summary rp (fsm_state f)))"
    unfolding m by (intro forward_decodes)
  have rest: "RestoreFSM (lc_Definition lc) (fsm_state f) = f"
    using fdef by (simp add: RestoreFSM_def)
  show ?thesis
  proof (intro exI conjI)
    show "loop_ok (json_context (forwarded_context lc summary rp (fsm_state f)))"
      using inv' nt ex deps
      by (simp add: loop_ok_def Let_def json_context_def forwarded_context_def rest mget_json_data)
    show "hop_step lc (json_context (forwarded_context lc summary rp (fsm_state f)))"
      using t cnt cur lt
      by (simp add: hop_step_def json_context_def forwarded_context_def Let_def budget_left_def)
    show "m_Type m \<in> {TypeTaskAssignment, TypeReviewRequest}" unfolding m by (rule forward_type)
  qed (use dec snd ag cur in \<open>simp_all add: m forward_message_def Let_def json_context_def forwarded_context_def\<close>)
qed

section \<open>A task of the loop at an agent\<close>

lemma ask_loop_types:
  "\<forall>m \<in> set (sends (fst (ask_loop k a n msg g j c t v))). m_Type m = TypeUserQuery"
  by (induction k arbitrary: n j c t v)
     (auto simp: Let_def split_beta user_query_def split: option.split gen.split)

lemma generate_types:
  "\<forall>m \<in> set (sends (fst (generate_answer a n msg g))). m_Type m = TypeUserQuery"
  by (auto simp: generate_answer_def ask_loop_types split: gen.split)

text \<open>The results and the hand-overs among the messages of a hop.\<close>

definition results :: "effect list \<Rightarrow> Message list" where
  "results es = filter (\<lambda>m. m_Type m = TypeTaskResult) (sends es)"

definition hand_overs :: "effect list \<Rightarrow> Message list" where
  "hand_overs es = filter (\<lambda>m. m_Type m \<in> {TypeTaskAssignment, TypeReviewRequest}) (sends es)"

lemma filter_types:
  "(\<And>m. m \<in> set ms \<Longrightarrow> m_Type m \<notin> T) \<Longrightarrow> filter (\<lambda>m. m_Type m \<in> T) ms = []"
  by (auto simp: filter_empty_conv)

lemma status_type: "\<forall>m \<in> set (sends (sendLoopStatusUpdate a n msg lc)). m_Type m = TypeStatusUpdate"
  by (simp add: sendLoopStatusUpdate_def Let_def)

lemma executeTask_loop:
  assumes "DecodeContext msg = Some lc"
  obtains (failed) pre n reason where
      "sends (fst (executeTask a msg budget g)) = pre @ sends (fst (failLoopTask a n msg lc reason))"
      "\<forall>m \<in> set pre. m_Type m \<in> {TypeStatusUpdate, TypeUserQuery}"
  | (completed) pre n content tools where
      "sends (fst (executeTask a msg budget g)) = pre @ sends (fst (completeLoopStep a n msg content (ae_Usage a) lc tools))"
      "\<forall>m \<in> set pre. m_Type m \<in> {TypeStatusUpdate, TypeUserQuery}"
proof -
  let ?st = "sendLoopStatusUpdate a 0 msg lc"
  let ?n = "length (sends ?st)"
  have st: "\<forall>m \<in> set (sends ?st). m_Type m \<in> {TypeStatusUpdate, TypeUserQuery}"
    using status_type [of a 0 msg lc] by simp
  show thesis
  proof (cases budget)
    case (Some e)
    show thesis
      by (rule failed [of "sends ?st" ?n "''Budget exceeded: '' @ e"])
         (use assms Some st in \<open>simp_all add: executeTask_def Let_def split_beta\<close>)
  next
    case None
    let ?q = "generate_answer a ?n msg g"
    have pre: "\<forall>m \<in> set (sends ?st @ sends (fst ?q)). m_Type m \<in> {TypeStatusUpdate, TypeUserQuery}"
      using st generate_types [of a ?n msg g] by auto
    show thesis
    proof (cases "snd ?q")
      case (GenError e)
      show thesis
        by (rule failed [OF _ pre, of "?n + length (sends (fst ?q))" e])
           (use assms None GenError in \<open>simp add: executeTask_def Let_def split_beta\<close>)
    next
      case (GenOk c t v)
      show thesis
        by (rule completed [OF _ pre, of "?n + length (sends (fst ?q))" "stripUserQueryLines c" t])
           (use assms None GenOk in \<open>simp add: executeTask_def Let_def split_beta\<close>)
    qed
  qed
qed

lemma hop_outcome:
  assumes "DecodeContext msg = Some lc" and "loop_ok lc"
  shows "(\<exists>r. results (fst (executeTask a msg budget g)) = [r] \<and> is_loop_result lc r) \<or>
    results (fst (executeTask a msg budget g)) = [] \<and>
    (\<exists>m. hand_overs (fst (executeTask a msg budget g)) = [m] \<and> hop_forward a msg lc m)"
  using assms(1)
proof (cases rule: executeTask_loop [where a = a and budget = budget and g = g])
  case (failed pre n reason)
  moreover obtain pre' r where "sends (fst (failLoopTask a n msg lc reason)) = pre' @ [r]"
    and "is_loop_result lc r" and "\<forall>m \<in> set pre'. m_Type m = TypeEscalation"
    using sends_failLoopTask by blast
  ultimately have "results (fst (executeTask a msg budget g)) = [r]"
    by (auto simp: results_def filter_empty_conv is_loop_result_def)
  with \<open>is_loop_result lc r\<close> show ?thesis by blast
next
  case (completed pre n content tools)
  from completeLoopStep_sends [of a n msg content "ae_Usage a" lc tools] show ?thesis
  proof (elim disjE exE conjE)
    fix pre' r assume "sends (fst (completeLoopStep a n msg content (ae_Usage a) lc tools)) = pre' @ [r]"
      and r: "is_loop_result lc r"
      and "\<forall>m \<in> set pre'. \<not> ae_SendOK a m \<and> m_Type m \<in> {TypeTaskAssignment, TypeReviewRequest}"
    with completed have "results (fst (executeTask a msg budget g)) = [r]"
      by (auto simp: results_def filter_empty_conv is_loop_result_def)
    with r show ?thesis by blast
  next
    fix m assume *: "sends (fst (completeLoopStep a n msg content (ae_Usage a) lc tools)) = [m]"
      and fw: "hop_forward a msg lc m"
    have "m_Type m \<in> {TypeTaskAssignment, TypeReviewRequest}"
      using hop_forward_step [OF assms(2) fw] by blast
    with completed * have "results (fst (executeTask a msg budget g)) = []"
      and "hand_overs (fst (executeTask a msg budget g)) = [m]"
      by (auto simp: results_def hand_overs_def filter_empty_conv)
    with fw show ?thesis by blast
  qed
qed

section \<open>A whole loop\<close>

text \<open>
  The hops of a loop: the i-th one runs at an agent in the environment \<open>W i\<close>, with the outcome
  \<open>B i\<close> of the budget check and the answers \<open>G i\<close> of the model. It ends with the result of a hop that
  sends one, and goes on with the message handed over otherwise; \<open>None\<close> means that the hops did not
  suffice or that the task was lost.
\<close>

fun run_hops ::
  "nat \<Rightarrow> nat \<Rightarrow> (nat \<Rightarrow> AgentEnv) \<Rightarrow> (nat \<Rightarrow> string option) \<Rightarrow> (nat \<Rightarrow> nat \<Rightarrow> gen) \<Rightarrow> Message \<Rightarrow> Message option" where
  "run_hops 0 i W B G msg = None"
| "run_hops (Suc k) i W B G msg =
     (let es = fst (handleMessage (W i) msg (B i) (G i))
      in case results es of
           r # _ \<Rightarrow> Some r
         | [] \<Rightarrow> (case hand_overs es of [] \<Rightarrow> None | m # _ \<Rightarrow> run_hops k (i + 1) W B G m))"

lemma handleMessage_task:
  "m_Type msg \<in> {TypeTaskAssignment, TypeReviewRequest} \<Longrightarrow> handleMessage a msg b g = executeTask a msg b g"
  by (auto simp: handleMessage_def)

lemma hop_step_result: "hop_step lc lc' \<Longrightarrow> is_loop_result lc' r \<Longrightarrow> is_loop_result lc r"
  by (simp add: hop_step_def is_loop_result_def)

lemma run_hops_result:
  assumes "DecodeContext msg = Some lc" and "loop_ok lc"
    and "m_Type msg \<in> {TypeTaskAssignment, TypeReviewRequest}" and "budget_left lc < int k"
  shows "\<exists>r. run_hops k i W B G msg = Some r \<and> is_loop_result lc r"
  using assms
proof (induction k arbitrary: i msg lc)
  case 0
  then show ?case
    by (simp add: loop_ok_def Let_def budget_left_def)
       (metis IsTerminal_def RestoreFSM_def fsm_inv_over_budget_terminal FSM.select_convs not_less diff_less_0_iff_less)
next
  case (Suc k)
  note h = handleMessage_task [OF Suc.prems(3)]
  from hop_outcome [OF Suc.prems(1,2), of "W i" "B i" "G i"] show ?case
  proof (elim disjE exE conjE)
    fix r assume "results (fst (executeTask (W i) msg (B i) (G i))) = [r]" and "is_loop_result lc r"
    then show ?thesis by (simp add: h Let_def)
  next
    fix m assume r: "results (fst (executeTask (W i) msg (B i) (G i))) = []"
      and ho: "hand_overs (fst (executeTask (W i) msg (B i) (G i))) = [m]" and fw: "hop_forward (W i) msg lc m"
    obtain lc' where lc': "DecodeContext m = Some lc'" "loop_ok lc'" and step: "hop_step lc lc'"
      and ty: "m_Type m \<in> {TypeTaskAssignment, TypeReviewRequest}"
      using hop_forward_step [OF Suc.prems(2) fw] by blast
    have "budget_left lc' < int k" using step Suc.prems(4) by (simp add: hop_step_def budget_left_def)
    from Suc.IH [OF lc' ty this] hop_step_result [OF step] r ho show ?thesis
      by (auto simp: h Let_def)
  qed
qed

section \<open>How failures are reported\<close>

lemma failed_status: "meta (loop_result a n original rp usage lc escalated True) ''status'' = ''failed''"
  by (simp add: loop_result_def meta_def Let_def)

lemma results_transmit:
  "results (fst (transmit a m)) = (if m_Type m = TypeTaskResult then [m] else [])"
  "results (es @ fs) = results es @ results fs"
  by (simp_all add: results_def)

lemma results_build: "results (fst (buildResultParts a rid content failed)) = []"
  by (simp add: results_def)

lemma failLoopTask_results:
  "\<exists>r. results (fst (failLoopTask a n msg lc reason)) = [r] \<and> is_loop_result lc r \<and> meta r ''status'' = ''failed''"
proof -
  have "\<exists>k rp. results (fst (failLoopTask a n msg lc reason)) = [loop_result a k msg rp None lc False True]"
    using loop_result_is [unfolded is_loop_result_def]
    by (auto simp: failLoopTask_def Let_def split_beta sendLoopResult_def results_transmit results_build escalation_def)
  with loop_result_is failed_status show ?thesis by metis
qed

lemma executeTask_error:
  assumes "DecodeContext msg = Some lc" and "budget = Some e \<or> g 0 = GenError e"
  shows "\<exists>n reason. results (fst (executeTask a msg budget g)) = results (fst (failLoopTask a n msg lc reason))"
proof -
  have st: "results (sendLoopStatusUpdate a 0 msg lc) = []"
    using status_type [of a 0 msg lc] by (simp add: results_def filter_empty_conv)
  show ?thesis
  proof (cases budget)
    case (Some e')
    with assms(1) st show ?thesis by (auto simp: executeTask_def Let_def split_beta results_transmit)
  next
    case None
    with assms st show ?thesis
      by (auto simp: executeTask_def generate_answer_def Let_def split_beta results_transmit)
  qed
qed

lemma sendResult_results:
  assumes "m_Type original = TypeTaskAssignment"
  shows "\<exists>r. results (fst (sendResult a n original content failed usage (taskMeta original))) = [r] \<and>
       m_To r = m_From original \<and> meta r ''task_id'' = meta original ''task_id'' \<and>
       meta r ''status'' = (if failed then ''failed'' else '''')"
  using assms
  by (simp add: sendResult_def Let_def split_beta taskMeta_def put_all_def meta_def mget0_Cons results_transmit results_build)

lemma escalate_task_results:
  assumes "m_Type original = TypeTaskAssignment"
  shows "\<exists>r. results (fst (escalate_task a n original reason)) = [r] \<and> m_To r = m_From original \<and>
       meta r ''task_id'' = meta original ''task_id'' \<and> meta r ''status'' = ''failed''"
  using sendResult_results [OF assms, of _ _ _ True] 
  by (auto simp: escalate_task_def Let_def split_beta results_transmit escalation_def)

section \<open>Properties\<close>

definition demo_env :: AgentEnv where
  "demo_env = \<lparr>ae_Name = ''dev'', ae_EscalationTarget = '''', ae_ShellOnly = False, ae_HasStorage = False,
     ae_HasToolExecutor = False, ae_Scratch = [], ae_Shared = [], ae_WriteOK = (\<lambda>_. True),
     ae_PostTools = (\<lambda>_. []), ae_SendOK = (\<lambda>_. True), ae_Stamp = (\<lambda>_. (''m'', 0)), ae_Usage = None,
     ae_ReplyUsage = None, ae_Valid = (\<lambda>_. False), ae_Decode = (\<lambda>_. None)\<rparr>"

definition demo_task_message :: Message where
  "demo_task_message = \<lparr>m_ID = ''m0'', m_RequestID = ''r1'', m_From = ''conductor'', m_To = ''dev'',
     m_Type = TypeTaskAssignment, m_Parts = [TextPart ''build it'', EncodeContext demo_context],
     m_Metadata = [(''task_id'', ''t1'')], m_TokenUsage = None, m_Timestamp = 0\<rparr>"

lemma demo_task_context: "DecodeContext demo_task_message = Some (json_context demo_context)"
proof -
  have "no_context [TextPart ''build it'']" by simp
  then have "decode_parts ([TextPart ''build it''] @ [EncodeContext demo_context]) = Some (json_context demo_context)"
    unfolding decode_parts_skip [OF \<open>no_context [TextPart ''build it'']\<close>]
    by (intro decode_encoded) (simp_all add: exact_int_def demo_context_def demo_loop_def)
  then show ?thesis by (simp add: DecodeContext_def demo_task_message_def)
qed

lemma demo_context_ok: "loop_ok (json_context demo_context)"
proof -
  have "RestoreFSM (lc_Definition demo_context) (lc_State demo_context) = demo_fsm"
    by (simp add: RestoreFSM_def demo_context_def demo_fsm_def)
  moreover have "fsm_inv demo_loop demo_fsm" using demo_fsm_new by (rule fsm_inv_new)
  moreover have "lc_Definition demo_context = demo_loop" by (simp add: demo_context_def)
  moreover have "\<not> IsTerminal demo_fsm" by (simp add: IsTerminal_def demo_fsm_def demo_loop_def)
  moreover have "exact_int (ld_MaxTransitions demo_loop)" by (simp add: exact_int_def demo_loop_def)
  moreover have "\<forall>d \<in> set (lc_DepParts demo_context). mget d ''loop_context'' = None"
    by (simp add: demo_context_def)
  ultimately show ?thesis by (simp add: loop_ok_def json_context_def Let_def mget_json_data)
qed

text \<open>
  Claim C25: no hop loses or duplicates the task of a loop. Handling a message of a live loop, with any
  budget outcome, any answers of the model and any failing sends, an agent sends either exactly
  one result, addressed to the conductor of the loop with its task and dispatch nonce, or no
  result and exactly one hand-over that was delivered: to the agent of the next state, with a context that
  that agent decodes, one accepted transition further, with everything about the task kept. One field is
  not kept: the decision context arrives empty.
\<close>

theorem loop_hop_hands_on:
  assumes "m_Type msg \<in> {TypeTaskAssignment, TypeReviewRequest}"
    and "DecodeContext msg = Some lc" and "loop_ok lc"
  shows "(\<exists>r. results (fst (handleMessage a msg budget g)) = [r] \<and> is_loop_result lc r) \<or>
    results (fst (handleMessage a msg budget g)) = [] \<and>
    (\<exists>m lc'. hand_overs (fst (handleMessage a msg budget g)) = [m] \<and> ae_SendOK a m \<and>
       m_To m = AgentForState (lc_Definition lc) (ls_CurrentState (lc_State lc')) \<and> m_To m \<noteq> '''' \<and>
       DecodeContext m = Some lc' \<and> loop_ok lc' \<and> hop_step lc lc')"
proof -
  have h: "handleMessage a msg budget g = executeTask a msg budget g"
    using assms(1) by (rule handleMessage_task)
  from hop_outcome [OF assms(2,3), of a budget g] show ?thesis
  proof (elim disjE exE conjE)
    fix m assume "results (fst (executeTask a msg budget g)) = []"
      and "hand_overs (fst (executeTask a msg budget g)) = [m]" and "hop_forward a msg lc m"
    with hop_forward_step [OF assms(3), of a msg m] show ?thesis unfolding h by blast
  qed (auto simp: h)
qed

theorem loop_hop_hands_on_witness:
  "\<exists>m lc'. hand_overs (fst (handleMessage demo_env demo_task_message None (\<lambda>_. GenOk ''done'' 0 False))) = [m] \<and>
     m_To m = ''arch'' \<and> DecodeContext m = Some lc' \<and> hop_step (json_context demo_context) lc'"
proof -
  let ?es = "fst (handleMessage demo_env demo_task_message None (\<lambda>_. GenOk ''done'' 0 False))"
  have "map (\<lambda>m. (m_Type m, m_To m)) (sends ?es) =
      [(TypeStatusUpdate, ''conductor''), (TypeReviewRequest, ''arch'')]"
    by code_simp
  then have r: "results ?es = []" and h: "map m_To (hand_overs ?es) = [''arch'']"
    by (auto simp: results_def hand_overs_def map_eq_Cons_conv)
  have "m_Type demo_task_message \<in> {TypeTaskAssignment, TypeReviewRequest}"
    by (simp add: demo_task_message_def)
  from loop_hop_hands_on [OF this demo_task_context demo_context_ok, of demo_env None "\<lambda>_. GenOk ''done'' 0 False"] r h
  show ?thesis by auto
qed

text \<open>
  Claim C2: every loop ends with a result. Started with a message of a live loop whose counter is \<open>c\<close>, after at most
  \<open>MaxTransitions - c + 1\<close> hops some agent has sent a result of the task to the conductor of the loop,
  whatever the agents' environments, the budget checks and the models' answers are in every hop: a reviewer that
  always revises, answers without a verdict, failing models and unreachable agents included.
\<close>

theorem loop_ends_with_result:
  assumes "m_Type msg \<in> {TypeTaskAssignment, TypeReviewRequest}"
    and "DecodeContext msg = Some lc" and "loop_ok lc"
  shows "\<exists>r. run_hops (nat (ld_MaxTransitions (lc_Definition lc) - ls_TransitionCount (lc_State lc)) + 1)
      0 W B G msg = Some r \<and> is_loop_result lc r"
  using assms(2,3,1) by (rule run_hops_result) (simp add: budget_left_def)

theorem loop_ends_with_result_witness:
  "\<exists>r. run_hops 3 0 (\<lambda>_. demo_env) (\<lambda>_. None) (\<lambda>i _. GenOk (if i = 1 then ''VERDICT: revise'' else ''done'') 1 False)
     demo_task_message = Some r \<and> m_To r = ''conductor'' \<and> meta r ''task_id'' = ''t1''"
proof -
  have "m_Type demo_task_message \<in> {TypeTaskAssignment, TypeReviewRequest}"
    by (simp add: demo_task_message_def)
  from loop_ends_with_result [OF this demo_task_context demo_context_ok, of "\<lambda>_. demo_env" "\<lambda>_. None"
      "\<lambda>i _. GenOk (if i = 1 then ''VERDICT: revise'' else ''done'') 1 False"]
  show ?thesis by (auto simp: json_context_def demo_context_def demo_loop_def is_loop_result_def eval_nat_numeral)
qed

text \<open>
  How a task that cannot be worked on is reported. When the first call of the model fails,
  exactly one result is sent: to the conductor of the loop or, outside of loops, to the sender of the assignment;
  it carries the task and is marked failed. When the budget check refuses the task, the result of a
  loop is marked failed too, but outside of a loop the result is not marked: it reads as completed.
\<close>


theorem task_errors_reported:
  assumes "m_Type msg = TypeTaskAssignment"
  shows "(\<forall>lc e. DecodeContext msg = Some lc \<and> (budget = Some e \<or> g 0 = GenError e) \<longrightarrow>
      (\<exists>r. results (fst (handleMessage a msg budget g)) = [r] \<and> is_loop_result lc r \<and> meta r ''status'' = ''failed'')) \<and>
    (\<forall>e. DecodeContext msg = None \<and> (budget = Some e \<or> budget = None \<and> g 0 = GenError e) \<longrightarrow>
      (\<exists>r. results (fst (handleMessage a msg budget g)) = [r] \<and> m_To r = m_From msg \<and>
        meta r ''task_id'' = meta msg ''task_id'' \<and>
        meta r ''status'' = (if budget = None then ''failed'' else '''')))"
proof -
  have h: "handleMessage a msg budget g = executeTask a msg budget g"
    using assms by (intro handleMessage_task) simp
  have "\<exists>r. results (fst (executeTask a msg budget g)) = [r] \<and> is_loop_result lc r \<and> meta r ''status'' = ''failed''"
    if "DecodeContext msg = Some lc" "budget = Some e \<or> g 0 = GenError e" for lc e
    using executeTask_error [of msg lc budget e g a] that failLoopTask_results by metis
  moreover have "\<exists>r. results (fst (executeTask a msg budget g)) = [r] \<and> m_To r = m_From msg \<and>
        meta r ''task_id'' = meta msg ''task_id'' \<and> meta r ''status'' = (if budget = None then ''failed'' else '''')"
    if d: "DecodeContext msg = None" and e: "budget = Some e \<or> budget = None \<and> g 0 = GenError e" for e
  proof (cases budget)
    case None
    then have "fst (executeTask a msg budget g) = fst (escalate_task a 0 msg (''model call failed: '' @ e))"
      using d e by (simp add: executeTask_def generate_answer_def split_beta)
    with escalate_task_results [OF assms, of a 0 "''model call failed: '' @ e"] None show ?thesis by simp
  next
    case (Some e')
    with d sendResult_results [OF assms, of a 0 "''Budget exceeded: '' @ e'" False None] show ?thesis
      by (simp add: executeTask_def)
  qed
  ultimately show ?thesis unfolding h by blast
qed

theorem task_errors_reported_witness:
  "\<exists>r. results (fst (handleMessage demo_env (demo_task_message\<lparr>m_Parts := []\<rparr>) (Some ''cap'') (\<lambda>_. GenError ''x''))) = [r] \<and>
     m_To r = ''conductor'' \<and> meta r ''task_id'' = ''t1'' \<and> meta r ''status'' = ''''"
proof -
  have "m_Type (demo_task_message\<lparr>m_Parts := []\<rparr>) = TypeTaskAssignment"
    and "DecodeContext (demo_task_message\<lparr>m_Parts := []\<rparr>) = None"
    by (simp_all add: demo_task_message_def DecodeContext_def)
  with task_errors_reported [of "demo_task_message\<lparr>m_Parts := []\<rparr>" "Some ''cap''" "\<lambda>_. GenError ''x''" demo_env]
  show ?thesis by (simp add: demo_task_message_def meta_def mget0_Cons)
qed

end
