(* ===== verification/Scheduler.thy ===== *)
theory Scheduler
  imports Cascade
begin

text \<open>
  The dispatch loop of a request (internal/conductor/scheduler.go: Execute with its goroutines, the
  concurrency limits of agents, and the calls that interfere with a running loop: Pause, Resume, Cancel,
  AmendTask, ReplaceGraph, CancelAllRunningForRestructure). The loop and every goroutine run concurrently; a
  run is a sequence of actions, each of which is one step of one of them. Logging, events, status files and
  the mirroring of task records to the control plane have no influence on the loop. Tasks are named by
  their IDs, which a validated graph has distinct.
\<close>

section \<open>Agents and their limits\<close>

record AgentDefinition =
  ad_Name :: string
  ad_Purpose :: string
  ad_MaxConcurrentTasks :: int
  ad_RequiredNodeLabels :: "(string, string) gomap"
  ad_MaxKnowledgeNodes :: int
  ad_TaskTimeout :: int
  ad_ReviewGuidelines :: string
  ad_ReviewPrompt :: string

definition agentLimit :: "AgentDefinition list \<Rightarrow> string \<Rightarrow> int" where
  "agentLimit agents agent =
     (case find (\<lambda>d. ad_Name d = agent) agents of Some d \<Rightarrow> ad_MaxConcurrentTasks d | None \<Rightarrow> 0)"

definition tryAcquireAgent :: "AgentDefinition list \<Rightarrow> string \<Rightarrow> (string, int) gomap \<Rightarrow> (string, int) gomap option" where
  "tryAcquireAgent agents agent inflight =
     (let limit = agentLimit agents agent
      in if limit > 0 \<and> mget0 0 inflight agent \<ge> limit then None
         else Some (mput agent (mget0 0 inflight agent + 1) inflight))"

definition releaseAgent :: "string \<Rightarrow> (string, int) gomap \<Rightarrow> (string, int) gomap" where
  "releaseAgent agent inflight =
     (if mget0 0 inflight agent > 0 then mput agent (mget0 0 inflight agent - 1) inflight else inflight)"

definition taskProfile :: "TaskNode \<Rightarrow> string" where
  "taskProfile t = TargetProfile (Some t)"

section \<open>The state of a run\<close>

text \<open>
  A goroutine works on its task, then has written its outcome, which a retry with a higher model tier takes
  back in a second step, then has released its agent, and finally puts its task ID on the channel of the loop and is gone. It holds a pointer into the graph it was
  started for: \<open>w_gen\<close> counts the graph replacements before it.
\<close>

datatype phase = Working | Retrying | Settled | Released

record worker =
  w_task :: string
  w_profile :: string
  w_gen :: nat
  w_phase :: phase

datatype exec_result = Finished | Deadlock | ContextDone

text \<open>
  Where the loop stands: at its top, at the pause gate, draining after a resume, before the check for a
  replacement graph, among the ready tasks (those left, how many were dispatched, how many there were),
  waiting for a task, draining the channel, or returned.
\<close>

datatype pc =
    AtTop | AtGate | GateDrain | AtReplace | Dispatching "string list" nat nat | Waiting | Draining
  | Returned exec_result

record exec =
  ex_graph :: TaskGraph
  ex_gen :: nat
  ex_inflight :: "(string, int) gomap"
  ex_workers :: "worker list"
  ex_done :: "string list"
  ex_pending :: int
  ex_dispatched :: "string list"
  ex_paused :: bool
  ex_resuming :: bool
  ex_pauseClosed :: bool
  ex_resumeClosed :: bool
  ex_panicked :: bool
  ex_restructuring :: bool
  ex_replace :: "TaskGraph option"
  ex_pc :: pc

definition start_exec :: "TaskGraph \<Rightarrow> exec" where
  "start_exec g = \<lparr>ex_graph = g, ex_gen = 0, ex_inflight = [], ex_workers = [], ex_done = [], ex_pending = 0,
     ex_dispatched = [], ex_paused = False, ex_resuming = False,
     ex_pauseClosed = False, ex_resumeClosed = False, ex_panicked = False, ex_restructuring = False,
     ex_replace = None, ex_pc = AtTop\<rparr>"

definition update_graph :: "string \<Rightarrow> (TaskNode \<Rightarrow> TaskNode) \<Rightarrow> exec \<Rightarrow> exec" where
  "update_graph tid f s = s\<lparr>ex_graph := (ex_graph s)\<lparr>tg_Tasks := update_task tid f (tg_Tasks (ex_graph s))\<rparr>\<rparr>"

section \<open>The loop\<close>

text \<open>One ready task: skipped when already dispatched or when its agent is at capacity.\<close>

definition dispatch_one :: "AgentDefinition list \<Rightarrow> string \<Rightarrow> exec \<Rightarrow> exec \<times> bool" where
  "dispatch_one agents tid s =
     (if tid \<in> set (ex_dispatched s) then (s, False)
      else
        (case Get (ex_graph s) tid of
           None \<Rightarrow> (s, False)
         | Some task \<Rightarrow>
             (case tryAcquireAgent agents (taskProfile task) (ex_inflight s) of
                None \<Rightarrow> (s, False)
              | Some inflight \<Rightarrow>
                  (update_graph tid (\<lambda>t. t\<lparr>tn_Status := StatusRunning\<rparr>)
                     (s\<lparr>ex_inflight := inflight,
                        ex_dispatched := tid # ex_dispatched s,
                        ex_pending := ex_pending s + 1,
                        ex_workers := ex_workers s @
                          [\<lparr>w_task = tid, w_profile = taskProfile task, w_gen = ex_gen s, w_phase = Working\<rparr>]\<rparr>),
                   True))))"

text \<open>A task ID received from the channel; a failed task takes its dependents with it.\<close>

definition collect :: "string \<Rightarrow> exec \<Rightarrow> exec" where
  "collect tid s =
     (let s = s\<lparr>ex_pending := ex_pending s - 1, ex_dispatched := removeAll tid (ex_dispatched s)\<rparr>
      in case Get (ex_graph s) tid of
           Some t \<Rightarrow>
             if tn_Status t = StatusFailed then s\<lparr>ex_graph := fst (FailDependents (ex_graph s) tid)\<rparr> else s
         | None \<Rightarrow> s)"

definition take_replacement :: "TaskGraph \<Rightarrow> exec \<Rightarrow> exec" where
  "take_replacement g s = s\<lparr>ex_graph := g, ex_gen := ex_gen s + 1, ex_restructuring := False,
     ex_dispatched := [], ex_replace := None, ex_pc := AtTop\<rparr>"

text \<open>One step of the loop; \<open>None\<close> when it blocks or has returned.\<close>

definition loop_step :: "AgentDefinition list \<Rightarrow> exec \<Rightarrow> exec option" where
  "loop_step agents s =
     (case ex_pc s of
        AtTop \<Rightarrow>
          Some (s\<lparr>ex_pc := (if AllDone (ex_graph s) then Returned Finished
                            else if ex_pauseClosed s then AtGate else AtReplace)\<rparr>)
      | AtGate \<Rightarrow> if ex_resumeClosed s then Some (s\<lparr>ex_pc := GateDrain\<rparr>) else None
      | GateDrain \<Rightarrow>
          (if ex_pending s > 0 then
             (case ex_done s of
                [] \<Rightarrow> None
              | _ # ds \<Rightarrow> Some (s\<lparr>ex_done := ds, ex_pending := ex_pending s - 1\<rparr>))
           else Some (s\<lparr>ex_dispatched := [], ex_pc := AtReplace\<rparr>))
      | AtReplace \<Rightarrow>
          (case ex_replace s of
             Some g \<Rightarrow> Some (take_replacement g s)
           | None \<Rightarrow>
               (let ready = ReadyTasks (ex_graph s)
                in Some (s\<lparr>ex_pc := Dispatching (task_ids ready) 0 (length ready)\<rparr>)))
      | Dispatching (tid # rest) n r \<Rightarrow>
          (let (s', new) = dispatch_one agents tid s
           in Some (s'\<lparr>ex_pc := Dispatching rest (if new then n + 1 else n) r\<rparr>))
      | Dispatching [] n r \<Rightarrow>
          Some (s\<lparr>ex_pc :=
            (if ex_pending s = 0 \<and> n = 0 \<and> \<not> AllDone (ex_graph s)
             then (if r > 0 then AtTop else Returned Deadlock)
             else if ex_pending s > 0 then Waiting else AtTop)\<rparr>)
      | Waiting \<Rightarrow>
          (case ex_done s of
             [] \<Rightarrow> None
           | tid # ds \<Rightarrow> Some ((collect tid (s\<lparr>ex_done := ds\<rparr>))\<lparr>ex_pc := Draining\<rparr>))
      | Draining \<Rightarrow>
          (case ex_done s of
             [] \<Rightarrow> Some (s\<lparr>ex_pc := AtTop\<rparr>)
           | tid # ds \<Rightarrow> Some (collect tid (s\<lparr>ex_done := ds\<rparr>)))
      | Returned _ \<Rightarrow> None)"

section \<open>The goroutines\<close>

text \<open>
  How dispatching a task ended: with a status and a result the task was given, with an error after which the
  task is to be dispatched again, or with another error.
\<close>

datatype outcome = Completes string | Fails string | Escalates string | Redispatch | DispatchError string

definition set_status :: "TaskStatus \<Rightarrow> string \<Rightarrow> TaskNode \<Rightarrow> TaskNode" where
  "set_status st res t = t\<lparr>tn_Status := st, tn_Result := res\<rparr>"

definition reset_task :: "TaskNode \<Rightarrow> TaskNode" where
  "reset_task t = t\<lparr>tn_Status := StatusPending, tn_Result := '''', tn_ArtifactURI := '''', tn_ArtifactFiles := [],
     tn_AssignedInstance := '''', tn_ExecutionNode := '''', tn_LeaseEpoch := 0\<rparr>"

text \<open>
  What the goroutine does to its task. An error is dropped when the task was cancelled or reset, or while
  the loop is paused or restructured.
\<close>

definition settle_task :: "bool \<Rightarrow> bool \<Rightarrow> outcome \<Rightarrow> TaskNode \<Rightarrow> TaskNode" where
  "settle_task paused restructuring out t =
     (case out of
        Completes res \<Rightarrow> set_status StatusCompleted res t
      | Escalates res \<Rightarrow> set_status StatusEscalated res t
      | Fails res \<Rightarrow> set_status StatusFailed res t
      | Redispatch \<Rightarrow> reset_task t
      | DispatchError e \<Rightarrow>
          if tn_Status t = StatusCancelled \<or> tn_Status t = StatusPending \<or> restructuring \<or> paused then t
          else set_status StatusFailed e t)"

definition set_phase :: "nat \<Rightarrow> phase \<Rightarrow> exec \<Rightarrow> exec" where
  "set_phase i ph s = s\<lparr>ex_workers := (ex_workers s)[i := (ex_workers s ! i)\<lparr>w_phase := ph\<rparr>]\<rparr>"

definition at_phase :: "nat \<Rightarrow> phase \<Rightarrow> exec \<Rightarrow> bool" where
  "at_phase i ph s \<longleftrightarrow> i < length (ex_workers s) \<and> w_phase (ex_workers s ! i) = ph"

text \<open>A write through the goroutine's pointer: into the graph of the loop unless that was replaced.\<close>

definition write_task :: "worker \<Rightarrow> (TaskNode \<Rightarrow> TaskNode) \<Rightarrow> exec \<Rightarrow> exec" where
  "write_task w f s = (if w_gen w = ex_gen s then update_graph (w_task w) f s else s)"

text \<open>The router is asked, with \<open>retry\<close> its answer, when the result of the task is a failure.\<close>

definition finish_worker :: "nat \<Rightarrow> outcome \<Rightarrow> bool \<Rightarrow> exec \<Rightarrow> exec option" where
  "finish_worker i out retry s =
     (if at_phase i Working s then
        Some (write_task (ex_workers s ! i) (settle_task (ex_paused s) (ex_restructuring s) out)
          (set_phase i (case out of Fails _ \<Rightarrow> if retry then Retrying else Settled | _ \<Rightarrow> Settled) s))
      else None)"

definition retry_worker :: "nat \<Rightarrow> exec \<Rightarrow> exec option" where
  "retry_worker i s =
     (if at_phase i Retrying s then
        Some (write_task (ex_workers s ! i) (set_status StatusPending '''') (set_phase i Settled s))
      else None)"

definition release_worker :: "nat \<Rightarrow> exec \<Rightarrow> exec option" where
  "release_worker i s =
     (if at_phase i Settled s then
        Some ((set_phase i Released s)
          \<lparr>ex_inflight := releaseAgent (w_profile (ex_workers s ! i)) (ex_inflight s)\<rparr>)
      else None)"

definition notify_loop :: "nat \<Rightarrow> exec \<Rightarrow> exec option" where
  "notify_loop i s =
     (if at_phase i Released s then
        Some (s\<lparr>ex_workers := take i (ex_workers s) @ drop (Suc i) (ex_workers s),
                ex_done := ex_done s @ [w_task (ex_workers s ! i)]\<rparr>)
      else None)"

section \<open>Calls from outside\<close>

definition map_tasks :: "(TaskNode \<Rightarrow> TaskNode) \<Rightarrow> exec \<Rightarrow> exec" where
  "map_tasks f s = s\<lparr>ex_graph := (ex_graph s)\<lparr>tg_Tasks := map f (tg_Tasks (ex_graph s))\<rparr>\<rparr>"

text \<open>Closing a channel that is closed panics.\<close>

definition Pause :: "exec \<Rightarrow> exec" where
  "Pause s =
     (if ex_paused s then s
      else if ex_pauseClosed s then s\<lparr>ex_paused := True, ex_panicked := True\<rparr>
      else s\<lparr>ex_paused := True, ex_pauseClosed := True\<rparr>)"

text \<open>
  Resume in its two steps: the flag is cleared first, then the running tasks are reset, the loop is
  let through the gate and new channels are made.
\<close>

definition ResumeFlag :: "exec \<Rightarrow> exec" where
  "ResumeFlag s = s\<lparr>ex_paused := False, ex_resuming := True\<rparr>"

definition ResumeReset :: "exec \<Rightarrow> exec" where
  "ResumeReset s =
     (map_tasks (\<lambda>t. if tn_Status t = StatusRunning then set_status StatusPending '''' t else t) s)
       \<lparr>ex_resuming := False, ex_pauseClosed := False, ex_resumeClosed := False,
        ex_panicked := (ex_panicked s \<or> ex_resumeClosed s),
        ex_pc := (if ex_pc s = AtGate then GateDrain else ex_pc s)\<rparr>"

definition Cancel :: "exec \<Rightarrow> exec" where
  "Cancel s =
     (let s = map_tasks (\<lambda>t. if tn_Status t = StatusPending \<or> tn_Status t = StatusRunning
                     then set_status StatusCancelled ''cancelled by user'' t else t) s
      in if ex_paused s
         then s\<lparr>ex_paused := False, ex_resumeClosed := True, ex_panicked := (ex_panicked s \<or> ex_resumeClosed s)\<rparr>
         else s)"

definition AmendTask :: "string \<Rightarrow> string \<Rightarrow> string \<Rightarrow> exec \<Rightarrow> exec" where
  "AmendTask tid newDesc chatContext s =
     update_graph tid (\<lambda>t. t\<lparr>tn_Description := newDesc, tn_ChatContext := chatContext, tn_Status := StatusPending,
       tn_Result := '''', tn_ArtifactURI := '''', tn_ArtifactFiles := []\<rparr>) s"

definition ReplaceGraph :: "TaskGraph \<Rightarrow> exec \<Rightarrow> exec" where
  "ReplaceGraph g s = (if ex_replace s = None then s\<lparr>ex_replace := Some g\<rparr> else s)"

section \<open>Runs\<close>

datatype action =
    Loop | Finish nat outcome bool | Retry nat | Release nat | Notify nat
  | DoPause | DoResumeFlag | DoResumeReset | DoCancel | DoAmend string string string
  | DoReplace TaskGraph | TakeReplace | DoRestructure | ContextCancelled

fun act :: "AgentDefinition list \<Rightarrow> action \<Rightarrow> exec \<Rightarrow> exec option" where
  "act agents Loop s = loop_step agents s"
| "act agents (Finish i out retry) s = finish_worker i out retry s"
| "act agents (Retry i) s = retry_worker i s"
| "act agents (Release i) s = release_worker i s"
| "act agents (Notify i) s = notify_loop i s"
| "act agents DoPause s = Some (Pause s)"
| "act agents DoResumeFlag s = (if ex_paused s then Some (ResumeFlag s) else None)"
| "act agents DoResumeReset s = (if ex_resuming s then Some (ResumeReset s) else None)"
| "act agents DoCancel s = Some (Cancel s)"
| "act agents (DoAmend tid d c) s = Some (AmendTask tid d c s)"
| "act agents (DoReplace g) s = Some (ReplaceGraph g s)"
| "act agents TakeReplace s =
     (case ex_replace s of Some g \<Rightarrow> if ex_pc s = Waiting then Some (take_replacement g s) else None | None \<Rightarrow> None)"
| "act agents DoRestructure s = Some (s\<lparr>ex_restructuring := True\<rparr>)"
| "act agents ContextCancelled s =
     (if ex_pc s \<in> {AtGate, Waiting} \<or> ex_pc s = GateDrain \<and> ex_pending s > 0 then Some (s\<lparr>ex_pc := Returned ContextDone\<rparr>) else None)"

fun run_actions :: "AgentDefinition list \<Rightarrow> action list \<Rightarrow> exec \<Rightarrow> exec option" where
  "run_actions agents [] s = Some s"
| "run_actions agents (a # as) s =
     (case act agents a s of None \<Rightarrow> None | Some s' \<Rightarrow> run_actions agents as s')"

inductive reach :: "AgentDefinition list \<Rightarrow> action set \<Rightarrow> TaskGraph \<Rightarrow> exec \<Rightarrow> bool" for agents A g where
  start: "reach agents A g (start_exec g)"
| step: "reach agents A g s \<Longrightarrow> a \<in> A \<Longrightarrow> act agents a s = Some s' \<Longrightarrow> reach agents A g s'"

end
