(* ===== verification/SchedulerInv.thy ===== *)
theory SchedulerInv
  imports Scheduler
begin

text \<open>
  What holds in every reachable state of the dispatch loop, whatever calls interfere with it: the
  concurrency counters and the number of goroutines agree, and no agent is over its limit.
\<close>

section \<open>The fields an action leaves alone\<close>

lemma update_graph_frame [simp, frame_simps]:
  "ex_workers (update_graph tid f s) = ex_workers s" "ex_done (update_graph tid f s) = ex_done s"
  "ex_pending (update_graph tid f s) = ex_pending s" "ex_inflight (update_graph tid f s) = ex_inflight s"
  "ex_dispatched (update_graph tid f s) = ex_dispatched s" "ex_pc (update_graph tid f s) = ex_pc s"
  "ex_gen (update_graph tid f s) = ex_gen s" "ex_paused (update_graph tid f s) = ex_paused s"
  "ex_resuming (update_graph tid f s) = ex_resuming s" "ex_pauseClosed (update_graph tid f s) = ex_pauseClosed s"
  "ex_restructuring (update_graph tid f s) = ex_restructuring s" "ex_replace (update_graph tid f s) = ex_replace s"
  "tg_Tasks (ex_graph (update_graph tid f s)) = update_task tid f (tg_Tasks (ex_graph s))"
  "tg_Loops (ex_graph (update_graph tid f s)) = tg_Loops (ex_graph s)"
  by (simp_all add: update_graph_def)

lemma write_task_frame [simp, frame_simps]:
  "ex_workers (write_task w f s) = ex_workers s" "ex_done (write_task w f s) = ex_done s"
  "ex_pending (write_task w f s) = ex_pending s" "ex_inflight (write_task w f s) = ex_inflight s"
  "ex_dispatched (write_task w f s) = ex_dispatched s" "ex_pc (write_task w f s) = ex_pc s"
  "ex_gen (write_task w f s) = ex_gen s" "ex_paused (write_task w f s) = ex_paused s"
  "ex_resuming (write_task w f s) = ex_resuming s" "ex_pauseClosed (write_task w f s) = ex_pauseClosed s"
  "ex_restructuring (write_task w f s) = ex_restructuring s" "ex_replace (write_task w f s) = ex_replace s"
  by (simp_all add: write_task_def)

lemma set_phase_frame [simp, frame_simps]:
  "ex_workers (set_phase i ph s) = (ex_workers s)[i := (ex_workers s ! i)\<lparr>w_phase := ph\<rparr>]"
  "ex_done (set_phase i ph s) = ex_done s" "ex_graph (set_phase i ph s) = ex_graph s"
  "ex_pending (set_phase i ph s) = ex_pending s" "ex_inflight (set_phase i ph s) = ex_inflight s"
  "ex_dispatched (set_phase i ph s) = ex_dispatched s" "ex_pc (set_phase i ph s) = ex_pc s"
  "ex_gen (set_phase i ph s) = ex_gen s" "ex_paused (set_phase i ph s) = ex_paused s"
  "ex_resuming (set_phase i ph s) = ex_resuming s" "ex_pauseClosed (set_phase i ph s) = ex_pauseClosed s"
  "ex_restructuring (set_phase i ph s) = ex_restructuring s" "ex_replace (set_phase i ph s) = ex_replace s"
  by (simp_all add: set_phase_def)

lemma map_tasks_frame [simp, frame_simps]:
  "ex_workers (map_tasks f s) = ex_workers s" "ex_done (map_tasks f s) = ex_done s"
  "ex_pending (map_tasks f s) = ex_pending s" "ex_inflight (map_tasks f s) = ex_inflight s"
  by (simp_all add: map_tasks_def)

lemma collect_frame [simp, frame_simps]:
  "ex_workers (collect tid s) = ex_workers s" "ex_done (collect tid s) = ex_done s"
  "ex_pending (collect tid s) = ex_pending s - 1" "ex_inflight (collect tid s) = ex_inflight s"
  "ex_dispatched (collect tid s) = removeAll tid (ex_dispatched s)" "ex_pc (collect tid s) = ex_pc s"
  "ex_gen (collect tid s) = ex_gen s" "ex_paused (collect tid s) = ex_paused s"
  "ex_resuming (collect tid s) = ex_resuming s" "ex_pauseClosed (collect tid s) = ex_pauseClosed s"
  "ex_restructuring (collect tid s) = ex_restructuring s" "ex_replace (collect tid s) = ex_replace s"
  by (simp_all add: collect_def Let_def split: option.split)

section \<open>Goroutines and counters\<close>

definition holds_agent :: "string \<Rightarrow> worker \<Rightarrow> bool" where
  "holds_agent p w \<longleftrightarrow> w_profile w = p \<and> w_phase w \<noteq> Released"

definition load :: "string \<Rightarrow> worker list \<Rightarrow> int" where
  "load p ws = int (length (filter (holds_agent p) ws))"

lemma load_simps [simp]:
  "load p [] = 0" "load p (w # ws) = (if holds_agent p w then 1 else 0) + load p ws"
  "load p (ws @ vs) = load p ws + load p vs"
  by (simp_all add: load_def)

lemma load_nonneg: "0 \<le> load p ws"
  by (simp add: load_def)

lemma load_update:
  "i < length ws \<Longrightarrow> load p (ws[i := w]) =
     load p ws - (if holds_agent p (ws ! i) then 1 else 0) + (if holds_agent p w then 1 else 0)"
proof (induction ws arbitrary: i)
  case (Cons v ws)
  then show ?case by (cases i) auto
qed simp

lemma load_positive: "i < length ws \<Longrightarrow> holds_agent p (ws ! i) \<Longrightarrow> 0 < load p ws"
  by (induction ws arbitrary: i) (auto simp: nth_Cons load_nonneg add_pos_nonneg split: nat.splits)

lemma load_remove:
  "i < length ws \<Longrightarrow> \<not> holds_agent p (ws ! i) \<Longrightarrow> load p (take i ws @ drop (Suc i) ws) = load p ws"
proof (induction ws arbitrary: i)
  case (Cons v ws)
  then show ?case by (cases i) auto
qed simp

text \<open>
  The accounting of a run: the loop waits for as many tasks as there are goroutines and unread IDs; the
  counter of an agent is the number of goroutines that hold it, and within its limit.
\<close>

definition accounted :: "AgentDefinition list \<Rightarrow> exec \<Rightarrow> bool" where
  "accounted agents s \<longleftrightarrow>
     ex_pending s = int (length (ex_workers s)) + int (length (ex_done s)) \<and>
     (\<forall>p. mget0 0 (ex_inflight s) p = load p (ex_workers s)) \<and>
     (\<forall>p. 0 < agentLimit agents p \<longrightarrow> load p (ex_workers s) \<le> agentLimit agents p)"

lemma accounted_cong:
  "ex_pending s' = ex_pending s \<Longrightarrow> ex_workers s' = ex_workers s \<Longrightarrow> ex_done s' = ex_done s \<Longrightarrow>
     ex_inflight s' = ex_inflight s \<Longrightarrow> accounted agents s \<Longrightarrow> accounted agents s'"
  by (simp add: accounted_def)

lemma accounted_dispatch:
  assumes "accounted agents s"
  shows "accounted agents (fst (dispatch_one agents tid s))"
proof (cases "tid \<in> set (ex_dispatched s) \<or> Get (ex_graph s) tid = None")
  case True
  with assms show ?thesis by (auto simp: dispatch_one_def)
next
  case False
  then obtain t where t: "tid \<notin> set (ex_dispatched s)" "Get (ex_graph s) tid = Some t" by auto
  show ?thesis
  proof (cases "tryAcquireAgent agents (taskProfile t) (ex_inflight s)")
    case None
    with t assms show ?thesis by (simp add: dispatch_one_def)
  next
    case (Some inflight)
    then have "inflight = mput (taskProfile t) (mget0 0 (ex_inflight s) (taskProfile t) + 1) (ex_inflight s)"
      and "agentLimit agents (taskProfile t) > 0 \<longrightarrow> mget0 0 (ex_inflight s) (taskProfile t) < agentLimit agents (taskProfile t)"
      by (auto simp: tryAcquireAgent_def Let_def split: if_splits)
    with t Some assms show ?thesis
      by (auto simp: dispatch_one_def accounted_def holds_agent_def)
  qed
qed

lemma accounted_collect:
  "accounted agents s \<Longrightarrow> ex_done s = tid # ds \<Longrightarrow> accounted agents (collect tid (s\<lparr>ex_done := ds\<rparr>))"
  by (simp add: accounted_def)

lemma accounted_loop:
  assumes "accounted agents s" and "loop_step agents s = Some s'"
  shows "accounted agents s'"
proof (cases "ex_pc s")
  case (Dispatching ids n r)
  show ?thesis
  proof (cases ids)
    case (Cons tid rest)
    obtain s1 new where d: "dispatch_one agents tid s = (s1, new)" by fastforce
    have "accounted agents s1" using accounted_dispatch [OF assms(1), of tid] d by simp
    with assms(2) Dispatching Cons d show ?thesis
      by (auto simp: loop_step_def intro: accounted_cong [of _ s1])
  qed (use assms Dispatching in \<open>auto simp: loop_step_def intro: accounted_cong [of _ s]\<close>)
next
  case Waiting
  with assms accounted_collect [OF assms(1)] show ?thesis
    by (auto simp: loop_step_def split: list.splits
        intro: accounted_cong [of _ "collect (hd (ex_done s)) (s\<lparr>ex_done := tl (ex_done s)\<rparr>)"])
next
  case Draining
  with assms accounted_collect [OF assms(1)] show ?thesis
    by (auto simp: loop_step_def split: list.splits intro: accounted_cong [of _ s])
next
  case GateDrain
  with assms show ?thesis
    by (auto simp: loop_step_def accounted_def split: if_splits list.splits)
qed (use assms in \<open>auto simp: loop_step_def take_replacement_def Let_def split: if_splits option.splits
       intro: accounted_cong [of _ s]\<close>)

lemma accounted_phase:
  assumes "accounted agents s" and "at_phase i ph s" and "ph \<noteq> Released" and "ph' \<noteq> Released"
  shows "accounted agents (set_phase i ph' s)"
proof -
  have "load p (ex_workers (set_phase i ph' s)) = load p (ex_workers s)" for p
    using assms by (auto simp: at_phase_def load_update holds_agent_def)
  with assms(1) show ?thesis by (simp add: accounted_def)
qed

lemma accounted_write: "accounted agents s \<Longrightarrow> accounted agents (write_task w f s)"
  by (rule accounted_cong [of _ s]) simp_all

lemma accounted_release:
  assumes "accounted agents s" and "release_worker i s = Some s'"
  shows "accounted agents s'"
proof -
  let ?w = "ex_workers s ! i"
  have i: "i < length (ex_workers s)" "w_phase ?w = Settled"
    and s': "s' = (set_phase i Released s)\<lparr>ex_inflight := releaseAgent (w_profile ?w) (ex_inflight s)\<rparr>"
    using assms(2) by (auto simp: release_worker_def at_phase_def split: if_splits)
  have "0 < load (w_profile ?w) (ex_workers s)"
    using i by (intro load_positive [of i]) (simp_all add: holds_agent_def)
  moreover have "load p (ex_workers s') = load p (ex_workers s) - (if p = w_profile ?w then 1 else 0)" for p
    using i by (auto simp: s' load_update holds_agent_def)
  ultimately show ?thesis
    using assms(1) by (auto simp: accounted_def s' releaseAgent_def intro: order_trans [rotated])
qed

lemma accounted_notify:
  assumes "accounted agents s" and "notify_loop i s = Some s'"
  shows "accounted agents s'"
proof -
  have i: "i < length (ex_workers s)" "w_phase (ex_workers s ! i) = Released"
    and s': "s' = s\<lparr>ex_workers := take i (ex_workers s) @ drop (Suc i) (ex_workers s),
      ex_done := ex_done s @ [w_task (ex_workers s ! i)]\<rparr>"
    using assms(2) by (auto simp: notify_loop_def at_phase_def split: if_splits)
  have "load p (ex_workers s') = load p (ex_workers s)" for p
    unfolding s' using i load_remove [of i "ex_workers s" p] by (simp add: holds_agent_def)
  moreover have "length (ex_workers s') + length (ex_done s') = length (ex_workers s) + length (ex_done s)"
    using i by (simp add: s')
  ultimately show ?thesis
    using assms(1) by (simp add: accounted_def) (simp add: s')
qed

lemma accounted_act:
  assumes "accounted agents s" and "act agents a s = Some s'"
  shows "accounted agents s'"
proof (cases a)
  case Loop
  with assms accounted_loop show ?thesis by simp
next
  case (Finish i out retry)
  with assms show ?thesis
    by (auto simp: finish_worker_def split: if_splits outcome.splits
        intro!: accounted_write accounted_phase [of _ _ i Working])
next
  case (Retry i)
  with assms show ?thesis
    by (auto simp: retry_worker_def split: if_splits intro!: accounted_write accounted_phase [of _ _ i Retrying])
next
  case (Release i)
  with assms accounted_release show ?thesis by simp
next
  case (Notify i)
  with assms accounted_notify show ?thesis by simp
qed (use assms in \<open>auto simp: Pause_def ResumeFlag_def ResumeReset_def Cancel_def AmendTask_def ReplaceGraph_def
       take_replacement_def Let_def split: if_splits option.splits intro: accounted_cong [of _ s]\<close>)

lemma accounted_reach: "reach agents A g s \<Longrightarrow> accounted agents s"
proof (induction rule: reach.induct)
  case start
  then show ?case by (simp add: accounted_def start_exec_def)
qed (rule accounted_act)

end
