(* ===== verification/SchedulerQuiet.thy ===== *)
theory SchedulerQuiet
  imports SchedulerInv
begin

text \<open>
  Runs in which nobody interferes: only the loop and its goroutines act, in any order and with any
  outcomes. The state of such a run is described by the status of every task, the goroutines and the set of
  tasks in flight, over the dependency relation of the graph, which never changes.
\<close>

section \<open>The status of a task\<close>

definition status :: "TaskNode list \<Rightarrow> string \<Rightarrow> TaskStatus option" where
  "status ts tid = map_option tn_Status (find (\<lambda>t. tn_ID t = tid) ts)"

definition shape :: "TaskNode list \<Rightarrow> (string \<times> string list \<times> string) list" where
  "shape ts = map (\<lambda>t. (tn_ID t, tn_DependsOn t, tn_LoopID t)) ts"

lemma shape_ids: "shape ts = shape us \<Longrightarrow> task_ids ts = task_ids us"
  by (metis (no_types, lifting) comp_apply fst_conv list.map_comp map_eq_conv shape_def)

lemma shape_edges: "shape ts = shape us \<Longrightarrow> dep_edges ts = dep_edges us"
proof -
  have "dep_edges ts = {(d, i) | d i ds l. (i, ds, l) \<in> set (shape ts) \<and> d \<in> set ds}" for ts
    by (auto simp: dep_edges_def shape_def)
  then show "shape ts = shape us \<Longrightarrow> dep_edges ts = dep_edges us" by simp
qed

lemma shape_update:
  "(\<And>t. tn_ID (f t) = tn_ID t \<and> tn_DependsOn (f t) = tn_DependsOn t \<and> tn_LoopID (f t) = tn_LoopID t) \<Longrightarrow>
     shape (update_task tid f ts) = shape ts"
  by (induction ts) (auto simp: shape_def)

lemma shape_marked: "shape (marked f A ts) = shape ts"
  by (auto simp: shape_def marked_def fail_task_def)

lemma status_update:
  assumes "\<And>t. tn_ID (f t) = tn_ID t"
  shows "status (update_task tid f ts) t =
    (if t = tid then map_option (\<lambda>t. tn_Status (f t)) (find (\<lambda>t. tn_ID t = tid) ts) else status ts t)"
  using assms by (induction ts) (auto simp: status_def)

lemma status_task: "distinct (task_ids ts) \<Longrightarrow> t \<in> set ts \<Longrightarrow> status ts (tn_ID t) = Some (tn_Status t)"
  by (simp add: status_def find_task)

lemma status_Some: "distinct (task_ids ts) \<Longrightarrow> status ts i = Some st \<longleftrightarrow> (\<exists>t \<in> set ts. tn_ID t = i \<and> tn_Status t = st)"
  by (auto simp: status_def find_task_iff)

lemma status_marked:
  "distinct (task_ids ts) \<Longrightarrow>
     status (marked f A ts) i = (if i \<in> A \<and> i \<in> set (task_ids ts) then Some StatusFailed else status ts i)"
proof -
  assume d: "distinct (task_ids ts)"
  show ?thesis
  proof (cases "i \<in> set (task_ids ts)")
    case True
    then obtain t where "t \<in> set ts" "i = tn_ID t" by auto
    with d find_marked [OF d, of t f A] show ?thesis by (auto simp: status_def find_task)
  next
    case False
    then have "find (\<lambda>t. tn_ID t = i) ts = None" "find (\<lambda>t. tn_ID t = i) (marked f A ts) = None"
      by (simp_all only: find_task_None task_ids_marked not_False_eq_True)
    with False show ?thesis by (simp add: status_def)
  qed
qed

section \<open>Consistent runs\<close>

definition ok :: "TaskStatus option \<Rightarrow> bool" where
  "ok st \<longleftrightarrow> st = Some StatusCompleted \<or> st = Some StatusEscalated"

text \<open>
  Over the dependency relation \<open>D\<close> on the tasks \<open>T\<close>, with the statuses \<open>f\<close>, the goroutines \<open>ws\<close> and the tasks \<open>B\<close> in flight:
  a task runs exactly when a goroutine works on it; what runs or has run has all its dependencies done;
  the failed dependencies of a pending task are still in flight; what is retried has failed.
\<close>

definition consistent ::
  "(string \<times> string) set \<Rightarrow> string set \<Rightarrow> (string \<Rightarrow> TaskStatus option) \<Rightarrow> worker list \<Rightarrow> string set \<Rightarrow> bool" where
  "consistent D T f ws B \<longleftrightarrow>
     (\<forall>t \<in> T. f t \<in> Some ` {StatusPending, StatusRunning, StatusCompleted, StatusFailed, StatusEscalated}) \<and>
     (\<forall>t. f t = Some StatusRunning \<longleftrightarrow> (\<exists>w \<in> set ws. w_task w = t \<and> w_phase w = Working)) \<and>
     (\<forall>d t. (d, t) \<in> D \<longrightarrow> f t = Some StatusRunning \<or> ok (f t) \<longrightarrow> ok (f d)) \<and>
     (\<forall>d t. (d, t) \<in> D \<longrightarrow> f t = Some StatusPending \<longrightarrow> f d = Some StatusFailed \<longrightarrow> d \<in> B) \<and>
     (\<forall>w \<in> set ws. w_phase w = Retrying \<longrightarrow>
        f (w_task w) = Some StatusFailed \<and> (\<forall>d. (d, w_task w) \<in> D \<longrightarrow> ok (f d)))"

lemma ok_simps [simp]:
  "ok (Some StatusCompleted)" "ok (Some StatusEscalated)" "\<not> ok (Some StatusPending)"
  "\<not> ok (Some StatusRunning)" "\<not> ok (Some StatusFailed)" "\<not> ok None"
  by (simp_all add: ok_def)


definition live_status :: "TaskStatus \<Rightarrow> bool" where
  "live_status st \<longleftrightarrow> st \<in> {StatusPending, StatusRunning, StatusCompleted, StatusFailed, StatusEscalated}"

lemma consistentI:
  assumes "\<And>t. t \<in> T \<Longrightarrow> \<exists>st. f t = Some st \<and> live_status st"
    and "\<And>t. f t = Some StatusRunning \<longleftrightarrow> (\<exists>w \<in> set ws. w_task w = t \<and> w_phase w = Working)"
    and "\<And>d t. (d, t) \<in> D \<Longrightarrow> f t = Some StatusRunning \<or> ok (f t) \<Longrightarrow> ok (f d)"
    and "\<And>d t. (d, t) \<in> D \<Longrightarrow> f t = Some StatusPending \<Longrightarrow> f d = Some StatusFailed \<Longrightarrow> d \<in> B"
    and "\<And>w. w \<in> set ws \<Longrightarrow> w_phase w = Retrying \<Longrightarrow>
        f (w_task w) = Some StatusFailed \<and> (\<forall>d. (d, w_task w) \<in> D \<longrightarrow> ok (f d))"
  shows "consistent D T f ws B"
proof -
  have "f t \<in> Some ` {StatusPending, StatusRunning, StatusCompleted, StatusFailed, StatusEscalated}" if "t \<in> T" for t
    using assms(1) [OF that] by (auto simp: live_status_def)
  then show ?thesis unfolding consistent_def using assms(2-5) by blast
qed

lemma consistentD:
  assumes "consistent D T f ws B"
  shows "t \<in> T \<Longrightarrow> \<exists>st. f t = Some st \<and> live_status st"
    and "f t = Some StatusRunning \<longleftrightarrow> (\<exists>w \<in> set ws. w_task w = t \<and> w_phase w = Working)"
    and "(d, t) \<in> D \<Longrightarrow> f t = Some StatusRunning \<or> ok (f t) \<Longrightarrow> ok (f d)"
    and "(d, t) \<in> D \<Longrightarrow> f t = Some StatusPending \<Longrightarrow> f d = Some StatusFailed \<Longrightarrow> d \<in> B"
    and "w \<in> set ws \<Longrightarrow> w_phase w = Retrying \<Longrightarrow> f (w_task w) = Some StatusFailed"
    and "w \<in> set ws \<Longrightarrow> w_phase w = Retrying \<Longrightarrow> (d, w_task w) \<in> D \<Longrightarrow> ok (f d)"
proof -
  show "t \<in> T \<Longrightarrow> \<exists>st. f t = Some st \<and> live_status st"
    using assms unfolding consistent_def live_status_def by blast
qed (use assms in \<open>unfold consistent_def, blast+\<close>)

lemma consistent_dispatch:
  assumes c: "consistent D T f ws B" and w: "w_task w = tid" "w_phase w = Working"
    and t: "f tid = Some StatusPending" "\<And>d. (d, tid) \<in> D \<Longrightarrow> ok (f d)"
  shows "consistent D T (f(tid := Some StatusRunning)) (ws @ [w]) (insert tid B)"
proof (rule consistentI)
  have keep: "ok ((f(tid := Some StatusRunning)) d)" if "ok (f d)" for d using that t(1) by auto
  {
  fix v assume "v \<in> set (ws @ [w])" "w_phase v = Retrying"
  then have v: "v \<in> set ws" "w_phase v = Retrying" using w(2) by auto
  have "w_task v \<noteq> tid" using consistentD(5) [OF c v] t(1) by auto
  with consistentD(5) [OF c v] consistentD(6) [OF c v] keep
  show "(f(tid := Some StatusRunning)) (w_task v) = Some StatusFailed \<and>
      (\<forall>d. (d, w_task v) \<in> D \<longrightarrow> ok ((f(tid := Some StatusRunning)) d))"
    by simp
  }
  fix d t assume dt: "(d, t) \<in> D"
  show "ok ((f(tid := Some StatusRunning)) d)"
    if "(f(tid := Some StatusRunning)) t = Some StatusRunning \<or> ok ((f(tid := Some StatusRunning)) t)"
  proof (cases "t = tid")
    case True
    with dt assms(5) keep show ?thesis by blast
  next
    case False
    with that consistentD(3) [OF c dt] keep show ?thesis by simp
  qed
  show "d \<in> insert tid B"
    if "(f(tid := Some StatusRunning)) t = Some StatusPending" "(f(tid := Some StatusRunning)) d = Some StatusFailed"
    using that consistentD(4) [OF c dt] by (auto split: if_splits)
next
  fix t assume "t \<in> T"
  then show "\<exists>st. (f(tid := Some StatusRunning)) t = Some st \<and> live_status st"
    using consistentD(1) [OF c, of t] by (auto simp: live_status_def)
next
  fix t
  show "(f(tid := Some StatusRunning)) t = Some StatusRunning \<longleftrightarrow>
      (\<exists>v \<in> set (ws @ [w]). w_task v = t \<and> w_phase v = Working)"
    using consistentD(2) [OF c, of t] w by auto
qed

text \<open>A goroutine leaves the phase it is in: its task has another status, the other goroutines are as before.\<close>

lemma set_update_worker:
  assumes "i < length ws" and "distinct (map w_task ws)" and "w_task w = w_task (ws ! i)"
  shows "v \<in> set (ws[i := w]) \<longleftrightarrow> v = w \<or> v \<in> set ws \<and> w_task v \<noteq> w_task w"
proof -
  have "v \<in> set ws \<and> w_task v \<noteq> w_task w \<longleftrightarrow> (\<exists>j < length ws. j \<noteq> i \<and> v = ws ! j)"
  proof
    assume "v \<in> set ws \<and> w_task v \<noteq> w_task w"
    then obtain j where "j < length ws" "v = ws ! j" by (auto simp: in_set_conv_nth)
    with \<open>v \<in> set ws \<and> w_task v \<noteq> w_task w\<close> assms(3) show "\<exists>j < length ws. j \<noteq> i \<and> v = ws ! j" by auto
  next
    assume "\<exists>j < length ws. j \<noteq> i \<and> v = ws ! j"
    then obtain j where j: "j < length ws" "j \<noteq> i" "v = ws ! j" by blast
    have "map w_task ws ! j \<noteq> map w_task ws ! i"
      using j(1,2) assms(1) nth_eq_iff_index_eq [OF assms(2), of j i] by simp
    with j assms(1,3) show "v \<in> set ws \<and> w_task v \<noteq> w_task w" by simp
  qed
  moreover have "v \<in> set (ws[i := w]) \<longleftrightarrow> v = w \<or> (\<exists>j < length ws. j \<noteq> i \<and> v = ws ! j)"
    using assms(1) by (fastforce simp: in_set_conv_nth nth_list_update)
  ultimately show ?thesis by blast
qed

lemma consistent_leave:
  assumes c: "consistent D T f ws B"
    and i: "i < length ws" "w_task (ws ! i) = tid" and dist: "distinct (map w_task ws)"
    and old: "f tid = Some StatusRunning \<or> f tid = Some StatusFailed" and pre: "\<And>d. (d, tid) \<in> D \<Longrightarrow> ok (f d)"
    and st: "live_status st" "st \<noteq> StatusRunning"
    and ph: "ph \<noteq> Working" "ph = Retrying \<Longrightarrow> st = StatusFailed"
    and B: "tid \<in> B" and D: "(tid, tid) \<notin> D"
  shows "consistent D T (f(tid := Some st)) (ws[i := (ws ! i)\<lparr>w_phase := ph\<rparr>]) B"
proof (rule consistentI)
  have mem: "v \<in> set (ws[i := (ws ! i)\<lparr>w_phase := ph\<rparr>]) \<longleftrightarrow> v = (ws ! i)\<lparr>w_phase := ph\<rparr> \<or> v \<in> set ws \<and> w_task v \<noteq> tid" for v
    using set_update_worker [OF i(1) dist, of "(ws ! i)\<lparr>w_phase := ph\<rparr>" v] i(2) by simp
  have nodep: "\<not> ok (f tid)" using old by auto
  have keep: "ok ((f(tid := Some st)) d)" if "ok (f d)" for d using that nodep by auto
  {
    fix t assume "t \<in> T"
    then show "\<exists>st'. (f(tid := Some st)) t = Some st' \<and> live_status st'"
      using consistentD(1) [OF c, of t] st(1) by auto
  next
    fix t
    show "(f(tid := Some st)) t = Some StatusRunning \<longleftrightarrow>
        (\<exists>w \<in> set (ws[i := (ws ! i)\<lparr>w_phase := ph\<rparr>]). w_task w = t \<and> w_phase w = Working)"
    proof (cases "t = tid")
      case True
      then show ?thesis using st(2) ph(1) by (auto simp: mem)
    next
      case False
      have "(\<exists>w \<in> set (ws[i := (ws ! i)\<lparr>w_phase := ph\<rparr>]). w_task w = t \<and> w_phase w = Working) \<longleftrightarrow>
          (\<exists>w \<in> set ws. w_task w = t \<and> w_phase w = Working)"
        using False ph(1) i(2) by (auto simp: mem)
      with False consistentD(2) [OF c, of t] show ?thesis by simp
    qed
  next
    fix d t assume dt: "(d, t) \<in> D"
    show "ok ((f(tid := Some st)) d)" if "(f(tid := Some st)) t = Some StatusRunning \<or> ok ((f(tid := Some st)) t)"
    proof (cases "t = tid")
      case True
      with dt pre keep show ?thesis by blast
    next
      case False
      with that consistentD(3) [OF c dt] keep show ?thesis by simp
    qed
    show "d \<in> B" if "(f(tid := Some st)) t = Some StatusPending" "(f(tid := Some st)) d = Some StatusFailed"
    proof (cases "d = tid")
      case False
      have "t \<noteq> tid" using False that(2) pre [of d] dt by (cases "t = tid") (simp_all add: ok_def)
      with False that consistentD(4) [OF c dt] show ?thesis by simp
    qed (use B in simp)
  next
    fix w assume w: "w \<in> set (ws[i := (ws ! i)\<lparr>w_phase := ph\<rparr>])" "w_phase w = Retrying"
    show "(f(tid := Some st)) (w_task w) = Some StatusFailed \<and> (\<forall>d. (d, w_task w) \<in> D \<longrightarrow> ok ((f(tid := Some st)) d))"
    proof (cases "w_task w = tid")
      case True
      with w have "ph = Retrying" by (auto simp: mem)
      with ph(2) True pre keep show ?thesis by simp
    next
      case False
      with w have w': "w \<in> set ws" "w_phase w = Retrying" using i(2) by (auto simp: mem)
      from consistentD(5) [OF c w'] consistentD(6) [OF c w'] keep False show ?thesis by auto
    qed
  }
qed

lemma consistent_workers:
  assumes "consistent D T f ws B"
    and "\<And>w. w_phase w \<in> {Working, Retrying} \<Longrightarrow> w \<in> set ws' \<longleftrightarrow> w \<in> set ws"
  shows "consistent D T f ws' B"
proof -
  have eq: "(\<exists>w \<in> set ws'. w_task w = t \<and> w_phase w = Working) \<longleftrightarrow> (\<exists>w \<in> set ws. w_task w = t \<and> w_phase w = Working)" for t
    using assms(2) by blast
  show ?thesis
  proof (rule consistentI)
    show "f t = Some StatusRunning \<longleftrightarrow> (\<exists>w \<in> set ws'. w_task w = t \<and> w_phase w = Working)" for t
      unfolding eq by (rule consistentD(2) [OF assms(1)])
    show "f (w_task w) = Some StatusFailed \<and> (\<forall>d. (d, w_task w) \<in> D \<longrightarrow> ok (f d))"
      if "w \<in> set ws'" "w_phase w = Retrying" for w
    proof -
      have "w \<in> set ws" using assms(2) [of w] that by simp
      with consistentD(5,6) [OF assms(1)] that(2) show ?thesis by blast
    qed
  qed (use consistentD(1,3,4) [OF assms(1)] in blast)+
qed

text \<open>
  Collecting a task: a failed one takes along the pending tasks that depend on it, directly or through
  others, and afterwards no pending task depends on it or on them.
\<close>

lemma consistent_collect:
  assumes c: "consistent D T f ws B" and t: "tid \<in> T" "tid \<notin> w_task ` set ws"
    and A: "f tid = Some StatusFailed \<Longrightarrow> A \<subseteq> {t. f t = Some StatusPending}" "f tid \<noteq> Some StatusFailed \<Longrightarrow> A = {}"
    and closed: "\<And>d t. f tid = Some StatusFailed \<Longrightarrow> (d, t) \<in> D \<Longrightarrow> d = tid \<or> d \<in> A \<Longrightarrow> f t = Some StatusPending \<Longrightarrow> t \<in> A"
  shows "consistent D T (\<lambda>t. if t \<in> A then Some StatusFailed else f t) ws (B - {tid})"
proof (rule consistentI)
  let ?f = "\<lambda>t. if t \<in> A then Some StatusFailed else f t"
  have pend: "f t = Some StatusPending" if "t \<in> A" for t using A that by (cases "f tid = Some StatusFailed") auto
  have keep: "ok (?f d)" if "ok (f d)" for d using that pend [of d] by auto
  {
    fix t assume "t \<in> T"
    then show "\<exists>st. ?f t = Some st \<and> live_status st"
      using consistentD(1) [OF c, of t] by (auto simp: live_status_def)
  next
    fix t
    show "?f t = Some StatusRunning \<longleftrightarrow> (\<exists>w \<in> set ws. w_task w = t \<and> w_phase w = Working)"
      using consistentD(2) [OF c, of t] pend [of t] by auto
  next
    fix d t assume dt: "(d, t) \<in> D"
    show "ok (?f d)" if "?f t = Some StatusRunning \<or> ok (?f t)"
    proof -
      have "f t = Some StatusRunning \<or> ok (f t)" using that by (simp split: if_splits)
      from keep [OF consistentD(3) [OF c dt this]] show ?thesis .
    qed
    show "d \<in> B - {tid}" if "?f t = Some StatusPending" "?f d = Some StatusFailed"
    proof -
      have p: "f t = Some StatusPending" "t \<notin> A" using that(1) by (auto split: if_splits)
      have "d \<notin> A" using closed [OF _ dt _ p(1)] p(2) A(2) by (cases "f tid = Some StatusFailed") auto
      with that(2) have "f d = Some StatusFailed" by simp
      moreover from this have "d \<noteq> tid" using closed [OF _ dt _ p(1)] p(2) by auto
      ultimately show ?thesis using consistentD(4) [OF c dt p(1)] by simp
    qed
  next
    fix w assume w: "w \<in> set ws" "w_phase w = Retrying"
    from consistentD(5) [OF c w] consistentD(6) [OF c w] keep
    show "?f (w_task w) = Some StatusFailed \<and> (\<forall>d. (d, w_task w) \<in> D \<longrightarrow> ok (?f d))" by auto
  }
qed

section \<open>The invariant of a quiet run\<close>

abbreviation edges :: "TaskGraph \<Rightarrow> (string \<times> string) set" where
  "edges g \<equiv> dep_edges (tg_Tasks g)"

abbreviation ids :: "TaskGraph \<Rightarrow> string set" where
  "ids g \<equiv> set (task_ids (tg_Tasks g))"

abbreviation stat :: "exec \<Rightarrow> string \<Rightarrow> TaskStatus option" where
  "stat s \<equiv> status (tg_Tasks (ex_graph s))"

definition busy :: "exec \<Rightarrow> string list" where
  "busy s = map w_task (ex_workers s) @ ex_done s"

definition dispatchable :: "TaskGraph \<Rightarrow> exec \<Rightarrow> string \<Rightarrow> bool" where
  "dispatchable g s t \<longleftrightarrow> t \<in> ids g \<and> (\<forall>d. (d, t) \<in> edges g \<longrightarrow> ok (stat s d)) \<and>
     (t \<notin> set (busy s) \<longrightarrow> stat s t = Some StatusPending)"

definition pc_inv :: "TaskGraph \<Rightarrow> exec \<Rightarrow> bool" where
  "pc_inv g s \<longleftrightarrow>
     (case ex_pc s of
        AtGate \<Rightarrow> False
      | GateDrain \<Rightarrow> False
      | Waiting \<Rightarrow> 0 < ex_pending s
      | Returned Deadlock \<Rightarrow> False
      | Dispatching rest n r \<Rightarrow> distinct rest \<and> (\<forall>t \<in> set rest. dispatchable g s t) \<and>
          (ex_pending s = 0 \<longrightarrow> r = length (ReadyTasks (ex_graph s)))
      | _ \<Rightarrow> True)"

definition quiet_frame :: "TaskGraph \<Rightarrow> exec \<Rightarrow> bool" where
  "quiet_frame g s \<longleftrightarrow>
     valid_graph g \<and> shape (tg_Tasks (ex_graph s)) = shape (tg_Tasks g) \<and>
     tg_Loops (ex_graph s) = tg_Loops g \<and>
     (\<forall>w \<in> set (ex_workers s). w_gen w = ex_gen s) \<and>
     \<not> ex_paused s \<and> \<not> ex_resuming s \<and> \<not> ex_pauseClosed s \<and> \<not> ex_restructuring s \<and> ex_replace s = None"

definition quiet_tasks :: "TaskGraph \<Rightarrow> exec \<Rightarrow> bool" where
  "quiet_tasks g s \<longleftrightarrow>
     distinct (busy s) \<and> set (ex_dispatched s) = set (busy s) \<and> set (busy s) \<subseteq> ids g \<and>
     ex_pending s = int (length (busy s)) \<and>
     consistent (edges g) (ids g) (stat s) (ex_workers s) (set (busy s))"

definition quiet_inv :: "TaskGraph \<Rightarrow> exec \<Rightarrow> bool" where
  "quiet_inv g s \<longleftrightarrow> quiet_frame g s \<and> quiet_tasks g s \<and> pc_inv g s"

lemma quiet_frame_facts:
  assumes "quiet_frame g s"
  shows "task_ids (tg_Tasks (ex_graph s)) = task_ids (tg_Tasks g)"
    and "dep_edges (tg_Tasks (ex_graph s)) = edges g"
    and "distinct (task_ids (tg_Tasks (ex_graph s)))" and "(t, t) \<notin> edges g"
  using assms shape_ids [of "tg_Tasks (ex_graph s)" "tg_Tasks g"] shape_edges [of "tg_Tasks (ex_graph s)" "tg_Tasks g"]
  by (auto simp: quiet_frame_def valid_graph_def acyclic_def)

lemma quiet_valid: "quiet_frame g s \<Longrightarrow> valid_graph (ex_graph s)"
proof -
  assume q: "quiet_frame g s"
  let ?ts = "tg_Tasks (ex_graph s)"
  have sh: "shape ?ts = shape (tg_Tasks g)" and v: "valid_graph g" and l: "tg_Loops (ex_graph s) = tg_Loops g"
    using q by (simp_all add: quiet_frame_def)
  have tr: "(\<forall>t \<in> set ?ts. P (tn_ID t) (tn_DependsOn t) (tn_LoopID t)) \<longleftrightarrow>
      (\<forall>t \<in> set (tg_Tasks g). P (tn_ID t) (tn_DependsOn t) (tn_LoopID t))" for P
  proof -
    have "(\<forall>t \<in> set ts. P (tn_ID t) (tn_DependsOn t) (tn_LoopID t)) \<longleftrightarrow> (\<forall>(i, ds, l) \<in> set (shape ts). P i ds l)" for ts
      by (auto simp: shape_def)
    with sh show ?thesis by simp
  qed
  have "\<forall>t \<in> set ?ts. tn_LoopID t = '''' \<or> tn_LoopID t \<in> ld_ID ` set (tg_Loops (ex_graph s))"
    using v tr [of "\<lambda>_ _ i. i = '''' \<or> i \<in> ld_ID ` set (tg_Loops g)"] by (simp add: valid_graph_def l)
  moreover have "closed_deps ?ts"
    using v tr [of "\<lambda>_ ds _. set ds \<subseteq> ids g"] quiet_frame_facts(1) [OF q]
    by (simp add: valid_graph_def closed_deps_def flip: set_map)
  ultimately show ?thesis
    using v quiet_frame_facts [OF q] l by (simp add: valid_graph_def)
qed

lemma valid_edges: "valid_graph g \<Longrightarrow> (d, t) \<in> edges g \<Longrightarrow> d \<in> ids g \<and> t \<in> ids g"
  by (fastforce simp: valid_graph_def closed_deps_def dep_edges_def)

lemma ReadyTasks_status:
  assumes "distinct (task_ids (tg_Tasks h))" and "t \<in> set (ReadyTasks h)"
  shows "status (tg_Tasks h) (tn_ID t) = Some StatusPending"
    and "(d, tn_ID t) \<in> dep_edges (tg_Tasks h) \<Longrightarrow> ok (status (tg_Tasks h) d)"
proof -
  have t: "t \<in> set (tg_Tasks h)" "tn_Status t = StatusPending"
    and deps: "\<And>d. d \<in> set (tn_DependsOn t) \<Longrightarrow> d \<in> tn_ID ` {u \<in> set (tg_Tasks h). dep_done (tn_Status u)}"
    using assms(2) by (auto simp: ReadyTasks_def Let_def)
  show "status (tg_Tasks h) (tn_ID t) = Some StatusPending"
    using status_task [OF assms(1) t(1)] t(2) by simp
  assume "(d, tn_ID t) \<in> dep_edges (tg_Tasks h)"
  then obtain u where "u \<in> set (tg_Tasks h)" "tn_ID u = tn_ID t" "d \<in> set (tn_DependsOn u)"
    by (auto simp: dep_edges_def)
  with unique_task [OF assms(1) _ t(1)] have "d \<in> set (tn_DependsOn t)" by metis
  from deps [OF this] obtain v where "v \<in> set (tg_Tasks h)" "dep_done (tn_Status v)" "d = tn_ID v" by blast
  with status_task [OF assms(1), of v] show "ok (status (tg_Tasks h) d)"
    by (auto simp: ok_def dep_done_def)
qed

lemma distinct_ready: "distinct (task_ids (tg_Tasks h)) \<Longrightarrow> distinct (task_ids (ReadyTasks h))"
  by (simp add: ReadyTasks_def Let_def distinct_map_filter)

lemma quiet_tasks_cong:
  "ex_graph s' = ex_graph s \<Longrightarrow> ex_workers s' = ex_workers s \<Longrightarrow> ex_done s' = ex_done s \<Longrightarrow>
     ex_pending s' = ex_pending s \<Longrightarrow> ex_dispatched s' = ex_dispatched s \<Longrightarrow> quiet_tasks g s \<Longrightarrow> quiet_tasks g s'"
  by (simp add: quiet_tasks_def busy_def)

lemma quiet_frame_pc: "quiet_frame g s \<Longrightarrow> quiet_frame g (s\<lparr>ex_pc := p\<rparr>)"
  by (simp add: quiet_frame_def)

lemma quiet_tasks_pc: "quiet_tasks g s \<Longrightarrow> quiet_tasks g (s\<lparr>ex_pc := p\<rparr>)"
  by (rule quiet_tasks_cong) simp_all

subsection \<open>Dispatching\<close>

lemma dispatch_one_new:
  assumes "snd (dispatch_one agents tid s)"
  obtains task inflight where "tid \<notin> set (ex_dispatched s)" "Get (ex_graph s) tid = Some task"
    "fst (dispatch_one agents tid s) = update_graph tid (\<lambda>t. t\<lparr>tn_Status := StatusRunning\<rparr>)
       (s\<lparr>ex_inflight := inflight, ex_dispatched := tid # ex_dispatched s, ex_pending := ex_pending s + 1,
          ex_workers := ex_workers s @
            [\<lparr>w_task = tid, w_profile = taskProfile task, w_gen = ex_gen s, w_phase = Working\<rparr>]\<rparr>)"
  using assms by (auto simp: dispatch_one_def split: if_splits option.splits)

lemma dispatch_one_skip: "\<not> snd (dispatch_one agents tid s) \<Longrightarrow> fst (dispatch_one agents tid s) = s"
  by (auto simp: dispatch_one_def split: if_splits option.splits)

lemma stat_update_graph:
  assumes "\<And>t. tn_ID (h t) = tn_ID t" and "\<And>t. tn_ID t = tid \<Longrightarrow> tn_Status t \<in> St \<Longrightarrow> tn_Status (h t) = st"
    and "\<exists>st0 \<in> St. stat s tid = Some st0"
  shows "stat (update_graph tid h s) = (stat s)(tid := Some st)"
proof
  fix t
  obtain u where u: "find (\<lambda>t. tn_ID t = tid) (tg_Tasks (ex_graph s)) = Some u" "tn_Status u \<in> St"
    using assms(3) by (auto simp: status_def)
  have "tn_ID u = tid" using find_SomeD [OF u(1)] by simp
  with u assms(2) show "stat (update_graph tid h s) t = ((stat s)(tid := Some st)) t"
    by (simp add: status_update [OF assms(1)])
qed

lemma quiet_dispatch:
  assumes q: "quiet_frame g s" "quiet_tasks g s" and tid: "dispatchable g s tid"
    and new: "snd (dispatch_one agents tid s)"
  shows "quiet_frame g (fst (dispatch_one agents tid s))" and "quiet_tasks g (fst (dispatch_one agents tid s))"
    and "stat (fst (dispatch_one agents tid s)) = (stat s)(tid := Some StatusRunning)"
    and "set (busy (fst (dispatch_one agents tid s))) = insert tid (set (busy s))"
    and "ex_pending (fst (dispatch_one agents tid s)) > 0" and "tid \<notin> set (busy s)"
proof -
  obtain task inflight where n: "tid \<notin> set (ex_dispatched s)" and
    eq: "fst (dispatch_one agents tid s) = update_graph tid (\<lambda>t. t\<lparr>tn_Status := StatusRunning\<rparr>)
       (s\<lparr>ex_inflight := inflight, ex_dispatched := tid # ex_dispatched s, ex_pending := ex_pending s + 1,
          ex_workers := ex_workers s @
            [\<lparr>w_task = tid, w_profile = taskProfile task, w_gen = ex_gen s, w_phase = Working\<rparr>]\<rparr>)"
    using dispatch_one_new [OF new] by metis
  show nb: "tid \<notin> set (busy s)" using n q(2) by (simp add: quiet_tasks_def)
  then have pend: "stat s tid = Some StatusPending" using tid by (simp add: dispatchable_def)
  show fr: "quiet_frame g (fst (dispatch_one agents tid s))"
    using q(1) unfolding eq by (auto simp: quiet_frame_def shape_update)
  show st: "stat (fst (dispatch_one agents tid s)) = (stat s)(tid := Some StatusRunning)"
  proof -
    let ?s = "s\<lparr>ex_inflight := inflight, ex_dispatched := tid # ex_dispatched s, ex_pending := ex_pending s + 1,
          ex_workers := ex_workers s @
            [\<lparr>w_task = tid, w_profile = taskProfile task, w_gen = ex_gen s, w_phase = Working\<rparr>]\<rparr>"
    have "stat (update_graph tid (\<lambda>t. t\<lparr>tn_Status := StatusRunning\<rparr>) ?s) = (stat ?s)(tid := Some StatusRunning)"
      using pend by (intro stat_update_graph [where St = "{StatusPending}"]) simp_all
    then show ?thesis unfolding eq by simp
  qed
  show bu: "set (busy (fst (dispatch_one agents tid s))) = insert tid (set (busy s))"
    unfolding eq by (auto simp: busy_def)
  show "ex_pending (fst (dispatch_one agents tid s)) > 0"
    using q(2) unfolding eq by (simp add: quiet_tasks_def)
  have "consistent (edges g) (ids g) ((stat s)(tid := Some StatusRunning))
      (ex_workers s @ [\<lparr>w_task = tid, w_profile = taskProfile task, w_gen = ex_gen s, w_phase = Working\<rparr>])
      (insert tid (set (busy s)))"
    using q(2) tid pend by (intro consistent_dispatch) (auto simp: quiet_tasks_def dispatchable_def)
  moreover have "ex_workers (fst (dispatch_one agents tid s)) = ex_workers s @
      [\<lparr>w_task = tid, w_profile = taskProfile task, w_gen = ex_gen s, w_phase = Working\<rparr>]"
    unfolding eq by simp
  moreover have "distinct (busy (fst (dispatch_one agents tid s)))"
    and "set (ex_dispatched (fst (dispatch_one agents tid s))) = insert tid (set (busy s))"
    and "ex_pending (fst (dispatch_one agents tid s)) = int (length (busy (fst (dispatch_one agents tid s))))"
    using q(2) nb unfolding eq by (auto simp: busy_def quiet_tasks_def)
  ultimately show "quiet_tasks g (fst (dispatch_one agents tid s))"
    using q(2) tid unfolding quiet_tasks_def bu st by (auto simp: dispatchable_def)
qed

subsection \<open>Collecting\<close>

lemma quiet_cascade:
  assumes q: "quiet_frame g s" "quiet_tasks g s" and f: "stat s tid = Some StatusFailed"
  shows "cascade_set (tg_Tasks (ex_graph s)) tid \<subseteq> {t. stat s t = Some StatusPending}"
    and "(d, t) \<in> edges g \<Longrightarrow> d = tid \<or> d \<in> cascade_set (tg_Tasks (ex_graph s)) tid \<Longrightarrow>
      stat s t = Some StatusPending \<Longrightarrow> t \<in> cascade_set (tg_Tasks (ex_graph s)) tid"
proof -
  let ?ts = "tg_Tasks (ex_graph s)"
  note fr = quiet_frame_facts [OF q(1)]
  have c: "consistent (edges g) (ids g) (stat s) (ex_workers s) (set (busy s))"
    using q(2) by (simp add: quiet_tasks_def)
  have open_stat: "(a, b) \<in> edges g \<and> b \<in> ids g \<and> stat s b \<noteq> Some StatusFailed \<and> stat s b \<noteq> Some StatusCompleted"
    if e: "(a, b) \<in> open_edges ?ts" for a b
  proof -
    obtain t where t: "t \<in> set ?ts" "a \<in> set (tn_DependsOn t)" "b = tn_ID t" "\<not> settled (tn_Status t)"
      using e by (auto simp: open_edges_def)
    then have "(a, b) \<in> dep_edges ?ts" "b \<in> set (task_ids ?ts)" by (auto simp: dep_edges_def)
    moreover have "stat s b = Some (tn_Status t)" using status_task [OF fr(3) t(1)] t(3) by simp
    ultimately show ?thesis using t(4) fr(1,2) by (auto simp: settled_def)
  qed
  have "stat s t = Some StatusPending" if "(tid, t) \<in> (open_edges ?ts)\<^sup>+" for t
    using that
  proof (induction rule: trancl_induct)
    case (base b)
    from open_stat [OF base] consistentD(1) [OF c, of b] consistentD(3) [OF c, of tid b] f
    show ?case by (auto simp: live_status_def)
  next
    case (step a b)
    from open_stat [OF step(2)] consistentD(1) [OF c, of b] consistentD(3) [OF c, of a b] step.IH
    show ?case by (auto simp: live_status_def)
  qed
  then show "cascade_set ?ts tid \<subseteq> {t. stat s t = Some StatusPending}" by (auto simp: cascade_set_def)
  assume dt: "(d, t) \<in> edges g" "d = tid \<or> d \<in> cascade_set ?ts tid" and p: "stat s t = Some StatusPending"
  obtain u where u: "u \<in> set ?ts" "tn_ID u = t" "d \<in> set (tn_DependsOn u)"
    using dt(1) unfolding fr(2) [symmetric] by (auto simp: dep_edges_def)
  with p status_task [OF fr(3) u(1)] have "(d, t) \<in> open_edges ?ts" by (auto simp: open_edges_def settled_def)
  with dt(2) show "t \<in> cascade_set ?ts tid" by (auto simp: cascade_set_def intro: trancl_into_trancl)
qed

lemma quiet_collect:
  assumes q: "quiet_frame g s" "quiet_tasks g s" and d: "ex_done s = tid # ds"
  shows "quiet_frame g (collect tid (s\<lparr>ex_done := ds\<rparr>)) \<and> quiet_tasks g (collect tid (s\<lparr>ex_done := ds\<rparr>))"
proof
  let ?ts = "tg_Tasks (ex_graph s)"
  let ?s = "collect tid (s\<lparr>ex_done := ds\<rparr>)"
  note fr = quiet_frame_facts [OF q(1)]
  define A where "A = (if stat s tid = Some StatusFailed then cascade_set ?ts tid else {})"
  have bs: "busy s = map w_task (ex_workers s) @ tid # ds" by (simp add: busy_def d)
  have tid: "tid \<in> ids g" "tid \<notin> w_task ` set (ex_workers s)"
    using q(2) bs by (auto simp: quiet_tasks_def)
  have "tid \<in> set (task_ids ?ts)" using tid(1) fr(1) by simp
  then obtain t where t: "t \<in> set ?ts" "tn_ID t = tid" by auto
  have find: "find (\<lambda>u. tn_ID u = tid) ?ts = Some t" using find_task [OF fr(3) t(1)] t(2) by simp
  have tasks: "tg_Tasks (ex_graph ?s) = (if stat s tid = Some StatusFailed then marked tid A ?ts else ?ts)"
  proof -
    obtain casc where "FailDependents (ex_graph s) tid =
        ((ex_graph s)\<lparr>tg_Tasks := marked tid (cascade_set ?ts tid) ?ts\<rparr>, casc)"
      using FailDependents_spec [OF fr(3), of tid] by blast
    then show ?thesis
      using find by (auto simp: collect_def Let_def Get_def A_def status_def)
  qed
  have loops: "tg_Loops (ex_graph ?s) = tg_Loops (ex_graph s)"
    by (simp add: collect_def Let_def FailDependents_def split: option.split)
  show fr': "quiet_frame g ?s"
    using q(1) by (auto simp: quiet_frame_def tasks shape_marked loops)
  have A: "A \<subseteq> {t. stat s t = Some StatusPending}" if "stat s tid = Some StatusFailed"
    using quiet_cascade(1) [OF q that] that by (simp add: A_def)
  have st: "stat ?s = (\<lambda>t. if t \<in> A then Some StatusFailed else stat s t)"
  proof
    fix t
    have "t \<in> set (task_ids ?ts)" if "t \<in> A"
    proof -
      have "stat s t = Some StatusPending" using A that by (auto simp: A_def split: if_splits)
      then show ?thesis using status_Some [OF fr(3)] by auto
    qed
    then show "stat ?s t = (if t \<in> A then Some StatusFailed else stat s t)"
      unfolding tasks using status_marked [OF fr(3), of tid A t] by (auto simp: A_def)
  qed
  have bs': "busy ?s = map w_task (ex_workers s) @ ds" by (simp add: busy_def)
  have setb: "set (busy ?s) = set (busy s) - {tid}"
    using q(2) unfolding bs' bs quiet_tasks_def by auto
  have "consistent (edges g) (ids g) (\<lambda>t. if t \<in> A then Some StatusFailed else stat s t) (ex_workers s) (set (busy s) - {tid})"
  proof (rule consistent_collect)
    show "consistent (edges g) (ids g) (stat s) (ex_workers s) (set (busy s))"
      using q(2) by (simp add: quiet_tasks_def)
    show "t \<in> A" if "stat s tid = Some StatusFailed" "(d, t) \<in> edges g" "d = tid \<or> d \<in> A"
      "stat s t = Some StatusPending" for d t
      using quiet_cascade(2) [OF q that(1,2) _ that(4)] that(1,3) by (simp add: A_def)
  qed (use tid A in \<open>auto simp: A_def\<close>)
  moreover have "distinct (busy ?s)" "ex_pending ?s = int (length (busy ?s))"
    using q(2) unfolding bs' quiet_tasks_def bs by auto
  ultimately show "quiet_tasks g ?s"
    using q(2) setb st by (auto simp: quiet_tasks_def)
qed

subsection \<open>Goroutines\<close>

text \<open>The status an outcome leads to when nobody interferes.\<close>

lemma settle_status:
  assumes "tn_Status t = StatusRunning"
  shows "live_status (tn_Status (settle_task False False out t))"
    and "tn_Status (settle_task False False out t) \<noteq> StatusRunning"
  using assms by (cases out; simp add: settle_task_def set_status_def reset_task_def live_status_def)+

lemma settle_shape:
  "tn_ID (settle_task p r out t) = tn_ID t" "tn_DependsOn (settle_task p r out t) = tn_DependsOn t"
  "tn_LoopID (settle_task p r out t) = tn_LoopID t"
  by (cases out; simp add: settle_task_def set_status_def reset_task_def)+

lemma tasks_phase: "map w_task (ws[i := (ws ! i)\<lparr>w_phase := ph\<rparr>]) = map w_task ws"
proof (cases "i < length ws")
  case True
  then have "(map w_task ws)[i := w_task (ws ! i)] = map w_task ws"
    using list_update_id [of "map w_task ws" i] by simp
  then show ?thesis by (simp add: map_update)
qed (simp add: list_update_beyond)

lemma gens_phase:
  "\<forall>w \<in> set ws. w_gen w = k \<Longrightarrow> i < length ws \<Longrightarrow> \<forall>w \<in> set (ws[i := (ws ! i)\<lparr>w_phase := ph\<rparr>]). w_gen w = k"
  using set_update_subset_insert [of ws i "(ws ! i)\<lparr>w_phase := ph\<rparr>"] nth_mem [of i ws] by fastforce

text \<open>A goroutine writes a new status and changes its phase.\<close>

lemma quiet_write:
  assumes q: "quiet_frame g s" "quiet_tasks g s"
    and i: "i < length (ex_workers s)" "w_task (ex_workers s ! i) = tid"
    and old: "stat s tid = Some StatusRunning \<or> stat s tid = Some StatusFailed"
    and pre: "\<And>d. (d, tid) \<in> edges g \<Longrightarrow> ok (stat s d)"
    and h: "\<And>t. tn_ID (h t) = tn_ID t \<and> tn_DependsOn (h t) = tn_DependsOn t \<and> tn_LoopID (h t) = tn_LoopID t"
    and new: "stat (update_graph tid h s) = (stat s)(tid := Some st)" "live_status st" "st \<noteq> StatusRunning"
    and ph: "ph \<noteq> Working" "ph = Retrying \<Longrightarrow> st = StatusFailed"
  shows "quiet_frame g (write_task (ex_workers s ! i) h (set_phase i ph s)) \<and>
    quiet_tasks g (write_task (ex_workers s ! i) h (set_phase i ph s)) \<and>
    stat (write_task (ex_workers s ! i) h (set_phase i ph s)) = (stat s)(tid := Some st)"
proof -
  let ?s = "write_task (ex_workers s ! i) h (set_phase i ph s)"
  have "w_gen (ex_workers s ! i) = ex_gen s" using q(1) i(1) by (simp add: quiet_frame_def)
  then have s': "?s = update_graph tid h (set_phase i ph s)" using i(2) by (simp add: write_task_def)
  have st: "stat ?s = (stat s)(tid := Some st)" using new(1) by (simp add: s')
  have bu: "busy ?s = busy s" by (simp add: s' busy_def tasks_phase)
  have gens: "\<forall>w \<in> set (ex_workers ?s). w_gen w = ex_gen s"
    using gens_phase [of "ex_workers s" "ex_gen s" i ph] q(1) i(1) by (simp add: s' quiet_frame_def)
  have "quiet_frame g ?s"
    using q(1) gens h by (simp add: quiet_frame_def) (simp add: s' shape_update)
  moreover have "consistent (edges g) (ids g) ((stat s)(tid := Some st))
      ((ex_workers s)[i := (ex_workers s ! i)\<lparr>w_phase := ph\<rparr>]) (set (busy s))"
  proof (rule consistent_leave)
    show "consistent (edges g) (ids g) (stat s) (ex_workers s) (set (busy s))"
      using q(2) by (simp add: quiet_tasks_def)
    show "distinct (map w_task (ex_workers s))" using q(2) by (simp add: quiet_tasks_def busy_def)
    show "tid \<in> set (busy s)" using i by (auto simp: busy_def)
    show "(tid, tid) \<notin> edges g" by (rule quiet_frame_facts(4) [OF q(1)])
  qed (use i old pre new(2,3) ph in auto)
  ultimately show ?thesis
    using q(2) st by (simp add: quiet_tasks_def bu)
qed

lemma pc_inv_keep:
  assumes "pc_inv g s" and "ex_pc s' = ex_pc s" and "0 < ex_pending s" and "ex_pending s' = ex_pending s"
    and "set (busy s') = set (busy s)"
    and "\<And>t. t \<notin> set (busy s) \<Longrightarrow> stat s' t = stat s t" and "\<And>t. ok (stat s t) \<Longrightarrow> ok (stat s' t)"
  shows "pc_inv g s'"
proof -
  have "dispatchable g s t \<Longrightarrow> dispatchable g s' t" for t
    using assms(5-7) by (auto simp: dispatchable_def)
  with assms(1-4) show ?thesis
    by (auto simp: pc_inv_def split: pc.splits exec_result.splits)
qed

lemma quiet_pending: "quiet_tasks g s \<Longrightarrow> i < length (ex_workers s) \<Longrightarrow> 0 < ex_pending s"
  by (cases "ex_workers s") (auto simp: quiet_tasks_def busy_def)

lemma quiet_finish:
  assumes q: "quiet_inv g s" and f: "finish_worker i out retry s = Some s'"
  shows "quiet_inv g s'"
proof -
  have fr: "quiet_frame g s" and qt: "quiet_tasks g s" and pc: "pc_inv g s" using q by (simp_all add: quiet_inv_def)
  let ?tid = "w_task (ex_workers s ! i)"
  let ?h = "settle_task False False out"
  let ?ph = "case out of Fails _ \<Rightarrow> if retry then Retrying else Settled | _ \<Rightarrow> Settled"
  have i: "i < length (ex_workers s)" "w_phase (ex_workers s ! i) = Working"
    and s': "s' = write_task (ex_workers s ! i) ?h (set_phase i ?ph s)"
    using f fr by (auto simp: finish_worker_def at_phase_def quiet_frame_def split: if_splits)
  have c: "consistent (edges g) (ids g) (stat s) (ex_workers s) (set (busy s))"
    using qt by (simp add: quiet_tasks_def)
  have run: "stat s ?tid = Some StatusRunning"
    using consistentD(2) [OF c, of ?tid] i by auto
  then obtain u where u: "u \<in> set (tg_Tasks (ex_graph s))" "tn_ID u = ?tid" "tn_Status u = StatusRunning"
    using status_Some [OF quiet_frame_facts(3) [OF fr]] by blast
  have st: "stat (update_graph ?tid ?h s) = (stat s)(?tid := Some (tn_Status (?h u)))"
  proof
    fix t
    have "find (\<lambda>t. tn_ID t = ?tid) (tg_Tasks (ex_graph s)) = Some u"
      using find_task [OF quiet_frame_facts(3) [OF fr] u(1)] u(2) by simp
    then show "stat (update_graph ?tid ?h s) t = ((stat s)(?tid := Some (tn_Status (?h u)))) t"
      by (simp add: status_update settle_shape)
  qed
  have w: "quiet_frame g s' \<and> quiet_tasks g s' \<and> stat s' = (stat s)(?tid := Some (tn_Status (?h u)))"
    unfolding s'
  proof (rule quiet_write [OF fr qt i(1) refl])
    show "ok (stat s d)" if "(d, ?tid) \<in> edges g" for d using consistentD(3) [OF c that] run by simp
    show "?ph \<noteq> Working" by (simp split: outcome.split)
    show "tn_Status (?h u) = StatusFailed" if "?ph = Retrying"
      using that by (simp add: settle_task_def set_status_def split: outcome.splits)
  qed (use run st settle_status [OF u(3), of out] settle_shape in auto)
  have "set (busy s') = set (busy s)" unfolding s' by (simp add: busy_def tasks_phase del: set_map)
  moreover have "?tid \<in> set (busy s)" using i by (auto simp: busy_def)
  ultimately have "pc_inv g s'"
    using w run by (intro pc_inv_keep [OF pc _ quiet_pending [OF qt i(1)]]) (auto simp: s')
  with w show ?thesis by (simp add: quiet_inv_def)
qed

lemma quiet_retry:
  assumes q: "quiet_inv g s" and f: "retry_worker i s = Some s'"
  shows "quiet_inv g s'"
proof -
  have fr: "quiet_frame g s" and qt: "quiet_tasks g s" and pc: "pc_inv g s" using q by (simp_all add: quiet_inv_def)
  let ?tid = "w_task (ex_workers s ! i)"
  let ?h = "set_status StatusPending ''''"
  have i: "i < length (ex_workers s)" "w_phase (ex_workers s ! i) = Retrying"
    and s': "s' = write_task (ex_workers s ! i) ?h (set_phase i Settled s)"
    using f by (auto simp: retry_worker_def at_phase_def split: if_splits)
  have c: "consistent (edges g) (ids g) (stat s) (ex_workers s) (set (busy s))"
    using qt by (simp add: quiet_tasks_def)
  have failed: "stat s ?tid = Some StatusFailed" and deps: "\<And>d. (d, ?tid) \<in> edges g \<Longrightarrow> ok (stat s d)"
    using consistentD(5,6) [OF c nth_mem [OF i(1)] i(2)] by auto
  have w: "quiet_frame g s' \<and> quiet_tasks g s' \<and> stat s' = (stat s)(?tid := Some StatusPending)"
    unfolding s'
  proof (rule quiet_write [OF fr qt i(1) refl])
    show "stat (update_graph ?tid ?h s) = (stat s)(?tid := Some StatusPending)"
      using failed by (intro stat_update_graph [where St = "{StatusFailed}"]) (simp_all add: set_status_def)
  qed (use failed deps in \<open>auto simp: set_status_def live_status_def\<close>)
  have "set (busy s') = set (busy s)" unfolding s' by (simp add: busy_def tasks_phase del: set_map)
  moreover have "?tid \<in> set (busy s)" using i by (auto simp: busy_def)
  ultimately have "pc_inv g s'"
    using w failed by (intro pc_inv_keep [OF pc _ quiet_pending [OF qt i(1)]]) (auto simp: s')
  with w show ?thesis by (simp add: quiet_inv_def)
qed

lemma quiet_release:
  assumes q: "quiet_inv g s" and f: "release_worker i s = Some s'"
  shows "quiet_inv g s'"
proof -
  have fr: "quiet_frame g s" and qt: "quiet_tasks g s" and pc: "pc_inv g s" using q by (simp_all add: quiet_inv_def)
  have i: "i < length (ex_workers s)" "w_phase (ex_workers s ! i) = Settled"
    and s': "s' = (set_phase i Released s)\<lparr>ex_inflight := releaseAgent (w_profile (ex_workers s ! i)) (ex_inflight s)\<rparr>"
    using f by (auto simp: release_worker_def at_phase_def split: if_splits)
  have dist: "distinct (map w_task (ex_workers s))" using qt by (simp add: quiet_tasks_def busy_def)
  have "\<forall>w \<in> set (ex_workers s'). w_gen w = ex_gen s"
    using gens_phase [of "ex_workers s" "ex_gen s" i Released] fr i(1) by (simp add: s' quiet_frame_def)
  then have "quiet_frame g s'" using fr by (simp add: quiet_frame_def s')
  moreover have bu: "busy s' = busy s" by (simp add: s' busy_def tasks_phase)
  moreover have "consistent (edges g) (ids g) (stat s) (ex_workers s') (set (busy s))"
  proof (rule consistent_workers)
    fix w :: worker assume w: "w_phase w \<in> {Working, Retrying}"
    have "w \<in> set (ex_workers s') \<longleftrightarrow> w = (ex_workers s ! i)\<lparr>w_phase := Released\<rparr> \<or>
        w \<in> set (ex_workers s) \<and> w_task w \<noteq> w_task (ex_workers s ! i)"
      using set_update_worker [OF i(1) dist, of "(ex_workers s ! i)\<lparr>w_phase := Released\<rparr>" w] by (simp add: s')
    moreover have "w_task w \<noteq> w_task (ex_workers s ! i)" if "w \<in> set (ex_workers s)"
    proof
      assume "w_task w = w_task (ex_workers s ! i)"
      with dist that i(1) have "w = ex_workers s ! i"
        by (metis distinct_map inj_onD nth_mem)
      with i(2) w show False by simp
    qed
    ultimately show "w \<in> set (ex_workers s') \<longleftrightarrow> w \<in> set (ex_workers s)" using w by auto
  qed (use qt in \<open>simp add: quiet_tasks_def\<close>)
  then have "quiet_tasks g s'" using qt unfolding quiet_tasks_def bu by (simp add: s')
  moreover have "pc_inv g s'"
    by (rule pc_inv_keep [OF pc _ quiet_pending [OF qt i(1)]]) (simp_all add: bu, simp_all add: s')
  ultimately show ?thesis by (simp add: quiet_inv_def)
qed

lemma quiet_notify:
  assumes q: "quiet_inv g s" and f: "notify_loop i s = Some s'"
  shows "quiet_inv g s'"
proof -
  have fr: "quiet_frame g s" and qt: "quiet_tasks g s" and pc: "pc_inv g s" using q by (simp_all add: quiet_inv_def)
  let ?us = "take i (ex_workers s)" and ?vs = "drop (Suc i) (ex_workers s)" and ?w = "ex_workers s ! i"
  have i: "i < length (ex_workers s)" "w_phase ?w = Released"
    and s': "s' = s\<lparr>ex_workers := ?us @ ?vs, ex_done := ex_done s @ [w_task ?w]\<rparr>"
    using f by (auto simp: notify_loop_def at_phase_def split: if_splits)
  have ws: "ex_workers s = ?us @ ?w # ?vs" using i(1) by (rule id_take_nth_drop)
  have bs: "busy s = map w_task ?us @ w_task ?w # map w_task ?vs @ ex_done s"
    using arg_cong [OF ws, of "\<lambda>x. map w_task x @ ex_done s"] by (simp add: busy_def)
  have bs': "busy s' = map w_task ?us @ map w_task ?vs @ ex_done s @ [w_task ?w]"
    by (simp add: busy_def s')
  have bu: "set (busy s') = set (busy s)" unfolding bs bs' by auto
  have mem: "w \<in> set (ex_workers s') \<longleftrightarrow> w \<in> set (ex_workers s)" if "w_phase w \<in> {Working, Retrying}" for w
    using arg_cong [OF ws, of set] i(2) that by (auto simp: s')
  have "consistent (edges g) (ids g) (stat s) (ex_workers s') (set (busy s))"
  proof (rule consistent_workers)
    show "consistent (edges g) (ids g) (stat s) (ex_workers s) (set (busy s))"
      using qt by (simp add: quiet_tasks_def)
  qed (rule mem)
  moreover have "distinct (busy s')"
  proof -
    have "distinct (busy s)" using qt by (simp add: quiet_tasks_def)
    then show ?thesis unfolding bs bs' by auto
  qed
  moreover have len: "length (busy s') = length (busy s)" unfolding bs bs' by simp
  moreover have "stat s' = stat s" "ex_dispatched s' = ex_dispatched s" "ex_pending s' = ex_pending s"
    by (simp_all add: s')
  ultimately have "quiet_tasks g s'"
    using qt unfolding quiet_tasks_def bu by (simp add: len)
  moreover have "\<forall>w \<in> set (ex_workers s'). w_gen w = ex_gen s"
    using fr set_take_subset [of i "ex_workers s"] set_drop_subset [of "Suc i" "ex_workers s"]
    by (auto simp: s' quiet_frame_def)
  then have "quiet_frame g s'" using fr by (simp add: quiet_frame_def s')
  moreover have "pc_inv g s'"
    by (rule pc_inv_keep [OF pc _ quiet_pending [OF qt i(1)]]) (simp_all add: bu, simp_all add: s')
  ultimately show ?thesis by (simp add: quiet_inv_def)
qed

subsection \<open>The loop\<close>

lemma quiet_no_deadlock:
  assumes q: "quiet_frame g s" "quiet_tasks g s" and p: "ex_pending s = 0" and n: "\<not> AllDone (ex_graph s)"
  shows "ReadyTasks (ex_graph s) \<noteq> []"
proof -
  note fr = quiet_frame_facts [OF q(1)]
  have c: "consistent (edges g) (ids g) (stat s) (ex_workers s) (set (busy s))" using q(2) by (simp add: quiet_tasks_def)
  have "length (busy s) = 0" using q(2) p unfolding quiet_tasks_def by simp
  then have none: "ex_workers s = []" "busy s = []" by (simp_all add: busy_def)
  have norun: "stat s t \<noteq> Some StatusRunning" for t using consistentD(2) [OF c, of t] none by simp
  have st: "stat s (tn_ID t) = Some (tn_Status t)" if "t \<in> set (tg_Tasks (ex_graph s))" for t
    using status_task [OF fr(3) that] .
  obtain u where u: "u \<in> set (tg_Tasks (ex_graph s))" "tn_Status u = StatusPending \<or> tn_Status u = StatusRunning"
    using n by (auto simp: AllDone_def)
  moreover have "tn_Status u \<noteq> StatusRunning" using st [OF u(1)] norun [of "tn_ID u"] by auto
  ultimately have "tn_Status u = StatusPending" by simp
  from quiet_valid [OF q(1)] u(1) this show ?thesis
  proof (rule ready_exists)
    fix t d assume t: "t \<in> set (tg_Tasks (ex_graph s))" "tn_Status t = StatusPending"
      and d: "d \<in> set (tg_Tasks (ex_graph s))" "tn_ID d \<in> set (tn_DependsOn t)"
    have e: "(tn_ID d, tn_ID t) \<in> edges g" using t(1) d(2) unfolding fr(2) [symmetric] by (auto simp: dep_edges_def)
    have "tn_ID d \<in> ids g" using d(1) fr(1) by (metis image_eqI list.set_map)
    from consistentD(1) [OF c this] have "live_status (tn_Status d)" using st [OF d(1)] by simp
    moreover have "tn_Status d \<noteq> StatusFailed"
      using consistentD(4) [OF c e] st [OF t(1)] st [OF d(1)] t(2) none by auto
    moreover have "tn_Status d \<noteq> StatusRunning" using norun st [OF d(1)] by metis
    ultimately show "tn_Status d = StatusPending \<or> dep_done (tn_Status d)"
      by (auto simp: live_status_def dep_done_def)
  qed
qed

lemma quiet_loop_dispatch:
  assumes q: "quiet_inv g s" and pc: "ex_pc s = Dispatching (tid # rest) n r"
    and s': "loop_step agents s = Some s'"
  shows "quiet_inv g s'"
proof -
  have fr: "quiet_frame g s" and qt: "quiet_tasks g s" using q by (simp_all add: quiet_inv_def)
  have p: "distinct (tid # rest)" "\<forall>t \<in> set (tid # rest). dispatchable g s t"
    "ex_pending s = 0 \<longrightarrow> r = length (ReadyTasks (ex_graph s))"
    using q pc by (simp_all add: quiet_inv_def pc_inv_def)
  let ?d = "dispatch_one agents tid s"
  have eq: "s' = (fst ?d)\<lparr>ex_pc := Dispatching rest (if snd ?d then n + 1 else n) r\<rparr>"
    using s' pc by (simp add: loop_step_def split_beta)
  show ?thesis
  proof (cases "snd ?d")
    case False
    from dispatch_one_skip [OF False] fr qt p show ?thesis
      unfolding eq quiet_inv_def
      by (simp add: quiet_frame_pc quiet_tasks_pc pc_inv_def) (simp add: dispatchable_def busy_def)
  next
    case True
    have "dispatchable g s tid" using p(2) by simp
    note d = quiet_dispatch [OF fr qt this True]
    have pend: "stat s tid = Some StatusPending" using p(2) d(6) by (simp add: dispatchable_def)
    have "dispatchable g (fst ?d) t" if "t \<in> set rest" for t
    proof -
      have "dispatchable g s t" "t \<noteq> tid" using p(1,2) that by auto
      then show ?thesis using d(3,4) pend by (auto simp: dispatchable_def)
    qed
    with p(1) d(1,2,5) show ?thesis
      unfolding eq quiet_inv_def
      by (simp add: quiet_frame_pc quiet_tasks_pc pc_inv_def) (simp add: dispatchable_def busy_def)
  qed
qed

lemma quiet_loop:
  assumes q: "quiet_inv g s" and s': "loop_step agents s = Some s'"
  shows "quiet_inv g s'"
proof -
  have fr: "quiet_frame g s" and qt: "quiet_tasks g s" and pc: "pc_inv g s" using q by (simp_all add: quiet_inv_def)
  have flags: "\<not> ex_pauseClosed s" "ex_replace s = None" using fr by (simp_all add: quiet_frame_def)
  have jump: "quiet_inv g (s\<lparr>ex_pc := p\<rparr>)" if "pc_inv g (s\<lparr>ex_pc := p\<rparr>)" for p
    using fr qt that by (simp add: quiet_inv_def quiet_frame_pc quiet_tasks_pc)
  show ?thesis
  proof (cases "ex_pc s")
    case AtTop
    with s' flags show ?thesis
      by (auto simp: loop_step_def pc_inv_def intro!: jump split: if_splits)
  next
    case AtReplace
    let ?h = "ex_graph s"
    note d = quiet_frame_facts [OF fr]
    have "dispatchable g (s\<lparr>ex_pc := p\<rparr>) (tn_ID t)" if "t \<in> set (ReadyTasks ?h)" for t p
    proof -
      have "t \<in> set (tg_Tasks ?h)" using that by (auto simp: ReadyTasks_def Let_def)
      then have "tn_ID t \<in> ids g" using d(1) by (metis image_eqI list.set_map)
      then show ?thesis using ReadyTasks_status [OF d(3) that] d(2) by (simp add: dispatchable_def)
    qed
    with AtReplace s' flags distinct_ready [OF d(3)] show ?thesis
      by (auto simp: loop_step_def Let_def pc_inv_def intro!: jump)
  next
    case (Dispatching ts n r)
    show ?thesis
    proof (cases ts)
      case (Cons tid rest)
      with quiet_loop_dispatch [OF q _ s'] Dispatching show ?thesis by simp
    next
      case Nil
      have "ex_pending s = 0 \<longrightarrow> r = length (ReadyTasks (ex_graph s))"
        using pc Dispatching Nil by (simp add: pc_inv_def)
      with quiet_no_deadlock [OF fr qt] Nil Dispatching s' show ?thesis
        by (auto simp: loop_step_def pc_inv_def intro!: jump split: if_splits)
    qed
  next
    case Waiting
    with s' obtain tid ds where d: "ex_done s = tid # ds"
      and eq: "s' = (collect tid (s\<lparr>ex_done := ds\<rparr>))\<lparr>ex_pc := Draining\<rparr>"
      by (auto simp: loop_step_def split: list.splits)
    from quiet_collect [OF fr qt d] show ?thesis
      unfolding eq quiet_inv_def by (simp add: quiet_frame_pc quiet_tasks_pc pc_inv_def)
  next
    case Draining
    show ?thesis
    proof (cases "ex_done s")
      case Nil
      with Draining s' show ?thesis by (auto simp: loop_step_def pc_inv_def intro!: jump)
    next
      case (Cons tid ds)
      with Draining s' have "s' = collect tid (s\<lparr>ex_done := ds\<rparr>)" by (simp add: loop_step_def)
      with quiet_collect [OF fr qt Cons] Draining show ?thesis by (simp add: quiet_inv_def pc_inv_def)
    qed
  qed (use pc s' in \<open>auto simp: pc_inv_def loop_step_def\<close>)
qed

section \<open>Quiet runs\<close>

fun quiet :: "action \<Rightarrow> bool" where
  "quiet Loop = True"
| "quiet (Finish _ _ _) = True"
| "quiet (Retry _) = True"
| "quiet (Release _) = True"
| "quiet (Notify _) = True"
| "quiet ContextCancelled = True"
| "quiet _ = False"

lemma quiet_act:
  assumes "quiet_inv g s" and "quiet a" and "act agents a s = Some s'"
  shows "quiet_inv g s'"
proof (cases a)
  case ContextCancelled
  with assms show ?thesis
    by (auto simp: quiet_inv_def quiet_frame_pc quiet_tasks_pc pc_inv_def split: if_splits)
next
  case Loop
  with assms quiet_loop show ?thesis by simp
next
  case (Finish i out retry)
  with assms quiet_finish show ?thesis by simp
next
  case (Retry i)
  with assms quiet_retry show ?thesis by simp
next
  case (Release i)
  with assms quiet_release show ?thesis by simp
next
  case (Notify i)
  with assms quiet_notify show ?thesis by simp
qed (use assms(2) in simp_all)

text \<open>A fresh request: a validated graph all of whose tasks are pending.\<close>

definition fresh_graph :: "TaskGraph \<Rightarrow> bool" where
  "fresh_graph g \<longleftrightarrow> Graph_Validate g = None \<and> (\<forall>t \<in> set (tg_Tasks g). tn_Status t = StatusPending)"

lemma quiet_start:
  assumes "fresh_graph g"
  shows "quiet_inv g (start_exec g)"
proof -
  have v: "valid_graph g" and p: "\<And>t. t \<in> set (tg_Tasks g) \<Longrightarrow> tn_Status t = StatusPending"
    using assms by (simp_all add: fresh_graph_def Graph_Validate_iff)
  have st: "status (tg_Tasks g) i \<in> {None, Some StatusPending}" for i
    by (cases "find (\<lambda>t. tn_ID t = i) (tg_Tasks g)") (auto simp: status_def dest!: find_SomeD p)
  have "status (tg_Tasks g) i = Some StatusPending" if i: "i \<in> ids g" for i
  proof -
    obtain t where "t \<in> set (tg_Tasks g)" "i = tn_ID t" using i by auto
    with v p show ?thesis by (simp add: status_task valid_graph_def)
  qed
  moreover have "\<not> ok (status (tg_Tasks g) i)" "status (tg_Tasks g) i \<noteq> Some StatusRunning"
    "status (tg_Tasks g) i \<noteq> Some StatusFailed" for i
    using st [of i] by (auto simp: ok_def)
  ultimately have "consistent (edges g) (ids g) (status (tg_Tasks g)) [] {}"
    by (intro consistentI) (auto simp: live_status_def)
  with v show ?thesis
    by (simp add: quiet_inv_def quiet_frame_def quiet_tasks_def busy_def start_exec_def pc_inv_def)
qed

lemma quiet_reach: "reach agents (Collect quiet) g s \<Longrightarrow> fresh_graph g \<Longrightarrow> quiet_inv g s"
proof (induction rule: reach.induct)
  case start
  then show ?case by (rule quiet_start)
next
  case (step s a s')
  then show ?case using quiet_act by auto
qed

text \<open>Something can always happen until the loop has returned.\<close>

lemma phase_act:
  assumes "w \<in> set (ex_workers s)"
  shows "\<exists>a. quiet a \<and> a \<noteq> ContextCancelled \<and> act agents a s \<noteq> None"
proof -
  obtain i where i: "i < length (ex_workers s)" "w = ex_workers s ! i" using assms by (auto simp: in_set_conv_nth)
  have "act agents (Finish i Redispatch False) s \<noteq> None \<or> act agents (Retry i) s \<noteq> None \<or>
      act agents (Release i) s \<noteq> None \<or> act agents (Notify i) s \<noteq> None"
    using i by (cases "w_phase w")
      (simp_all add: finish_worker_def retry_worker_def release_worker_def notify_loop_def at_phase_def)
  then obtain a where "a \<in> {Finish i Redispatch False, Retry i, Release i, Notify i}" "act agents a s \<noteq> None" by fast
  then show ?thesis by (intro exI [of _ a]) auto
qed

lemma quiet_progress:
  assumes q: "quiet_inv g s" and "\<And>r. ex_pc s \<noteq> Returned r"
  shows "\<exists>a. quiet a \<and> a \<noteq> ContextCancelled \<and> act agents a s \<noteq> None"
proof (cases "loop_step agents s")
  case None
  have pc: "pc_inv g s" using q by (simp add: quiet_inv_def)
  have "ex_pc s = Waiting \<and> ex_done s = []"
    using None pc assms(2)
    by (cases "ex_pc s") (auto simp: loop_step_def pc_inv_def Let_def split_beta
        split: list.splits if_splits option.splits)
  then have "0 < ex_pending s" and d: "ex_done s = []" using pc by (simp_all add: pc_inv_def)
  moreover have "ex_pending s = int (length (busy s))" using q by (simp add: quiet_inv_def quiet_tasks_def)
  ultimately have "ex_workers s \<noteq> []" by (auto simp: busy_def)
  then show ?thesis using phase_act [of "hd (ex_workers s)" s agents] by simp
next
  case (Some s')
  then show ?thesis by (intro exI [of _ Loop]) simp
qed

end
