(* ===== verification/SchedulerOrder.thy ===== *)
theory SchedulerOrder
  imports SchedulerQuiet
begin

text \<open>
  Runs with interference. Whatever pauses, resumes, cancels or restructures a running request, and however its
  goroutines are interleaved, a task that has been started keeps its dependencies done, as long as no task is amended
  and the graph is not replaced: those two take back what is done.
\<close>

fun keeps_graph :: "action \<Rightarrow> bool" where
  "keeps_graph (DoAmend _ _ _) = False"
| "keeps_graph (DoReplace _) = False"
| "keeps_graph _ = True"

text \<open>All dependencies of a task are completed or escalated.\<close>

definition cleared :: "TaskGraph \<Rightarrow> exec \<Rightarrow> string \<Rightarrow> bool" where
  "cleared g s t \<longleftrightarrow> (\<forall>d. (d, t) \<in> edges g \<longrightarrow> ok (stat s d))"

text \<open>A task that runs, has run, has a goroutine, or is about to be started.\<close>

definition engaged :: "exec \<Rightarrow> string \<Rightarrow> bool" where
  "engaged s t \<longleftrightarrow> stat s t = Some StatusRunning \<or> ok (stat s t) \<or> t \<in> w_task ` set (ex_workers s) \<or>
     (\<exists>ts n r. ex_pc s = Dispatching ts n r \<and> t \<in> set ts)"

definition ordered :: "TaskGraph \<Rightarrow> exec \<Rightarrow> bool" where
  "ordered g s \<longleftrightarrow>
     distinct (task_ids (tg_Tasks g)) \<and> shape (tg_Tasks (ex_graph s)) = shape (tg_Tasks g) \<and> ex_replace s = None \<and>
     distinct (busy s) \<and> set (busy s) \<subseteq> set (ex_dispatched s) \<and>
     (\<forall>t. engaged s t \<longrightarrow> cleared g s t) \<and>
     (\<forall>w \<in> set (ex_workers s). w_phase w \<in> {Working, Retrying} \<longrightarrow> \<not> ok (stat s (w_task w))) \<and>
     (\<forall>ts n r t. ex_pc s = Dispatching ts n r \<and> t \<in> set ts \<and> t \<notin> set (ex_dispatched s) \<longrightarrow> \<not> ok (stat s t))"

lemma orderedD:
  assumes "ordered g s"
  shows "task_ids (tg_Tasks (ex_graph s)) = task_ids (tg_Tasks g)" "dep_edges (tg_Tasks (ex_graph s)) = edges g"
    "distinct (task_ids (tg_Tasks (ex_graph s)))" "shape (tg_Tasks (ex_graph s)) = shape (tg_Tasks g)" "ex_replace s = None"
    "distinct (busy s)" "set (busy s) \<subseteq> set (ex_dispatched s)" "engaged s t \<Longrightarrow> cleared g s t"
    "w \<in> set (ex_workers s) \<Longrightarrow> w_phase w \<in> {Working, Retrying} \<Longrightarrow> \<not> ok (stat s (w_task w))"
    "ex_pc s = Dispatching ts n r \<Longrightarrow> t \<in> set ts \<Longrightarrow> t \<notin> set (ex_dispatched s) \<Longrightarrow> \<not> ok (stat s t)"
  using assms shape_ids [of "tg_Tasks (ex_graph s)" "tg_Tasks g"] shape_edges [of "tg_Tasks (ex_graph s)" "tg_Tasks g"]
  unfolding ordered_def by auto

text \<open>A step keeps the order when it takes back nothing that is done and engages only cleared tasks.\<close>

lemma ordered_step:
  assumes o: "ordered g s" and "shape (tg_Tasks (ex_graph s')) = shape (tg_Tasks (ex_graph s))" "ex_replace s' = None"
    and "distinct (busy s')" "set (busy s') \<subseteq> set (ex_dispatched s')"
    and up: "\<And>t. ok (stat s t) \<Longrightarrow> ok (stat s' t)"
    and new: "\<And>t. engaged s' t \<Longrightarrow> engaged s t \<or> cleared g s t"
    and "\<And>w. w \<in> set (ex_workers s') \<Longrightarrow> w_phase w \<in> {Working, Retrying} \<Longrightarrow> \<not> ok (stat s' (w_task w))"
    and "\<And>ts n r t. ex_pc s' = Dispatching ts n r \<Longrightarrow> t \<in> set ts \<Longrightarrow> t \<notin> set (ex_dispatched s') \<Longrightarrow> \<not> ok (stat s' t)"
  shows "ordered g s'"
proof -
  have "cleared g s' t" if "engaged s' t" for t
    using new [OF that] orderedD(8) [OF o, of t] up unfolding cleared_def by blast
  then show ?thesis
    using assms(2-5,8,9) orderedD(3,4) [OF o] o unfolding ordered_def by metis
qed

lemma ordered_start:
  assumes "fresh_graph g"
  shows "ordered g (start_exec g)"
proof -
  have v: "valid_graph g" and p: "\<And>t. t \<in> set (tg_Tasks g) \<Longrightarrow> tn_Status t = StatusPending"
    using assms by (simp_all add: fresh_graph_def Graph_Validate_iff)
  have st: "status (tg_Tasks g) i \<in> {None, Some StatusPending}" for i
    by (cases "find (\<lambda>t. tn_ID t = i) (tg_Tasks g)") (auto simp: status_def dest!: find_SomeD p)
  have "status (tg_Tasks g) i \<noteq> Some StatusRunning \<and> \<not> ok (status (tg_Tasks g) i)" for i
    using st [of i] by (auto simp: ok_def)
  then show ?thesis using v by (simp add: ordered_def start_exec_def busy_def engaged_def valid_graph_def)
qed

lemma ordered_pc:
  assumes "ordered g s" "\<And>ts n r. p = Dispatching ts n r \<Longrightarrow> \<exists>ts' n' r'. ex_pc s = Dispatching ts' n' r' \<and> set ts \<subseteq> set ts'"
  shows "ordered g (s\<lparr>ex_pc := p\<rparr>)"
proof (rule ordered_step [OF assms(1)])
  fix t assume e: "engaged (s\<lparr>ex_pc := p\<rparr>) t"
  show "engaged s t \<or> cleared g s t"
    using e assms(2) unfolding engaged_def by auto blast
next
  fix ts n r t assume "ex_pc (s\<lparr>ex_pc := p\<rparr>) = Dispatching ts n r" "t \<in> set ts" "t \<notin> set (ex_dispatched (s\<lparr>ex_pc := p\<rparr>))"
  then show "\<not> ok (stat (s\<lparr>ex_pc := p\<rparr>) t)" using assms(2) orderedD(10) [OF assms(1)] by fastforce
qed (use orderedD(5-7,9) [OF assms(1)] in \<open>auto simp: busy_def\<close>)

section \<open>The goroutines\<close>

lemma ordered_set_phase:
  assumes o: "ordered g s" and i: "i < length (ex_workers s)"
    and ph: "ph \<in> {Working, Retrying} \<Longrightarrow> w_phase (ex_workers s ! i) \<in> {Working, Retrying}"
  shows "ordered g (set_phase i ph s)"
proof (rule ordered_step [OF o])
  have b: "busy (set_phase i ph s) = busy s" using i by (simp add: busy_def map_update list_update_same_conv)
  show "distinct (busy (set_phase i ph s))" "set (busy (set_phase i ph s)) \<subseteq> set (ex_dispatched (set_phase i ph s))"
    unfolding b using orderedD(6,7) [OF o] by simp_all
  have w: "w_task ` set (ex_workers (set_phase i ph s)) = w_task ` set (ex_workers s)"
    using i by (metis (no_types, lifting) image_set list_update_id map_update nth_map set_phase_frame(1) worker.select_convs(1) worker.surjective worker.update_convs(4))
  fix t assume "engaged (set_phase i ph s) t"
  then show "engaged s t \<or> cleared g s t" unfolding engaged_def w by simp
next
  fix w assume w: "w \<in> set (ex_workers (set_phase i ph s))" "w_phase w \<in> {Working, Retrying}"
  from w(1) have "w = (ex_workers s ! i)\<lparr>w_phase := ph\<rparr> \<or> w \<in> set (ex_workers s)"
    using set_update_subset_insert by fastforce
  then show "\<not> ok (stat (set_phase i ph s) (w_task w))"
    using w(2) ph orderedD(9) [OF o nth_mem [OF i]] orderedD(9) [OF o, of w] by auto
qed (use orderedD(5,10) [OF o] in auto)

lemma worker_of_task:
  "distinct (busy s) \<Longrightarrow> i < length (ex_workers s) \<Longrightarrow> w \<in> set (ex_workers s) \<Longrightarrow> w_task w = w_task (ex_workers s ! i) \<Longrightarrow>
     w = ex_workers s ! i"
  by (auto simp: busy_def distinct_map inj_on_def)

text \<open>A goroutine in the phase of writing gives its task a status.\<close>

lemma ordered_write:
  fixes i s
  defines "w \<equiv> ex_workers s ! i"
  assumes o: "ordered g s" and i: "i < length (ex_workers s)" and notok: "\<not> ok (stat s (w_task w))"
    and f: "\<And>t. tn_ID (f t) = tn_ID t \<and> tn_DependsOn (f t) = tn_DependsOn t \<and> tn_LoopID (f t) = tn_LoopID t"
    and ph: "w_phase w \<in> {Working, Retrying} \<Longrightarrow> (\<And>t. \<not> ok (Some (tn_Status (f t))))"
  shows "ordered g (write_task w f s)"
proof (cases "w_gen w = ex_gen s")
  case True
  let ?s = "update_graph (w_task w) f s"
  have st: "stat ?s t = (if t = w_task w then map_option (\<lambda>t. tn_Status (f t)) (find (\<lambda>t. tn_ID t = w_task w) (tg_Tasks (ex_graph s))) else stat s t)" for t
    using f by (simp add: status_update)
  have wt: "w_task w \<in> w_task ` set (ex_workers s)" using i by (simp add: w_def)
  have "ordered g ?s"
  proof (rule ordered_step [OF o])
    show "engaged ?s t \<Longrightarrow> engaged s t \<or> cleared g s t" for t
      using wt unfolding engaged_def st by (auto split: if_split_asm)
    show "\<not> ok (stat ?s (w_task v))" if v: "v \<in> set (ex_workers ?s)" "w_phase v \<in> {Working, Retrying}" for v
    proof (cases "w_task v = w_task w")
      case True
      with v(1) i have "v = w" unfolding w_def by (intro worker_of_task orderedD(6) [OF o]) simp_all
      then show ?thesis using ph v(2) unfolding st
        by (cases "find (\<lambda>t. tn_ID t = w_task w) (tg_Tasks (ex_graph s))") simp_all
    next
      case False
      then show ?thesis using orderedD(9) [OF o] v unfolding st by simp
    qed
    have "w_task w \<in> set (ex_dispatched s)" using wt orderedD(7) [OF o] by (auto simp: busy_def)
    then show "\<not> ok (stat ?s t)" if "ex_pc ?s = Dispatching ts n r" "t \<in> set ts" "t \<notin> set (ex_dispatched ?s)" for ts n r t
      using that orderedD(10) [OF o] unfolding st by auto
    show "ok (stat s t) \<Longrightarrow> ok (stat ?s t)" for t using notok unfolding st by auto
  qed (use orderedD(5-7) [OF o] f in \<open>auto simp: busy_def shape_update\<close>)
  then show ?thesis using True by (simp add: write_task_def)
qed (use o in \<open>simp add: write_task_def\<close>)

lemma write_task_phase: "write_task (w\<lparr>w_phase := ph\<rparr>) f s = write_task w f s"
  by (simp add: write_task_def)

lemma ordered_finish:
  assumes o: "ordered g s" and f: "finish_worker i out retry s = Some s'"
  shows "ordered g s'"
proof -
  let ?ph = "case out of Fails _ \<Rightarrow> if retry then Retrying else Settled | _ \<Rightarrow> Settled"
  let ?h = "settle_task (ex_paused s) (ex_restructuring s) out" and ?w = "ex_workers s ! i"
  have i: "i < length (ex_workers s)" "w_phase ?w = Working" and s': "s' = write_task ?w ?h (set_phase i ?ph s)"
    using f by (auto simp: finish_worker_def at_phase_def split: if_splits)
  have o': "ordered g (set_phase i ?ph s)" using i by (intro ordered_set_phase [OF o]) simp_all
  let ?v = "ex_workers (set_phase i ?ph s) ! i"
  have v: "?v = ?w\<lparr>w_phase := ?ph\<rparr>" using i(1) by simp
  have "ordered g (write_task ?v ?h (set_phase i ?ph s))"
  proof (rule ordered_write [OF o'])
    show "\<not> ok (stat (set_phase i ?ph s) (w_task ?v))"
      using orderedD(9) [OF o nth_mem [OF i(1)]] i by simp
    show "\<not> ok (Some (tn_Status (?h t)))" if "w_phase ?v \<in> {Working, Retrying}" for t
      using that v by (auto simp: settle_task_def set_status_def ok_def split: outcome.splits if_splits)
  qed (use i in \<open>auto simp: settle_task_def set_status_def reset_task_def split: outcome.splits\<close>)
  then show ?thesis unfolding s' v write_task_phase .
qed

lemma ordered_retry:
  assumes o: "ordered g s" and f: "retry_worker i s = Some s'"
  shows "ordered g s'"
proof -
  let ?h = "set_status StatusPending ''''" and ?w = "ex_workers s ! i"
  have i: "i < length (ex_workers s)" "w_phase ?w = Retrying" and s': "s' = write_task ?w ?h (set_phase i Settled s)"
    using f by (auto simp: retry_worker_def at_phase_def split: if_splits)
  have o': "ordered g (set_phase i Settled s)" using i by (intro ordered_set_phase [OF o]) simp_all
  let ?v = "ex_workers (set_phase i Settled s) ! i"
  have v: "?v = ?w\<lparr>w_phase := Settled\<rparr>" using i(1) by simp
  have "ordered g (write_task ?v ?h (set_phase i Settled s))"
    using i orderedD(9) [OF o nth_mem [OF i(1)]] by (intro ordered_write [OF o']) (auto simp: set_status_def)
  then show ?thesis unfolding s' v write_task_phase .
qed

lemma ordered_cong:
  assumes "ordered g s" "ex_graph s' = ex_graph s" "ex_workers s' = ex_workers s" "ex_done s' = ex_done s"
    "ex_dispatched s' = ex_dispatched s" "ex_replace s' = ex_replace s" "ex_pc s' = ex_pc s"
  shows "ordered g s'"
  using assms unfolding ordered_def busy_def engaged_def cleared_def by (elim conjE, intro conjI) (simp_all only:)

lemma ordered_release:
  assumes o: "ordered g s" and f: "release_worker i s = Some s'"
  shows "ordered g s'"
proof -
  have i: "i < length (ex_workers s)"
    and s': "s' = (set_phase i Released s)\<lparr>ex_inflight := releaseAgent (w_profile (ex_workers s ! i)) (ex_inflight s)\<rparr>"
    using f by (auto simp: release_worker_def at_phase_def split: if_splits)
  have "ordered g (set_phase i Released s)" using i by (intro ordered_set_phase [OF o]) simp_all
  then show ?thesis unfolding s' by (rule ordered_cong) simp_all
qed

lemma ordered_notify:
  assumes o: "ordered g s" and f: "notify_loop i s = Some s'"
  shows "ordered g s'"
proof (rule ordered_step [OF o])
  let ?us = "take i (ex_workers s)" and ?vs = "drop (Suc i) (ex_workers s)" and ?w = "ex_workers s ! i"
  have i: "i < length (ex_workers s)"
    and s': "s' = s\<lparr>ex_workers := ?us @ ?vs, ex_done := ex_done s @ [w_task ?w]\<rparr>"
    using f by (auto simp: notify_loop_def at_phase_def split: if_splits)
  have ws: "ex_workers s = ?us @ ?w # ?vs" using i by (rule id_take_nth_drop)
  have bs: "busy s = map w_task ?us @ w_task ?w # map w_task ?vs @ ex_done s"
    using arg_cong [OF ws, of "\<lambda>x. map w_task x @ ex_done s"] by (simp add: busy_def)
  have bs': "busy s' = map w_task ?us @ map w_task ?vs @ ex_done s @ [w_task ?w]" by (simp add: busy_def s')
  have d: "ex_dispatched s' = ex_dispatched s" by (simp add: s')
  show "distinct (busy s')" using orderedD(6) [OF o] unfolding bs bs' by auto
  show "set (busy s') \<subseteq> set (ex_dispatched s')" using orderedD(7) [OF o] unfolding bs bs' d by auto
  have sub: "set (ex_workers s') \<subseteq> set (ex_workers s)"
    unfolding s' using set_take_subset [of i "ex_workers s"] set_drop_subset [of "Suc i" "ex_workers s"] by auto
  show "engaged s' t \<Longrightarrow> engaged s t \<or> cleared g s t" for t using sub unfolding engaged_def by (auto simp: s')
  show "w \<in> set (ex_workers s') \<Longrightarrow> w_phase w \<in> {Working, Retrying} \<Longrightarrow> \<not> ok (stat s' (w_task w))" for w
    using sub orderedD(9) [OF o, of w] by (auto simp: s')
  show "ex_pc s' = Dispatching ts n r \<Longrightarrow> t \<in> set ts \<Longrightarrow> t \<notin> set (ex_dispatched s') \<Longrightarrow> \<not> ok (stat s' t)" for ts n r t
    using orderedD(10) [OF o] by (auto simp: s')
qed (use f orderedD(5) [OF o] in \<open>auto simp: notify_loop_def split: if_splits\<close>)

section \<open>The loop\<close>

text \<open>A cascade reaches nothing that is done: what depends on a failed task is not.\<close>

lemma cascade_not_ok:
  assumes o: "ordered g s" and f: "\<not> ok (stat s tid)" and t: "t \<in> cascade_set (tg_Tasks (ex_graph s)) tid"
  shows "\<not> ok (stat s t)"
proof -
  have e: "\<not> ok (stat s b)" if "(a, b) \<in> open_edges (tg_Tasks (ex_graph s))" "\<not> ok (stat s a)" for a b
  proof
    assume "ok (stat s b)"
    then have "cleared g s b" using orderedD(8) [OF o, of b] by (simp add: engaged_def)
    moreover have "(a, b) \<in> edges g" using that(1) unfolding orderedD(2) [OF o, symmetric] by (auto simp: open_edges_def dep_edges_def)
    ultimately show False using that(2) by (auto simp: cleared_def)
  qed
  have "(tid, t) \<in> (open_edges (tg_Tasks (ex_graph s)))\<^sup>+" using t by (simp add: cascade_set_def)
  then show ?thesis using f e by (induction rule: trancl_induct) blast+
qed

lemma ordered_collect:
  assumes o: "ordered g s" and d: "ex_done s = tid # ds" and pc: "\<And>ts n r. ex_pc s \<noteq> Dispatching ts n r"
  shows "ordered g (collect tid (s\<lparr>ex_done := ds\<rparr>))"
proof (rule ordered_step [OF o])
  let ?ts = "tg_Tasks (ex_graph s)" and ?s = "collect tid (s\<lparr>ex_done := ds\<rparr>)"
  note fr = orderedD [OF o]
  define A where "A = (if stat s tid = Some StatusFailed then cascade_set ?ts tid else {})"
  have tasks: "tg_Tasks (ex_graph ?s) = (if stat s tid = Some StatusFailed then marked tid A ?ts else ?ts)"
  proof -
    obtain casc where "FailDependents (ex_graph s) tid =
        ((ex_graph s)\<lparr>tg_Tasks := marked tid (cascade_set ?ts tid) ?ts\<rparr>, casc)"
      using FailDependents_spec [OF fr(3), of tid] by blast
    then show ?thesis
      by (cases "find (\<lambda>u. tn_ID u = tid) ?ts") (auto simp: collect_def Let_def Get_def A_def status_def)
  qed
  have st: "stat ?s t = (if t \<in> A \<and> t \<in> set (task_ids ?ts) then Some StatusFailed else stat s t)" for t
    unfolding tasks using status_marked [OF fr(3), of tid A t] by (auto simp: A_def)
  have A: "\<not> ok (stat s t)" if "t \<in> A" for t
    using that cascade_not_ok [OF o, of tid t] by (auto simp: A_def split: if_splits)
  show "shape (tg_Tasks (ex_graph ?s)) = shape ?ts" unfolding tasks by (simp add: shape_marked)
  show "ex_replace ?s = None" using fr(5) by simp
  have bs: "busy s = map w_task (ex_workers s) @ tid # ds" "busy ?s = map w_task (ex_workers s) @ ds"
    by (simp_all add: busy_def d)
  show "distinct (busy ?s)" "set (busy ?s) \<subseteq> set (ex_dispatched ?s)" using fr(6,7) unfolding bs by auto
  show "ok (stat s t) \<Longrightarrow> ok (stat ?s t)" for t using A [of t] unfolding st by auto
  show "engaged ?s t \<Longrightarrow> engaged s t \<or> cleared g s t" for t unfolding engaged_def st by (auto split: if_split_asm)
  show "w \<in> set (ex_workers ?s) \<Longrightarrow> w_phase w \<in> {Working, Retrying} \<Longrightarrow> \<not> ok (stat ?s (w_task w))" for w
    using fr(9) [of w] unfolding st by simp
  show "ex_pc ?s = Dispatching ts n r \<Longrightarrow> t \<in> set ts \<Longrightarrow> t \<notin> set (ex_dispatched ?s) \<Longrightarrow> \<not> ok (stat ?s t)" for ts n r t
    using pc by simp
qed

lemma ordered_dispatch:
  assumes o: "ordered g s" and pc: "ex_pc s = Dispatching (tid # rest) n r"
  shows "ordered g ((fst (dispatch_one agents tid s))\<lparr>ex_pc := Dispatching rest n' r\<rparr>)"
proof (cases "snd (dispatch_one agents tid s)")
  case False
  have "ordered g (s\<lparr>ex_pc := Dispatching rest n' r\<rparr>)" using pc by (intro ordered_pc [OF o]) auto
  then show ?thesis using False by (simp add: dispatch_one_skip)
next
  case True
  then obtain task inflight where n: "tid \<notin> set (ex_dispatched s)" "Get (ex_graph s) tid = Some task" and
    eq: "fst (dispatch_one agents tid s) = update_graph tid (\<lambda>t. t\<lparr>tn_Status := StatusRunning\<rparr>)
       (s\<lparr>ex_inflight := inflight, ex_dispatched := tid # ex_dispatched s, ex_pending := ex_pending s + 1,
          ex_workers := ex_workers s @ [\<lparr>w_task = tid, w_profile = taskProfile task, w_gen = ex_gen s, w_phase = Working\<rparr>]\<rparr>)"
    by (rule dispatch_one_new)
  let ?s = "(fst (dispatch_one agents tid s))\<lparr>ex_pc := Dispatching rest n' r\<rparr>"
  note fr = orderedD [OF o]
  have nok: "\<not> ok (stat s tid)" using fr(10) [OF pc _ n(1)] by simp
  have cl: "cleared g s t" if "t \<in> set (tid # rest)" for t
    using fr(8) [of t] pc that unfolding engaged_def by blast
  have st: "stat ?s t = (if t = tid then Some StatusRunning else stat s t)" for t
    unfolding eq using n(2) by (simp add: status_update Get_def)
  show ?thesis
  proof (rule ordered_step [OF o])
    show "engaged ?s t \<Longrightarrow> engaged s t \<or> cleared g s t" for t
      using cl [of t] unfolding engaged_def st by (auto simp: eq split: if_split_asm)
    show "\<not> ok (stat ?s (w_task w))" if "w \<in> set (ex_workers ?s)" "w_phase w \<in> {Working, Retrying}" for w
      using that fr(9) [of w] unfolding st by (auto simp: eq)
    show "\<not> ok (stat ?s t)" if "ex_pc ?s = Dispatching ts m r'" "t \<in> set ts" "t \<notin> set (ex_dispatched ?s)" for ts m r' t
      using that fr(10) [OF pc, of t] unfolding st by (auto simp: eq)
    show "ok (stat s t) \<Longrightarrow> ok (stat ?s t)" for t using nok unfolding st by auto
    have nb: "tid \<notin> set (busy s)" using n(1) fr(7) by blast
    show "distinct (busy ?s)" "set (busy ?s) \<subseteq> set (ex_dispatched ?s)" using nb fr(6,7) by (auto simp: busy_def eq)
  qed (use fr(5) in \<open>simp_all add: eq shape_update\<close>)
qed

lemma ordered_ready:
  assumes o: "ordered g s" and pc: "ex_pc s = AtReplace"
  shows "ordered g (s\<lparr>ex_pc := Dispatching (task_ids (ReadyTasks (ex_graph s))) 0 r\<rparr>)"
proof (rule ordered_step [OF o])
  let ?s = "s\<lparr>ex_pc := Dispatching (task_ids (ReadyTasks (ex_graph s))) 0 r\<rparr>"
  note fr = orderedD [OF o]
  have r: "cleared g s t \<and> \<not> ok (stat s t)" if "t \<in> set (task_ids (ReadyTasks (ex_graph s)))" for t
    using that ReadyTasks_status [OF fr(3)] fr(2) by (auto simp: cleared_def)
  show "engaged ?s t \<Longrightarrow> engaged s t \<or> cleared g s t" for t using r [of t] unfolding engaged_def by auto
  show "\<not> ok (stat ?s t)" if "ex_pc ?s = Dispatching ts n r'" "t \<in> set ts" "t \<notin> set (ex_dispatched ?s)" for ts n r' t
    using that r by auto
qed (use orderedD [OF o] in \<open>auto simp: busy_def\<close>)

lemma ordered_loop:
  assumes o: "ordered g s" and a: "accounted agents s" and s': "loop_step agents s = Some s'"
  shows "ordered g s'"
proof (cases "ex_pc s")
  case AtReplace
  with s' orderedD(5) [OF o] ordered_ready [OF o AtReplace] show ?thesis by (auto simp: loop_step_def Let_def)
next
  case (Dispatching ts n r)
  with s' ordered_dispatch [OF o] show ?thesis
    by (cases ts) (auto simp: loop_step_def split_beta intro!: ordered_pc [OF o] split: if_splits)
next
  case Waiting
  with s' obtain tid ds where d: "ex_done s = tid # ds"
    and eq: "s' = (collect tid (s\<lparr>ex_done := ds\<rparr>))\<lparr>ex_pc := Draining\<rparr>"
    by (auto simp: loop_step_def split: list.splits)
  have "ordered g (collect tid (s\<lparr>ex_done := ds\<rparr>))" using Waiting by (intro ordered_collect [OF o d]) simp
  then show ?thesis unfolding eq by (rule ordered_pc) simp
next
  case Draining
  with s' ordered_collect [OF o] show ?thesis
    by (cases "ex_done s") (auto simp: loop_step_def intro!: ordered_pc [OF o])
next
  case GateDrain
  show ?thesis
  proof (cases "ex_pending s > 0")
    case True
    with GateDrain s' obtain tid ds where d: "ex_done s = tid # ds" and eq: "s' = s\<lparr>ex_done := ds, ex_pending := ex_pending s - 1\<rparr>"
      by (auto simp: loop_step_def split: list.splits)
    show ?thesis unfolding eq
      using o d GateDrain by (auto simp: ordered_def busy_def engaged_def cleared_def)
  next
    case False
    moreover have "ex_pending s = int (length (ex_workers s) + length (ex_done s))" using a by (simp add: accounted_def)
    ultimately have "length (ex_workers s) = 0" "length (ex_done s) = 0" by linarith+
    then have "ex_workers s = []" "ex_done s = []" by simp_all
    moreover have "s' = s\<lparr>ex_dispatched := [], ex_pc := AtReplace\<rparr>" using False GateDrain s' by (simp add: loop_step_def)
    ultimately show ?thesis using o by (auto simp: ordered_def busy_def engaged_def cleared_def)
  qed
qed (use s' in \<open>auto simp: loop_step_def intro!: ordered_pc [OF o] split: if_splits\<close>)

section \<open>Calls from outside\<close>

lemma status_map:
  assumes "\<And>t. tn_ID (f t) = tn_ID t"
  shows "status (map f ts) i = map_option (\<lambda>t. tn_Status (f t)) (find (\<lambda>t. tn_ID t = i) ts)"
  using assms by (induction ts) (auto simp: status_def)

text \<open>A call that changes the status of tasks that are not done.\<close>

lemma ordered_map_tasks:
  assumes o: "ordered g s"
    and f: "\<And>t. tn_ID (f t) = tn_ID t \<and> tn_DependsOn (f t) = tn_DependsOn t \<and> tn_LoopID (f t) = tn_LoopID t \<and>
      (tn_Status (f t) = tn_Status t \<or> \<not> ok (Some (tn_Status t)) \<and> tn_Status (f t) \<in> {StatusPending, StatusCancelled})"
  shows "ordered g (map_tasks f s)"
proof (rule ordered_step [OF o])
  have st: "stat (map_tasks f s) t = stat s t \<or> \<not> ok (stat s t) \<and> stat (map_tasks f s) t \<in> {Some StatusPending, Some StatusCancelled}" for t
    unfolding map_tasks_def using f by (cases "find (\<lambda>u. tn_ID u = t) (tg_Tasks (ex_graph s))") (auto simp: status_map, auto simp: status_def)
  have nok: "\<not> ok (stat s t) \<Longrightarrow> \<not> ok (stat (map_tasks f s) t)" for t using st [of t] by (auto simp: ok_def)
  show "shape (tg_Tasks (ex_graph (map_tasks f s))) = shape (tg_Tasks (ex_graph s))"
    using f by (simp add: map_tasks_def shape_def comp_def)
  show "ok (stat s t) \<Longrightarrow> ok (stat (map_tasks f s) t)" for t using st [of t] by auto
  show "engaged (map_tasks f s) t \<Longrightarrow> engaged s t \<or> cleared g s t" for t
    using st [of t] unfolding engaged_def by (auto simp: map_tasks_def ok_def)
  show "w \<in> set (ex_workers (map_tasks f s)) \<Longrightarrow> w_phase w \<in> {Working, Retrying} \<Longrightarrow> \<not> ok (stat (map_tasks f s) (w_task w))" for w
    using orderedD(9) [OF o, of w] nok by simp
  show "ex_pc (map_tasks f s) = Dispatching ts n r \<Longrightarrow> t \<in> set ts \<Longrightarrow> t \<notin> set (ex_dispatched (map_tasks f s)) \<Longrightarrow> \<not> ok (stat (map_tasks f s) t)"
    for ts n r t using orderedD(10) [OF o, of ts n r t] nok by (simp add: map_tasks_def)
qed (use orderedD(5-7) [OF o] in \<open>simp_all add: busy_def map_tasks_def\<close>)

lemma ordered_act:
  assumes o: "ordered g s" and "accounted agents s" "keeps_graph a" "act agents a s = Some s'"
  shows "ordered g s'"
proof (cases a)
  case DoResumeReset
  let ?f = "\<lambda>t. if tn_Status t = StatusRunning then set_status StatusPending '''' t else t"
  have m: "ordered g (map_tasks ?f s)" by (rule ordered_map_tasks [OF o]) (auto simp: set_status_def)
  let ?s = "(map_tasks ?f s)\<lparr>ex_pc := (if ex_pc s = AtGate then GateDrain else ex_pc s)\<rparr>"
  have "ordered g ?s"
    by (rule ordered_pc [OF m]) (auto simp: map_tasks_def split: if_splits)
  moreover have "s' = ResumeReset s" using DoResumeReset assms(4) by (simp split: if_splits)
  ultimately show ?thesis by (auto simp: ResumeReset_def intro: ordered_cong)
next
  case DoCancel
  let ?f = "\<lambda>t. if tn_Status t = StatusPending \<or> tn_Status t = StatusRunning
                     then set_status StatusCancelled ''cancelled by user'' t else t"
  have m: "ordered g (map_tasks ?f s)" by (rule ordered_map_tasks [OF o]) (auto simp: set_status_def)
  have "s' = Cancel s" using DoCancel assms(4) by simp
  then show ?thesis using m by (auto simp: Cancel_def Let_def intro: ordered_cong)
next
  case TakeReplace
  with assms(4) orderedD(5) [OF o] show ?thesis by simp
next
  case ContextCancelled
  with assms(4) show ?thesis by (auto intro!: ordered_pc [OF o] split: if_splits)
qed (use assms ordered_loop [OF o assms(2)] ordered_finish [OF o] ordered_retry [OF o] ordered_release [OF o] ordered_notify [OF o]
  in \<open>auto simp: Pause_def ResumeFlag_def split: if_splits intro: ordered_cong [OF o]\<close>)

lemma ordered_reach: "reach agents (Collect keeps_graph) g s \<Longrightarrow> fresh_graph g \<Longrightarrow> ordered g s \<and> accounted agents s"
proof (induction rule: reach.induct)
  case start
  then show ?case using ordered_start by (simp add: accounted_def) (simp add: start_exec_def)
next
  case (step s a s')
  then show ?case using ordered_act accounted_act by auto
qed

end
