(* ===== verification/SchedulerProps.thy ===== *)
theory SchedulerProps
  imports SchedulerOrder
begin

text \<open>
  The properties of the dispatch loop: its limits under any interference, the order of a quiet run and
  that it cannot get stuck, and the three interleavings in which the loop goes wrong.
\<close>

definition demo_node :: "string \<Rightarrow> string list \<Rightarrow> TaskNode" where
  "demo_node i ds = demo_task i ds StatusPending"

definition demo_request :: "TaskNode list \<Rightarrow> TaskGraph" where
  "demo_request ts = \<lparr>tg_RequestID = ''r1'', tg_Name = '''', tg_Tasks = ts, tg_Loops = []\<rparr>"

definition demo_chain :: TaskGraph where
  "demo_chain = demo_request [demo_node ''a'' [], demo_node ''b'' [''a''], demo_node ''c'' []]"

definition demo_agents :: "AgentDefinition list" where
  "demo_agents = [\<lparr>ad_Name = ''dev'', ad_Purpose = '''', ad_MaxConcurrentTasks = 1, ad_RequiredNodeLabels = [],
     ad_MaxKnowledgeNodes = 0, ad_TaskTimeout = 0, ad_ReviewGuidelines = '''', ad_ReviewPrompt = ''''\<rparr>]"

lemmas demo_eval = start_exec_def demo_chain_def demo_request_def demo_node_def demo_task_def demo_agents_def
  loop_step_def AllDone_def ReadyTasks_def dep_done_def dispatch_one_def Get_def taskProfile_def TargetProfile_def
  tryAcquireAgent_def agentLimit_def update_graph_def finish_worker_def retry_worker_def release_worker_def
  notify_loop_def at_phase_def set_phase_def write_task_def settle_task_def set_status_def releaseAgent_def
  collect_def Pause_def ResumeFlag_def ResumeReset_def map_tasks_def FailDependents_def dependents_def settled_def
  fail_task_def status_def mget0_def Let_def

lemma demo_chain_fresh: "fresh_graph demo_chain"
proof -
  have "Graph_Validate demo_chain = None"
    by (simp add: demo_chain_def demo_request_def demo_node_def Graph_Validate_def check_dep_def
        TopologicalSort_def inDegree0_def dependents_def mget0_def Let_def)
  then show ?thesis by (simp add: fresh_graph_def demo_chain_def demo_request_def demo_node_def)
qed

lemma reach_run:
  "reach agents A g s \<Longrightarrow> run_actions agents as s = Some s' \<Longrightarrow> set as \<subseteq> A \<Longrightarrow> reach agents A g s'"
  by (induction as arbitrary: s) (auto split: option.splits intro: reach.step)

lemma run_result: "map_option f (run_actions agents as x) = Some y \<Longrightarrow> \<exists>s. run_actions agents as x = Some s \<and> f s = y"
  by (cases "run_actions agents as x") auto

text \<open>
  Claim C37: no agent is given more than its limit. In every state that the loop, its goroutines and any
  interleaving of calls to pause, resume, cancel, amend, restructure and replace the graph can reach, the
  counter of an agent is the number of goroutines that hold it, at most its configured limit when it has
  one, and the loop waits for exactly the goroutines that have not reported yet.
\<close>

theorem agents_within_limits:
  assumes "reach agents UNIV g s"
  shows "mget0 0 (ex_inflight s) p = load p (ex_workers s) \<and>
    (0 < agentLimit agents p \<longrightarrow> load p (ex_workers s) \<le> agentLimit agents p) \<and>
    ex_pending s = int (length (ex_workers s) + length (ex_done s))"
  using accounted_reach [OF assms] by (simp add: accounted_def)

theorem agents_within_limits_witness:
  "\<exists>s. run_actions demo_agents [Loop, Loop, Loop, Loop, DoPause, Loop] (start_exec demo_chain) = Some s \<and>
     load ''dev'' (ex_workers s) \<le> 1 \<and> map w_task (ex_workers s) = [''a'']"
proof -
  have "map_option (\<lambda>s. map w_task (ex_workers s))
      (run_actions demo_agents [Loop, Loop, Loop, Loop, DoPause, Loop] (start_exec demo_chain)) = Some [''a'']"
    by (simp add: demo_eval)
  from run_result [OF this]
  obtain s where r: "run_actions demo_agents [Loop, Loop, Loop, Loop, DoPause, Loop] (start_exec demo_chain) = Some s"
    and w: "map w_task (ex_workers s) = [''a'']" by (elim exE conjE)
  have "reach demo_agents UNIV demo_chain s" by (rule reach_run [OF reach.start r]) simp
  from agents_within_limits [OF this, of "''dev''"] have "load ''dev'' (ex_workers s) \<le> 1"
    by (simp add: agentLimit_def demo_agents_def)
  with r w show ?thesis by (intro exI [of _ s] conjI)
qed

text \<open>
  Claim C4: tasks run in the order of their dependencies. In a run of a fresh, validated request, for any order and any
  outcomes of the goroutines and whatever pauses, resumes, cancels or marks a restructuring, as long as no task is amended
  and no graph is put in place of this one: a task that is running, completed or escalated, or has a goroutine, has all its dependencies
  completed or escalated; and no task has two goroutines. If nobody interferes at all, a task is running exactly when a
  goroutine works on it. Under any interference, amendments and replacements included, the loop lists for dispatch
  only pending tasks whose dependencies are completed or escalated in the graph it then runs.
\<close>

theorem dependencies_respected:
  assumes "fresh_graph g"
  shows "(\<forall>s. reach agents (Collect keeps_graph) g s \<longrightarrow>
      distinct (map w_task (ex_workers s)) \<and>
      (\<forall>t \<in> set (tg_Tasks (ex_graph s)).
         tn_Status t \<in> {StatusRunning, StatusCompleted, StatusEscalated} \<or> tn_ID t \<in> w_task ` set (ex_workers s) \<longrightarrow>
         (\<forall>d \<in> set (tg_Tasks (ex_graph s)). tn_ID d \<in> set (tn_DependsOn t) \<longrightarrow>
            tn_Status d \<in> {StatusCompleted, StatusEscalated}))) \<and>
    (\<forall>s. reach agents (Collect quiet) g s \<longrightarrow> (\<forall>t \<in> set (tg_Tasks (ex_graph s)).
      tn_Status t = StatusRunning \<longleftrightarrow> (\<exists>w \<in> set (ex_workers s). w_task w = tn_ID t \<and> w_phase w = Working))) \<and>
    (\<forall>s s' ts n r. reach agents UNIV g s \<and> ex_pc s = AtReplace \<and> act agents Loop s = Some s' \<and> ex_pc s' = Dispatching ts n r \<longrightarrow>
      (\<forall>i \<in> set ts. \<exists>t \<in> set (tg_Tasks (ex_graph s)). tn_ID t = i \<and> tn_Status t = StatusPending \<and>
         (\<forall>k \<in> set (tn_DependsOn t). \<exists>d \<in> set (tg_Tasks (ex_graph s)). tn_ID d = k \<and>
            tn_Status d \<in> {StatusCompleted, StatusEscalated})))"
proof (intro conjI allI impI ballI)
  fix s assume "reach agents (Collect keeps_graph) g s"
  with assms have o: "ordered g s" using ordered_reach by blast
  then show "distinct (map w_task (ex_workers s))" using orderedD(6) by (auto simp: busy_def)
  have st: "stat s (tn_ID u) = Some (tn_Status u)" if "u \<in> set (tg_Tasks (ex_graph s))" for u
    using status_task [OF orderedD(3) [OF o] that] .
  fix t d
  assume t: "t \<in> set (tg_Tasks (ex_graph s))"
    "tn_Status t \<in> {StatusRunning, StatusCompleted, StatusEscalated} \<or> tn_ID t \<in> w_task ` set (ex_workers s)"
    and d: "d \<in> set (tg_Tasks (ex_graph s))" "tn_ID d \<in> set (tn_DependsOn t)"
  have "engaged s (tn_ID t)" using t(2) st [OF t(1)] by (auto simp: engaged_def ok_def)
  moreover have "(tn_ID d, tn_ID t) \<in> edges g"
    unfolding orderedD(2) [OF o, symmetric] using t(1) d(2) by (auto simp: dep_edges_def)
  ultimately have "ok (stat s (tn_ID d))" using orderedD(8) [OF o] by (simp add: cleared_def)
  then show "tn_Status d \<in> {StatusCompleted, StatusEscalated}" using st [OF d(1)] by (auto simp: ok_def)
next
  fix s t assume "reach agents (Collect quiet) g s" and t: "t \<in> set (tg_Tasks (ex_graph s))"
  then have q: "quiet_frame g s" "quiet_tasks g s" using quiet_reach [OF _ assms] by (simp_all add: quiet_inv_def)
  then have "consistent (edges g) (ids g) (stat s) (ex_workers s) (set (busy s))" by (simp add: quiet_tasks_def)
  from consistentD(2) [OF this, of "tn_ID t"] status_task [OF quiet_frame_facts(3) [OF q(1)] t]
  show "tn_Status t = StatusRunning \<longleftrightarrow> (\<exists>w \<in> set (ex_workers s). w_task w = tn_ID t \<and> w_phase w = Working)" by simp
next
  fix s s' ts n r i
  assume s: "reach agents UNIV g s \<and> ex_pc s = AtReplace \<and> act agents Loop s = Some s' \<and> ex_pc s' = Dispatching ts n r"
    and i: "i \<in> set ts"
  then have "ts = task_ids (ReadyTasks (ex_graph s))"
    by (auto simp: loop_step_def Let_def take_replacement_def split: option.splits)
  with i obtain t where "t \<in> set (ReadyTasks (ex_graph s))" "tn_ID t = i" by auto
  then show "\<exists>t \<in> set (tg_Tasks (ex_graph s)). tn_ID t = i \<and> tn_Status t = StatusPending \<and>
      (\<forall>k \<in> set (tn_DependsOn t). \<exists>d \<in> set (tg_Tasks (ex_graph s)). tn_ID d = k \<and> tn_Status d \<in> {StatusCompleted, StatusEscalated})"
    by (fastforce simp: ReadyTasks_def Let_def dep_done_def)
qed

theorem dependencies_respected_witness:
  "\<exists>s t. run_actions [] [Loop, Loop, Loop, Loop, Loop, Finish 0 (Completes ''x'') False, Release 0, Notify 0, Loop,
      Loop, Loop, Loop, Loop, DoPause] (start_exec demo_chain) = Some s \<and>
     t \<in> set (tg_Tasks (ex_graph s)) \<and> tn_ID t = ''b'' \<and> tn_Status t = StatusRunning \<and>
     (\<forall>d \<in> set (tg_Tasks (ex_graph s)). tn_ID d \<in> set (tn_DependsOn t) \<longrightarrow>
        tn_Status d \<in> {StatusCompleted, StatusEscalated})"
proof -
  let ?as = "[Loop, Loop, Loop, Loop, Loop, Finish 0 (Completes ''x'') False, Release 0, Notify 0, Loop,
      Loop, Loop, Loop, Loop, DoPause]"
  have "map_option (\<lambda>s. map (\<lambda>t. (tn_ID t, tn_Status t)) (tg_Tasks (ex_graph s))) (run_actions [] ?as (start_exec demo_chain)) =
      Some [(''a'', StatusCompleted), (''b'', StatusRunning), (''c'', StatusRunning)]"
    by (simp add: demo_eval)
  then obtain s where r: "run_actions [] ?as (start_exec demo_chain) = Some s"
    and m: "map (\<lambda>t. (tn_ID t, tn_Status t)) (tg_Tasks (ex_graph s)) =
      [(''a'', StatusCompleted), (''b'', StatusRunning), (''c'', StatusRunning)]" by auto
  have "(''b'', StatusRunning) \<in> (\<lambda>t. (tn_ID t, tn_Status t)) ` set (tg_Tasks (ex_graph s))"
    using arg_cong [OF m, of set] by simp
  then obtain t where t: "t \<in> set (tg_Tasks (ex_graph s))" "tn_ID t = ''b''" "tn_Status t = StatusRunning" by auto
  have "reach [] (Collect keeps_graph) demo_chain s" by (rule reach_run [OF reach.start r]) simp
  then have "\<forall>d \<in> set (tg_Tasks (ex_graph s)). tn_ID d \<in> set (tn_DependsOn t) \<longrightarrow> tn_Status d \<in> {StatusCompleted, StatusEscalated}"
    using dependencies_respected [OF demo_chain_fresh, of "[]", THEN conjunct1] t(1,3) by blast
  with r t show ?thesis by (intro exI conjI)
qed

text \<open>An amendment takes back a completed task while its dependent runs.\<close>

lemma amendment_reopens:
  "map_option (\<lambda>s. map (\<lambda>t. (tn_ID t, tn_Status t)) (tg_Tasks (ex_graph s)))
     (run_actions [] [Loop, Loop, Loop, Loop, Loop, Finish 0 (Completes ''x'') False, Release 0, Notify 0, Loop,
        Loop, Loop, Loop, Loop, DoAmend ''a'' ''again'' ''''] (start_exec demo_chain)) =
   Some [(''a'', StatusPending), (''b'', StatusRunning), (''c'', StatusRunning)]"
  by (simp add: demo_eval AmendTask_def)

text \<open>
  Claim C1: a request without interference does not get stuck and settles every task. In a quiet run of a fresh,
  validated request the loop never returns the deadlock error; until it has returned some step of the
  loop or of a goroutine is possible; and when it returns without an error, every task is completed, failed or
  escalated, the failed ones including all tasks that depend on a failed one.
\<close>

theorem request_settles:
  assumes "fresh_graph g" and "reach agents (Collect quiet) g s"
  shows "ex_pc s \<noteq> Returned Deadlock \<and>
    ((\<forall>r. ex_pc s \<noteq> Returned r) \<longrightarrow> (\<exists>a. quiet a \<and> a \<noteq> ContextCancelled \<and> act agents a s \<noteq> None)) \<and>
    (\<forall>s'. act agents Loop s = Some s' \<and> ex_pc s' = Returned Finished \<longrightarrow>
       (\<forall>t \<in> set (tg_Tasks (ex_graph s')). tn_Status t \<in> {StatusCompleted, StatusFailed, StatusEscalated} \<and>
          (\<forall>d \<in> set (tg_Tasks (ex_graph s')). tn_ID d \<in> set (tn_DependsOn t) \<and> tn_Status d = StatusFailed \<longrightarrow>
             tn_Status t = StatusFailed)))"
proof (intro conjI allI impI ballI)
  have q: "quiet_inv g s" by (rule quiet_reach [OF assms(2,1)])
  show "ex_pc s \<noteq> Returned Deadlock" using q by (auto simp: quiet_inv_def pc_inv_def)
  show "\<exists>a. quiet a \<and> a \<noteq> ContextCancelled \<and> act agents a s \<noteq> None" if "\<forall>r. ex_pc s \<noteq> Returned r"
    using quiet_progress [OF q] that by blast
  fix s' t assume s': "act agents Loop s = Some s' \<and> ex_pc s' = Returned Finished" and t: "t \<in> set (tg_Tasks (ex_graph s'))"
  then have q': "quiet_frame g s'" "quiet_tasks g s'"
    using quiet_loop [OF q, of agents s'] by (simp_all add: quiet_inv_def)
  have "AllDone (ex_graph s')"
    using s' by (auto simp: loop_step_def Let_def split_beta dispatch_one_def take_replacement_def
        split: pc.splits if_splits list.splits option.splits)
  then have nr: "tn_Status u \<noteq> StatusPending \<and> tn_Status u \<noteq> StatusRunning" if "u \<in> set (tg_Tasks (ex_graph s'))" for u
    using that by (simp add: AllDone_def)
  note fr = quiet_frame_facts [OF q'(1)]
  have c: "consistent (edges g) (ids g) (stat s') (ex_workers s') (set (busy s'))"
    using q'(2) by (simp add: quiet_tasks_def)
  have st: "stat s' (tn_ID u) = Some (tn_Status u)" if "u \<in> set (tg_Tasks (ex_graph s'))" for u
    using status_task [OF fr(3) that] .
  have "tn_ID t \<in> ids g" using t fr(1) by (metis image_eqI list.set_map)
  from consistentD(1) [OF c this] st [OF t] nr [OF t]
  show live: "tn_Status t \<in> {StatusCompleted, StatusFailed, StatusEscalated}" by (auto simp: live_status_def)
  fix d assume d: "d \<in> set (tg_Tasks (ex_graph s'))" "tn_ID d \<in> set (tn_DependsOn t) \<and> tn_Status d = StatusFailed"
  have "(tn_ID d, tn_ID t) \<in> edges g" unfolding fr(2) [symmetric] using t d(2) by (auto simp: dep_edges_def)
  from consistentD(3) [OF c this] have "\<not> ok (stat s' (tn_ID t))" using st [OF d(1)] d(2) by auto
  with live st [OF t] show "tn_Status t = StatusFailed" by auto
qed

theorem request_settles_witness:
  "\<exists>s s'. run_actions [] [Loop, Loop, Loop, Loop, Loop, Finish 0 (Fails ''x'') False, Release 0, Notify 0, Loop,
      Finish 0 (Completes ''y'') False, Release 0, Notify 0, Loop, Loop] (start_exec demo_chain) = Some s \<and>
     act [] Loop s = Some s' \<and> ex_pc s' = Returned Finished \<and>
     (\<forall>t \<in> set (tg_Tasks (ex_graph s')). tn_Status t \<in> {StatusCompleted, StatusFailed, StatusEscalated})"
proof -
  let ?as = "[Loop, Loop, Loop, Loop, Loop, Finish 0 (Fails ''x'') False, Release 0, Notify 0, Loop,
      Finish 0 (Completes ''y'') False, Release 0, Notify 0, Loop, Loop]"
  have "map_option ex_pc (run_actions [] (?as @ [Loop]) (start_exec demo_chain)) = Some (Returned Finished)"
    and "run_actions [] ?as (start_exec demo_chain) \<noteq> None"
    by (simp_all add: demo_eval)
  moreover have "run_actions [] (as @ [Loop]) x = (case run_actions [] as x of None \<Rightarrow> None | Some s \<Rightarrow> act [] Loop s)" for as x
    by (induction as arbitrary: x) (auto split: option.splits)
  ultimately obtain s s' where r: "run_actions [] ?as (start_exec demo_chain) = Some s"
    and s': "act [] Loop s = Some s'" "ex_pc s' = Returned Finished"
    by (auto split: option.splits simp del: run_actions.simps append.simps act.simps)
  have "reach [] (Collect quiet) demo_chain s" by (rule reach_run [OF reach.start r]) simp
  from request_settles [OF demo_chain_fresh this] s' r show ?thesis by blast
qed

text \<open>
  Three interleavings in which the loop goes wrong. Without any interference, the loop can return as
  finished while a failed task is about to be retried, which then stays pending for ever. When a task fails
  while the loop waits at the pause gate, its failure is not cascaded after the resume, and the request ends in the
  deadlock error. A pause that comes in the middle of a resume closes a closed channel.
\<close>

theorem scheduler_races:
  "(\<exists>acts s. list_all quiet acts \<and> run_actions [] acts (start_exec demo_chain) = Some s \<and>
      ex_pc s = Returned Finished \<and> stat s ''c'' = Some StatusPending) \<and>
   (\<exists>acts s. run_actions [] acts (start_exec demo_chain) = Some s \<and> ex_pc s = Returned Deadlock \<and>
      stat s ''a'' = Some StatusFailed \<and> stat s ''b'' = Some StatusPending) \<and>
   (\<exists>s. run_actions [] [DoPause, DoResumeFlag, DoPause] (start_exec demo_chain) = Some s \<and> ex_panicked s)"
proof (intro conjI)
  let ?as = "[Loop, Loop, Loop, Loop, Loop, Finish 0 (Fails ''x'') False, Release 0, Notify 0, Loop, Loop,
      Finish 0 (Fails ''y'') True, Loop, Retry 0]"
  have "map_option (\<lambda>s. (ex_pc s, stat s ''c'')) (run_actions [] ?as (start_exec demo_chain)) =
      Some (Returned Finished, Some StatusPending)"
    by (simp add: demo_eval)
  from run_result [OF this] obtain s where s: "run_actions [] ?as (start_exec demo_chain) = Some s"
    "(ex_pc s, stat s ''c'') = (Returned Finished, Some StatusPending)" by (elim exE conjE)
  have "list_all quiet ?as" by simp
  with s(1) conjunct1 [OF s(2) [unfolded prod.inject]] conjunct2 [OF s(2) [unfolded prod.inject]]
  show "\<exists>acts s. list_all quiet acts \<and> run_actions [] acts (start_exec demo_chain) = Some s \<and>
      ex_pc s = Returned Finished \<and> stat s ''c'' = Some StatusPending"
    by (intro exI [of _ ?as] exI [of _ s] conjI)
  let ?bs = "[Loop, Loop, Loop, Loop, Loop, Finish 1 (Completes ''x'') False, Release 1, Notify 1, Loop, Loop,
      DoPause, Loop, Finish 0 (Fails ''y'') False, Release 0, Notify 0, DoResumeFlag, DoResumeReset,
      Loop, Loop, Loop, Loop]"
  have "map_option (\<lambda>s. (ex_pc s, stat s ''a'', stat s ''b'')) (run_actions [] ?bs (start_exec demo_chain)) =
      Some (Returned Deadlock, Some StatusFailed, Some StatusPending)"
    by (simp add: demo_eval)
  from run_result [OF this] obtain s where s: "run_actions [] ?bs (start_exec demo_chain) = Some s"
    "(ex_pc s, stat s ''a'', stat s ''b'') = (Returned Deadlock, Some StatusFailed, Some StatusPending)" by (elim exE conjE)
  then have "ex_pc s = Returned Deadlock" "stat s ''a'' = Some StatusFailed" "stat s ''b'' = Some StatusPending"
    by (simp_all only: prod.inject)
  with s(1) show "\<exists>acts s. run_actions [] acts (start_exec demo_chain) = Some s \<and> ex_pc s = Returned Deadlock \<and>
      stat s ''a'' = Some StatusFailed \<and> stat s ''b'' = Some StatusPending"
    by (intro exI [of _ ?bs] exI [of _ s] conjI)
  have "map_option ex_panicked (run_actions [] [DoPause, DoResumeFlag, DoPause] (start_exec demo_chain)) = Some True"
    by (simp add: demo_eval)
  then show "\<exists>s. run_actions [] [DoPause, DoResumeFlag, DoPause] (start_exec demo_chain) = Some s \<and> ex_panicked s"
    by auto
qed

end
