(* ===== verification/JoinToken.thy ===== *)
theory JoinToken
  imports Membership
begin

text \<open>
  Node enrollment tokens (internal/identity/jointoken.go). The records live in a file that every call
  reads and writes under an exclusive file lock, so a call is one step on the file. SHA-256 with its
  hexadecimal text is the parameter \<open>h\<close>; the random bytes of a new token are an argument. The
  outcomes of the system calls are the argument \<open>io\<close>. The map of expected measurements is checked in
  the order of the list; Go leaves that order open, which matters only for which of several errors is returned.
\<close>

section \<open>Records\<close>

record joinTokenRecord =
  jt_ID :: string
  jt_TokenHash :: string
  jt_Fabric :: string
  jt_NodeID :: string
  jt_Description :: string
  jt_ExpectedMeasurements :: "(string, string) gomap"
  jt_ExpiresAt :: time
  jt_Reusable :: bool
  jt_CreatedAt :: time
  jt_LastUsedAt :: time
  jt_LastUsedNode :: string
  jt_UseCount :: int

record NodeTokenRequest =
  tq_Fabric :: string
  tq_NodeID :: string
  tq_Description :: string
  tq_ExpiresAt :: time
  tq_Reusable :: bool
  tq_ExpectedMeasurements :: "(string, string) gomap"

record NodeEnrollmentToken =
  et_ID :: string
  et_Value :: string
  et_Fabric :: string
  et_NodeID :: string
  et_Description :: string
  et_ExpiresAt :: time
  et_Reusable :: bool
  et_CreatedAt :: time
  et_ExpectedMeasurements :: "(string, string) gomap"

record NodeAttestation =
  na_Type :: string
  na_Claims :: "(string, string) gomap"
  na_Measurements :: "(string, string) gomap"
  na_Token :: string

record AttestedNode =
  at_NodeID :: string
  at_TrustDomain :: string
  at_Claims :: "(string, string) gomap"
  at_Measurements :: "(string, string) gomap"
  at_AttestedAt :: time
  at_ExpiresAt :: time

datatype token_error =
    ExpirationInPast | NoRandomness | UnsupportedAttestation string | TokenRequired | TokenInvalid
  | TokenExpired | TokenUsed | BoundToNode string | NodeIDRequired | FabricRequired
  | BoundToFabric string | MeasurementRequired string | MeasurementMismatch string | StateError

text \<open>The outcomes of one call: taking the lock and reading the file, and replacing the file.\<close>

record token_io =
  ti_load :: bool
  ti_save :: bool

section \<open>Issuing\<close>

definition tokenID :: "(string \<Rightarrow> string) \<Rightarrow> string \<Rightarrow> string" where
  "tokenID h v = (let hash = h v in if length hash < 16 then hash else take 16 hash)"

definition record_before :: "joinTokenRecord \<Rightarrow> joinTokenRecord \<Rightarrow> bool" where
  "record_before a b =
     (if jt_CreatedAt a = jt_CreatedAt b then jt_ID a < jt_ID b else jt_CreatedAt a < jt_CreatedAt b)"

fun replace_record :: "joinTokenRecord \<Rightarrow> joinTokenRecord list \<Rightarrow> joinTokenRecord list \<times> bool" where
  "replace_record r [] = ([], False)"
| "replace_record r (x # xs) =
     (if jt_ID x = jt_ID r then (r # xs, True)
      else (case replace_record r xs of (ys, b) \<Rightarrow> (x # ys, b)))"

definition upsert_tokens :: "joinTokenRecord \<Rightarrow> joinTokenRecord list \<Rightarrow> joinTokenRecord list" where
  "upsert_tokens r ts =
     (case replace_record r ts of
        (us, replaced) \<Rightarrow> sort_slice record_before (if replaced then us else us @ [r]))"

definition upsertRecord ::
  "token_io \<Rightarrow> joinTokenRecord \<Rightarrow> joinTokenRecord list \<Rightarrow> joinTokenRecord list \<times> token_error option" where
  "upsertRecord io r ts =
     (if \<not> ti_load io then (ts, Some StateError)
      else if ti_save io then (upsert_tokens r ts, None) else (ts, Some StateError))"

text \<open>The call reads the clock up to three times: for the default, for the check, for \<open>CreatedAt\<close>.\<close>

definition IssueNodeToken ::
  "(string \<Rightarrow> string) \<Rightarrow> token_io \<Rightarrow> time \<Rightarrow> time \<Rightarrow> time \<Rightarrow> string option \<Rightarrow> NodeTokenRequest \<Rightarrow>
     joinTokenRecord list \<Rightarrow> joinTokenRecord list \<times> (token_error + NodeEnrollmentToken)" where
  "IssueNodeToken h io t1 t2 t3 random req ts =
     (let expires = (if tq_ExpiresAt req = 0 then t1 + 24 * 3600000000000 else tq_ExpiresAt req)
      in if expires < t2 then (ts, Inl ExpirationInPast)
         else (case random of
             None \<Rightarrow> (ts, Inl NoRandomness)
           | Some tokenValue \<Rightarrow>
               (let r = \<lparr>jt_ID = tokenID h tokenValue, jt_TokenHash = h tokenValue,
                   jt_Fabric = tq_Fabric req, jt_NodeID = tq_NodeID req,
                   jt_Description = tq_Description req,
                   jt_ExpectedMeasurements = tq_ExpectedMeasurements req, jt_ExpiresAt = expires,
                   jt_Reusable = tq_Reusable req, jt_CreatedAt = t3, jt_LastUsedAt = 0,
                   jt_LastUsedNode = '''', jt_UseCount = 0\<rparr>
                in case upsertRecord io r ts of
                     (ts', Some e) \<Rightarrow> (ts', Inl e)
                   | (ts', None) \<Rightarrow>
                       (ts', Inr \<lparr>et_ID = jt_ID r, et_Value = tokenValue, et_Fabric = jt_Fabric r,
                          et_NodeID = jt_NodeID r, et_Description = jt_Description r,
                          et_ExpiresAt = jt_ExpiresAt r, et_Reusable = jt_Reusable r,
                          et_CreatedAt = jt_CreatedAt r,
                          et_ExpectedMeasurements = jt_ExpectedMeasurements r\<rparr>))))"

section \<open>Attesting\<close>

fun find_index :: "('a \<Rightarrow> bool) \<Rightarrow> 'a list \<Rightarrow> nat option" where
  "find_index p [] = None"
| "find_index p (x # xs) = (if p x then Some 0 else map_option Suc (find_index p xs))"

definition check_measurements ::
  "(string, string) gomap \<Rightarrow> (string, string) gomap \<Rightarrow> token_error option" where
  "check_measurements expected actual =
     first_err (map (\<lambda>(key, v).
       first_err [guard (mget0 '''' actual key = '''') (MeasurementRequired key),
         guard (mget0 '''' actual key \<noteq> v) (MeasurementMismatch key)]) expected)"

text \<open>The checks between finding the record and using it: an error, or the node that is attested.\<close>

definition check_record :: "time \<Rightarrow> NodeAttestation \<Rightarrow> joinTokenRecord \<Rightarrow> token_error + string" where
  "check_record now req r =
     (let claimed = mget0 '''' (na_Claims req) ''node_id'';
          nodeID = (if jt_NodeID r \<noteq> '''' then jt_NodeID r else claimed);
          fabric = mget0 '''' (na_Claims req) ''fabric''
      in case first_err
             [guard (now > jt_ExpiresAt r) TokenExpired,
              guard (\<not> jt_Reusable r \<and> jt_UseCount r > 0) TokenUsed,
              guard (jt_NodeID r \<noteq> '''' \<and> claimed \<noteq> '''' \<and> claimed \<noteq> jt_NodeID r) (BoundToNode (jt_NodeID r)),
              guard (nodeID = '''') NodeIDRequired,
              guard (jt_Fabric r \<noteq> '''' \<and> fabric = '''') FabricRequired,
              guard (jt_Fabric r \<noteq> '''' \<and> fabric \<noteq> jt_Fabric r) (BoundToFabric (jt_Fabric r)),
              check_measurements (jt_ExpectedMeasurements r) (na_Measurements req)] of
           Some e \<Rightarrow> Inl e
         | None \<Rightarrow> Inr nodeID)"

definition AttestNode ::
  "(string \<Rightarrow> string) \<Rightarrow> string \<Rightarrow> token_io \<Rightarrow> time \<Rightarrow> NodeAttestation \<Rightarrow>
     joinTokenRecord list \<Rightarrow> joinTokenRecord list \<times> (token_error + AttestedNode)" where
  "AttestNode h trustDomain io now req ts =
     (if na_Type req \<noteq> ''join_token'' then (ts, Inl (UnsupportedAttestation (na_Type req)))
      else if na_Token req = '''' then (ts, Inl TokenRequired)
      else if \<not> ti_load io then (ts, Inl StateError)
      else (case find_index (\<lambda>r. jt_TokenHash r = h (na_Token req)) ts of
          None \<Rightarrow> (ts, Inl TokenInvalid)
        | Some i \<Rightarrow>
            (let r = ts ! i
             in case check_record now req r of
                  Inl e \<Rightarrow> (ts, Inl e)
                | Inr nodeID \<Rightarrow>
                    if \<not> ti_save io then (ts, Inl StateError)
                    else
                      (ts[i := r\<lparr>jt_LastUsedAt := now, jt_LastUsedNode := nodeID, jt_UseCount := jt_UseCount r + 1\<rparr>],
                       Inr \<lparr>at_NodeID = nodeID, at_TrustDomain = trustDomain,
                         at_Claims = [(''attestor'', ''local-dev-join-token''), (''token_id'', jt_ID r)] @
                           (if jt_Fabric r \<noteq> '''' then [(''fabric'', jt_Fabric r)] else []) @
                           (if jt_NodeID r \<noteq> '''' then [(''bound_node_id'', jt_NodeID r)] else []),
                         at_Measurements = na_Measurements req, at_AttestedAt = now,
                         at_ExpiresAt = jt_ExpiresAt r\<rparr>))))"

section \<open>Runs\<close>

datatype token_call =
    Issue token_io time time time "string option" NodeTokenRequest
  | Attest token_io time NodeAttestation

datatype token_reply = Issued "token_error + NodeEnrollmentToken" | Attested "token_error + AttestedNode"

fun token_step :: "(string \<Rightarrow> string) \<Rightarrow> string \<Rightarrow> token_call \<Rightarrow> joinTokenRecord list \<Rightarrow>
    joinTokenRecord list \<times> token_reply" where
  "token_step h d (Issue io t1 t2 t3 rnd req) ts = apsnd Issued (IssueNodeToken h io t1 t2 t3 rnd req ts)"
| "token_step h d (Attest io now req) ts = apsnd Attested (AttestNode h d io now req ts)"

fun token_log :: "(string \<Rightarrow> string) \<Rightarrow> string \<Rightarrow> token_call list \<Rightarrow> joinTokenRecord list \<Rightarrow> token_reply list" where
  "token_log h d [] ts = []"
| "token_log h d (c # cs) ts = (case token_step h d c ts of (ts', r) \<Rightarrow> r # token_log h d cs ts')"

definition history :: "(string \<Rightarrow> string) \<Rightarrow> string \<Rightarrow> token_call list \<Rightarrow> (token_call \<times> token_reply) list" where
  "history h d cs = zip cs (token_log h d cs [])"

definition token_state :: "(string \<Rightarrow> string) \<Rightarrow> string \<Rightarrow> token_call list \<Rightarrow> joinTokenRecord list" where
  "token_state h d cs = foldl (\<lambda>ts c. fst (token_step h d c ts)) [] cs"

lemma length_token_log [simp]: "length (token_log h d cs ts) = length cs"
  by (induction cs arbitrary: ts) (simp_all add: split_beta)

lemma token_log_snoc:
  "token_log h d (cs @ [c]) ts =
     token_log h d cs ts @ [snd (token_step h d c (foldl (\<lambda>ts c. fst (token_step h d c ts)) ts cs))]"
  by (induction cs arbitrary: ts) (simp_all add: split_beta)

lemma token_run_snoc:
  "history h d (cs @ [c]) = history h d cs @ [(c, snd (token_step h d c (token_state h d cs)))]"
  "token_state h d (cs @ [c]) = fst (token_step h d c (token_state h d cs))"
  by (simp_all add: history_def token_state_def token_log_snoc)

text \<open>The calls that made a token with a hash, and the calls that used it.\<close>

fun grants :: "(string \<Rightarrow> string) \<Rightarrow> string \<Rightarrow> token_call \<times> token_reply \<Rightarrow> bool" where
  "grants h H (Issue io t1 t2 t3 (Some v) q, Issued (Inr tok)) = (h v = H)"
| "grants h H _ = False"

fun uses :: "(string \<Rightarrow> string) \<Rightarrow> string \<Rightarrow> token_call \<times> token_reply \<Rightarrow> bool" where
  "uses h H (Attest io now req, Attested (Inr n)) = (h (na_Token req) = H)"
| "uses h H _ = False"

fun reusable_issue :: "(string \<Rightarrow> string) \<Rightarrow> string \<Rightarrow> token_call \<Rightarrow> bool" where
  "reusable_issue h H (Issue io t1 t2 t3 (Some v) q) = (h v = H \<and> tq_Reusable q)"
| "reusable_issue h H _ = False"

text \<open>The call and the reply that a record of the state stems from.\<close>

fun issued_as :: "(string \<Rightarrow> string) \<Rightarrow> joinTokenRecord \<Rightarrow> token_call \<times> token_reply \<Rightarrow> bool" where
  "issued_as h r (Issue io t1 t2 t3 (Some v) q, Issued (Inr tok)) =
     (jt_TokenHash r = h v \<and> jt_NodeID r = tq_NodeID q \<and> jt_Fabric r = tq_Fabric q \<and>
      jt_ExpectedMeasurements r = tq_ExpectedMeasurements q \<and> jt_ExpiresAt r = et_ExpiresAt tok \<and>
      jt_Reusable r = tq_Reusable q)"
| "issued_as h r _ = False"

lemma tokenID_take: "tokenID h v = take 16 (h v)"
  by (simp add: tokenID_def Let_def)

lemma replace_record_snd: "snd (replace_record r ts) \<longleftrightarrow> jt_ID r \<in> jt_ID ` set ts"
  by (induction ts) (auto simp: split_beta)

lemma replace_record_ids: "map jt_ID (fst (replace_record r ts)) = map jt_ID ts"
  by (induction ts) (auto simp: split_beta)

lemma set_replace_record:
  "distinct (map jt_ID ts) \<Longrightarrow> snd (replace_record r ts) \<Longrightarrow>
     set (fst (replace_record r ts)) = insert r {x \<in> set ts. jt_ID x \<noteq> jt_ID r}"
  by (induction ts) (auto simp: split_beta image_iff)

lemma replace_record_none: "\<not> snd (replace_record r ts) \<Longrightarrow> fst (replace_record r ts) = ts"
  by (induction ts) (auto simp: split_beta split: if_split_asm)

lemma set_upsert_tokens:
  assumes "distinct (map jt_ID ts)"
  shows "set (upsert_tokens r ts) = insert r {x \<in> set ts. jt_ID x \<noteq> jt_ID r}"
proof (cases "snd (replace_record r ts)")
  case True
  then show ?thesis using set_replace_record [OF assms True] by (simp add: upsert_tokens_def split_beta)
next
  case False
  then have "jt_ID r \<notin> jt_ID ` set ts" by (simp add: replace_record_snd)
  then show ?thesis
    using replace_record_none [OF False] False by (auto simp: upsert_tokens_def split_beta image_iff)
qed

lemma distinct_upsert_tokens:
  assumes "distinct (map jt_ID ts)"
  shows "distinct (map jt_ID (upsert_tokens r ts))"
  using assms replace_record_ids [of r ts] replace_record_none [of r ts] replace_record_snd [of r ts]
  by (cases "snd (replace_record r ts)") (auto simp: upsert_tokens_def split_beta)

lemma find_index_Some:
  "find_index p xs = Some i \<Longrightarrow> i < length xs \<and> p (xs ! i)"
  by (induction xs arbitrary: i) (auto split: if_split_asm)

section \<open>The invariant\<close>

definition token_inv :: "(string \<Rightarrow> string) \<Rightarrow> (token_call \<times> token_reply) list \<Rightarrow> joinTokenRecord list \<Rightarrow> bool" where
  "token_inv h hist ts =
     (distinct (map jt_ID ts) \<and>
      (\<forall>r \<in> set ts. jt_ID r = take 16 (jt_TokenHash r) \<and> jt_UseCount r \<ge> 0 \<and> (\<exists>e \<in> set hist. issued_as h r e)))"

definition unused :: "string \<Rightarrow> joinTokenRecord list \<Rightarrow> nat" where
  "unused H ts = (if \<exists>r \<in> set ts. jt_TokenHash r = H \<and> \<not> jt_UseCount r > 0 then 1 else 0)"

definition use_record :: "time \<Rightarrow> string \<Rightarrow> joinTokenRecord \<Rightarrow> joinTokenRecord" where
  "use_record now n r = r\<lparr>jt_LastUsedAt := now, jt_LastUsedNode := n, jt_UseCount := jt_UseCount r + 1\<rparr>"

lemma use_record_simps [simp]:
  "jt_ID (use_record now n r) = jt_ID r" "jt_TokenHash (use_record now n r) = jt_TokenHash r"
  "jt_UseCount (use_record now n r) = jt_UseCount r + 1"
  by (simp_all add: use_record_def)

lemma issued_as_use [simp]: "issued_as h (use_record now n r) e = issued_as h r e"
  by (induction h r e rule: issued_as.induct) (simp_all add: use_record_def)

text \<open>What a successful call does.\<close>

lemma AttestNode_Inr:
  assumes "AttestNode h d io now req ts = (ts', Inr a)"
  obtains i where "find_index (\<lambda>r. jt_TokenHash r = h (na_Token req)) ts = Some i"
    "check_record now req (ts ! i) = Inr (at_NodeID a)"
    "ts' = ts[i := use_record now (at_NodeID a) (ts ! i)]"
  using assms by (auto simp: AttestNode_def use_record_def Let_def split: if_split_asm option.split_asm sum.split_asm)

lemma AttestNode_Inl: "AttestNode h d io now req ts = (ts', Inl e) \<Longrightarrow> ts' = ts"
  by (auto simp: AttestNode_def Let_def split: if_split_asm option.split_asm sum.split_asm)

lemma IssueNodeToken_Inl: "IssueNodeToken h io t1 t2 t3 rnd q ts = (ts', Inl e) \<Longrightarrow> ts' = ts"
  by (auto simp: IssueNodeToken_def upsertRecord_def Let_def split: if_split_asm option.split_asm)

lemma IssueNodeToken_Inr:
  assumes "IssueNodeToken h io t1 t2 t3 rnd q ts = (ts', Inr tok)"
  obtains v r where "rnd = Some v" "ts' = upsert_tokens r ts"
    "jt_ID r = take 16 (h v)" "jt_UseCount r = 0"
    "issued_as h r (Issue io t1 t2 t3 (Some v) q, Issued (Inr tok))"
  using assms
  by (auto simp: IssueNodeToken_def upsertRecord_def Let_def tokenID_take split: if_split_asm option.split_asm)

lemma token_inv_mono: "token_inv h hist ts \<Longrightarrow> token_inv h (hist @ es) ts"
  by (auto simp: token_inv_def)

lemma token_inv_use:
  assumes "token_inv h hist ts" "i < length ts"
  shows "token_inv h hist (ts[i := use_record now n (ts ! i)])"
proof -
  have "map jt_ID (ts[i := use_record now n (ts ! i)]) = map jt_ID ts"
    by (simp add: map_update list_update_same_conv assms(2))
  moreover have "set (ts[i := use_record now n (ts ! i)]) \<subseteq> insert (use_record now n (ts ! i)) (set ts)"
    by (rule set_update_subset_insert)
  moreover have "ts ! i \<in> set ts" using assms(2) by simp
  ultimately show ?thesis
    using assms(1) unfolding token_inv_def by (auto simp del: set_update_subset_insert dest!: subsetD)
qed

lemma token_inv_upsert:
  assumes "token_inv h hist ts" "e \<in> set hist" "issued_as h r e" "jt_ID r = take 16 (jt_TokenHash r)"
    "jt_UseCount r = 0"
  shows "token_inv h hist (upsert_tokens r ts)"
  using assms by (auto simp: token_inv_def set_upsert_tokens distinct_upsert_tokens)

lemma unused_use:
  assumes "token_inv h hist ts" "i < length ts" "\<not> jt_UseCount (ts ! i) > 0"
  shows "unused H (ts[i := use_record now n (ts ! i)]) + of_bool (jt_TokenHash (ts ! i) = H) = unused H ts"
proof -
  let ?r = "ts ! i" and ?us = "ts[i := use_record now n (ts ! i)]"
  have d: "distinct (map jt_ID ts)" and ids: "\<And>r. r \<in> set ts \<Longrightarrow> jt_ID r = take 16 (jt_TokenHash r)"
    and "jt_UseCount (ts ! i) \<ge> 0"
    using assms(1,2) by (auto simp: token_inv_def)
  have other: "jt_TokenHash x \<noteq> jt_TokenHash ?r" if "x \<in> set ts" "x \<noteq> ?r" for x
  proof
    assume "jt_TokenHash x = jt_TokenHash ?r"
    then have "jt_ID x = jt_ID ?r" using ids that assms(2) by simp
    with d that assms(2) show False by (metis distinct_map inj_onD nth_mem)
  qed
  have us: "set ?us = insert (use_record now n ?r) (set ts - {?r})"
    using d assms(2) by (simp add: set_update_distinct distinct_map)
  show ?thesis
  proof (cases "jt_TokenHash ?r = H")
    case True
    moreover have "?r \<in> set ts" using assms(2) by simp
    ultimately show ?thesis using assms(3) \<open>jt_UseCount (ts ! i) \<ge> 0\<close> other by (auto simp: unused_def us)
  next
    case False
    moreover have "?r \<in> set ts" using assms(2) by simp
    ultimately show ?thesis using assms(3) \<open>jt_UseCount (ts ! i) \<ge> 0\<close> by (auto simp: unused_def us)
  qed
qed

lemma unused_use_le:
  assumes "token_inv h hist ts" "i < length ts"
  shows "unused H (ts[i := use_record now n (ts ! i)]) \<le> unused H ts"
proof -
  have "jt_UseCount (ts ! i) \<ge> 0" using assms by (auto simp: token_inv_def)
  then show ?thesis
    using set_update_subset_insert [of ts i "use_record now n (ts ! i)"] by (force simp: unused_def)
qed

lemma unused_upsert:
  "token_inv h hist ts \<Longrightarrow> unused H (upsert_tokens r ts) \<le> unused H ts + of_bool (jt_TokenHash r = H)"
  by (auto simp: unused_def token_inv_def set_upsert_tokens)

definition count_if :: "('a \<Rightarrow> bool) \<Rightarrow> 'a list \<Rightarrow> nat" where
  "count_if p xs = length (filter p xs)"

lemma count_if_snoc [simp]: "count_if p (xs @ [x]) = count_if p xs + of_bool (p x)"
  by (simp add: count_if_def)

lemma token_step_inv:
  assumes "token_inv h hist ts" "token_step h d c ts = (ts', rep)"
  shows "token_inv h (hist @ [(c, rep)]) ts'"
    and "\<not> reusable_issue h H c \<Longrightarrow> (\<forall>e \<in> set hist. \<not> reusable_issue h H (fst e)) \<Longrightarrow>
      unused H ts' + of_bool (uses h H (c, rep)) \<le> unused H ts + of_bool (grants h H (c, rep))"
proof -
  note mono = token_inv_mono [OF assms(1), of "[(c, rep)]"]
  have "token_inv h (hist @ [(c, rep)]) ts' \<and> (\<not> reusable_issue h H c \<longrightarrow> (\<forall>e \<in> set hist. \<not> reusable_issue h H (fst e)) \<longrightarrow>
      unused H ts' + of_bool (uses h H (c, rep)) \<le> unused H ts + of_bool (grants h H (c, rep)))"
  proof (cases c)
    case (Issue io t1 t2 t3 rnd q)
    then obtain x where x: "IssueNodeToken h io t1 t2 t3 rnd q ts = (ts', x)" "rep = Issued x"
      using assms(2) by (cases "IssueNodeToken h io t1 t2 t3 rnd q ts") auto
    show ?thesis
    proof (cases x)
      case (Inl e)
      then have "ts' = ts" using IssueNodeToken_Inl x(1) by simp
      then show ?thesis using x mono Issue Inl by auto
    next
      case (Inr tok)
      then obtain v r where r: "rnd = Some v" "ts' = upsert_tokens r ts" "jt_ID r = take 16 (h v)"
          "jt_UseCount r = 0" "issued_as h r (Issue io t1 t2 t3 (Some v) q, Issued (Inr tok))"
        using IssueNodeToken_Inr x(1) by metis
      then show ?thesis
        using token_inv_upsert [OF mono, of "(c, rep)" r] unused_upsert [OF assms(1), of H r] Issue x Inr by auto
    qed
  next
    case (Attest io now req)
    then obtain x where x: "AttestNode h d io now req ts = (ts', x)" "rep = Attested x"
      using assms(2) by (cases "AttestNode h d io now req ts") auto
    show ?thesis
    proof (cases x)
      case (Inl e)
      then have "ts' = ts" using AttestNode_Inl x(1) by simp
      then show ?thesis using x mono Attest Inl by auto
    next
      case (Inr a)
      then obtain i where i: "find_index (\<lambda>r. jt_TokenHash r = h (na_Token req)) ts = Some i"
          "check_record now req (ts ! i) = Inr (at_NodeID a)"
          "ts' = ts[i := use_record now (at_NodeID a) (ts ! i)]"
        using AttestNode_Inr x(1) by metis
      have i': "i < length ts" "jt_TokenHash (ts ! i) = h (na_Token req)" using find_index_Some [OF i(1)] by auto
      have chk: "\<not> jt_Reusable (ts ! i) \<Longrightarrow> \<not> jt_UseCount (ts ! i) > 0"
        using i(2) by (auto simp: check_record_def Let_def split: option.split_asm)
      obtain e where e: "e \<in> set hist" "issued_as h (ts ! i) e"
        using assms(1) nth_mem [OF i'(1)] unfolding token_inv_def by blast
      have "\<not> jt_Reusable (ts ! i)" if "h (na_Token req) = H" "\<forall>e \<in> set hist. \<not> reusable_issue h H (fst e)"
        using e that i'(2) by (cases "(h, ts ! i, e)" rule: issued_as.cases) auto
      moreover have "unused H ts' \<le> unused H ts"
        unfolding i(3) by (rule unused_use_le [OF assms(1) i'(1)])
      moreover have "unused H ts' + of_bool (h (na_Token req) = H) = unused H ts"
        if "\<not> jt_Reusable (ts ! i)"
        unfolding i(3) i'(2) [symmetric] by (rule unused_use [OF assms(1) i'(1) chk [OF that]])
      moreover have "token_inv h (hist @ [(c, rep)]) ts'"
        unfolding i(3) by (rule token_inv_use [OF mono i'(1)])
      moreover have "uses h H (c, rep) \<longleftrightarrow> h (na_Token req) = H" using x Inr Attest by simp
      ultimately show ?thesis by (cases "h (na_Token req) = H") auto
    qed
  qed
  then show "token_inv h (hist @ [(c, rep)]) ts'"
    and "\<not> reusable_issue h H c \<Longrightarrow> (\<forall>e \<in> set hist. \<not> reusable_issue h H (fst e)) \<Longrightarrow>
      unused H ts' + of_bool (uses h H (c, rep)) \<le> unused H ts + of_bool (grants h H (c, rep))" by blast+
qed

lemma token_run_inv:
  shows "token_inv h (history h d cs) (token_state h d cs)"
    and "(\<forall>c \<in> set cs. \<not> reusable_issue h H c) \<Longrightarrow>
      count_if (uses h H) (history h d cs) + unused H (token_state h d cs) \<le> count_if (grants h H) (history h d cs)"
proof -
  have fst_hist: "fst e \<in> set cs" if "e \<in> set (history h d cs)" for e cs
    using that by (metis history_def prod.collapse set_zip_leftD)
  have "token_inv h (history h d cs) (token_state h d cs) \<and> ((\<forall>c \<in> set cs. \<not> reusable_issue h H c) \<longrightarrow>
      count_if (uses h H) (history h d cs) + unused H (token_state h d cs) \<le> count_if (grants h H) (history h d cs))"
  proof (induction cs rule: rev_induct)
    case Nil
    then show ?case by (simp add: history_def token_state_def token_inv_def unused_def count_if_def)
  next
    case (snoc c cs)
    obtain ts' rp where step: "token_step h d c (token_state h d cs) = (ts', rp)" by fastforce
    note s = token_step_inv [OF conjunct1 [OF snoc] step]
    have "count_if (uses h H) (history h d cs) + of_bool (uses h H (c, rp)) + unused H ts' \<le>
        count_if (grants h H) (history h d cs) + of_bool (grants h H (c, rp))"
      if "\<forall>c \<in> set (cs @ [c]). \<not> reusable_issue h H c"
    proof -
      have "unused H ts' + of_bool (uses h H (c, rp)) \<le>
          unused H (token_state h d cs) + of_bool (grants h H (c, rp))"
        using that fst_hist by (intro s(2)) auto
      moreover have "count_if (uses h H) (history h d cs) + unused H (token_state h d cs) \<le>
          count_if (grants h H) (history h d cs)"
        using snoc that by auto
      ultimately show ?thesis by linarith
    qed
    then show ?case using s(1) by (simp add: token_run_snoc step)
  qed
  then show "token_inv h (history h d cs) (token_state h d cs)"
    and "(\<forall>c \<in> set cs. \<not> reusable_issue h H c) \<Longrightarrow>
      count_if (uses h H) (history h d cs) + unused H (token_state h d cs) \<le> count_if (grants h H) (history h d cs)"
    by blast+
qed

section \<open>Properties\<close>

text \<open>
  Claim C32: enrollment tokens are enforced. After any calls of any processes, with any readings of the
  clock and any failing I/O, an attestation succeeds only for a token that was issued before, has not
  expired, is bound to no other node or fabric, and whose expected measurements are all reported with
  the expected values; and unless a token with this hash was issued as reusable, the token was used fewer
  times than it was issued.
\<close>

theorem join_tokens_enforced:
  assumes "AttestNode h d io now req (token_state h d cs) = (ts', Inr a)"
  shows "(\<exists>io' t1 t2 t3 v q tok.
      (Issue io' t1 t2 t3 (Some v) q, Issued (Inr tok)) \<in> set (history h d cs) \<and>
      h v = h (na_Token req) \<and> now \<le> et_ExpiresAt tok \<and> at_NodeID a \<noteq> '''' \<and>
      (if tq_NodeID q \<noteq> '''' then at_NodeID a = tq_NodeID q \<and> mget0 '''' (na_Claims req) ''node_id'' \<in> {'''', tq_NodeID q}
       else at_NodeID a = mget0 '''' (na_Claims req) ''node_id'') \<and>
      (tq_Fabric q \<noteq> '''' \<longrightarrow> mget (na_Claims req) ''fabric'' = Some (tq_Fabric q)) \<and>
      (\<forall>(k, v) \<in> set (tq_ExpectedMeasurements q). mget (na_Measurements req) k = Some v)) \<and>
    ((\<forall>c \<in> set cs. \<not> reusable_issue h (h (na_Token req)) c) \<longrightarrow>
      count_if (uses h (h (na_Token req))) (history h d cs) < count_if (grants h (h (na_Token req))) (history h d cs))"
proof -
  let ?ts = "token_state h d cs" and ?H = "h (na_Token req)"
  obtain i where i: "find_index (\<lambda>r. jt_TokenHash r = ?H) ?ts = Some i"
      "check_record now req (?ts ! i) = Inr (at_NodeID a)"
    using AttestNode_Inr [OF assms] by metis
  have i': "i < length ?ts" "jt_TokenHash (?ts ! i) = ?H" using find_index_Some [OF i(1)] by auto
  obtain e where e: "e \<in> set (history h d cs)" "issued_as h (?ts ! i) e"
    using token_run_inv(1) [of h d cs] nth_mem [OF i'(1)] unfolding token_inv_def by blast
  obtain io' t1 t2 t3 v q tok where e': "e = (Issue io' t1 t2 t3 (Some v) q, Issued (Inr tok))"
    using e(2) by (cases "(h, ?ts ! i, e)" rule: issued_as.cases) auto
  have q: "jt_NodeID (?ts ! i) = tq_NodeID q" "jt_Fabric (?ts ! i) = tq_Fabric q"
      "jt_ExpectedMeasurements (?ts ! i) = tq_ExpectedMeasurements q"
      "jt_ExpiresAt (?ts ! i) = et_ExpiresAt tok" "jt_Reusable (?ts ! i) = tq_Reusable q" "h v = ?H"
    using e(2) i'(2) by (auto simp: e')
  have chk: "now \<le> et_ExpiresAt tok" "tq_Reusable q \<or> \<not> jt_UseCount (?ts ! i) > 0" "at_NodeID a \<noteq> ''''"
      "if tq_NodeID q \<noteq> '''' then at_NodeID a = tq_NodeID q \<and> mget0 '''' (na_Claims req) ''node_id'' \<in> {'''', tq_NodeID q}
       else at_NodeID a = mget0 '''' (na_Claims req) ''node_id''"
      "tq_Fabric q \<noteq> '''' \<longrightarrow> mget0 '''' (na_Claims req) ''fabric'' = tq_Fabric q"
      "check_measurements (tq_ExpectedMeasurements q) (na_Measurements req) = None"
    using i(2) unfolding check_record_def Let_def q
    by (auto split: option.split_asm if_split_asm)
  have "mget (na_Measurements req) k = Some x" if "(k, x) \<in> set (tq_ExpectedMeasurements q)" for k x
    using chk(6) that by (fastforce simp: check_measurements_def mget0_def split: option.split_asm)
  moreover have "tq_Fabric q \<noteq> '''' \<longrightarrow> mget (na_Claims req) ''fabric'' = Some (tq_Fabric q)"
    using chk(5) by (auto simp: mget0_def split: option.split_asm)
  moreover have "count_if (uses h ?H) (history h d cs) < count_if (grants h ?H) (history h d cs)"
    if n: "\<forall>c \<in> set cs. \<not> reusable_issue h ?H c"
  proof -
    have "fst e \<in> set cs" using e(1) by (metis history_def prod.collapse set_zip_leftD)
    then have "\<not> tq_Reusable q" using n q(6) by (force simp: e')
    then have "unused ?H ?ts = 1" using chk(2) i' nth_mem [OF i'(1)] by (auto simp: unused_def)
    then show ?thesis using token_run_inv(2) [OF n, of d] by simp
  qed
  ultimately show ?thesis using e(1) chk(1,3,4) q(6) unfolding e' by blast
qed

definition demo_hash :: "string \<Rightarrow> string" where
  "demo_hash v = ''0123456789abcdef'' @ v"

definition demo_request :: NodeTokenRequest where
  "demo_request = \<lparr>tq_Fabric = ''fab'', tq_NodeID = '''', tq_Description = '''', tq_ExpiresAt = 100,
     tq_Reusable = False, tq_ExpectedMeasurements = [(''bundle'', ''d1'')]\<rparr>"

definition demo_attestation :: NodeAttestation where
  "demo_attestation = \<lparr>na_Type = ''join_token'', na_Claims = [(''fabric'', ''fab''), (''node_id'', ''n1'')],
     na_Measurements = [(''bundle'', ''d1'')], na_Token = ''tok''\<rparr>"

definition demo_ok :: token_io where
  "demo_ok = \<lparr>ti_load = True, ti_save = True\<rparr>"

definition demo_issue :: "token_call list" where
  "demo_issue = [Issue demo_ok 1 2 3 (Some ''tok'') demo_request]"

lemmas demo_token_eval =
  demo_hash_def demo_request_def demo_attestation_def demo_ok_def demo_issue_def token_state_def history_def
  IssueNodeToken_def AttestNode_def upsertRecord_def upsert_tokens_def check_record_def check_measurements_def
  tokenID_take count_if_def mget0_def

theorem join_tokens_enforced_witness:
  "(\<exists>ts' a. AttestNode demo_hash ''td'' demo_ok 50 demo_attestation (token_state demo_hash ''td'' demo_issue) = (ts', Inr a) \<and>
      at_NodeID a = ''n1'') \<and>
   count_if (uses demo_hash (demo_hash ''tok'')) (history demo_hash ''td'' demo_issue) <
     count_if (grants demo_hash (demo_hash ''tok'')) (history demo_hash ''td'' demo_issue) \<and>
   (\<exists>ts' e. AttestNode demo_hash ''td'' demo_ok 60 demo_attestation
      (token_state demo_hash ''td'' (demo_issue @ [Attest demo_ok 50 demo_attestation])) = (ts', Inl e) \<and> e = TokenUsed)"
proof -
  obtain ts' a where r: "AttestNode demo_hash ''td'' demo_ok 50 demo_attestation
      (token_state demo_hash ''td'' demo_issue) = (ts', Inr a)" "at_NodeID a = ''n1''"
    by (simp add: demo_token_eval)
  note p = conjunct2 [OF join_tokens_enforced [OF r(1)]]
  have "na_Token demo_attestation = ''tok''" by (simp add: demo_attestation_def)
  moreover have "\<forall>c \<in> set demo_issue. \<not> reusable_issue demo_hash (demo_hash ''tok'') c"
    by (simp add: demo_issue_def demo_request_def)
  moreover have "\<exists>ts' e. AttestNode demo_hash ''td'' demo_ok 60 demo_attestation
      (token_state demo_hash ''td'' (demo_issue @ [Attest demo_ok 50 demo_attestation])) = (ts', Inl e) \<and> e = TokenUsed"
    by (simp add: demo_token_eval)
  ultimately show ?thesis using p r by auto
qed

end
