(* ===== verification/Meter.thy ===== *)
theory Meter
  imports Complex_Main GoStrings "HOL-Library.Word" "HOL-Library.Multiset"
begin

text \<open>
  The accounting of model calls (internal/local/meter.go) and the retry loop around a call
  (internal/llm/meter.go). Token counts, call counts and durations are 64-bit integers that wrap; a
  method is one critical section. The records of an agent are a list in the order of the calls; where
  a method ranges over a Go map, the model takes the order of the association list.
\<close>

section \<open>Records (runtime/types.go)\<close>

type_synonym int64 = "64 word"

record Budget =
  bu_MaxInputTokens :: int64
  bu_MaxOutputTokens :: int64
  bu_MaxTotalTokens :: int64
  bu_MaxCostUSD :: rat

record LLMCallRecord =
  cr_AgentName :: string
  cr_RequestID :: string
  cr_TaskID :: string
  cr_Model :: string
  cr_InputTokens :: int64
  cr_OutputTokens :: int64
  cr_CacheReadTokens :: int64
  cr_Duration :: int64
  cr_Timestamp :: int
  cr_FinishReason :: string

record UsageSummary =
  us_InputTokens :: int64
  us_OutputTokens :: int64
  us_CacheReadTokens :: int64
  us_TotalTokens :: int64
  us_TotalCalls :: int64
  us_TotalTime :: int64

record ModelUsage =
  mu_Model :: string
  mu_InputTokens :: int64
  mu_OutputTokens :: int64
  mu_CacheReadTokens :: int64
  mu_TotalTokens :: int64
  mu_TotalCalls :: int64

section \<open>The meter (local/meter.go)\<close>

record Meter =
  me_records :: "(string, LLMCallRecord list) gomap"
  me_budgets :: "(string, Budget) gomap"

definition NewMeter :: Meter where
  "NewMeter = \<lparr>me_records = [], me_budgets = []\<rparr>"

definition Record :: "LLMCallRecord \<Rightarrow> Meter \<Rightarrow> Meter" where
  "Record r m =
     m\<lparr>me_records := mput (cr_AgentName r) (mget0 [] (me_records m) (cr_AgentName r) @ [r]) (me_records m)\<rparr>"

definition SetBudget :: "string \<Rightarrow> Budget \<Rightarrow> Meter \<Rightarrow> Meter" where
  "SetBudget agentName b m = m\<lparr>me_budgets := mput agentName b (me_budgets m)\<rparr>"

definition zero_usage :: UsageSummary where
  "zero_usage = \<lparr>us_InputTokens = 0, us_OutputTokens = 0, us_CacheReadTokens = 0, us_TotalTokens = 0,
     us_TotalCalls = 0, us_TotalTime = 0\<rparr>"

definition add_call :: "LLMCallRecord \<Rightarrow> UsageSummary \<Rightarrow> UsageSummary" where
  "add_call r s =
     \<lparr>us_InputTokens = us_InputTokens s + cr_InputTokens r,
      us_OutputTokens = us_OutputTokens s + cr_OutputTokens r,
      us_CacheReadTokens = us_CacheReadTokens s + cr_CacheReadTokens r,
      us_TotalTokens = us_TotalTokens s + (cr_InputTokens r + cr_OutputTokens r),
      us_TotalCalls = us_TotalCalls s + 1, us_TotalTime = us_TotalTime s + cr_Duration r\<rparr>"

definition summarize :: "LLMCallRecord list \<Rightarrow> UsageSummary" where
  "summarize rs = foldl (\<lambda>s r. add_call r s) zero_usage rs"

definition Usage :: "string \<Rightarrow> Meter \<Rightarrow> UsageSummary" where
  "Usage agentName m = summarize (mget0 [] (me_records m) agentName)"

definition AllRecords :: "Meter \<Rightarrow> LLMCallRecord list" where
  "AllRecords m = concat (mvals (me_records m))"

definition AggregateUsage :: "Meter \<Rightarrow> UsageSummary" where
  "AggregateUsage m = summarize (AllRecords m)"

definition RequestUsage :: "string \<Rightarrow> Meter \<Rightarrow> UsageSummary" where
  "RequestUsage requestID m =
     summarize (concat (map (filter (\<lambda>r. cr_RequestID r = requestID)) (mvals (me_records m))))"

definition AllAgentUsage :: "Meter \<Rightarrow> (string, UsageSummary) gomap" where
  "AllAgentUsage m = map (\<lambda>(name, recs). (name, summarize recs)) (me_records m)"

datatype budget_error =
    InputBudget string int64 int64 | OutputBudget string int64 int64 | TotalBudget string int64 int64

definition CheckBudget :: "string \<Rightarrow> Meter \<Rightarrow> budget_error option" where
  "CheckBudget agentName m =
     (case mget (me_budgets m) agentName of
        None \<Rightarrow> None
      | Some b \<Rightarrow>
          (let s = Usage agentName m
           in first_err
             [guard (0 <s bu_MaxInputTokens b \<and> bu_MaxInputTokens b <s us_InputTokens s)
                (InputBudget agentName (us_InputTokens s) (bu_MaxInputTokens b)),
              guard (0 <s bu_MaxOutputTokens b \<and> bu_MaxOutputTokens b <s us_OutputTokens s)
                (OutputBudget agentName (us_OutputTokens s) (bu_MaxOutputTokens b)),
              guard (0 <s bu_MaxTotalTokens b \<and> bu_MaxTotalTokens b <s us_TotalTokens s)
                (TotalBudget agentName (us_TotalTokens s) (bu_MaxTotalTokens b))]))"

definition add_model_call :: "LLMCallRecord \<Rightarrow> (string, ModelUsage) gomap \<Rightarrow> (string, ModelUsage) gomap" where
  "add_model_call r byModel =
     (let mu = mget0 \<lparr>mu_Model = cr_Model r, mu_InputTokens = 0, mu_OutputTokens = 0,
            mu_CacheReadTokens = 0, mu_TotalTokens = 0, mu_TotalCalls = 0\<rparr> byModel (cr_Model r)
      in mput (cr_Model r)
        \<lparr>mu_Model = mu_Model mu, mu_InputTokens = mu_InputTokens mu + cr_InputTokens r,
         mu_OutputTokens = mu_OutputTokens mu + cr_OutputTokens r,
         mu_CacheReadTokens = mu_CacheReadTokens mu + cr_CacheReadTokens r,
         mu_TotalTokens = mu_TotalTokens mu + (cr_InputTokens r + cr_OutputTokens r),
         mu_TotalCalls = mu_TotalCalls mu + 1\<rparr> byModel)"

definition ModelUsage_of :: "Meter \<Rightarrow> ModelUsage list" where
  "ModelUsage_of m =
     sort_slice (\<lambda>x y. mu_Model x < mu_Model y)
       (mvals (foldl (\<lambda>bm r. add_model_call r bm) [] (AllRecords m)))"

section \<open>The retry loop (llm/meter.go)\<close>

text \<open>
  The error of a call: whether it is the deadline of its context, and its text. What the outside
  world does is a list with one entry per attempt: whether the context of the caller is done before the
  attempt, and the outcome of the call.
\<close>

record call_error =
  ce_deadline :: bool
  ce_text :: string

definition maxRetries :: nat where
  "maxRetries = 6"

definition isTransientError :: "call_error option \<Rightarrow> bool" where
  "isTransientError err =
     (case err of
        None \<Rightarrow> False
      | Some e \<Rightarrow>
          if ce_deadline e then True
          else if list_ex (\<lambda>code. contains (ce_text e) (''status '' @ code) \<or> contains (ce_text e) (''Status: '' @ code))
            [''429'', ''500'', ''502'', ''503'', ''504''] then True
          else list_ex (\<lambda>p. contains (ce_text e) p)
            [''connection reset'', ''connection refused'', ''broken pipe'', ''EOF'', ''stream recv:'',
             ''empty stream response''])"

text \<open>The outcome of a streamed call: an error, or a message with the usage its metadata carries.\<close>

record token_usage =
  tu_PromptTokens :: int64
  tu_CompletionTokens :: int64
  tu_CachedTokens :: int64

record model_message =
  mm_Content :: string
  mm_Usage :: "token_usage option"
  mm_FinishReason :: string

record attempt =
  tt_CtxDone :: bool
  tt_Outcome :: "call_error + model_message"
  tt_Start :: int
  tt_Duration :: int64

record MeteredModel =
  md_AgentName :: string
  md_ModelID :: string
  md_CallTimeout :: int

definition defaultCallTimeout :: int where "defaultCallTimeout = 35 * 60000000000"
definition retryCallTimeout :: int where "retryCallTimeout = 12 * 60000000000"

text \<open>
  The loop from attempt \<open>k\<close> on: the result with the attempt it came from, and the timeouts of the calls
  made, in order. A context that is done before the backoff or during it ends the loop with the last error.
\<close>

function generate_from :: "int \<Rightarrow> (nat \<Rightarrow> attempt) \<Rightarrow> nat \<Rightarrow> call_error option \<Rightarrow>
    (call_error option + nat \<times> model_message) \<times> int list" where
  "generate_from timeout env k lastErr =
     (if k > maxRetries \<or> k > 0 \<and> tt_CtxDone (env k) then (Inl lastErr, [])
      else
        (let callTimeout = (if k > 0 then retryCallTimeout else timeout)
         in case tt_Outcome (env k) of
              Inl err \<Rightarrow>
                if isTransientError (Some err) \<and> k < maxRetries
                then (case generate_from timeout env (Suc k) (Some err) of (r, calls) \<Rightarrow> (r, callTimeout # calls))
                else (Inl (Some err), [callTimeout])
            | Inr resp \<Rightarrow> (Inr (k, resp), [callTimeout])))"
  by pat_completeness auto
termination by (relation "measure (\<lambda>(timeout, env, k, lastErr). Suc maxRetries - k)") auto

declare generate_from.simps [simp del]

definition call_record :: "MeteredModel \<Rightarrow> string \<Rightarrow> string \<Rightarrow> attempt \<Rightarrow> model_message \<Rightarrow> LLMCallRecord" where
  "call_record m requestID taskID t resp =
     (let r = \<lparr>cr_AgentName = md_AgentName m, cr_RequestID = requestID, cr_TaskID = taskID,
            cr_Model = md_ModelID m, cr_InputTokens = 0, cr_OutputTokens = 0, cr_CacheReadTokens = 0,
            cr_Duration = tt_Duration t, cr_Timestamp = tt_Start t, cr_FinishReason = ''''\<rparr>;
          r = (case mm_Usage resp of
                 None \<Rightarrow> r
               | Some u \<Rightarrow>
                   (let r = r\<lparr>cr_InputTokens := tu_PromptTokens u, cr_OutputTokens := tu_CompletionTokens u\<rparr>
                    in if 0 <s tu_CachedTokens u then r\<lparr>cr_CacheReadTokens := tu_CachedTokens u\<rparr> else r))
      in if mm_FinishReason resp \<noteq> '''' then r\<lparr>cr_FinishReason := mm_FinishReason resp\<rparr> else r)"

definition Generate :: "MeteredModel \<Rightarrow> string \<Rightarrow> string \<Rightarrow> (nat \<Rightarrow> attempt) \<Rightarrow> Meter \<Rightarrow>
    Meter \<times> (call_error option + model_message)" where
  "Generate m requestID taskID env meter =
     (let timeout = (if md_CallTimeout m \<le> 0 then defaultCallTimeout else md_CallTimeout m)
      in case fst (generate_from timeout env 0 None) of
           Inl e \<Rightarrow> (meter, Inl e)
         | Inr (k, resp) \<Rightarrow> (Record (call_record m requestID taskID (env k) resp) meter, Inr resp))"

section \<open>Sums\<close>

lemma summarize_foldl:
  "foldl (\<lambda>s r. add_call r s) s rs =
     \<lparr>us_InputTokens = us_InputTokens s + sum_list (map cr_InputTokens rs),
      us_OutputTokens = us_OutputTokens s + sum_list (map cr_OutputTokens rs),
      us_CacheReadTokens = us_CacheReadTokens s + sum_list (map cr_CacheReadTokens rs),
      us_TotalTokens = us_TotalTokens s + sum_list (map (\<lambda>r. cr_InputTokens r + cr_OutputTokens r) rs),
      us_TotalCalls = us_TotalCalls s + of_nat (length rs),
      us_TotalTime = us_TotalTime s + sum_list (map cr_Duration rs)\<rparr>"
  by (induction rs arbitrary: s) (simp_all add: add_call_def algebra_simps)

lemma summarize_sum:
  "summarize rs =
     \<lparr>us_InputTokens = sum_list (map cr_InputTokens rs), us_OutputTokens = sum_list (map cr_OutputTokens rs),
      us_CacheReadTokens = sum_list (map cr_CacheReadTokens rs),
      us_TotalTokens = sum_list (map (\<lambda>r. cr_InputTokens r + cr_OutputTokens r) rs),
      us_TotalCalls = of_nat (length rs), us_TotalTime = sum_list (map cr_Duration rs)\<rparr>"
  by (simp add: summarize_def summarize_foldl zero_usage_def)

lemma summarize_perm:
  assumes "mset rs = mset rs'"
  shows "summarize rs = summarize rs'"
proof -
  have "sum_list (map f rs) = sum_list (map f rs')" for f :: "LLMCallRecord \<Rightarrow> int64"
    using assms by (metis mset_map sum_mset_sum_list)
  then show ?thesis using mset_eq_length [OF assms] by (simp add: summarize_sum)
qed

text \<open>A meter that has been told of the calls \<open>cs\<close>.\<close>

definition meter_run :: "LLMCallRecord list \<Rightarrow> Meter \<Rightarrow> Meter" where
  "meter_run cs m = foldl (\<lambda>m r. Record r m) m cs"

lemma meter_run_snoc: "meter_run (cs @ [c]) m = Record c (meter_run cs m)"
  by (simp add: meter_run_def)

lemma meter_budgets [simp]: "me_budgets (meter_run cs m) = me_budgets m"
  by (induction cs rule: rev_induct) (simp_all add: meter_run_snoc Record_def, simp add: meter_run_def)

abbreviation calls_of :: "string \<Rightarrow> LLMCallRecord list \<Rightarrow> LLMCallRecord list" where
  "calls_of a cs \<equiv> filter (\<lambda>r. cr_AgentName r = a) cs"

lemma mset_concat_mput:
  "gowf m \<Longrightarrow> mset (concat (mvals (mput k (mget0 [] m k @ xs) m))) = mset (concat (mvals m)) + mset xs"
proof (induction m)
  case (Cons x m)
  obtain a b where x: "x = (a, b)" by fastforce
  show ?case
  proof (cases "a = k")
    case False
    then have "mget0 [] (x # m) k = mget0 [] m k" by (simp add: x mget0_def)
    then show ?thesis using Cons False by (simp add: x)
  qed (simp add: x mget0_def)
qed (simp add: mget0_def)

lemma meter_records:
  assumes "me_records m = []"
  shows "gowf (me_records (meter_run cs m))"
    and "mget0 [] (me_records (meter_run cs m)) a = calls_of a cs"
    and "mset (AllRecords (meter_run cs m)) = mset cs"
proof -
  have "gowf (me_records (meter_run cs m)) \<and> (\<forall>a. mget0 [] (me_records (meter_run cs m)) a = calls_of a cs) \<and>
      mset (AllRecords (meter_run cs m)) = mset cs"
  proof (induction cs rule: rev_induct)
    case Nil
    then show ?case by (simp add: meter_run_def assms AllRecords_def)
  next
    case (snoc c cs)
    then show ?case
      using mset_concat_mput [of "me_records (meter_run cs m)" "cr_AgentName c" "[c]"]
      by (auto simp: meter_run_snoc Record_def AllRecords_def)
  qed
  then show "gowf (me_records (meter_run cs m))"
    and "mget0 [] (me_records (meter_run cs m)) a = calls_of a cs"
    and "mset (AllRecords (meter_run cs m)) = mset cs" by blast+
qed

definition model_summary :: "string \<Rightarrow> LLMCallRecord list \<Rightarrow> ModelUsage" where
  "model_summary k cs =
     (let rs = filter (\<lambda>r. cr_Model r = k) cs; u = summarize rs
      in \<lparr>mu_Model = k, mu_InputTokens = us_InputTokens u, mu_OutputTokens = us_OutputTokens u,
          mu_CacheReadTokens = us_CacheReadTokens u, mu_TotalTokens = us_TotalTokens u,
          mu_TotalCalls = us_TotalCalls u\<rparr>)"

lemma model_summary_perm: "mset cs = mset ds \<Longrightarrow> model_summary k cs = model_summary k ds"
  unfolding model_summary_def Let_def by (metis mset_filter summarize_perm)

lemma mu_Model_summary [simp]: "mu_Model (model_summary k rs) = k"
  by (simp add: model_summary_def Let_def)

lemma model_summary_none:
  "k \<notin> cr_Model ` set rs \<Longrightarrow> model_summary k rs = \<lparr>mu_Model = k, mu_InputTokens = 0,
     mu_OutputTokens = 0, mu_CacheReadTokens = 0, mu_TotalTokens = 0, mu_TotalCalls = 0\<rparr>"
  by (subgoal_tac "filter (\<lambda>r. cr_Model r = k) rs = []")
    (simp_all add: model_summary_def summarize_sum Let_def filter_empty_conv, blast)

lemma model_summary_snoc:
  "model_summary k (rs @ [r]) =
     (if cr_Model r = k then
        (let mu = model_summary k rs
         in \<lparr>mu_Model = mu_Model mu, mu_InputTokens = mu_InputTokens mu + cr_InputTokens r,
             mu_OutputTokens = mu_OutputTokens mu + cr_OutputTokens r,
             mu_CacheReadTokens = mu_CacheReadTokens mu + cr_CacheReadTokens r,
             mu_TotalTokens = mu_TotalTokens mu + (cr_InputTokens r + cr_OutputTokens r),
             mu_TotalCalls = mu_TotalCalls mu + 1\<rparr>)
      else model_summary k rs)"
  by (simp add: model_summary_def summarize_sum Let_def)

definition by_model_map :: "LLMCallRecord list \<Rightarrow> (string, ModelUsage) gomap" where
  "by_model_map rs = foldl (\<lambda>bm r. add_model_call r bm) [] rs"

lemma by_model_snoc: "by_model_map (rs @ [r]) = add_model_call r (by_model_map rs)"
  by (simp add: by_model_map_def)

lemma by_model:
  "gowf (by_model_map rs) \<and>
   (\<forall>k. mget (by_model_map rs) k = (if k \<in> cr_Model ` set rs then Some (model_summary k rs) else None))"
proof (induction rs rule: rev_induct)
  case (snoc r rs)
  have "mget0 \<lparr>mu_Model = cr_Model r, mu_InputTokens = 0, mu_OutputTokens = 0, mu_CacheReadTokens = 0,
      mu_TotalTokens = 0, mu_TotalCalls = 0\<rparr> (by_model_map rs) (cr_Model r) = model_summary (cr_Model r) rs"
    using snoc by (simp add: mget0_def model_summary_none)
  with snoc show ?case
    by (simp add: by_model_snoc add_model_call_def model_summary_snoc Let_def)
qed (simp add: by_model_map_def)

lemma by_model_names: "map (mu_Model \<circ> snd) (by_model_map rs) = mkeys (by_model_map rs)"
proof (rule map_cong [OF refl])
  fix x assume "x \<in> set (by_model_map rs)"
  then have "mget (by_model_map rs) (fst x) = Some (snd x)"
    by (intro map_of_is_SomeI conjunct1 [OF by_model]) simp
  then have "(if fst x \<in> cr_Model ` set rs then Some (model_summary (fst x) rs) else None) = Some (snd x)"
    unfolding conjunct2 [OF by_model, rule_format] .
  then have "snd x = model_summary (fst x) rs" by (auto split: if_split_asm)
  then show "(mu_Model \<circ> snd) x = fst x" by simp
qed

lemma ModelUsage_of_set:
  "u \<in> set (ModelUsage_of m) \<longleftrightarrow> mu_Model u \<in> cr_Model ` set (AllRecords m) \<and> u = model_summary (mu_Model u) (AllRecords m)"
proof -
  have "u \<in> set (ModelUsage_of m) \<longleftrightarrow> (\<exists>k. mget (by_model_map (AllRecords m)) k = Some u)"
    unfolding ModelUsage_of_def set_sort_slice by_model_map_def [symmetric]
    by (rule set_mvals [OF conjunct1 [OF by_model]])
  also have "\<dots> \<longleftrightarrow> (\<exists>k. k \<in> cr_Model ` set (AllRecords m) \<and> u = model_summary k (AllRecords m))"
    using by_model [of "AllRecords m"] by (metis option.discI option.inject)
  finally show ?thesis by (metis mu_Model_summary)
qed

section \<open>Properties\<close>

text \<open>What a summary of the calls \<open>rs\<close> has to say, field by field; and the summary of a model.\<close>

definition accounts :: "LLMCallRecord list \<Rightarrow> UsageSummary \<Rightarrow> bool" where
  "accounts rs s \<longleftrightarrow>
     us_InputTokens s = (\<Sum>r\<leftarrow>rs. cr_InputTokens r) \<and>
     us_OutputTokens s = (\<Sum>r\<leftarrow>rs. cr_OutputTokens r) \<and>
     us_CacheReadTokens s = (\<Sum>r\<leftarrow>rs. cr_CacheReadTokens r) \<and>
     us_TotalTokens s = (\<Sum>r\<leftarrow>rs. cr_InputTokens r) + (\<Sum>r\<leftarrow>rs. cr_OutputTokens r) \<and>
     us_TotalCalls s = word_of_nat (length rs) \<and>
     us_TotalTime s = (\<Sum>r\<leftarrow>rs. cr_Duration r)"

definition accounts_model :: "LLMCallRecord list \<Rightarrow> ModelUsage \<Rightarrow> bool" where
  "accounts_model rs u \<longleftrightarrow>
     mu_InputTokens u = (\<Sum>r\<leftarrow>rs. cr_InputTokens r) \<and>
     mu_OutputTokens u = (\<Sum>r\<leftarrow>rs. cr_OutputTokens r) \<and>
     mu_CacheReadTokens u = (\<Sum>r\<leftarrow>rs. cr_CacheReadTokens r) \<and>
     mu_TotalTokens u = (\<Sum>r\<leftarrow>rs. cr_InputTokens r) + (\<Sum>r\<leftarrow>rs. cr_OutputTokens r) \<and>
     mu_TotalCalls u = word_of_nat (length rs)"

lemma accounts_summarize [simp]: "accounts rs (summarize rs)"
  by (simp add: accounts_def summarize_sum sum_list_addf)

lemma accounts_model_summary: "u = model_summary k rs \<longleftrightarrow> mu_Model u = k \<and> accounts_model (filter (\<lambda>r. cr_Model r = k) rs) u"
  by (cases u) (auto simp: accounts_model_def model_summary_def Let_def summarize_sum sum_list_addf)

text \<open>
  Claim C38: the books balance, and token budgets are enforced. Whatever calls are recorded, by any agents in any order, the usage
  of an agent and of a request is the sum, in every field (tokens in, out and cached, their total, the number of calls and the time
  spent), over exactly its calls, and the total is the sum over all calls; a model is listed, once and in order, exactly when it was
  called, with the sums over its calls (all in wrapping 64-bit arithmetic). The check of the budget refuses an agent exactly when a
  budget is set for it and one of the three limits of its tokens (in, out, total) is positive and below the sum of the tokens
  of its calls. The limit of the cost is no part of the check: a budget with only a cost limit never refuses.
\<close>

theorem meter_accounts:
  "let m = meter_run cs \<lparr>me_records = [], me_budgets = bs\<rparr>;
       own = filter (\<lambda>r. cr_AgentName r = a) cs;
       input = (\<Sum>r\<leftarrow>own. cr_InputTokens r); answer = (\<Sum>r\<leftarrow>own. cr_OutputTokens r)
   in accounts own (Usage a m) \<and>
      accounts (filter (\<lambda>r. cr_RequestID r = q) cs) (RequestUsage q m) \<and>
      accounts cs (AggregateUsage m) \<and>
      (u \<in> set (ModelUsage_of m) \<longleftrightarrow>
        mu_Model u \<in> cr_Model ` set cs \<and> accounts_model (filter (\<lambda>r. cr_Model r = mu_Model u) cs) u) \<and>
      sorted_wrt (<) (map mu_Model (ModelUsage_of m)) \<and>
      (CheckBudget a m \<noteq> None \<longleftrightarrow>
        (\<exists>b. mget bs a = Some b \<and>
          (0 <s bu_MaxInputTokens b \<and> bu_MaxInputTokens b <s input \<or>
           0 <s bu_MaxOutputTokens b \<and> bu_MaxOutputTokens b <s answer \<or>
           0 <s bu_MaxTotalTokens b \<and> bu_MaxTotalTokens b <s input + answer)))"
proof -
  define m where "m = meter_run cs \<lparr>me_records = [], me_budgets = bs\<rparr>"
  have recs: "gowf (me_records m)" "mget0 [] (me_records m) a = calls_of a cs" "mset (AllRecords m) = mset cs"
    unfolding m_def by (rule meter_records, simp)+
  have u: "Usage a m = summarize (calls_of a cs)" by (simp add: Usage_def recs(2))
  have "RequestUsage q m = summarize (filter (\<lambda>r. cr_RequestID r = q) (AllRecords m))"
    by (simp add: RequestUsage_def AllRecords_def filter_concat)
  also have "\<dots> = summarize (filter (\<lambda>r. cr_RequestID r = q) cs)"
    by (rule summarize_perm) (metis mset_filter recs(3))
  finally have q: "RequestUsage q m = summarize (filter (\<lambda>r. cr_RequestID r = q) cs)" .
  have t: "AggregateUsage m = summarize cs"
    unfolding AggregateUsage_def by (rule summarize_perm [OF recs(3)])
  have mo: "u \<in> set (ModelUsage_of m) \<longleftrightarrow>
      mu_Model u \<in> cr_Model ` set cs \<and> accounts_model (filter (\<lambda>r. cr_Model r = mu_Model u) cs) u"
    unfolding ModelUsage_of_set model_summary_perm [OF recs(3)] mset_eq_setD [OF recs(3)] accounts_model_summary by blast
  have so: "sorted_wrt (<) (map mu_Model (ModelUsage_of m))"
    unfolding ModelUsage_of_def by_model_map_def [symmetric]
    by (rule sorted_key_strict) (simp add: by_model_names by_model)
  have b: "CheckBudget a m \<noteq> None \<longleftrightarrow>
      (\<exists>b. mget bs a = Some b \<and>
        (0 <s bu_MaxInputTokens b \<and> bu_MaxInputTokens b <s (\<Sum>r\<leftarrow>calls_of a cs. cr_InputTokens r) \<or>
         0 <s bu_MaxOutputTokens b \<and> bu_MaxOutputTokens b <s (\<Sum>r\<leftarrow>calls_of a cs. cr_OutputTokens r) \<or>
         0 <s bu_MaxTotalTokens b \<and>
           bu_MaxTotalTokens b <s (\<Sum>r\<leftarrow>calls_of a cs. cr_InputTokens r) + (\<Sum>r\<leftarrow>calls_of a cs. cr_OutputTokens r)))"
    unfolding CheckBudget_def u
    by (auto simp: m_def Let_def guard_def summarize_sum sum_list_addf split: option.split if_split)
  show ?thesis
    unfolding Let_def m_def [symmetric] b [symmetric] using u q t mo so by simp
qed

text \<open>A budget that only limits the cost, like one a configuration may hold, lets any number of calls pass.\<close>

lemma cost_limit_ignored:
  assumes "mget bs a = Some \<lparr>bu_MaxInputTokens = 0, bu_MaxOutputTokens = 0, bu_MaxTotalTokens = 0, bu_MaxCostUSD = cost\<rparr>"
  shows "CheckBudget a (meter_run cs \<lparr>me_records = [], me_budgets = bs\<rparr>) = None"
  using assms by (simp add: CheckBudget_def guard_def Let_def)

text \<open>The attempts from \<open>k\<close> on: each but the last failed with a transient error, and why the loop ended.\<close>

definition attempts_ok :: "int \<Rightarrow> (nat \<Rightarrow> attempt) \<Rightarrow> nat \<Rightarrow> call_error option \<Rightarrow>
    (call_error option + nat \<times> model_message) \<times> int list \<Rightarrow> bool" where
  "attempts_ok timeout env k lastErr x =
     (let n = length (snd x)
      in k + n \<le> Suc maxRetries \<and>
         snd x = map (\<lambda>i. if i > 0 then retryCallTimeout else timeout) [k..<k + n] \<and>
         (\<forall>i. k \<le> i \<and> Suc i < k + n \<longrightarrow>
            (\<exists>e. tt_Outcome (env i) = Inl e \<and> isTransientError (Some e))) \<and>
         (\<forall>i. k \<le> i \<and> i < k + n \<and> i > 0 \<longrightarrow> \<not> tt_CtxDone (env i)) \<and>
         (case fst x of
            Inr (j, resp) \<Rightarrow> n > 0 \<and> j = k + n - 1 \<and> tt_Outcome (env j) = Inr resp
          | Inl e \<Rightarrow>
              (if n = 0 then e = lastErr else (\<exists>err. e = Some err \<and> tt_Outcome (env (k + n - 1)) = Inl err)) \<and>
              (k + n = Suc maxRetries \<or> k + n > 0 \<and> tt_CtxDone (env (k + n)) \<or>
               n > 0 \<and> \<not> isTransientError e)))"

lemma attempts_ok_Cons:
  assumes "attempts_ok timeout env (Suc k) (Some err) (r, calls)" "tt_Outcome (env k) = Inl err"
    "isTransientError (Some err)" "k > 0 \<longrightarrow> \<not> tt_CtxDone (env k)"
  shows "attempts_ok timeout env k lastErr (r, (if k > 0 then retryCallTimeout else timeout) # calls)"
proof -
  let ?n = "length calls"
  have a: "Suc k + ?n \<le> Suc maxRetries"
      "calls = map (\<lambda>i. if i > 0 then retryCallTimeout else timeout) [Suc k..<Suc k + ?n]"
      "\<And>i. Suc k \<le> i \<Longrightarrow> Suc i < Suc k + ?n \<Longrightarrow>
        \<exists>e. tt_Outcome (env i) = Inl e \<and> isTransientError (Some e)"
      "\<And>i. Suc k \<le> i \<Longrightarrow> i < Suc k + ?n \<Longrightarrow> i > 0 \<Longrightarrow> \<not> tt_CtxDone (env i)"
      and r: "case r of Inr (j, resp) \<Rightarrow> ?n > 0 \<and> j = Suc k + ?n - 1 \<and> tt_Outcome (env j) = Inr resp
          | Inl e \<Rightarrow>
              (if ?n = 0 then e = Some err else (\<exists>err. e = Some err \<and> tt_Outcome (env (Suc k + ?n - 1)) = Inl err)) \<and>
              (Suc k + ?n = Suc maxRetries \<or> Suc k + ?n > 0 \<and> tt_CtxDone (env (Suc k + ?n)) \<or>
               ?n > 0 \<and> \<not> isTransientError e)"
    using assms(1) unfolding attempts_ok_def Let_def fst_conv snd_conv by blast+
  have "(if k > 0 then retryCallTimeout else timeout) # calls =
      map (\<lambda>i. if i > 0 then retryCallTimeout else timeout) [k..<k + Suc ?n]"
  proof -
    have "[k..<k + Suc ?n] = k # [Suc k..<Suc k + ?n]" by (simp add: upt_conv_Cons del: upt_Suc)
    then show ?thesis by (simp only: list.simps a(2) [symmetric])
  qed
  moreover have "\<exists>e. tt_Outcome (env i) = Inl e \<and> isTransientError (Some e)"
    if "k \<le> i" "Suc i < k + Suc ?n" for i
    using a(3) [of i] that assms(2,3) by (cases "i = k") auto
  moreover have "\<not> tt_CtxDone (env i)" if "k \<le> i" "i < k + Suc ?n" "i > 0" for i
    using a(4) [of i] that assms(4) by (cases "i = k") auto
  ultimately show ?thesis
    using a(1) r assms(2) unfolding attempts_ok_def Let_def fst_conv snd_conv
    by (cases calls) (auto split: sum.split_asm prod.split_asm sum.split prod.split)
qed

lemma generate_from_ok: "k \<le> Suc maxRetries \<Longrightarrow> attempts_ok timeout env k lastErr (generate_from timeout env k lastErr)"
proof (induction timeout env k lastErr rule: generate_from.induct)
  case (1 timeout env k lastErr)
  show ?case
  proof (cases "k > maxRetries \<or> k > 0 \<and> tt_CtxDone (env k)")
    case True
    then show ?thesis using "1.prems" by (auto simp: generate_from.simps [of _ _ k] attempts_ok_def)
  next
    case False
    show ?thesis
    proof (cases "tt_Outcome (env k)")
      case (Inr resp)
      then show ?thesis using False by (auto simp: generate_from.simps [of _ _ k] attempts_ok_def Let_def less_Suc_eq)
    next
      case (Inl err)
      show ?thesis
      proof (cases "isTransientError (Some err) \<and> k < maxRetries")
        case True
        then have IH: "attempts_ok timeout env (Suc k) (Some err) (generate_from timeout env (Suc k) (Some err))"
          using "1.IH" [OF False refl Inl] by simp
        obtain r calls where g: "generate_from timeout env (Suc k) (Some err) = (r, calls)" by fastforce
        have "generate_from timeout env k lastErr = (r, (if k > 0 then retryCallTimeout else timeout) # calls)"
          using False Inl True g by (simp add: generate_from.simps [of _ _ k])
        moreover have "attempts_ok timeout env k lastErr (r, (if k > 0 then retryCallTimeout else timeout) # calls)"
          by (rule attempts_ok_Cons [OF IH [unfolded g] Inl]) (use True False in auto)
        ultimately show ?thesis by simp
      next
        case n: False
        then show ?thesis using False Inl by (auto simp: generate_from.simps [of _ _ k] attempts_ok_def less_Suc_eq)
      qed
    qed
  qed
qed

text \<open>
  A model call is retried within bounds. It makes between one and seven attempts, the first with
  the configured timeout and the others with twelve minutes, no retry after the context of the caller is
  done, and every attempt but the last failed with a transient error. A message is returned exactly when
  the last attempt produced it, and then this call is recorded, once, with its usage; an error is the
  error of the last attempt, which was not transient, or was the seventh, or the context was done.
\<close>

theorem model_call_retries:
  "\<exists>n r. n > 0 \<and> n \<le> 7 \<and> generate_from timeout env 0 None = (r, timeout # replicate (n - 1) (12 * 60000000000)) \<and>
     (\<forall>i < n - 1. \<exists>e. tt_Outcome (env i) = Inl e \<and> isTransientError (Some e)) \<and>
     (\<forall>i < n. i > 0 \<longrightarrow> \<not> tt_CtxDone (env i)) \<and>
     (timeout = (if md_CallTimeout m \<le> 0 then defaultCallTimeout else md_CallTimeout m) \<longrightarrow>
      (case tt_Outcome (env (n - 1)) of
        Inr resp \<Rightarrow> Generate m q t env meter = (Record (call_record m q t (env (n - 1)) resp) meter, Inr resp)
      | Inl e \<Rightarrow> Generate m q t env meter = (meter, Inl (Some e)) \<and>
          (\<not> isTransientError (Some e) \<or> n = 7 \<or> tt_CtxDone (env n))))"
proof -
  obtain r calls where g: "generate_from timeout env 0 None = (r, calls)" by fastforce
  have ok: "attempts_ok timeout env 0 None (r, calls)"
    using generate_from_ok [of 0 timeout env None] g by simp
  then have n: "length calls > 0"
    by (auto simp: attempts_ok_def Let_def maxRetries_def split: sum.split_asm prod.split_asm)
  have "calls = timeout # replicate (length calls - 1) (12 * 60000000000)"
  proof -
    have "calls = map (\<lambda>i. if i > 0 then retryCallTimeout else timeout) [0..<length calls]"
      using ok by (simp add: attempts_ok_def Let_def)
    also have "\<dots> = timeout # map (\<lambda>i. if i > 0 then retryCallTimeout else timeout) [1..<length calls]"
      using n by (simp add: upt_conv_Cons)
    also have "map (\<lambda>i. if i > 0 then retryCallTimeout else timeout) [1..<length calls] =
        replicate (length calls - 1) (12 * 60000000000)"
      by (rule replicate_eqI) (auto simp: retryCallTimeout_def)
    finally show ?thesis .
  qed
  then show ?thesis
    using ok n g
    by (intro exI [of _ "length calls"] exI [of _ r])
      (auto simp: attempts_ok_def Let_def maxRetries_def Generate_def split: sum.split_asm prod.split_asm sum.split)
qed

definition demo_model :: MeteredModel where
  "demo_model = \<lparr>md_AgentName = ''dev'', md_ModelID = ''m1'', md_CallTimeout = 0\<rparr>"

definition demo_reply :: model_message where
  "demo_reply = \<lparr>mm_Content = ''hi'',
     mm_Usage = Some \<lparr>tu_PromptTokens = 10, tu_CompletionTokens = 5, tu_CachedTokens = 0\<rparr>,
     mm_FinishReason = ''stop''\<rparr>"

definition demo_env :: "nat \<Rightarrow> attempt" where
  "demo_env i = \<lparr>tt_CtxDone = False,
     tt_Outcome = (if i = 0 then Inl \<lparr>ce_deadline = True, ce_text = ''timeout''\<rparr> else Inr demo_reply),
     tt_Start = 0, tt_Duration = 7\<rparr>"

theorem model_call_retries_witness:
  "\<exists>n. n > 1 \<and> n \<le> 7 \<and> Generate demo_model ''r'' ''t'' demo_env NewMeter =
     (Record (call_record demo_model ''r'' ''t'' (demo_env (n - 1)) demo_reply) NewMeter, Inr demo_reply)"
proof -
  obtain n r where n: "n > 0" "n \<le> 7"
      "generate_from defaultCallTimeout demo_env 0 None = (r, defaultCallTimeout # replicate (n - 1) (12 * 60000000000))"
      and g: "case tt_Outcome (demo_env (n - 1)) of
        Inr resp \<Rightarrow> Generate demo_model ''r'' ''t'' demo_env NewMeter =
          (Record (call_record demo_model ''r'' ''t'' (demo_env (n - 1)) resp) NewMeter, Inr resp)
      | Inl e \<Rightarrow> Generate demo_model ''r'' ''t'' demo_env NewMeter = (NewMeter, Inl (Some e)) \<and>
          (\<not> isTransientError (Some e) \<or> n = 7 \<or> tt_CtxDone (demo_env n))"
    using model_call_retries [of defaultCallTimeout demo_env demo_model "''r''" "''t''" NewMeter]
    by (auto simp: demo_model_def)
  have "n \<noteq> 1"
  proof
    assume "n = 1"
    then show False using g by (simp add: demo_env_def isTransientError_def)
  qed
  then show ?thesis using n g by (intro exI [of _ n]) (auto simp: demo_env_def)
qed

end
