(* ===== verification/Storage.thy ===== *)
theory Storage
  imports Artifact
begin

text \<open>
  The file storage of an agent (internal/local/storage.go): three tiers, each a directory, with a check
  that a path stays inside its tier and a check of what an agent may write in the shared tier. The file
  system is the map of its regular files, by absolute clean path; directories are implied by the files.
  Paths are Unix paths; \<open>filepath.Join\<close> and \<open>filepath.Rel\<close> follow the Go library. The outcomes of the
  system calls, also what a failed write leaves in the file, are arguments.
\<close>

section \<open>filepath.Join and filepath.Rel\<close>

definition path_join2 :: "string \<Rightarrow> string \<Rightarrow> string" where
  "path_join2 a b =
     (if a \<noteq> '''' then path_clean (a @ ''/'' @ b) else if b \<noteq> '''' then path_clean b else '''')"

definition path_elems :: "string \<Rightarrow> string list" where
  "path_elems p = clean_elems (is_abs p) (split_on slash p)"

fun strip_common :: "string list \<Rightarrow> string list \<Rightarrow> string list \<times> string list" where
  "strip_common (b # bs) (t # ts) = (if b = t then strip_common bs ts else (b # bs, t # ts))"
| "strip_common bs ts = (bs, ts)"

text \<open>\<open>None\<close> is the error: one path is absolute and the other is not, or the base climbs.\<close>

definition path_rel :: "string \<Rightarrow> string \<Rightarrow> string option" where
  "path_rel base targ =
     (if path_clean base = path_clean targ then Some ''.''
      else if is_abs base \<noteq> is_abs targ then None
      else (case strip_common (path_elems base) (path_elems targ) of
          ([], ts) \<Rightarrow> Some (join ''/'' ts)
        | (b # bs, ts) \<Rightarrow>
            if b = ''..'' then None
            else Some (join ''/'' (replicate (length (b # bs)) ''..'' @ ts))))"

section \<open>Paths of the storage\<close>

datatype StorageTier = TierShared | TierAgent | TierScratch | TierOther int

record StorageLayout =
  sl_SharedRoot :: string
  sl_AgentRoot :: string
  sl_ScratchRoot :: string

record Storage =
  so_agentName :: string
  so_layout :: StorageLayout

datatype storage_error =
    EscapesTier string | CannotWriteShared string string | DeleteBlocked | FileError

definition tierPath :: "Storage \<Rightarrow> StorageTier \<Rightarrow> string" where
  "tierPath s tier =
     (case tier of
        TierShared \<Rightarrow> sl_SharedRoot (so_layout s)
      | TierAgent \<Rightarrow> path_join2 (sl_AgentRoot (so_layout s)) (so_agentName s)
      | TierScratch \<Rightarrow> path_join2 (sl_ScratchRoot (so_layout s)) (''agentfab-'' @ so_agentName s)
      | TierOther _ \<Rightarrow> sl_SharedRoot (so_layout s))"

definition fullPath :: "Storage \<Rightarrow> StorageTier \<Rightarrow> string \<Rightarrow> storage_error + string" where
  "fullPath s tier path =
     (let base = tierPath s tier; full = path_join2 base path
      in case path_rel base full of
           None \<Rightarrow> Inl (EscapesTier path)
         | Some rel \<Rightarrow> if has_prefix rel ''..'' then Inl (EscapesTier path) else Inr full)"

definition checkWriteScope :: "Storage \<Rightarrow> StorageTier \<Rightarrow> string \<Rightarrow> storage_error option" where
  "checkWriteScope s tier path =
     (if tier \<noteq> TierShared then None
      else
        (let clean = path_clean path;
             allowed = [(''artifacts/'' @ so_agentName s @ ''/'', ''artifacts/'' @ so_agentName s),
               (''logs/'', ''logs''), (''agents.yaml'', ''agents.yaml''), (''knowledge/'', ''knowledge'')]
         in if list_ex (\<lambda>(prefix, trimmed). has_prefix clean prefix \<or> clean = trimmed) allowed then None
            else Some (CannotWriteShared (so_agentName s) path)))"

section \<open>Operations\<close>

type_synonym files = "(string, string) gomap"

text \<open>The directory cannot be made; the write fails and leaves a part of the data; it succeeds.\<close>

datatype write_io = MkdirFails | WriteFails string | WriteOK

definition Write :: "Storage \<Rightarrow> StorageTier \<Rightarrow> string \<Rightarrow> string \<Rightarrow> write_io \<Rightarrow> files \<Rightarrow> files \<times> storage_error option" where
  "Write s tier path data io fs =
     (case checkWriteScope s tier path of
        Some e \<Rightarrow> (fs, Some e)
      | None \<Rightarrow>
          (case fullPath s tier path of
             Inl e \<Rightarrow> (fs, Some e)
           | Inr full \<Rightarrow>
               (case io of
                  MkdirFails \<Rightarrow> (fs, Some FileError)
                | WriteFails rest \<Rightarrow> (mput full rest fs, Some FileError)
                | WriteOK \<Rightarrow> (mput full data fs, None))))"

definition Append :: "Storage \<Rightarrow> StorageTier \<Rightarrow> string \<Rightarrow> string \<Rightarrow> write_io \<Rightarrow> files \<Rightarrow> files \<times> storage_error option" where
  "Append s tier path data io fs =
     (case checkWriteScope s tier path of
        Some e \<Rightarrow> (fs, Some e)
      | None \<Rightarrow>
          (case fullPath s tier path of
             Inl e \<Rightarrow> (fs, Some e)
           | Inr full \<Rightarrow>
               (let old = mget0 '''' fs full
                in case io of
                  MkdirFails \<Rightarrow> (fs, Some FileError)
                | WriteFails rest \<Rightarrow> (mput full (old @ rest) fs, Some FileError)
                | WriteOK \<Rightarrow> (mput full (old @ data) fs, None))))"

definition Read :: "Storage \<Rightarrow> StorageTier \<Rightarrow> string \<Rightarrow> files \<Rightarrow> storage_error + string" where
  "Read s tier path fs =
     (case fullPath s tier path of
        Inl e \<Rightarrow> Inl e
      | Inr full \<Rightarrow> (case mget fs full of None \<Rightarrow> Inl FileError | Some d \<Rightarrow> Inr d))"

definition checkDeleteScope :: "StorageTier \<Rightarrow> storage_error option" where
  "checkDeleteScope tier = (case tier of TierScratch \<Rightarrow> None | _ \<Rightarrow> Some DeleteBlocked)"

definition below :: "string \<Rightarrow> string \<Rightarrow> bool" where
  "below dir p = (p = dir \<or> has_prefix p (dir @ ''/''))"

text \<open>\<open>os.RemoveAll\<close>; a failure leaves some of the files, those that \<open>kept\<close> accepts.\<close>

definition Delete :: "Storage \<Rightarrow> StorageTier \<Rightarrow> string \<Rightarrow> (string \<Rightarrow> bool) \<Rightarrow> files \<Rightarrow> files \<times> storage_error option" where
  "Delete s tier path kept fs =
     (case checkDeleteScope tier of
        Some e \<Rightarrow> (fs, Some e)
      | None \<Rightarrow>
          (case checkWriteScope s tier path of
             Some e \<Rightarrow> (fs, Some e)
           | None \<Rightarrow>
               (case fullPath s tier path of
                  Inl e \<Rightarrow> (fs, Some e)
                | Inr full \<Rightarrow>
                    (let rest = filter (\<lambda>(p, _). \<not> below full p \<or> kept p) fs
                     in (rest, if list_ex (\<lambda>(p, _). below full p) rest then Some FileError else None)))))"

text \<open>\<open>ListAll\<close>: \<open>walk\<close> are the files below the tier, relative to it, in the order of the walk.\<close>

definition trim_slashes :: "string \<Rightarrow> string" where
  "trim_slashes p = rev (dropWhile (\<lambda>c. c = slash) (rev (dropWhile (\<lambda>c. c = slash) p)))"

definition ListAll :: "string list \<Rightarrow> string \<Rightarrow> string list" where
  "ListAll walk prefix =
     (let p = trim_slashes (path_clean prefix); prefix = (if p = ''.'' then '''' else p)
      in filter (\<lambda>rel. \<not> (prefix \<noteq> '''' \<and> rel \<noteq> prefix \<and> \<not> has_prefix rel (prefix @ ''/''))) walk)"

section \<open>Cleaning\<close>

definition plain :: "string \<Rightarrow> bool" where
  "plain e = (e \<notin> {'''', ''.'', ''..''} \<and> slash \<notin> set e)"

lemma split_on_append2: "split_on d (a @ d # b) = split_on d a @ split_on d b"
  by (induction a) (auto split: list.split)

lemma fold_clean_rooted:
  assumes "\<forall>e \<in> set out. plain e" "\<forall>e \<in> set es. slash \<notin> set e"
  shows "\<forall>e \<in> set (foldl (\<lambda>out e. clean_elem True e out) out es). plain e"
  using assms
proof (induction es arbitrary: out)
  case (Cons e es)
  have "\<forall>x \<in> set (clean_elem True e out). plain x"
    using Cons.prems by (auto simp: clean_elem_def plain_def split: list.split)
  then show ?case using Cons by simp
qed simp

lemma path_elems_plain: "is_abs p \<Longrightarrow> e \<in> set (path_elems p) \<Longrightarrow> plain e"
  using fold_clean_rooted [of "[]" "split_on slash p"] split_on_sep [of _ slash p]
  by (auto simp: path_elems_def clean_elems_def)

lemma clean_elems_append:
  "clean_elems r (xs @ ys) = rev (foldl (\<lambda>out e. clean_elem r e out) (rev (clean_elems r xs)) ys)"
  by (simp add: clean_elems_def)

lemma fold_clean_plain:
  "\<forall>e \<in> set es. plain e \<Longrightarrow> foldl (\<lambda>out e. clean_elem r e out) out es = rev es @ out"
  by (induction es arbitrary: out) (auto simp: clean_elem_def plain_def)

text \<open>The elements of a relative path, where \<open>..\<close> can remain.\<close>

lemma clean_elem_set: "x \<in> set (clean_elem r e out) \<Longrightarrow> x \<in> set out \<or> x = e \<and> e \<noteq> ''''"
  unfolding clean_elem_def by (simp split: if_split_asm list.split_asm) auto

lemma fold_clean_set:
  "x \<in> set (foldl (\<lambda>out e. clean_elem r e out) out es) \<Longrightarrow> x \<in> set out \<or> x \<in> set es \<and> x \<noteq> ''''"
  by (induction es arbitrary: out) (auto dest: clean_elem_set)

lemma relative_elems: "e \<in> set (clean_elems False (split_on slash p)) \<Longrightarrow> e \<noteq> '''' \<and> slash \<notin> set e"
  using fold_clean_set [of e False "[]" "split_on slash p"] split_on_sep [of e slash p]
  by (auto simp: clean_elems_def)

lemma is_abs_join:
  assumes "\<forall>e \<in> set es. e \<noteq> '''' \<and> slash \<notin> set e"
  shows "\<not> is_abs (join ''/'' es)"
proof (cases es)
  case (Cons e es')
  then obtain c w where "e = c # w" "c \<noteq> slash" using assms by (cases e) auto
  then show ?thesis using Cons by (cases es') (auto simp: is_abs_def has_prefix_def slash_def)
qed (simp add: is_abs_def has_prefix_def)

lemma is_abs_clean [simp]: "is_abs (path_clean p) = is_abs p"
proof (cases "is_abs p")
  case True
  then show ?thesis by (simp add: path_clean_def Let_def) (simp add: is_abs_def has_prefix_def)
next
  case False
  then show ?thesis
    using is_abs_join [of "clean_elems False (split_on slash p)"] relative_elems [of _ p]
    by (auto simp: path_clean_def Let_def is_abs_def has_prefix_def)
qed

lemma path_elems_abs:
  assumes "\<forall>e \<in> set es. plain e"
  shows "path_elems (''/'' @ join ''/'' es) = es"
proof (cases es)
  case Nil
  then show ?thesis by (simp add: path_elems_def clean_elems_def clean_elem_def slash_def is_abs_def)
next
  case (Cons e' es')
  have "split_on slash (join ''/'' es) = es"
    using split_on_join [of es slash] assms Cons by (auto simp: slash_def plain_def)
  then have "split_on slash (''/'' @ join ''/'' es) = '''' # es"
    by (simp add: slash_def)
  then show ?thesis
    using fold_clean_plain [OF assms, of True "[]"]
    by (simp add: path_elems_def clean_elems_def is_abs_def has_prefix_def clean_elem_def)
qed

lemma path_clean_abs: "is_abs p \<Longrightarrow> path_clean p = ''/'' @ join ''/'' (path_elems p)"
  by (simp add: path_clean_def path_elems_def Let_def)

lemma path_elems_clean [simp]: "is_abs p \<Longrightarrow> path_elems (path_clean p) = path_elems p"
  by (subst path_clean_abs, assumption, rule path_elems_abs) (blast intro: path_elems_plain)

text \<open>Cleaning below an absolute base: the elements of the base, then those of the path.\<close>

lemma elems_join:
  assumes "is_abs base"
  shows "path_elems (path_join2 base p) =
    rev (foldl (\<lambda>out e. clean_elem True e out) (rev (path_elems base)) (split_on slash p))"
    and "is_abs (path_join2 base p)"
proof -
  have b: "base \<noteq> ''''" using assms by (auto simp: is_abs_def has_prefix_def)
  have a: "is_abs (base @ ''/'' @ p)" using assms by (auto simp: is_abs_def has_prefix_iff)
  have "split_on slash (base @ ''/'' @ p) = split_on slash base @ split_on slash p"
    using split_on_append2 [of slash base p] by (simp add: slash_def)
  then show "path_elems (path_join2 base p) =
      rev (foldl (\<lambda>out e. clean_elem True e out) (rev (path_elems base)) (split_on slash p))"
    using a assms b
    by (simp add: path_join2_def) (simp add: path_elems_def clean_elems_append)
  show "is_abs (path_join2 base p)" using a b by (simp add: path_join2_def)
qed

section \<open>Confinement\<close>

lemma strip_common_prefix: "strip_common bs ts = ([], es) \<Longrightarrow> ts = bs @ es"
  by (induction bs ts rule: strip_common.induct) (auto split: if_split_asm)

lemma strip_common_Cons: "strip_common bs ts = (b # bs', es) \<Longrightarrow> b \<in> set bs"
  by (induction bs ts rule: strip_common.induct) (auto split: if_split_asm)

lemma path_rel_below:
  assumes "path_rel base full = Some rel" "\<not> has_prefix rel ''..''" and "is_abs base" "is_abs full"
  shows "\<exists>es. path_elems full = path_elems base @ es"
proof (cases "path_clean base = path_clean full")
  case True
  then have "path_elems full = path_elems base" using assms(3,4) path_elems_clean by metis
  then show ?thesis by simp
next
  case False
  obtain bs es where st: "strip_common (path_elems base) (path_elems full) = (bs, es)" by fastforce
  show ?thesis
  proof (cases bs)
    case Nil
    then show ?thesis using strip_common_prefix st by blast
  next
    case (Cons b bs')
    then have "rel = join ''/'' (replicate (length bs) ''..'' @ es)"
      using assms(1,3,4) False st by (auto simp: path_rel_def split: if_split_asm)
    then have "has_prefix rel ''..''"
      using Cons by (cases "replicate (length bs') ''..'' @ es") (auto simp: has_prefix_def)
    then show ?thesis using assms(2) by simp
  qed
qed

lemma fullPath_below:
  assumes "fullPath s tier path = Inr full" "is_abs (tierPath s tier)"
  shows "\<exists>es. path_elems full = path_elems (tierPath s tier) @ es"
    and "full = path_join2 (tierPath s tier) path" "is_abs full"
proof -
  let ?base = "tierPath s tier"
  obtain rel where r: "path_rel ?base full = Some rel" "\<not> has_prefix rel ''..''"
      and f: "full = path_join2 ?base path"
    using assms(1) by (auto simp: fullPath_def Let_def split: option.split_asm if_split_asm)
  show "full = path_join2 ?base path" by (rule f)
  show abs: "is_abs full" unfolding f by (rule elems_join(2) [OF assms(2)])
  show "\<exists>es. path_elems full = path_elems ?base @ es" by (rule path_rel_below [OF r assms(2) abs])
qed

section \<open>What may be written in the shared tier\<close>

lemma dots_kept:
  "''..'' \<in> set out \<Longrightarrow> ''..'' \<in> set (foldl (\<lambda>out e. clean_elem False e out) out es)"
proof (induction es arbitrary: out)
  case (Cons e es)
  have "''..'' \<in> set (clean_elem False e out)"
    using Cons.prems unfolding clean_elem_def by (cases out) auto
  then show ?case using Cons.IH by simp
qed simp

lemma dots_first:
  assumes "''..'' \<in> set out \<Longrightarrow> last out = ''..''"
    "''..'' \<in> set (foldl (\<lambda>out e. clean_elem False e out) out es)"
  shows "last (foldl (\<lambda>out e. clean_elem False e out) out es) = ''..''"
  using assms
proof (induction es arbitrary: out)
  case (Cons e es)
  have "last (clean_elem False e out) = ''..''" if "''..'' \<in> set (clean_elem False e out)"
    using that Cons.prems(1) unfolding clean_elem_def
    by (cases out) (auto split: if_split_asm)
  then show ?case using Cons.IH [of "clean_elem False e out"] Cons.prems(2) by simp
qed simp

lemma fold_rooted_relative:
  assumes "''..'' \<notin> set (foldl (\<lambda>out e. clean_elem False e out) out es)"
  shows "foldl (\<lambda>out e. clean_elem True e out) (out @ base) es =
    foldl (\<lambda>out e. clean_elem False e out) out es @ base"
  using assms
proof (induction es arbitrary: out)
  case (Cons e es)
  have n: "''..'' \<notin> set (clean_elem False e out)" "''..'' \<notin> set out"
    using Cons.prems dots_kept [of "clean_elem False e out" es] dots_kept [of out "e # es"] by auto
  then have "clean_elem True e (out @ base) = clean_elem False e out @ base"
    unfolding clean_elem_def by (cases out) auto
  then show ?case using Cons.IH [of "clean_elem False e out"] Cons.prems by simp
qed simp

definition rel_elems :: "string \<Rightarrow> string list" where
  "rel_elems p = clean_elems False (split_on slash p)"

lemma join_below:
  assumes "is_abs base" "''..'' \<notin> set (rel_elems p)"
  shows "path_elems (path_join2 base p) = path_elems base @ rel_elems p"
  using fold_rooted_relative [of "[]" "split_on slash p" "rev (path_elems base)"] assms
  by (simp add: elems_join(1) rel_elems_def clean_elems_def)

definition shared_area :: "string \<Rightarrow> string list \<Rightarrow> bool" where
  "shared_area name es =
     (case es of
        [] \<Rightarrow> False
      | e # es' \<Rightarrow> e = ''logs'' \<or> e = ''knowledge'' \<or> has_prefix e ''agents.yaml'' \<or>
          e = ''artifacts'' \<and> (\<exists>rest. es' = name # rest))"

lemma split_on_word:
  "d \<notin> set w \<Longrightarrow> split_on d (w @ t) = (w @ hd (split_on d t)) # tl (split_on d t)"
  by (induction w) (auto split: list.split)

lemma scope_area:
  assumes "checkWriteScope s TierShared path = None" "slash \<notin> set (so_agentName s)"
  shows "shared_area (so_agentName s) (rel_elems path)" "''..'' \<notin> set (rel_elems path)"
proof -
  let ?c = "path_clean path" and ?n = "so_agentName s" and ?cs = "rel_elems path"
  have w: "slash \<notin> set ''artifacts''" "slash \<notin> set ''logs''" "slash \<notin> set ''knowledge''" "slash \<notin> set ''agents.yaml''"
    by (simp_all add: slash_def)
  from assms(1) consider (art) t where "?c = ''artifacts'' @ slash # ?n @ slash # t" | (art1) "?c = ''artifacts'' @ slash # ?n"
    | (logs) t where "?c = ''logs'' @ slash # t" | (logs1) "?c = ''logs''"
    | (ag) t where "?c = ''agents.yaml'' @ t"
    | (kn) t where "?c = ''knowledge'' @ slash # t" | (kn1) "?c = ''knowledge''"
    by (auto simp: checkWriteScope_def Let_def has_prefix_iff slash_def split: if_split_asm)
  note cases = this
  then have "\<not> is_abs ?c \<and> ?c \<noteq> ''.''"
    by cases (auto simp: is_abs_def has_prefix_def slash_def)
  then have rel: "\<not> is_abs path" by simp
  with \<open>\<not> is_abs ?c \<and> ?c \<noteq> ''.''\<close> have c: "?c = join ''/'' ?cs" "?cs \<noteq> []"
    by (auto simp: path_clean_def rel_elems_def Let_def split: if_split_asm)
  have sp: "split_on slash ?c = ?cs"
    using split_on_join [of ?cs slash] c relative_elems [of _ path] by (auto simp: slash_def rel_elems_def)
  from cases show area: "shared_area ?n ?cs"
  proof cases
    case (ag t)
    then have "?cs = (''agents.yaml'' @ hd (split_on slash t)) # tl (split_on slash t)"
      using split_on_word [OF w(4), of t] sp by (simp del: split_on.simps append_Cons)
    then show ?thesis unfolding shared_area_def has_prefix_iff by (simp del: append_Cons)
  next
    case (art t)
    then have "?cs = ''artifacts'' # ?n # split_on slash t"
      using split_on_append [OF w(1), of "?n @ slash # t"] split_on_append [OF assms(2), of t] sp by (simp del: split_on.simps append_Cons)
    then show ?thesis by (simp add: shared_area_def)
  next
    case art1
    then have "?cs = [''artifacts'', ?n]"
      using split_on_append [OF w(1), of ?n] split_on_no_sep [OF assms(2)] sp by (simp del: split_on.simps append_Cons)
    then show ?thesis by (simp add: shared_area_def)
  next
    case (logs t)
    then have "?cs = ''logs'' # split_on slash t"
      using split_on_append [OF w(2), of t] sp by (simp del: split_on.simps append_Cons)
    then show ?thesis by (simp add: shared_area_def)
  next
    case logs1
    then have "?cs = [''logs'']"
      using split_on_no_sep [OF w(2)] sp by (simp del: split_on.simps append_Cons)
    then show ?thesis by (simp add: shared_area_def)
  next
    case (kn t)
    then have "?cs = ''knowledge'' # split_on slash t"
      using split_on_append [OF w(3), of t] sp by (simp del: split_on.simps append_Cons)
    then show ?thesis by (simp add: shared_area_def)
  next
    case kn1
    then have "?cs = [''knowledge'']"
      using split_on_no_sep [OF w(3)] sp by (simp del: split_on.simps append_Cons)
    then show ?thesis by (simp add: shared_area_def)
  qed
  show "''..'' \<notin> set ?cs"
  proof
    assume "''..'' \<in> set ?cs"
    then have "hd ?cs = ''..''"
      using dots_first [of "[]" "split_on slash path"] by (simp add: rel_elems_def clean_elems_def hd_rev)
    then show False using area by (cases ?cs) (auto simp: shared_area_def has_prefix_def)
  qed
qed

section \<open>Properties\<close>

datatype storage_op =
    OpWrite StorageTier string string write_io
  | OpAppend StorageTier string string write_io
  | OpDelete StorageTier string "string \<Rightarrow> bool"

fun run_op :: "Storage \<Rightarrow> storage_op \<Rightarrow> files \<Rightarrow> files \<times> storage_error option" where
  "run_op s (OpWrite tier path data io) fs = Write s tier path data io fs"
| "run_op s (OpAppend tier path data io) fs = Append s tier path data io fs"
| "run_op s (OpDelete tier path kept) fs = Delete s tier path kept fs"

fun op_tier :: "storage_op \<Rightarrow> StorageTier" where
  "op_tier (OpWrite tier path data io) = tier"
| "op_tier (OpAppend tier path data io) = tier"
| "op_tier (OpDelete tier path kept) = tier"

fun op_path :: "storage_op \<Rightarrow> string" where
  "op_path (OpWrite tier path data io) = path"
| "op_path (OpAppend tier path data io) = path"
| "op_path (OpDelete tier path kept) = path"

definition clean_files :: "files \<Rightarrow> bool" where
  "clean_files fs = (\<forall>k \<in> set (mkeys fs). is_abs k \<and> path_clean k = k)"

text \<open>Where a change can be: at the resolved path, or below it for a deletion.\<close>

lemma Write_change:
  "mget (fst (Write s tier path data io fs)) k \<noteq> mget fs k \<Longrightarrow>
     checkWriteScope s tier path = None \<and> fullPath s tier path = Inr k"
  by (cases "checkWriteScope s tier path"; cases "fullPath s tier path"; cases io)
    (simp_all add: Write_def split: if_split_asm)

lemma Append_change:
  "mget (fst (Append s tier path data io fs)) k \<noteq> mget fs k \<Longrightarrow>
     checkWriteScope s tier path = None \<and> fullPath s tier path = Inr k"
  by (cases "checkWriteScope s tier path"; cases "fullPath s tier path"; cases io)
    (simp_all add: Append_def Let_def split: if_split_asm)

lemma filter_change:
  assumes "mget (filter (\<lambda>(p, _). q p) fs) k \<noteq> mget fs k"
  shows "k \<in> set (mkeys fs) \<and> \<not> q k"
proof -
  have eq: "mget (filter (\<lambda>(p, _). q p) fs) k = (if q k then mget fs k else None)"
    by (induction fs) auto
  show ?thesis
  proof
    show "\<not> q k" using assms eq by auto
    then have "mget fs k \<noteq> None" using assms eq by auto
    then show "k \<in> set (mkeys fs)" by (simp add: map_of_eq_None_iff)
  qed
qed

lemma Delete_change:
  assumes "mget (fst (Delete s tier path kept fs)) k \<noteq> mget fs k"
  shows "tier = TierScratch \<and> checkWriteScope s tier path = None \<and>
    (\<exists>full. fullPath s tier path = Inr full \<and> below full k \<and> k \<in> set (mkeys fs))"
proof (cases "checkDeleteScope tier = None \<and> checkWriteScope s tier path = None")
  case True
  then show ?thesis
    using assms
    by (cases tier; cases "fullPath s tier path")
      (auto simp: Delete_def checkDeleteScope_def Let_def dest!: filter_change)
next
  case False
  then show ?thesis using assms by (auto simp: Delete_def split: option.split_asm)
qed

lemma changed_key:
  assumes "mget (fst (run_op s op fs)) k \<noteq> mget fs k"
  shows "checkWriteScope s (op_tier op) (op_path op) = None"
    "\<exists>full. fullPath s (op_tier op) (op_path op) = Inr full \<and>
      (k = full \<or> below full k \<and> k \<in> set (mkeys fs) \<and> op_tier op = TierScratch)"
    "case op of OpDelete tier path kept \<Rightarrow> tier = TierScratch | _ \<Rightarrow> True"
  using assms by (cases op; auto dest!: Write_change Append_change Delete_change)+

lemma below_elems:
  assumes "is_abs full" "below full k" "is_abs k" "path_clean k = k"
  shows "\<exists>es. path_elems k = path_elems full @ es"
proof (cases "k = full")
  case False
  then obtain rest where k: "k = full @ slash # rest"
    using assms(2) by (auto simp: below_def has_prefix_iff slash_def)
  have sp: "split_on slash k = split_on slash full @ split_on slash rest"
    by (simp add: k split_on_append2)
  have kc: "k = slash # join ''/'' (path_elems k)"
    using assms(3,4) path_clean_abs [of k] by (simp add: slash_def)
  have ne: "path_elems k \<noteq> []"
    using kc k assms(1) by (cases full) (auto simp: is_abs_def has_prefix_def)
  have "split_on slash k = '''' # path_elems k"
    by (subst kc) (use split_on_join [of "path_elems k" slash] ne path_elems_plain [OF assms(3)] in \<open>auto simp: slash_def plain_def\<close>)
  then have "set (split_on slash rest) \<subseteq> set (path_elems k)"
  proof (cases "split_on slash full")
    case (Cons x xs)
    then have "path_elems k = xs @ split_on slash rest"
      using sp \<open>split_on slash k = [] # path_elems k\<close> by simp
    then show ?thesis by simp
  qed simp
  then have "\<forall>e \<in> set (split_on slash rest). plain e"
    using path_elems_plain [OF assms(3)] by blast
  then have "path_elems k = path_elems full @ split_on slash rest"
    using assms(1,3) sp fold_clean_plain [of "split_on slash rest" True "rev (path_elems full)"]
    by (simp add: path_elems_def clean_elems_append)
  then show ?thesis by blast
qed simp

text \<open>
  Claim C34: an agent's storage is confined. An operation of an agent changes only files at or below the
  directory of the tier it names: its own directory in the agent and scratch tiers, and in the shared
  tier only below its own artifacts directory, logs, knowledge, or a name that starts with agents.yaml;
  only scratch files can be deleted. The path may hold any \<open>..\<close>, double or trailing slashes.
\<close>

theorem storage_confined:
  assumes "mget (fst (run_op s op fs)) k \<noteq> mget fs k"
    and "clean_files fs" and "slash \<notin> set (so_agentName s)" and "so_agentName s \<notin> {'''', ''.'', ''..''}"
    and "is_abs (sl_SharedRoot (so_layout s))" "is_abs (sl_AgentRoot (so_layout s))"
      "is_abs (sl_ScratchRoot (so_layout s))"
  shows "(case op_tier op of
      TierShared \<Rightarrow> \<exists>es. path_elems k = path_elems (sl_SharedRoot (so_layout s)) @ es \<and> shared_area (so_agentName s) es
    | TierAgent \<Rightarrow> \<exists>es. path_elems k = path_elems (sl_AgentRoot (so_layout s)) @ so_agentName s # es
    | TierScratch \<Rightarrow> \<exists>es. path_elems k = path_elems (sl_ScratchRoot (so_layout s)) @ (''agentfab-'' @ so_agentName s) # es
    | TierOther _ \<Rightarrow> \<exists>es. path_elems k = path_elems (sl_SharedRoot (so_layout s)) @ es) \<and>
    (case op of OpDelete tier path kept \<Rightarrow> tier = TierScratch | _ \<Rightarrow> True)"
proof -
  let ?l = "so_layout s" and ?n = "so_agentName s"
  note ch = changed_key [OF assms(1)]
  obtain full where full: "fullPath s (op_tier op) (op_path op) = Inr full"
      "k = full \<or> below full k \<and> k \<in> set (mkeys fs) \<and> op_tier op = TierScratch"
    using ch(2) by blast
  have one: "path_elems (path_join2 base e) = path_elems base @ [e]" "is_abs (path_join2 base e)"
    if "is_abs base" "plain e" for base e
    using that elems_join [OF that(1), of e] split_on_no_sep [of slash e] fold_clean_plain [of "[e]" True]
    by (simp_all add: plain_def)
  have plains: "plain ?n" "plain (''agentfab-'' @ ?n)"
    using assms(3,4) by (simp_all add: plain_def slash_def)
  have abs: "is_abs (tierPath s (op_tier op))"
    using assms(5-7) one(2) plains by (cases "op_tier op") (auto simp: tierPath_def)
  note fp = fullPath_below [OF full(1) abs]
  have below: "\<exists>es. path_elems k = path_elems (tierPath s (op_tier op)) @ es"
  proof (cases "k = full")
    case False
    then have "\<exists>es. path_elems k = path_elems full @ es"
      using full(2) below_elems [OF fp(3), of k] assms(2) by (auto simp: clean_files_def)
    then show ?thesis using fp(1) by auto
  qed (use fp(1) in simp)
  have shared: "\<exists>es. path_elems k = path_elems (sl_SharedRoot ?l) @ es \<and> shared_area ?n es"
    if t: "op_tier op = TierShared"
  proof -
    have "k = path_join2 (sl_SharedRoot ?l) (op_path op)" using full(2) fp(2) t by (simp add: tierPath_def)
    then show ?thesis
      using join_below [OF assms(5), of "op_path op"] scope_area [of s "op_path op"] ch(1) assms(3) t by auto
  qed
  show ?thesis
  proof
    show "case op of OpDelete tier path kept \<Rightarrow> tier = TierScratch | _ \<Rightarrow> True" by (rule ch(3))
    show "case op_tier op of
      TierShared \<Rightarrow> \<exists>es. path_elems k = path_elems (sl_SharedRoot ?l) @ es \<and> shared_area ?n es
    | TierAgent \<Rightarrow> \<exists>es. path_elems k = path_elems (sl_AgentRoot ?l) @ ?n # es
    | TierScratch \<Rightarrow> \<exists>es. path_elems k = path_elems (sl_ScratchRoot ?l) @ (''agentfab-'' @ ?n) # es
    | TierOther _ \<Rightarrow> \<exists>es. path_elems k = path_elems (sl_SharedRoot ?l) @ es"
      using below shared one(1) [OF assms(6) plains(1)] one(1) [OF assms(7) plains(2)]
      by (cases "op_tier op") (auto simp: tierPath_def)
  qed
qed

definition demo_storage :: Storage where
  "demo_storage = \<lparr>so_agentName = ''dev'',
     so_layout = \<lparr>sl_SharedRoot = ''/d/shared'', sl_AgentRoot = ''/d/agents'', sl_ScratchRoot = ''/tmp''\<rparr>\<rparr>"

theorem storage_confined_witness:
  "(\<exists>es. path_elems ''/d/shared/artifacts/dev/a.go'' = path_elems ''/d/shared'' @ es \<and> shared_area ''dev'' es) \<and>
   snd (run_op demo_storage (OpWrite TierShared ''artifacts/dev/../qa/a.go'' ''x'' WriteOK) []) =
     Some (CannotWriteShared ''dev'' ''artifacts/dev/../qa/a.go'')"
proof
  let ?op = "OpWrite TierShared ''artifacts//dev/./x/../a.go'' ''x'' WriteOK"
  have "mget (fst (run_op demo_storage ?op [])) ''/d/shared/artifacts/dev/a.go'' \<noteq> mget [] ''/d/shared/artifacts/dev/a.go''"
    by code_simp
  moreover have "clean_files []" "slash \<notin> set (so_agentName demo_storage)"
      "so_agentName demo_storage \<notin> {'''', ''.'', ''..''}" "is_abs (sl_SharedRoot (so_layout demo_storage))"
      "is_abs (sl_AgentRoot (so_layout demo_storage))" "is_abs (sl_ScratchRoot (so_layout demo_storage))"
    by code_simp+
  ultimately show "\<exists>es. path_elems ''/d/shared/artifacts/dev/a.go'' = path_elems ''/d/shared'' @ es \<and> shared_area ''dev'' es"
    using storage_confined [of demo_storage ?op "[]" "''/d/shared/artifacts/dev/a.go''"]
    by (simp add: demo_storage_def)
  show "snd (run_op demo_storage (OpWrite TierShared ''artifacts/dev/../qa/a.go'' ''x'' WriteOK) []) =
     Some (CannotWriteShared ''dev'' ''artifacts/dev/../qa/a.go'')" by code_simp
qed

end
