(* ===== verification/Knowledge.thy ===== *)
theory Knowledge
  imports GoStrings Membership Complex_Main
begin

text \<open>
  The knowledge graph (internal/knowledge: types.go, graph.go, prune.go): nodes by ID, edges between
  IDs, merging of what a task learnt, the queries for decisions, and pruning. A confidence is a
  \<open>float64\<close>, read as the rational number it is; only comparisons are made with it. A graph is a value here: the code
  mutates it in place and no two graphs share a node. The readings of the clock that one operation makes
  are taken as one reading \<open>now\<close>. Go ranges over a map in any order; the model takes the order of the
  association list.
\<close>

section \<open>Types (types.go)\<close>

record KNode =
  kn_ID :: string
  kn_Agent :: string
  kn_Title :: string
  kn_FilePath :: string
  kn_Tags :: "string list"
  kn_RequestID :: string
  kn_RequestName :: string
  kn_CreatedAt :: time
  kn_UpdatedAt :: time
  kn_Summary :: string
  kn_Confidence :: rat
  kn_Source :: string
  kn_TTLDays :: int
  kn_Hits :: int
  kn_LastHitAt :: time

record Edge =
  ed_From :: string
  ed_To :: string
  ed_Relation :: string

record Graph =
  kg_Version :: int
  kg_UpdatedAt :: time
  kg_Nodes :: "(string, KNode) gomap"
  kg_Edges :: "Edge list"

record ManifestNode =
  mf_ID :: string
  mf_Agent :: string
  mf_Title :: string
  mf_Summary :: string
  mf_Content :: string
  mf_Tags :: "string list"
  mf_Confidence :: rat
  mf_Source :: string
  mf_TTLDays :: int

record Manifest =
  mf_Nodes :: "ManifestNode list"
  mf_Edges :: "Edge list"

record PruneOpts =
  po_ConfidenceFloor :: rat
  po_MaxNodes :: int

record ColdStorageOpts =
  co_MinHits :: int
  co_ColdDays :: int
  co_RetentionDays :: int

text \<open>The doubles nearest to 0.2 and 0.8.\<close>

definition float_02 :: rat where "float_02 = 3602879701896397 / 18014398509481984"
definition float_08 :: rat where "float_08 = 3602879701896397 / 4503599627370496"

definition confidenceFloor :: "PruneOpts \<Rightarrow> rat" where
  "confidenceFloor o' = (if po_ConfidenceFloor o' \<le> 0 then float_02 else po_ConfidenceFloor o')"

definition maxNodes :: "PruneOpts \<Rightarrow> nat" where
  "maxNodes o' = nat (if po_MaxNodes o' \<le> 0 then 200 else po_MaxNodes o')"

definition minHits :: "ColdStorageOpts \<Rightarrow> int" where
  "minHits o' = (if co_MinHits o' \<le> 0 then 3 else co_MinHits o')"

definition coldDays :: "ColdStorageOpts \<Rightarrow> int" where
  "coldDays o' = (if co_ColdDays o' \<le> 0 then 30 else co_ColdDays o')"

definition retentionDays :: "ColdStorageOpts \<Rightarrow> int" where
  "retentionDays o' = (if co_RetentionDays o' \<le> 0 then 1095 else co_RetentionDays o')"

text \<open>\<open>time.Duration(days)*24*time.Hour\<close>: the product wraps around at 64 bits.\<close>

definition days :: "int \<Rightarrow> int" where
  "days d = signed_take_bit 63 (signed_take_bit 63 (d * 24) * 3600000000000)"

definition IsStale :: "time \<Rightarrow> KNode \<Rightarrow> bool" where
  "IsStale now n =
     (if kn_TTLDays n \<le> 0 then False else time_sub now (kn_UpdatedAt n) > days (kn_TTLDays n))"

definition IsCold :: "time \<Rightarrow> int \<Rightarrow> int \<Rightarrow> KNode \<Rightarrow> bool" where
  "IsCold now min_hits cold_days n =
     (if kn_Hits n \<ge> min_hits then False
      else
        (let threshold = days cold_days
         in if kn_LastHitAt n \<noteq> 0 then time_sub now (kn_LastHitAt n) > threshold
            else time_sub now (kn_CreatedAt n) > threshold))"

definition RecordHit :: "time \<Rightarrow> KNode \<Rightarrow> KNode" where
  "RecordHit now n = n\<lparr>kn_Hits := kn_Hits n + 1, kn_LastHitAt := now\<rparr>"

definition HasTag :: "string \<Rightarrow> KNode \<Rightarrow> bool" where
  "HasTag tag n = list_ex (\<lambda>t. to_lower t = to_lower tag) (kn_Tags n)"

definition DomainTags :: "KNode \<Rightarrow> string list" where
  "DomainTags n = filter (\<lambda>t. t \<noteq> ''decision'') (map to_lower (kn_Tags n))"

section \<open>The graph (graph.go)\<close>

definition NewGraph :: Graph where
  "NewGraph = \<lparr>kg_Version = 1, kg_UpdatedAt = 0, kg_Nodes = [], kg_Edges = []\<rparr>"

definition FindByTagAndSummary :: "string \<Rightarrow> string \<Rightarrow> Graph \<Rightarrow> string" where
  "FindByTagAndSummary tag summary g =
     (case find (\<lambda>(k, n). kn_Summary n = summary \<and> HasTag tag n) (kg_Nodes g) of
        None \<Rightarrow> '''' | Some (k, n) \<Rightarrow> k)"

definition doc_path :: "string \<Rightarrow> string" where
  "doc_path k =
     (let slug = (case index_of k ''/'' of None \<Rightarrow> k | Some i \<Rightarrow> drop (Suc i) k)
      in ''docs/'' @ slug @ ''.md'')"

definition merge_node :: "time \<Rightarrow> string \<Rightarrow> string \<Rightarrow> ManifestNode \<Rightarrow> (string, KNode) gomap \<Rightarrow> (string, KNode) gomap" where
  "merge_node now requestID requestName node ns =
     (case mget ns (mf_ID node) of
        Some e \<Rightarrow>
          (let e1 = e\<lparr>kn_Title := mf_Title node, kn_Summary := mf_Summary node, kn_Tags := mf_Tags node,
                 kn_FilePath := doc_path (mf_ID node), kn_RequestID := requestID,
                 kn_RequestName := requestName, kn_UpdatedAt := now\<rparr>;
               e2 = (if mf_Confidence node > kn_Confidence e1 \<or> kn_Confidence e1 = 0
                     then e1\<lparr>kn_Confidence := mf_Confidence node\<rparr> else e1);
               e3 = (if mf_Source node \<noteq> '''' then e2\<lparr>kn_Source := mf_Source node\<rparr> else e2);
               e4 = (if mf_TTLDays node > 0 then e3\<lparr>kn_TTLDays := mf_TTLDays node\<rparr> else e3)
           in mput (mf_ID node) e4 ns)
      | None \<Rightarrow>
          mput (mf_ID node)
            \<lparr>kn_ID = mf_ID node, kn_Agent = mf_Agent node, kn_Title = mf_Title node,
             kn_FilePath = doc_path (mf_ID node), kn_Tags = mf_Tags node, kn_RequestID = requestID,
             kn_RequestName = requestName, kn_CreatedAt = now, kn_UpdatedAt = now,
             kn_Summary = mf_Summary node, kn_Confidence = mf_Confidence node, kn_Source = mf_Source node,
             kn_TTLDays = mf_TTLDays node, kn_Hits = 0, kn_LastHitAt = 0\<rparr> ns)"

definition edgeKey :: "Edge \<Rightarrow> string" where
  "edgeKey e = ed_From e @ ''|'' @ ed_Relation e @ ''|'' @ ed_To e"

text \<open>The loop over the new edges, with the keys seen.\<close>

fun merge_edges :: "string list \<Rightarrow> Edge list \<Rightarrow> Edge list \<Rightarrow> Edge list" where
  "merge_edges seen [] es = es"
| "merge_edges seen (e # new) es =
     (if edgeKey e \<in> set seen then merge_edges seen new es
      else merge_edges (edgeKey e # seen) new (es @ [e]))"

definition Merge :: "time \<Rightarrow> Manifest \<Rightarrow> string \<Rightarrow> string \<Rightarrow> Graph \<Rightarrow> Graph" where
  "Merge now manifest requestID requestName g =
     g\<lparr>kg_Nodes := foldl (\<lambda>ns node. merge_node now requestID requestName node ns) (kg_Nodes g) (mf_Nodes manifest),
       kg_Edges := merge_edges (map edgeKey (kg_Edges g)) (mf_Edges manifest) (kg_Edges g),
       kg_Version := kg_Version g + 1\<rparr>"

definition IsSuperseded :: "time \<Rightarrow> Graph \<Rightarrow> string \<Rightarrow> bool" where
  "IsSuperseded now g nodeID =
     list_ex (\<lambda>e. ed_To e = nodeID \<and> ed_Relation e = ''supersedes'' \<and>
       (case mget (kg_Nodes g) (ed_From e) of None \<Rightarrow> False | Some n \<Rightarrow> \<not> IsStale now n)) (kg_Edges g)"

text \<open>The test that begins every query: the node is neither stale nor superseded.\<close>

definition active :: "time \<Rightarrow> Graph \<Rightarrow> string \<Rightarrow> KNode \<Rightarrow> bool" where
  "active now g k n = (\<not> (IsStale now n \<or> IsSuperseded now g k))"

definition ActiveDecisions :: "time \<Rightarrow> Graph \<Rightarrow> KNode list" where
  "ActiveDecisions now g =
     sort_slice (\<lambda>a b. kn_UpdatedAt a > kn_UpdatedAt b)
       (map snd (filter (\<lambda>(k, n). active now g k n \<and> HasTag ''decision'' n) (kg_Nodes g)))"

definition RecentUserRequests :: "time \<Rightarrow> int \<Rightarrow> Graph \<Rightarrow> KNode list" where
  "RecentUserRequests now cap g =
     (let requests = sort_slice (\<lambda>a b. kn_UpdatedAt a > kn_UpdatedAt b)
            (map snd (filter (\<lambda>(k, n). active now g k n \<and> HasTag ''user-request'' n) (kg_Nodes g)))
      in if cap > 0 \<and> int (length requests) > cap then take (nat cap) requests else requests)"

definition Query :: "string list \<Rightarrow> Graph \<Rightarrow> KNode list" where
  "Query agents g = filter (\<lambda>n. kn_Agent n \<in> set agents) (mvals (kg_Nodes g))"

definition node_line :: "KNode \<Rightarrow> string" where
  "node_line n =
     ''- '' @ kn_ID n @ '': '' @ kn_Title n @
     (if kn_Tags n \<noteq> [] then '' ['' @ join '', '' (kn_Tags n) @ '']'' else '''') @
     (if kn_RequestName n \<noteq> '''' then '' (from request: '' @ quote (kn_RequestName n) @ '')'' else '''') @
     newline @
     (if kn_Summary n \<noteq> '''' then ''  Summary: '' @ kn_Summary n @ newline else '''')"

definition Graph_Summary :: "Graph \<Rightarrow> string" where
  "Graph_Summary g =
     (if kg_Nodes g = [] then ''''
      else ''Existing knowledge nodes:'' @ newline @ concat (map node_line (mvals (kg_Nodes g))))"

section \<open>Conflicting decisions\<close>

record DecisionConflict =
  dc_Tag :: string
  dc_NodeA :: string
  dc_NodeB :: string
  dc_AgentA :: string
  dc_AgentB :: string

definition decisions :: "time \<Rightarrow> Graph \<Rightarrow> (string \<times> KNode) list" where
  "decisions now g = filter (\<lambda>(k, n). active now g k n \<and> HasTag ''decision'' n) (kg_Nodes g)"

text \<open>\<open>tagToNodes\<close>: an entry is appended once for every occurrence of the tag in its list.\<close>

definition tag_nodes :: "(string \<times> KNode) list \<Rightarrow> (string, (string \<times> KNode) list) gomap" where
  "tag_nodes ds =
     foldl (\<lambda>m (tag, d). mput tag (mget0 [] m tag @ [d]) m) []
       (concat (map (\<lambda>d. map (\<lambda>tag. (tag, d)) (DomainTags (snd d))) ds))"

fun pairs :: "'a list \<Rightarrow> ('a \<times> 'a) list" where
  "pairs [] = []"
| "pairs (x # xs) = map (Pair x) xs @ pairs xs"

definition conflict_step :: "string \<Rightarrow> (string \<times> KNode) \<times> (string \<times> KNode) \<Rightarrow>
    DecisionConflict list \<times> string list \<Rightarrow> DecisionConflict list \<times> string list" where
  "conflict_step tag p acc =
     (case (p, acc) of (((i, a), (j, b)), (cs, seen)) \<Rightarrow>
        if i @ ''|'' @ j \<in> set seen then (cs, seen)
        else (cs @ [\<lparr>dc_Tag = tag, dc_NodeA = i, dc_NodeB = j, dc_AgentA = kn_Agent a, dc_AgentB = kn_Agent b\<rparr>],
              (i @ ''|'' @ j) # seen))"

definition DetectDecisionConflicts :: "time \<Rightarrow> Graph \<Rightarrow> DecisionConflict list" where
  "DetectDecisionConflicts now g =
     fst (foldl (\<lambda>acc (tag, entries).
        if length entries < 2 then acc else foldl (\<lambda>acc p. conflict_step tag p acc) acc (pairs entries))
      ([], []) (tag_nodes (decisions now g)))"

section \<open>Pruning (prune.go)\<close>

text \<open>The edges between nodes that are there.\<close>

definition clean_edges :: "(string, KNode) gomap \<Rightarrow> Edge list \<Rightarrow> Edge list" where
  "clean_edges ns es = filter (\<lambda>e. mget ns (ed_From e) \<noteq> None \<and> mget ns (ed_To e) \<noteq> None) es"

text \<open>A loop that deletes the entries that meet a test: the deleted keys and the rest.\<close>

definition evict :: "(KNode \<Rightarrow> bool) \<Rightarrow> (string, KNode) gomap \<Rightarrow> string list \<times> (string, KNode) gomap" where
  "evict p ns = (map fst (filter (\<lambda>(k, n). p n) ns), filter (\<lambda>(k, n). \<not> p n) ns)"

definition Prune :: "time \<Rightarrow> PruneOpts \<Rightarrow> Graph \<Rightarrow> Graph \<times> string list" where
  "Prune now opts g =
     (let (ev1, ns1) = evict (IsStale now) (kg_Nodes g);
          (ev2, ns2) = evict (\<lambda>n. kn_Confidence n > 0 \<and> kn_Confidence n < confidenceFloor opts) ns1;
          (ev3, ns3) =
            (if length ns2 > maxNodes opts then
               (let all = sort_slice (\<lambda>a b. snd a < snd b) (map (\<lambda>(k, n). (k, kn_Confidence n)) ns2);
                    out = map fst (take (length ns2 - maxNodes opts) all)
                in (out, filter (\<lambda>(k, n). k \<notin> set out) ns2))
             else ([], ns2));
          evicted = ev1 @ ev2 @ ev3
      in (g\<lparr>kg_Nodes := ns3, kg_Edges := (if evicted \<noteq> [] then clean_edges ns3 (kg_Edges g) else kg_Edges g)\<rparr>, evicted))"

section \<open>Well-formed graphs\<close>

definition nodes_wf :: "(string, KNode) gomap \<Rightarrow> bool" where
  "nodes_wf ns = (gowf ns \<and> (\<forall>k n. mget ns k = Some n \<longrightarrow> kn_ID n = k \<and> kn_FilePath n = doc_path k))"

definition graph_wf :: "Graph \<Rightarrow> bool" where
  "graph_wf g = (nodes_wf (kg_Nodes g) \<and> distinct (map edgeKey (kg_Edges g)))"

lemma nodes_wf_merge_node: "nodes_wf ns \<Longrightarrow> nodes_wf (merge_node now r rn m ns)"
  unfolding nodes_wf_def merge_node_def Let_def
  by (auto simp del: map_of_eq_Some_iff split: option.split)

lemma nodes_wf_merge_nodes: "nodes_wf ns \<Longrightarrow> nodes_wf (foldl (\<lambda>ns m. merge_node now r rn m ns) ns ms)"
  by (induction ms arbitrary: ns) (simp_all add: nodes_wf_merge_node)

lemma distinct_merge_edges:
  "distinct (map edgeKey es) \<Longrightarrow> set (map edgeKey es) \<subseteq> set seen \<Longrightarrow>
     distinct (map edgeKey (merge_edges seen new es))"
  by (induction seen new es rule: merge_edges.induct) auto

lemma graph_wf_Merge: "graph_wf g \<Longrightarrow> graph_wf (Merge now m r rn g)"
  by (simp add: graph_wf_def Merge_def nodes_wf_merge_nodes distinct_merge_edges)

lemma mget_filter:
  "gowf ns \<Longrightarrow> mget (filter p ns) k =
     (case mget ns k of None \<Rightarrow> None | Some n \<Rightarrow> if p (k, n) then Some n else None)"
proof (induction ns)
  case (Cons x ns)
  have n: "mget ns (fst x) = None" using Cons.prems by (simp add: map_of_eq_None_iff)
  obtain a b where x: "x = (a, b)" by fastforce
  show ?case using Cons n by (cases "a = k") (auto simp: x simp del: map_of_eq_Some_iff)
qed simp

lemma gowf_filter [simp]: "gowf ns \<Longrightarrow> gowf (filter p ns)"
  by (simp add: distinct_map_filter)

lemma nodes_wf_filter: "nodes_wf ns \<Longrightarrow> nodes_wf (filter p ns)"
  unfolding nodes_wf_def
  by (auto simp: mget_filter simp del: map_of_eq_Some_iff split: option.split_asm if_split_asm)

lemma distinct_map_filter_edges: "distinct (map edgeKey es) \<Longrightarrow> distinct (map edgeKey (filter p es))"
  by (rule distinct_map_filter)

section \<open>What pruning keeps\<close>

definition kept_quality :: "time \<Rightarrow> PruneOpts \<Rightarrow> KNode \<Rightarrow> bool" where
  "kept_quality now opts n =
     (\<not> IsStale now n \<and> \<not> (kn_Confidence n > 0 \<and> kn_Confidence n < confidenceFloor opts))"

text \<open>The nodes the first two loops leave, by key.\<close>

definition quality_nodes :: "time \<Rightarrow> PruneOpts \<Rightarrow> Graph \<Rightarrow> (string, KNode) gomap" where
  "quality_nodes now opts g = filter (\<lambda>(k, n). kept_quality now opts n) (kg_Nodes g)"

text \<open>The keys that the cap removes.\<close>

definition over_cap :: "time \<Rightarrow> PruneOpts \<Rightarrow> Graph \<Rightarrow> string list" where
  "over_cap now opts g =
     (let ns = quality_nodes now opts g
      in if length ns > maxNodes opts then
           map fst (take (length ns - maxNodes opts)
             (sort_slice (\<lambda>a b. snd a < snd b) (map (\<lambda>(k, n). (k, kn_Confidence n)) ns)))
         else [])"

lemma Prune_unfold:
  "kg_Nodes (fst (Prune now opts g)) = filter (\<lambda>(k, n). k \<notin> set (over_cap now opts g)) (quality_nodes now opts g)"
  "snd (Prune now opts g) =
     map fst (filter (\<lambda>(k, n). IsStale now n) (kg_Nodes g)) @
     map fst (filter (\<lambda>(k, n). \<not> IsStale now n \<and> kn_Confidence n > 0 \<and> kn_Confidence n < confidenceFloor opts) (kg_Nodes g)) @
     over_cap now opts g"
  "kg_Edges (fst (Prune now opts g)) =
     (if snd (Prune now opts g) \<noteq> [] then clean_edges (kg_Nodes (fst (Prune now opts g))) (kg_Edges g) else kg_Edges g)"
proof -
  have q: "snd (evict (\<lambda>n. kn_Confidence n > 0 \<and> kn_Confidence n < confidenceFloor opts)
      (snd (evict (IsStale now) (kg_Nodes g)))) = quality_nodes now opts g"
    by (auto simp: evict_def quality_nodes_def kept_quality_def split_beta intro: filter_cong)
  have e: "fst (evict (IsStale now) (kg_Nodes g)) = map fst (filter (\<lambda>(k, n). IsStale now n) (kg_Nodes g))"
    "fst (evict (\<lambda>n. kn_Confidence n > 0 \<and> kn_Confidence n < confidenceFloor opts)
      (snd (evict (IsStale now) (kg_Nodes g)))) =
     map fst (filter (\<lambda>(k, n). \<not> IsStale now n \<and> kn_Confidence n > 0 \<and> kn_Confidence n < confidenceFloor opts) (kg_Nodes g))"
    by (simp_all add: evict_def) (rule arg_cong [of _ _ "map fst"], rule filter_cong [OF refl], auto)
  have n: "kg_Nodes (fst (Prune now opts g)) = filter (\<lambda>(k, n). k \<notin> set (over_cap now opts g)) (quality_nodes now opts g)"
    unfolding Prune_def by (simp add: split_beta q over_cap_def Let_def)
  then show "kg_Nodes (fst (Prune now opts g)) = filter (\<lambda>(k, n). k \<notin> set (over_cap now opts g)) (quality_nodes now opts g)" .
  show "kg_Edges (fst (Prune now opts g)) =
     (if snd (Prune now opts g) \<noteq> [] then clean_edges (kg_Nodes (fst (Prune now opts g))) (kg_Edges g) else kg_Edges g)"
    unfolding Prune_def by (simp add: Let_def split_beta)
  show "snd (Prune now opts g) =
     map fst (filter (\<lambda>(k, n). IsStale now n) (kg_Nodes g)) @
     map fst (filter (\<lambda>(k, n). \<not> IsStale now n \<and> kn_Confidence n > 0 \<and> kn_Confidence n < confidenceFloor opts) (kg_Nodes g)) @
     over_cap now opts g"
    unfolding Prune_def e(1) [symmetric] e(2) [symmetric] by (simp add: split_beta q over_cap_def Let_def)
qed

lemma graph_wf_Prune: "graph_wf g \<Longrightarrow> graph_wf (fst (Prune now opts g))"
  unfolding graph_wf_def
  by (auto simp: Prune_unfold quality_nodes_def clean_edges_def intro!: nodes_wf_filter distinct_map_filter_edges)

lemma over_cap_split:
  assumes "gowf (kg_Nodes g)" and ns_def: "ns = quality_nodes now opts g"
  shows "distinct (over_cap now opts g)" "set (over_cap now opts g) \<subseteq> set (mkeys ns)"
    "length (over_cap now opts g) = length ns - maxNodes opts"
    "k \<in> set (over_cap now opts g) \<Longrightarrow> k' \<in> set (mkeys ns) - set (over_cap now opts g) \<Longrightarrow>
       mget ns k = Some n \<Longrightarrow> mget ns k' = Some n' \<Longrightarrow> kn_Confidence n \<le> kn_Confidence n'"
proof -
  define xs where "xs = map (\<lambda>(k, n). (k, kn_Confidence n)) ns"
  define srt where "srt = sort_slice (\<lambda>a b. snd a < snd b) xs"
  have gw: "gowf ns" using assms(1) by (simp add: ns_def quality_nodes_def)
  have len: "length srt = length ns" by (simp add: srt_def xs_def)
  have keys: "map fst xs = mkeys ns" by (simp add: xs_def split_beta comp_def)
  have dst: "distinct (map fst srt)" unfolding srt_def by (simp add: keys gw)
  have oc: "over_cap now opts g = map fst (take (length ns - maxNodes opts) srt)"
    by (simp add: over_cap_def Let_def ns_def [symmetric] srt_def xs_def)
  have mem: "(k, kn_Confidence n) \<in> set srt \<longleftrightarrow> (k, kn_Confidence n) \<in> set xs" for k n
    by (simp add: srt_def)
  have inxs: "(k, kn_Confidence n) \<in> set srt" if "mget ns k = Some n" for k n
    using map_of_SomeD [OF that] unfolding mem by (force simp: xs_def)
  show "distinct (over_cap now opts g)"
    unfolding oc using dst by (metis distinct_take take_map)
  have "set (over_cap now opts g) \<subseteq> fst ` set srt" unfolding oc by (auto dest: in_set_takeD)
  also have "\<dots> = set (mkeys ns)" using arg_cong [OF keys, of set] by (simp add: srt_def)
  finally show "set (over_cap now opts g) \<subseteq> set (mkeys ns)" .
  show "length (over_cap now opts g) = length ns - maxNodes opts" unfolding oc by (simp add: len)
  assume k: "k \<in> set (over_cap now opts g)" and k': "k' \<in> set (mkeys ns) - set (over_cap now opts g)"
    and n: "mget ns k = Some n" "mget ns k' = Some n'"
  let ?m = "length ns - maxNodes opts"
  have "(k, kn_Confidence n) \<in> set (take ?m srt)"
  proof -
    obtain c where c: "(k, c) \<in> set (take ?m srt)" using k unfolding oc by auto
    then have "(k, c) \<in> set srt" by (rule in_set_takeD)
    then have "c = kn_Confidence n" using inxs [OF n(1)] dst by (meson eq_key_imp_eq_value)
    then show ?thesis using c by simp
  qed
  moreover have "(k', kn_Confidence n') \<in> set (drop ?m srt)"
  proof -
    have "(k', kn_Confidence n') \<in> set (take ?m srt @ drop ?m srt)" using inxs [OF n(2)] by simp
    moreover have "(k', kn_Confidence n') \<notin> set (take ?m srt)" using k' unfolding oc by force
    ultimately show ?thesis unfolding set_append by blast
  qed
  moreover have "sorted_wrt (\<lambda>x y. \<not> snd y < snd x) (take ?m srt @ drop ?m srt)"
    using by_key.sorted_sort_slice [of snd xs] by (simp add: srt_def)
  ultimately show "kn_Confidence n \<le> kn_Confidence n'"
    unfolding sorted_wrt_append by fastforce
qed

lemma in_filter_keys:
  assumes "gowf ns"
  shows "k \<in> set (map fst (filter (\<lambda>(k, n). p n) ns)) \<longleftrightarrow> (\<exists>n. mget ns k = Some n \<and> p n)"
  using assms by (auto simp: image_iff split_beta)

section \<open>Properties\<close>

text \<open>
  What pruning keeps. A node survives only if it is not stale and its confidence is unset or
  at least the floor; at most the configured number of nodes survive; if those of sufficient quality are
  within that number all of them survive, and otherwise exactly that many do, none with a lower
  confidence than one that was removed. The returned IDs are those removed, each once, and when there
  are any the edges left are those between survivors.
\<close>

theorem prune_keeps_best:
  assumes "graph_wf g" "Prune now opts g = (g', evicted)"
  defines "good \<equiv> {k. \<exists>n. mget (kg_Nodes g) k = Some n \<and> kept_quality now opts n}"
  shows "(\<forall>k n. mget (kg_Nodes g') k = Some n \<longrightarrow> mget (kg_Nodes g) k = Some n \<and> k \<in> good) \<and>
    card (set (mkeys (kg_Nodes g'))) = min (card good) (maxNodes opts) \<and>
    (\<forall>k k' n n'. k \<in> good \<longrightarrow> mget (kg_Nodes g) k = Some n \<longrightarrow> mget (kg_Nodes g') k = None \<longrightarrow>
       mget (kg_Nodes g') k' = Some n' \<longrightarrow> kn_Confidence n \<le> kn_Confidence n') \<and>
    distinct evicted \<and> set evicted = set (mkeys (kg_Nodes g)) - set (mkeys (kg_Nodes g')) \<and>
    kg_Edges g' = (if evicted = [] then kg_Edges g
      else filter (\<lambda>e. mget (kg_Nodes g') (ed_From e) \<noteq> None \<and> mget (kg_Nodes g') (ed_To e) \<noteq> None) (kg_Edges g))"
proof -
  let ?ns = "kg_Nodes g" and ?qs = "quality_nodes now opts g" and ?oc = "over_cap now opts g"
  have gw: "gowf ?ns" using assms(1) by (simp add: graph_wf_def nodes_wf_def)
  then have gq: "gowf ?qs" by (simp add: quality_nodes_def)
  note oc = over_cap_split [OF gw, where now = now and opts = opts, OF refl]
  have g': "kg_Nodes g' = filter (\<lambda>(k, n). k \<notin> set ?oc) ?qs" using Prune_unfold(1) [of now opts g] assms(2) by simp
  have ev: "evicted = map fst (filter (\<lambda>(k, n). IsStale now n) ?ns) @
      map fst (filter (\<lambda>(k, n). \<not> IsStale now n \<and> kn_Confidence n > 0 \<and> kn_Confidence n < confidenceFloor opts) ?ns) @ ?oc"
    using Prune_unfold(2) [of now opts g] assms(2) by simp
  have mq: "mget ?qs k = Some n \<longleftrightarrow> mget ?ns k = Some n \<and> kept_quality now opts n" for k n
    by (simp add: quality_nodes_def mget_filter [OF gw] del: map_of_eq_Some_iff split: option.split) blast
  have mg: "mget (kg_Nodes g') k = Some n \<longleftrightarrow> mget ?qs k = Some n \<and> k \<notin> set ?oc" for k n
    by (simp add: g' mget_filter [OF gq] del: map_of_eq_Some_iff split: option.split)
  have good: "good = set (mkeys ?qs)"
  proof -
    have "good = dom (mget ?qs)" by (auto simp: good_def dom_def mq simp del: map_of_eq_Some_iff)
    then show ?thesis by (simp add: dom_map_of_conv_image_fst)
  qed
  have keys': "set (mkeys (kg_Nodes g')) = set (mkeys ?qs) - set ?oc" by (auto simp: g')
  have "card (set (mkeys ?qs)) = length ?qs" using gq by (metis distinct_card length_map)
  moreover have "card (set ?oc) = length ?qs - maxNodes opts" using oc(1,3) by (simp add: distinct_card)
  ultimately have card: "card (set (mkeys (kg_Nodes g'))) = min (card good) (maxNodes opts)"
    using oc(2) unfolding keys' good by (simp add: card_Diff_subset)
  have sub: "\<forall>k n. mget (kg_Nodes g') k = Some n \<longrightarrow> mget ?ns k = Some n \<and> k \<in> good"
    using mg mq by (auto simp: good_def simp del: map_of_eq_Some_iff)
  have best: "kn_Confidence n \<le> kn_Confidence n'" if "k \<in> good" "mget ?ns k = Some n"
      "mget (kg_Nodes g') k = None" "mget (kg_Nodes g') k' = Some n'" for k k' n n'
  proof -
    have k: "mget ?qs k = Some n" using that(1,2) mq by (auto simp: good_def simp del: map_of_eq_Some_iff)
    moreover have "k \<in> set ?oc" using k that(3) mg by (metis option.discI)
    moreover have "mget ?qs k' = Some n'" "k' \<notin> set ?oc" using that(4) mg by blast+
    moreover have "k' \<in> set (mkeys ?qs)" using map_of_SomeD [OF calculation(3)] by force
    ultimately show ?thesis using oc(4) by blast
  qed
  have dst: "distinct evicted"
  proof -
    have "distinct (map fst (filter p ?ns))" for p using gw by (rule distinct_map_filter)
    moreover have "k \<in> set ?oc \<Longrightarrow> mget ?ns k = Some n \<Longrightarrow> kept_quality now opts n" for k n
      using oc(2) in_filter_keys [OF gw, of k "kept_quality now opts"] by (auto simp: quality_nodes_def simp del: map_of_eq_Some_iff)
    ultimately show ?thesis
      unfolding ev distinct_append using oc(1)
      by (auto simp: in_filter_keys [OF gw] kept_quality_def simp del: set_map map_of_eq_Some_iff)
  qed
  have sete: "set evicted = set (mkeys ?ns) - set (mkeys (kg_Nodes g'))"
  proof -
    have "k \<in> set (mkeys ?ns) \<longleftrightarrow> (\<exists>n. mget ?ns k = Some n)" for k
      using in_filter_keys [OF gw, of k "\<lambda>_. True"] by simp
    moreover have "k \<in> set (mkeys ?qs) \<longleftrightarrow> (\<exists>n. mget ?ns k = Some n \<and> kept_quality now opts n)" for k
      unfolding quality_nodes_def by (rule in_filter_keys [OF gw])
    ultimately have "k \<in> set evicted \<longleftrightarrow> k \<in> set (mkeys ?ns) \<and> k \<notin> set (mkeys ?qs) \<or> k \<in> set ?oc" for k
      unfolding ev set_append Un_iff in_filter_keys [OF gw] kept_quality_def by auto
    moreover have "set (mkeys ?qs) \<subseteq> set (mkeys ?ns)" by (auto simp: quality_nodes_def)
    ultimately show ?thesis using oc(2) unfolding keys' by blast
  qed
  have edges: "kg_Edges g' = (if evicted = [] then kg_Edges g
      else filter (\<lambda>e. mget (kg_Nodes g') (ed_From e) \<noteq> None \<and> mget (kg_Nodes g') (ed_To e) \<noteq> None) (kg_Edges g))"
    using Prune_unfold(3) [of now opts g] assms(2) by (simp add: clean_edges_def)
  show ?thesis
    using sub card best dst sete edges by blast
qed

definition demo_knode :: "string \<Rightarrow> rat \<Rightarrow> KNode" where
  "demo_knode k c = \<lparr>kn_ID = k, kn_Agent = ''dev'', kn_Title = '''', kn_FilePath = doc_path k, kn_Tags = [],
     kn_RequestID = '''', kn_RequestName = '''', kn_CreatedAt = 1, kn_UpdatedAt = 1, kn_Summary = '''',
     kn_Confidence = c, kn_Source = '''', kn_TTLDays = 0, kn_Hits = 0, kn_LastHitAt = 0\<rparr>"

definition demo_graph :: Graph where
  "demo_graph = \<lparr>kg_Version = 1, kg_UpdatedAt = 0,
     kg_Nodes = [(''a'', demo_knode ''a'' (1/2)), (''b'', demo_knode ''b'' (1/10)), (''c'', demo_knode ''c'' (3/4))],
     kg_Edges = [\<lparr>ed_From = ''a'', ed_To = ''c'', ed_Relation = ''refines''\<rparr>]\<rparr>"

theorem prune_keeps_best_witness:
  "set (snd (Prune 5 \<lparr>po_ConfidenceFloor = 0, po_MaxNodes = 1\<rparr> demo_graph)) = {''a'', ''b''} \<and>
   card (set (mkeys (kg_Nodes (fst (Prune 5 \<lparr>po_ConfidenceFloor = 0, po_MaxNodes = 1\<rparr> demo_graph))))) = 1"
proof -
  let ?o = "\<lparr>po_ConfidenceFloor = 0, po_MaxNodes = 1\<rparr>"
  obtain g' ev where p: "Prune 5 ?o demo_graph = (g', ev)" by fastforce
  have wf: "graph_wf demo_graph"
    by (simp add: graph_wf_def nodes_wf_def demo_graph_def demo_knode_def)
  have "kg_Nodes g' = [(''c'', demo_knode ''c'' (3/4))]"
    using Prune_unfold(1) [of 5 ?o demo_graph] p
    by (simp add: over_cap_def quality_nodes_def demo_graph_def demo_knode_def kept_quality_def IsStale_def
        confidenceFloor_def float_02_def maxNodes_def Let_def)
  moreover have "set ev = set (mkeys (kg_Nodes demo_graph)) - set (mkeys (kg_Nodes g'))"
    using prune_keeps_best [OF wf p] by blast
  ultimately show ?thesis using p by (simp add: demo_graph_def insert_Diff_if)
qed

end
