(* ===== verification/KnowledgeCold.thy ===== *)
theory KnowledgeCold
  imports Knowledge
begin

text \<open>
  Cold storage and curation (internal/knowledge: cold.go, curate.go): moving rarely used nodes out of
  the active graph and back, purging old ones, checking and swapping in a curated graph. The file of the
  cold graph is \<open>cold_file\<close> (\<open>None\<close> when it does not exist), the documents are a map from paths to texts, and
  the outcomes of the storage calls are the argument \<open>io\<close>: errors when copying documents are ignored, as in the code.
\<close>

record cold_io =
  ci_load :: bool
  ci_save :: bool
  ci_write :: "string \<Rightarrow> bool"

record cold_world =
  cw_file :: "Graph option"
  cw_docs :: "(string, string) gomap"

datatype cold_error = ColdLoadError | ColdSaveError | NilGraph

definition copy_doc :: "cold_io \<Rightarrow> string \<Rightarrow> string \<Rightarrow> (string, string) gomap \<Rightarrow> (string, string) gomap" where
  "copy_doc io src dst docs =
     (case mget docs src of
        None \<Rightarrow> docs
      | Some data \<Rightarrow> if ci_write io dst then mput dst data docs else docs)"

definition cold_path :: "string \<Rightarrow> string" where
  "cold_path p = ''cold_storage/'' @ p"

section \<open>Moving to cold storage (cold.go)\<close>

text \<open>\<open>LoadCold\<close>: the graph in the file; its callers take an empty one when there is no file.\<close>

definition stored_cold :: "cold_world \<Rightarrow> Graph" where
  "stored_cold w = (case cw_file w of None \<Rightarrow> NewGraph | Some g \<Rightarrow> g)"

definition purgeColdExpired :: "time \<Rightarrow> int \<Rightarrow> Graph \<Rightarrow> Graph \<times> nat" where
  "purgeColdExpired now retention_days g =
     (if retention_days \<le> 0 then (g, 0)
      else
        (let (purged, ns) = evict (\<lambda>n. time_sub now (kn_UpdatedAt n) > days retention_days) (kg_Nodes g)
         in (g\<lparr>kg_Nodes := ns,
               kg_Edges := (if purged \<noteq> [] then clean_edges ns (kg_Edges g) else kg_Edges g)\<rparr>, length purged)))"

definition goes_cold :: "time \<Rightarrow> ColdStorageOpts \<Rightarrow> KNode \<Rightarrow> bool" where
  "goes_cold now opts n = (\<not> HasTag ''decision'' n \<and> IsCold now (minHits opts) (coldDays opts) n)"

definition touches :: "string list \<Rightarrow> Edge \<Rightarrow> bool" where
  "touches ids e = (ed_From e \<in> set ids \<or> ed_To e \<in> set ids)"

text \<open>The nodes put into the cold graph, each with a new time of update, and their documents copied.\<close>

definition put_cold :: "time \<Rightarrow> (string \<times> KNode) list \<Rightarrow> (string, KNode) gomap \<Rightarrow> (string, KNode) gomap" where
  "put_cold now ms ns = foldl (\<lambda>ns (k, n). mput k (n\<lparr>kn_UpdatedAt := now\<rparr>) ns) ns ms"

definition copy_cold :: "cold_io \<Rightarrow> (string \<times> KNode) list \<Rightarrow> (string, string) gomap \<Rightarrow> (string, string) gomap" where
  "copy_cold io ms docs =
     foldl (\<lambda>docs (k, n). if kn_FilePath n \<noteq> '''' then copy_doc io (kn_FilePath n) (cold_path (kn_FilePath n)) docs
       else docs) docs ms"

text \<open>The result: the moved IDs, the number purged, and the error; the active graph is changed in place.\<close>

definition MoveToCold :: "time \<Rightarrow> cold_io \<Rightarrow> ColdStorageOpts \<Rightarrow> Graph \<Rightarrow> cold_world \<Rightarrow>
    (Graph \<times> cold_world) \<times> string list \<times> nat \<times> cold_error option" where
  "MoveToCold now io opts act w =
     (if \<not> ci_load io then ((act, w), [], 0, Some ColdLoadError)
      else
        (let cold = stored_cold w;
             ms = filter (\<lambda>(k, n). goes_cold now opts n) (kg_Nodes act);
             moved = map fst ms;
             docs = copy_cold io ms (cw_docs w);
             cold1 = cold\<lparr>kg_Nodes := put_cold now ms (kg_Nodes cold),
               kg_Edges := (if moved \<noteq> [] then kg_Edges cold @ filter (touches moved) (kg_Edges act) else kg_Edges cold)\<rparr>;
             act1 = act\<lparr>kg_Nodes := filter (\<lambda>(k, n). \<not> goes_cold now opts n) (kg_Nodes act),
               kg_Edges := (if moved \<noteq> [] then filter (\<lambda>e. \<not> touches moved e) (kg_Edges act) else kg_Edges act)\<rparr>;
             (cold2, purged) = purgeColdExpired now (retentionDays opts) cold1
         in if ci_save io
            then ((act1, w\<lparr>cw_file := Some (cold2\<lparr>kg_UpdatedAt := now\<rparr>), cw_docs := docs\<rparr>), moved, purged, None)
            else ((act1, w\<lparr>cw_docs := docs\<rparr>), moved, purged, Some ColdSaveError)))"

section \<open>Restoring\<close>

definition restore_doc :: "cold_io \<Rightarrow> KNode \<Rightarrow> (string, string) gomap \<Rightarrow> (string, string) gomap" where
  "restore_doc io n docs =
     (if kn_FilePath n \<noteq> '''' then copy_doc io (cold_path (kn_FilePath n)) (kn_FilePath n) docs else docs)"

fun restore_nodes :: "cold_io \<Rightarrow> string list \<Rightarrow> (string, KNode) gomap \<Rightarrow> (string, KNode) gomap \<Rightarrow>
    (string, string) gomap \<Rightarrow> string list \<Rightarrow>
    (string, KNode) gomap \<times> (string, KNode) gomap \<times> (string, string) gomap \<times> string list" where
  "restore_nodes io [] an cn docs restored = (an, cn, docs, restored)"
| "restore_nodes io (i # ids) an cn docs restored =
     (case mget cn i of
        None \<Rightarrow> restore_nodes io ids an cn docs restored
      | Some n \<Rightarrow>
          restore_nodes io ids (mput i n an) (mdel i cn)
            (restore_doc io n docs) (restored @ [i]))"

definition RestoreFromCold :: "cold_io \<Rightarrow> string list \<Rightarrow> Graph option \<Rightarrow> Graph option \<Rightarrow> (string, string) gomap \<Rightarrow>
    (Graph option \<times> Graph option \<times> (string, string) gomap) \<times> cold_error option" where
  "RestoreFromCold io ids actg coldg docs =
     (case (actg, coldg) of
        (Some act, Some cold) \<Rightarrow>
          (case restore_nodes io ids (kg_Nodes act) (kg_Nodes cold) docs [] of
             (an, cn, docs', restored) \<Rightarrow>
               if restored = [] then ((Some (act\<lparr>kg_Nodes := an\<rparr>), Some (cold\<lparr>kg_Nodes := cn\<rparr>), docs'), None)
               else
                 ((Some (act\<lparr>kg_Nodes := an,
                      kg_Edges := kg_Edges act @ filter (\<lambda>e. touches restored e \<and>
                        mget an (ed_From e) \<noteq> None \<and> mget an (ed_To e) \<noteq> None) (kg_Edges cold)\<rparr>),
                   Some (cold\<lparr>kg_Nodes := cn, kg_Edges := filter (\<lambda>e. \<not> touches restored e) (kg_Edges cold)\<rparr>),
                   docs'), None))
      | _ \<Rightarrow> ((actg, coldg, docs), Some NilGraph))"

section \<open>Curation (curate.go)\<close>

datatype curate_error =
    CurateNil | MoreNodes nat nat | DecisionRemoved string | HighConfidenceRemoved string
  | DanglingFrom string | DanglingTo string

text \<open>The first error; Go's order within each loop over a map is open, the model takes the list's.\<close>

definition ValidateCurated :: "time \<Rightarrow> Graph option \<Rightarrow> Graph option \<Rightarrow> curate_error option" where
  "ValidateCurated now original curated =
     (case (original, curated) of
        (Some o', Some c) \<Rightarrow>
          first_err
            [guard (length (kg_Nodes c) > length (kg_Nodes o')) (MoreNodes (length (kg_Nodes c)) (length (kg_Nodes o'))),
             each (kg_Nodes o') (\<lambda>(k, n). \<not> (\<not> HasTag ''decision'' n \<or> IsStale now n \<or> IsSuperseded now o' k) \<and>
               mget (kg_Nodes c) k = None) (\<lambda>(k, n). DecisionRemoved k),
             each (kg_Nodes o') (\<lambda>(k, n). \<not> (kn_Confidence n < float_08 \<or> IsStale now n \<or> IsSuperseded now o' k) \<and>
               mget (kg_Nodes c) k = None) (\<lambda>(k, n). HighConfidenceRemoved k),
             each (kg_Edges c) (\<lambda>e. mget (kg_Nodes c) (ed_From e) = None \<or> mget (kg_Nodes c) (ed_To e) = None)
               (\<lambda>e. if mget (kg_Nodes c) (ed_From e) = None then DanglingFrom (ed_From e) else DanglingTo (ed_To e))]
      | _ \<Rightarrow> Some CurateNil)"

text \<open>The graph that a manifest of the model stands for; known nodes keep their history.\<close>

definition curated_node :: "Graph \<Rightarrow> ManifestNode \<Rightarrow> KNode" where
  "curated_node g m =
     (let n = \<lparr>kn_ID = mf_ID m, kn_Agent = mf_Agent m, kn_Title = mf_Title m, kn_FilePath = doc_path (mf_ID m),
            kn_Tags = mf_Tags m, kn_RequestID = '''', kn_RequestName = '''', kn_CreatedAt = 0, kn_UpdatedAt = 0,
            kn_Summary = mf_Summary m, kn_Confidence = mf_Confidence m, kn_Source = mf_Source m,
            kn_TTLDays = 0, kn_Hits = 0, kn_LastHitAt = 0\<rparr>
      in case mget (kg_Nodes g) (mf_ID m) of
           None \<Rightarrow> n
         | Some orig \<Rightarrow>
             n\<lparr>kn_Hits := kn_Hits orig, kn_LastHitAt := kn_LastHitAt orig, kn_CreatedAt := kn_CreatedAt orig,
               kn_RequestID := kn_RequestID orig, kn_RequestName := kn_RequestName orig,
               kn_TTLDays := kn_TTLDays orig,
               kn_FilePath := (if kn_FilePath n = '''' then kn_FilePath orig else kn_FilePath n)\<rparr>)"

definition curated_graph :: "Graph \<Rightarrow> Manifest \<Rightarrow> Graph" where
  "curated_graph g m =
     NewGraph\<lparr>kg_Nodes := foldl (\<lambda>ns x. mput (mf_ID x) (curated_node g x) ns) [] (mf_Nodes m),
       kg_Edges := mf_Edges m\<rparr>"

definition SwapCurated :: "time \<Rightarrow> cold_io \<Rightarrow> ColdStorageOpts \<Rightarrow> Graph \<Rightarrow> Graph \<Rightarrow> cold_world \<Rightarrow>
    (Graph \<times> cold_world) \<times> cold_error option" where
  "SwapCurated now io opts original curated w =
     (let cold = (if ci_load io then stored_cold w else NewGraph);
          ms = filter (\<lambda>(k, n). mget (kg_Nodes curated) k = None) (kg_Nodes original);
          removed = map fst ms;
          docs = copy_cold io ms (cw_docs w);
          cold1 = cold\<lparr>kg_Nodes := put_cold now ms (kg_Nodes cold),
            kg_Edges := kg_Edges cold @ filter (touches removed) (kg_Edges original)\<rparr>;
          cold2 = fst (purgeColdExpired now (retentionDays opts) cold1)
      in if ci_save io
         then ((curated\<lparr>kg_Version := kg_Version original + 1\<rparr>,
                w\<lparr>cw_file := Some (cold2\<lparr>kg_UpdatedAt := now\<rparr>), cw_docs := docs\<rparr>), None)
         else ((curated, w\<lparr>cw_docs := docs\<rparr>), Some ColdSaveError))"

text \<open>\<open>Curate\<close>: the reply is the manifest read from the answer of the model, \<open>None\<close> when the call or its parsing fails.\<close>

record CurateResult =
  cr_CuratedGraph :: Graph
  cr_NodesIn :: nat
  cr_NodesOut :: nat

definition curation_threshold :: "int \<Rightarrow> nat" where
  "curation_threshold t = nat (if t \<le> 0 then 50 else t)"

definition Curate :: "Manifest option \<Rightarrow> int \<Rightarrow> Graph \<Rightarrow> CurateResult option" where
  "Curate reply threshold g =
     (if length (kg_Nodes g) < curation_threshold threshold then None
      else
        (case reply of
           None \<Rightarrow> None
         | Some m \<Rightarrow>
             (let c = curated_graph g m
              in Some \<lparr>cr_CuratedGraph = c, cr_NodesIn = length (kg_Nodes g), cr_NodesOut = length (kg_Nodes c)\<rparr>)))"

text \<open>
  \<open>Conductor.curateAgent\<close> for one agent: its stored graph (\<open>None\<close> when it cannot be loaded), the file of
  the cold graph, and the outcomes of the calls. The result is the stored graph, the cold world and
  the events. Two calls use the storage of the cold graph, each with outcomes of its own; \<open>generate\<close> is the
  model, if one is configured.
\<close>

datatype curation_event =
  AgentSleep | CurationStarted nat | CurationComplete nat nat nat nat | AgentWake

record curate_env =
  ce_move :: cold_io
  ce_swap :: cold_io
  ce_save :: bool
  ce_generate :: "(Graph \<Rightarrow> Manifest option) option"

definition cold_opts :: "int \<Rightarrow> ColdStorageOpts" where
  "cold_opts retention =
     \<lparr>co_MinHits = 0, co_ColdDays = 0, co_RetentionDays = (if retention > 0 then retention else 1095)\<rparr>"

text \<open>The call of the model, the check and the swap: the graph that is active afterwards.\<close>

definition curate_active :: "time \<Rightarrow> curate_env \<Rightarrow> int \<Rightarrow> ColdStorageOpts \<Rightarrow> Graph \<Rightarrow> cold_world \<Rightarrow> Graph \<times> cold_world \<times> nat" where
  "curate_active now env threshold opts g w =
     (case ce_generate env of
        None \<Rightarrow> (g, w, length (kg_Nodes g))
      | Some generate \<Rightarrow>
          (case Curate (generate g) threshold g of
             None \<Rightarrow> (g, w, length (kg_Nodes g))
           | Some r \<Rightarrow>
               (case ValidateCurated now (Some g) (Some (cr_CuratedGraph r)) of
                  Some _ \<Rightarrow> (g, w, length (kg_Nodes g))
                | None \<Rightarrow>
                    (case SwapCurated now (ce_swap env) opts g (cr_CuratedGraph r) w of
                       ((c, w'), Some _) \<Rightarrow> (g, w', length (kg_Nodes g))
                     | ((c, w'), None) \<Rightarrow> (c, w', cr_NodesOut r)))))"

definition curateAgent :: "time \<Rightarrow> curate_env \<Rightarrow> int \<Rightarrow> int \<Rightarrow> Graph option \<Rightarrow> cold_world \<Rightarrow>
    Graph option \<times> cold_world \<times> curation_event list" where
  "curateAgent now env curationThreshold retention stored w =
     (case stored of
        None \<Rightarrow> (stored, w, [])
      | Some g \<Rightarrow>
          (let threshold = (if curationThreshold > 0 then curationThreshold else 50);
               opts = cold_opts retention
           in if kg_Nodes g = [] \<or> int (length (kg_Nodes g)) < threshold then (stored, w, [])
              else
                (case MoveToCold now (ce_move env) opts g w of
                   ((g1, w1), moved, purged, Some _) \<Rightarrow> (stored, w1, [AgentSleep])
                 | ((g1, w1), moved, purged, None) \<Rightarrow>
                     (let goes = (int (length (kg_Nodes g1)) \<ge> threshold \<and> ce_generate env \<noteq> None);
                          (g2, w2, nodesOut) = (if goes then curate_active now env threshold opts g1 w1
                            else (g1, w1, length (kg_Nodes g1)))
                      in (if ce_save env then Some g2 else stored, w2,
                          [AgentSleep] @ (if goes then [CurationStarted (length (kg_Nodes g1))] else []) @
                          [CurationComplete (length (kg_Nodes g)) nodesOut (length moved) purged, AgentWake])))))"

section \<open>Lemmas\<close>

lemma put_cold_get:
  "gowf ms \<Longrightarrow> mget (put_cold now ms ns) k =
     (case mget ms k of None \<Rightarrow> mget ns k | Some n \<Rightarrow> Some (n\<lparr>kn_UpdatedAt := now\<rparr>))"
proof (induction ms arbitrary: ns)
  case (Cons x ms)
  have "mget ms (fst x) = None" using Cons.prems by (simp add: map_of_eq_None_iff)
  then show ?case
    using Cons by (auto simp: put_cold_def split_beta simp del: map_of_eq_Some_iff split: option.split)
qed (simp add: put_cold_def)

lemma nodes_wf_put_cold:
  "nodes_wf ns \<Longrightarrow> (\<forall>(k, n) \<in> set ms. kn_ID n = k \<and> kn_FilePath n = doc_path k) \<Longrightarrow> nodes_wf (put_cold now ms ns)"
  unfolding put_cold_def
proof (induction ms arbitrary: ns)
  case (Cons x ms)
  have "nodes_wf (mput (fst x) (snd x\<lparr>kn_UpdatedAt := now\<rparr>) ns)"
    using Cons.prems unfolding nodes_wf_def by (auto simp del: map_of_eq_Some_iff)
  then show ?case using Cons by (simp add: split_beta)
qed simp


lemma purge_kept:
  assumes "gowf (kg_Nodes g)"
  shows "mget (kg_Nodes (fst (purgeColdExpired now r g))) k =
     (case mget (kg_Nodes g) k of None \<Rightarrow> None
      | Some n \<Rightarrow> if r > 0 \<and> time_sub now (kn_UpdatedAt n) > days r then None else Some n)"
  using mget_filter [OF assms, of "\<lambda>(k, n). \<not> time_sub now (kn_UpdatedAt n) > days r" k]
  by (auto simp: purgeColdExpired_def evict_def simp del: map_of_eq_Some_iff split: option.splits)

lemma nodes_wf_purge: "nodes_wf (kg_Nodes g) \<Longrightarrow> nodes_wf (kg_Nodes (fst (purgeColdExpired now r g)))"
  by (simp add: purgeColdExpired_def evict_def nodes_wf_filter)

lemma nodes_wf_entries: "nodes_wf ns \<Longrightarrow> (k, n) \<in> set ns \<Longrightarrow> kn_ID n = k \<and> kn_FilePath n = doc_path k"
  by (simp add: nodes_wf_def)

lemma nodes_wf_Nil [simp]: "nodes_wf []"
  by (simp add: nodes_wf_def)

lemma nodes_wf_mput: "nodes_wf ns \<Longrightarrow> kn_ID n = k \<and> kn_FilePath n = doc_path k \<Longrightarrow> nodes_wf (mput k n ns)"
  unfolding nodes_wf_def by (auto simp del: map_of_eq_Some_iff)

lemma nodes_wf_mdel: "nodes_wf ns \<Longrightarrow> nodes_wf (mdel k ns)"
  unfolding nodes_wf_def by (auto simp del: map_of_eq_Some_iff)

lemma MoveToCold_nodes:
  "kg_Nodes (fst (fst (MoveToCold now io opts act w))) =
     (if ci_load io then filter (\<lambda>(k, n). \<not> goes_cold now opts n) (kg_Nodes act) else kg_Nodes act)"
  "cw_file (snd (fst (MoveToCold now io opts act w))) =
     (if ci_load io \<and> ci_save io then
        Some ((fst (purgeColdExpired now (retentionDays opts)
          ((stored_cold w)\<lparr>kg_Nodes := put_cold now (filter (\<lambda>(k, n). goes_cold now opts n) (kg_Nodes act))
               (kg_Nodes (stored_cold w)),
             kg_Edges := kg_Edges (stored_cold w) @
               filter (touches (map fst (filter (\<lambda>(k, n). goes_cold now opts n) (kg_Nodes act)))) (kg_Edges act)\<rparr>)))
          \<lparr>kg_UpdatedAt := now\<rparr>)
      else cw_file w)"
  by (simp_all add: MoveToCold_def Let_def split_beta touches_def)

lemma nodes_wf_MoveToCold:
  assumes "nodes_wf (kg_Nodes act)" "nodes_wf (kg_Nodes (stored_cold w))" "MoveToCold now io opts act w = ((act', w'), r)"
  shows "nodes_wf (kg_Nodes act')" "nodes_wf (kg_Nodes (stored_cold w'))"
proof -
  show "nodes_wf (kg_Nodes act')"
    using MoveToCold_nodes(1) [of now io opts act w] assms by (simp add: nodes_wf_filter)
  have "nodes_wf (put_cold now (filter (\<lambda>(k, n). goes_cold now opts n) (kg_Nodes act)) (kg_Nodes (stored_cold w)))"
    using assms(1,2) nodes_wf_entries by (intro nodes_wf_put_cold) fastforce+
  then show "nodes_wf (kg_Nodes (stored_cold w'))"
    using MoveToCold_nodes(2) [of now io opts act w] assms
    by (simp add: stored_cold_def nodes_wf_purge split: option.split)
qed

section \<open>Restoring\<close>

lemma restore_cold:
  "mget (fst (snd (restore_nodes io ids an cn docs rs))) k = (if k \<in> set ids then None else mget cn k)"
proof (induction io ids an cn docs rs rule: restore_nodes.induct)
  case (2 io i ids an cn docs rs)
  show ?case
  proof (cases "mget cn i")
    case (Some n)
    then show ?thesis using 2(2) [OF Some] by simp
  next
    case None
    then show ?thesis using 2(1) by (cases "k = i") simp_all
  qed
qed simp

lemma restore_active:
  "mget (fst (restore_nodes io ids an cn docs rs)) k =
     (if k \<in> set ids \<and> mget cn k \<noteq> None then mget cn k else mget an k)"
proof (induction io ids an cn docs rs rule: restore_nodes.induct)
  case (2 io i ids an cn docs rs)
  show ?case
  proof (cases "mget cn i")
    case (Some n)
    then show ?thesis using 2(2) [OF Some] by (cases "k = i"; cases "mget cn k"; simp)
  next
    case None
    then show ?thesis using 2(1) by (cases "k = i") simp_all
  qed
qed simp

lemma restore_ids:
  "set (snd (snd (snd (restore_nodes io ids an cn docs rs)))) = set rs \<union> {i \<in> set ids. mget cn i \<noteq> None}"
proof (induction io ids an cn docs rs rule: restore_nodes.induct)
  case (2 io i ids an cn docs rs)
  show ?case
  proof (cases "mget cn i")
    case (Some n)
    have "{j \<in> set ids. mget (mdel i cn) j \<noteq> None} \<union> {i} = {j \<in> set (i # ids). mget cn j \<noteq> None}"
      using Some by auto
    moreover have "set (snd (snd (snd (restore_nodes io (i # ids) an cn docs rs)))) =
        set rs \<union> ({j \<in> set ids. mget (mdel i cn) j \<noteq> None} \<union> {i})"
      using 2(2) [OF Some] Some by (simp del: mget_mdel add: Un_ac)
    ultimately show ?thesis by simp
  next
    case None
    then have "{j \<in> set ids. mget cn j \<noteq> None} = {j \<in> set (i # ids). mget cn j \<noteq> None}" by auto
    then show ?thesis using 2(1) [OF None] None by simp
  qed
qed simp

lemma nodes_wf_restore:
  "nodes_wf an \<Longrightarrow> nodes_wf cn \<Longrightarrow>
     nodes_wf (fst (restore_nodes io ids an cn docs rs)) \<and> nodes_wf (fst (snd (restore_nodes io ids an cn docs rs)))"
proof (induction io ids an cn docs rs rule: restore_nodes.induct)
  case (2 io i ids an cn docs rs)
  show ?case
  proof (cases "mget cn i")
    case None
    then show ?thesis using 2 by simp
  next
    case (Some n)
    then have "kn_ID n = i \<and> kn_FilePath n = doc_path i" using 2(4) unfolding nodes_wf_def by blast
    then show ?thesis using 2(2) [OF Some] 2(3,4) Some by (simp add: nodes_wf_mput nodes_wf_mdel)
  qed
qed simp

lemma nodes_wf_curated: "nodes_wf (kg_Nodes (curated_graph g m))"
proof -
  have "nodes_wf ns \<Longrightarrow> nodes_wf (foldl (\<lambda>ns x. mput (mf_ID x) (curated_node g x) ns) ns ms)" for ns ms
  proof (induction ms arbitrary: ns)
    case (Cons x ms)
    have "kn_ID (curated_node g x) = mf_ID x \<and> kn_FilePath (curated_node g x) = doc_path (mf_ID x)"
      by (simp add: curated_node_def Let_def doc_path_def split: option.split)
    then show ?case using Cons by (simp add: nodes_wf_mput)
  qed simp
  then show ?thesis by (simp add: curated_graph_def)
qed

text \<open>The cold graph that a swap stores.\<close>

definition swap_cold :: "time \<Rightarrow> ColdStorageOpts \<Rightarrow> Graph \<Rightarrow> Graph \<Rightarrow> Graph \<Rightarrow> Graph" where
  "swap_cold now opts g c cold =
     (let ms = filter (\<lambda>(k, n). mget (kg_Nodes c) k = None) (kg_Nodes g)
      in fst (purgeColdExpired now (retentionDays opts)
           (cold\<lparr>kg_Nodes := put_cold now ms (kg_Nodes cold),
             kg_Edges := kg_Edges cold @ filter (touches (map fst ms)) (kg_Edges g)\<rparr>)))"

lemma SwapCurated_eq:
  "SwapCurated now io opts g c w =
     (let docs = copy_cold io (filter (\<lambda>(k, n). mget (kg_Nodes c) k = None) (kg_Nodes g)) (cw_docs w)
      in if ci_save io then
        ((c\<lparr>kg_Version := kg_Version g + 1\<rparr>,
          w\<lparr>cw_file := Some ((swap_cold now opts g c (if ci_load io then stored_cold w else NewGraph))\<lparr>kg_UpdatedAt := now\<rparr>),
            cw_docs := docs\<rparr>), None)
      else ((c, w\<lparr>cw_docs := docs\<rparr>), Some ColdSaveError))"
  unfolding SwapCurated_def swap_cold_def Let_def ..

lemma nodes_wf_swap_cold:
  assumes "nodes_wf (kg_Nodes g)" "nodes_wf (kg_Nodes cold)"
  shows "nodes_wf (kg_Nodes (swap_cold now opts g c cold))"
proof -
  have "nodes_wf (put_cold now (filter (\<lambda>(k, n). mget (kg_Nodes c) k = None) (kg_Nodes g)) (kg_Nodes cold))"
    using assms(1,2) nodes_wf_entries by (intro nodes_wf_put_cold) fastforce+
  then show ?thesis by (simp add: swap_cold_def Let_def nodes_wf_purge)
qed

lemma nodes_wf_SwapCurated:
  assumes "nodes_wf (kg_Nodes g)" "nodes_wf (kg_Nodes (stored_cold w))" "SwapCurated now io opts g c w = ((c', w'), r)"
  shows "nodes_wf (kg_Nodes (stored_cold w'))"
proof (cases "ci_save io")
  case True
  define cold where "cold = (if ci_load io then stored_cold w else NewGraph)"
  have "nodes_wf (kg_Nodes cold)" using assms(2) by (simp add: cold_def NewGraph_def)
  then have "nodes_wf (kg_Nodes (swap_cold now opts g c cold))" by (rule nodes_wf_swap_cold [OF assms(1)])
  moreover have "stored_cold w' = (swap_cold now opts g c cold)\<lparr>kg_UpdatedAt := now\<rparr>"
    using assms(3) True unfolding SwapCurated_eq cold_def [symmetric] Let_def by (auto simp: stored_cold_def)
  ultimately show ?thesis by simp
qed (use assms in \<open>auto simp: SwapCurated_eq Let_def stored_cold_def\<close>)

section \<open>Runs of one agent's graph\<close>

lemma nodes_wf_RestoreFromCold:
  assumes "nodes_wf (kg_Nodes act)" "nodes_wf (kg_Nodes cold)"
    "RestoreFromCold io ids (Some act) (Some cold) docs = ((Some act', Some cold', docs'), e)"
  shows "nodes_wf (kg_Nodes act') \<and> nodes_wf (kg_Nodes cold')"
  using assms nodes_wf_restore [OF assms(1,2), of io ids docs "[]"]
  by (auto simp: RestoreFromCold_def split: prod.splits if_split_asm)

lemma nodes_wf_curate_active:
  assumes "nodes_wf (kg_Nodes g)" "nodes_wf (kg_Nodes (stored_cold w))" "curate_active now env t opts g w = (g', w', r)"
  shows "nodes_wf (kg_Nodes g') \<and> nodes_wf (kg_Nodes (stored_cold w'))"
proof -
  have "nodes_wf (kg_Nodes c)" if "SwapCurated now io opts g (curated_graph g m) w = ((c, w''), e)" for io m c w'' e
    using that nodes_wf_curated [of g m] by (auto simp: SwapCurated_eq Let_def split: if_split_asm)
  then show ?thesis
    using assms nodes_wf_SwapCurated [OF assms(1,2)]
    by (fastforce simp: curate_active_def Curate_def Let_def split: option.splits prod.splits if_split_asm)
qed

lemma curateAgent_cases:
  assumes "curateAgent now env t r (Some g) w = (s, w', ev)"
  obtains (idle) "s = Some g" "w' = w" "ev = []"
  | (failed) g1 moved purged e where "MoveToCold now (ce_move env) (cold_opts r) g w = ((g1, w'), moved, purged, Some e)"
      "s = Some g" "ev = [AgentSleep]"
  | (finished) g1 w1 moved purged t' g2 k ev' where
      "MoveToCold now (ce_move env) (cold_opts r) g w = ((g1, w1), moved, purged, None)"
      "curate_active now env t' (cold_opts r) g1 w1 = (g2, w', k) \<or> g2 = g1 \<and> w' = w1"
      "s = (if ce_save env then Some g2 else Some g)" "ev = AgentSleep # ev' @ [AgentWake]"
proof -
  obtain g1 w1 moved purged e where m: "MoveToCold now (ce_move env) (cold_opts r) g w = ((g1, w1), moved, purged, e)"
    by (metis prod_cases3 surj_pair)
  define t' where "t' = (if t > 0 then t else 50)"
  obtain g2 w2 k where c: "curate_active now env t' (cold_opts r) g1 w1 = (g2, w2, k)"
    using prod_cases3 by blast
  consider "kg_Nodes g = [] \<or> int (length (kg_Nodes g)) < t'"
    | e' where "\<not> (kg_Nodes g = [] \<or> int (length (kg_Nodes g)) < t')" "e = Some e'"
    | "\<not> (kg_Nodes g = [] \<or> int (length (kg_Nodes g)) < t')" "e = None"
        "int (length (kg_Nodes g1)) \<ge> t' \<and> ce_generate env \<noteq> None"
    | "\<not> (kg_Nodes g = [] \<or> int (length (kg_Nodes g)) < t')" "e = None"
        "\<not> (int (length (kg_Nodes g1)) \<ge> t' \<and> ce_generate env \<noteq> None)"
    by fastforce
  then show thesis
  proof cases
    case 1
    then show ?thesis using assms idle by (simp add: curateAgent_def Let_def t'_def [symmetric])
  next
    case 2
    then show ?thesis using assms failed m by (simp add: curateAgent_def Let_def t'_def [symmetric])
  next
    case 3
    have "s = (if ce_save env then Some g2 else Some g)" "w' = w2"
      "\<exists>ev'. ev = AgentSleep # ev' @ [AgentWake]"
      using assms 3 m c by (auto simp add: curateAgent_def Let_def t'_def [symmetric])
    then show ?thesis using m 3(2) c by (auto intro!: finished [of g1 w1 moved purged t' g2 k])
  next
    case 4
    have "s = (if ce_save env then Some g1 else Some g)" "w' = w1"
      "\<exists>ev'. ev = AgentSleep # ev' @ [AgentWake]"
      using assms 4 m by (auto simp add: curateAgent_def Let_def t'_def [symmetric])
    then show ?thesis using m 4(2) by (auto intro!: finished [of g1 w1 moved purged t' g1])
  qed
qed

lemma nodes_wf_curateAgent:
  assumes "nodes_wf (kg_Nodes g)" "nodes_wf (kg_Nodes (stored_cold w))"
    "curateAgent now env t r (Some g) w = (Some g', w', ev)"
  shows "nodes_wf (kg_Nodes g') \<and> nodes_wf (kg_Nodes (stored_cold w'))"
  using assms(3)
proof (cases rule: curateAgent_cases)
  case idle
  then show ?thesis using assms by simp
next
  case (failed g1 moved purged e)
  then show ?thesis using nodes_wf_MoveToCold [OF assms(1,2) failed(1)] assms(1) by simp
next
  case (finished g1 w1 moved purged t' g2 j ev')
  note wf = nodes_wf_MoveToCold [OF assms(1,2) finished(1)]
  have "nodes_wf (kg_Nodes g2) \<and> nodes_wf (kg_Nodes (stored_cold w'))"
    using finished(2) nodes_wf_curate_active [OF wf] wf by blast
  then show ?thesis using finished(3) assms(1) by (simp split: if_split_asm)
qed

text \<open>
  What can happen to the graph of an agent and its cold graph: new knowledge is merged and the graph
  pruned, lookups count hits, idle curation runs, and nodes are restored from the cold graph.
\<close>

inductive knowledge_run :: "Graph \<Rightarrow> cold_world \<Rightarrow> bool" where
  start: "knowledge_run NewGraph \<lparr>cw_file = None, cw_docs = docs\<rparr>"
| learn: "knowledge_run g w \<Longrightarrow> knowledge_run (fst (Prune now po (Merge now m r rn g))) w"
| hits: "knowledge_run g w \<Longrightarrow>
    knowledge_run (g\<lparr>kg_Nodes := map_entries (\<lambda>k n. if k \<in> set ks then RecordHit now n else n) (kg_Nodes g)\<rparr>) w"
| curate: "knowledge_run g w \<Longrightarrow> curateAgent now env t r (Some g) w = (Some g', w', ev) \<Longrightarrow> knowledge_run g' w'"
| restore: "knowledge_run g w \<Longrightarrow>
    RestoreFromCold io ids (Some g) (Some (stored_cold w)) docs = ((Some g', Some c', docs'), e) \<Longrightarrow>
    knowledge_run g' (w\<lparr>cw_file := Some c', cw_docs := docs'\<rparr>)"

lemma RecordHit_frame [simp]: "kn_ID (RecordHit now n) = kn_ID n" "kn_FilePath (RecordHit now n) = kn_FilePath n"
  by (simp_all add: RecordHit_def)

lemma nodes_wf_hits:
  assumes "nodes_wf ns"
  shows "nodes_wf (map_entries (\<lambda>k n. if k \<in> set ks then RecordHit now n else n) ns)"
proof -
  have "kn_ID n = k \<and> kn_FilePath n = doc_path k"
    if a: "mget (map_entries (\<lambda>k n. if k \<in> set ks then RecordHit now n else n) ns) k = Some n" for k n
  proof -
    obtain m where m: "mget ns k = Some m" using a by (cases "mget ns k") simp_all
    then have "n = (if k \<in> set ks then RecordHit now m else m)" using a by simp
    then show ?thesis using assms m by (simp add: nodes_wf_def del: map_of_eq_Some_iff)
  qed
  moreover have "gowf ns" using assms unfolding nodes_wf_def by blast
  ultimately show ?thesis unfolding nodes_wf_def mkeys_map_entries by blast
qed

text \<open>
  Claim C23: the typing of the knowledge graphs. In every run of merging, pruning, counted lookups, idle
  curation and restoring, with any outcomes of the storage calls and any answers of the model, the active and the
  cold graph hold every node once, under its own ID, with the document path derived from that ID.
\<close>

theorem knowledge_typed:
  assumes "knowledge_run g w"
  shows "nodes_wf (kg_Nodes g) \<and> nodes_wf (kg_Nodes (stored_cold w))"
  using assms
proof (induction rule: knowledge_run.induct)
  case (start docs)
  show ?case by (simp add: stored_cold_def NewGraph_def)
next
  case (learn g w now po m r rn)
  then have "nodes_wf (kg_Nodes (Merge now m r rn g))" by (simp add: Merge_def nodes_wf_merge_nodes)
  then show ?case using learn(2) by (simp add: Prune_unfold(1) quality_nodes_def nodes_wf_filter)
next
  case (hits g w ks now)
  then show ?case by (simp add: nodes_wf_hits)
next
  case (curate g w now env t r g' w' ev)
  then show ?case using nodes_wf_curateAgent [OF _ _ curate(2)] by simp
next
  case (restore g w io ids docs g' c' docs' e)
  then have "nodes_wf (kg_Nodes g') \<and> nodes_wf (kg_Nodes c')"
    using nodes_wf_RestoreFromCold [OF _ _ restore(2)] by simp
  then show ?case by (simp add: stored_cold_def)
qed

definition demo_manifest_node :: "string \<Rightarrow> ManifestNode" where
  "demo_manifest_node k = \<lparr>mf_ID = k, mf_Agent = ''dev'', mf_Title = ''t'', mf_Summary = ''s'', mf_Content = '''',
     mf_Tags = [], mf_Confidence = 1/2, mf_Source = '''', mf_TTLDays = 0\<rparr>"

theorem knowledge_typed_witness:
  "nodes_wf (kg_Nodes (fst (Prune 7 \<lparr>po_ConfidenceFloor = 0, po_MaxNodes = 0\<rparr>
     (Merge 7 \<lparr>mf_Nodes = [demo_manifest_node ''dev/a''], mf_Edges = []\<rparr> ''r'' ''rn'' NewGraph))))"
  by (rule knowledge_typed [OF learn [OF start], THEN conjunct1])

section \<open>Nothing is lost\<close>

lemma gowf_put_cold: "gowf ns \<Longrightarrow> gowf (put_cold now ms ns)"
  unfolding put_cold_def by (induction ms arbitrary: ns) (simp_all add: split_beta)

lemma put_purge_get:
  assumes "gowf ms" "gowf ns" "days r \<ge> 0"
  shows "mget (kg_Nodes (fst (purgeColdExpired now r (g\<lparr>kg_Nodes := put_cold now ms ns, kg_Edges := es\<rparr>)))) k =
     (case mget ms k of
        Some n \<Rightarrow> Some (n\<lparr>kn_UpdatedAt := now\<rparr>)
      | None \<Rightarrow>
          (case mget ns k of
             None \<Rightarrow> None
           | Some c \<Rightarrow> if r > 0 \<and> time_sub now (kn_UpdatedAt c) > days r then None else Some c))"
proof -
  have "gowf (put_cold now ms ns)" by (rule gowf_put_cold [OF assms(2)])
  then have g: "gowf (kg_Nodes (g\<lparr>kg_Nodes := put_cold now ms ns, kg_Edges := es\<rparr>))" by simp
  have "time_sub now now = 0" by (simp add: time_sub_def)
  then show ?thesis
    using assms(3) by (simp add: purge_kept [OF g] put_cold_get [OF assms(1)] split: option.split)
qed

lemma MoveToCold_ok:
  assumes "MoveToCold now io opts g w = ((g', w'), moved, purged, None)"
  shows "ci_load io" "ci_save io"
  using assms by (auto simp: MoveToCold_def Let_def split: if_split_asm prod.splits)

lemma MoveToCold_ok_iff:
  "ci_load io \<Longrightarrow> ci_save io \<Longrightarrow> \<exists>g' w' moved purged. MoveToCold now io opts g w = ((g', w'), moved, purged, None)"
  by (simp add: MoveToCold_def Let_def split_beta)

lemma purge_nothing:
  assumes "\<forall>(k, n) \<in> set (kg_Nodes g). \<not> time_sub now (kn_UpdatedAt n) > days r"
  shows "fst (purgeColdExpired now r g) = g"
proof -
  have "filter (\<lambda>(k, n). time_sub now (kn_UpdatedAt n) > days r) (kg_Nodes g) = []"
    "filter (\<lambda>(k, n). \<not> time_sub now (kn_UpdatedAt n) > days r) (kg_Nodes g) = kg_Nodes g"
    using assms by (auto simp: filter_empty_conv filter_id_conv)
  then show ?thesis by (simp add: purgeColdExpired_def evict_def)
qed

lemma MoveToCold_err:
  assumes "MoveToCold now io opts g w = ((g', w'), moved, purged, Some e)"
  shows "cw_file w' = cw_file w"
  using assms by (auto simp: MoveToCold_def Let_def split: if_split_asm prod.splits)

lemma move_conserves:
  assumes "nodes_wf (kg_Nodes g)" "nodes_wf (kg_Nodes (stored_cold w))" "days (retentionDays opts) \<ge> 0"
    "MoveToCold now io opts g w = ((g', w'), moved, purged, None)"
  shows "mget (kg_Nodes g') k =
      (case mget (kg_Nodes g) k of None \<Rightarrow> None | Some n \<Rightarrow> if goes_cold now opts n then None else Some n)"
    "mget (kg_Nodes (stored_cold w')) k =
      (case mget (kg_Nodes g) k of
         Some n \<Rightarrow> if goes_cold now opts n then Some (n\<lparr>kn_UpdatedAt := now\<rparr>)
           else mget (kg_Nodes (fst (purgeColdExpired now (retentionDays opts) (stored_cold w)))) k
       | None \<Rightarrow> mget (kg_Nodes (fst (purgeColdExpired now (retentionDays opts) (stored_cold w)))) k)"
proof -
  note ok = MoveToCold_ok [OF assms(4)]
  have gw: "gowf (kg_Nodes g)" "gowf (kg_Nodes (stored_cold w))" using assms(1,2) by (simp_all add: nodes_wf_def)
  have g': "kg_Nodes g' = filter (\<lambda>(k, n). \<not> goes_cold now opts n) (kg_Nodes g)"
    using MoveToCold_nodes(1) [of now io opts g w] assms(4) ok by simp
  show "mget (kg_Nodes g') k =
      (case mget (kg_Nodes g) k of None \<Rightarrow> None | Some n \<Rightarrow> if goes_cold now opts n then None else Some n)"
    unfolding g' mget_filter [OF gw(1)] by (simp split: option.split)
  define ms where "ms = filter (\<lambda>(k, n). goes_cold now opts n) (kg_Nodes g)"
  have ms: "mget ms k = (case mget (kg_Nodes g) k of None \<Rightarrow> None | Some n \<Rightarrow> if goes_cold now opts n then Some n else None)"
    unfolding ms_def mget_filter [OF gw(1)] by (simp split: option.split)
  have gm: "gowf ms" using gw(1) by (simp add: ms_def)
  have "kg_Nodes (stored_cold w') = kg_Nodes (fst (purgeColdExpired now (retentionDays opts)
      ((stored_cold w)\<lparr>kg_Nodes := put_cold now ms (kg_Nodes (stored_cold w)),
        kg_Edges := kg_Edges (stored_cold w) @ filter (touches (map fst ms)) (kg_Edges g)\<rparr>)))"
    using MoveToCold_nodes(2) [of now io opts g w] assms(4) ok by (simp add: stored_cold_def [of w'] ms_def)
  then show "mget (kg_Nodes (stored_cold w')) k =
      (case mget (kg_Nodes g) k of
         Some n \<Rightarrow> if goes_cold now opts n then Some (n\<lparr>kn_UpdatedAt := now\<rparr>)
           else mget (kg_Nodes (fst (purgeColdExpired now (retentionDays opts) (stored_cold w)))) k
       | None \<Rightarrow> mget (kg_Nodes (fst (purgeColdExpired now (retentionDays opts) (stored_cold w)))) k)"
    by (simp add: put_purge_get [OF gm gw(2) assms(3)] ms purge_kept [OF gw(2)] split: option.split)
qed

lemma swap_conserves:
  assumes "nodes_wf (kg_Nodes g)" "nodes_wf (kg_Nodes (stored_cold w))" "days (retentionDays opts) \<ge> 0"
    "ci_load io" "SwapCurated now io opts g c w = ((c', w'), None)"
  shows "mget (kg_Nodes (stored_cold w')) k =
      (case mget (kg_Nodes g) k of
         Some n \<Rightarrow> if mget (kg_Nodes c) k = None then Some (n\<lparr>kn_UpdatedAt := now\<rparr>)
           else mget (kg_Nodes (fst (purgeColdExpired now (retentionDays opts) (stored_cold w)))) k
       | None \<Rightarrow> mget (kg_Nodes (fst (purgeColdExpired now (retentionDays opts) (stored_cold w)))) k)"
proof -
  have gw: "gowf (kg_Nodes g)" "gowf (kg_Nodes (stored_cold w))" using assms(1,2) by (simp_all add: nodes_wf_def)
  define ms where "ms = filter (\<lambda>(k, n). mget (kg_Nodes c) k = None) (kg_Nodes g)"
  have ms: "mget ms k = (case mget (kg_Nodes g) k of None \<Rightarrow> None | Some n \<Rightarrow> if mget (kg_Nodes c) k = None then Some n else None)"
    unfolding ms_def mget_filter [OF gw(1)] by (simp split: option.split)
  have gm: "gowf ms" using gw(1) by (simp add: ms_def)
  have "stored_cold w' = (swap_cold now opts g c (stored_cold w))\<lparr>kg_UpdatedAt := now\<rparr>"
    using assms(4,5) by (auto simp: SwapCurated_eq Let_def stored_cold_def [of w'] split: if_split_asm)
  then have "kg_Nodes (stored_cold w') = kg_Nodes (fst (purgeColdExpired now (retentionDays opts)
      ((stored_cold w)\<lparr>kg_Nodes := put_cold now ms (kg_Nodes (stored_cold w)),
        kg_Edges := kg_Edges (stored_cold w) @ filter (touches (map fst ms)) (kg_Edges g)\<rparr>)))"
    by (simp add: swap_cold_def Let_def ms_def)
  then show ?thesis
    by (cases "mget (kg_Nodes c) k") (simp_all add: put_purge_get [OF gm gw(2) assms(3)] ms purge_kept [OF gw(2)] split: option.split)
qed

text \<open>A node that must survive curation: a decision or of high confidence, neither stale nor superseded.\<close>

definition protected :: "time \<Rightarrow> Graph \<Rightarrow> string \<Rightarrow> KNode \<Rightarrow> bool" where
  "protected now g k n =
     ((HasTag ''decision'' n \<or> kn_Confidence n \<ge> float_08) \<and> \<not> IsStale now n \<and> \<not> IsSuperseded now g k)"

lemma ValidateCurated_iff:
  assumes "gowf (kg_Nodes g)"
  shows "ValidateCurated now (Some g) (Some c) = None \<longleftrightarrow>
    length (kg_Nodes c) \<le> length (kg_Nodes g) \<and>
    (\<forall>k n. mget (kg_Nodes g) k = Some n \<and> protected now g k n \<longrightarrow> mget (kg_Nodes c) k \<noteq> None) \<and>
    (\<forall>e \<in> set (kg_Edges c). mget (kg_Nodes c) (ed_From e) \<noteq> None \<and> mget (kg_Nodes c) (ed_To e) \<noteq> None)"
  using assms unfolding ValidateCurated_def protected_def mget_in_set [OF assms]
  by (auto simp: not_less simp del: map_of_eq_Some_iff)

lemma curate_active_cases:
  assumes "curate_active now env t opts g w = (g', w', k)"
  obtains (same) "g' = g" "cw_file w' = cw_file w"
  | (swapped) c where "ValidateCurated now (Some g) (Some c) = None"
      "SwapCurated now (ce_swap env) opts g c w = ((g', w'), None)" "kg_Nodes g' = kg_Nodes c"
proof -
  have "cw_file w'' = cw_file w" if "SwapCurated now io opts g c w = ((c', w''), Some e)" for io c c' w'' e
    using that by (auto simp: SwapCurated_eq Let_def split: if_split_asm)
  moreover have "kg_Nodes c' = kg_Nodes c" if "SwapCurated now io opts g c w = ((c', w''), None)" for io c c' w''
    using that by (auto simp: SwapCurated_eq Let_def split: if_split_asm)
  ultimately show ?thesis
    using assms same swapped
    by (auto simp: curate_active_def Let_def split: option.splits prod.splits)
qed

lemma protected_after_move:
  assumes "gowf (kg_Nodes g)" "kg_Nodes g' = filter p (kg_Nodes g)" "set (kg_Edges g') \<subseteq> set (kg_Edges g)" "protected now g k n"
  shows "protected now g' k n"
proof -
  have "IsSuperseded now g k" if a: "IsSuperseded now g' k"
  proof -
    obtain e m where e: "e \<in> set (kg_Edges g')" "ed_To e = k" "ed_Relation e = ''supersedes''"
        "mget (kg_Nodes g') (ed_From e) = Some m" "\<not> IsStale now m"
      using a by (auto simp: IsSuperseded_def list_ex_iff split: option.splits)
    have "mget (kg_Nodes g) (ed_From e) = Some m"
      using e(4) unfolding assms(2) mget_filter [OF assms(1)] by (simp split: option.splits if_splits)
    then show ?thesis using e assms(3) unfolding IsSuperseded_def list_ex_iff by (intro bexI [of _ e]) auto
  qed
  then show ?thesis using assms(4) by (auto simp: protected_def)
qed

lemma MoveToCold_edges:
  "set (kg_Edges (fst (fst (MoveToCold now io opts g w)))) \<subseteq> set (kg_Edges g)"
  by (auto simp: MoveToCold_def Let_def split_beta)

lemma curate_active_safe:
  assumes "nodes_wf (kg_Nodes g)" "nodes_wf (kg_Nodes (stored_cold w))" "days (retentionDays opts) \<ge> 0"
    "ci_load (ce_swap env)" "curate_active now env t opts g w = (g', w', j)"
  shows "mget (kg_Nodes g) k = Some n \<Longrightarrow>
      mget (kg_Nodes g') k \<noteq> None \<or> mget (kg_Nodes (stored_cold w')) k = Some (n\<lparr>kn_UpdatedAt := now\<rparr>)"
    "mget (kg_Nodes g) k = Some n \<Longrightarrow> protected now g k n \<Longrightarrow> mget (kg_Nodes g') k \<noteq> None"
    "mget (kg_Nodes (stored_cold w)) k = Some c \<Longrightarrow> \<not> time_sub now (kn_UpdatedAt c) > days (retentionDays opts) \<Longrightarrow>
      mget (kg_Nodes (stored_cold w')) k \<noteq> None \<and> (mget (kg_Nodes g) k = None \<longrightarrow> mget (kg_Nodes (stored_cold w')) k = Some c)"
proof -
  have gw: "gowf (kg_Nodes g)" "gowf (kg_Nodes (stored_cold w))" using assms(1,2) by (simp_all add: nodes_wf_def)
  have "(mget (kg_Nodes g) k = Some n \<longrightarrow>
      mget (kg_Nodes g') k \<noteq> None \<or> mget (kg_Nodes (stored_cold w')) k = Some (n\<lparr>kn_UpdatedAt := now\<rparr>)) \<and>
    (mget (kg_Nodes g) k = Some n \<longrightarrow> protected now g k n \<longrightarrow> mget (kg_Nodes g') k \<noteq> None) \<and>
    (mget (kg_Nodes (stored_cold w)) k = Some c \<longrightarrow> \<not> time_sub now (kn_UpdatedAt c) > days (retentionDays opts) \<longrightarrow>
      mget (kg_Nodes (stored_cold w')) k \<noteq> None \<and> (mget (kg_Nodes g) k = None \<longrightarrow> mget (kg_Nodes (stored_cold w')) k = Some c))"
    using assms(5)
  proof (cases rule: curate_active_cases)
    case same
    then have "stored_cold w' = stored_cold w" by (simp add: stored_cold_def)
    then show ?thesis using same by simp
  next
    case (swapped cu)
    have "mget (kg_Nodes g) k = Some n \<longrightarrow> protected now g k n \<longrightarrow> mget (kg_Nodes g') k \<noteq> None"
      using swapped(1) unfolding ValidateCurated_iff [OF gw(1)] swapped(3) by blast
    then show ?thesis
      unfolding swap_conserves [OF assms(1-4) swapped(2)] purge_kept [OF gw(2)] swapped(3)
      by (cases "mget (kg_Nodes cu) k"; cases "mget (kg_Nodes g) k"; simp)
  qed
  then show "mget (kg_Nodes g) k = Some n \<Longrightarrow>
      mget (kg_Nodes g') k \<noteq> None \<or> mget (kg_Nodes (stored_cold w')) k = Some (n\<lparr>kn_UpdatedAt := now\<rparr>)"
    "mget (kg_Nodes g) k = Some n \<Longrightarrow> protected now g k n \<Longrightarrow> mget (kg_Nodes g') k \<noteq> None"
    "mget (kg_Nodes (stored_cold w)) k = Some c \<Longrightarrow> \<not> time_sub now (kn_UpdatedAt c) > days (retentionDays opts) \<Longrightarrow>
      mget (kg_Nodes (stored_cold w')) k \<noteq> None \<and> (mget (kg_Nodes g) k = None \<longrightarrow> mget (kg_Nodes (stored_cold w')) k = Some c)"
    by blast+
qed

text \<open>
  Claim C26: idle curation loses nothing. Suppose the retention time does not overflow and the second reading of
  the cold graph does not fail. Whatever the other storage calls do and whatever the model answers, every node of
  the agent's graph is afterwards in the stored graph, or in the cold graph as it was up to its time of
  update; a node that must survive (a decision, or of high confidence, neither stale nor superseded)
  is dropped from the stored graph only when it is no decision and has become cold; and a node of
  the cold graph that is within retention is still there, unless a newer version replaced it.
\<close>

theorem idle_curation_loses_nothing:
  assumes "nodes_wf (kg_Nodes g)" "nodes_wf (kg_Nodes (stored_cold w))"
    "days (retentionDays (cold_opts retention)) \<ge> 0" "ci_load (ce_swap env)"
    "curateAgent now env threshold retention (Some g) w = (Some g', w', evs)"
  shows "(\<forall>k n. mget (kg_Nodes g) k = Some n \<longrightarrow>
      (mget (kg_Nodes g') k \<noteq> None \<or> mget (kg_Nodes (stored_cold w')) k = Some (n\<lparr>kn_UpdatedAt := now\<rparr>)) \<and>
      (protected now g k n \<longrightarrow>
        mget (kg_Nodes g') k \<noteq> None \<or> \<not> HasTag ''decision'' n \<and> IsCold now (minHits (cold_opts retention)) (coldDays (cold_opts retention)) n)) \<and>
    (\<forall>k c. mget (kg_Nodes (stored_cold w)) k = Some c \<and> \<not> time_sub now (kn_UpdatedAt c) > days (retentionDays (cold_opts retention)) \<longrightarrow>
      mget (kg_Nodes (stored_cold w')) k \<noteq> None)"
  (is "(\<forall>k n. ?in g k n \<longrightarrow> ?safe g' w' k n) \<and> (\<forall>k c. ?old w k c \<longrightarrow> ?there w' k)")
  using assms(5)
proof (cases rule: curateAgent_cases)
  case idle
  then show ?thesis by simp
next
  case (failed g1 moved purged e)
  then have "stored_cold w' = stored_cold w" using MoveToCold_err [OF failed(1)] by (simp add: stored_cold_def)
  then show ?thesis using failed(2) by simp
next
  case (finished g1 w1 moved purged t' g2 j ev')
  let ?opts = "cold_opts retention"
  note wf = nodes_wf_MoveToCold [OF assms(1,2) finished(1)]
  note mv = move_conserves [OF assms(1-3) finished(1)]
  note ok = MoveToCold_ok [OF finished(1)]
  have gw: "gowf (kg_Nodes (stored_cold w))" "gowf (kg_Nodes (stored_cold w1))" "gowf (kg_Nodes g)" "gowf (kg_Nodes g1)"
    using assms(1,2) wf by (simp_all add: nodes_wf_def)
  have old1: "\<exists>c'. mget (kg_Nodes (stored_cold w1)) k = Some c' \<and> \<not> time_sub now (kn_UpdatedAt c') > days (retentionDays ?opts)"
    if "?old w k c" for k c
    using that assms(3) unfolding mv(2) purge_kept [OF gw(1)] by (auto simp: time_sub_def split: option.split)
  have safe1: "mget (kg_Nodes g1) k = Some n \<or>
      mget (kg_Nodes (stored_cold w1)) k = Some (n\<lparr>kn_UpdatedAt := now\<rparr>) \<and> goes_cold now ?opts n \<and> mget (kg_Nodes g1) k = None"
    if "?in g k n" for k n
    using that unfolding mv by simp
  have prot: "protected now g1 k n" if "protected now g k n" for k n
    using protected_after_move [OF gw(3) _ _ that, of g1] MoveToCold_nodes(1) [of now "ce_move env" ?opts g w]
      MoveToCold_edges [of now "ce_move env" ?opts g w] ok finished(1) by simp
  have S: "(mget (kg_Nodes g1) k = Some n \<longrightarrow>
        mget (kg_Nodes g2) k \<noteq> None \<or> mget (kg_Nodes (stored_cold w')) k = Some (n\<lparr>kn_UpdatedAt := now\<rparr>)) \<and>
      (mget (kg_Nodes g1) k = Some n \<longrightarrow> protected now g1 k n \<longrightarrow> mget (kg_Nodes g2) k \<noteq> None) \<and>
      (mget (kg_Nodes (stored_cold w1)) k = Some c \<longrightarrow> \<not> time_sub now (kn_UpdatedAt c) > days (retentionDays ?opts) \<longrightarrow>
        mget (kg_Nodes (stored_cold w')) k \<noteq> None \<and> (mget (kg_Nodes g1) k = None \<longrightarrow> mget (kg_Nodes (stored_cold w')) k = Some c))"
    for k n c
    using finished(2)
  proof
    assume c: "curate_active now env t' ?opts g1 w1 = (g2, w', j)"
    show ?thesis using curate_active_safe [OF wf assms(3,4) c, of _ n] curate_active_safe(3) [OF wf assms(3,4) c] by blast
  qed auto
  have safe: "?safe g2 w' k n" if i: "?in g k n" for k n
  proof (cases "mget (kg_Nodes g1) k = Some n")
    case True
    then show ?thesis using S [of k n] prot by blast
  next
    case False
    then have "mget (kg_Nodes (stored_cold w1)) k = Some (n\<lparr>kn_UpdatedAt := now\<rparr>)" "goes_cold now ?opts n" "mget (kg_Nodes g1) k = None"
      using safe1 [OF i] by blast+
    moreover have "\<not> time_sub now (kn_UpdatedAt (n\<lparr>kn_UpdatedAt := now\<rparr>)) > days (retentionDays ?opts)"
      using assms(3) by (simp add: time_sub_def)
    ultimately have "mget (kg_Nodes (stored_cold w')) k = Some (n\<lparr>kn_UpdatedAt := now\<rparr>)" using S by blast
    then show ?thesis using \<open>goes_cold now ?opts n\<close> unfolding goes_cold_def by blast
  qed
  have old: "?there w' k" if "?old w k c" for k c using old1 [OF that] S by blast
  show ?thesis
  proof (cases "ce_save env")
    case True
    then have "g' = g2" using finished(3) by simp
    then show ?thesis using safe old by blast
  next
    case False
    then have "g' = g" using finished(3) by simp
    then show ?thesis using old by blast
  qed
qed

definition demo_cold_env :: curate_env where
  "demo_cold_env = \<lparr>ce_move = \<lparr>ci_load = True, ci_save = True, ci_write = (\<lambda>_. True)\<rparr>,
     ce_swap = \<lparr>ci_load = True, ci_save = True, ci_write = (\<lambda>_. True)\<rparr>, ce_save = True, ce_generate = None\<rparr>"

definition demo_old :: "string \<Rightarrow> int \<Rightarrow> KNode" where
  "demo_old k hits = (demo_knode k (1/2))\<lparr>kn_Hits := hits\<rparr>"

definition demo_old_graph :: Graph where
  "demo_old_graph = \<lparr>kg_Version = 1, kg_UpdatedAt = 0,
     kg_Nodes = [(''a'', demo_old ''a'' 0), (''b'', demo_old ''b'' 9)],
     kg_Edges = [\<lparr>ed_From = ''a'', ed_To = ''b'', ed_Relation = ''refines''\<rparr>]\<rparr>"

lemma demo_old_graph_wf: "nodes_wf (kg_Nodes demo_old_graph)"
  by (simp add: nodes_wf_def demo_old_graph_def demo_old_def demo_knode_def)

lemma days_values: "days 30 = 2592000000000000" "days 1095 = 94608000000000000"
  by (simp_all add: days_def signed_take_bit_eq_take_bit_shift take_bit_eq_mod)

theorem idle_curation_loses_nothing_witness:
  "\<exists>g' w' evs. curateAgent 2592000000000002 demo_cold_env 2 0 (Some demo_old_graph) \<lparr>cw_file = None, cw_docs = []\<rparr> = (Some g', w', evs) \<and>
     mget (kg_Nodes g') ''a'' = None \<and>
     mget (kg_Nodes (stored_cold w')) ''a'' = Some (demo_old ''a'' 0\<lparr>kn_UpdatedAt := 2592000000000002\<rparr>)"
proof -
  let ?now = "2592000000000002" and ?w = "\<lparr>cw_file = None, cw_docs = []\<rparr>"
  have wf: "nodes_wf (kg_Nodes (stored_cold ?w))" by (simp add: stored_cold_def NewGraph_def)
  have r: "days (retentionDays (cold_opts 0)) \<ge> 0" by (simp add: cold_opts_def retentionDays_def days_values)
  have cold: "goes_cold ?now (cold_opts 0) (demo_old ''a'' 0)" "\<not> goes_cold ?now (cold_opts 0) (demo_old ''b'' 9)"
    by (simp_all add: goes_cold_def HasTag_def IsCold_def minHits_def coldDays_def cold_opts_def days_values
        demo_old_def demo_knode_def time_sub_def)
  obtain g1 w1 moved purged where m: "MoveToCold ?now (ce_move demo_cold_env) (cold_opts 0) demo_old_graph ?w = ((g1, w1), moved, purged, None)"
    using MoveToCold_ok_iff [of "ce_move demo_cold_env" ?now "cold_opts 0" demo_old_graph ?w]
    by (auto simp: demo_cold_env_def)
  have g1: "kg_Nodes g1 = [(''b'', demo_old ''b'' 9)]"
    using MoveToCold_nodes(1) [of ?now "ce_move demo_cold_env" "cold_opts 0" demo_old_graph ?w] m
    by (simp add: demo_cold_env_def demo_old_graph_def cold)
  obtain evs where c: "curateAgent ?now demo_cold_env 2 0 (Some demo_old_graph) ?w = (Some g1, w1, evs)"
    using m by (simp add: curateAgent_def Let_def demo_cold_env_def demo_old_graph_def)
  have "ci_load (ce_swap demo_cold_env)" by (simp add: demo_cold_env_def)
  then have "mget (kg_Nodes g1) ''a'' \<noteq> None \<or>
      mget (kg_Nodes (stored_cold w1)) ''a'' = Some (demo_old ''a'' 0\<lparr>kn_UpdatedAt := ?now\<rparr>)"
    using idle_curation_loses_nothing [OF demo_old_graph_wf wf r _ c] by (simp add: demo_old_graph_def)
  then show ?thesis using c g1 by simp
qed

section \<open>Moving out and back\<close>

text \<open>
  Moving to cold storage and back is a round trip. On a graph whose edges join its nodes and with an
  empty cold storage, restoring the moved nodes gives back every node, the moved ones with the time of the move, and
  exactly the edges there were; the cold graph is empty again.
\<close>

theorem cold_roundtrip:
  assumes "nodes_wf (kg_Nodes g)" "\<forall>e \<in> set (kg_Edges g). mget (kg_Nodes g) (ed_From e) \<noteq> None \<and> mget (kg_Nodes g) (ed_To e) \<noteq> None"
    and "cw_file w = None" "days (retentionDays opts) \<ge> 0"
    and move: "MoveToCold now io opts g w = ((g1, w1), moved, purged, None)"
    and rest: "RestoreFromCold io' moved (Some g1) (cw_file w1) docs = ((Some g2, Some c2, docs'), e)"
  shows "(\<forall>k. mget (kg_Nodes g2) k =
        map_option (\<lambda>n. if goes_cold now opts n then n\<lparr>kn_UpdatedAt := now\<rparr> else n) (mget (kg_Nodes g) k)) \<and>
    (\<forall>k. mget (kg_Nodes c2) k = None) \<and>
    set (kg_Edges g2) = set (kg_Edges g) \<and> length (kg_Edges g2) = length (kg_Edges g) \<and> kg_Edges c2 = []"
proof -
  note ok = MoveToCold_ok [OF move]
  have cold0: "stored_cold w = NewGraph" using assms(3) by (simp add: stored_cold_def)
  have wf0: "nodes_wf (kg_Nodes (stored_cold w))" by (simp add: cold0 NewGraph_def)
  note mv = move_conserves [OF assms(1) wf0 assms(4) move]
  define ms where "ms = filter (\<lambda>(k, n). goes_cold now opts n) (kg_Nodes g)"
  have gw: "gowf (kg_Nodes g)" using assms(1) by (simp add: nodes_wf_def)
  have mid: "moved = map fst ms" and e1: "kg_Edges g1 = filter (\<lambda>e. \<not> touches moved e) (kg_Edges g)"
    using move by (auto simp: MoveToCold_def Let_def ms_def touches_def split: if_split_asm prod.splits)
  obtain c1 where c1: "cw_file w1 = Some c1"
    using MoveToCold_nodes(2) [of now io opts g w] move ok by auto
  then have st: "stored_cold w1 = c1" by (simp add: stored_cold_def)
  have empty: "mget (kg_Nodes (fst (purgeColdExpired now (retentionDays opts) (stored_cold w)))) k = None" for k
    by (simp add: cold0 NewGraph_def purgeColdExpired_def evict_def)
  have cn: "mget (kg_Nodes c1) k =
      (case mget (kg_Nodes g) k of None \<Rightarrow> None | Some n \<Rightarrow> if goes_cold now opts n then Some (n\<lparr>kn_UpdatedAt := now\<rparr>) else None)" for k
    using mv(2) [of k] unfolding st empty by (simp split: option.split)
  have inmoved: "k \<in> set moved \<longleftrightarrow> mget (kg_Nodes c1) k \<noteq> None" for k
    unfolding mid ms_def in_filter_keys [OF gw] cn by (auto split: option.split)
  have ce: "kg_Edges c1 = filter (touches moved) (kg_Edges g)"
  proof -
    have gm: "gowf ms" using gw by (simp add: ms_def)
    let ?c = "NewGraph\<lparr>kg_Nodes := put_cold now ms [], kg_Edges := filter (touches moved) (kg_Edges g)\<rparr>"
    have gp: "gowf (put_cold now ms [])"
      using nodes_wf_put_cold [of "[]" ms now] nodes_wf_entries [OF assms(1)] by (auto simp: nodes_wf_def ms_def)
    have "kn_UpdatedAt n = now" if "(k, n) \<in> set (put_cold now ms [])" for k n
    proof -
      have "mget (put_cold now ms []) k = Some n" using that gp by simp
      then show ?thesis unfolding put_cold_get [OF gm] by (cases "mget ms k") auto
    qed
    then have "fst (purgeColdExpired now (retentionDays opts) ?c) = ?c"
      using assms(4) by (intro purge_nothing) (auto simp: time_sub_def)
    then show ?thesis
      using MoveToCold_nodes(2) [of now io opts g w] move ok c1 unfolding cold0 ms_def [symmetric] mid
      by (simp add: NewGraph_def)
  qed
  obtain an cn' docs'' rs where r: "restore_nodes io' moved (kg_Nodes g1) (kg_Nodes c1) docs [] = (an, cn', docs'', rs)"
    using prod_cases4 by blast
  have rs: "set rs = set moved"
    using restore_ids [of io' moved "kg_Nodes g1" "kg_Nodes c1" docs "[]"] inmoved by (auto simp: r)
  have an: "mget an k = map_option (\<lambda>n. if goes_cold now opts n then n\<lparr>kn_UpdatedAt := now\<rparr> else n) (mget (kg_Nodes g) k)" for k
    using restore_active [of io' moved "kg_Nodes g1" "kg_Nodes c1" docs "[]" k] unfolding r inmoved cn mv(1)
    by (cases "mget (kg_Nodes g) k") (simp_all split: if_splits)
  have cn': "mget cn' k = None" for k
    using restore_cold [of io' moved "kg_Nodes g1" "kg_Nodes c1" docs "[]" k] unfolding r inmoved by simp
  have tch: "touches rs = touches moved" by (rule ext) (simp add: touches_def rs)
  have ends: "mget an (ed_From e) \<noteq> None \<and> mget an (ed_To e) \<noteq> None" if "e \<in> set (kg_Edges g)" for e
    using assms(2) that by (simp add: an)
  have g2: "kg_Nodes g2 = an" "kg_Nodes c2 = cn'"
    "kg_Edges g2 = kg_Edges g1 @ filter (touches moved) (kg_Edges g)" "kg_Edges c2 = []"
  proof -
    have f: "filter (\<lambda>e. touches rs e \<and> mget an (ed_From e) \<noteq> None \<and> mget an (ed_To e) \<noteq> None) (kg_Edges c1) =
        filter (touches moved) (kg_Edges g)"
      unfolding ce tch using ends by (auto intro: filter_cong)
    have n: "rs = [] \<Longrightarrow> filter (touches moved) (kg_Edges g) = []" using rs by (simp add: touches_def filter_empty_conv)
    have c: "filter (\<lambda>e. \<not> touches rs e) (kg_Edges c1) = []" unfolding ce tch by simp
    show "kg_Nodes g2 = an" "kg_Nodes c2 = cn'"
      "kg_Edges g2 = kg_Edges g1 @ filter (touches moved) (kg_Edges g)" "kg_Edges c2 = []"
      using rest c1 n ce f c by (auto simp: RestoreFromCold_def r split: if_split_asm)
  qed
  show ?thesis
  proof (intro conjI allI)
    show "length (kg_Edges g2) = length (kg_Edges g)"
      unfolding g2 e1 length_append using sum_length_filter_compl [of "touches moved" "kg_Edges g"] by simp
    show "set (kg_Edges g2) = set (kg_Edges g)" unfolding g2 e1 by auto
  qed (simp_all only: g2 an cn')
qed

lemma RestoreFromCold_Some:
  "\<exists>a' c' docs' e. RestoreFromCold io ids (Some a) (Some c) docs = ((Some a', Some c', docs'), e)"
  by (auto simp: RestoreFromCold_def split: prod.split)

theorem cold_roundtrip_witness:
  "\<exists>g1 w1 moved purged g2 c2 docs' e.
     MoveToCold 2592000000000002 (ce_move demo_cold_env) (cold_opts 0) demo_old_graph \<lparr>cw_file = None, cw_docs = []\<rparr> = ((g1, w1), moved, purged, None) \<and>
     RestoreFromCold (ce_move demo_cold_env) moved (Some g1) (cw_file w1) [] = ((Some g2, Some c2, docs'), e) \<and>
     set (kg_Edges g2) = {\<lparr>ed_From = ''a'', ed_To = ''b'', ed_Relation = ''refines''\<rparr>} \<and> kg_Edges c2 = []"
proof -
  let ?now = "2592000000000002" and ?w = "\<lparr>cw_file = None, cw_docs = []\<rparr>"
  have ends: "\<forall>e \<in> set (kg_Edges demo_old_graph).
      mget (kg_Nodes demo_old_graph) (ed_From e) \<noteq> None \<and> mget (kg_Nodes demo_old_graph) (ed_To e) \<noteq> None"
    by (simp add: demo_old_graph_def)
  have r: "days (retentionDays (cold_opts 0)) \<ge> 0" by (simp add: cold_opts_def retentionDays_def days_values)
  obtain g1 w1 moved purged where m: "MoveToCold ?now (ce_move demo_cold_env) (cold_opts 0) demo_old_graph ?w = ((g1, w1), moved, purged, None)"
    using MoveToCold_ok_iff [of "ce_move demo_cold_env" ?now "cold_opts 0" demo_old_graph ?w]
    by (auto simp: demo_cold_env_def)
  then obtain c1 where c1: "cw_file w1 = Some c1"
    using MoveToCold_nodes(2) [of ?now "ce_move demo_cold_env" "cold_opts 0" demo_old_graph ?w] by (simp add: demo_cold_env_def)
  obtain g2 c2 docs' e where b: "RestoreFromCold (ce_move demo_cold_env) moved (Some g1) (cw_file w1) [] = ((Some g2, Some c2, docs'), e)"
    using RestoreFromCold_Some c1 by metis
  have "set (kg_Edges g2) = set (kg_Edges demo_old_graph) \<and> kg_Edges c2 = []"
    using cold_roundtrip [OF demo_old_graph_wf ends _ r m b] by simp
  then show ?thesis using m b by (auto simp: demo_old_graph_def)
qed

text \<open>When the cold graph cannot be read, a swap stores the removed nodes only: what was cold before is gone.\<close>

lemma swap_forgets_unreadable_cold:
  assumes "gowf (kg_Nodes g)" "\<not> ci_load io" "SwapCurated now io opts g c w = ((c', w'), None)"
    "mget (kg_Nodes g) k = None"
  shows "mget (kg_Nodes (stored_cold w')) k = None"
proof -
  define ms where "ms = filter (\<lambda>(k, n). mget (kg_Nodes c) k = None) (kg_Nodes g)"
  have gm: "gowf ms" using assms(1) by (simp add: ms_def)
  have mk: "mget ms k = None" unfolding ms_def mget_filter [OF assms(1)] by (simp add: assms(4))
  have "stored_cold w' = (swap_cold now opts g c NewGraph)\<lparr>kg_UpdatedAt := now\<rparr>"
    using assms(2,3) by (auto simp: SwapCurated_eq Let_def stored_cold_def [of w'] split: if_split_asm)
  moreover have "mget (put_cold now ms []) k = None" using put_cold_get [OF gm, of now "[]" k] mk by simp
  moreover have "gowf (put_cold now ms [])" by (rule gowf_put_cold) simp
  ultimately show ?thesis
    unfolding swap_cold_def Let_def ms_def [symmetric] by (simp add: NewGraph_def purge_kept)
qed

end
