(* ===== verification/KnowledgeLookup.thy ===== *)
theory KnowledgeLookup
  imports KnowledgeCold
begin

text \<open>
  Looking knowledge up (internal/knowledge: lookup.go, the search of cold.go): the agent's own nodes, up to
  five nodes that match the words of the task, and what a breadth-first search reaches from them,
  ranked by a score and capped. The scores are \<open>float64\<close>: every operation rounds its exact result, and the
  rounding \<open>rnd\<close> is an argument. The score of depth zero is one divided by zero, which is infinity.
\<close>

record LookupOpts =
  lo_MaxDepth :: int
  lo_MaxNodes :: int

definition lookup_maxDepth :: "LookupOpts \<Rightarrow> nat" where
  "lookup_maxDepth o' = nat (if lo_MaxDepth o' \<le> 0 then 2 else lo_MaxDepth o')"

definition lookup_maxNodes :: "LookupOpts \<Rightarrow> nat" where
  "lookup_maxNodes o' = nat (if lo_MaxNodes o' \<le> 0 then 15 else lo_MaxNodes o')"

section \<open>Words and scores\<close>

text \<open>\<open>strings.FieldsFunc\<close> with the characters that are neither letters nor digits as separators.\<close>

fun fields_alnum :: "string \<Rightarrow> string \<Rightarrow> string list" where
  "fields_alnum cur [] = (if cur = [] then [] else [rev cur])"
| "fields_alnum cur (c # s) =
     (if char_alnum c then fields_alnum (c # cur) s
      else if cur = [] then fields_alnum [] s else rev cur # fields_alnum [] s)"

text \<open>The set of words as a list without repetition.\<close>

definition Tokenize :: "string \<Rightarrow> string list" where
  "Tokenize s = remdups (filter (\<lambda>w. length w \<ge> 3) (fields_alnum [] (to_lower s)))"

definition KeywordRelevance :: "(rat \<Rightarrow> rat) \<Rightarrow> string \<Rightarrow> string list \<Rightarrow> rat" where
  "KeywordRelevance rnd text keywords =
     (if keywords = [] then 0
      else
        (let textTokens = Tokenize text
         in rnd (of_nat (length (filter (\<lambda>kw. kw \<in> set textTokens) keywords)) / of_nat (length keywords))))"

definition keywordOverlap :: "(rat \<Rightarrow> rat) \<Rightarrow> KNode \<Rightarrow> string list \<Rightarrow> rat" where
  "keywordOverlap rnd node keywords =
     (if keywords = [] then 0
      else
        (let nodeTokens = Tokenize (kn_Title node @ '' '' @ kn_Summary node) @ concat (map Tokenize (kn_Tags node))
         in rnd (of_nat (length (filter (\<lambda>kw. kw \<in> set nodeTokens) keywords)) / of_nat (length keywords))))"

definition keywordScore :: "(rat \<Rightarrow> rat) \<Rightarrow> KNode \<Rightarrow> string list \<Rightarrow> rat" where
  "keywordScore rnd node keywords = (if keywords = [] then 0 else keywordOverlap rnd node keywords)"

datatype score = Infinite | Finite rat

fun score_add :: "(rat \<Rightarrow> rat) \<Rightarrow> score \<Rightarrow> rat \<Rightarrow> score" where
  "score_add rnd Infinite y = Infinite"
| "score_add rnd (Finite x) y = Finite (rnd (x + y))"

fun score_greater :: "score \<Rightarrow> score \<Rightarrow> bool" where
  "score_greater Infinite (Finite _) = True"
| "score_greater (Finite x) (Finite y) = (x > y)"
| "score_greater _ Infinite = False"

definition computeScore :: "(rat \<Rightarrow> rat) \<Rightarrow> KNode \<Rightarrow> nat \<Rightarrow> string list \<Rightarrow> score" where
  "computeScore rnd node depth keywords =
     (let depthScore = (if depth = 0 then Infinite else Finite (rnd (1 / of_nat depth)));
          confidenceBonus = rnd (kn_Confidence node * (1 / 2))
      in if keywords = [] then score_add rnd depthScore confidenceBonus
         else score_add rnd (score_add rnd depthScore (keywordOverlap rnd node keywords)) confidenceBonus)"

text \<open>The doubles nearest to 0.1 and 0.05.\<close>

definition float_01 :: rat where "float_01 = 3602879701896397 / 36028797018963968"
definition float_005 :: rat where "float_005 = 3602879701896397 / 72057594037927936"

section \<open>The search\<close>

text \<open>\<open>buildAdjacency\<close>, read at one node: its neighbours in the order of the edges.\<close>

definition neighbours :: "Edge list \<Rightarrow> string \<Rightarrow> string list" where
  "neighbours es k =
     concat (map (\<lambda>e. (if ed_From e = k then [ed_To e] else []) @ (if ed_To e = k then [ed_From e] else [])) es)"

text \<open>The node is there, not stale and not superseded.\<close>

definition live_at :: "time \<Rightarrow> Graph \<Rightarrow> string \<Rightarrow> bool" where
  "live_at now g k = (case mget (kg_Nodes g) k of None \<Rightarrow> False | Some n \<Rightarrow> active now g k n)"

text \<open>The inner loop: visited IDs, discovered ones, and the queue.\<close>

fun bfs_expand :: "(string \<Rightarrow> bool) \<Rightarrow> nat \<Rightarrow> string list \<Rightarrow> string list \<times> (string \<times> nat) list \<times> (string \<times> nat) list \<Rightarrow>
    string list \<times> (string \<times> nat) list \<times> (string \<times> nat) list" where
  "bfs_expand live d [] acc = acc"
| "bfs_expand live d (k # ks) (visited, found, queue) =
     (if k \<in> set visited \<or> \<not> live k then bfs_expand live d ks (visited, found, queue)
      else bfs_expand live d ks (k # visited, found @ [(k, d)], queue @ [(k, d)]))"

lemma bfs_expand_fresh:
  assumes "finite K" "\<And>k. live k \<Longrightarrow> k \<in> K" "bfs_expand live d ks (v, f, q) = (v', f', q')"
  shows "length q' + 2 * card (K - set v') \<le> length q + 2 * card (K - set v)"
  using assms(3)
proof (induction ks arbitrary: v f q)
  case (Cons k ks)
  show ?case
  proof (cases "k \<in> set v \<or> \<not> live k")
    case True
    then show ?thesis using Cons by simp
  next
    case False
    then have "k \<in> K - set v" using assms(2) by simp
    moreover have "K - set (k # v) = (K - set v) - {k}" by auto
    ultimately have "Suc (card (K - set (k # v))) = card (K - set v)"
      using assms(1) card_Suc_Diff1 [of "K - set v" k] by simp
    then show ?thesis using Cons.IH [of "k # v" "f @ [(k, d)]" "q @ [(k, d)]"] Cons.prems False by simp
  qed
qed simp

lemma live_at_key: "live_at now g k \<Longrightarrow> k \<in> set (mkeys (kg_Nodes g))"
  by (auto simp: live_at_def split: option.splits dest!: map_of_SomeD) force

function (sequential) bfs :: "time \<Rightarrow> Graph \<Rightarrow> nat \<Rightarrow> string list \<Rightarrow> (string \<times> nat) list \<Rightarrow> (string \<times> nat) list \<Rightarrow>
    string list \<times> (string \<times> nat) list" where
  "bfs now g maxDepth visited found [] = (visited, found)"
| "bfs now g maxDepth visited found ((k, d) # queue) =
     (if d \<ge> maxDepth then bfs now g maxDepth visited found queue
      else
        (case bfs_expand (live_at now g) (d + 1) (neighbours (kg_Edges g) k) (visited, found, queue) of
           (visited', found', queue') \<Rightarrow> bfs now g maxDepth visited' found' queue'))"
  by pat_completeness auto
termination
proof (relation "measure (\<lambda>(now, g, m, v, f, q). length q + 2 * card (set (mkeys (kg_Nodes g)) - set v))")
  fix now g maxDepth v f k q and d :: nat and v' y f' q'
  assume "\<not> maxDepth \<le> d"
    "(v', y) = bfs_expand (live_at now g) (d + 1) (neighbours (kg_Edges g) k) (v, f, q)" "(f', q') = y"
  then have "bfs_expand (live_at now g) (d + 1) (neighbours (kg_Edges g) k) (v, f, q) = (v', f', q')" by simp
  from bfs_expand_fresh [OF finite_set live_at_key [of now g] this]
  show "((now, g, maxDepth, v', f', q'), now, g, maxDepth, v, f, (k, d) # q)
      \<in> measure (\<lambda>(now, g, m, v, f, q). length q + 2 * card (set (mkeys (kg_Nodes g)) - set v))"
    by simp
qed simp_all

section \<open>Lookup\<close>

record RelatedNode =
  rn_ID :: string
  rn_Depth :: nat
  rn_Relations :: "string list"
  rn_Score :: score

record LookupResult =
  lr_Own :: "string list"
  lr_Related :: "RelatedNode list"

text \<open>\<open>addKeywordSeeds\<close>: the five best matches of the words among the live nodes that are no seeds yet.\<close>

definition addKeywordSeeds :: "time \<Rightarrow> (rat \<Rightarrow> rat) \<Rightarrow> Graph \<Rightarrow> string list \<Rightarrow> string list \<Rightarrow> string list" where
  "addKeywordSeeds now rnd g keywords seeds =
     (if keywords = [] then seeds
      else
        (let matches = filter (\<lambda>(k, s). s > float_01)
               (map (\<lambda>(k, n). (k, keywordScore rnd n keywords))
                 (filter (\<lambda>(k, n). \<not> (\<not> active now g k n \<or> k \<in> set seeds)) (kg_Nodes g)))
         in seeds @ map fst (take 5 (sort_slice (\<lambda>a b. snd a > snd b) matches))))"

definition relation_at :: "string list \<Rightarrow> string \<Rightarrow> Edge \<Rightarrow> string" where
  "relation_at visited k e =
     (if ed_From e = k \<and> ed_To e \<in> set visited then ed_Relation e
      else if ed_To e = k \<and> ed_From e \<in> set visited then ed_Relation e else '''')"

text \<open>The relations of a node, each at its first place.\<close>

fun collect_distinct :: "string list \<Rightarrow> string list \<Rightarrow> string list" where
  "collect_distinct seen [] = []"
| "collect_distinct seen (r # rs) =
     (if r \<noteq> '''' \<and> r \<notin> set seen then r # collect_distinct (r # seen) rs else collect_distinct seen rs)"

definition collectRelations :: "Edge list \<Rightarrow> string list \<Rightarrow> string list \<Rightarrow> string \<Rightarrow> string list" where
  "collectRelations es seeds visited k = collect_distinct [] (map (relation_at (seeds @ visited) k) es)"

definition bfsRelated :: "time \<Rightarrow> (rat \<Rightarrow> rat) \<Rightarrow> Graph \<Rightarrow> string list \<Rightarrow> string \<Rightarrow> string list \<Rightarrow> LookupOpts \<Rightarrow> RelatedNode list" where
  "bfsRelated now rnd g seeds agent keywords opts =
     (case bfs now g (lookup_maxDepth opts) seeds [] (map (\<lambda>k. (k, 0)) seeds) of
        (visited, found) \<Rightarrow>
          (let all = found @ map (\<lambda>k. (k, 0)) (filter (\<lambda>k.
                 case mget (kg_Nodes g) k of None \<Rightarrow> False | Some n \<Rightarrow> kn_Agent n \<noteq> agent) seeds);
               related = concat (map (\<lambda>(k, d).
                 case mget (kg_Nodes g) k of
                   None \<Rightarrow> []
                 | Some node \<Rightarrow>
                     if kn_Agent node = agent then []
                     else [\<lparr>rn_ID = k, rn_Depth = d, rn_Relations = collectRelations (kg_Edges g) seeds visited k,
                            rn_Score = computeScore rnd node d keywords\<rparr>]) all)
           in take (lookup_maxNodes opts) (sort_slice (\<lambda>a b. score_greater (rn_Score a) (rn_Score b)) related)))"

text \<open>\<open>recordHits\<close>: the nodes are pointers into the graph, so the hits are counted there.\<close>

definition record_hits :: "time \<Rightarrow> string list \<Rightarrow> Graph \<Rightarrow> Graph" where
  "record_hits now ks g =
     g\<lparr>kg_Nodes := map_entries (\<lambda>k n. if k \<in> set ks then RecordHit now n else n) (kg_Nodes g)\<rparr>"

definition own_nodes :: "time \<Rightarrow> string \<Rightarrow> Graph \<Rightarrow> string list" where
  "own_nodes now agent g = map fst (filter (\<lambda>(k, n). kn_Agent n = agent \<and> active now g k n) (kg_Nodes g))"

definition Lookup :: "time \<Rightarrow> (rat \<Rightarrow> rat) \<Rightarrow> Graph option \<Rightarrow> string \<Rightarrow> string \<Rightarrow> LookupOpts \<Rightarrow> LookupResult \<times> Graph option" where
  "Lookup now rnd graph agent taskDesc opts =
     (case graph of
        None \<Rightarrow> (\<lparr>lr_Own = [], lr_Related = []\<rparr>, None)
      | Some g \<Rightarrow>
          (let keywords = Tokenize taskDesc;
               own = own_nodes now agent g;
               seeds = addKeywordSeeds now rnd g keywords own
           in if seeds = [] then (\<lparr>lr_Own = own, lr_Related = []\<rparr>, Some g)
              else
                (let related = bfsRelated now rnd g seeds agent keywords opts
                 in (\<lparr>lr_Own = own, lr_Related = related\<rparr>, Some (record_hits now (own @ map rn_ID related) g)))))"

definition LookupDual :: "time \<Rightarrow> (rat \<Rightarrow> rat) \<Rightarrow> Graph option \<Rightarrow> Graph option \<Rightarrow> string \<Rightarrow> string \<Rightarrow> LookupOpts \<Rightarrow>
    LookupResult \<times> Graph option \<times> Graph option" where
  "LookupDual now rnd agentGraph sharedGraph agent taskDesc opts =
     (case agentGraph of
        None \<Rightarrow> (case Lookup now rnd sharedGraph agent taskDesc opts of (r, shared) \<Rightarrow> (r, None, shared))
      | Some ag \<Rightarrow>
          (let keywords = Tokenize taskDesc;
               own = own_nodes now agent ag;
               only_own = (\<lparr>lr_Own = own, lr_Related = []\<rparr>, Some (record_hits now own ag), sharedGraph)
           in case sharedGraph of
                None \<Rightarrow> only_own
              | Some g \<Rightarrow>
                  if kg_Edges g = [] \<and> keywords = [] then only_own
                  else
                    (let seeds = addKeywordSeeds now rnd g keywords (own_nodes now agent g)
                     in if seeds = [] then only_own
                        else
                          (let related = bfsRelated now rnd g seeds agent keywords opts
                           in (\<lparr>lr_Own = own, lr_Related = related\<rparr>, Some (record_hits now own ag),
                               Some (record_hits now (map rn_ID related) g))))))"

section \<open>Searching the cold graph (cold.go)\<close>

definition LookupCold :: "(rat \<Rightarrow> rat) \<Rightarrow> Graph option \<Rightarrow> string \<Rightarrow> int \<Rightarrow> KNode list" where
  "LookupCold rnd coldGraph query maxResults =
     (case coldGraph of
        None \<Rightarrow> []
      | Some g \<Rightarrow>
          if kg_Nodes g = [] \<or> query = '''' then []
          else
            (let cap = nat (if maxResults \<le> 0 then 10 else maxResults);
                 keywords = Tokenize query
             in if keywords = [] then []
                else
                  (let matches = filter (\<lambda>(n, s). s > float_005)
                         (map (\<lambda>n. (n, keywordOverlap rnd n keywords)) (mvals (kg_Nodes g)))
                   in map fst (take cap (sort_slice (\<lambda>a b. snd a > snd b) matches)))))"

definition FormatColdResults :: "KNode list \<Rightarrow> string" where
  "FormatColdResults nodes =
     (if nodes = [] then ''''
      else ''## Archived Knowledge (Cold Storage)'' @ newline @
        ''The following knowledge was archived during curation. It may still be relevant:'' @ newline @ newline @
        concat (map (\<lambda>n. ''- **'' @ kn_Title n @ ''**: '' @ kn_Summary n @
          (if kn_RequestName n \<noteq> '''' then '' *(from: '' @ kn_RequestName n @ '')*'' else '''') @ newline) nodes))"

section \<open>The search finds what is within reach\<close>

text \<open>The reference: the nodes at most \<open>d\<close> hops from the seeds, every hop to a live node.\<close>

fun hops :: "time \<Rightarrow> Graph \<Rightarrow> string set \<Rightarrow> nat \<Rightarrow> string set" where
  "hops now g S 0 = S"
| "hops now g S (Suc d) =
     hops now g S d \<union> {k. live_at now g k \<and> (\<exists>j \<in> hops now g S d. k \<in> set (neighbours (kg_Edges g) j))}"

definition live_next :: "time \<Rightarrow> Graph \<Rightarrow> string \<Rightarrow> string set" where
  "live_next now g j = {k \<in> set (neighbours (kg_Edges g) j). live_at now g k}"

lemma hops_Suc: "hops now g S (Suc d) = hops now g S d \<union> (\<Union>j \<in> hops now g S d. live_next now g j)"
  by (auto simp: live_next_def)

declare hops.simps(2) [simp del]

lemma hops_mono: "d \<le> d' \<Longrightarrow> hops now g S d \<subseteq> hops now g S d'"
  by (induction d' rule: nat_induct) (auto simp: hops_Suc le_Suc_eq)

lemma hops_stable:
  assumes "hops now g S (Suc k) = hops now g S k"
  shows "k \<le> d \<Longrightarrow> hops now g S d = hops now g S k"
proof (induction d)
  case (Suc d)
  then show ?case
  proof (cases "k = Suc d")
    case False
    then have "hops now g S d = hops now g S k" using Suc by simp
    then show ?thesis using assms by (simp add: hops_Suc)
  qed simp
qed simp

lemma bfs_expand_result:
  "bfs_expand live d ks (v, f, q) = (v', f', q') \<Longrightarrow>
   \<exists>new. f' = f @ map (\<lambda>k. (k, d)) new \<and> q' = q @ map (\<lambda>k. (k, d)) new \<and> set v' = set v \<union> set new \<and>
     set new = {k \<in> set ks. live k} - set v \<and> distinct new"
proof (induction ks arbitrary: v f q)
  case (Cons k ks)
  show ?case
  proof (cases "k \<in> set v \<or> \<not> live k")
    case True
    then show ?thesis using Cons by fastforce
  next
    case False
    then have "bfs_expand live d ks (k # v, f @ [(k, d)], q @ [(k, d)]) = (v', f', q')" using Cons.prems by simp
    from Cons.IH [OF this] obtain new where n: "f' = (f @ [(k, d)]) @ map (\<lambda>k. (k, d)) new"
        "q' = (q @ [(k, d)]) @ map (\<lambda>k. (k, d)) new" "set v' = set (k # v) \<union> set new"
        "set new = {k \<in> set ks. live k} - set (k # v)" "distinct new" by blast
    then show ?thesis using False by (intro exI [of _ "k # new"]) auto
  qed
qed simp

text \<open>
  The invariant of the loop at depth \<open>k\<close>: the queue holds nodes \<open>A\<close> of this depth and then nodes \<open>B\<close> of
  the next; all nodes of this depth are visited, and so is what comes after those that left the queue.
\<close>

definition bfs_inv :: "time \<Rightarrow> Graph \<Rightarrow> string set \<Rightarrow> nat \<Rightarrow> nat \<Rightarrow> string list \<Rightarrow> (string \<times> nat) list \<Rightarrow> string list \<Rightarrow> string list \<Rightarrow> bool" where
  "bfs_inv now g S m k v f A B =
     (k \<le> m \<and> (k = m \<longrightarrow> B = []) \<and> set A \<subseteq> hops now g S k \<and>
      set v = hops now g S k \<union> set B \<and> set B \<inter> hops now g S k = {} \<and> set B \<subseteq> hops now g S (Suc k) \<and>
      (k < m \<longrightarrow> (\<forall>j \<in> hops now g S k - set A. live_next now g j \<subseteq> set v)) \<and>
      distinct (map fst f) \<and>
      (\<forall>x d. (x, d) \<in> set f \<longleftrightarrow>
        d \<ge> 1 \<and> (d \<le> k \<and> x \<in> hops now g S d - hops now g S (d - 1) \<or> d = Suc k \<and> x \<in> set B)))"

lemma bfs_invD:
  assumes "bfs_inv now g S m k v f A B"
  shows "k \<le> m" "k = m \<Longrightarrow> B = []" "set A \<subseteq> hops now g S k" "set v = hops now g S k \<union> set B"
    "set B \<inter> hops now g S k = {}" "set B \<subseteq> hops now g S (Suc k)"
    "k < m \<Longrightarrow> j \<in> hops now g S k - set A \<Longrightarrow> live_next now g j \<subseteq> set v" "distinct (map fst f)"
    "(x, d) \<in> set f \<longleftrightarrow>
        d \<ge> 1 \<and> (d \<le> k \<and> x \<in> hops now g S d - hops now g S (d - 1) \<or> d = Suc k \<and> x \<in> set B)"
  using assms [unfolded bfs_inv_def] by ((elim conjE)?; (assumption | (rule mp, assumption) | (elim conjE allE, assumption) | metis))+

lemma bfs_inv_next:
  assumes "bfs_inv now g S m k v f [] B" "k < m"
  shows "bfs_inv now g S m (Suc k) v f B [] \<and> set v = hops now g S (Suc k)"
proof -
  let ?H = "hops now g S"
  note I = bfs_invD [OF assms(1)]
  have "live_next now g j \<subseteq> set v" if "j \<in> ?H k" for j using I(7) [OF assms(2)] that by simp
  then have "?H (Suc k) \<subseteq> set v" unfolding hops_Suc using I(4) by blast
  then have v: "set v = ?H (Suc k)" using I(4,6) hops_mono [of k "Suc k" now g S] by auto
  have B: "set B = ?H (Suc k) - ?H k" using I(4,5) v by blast
  have "(x, d) \<in> set f \<longleftrightarrow> d \<ge> 1 \<and> (d \<le> Suc k \<and> x \<in> ?H d - ?H (d - 1) \<or> d = Suc (Suc k) \<and> x \<in> set [])" for x d
    unfolding I(9) by (cases "d = Suc k") (simp_all add: B le_Suc_eq)
  moreover have "live_next now g j \<subseteq> set v" if "j \<in> ?H (Suc k) - set B" for j
    using that I(7) [OF assms(2), of j] B by simp
  ultimately show ?thesis
    unfolding bfs_inv_def using assms(2) I(6,8) v by simp
qed

lemma bfs_inv_pop:
  assumes "bfs_inv now g S m k v f (x # A) B" "k = m"
  shows "bfs_inv now g S m k v f A B"
  using assms unfolding bfs_inv_def by simp

lemma bfs_inv_expand:
  assumes i: "bfs_inv now g S m k v f (x # A) B" and "k < m"
    and e: "bfs_expand (live_at now g) (Suc k) (neighbours (kg_Edges g) x) (v, f, q) = (v', f', q')"
  shows "\<exists>new. q' = q @ map (\<lambda>y. (y, Suc k)) new \<and> bfs_inv now g S m k v' f' A (B @ new)"
proof -
  let ?H = "hops now g S"
  note I = bfs_invD [OF i]
  obtain new where n: "f' = f @ map (\<lambda>y. (y, Suc k)) new" "q' = q @ map (\<lambda>y. (y, Suc k)) new"
      "set v' = set v \<union> set new" "set new = live_next now g x - set v" "distinct new"
    using bfs_expand_result [OF e] unfolding live_next_def by blast
  have x: "x \<in> ?H k" using I(3) by simp
  have "set (B @ new) \<inter> ?H k = {}" using I(4,5) n(4) by auto
  moreover have "set (B @ new) \<subseteq> ?H (Suc k)" using I(6) n(4) x by (auto simp: hops_Suc)
  moreover have "set v' = ?H k \<union> set (B @ new)" using I(4) n(3) by auto
  moreover have "live_next now g j \<subseteq> set v'" if "j \<in> ?H k - set A" for j
    using that I(7) [OF assms(2), of j] n(3,4) by (cases "j = x") auto
  moreover have "fst ` set f \<subseteq> set v"
    using I(4,9) hops_mono [of _ k now g S] by fastforce
  then have "distinct (map fst f')" using I(8) n(1,4,5) by (auto simp: comp_def)
  moreover have "(y, d) \<in> set f' \<longleftrightarrow>
      d \<ge> 1 \<and> (d \<le> k \<and> y \<in> ?H d - ?H (d - 1) \<or> d = Suc k \<and> y \<in> set (B @ new))" for y d
    unfolding n(1) set_append Un_iff I(9) by auto
  ultimately have "bfs_inv now g S m k v' f' A (B @ new)"
    unfolding bfs_inv_def using I(1,3) assms(2) by simp
  then show ?thesis using n(2) by blast
qed

lemma bfs_correct:
  assumes "bfs_inv now g S m k v f A B" "q = map (\<lambda>x. (x, k)) A @ map (\<lambda>x. (x, Suc k)) B"
    "bfs now g m v f q = (v', f')"
  shows "set v' = hops now g S m \<and> distinct (map fst f') \<and>
    (\<forall>x d. (x, d) \<in> set f' \<longleftrightarrow> 1 \<le> d \<and> d \<le> m \<and> x \<in> hops now g S d - hops now g S (d - 1))"
  using assms
proof (induction now g m v f q arbitrary: k A B v' f' rule: bfs.induct)
  case (1 now g m v f)
  let ?H = "hops now g S"
  have AB: "A = []" "B = []" using 1(2) by simp_all
  note I = bfs_invD [OF 1(1) [unfolded AB]]
  have st: "?H d = ?H k" if "k \<le> d" "k < m" for d
  proof -
    have "?H (Suc k) = ?H k" using bfs_inv_next [OF 1(1) [unfolded AB] \<open>k < m\<close>] I(4) by simp
    then show ?thesis using hops_stable that(1) by blast
  qed
  have "set v = ?H m" using I(1,4) st [of m] by (cases "k = m") auto
  moreover have "(x, d) \<in> set f \<longleftrightarrow> 1 \<le> d \<and> d \<le> m \<and> x \<in> ?H d - ?H (d - 1)" for x d
  proof (cases "d \<le> k")
    case True
    then show ?thesis unfolding I(9) using I(1) by simp
  next
    case False
    then have "d \<le> m \<Longrightarrow> ?H d = ?H (d - 1)" using st [of d] st [of "d - 1"] by simp
    then show ?thesis unfolding I(9) using False by auto
  qed
  ultimately show ?case using 1(3) I(8) by simp
next
  case (2 now g m v f x d q)
  obtain k' A' B' where i: "bfs_inv now g S m k' v f (x # A') B'" and d: "d = k'"
    and q: "q = map (\<lambda>x. (x, k')) A' @ map (\<lambda>x. (x, Suc k')) B'"
  proof (cases A)
    case Nil
    then obtain B'' where B: "B = x # B''" "d = Suc k" "q = map (\<lambda>x. (x, Suc k)) B''" using 2(4) by auto
    then have "k < m" using bfs_invD(1,2) [OF 2(3)] by force
    then show ?thesis using that [of "Suc k" B'' "[]"] bfs_inv_next [of now g S m k v f B] 2(3) Nil B by simp
  next
    case (Cons y A'')
    then show ?thesis using that [of k A'' B] 2(3,4) by simp
  qed
  show ?case
  proof (cases "d \<ge> m")
    case True
    then have "k' = m" using bfs_invD(1) [OF i] d by simp
    then show ?thesis using 2(1) [OF True bfs_inv_pop [OF i] q] 2(5) True by simp
  next
    case False
    obtain v1 f1 q1 where e: "bfs_expand (live_at now g) (d + 1) (neighbours (kg_Edges g) x) (v, f, q) = (v1, f1, q1)"
      using prod_cases3 by blast
    have "k' < m" using False d by simp
    have "bfs_expand (live_at now g) (Suc k') (neighbours (kg_Edges g) x) (v, f, q) = (v1, f1, q1)"
      using e d by simp
    from bfs_inv_expand [OF i \<open>k' < m\<close> this]
    obtain new where n: "q1 = q @ map (\<lambda>y. (y, Suc k')) new" "bfs_inv now g S m k' v1 f1 A' (B' @ new)"
      by blast
    have "bfs now g m v1 f1 q1 = (v', f')" using 2(5) False e by simp
    then show ?thesis using 2(2) [OF False e [symmetric] refl n(2)] q n(1) by simp
  qed
qed

text \<open>
  The search of \<open>Lookup\<close> against its reference: for a set of seeds the breadth-first search
  ends, visits exactly the nodes at most \<open>maxDepth\<close> hops away from them over live nodes (there, not stale,
  not superseded), and reports each of them that is no seed once, with its distance.
\<close>

lemma bfs_reach:
  assumes "bfs now g maxDepth seeds [] (map (\<lambda>k. (k, 0)) seeds) = (visited, found)"
  shows "set visited = hops now g (set seeds) maxDepth \<and> distinct (map fst found) \<and>
    (\<forall>k d. (k, d) \<in> set found \<longleftrightarrow>
      1 \<le> d \<and> d \<le> maxDepth \<and> k \<in> hops now g (set seeds) d \<and> k \<notin> hops now g (set seeds) (d - 1))"
proof -
  have "bfs_inv now g (set seeds) maxDepth 0 seeds [] seeds []"
    by (auto simp: bfs_inv_def)
  from bfs_correct [OF this _ assms] show ?thesis by simp
qed

section \<open>What a lookup returns\<close>

lemma own_nodes_iff:
  "gowf (kg_Nodes g) \<Longrightarrow> k \<in> set (own_nodes now agent g) \<longleftrightarrow>
     (\<exists>n. mget (kg_Nodes g) k = Some n \<and> kn_Agent n = agent \<and> active now g k n)"
  by (auto simp: own_nodes_def image_iff split_beta)

lemma own_nodes_live: "gowf (kg_Nodes g) \<Longrightarrow> k \<in> set (own_nodes now agent g) \<Longrightarrow> live_at now g k"
  by (auto simp: own_nodes_iff live_at_def simp del: map_of_eq_Some_iff)

lemma seeds_live:
  assumes "gowf (kg_Nodes g)" "\<And>k. k \<in> set seeds \<Longrightarrow> live_at now g k"
  shows "k \<in> set (addKeywordSeeds now rnd g keywords seeds) \<Longrightarrow> live_at now g k"
proof -
  assume k: "k \<in> set (addKeywordSeeds now rnd g keywords seeds)"
  have "live_at now g k" if "k \<notin> set seeds"
  proof -
    have "\<exists>n. (k, n) \<in> set (kg_Nodes g) \<and> active now g k n"
      using k that by (auto simp: addKeywordSeeds_def Let_def split: if_split_asm dest!: in_set_takeD)
    then show ?thesis using assms(1) by (auto simp: live_at_def)
  qed
  then show ?thesis using assms(2) by blast
qed

lemma seeds_distinct:
  assumes "gowf (kg_Nodes g)"
  shows "distinct (addKeywordSeeds now rnd g keywords (own_nodes now agent g))"
proof -
  have own: "distinct (own_nodes now agent g)"
    using assms unfolding own_nodes_def by (intro distinct_map_filter) simp
  define ms where "ms = filter (\<lambda>(k, s). s > float_01)
      (map (\<lambda>(k, n). (k, keywordScore rnd n keywords))
        (filter (\<lambda>(k, n). \<not> (\<not> active now g k n \<or> k \<in> set (own_nodes now agent g))) (kg_Nodes g)))"
  let ?lt = "\<lambda>a b :: string \<times> rat. snd a > snd b"
  have "distinct (map fst ms)"
    unfolding ms_def using assms by (intro distinct_map_filter) (simp add: comp_def split_beta distinct_map_filter)
  then have "distinct (map fst (sort_slice ?lt ms))" by simp
  then have "distinct (map fst (take 5 (sort_slice ?lt ms)))" by (simp only: take_map [symmetric] distinct_take)
  moreover have "set (map fst (take 5 (sort_slice ?lt ms))) \<inter> set (own_nodes now agent g) = {}"
    by (auto simp: ms_def dest!: in_set_takeD)
  moreover have "addKeywordSeeds now rnd g keywords (own_nodes now agent g) =
      (if keywords = [] then own_nodes now agent g else own_nodes now agent g @ map fst (take 5 (sort_slice ?lt ms)))"
    by (simp add: addKeywordSeeds_def Let_def ms_def)
  ultimately show ?thesis using own by (simp add: Int_commute del: set_map)
qed

lemma seeds_few:
  "\<exists>ks. addKeywordSeeds now rnd g keywords seeds = seeds @ ks \<and> length ks \<le> 5"
  by (simp add: addKeywordSeeds_def Let_def)

lemma hops_live: "\<forall>k \<in> S. live_at now g k \<Longrightarrow> k \<in> hops now g S d \<Longrightarrow> live_at now g k"
  by (induction d arbitrary: k) (auto simp: hops_Suc live_next_def)

lemma hops_first:
  "k \<in> hops now g S m \<Longrightarrow> k \<notin> S \<Longrightarrow> \<exists>d. 1 \<le> d \<and> d \<le> m \<and> k \<in> hops now g S d \<and> k \<notin> hops now g S (d - 1)"
proof (induction m)
  case (Suc m)
  then show ?case by (cases "k \<in> hops now g S m") (auto intro: le_SucI)
qed simp

text \<open>
  How far a node is from the seeds: the least number of hops over live nodes. What the search has to report of
  a foreign node: this distance, the relations of the edges that connect it to what was reached, and the score of its distance and words.
\<close>

definition hop_distance :: "time \<Rightarrow> Graph \<Rightarrow> string set \<Rightarrow> string \<Rightarrow> nat \<Rightarrow> bool" where
  "hop_distance now g S k d \<longleftrightarrow> k \<in> hops now g S d \<and> (\<forall>d' < d. k \<notin> hops now g S d')"

definition candidate :: "time \<Rightarrow> (rat \<Rightarrow> rat) \<Rightarrow> Graph \<Rightarrow> string set \<Rightarrow> string list \<Rightarrow> string \<Rightarrow> RelatedNode \<Rightarrow> bool" where
  "candidate now rnd g S keywords agent x =
     (\<exists>n. mget (kg_Nodes g) (rn_ID x) = Some n \<and> kn_Agent n \<noteq> agent \<and> hop_distance now g S (rn_ID x) (rn_Depth x) \<and>
        rn_Score x = computeScore rnd n (rn_Depth x) keywords)"

lemma hop_distance_unique: "hop_distance now g S k d \<Longrightarrow> hop_distance now g S k d' \<Longrightarrow> d = d'"
  by (metis hop_distance_def linorder_neqE_nat)

lemma hop_distance_seed: "k \<in> S \<Longrightarrow> hop_distance now g S k 0"
  by (simp add: hop_distance_def)

lemma hop_distance_pred:
  assumes "1 \<le> d" "k \<in> hops now g S d" "k \<notin> hops now g S (d - 1)"
  shows "hop_distance now g S k d"
proof -
  have "k \<notin> hops now g S d'" if "d' < d" for d'
  proof -
    have "d' \<le> d - 1" using that by simp
    from hops_mono [OF this] assms(3) show ?thesis by blast
  qed
  then show ?thesis using assms(2) by (simp add: hop_distance_def)
qed

lemma bfsRelated_result:
  fixes opts now g seeds
  defines "H \<equiv> hops now g (set seeds) (lookup_maxDepth opts)"
  assumes dist: "distinct seeds"
  shows "\<exists>all. bfsRelated now rnd g seeds agent kws opts =
      take (lookup_maxNodes opts) (sort_slice (\<lambda>a b. score_greater (rn_Score a) (rn_Score b)) all) \<and>
    (\<forall>x \<in> set all. candidate now rnd g (set seeds) kws agent x \<and> rn_ID x \<in> H) \<and> distinct (map rn_ID all) \<and>
    (\<forall>k \<in> H. \<forall>n. mget (kg_Nodes g) k = Some n \<and> kn_Agent n \<noteq> agent \<longrightarrow> (\<exists>x \<in> set all. rn_ID x = k))"
proof -
  obtain visited found where b: "bfs now g (lookup_maxDepth opts) seeds [] (map (\<lambda>k. (k, 0)) seeds) = (visited, found)"
    by fastforce
  note bf = bfs_reach [OF b]
  define foreign where "foreign = filter (\<lambda>k. case mget (kg_Nodes g) k of None \<Rightarrow> False | Some n \<Rightarrow> kn_Agent n \<noteq> agent) seeds"
  define f where "f = (\<lambda>(k, d). case mget (kg_Nodes g) k of None \<Rightarrow> [] | Some node \<Rightarrow> if kn_Agent node = agent then []
      else [\<lparr>rn_ID = k, rn_Depth = d, rn_Relations = collectRelations (kg_Edges g) seeds visited k,
             rn_Score = computeScore rnd node d kws\<rparr>])"
  define pairs where "pairs = found @ map (\<lambda>k. (k, 0)) foreign"
  define all where "all = concat (map f pairs)"
  have r: "bfsRelated now rnd g seeds agent kws opts =
      take (lookup_maxNodes opts) (sort_slice (\<lambda>a b. score_greater (rn_Score a) (rn_Score b)) all)"
    by (simp add: bfsRelated_def b all_def f_def foreign_def pairs_def)
  have H: "k \<in> H \<longleftrightarrow> k \<in> set seeds \<or> (\<exists>d. (k, d) \<in> set found)" for k
    using bf hops_first [of k now g "set seeds"] hops_mono [of _ "lookup_maxDepth opts" now g "set seeds"]
      hops_mono [of 0 "lookup_maxDepth opts" now g "set seeds"]
    unfolding H_def by (auto simp: subset_iff)
  have pd: "hop_distance now g (set seeds) k d \<and> k \<in> H" if "(k, d) \<in> set pairs" for k d
    using that bf H [of k] hop_distance_pred [of d k now g "set seeds"] hop_distance_seed [of k "set seeds" now g]
    by (auto simp: pairs_def foreign_def)
  have fx: "x \<in> set (f (k, d)) \<Longrightarrow> rn_ID x = k \<and> rn_Depth x = d \<and>
      (\<exists>n. mget (kg_Nodes g) k = Some n \<and> kn_Agent n \<noteq> agent \<and> rn_Score x = computeScore rnd n d kws)" for x k d
    by (cases "mget (kg_Nodes g) k") (auto simp: f_def simp del: map_of_eq_Some_iff split: if_split_asm)
  have cand: "candidate now rnd g (set seeds) kws agent x \<and> rn_ID x \<in> H" if "x \<in> set all" for x
    using that fx pd unfolding all_def candidate_def by fastforce
  have "\<exists>x \<in> set all. rn_ID x = k" if a: "k \<in> H" "mget (kg_Nodes g) k = Some n" "kn_Agent n \<noteq> agent" for k n
  proof -
    have "k \<in> set seeds \<Longrightarrow> (k, 0) \<in> set pairs" using a(2,3) by (force simp: foreign_def pairs_def simp del: map_of_eq_Some_iff)
    moreover have "(k, d) \<in> set found \<Longrightarrow> (k, d) \<in> set pairs" for d by (simp add: pairs_def)
    ultimately obtain d where d: "(k, d) \<in> set pairs" using a(1) H [of k] by blast
    let ?x = "\<lparr>rn_ID = k, rn_Depth = d, rn_Relations = collectRelations (kg_Edges g) seeds visited k,
        rn_Score = computeScore rnd n d kws\<rparr>"
    have "?x \<in> set (f (k, d))" using a(2,3) by (simp add: f_def)
    then have "?x \<in> set all" unfolding all_def using d by fastforce
    then show ?thesis by force
  qed
  moreover have "distinct (map rn_ID all)"
  proof -
    have "k \<notin> set seeds" if "(k, d) \<in> set found" for k d
      using that bf hops_mono [of 0 "d - 1" now g "set seeds"] by fastforce
    then have dp: "distinct (map fst pairs)"
      using bf dist by (auto simp: pairs_def foreign_def comp_def)
    have sub: "map rn_ID (f p) = [fst p] \<or> f p = []" for p
      by (cases p) (auto simp: f_def split: option.split)
    have "distinct (map fst ps) \<Longrightarrow> distinct (map rn_ID (concat (map f ps))) \<and>
        set (map rn_ID (concat (map f ps))) \<subseteq> set (map fst ps)" for ps
    proof (induction ps)
      case (Cons p ps)
      then have IH: "distinct (map rn_ID (concat (map f ps)))" "set (map rn_ID (concat (map f ps))) \<subseteq> set (map fst ps)"
        and p: "fst p \<notin> set (map fst ps)" by simp_all
      have app: "distinct (xs @ ys) \<and> set (xs @ ys) \<subseteq> insert a A"
        if "set xs \<subseteq> {a}" "distinct xs" "distinct ys" "set ys \<subseteq> A" "a \<notin> A" for xs ys :: "string list" and a A
        using that by auto
      have "set (map rn_ID (f p)) \<subseteq> {fst p}" "distinct (map rn_ID (f p))" using sub [of p] by force+
      from app [OF this IH p] show ?case by (simp only: list.map concat.simps map_append list.set)
    qed simp
    then show ?thesis using dp unfolding all_def by blast
  qed
  ultimately show ?thesis using r cand by blast
qed

text \<open>The order of the scores is one \<open>sort.Slice\<close> accepts.\<close>

lemma score_greater_Finite [simp]: "score_greater Infinite s \<longleftrightarrow> s \<noteq> Infinite" "\<not> score_greater s Infinite"
  by (cases s; simp)+

interpretation by_score: slice_order "\<lambda>(a :: RelatedNode) b. score_greater (rn_Score a) (rn_Score b)"
proof
  fix x y z :: RelatedNode
  show "score_greater (rn_Score x) (rn_Score y) \<Longrightarrow> \<not> score_greater (rn_Score y) (rn_Score x)"
    by (cases "rn_Score x"; cases "rn_Score y") simp_all
  show "score_greater (rn_Score x) (rn_Score z) \<Longrightarrow>
      score_greater (rn_Score x) (rn_Score y) \<or> score_greater (rn_Score y) (rn_Score z)"
    by (cases "rn_Score x"; cases "rn_Score y"; cases "rn_Score z") auto
qed

text \<open>
  Claim C27: what a lookup returns. The own nodes are exactly the agent's nodes that are neither stale nor
  superseded. The search starts from them and at most five live nodes that match the words of the
  task. Every related node belongs to another agent, is live, lies within the allowed number of hops of
  the seeds, is returned once, and carries its least number of hops from the seeds as its depth and the score of that depth; there are at
  most the allowed number, best first, and a foreign node within reach is left out only when that number is reached
  and it scores, at its own least number of hops, no better than each of the ones returned. Exactly the returned nodes count a hit.
\<close>

theorem lookup_correct:
  assumes "gowf (kg_Nodes g)" "Lookup now rnd (Some g) agent task opts = (r, g')"
  defines "keywords \<equiv> Tokenize task"
    and "seeds \<equiv> addKeywordSeeds now rnd g (Tokenize task) (own_nodes now agent g)"
  shows "(\<forall>k. k \<in> set (lr_Own r) \<longleftrightarrow> (\<exists>n. mget (kg_Nodes g) k = Some n \<and> kn_Agent n = agent \<and> active now g k n)) \<and>
    (\<exists>ks. seeds = lr_Own r @ ks \<and> length ks \<le> 5) \<and>
    (\<forall>x \<in> set (lr_Related r). candidate now rnd g (set seeds) keywords agent x \<and> live_at now g (rn_ID x) \<and>
       rn_ID x \<in> hops now g (set seeds) (lookup_maxDepth opts)) \<and>
    length (lr_Related r) \<le> lookup_maxNodes opts \<and> distinct (map rn_ID (lr_Related r)) \<and>
    sorted_wrt (\<lambda>x y. \<not> score_greater (rn_Score y) (rn_Score x)) (lr_Related r) \<and>
    (\<forall>k \<in> hops now g (set seeds) (lookup_maxDepth opts). \<forall>n. mget (kg_Nodes g) k = Some n \<and> kn_Agent n \<noteq> agent \<and>
       k \<notin> rn_ID ` set (lr_Related r) \<longrightarrow>
       length (lr_Related r) = lookup_maxNodes opts \<and>
       (\<forall>d. hop_distance now g (set seeds) k d \<longrightarrow>
         (\<forall>x \<in> set (lr_Related r). \<not> score_greater (computeScore rnd n d keywords) (rn_Score x)))) \<and>
    (\<exists>g''. g' = Some g'' \<and> (\<forall>k. mget (kg_Nodes g'') k =
       map_option (\<lambda>n. if k \<in> set (lr_Own r) \<union> rn_ID ` set (lr_Related r) then RecordHit now n else n) (mget (kg_Nodes g) k)))"
proof -
  define H where "H = hops now g (set seeds) (lookup_maxDepth opts)"
  have own: "lr_Own r = own_nodes now agent g"
    using assms(2) by (auto simp: Lookup_def Let_def split: if_split_asm)
  have live: "\<forall>k \<in> set seeds. live_at now g k"
    unfolding seeds_def
    using seeds_live [OF assms(1), of "own_nodes now agent g" now] own_nodes_live [OF assms(1), of _ now agent] by blast
  obtain all where all: "lr_Related r = take (lookup_maxNodes opts) (sort_slice (\<lambda>a b. score_greater (rn_Score a) (rn_Score b)) all)"
      "\<forall>x \<in> set all. candidate now rnd g (set seeds) keywords agent x \<and> rn_ID x \<in> H"
      "\<forall>k \<in> H. \<forall>n. mget (kg_Nodes g) k = Some n \<and> kn_Agent n \<noteq> agent \<longrightarrow> (\<exists>x \<in> set all. rn_ID x = k)"
      "distinct (map rn_ID all)"
  proof (cases "seeds = []")
    case True
    then have "lr_Related r = []" using assms(2) by (auto simp: Lookup_def Let_def seeds_def)
    moreover have "H = {}"
    proof -
      have "hops now g {} d = {}" for d by (induction d) (simp_all add: hops_Suc)
      then show ?thesis using True by (simp add: H_def)
    qed
    ultimately show ?thesis using that [of "[]"] by simp
  next
    case False
    then have "lr_Related r = bfsRelated now rnd g seeds agent keywords opts"
      using assms(2) by (auto simp: Lookup_def Let_def seeds_def keywords_def)
    moreover have "distinct seeds" using seeds_distinct [OF assms(1)] unfolding seeds_def .
    ultimately show ?thesis using that bfsRelated_result [where now = now and rnd = rnd and g = g and seeds = seeds and agent = agent and kws = "keywords" and opts = opts] unfolding H_def by metis
  qed
  let ?lt = "\<lambda>a b. score_greater (rn_Score a) (rn_Score b)"
  let ?m = "lookup_maxNodes opts"
  have srt: "sorted_wrt (\<lambda>x y. \<not> ?lt y x) (take ?m (sort_slice ?lt all) @ drop ?m (sort_slice ?lt all))"
    using by_score.sorted_sort_slice [of all] by simp
  have rel: "x \<in> set (lr_Related r) \<Longrightarrow> x \<in> set all" for x
    unfolding all(1) by (auto dest: in_set_takeD)
  have left: "length (lr_Related r) = ?m \<and>
      (\<forall>d. hop_distance now g (set seeds) k d \<longrightarrow> (\<forall>x \<in> set (lr_Related r). \<not> score_greater (computeScore rnd n d keywords) (rn_Score x)))"
    if k: "k \<in> H" "mget (kg_Nodes g) k = Some n" "kn_Agent n \<noteq> agent" "k \<notin> rn_ID ` set (lr_Related r)" for k n
  proof -
    obtain c where c: "c \<in> set all" "rn_ID c = k" using all(3) k(1-3) by blast
    then have "c \<in> set (take ?m (sort_slice ?lt all) @ drop ?m (sort_slice ?lt all))" by simp
    then have d: "c \<in> set (drop ?m (sort_slice ?lt all))" using c k(4) unfolding set_append Un_iff all(1) by blast
    then have "length (sort_slice ?lt all) > ?m" by (cases "?m < length (sort_slice ?lt all)") auto
    then have "length (lr_Related r) = ?m" unfolding all(1) by simp
    moreover have "\<forall>x \<in> set (lr_Related r). \<not> ?lt c x"
      using srt d unfolding sorted_wrt_append all(1) by blast
    moreover have "rn_Score c = computeScore rnd n d keywords" if "hop_distance now g (set seeds) k d" for d
    proof -
      have "candidate now rnd g (set seeds) keywords agent c" using all(2) c(1) by blast
      then obtain m where m: "mget (kg_Nodes g) k = Some m" "hop_distance now g (set seeds) k (rn_Depth c)"
          "rn_Score c = computeScore rnd m (rn_Depth c) keywords" unfolding candidate_def c(2) by blast
      have "m = n" using m(1) k(2) by (simp only: option.inject)
      moreover have "rn_Depth c = d" by (rule hop_distance_unique [OF m(2) that])
      ultimately show ?thesis using m(3) by (simp only:)
    qed
    ultimately show ?thesis by (simp only: simp_thms) metis
  qed
  have dst: "distinct (map rn_ID (lr_Related r))"
  proof -
    have "distinct (map rn_ID (sort_slice ?lt all))" using all(4) by simp
    then show ?thesis unfolding all(1) by (simp only: take_map [symmetric] distinct_take)
  qed
  have hits: "\<exists>g''. g' = Some g'' \<and> (\<forall>k. mget (kg_Nodes g'') k =
       map_option (\<lambda>n. if k \<in> set (lr_Own r) \<union> rn_ID ` set (lr_Related r) then RecordHit now n else n) (mget (kg_Nodes g) k))"
  proof (cases "seeds = []")
    case True
    then have "lr_Related r = []" "g' = Some g" "own_nodes now agent g = []"
      using assms(2) seeds_few [of now rnd g "Tokenize task" "own_nodes now agent g"]
      by (auto simp: Lookup_def Let_def seeds_def)
    then show ?thesis using own by (simp add: option.map_ident)
  next
    case False
    then have "g' = Some (record_hits now (own_nodes now agent g @ map rn_ID (lr_Related r)) g)"
      using assms(2) by (auto simp: Lookup_def Let_def seeds_def)
    then show ?thesis using own by (simp add: record_hits_def)
  qed
  have "sorted_wrt (\<lambda>x y. \<not> ?lt y x) (lr_Related r)" using srt unfolding sorted_wrt_append all(1) by blast
  moreover have "length (lr_Related r) \<le> ?m" unfolding all(1) by simp
  moreover have "\<forall>x \<in> set (lr_Related r). candidate now rnd g (set seeds) keywords agent x \<and> live_at now g (rn_ID x) \<and> rn_ID x \<in> H"
    using rel all(2) hops_live [OF live] unfolding H_def by blast
  moreover have "\<exists>ks. seeds = lr_Own r @ ks \<and> length ks \<le> 5" unfolding own seeds_def by (rule seeds_few)
  ultimately show ?thesis
    using own_nodes_iff [OF assms(1)] left dst hits unfolding own H_def [symmetric] by blast
qed

definition demo_lookup_graph :: Graph where
  "demo_lookup_graph = \<lparr>kg_Version = 1, kg_UpdatedAt = 0,
     kg_Nodes = [(''a'', demo_knode ''a'' (1/2)), (''b'', (demo_knode ''b'' (1/2))\<lparr>kn_Agent := ''ops''\<rparr>)],
     kg_Edges = [\<lparr>ed_From = ''a'', ed_To = ''b'', ed_Relation = ''refines''\<rparr>]\<rparr>"

theorem lookup_correct_witness:
  "\<exists>r g'. Lookup 5 (\<lambda>x. x) (Some demo_lookup_graph) ''dev'' '''' \<lparr>lo_MaxDepth = 0, lo_MaxNodes = 0\<rparr> = (r, g') \<and>
     lr_Own r = [''a''] \<and> rn_ID ` set (lr_Related r) = {''b''}"
proof -
  let ?o = "\<lparr>lo_MaxDepth = 0, lo_MaxNodes = 0\<rparr>" and ?g = demo_lookup_graph
  obtain r g' where l: "Lookup 5 (\<lambda>x. x) (Some ?g) ''dev'' '''' ?o = (r, g')" by fastforce
  have wf: "gowf (kg_Nodes ?g)" by (simp add: demo_lookup_graph_def)
  note lc = lookup_correct [OF wf l]
  have own: "own_nodes 5 ''dev'' ?g = [''a'']"
    by (simp add: own_nodes_def demo_lookup_graph_def demo_knode_def active_def IsStale_def IsSuperseded_def)
  have tok: "Tokenize '''' = []" by (simp add: Tokenize_def to_lower_def)
  have seeds: "addKeywordSeeds 5 (\<lambda>x. x) ?g [] [''a''] = [''a'']" by (simp add: addKeywordSeeds_def)
  have m: "lookup_maxNodes ?o = 15" "lookup_maxDepth ?o = Suc 1" by (simp_all add: lookup_maxNodes_def lookup_maxDepth_def)
  have lo: "lr_Own r = [''a'']" using l by (auto simp: Lookup_def Let_def own tok seeds)
  have b: "''b'' \<in> hops 5 ?g (set [''a'']) (lookup_maxDepth ?o)"
    unfolding m by (simp add: hops_Suc live_next_def neighbours_def live_at_def active_def IsStale_def IsSuperseded_def
        demo_lookup_graph_def demo_knode_def)
  have n: "mget (kg_Nodes ?g) k = Some n \<and> kn_Agent n \<noteq> ''dev'' \<longleftrightarrow> k = ''b'' \<and> n = (demo_knode ''b'' (1/2))\<lparr>kn_Agent := ''ops''\<rparr>" for k n
    by (auto simp: demo_lookup_graph_def demo_knode_def split: if_split_asm)
  have bn: "mget (kg_Nodes ?g) ''b'' = Some ((demo_knode ''b'' (1/2))\<lparr>kn_Agent := ''ops''\<rparr>) \<and>
      kn_Agent ((demo_knode ''b'' (1/2))\<lparr>kn_Agent := ''ops''\<rparr>) \<noteq> ''dev''"
    by (simp add: demo_lookup_graph_def)
  have "x \<in> set (lr_Related r) \<Longrightarrow> rn_ID x = ''b''" for x
    using lc [THEN conjunct2, THEN conjunct2, THEN conjunct1, THEN bspec, of x, THEN conjunct1] n unfolding candidate_def by blast
  then have sub: "rn_ID ` set (lr_Related r) \<subseteq> {''b''}" by blast
  have "''b'' \<in> rn_ID ` set (lr_Related r)"
  proof (rule ccontr)
    assume no: "''b'' \<notin> rn_ID ` set (lr_Related r)"
    then have "length (lr_Related r) = lookup_maxNodes ?o"
      using lc [unfolded tok own seeds, THEN conjunct2, THEN conjunct2, THEN conjunct2, THEN conjunct2, THEN conjunct2, THEN conjunct2,
          THEN conjunct1, THEN bspec, OF b, THEN spec, THEN mp] bn by blast
    then have "length (lr_Related r) = 15" by (simp add: m)
    then have "lr_Related r \<noteq> []" by (cases "lr_Related r") simp_all
    then have "rn_ID ` set (lr_Related r) \<noteq> {}" by simp
    then have "rn_ID ` set (lr_Related r) = {''b''}" using subset_singletonD [OF sub] by simp
    then show False using no by (simp only: singletonI not_True_eq_False)
  qed
  then have "rn_ID ` set (lr_Related r) = {''b''}" using subset_singletonD [OF sub] by (metis empty_iff)
  then show ?thesis using l lo by (intro exI conjI)
qed

section \<open>Learning (write.go)\<close>

text \<open>
  \<open>Apply\<close>: the documents and graphs of the agents, and the shared graph. The outcomes of the storage
  calls are arguments; a graph that cannot be loaded is replaced by an empty one, as in the code.
\<close>

record apply_io =
  ai_write :: "string \<Rightarrow> string \<Rightarrow> bool"
  ai_load :: "string \<Rightarrow> bool"
  ai_save :: "string \<Rightarrow> bool"
  ai_shared :: bool

record agent_knowledge =
  ak_graph :: "Graph option"
  ak_docs :: "(string, string) gomap"

definition no_knowledge :: agent_knowledge where
  "no_knowledge = \<lparr>ak_graph = None, ak_docs = []\<rparr>"

definition write_docs :: "apply_io \<Rightarrow> string \<Rightarrow> ManifestNode list \<Rightarrow> (string, string) gomap \<Rightarrow> (string, string) gomap" where
  "write_docs io agent nodes docs =
     foldl (\<lambda>docs m. if ai_write io agent (doc_path (mf_ID m)) then mput (doc_path (mf_ID m)) (mf_Content m) docs else docs)
       docs nodes"

definition apply_agent :: "time \<Rightarrow> apply_io \<Rightarrow> PruneOpts \<Rightarrow> string \<Rightarrow> string \<Rightarrow> Edge list \<Rightarrow> string \<Rightarrow> ManifestNode list \<Rightarrow>
    agent_knowledge \<Rightarrow> agent_knowledge" where
  "apply_agent now io opts rid rname edges agent nodes st =
     (let docs = write_docs io agent nodes (ak_docs st);
          g = (if ai_load io agent then (case ak_graph st of None \<Rightarrow> NewGraph | Some g \<Rightarrow> g) else NewGraph);
          g' = fst (Prune now opts (Merge now \<lparr>mf_Nodes = nodes, mf_Edges = edges\<rparr> rid rname g))
      in \<lparr>ak_graph = (if ai_save io agent then Some g' else ak_graph st), ak_docs = docs\<rparr>)"

text \<open>The agent of each node, the manifest's nodes first, and the edges inside one agent.\<close>

definition node_agents :: "Manifest \<Rightarrow> Graph \<Rightarrow> (string, string) gomap" where
  "node_agents m shared =
     (let own = foldl (\<lambda>na x. mput (mf_ID x) (mf_Agent x) na) [] (mf_Nodes m)
      in foldl (\<lambda>na (k, n). if mget na k \<noteq> None then na else mput k (kn_Agent n) na) own (kg_Nodes shared))"

definition agent_edges :: "Manifest \<Rightarrow> Graph \<Rightarrow> string \<Rightarrow> Edge list" where
  "agent_edges m shared agent =
     filter (\<lambda>e. mget0 '''' (node_agents m shared) (ed_From e) = agent \<and> mget0 '''' (node_agents m shared) (ed_To e) = agent)
       (mf_Edges m)"

definition Apply :: "time \<Rightarrow> apply_io \<Rightarrow> Manifest \<Rightarrow> Graph option \<Rightarrow> string \<Rightarrow> string \<Rightarrow> PruneOpts \<Rightarrow>
    (string, agent_knowledge) gomap \<Rightarrow> (string, agent_knowledge) gomap \<times> Graph \<times> bool" where
  "Apply now io m sharedGraph rid rname opts stores =
     (let shared = (case sharedGraph of None \<Rightarrow> NewGraph | Some g \<Rightarrow> g);
          stores' = foldl (\<lambda>st agent. mput agent
              (apply_agent now io opts rid rname (agent_edges m shared agent) agent
                (filter (\<lambda>x. mf_Agent x = agent) (mf_Nodes m)) (mget0 no_knowledge st agent)) st)
            stores (remdups (map mf_Agent (mf_Nodes m)));
          shared' = Merge now \<lparr>mf_Nodes = map (\<lambda>x. x\<lparr>mf_Content := ''''\<rparr>) (mf_Nodes m), mf_Edges = mf_Edges m\<rparr> rid rname shared
      in (stores', shared', ai_shared io))"

text \<open>Each agent of the manifest gets its own nodes and the edges among them; nothing else changes.\<close>

lemma apply_stores:
  "distinct agents \<Longrightarrow>
   mget (foldl (\<lambda>st agent. mput agent (f agent (mget0 z st agent)) st) stores agents) a =
     (if a \<in> set agents then Some (f a (mget0 z stores a)) else mget stores a)"
  by (induction agents arbitrary: stores) auto

lemma Apply_agents:
  assumes "Apply now io m sharedGraph rid rname opts stores = (stores', shared', ok)"
  defines "shared \<equiv> case sharedGraph of None \<Rightarrow> NewGraph | Some g \<Rightarrow> g"
  shows "mget stores' a =
    (if a \<in> mf_Agent ` set (mf_Nodes m)
     then Some (apply_agent now io opts rid rname (agent_edges m shared a) a
       (filter (\<lambda>x. mf_Agent x = a) (mf_Nodes m)) (mget0 no_knowledge stores a))
     else mget stores a)"
  using assms(1) apply_stores [of "remdups (map mf_Agent (mf_Nodes m))"
      "\<lambda>a. apply_agent now io opts rid rname (agent_edges m shared a) a (filter (\<lambda>x. mf_Agent x = a) (mf_Nodes m))"
      no_knowledge stores a]
  by (auto simp: Apply_def Let_def shared_def)

end
