(* ===== verification/Subject.thy ===== *)
theory Subject
  imports Storage
begin

text \<open>
  The identities of the fabric (internal/identity/types.go): subjects, their URIs in certificates, and
  reading them back. \<open>url_parse\<close> follows \<open>url.Parse\<close> of the Go library for the three parts that are used
  (scheme, host, path); IPv6 zones in a host are not distinguished from malformed hosts.
\<close>

section \<open>url.Parse\<close>

definition code_of :: "char \<Rightarrow> nat" where "code_of c = of_char c"

definition is_alpha :: "char \<Rightarrow> bool" where
  "is_alpha c = (65 \<le> code_of c \<and> code_of c \<le> 90 \<or> 97 \<le> code_of c \<and> code_of c \<le> 122)"

definition is_digit :: "char \<Rightarrow> bool" where
  "is_digit c = (48 \<le> code_of c \<and> code_of c \<le> 57)"

definition unhex :: "char \<Rightarrow> nat option" where
  "unhex c =
     (if is_digit c then Some (code_of c - 48)
      else if 97 \<le> code_of c \<and> code_of c \<le> 102 then Some (code_of c - 87)
      else if 65 \<le> code_of c \<and> code_of c \<le> 70 then Some (code_of c - 55)
      else None)"

text \<open>Percent-decoding; \<open>ok_esc\<close> and \<open>ok_raw\<close> are what the part of the URL allows escaped and plain.\<close>

fun unescape :: "(nat \<Rightarrow> bool) \<Rightarrow> (char \<Rightarrow> bool) \<Rightarrow> string \<Rightarrow> string option" where
  "unescape ok_esc ok_raw [] = Some []"
| "unescape ok_esc ok_raw (c # s) =
     (if c = CHR ''%'' then
        (case s of
           a # b # s' \<Rightarrow>
             (case (unhex a, unhex b) of
                (Some x, Some y) \<Rightarrow>
                  if ok_esc (16 * x + y) then map_option (Cons (char_of (16 * x + y))) (unescape ok_esc ok_raw s') else None
              | _ \<Rightarrow> None)
         | _ \<Rightarrow> None)
      else if ok_raw c then map_option (Cons c) (unescape ok_esc ok_raw s) else None)"

definition unescape_path :: "string \<Rightarrow> string option" where
  "unescape_path = unescape (\<lambda>_. True) (\<lambda>_. True)"

definition host_char :: "char \<Rightarrow> bool" where
  "host_char c = (is_alpha c \<or> is_digit c \<or> code_of c \<ge> 128 \<or> c \<in> set ''-_.~!$&()*+,;=:[]<>'' \<or> code_of c \<in> {34, 39})"

definition unescape_host :: "string \<Rightarrow> string option" where
  "unescape_host = unescape (\<lambda>n. n = 37 \<or> n \<ge> 128) host_char"

definition valid_port :: "string \<Rightarrow> bool" where
  "valid_port p = (p = [] \<or> hd p = CHR '':'' \<and> list_all is_digit (tl p))"

text \<open>The text from the last occurrence of a character on, and what is before it.\<close>

definition cut_last :: "char \<Rightarrow> string \<Rightarrow> string \<times> string" where
  "cut_last c s = (let n = length (takeWhile (\<lambda>x. x \<noteq> c) (rev s)) in
     if c \<in> set s then (take (length s - Suc n) s, drop (length s - Suc n) s) else (s, ''''))"

definition parse_host :: "string \<Rightarrow> string option" where
  "parse_host h =
     (if has_prefix h ''['' then
        (if CHR '']'' \<in> set h \<and> valid_port (tl (snd (cut_last (CHR '']'') h))) \<and> \<not> contains h ''%25'' then unescape_host h else None)
      else if valid_port (snd (cut_last (CHR '':'') h)) then unescape_host h else None)"

definition user_char :: "char \<Rightarrow> bool" where
  "user_char c = (is_alpha c \<or> is_digit c \<or> c \<in> set ''-._:~!$&()*+,;=%@'' \<or> code_of c = 39)"

definition parse_authority :: "string \<Rightarrow> string option" where
  "parse_authority a =
     (if CHR ''@'' \<notin> set a then parse_host a
      else
        (let (user, rest) = cut_last (CHR ''@'') a
         in case parse_host (tl rest) of
              None \<Rightarrow> None
            | Some h \<Rightarrow> if list_all user_char user \<and> unescape_path user \<noteq> None then Some h else None))"

definition get_scheme :: "string \<Rightarrow> (string \<times> string) option" where
  "get_scheme raw =
     (let pre = takeWhile (\<lambda>c. is_alpha c \<or> is_digit c \<or> c \<in> set ''+-.'') raw; rest = drop (length pre) raw
      in if pre \<noteq> [] \<and> \<not> is_alpha (hd pre) then Some ('''', raw)
         else if rest = [] \<or> hd rest \<noteq> CHR '':'' then Some ('''', raw)
         else if pre = [] then None
         else Some (pre, tl rest))"

record URL =
  url_Scheme :: string
  url_Host :: string
  url_Path :: string

definition before :: "char \<Rightarrow> string \<Rightarrow> string" where
  "before c s = takeWhile (\<lambda>x. x \<noteq> c) s"

definition after :: "char \<Rightarrow> string \<Rightarrow> string" where
  "after c s = tl (dropWhile (\<lambda>x. x \<noteq> c) s)"

definition url_parse :: "string \<Rightarrow> URL option" where
  "url_parse raw =
     (let u = before (CHR ''#'') raw; frag = after (CHR ''#'') raw
      in if list_ex (\<lambda>c. code_of c < 32 \<or> code_of c = 127) u then None
         else if unescape_path frag = None then None
         else if u = ''*'' then Some \<lparr>url_Scheme = '''', url_Host = '''', url_Path = ''*''\<rparr>
         else
           (case get_scheme u of
              None \<Rightarrow> None
            | Some (scheme, rest0) \<Rightarrow>
                (let rest = before (CHR ''?'') rest0
                 in if \<not> has_prefix rest ''/'' \<and> scheme \<noteq> '''' then
                      Some \<lparr>url_Scheme = to_lower scheme, url_Host = '''', url_Path = ''''\<rparr>
                    else if \<not> has_prefix rest ''/'' \<and> CHR '':'' \<in> set (before slash rest) then None
                    else
                      (let (host, path) =
                         (if has_prefix rest ''//'' \<and> (scheme \<noteq> '''' \<or> \<not> has_prefix rest ''///'')
                          then (parse_authority (before slash (drop 2 rest)), dropWhile (\<lambda>c. c \<noteq> slash) (drop 2 rest))
                          else (Some '''', rest))
                       in case (host, unescape_path path) of
                            (Some h, Some p) \<Rightarrow> Some \<lparr>url_Scheme = to_lower scheme, url_Host = h, url_Path = p\<rparr>
                          | _ \<Rightarrow> None))))"

section \<open>Subjects (types.go)\<close>

datatype SubjectKind =
    SubjectKindControlPlane | SubjectKindConductor | SubjectKindNode | SubjectKindAgentProfile
  | SubjectKindAgentInstance | SubjectKindUnset | SubjectKindOther string

record Subject =
  sj_TrustDomain :: string
  sj_Fabric :: string
  sj_Kind :: SubjectKind
  sj_Name :: string
  sj_NodeID :: string
  sj_Profile :: string
  sj_InstanceID :: string

datatype subject_error =
    Required string | UnknownKind SubjectKind | BadURI | BadScheme string | BadPath string | UnsupportedPath string

definition Subject_Validate :: "Subject \<Rightarrow> subject_error option" where
  "Subject_Validate s =
     first_err
       ([guard (sj_TrustDomain s = '''') (Required ''trust domain''),
         guard (sj_Fabric s = '''') (Required ''fabric''),
         guard (sj_Kind s = SubjectKindUnset) (Required ''subject kind''),
         guard (sj_Name s = '''') (Required ''subject name'')] @
        (case sj_Kind s of
           SubjectKindControlPlane \<Rightarrow> []
         | SubjectKindConductor \<Rightarrow> []
         | SubjectKindNode \<Rightarrow> [guard (sj_NodeID s = '''') (Required ''node ID'')]
         | SubjectKindAgentProfile \<Rightarrow> [guard (sj_Profile s = '''') (Required ''profile'')]
         | SubjectKindAgentInstance \<Rightarrow>
             [guard (sj_NodeID s = '''') (Required ''node ID''), guard (sj_Profile s = '''') (Required ''profile''),
              guard (sj_InstanceID s = '''') (Required ''instance ID'')]
         | k \<Rightarrow> [Some (UnknownKind k)]))"

definition NormalizeID :: "string \<Rightarrow> string" where
  "NormalizeID value = map (\<lambda>c. if c = CHR '' '' \<or> c = slash then CHR ''-'' else c) (trim_space value)"

text \<open>\<open>path.Join\<close>.\<close>

definition path_join :: "string list \<Rightarrow> string" where
  "path_join es = (let ne = filter (\<lambda>e. e \<noteq> '''') es in if ne = [] then '''' else path_clean (join ''/'' ne))"

definition URI :: "Subject \<Rightarrow> string" where
  "URI s =
     (let base = path_join [''/fabric'', NormalizeID (sj_Fabric s)]
      in ''spiffe://'' @ sj_TrustDomain s @
         (case sj_Kind s of
            SubjectKindControlPlane \<Rightarrow> path_join [base, ''control-plane'', NormalizeID (sj_Name s)]
          | SubjectKindConductor \<Rightarrow> path_join [base, ''conductor'', NormalizeID (sj_Name s)]
          | SubjectKindNode \<Rightarrow> path_join [base, ''node'', NormalizeID (sj_NodeID s)]
          | SubjectKindAgentProfile \<Rightarrow> path_join [base, ''agent-profile'', NormalizeID (sj_Profile s)]
          | SubjectKindAgentInstance \<Rightarrow>
              path_join [base, ''node'', NormalizeID (sj_NodeID s), ''agent'', NormalizeID (sj_Profile s),
                ''instance'', NormalizeID (sj_InstanceID s)]
          | _ \<Rightarrow> path_join [base, ''unknown'', NormalizeID (sj_Name s)]))"

definition splitPathSegments :: "string \<Rightarrow> string list" where
  "splitPathSegments value =
     (let v = rev (dropWhile (\<lambda>c. c = slash) (rev (dropWhile (\<lambda>c. c = slash) value)))
      in if v = '''' then [] else split_on slash v)"

definition no_subject :: "string \<Rightarrow> string \<Rightarrow> SubjectKind \<Rightarrow> string \<Rightarrow> Subject" where
  "no_subject td fabric kind name =
     \<lparr>sj_TrustDomain = td, sj_Fabric = fabric, sj_Kind = kind, sj_Name = name, sj_NodeID = '''', sj_Profile = '''', sj_InstanceID = ''''\<rparr>"

text \<open>The switch over the segments.\<close>

definition subject_of_segments :: "string \<Rightarrow> string list \<Rightarrow> Subject option" where
  "subject_of_segments host segments =
     (let seg = (\<lambda>i. segments ! i); mk = no_subject host (seg 1); n = length segments
      in if n = 4 \<and> seg 2 = ''control-plane'' then Some (mk SubjectKindControlPlane (seg 3))
         else if n = 4 \<and> seg 2 = ''conductor'' then Some (mk SubjectKindConductor (seg 3))
         else if n = 4 \<and> seg 2 = ''node'' then Some ((mk SubjectKindNode (seg 3))\<lparr>sj_NodeID := seg 3\<rparr>)
         else if n = 4 \<and> seg 2 = ''agent-profile'' then Some ((mk SubjectKindAgentProfile (seg 3))\<lparr>sj_Profile := seg 3\<rparr>)
         else if n = 8 \<and> seg 2 = ''node'' \<and> seg 4 = ''agent'' \<and> seg 6 = ''instance'' then
           Some ((mk SubjectKindAgentInstance (seg 5))\<lparr>sj_NodeID := seg 3, sj_Profile := seg 5, sj_InstanceID := seg 7\<rparr>)
         else None)"

definition ParseSubjectURI :: "string \<Rightarrow> subject_error + Subject" where
  "ParseSubjectURI raw =
     (case url_parse raw of
        None \<Rightarrow> Inl BadURI
      | Some parsed \<Rightarrow>
          if url_Scheme parsed \<noteq> ''spiffe'' then Inl (BadScheme (url_Scheme parsed))
          else
            (let segments = splitPathSegments (url_Path parsed)
             in if length segments < 3 \<or> segments ! 0 \<noteq> ''fabric'' then Inl (BadPath (url_Path parsed))
                else
                  (case subject_of_segments (url_Host parsed) segments of
                     None \<Rightarrow> Inl (UnsupportedPath (url_Path parsed))
                   | Some subject \<Rightarrow>
                       (case Subject_Validate subject of Some e \<Rightarrow> Inl e | None \<Rightarrow> Inr subject))))"

section \<open>Round trip\<close>

text \<open>A name that stands for itself in a URI: unreserved characters, and no dot segment.\<close>

definition unreserved :: "char \<Rightarrow> bool" where
  "unreserved c = (is_alpha c \<or> is_digit c \<or> c \<in> set ''-_.~'')"

definition plain_id :: "string \<Rightarrow> bool" where
  "plain_id v = (v \<notin> {'''', ''.'', ''..''} \<and> list_all unreserved v)"

text \<open>A subject as the parser returns it: the fields of its kind are set and the others are empty.\<close>

definition canonical :: "Subject \<Rightarrow> bool" where
  "canonical s =
     (sj_TrustDomain s \<noteq> '''' \<and> list_all unreserved (sj_TrustDomain s) \<and> plain_id (sj_Fabric s) \<and>
      (case sj_Kind s of
         SubjectKindControlPlane \<Rightarrow> plain_id (sj_Name s) \<and> sj_NodeID s = '''' \<and> sj_Profile s = '''' \<and> sj_InstanceID s = ''''
       | SubjectKindConductor \<Rightarrow> plain_id (sj_Name s) \<and> sj_NodeID s = '''' \<and> sj_Profile s = '''' \<and> sj_InstanceID s = ''''
       | SubjectKindNode \<Rightarrow> plain_id (sj_NodeID s) \<and> sj_Name s = sj_NodeID s \<and> sj_Profile s = '''' \<and> sj_InstanceID s = ''''
       | SubjectKindAgentProfile \<Rightarrow> plain_id (sj_Profile s) \<and> sj_Name s = sj_Profile s \<and> sj_NodeID s = '''' \<and> sj_InstanceID s = ''''
       | SubjectKindAgentInstance \<Rightarrow>
           plain_id (sj_NodeID s) \<and> plain_id (sj_Profile s) \<and> plain_id (sj_InstanceID s) \<and> sj_Name s = sj_Profile s
       | _ \<Rightarrow> False))"

lemma unreserved_facts:
  assumes "unreserved c"
  shows "c \<noteq> CHR ''#''" "c \<noteq> CHR ''?''" "c \<noteq> CHR '':''" "c \<noteq> CHR ''@''" "c \<noteq> CHR ''[''" "c \<noteq> CHR ''%''" "c \<noteq> slash"
    "c \<noteq> CHR '' ''" "host_char c" "\<not> code_of c < 32" "code_of c \<noteq> 127" "\<not> is_space c"
  using assms by (auto simp: unreserved_def is_alpha_def is_digit_def code_of_def slash_def host_char_def is_space_def Let_def)

lemma plain_id_plain: "plain_id v \<Longrightarrow> plain v"
  using unreserved_facts(7) by (auto simp: plain_id_def plain_def list_all_iff)

lemma trim_space_id: "\<forall>c \<in> set v. \<not> is_space c \<Longrightarrow> trim_space v = v"
proof -
  assume a: "\<forall>c \<in> set v. \<not> is_space c"
  have d: "dropWhile is_space xs = xs" if "\<forall>c \<in> set xs. \<not> is_space c" for xs
    using that by (cases xs) simp_all
  show ?thesis unfolding trim_space_def d [OF a] using d [of "rev v"] a by simp
qed

lemma NormalizeID_plain [simp]: "plain_id v \<Longrightarrow> NormalizeID v = v"
  using unreserved_facts(7,8,12)
  by (auto simp: NormalizeID_def plain_id_def list_all_iff trim_space_id intro!: map_idI)

lemma plain_fixed: "plain ''fabric''" "plain ''control-plane''" "plain ''conductor''" "plain ''node''" "plain ''agent-profile''"
  "plain ''agent''" "plain ''instance''"
  by (simp_all add: plain_def slash_def)

lemma path_clean_plain:
  assumes "\<forall>e \<in> set es. plain e"
  shows "path_clean (''/'' @ join ''/'' es) = ''/'' @ join ''/'' es"
proof -
  have "is_abs (''/'' @ join ''/'' es)" by (simp add: is_abs_def has_prefix_iff)
  then show ?thesis using path_clean_abs path_elems_abs [OF assms] by simp
qed

lemma unescape_raw: "CHR ''%'' \<notin> set v \<Longrightarrow> list_all ok v \<Longrightarrow> unescape oke ok v = Some v"
  by (induction v) auto

lemma before_all: "c \<notin> set v \<Longrightarrow> before c v = v"
  by (auto simp: before_def)

lemma after_all: "c \<notin> set v \<Longrightarrow> after c v = []"
  unfolding after_def by (induction v) auto

lemma url_parse_plain:
  assumes td: "td \<noteq> ''''" "list_all unreserved td" and path: "list_all (\<lambda>c. unreserved c \<or> c = slash) p"
  shows "url_parse (''spiffe://'' @ td @ ''/'' @ p) = Some \<lparr>url_Scheme = ''spiffe'', url_Host = td, url_Path = ''/'' @ p\<rparr>"
proof -
  let ?rest = "''//'' @ td @ ''/'' @ p"
  have t: "c \<in> set td \<Longrightarrow> unreserved c" for c using td(2) by (simp add: list_all_iff)
  have q: "c \<in> set p \<Longrightarrow> unreserved c \<or> c = slash" for c using path by (simp add: list_all_iff)
  have no: "CHR ''#'' \<notin> set (''spiffe://'' @ td @ ''/'' @ p)" "CHR ''?'' \<notin> set ?rest"
    using t q unreserved_facts(1,2) by (auto simp: slash_def)
  have ctl: "\<not> list_ex (\<lambda>c. code_of c < 32 \<or> code_of c = 127) (''spiffe://'' @ td @ ''/'' @ p)"
  proof -
    have "\<not> (code_of c < 32 \<or> code_of c = 127)" if "c \<in> set p" for c
      using q [OF that] unreserved_facts(10,11) [of c] by (auto simp: slash_def code_of_def)
    moreover have "\<not> (code_of c < 32 \<or> code_of c = 127)" if "c \<in> set td" for c
      using t [OF that] unreserved_facts(10,11) [of c] by auto
    ultimately have "\<forall>c \<in> set td \<union> set p. \<not> (code_of c < 32 \<or> code_of c = 127)" by blast
    then show ?thesis by (simp add: list_ex_iff) (simp add: code_of_def)
  qed
  have sch: "get_scheme (''spiffe://'' @ td @ ''/'' @ p) = Some (''spiffe'', ?rest)"
    by (simp add: get_scheme_def is_alpha_def is_digit_def code_of_def Let_def)
  have host: "parse_authority td = Some td"
  proof -
    have "CHR ''@'' \<notin> set td" "CHR '':'' \<notin> set td" "CHR ''%'' \<notin> set td" "list_all host_char td"
      using t unreserved_facts(3,4,6,9) by (auto simp: list_all_iff)
    moreover have "\<not> has_prefix td ''[''" using t unreserved_facts(5) td(1) by (cases td) (auto simp: has_prefix_def)
    ultimately show ?thesis
      by (simp add: parse_authority_def parse_host_def cut_last_def Let_def valid_port_def unescape_host_def unescape_raw)
  qed
  have auth: "before slash (td @ ''/'' @ p) = td" "dropWhile (\<lambda>c. c \<noteq> slash) (td @ ''/'' @ p) = ''/'' @ p"
    using t unreserved_facts(7) by (auto simp: before_def takeWhile_append dropWhile_append slash_def)
  have pa: "unescape_path (''/'' @ p) = Some (''/'' @ p)"
    unfolding unescape_path_def using q unreserved_facts(6) by (intro unescape_raw) (auto simp: slash_def list_all_iff)
  have e: "unescape_path [] = Some []" by (simp add: unescape_path_def)
  have pre: "has_prefix ?rest ''/''" "has_prefix ?rest ''//''" by (simp_all add: has_prefix_iff)
  have lo: "to_lower ''spiffe'' = ''spiffe''" by code_simp
  have star: "''spiffe://'' @ td @ ''/'' @ p \<noteq> ''*''" by simp
  have sp: "''spiffe'' \<noteq> ''''" by simp
  have d2: "drop 2 ?rest = td @ ''/'' @ p" by simp
  show ?thesis
    unfolding url_parse_def Let_def before_all [OF no(1)] after_all [OF no(1)]
    by (simp only: ctl star sch e before_all [OF no(2)] pre sp d2 auth host pa lo if_False if_True option.case prod.case
        simp_thms option.simps list.simps)
qed

lemma segments_plain:
  assumes "\<forall>e \<in> set es. plain e" "es \<noteq> []"
  shows "splitPathSegments (''/'' @ join ''/'' es) = es"
proof -
  have strip: "dropWhile (\<lambda>c. c = slash) (x # xs) = x # xs" if "x \<noteq> slash" for x xs using that by simp
  obtain e es' where es: "es = e # es'" using assms(2) by (cases es) auto
  obtain c w where e: "e = c # w" "c \<noteq> slash" using assms(1) es by (cases e) (auto simp: plain_def)
  have j: "\<exists>w'. join ''/'' es = c # w'" using es e by (cases es') auto
  have l: "\<exists>u d. join ''/'' es = u @ [d] \<and> d \<noteq> slash"
    using assms
  proof (induction es)
    case (Cons x xs)
    show ?case
    proof (cases xs)
      case Nil
      then show ?thesis using Cons.prems by (cases x rule: rev_cases) (auto simp: plain_def)
    next
      case (Cons y ys)
      then obtain u d where "join ''/'' xs = u @ [d]" "d \<noteq> slash" using Cons.IH Cons.prems by auto
      then show ?thesis using Cons by (intro exI [of _ "x @ ''/'' @ u"] exI [of _ d]) simp
    qed
  qed simp
  obtain w' u d where w: "join ''/'' es = c # w'" "join ''/'' es = u @ [d]" "d \<noteq> slash" using j l by blast
  have 1: "dropWhile (\<lambda>c. c = slash) (''/'' @ join ''/'' es) = join ''/'' es"
    unfolding w(1) using e(2) by (simp add: slash_def)
  have 2: "dropWhile (\<lambda>c. c = slash) (rev (join ''/'' es)) = rev (join ''/'' es)"
    unfolding w(2) using w(3) by simp
  have "split_on slash (join ''/'' es) = es"
    using split_on_join [of es slash] assms by (auto simp: slash_def plain_def)
  then show ?thesis unfolding splitPathSegments_def Let_def 1 2 using w(1) by simp
qed

lemma join_unreserved:
  "\<forall>e \<in> set es. list_all unreserved e \<Longrightarrow> list_all (\<lambda>c. unreserved c \<or> c = slash) (join ''/'' es)"
proof (induction es)
  case (Cons x xs)
  then have "list_all (\<lambda>c. unreserved c \<or> c = slash) x" by (auto simp: list_all_iff)
  then show ?case using Cons by (cases xs) (auto simp: slash_def)
qed simp

lemma fixed_unreserved: "list_all unreserved ''fabric''" "list_all unreserved ''control-plane''" "list_all unreserved ''conductor''"
  "list_all unreserved ''node''" "list_all unreserved ''agent-profile''" "list_all unreserved ''agent''" "list_all unreserved ''instance''"
  by (simp_all add: unreserved_def is_alpha_def code_of_def)

lemma parse_path:
  assumes "td \<noteq> ''''" "list_all unreserved td" "\<forall>e \<in> set es. plain e \<and> list_all unreserved e" "es \<noteq> []"
  shows "ParseSubjectURI (''spiffe://'' @ td @ ''/'' @ join ''/'' es) =
    (if length es < 3 \<or> es ! 0 \<noteq> ''fabric'' then Inl (BadPath (''/'' @ join ''/'' es))
     else (case subject_of_segments td es of
             None \<Rightarrow> Inl (UnsupportedPath (''/'' @ join ''/'' es))
           | Some subject \<Rightarrow> (case Subject_Validate subject of Some e \<Rightarrow> Inl e | None \<Rightarrow> Inr subject)))"
proof -
  have u: "url_parse (''spiffe://'' @ td @ ''/'' @ join ''/'' es) =
      Some \<lparr>url_Scheme = ''spiffe'', url_Host = td, url_Path = ''/'' @ join ''/'' es\<rparr>"
    using assms by (intro url_parse_plain join_unreserved) auto
  have s: "splitPathSegments (''/'' @ join ''/'' es) = es" using assms by (intro segments_plain) auto
  show ?thesis unfolding ParseSubjectURI_def u Let_def by (simp only: option.case URL.select_convs s simp_thms if_False)
qed

lemma join_base:
  assumes "plain f" "\<forall>e \<in> set es. plain e" "es \<noteq> []"
  shows "path_join (path_join [''/fabric'', f] # es) = ''/'' @ join ''/'' (''fabric'' # f # es)"
proof -
  have f: "f \<noteq> ''''" "\<forall>e \<in> set es. e \<noteq> ''''" using assms by (auto simp: plain_def)
  have "path_join [''/fabric'', f] = path_clean (''/'' @ join ''/'' [''fabric'', f])"
    using f(1) by (simp add: path_join_def)
  also have "\<dots> = ''/'' @ join ''/'' [''fabric'', f]"
    using assms(1) plain_fixed(1) by (intro path_clean_plain) simp
  finally have b: "path_join [''/fabric'', f] = ''/fabric/'' @ f" by simp
  have ne: "filter (\<lambda>e. e \<noteq> '''') es = es" using f(2) by (simp add: filter_id_conv)
  obtain e es' where es: "es = e # es'" using assms(3) by (cases es) auto
  have "path_join ((''/fabric/'' @ f) # es) = path_clean (''/'' @ join ''/'' (''fabric'' # f # es))"
    unfolding path_join_def using ne es by (simp add: Let_def)
  also have "\<dots> = ''/'' @ join ''/'' (''fabric'' # f # es)"
    using assms plain_fixed(1) by (intro path_clean_plain) auto
  finally show ?thesis unfolding b .
qed

lemma canonical_roundtrip:
  assumes "canonical s"
  shows "ParseSubjectURI (URI s) = Inr s"
proof -
  define td where "td = sj_TrustDomain s"
  define f where "f = sj_Fabric s"
  have td: "td \<noteq> ''''" "list_all unreserved td" and f: "plain_id f"
    using assms by (simp_all add: canonical_def td_def f_def)
  have fu: "list_all unreserved f" "plain f" "f \<noteq> ''''" using f plain_id_plain by (auto simp: plain_id_def)
  define sp where "sp = ''spiffe://''"
  note known = plain_fixed fixed_unreserved
  have parse: "ParseSubjectURI (sp @ td @ path_join (path_join [''/fabric'', f] # es)) =
      (case subject_of_segments td (''fabric'' # f # es) of
         None \<Rightarrow> Inl (UnsupportedPath (''/'' @ join ''/'' (''fabric'' # f # es)))
       | Some subject \<Rightarrow> (case Subject_Validate subject of Some e \<Rightarrow> Inl e | None \<Rightarrow> Inr subject))"
    if "\<forall>e \<in> set es. plain e \<and> list_all unreserved e" "es \<noteq> []" for es
  proof -
    have e: "\<forall>e \<in> set (''fabric'' # f # es). plain e \<and> list_all unreserved e"
      using that fu known by simp
    have j: "path_join (path_join [''/fabric'', f] # es) = ''/'' @ join ''/'' (''fabric'' # f # es)"
      using join_base [OF fu(2)] that by blast
    show ?thesis unfolding j sp_def using parse_path [OF td e] that(2) by (cases es) simp_all
  qed
  have plain_in: "plain v \<and> list_all unreserved v \<and> v \<noteq> ''''" if "plain_id v" for v
    using that plain_id_plain by (auto simp: plain_id_def)
  have u: "URI s = sp @ td @
         (case sj_Kind s of
            SubjectKindControlPlane \<Rightarrow> path_join [path_join [''/fabric'', f], ''control-plane'', NormalizeID (sj_Name s)]
          | SubjectKindConductor \<Rightarrow> path_join [path_join [''/fabric'', f], ''conductor'', NormalizeID (sj_Name s)]
          | SubjectKindNode \<Rightarrow> path_join [path_join [''/fabric'', f], ''node'', NormalizeID (sj_NodeID s)]
          | SubjectKindAgentProfile \<Rightarrow> path_join [path_join [''/fabric'', f], ''agent-profile'', NormalizeID (sj_Profile s)]
          | SubjectKindAgentInstance \<Rightarrow>
              path_join [path_join [''/fabric'', f], ''node'', NormalizeID (sj_NodeID s), ''agent'', NormalizeID (sj_Profile s),
                ''instance'', NormalizeID (sj_InstanceID s)]
          | _ \<Rightarrow> path_join [path_join [''/fabric'', f], ''unknown'', NormalizeID (sj_Name s)])"
    unfolding URI_def Let_def sp_def td_def [symmetric] f_def [symmetric] NormalizeID_plain [OF f] ..
  obtain td' f' k n nid pr iid where s: "s = \<lparr>sj_TrustDomain = td', sj_Fabric = f', sj_Kind = k, sj_Name = n,
      sj_NodeID = nid, sj_Profile = pr, sj_InstanceID = iid\<rparr>" by (cases s)
  have [simp]: "td' = td" "f' = f" by (simp_all add: td_def f_def s)
  note simps = canonical_def subject_of_segments_def no_subject_def Subject_Validate_def guard_def
  show ?thesis
  proof (cases k)
    case SubjectKindControlPlane
    then have "plain_id n" "nid = ''''" "pr = ''''" "iid = ''''" using assms s by (simp_all add: canonical_def)
    then show ?thesis
      unfolding u using SubjectKindControlPlane plain_in [of n] known td fu
      by (subst s) (simp add: s parse simps)
  next
    case SubjectKindConductor
    then have "plain_id n" "nid = ''''" "pr = ''''" "iid = ''''" using assms s by (simp_all add: canonical_def)
    then show ?thesis
      unfolding u using SubjectKindConductor plain_in [of n] known td fu
      by (subst s) (simp add: s parse simps)
  next
    case SubjectKindNode
    then have "plain_id nid" "n = nid" "pr = ''''" "iid = ''''" using assms s by (simp_all add: canonical_def)
    then show ?thesis
      unfolding u using SubjectKindNode plain_in [of nid] known td fu
      by (subst s) (simp add: s parse simps)
  next
    case SubjectKindAgentProfile
    then have "plain_id pr" "n = pr" "nid = ''''" "iid = ''''" using assms s by (simp_all add: canonical_def)
    then show ?thesis
      unfolding u using SubjectKindAgentProfile plain_in [of pr] known td fu
      by (subst s) (simp add: s parse simps)
  next
    case SubjectKindAgentInstance
    then have "plain_id pr" "n = pr" "plain_id nid" "plain_id iid" using assms s by (simp_all add: canonical_def)
    then show ?thesis
      unfolding u using SubjectKindAgentInstance plain_in [of pr] plain_in [of nid] plain_in [of iid] known td fu
      by (subst s) (simp add: s parse simps)
  qed (use assms s in \<open>simp_all add: canonical_def\<close>)
qed

text \<open>
  Identities survive their encoding. A subject with the fields of its kind whose names are made of
  unreserved characters and are no dot segments is read back from its URI as it was, so two such subjects
  never share a URI.
\<close>

theorem subject_uri_roundtrip:
  assumes "canonical s"
  shows "ParseSubjectURI (URI s) = Inr s \<and> (\<forall>t. canonical t \<and> URI t = URI s \<longrightarrow> t = s)"
  using canonical_roundtrip assms by (metis Inr_inject)

definition demo_subject :: Subject where
  "demo_subject = (no_subject ''td.io'' ''f'' SubjectKindAgentInstance ''dev'')
     \<lparr>sj_NodeID := ''n1'', sj_Profile := ''dev'', sj_InstanceID := ''n1-dev-1''\<rparr>"

theorem subject_uri_roundtrip_witness: "ParseSubjectURI (URI demo_subject) = Inr demo_subject"
proof -
  have "canonical demo_subject" by code_simp
  then show ?thesis using subject_uri_roundtrip by blast
qed

text \<open>Outside these names identities collide: a node whose ID contains a question mark is read as another node.\<close>

lemma subject_uri_collision:
  "ParseSubjectURI (URI ((no_subject ''td.io'' ''f'' SubjectKindNode ''n1?x'')\<lparr>sj_NodeID := ''n1?x''\<rparr>)) =
     Inr ((no_subject ''td.io'' ''f'' SubjectKindNode ''n1'')\<lparr>sj_NodeID := ''n1''\<rparr>)"
  by code_simp

end
