(* ===== verification/Wire.thy ===== *)
theory Wire
  imports FileStore Discovery JoinToken Message Subject
begin

text \<open>
  The interfaces of the control-plane store (internal/controlplane/interfaces.go) as records of functions
  on a world \<open>'s\<close> with errors of type \<open>'e\<close>, and the records of the store on the wire
  (internal/controlplanesvc/service.go). The messages are those of the protobuf definition; \<open>RegisterNodeRequest\<close>
  and \<open>RegisterInstanceRequest\<close> have the fields of \<open>NodeView\<close> and \<open>InstanceView\<close>, a pointer that can be nil is an
  option. Integers that the wire carries in 32 bits are cut to them.
\<close>

section \<open>Interfaces (interfaces.go)\<close>

record ('s, 'e) Leadership =
  ld_AcquireLeader :: "string \<Rightarrow> string \<Rightarrow> int \<Rightarrow> 's \<Rightarrow> 's \<times> ('e + LeaderLease \<times> bool)"
  ld_RenewLeader :: "LeaderLease \<Rightarrow> int \<Rightarrow> 's \<Rightarrow> 's \<times> ('e + LeaderLease)"
  ld_GetLeader :: "'s \<Rightarrow> 's \<times> ('e + LeaderLease option)"
  ld_ReleaseLeader :: "LeaderLease \<Rightarrow> 's \<Rightarrow> 's \<times> ('e + unit)"

record ('s, 'e) MembershipAPI =
  mb_RegisterNode :: "Node \<Rightarrow> 's \<Rightarrow> 's \<times> ('e + unit)"
  mb_HeartbeatNode :: "string \<Rightarrow> time \<Rightarrow> 's \<Rightarrow> 's \<times> ('e + unit)"
  mb_GetNode :: "string \<Rightarrow> 's \<Rightarrow> 's \<times> ('e + Node option)"
  mb_ListNodes :: "'s \<Rightarrow> 's \<times> ('e + Node list)"
  mb_RegisterInstance :: "AgentInstance \<Rightarrow> 's \<Rightarrow> 's \<times> ('e + unit)"
  mb_HeartbeatInstance :: "string \<Rightarrow> time \<Rightarrow> 's \<Rightarrow> 's \<times> ('e + unit)"
  mb_GetInstance :: "string \<Rightarrow> 's \<Rightarrow> 's \<times> ('e + AgentInstance option)"
  mb_ListInstances :: "InstanceFilter \<Rightarrow> 's \<Rightarrow> 's \<times> ('e + AgentInstance list)"
  mb_RemoveInstance :: "string \<Rightarrow> 's \<Rightarrow> 's \<times> ('e + unit)"

record ('s, 'e) Attestations =
  as_UpsertAttestedNode :: "AttestedNodeRecord \<Rightarrow> 's \<Rightarrow> 's \<times> ('e + unit)"
  as_GetAttestedNode :: "string \<Rightarrow> 's \<Rightarrow> 's \<times> ('e + AttestedNodeRecord option)"

record ('s, 'e) Requests =
  rs_UpsertRequest :: "RequestRecord \<Rightarrow> 's \<Rightarrow> 's \<times> ('e + unit)"
  rs_GetRequest :: "string \<Rightarrow> 's \<Rightarrow> 's \<times> ('e + RequestRecord option)"
  rs_ListRequests :: "'s \<Rightarrow> 's \<times> ('e + RequestRecord list)"
  rs_UpsertTask :: "TaskRecord \<Rightarrow> 's \<Rightarrow> 's \<times> ('e + unit)"
  rs_ListTasks :: "string \<Rightarrow> 's \<Rightarrow> 's \<times> ('e + TaskRecord list)"

record ('s, 'e) LeasesAPI =
  ls_AcquireProfileLease :: "ProfileLease \<Rightarrow> int \<Rightarrow> 's \<Rightarrow> 's \<times> ('e + ProfileLease \<times> bool)"
  ls_RenewProfileLease :: "ProfileLease \<Rightarrow> int \<Rightarrow> 's \<Rightarrow> 's \<times> ('e + ProfileLease)"
  ls_GetProfileLease :: "string \<Rightarrow> 's \<Rightarrow> 's \<times> ('e + ProfileLease option)"
  ls_ReleaseProfileLease :: "ProfileLease \<Rightarrow> 's \<Rightarrow> 's \<times> ('e + unit)"
  ls_AcquireTaskLease :: "TaskLease \<Rightarrow> int \<Rightarrow> 's \<Rightarrow> 's \<times> ('e + TaskLease \<times> bool)"
  ls_RenewTaskLease :: "TaskLease \<Rightarrow> int \<Rightarrow> 's \<Rightarrow> 's \<times> ('e + TaskLease)"
  ls_GetTaskLease :: "string \<Rightarrow> string \<Rightarrow> 's \<Rightarrow> 's \<times> ('e + TaskLease option)"
  ls_ReleaseTaskLease :: "TaskLease \<Rightarrow> 's \<Rightarrow> 's \<times> ('e + unit)"

record ('s, 'e) Store =
  sto_leadership :: "('s, 'e) Leadership"
  sto_membership :: "('s, 'e) MembershipAPI"
  sto_requests :: "('s, 'e) Requests"
  sto_leases :: "('s, 'e) LeasesAPI"
  sto_attestations :: "('s, 'e) Attestations option"

section \<open>Times and records on the wire\<close>

text \<open>The readers of a time on the wire: zero stands for no time.\<close>

definition timeFromUnixNano :: "int \<Rightarrow> time" where
  "timeFromUnixNano v = (if v = 0 then 0 else unix_epoch + v)"

definition durationFromNanos :: "int \<Rightarrow> int" where
  "durationFromNanos v = (if v \<le> 0 then 0 else v)"

definition to_int32 :: "int \<Rightarrow> int" where
  "to_int32 n = signed_take_bit 31 n"

definition cloneLabels :: "(string, string) gomap \<Rightarrow> (string, string) gomap" where
  "cloneLabels labels = foldl (\<lambda>clone (k, v). mput k v clone) [] labels"

record LeaderLeaseView =
  vl_Fabric :: string
  vl_HolderId :: string
  vl_HolderAddress :: string
  vl_Epoch :: int
  vl_AcquiredAt :: int
  vl_LastHeartbeatAt :: int
  vl_ExpiresAt :: int

record NodeView =
  vn_Id :: string
  vn_Address :: string
  vn_State :: NodeState
  vn_Labels :: "(string, string) gomap"
  vn_BundleDigest :: string
  vn_ProfileDigests :: "(string, string) gomap"
  vn_MaxInstances :: int
  vn_MaxTasks :: int
  vn_StartedAt :: int
  vn_LastHeartbeatAt :: int

record InstanceView =
  vi_Id :: string
  vi_Profile :: string
  vi_NodeId :: string
  vi_BundleDigest :: string
  vi_ProfileDigest :: string
  vi_EndpointAddress :: string
  vi_EndpointLocal :: bool
  vi_State :: InstanceState
  vi_StartedAt :: int
  vi_LastHeartbeatAt :: int

record RequestRecordView =
  vr_Id :: string
  vr_State :: RequestState
  vr_UserRequest :: string
  vr_GraphVersion :: int
  vr_LeaderId :: string
  vr_CreatedAt :: int
  vr_UpdatedAt :: int

record TaskRecordView =
  vt_RequestId :: string
  vt_TaskId :: string
  vt_Profile :: string
  vt_AssignedInstance :: string
  vt_ExecutionNode :: string
  vt_Status :: string
  vt_LeaseEpoch :: int
  vt_UpdatedAt :: int

record TaskLeaseView =
  vk_RequestId :: string
  vk_TaskId :: string
  vk_Profile :: string
  vk_AssignedInstance :: string
  vk_ExecutionNode :: string
  vk_OwnerId :: string
  vk_Epoch :: int
  vk_AcquiredAt :: int
  vk_LastHeartbeatAt :: int
  vk_ExpiresAt :: int

record ProfileLeaseView =
  vp_Profile :: string
  vp_AssignedInstance :: string
  vp_ExecutionNode :: string
  vp_OwnerId :: string
  vp_Epoch :: int
  vp_AcquiredAt :: int
  vp_LastHeartbeatAt :: int
  vp_ExpiresAt :: int

definition leaderLeaseView :: "LeaderLease \<Rightarrow> LeaderLeaseView" where
  "leaderLeaseView l =
     \<lparr>vl_Fabric = ll_Fabric l, vl_HolderId = ll_HolderID l, vl_HolderAddress = ll_HolderAddress l, vl_Epoch = ll_Epoch l,
      vl_AcquiredAt = UnixNano (ll_AcquiredAt l), vl_LastHeartbeatAt = UnixNano (ll_LastHeartbeatAt l),
      vl_ExpiresAt = UnixNano (ll_ExpiresAt l)\<rparr>"

definition leaderLeaseFromView :: "LeaderLeaseView option \<Rightarrow> LeaderLease" where
  "leaderLeaseFromView v =
     (case v of
        None \<Rightarrow> zero_leader
      | Some v \<Rightarrow>
          \<lparr>ll_Fabric = vl_Fabric v, ll_HolderID = vl_HolderId v, ll_HolderAddress = vl_HolderAddress v, ll_Epoch = vl_Epoch v,
           ll_AcquiredAt = timeFromUnixNano (vl_AcquiredAt v), ll_LastHeartbeatAt = timeFromUnixNano (vl_LastHeartbeatAt v),
           ll_ExpiresAt = timeFromUnixNano (vl_ExpiresAt v)\<rparr>)"

definition nodeView :: "Node \<Rightarrow> NodeView" where
  "nodeView n =
     \<lparr>vn_Id = nd_ID n, vn_Address = nd_Address n, vn_State = nd_State n, vn_Labels = cloneLabels (nd_Labels n),
      vn_BundleDigest = nd_BundleDigest n, vn_ProfileDigests = cloneLabels (nd_ProfileDigests n),
      vn_MaxInstances = to_int32 (cap_MaxInstances (nd_Capacity n)), vn_MaxTasks = to_int32 (cap_MaxTasks (nd_Capacity n)),
      vn_StartedAt = UnixNano (nd_StartedAt n), vn_LastHeartbeatAt = UnixNano (nd_LastHeartbeatAt n)\<rparr>"

definition zero_node :: Node where
  "zero_node = \<lparr>nd_ID = '''', nd_Address = '''', nd_State = NodeStateUnset, nd_Labels = [], nd_BundleDigest = '''',
     nd_ProfileDigests = [], nd_Capacity = \<lparr>cap_MaxInstances = 0, cap_MaxTasks = 0\<rparr>, nd_StartedAt = 0, nd_LastHeartbeatAt = 0\<rparr>"

definition nodeFromView :: "NodeView option \<Rightarrow> Node" where
  "nodeFromView v =
     (case v of
        None \<Rightarrow> zero_node
      | Some v \<Rightarrow>
          \<lparr>nd_ID = vn_Id v, nd_Address = vn_Address v, nd_State = vn_State v, nd_Labels = cloneLabels (vn_Labels v),
           nd_BundleDigest = vn_BundleDigest v, nd_ProfileDigests = cloneLabels (vn_ProfileDigests v),
           nd_Capacity = \<lparr>cap_MaxInstances = vn_MaxInstances v, cap_MaxTasks = vn_MaxTasks v\<rparr>,
           nd_StartedAt = timeFromUnixNano (vn_StartedAt v), nd_LastHeartbeatAt = timeFromUnixNano (vn_LastHeartbeatAt v)\<rparr>)"

definition instanceView :: "AgentInstance \<Rightarrow> InstanceView" where
  "instanceView i =
     \<lparr>vi_Id = in_ID i, vi_Profile = in_Profile i, vi_NodeId = in_NodeID i, vi_BundleDigest = in_BundleDigest i,
      vi_ProfileDigest = in_ProfileDigest i, vi_EndpointAddress = ep_Address (in_Endpoint i),
      vi_EndpointLocal = ep_Local (in_Endpoint i), vi_State = in_State i,
      vi_StartedAt = UnixNano (in_StartedAt i), vi_LastHeartbeatAt = UnixNano (in_LastHeartbeatAt i)\<rparr>"

definition zero_instance :: AgentInstance where
  "zero_instance = \<lparr>in_ID = '''', in_Profile = '''', in_NodeID = '''', in_BundleDigest = '''', in_ProfileDigest = '''',
     in_Endpoint = \<lparr>ep_Address = '''', ep_Local = False\<rparr>, in_State = InstanceStateUnset, in_StartedAt = 0, in_LastHeartbeatAt = 0\<rparr>"

definition instanceFromView :: "InstanceView option \<Rightarrow> AgentInstance" where
  "instanceFromView v =
     (case v of
        None \<Rightarrow> zero_instance
      | Some v \<Rightarrow>
          \<lparr>in_ID = vi_Id v, in_Profile = vi_Profile v, in_NodeID = vi_NodeId v, in_BundleDigest = vi_BundleDigest v,
           in_ProfileDigest = vi_ProfileDigest v,
           in_Endpoint = \<lparr>ep_Address = vi_EndpointAddress v, ep_Local = vi_EndpointLocal v\<rparr>, in_State = vi_State v,
           in_StartedAt = timeFromUnixNano (vi_StartedAt v), in_LastHeartbeatAt = timeFromUnixNano (vi_LastHeartbeatAt v)\<rparr>)"

definition requestRecordView :: "RequestRecord \<Rightarrow> RequestRecordView" where
  "requestRecordView r =
     \<lparr>vr_Id = rq_ID r, vr_State = rq_State r, vr_UserRequest = rq_UserRequest r, vr_GraphVersion = rq_GraphVersion r,
      vr_LeaderId = rq_LeaderID r, vr_CreatedAt = UnixNano (rq_CreatedAt r), vr_UpdatedAt = UnixNano (rq_UpdatedAt r)\<rparr>"

definition zero_request :: RequestRecord where
  "zero_request = \<lparr>rq_ID = '''', rq_State = RequestStateOther '''', rq_UserRequest = '''', rq_GraphVersion = 0,
     rq_LeaderID = '''', rq_CreatedAt = 0, rq_UpdatedAt = 0\<rparr>"

definition requestRecordFromView :: "RequestRecordView option \<Rightarrow> RequestRecord" where
  "requestRecordFromView v =
     (case v of
        None \<Rightarrow> zero_request
      | Some v \<Rightarrow>
          \<lparr>rq_ID = vr_Id v, rq_State = vr_State v, rq_UserRequest = vr_UserRequest v, rq_GraphVersion = vr_GraphVersion v,
           rq_LeaderID = vr_LeaderId v, rq_CreatedAt = timeFromUnixNano (vr_CreatedAt v),
           rq_UpdatedAt = timeFromUnixNano (vr_UpdatedAt v)\<rparr>)"

definition taskRecordView :: "TaskRecord \<Rightarrow> TaskRecordView" where
  "taskRecordView t =
     \<lparr>vt_RequestId = tk_RequestID t, vt_TaskId = tk_TaskID t, vt_Profile = tk_Profile t,
      vt_AssignedInstance = tk_AssignedInstance t, vt_ExecutionNode = tk_ExecutionNode t, vt_Status = tk_Status t,
      vt_LeaseEpoch = tk_LeaseEpoch t, vt_UpdatedAt = UnixNano (tk_UpdatedAt t)\<rparr>"

definition taskRecordFromView :: "TaskRecordView option \<Rightarrow> TaskRecord" where
  "taskRecordFromView v =
     (case v of
        None \<Rightarrow> \<lparr>tk_RequestID = '''', tk_TaskID = '''', tk_Profile = '''', tk_AssignedInstance = '''',
           tk_ExecutionNode = '''', tk_Status = '''', tk_LeaseEpoch = 0, tk_UpdatedAt = 0\<rparr>
      | Some v \<Rightarrow>
          \<lparr>tk_RequestID = vt_RequestId v, tk_TaskID = vt_TaskId v, tk_Profile = vt_Profile v,
           tk_AssignedInstance = vt_AssignedInstance v, tk_ExecutionNode = vt_ExecutionNode v, tk_Status = vt_Status v,
           tk_LeaseEpoch = vt_LeaseEpoch v, tk_UpdatedAt = timeFromUnixNano (vt_UpdatedAt v)\<rparr>)"

definition taskLeaseView :: "TaskLease \<Rightarrow> TaskLeaseView" where
  "taskLeaseView l =
     \<lparr>vk_RequestId = tl_RequestID l, vk_TaskId = tl_TaskID l, vk_Profile = tl_Profile l,
      vk_AssignedInstance = tl_AssignedInstance l, vk_ExecutionNode = tl_ExecutionNode l, vk_OwnerId = tl_OwnerID l,
      vk_Epoch = tl_Epoch l, vk_AcquiredAt = UnixNano (tl_AcquiredAt l), vk_LastHeartbeatAt = UnixNano (tl_LastHeartbeatAt l),
      vk_ExpiresAt = UnixNano (tl_ExpiresAt l)\<rparr>"

definition taskLeaseFromView :: "TaskLeaseView option \<Rightarrow> TaskLease" where
  "taskLeaseFromView v =
     (case v of
        None \<Rightarrow> zero_task_lease
      | Some v \<Rightarrow>
          \<lparr>tl_RequestID = vk_RequestId v, tl_TaskID = vk_TaskId v, tl_Profile = vk_Profile v,
           tl_AssignedInstance = vk_AssignedInstance v, tl_ExecutionNode = vk_ExecutionNode v, tl_OwnerID = vk_OwnerId v,
           tl_Epoch = vk_Epoch v, tl_AcquiredAt = timeFromUnixNano (vk_AcquiredAt v),
           tl_LastHeartbeatAt = timeFromUnixNano (vk_LastHeartbeatAt v), tl_ExpiresAt = timeFromUnixNano (vk_ExpiresAt v)\<rparr>)"

definition profileLeaseView :: "ProfileLease \<Rightarrow> ProfileLeaseView" where
  "profileLeaseView l =
     \<lparr>vp_Profile = pl_Profile l, vp_AssignedInstance = pl_AssignedInstance l, vp_ExecutionNode = pl_ExecutionNode l,
      vp_OwnerId = pl_OwnerID l, vp_Epoch = pl_Epoch l, vp_AcquiredAt = UnixNano (pl_AcquiredAt l),
      vp_LastHeartbeatAt = UnixNano (pl_LastHeartbeatAt l), vp_ExpiresAt = UnixNano (pl_ExpiresAt l)\<rparr>"

definition profileLeaseFromView :: "ProfileLeaseView option \<Rightarrow> ProfileLease" where
  "profileLeaseFromView v =
     (case v of
        None \<Rightarrow> zero_profile_lease
      | Some v \<Rightarrow>
          \<lparr>pl_Profile = vp_Profile v, pl_AssignedInstance = vp_AssignedInstance v, pl_ExecutionNode = vp_ExecutionNode v,
           pl_OwnerID = vp_OwnerId v, pl_Epoch = vp_Epoch v, pl_AcquiredAt = timeFromUnixNano (vp_AcquiredAt v),
           pl_LastHeartbeatAt = timeFromUnixNano (vp_LastHeartbeatAt v), pl_ExpiresAt = timeFromUnixNano (vp_ExpiresAt v)\<rparr>)"

section \<open>Round trips\<close>

text \<open>A time the wire can carry: within 64 bits of nanoseconds around the epoch, and not the epoch itself.\<close>

definition wire_time :: "time \<Rightarrow> bool" where
  "wire_time t = (- (2 ^ 63) \<le> t - unix_epoch \<and> t - unix_epoch < 2 ^ 63 \<and> t \<noteq> unix_epoch)"

lemma signed_31_id: "- (2 ^ 31) \<le> n \<Longrightarrow> n < 2 ^ 31 \<Longrightarrow> to_int32 n = n"
  unfolding to_int32_def by (rule signed_take_bit_int_eq_self) simp_all

lemma UnixNano_roundtrip [simp]: "wire_time t \<Longrightarrow> timeFromUnixNano (UnixNano t) = t"
  by (simp add: wire_time_def UnixNano_def timeFromUnixNano_def wrap64_id)

text \<open>Go's zero time is not one of them: it comes back as a date in 1754, which \<open>IsZero\<close> does not recognise.\<close>

lemma zero_time_lost: "timeFromUnixNano (UnixNano 0) = 55340232221128654848"
  by (simp add: UnixNano_def timeFromUnixNano_def unix_epoch_def wrap64_def)

lemma cloneLabels_id [simp]: "gowf labels \<Longrightarrow> cloneLabels labels = labels"
proof -
  have "gowf (acc @ labels) \<Longrightarrow> foldl (\<lambda>clone (k, v). mput k v clone) acc labels = acc @ labels" for acc
  proof (induction labels arbitrary: acc)
    case (Cons x xs)
    obtain k v where x: "x = (k, v)" by fastforce
    have "mput k v acc = acc @ [(k, v)]"
      using Cons.prems x by (induction acc) auto
    then show ?case using Cons.IH [of "acc @ [x]"] Cons.prems x by simp
  qed simp
  from this [of "[]"] show "gowf labels \<Longrightarrow> cloneLabels labels = labels" by (simp add: cloneLabels_def)
qed

text \<open>The records the wire carries unchanged.\<close>

definition wire_leader :: "LeaderLease \<Rightarrow> bool" where
  "wire_leader l = (wire_time (ll_AcquiredAt l) \<and> wire_time (ll_LastHeartbeatAt l) \<and> wire_time (ll_ExpiresAt l))"

definition int32 :: "int \<Rightarrow> bool" where "int32 n = (- (2 ^ 31) \<le> n \<and> n < 2 ^ 31)"

definition wire_node :: "Node \<Rightarrow> bool" where
  "wire_node n =
     (wire_time (nd_StartedAt n) \<and> wire_time (nd_LastHeartbeatAt n) \<and> gowf (nd_Labels n) \<and> gowf (nd_ProfileDigests n) \<and>
      int32 (cap_MaxInstances (nd_Capacity n)) \<and> int32 (cap_MaxTasks (nd_Capacity n)))"

definition wire_instance :: "AgentInstance \<Rightarrow> bool" where
  "wire_instance i = (wire_time (in_StartedAt i) \<and> wire_time (in_LastHeartbeatAt i))"

definition wire_request :: "RequestRecord \<Rightarrow> bool" where
  "wire_request r = (wire_time (rq_CreatedAt r) \<and> wire_time (rq_UpdatedAt r))"

definition wire_task :: "TaskRecord \<Rightarrow> bool" where
  "wire_task t = wire_time (tk_UpdatedAt t)"

definition wire_task_lease :: "TaskLease \<Rightarrow> bool" where
  "wire_task_lease l = (wire_time (tl_AcquiredAt l) \<and> wire_time (tl_LastHeartbeatAt l) \<and> wire_time (tl_ExpiresAt l))"

definition wire_profile_lease :: "ProfileLease \<Rightarrow> bool" where
  "wire_profile_lease l = (wire_time (pl_AcquiredAt l) \<and> wire_time (pl_LastHeartbeatAt l) \<and> wire_time (pl_ExpiresAt l))"

lemmas wire_defs = wire_leader_def wire_node_def wire_instance_def wire_request_def wire_task_def wire_task_lease_def
  wire_profile_lease_def int32_def

lemma view_roundtrips:
  "wire_leader l \<Longrightarrow> leaderLeaseFromView (Some (leaderLeaseView l)) = l"
  "wire_node n \<Longrightarrow> nodeFromView (Some (nodeView n)) = n"
  "wire_instance i \<Longrightarrow> instanceFromView (Some (instanceView i)) = i"
  "wire_request r \<Longrightarrow> requestRecordFromView (Some (requestRecordView r)) = r"
  "wire_task t \<Longrightarrow> taskRecordFromView (Some (taskRecordView t)) = t"
  "wire_task_lease k \<Longrightarrow> taskLeaseFromView (Some (taskLeaseView k)) = k"
  "wire_profile_lease p \<Longrightarrow> profileLeaseFromView (Some (profileLeaseView p)) = p"
  by (simp_all add: wire_defs leaderLeaseView_def leaderLeaseFromView_def nodeView_def nodeFromView_def signed_31_id
      instanceView_def instanceFromView_def requestRecordView_def requestRecordFromView_def taskRecordView_def
      taskRecordFromView_def taskLeaseView_def taskLeaseFromView_def profileLeaseView_def profileLeaseFromView_def)

end
