(* ===== verification/Service.thy ===== *)
theory Service
  imports Wire
begin

text \<open>
  The control-plane service (internal/controlplanesvc/service.go): every call names the caller by the URI of
  its certificate, is checked against the kind of the caller and the member it acts on, and is then
  passed to the store. The store, its attestations and the attestor are arguments and share the world \<open>'s\<close>.
\<close>

datatype svc_error =
    BadSubject subject_error
  | FabricNotAuthorized string string | KindNotAuthorized SubjectKind | CannotActOn string string
  | NoAttestationStore | NotAttested string | AttestationExpired string | AttestedDigestMismatch string
  | NoAttestor | AttestorRefused token_error | AttestedOther string string
  | NoBundleDigest string | BundleMismatch string | UnknownProfile string | NoProfileDigest string
  | ProfileDigestMismatch string | InstanceNotRegistered string
  | StoreError store_error

record 's Service =
  svc_store :: "('s, store_error) Store"
  svc_fabric :: string
  svc_expectedBundleDigest :: string
  svc_expectedProfileDigests :: "(string, string) gomap"
  svc_attestor :: "(NodeAttestation \<Rightarrow> 's \<Rightarrow> 's \<times> (token_error + AttestedNode)) option"

definition New_Service :: "('s, store_error) Store \<Rightarrow> string \<Rightarrow> string \<Rightarrow> (string, string) gomap \<Rightarrow>
    (NodeAttestation \<Rightarrow> 's \<Rightarrow> 's \<times> (token_error + AttestedNode)) option \<Rightarrow> 's Service" where
  "New_Service store fabric bundle profiles attestor =
     \<lparr>svc_store = store, svc_fabric = fabric, svc_expectedBundleDigest = bundle,
      svc_expectedProfileDigests = cloneLabels profiles, svc_attestor = attestor\<rparr>"

section \<open>Checks\<close>

definition authorizeFabric :: "'s Service \<Rightarrow> Subject \<Rightarrow> svc_error option" where
  "authorizeFabric svc subject =
     guard (svc_fabric svc \<noteq> '''' \<and> sj_Fabric subject \<noteq> svc_fabric svc) (FabricNotAuthorized (sj_Fabric subject) (svc_fabric svc))"

definition authorizeNodeSubject :: "'s Service \<Rightarrow> Subject \<Rightarrow> string \<Rightarrow> svc_error option" where
  "authorizeNodeSubject svc subject nodeID =
     first_err
       [authorizeFabric svc subject,
        guard (sj_Kind subject \<noteq> SubjectKindNode) (KindNotAuthorized (sj_Kind subject)),
        guard (sj_NodeID subject \<noteq> NormalizeID nodeID) (CannotActOn (sj_NodeID subject) nodeID)]"

definition authorizeConductorSubject :: "'s Service \<Rightarrow> Subject \<Rightarrow> svc_error option" where
  "authorizeConductorSubject svc subject =
     first_err
       [authorizeFabric svc subject,
        guard (sj_Kind subject \<noteq> SubjectKindConductor) (KindNotAuthorized (sj_Kind subject))]"

definition authorizeConductorNodeSubject :: "'s Service \<Rightarrow> Subject \<Rightarrow> string \<Rightarrow> svc_error option" where
  "authorizeConductorNodeSubject svc subject nodeID =
     first_err
       [authorizeConductorSubject svc subject,
        guard (sj_Name subject \<noteq> NormalizeID nodeID) (CannotActOn (sj_Name subject) nodeID)]"

definition authorizeInstanceSubject :: "'s Service \<Rightarrow> Subject \<Rightarrow> string \<Rightarrow> string \<Rightarrow> string \<Rightarrow> svc_error option" where
  "authorizeInstanceSubject svc subject instanceID nodeID profile =
     (case authorizeFabric svc subject of
        Some e \<Rightarrow> Some e
      | None \<Rightarrow>
          (case sj_Kind subject of
             SubjectKindAgentInstance \<Rightarrow>
               first_err
                 [guard (sj_InstanceID subject \<noteq> NormalizeID instanceID) (CannotActOn (sj_InstanceID subject) instanceID),
                  guard (sj_NodeID subject \<noteq> NormalizeID nodeID) (CannotActOn (sj_NodeID subject) nodeID),
                  guard (sj_Profile subject \<noteq> NormalizeID profile) (CannotActOn (sj_Profile subject) profile)]
           | SubjectKindNode \<Rightarrow> guard (sj_NodeID subject \<noteq> NormalizeID nodeID) (CannotActOn (sj_NodeID subject) nodeID)
           | k \<Rightarrow> Some (KindNotAuthorized k)))"

text \<open>\<open>None\<close> when the node is attested; the clock is read at this point.\<close>

definition requireAttestedNode :: "'s Service \<Rightarrow> time \<Rightarrow> string \<Rightarrow> string \<Rightarrow> 's \<Rightarrow> 's \<times> svc_error option" where
  "requireAttestedNode svc now nodeID bundleDigest s =
     (case sto_attestations (svc_store svc) of
        None \<Rightarrow> (s, Some NoAttestationStore)
      | Some at \<Rightarrow>
          (case as_GetAttestedNode at nodeID s of
             (s', Inl e) \<Rightarrow> (s', Some (StoreError e))
           | (s', Inr None) \<Rightarrow> (s', Some (NotAttested nodeID))
           | (s', Inr (Some record)) \<Rightarrow>
               (s', if an_ExpiresAt record \<noteq> 0 \<and> now > an_ExpiresAt record then Some (AttestationExpired nodeID)
                    else if bundleDigest = '''' then None
                    else (let measured = mget0 '''' (an_Measurements record) ''bundle_digest''
                          in if measured \<noteq> '''' \<and> measured \<noteq> bundleDigest then Some (AttestedDigestMismatch nodeID) else None))))"

definition validateNodeBundle :: "'s Service \<Rightarrow> Node \<Rightarrow> svc_error option" where
  "validateNodeBundle svc node =
     (if svc_expectedBundleDigest svc = '''' then None
      else
        first_err
          ([guard (nd_BundleDigest node = '''') (NoBundleDigest (nd_ID node)),
            guard (nd_BundleDigest node \<noteq> svc_expectedBundleDigest svc) (BundleMismatch (nd_ID node))] @
           map (\<lambda>(profile, digest).
             case mget (svc_expectedProfileDigests svc) profile of
               None \<Rightarrow> Some (UnknownProfile profile)
             | Some expected \<Rightarrow>
                 first_err [guard (digest = '''') (NoProfileDigest profile),
                   guard (digest \<noteq> expected) (ProfileDigestMismatch profile)]) (nd_ProfileDigests node)))"

definition validateInstanceBundle :: "'s Service \<Rightarrow> AgentInstance \<Rightarrow> svc_error option" where
  "validateInstanceBundle svc inst =
     (case mget (svc_expectedProfileDigests svc) (in_Profile inst) of
        None \<Rightarrow> Some (UnknownProfile (in_Profile inst))
      | Some expected \<Rightarrow>
          first_err
            [guard (svc_expectedBundleDigest svc \<noteq> '''' \<and> in_BundleDigest inst = '''') (NoBundleDigest (in_ID inst)),
             guard (svc_expectedBundleDigest svc \<noteq> '''' \<and> in_BundleDigest inst \<noteq> svc_expectedBundleDigest svc)
               (BundleMismatch (in_ID inst)),
             guard (in_ProfileDigest inst = '''') (NoProfileDigest (in_ID inst)),
             guard (in_ProfileDigest inst \<noteq> expected) (ProfileDigestMismatch (in_ID inst))])"

section \<open>The shape of a call\<close>

text \<open>Parsing the subject, a check with its early return, and the call of the store with the reply made of its result.\<close>

definition with_subject :: "string \<Rightarrow> (Subject \<Rightarrow> 's \<Rightarrow> 's \<times> (svc_error + 'r)) \<Rightarrow> 's \<Rightarrow> 's \<times> (svc_error + 'r)" where
  "with_subject uri f s =
     (case ParseSubjectURI uri of Inl e \<Rightarrow> (s, Inl (BadSubject e)) | Inr subject \<Rightarrow> f subject s)"

definition require :: "svc_error option \<Rightarrow> ('s \<Rightarrow> 's \<times> (svc_error + 'r)) \<Rightarrow> 's \<Rightarrow> 's \<times> (svc_error + 'r)" where
  "require e f s = (case e of Some err \<Rightarrow> (s, Inl err) | None \<Rightarrow> f s)"

definition store_call :: "('s \<Rightarrow> 's \<times> (store_error + 'r)) \<Rightarrow> ('r \<Rightarrow> 'q) \<Rightarrow> 's \<Rightarrow> 's \<times> (svc_error + 'q)" where
  "store_call f reply s = (case f s of (s', Inl e) \<Rightarrow> (s', Inl (StoreError e)) | (s', Inr r) \<Rightarrow> (s', Inr (reply r)))"

section \<open>Attestation\<close>

definition attestedNodeRecordFromIdentity :: "AttestedNode \<Rightarrow> AttestedNodeRecord" where
  "attestedNodeRecordFromIdentity n =
     \<lparr>an_NodeID = at_NodeID n, an_TrustDomain = at_TrustDomain n, an_Claims = cloneLabels (at_Claims n),
      an_Measurements = cloneLabels (at_Measurements n), an_AttestedAt = at_AttestedAt n, an_ExpiresAt = at_ExpiresAt n\<rparr>"

record AttestNodeResponse =
  ar_NodeId :: string
  ar_TrustDomain :: string
  ar_Claims :: "(string, string) gomap"
  ar_Measurements :: "(string, string) gomap"
  ar_AttestedAt :: int
  ar_ExpiresAt :: int

definition attest_claims :: "'s Service \<Rightarrow> Subject \<Rightarrow> (string, string) gomap \<Rightarrow> (string, string) gomap" where
  "attest_claims svc subject claims =
     (let c0 = cloneLabels claims;
          c1 = (if mget0 '''' c0 ''node_id'' = '''' then mput ''node_id'' (sj_NodeID subject) c0 else c0)
      in if mget0 '''' c1 ''fabric'' = '''' then mput ''fabric'' (svc_fabric svc) c1 else c1)"

definition Svc_AttestNode :: "'s Service \<Rightarrow> string \<Rightarrow> NodeAttestation \<Rightarrow> 's \<Rightarrow> 's \<times> (svc_error + AttestNodeResponse)" where
  "Svc_AttestNode svc uri request s =
     (case svc_attestor svc of
        None \<Rightarrow> (s, Inl NoAttestor)
      | Some attest \<Rightarrow>
          with_subject uri (\<lambda>subject. require (authorizeNodeSubject svc subject (sj_NodeID subject)) (\<lambda>s.
            (case attest (request\<lparr>na_Claims := attest_claims svc subject (na_Claims request),
                   na_Measurements := cloneLabels (na_Measurements request)\<rparr>) s of
               (s1, Inl e) \<Rightarrow> (s1, Inl (AttestorRefused e))
             | (s1, Inr node) \<Rightarrow>
                 if at_NodeID node \<noteq> '''' \<and> at_NodeID node \<noteq> sj_NodeID subject
                 then (s1, Inl (AttestedOther (at_NodeID node) (sj_NodeID subject)))
                 else
                   (case sto_attestations (svc_store svc) of
                      None \<Rightarrow> (s1, Inl NoAttestationStore)
                    | Some at \<Rightarrow>
                        store_call (as_UpsertAttestedNode at (attestedNodeRecordFromIdentity node)) (\<lambda>_.
                          \<lparr>ar_NodeId = at_NodeID node, ar_TrustDomain = at_TrustDomain node,
                           ar_Claims = cloneLabels (at_Claims node), ar_Measurements = cloneLabels (at_Measurements node),
                           ar_AttestedAt = UnixNano (at_AttestedAt node), ar_ExpiresAt = UnixNano (at_ExpiresAt node)\<rparr>) s1)))) s)"

section \<open>Nodes and instances\<close>

definition Svc_RegisterNode :: "'s Service \<Rightarrow> time \<Rightarrow> string \<Rightarrow> NodeView \<Rightarrow> 's \<Rightarrow> 's \<times> (svc_error + unit)" where
  "Svc_RegisterNode svc now uri request =
     with_subject uri (\<lambda>subject s.
       (let node = nodeFromView (Some request);
            register = require (validateNodeBundle svc node)
              (store_call (mb_RegisterNode (sto_membership (svc_store svc)) node) (\<lambda>_. ()))
        in case authorizeNodeSubject svc subject (nd_ID node) of
             Some _ \<Rightarrow> require (authorizeConductorNodeSubject svc subject (nd_ID node)) register s
           | None \<Rightarrow>
               (case requireAttestedNode svc now (nd_ID node) (nd_BundleDigest node) s of
                  (s1, Some e) \<Rightarrow> (s1, Inl e)
                | (s1, None) \<Rightarrow> register s1)))"

definition Svc_HeartbeatNode :: "'s Service \<Rightarrow> string \<Rightarrow> string \<Rightarrow> int \<Rightarrow> 's \<Rightarrow> 's \<times> (svc_error + unit)" where
  "Svc_HeartbeatNode svc uri nodeId atNano =
     with_subject uri (\<lambda>subject.
       (let beat = store_call (mb_HeartbeatNode (sto_membership (svc_store svc)) nodeId (timeFromUnixNano atNano)) (\<lambda>_. ())
        in case authorizeNodeSubject svc subject nodeId of
             Some _ \<Rightarrow> require (authorizeConductorNodeSubject svc subject nodeId) beat
           | None \<Rightarrow> beat))"

definition Svc_GetNode :: "'s Service \<Rightarrow> string \<Rightarrow> string \<Rightarrow> 's \<Rightarrow> 's \<times> (svc_error + NodeView option)" where
  "Svc_GetNode svc uri nodeId =
     with_subject uri (\<lambda>subject. require (authorizeFabric svc subject)
       (store_call (mb_GetNode (sto_membership (svc_store svc)) nodeId) (map_option nodeView)))"

definition Svc_ListNodes :: "'s Service \<Rightarrow> string \<Rightarrow> 's \<Rightarrow> 's \<times> (svc_error + NodeView list)" where
  "Svc_ListNodes svc uri =
     with_subject uri (\<lambda>subject. require (authorizeFabric svc subject)
       (store_call (mb_ListNodes (sto_membership (svc_store svc))) (map nodeView)))"

definition Svc_RegisterInstance :: "'s Service \<Rightarrow> time \<Rightarrow> string \<Rightarrow> InstanceView \<Rightarrow> 's \<Rightarrow> 's \<times> (svc_error + unit)" where
  "Svc_RegisterInstance svc now uri request =
     with_subject uri (\<lambda>subject.
       (let inst = instanceFromView (Some request)
        in require (authorizeInstanceSubject svc subject (in_ID inst) (in_NodeID inst) (in_Profile inst)) (\<lambda>s.
             (case requireAttestedNode svc now (in_NodeID inst) (in_BundleDigest inst) s of
                (s1, Some e) \<Rightarrow> (s1, Inl e)
              | (s1, None) \<Rightarrow>
                  require (validateInstanceBundle svc inst)
                    (store_call (mb_RegisterInstance (sto_membership (svc_store svc)) inst) (\<lambda>_. ())) s1))))"

definition Svc_HeartbeatInstance :: "'s Service \<Rightarrow> string \<Rightarrow> string \<Rightarrow> int \<Rightarrow> 's \<Rightarrow> 's \<times> (svc_error + unit)" where
  "Svc_HeartbeatInstance svc uri instanceId atNano =
     with_subject uri (\<lambda>subject s.
       (case mb_GetInstance (sto_membership (svc_store svc)) instanceId s of
          (s1, Inl e) \<Rightarrow> (s1, Inl (StoreError e))
        | (s1, Inr None) \<Rightarrow> (s1, Inl (InstanceNotRegistered instanceId))
        | (s1, Inr (Some inst)) \<Rightarrow>
            require (authorizeInstanceSubject svc subject (in_ID inst) (in_NodeID inst) (in_Profile inst))
              (store_call (mb_HeartbeatInstance (sto_membership (svc_store svc)) instanceId (timeFromUnixNano atNano)) (\<lambda>_. ())) s1))"

definition Svc_GetInstance :: "'s Service \<Rightarrow> string \<Rightarrow> string \<Rightarrow> 's \<Rightarrow> 's \<times> (svc_error + InstanceView option)" where
  "Svc_GetInstance svc uri instanceId =
     with_subject uri (\<lambda>subject. require (authorizeFabric svc subject)
       (store_call (mb_GetInstance (sto_membership (svc_store svc)) instanceId) (map_option instanceView)))"

definition Svc_ListInstances :: "'s Service \<Rightarrow> string \<Rightarrow> InstanceFilter \<Rightarrow> 's \<Rightarrow> 's \<times> (svc_error + InstanceView list)" where
  "Svc_ListInstances svc uri flt =
     with_subject uri (\<lambda>subject. require (authorizeFabric svc subject)
       (store_call (mb_ListInstances (sto_membership (svc_store svc)) flt) (map instanceView)))"

definition Svc_RemoveInstance :: "'s Service \<Rightarrow> string \<Rightarrow> string \<Rightarrow> 's \<Rightarrow> 's \<times> (svc_error + unit)" where
  "Svc_RemoveInstance svc uri instanceId =
     with_subject uri (\<lambda>subject s.
       (let remove = store_call (mb_RemoveInstance (sto_membership (svc_store svc)) instanceId) (\<lambda>_. ())
        in case mb_GetInstance (sto_membership (svc_store svc)) instanceId s of
             (s1, Inl e) \<Rightarrow> (s1, Inl (StoreError e))
           | (s1, Inr None) \<Rightarrow> remove s1
           | (s1, Inr (Some inst)) \<Rightarrow>
               require (authorizeInstanceSubject svc subject (in_ID inst) (in_NodeID inst) (in_Profile inst)) remove s1))"

section \<open>Leadership and discovery\<close>

text \<open>A call that only the conductor may make, and one that every member of the fabric may make.\<close>

definition conductor_call :: "'s Service \<Rightarrow> string \<Rightarrow> ('s \<Rightarrow> 's \<times> (svc_error + 'r)) \<Rightarrow> 's \<Rightarrow> 's \<times> (svc_error + 'r)" where
  "conductor_call svc uri f = with_subject uri (\<lambda>subject. require (authorizeConductorSubject svc subject) f)"

definition fabric_call :: "'s Service \<Rightarrow> string \<Rightarrow> ('s \<Rightarrow> 's \<times> (svc_error + 'r)) \<Rightarrow> 's \<Rightarrow> 's \<times> (svc_error + 'r)" where
  "fabric_call svc uri f = with_subject uri (\<lambda>subject. require (authorizeFabric svc subject) f)"

definition Svc_AcquireLeader :: "'s Service \<Rightarrow> string \<Rightarrow> string \<Rightarrow> string \<Rightarrow> int \<Rightarrow> 's \<Rightarrow> 's \<times> (svc_error + LeaderLeaseView option \<times> bool)" where
  "Svc_AcquireLeader svc uri candidateId candidateAddress ttlNanos =
     conductor_call svc uri
       (store_call (ld_AcquireLeader (sto_leadership (svc_store svc)) candidateId candidateAddress (durationFromNanos ttlNanos))
         (\<lambda>(lease, acquired). (Some (leaderLeaseView lease), acquired)))"

definition Svc_RenewLeader :: "'s Service \<Rightarrow> string \<Rightarrow> LeaderLeaseView option \<Rightarrow> int \<Rightarrow> 's \<Rightarrow> 's \<times> (svc_error + LeaderLeaseView option)" where
  "Svc_RenewLeader svc uri lease ttlNanos =
     conductor_call svc uri
       (store_call (ld_RenewLeader (sto_leadership (svc_store svc)) (leaderLeaseFromView lease) (durationFromNanos ttlNanos))
         (\<lambda>l. Some (leaderLeaseView l)))"

definition Svc_ReleaseLeader :: "'s Service \<Rightarrow> string \<Rightarrow> LeaderLeaseView option \<Rightarrow> 's \<Rightarrow> 's \<times> (svc_error + unit)" where
  "Svc_ReleaseLeader svc uri lease =
     conductor_call svc uri
       (store_call (ld_ReleaseLeader (sto_leadership (svc_store svc)) (leaderLeaseFromView lease)) (\<lambda>_. ()))"

definition Svc_GetLeader :: "'s Service \<Rightarrow> string \<Rightarrow> 's \<Rightarrow> 's \<times> (svc_error + LeaderLeaseView option)" where
  "Svc_GetLeader svc uri =
     fabric_call svc uri (store_call (ld_GetLeader (sto_leadership (svc_store svc))) (map_option leaderLeaseView))"

definition store_reader_of :: "('s, store_error) Store \<Rightarrow> 's store_reader" where
  "store_reader_of st =
     \<lparr>sr_GetLeader = ld_GetLeader (sto_leadership st), sr_GetInstance = mb_GetInstance (sto_membership st),
      sr_ListInstances = mb_ListInstances (sto_membership st)\<rparr>"

definition Svc_ResolveEndpoint :: "'s Service \<Rightarrow> string \<Rightarrow> string \<Rightarrow> 's \<Rightarrow> 's \<times> (svc_error + Endpoint option)" where
  "Svc_ResolveEndpoint svc uri name =
     fabric_call svc uri (store_call (ResolveEndpoint (store_reader_of (svc_store svc)) name) (\<lambda>e. e))"

definition Svc_ListParticipants :: "'s Service \<Rightarrow> string \<Rightarrow> 's \<Rightarrow> 's \<times> (svc_error + string list)" where
  "Svc_ListParticipants svc uri =
     fabric_call svc uri (store_call (ListParticipants (store_reader_of (svc_store svc))) (\<lambda>ns. ns))"

section \<open>Requests and leases\<close>

definition Svc_UpsertRequest :: "'s Service \<Rightarrow> string \<Rightarrow> RequestRecordView option \<Rightarrow> 's \<Rightarrow> 's \<times> (svc_error + unit)" where
  "Svc_UpsertRequest svc uri request =
     conductor_call svc uri
       (store_call (rs_UpsertRequest (sto_requests (svc_store svc)) (requestRecordFromView request)) (\<lambda>_. ()))"

definition Svc_GetRequest :: "'s Service \<Rightarrow> string \<Rightarrow> string \<Rightarrow> 's \<Rightarrow> 's \<times> (svc_error + RequestRecordView option)" where
  "Svc_GetRequest svc uri requestId =
     fabric_call svc uri (store_call (rs_GetRequest (sto_requests (svc_store svc)) requestId) (map_option requestRecordView))"

definition Svc_ListRequests :: "'s Service \<Rightarrow> string \<Rightarrow> 's \<Rightarrow> 's \<times> (svc_error + RequestRecordView list)" where
  "Svc_ListRequests svc uri =
     fabric_call svc uri (store_call (rs_ListRequests (sto_requests (svc_store svc))) (map requestRecordView))"

definition Svc_UpsertTask :: "'s Service \<Rightarrow> string \<Rightarrow> TaskRecordView option \<Rightarrow> 's \<Rightarrow> 's \<times> (svc_error + unit)" where
  "Svc_UpsertTask svc uri task =
     conductor_call svc uri (store_call (rs_UpsertTask (sto_requests (svc_store svc)) (taskRecordFromView task)) (\<lambda>_. ()))"

definition Svc_ListTasks :: "'s Service \<Rightarrow> string \<Rightarrow> string \<Rightarrow> 's \<Rightarrow> 's \<times> (svc_error + TaskRecordView list)" where
  "Svc_ListTasks svc uri requestId =
     fabric_call svc uri (store_call (rs_ListTasks (sto_requests (svc_store svc)) requestId) (map taskRecordView))"

definition Svc_AcquireTaskLease :: "'s Service \<Rightarrow> string \<Rightarrow> TaskLeaseView option \<Rightarrow> int \<Rightarrow> 's \<Rightarrow> 's \<times> (svc_error + TaskLeaseView option \<times> bool)" where
  "Svc_AcquireTaskLease svc uri lease ttlNanos =
     conductor_call svc uri
       (store_call (ls_AcquireTaskLease (sto_leases (svc_store svc)) (taskLeaseFromView lease) (durationFromNanos ttlNanos))
         (\<lambda>(l, acquired). (Some (taskLeaseView l), acquired)))"

definition Svc_RenewTaskLease :: "'s Service \<Rightarrow> string \<Rightarrow> TaskLeaseView option \<Rightarrow> int \<Rightarrow> 's \<Rightarrow> 's \<times> (svc_error + TaskLeaseView option)" where
  "Svc_RenewTaskLease svc uri lease ttlNanos =
     conductor_call svc uri
       (store_call (ls_RenewTaskLease (sto_leases (svc_store svc)) (taskLeaseFromView lease) (durationFromNanos ttlNanos))
         (\<lambda>l. Some (taskLeaseView l)))"

definition Svc_GetTaskLease :: "'s Service \<Rightarrow> string \<Rightarrow> string \<Rightarrow> string \<Rightarrow> 's \<Rightarrow> 's \<times> (svc_error + TaskLeaseView option)" where
  "Svc_GetTaskLease svc uri requestId taskId =
     fabric_call svc uri (store_call (ls_GetTaskLease (sto_leases (svc_store svc)) requestId taskId) (map_option taskLeaseView))"

definition Svc_ReleaseTaskLease :: "'s Service \<Rightarrow> string \<Rightarrow> TaskLeaseView option \<Rightarrow> 's \<Rightarrow> 's \<times> (svc_error + unit)" where
  "Svc_ReleaseTaskLease svc uri lease =
     conductor_call svc uri (store_call (ls_ReleaseTaskLease (sto_leases (svc_store svc)) (taskLeaseFromView lease)) (\<lambda>_. ()))"

definition Svc_AcquireProfileLease :: "'s Service \<Rightarrow> string \<Rightarrow> ProfileLeaseView option \<Rightarrow> int \<Rightarrow> 's \<Rightarrow> 's \<times> (svc_error + ProfileLeaseView option \<times> bool)" where
  "Svc_AcquireProfileLease svc uri lease ttlNanos =
     conductor_call svc uri
       (store_call (ls_AcquireProfileLease (sto_leases (svc_store svc)) (profileLeaseFromView lease) (durationFromNanos ttlNanos))
         (\<lambda>(l, acquired). (Some (profileLeaseView l), acquired)))"

definition Svc_RenewProfileLease :: "'s Service \<Rightarrow> string \<Rightarrow> ProfileLeaseView option \<Rightarrow> int \<Rightarrow> 's \<Rightarrow> 's \<times> (svc_error + ProfileLeaseView option)" where
  "Svc_RenewProfileLease svc uri lease ttlNanos =
     conductor_call svc uri
       (store_call (ls_RenewProfileLease (sto_leases (svc_store svc)) (profileLeaseFromView lease) (durationFromNanos ttlNanos))
         (\<lambda>l. Some (profileLeaseView l)))"

definition Svc_GetProfileLease :: "'s Service \<Rightarrow> string \<Rightarrow> string \<Rightarrow> 's \<Rightarrow> 's \<times> (svc_error + ProfileLeaseView option)" where
  "Svc_GetProfileLease svc uri profile =
     fabric_call svc uri (store_call (ls_GetProfileLease (sto_leases (svc_store svc)) profile) (map_option profileLeaseView))"

definition Svc_ReleaseProfileLease :: "'s Service \<Rightarrow> string \<Rightarrow> ProfileLeaseView option \<Rightarrow> 's \<Rightarrow> 's \<times> (svc_error + unit)" where
  "Svc_ReleaseProfileLease svc uri lease =
     conductor_call svc uri (store_call (ls_ReleaseProfileLease (sto_leases (svc_store svc)) (profileLeaseFromView lease)) (\<lambda>_. ()))"

section \<open>What a caller may do\<close>

text \<open>The caller a URI names, as the checks read it, and the conditions a registration has to meet.\<close>

definition in_fabric :: "'s Service \<Rightarrow> Subject \<Rightarrow> bool" where
  "in_fabric svc subject = (svc_fabric svc = '''' \<or> sj_Fabric subject = svc_fabric svc)"

definition caller :: "'s Service \<Rightarrow> string \<Rightarrow> Subject option" where
  "caller svc uri =
     (case ParseSubjectURI uri of
        Inl _ \<Rightarrow> None
      | Inr subject \<Rightarrow> if in_fabric svc subject then Some subject else None)"

definition is_conductor :: "'s Service \<Rightarrow> string \<Rightarrow> bool" where
  "is_conductor svc uri = (case caller svc uri of None \<Rightarrow> False | Some subject \<Rightarrow> sj_Kind subject = SubjectKindConductor)"

definition refused :: "('s \<Rightarrow> 's \<times> ('e + 'r)) \<Rightarrow> 's \<Rightarrow> bool" where
  "refused f s = (fst (f s) = s \<and> isl (snd (f s)))"

definition attested :: "'s Service \<Rightarrow> time \<Rightarrow> string \<Rightarrow> string \<Rightarrow> 's \<Rightarrow> bool" where
  "attested svc now nodeID digest s =
     (case sto_attestations (svc_store svc) of
        None \<Rightarrow> False
      | Some at \<Rightarrow>
          (case snd (as_GetAttestedNode at nodeID s) of
             Inr (Some r) \<Rightarrow> (an_ExpiresAt r = 0 \<or> now \<le> an_ExpiresAt r) \<and>
               (digest = '''' \<or> mget0 '''' (an_Measurements r) ''bundle_digest'' \<in> {'''', digest})
           | _ \<Rightarrow> False))"

definition node_bundle_ok :: "'s Service \<Rightarrow> Node \<Rightarrow> bool" where
  "node_bundle_ok svc node =
     (svc_expectedBundleDigest svc = '''' \<or>
      nd_BundleDigest node = svc_expectedBundleDigest svc \<and>
      (\<forall>(profile, digest) \<in> set (nd_ProfileDigests node).
         digest \<noteq> '''' \<and> mget (svc_expectedProfileDigests svc) profile = Some digest))"

definition instance_bundle_ok :: "'s Service \<Rightarrow> AgentInstance \<Rightarrow> bool" where
  "instance_bundle_ok svc inst =
     ((svc_expectedBundleDigest svc = '''' \<or> in_BundleDigest inst = svc_expectedBundleDigest svc) \<and>
      in_ProfileDigest inst \<noteq> '''' \<and> mget (svc_expectedProfileDigests svc) (in_Profile inst) = Some (in_ProfileDigest inst))"

lemma authorizeFabric_None [simp]: "authorizeFabric svc subject = None \<longleftrightarrow> in_fabric svc subject"
  by (auto simp: authorizeFabric_def in_fabric_def)

lemma authorizeConductorSubject_None:
  "authorizeConductorSubject svc subject = None \<longleftrightarrow> in_fabric svc subject \<and> sj_Kind subject = SubjectKindConductor"
  by (simp add: authorizeConductorSubject_def)

lemma validateNodeBundle_None: "validateNodeBundle svc node = None \<longleftrightarrow> node_bundle_ok svc node"
  by (auto simp: validateNodeBundle_def node_bundle_ok_def split: option.splits)

lemma validateInstanceBundle_None: "validateInstanceBundle svc inst = None \<longleftrightarrow> instance_bundle_ok svc inst"
  by (auto simp: validateInstanceBundle_def instance_bundle_ok_def split: option.splits)

lemma requireAttestedNode_None: "snd (requireAttestedNode svc now n d s) = None \<longleftrightarrow> attested svc now n d s"
  by (auto simp: requireAttestedNode_def attested_def Let_def split: option.splits sum.splits prod.splits)

lemma conductor_call_refused: "\<not> is_conductor svc uri \<Longrightarrow> refused (conductor_call svc uri f) s"
  by (auto simp: is_conductor_def caller_def refused_def conductor_call_def with_subject_def require_def
      authorizeConductorSubject_None split: sum.splits option.splits if_splits)

lemma fabric_call_refused: "caller svc uri = None \<Longrightarrow> refused (fabric_call svc uri f) s"
  by (auto simp: caller_def refused_def fabric_call_def with_subject_def require_def
      split: sum.splits option.splits if_splits)

lemma authorizeNodeSubject_None:
  "authorizeNodeSubject svc subject nodeID = None \<longleftrightarrow>
     in_fabric svc subject \<and> sj_Kind subject = SubjectKindNode \<and> sj_NodeID subject = NormalizeID nodeID"
  by (auto simp: authorizeNodeSubject_def)

lemma authorizeConductorNodeSubject_None:
  "authorizeConductorNodeSubject svc subject nodeID = None \<longleftrightarrow>
     in_fabric svc subject \<and> sj_Kind subject = SubjectKindConductor \<and> sj_Name subject = NormalizeID nodeID"
  by (auto simp: authorizeConductorNodeSubject_def authorizeConductorSubject_None)

text \<open>Who may act for a node and for an instance.\<close>

definition acts_for_instance :: "Subject \<Rightarrow> AgentInstance \<Rightarrow> bool" where
  "acts_for_instance subject inst =
     (sj_NodeID subject = NormalizeID (in_NodeID inst) \<and>
      (sj_Kind subject = SubjectKindNode \<or>
       sj_Kind subject = SubjectKindAgentInstance \<and> sj_InstanceID subject = NormalizeID (in_ID inst) \<and>
       sj_Profile subject = NormalizeID (in_Profile inst)))"

lemma authorizeInstanceSubject_None:
  "authorizeInstanceSubject svc subject (in_ID inst) (in_NodeID inst) (in_Profile inst) = None \<longleftrightarrow>
     in_fabric svc subject \<and> acts_for_instance subject inst"
  by (cases "sj_Kind subject"; cases "authorizeFabric svc subject")
    (auto simp: authorizeInstanceSubject_def acts_for_instance_def simp flip: authorizeFabric_None)

lemma store_call_InrD:
  "store_call f reply s = (s', Inr q) \<Longrightarrow> \<exists>r. f s = (s', Inr r) \<and> q = reply r"
  by (auto simp: store_call_def split: prod.splits sum.splits)

lemma require_InrD: "require e f s = (s', Inr r) \<Longrightarrow> e = None \<and> f s = (s', Inr r)"
  by (auto simp: require_def split: option.splits)

lemma with_subject_InrD:
  "with_subject uri f s = (s', Inr r) \<Longrightarrow> \<exists>subject. ParseSubjectURI uri = Inr subject \<and> f subject s = (s', Inr r)"
  by (auto simp: with_subject_def split: sum.splits)

lemma requireAttestedNode_ok: "requireAttestedNode svc now n d s = (s1, None) \<Longrightarrow> attested svc now n d s"
  by (metis requireAttestedNode_None snd_conv)

lemma RegisterNode_ok:
  assumes "Svc_RegisterNode svc now uri view s = (s', Inr r)"
  shows "\<exists>subject s1. caller svc uri = Some subject \<and>
    (sj_Kind subject = SubjectKindNode \<and> sj_NodeID subject = NormalizeID (vn_Id view) \<and>
       attested svc now (vn_Id view) (vn_BundleDigest view) s \<or>
     sj_Kind subject = SubjectKindConductor \<and> sj_Name subject = NormalizeID (vn_Id view)) \<and>
    node_bundle_ok svc (nodeFromView (Some view)) \<and>
    mb_RegisterNode (sto_membership (svc_store svc)) (nodeFromView (Some view)) s1 = (s', Inr ())"
proof -
  have ids: "nd_ID (nodeFromView (Some view)) = vn_Id view" "nd_BundleDigest (nodeFromView (Some view)) = vn_BundleDigest view"
    by (simp_all add: nodeFromView_def)
  from assms obtain subject where sj: "ParseSubjectURI uri = Inr subject" and
    st: "(case authorizeNodeSubject svc subject (vn_Id view) of
             Some _ \<Rightarrow> require (authorizeConductorNodeSubject svc subject (vn_Id view))
               (require (validateNodeBundle svc (nodeFromView (Some view)))
                 (store_call (mb_RegisterNode (sto_membership (svc_store svc)) (nodeFromView (Some view))) (\<lambda>_. ()))) s
           | None \<Rightarrow>
               (case requireAttestedNode svc now (vn_Id view) (vn_BundleDigest view) s of
                  (s1, Some e) \<Rightarrow> (s1, Inl e)
                | (s1, None) \<Rightarrow> require (validateNodeBundle svc (nodeFromView (Some view)))
                    (store_call (mb_RegisterNode (sto_membership (svc_store svc)) (nodeFromView (Some view))) (\<lambda>_. ())) s1)) = (s', Inr r)"
    unfolding Svc_RegisterNode_def Let_def ids by (auto dest: with_subject_InrD)
  show ?thesis
  proof (cases "authorizeNodeSubject svc subject (vn_Id view)")
    case None
    then obtain s1 where "requireAttestedNode svc now (vn_Id view) (vn_BundleDigest view) s = (s1, None)"
      and rest: "require (validateNodeBundle svc (nodeFromView (Some view)))
        (store_call (mb_RegisterNode (sto_membership (svc_store svc)) (nodeFromView (Some view))) (\<lambda>_. ())) s1 = (s', Inr r)"
      using st by (auto split: prod.splits option.splits)
    then show ?thesis
      using None sj
      by (auto simp: caller_def authorizeNodeSubject_None validateNodeBundle_None
          dest!: requireAttestedNode_ok require_InrD store_call_InrD)
  next
    case (Some e)
    then have "require (authorizeConductorNodeSubject svc subject (vn_Id view))
      (require (validateNodeBundle svc (nodeFromView (Some view)))
        (store_call (mb_RegisterNode (sto_membership (svc_store svc)) (nodeFromView (Some view))) (\<lambda>_. ()))) s = (s', Inr r)"
      using st by simp
    from require_InrD [OF this] show ?thesis
      using sj by (auto simp: caller_def authorizeConductorNodeSubject_None validateNodeBundle_None
          dest!: require_InrD store_call_InrD)
  qed
qed

lemma RegisterInstance_ok:
  assumes "Svc_RegisterInstance svc now uri view s = (s', Inr r)"
  shows "\<exists>subject s1. caller svc uri = Some subject \<and> acts_for_instance subject (instanceFromView (Some view)) \<and>
    attested svc now (vi_NodeId view) (vi_BundleDigest view) s \<and> instance_bundle_ok svc (instanceFromView (Some view)) \<and>
    mb_RegisterInstance (sto_membership (svc_store svc)) (instanceFromView (Some view)) s1 = (s', Inr ())"
proof -
  have ids: "in_NodeID (instanceFromView (Some view)) = vi_NodeId view"
    "in_BundleDigest (instanceFromView (Some view)) = vi_BundleDigest view"
    by (simp_all add: instanceFromView_def)
  from assms obtain subject where sj: "ParseSubjectURI uri = Inr subject" and
    ok: "authorizeInstanceSubject svc subject (in_ID (instanceFromView (Some view)))
      (in_NodeID (instanceFromView (Some view))) (in_Profile (instanceFromView (Some view))) = None" and
    st: "(case requireAttestedNode svc now (vi_NodeId view) (vi_BundleDigest view) s of
        (s1, Some e) \<Rightarrow> (s1, Inl e)
      | (s1, None) \<Rightarrow> require (validateInstanceBundle svc (instanceFromView (Some view)))
          (store_call (mb_RegisterInstance (sto_membership (svc_store svc)) (instanceFromView (Some view))) (\<lambda>_. ())) s1)
       = (s', Inr r)"
    unfolding Svc_RegisterInstance_def Let_def ids by (blast dest: with_subject_InrD require_InrD)
  from st obtain s1 where "requireAttestedNode svc now (vi_NodeId view) (vi_BundleDigest view) s = (s1, None)"
    and "require (validateInstanceBundle svc (instanceFromView (Some view)))
      (store_call (mb_RegisterInstance (sto_membership (svc_store svc)) (instanceFromView (Some view))) (\<lambda>_. ())) s1 = (s', Inr r)"
    by (auto split: prod.splits option.splits)
  with sj ok show ?thesis
    by (auto simp: caller_def authorizeInstanceSubject_None validateInstanceBundle_None
        dest!: requireAttestedNode_ok require_InrD store_call_InrD)
qed

lemma AttestNode_ok:
  assumes "Svc_AttestNode svc uri request s = (s', Inr r)"
  shows "\<exists>subject. caller svc uri = Some subject \<and> sj_Kind subject = SubjectKindNode \<and>
    (ar_NodeId r = '''' \<or> ar_NodeId r = sj_NodeID subject)"
proof -
  obtain attest where at: "svc_attestor svc = Some attest"
    using assms by (auto simp: Svc_AttestNode_def split: option.splits)
  with assms obtain subject where sj: "ParseSubjectURI uri = Inr subject"
    "authorizeNodeSubject svc subject (sj_NodeID subject) = None"
    unfolding Svc_AttestNode_def by (auto dest!: with_subject_InrD require_InrD)
  then show ?thesis
    using assms at by (auto simp: Svc_AttestNode_def with_subject_def require_def caller_def authorizeNodeSubject_None
        split: prod.splits sum.splits if_splits option.splits dest!: store_call_InrD)
qed

lemma HeartbeatNode_ok:
  assumes "Svc_HeartbeatNode svc uri nodeId at s = (s', Inr r)"
  shows "\<exists>subject. caller svc uri = Some subject \<and>
    (sj_Kind subject = SubjectKindNode \<and> sj_NodeID subject = NormalizeID nodeId \<or>
     sj_Kind subject = SubjectKindConductor \<and> sj_Name subject = NormalizeID nodeId) \<and>
    mb_HeartbeatNode (sto_membership (svc_store svc)) nodeId (timeFromUnixNano at) s = (s', Inr ())"
proof -
  let ?beat = "store_call (mb_HeartbeatNode (sto_membership (svc_store svc)) nodeId (timeFromUnixNano at)) (\<lambda>_. ())"
  obtain subject where sj: "ParseSubjectURI uri = Inr subject"
    and st: "(case authorizeNodeSubject svc subject nodeId of
        Some _ \<Rightarrow> require (authorizeConductorNodeSubject svc subject nodeId) ?beat | None \<Rightarrow> ?beat) s = (s', Inr r)"
    using assms unfolding Svc_HeartbeatNode_def Let_def by (blast dest: with_subject_InrD)
  show ?thesis
  proof (cases "authorizeNodeSubject svc subject nodeId")
    case None
    with sj st show ?thesis by (auto simp: caller_def authorizeNodeSubject_None dest!: store_call_InrD)
  next
    case (Some e)
    with st have "require (authorizeConductorNodeSubject svc subject nodeId) ?beat s = (s', Inr r)" by simp
    from require_InrD [OF this] sj show ?thesis
      by (auto simp: caller_def authorizeConductorNodeSubject_None dest!: store_call_InrD)
  qed
qed

lemma HeartbeatInstance_ok:
  assumes "Svc_HeartbeatInstance svc uri instanceId at s = (s', Inr r)"
  shows "\<exists>subject s1 inst. caller svc uri = Some subject \<and>
    mb_GetInstance (sto_membership (svc_store svc)) instanceId s = (s1, Inr (Some inst)) \<and> acts_for_instance subject inst \<and>
    mb_HeartbeatInstance (sto_membership (svc_store svc)) instanceId (timeFromUnixNano at) s1 = (s', Inr ())"
  using assms unfolding Svc_HeartbeatInstance_def
  by (auto simp: caller_def authorizeInstanceSubject_None split: prod.splits sum.splits option.splits
      dest!: with_subject_InrD require_InrD store_call_InrD)

lemma RemoveInstance_ok:
  assumes "Svc_RemoveInstance svc uri instanceId s = (s', Inr r)"
  shows "\<exists>s1 found. mb_GetInstance (sto_membership (svc_store svc)) instanceId s = (s1, Inr found) \<and>
    (\<forall>inst. found = Some inst \<longrightarrow> (\<exists>subject. caller svc uri = Some subject \<and> acts_for_instance subject inst)) \<and>
    mb_RemoveInstance (sto_membership (svc_store svc)) instanceId s1 = (s', Inr ())"
  using assms unfolding Svc_RemoveInstance_def Let_def
  by (fastforce simp: caller_def authorizeInstanceSubject_None split: prod.splits sum.splits option.splits
      dest!: with_subject_InrD require_InrD store_call_InrD)

lemma fabric_call_granted:
  assumes "caller svc uri = Some subject"
  shows "fabric_call svc uri f = f"
proof -
  have "ParseSubjectURI uri = Inr subject" "authorizeFabric svc subject = None"
    using assms by (auto simp: caller_def split: sum.splits if_splits)
  then show ?thesis by (auto simp: fabric_call_def with_subject_def require_def fun_eq_iff simp del: authorizeFabric_None)
qed

text \<open>A read: refused without touching the store unless the caller is a member, for whom it is the read of the store.\<close>

definition member_read :: "'s Service \<Rightarrow> string \<Rightarrow> ('s \<Rightarrow> 's \<times> (svc_error + 'q)) \<Rightarrow> ('s \<Rightarrow> 's \<times> (store_error + 'r)) \<Rightarrow> ('r \<Rightarrow> 'q) \<Rightarrow> 's \<Rightarrow> bool" where
  "member_read svc uri f g reply s =
     (case caller svc uri of None \<Rightarrow> refused f s | Some _ \<Rightarrow> f s = store_call g reply s)"

lemma member_read: "member_read svc uri (fabric_call svc uri (store_call g reply)) g reply s"
  by (simp add: member_read_def fabric_call_refused fabric_call_granted split: option.split)

text \<open>The memory store behind the interface, each call at the instant \<open>now\<close>.\<close>

definition memory_Store :: "time \<Rightarrow> (MemoryStore, store_error) Store" where
  "memory_Store now =
     \<lparr>sto_leadership = \<lparr>ld_AcquireLeader = AcquireLeader now, ld_RenewLeader = RenewLeader now, ld_GetLeader = GetLeader now,
        ld_ReleaseLeader = ReleaseLeader\<rparr>,
      sto_membership = \<lparr>mb_RegisterNode = RegisterNode now now, mb_HeartbeatNode = HeartbeatNode now now,
        mb_GetNode = GetNode now, mb_ListNodes = ListNodes now, mb_RegisterInstance = RegisterInstance now now,
        mb_HeartbeatInstance = HeartbeatInstance now now, mb_GetInstance = GetInstance now,
        mb_ListInstances = ListInstances now, mb_RemoveInstance = RemoveInstance\<rparr>,
      sto_requests = \<lparr>rs_UpsertRequest = UpsertRequest now, rs_GetRequest = GetRequest, rs_ListRequests = ListRequests,
        rs_UpsertTask = UpsertTask now, rs_ListTasks = ListTasks\<rparr>,
      sto_leases = \<lparr>ls_AcquireProfileLease = AcquireProfileLease now, ls_RenewProfileLease = RenewProfileLease now,
        ls_GetProfileLease = GetProfileLease now, ls_ReleaseProfileLease = ReleaseProfileLease,
        ls_AcquireTaskLease = AcquireTaskLease now, ls_RenewTaskLease = RenewTaskLease now,
        ls_GetTaskLease = GetTaskLease now, ls_ReleaseTaskLease = ReleaseTaskLease\<rparr>,
      sto_attestations = Some \<lparr>as_UpsertAttestedNode = UpsertAttestedNode, as_GetAttestedNode = GetAttestedNode\<rparr>\<rparr>"


definition demo_service :: "MemoryStore Service" where
  "demo_service = New_Service (memory_Store 5) ''f'' ''b1'' [(''dev'', ''p1'')] None"

definition demo_attested :: MemoryStore where
  "demo_attested = fst (UpsertAttestedNode
     \<lparr>an_NodeID = ''n1'', an_TrustDomain = ''td.io'', an_Claims = [], an_Measurements = [(''bundle_digest'', ''b1'')],
      an_AttestedAt = 1, an_ExpiresAt = 0\<rparr> (NewMemoryStore ''f''))"

definition demo_node_uri :: string where
  "demo_node_uri = ''spiffe://td.io/fabric/f/node/n1''"

definition demo_node_view :: NodeView where
  "demo_node_view = nodeView \<lparr>nd_ID = ''n1'', nd_Address = ''a'', nd_State = NodeStateReady, nd_Labels = [], nd_BundleDigest = ''b1'',
     nd_ProfileDigests = [(''dev'', ''p1'')], nd_Capacity = \<lparr>cap_MaxInstances = 1, cap_MaxTasks = 1\<rparr>, nd_StartedAt = 1, nd_LastHeartbeatAt = 1\<rparr>"


end
