(* ===== verification/Remote.thy ===== *)
theory Remote
  imports Service
begin

text \<open>
  The control plane over gRPC: the handlers of the server (internal/grpc/server.go), which take the caller's URI from its
  certificate, and the client that implements the store interfaces by calls (internal/controlplane/remote.go).
  The generated client stub is a record of the methods of the protobuf service; \<open>server_stub\<close> is the stub
  connected to a server, with nothing lost in between.
\<close>

datatype rpc_error =
    ServiceNotConfigured | MissingAuthInfo | MissingTLSAuthInfo | MissingCertificate | MissingIdentityURI
  | Refused svc_error | ConnectionLost

record 's ControlPlaneClient =
  cp_AttestNode :: "NodeAttestation \<Rightarrow> 's \<Rightarrow> 's \<times> (rpc_error + AttestNodeResponse)"
  cp_RegisterNode :: "NodeView \<Rightarrow> 's \<Rightarrow> 's \<times> (rpc_error + unit)"
  cp_HeartbeatNode :: "string \<Rightarrow> int \<Rightarrow> 's \<Rightarrow> 's \<times> (rpc_error + unit)"
  cp_GetNode :: "string \<Rightarrow> 's \<Rightarrow> 's \<times> (rpc_error + NodeView option)"
  cp_ListNodes :: "'s \<Rightarrow> 's \<times> (rpc_error + NodeView list)"
  cp_RegisterInstance :: "InstanceView \<Rightarrow> 's \<Rightarrow> 's \<times> (rpc_error + unit)"
  cp_HeartbeatInstance :: "string \<Rightarrow> int \<Rightarrow> 's \<Rightarrow> 's \<times> (rpc_error + unit)"
  cp_GetInstance :: "string \<Rightarrow> 's \<Rightarrow> 's \<times> (rpc_error + InstanceView option)"
  cp_ListInstances :: "InstanceFilter \<Rightarrow> 's \<Rightarrow> 's \<times> (rpc_error + InstanceView list)"
  cp_RemoveInstance :: "string \<Rightarrow> 's \<Rightarrow> 's \<times> (rpc_error + unit)"
  cp_AcquireLeader :: "string \<Rightarrow> string \<Rightarrow> int \<Rightarrow> 's \<Rightarrow> 's \<times> (rpc_error + LeaderLeaseView option \<times> bool)"
  cp_RenewLeader :: "LeaderLeaseView option \<Rightarrow> int \<Rightarrow> 's \<Rightarrow> 's \<times> (rpc_error + LeaderLeaseView option)"
  cp_ReleaseLeader :: "LeaderLeaseView option \<Rightarrow> 's \<Rightarrow> 's \<times> (rpc_error + unit)"
  cp_GetLeader :: "'s \<Rightarrow> 's \<times> (rpc_error + LeaderLeaseView option)"
  cp_ResolveEndpoint :: "string \<Rightarrow> 's \<Rightarrow> 's \<times> (rpc_error + Endpoint option)"
  cp_ListParticipants :: "'s \<Rightarrow> 's \<times> (rpc_error + string list)"
  cp_UpsertRequest :: "RequestRecordView option \<Rightarrow> 's \<Rightarrow> 's \<times> (rpc_error + unit)"
  cp_GetRequest :: "string \<Rightarrow> 's \<Rightarrow> 's \<times> (rpc_error + RequestRecordView option)"
  cp_ListRequests :: "'s \<Rightarrow> 's \<times> (rpc_error + RequestRecordView list)"
  cp_UpsertTask :: "TaskRecordView option \<Rightarrow> 's \<Rightarrow> 's \<times> (rpc_error + unit)"
  cp_ListTasks :: "string \<Rightarrow> 's \<Rightarrow> 's \<times> (rpc_error + TaskRecordView list)"
  cp_AcquireProfileLease :: "ProfileLeaseView option \<Rightarrow> int \<Rightarrow> 's \<Rightarrow> 's \<times> (rpc_error + ProfileLeaseView option \<times> bool)"
  cp_RenewProfileLease :: "ProfileLeaseView option \<Rightarrow> int \<Rightarrow> 's \<Rightarrow> 's \<times> (rpc_error + ProfileLeaseView option)"
  cp_GetProfileLease :: "string \<Rightarrow> 's \<Rightarrow> 's \<times> (rpc_error + ProfileLeaseView option)"
  cp_ReleaseProfileLease :: "ProfileLeaseView option \<Rightarrow> 's \<Rightarrow> 's \<times> (rpc_error + unit)"
  cp_AcquireTaskLease :: "TaskLeaseView option \<Rightarrow> int \<Rightarrow> 's \<Rightarrow> 's \<times> (rpc_error + TaskLeaseView option \<times> bool)"
  cp_RenewTaskLease :: "TaskLeaseView option \<Rightarrow> int \<Rightarrow> 's \<Rightarrow> 's \<times> (rpc_error + TaskLeaseView option)"
  cp_GetTaskLease :: "string \<Rightarrow> string \<Rightarrow> 's \<Rightarrow> 's \<times> (rpc_error + TaskLeaseView option)"
  cp_ReleaseTaskLease :: "TaskLeaseView option \<Rightarrow> 's \<Rightarrow> 's \<times> (rpc_error + unit)"

section \<open>The handlers of the server (server.go)\<close>

text \<open>What the handler finds in its context of the peer: the leaf certificate first.\<close>

record Certificate =
  ct_CommonName :: string
  ct_URIs :: "string list"

datatype peer = NoPeer | OtherPeer | TLSPeer "Certificate list"

fun peerSubjectURI :: "peer \<Rightarrow> rpc_error + string" where
  "peerSubjectURI NoPeer = Inl MissingAuthInfo"
| "peerSubjectURI OtherPeer = Inl MissingTLSAuthInfo"
| "peerSubjectURI (TLSPeer []) = Inl MissingCertificate"
| "peerSubjectURI (TLSPeer (cert # _)) = (case ct_URIs cert of [] \<Rightarrow> Inl MissingIdentityURI | uri # _ \<Rightarrow> Inr uri)"

text \<open>The three steps every handler starts with: the service has to be set, the peer has to name itself, the service decides.\<close>

definition handle :: "'s Service option \<Rightarrow> peer \<Rightarrow> ('s Service \<Rightarrow> string \<Rightarrow> 's \<Rightarrow> 's \<times> (svc_error + 'r)) \<Rightarrow> 's \<Rightarrow> 's \<times> (rpc_error + 'r)" where
  "handle controlPlane peer op s =
     (case controlPlane of
        None \<Rightarrow> (s, Inl ServiceNotConfigured)
      | Some svc \<Rightarrow>
          (case peerSubjectURI peer of
             Inl e \<Rightarrow> (s, Inl e)
           | Inr subjectURI \<Rightarrow>
               (case op svc subjectURI s of (s', Inl e) \<Rightarrow> (s', Inl (Refused e)) | (s', Inr r) \<Rightarrow> (s', Inr r))))"

definition Server_AttestNode :: "'s Service option \<Rightarrow> peer \<Rightarrow> NodeAttestation \<Rightarrow> 's \<Rightarrow> 's \<times> (rpc_error + AttestNodeResponse)" where
  "Server_AttestNode controlPlane peer request = handle controlPlane peer (\<lambda>svc uri. Svc_AttestNode svc uri request)"

definition Server_RegisterNode :: "'s Service option \<Rightarrow> time \<Rightarrow> peer \<Rightarrow> NodeView \<Rightarrow> 's \<Rightarrow> 's \<times> (rpc_error + unit)" where
  "Server_RegisterNode controlPlane now peer request = handle controlPlane peer (\<lambda>svc uri. Svc_RegisterNode svc now uri request)"

definition Server_HeartbeatNode :: "'s Service option \<Rightarrow> peer \<Rightarrow> string \<Rightarrow> int \<Rightarrow> 's \<Rightarrow> 's \<times> (rpc_error + unit)" where
  "Server_HeartbeatNode controlPlane peer nodeId atNano = handle controlPlane peer (\<lambda>svc uri. Svc_HeartbeatNode svc uri nodeId atNano)"

definition Server_GetNode :: "'s Service option \<Rightarrow> peer \<Rightarrow> string \<Rightarrow> 's \<Rightarrow> 's \<times> (rpc_error + NodeView option)" where
  "Server_GetNode controlPlane peer nodeId = handle controlPlane peer (\<lambda>svc uri. Svc_GetNode svc uri nodeId)"

definition Server_ListNodes :: "'s Service option \<Rightarrow> peer \<Rightarrow> 's \<Rightarrow> 's \<times> (rpc_error + NodeView list)" where
  "Server_ListNodes controlPlane peer = handle controlPlane peer (\<lambda>svc uri. Svc_ListNodes svc uri)"

definition Server_RegisterInstance :: "'s Service option \<Rightarrow> time \<Rightarrow> peer \<Rightarrow> InstanceView \<Rightarrow> 's \<Rightarrow> 's \<times> (rpc_error + unit)" where
  "Server_RegisterInstance controlPlane now peer request = handle controlPlane peer (\<lambda>svc uri. Svc_RegisterInstance svc now uri request)"

definition Server_HeartbeatInstance :: "'s Service option \<Rightarrow> peer \<Rightarrow> string \<Rightarrow> int \<Rightarrow> 's \<Rightarrow> 's \<times> (rpc_error + unit)" where
  "Server_HeartbeatInstance controlPlane peer instanceId atNano =
     handle controlPlane peer (\<lambda>svc uri. Svc_HeartbeatInstance svc uri instanceId atNano)"

definition Server_GetInstance :: "'s Service option \<Rightarrow> peer \<Rightarrow> string \<Rightarrow> 's \<Rightarrow> 's \<times> (rpc_error + InstanceView option)" where
  "Server_GetInstance controlPlane peer instanceId = handle controlPlane peer (\<lambda>svc uri. Svc_GetInstance svc uri instanceId)"

definition Server_ListInstances :: "'s Service option \<Rightarrow> peer \<Rightarrow> InstanceFilter \<Rightarrow> 's \<Rightarrow> 's \<times> (rpc_error + InstanceView list)" where
  "Server_ListInstances controlPlane peer flt = handle controlPlane peer (\<lambda>svc uri. Svc_ListInstances svc uri flt)"

definition Server_RemoveInstance :: "'s Service option \<Rightarrow> peer \<Rightarrow> string \<Rightarrow> 's \<Rightarrow> 's \<times> (rpc_error + unit)" where
  "Server_RemoveInstance controlPlane peer instanceId = handle controlPlane peer (\<lambda>svc uri. Svc_RemoveInstance svc uri instanceId)"

definition Server_AcquireLeader :: "'s Service option \<Rightarrow> peer \<Rightarrow> string \<Rightarrow> string \<Rightarrow> int \<Rightarrow> 's \<Rightarrow> 's \<times> (rpc_error + LeaderLeaseView option \<times> bool)" where
  "Server_AcquireLeader controlPlane peer candidateId candidateAddress ttlNanos =
     handle controlPlane peer (\<lambda>svc uri. Svc_AcquireLeader svc uri candidateId candidateAddress ttlNanos)"

definition Server_RenewLeader :: "'s Service option \<Rightarrow> peer \<Rightarrow> LeaderLeaseView option \<Rightarrow> int \<Rightarrow> 's \<Rightarrow> 's \<times> (rpc_error + LeaderLeaseView option)" where
  "Server_RenewLeader controlPlane peer lease ttlNanos = handle controlPlane peer (\<lambda>svc uri. Svc_RenewLeader svc uri lease ttlNanos)"

definition Server_ReleaseLeader :: "'s Service option \<Rightarrow> peer \<Rightarrow> LeaderLeaseView option \<Rightarrow> 's \<Rightarrow> 's \<times> (rpc_error + unit)" where
  "Server_ReleaseLeader controlPlane peer lease = handle controlPlane peer (\<lambda>svc uri. Svc_ReleaseLeader svc uri lease)"

definition Server_GetLeader :: "'s Service option \<Rightarrow> peer \<Rightarrow> 's \<Rightarrow> 's \<times> (rpc_error + LeaderLeaseView option)" where
  "Server_GetLeader controlPlane peer = handle controlPlane peer (\<lambda>svc uri. Svc_GetLeader svc uri)"

definition Server_ResolveEndpoint :: "'s Service option \<Rightarrow> peer \<Rightarrow> string \<Rightarrow> 's \<Rightarrow> 's \<times> (rpc_error + Endpoint option)" where
  "Server_ResolveEndpoint controlPlane peer name = handle controlPlane peer (\<lambda>svc uri. Svc_ResolveEndpoint svc uri name)"

definition Server_ListParticipants :: "'s Service option \<Rightarrow> peer \<Rightarrow> 's \<Rightarrow> 's \<times> (rpc_error + string list)" where
  "Server_ListParticipants controlPlane peer = handle controlPlane peer (\<lambda>svc uri. Svc_ListParticipants svc uri)"

definition Server_UpsertRequest :: "'s Service option \<Rightarrow> peer \<Rightarrow> RequestRecordView option \<Rightarrow> 's \<Rightarrow> 's \<times> (rpc_error + unit)" where
  "Server_UpsertRequest controlPlane peer request = handle controlPlane peer (\<lambda>svc uri. Svc_UpsertRequest svc uri request)"

definition Server_GetRequest :: "'s Service option \<Rightarrow> peer \<Rightarrow> string \<Rightarrow> 's \<Rightarrow> 's \<times> (rpc_error + RequestRecordView option)" where
  "Server_GetRequest controlPlane peer requestId = handle controlPlane peer (\<lambda>svc uri. Svc_GetRequest svc uri requestId)"

definition Server_ListRequests :: "'s Service option \<Rightarrow> peer \<Rightarrow> 's \<Rightarrow> 's \<times> (rpc_error + RequestRecordView list)" where
  "Server_ListRequests controlPlane peer = handle controlPlane peer (\<lambda>svc uri. Svc_ListRequests svc uri)"

definition Server_UpsertTask :: "'s Service option \<Rightarrow> peer \<Rightarrow> TaskRecordView option \<Rightarrow> 's \<Rightarrow> 's \<times> (rpc_error + unit)" where
  "Server_UpsertTask controlPlane peer task = handle controlPlane peer (\<lambda>svc uri. Svc_UpsertTask svc uri task)"

definition Server_ListTasks :: "'s Service option \<Rightarrow> peer \<Rightarrow> string \<Rightarrow> 's \<Rightarrow> 's \<times> (rpc_error + TaskRecordView list)" where
  "Server_ListTasks controlPlane peer requestId = handle controlPlane peer (\<lambda>svc uri. Svc_ListTasks svc uri requestId)"

definition Server_AcquireProfileLease :: "'s Service option \<Rightarrow> peer \<Rightarrow> ProfileLeaseView option \<Rightarrow> int \<Rightarrow> 's \<Rightarrow> 's \<times> (rpc_error + ProfileLeaseView option \<times> bool)" where
  "Server_AcquireProfileLease controlPlane peer lease ttlNanos =
     handle controlPlane peer (\<lambda>svc uri. Svc_AcquireProfileLease svc uri lease ttlNanos)"

definition Server_RenewProfileLease :: "'s Service option \<Rightarrow> peer \<Rightarrow> ProfileLeaseView option \<Rightarrow> int \<Rightarrow> 's \<Rightarrow> 's \<times> (rpc_error + ProfileLeaseView option)" where
  "Server_RenewProfileLease controlPlane peer lease ttlNanos =
     handle controlPlane peer (\<lambda>svc uri. Svc_RenewProfileLease svc uri lease ttlNanos)"

definition Server_GetProfileLease :: "'s Service option \<Rightarrow> peer \<Rightarrow> string \<Rightarrow> 's \<Rightarrow> 's \<times> (rpc_error + ProfileLeaseView option)" where
  "Server_GetProfileLease controlPlane peer profile = handle controlPlane peer (\<lambda>svc uri. Svc_GetProfileLease svc uri profile)"

definition Server_ReleaseProfileLease :: "'s Service option \<Rightarrow> peer \<Rightarrow> ProfileLeaseView option \<Rightarrow> 's \<Rightarrow> 's \<times> (rpc_error + unit)" where
  "Server_ReleaseProfileLease controlPlane peer lease = handle controlPlane peer (\<lambda>svc uri. Svc_ReleaseProfileLease svc uri lease)"

definition Server_AcquireTaskLease :: "'s Service option \<Rightarrow> peer \<Rightarrow> TaskLeaseView option \<Rightarrow> int \<Rightarrow> 's \<Rightarrow> 's \<times> (rpc_error + TaskLeaseView option \<times> bool)" where
  "Server_AcquireTaskLease controlPlane peer lease ttlNanos =
     handle controlPlane peer (\<lambda>svc uri. Svc_AcquireTaskLease svc uri lease ttlNanos)"

definition Server_RenewTaskLease :: "'s Service option \<Rightarrow> peer \<Rightarrow> TaskLeaseView option \<Rightarrow> int \<Rightarrow> 's \<Rightarrow> 's \<times> (rpc_error + TaskLeaseView option)" where
  "Server_RenewTaskLease controlPlane peer lease ttlNanos = handle controlPlane peer (\<lambda>svc uri. Svc_RenewTaskLease svc uri lease ttlNanos)"

definition Server_GetTaskLease :: "'s Service option \<Rightarrow> peer \<Rightarrow> string \<Rightarrow> string \<Rightarrow> 's \<Rightarrow> 's \<times> (rpc_error + TaskLeaseView option)" where
  "Server_GetTaskLease controlPlane peer requestId taskId = handle controlPlane peer (\<lambda>svc uri. Svc_GetTaskLease svc uri requestId taskId)"

definition Server_ReleaseTaskLease :: "'s Service option \<Rightarrow> peer \<Rightarrow> TaskLeaseView option \<Rightarrow> 's \<Rightarrow> 's \<times> (rpc_error + unit)" where
  "Server_ReleaseTaskLease controlPlane peer lease = handle controlPlane peer (\<lambda>svc uri. Svc_ReleaseTaskLease svc uri lease)"

text \<open>The client stub of a connection to the server: the peer is the certificate the client presented.\<close>

definition connected :: "'s Service option \<Rightarrow> time \<Rightarrow> peer \<Rightarrow> 's ControlPlaneClient" where
  "connected controlPlane now peer =
     \<lparr>cp_AttestNode = Server_AttestNode controlPlane peer,
      cp_RegisterNode = Server_RegisterNode controlPlane now peer,
      cp_HeartbeatNode = Server_HeartbeatNode controlPlane peer,
      cp_GetNode = Server_GetNode controlPlane peer,
      cp_ListNodes = Server_ListNodes controlPlane peer,
      cp_RegisterInstance = Server_RegisterInstance controlPlane now peer,
      cp_HeartbeatInstance = Server_HeartbeatInstance controlPlane peer,
      cp_GetInstance = Server_GetInstance controlPlane peer,
      cp_ListInstances = Server_ListInstances controlPlane peer,
      cp_RemoveInstance = Server_RemoveInstance controlPlane peer,
      cp_AcquireLeader = Server_AcquireLeader controlPlane peer,
      cp_RenewLeader = Server_RenewLeader controlPlane peer,
      cp_ReleaseLeader = Server_ReleaseLeader controlPlane peer,
      cp_GetLeader = Server_GetLeader controlPlane peer,
      cp_ResolveEndpoint = Server_ResolveEndpoint controlPlane peer,
      cp_ListParticipants = Server_ListParticipants controlPlane peer,
      cp_UpsertRequest = Server_UpsertRequest controlPlane peer,
      cp_GetRequest = Server_GetRequest controlPlane peer,
      cp_ListRequests = Server_ListRequests controlPlane peer,
      cp_UpsertTask = Server_UpsertTask controlPlane peer,
      cp_ListTasks = Server_ListTasks controlPlane peer,
      cp_AcquireProfileLease = Server_AcquireProfileLease controlPlane peer,
      cp_RenewProfileLease = Server_RenewProfileLease controlPlane peer,
      cp_GetProfileLease = Server_GetProfileLease controlPlane peer,
      cp_ReleaseProfileLease = Server_ReleaseProfileLease controlPlane peer,
      cp_AcquireTaskLease = Server_AcquireTaskLease controlPlane peer,
      cp_RenewTaskLease = Server_RenewTaskLease controlPlane peer,
      cp_GetTaskLease = Server_GetTaskLease controlPlane peer,
      cp_ReleaseTaskLease = Server_ReleaseTaskLease controlPlane peer\<rparr>"

section \<open>The client (remote.go)\<close>

record RemoteClient =
  rc_address :: string
  rc_clientTLS :: bool
  rc_overrides :: "(string, Endpoint) gomap"

datatype remote_error = RequiresTLS | AddressNotConfigured | DialFailed string | CallFailed rpc_error | AgentNotInDiscovery string

text \<open>The connection: \<open>dial\<close> stands for \<open>grpc.NewClient\<close>, every call opens one and closes it.\<close>

definition NewRemoteClient :: "string \<Rightarrow> bool \<Rightarrow> RemoteClient" where
  "NewRemoteClient address clientTLS = \<lparr>rc_address = address, rc_clientTLS = clientTLS, rc_overrides = []\<rparr>"

definition client :: "RemoteClient \<Rightarrow> (string \<Rightarrow> 's ControlPlaneClient option) \<Rightarrow> remote_error + 's ControlPlaneClient" where
  "client c dial =
     (if \<not> rc_clientTLS c then Inl RequiresTLS
      else if rc_address c = '''' then Inl AddressNotConfigured
      else case dial (rc_address c) of None \<Rightarrow> Inl (DialFailed (rc_address c)) | Some conn \<Rightarrow> Inr conn)"

definition rpc :: "RemoteClient \<Rightarrow> (string \<Rightarrow> 's ControlPlaneClient option) \<Rightarrow> ('s ControlPlaneClient \<Rightarrow> 's \<Rightarrow> 's \<times> (rpc_error + 'q)) \<Rightarrow>
    ('q \<Rightarrow> remote_error + 'r) \<Rightarrow> 's \<Rightarrow> 's \<times> (remote_error + 'r)" where
  "rpc c dial call decode s =
     (case client c dial of
        Inl e \<Rightarrow> (s, Inl e)
      | Inr conn \<Rightarrow>
          (case call conn s of (s', Inl e) \<Rightarrow> (s', Inl (CallFailed e)) | (s', Inr response) \<Rightarrow> (s', decode response)))"

text \<open>Unlike the other conversions these two do not treat a zero as no time.\<close>

definition nodeFromProto :: "NodeView option \<Rightarrow> Node" where
  "nodeFromProto v =
     (case v of
        None \<Rightarrow> zero_node
      | Some v \<Rightarrow>
          \<lparr>nd_ID = vn_Id v, nd_Address = vn_Address v, nd_State = vn_State v, nd_Labels = cloneLabels (vn_Labels v),
           nd_BundleDigest = vn_BundleDigest v, nd_ProfileDigests = cloneLabels (vn_ProfileDigests v),
           nd_Capacity = \<lparr>cap_MaxInstances = vn_MaxInstances v, cap_MaxTasks = vn_MaxTasks v\<rparr>,
           nd_StartedAt = time_Unix (vn_StartedAt v), nd_LastHeartbeatAt = time_Unix (vn_LastHeartbeatAt v)\<rparr>)"

definition instanceFromProto :: "InstanceView option \<Rightarrow> AgentInstance" where
  "instanceFromProto v =
     (case v of
        None \<Rightarrow> zero_instance
      | Some v \<Rightarrow>
          \<lparr>in_ID = vi_Id v, in_Profile = vi_Profile v, in_NodeID = vi_NodeId v, in_BundleDigest = vi_BundleDigest v,
           in_ProfileDigest = vi_ProfileDigest v,
           in_Endpoint = \<lparr>ep_Address = vi_EndpointAddress v, ep_Local = vi_EndpointLocal v\<rparr>, in_State = vi_State v,
           in_StartedAt = time_Unix (vi_StartedAt v), in_LastHeartbeatAt = time_Unix (vi_LastHeartbeatAt v)\<rparr>)"

definition leaderLeaseToProto :: "LeaderLease \<Rightarrow> LeaderLeaseView" where
  "leaderLeaseToProto l =
     \<lparr>vl_Fabric = ll_Fabric l, vl_HolderId = ll_HolderID l, vl_HolderAddress = ll_HolderAddress l, vl_Epoch = ll_Epoch l,
      vl_AcquiredAt = UnixNano (ll_AcquiredAt l), vl_LastHeartbeatAt = UnixNano (ll_LastHeartbeatAt l),
      vl_ExpiresAt = UnixNano (ll_ExpiresAt l)\<rparr>"

definition leaderLeaseFromProto :: "LeaderLeaseView option \<Rightarrow> LeaderLease" where
  "leaderLeaseFromProto v =
     (case v of
        None \<Rightarrow> zero_leader
      | Some v \<Rightarrow>
          \<lparr>ll_Fabric = vl_Fabric v, ll_HolderID = vl_HolderId v, ll_HolderAddress = vl_HolderAddress v, ll_Epoch = vl_Epoch v,
           ll_AcquiredAt = timeFromUnixNano (vl_AcquiredAt v), ll_LastHeartbeatAt = timeFromUnixNano (vl_LastHeartbeatAt v),
           ll_ExpiresAt = timeFromUnixNano (vl_ExpiresAt v)\<rparr>)"

definition requestRecordToProto :: "RequestRecord \<Rightarrow> RequestRecordView" where
  "requestRecordToProto r =
     \<lparr>vr_Id = rq_ID r, vr_State = rq_State r, vr_UserRequest = rq_UserRequest r, vr_GraphVersion = rq_GraphVersion r,
      vr_LeaderId = rq_LeaderID r, vr_CreatedAt = UnixNano (rq_CreatedAt r), vr_UpdatedAt = UnixNano (rq_UpdatedAt r)\<rparr>"

definition requestRecordFromProto :: "RequestRecordView option \<Rightarrow> RequestRecord" where
  "requestRecordFromProto v =
     (case v of
        None \<Rightarrow> zero_request
      | Some v \<Rightarrow>
          \<lparr>rq_ID = vr_Id v, rq_State = vr_State v, rq_UserRequest = vr_UserRequest v, rq_GraphVersion = vr_GraphVersion v,
           rq_LeaderID = vr_LeaderId v, rq_CreatedAt = timeFromUnixNano (vr_CreatedAt v),
           rq_UpdatedAt = timeFromUnixNano (vr_UpdatedAt v)\<rparr>)"

definition taskRecordToProto :: "TaskRecord \<Rightarrow> TaskRecordView" where
  "taskRecordToProto t =
     \<lparr>vt_RequestId = tk_RequestID t, vt_TaskId = tk_TaskID t, vt_Profile = tk_Profile t,
      vt_AssignedInstance = tk_AssignedInstance t, vt_ExecutionNode = tk_ExecutionNode t, vt_Status = tk_Status t,
      vt_LeaseEpoch = tk_LeaseEpoch t, vt_UpdatedAt = UnixNano (tk_UpdatedAt t)\<rparr>"

definition taskRecordFromProto :: "TaskRecordView option \<Rightarrow> TaskRecord" where
  "taskRecordFromProto v =
     (case v of
        None \<Rightarrow> \<lparr>tk_RequestID = '''', tk_TaskID = '''', tk_Profile = '''', tk_AssignedInstance = '''',
           tk_ExecutionNode = '''', tk_Status = '''', tk_LeaseEpoch = 0, tk_UpdatedAt = 0\<rparr>
      | Some v \<Rightarrow>
          \<lparr>tk_RequestID = vt_RequestId v, tk_TaskID = vt_TaskId v, tk_Profile = vt_Profile v,
           tk_AssignedInstance = vt_AssignedInstance v, tk_ExecutionNode = vt_ExecutionNode v, tk_Status = vt_Status v,
           tk_LeaseEpoch = vt_LeaseEpoch v, tk_UpdatedAt = timeFromUnixNano (vt_UpdatedAt v)\<rparr>)"

definition taskLeaseToProto :: "TaskLease \<Rightarrow> TaskLeaseView" where
  "taskLeaseToProto l =
     \<lparr>vk_RequestId = tl_RequestID l, vk_TaskId = tl_TaskID l, vk_Profile = tl_Profile l,
      vk_AssignedInstance = tl_AssignedInstance l, vk_ExecutionNode = tl_ExecutionNode l, vk_OwnerId = tl_OwnerID l,
      vk_Epoch = tl_Epoch l, vk_AcquiredAt = UnixNano (tl_AcquiredAt l), vk_LastHeartbeatAt = UnixNano (tl_LastHeartbeatAt l),
      vk_ExpiresAt = UnixNano (tl_ExpiresAt l)\<rparr>"

definition taskLeaseFromProto :: "TaskLeaseView option \<Rightarrow> TaskLease" where
  "taskLeaseFromProto v =
     (case v of
        None \<Rightarrow> zero_task_lease
      | Some v \<Rightarrow>
          \<lparr>tl_RequestID = vk_RequestId v, tl_TaskID = vk_TaskId v, tl_Profile = vk_Profile v,
           tl_AssignedInstance = vk_AssignedInstance v, tl_ExecutionNode = vk_ExecutionNode v, tl_OwnerID = vk_OwnerId v,
           tl_Epoch = vk_Epoch v, tl_AcquiredAt = timeFromUnixNano (vk_AcquiredAt v),
           tl_LastHeartbeatAt = timeFromUnixNano (vk_LastHeartbeatAt v), tl_ExpiresAt = timeFromUnixNano (vk_ExpiresAt v)\<rparr>)"

definition profileLeaseToProto :: "ProfileLease \<Rightarrow> ProfileLeaseView" where
  "profileLeaseToProto l =
     \<lparr>vp_Profile = pl_Profile l, vp_AssignedInstance = pl_AssignedInstance l, vp_ExecutionNode = pl_ExecutionNode l,
      vp_OwnerId = pl_OwnerID l, vp_Epoch = pl_Epoch l, vp_AcquiredAt = UnixNano (pl_AcquiredAt l),
      vp_LastHeartbeatAt = UnixNano (pl_LastHeartbeatAt l), vp_ExpiresAt = UnixNano (pl_ExpiresAt l)\<rparr>"

definition profileLeaseFromProto :: "ProfileLeaseView option \<Rightarrow> ProfileLease" where
  "profileLeaseFromProto v =
     (case v of
        None \<Rightarrow> zero_profile_lease
      | Some v \<Rightarrow>
          \<lparr>pl_Profile = vp_Profile v, pl_AssignedInstance = vp_AssignedInstance v, pl_ExecutionNode = vp_ExecutionNode v,
           pl_OwnerID = vp_OwnerId v, pl_Epoch = vp_Epoch v, pl_AcquiredAt = timeFromUnixNano (vp_AcquiredAt v),
           pl_LastHeartbeatAt = timeFromUnixNano (vp_LastHeartbeatAt v), pl_ExpiresAt = timeFromUnixNano (vp_ExpiresAt v)\<rparr>)"

section \<open>The operations of the client\<close>

definition Remote_AttestNode :: "RemoteClient \<Rightarrow> (string \<Rightarrow> 's ControlPlaneClient option) \<Rightarrow> NodeAttestation \<Rightarrow> 's \<Rightarrow> 's \<times> (remote_error + AttestedNode)" where
  "Remote_AttestNode c dial request =
     rpc c dial (\<lambda>conn. cp_AttestNode conn (request\<lparr>na_Claims := cloneLabels (na_Claims request), na_Measurements := cloneLabels (na_Measurements request)\<rparr>)) (\<lambda>r. Inr (\<lparr>at_NodeID = ar_NodeId r, at_TrustDomain = ar_TrustDomain r, at_Claims = cloneLabels (ar_Claims r),
       at_Measurements = cloneLabels (ar_Measurements r), at_AttestedAt = time_Unix (ar_AttestedAt r), at_ExpiresAt = time_Unix (ar_ExpiresAt r)\<rparr>))"

definition Remote_RegisterNode :: "RemoteClient \<Rightarrow> (string \<Rightarrow> 's ControlPlaneClient option) \<Rightarrow> Node \<Rightarrow> 's \<Rightarrow> 's \<times> (remote_error + unit)" where
  "Remote_RegisterNode c dial node =
     rpc c dial (\<lambda>conn. cp_RegisterNode conn (nodeView node)) (\<lambda>_. Inr ())"

definition Remote_HeartbeatNode :: "RemoteClient \<Rightarrow> (string \<Rightarrow> 's ControlPlaneClient option) \<Rightarrow> string \<Rightarrow> time \<Rightarrow> 's \<Rightarrow> 's \<times> (remote_error + unit)" where
  "Remote_HeartbeatNode c dial nodeID at =
     rpc c dial (\<lambda>conn. cp_HeartbeatNode conn nodeID (UnixNano at)) (\<lambda>_. Inr ())"

definition Remote_GetNode :: "RemoteClient \<Rightarrow> (string \<Rightarrow> 's ControlPlaneClient option) \<Rightarrow> string \<Rightarrow> 's \<Rightarrow> 's \<times> (remote_error + Node option)" where
  "Remote_GetNode c dial nodeID =
     rpc c dial (\<lambda>conn. cp_GetNode conn nodeID) (\<lambda>r. Inr (map_option (\<lambda>v. nodeFromProto (Some v)) r))"

definition Remote_ListNodes :: "RemoteClient \<Rightarrow> (string \<Rightarrow> 's ControlPlaneClient option) \<Rightarrow> 's \<Rightarrow> 's \<times> (remote_error + Node list)" where
  "Remote_ListNodes c dial =
     rpc c dial (\<lambda>conn. cp_ListNodes conn) (\<lambda>r. Inr (map (\<lambda>v. nodeFromProto (Some v)) r))"

definition Remote_RegisterInstance :: "RemoteClient \<Rightarrow> (string \<Rightarrow> 's ControlPlaneClient option) \<Rightarrow> AgentInstance \<Rightarrow> 's \<Rightarrow> 's \<times> (remote_error + unit)" where
  "Remote_RegisterInstance c dial inst =
     rpc c dial (\<lambda>conn. cp_RegisterInstance conn (instanceView inst)) (\<lambda>_. Inr ())"

definition Remote_HeartbeatInstance :: "RemoteClient \<Rightarrow> (string \<Rightarrow> 's ControlPlaneClient option) \<Rightarrow> string \<Rightarrow> time \<Rightarrow> 's \<Rightarrow> 's \<times> (remote_error + unit)" where
  "Remote_HeartbeatInstance c dial instanceID at =
     rpc c dial (\<lambda>conn. cp_HeartbeatInstance conn instanceID (UnixNano at)) (\<lambda>_. Inr ())"

definition Remote_GetInstance :: "RemoteClient \<Rightarrow> (string \<Rightarrow> 's ControlPlaneClient option) \<Rightarrow> string \<Rightarrow> 's \<Rightarrow> 's \<times> (remote_error + AgentInstance option)" where
  "Remote_GetInstance c dial instanceID =
     rpc c dial (\<lambda>conn. cp_GetInstance conn instanceID) (\<lambda>r. Inr (map_option (\<lambda>v. instanceFromProto (Some v)) r))"

definition Remote_ListInstances :: "RemoteClient \<Rightarrow> (string \<Rightarrow> 's ControlPlaneClient option) \<Rightarrow> InstanceFilter \<Rightarrow> 's \<Rightarrow> 's \<times> (remote_error + AgentInstance list)" where
  "Remote_ListInstances c dial flt =
     rpc c dial (\<lambda>conn. cp_ListInstances conn flt) (\<lambda>r. Inr (map (\<lambda>v. instanceFromProto (Some v)) r))"

definition Remote_RemoveInstance :: "RemoteClient \<Rightarrow> (string \<Rightarrow> 's ControlPlaneClient option) \<Rightarrow> string \<Rightarrow> 's \<Rightarrow> 's \<times> (remote_error + unit)" where
  "Remote_RemoveInstance c dial instanceID =
     rpc c dial (\<lambda>conn. cp_RemoveInstance conn instanceID) (\<lambda>_. Inr ())"

definition Remote_AcquireLeader :: "RemoteClient \<Rightarrow> (string \<Rightarrow> 's ControlPlaneClient option) \<Rightarrow> string \<Rightarrow> string \<Rightarrow> int \<Rightarrow> 's \<Rightarrow> 's \<times> (remote_error + LeaderLease \<times> bool)" where
  "Remote_AcquireLeader c dial candidateID candidateAddress ttl =
     rpc c dial (\<lambda>conn. cp_AcquireLeader conn candidateID candidateAddress ttl) (\<lambda>(l, acquired). Inr (leaderLeaseFromProto l, acquired))"

definition Remote_RenewLeader :: "RemoteClient \<Rightarrow> (string \<Rightarrow> 's ControlPlaneClient option) \<Rightarrow> LeaderLease \<Rightarrow> int \<Rightarrow> 's \<Rightarrow> 's \<times> (remote_error + LeaderLease)" where
  "Remote_RenewLeader c dial lease ttl =
     rpc c dial (\<lambda>conn. cp_RenewLeader conn (Some (leaderLeaseToProto lease)) ttl) (\<lambda>r. Inr (leaderLeaseFromProto r))"

definition Remote_ReleaseLeader :: "RemoteClient \<Rightarrow> (string \<Rightarrow> 's ControlPlaneClient option) \<Rightarrow> LeaderLease \<Rightarrow> 's \<Rightarrow> 's \<times> (remote_error + unit)" where
  "Remote_ReleaseLeader c dial lease =
     rpc c dial (\<lambda>conn. cp_ReleaseLeader conn (Some (leaderLeaseToProto lease))) (\<lambda>_. Inr ())"

definition Remote_GetLeader :: "RemoteClient \<Rightarrow> (string \<Rightarrow> 's ControlPlaneClient option) \<Rightarrow> 's \<Rightarrow> 's \<times> (remote_error + LeaderLease option)" where
  "Remote_GetLeader c dial =
     rpc c dial (\<lambda>conn. cp_GetLeader conn) (\<lambda>r. Inr (map_option (\<lambda>v. leaderLeaseFromProto (Some v)) r))"

definition Remote_UpsertRequest :: "RemoteClient \<Rightarrow> (string \<Rightarrow> 's ControlPlaneClient option) \<Rightarrow> RequestRecord \<Rightarrow> 's \<Rightarrow> 's \<times> (remote_error + unit)" where
  "Remote_UpsertRequest c dial request =
     rpc c dial (\<lambda>conn. cp_UpsertRequest conn (Some (requestRecordToProto request))) (\<lambda>_. Inr ())"

definition Remote_GetRequest :: "RemoteClient \<Rightarrow> (string \<Rightarrow> 's ControlPlaneClient option) \<Rightarrow> string \<Rightarrow> 's \<Rightarrow> 's \<times> (remote_error + RequestRecord option)" where
  "Remote_GetRequest c dial requestID =
     rpc c dial (\<lambda>conn. cp_GetRequest conn requestID) (\<lambda>r. Inr (map_option (\<lambda>v. requestRecordFromProto (Some v)) r))"

definition Remote_ListRequests :: "RemoteClient \<Rightarrow> (string \<Rightarrow> 's ControlPlaneClient option) \<Rightarrow> 's \<Rightarrow> 's \<times> (remote_error + RequestRecord list)" where
  "Remote_ListRequests c dial =
     rpc c dial (\<lambda>conn. cp_ListRequests conn) (\<lambda>r. Inr (map (\<lambda>v. requestRecordFromProto (Some v)) r))"

definition Remote_UpsertTask :: "RemoteClient \<Rightarrow> (string \<Rightarrow> 's ControlPlaneClient option) \<Rightarrow> TaskRecord \<Rightarrow> 's \<Rightarrow> 's \<times> (remote_error + unit)" where
  "Remote_UpsertTask c dial task =
     rpc c dial (\<lambda>conn. cp_UpsertTask conn (Some (taskRecordToProto task))) (\<lambda>_. Inr ())"

definition Remote_ListTasks :: "RemoteClient \<Rightarrow> (string \<Rightarrow> 's ControlPlaneClient option) \<Rightarrow> string \<Rightarrow> 's \<Rightarrow> 's \<times> (remote_error + TaskRecord list)" where
  "Remote_ListTasks c dial requestID =
     rpc c dial (\<lambda>conn. cp_ListTasks conn requestID) (\<lambda>r. Inr (map (\<lambda>v. taskRecordFromProto (Some v)) r))"

definition Remote_AcquireTaskLease :: "RemoteClient \<Rightarrow> (string \<Rightarrow> 's ControlPlaneClient option) \<Rightarrow> TaskLease \<Rightarrow> int \<Rightarrow> 's \<Rightarrow> 's \<times> (remote_error + TaskLease \<times> bool)" where
  "Remote_AcquireTaskLease c dial lease ttl =
     rpc c dial (\<lambda>conn. cp_AcquireTaskLease conn (Some (taskLeaseToProto lease)) ttl) (\<lambda>(l, acquired). Inr (taskLeaseFromProto l, acquired))"

definition Remote_RenewTaskLease :: "RemoteClient \<Rightarrow> (string \<Rightarrow> 's ControlPlaneClient option) \<Rightarrow> TaskLease \<Rightarrow> int \<Rightarrow> 's \<Rightarrow> 's \<times> (remote_error + TaskLease)" where
  "Remote_RenewTaskLease c dial lease ttl =
     rpc c dial (\<lambda>conn. cp_RenewTaskLease conn (Some (taskLeaseToProto lease)) ttl) (\<lambda>r. Inr (taskLeaseFromProto r))"

definition Remote_GetTaskLease :: "RemoteClient \<Rightarrow> (string \<Rightarrow> 's ControlPlaneClient option) \<Rightarrow> string \<Rightarrow> string \<Rightarrow> 's \<Rightarrow> 's \<times> (remote_error + TaskLease option)" where
  "Remote_GetTaskLease c dial requestID taskID =
     rpc c dial (\<lambda>conn. cp_GetTaskLease conn requestID taskID) (\<lambda>r. Inr (map_option (\<lambda>v. taskLeaseFromProto (Some v)) r))"

definition Remote_ReleaseTaskLease :: "RemoteClient \<Rightarrow> (string \<Rightarrow> 's ControlPlaneClient option) \<Rightarrow> TaskLease \<Rightarrow> 's \<Rightarrow> 's \<times> (remote_error + unit)" where
  "Remote_ReleaseTaskLease c dial lease =
     rpc c dial (\<lambda>conn. cp_ReleaseTaskLease conn (Some (taskLeaseToProto lease))) (\<lambda>_. Inr ())"

definition Remote_AcquireProfileLease :: "RemoteClient \<Rightarrow> (string \<Rightarrow> 's ControlPlaneClient option) \<Rightarrow> ProfileLease \<Rightarrow> int \<Rightarrow> 's \<Rightarrow> 's \<times> (remote_error + ProfileLease \<times> bool)" where
  "Remote_AcquireProfileLease c dial lease ttl =
     rpc c dial (\<lambda>conn. cp_AcquireProfileLease conn (Some (profileLeaseToProto lease)) ttl) (\<lambda>(l, acquired). Inr (profileLeaseFromProto l, acquired))"

definition Remote_RenewProfileLease :: "RemoteClient \<Rightarrow> (string \<Rightarrow> 's ControlPlaneClient option) \<Rightarrow> ProfileLease \<Rightarrow> int \<Rightarrow> 's \<Rightarrow> 's \<times> (remote_error + ProfileLease)" where
  "Remote_RenewProfileLease c dial lease ttl =
     rpc c dial (\<lambda>conn. cp_RenewProfileLease conn (Some (profileLeaseToProto lease)) ttl) (\<lambda>r. Inr (profileLeaseFromProto r))"

definition Remote_GetProfileLease :: "RemoteClient \<Rightarrow> (string \<Rightarrow> 's ControlPlaneClient option) \<Rightarrow> string \<Rightarrow> 's \<Rightarrow> 's \<times> (remote_error + ProfileLease option)" where
  "Remote_GetProfileLease c dial profile =
     rpc c dial (\<lambda>conn. cp_GetProfileLease conn profile) (\<lambda>r. Inr (map_option (\<lambda>v. profileLeaseFromProto (Some v)) r))"

definition Remote_ReleaseProfileLease :: "RemoteClient \<Rightarrow> (string \<Rightarrow> 's ControlPlaneClient option) \<Rightarrow> ProfileLease \<Rightarrow> 's \<Rightarrow> 's \<times> (remote_error + unit)" where
  "Remote_ReleaseProfileLease c dial lease =
     rpc c dial (\<lambda>conn. cp_ReleaseProfileLease conn (Some (profileLeaseToProto lease))) (\<lambda>_. Inr ())"

text \<open>Discovery: the overrides of the client first, then the control plane.\<close>

definition Remote_Register :: "string \<Rightarrow> Endpoint \<Rightarrow> RemoteClient \<Rightarrow> RemoteClient" where
  "Remote_Register name endpoint c = c\<lparr>rc_overrides := mput name endpoint (rc_overrides c)\<rparr>"

definition Remote_Deregister :: "string \<Rightarrow> RemoteClient \<Rightarrow> RemoteClient" where
  "Remote_Deregister name c = c\<lparr>rc_overrides := mdel name (rc_overrides c)\<rparr>"

definition Remote_Resolve :: "RemoteClient \<Rightarrow> (string \<Rightarrow> 's ControlPlaneClient option) \<Rightarrow> string \<Rightarrow> 's \<Rightarrow> 's \<times> (remote_error + Endpoint)" where
  "Remote_Resolve c dial name s =
     (case mget (rc_overrides c) name of
        Some endpoint \<Rightarrow> (s, Inr endpoint)
      | None \<Rightarrow>
          rpc c dial (\<lambda>conn. cp_ResolveEndpoint conn name) (\<lambda>r.
            case r of
              None \<Rightarrow> Inl (AgentNotInDiscovery name)
            | Some endpoint \<Rightarrow> if ep_Address endpoint = '''' then Inl (AgentNotInDiscovery name) else Inr endpoint) s)"

definition Remote_List :: "RemoteClient \<Rightarrow> (string \<Rightarrow> 's ControlPlaneClient option) \<Rightarrow> 's \<Rightarrow> 's \<times> (remote_error + string list)" where
  "Remote_List c dial =
     (let own = mkeys (rc_overrides c);
          names = (if rc_address c \<noteq> '''' \<and> ''conductor'' \<notin> set own then own @ [''conductor''] else own)
      in rpc c dial cp_ListParticipants
           (\<lambda>found. Inr (sort (foldl (\<lambda>ns n. if n \<in> set ns then ns else ns @ [n]) names found))))"

section \<open>The client as a store\<close>

definition remote_Store :: "RemoteClient \<Rightarrow> (string \<Rightarrow> 's ControlPlaneClient option) \<Rightarrow> ('s, remote_error) Store" where
  "remote_Store c dial =
     \<lparr>sto_leadership = \<lparr>ld_AcquireLeader = Remote_AcquireLeader c dial, ld_RenewLeader = Remote_RenewLeader c dial,
        ld_GetLeader = Remote_GetLeader c dial, ld_ReleaseLeader = Remote_ReleaseLeader c dial\<rparr>,
      sto_membership = \<lparr>mb_RegisterNode = Remote_RegisterNode c dial, mb_HeartbeatNode = Remote_HeartbeatNode c dial,
        mb_GetNode = Remote_GetNode c dial, mb_ListNodes = Remote_ListNodes c dial,
        mb_RegisterInstance = Remote_RegisterInstance c dial, mb_HeartbeatInstance = Remote_HeartbeatInstance c dial,
        mb_GetInstance = Remote_GetInstance c dial, mb_ListInstances = Remote_ListInstances c dial,
        mb_RemoveInstance = Remote_RemoveInstance c dial\<rparr>,
      sto_requests = \<lparr>rs_UpsertRequest = Remote_UpsertRequest c dial, rs_GetRequest = Remote_GetRequest c dial,
        rs_ListRequests = Remote_ListRequests c dial, rs_UpsertTask = Remote_UpsertTask c dial, rs_ListTasks = Remote_ListTasks c dial\<rparr>,
      sto_leases = \<lparr>ls_AcquireProfileLease = Remote_AcquireProfileLease c dial, ls_RenewProfileLease = Remote_RenewProfileLease c dial,
        ls_GetProfileLease = Remote_GetProfileLease c dial, ls_ReleaseProfileLease = Remote_ReleaseProfileLease c dial,
        ls_AcquireTaskLease = Remote_AcquireTaskLease c dial, ls_RenewTaskLease = Remote_RenewTaskLease c dial,
        ls_GetTaskLease = Remote_GetTaskLease c dial, ls_ReleaseTaskLease = Remote_ReleaseTaskLease c dial\<rparr>,
      sto_attestations = None\<rparr>"

section \<open>The remote store is the store\<close>

text \<open>The remote operation does what the operation of the store does, with the errors of the store passed on.\<close>

definition store_failed :: "store_error \<Rightarrow> remote_error" where
  "store_failed e = CallFailed (Refused (StoreError e))"

text \<open>
  The answer to the client: what the store answered, as the wire carries it. A time travels as 64 bits of nanoseconds since the
  Unix epoch; the service reads a zero there as no time, the client only in leases, requests and tasks. Numbers of tasks and instances
  travel in 32 bits.
\<close>

definition answered :: "('r \<Rightarrow> 'q) \<Rightarrow> 's \<times> (store_error + 'r) \<Rightarrow> 's \<times> (remote_error + 'q)" where
  "answered carry p = (case p of (s, Inl e) \<Rightarrow> (s, Inl (store_failed e)) | (s, Inr r) \<Rightarrow> (s, Inr (carry r)))"

definition wired :: "time \<Rightarrow> time" where
  "wired t = (let n = wrap64 (t - unix_epoch) in if n = 0 then 0 else unix_epoch + n)"

definition shown :: "time \<Rightarrow> time" where
  "shown t = unix_epoch + wrap64 (t - unix_epoch)"

definition wired_leader :: "LeaderLease \<Rightarrow> LeaderLease" where
  "wired_leader l = l\<lparr>ll_AcquiredAt := wired (ll_AcquiredAt l), ll_LastHeartbeatAt := wired (ll_LastHeartbeatAt l),
     ll_ExpiresAt := wired (ll_ExpiresAt l)\<rparr>"

definition wired_request :: "RequestRecord \<Rightarrow> RequestRecord" where
  "wired_request r = r\<lparr>rq_CreatedAt := wired (rq_CreatedAt r), rq_UpdatedAt := wired (rq_UpdatedAt r)\<rparr>"

definition wired_task :: "TaskRecord \<Rightarrow> TaskRecord" where
  "wired_task t = t\<lparr>tk_UpdatedAt := wired (tk_UpdatedAt t)\<rparr>"

definition wired_task_lease :: "TaskLease \<Rightarrow> TaskLease" where
  "wired_task_lease l = l\<lparr>tl_AcquiredAt := wired (tl_AcquiredAt l), tl_LastHeartbeatAt := wired (tl_LastHeartbeatAt l),
     tl_ExpiresAt := wired (tl_ExpiresAt l)\<rparr>"

definition wired_profile_lease :: "ProfileLease \<Rightarrow> ProfileLease" where
  "wired_profile_lease l = l\<lparr>pl_AcquiredAt := wired (pl_AcquiredAt l), pl_LastHeartbeatAt := wired (pl_LastHeartbeatAt l),
     pl_ExpiresAt := wired (pl_ExpiresAt l)\<rparr>"

definition carried_node :: "(time \<Rightarrow> time) \<Rightarrow> Node \<Rightarrow> Node" where
  "carried_node f n = n\<lparr>nd_Labels := cloneLabels (nd_Labels n), nd_ProfileDigests := cloneLabels (nd_ProfileDigests n),
     nd_Capacity := \<lparr>cap_MaxInstances = to_int32 (cap_MaxInstances (nd_Capacity n)), cap_MaxTasks = to_int32 (cap_MaxTasks (nd_Capacity n))\<rparr>,
     nd_StartedAt := f (nd_StartedAt n), nd_LastHeartbeatAt := f (nd_LastHeartbeatAt n)\<rparr>"

definition carried_instance :: "(time \<Rightarrow> time) \<Rightarrow> AgentInstance \<Rightarrow> AgentInstance" where
  "carried_instance f i = i\<lparr>in_StartedAt := f (in_StartedAt i), in_LastHeartbeatAt := f (in_LastHeartbeatAt i)\<rparr>"

lemma caller_SomeD: "caller svc uri = Some subject \<Longrightarrow> ParseSubjectURI uri = Inr subject \<and> authorizeFabric svc subject = None"
  by (auto simp: caller_def split: sum.splits if_splits)

lemma fabric_call_ok: "caller svc uri = Some subject \<Longrightarrow> fabric_call svc uri f = f"
  by (auto simp: fabric_call_def with_subject_def require_def fun_eq_iff simp del: authorizeFabric_None dest!: caller_SomeD)

lemma conductor_call_ok:
  assumes "is_conductor svc uri"
  shows "conductor_call svc uri f = f"
proof -
  obtain subject where "ParseSubjectURI uri = Inr subject" "authorizeConductorSubject svc subject = None"
    using assms by (auto simp: is_conductor_def authorizeConductorSubject_None dest!: caller_SomeD split: option.splits)
  then show ?thesis by (simp add: conductor_call_def with_subject_def require_def fun_eq_iff)
qed

text \<open>These conversions are those of the service.\<close>

lemma proto_views:
  "leaderLeaseToProto = leaderLeaseView"
  "leaderLeaseFromProto = leaderLeaseFromView"
  "requestRecordToProto = requestRecordView"
  "requestRecordFromProto = requestRecordFromView"
  "taskRecordToProto = taskRecordView"
  "taskRecordFromProto = taskRecordFromView"
  "taskLeaseToProto = taskLeaseView"
  "taskLeaseFromProto = taskLeaseFromView"
  "profileLeaseToProto = profileLeaseView"
  "profileLeaseFromProto = profileLeaseFromView"
  by (simp_all add: fun_eq_iff leaderLeaseToProto_def leaderLeaseView_def leaderLeaseFromProto_def leaderLeaseFromView_def requestRecordToProto_def requestRecordView_def requestRecordFromProto_def requestRecordFromView_def taskRecordToProto_def taskRecordView_def taskRecordFromProto_def taskRecordFromView_def taskLeaseToProto_def taskLeaseView_def taskLeaseFromProto_def taskLeaseFromView_def profileLeaseToProto_def profileLeaseView_def profileLeaseFromProto_def profileLeaseFromView_def)

lemma wire_times: "timeFromUnixNano (UnixNano t) = wired t" "time_Unix (UnixNano t) = shown t"
  by (simp_all add: timeFromUnixNano_def UnixNano_def time_Unix_def wired_def shown_def Let_def)

lemma cloneLabels_idem [simp]: "cloneLabels (cloneLabels labels) = cloneLabels labels"
proof -
  have "gowf acc \<Longrightarrow> gowf (foldl (\<lambda>clone (k, v). mput k v clone) acc labels)" for acc
    by (induction labels arbitrary: acc) auto
  then have "gowf (cloneLabels labels)" by (simp add: cloneLabels_def)
  then show ?thesis by (rule cloneLabels_id)
qed

lemma through_view:
  "leaderLeaseFromView (Some (leaderLeaseView l)) = wired_leader l"
  "requestRecordFromView (Some (requestRecordView r)) = wired_request r"
  "taskRecordFromView (Some (taskRecordView t)) = wired_task t"
  "taskLeaseFromView (Some (taskLeaseView k)) = wired_task_lease k"
  "profileLeaseFromView (Some (profileLeaseView p)) = wired_profile_lease p"
  "nodeFromView (Some (nodeView n)) = carried_node wired n"
  "instanceFromView (Some (instanceView i)) = carried_instance wired i"
  "nodeFromProto (Some (nodeView n)) = carried_node shown n"
  "instanceFromProto (Some (instanceView i)) = carried_instance shown i"
  by (simp_all add: wire_times leaderLeaseView_def leaderLeaseFromView_def wired_leader_def requestRecordView_def requestRecordFromView_def
      wired_request_def taskRecordView_def taskRecordFromView_def wired_task_def taskLeaseView_def taskLeaseFromView_def wired_task_lease_def
      profileLeaseView_def profileLeaseFromView_def wired_profile_lease_def nodeView_def nodeFromView_def nodeFromProto_def carried_node_def
      instanceView_def instanceFromView_def instanceFromProto_def carried_instance_def)

text \<open>What fits the wire is carried unchanged.\<close>

lemma wire_time_carried: "wire_time t \<Longrightarrow> wired t = t" "wire_time t \<Longrightarrow> shown t = t"
  by (simp_all add: wire_time_def wired_def shown_def wrap64_id)

lemma fits_unchanged:
  "wire_leader l \<Longrightarrow> wired_leader l = l"
  "wire_request r \<Longrightarrow> wired_request r = r"
  "wire_task t \<Longrightarrow> wired_task t = t"
  "wire_task_lease k \<Longrightarrow> wired_task_lease k = k"
  "wire_profile_lease p \<Longrightarrow> wired_profile_lease p = p"
  "wire_node n \<Longrightarrow> carried_node wired n = n \<and> carried_node shown n = n"
  "wire_instance i \<Longrightarrow> carried_instance wired i = i \<and> carried_instance shown i = i"
  by (simp_all add: wire_defs wire_time_carried wired_leader_def wired_request_def wired_task_def wired_task_lease_def
      wired_profile_lease_def carried_node_def carried_instance_def signed_31_id)

text \<open>A call whose handler, once the caller is admitted, is the store's operation with an encoded reply.\<close>

definition service_link :: "RemoteClient \<Rightarrow> (string \<Rightarrow> 's ControlPlaneClient option) \<Rightarrow> 's Service \<Rightarrow> time \<Rightarrow> peer \<Rightarrow> string \<Rightarrow> Subject \<Rightarrow> bool" where
  "service_link c dial svc now peer uri subject =
     (rc_clientTLS c \<and> rc_address c \<noteq> '''' \<and> (case dial (rc_address c) of None \<Rightarrow> False | Some conn \<Rightarrow> conn = connected (Some svc) now peer) \<and>
      peerSubjectURI peer = Inr uri \<and> caller svc uri = Some subject)"

lemma service_linkD:
  assumes "service_link c dial svc now peer uri subject"
  shows "client c dial = Inr (connected (Some svc) now peer)" "peerSubjectURI peer = Inr uri" "caller svc uri = Some subject"
    "ParseSubjectURI uri = Inr subject" "in_fabric svc subject"
  using assms by (auto simp: service_link_def client_def caller_def split: option.splits sum.splits if_splits)

lemma link_answers:
  assumes "service_link c dial svc now peer uri subject" and "handler = handle (Some svc) peer op"
    and "call (connected (Some svc) now peer) = handler"
    and "op svc uri s = store_call f reply s1" and "\<And>r. decode (reply r) = Inr (carry r)"
  shows "rpc c dial call decode s = answered carry (f s1)"
  using assms service_linkD [OF assms(1)]
  by (auto simp: answered_def rpc_def handle_def store_call_def store_failed_def split: sum.splits prod.splits)

lemma admitted:
  assumes "service_link c dial svc now peer uri subject"
  shows "sj_Kind subject = SubjectKindConductor \<Longrightarrow> conductor_call svc uri f = f" "fabric_call svc uri g = g"
  using service_linkD [OF assms] conductor_call_ok [of svc uri f] fabric_call_ok by (auto simp: is_conductor_def)

lemma fabric_reads:
  "Svc_GetNode svc uri nodeId = fabric_call svc uri (store_call (mb_GetNode (sto_membership (svc_store svc)) nodeId) (map_option nodeView))"
  "Svc_ListNodes svc uri = fabric_call svc uri (store_call (mb_ListNodes (sto_membership (svc_store svc))) (map nodeView))"
  "Svc_GetInstance svc uri nodeId = fabric_call svc uri (store_call (mb_GetInstance (sto_membership (svc_store svc)) nodeId) (map_option instanceView))"
  "Svc_ListInstances svc uri flt = fabric_call svc uri (store_call (mb_ListInstances (sto_membership (svc_store svc)) flt) (map instanceView))"
  by (simp_all add: Svc_GetNode_def Svc_ListNodes_def Svc_GetInstance_def Svc_ListInstances_def fabric_call_def)

lemmas link_simps = connected_def proto_views through_view fabric_reads option.map_comp comp_def

lemma remote_AcquireLeader:
  assumes "service_link c dial svc now peer uri subject" "sj_Kind subject = SubjectKindConductor"
  shows "Remote_AcquireLeader c dial cand addr ttl s = answered (\<lambda>(l, b). (wired_leader l, b)) (ld_AcquireLeader (sto_leadership (svc_store svc)) cand addr (durationFromNanos ttl) s)"
  unfolding Remote_AcquireLeader_def
  by (rule link_answers [OF assms(1) Server_AcquireLeader_def])
    (auto simp: link_simps Svc_AcquireLeader_def admitted [OF assms(1)] assms(2) split: prod.splits)

lemma remote_RenewLeader:
  assumes "service_link c dial svc now peer uri subject" "sj_Kind subject = SubjectKindConductor"
  shows "Remote_RenewLeader c dial leader ttl s = answered (wired_leader) (ld_RenewLeader (sto_leadership (svc_store svc)) (wired_leader leader) (durationFromNanos ttl) s)"
  unfolding Remote_RenewLeader_def
  by (rule link_answers [OF assms(1) Server_RenewLeader_def])
    (auto simp: link_simps Svc_RenewLeader_def admitted [OF assms(1)] assms(2) split: prod.splits)

lemma remote_ReleaseLeader:
  assumes "service_link c dial svc now peer uri subject" "sj_Kind subject = SubjectKindConductor"
  shows "Remote_ReleaseLeader c dial leader s = answered (\<lambda>u. u) (ld_ReleaseLeader (sto_leadership (svc_store svc)) (wired_leader leader) s)"
  unfolding Remote_ReleaseLeader_def
  by (rule link_answers [OF assms(1) Server_ReleaseLeader_def])
    (auto simp: link_simps Svc_ReleaseLeader_def admitted [OF assms(1)] assms(2) split: prod.splits)

lemma remote_UpsertRequest:
  assumes "service_link c dial svc now peer uri subject" "sj_Kind subject = SubjectKindConductor"
  shows "Remote_UpsertRequest c dial request s = answered (\<lambda>u. u) (rs_UpsertRequest (sto_requests (svc_store svc)) (wired_request request) s)"
  unfolding Remote_UpsertRequest_def
  by (rule link_answers [OF assms(1) Server_UpsertRequest_def])
    (auto simp: link_simps Svc_UpsertRequest_def admitted [OF assms(1)] assms(2) split: prod.splits)

lemma remote_UpsertTask:
  assumes "service_link c dial svc now peer uri subject" "sj_Kind subject = SubjectKindConductor"
  shows "Remote_UpsertTask c dial task s = answered (\<lambda>u. u) (rs_UpsertTask (sto_requests (svc_store svc)) (wired_task task) s)"
  unfolding Remote_UpsertTask_def
  by (rule link_answers [OF assms(1) Server_UpsertTask_def])
    (auto simp: link_simps Svc_UpsertTask_def admitted [OF assms(1)] assms(2) split: prod.splits)

lemma remote_AcquireProfileLease:
  assumes "service_link c dial svc now peer uri subject" "sj_Kind subject = SubjectKindConductor"
  shows "Remote_AcquireProfileLease c dial profile ttl s = answered (\<lambda>(l, b). (wired_profile_lease l, b)) (ls_AcquireProfileLease (sto_leases (svc_store svc)) (wired_profile_lease profile) (durationFromNanos ttl) s)"
  unfolding Remote_AcquireProfileLease_def
  by (rule link_answers [OF assms(1) Server_AcquireProfileLease_def])
    (auto simp: link_simps Svc_AcquireProfileLease_def admitted [OF assms(1)] assms(2) split: prod.splits)

lemma remote_RenewProfileLease:
  assumes "service_link c dial svc now peer uri subject" "sj_Kind subject = SubjectKindConductor"
  shows "Remote_RenewProfileLease c dial profile ttl s = answered (wired_profile_lease) (ls_RenewProfileLease (sto_leases (svc_store svc)) (wired_profile_lease profile) (durationFromNanos ttl) s)"
  unfolding Remote_RenewProfileLease_def
  by (rule link_answers [OF assms(1) Server_RenewProfileLease_def])
    (auto simp: link_simps Svc_RenewProfileLease_def admitted [OF assms(1)] assms(2) split: prod.splits)

lemma remote_ReleaseProfileLease:
  assumes "service_link c dial svc now peer uri subject" "sj_Kind subject = SubjectKindConductor"
  shows "Remote_ReleaseProfileLease c dial profile s = answered (\<lambda>u. u) (ls_ReleaseProfileLease (sto_leases (svc_store svc)) (wired_profile_lease profile) s)"
  unfolding Remote_ReleaseProfileLease_def
  by (rule link_answers [OF assms(1) Server_ReleaseProfileLease_def])
    (auto simp: link_simps Svc_ReleaseProfileLease_def admitted [OF assms(1)] assms(2) split: prod.splits)

lemma remote_AcquireTaskLease:
  assumes "service_link c dial svc now peer uri subject" "sj_Kind subject = SubjectKindConductor"
  shows "Remote_AcquireTaskLease c dial tasklease ttl s = answered (\<lambda>(l, b). (wired_task_lease l, b)) (ls_AcquireTaskLease (sto_leases (svc_store svc)) (wired_task_lease tasklease) (durationFromNanos ttl) s)"
  unfolding Remote_AcquireTaskLease_def
  by (rule link_answers [OF assms(1) Server_AcquireTaskLease_def])
    (auto simp: link_simps Svc_AcquireTaskLease_def admitted [OF assms(1)] assms(2) split: prod.splits)

lemma remote_RenewTaskLease:
  assumes "service_link c dial svc now peer uri subject" "sj_Kind subject = SubjectKindConductor"
  shows "Remote_RenewTaskLease c dial tasklease ttl s = answered (wired_task_lease) (ls_RenewTaskLease (sto_leases (svc_store svc)) (wired_task_lease tasklease) (durationFromNanos ttl) s)"
  unfolding Remote_RenewTaskLease_def
  by (rule link_answers [OF assms(1) Server_RenewTaskLease_def])
    (auto simp: link_simps Svc_RenewTaskLease_def admitted [OF assms(1)] assms(2) split: prod.splits)

lemma remote_ReleaseTaskLease:
  assumes "service_link c dial svc now peer uri subject" "sj_Kind subject = SubjectKindConductor"
  shows "Remote_ReleaseTaskLease c dial tasklease s = answered (\<lambda>u. u) (ls_ReleaseTaskLease (sto_leases (svc_store svc)) (wired_task_lease tasklease) s)"
  unfolding Remote_ReleaseTaskLease_def
  by (rule link_answers [OF assms(1) Server_ReleaseTaskLease_def])
    (auto simp: link_simps Svc_ReleaseTaskLease_def admitted [OF assms(1)] assms(2) split: prod.splits)

lemma remote_GetLeader:
  assumes "service_link c dial svc now peer uri subject"
  shows "Remote_GetLeader c dial s = answered (map_option wired_leader) (ld_GetLeader (sto_leadership (svc_store svc)) s)"
  unfolding Remote_GetLeader_def
  by (rule link_answers [OF assms Server_GetLeader_def])
    (auto simp: link_simps Svc_GetLeader_def admitted [OF assms] split: prod.splits)

lemma remote_GetNode:
  assumes "service_link c dial svc now peer uri subject"
  shows "Remote_GetNode c dial id1 s = answered (map_option (carried_node shown)) (mb_GetNode (sto_membership (svc_store svc)) id1 s)"
  unfolding Remote_GetNode_def
  by (rule link_answers [OF assms Server_GetNode_def])
    (auto simp: link_simps admitted [OF assms] split: prod.splits)

lemma remote_ListNodes:
  assumes "service_link c dial svc now peer uri subject"
  shows "Remote_ListNodes c dial s = answered (map (carried_node shown)) (mb_ListNodes (sto_membership (svc_store svc)) s)"
  unfolding Remote_ListNodes_def
  by (rule link_answers [OF assms Server_ListNodes_def])
    (auto simp: link_simps admitted [OF assms] split: prod.splits)

lemma remote_GetInstance:
  assumes "service_link c dial svc now peer uri subject"
  shows "Remote_GetInstance c dial id1 s = answered (map_option (carried_instance shown)) (mb_GetInstance (sto_membership (svc_store svc)) id1 s)"
  unfolding Remote_GetInstance_def
  by (rule link_answers [OF assms Server_GetInstance_def])
    (auto simp: link_simps admitted [OF assms] split: prod.splits)

lemma remote_ListInstances:
  assumes "service_link c dial svc now peer uri subject"
  shows "Remote_ListInstances c dial flt s = answered (map (carried_instance shown)) (mb_ListInstances (sto_membership (svc_store svc)) flt s)"
  unfolding Remote_ListInstances_def
  by (rule link_answers [OF assms Server_ListInstances_def])
    (auto simp: link_simps admitted [OF assms] split: prod.splits)

lemma remote_GetRequest:
  assumes "service_link c dial svc now peer uri subject"
  shows "Remote_GetRequest c dial id1 s = answered (map_option wired_request) (rs_GetRequest (sto_requests (svc_store svc)) id1 s)"
  unfolding Remote_GetRequest_def
  by (rule link_answers [OF assms Server_GetRequest_def])
    (auto simp: link_simps Svc_GetRequest_def admitted [OF assms] split: prod.splits)

lemma remote_ListRequests:
  assumes "service_link c dial svc now peer uri subject"
  shows "Remote_ListRequests c dial s = answered (map wired_request) (rs_ListRequests (sto_requests (svc_store svc)) s)"
  unfolding Remote_ListRequests_def
  by (rule link_answers [OF assms Server_ListRequests_def])
    (auto simp: link_simps Svc_ListRequests_def admitted [OF assms] split: prod.splits)

lemma remote_ListTasks:
  assumes "service_link c dial svc now peer uri subject"
  shows "Remote_ListTasks c dial id1 s = answered (map wired_task) (rs_ListTasks (sto_requests (svc_store svc)) id1 s)"
  unfolding Remote_ListTasks_def
  by (rule link_answers [OF assms Server_ListTasks_def])
    (auto simp: link_simps Svc_ListTasks_def admitted [OF assms] split: prod.splits)

lemma remote_GetProfileLease:
  assumes "service_link c dial svc now peer uri subject"
  shows "Remote_GetProfileLease c dial id1 s = answered (map_option wired_profile_lease) (ls_GetProfileLease (sto_leases (svc_store svc)) id1 s)"
  unfolding Remote_GetProfileLease_def
  by (rule link_answers [OF assms Server_GetProfileLease_def])
    (auto simp: link_simps Svc_GetProfileLease_def admitted [OF assms] split: prod.splits)

lemma remote_GetTaskLease:
  assumes "service_link c dial svc now peer uri subject"
  shows "Remote_GetTaskLease c dial id1 id2 s = answered (map_option wired_task_lease) (ls_GetTaskLease (sto_leases (svc_store svc)) id1 id2 s)"
  unfolding Remote_GetTaskLease_def
  by (rule link_answers [OF assms Server_GetTaskLease_def])
    (auto simp: link_simps Svc_GetTaskLease_def admitted [OF assms] split: prod.splits)

text \<open>The calls of members for themselves. The checks read the store first, which gives the state the operation runs in.\<close>

lemma remote_RegisterNode:
  assumes l: "service_link c dial svc now peer uri subject" and b: "node_bundle_ok svc (carried_node wired node)"
    and w: "sj_Kind subject = SubjectKindConductor \<and> sj_Name subject = NormalizeID (nd_ID node) \<and> s1 = s \<or>
      sj_Kind subject = SubjectKindNode \<and> sj_NodeID subject = NormalizeID (nd_ID node) \<and>
        requireAttestedNode svc now (nd_ID node) (nd_BundleDigest node) s = (s1, None)"
  shows "Remote_RegisterNode c dial node s = answered (\<lambda>u. u) (mb_RegisterNode (sto_membership (svc_store svc)) (carried_node wired node) s1)"
  unfolding Remote_RegisterNode_def
proof (rule link_answers [OF l Server_RegisterNode_def])
  note d = service_linkD [OF l]
  have ids: "nd_ID (carried_node wired node) = nd_ID node" "nd_BundleDigest (carried_node wired node) = nd_BundleDigest node"
    by (simp_all add: carried_node_def)
  have v: "validateNodeBundle svc (carried_node wired node) = None" using b by (simp add: validateNodeBundle_None)
  show "Svc_RegisterNode svc now uri (nodeView node) s =
      store_call (mb_RegisterNode (sto_membership (svc_store svc)) (carried_node wired node)) (\<lambda>_. ()) s1"
  proof (cases "sj_Kind subject = SubjectKindNode")
    case True
    then have "authorizeNodeSubject svc subject (nd_ID node) = None" using w d(5) by (simp add: authorizeNodeSubject_None)
    then show ?thesis
      using True w d(4) v by (simp add: Svc_RegisterNode_def with_subject_def require_def through_view ids)
  next
    case False
    then have "authorizeNodeSubject svc subject (nd_ID node) \<noteq> None" by (simp add: authorizeNodeSubject_None)
    moreover have "authorizeConductorNodeSubject svc subject (nd_ID node) = None"
      using False w d(5) by (simp add: authorizeConductorNodeSubject_None)
    ultimately show ?thesis
      using False w d(4) v by (auto simp: Svc_RegisterNode_def with_subject_def require_def through_view ids)
  qed
qed (simp_all add: connected_def)

lemma remote_HeartbeatNode:
  assumes l: "service_link c dial svc now peer uri subject"
    and w: "sj_Kind subject = SubjectKindConductor \<and> sj_Name subject = NormalizeID nodeID \<or>
      sj_Kind subject = SubjectKindNode \<and> sj_NodeID subject = NormalizeID nodeID"
  shows "Remote_HeartbeatNode c dial nodeID at s = answered (\<lambda>u. u) (mb_HeartbeatNode (sto_membership (svc_store svc)) nodeID (wired at) s)"
  unfolding Remote_HeartbeatNode_def
proof (rule link_answers [OF l Server_HeartbeatNode_def])
  note d = service_linkD [OF l]
  show "Svc_HeartbeatNode svc uri nodeID (UnixNano at) s =
      store_call (mb_HeartbeatNode (sto_membership (svc_store svc)) nodeID (wired at)) (\<lambda>_. ()) s"
  proof (cases "authorizeNodeSubject svc subject nodeID")
    case (Some e)
    then have "authorizeConductorNodeSubject svc subject nodeID = None"
      using w d(5) authorizeNodeSubject_None [of svc subject nodeID] by (auto simp: authorizeConductorNodeSubject_None)
    then show ?thesis using Some d(4) by (simp add: Svc_HeartbeatNode_def with_subject_def require_def wire_times)
  qed (use d(4) in \<open>simp add: Svc_HeartbeatNode_def with_subject_def wire_times\<close>)
qed (simp_all add: connected_def)

lemma remote_RegisterInstance:
  assumes l: "service_link c dial svc now peer uri subject" and b: "instance_bundle_ok svc (carried_instance wired inst)"
    and w: "acts_for_instance subject inst" "requireAttestedNode svc now (in_NodeID inst) (in_BundleDigest inst) s = (s1, None)"
  shows "Remote_RegisterInstance c dial inst s = answered (\<lambda>u. u) (mb_RegisterInstance (sto_membership (svc_store svc)) (carried_instance wired inst) s1)"
  unfolding Remote_RegisterInstance_def
proof (rule link_answers [OF l Server_RegisterInstance_def])
  note d = service_linkD [OF l]
  have ids: "in_ID (carried_instance wired inst) = in_ID inst" "in_NodeID (carried_instance wired inst) = in_NodeID inst"
    "in_Profile (carried_instance wired inst) = in_Profile inst" "in_BundleDigest (carried_instance wired inst) = in_BundleDigest inst"
    by (simp_all add: carried_instance_def)
  have "validateInstanceBundle svc (carried_instance wired inst) = None" using b by (simp add: validateInstanceBundle_None)
  moreover have "authorizeInstanceSubject svc subject (in_ID inst) (in_NodeID inst) (in_Profile inst) = None"
    using w(1) d(5) by (simp add: authorizeInstanceSubject_None)
  ultimately show "Svc_RegisterInstance svc now uri (instanceView inst) s =
      store_call (mb_RegisterInstance (sto_membership (svc_store svc)) (carried_instance wired inst)) (\<lambda>_. ()) s1"
    using d(4) w(2) by (simp add: Svc_RegisterInstance_def with_subject_def require_def through_view ids)
qed (simp_all add: connected_def)

lemma remote_HeartbeatInstance:
  assumes l: "service_link c dial svc now peer uri subject"
    and w: "mb_GetInstance (sto_membership (svc_store svc)) instanceID s = (s1, Inr (Some inst))" "acts_for_instance subject inst"
  shows "Remote_HeartbeatInstance c dial instanceID at s =
    answered (\<lambda>u. u) (mb_HeartbeatInstance (sto_membership (svc_store svc)) instanceID (wired at) s1)"
  unfolding Remote_HeartbeatInstance_def
proof (rule link_answers [OF l Server_HeartbeatInstance_def])
  note d = service_linkD [OF l]
  have "authorizeInstanceSubject svc subject (in_ID inst) (in_NodeID inst) (in_Profile inst) = None"
    using w(2) d(5) by (simp add: authorizeInstanceSubject_None)
  then show "Svc_HeartbeatInstance svc uri instanceID (UnixNano at) s =
      store_call (mb_HeartbeatInstance (sto_membership (svc_store svc)) instanceID (wired at)) (\<lambda>_. ()) s1"
    using d(4) w(1) by (simp add: Svc_HeartbeatInstance_def with_subject_def require_def wire_times)
qed (simp_all add: connected_def)

lemma remote_RemoveInstance:
  assumes l: "service_link c dial svc now peer uri subject"
    and w: "mb_GetInstance (sto_membership (svc_store svc)) instanceID s = (s1, Inr found)"
      "\<And>inst. found = Some inst \<Longrightarrow> acts_for_instance subject inst"
  shows "Remote_RemoveInstance c dial instanceID s = answered (\<lambda>u. u) (mb_RemoveInstance (sto_membership (svc_store svc)) instanceID s1)"
  unfolding Remote_RemoveInstance_def
proof (rule link_answers [OF l Server_RemoveInstance_def])
  note d = service_linkD [OF l]
  show "Svc_RemoveInstance svc uri instanceID s =
      store_call (mb_RemoveInstance (sto_membership (svc_store svc)) instanceID) (\<lambda>_. ()) s1"
  proof (cases found)
    case (Some inst)
    then have "authorizeInstanceSubject svc subject (in_ID inst) (in_NodeID inst) (in_Profile inst) = None"
      using w(2) d(5) by (simp add: authorizeInstanceSubject_None)
    then show ?thesis using Some d(4) w(1) by (simp add: Svc_RemoveInstance_def with_subject_def require_def)
  qed (use d(4) w(1) in \<open>simp add: Svc_RemoveInstance_def with_subject_def\<close>)
qed (simp_all add: connected_def)

lemma remote_ops:
  "ld_AcquireLeader (sto_leadership (remote_Store c dial)) = Remote_AcquireLeader c dial"
  "ld_RenewLeader (sto_leadership (remote_Store c dial)) = Remote_RenewLeader c dial"
  "ld_ReleaseLeader (sto_leadership (remote_Store c dial)) = Remote_ReleaseLeader c dial"
  "rs_UpsertRequest (sto_requests (remote_Store c dial)) = Remote_UpsertRequest c dial"
  "rs_UpsertTask (sto_requests (remote_Store c dial)) = Remote_UpsertTask c dial"
  "ls_AcquireProfileLease (sto_leases (remote_Store c dial)) = Remote_AcquireProfileLease c dial"
  "ls_RenewProfileLease (sto_leases (remote_Store c dial)) = Remote_RenewProfileLease c dial"
  "ls_ReleaseProfileLease (sto_leases (remote_Store c dial)) = Remote_ReleaseProfileLease c dial"
  "ls_AcquireTaskLease (sto_leases (remote_Store c dial)) = Remote_AcquireTaskLease c dial"
  "ls_RenewTaskLease (sto_leases (remote_Store c dial)) = Remote_RenewTaskLease c dial"
  "ls_ReleaseTaskLease (sto_leases (remote_Store c dial)) = Remote_ReleaseTaskLease c dial"
  "ld_GetLeader (sto_leadership (remote_Store c dial)) = Remote_GetLeader c dial"
  "mb_GetNode (sto_membership (remote_Store c dial)) = Remote_GetNode c dial"
  "mb_ListNodes (sto_membership (remote_Store c dial)) = Remote_ListNodes c dial"
  "mb_GetInstance (sto_membership (remote_Store c dial)) = Remote_GetInstance c dial"
  "mb_ListInstances (sto_membership (remote_Store c dial)) = Remote_ListInstances c dial"
  "rs_GetRequest (sto_requests (remote_Store c dial)) = Remote_GetRequest c dial"
  "rs_ListRequests (sto_requests (remote_Store c dial)) = Remote_ListRequests c dial"
  "rs_ListTasks (sto_requests (remote_Store c dial)) = Remote_ListTasks c dial"
  "ls_GetProfileLease (sto_leases (remote_Store c dial)) = Remote_GetProfileLease c dial"
  "ls_GetTaskLease (sto_leases (remote_Store c dial)) = Remote_GetTaskLease c dial"
  "mb_RegisterNode (sto_membership (remote_Store c dial)) = Remote_RegisterNode c dial"
  "mb_HeartbeatNode (sto_membership (remote_Store c dial)) = Remote_HeartbeatNode c dial"
  "mb_RegisterInstance (sto_membership (remote_Store c dial)) = Remote_RegisterInstance c dial"
  "mb_HeartbeatInstance (sto_membership (remote_Store c dial)) = Remote_HeartbeatInstance c dial"
  "mb_RemoveInstance (sto_membership (remote_Store c dial)) = Remote_RemoveInstance c dial"
  by (simp_all add: remote_Store_def)

text \<open>
  Claim C16: over the wire the control plane is the store. When a member of the fabric reaches a service over its
  certificate, every operation of the client that the service grants changes the store as the operation itself does, on the record as
  the wire carries it, and returns what that returned, again as the wire carries it, errors included: for a conductor the leadership, request and lease
  updates; for every member the reads; for a node or the conductor of its name its registration and heartbeat; for an agent
  instance or its node registration, heartbeat and removal. A record is carried unchanged when its times lie within 64 bits of nanoseconds around the Unix
  epoch and are not the epoch; Go's zero time is not such a time, so a record sent with it arrives with a date in 1754.
\<close>

theorem remote_store_refines:
  assumes "service_link c dial svc now peer uri subject"
  shows
    "(sj_Kind subject = SubjectKindConductor \<longrightarrow>
      ld_AcquireLeader (sto_leadership (remote_Store c dial)) cand addr ttl s =
        answered (\<lambda>(l, b). (wired_leader l, b)) (ld_AcquireLeader (sto_leadership (svc_store svc)) cand addr (durationFromNanos ttl) s) \<and>
      ld_RenewLeader (sto_leadership (remote_Store c dial)) leader ttl s =
        answered (wired_leader) (ld_RenewLeader (sto_leadership (svc_store svc)) (wired_leader leader) (durationFromNanos ttl) s) \<and>
      ld_ReleaseLeader (sto_leadership (remote_Store c dial)) leader s =
        answered (\<lambda>u. u) (ld_ReleaseLeader (sto_leadership (svc_store svc)) (wired_leader leader) s) \<and>
      rs_UpsertRequest (sto_requests (remote_Store c dial)) request s =
        answered (\<lambda>u. u) (rs_UpsertRequest (sto_requests (svc_store svc)) (wired_request request) s) \<and>
      rs_UpsertTask (sto_requests (remote_Store c dial)) task s =
        answered (\<lambda>u. u) (rs_UpsertTask (sto_requests (svc_store svc)) (wired_task task) s) \<and>
      ls_AcquireProfileLease (sto_leases (remote_Store c dial)) profile ttl s =
        answered (\<lambda>(l, b). (wired_profile_lease l, b)) (ls_AcquireProfileLease (sto_leases (svc_store svc)) (wired_profile_lease profile) (durationFromNanos ttl) s) \<and>
      ls_RenewProfileLease (sto_leases (remote_Store c dial)) profile ttl s =
        answered (wired_profile_lease) (ls_RenewProfileLease (sto_leases (svc_store svc)) (wired_profile_lease profile) (durationFromNanos ttl) s) \<and>
      ls_ReleaseProfileLease (sto_leases (remote_Store c dial)) profile s =
        answered (\<lambda>u. u) (ls_ReleaseProfileLease (sto_leases (svc_store svc)) (wired_profile_lease profile) s) \<and>
      ls_AcquireTaskLease (sto_leases (remote_Store c dial)) tasklease ttl s =
        answered (\<lambda>(l, b). (wired_task_lease l, b)) (ls_AcquireTaskLease (sto_leases (svc_store svc)) (wired_task_lease tasklease) (durationFromNanos ttl) s) \<and>
      ls_RenewTaskLease (sto_leases (remote_Store c dial)) tasklease ttl s =
        answered (wired_task_lease) (ls_RenewTaskLease (sto_leases (svc_store svc)) (wired_task_lease tasklease) (durationFromNanos ttl) s) \<and>
      ls_ReleaseTaskLease (sto_leases (remote_Store c dial)) tasklease s =
        answered (\<lambda>u. u) (ls_ReleaseTaskLease (sto_leases (svc_store svc)) (wired_task_lease tasklease) s)) \<and>
     ld_GetLeader (sto_leadership (remote_Store c dial)) s =
        answered (map_option wired_leader) (ld_GetLeader (sto_leadership (svc_store svc)) s) \<and>
     mb_GetNode (sto_membership (remote_Store c dial)) id1 s =
        answered (map_option (carried_node shown)) (mb_GetNode (sto_membership (svc_store svc)) id1 s) \<and>
     mb_ListNodes (sto_membership (remote_Store c dial)) s =
        answered (map (carried_node shown)) (mb_ListNodes (sto_membership (svc_store svc)) s) \<and>
     mb_GetInstance (sto_membership (remote_Store c dial)) id1 s =
        answered (map_option (carried_instance shown)) (mb_GetInstance (sto_membership (svc_store svc)) id1 s) \<and>
     mb_ListInstances (sto_membership (remote_Store c dial)) flt s =
        answered (map (carried_instance shown)) (mb_ListInstances (sto_membership (svc_store svc)) flt s) \<and>
     rs_GetRequest (sto_requests (remote_Store c dial)) id1 s =
        answered (map_option wired_request) (rs_GetRequest (sto_requests (svc_store svc)) id1 s) \<and>
     rs_ListRequests (sto_requests (remote_Store c dial)) s =
        answered (map wired_request) (rs_ListRequests (sto_requests (svc_store svc)) s) \<and>
     rs_ListTasks (sto_requests (remote_Store c dial)) id1 s =
        answered (map wired_task) (rs_ListTasks (sto_requests (svc_store svc)) id1 s) \<and>
     ls_GetProfileLease (sto_leases (remote_Store c dial)) id1 s =
        answered (map_option wired_profile_lease) (ls_GetProfileLease (sto_leases (svc_store svc)) id1 s) \<and>
     ls_GetTaskLease (sto_leases (remote_Store c dial)) id1 id2 s =
        answered (map_option wired_task_lease) (ls_GetTaskLease (sto_leases (svc_store svc)) id1 id2 s) \<and>
     (node_bundle_ok svc (carried_node wired node) \<and>
        (sj_Kind subject = SubjectKindConductor \<and> sj_Name subject = NormalizeID (nd_ID node) \<and> s1 = s \<or>
         sj_Kind subject = SubjectKindNode \<and> sj_NodeID subject = NormalizeID (nd_ID node) \<and>
           requireAttestedNode svc now (nd_ID node) (nd_BundleDigest node) s = (s1, None)) \<longrightarrow>
      mb_RegisterNode (sto_membership (remote_Store c dial)) node s =
        answered (\<lambda>u. u) (mb_RegisterNode (sto_membership (svc_store svc)) (carried_node wired node) s1)) \<and>
     (sj_Kind subject = SubjectKindConductor \<and> sj_Name subject = NormalizeID id1 \<or>
      sj_Kind subject = SubjectKindNode \<and> sj_NodeID subject = NormalizeID id1 \<longrightarrow>
      mb_HeartbeatNode (sto_membership (remote_Store c dial)) id1 at s =
        answered (\<lambda>u. u) (mb_HeartbeatNode (sto_membership (svc_store svc)) id1 (wired at) s)) \<and>
     (instance_bundle_ok svc (carried_instance wired inst) \<and> acts_for_instance subject inst \<and>
        requireAttestedNode svc now (in_NodeID inst) (in_BundleDigest inst) s = (s1, None) \<longrightarrow>
      mb_RegisterInstance (sto_membership (remote_Store c dial)) inst s =
        answered (\<lambda>u. u) (mb_RegisterInstance (sto_membership (svc_store svc)) (carried_instance wired inst) s1)) \<and>
     (mb_GetInstance (sto_membership (svc_store svc)) id1 s = (s1, Inr (Some inst)) \<and> acts_for_instance subject inst \<longrightarrow>
      mb_HeartbeatInstance (sto_membership (remote_Store c dial)) id1 at s =
        answered (\<lambda>u. u) (mb_HeartbeatInstance (sto_membership (svc_store svc)) id1 (wired at) s1)) \<and>
     (mb_GetInstance (sto_membership (svc_store svc)) id1 s = (s1, Inr found) \<and> (\<forall>i. found = Some i \<longrightarrow> acts_for_instance subject i) \<longrightarrow>
      mb_RemoveInstance (sto_membership (remote_Store c dial)) id1 s =
        answered (\<lambda>u. u) (mb_RemoveInstance (sto_membership (svc_store svc)) id1 s1)) \<and>
     ((wire_leader leader \<longrightarrow> wired_leader leader = leader) \<and> (wire_request request \<longrightarrow> wired_request request = request) \<and>
      (wire_task task \<longrightarrow> wired_task task = task) \<and> (wire_task_lease tasklease \<longrightarrow> wired_task_lease tasklease = tasklease) \<and>
      (wire_profile_lease profile \<longrightarrow> wired_profile_lease profile = profile) \<and>
      (wire_node node \<longrightarrow> carried_node wired node = node \<and> carried_node shown node = node) \<and>
      (wire_instance inst \<longrightarrow> carried_instance wired inst = inst \<and> carried_instance shown inst = inst)) \<and>
     (rq_UpdatedAt request = 0 \<longrightarrow> rq_UpdatedAt (wired_request request) = 55340232221128654848)"
proof -
  have zero: "wired 0 = 55340232221128654848" using zero_time_lost by (simp add: wire_times)
  note ops = remote_ops [where c = c and dial = dial]
  note calls = remote_AcquireLeader [OF assms] remote_RenewLeader [OF assms] remote_ReleaseLeader [OF assms] remote_UpsertRequest [OF assms] remote_UpsertTask [OF assms] remote_AcquireProfileLease [OF assms] remote_RenewProfileLease [OF assms] remote_ReleaseProfileLease [OF assms] remote_AcquireTaskLease [OF assms] remote_RenewTaskLease [OF assms] remote_ReleaseTaskLease [OF assms] remote_GetLeader [OF assms] remote_GetNode [OF assms] remote_ListNodes [OF assms] remote_GetInstance [OF assms] remote_ListInstances [OF assms] remote_GetRequest [OF assms] remote_ListRequests [OF assms] remote_ListTasks [OF assms] remote_GetProfileLease [OF assms] remote_GetTaskLease [OF assms]
  show ?thesis
    unfolding ops
    by (intro conjI impI; (rule calls; assumption | elim conjE; rule remote_RegisterInstance [OF assms] remote_HeartbeatInstance [OF assms]; assumption
        | elim conjE; rule remote_RegisterNode [OF assms]; assumption | rule remote_HeartbeatNode [OF assms]; assumption
        | elim conjE, rule remote_RemoveInstance [OF assms], assumption, blast
        | simp add: fits_unchanged | simp add: wired_request_def zero))
qed

definition demo_time :: time where "demo_time = unix_epoch + 1700000000000000000"

definition demo_link_service :: "MemoryStore Service" where
  "demo_link_service = New_Service (memory_Store demo_time) ''f'' ''b1'' [(''dev'', ''p1'')] None"

definition demo_conductor :: Subject where
  "demo_conductor = no_subject ''td.io'' ''f'' SubjectKindConductor ''c1''"

definition demo_conductor_uri :: string where "demo_conductor_uri = ''spiffe://td.io/fabric/f/conductor/c1''"

definition demo_peer :: peer where
  "demo_peer = TLSPeer [\<lparr>ct_CommonName = ''c1'', ct_URIs = [demo_conductor_uri]\<rparr>]"

definition demo_client :: RemoteClient where "demo_client = NewRemoteClient ''host'' True"

definition demo_dial :: "string \<Rightarrow> MemoryStore ControlPlaneClient option" where
  "demo_dial address = Some (connected (Some demo_link_service) demo_time demo_peer)"

lemma demo_link: "service_link demo_client demo_dial demo_link_service demo_time demo_peer demo_conductor_uri demo_conductor"
proof -
  have "caller demo_link_service demo_conductor_uri = Some demo_conductor" by code_simp
  then show ?thesis
    by (simp add: service_link_def demo_client_def NewRemoteClient_def demo_dial_def demo_peer_def demo_conductor_def no_subject_def)
qed

definition wire_demo_leader :: LeaderLease where
  "wire_demo_leader = \<lparr>ll_Fabric = ''f'', ll_HolderID = ''c1'', ll_HolderAddress = ''a'', ll_Epoch = 1, ll_AcquiredAt = demo_time,
     ll_LastHeartbeatAt = demo_time, ll_ExpiresAt = demo_time\<rparr>"

definition wire_demo_request :: RequestRecord where
  "wire_demo_request = zero_request\<lparr>rq_ID := ''r1'', rq_CreatedAt := demo_time, rq_UpdatedAt := demo_time\<rparr>"

definition wire_demo_task :: TaskRecord where
  "wire_demo_task = \<lparr>tk_RequestID = ''r1'', tk_TaskID = ''t1'', tk_Profile = ''dev'', tk_AssignedInstance = ''i'', tk_ExecutionNode = ''n'',
     tk_Status = ''running'', tk_LeaseEpoch = 1, tk_UpdatedAt = demo_time\<rparr>"

definition wire_demo_task_lease :: TaskLease where
  "wire_demo_task_lease = \<lparr>tl_RequestID = ''r1'', tl_TaskID = ''t1'', tl_Profile = ''dev'', tl_AssignedInstance = ''i'', tl_ExecutionNode = ''n'',
     tl_OwnerID = ''c1'', tl_Epoch = 1, tl_AcquiredAt = demo_time, tl_LastHeartbeatAt = demo_time, tl_ExpiresAt = demo_time\<rparr>"

definition wire_demo_profile_lease :: ProfileLease where
  "wire_demo_profile_lease = \<lparr>pl_Profile = ''dev'', pl_AssignedInstance = ''i'', pl_ExecutionNode = ''n'', pl_OwnerID = ''c1'',
     pl_Epoch = 1, pl_AcquiredAt = demo_time, pl_LastHeartbeatAt = demo_time, pl_ExpiresAt = demo_time\<rparr>"

theorem remote_store_refines_witness:
  "rs_UpsertRequest (sto_requests (remote_Store demo_client demo_dial)) wire_demo_request (NewMemoryStore ''f'') =
     answered (\<lambda>u. u) (UpsertRequest demo_time wire_demo_request (NewMemoryStore ''f'')) \<and>
   mb_HeartbeatNode (sto_membership (remote_Store demo_client demo_dial)) ''c1'' demo_time (NewMemoryStore ''f'') =
     answered (\<lambda>u. u) (HeartbeatNode demo_time demo_time ''c1'' demo_time (NewMemoryStore ''f''))"
proof -
  have t: "wire_time demo_time" by (simp add: wire_time_def demo_time_def)
  have w: "wire_request wire_demo_request" by (simp add: wire_defs t wire_demo_request_def)
  have c: "sj_Kind demo_conductor = SubjectKindConductor" "sj_Name demo_conductor = NormalizeID ''c1''" by code_simp+
  note refines = remote_store_refines [OF demo_link, of "''cand''" "''a''" 9 "NewMemoryStore ''f''" wire_demo_leader wire_demo_request
      wire_demo_task wire_demo_profile_lease wire_demo_task_lease "''c1''"]
  have st: "rs_UpsertRequest (sto_requests (svc_store demo_link_service)) = UpsertRequest demo_time"
    "mb_HeartbeatNode (sto_membership (svc_store demo_link_service)) = HeartbeatNode demo_time demo_time"
    by (simp_all add: demo_link_service_def New_Service_def memory_Store_def)
  show ?thesis
    using refines c w by (simp add: st wire_time_carried [OF t])
qed

end
