(* ===== verification/Server.thy ===== *)
theory Server
  imports Remote
begin

text \<open>
  The message server of an agent (internal/grpc/server.go), the sending side (internal/grpc/communicator.go) and the
  static registry (internal/grpc/discovery.go). The connection of a sender to a server is the peer of the
  certificate it presents, or no certificate at all where TLS is off.
\<close>

section \<open>Who may send as whom\<close>

datatype peer_error =
    MissingPeerCertificate | MissingCommonName | SenderMismatch string string | NodeSenderMismatch string string
  | NeedsSenderInstance string string | InvalidSenderInstance string | CannotActOnInstance string string
  | CannotClaimSender string string string | NotForMessaging SubjectKind

fun SubjectFromCertificate :: "Certificate \<Rightarrow> subject_error option + Subject" where
  "SubjectFromCertificate cert =
     (case ct_URIs cert of
        [] \<Rightarrow> Inl None
      | uri # _ \<Rightarrow> (case ParseSubjectURI uri of Inl e \<Rightarrow> Inl (Some e) | Inr subject \<Rightarrow> Inr subject))"

text \<open>The node and the profile of an instance ID \<open>node/profile/...\<close>.\<close>

fun index_slash :: "string \<Rightarrow> nat option" where
  "index_slash [] = None"
| "index_slash (c # cs) = (if c = slash then Some 0 else map_option Suc (index_slash cs))"

definition senderInstanceParts :: "string \<Rightarrow> (string \<times> string) option" where
  "senderInstanceParts instanceID =
     (case index_slash instanceID of
        None \<Rightarrow> None
      | Some firstSlash \<Rightarrow>
          if firstSlash = 0 \<or> firstSlash \<ge> length instanceID - 1 then None
          else
            (let rest = drop (firstSlash + 1) instanceID
             in case index_slash rest of
                  None \<Rightarrow> Some (take firstSlash instanceID, rest)
                | Some secondSlash \<Rightarrow>
                    if secondSlash = 0 then None else Some (take firstSlash instanceID, take secondSlash rest)))"

definition authorizeNodeBackedSender :: "Subject \<Rightarrow> string \<Rightarrow> (string, string) gomap \<Rightarrow> peer_error option" where
  "authorizeNodeBackedSender subject claimedSender metadata =
     (if NormalizeID (mget0 '''' metadata ''sender_node'') \<noteq> sj_NodeID subject
      then Some (NodeSenderMismatch (sj_NodeID subject) (mget0 '''' metadata ''sender_node''))
      else
        (let senderInstance = mget0 '''' metadata ''sender_instance''
         in if senderInstance = '''' then
              (if NormalizeID claimedSender = sj_NodeID subject then None
               else Some (NeedsSenderInstance (sj_NodeID subject) claimedSender))
            else
              (case senderInstanceParts senderInstance of
                 None \<Rightarrow> Some (InvalidSenderInstance senderInstance)
               | Some (instanceNode, instanceProfile) \<Rightarrow>
                   if NormalizeID instanceNode \<noteq> sj_NodeID subject
                   then Some (CannotActOnInstance (sj_NodeID subject) senderInstance)
                   else if NormalizeID claimedSender \<noteq> NormalizeID instanceProfile
                   then Some (CannotClaimSender (sj_NodeID subject) claimedSender senderInstance)
                   else None)))"

definition verify_subject :: "Subject \<Rightarrow> string \<Rightarrow> (string, string) gomap \<Rightarrow> peer_error option" where
  "verify_subject subject claimedSender metadata =
     (case sj_Kind subject of
        SubjectKindConductor \<Rightarrow> guard (NormalizeID claimedSender \<noteq> sj_Name subject) (SenderMismatch claimedSender (URI subject))
      | SubjectKindAgentProfile \<Rightarrow> guard (NormalizeID claimedSender \<noteq> sj_Profile subject) (SenderMismatch claimedSender (URI subject))
      | SubjectKindAgentInstance \<Rightarrow> guard (NormalizeID claimedSender \<noteq> sj_Profile subject) (SenderMismatch claimedSender (URI subject))
      | SubjectKindNode \<Rightarrow> authorizeNodeBackedSender subject claimedSender metadata
      | k \<Rightarrow> Some (NotForMessaging k))"

text \<open>A certificate whose URI is missing or cannot be read is judged by its common name.\<close>

fun verifyPeerIdentity :: "peer \<Rightarrow> string \<Rightarrow> (string, string) gomap \<Rightarrow> peer_error option" where
  "verifyPeerIdentity NoPeer claimedSender metadata = None"
| "verifyPeerIdentity OtherPeer claimedSender metadata = None"
| "verifyPeerIdentity (TLSPeer []) claimedSender metadata = Some MissingPeerCertificate"
| "verifyPeerIdentity (TLSPeer (cert # _)) claimedSender metadata =
     (case SubjectFromCertificate cert of
        Inl _ \<Rightarrow>
          if ct_CommonName cert = '''' then Some MissingCommonName
          else guard (ct_CommonName cert \<noteq> claimedSender) (SenderMismatch claimedSender (ct_CommonName cert))
      | Inr subject \<Rightarrow> verify_subject subject claimedSender metadata)"

section \<open>The server\<close>

text \<open>The inbox is a channel with a buffer; its messages are taken by the receiver in order.\<close>

record 's Server =
  srv_name :: string
  srv_inbox :: "Message list"
  srv_bufferSize :: nat
  srv_status :: string
  srv_controlPlane :: "'s Service option"

definition NewServer :: "string \<Rightarrow> nat \<Rightarrow> 's Server" where
  "NewServer name bufferSize =
     \<lparr>srv_name = name, srv_inbox = [], srv_bufferSize = bufferSize, srv_status = ''ready'', srv_controlPlane = None\<rparr>"

datatype reply = Accepted | NilMessage | MissingSender | WrongRecipient string | NotVerified peer_error | InboxFull string

definition SendMessage :: "('p \<Rightarrow> data) \<Rightarrow> peer \<Rightarrow> 'p pb_Message option \<Rightarrow> 's Server \<Rightarrow> 's Server \<times> reply" where
  "SendMessage asMap peer pbMsg s =
     (case FromProto asMap pbMsg of
        None \<Rightarrow> (s, NilMessage)
      | Some msg \<Rightarrow>
          if m_From msg = '''' then (s, MissingSender)
          else if m_To msg \<noteq> srv_name s then (s, WrongRecipient (m_To msg))
          else
            (case verifyPeerIdentity peer (m_From msg) (m_Metadata msg) of
               Some e \<Rightarrow> (s, NotVerified e)
             | None \<Rightarrow>
                 if length (srv_inbox s) < srv_bufferSize s then (s\<lparr>srv_inbox := srv_inbox s @ [msg]\<rparr>, Accepted)
                 else (s, InboxFull (srv_name s))))"

definition Server_Heartbeat :: "'s Server \<Rightarrow> string \<times> string" where
  "Server_Heartbeat s = (srv_name s, srv_status s)"

definition Server_Stop :: "'s Server \<Rightarrow> 's Server" where
  "Server_Stop s = s\<lparr>srv_status := ''shutting_down''\<rparr>"

definition SetStatus :: "string \<Rightarrow> 's Server \<Rightarrow> 's Server" where
  "SetStatus status s = s\<lparr>srv_status := status\<rparr>"

definition SetControlPlaneService :: "'s Service option \<Rightarrow> 's Server \<Rightarrow> 's Server" where
  "SetControlPlaneService service s = s\<lparr>srv_controlPlane := service\<rparr>"

text \<open>The receiver takes the first message of the inbox.\<close>

definition Inbox_recv :: "'s Server \<Rightarrow> 's Server \<times> Message option" where
  "Inbox_recv s = (case srv_inbox s of [] \<Rightarrow> (s, None) | m # ms \<Rightarrow> (s\<lparr>srv_inbox := ms\<rparr>, Some m))"

section \<open>Sending (communicator.go)\<close>

definition assignedInstanceMatchesRecipient :: "string \<Rightarrow> string \<Rightarrow> bool" where
  "assignedInstanceMatchesRecipient assignedInstance recipient =
     (if NormalizeID assignedInstance = NormalizeID recipient then True
      else
        (case senderInstanceParts assignedInstance of
           None \<Rightarrow> False
         | Some (_, profile) \<Rightarrow> NormalizeID profile = NormalizeID recipient))"

definition dispatchRouteTarget :: "Message option \<Rightarrow> string" where
  "dispatchRouteTarget msg =
     (case msg of
        None \<Rightarrow> ''''
      | Some m \<Rightarrow>
          (let assigned = mget0 '''' (m_Metadata m) ''assigned_instance''
           in if assigned \<noteq> '''' \<and> assignedInstanceMatchesRecipient assigned (m_To m) then assigned else m_To m))"

text \<open>The static registry.\<close>

type_synonym StaticDiscovery = "(string, Endpoint) gomap"

definition Static_Register :: "string \<Rightarrow> Endpoint \<Rightarrow> StaticDiscovery \<Rightarrow> StaticDiscovery" where
  "Static_Register name endpoint d = mput name endpoint d"

definition Static_Resolve :: "StaticDiscovery \<Rightarrow> string \<Rightarrow> Endpoint option" where
  "Static_Resolve d name = mget d name"

definition Static_List :: "StaticDiscovery \<Rightarrow> string list" where "Static_List d = mkeys d"

definition Static_Deregister :: "string \<Rightarrow> StaticDiscovery \<Rightarrow> StaticDiscovery" where
  "Static_Deregister name d = mdel name d"

text \<open>
  \<open>Send\<close> of a communicator: the connections it keeps are by route target and hold the address they were dialled with, so a target that has moved is still
  reached at its old address. \<open>resolve\<close> is its discovery, \<open>dial\<close> the creation of a connection, \<open>call\<close> the
  message call over it, with \<open>None\<close> for a failed call.
\<close>

record Communicator =
  cm_name :: string
  cm_conns :: "(string, string) gomap"

datatype 'e send_error = ResolveFailed string 'e | SendDialFailed string string | SendFailed string | Rejected string reply

definition NewCommunicator :: "string \<Rightarrow> Communicator" where
  "NewCommunicator name = \<lparr>cm_name = name, cm_conns = []\<rparr>"

definition getClient :: "(string \<Rightarrow> 'e + Endpoint) \<Rightarrow> (string \<Rightarrow> bool) \<Rightarrow> string \<Rightarrow> Communicator \<Rightarrow> Communicator \<times> ('e send_error + string)" where
  "getClient resolve dial target c =
     (case mget (cm_conns c) target of
        Some conn \<Rightarrow> (c, Inr conn)
      | None \<Rightarrow>
          (case resolve target of
             Inl e \<Rightarrow> (c, Inl (ResolveFailed target e))
           | Inr ep \<Rightarrow>
               if dial (ep_Address ep) then (c\<lparr>cm_conns := mput target (ep_Address ep) (cm_conns c)\<rparr>, Inr (ep_Address ep))
               else (c, Inl (SendDialFailed target (ep_Address ep)))))"

definition Comm_Send :: "(data \<Rightarrow> 'p option) \<Rightarrow> (string \<Rightarrow> 'e + Endpoint) \<Rightarrow> (string \<Rightarrow> bool) \<Rightarrow>
    (string \<Rightarrow> 'p pb_Message option \<Rightarrow> 'w \<Rightarrow> 'w \<times> reply option) \<Rightarrow> Message option \<Rightarrow> Communicator \<Rightarrow> 'w \<Rightarrow>
    Communicator \<times> 'w \<times> 'e send_error option" where
  "Comm_Send newStruct resolve dial call msg c w =
     (let routeTarget = dispatchRouteTarget msg
      in case getClient resolve dial routeTarget c of
           (c', Inl e) \<Rightarrow> (c', w, Some e)
         | (c', Inr conn) \<Rightarrow>
             (case call conn (ToProto newStruct msg) w of
                (w', None) \<Rightarrow> (c', w', Some (SendFailed routeTarget))
              | (w', Some Accepted) \<Rightarrow> (c', w', None)
              | (w', Some r) \<Rightarrow> (c', w', Some (Rejected routeTarget r))))"

definition Comm_Close :: "Communicator \<Rightarrow> Communicator" where
  "Comm_Close c = c\<lparr>cm_conns := []\<rparr>"

section \<open>Every message of the inbox was sent by its sender\<close>

text \<open>What the checks mean: the certificate speaks for the sender the message claims.\<close>

definition names_instance :: "string \<Rightarrow> string \<Rightarrow> string \<Rightarrow> bool" where
  "names_instance inst node profile =
     (\<exists>rest. inst = node @ slash # profile @ rest \<and> node \<noteq> '''' \<and> profile \<noteq> '''' \<and> slash \<notin> set node \<and> slash \<notin> set profile \<and>
        (rest = '''' \<or> hd rest = slash))"

definition speaks_for :: "Subject \<Rightarrow> Message \<Rightarrow> bool" where
  "speaks_for subject m =
     (let from = NormalizeID (m_From m); field = mget0 '''' (m_Metadata m)
      in case sj_Kind subject of
           SubjectKindConductor \<Rightarrow> from = sj_Name subject
         | SubjectKindAgentProfile \<Rightarrow> from = sj_Profile subject
         | SubjectKindAgentInstance \<Rightarrow> from = sj_Profile subject
         | SubjectKindNode \<Rightarrow>
             NormalizeID (field ''sender_node'') = sj_NodeID subject \<and>
             (if field ''sender_instance'' = '''' then from = sj_NodeID subject
              else \<exists>node profile. names_instance (field ''sender_instance'') node profile \<and>
                NormalizeID node = sj_NodeID subject \<and> NormalizeID profile = from)
         | _ \<Rightarrow> False)"

fun authentic :: "peer \<Rightarrow> Message \<Rightarrow> bool" where
  "authentic (TLSPeer []) m = False"
| "authentic (TLSPeer (cert # _)) m =
     (case SubjectFromCertificate cert of
        Inl _ \<Rightarrow> ct_CommonName cert \<noteq> '''' \<and> ct_CommonName cert = m_From m
      | Inr subject \<Rightarrow> speaks_for subject m)"
| "authentic _ m = True"

lemma index_slash_Some:
  "index_slash s = Some i \<longleftrightarrow> i < length s \<and> s ! i = slash \<and> slash \<notin> set (take i s)"
  by (induction s arbitrary: i) (auto simp: nth_Cons take_Cons split: nat.splits)

lemma index_slash_None: "index_slash s = None \<longleftrightarrow> slash \<notin> set s"
  by (induction s) auto

lemma senderInstanceParts_Some:
  assumes "senderInstanceParts inst = Some (node, profile)"
  shows "names_instance inst node profile"
proof -
  from assms obtain i where i: "index_slash inst = Some i" "i \<noteq> 0" "i < length inst - 1"
    by (auto simp: senderInstanceParts_def split: option.splits if_splits)
  then have n: "i < length inst" "inst ! i = slash" "slash \<notin> set (take i inst)" by (auto simp: index_slash_Some)
  define rest where "rest = drop (Suc i) inst"
  have split: "inst = take i inst @ slash # rest"
    using n id_take_nth_drop [of i inst] by (simp add: rest_def)
  have nonempty: "rest \<noteq> ''''" "take i inst \<noteq> ''''" using i by (auto simp: rest_def)
  show ?thesis
  proof (cases "index_slash rest")
    case None
    then have "node = take i inst" "profile = rest" "slash \<notin> set rest"
      using assms i index_slash_None [of rest] by (auto simp: senderInstanceParts_def Let_def simp flip: rest_def)
    then show ?thesis unfolding names_instance_def using split n(3) nonempty by (intro exI [of _ "''''"]) auto
  next
    case (Some j)
    then have j: "j \<noteq> 0" "node = take i inst" "profile = take j rest"
      using assms i by (auto simp: senderInstanceParts_def Let_def simp flip: rest_def split: if_splits)
    have n': "j < length rest" "rest ! j = slash" "slash \<notin> set (take j rest)" using Some by (auto simp: index_slash_Some)
    have "inst = node @ slash # profile @ drop j rest" using split j by simp
    moreover have "hd (drop j rest) = slash" using n' by (simp add: hd_drop_conv_nth)
    ultimately show ?thesis unfolding names_instance_def using j n n' nonempty by (intro exI [of _ "drop j rest"]) auto
  qed
qed

lemma verify_subject_None: "verify_subject subject (m_From m) (m_Metadata m) = None \<Longrightarrow> speaks_for subject m"
  by (cases "sj_Kind subject"; auto simp: verify_subject_def speaks_for_def authorizeNodeBackedSender_def Let_def
      split: if_splits option.splits) (metis senderInstanceParts_Some)

lemma verifyPeerIdentity_None: "verifyPeerIdentity peer (m_From m) (m_Metadata m) = None \<Longrightarrow> authentic peer m"
  by (induction peer m rule: authentic.induct)
    (auto simp: verify_subject_None split: sum.splits if_splits simp del: SubjectFromCertificate.simps)

text \<open>A run of the server: messages arriving over connections, messages taken by the agent, and changes of status and service.\<close>

datatype ('p, 's) server_call =
    Deliver peer "'p pb_Message option" | Take | Status string | StopServer | ControlPlane "'s Service option"

fun server_exec :: "('p \<Rightarrow> data) \<Rightarrow> ('p, 's) server_call \<Rightarrow> 's Server \<Rightarrow> 's Server" where
  "server_exec asMap (Deliver peer pb) s = fst (SendMessage asMap peer pb s)"
| "server_exec asMap Take s = fst (Inbox_recv s)"
| "server_exec asMap (Status status) s = SetStatus status s"
| "server_exec asMap StopServer s = Server_Stop s"
| "server_exec asMap (ControlPlane service) s = SetControlPlaneService service s"

definition server_run :: "('p \<Rightarrow> data) \<Rightarrow> ('p, 's) server_call list \<Rightarrow> 's Server \<Rightarrow> 's Server" where
  "server_run asMap calls s = foldl (\<lambda>s c. server_exec asMap c s) s calls"

definition delivered :: "('p \<Rightarrow> data) \<Rightarrow> string \<Rightarrow> ('p, 's) server_call list \<Rightarrow> Message \<Rightarrow> bool" where
  "delivered asMap name calls m =
     (m_From m \<noteq> '''' \<and> m_To m = name \<and>
      (\<exists>peer pb. Deliver peer pb \<in> set calls \<and> FromProto asMap pb = Some m \<and> authentic peer m))"

definition server_inv :: "('p \<Rightarrow> data) \<Rightarrow> string \<Rightarrow> nat \<Rightarrow> ('p, 's) server_call list \<Rightarrow> 's Server \<Rightarrow> bool" where
  "server_inv asMap name n calls s =
     (srv_name s = name \<and> srv_bufferSize s = n \<and> length (srv_inbox s) \<le> n \<and> (\<forall>m \<in> set (srv_inbox s). delivered asMap name calls m))"

lemma SendMessage_inv:
  assumes "server_inv asMap name n calls s"
  shows "server_inv asMap name n (calls @ [Deliver peer pb]) (fst (SendMessage asMap peer pb s))"
proof -
  have mono: "delivered asMap name calls m \<Longrightarrow> delivered asMap name (calls @ [Deliver peer pb]) m" for m
    by (auto simp: delivered_def)
  show ?thesis
  proof (cases "snd (SendMessage asMap peer pb s) = Accepted")
    case True
    then obtain msg where m: "FromProto asMap pb = Some msg" "m_From msg \<noteq> ''''" "m_To msg = srv_name s"
      "verifyPeerIdentity peer (m_From msg) (m_Metadata msg) = None" "length (srv_inbox s) < srv_bufferSize s"
      "fst (SendMessage asMap peer pb s) = s\<lparr>srv_inbox := srv_inbox s @ [msg]\<rparr>"
      by (auto simp: SendMessage_def split: option.splits if_splits)
    then have "delivered asMap name (calls @ [Deliver peer pb]) msg"
      using assms verifyPeerIdentity_None by (auto simp: delivered_def server_inv_def)
    then show ?thesis using assms m mono by (auto simp: server_inv_def)
  next
    case False
    then have "fst (SendMessage asMap peer pb s) = s"
      by (auto simp: SendMessage_def split: option.splits if_splits)
    then show ?thesis using assms mono by (auto simp: server_inv_def)
  qed
qed

lemma server_exec_inv:
  assumes "server_inv asMap name n calls s"
  shows "server_inv asMap name n (calls @ [c]) (server_exec asMap c s)"
proof -
  have mono: "delivered asMap name calls m \<Longrightarrow> delivered asMap name (calls @ [c]) m" for m by (auto simp: delivered_def)
  show ?thesis
    using assms SendMessage_inv [of asMap name n calls s] mono
    by (cases c; cases "srv_inbox s") (auto simp: server_inv_def Inbox_recv_def SetStatus_def Server_Stop_def SetControlPlaneService_def)
qed

text \<open>
  Claim C21: over TLS no message reaches an agent under another's name. Whatever messages arrive over whatever
  connections, the inbox never exceeds its buffer, and every message in it is addressed to this agent, names its
  sender and came over a connection whose certificate speaks for that sender: the conductor of that name, an
  agent of that profile, or the node that hosts the instance named by the message; a certificate without a
  readable identity only for its common name.
\<close>

theorem inbox_authentic:
  "length (srv_inbox (server_run asMap calls (NewServer name n))) \<le> n \<and>
   (\<forall>m \<in> set (srv_inbox (server_run asMap calls (NewServer name n))). delivered asMap name calls m)"
proof -
  have "server_inv asMap name n calls (server_run asMap calls (NewServer name n))"
  proof (induction calls rule: rev_induct)
    case Nil
    show ?case by (simp add: server_run_def NewServer_def server_inv_def)
  next
    case (snoc c calls)
    then show ?case using server_exec_inv by (fastforce simp: server_run_def)
  qed
  then show ?thesis by (simp add: server_inv_def)
qed

definition demo_inbox_message :: "(string \<times> string) list \<Rightarrow> Message" where
  "demo_inbox_message metadata =
     \<lparr>m_ID = ''m1'', m_RequestID = ''r1'', m_From = ''dev'', m_To = ''conductor'', m_Type = TypeTaskResult, m_Parts = [TextPart ''hi''],
      m_Metadata = metadata, m_TokenUsage = None, m_Timestamp = unix_epoch + 5\<rparr>"

text \<open>A node delivers for the instance it hosts, then tries to for the instance of another node.\<close>

definition demo_deliveries :: "(data, unit) server_call list" where
  "demo_deliveries =
     map (\<lambda>inst. Deliver (TLSPeer [\<lparr>ct_CommonName = ''n1'', ct_URIs = [demo_node_uri]\<rparr>])
         (ToProto demo_new_struct (Some (demo_inbox_message [(''sender_node'', ''n1''), (''sender_instance'', inst)]))))
       [''n1/dev/1'', ''n2/dev/1'']"

theorem inbox_authentic_witness:
  "srv_inbox (server_run (\<lambda>x. x) demo_deliveries (NewServer ''conductor'' 8)) =
     [demo_inbox_message [(''sender_node'', ''n1''), (''sender_instance'', ''n1/dev/1'')]] \<and>
   delivered (\<lambda>x. x) ''conductor'' demo_deliveries (demo_inbox_message [(''sender_node'', ''n1''), (''sender_instance'', ''n1/dev/1'')])"
proof -
  have r: "srv_inbox (server_run (\<lambda>x. x) demo_deliveries (NewServer ''conductor'' 8)) =
     [demo_inbox_message [(''sender_node'', ''n1''), (''sender_instance'', ''n1/dev/1'')]]" by code_simp
  then have "delivered (\<lambda>x. x) ''conductor'' demo_deliveries (demo_inbox_message [(''sender_node'', ''n1''), (''sender_instance'', ''n1/dev/1'')])"
    using inbox_authentic [of "\<lambda>x. x" demo_deliveries "''conductor''" 8] by simp
  with r show ?thesis by blast
qed

end
