(* ===== verification/Etcd.thy ===== *)
theory Etcd
  imports Wire VerdictProps
begin

text \<open>
  The store in etcd (internal/controlplane/etcd.go). The key-value space is a map from keys to JSON texts, shared by all
  clients. A read takes the space as it is when the read is answered, or \<open>None\<close> for a failed call; a write
  takes what becomes of it. A transaction of package concurrency is run on snapshots until its commit finds nothing it
  read changed: the snapshots that lose are an argument, and the variables its closure assigns outlive them. The JSON
  of each record is a pair of functions.
\<close>

section \<open>Keys, values and calls\<close>

type_synonym kv = "(string, string) gomap"
type_synonym 'a json = "('a \<Rightarrow> string option) \<times> (string \<Rightarrow> 'a option)"

record codec =
  cd_attested :: "AttestedNodeRecord json"
  cd_leader :: "LeaderLease json"
  cd_node :: "Node json"
  cd_instance :: "AgentInstance json"
  cd_request :: "RequestRecord json"
  cd_task :: "TaskRecord json"
  cd_task_lease :: "TaskLease json"
  cd_profile_lease :: "ProfileLease json"

record EtcdStore =
  es_fabric :: string
  es_root :: string

datatype etcd_error =
    StoreRefused store_error | EtcdUnavailable | MarshalFailed | DecodeFailed string | BadInteger string
  | FabricRequired | EndpointsRequired | ClientFailed

definition NewEtcdStore :: "string \<Rightarrow> string list \<Rightarrow> bool \<Rightarrow> etcd_error + EtcdStore" where
  "NewEtcdStore fabric endpoints connects =
     (if trim_space fabric = '''' then Inl FabricRequired
      else if endpoints = [] then Inl EndpointsRequired
      else if \<not> connects then Inl ClientFailed
      else Inr \<lparr>es_fabric = fabric, es_root = path_join [''/agentfab/fabrics'', fabric]\<rparr>)"

definition etcd_key :: "EtcdStore \<Rightarrow> string list \<Rightarrow> string" where
  "etcd_key st parts = path_join (es_root st # parts)"

definition attestedNodeKey :: "EtcdStore \<Rightarrow> string \<Rightarrow> string" where "attestedNodeKey st nodeID = etcd_key st [''attested-nodes'', nodeID]"
definition leaderKey :: "EtcdStore \<Rightarrow> string" where "leaderKey st = etcd_key st [''leader'', ''current'']"
definition leaderEpochKey :: "EtcdStore \<Rightarrow> string" where "leaderEpochKey st = etcd_key st [''leader'', ''epoch'']"
definition nodePrefix :: "EtcdStore \<Rightarrow> string" where "nodePrefix st = etcd_key st [''nodes''] @ ''/''"
definition nodeKey :: "EtcdStore \<Rightarrow> string \<Rightarrow> string" where "nodeKey st nodeID = etcd_key st [''nodes'', nodeID]"
definition instancePrefix :: "EtcdStore \<Rightarrow> string" where "instancePrefix st = etcd_key st [''instances''] @ ''/''"
definition instanceKey :: "EtcdStore \<Rightarrow> string \<Rightarrow> string" where "instanceKey st inst = etcd_key st [''instances'', inst]"
definition requestPrefix :: "EtcdStore \<Rightarrow> string" where "requestPrefix st = etcd_key st [''requests''] @ ''/''"
definition requestKey :: "EtcdStore \<Rightarrow> string \<Rightarrow> string" where "requestKey st req = etcd_key st [''requests'', req]"
definition taskPrefix :: "EtcdStore \<Rightarrow> string \<Rightarrow> string" where "taskPrefix st req = etcd_key st [''tasks'', req] @ ''/''"
definition taskKey :: "EtcdStore \<Rightarrow> string \<Rightarrow> string \<Rightarrow> string" where "taskKey st req task = etcd_key st [''tasks'', req, task]"
definition taskLeaseKey :: "EtcdStore \<Rightarrow> string \<Rightarrow> string \<Rightarrow> string" where
  "taskLeaseKey st req task = etcd_key st [''task_leases'', req, task]"
definition taskLeaseEpochKey :: "EtcdStore \<Rightarrow> string \<Rightarrow> string \<Rightarrow> string" where
  "taskLeaseEpochKey st req task = etcd_key st [''task_lease_epochs'', req, task]"
definition profileLeaseKey :: "EtcdStore \<Rightarrow> string \<Rightarrow> string" where "profileLeaseKey st p = etcd_key st [''profile_leases'', p]"
definition profileLeaseEpochKey :: "EtcdStore \<Rightarrow> string \<Rightarrow> string" where
  "profileLeaseEpochKey st p = etcd_key st [''profile_lease_epochs'', p]"

text \<open>What becomes of a write: it is applied and answered, applied with the answer lost, or not applied.\<close>

datatype outcome = Applied | Unanswered | NotApplied

type_synonym 'r answer = "etcd_error + 'r"

definition put_call :: "outcome \<Rightarrow> (kv \<Rightarrow> kv) \<Rightarrow> kv \<Rightarrow> kv \<times> unit answer" where
  "put_call out f s =
     (case out of Applied \<Rightarrow> (f s, Inr ()) | Unanswered \<Rightarrow> (f s, Inl EtcdUnavailable) | NotApplied \<Rightarrow> (s, Inl EtcdUnavailable))"

definition putJSON :: "'a json \<Rightarrow> outcome \<Rightarrow> string \<Rightarrow> 'a \<Rightarrow> kv \<Rightarrow> kv \<times> unit answer" where
  "putJSON j out k v s =
     (case fst j v of None \<Rightarrow> (s, Inl MarshalFailed) | Some data \<Rightarrow> put_call out (mput k data) s)"

definition getJSONValue :: "'a json \<Rightarrow> string \<Rightarrow> kv option \<Rightarrow> 'a option answer" where
  "getJSONValue j k view =
     (case view of
        None \<Rightarrow> Inl EtcdUnavailable
      | Some s \<Rightarrow>
          (case mget s k of
             None \<Rightarrow> Inr None
           | Some data \<Rightarrow> (case snd j data of None \<Rightarrow> Inl (DecodeFailed k) | Some v \<Rightarrow> Inr (Some v))))"

text \<open>A read of all keys with a prefix, in the order of the keys, every value decoded.\<close>

fun decode_all :: "'a json \<Rightarrow> (string \<times> string) list \<Rightarrow> 'a list answer" where
  "decode_all j [] = Inr []"
| "decode_all j ((k, data) # kvs) =
     (case snd j data of
        None \<Rightarrow> Inl (DecodeFailed k)
      | Some v \<Rightarrow> (case decode_all j kvs of Inl e \<Rightarrow> Inl e | Inr vs \<Rightarrow> Inr (v # vs)))"

definition getPrefix :: "'a json \<Rightarrow> string \<Rightarrow> kv option \<Rightarrow> 'a list answer" where
  "getPrefix j pre view =
     (case view of
        None \<Rightarrow> Inl EtcdUnavailable
      | Some s \<Rightarrow> decode_all j (sort_key fst (filter (\<lambda>(k, _). has_prefix k pre) s)))"

section \<open>Transactions\<close>

text \<open>
  The closure takes its variables and a snapshot; it returns its variables and an error, which ends the transaction, or
  the space with its writes. \<open>conflicts\<close> are the snapshots of the attempts whose commit was etcd_checked.
\<close>

fun NewSTM :: "('v \<Rightarrow> kv \<Rightarrow> 'v \<times> kv answer) \<Rightarrow> kv list \<times> outcome \<Rightarrow> 'v \<Rightarrow> kv \<Rightarrow> kv \<times> 'v answer" where
  "NewSTM body (seen # conflicts, out) v s =
     (case body v seen of (v', Inl e) \<Rightarrow> (s, Inl e) | (v', Inr _) \<Rightarrow> NewSTM body (conflicts, out) v' s)"
| "NewSTM body ([], out) v s =
     (case body v s of
        (v', Inl e) \<Rightarrow> (s, Inl e)
      | (v', Inr s') \<Rightarrow> (case put_call out (\<lambda>_. s') s of (s'', Inl e) \<Rightarrow> (s'', Inl e) | (s'', Inr _) \<Rightarrow> (s'', Inr v')))"

definition stm_get :: "string \<Rightarrow> kv \<Rightarrow> string" where
  "stm_get k s = mget0 '''' s k"

definition fromSTM :: "'a json \<Rightarrow> string \<Rightarrow> kv \<Rightarrow> 'a option answer" where
  "fromSTM j k s =
     (if stm_get k s = '''' then Inr None
      else case snd j (stm_get k s) of None \<Rightarrow> Inl (DecodeFailed k) | Some v \<Rightarrow> Inr (Some v))"

definition putJSONSTM :: "'a json \<Rightarrow> string \<Rightarrow> 'a \<Rightarrow> kv \<Rightarrow> kv answer" where
  "putJSONSTM j k v s = (case fst j v of None \<Rightarrow> Inl MarshalFailed | Some data \<Rightarrow> Inr (mput k data s))"

definition leaderFromSTM :: "codec \<Rightarrow> EtcdStore \<Rightarrow> kv \<Rightarrow> LeaderLease option answer" where
  "leaderFromSTM c st = fromSTM (cd_leader c) (leaderKey st)"

definition nodeFromSTM :: "codec \<Rightarrow> string \<Rightarrow> kv \<Rightarrow> Node option answer" where "nodeFromSTM c = fromSTM (cd_node c)"
definition instanceFromSTM :: "codec \<Rightarrow> string \<Rightarrow> kv \<Rightarrow> AgentInstance option answer" where "instanceFromSTM c = fromSTM (cd_instance c)"
definition taskLeaseFromSTM :: "codec \<Rightarrow> string \<Rightarrow> kv \<Rightarrow> TaskLease option answer" where "taskLeaseFromSTM c = fromSTM (cd_task_lease c)"
definition profileLeaseFromSTM :: "codec \<Rightarrow> string \<Rightarrow> kv \<Rightarrow> ProfileLease option answer" where
  "profileLeaseFromSTM c = fromSTM (cd_profile_lease c)"

text \<open>\<open>strconv.ParseInt\<close> and \<open>FormatInt\<close> in base 10.\<close>

fun digits_value :: "nat \<Rightarrow> string \<Rightarrow> nat option" where
  "digits_value acc [] = Some acc"
| "digits_value acc (ch # cs) =
     (if 48 \<le> (of_char ch :: nat) \<and> of_char ch \<le> (57 :: nat) then digits_value (acc * 10 + (of_char ch - 48)) cs else None)"

definition ParseInt :: "string \<Rightarrow> int option" where
  "ParseInt s =
     (case s of
        [] \<Rightarrow> None
      | ch # cs \<Rightarrow>
          if ch = CHR ''-'' then (if cs = [] then None else map_option (\<lambda>n. - int n) (digits_value 0 cs))
          else if ch = CHR ''+'' then (if cs = [] then None else map_option int (digits_value 0 cs))
          else map_option int (digits_value 0 s))"

definition int64FromSTM :: "string \<Rightarrow> kv \<Rightarrow> int answer" where
  "int64FromSTM k s =
     (if stm_get k s = '''' then Inr 0 else case ParseInt (stm_get k s) of None \<Rightarrow> Inl (BadInteger k) | Some n \<Rightarrow> Inr n)"

definition etcd_checked :: "store_error option \<Rightarrow> (kv \<Rightarrow> kv \<times> 'r answer) \<Rightarrow> kv \<Rightarrow> kv \<times> 'r answer" where
  "etcd_checked e f s = (case e of Some err \<Rightarrow> (s, Inl (StoreRefused err)) | None \<Rightarrow> f s)"

section \<open>Attested nodes\<close>

definition Etcd_UpsertAttestedNode :: "codec \<Rightarrow> EtcdStore \<Rightarrow> outcome \<Rightarrow> AttestedNodeRecord \<Rightarrow> kv \<Rightarrow> kv \<times> unit answer" where
  "Etcd_UpsertAttestedNode c st out record =
     etcd_checked (guard (an_NodeID record = '''') (IDRequired ''attested node ID''))
       (putJSON (cd_attested c) out (attestedNodeKey st (an_NodeID record)) record)"

definition Etcd_GetAttestedNode :: "codec \<Rightarrow> EtcdStore \<Rightarrow> string \<Rightarrow> kv option \<Rightarrow> AttestedNodeRecord option answer" where
  "Etcd_GetAttestedNode c st nodeID view = getJSONValue (cd_attested c) (attestedNodeKey st nodeID) view"

section \<open>The leader lease\<close>

definition leader_txn :: "codec \<Rightarrow> EtcdStore \<Rightarrow> time \<Rightarrow> string \<Rightarrow> string \<Rightarrow> int \<Rightarrow> LeaderLease \<times> bool \<Rightarrow> kv \<Rightarrow> (LeaderLease \<times> bool) \<times> kv answer" where
  "leader_txn c st now candidateID candidateAddress ttl v stm =
     (case leaderFromSTM c st stm of
        Inl e \<Rightarrow> (v, Inl e)
      | Inr current \<Rightarrow>
          if (case current of Some cur \<Rightarrow> ll_ExpiresAt cur > now \<and> ll_HolderID cur \<noteq> candidateID | None \<Rightarrow> False)
          then ((the current, snd v), Inr stm)
          else
            (case int64FromSTM (leaderEpochKey st) stm of
               Inl e \<Rightarrow> (v, Inl e)
             | Inr e0 \<Rightarrow>
                 (let epoch = e0 + 1;
                      lease = \<lparr>ll_Fabric = es_fabric st, ll_HolderID = candidateID, ll_HolderAddress = candidateAddress,
                        ll_Epoch = epoch, ll_AcquiredAt = now, ll_LastHeartbeatAt = now, ll_ExpiresAt = now + ttl\<rparr>
                  in case putJSONSTM (cd_leader c) (leaderKey st) lease stm of
                       Inl e \<Rightarrow> ((lease, snd v), Inl e)
                     | Inr stm' \<Rightarrow> ((lease, True), Inr (mput (leaderEpochKey st) (json_int epoch) stm')))))"

definition Etcd_AcquireLeader :: "codec \<Rightarrow> EtcdStore \<Rightarrow> time \<Rightarrow> kv list \<times> outcome \<Rightarrow> string \<Rightarrow> string \<Rightarrow> int \<Rightarrow> kv \<Rightarrow>
    kv \<times> (LeaderLease \<times> bool) answer" where
  "Etcd_AcquireLeader c st now io candidateID candidateAddress ttl =
     etcd_checked (leader_checks candidateID ttl)
       (NewSTM (leader_txn c st now candidateID candidateAddress ttl) io (zero_leader, False))"

definition renew_leader_txn :: "codec \<Rightarrow> EtcdStore \<Rightarrow> time \<Rightarrow> LeaderLease \<Rightarrow> int \<Rightarrow> LeaderLease \<Rightarrow> kv \<Rightarrow> LeaderLease \<times> kv answer" where
  "renew_leader_txn c st now lease ttl v stm =
     (case leaderFromSTM c st stm of
        Inl e \<Rightarrow> (v, Inl e)
      | Inr None \<Rightarrow> (v, Inl (StoreRefused NoLeaderLease))
      | Inr (Some cur) \<Rightarrow>
          if ll_HolderID cur \<noteq> ll_HolderID lease \<or> ll_Epoch cur \<noteq> ll_Epoch lease
          then (v, Inl (StoreRefused (NotOwned (ll_HolderID lease))))
          else if ll_ExpiresAt cur < now then (v, Inl (StoreRefused LeaseExpired))
          else
            (let cur' = cur\<lparr>ll_LastHeartbeatAt := now, ll_ExpiresAt := now + ttl\<rparr>
             in case putJSONSTM (cd_leader c) (leaderKey st) cur' stm of Inl e \<Rightarrow> (v, Inl e) | Inr stm' \<Rightarrow> (cur', Inr stm')))"

definition Etcd_RenewLeader :: "codec \<Rightarrow> EtcdStore \<Rightarrow> time \<Rightarrow> kv list \<times> outcome \<Rightarrow> LeaderLease \<Rightarrow> int \<Rightarrow> kv \<Rightarrow> kv \<times> LeaderLease answer" where
  "Etcd_RenewLeader c st now io lease ttl =
     etcd_checked (guard (ttl \<le> 0) TTLNotPositive) (NewSTM (renew_leader_txn c st now lease ttl) io zero_leader)"

definition Etcd_GetLeader :: "codec \<Rightarrow> EtcdStore \<Rightarrow> time \<Rightarrow> kv option \<Rightarrow> LeaderLease option answer" where
  "Etcd_GetLeader c st now view =
     (case getJSONValue (cd_leader c) (leaderKey st) view of
        Inr (Some lease) \<Rightarrow> if ll_ExpiresAt lease < now then Inr None else Inr (Some lease)
      | r \<Rightarrow> r)"

definition release_leader_txn :: "codec \<Rightarrow> EtcdStore \<Rightarrow> LeaderLease \<Rightarrow> unit \<Rightarrow> kv \<Rightarrow> unit \<times> kv answer" where
  "release_leader_txn c st lease v stm =
     (case leaderFromSTM c st stm of
        Inl e \<Rightarrow> (v, Inl e)
      | Inr None \<Rightarrow> (v, Inr stm)
      | Inr (Some cur) \<Rightarrow>
          if ll_HolderID cur \<noteq> ll_HolderID lease \<or> ll_Epoch cur \<noteq> ll_Epoch lease then (v, Inr stm)
          else (v, Inr (mdel (leaderKey st) stm)))"

definition Etcd_ReleaseLeader :: "codec \<Rightarrow> EtcdStore \<Rightarrow> kv list \<times> outcome \<Rightarrow> LeaderLease \<Rightarrow> kv \<Rightarrow> kv \<times> unit answer" where
  "Etcd_ReleaseLeader c st io lease = NewSTM (release_leader_txn c st lease) io ()"

section \<open>Nodes\<close>

definition Etcd_RegisterNode :: "codec \<Rightarrow> EtcdStore \<Rightarrow> time \<Rightarrow> outcome \<Rightarrow> Node \<Rightarrow> kv \<Rightarrow> kv \<times> unit answer" where
  "Etcd_RegisterNode c st now out node =
     etcd_checked (guard (nd_ID node = '''') (IDRequired ''node ID''))
       (putJSON (cd_node c) out (nodeKey st (nd_ID node)) (node_defaults now node))"

definition heartbeat_node_txn :: "codec \<Rightarrow> EtcdStore \<Rightarrow> string \<Rightarrow> time \<Rightarrow> unit \<Rightarrow> kv \<Rightarrow> unit \<times> kv answer" where
  "heartbeat_node_txn c st nodeID at_time v stm =
     (case nodeFromSTM c (nodeKey st nodeID) stm of
        Inl e \<Rightarrow> (v, Inl e)
      | Inr None \<Rightarrow> (v, Inl (StoreRefused (NodeNotFound nodeID)))
      | Inr (Some node) \<Rightarrow> (v, putJSONSTM (cd_node c) (nodeKey st nodeID) (revive_node at_time node) stm))"

definition Etcd_HeartbeatNode :: "codec \<Rightarrow> EtcdStore \<Rightarrow> time \<Rightarrow> kv list \<times> outcome \<Rightarrow> string \<Rightarrow> time \<Rightarrow> kv \<Rightarrow> kv \<times> unit answer" where
  "Etcd_HeartbeatNode c st now io nodeID at_time =
     etcd_checked (guard (nodeID = '''') (IDRequired ''node ID''))
       (NewSTM (heartbeat_node_txn c st nodeID (if at_time = 0 then now else at_time)) io ())"

definition normalizeSingleNode :: "time \<Rightarrow> Node \<Rightarrow> Node" where
  "normalizeSingleNode now node = (if nodeHeartbeatExpired node now then node\<lparr>nd_State := NodeStateUnavailable\<rparr> else node)"

text \<open>The liveness pass \<open>GetNode\<close> makes first works on a map of its own and leaves no trace.\<close>

definition Etcd_GetNode :: "codec \<Rightarrow> EtcdStore \<Rightarrow> time \<Rightarrow> string \<Rightarrow> kv option \<Rightarrow> Node option answer" where
  "Etcd_GetNode c st now nodeID view =
     (case getJSONValue (cd_node c) (nodeKey st nodeID) view of Inr (Some node) \<Rightarrow> Inr (Some (normalizeSingleNode now node)) | r \<Rightarrow> r)"

definition listNodes :: "codec \<Rightarrow> EtcdStore \<Rightarrow> kv option \<Rightarrow> Node list answer" where
  "listNodes c st view = getPrefix (cd_node c) (nodePrefix st) view"

definition listInstances :: "codec \<Rightarrow> EtcdStore \<Rightarrow> InstanceFilter \<Rightarrow> kv option \<Rightarrow> AgentInstance list answer" where
  "listInstances c st flt view =
     (case getPrefix (cd_instance c) (instancePrefix st) view of
        Inl e \<Rightarrow> Inl e
      | Inr insts \<Rightarrow>
          Inr (filter (\<lambda>i. \<not> (if_Profile flt \<noteq> '''' \<and> in_Profile i \<noteq> if_Profile flt) \<and>
            \<not> (if_NodeID flt \<noteq> '''' \<and> in_NodeID i \<noteq> if_NodeID flt)) insts))"

definition no_filter :: InstanceFilter where
  "no_filter = \<lparr>if_Profile = '''', if_NodeID = '''', if_State = InstanceStateUnset\<rparr>"

definition Etcd_ListNodes :: "codec \<Rightarrow> EtcdStore \<Rightarrow> time \<Rightarrow> kv option \<Rightarrow> kv option \<Rightarrow> Node list answer" where
  "Etcd_ListNodes c st now view1 view2 =
     (case listNodes c st view1 of
        Inl e \<Rightarrow> Inl e
      | Inr nodes \<Rightarrow>
          (case listInstances c st no_filter view2 of
             Inl e \<Rightarrow> Inl e
           | Inr insts \<Rightarrow>
               (let nodeMap = foldl (\<lambda>m n. mput (nd_ID n) n m) [] nodes;
                    instanceMap = foldl (\<lambda>m i. mput (in_ID i) i m) [] insts
                in Inr (sort_slice (\<lambda>x y. nd_ID x < nd_ID y) (mvals (fst (normalizeMembershipLiveness nodeMap instanceMap now)))))))"

section \<open>Instances\<close>

definition Etcd_RegisterInstance :: "codec \<Rightarrow> EtcdStore \<Rightarrow> time \<Rightarrow> outcome \<Rightarrow> AgentInstance \<Rightarrow> kv \<Rightarrow> kv \<times> unit answer" where
  "Etcd_RegisterInstance c st now out inst =
     etcd_checked (instance_checks inst) (putJSON (cd_instance c) out (instanceKey st (in_ID inst)) (instance_defaults now inst))"

definition heartbeat_instance_txn :: "codec \<Rightarrow> EtcdStore \<Rightarrow> string \<Rightarrow> time \<Rightarrow> unit \<Rightarrow> kv \<Rightarrow> unit \<times> kv answer" where
  "heartbeat_instance_txn c st instanceID at_time v stm =
     (case instanceFromSTM c (instanceKey st instanceID) stm of
        Inl e \<Rightarrow> (v, Inl e)
      | Inr None \<Rightarrow> (v, Inl (StoreRefused (InstanceNotFound instanceID)))
      | Inr (Some inst) \<Rightarrow> (v, putJSONSTM (cd_instance c) (instanceKey st instanceID) (revive_instance at_time inst) stm))"

definition Etcd_HeartbeatInstance :: "codec \<Rightarrow> EtcdStore \<Rightarrow> time \<Rightarrow> kv list \<times> outcome \<Rightarrow> string \<Rightarrow> time \<Rightarrow> kv \<Rightarrow> kv \<times> unit answer" where
  "Etcd_HeartbeatInstance c st now io instanceID at_time =
     etcd_checked (guard (instanceID = '''') (IDRequired ''instance ID''))
       (NewSTM (heartbeat_instance_txn c st instanceID (if at_time = 0 then now else at_time)) io ())"

definition Etcd_GetInstance :: "codec \<Rightarrow> EtcdStore \<Rightarrow> time \<Rightarrow> time \<Rightarrow> string \<Rightarrow> kv option \<Rightarrow> kv option \<Rightarrow> AgentInstance option answer" where
  "Etcd_GetInstance c st now1 now2 instanceID view1 view2 =
     (case getJSONValue (cd_instance c) (instanceKey st instanceID) view1 of
        Inr (Some inst) \<Rightarrow>
          (case Etcd_GetNode c st now1 (in_NodeID inst) view2 of
             Inl e \<Rightarrow> Inl e
           | Inr node \<Rightarrow>
               Inr (Some (if instanceHeartbeatExpired inst node now2 then inst\<lparr>in_State := InstanceStateUnavailable\<rparr> else inst)))
      | r \<Rightarrow> r)"

definition Etcd_ListInstances :: "codec \<Rightarrow> EtcdStore \<Rightarrow> time \<Rightarrow> time \<Rightarrow> InstanceFilter \<Rightarrow> kv option \<Rightarrow> kv option \<Rightarrow> kv option \<Rightarrow>
    AgentInstance list answer" where
  "Etcd_ListInstances c st now1 now2 flt view1 view2 view3 =
     (case listInstances c st flt view1 of
        Inl e \<Rightarrow> Inl e
      | Inr insts \<Rightarrow>
          (case Etcd_ListNodes c st now1 view2 view3 of
             Inl e \<Rightarrow> Inl e
           | Inr nodes \<Rightarrow>
               (let nodeMap = foldl (\<lambda>m n. mput (nd_ID n) n m) [] nodes
                in Inr (sort_slice (\<lambda>x y. in_ID x < in_ID y)
                     (filter (\<lambda>i. \<not> (if_State flt \<noteq> InstanceStateUnset \<and> in_State i \<noteq> if_State flt))
                       (map (live_instance now2 nodeMap) insts))))))"

definition Etcd_RemoveInstance :: "EtcdStore \<Rightarrow> outcome \<Rightarrow> string \<Rightarrow> kv \<Rightarrow> kv \<times> unit answer" where
  "Etcd_RemoveInstance st out instanceID = put_call out (mdel (instanceKey st instanceID))"

section \<open>Requests and tasks\<close>

definition Etcd_GetRequest :: "codec \<Rightarrow> EtcdStore \<Rightarrow> string \<Rightarrow> kv option \<Rightarrow> RequestRecord option answer" where
  "Etcd_GetRequest c st requestID view = getJSONValue (cd_request c) (requestKey st requestID) view"

text \<open>Not a transaction: the record is read first and written later.\<close>

definition Etcd_UpsertRequest :: "codec \<Rightarrow> EtcdStore \<Rightarrow> time \<Rightarrow> kv option \<Rightarrow> outcome \<Rightarrow> RequestRecord \<Rightarrow> kv \<Rightarrow> kv \<times> unit answer" where
  "Etcd_UpsertRequest c st now view out request =
     etcd_checked (guard (rq_ID request = '''') (IDRequired ''request ID'')) (\<lambda>s.
       (case Etcd_GetRequest c st (rq_ID request) view of
          Inl e \<Rightarrow> (s, Inl e)
        | Inr current \<Rightarrow>
            (let r1 = (if rq_CreatedAt request = 0
                then request\<lparr>rq_CreatedAt := (case current of Some cur \<Rightarrow> rq_CreatedAt cur | None \<Rightarrow> now)\<rparr> else request)
             in putJSON (cd_request c) out (requestKey st (rq_ID request)) (r1\<lparr>rq_UpdatedAt := now\<rparr>) s)))"

definition Etcd_ListRequests :: "codec \<Rightarrow> EtcdStore \<Rightarrow> kv option \<Rightarrow> RequestRecord list answer" where
  "Etcd_ListRequests c st view =
     (case getPrefix (cd_request c) (requestPrefix st) view of
        Inl e \<Rightarrow> Inl e | Inr rs \<Rightarrow> Inr (sort_slice (\<lambda>x y. rq_ID x < rq_ID y) rs))"

definition Etcd_UpsertTask :: "codec \<Rightarrow> EtcdStore \<Rightarrow> time \<Rightarrow> outcome \<Rightarrow> TaskRecord \<Rightarrow> kv \<Rightarrow> kv \<times> unit answer" where
  "Etcd_UpsertTask c st now out task =
     etcd_checked (task_checks task)
       (putJSON (cd_task c) out (taskKey st (tk_RequestID task) (tk_TaskID task)) (task\<lparr>tk_UpdatedAt := now\<rparr>))"

definition Etcd_ListTasks :: "codec \<Rightarrow> EtcdStore \<Rightarrow> string \<Rightarrow> kv option \<Rightarrow> TaskRecord list answer" where
  "Etcd_ListTasks c st requestID view =
     (case getPrefix (cd_task c) (taskPrefix st requestID) view of
        Inl e \<Rightarrow> Inl e | Inr ts \<Rightarrow> Inr (sort_slice (\<lambda>x y. tk_TaskID x < tk_TaskID y) ts))"

section \<open>Task leases\<close>

text \<open>The closure assigns \<open>lease\<close>, the parameter it also compares with: the variables are the lease and \<open>acquired\<close>.\<close>

definition task_lease_txn :: "codec \<Rightarrow> EtcdStore \<Rightarrow> time \<Rightarrow> int \<Rightarrow> TaskLease \<times> bool \<Rightarrow> kv \<Rightarrow> (TaskLease \<times> bool) \<times> kv answer" where
  "task_lease_txn c st now ttl v stm =
     (let lease = fst v; k = taskLeaseKey st (tl_RequestID lease) (tl_TaskID lease); ke = taskLeaseEpochKey st (tl_RequestID lease) (tl_TaskID lease)
      in case taskLeaseFromSTM c k stm of
           Inl e \<Rightarrow> (v, Inl e)
         | Inr current \<Rightarrow>
             if (case current of Some cur \<Rightarrow> tl_ExpiresAt cur > now \<and> tl_OwnerID cur \<noteq> tl_OwnerID lease | None \<Rightarrow> False)
             then ((the current, snd v), Inr stm)
             else
               (case int64FromSTM ke stm of
                  Inl e \<Rightarrow> (v, Inl e)
                | Inr e0 \<Rightarrow>
                    (let lease' = lease\<lparr>tl_Epoch := e0 + 1, tl_AcquiredAt := now, tl_LastHeartbeatAt := now, tl_ExpiresAt := now + ttl\<rparr>
                     in case putJSONSTM (cd_task_lease c) k lease' stm of
                          Inl e \<Rightarrow> ((lease', snd v), Inl e)
                        | Inr stm' \<Rightarrow> ((lease', True), Inr (mput ke (json_int (e0 + 1)) stm')))))"

definition Etcd_AcquireTaskLease :: "codec \<Rightarrow> EtcdStore \<Rightarrow> time \<Rightarrow> kv list \<times> outcome \<Rightarrow> TaskLease \<Rightarrow> int \<Rightarrow> kv \<Rightarrow> kv \<times> (TaskLease \<times> bool) answer" where
  "Etcd_AcquireTaskLease c st now io lease ttl =
     etcd_checked (task_lease_checks lease ttl) (NewSTM (task_lease_txn c st now ttl) io (lease, False))"

definition renew_task_lease_txn :: "codec \<Rightarrow> EtcdStore \<Rightarrow> time \<Rightarrow> TaskLease \<Rightarrow> int \<Rightarrow> TaskLease \<Rightarrow> kv \<Rightarrow> TaskLease \<times> kv answer" where
  "renew_task_lease_txn c st now lease ttl v stm =
     (let k = taskLeaseKey st (tl_RequestID lease) (tl_TaskID lease)
      in case taskLeaseFromSTM c k stm of
           Inl e \<Rightarrow> (v, Inl e)
         | Inr None \<Rightarrow> (v, Inl (StoreRefused (TaskLeaseNotFound (tl_TaskID lease))))
         | Inr (Some cur) \<Rightarrow>
             if tl_OwnerID cur \<noteq> tl_OwnerID lease \<or> tl_Epoch cur \<noteq> tl_Epoch lease
             then (v, Inl (StoreRefused (NotOwned (tl_OwnerID lease))))
             else if tl_ExpiresAt cur < now then (v, Inl (StoreRefused LeaseExpired))
             else
               (let cur' = cur\<lparr>tl_LastHeartbeatAt := now, tl_ExpiresAt := now + ttl\<rparr>
                in case putJSONSTM (cd_task_lease c) k cur' stm of Inl e \<Rightarrow> (v, Inl e) | Inr stm' \<Rightarrow> (cur', Inr stm')))"

definition Etcd_RenewTaskLease :: "codec \<Rightarrow> EtcdStore \<Rightarrow> time \<Rightarrow> kv list \<times> outcome \<Rightarrow> TaskLease \<Rightarrow> int \<Rightarrow> kv \<Rightarrow> kv \<times> TaskLease answer" where
  "Etcd_RenewTaskLease c st now io lease ttl =
     etcd_checked (guard (ttl \<le> 0) TTLNotPositive) (NewSTM (renew_task_lease_txn c st now lease ttl) io zero_task_lease)"

definition Etcd_GetTaskLease :: "codec \<Rightarrow> EtcdStore \<Rightarrow> time \<Rightarrow> string \<Rightarrow> string \<Rightarrow> kv option \<Rightarrow> TaskLease option answer" where
  "Etcd_GetTaskLease c st now requestID taskID view =
     (case getJSONValue (cd_task_lease c) (taskLeaseKey st requestID taskID) view of
        Inr (Some lease) \<Rightarrow> if tl_ExpiresAt lease < now then Inr None else Inr (Some lease)
      | r \<Rightarrow> r)"

definition release_task_lease_txn :: "codec \<Rightarrow> EtcdStore \<Rightarrow> TaskLease \<Rightarrow> unit \<Rightarrow> kv \<Rightarrow> unit \<times> kv answer" where
  "release_task_lease_txn c st lease v stm =
     (let k = taskLeaseKey st (tl_RequestID lease) (tl_TaskID lease)
      in case taskLeaseFromSTM c k stm of
           Inl e \<Rightarrow> (v, Inl e)
         | Inr None \<Rightarrow> (v, Inr stm)
         | Inr (Some cur) \<Rightarrow>
             if tl_OwnerID cur \<noteq> tl_OwnerID lease \<or> tl_Epoch cur \<noteq> tl_Epoch lease then (v, Inr stm) else (v, Inr (mdel k stm)))"

definition Etcd_ReleaseTaskLease :: "codec \<Rightarrow> EtcdStore \<Rightarrow> kv list \<times> outcome \<Rightarrow> TaskLease \<Rightarrow> kv \<Rightarrow> kv \<times> unit answer" where
  "Etcd_ReleaseTaskLease c st io lease = NewSTM (release_task_lease_txn c st lease) io ()"

section \<open>Profile leases\<close>

definition profile_lease_txn :: "codec \<Rightarrow> EtcdStore \<Rightarrow> time \<Rightarrow> int \<Rightarrow> ProfileLease \<times> bool \<Rightarrow> kv \<Rightarrow> (ProfileLease \<times> bool) \<times> kv answer" where
  "profile_lease_txn c st now ttl v stm =
     (let lease = fst v; k = profileLeaseKey st (pl_Profile lease); ke = profileLeaseEpochKey st (pl_Profile lease)
      in case profileLeaseFromSTM c k stm of
           Inl e \<Rightarrow> (v, Inl e)
         | Inr current \<Rightarrow>
             if (case current of Some cur \<Rightarrow> pl_ExpiresAt cur > now | None \<Rightarrow> False)
             then
               (let cur = the current
                in if pl_OwnerID cur = pl_OwnerID lease \<and> pl_AssignedInstance cur = pl_AssignedInstance lease
                   then
                     (let cur' = cur\<lparr>pl_LastHeartbeatAt := now, pl_ExpiresAt := now + ttl\<rparr>
                      in case putJSONSTM (cd_profile_lease c) k cur' stm of Inl e \<Rightarrow> (v, Inl e) | Inr stm' \<Rightarrow> ((cur', True), Inr stm'))
                   else ((cur, snd v), Inr stm))
             else
               (case int64FromSTM ke stm of
                  Inl e \<Rightarrow> (v, Inl e)
                | Inr e0 \<Rightarrow>
                    (let lease' = lease\<lparr>pl_Epoch := e0 + 1, pl_AcquiredAt := now, pl_LastHeartbeatAt := now, pl_ExpiresAt := now + ttl\<rparr>
                     in case putJSONSTM (cd_profile_lease c) k lease' stm of
                          Inl e \<Rightarrow> ((lease', snd v), Inl e)
                        | Inr stm' \<Rightarrow> ((lease', True), Inr (mput ke (json_int (e0 + 1)) stm')))))"

definition Etcd_AcquireProfileLease :: "codec \<Rightarrow> EtcdStore \<Rightarrow> time \<Rightarrow> kv list \<times> outcome \<Rightarrow> ProfileLease \<Rightarrow> int \<Rightarrow> kv \<Rightarrow>
    kv \<times> (ProfileLease \<times> bool) answer" where
  "Etcd_AcquireProfileLease c st now io lease ttl =
     etcd_checked (profile_lease_checks lease ttl) (NewSTM (profile_lease_txn c st now ttl) io (lease, False))"

definition renew_profile_lease_txn :: "codec \<Rightarrow> EtcdStore \<Rightarrow> time \<Rightarrow> ProfileLease \<Rightarrow> int \<Rightarrow> ProfileLease \<Rightarrow> kv \<Rightarrow> ProfileLease \<times> kv answer" where
  "renew_profile_lease_txn c st now lease ttl v stm =
     (case profileLeaseFromSTM c (profileLeaseKey st (pl_Profile lease)) stm of
        Inl e \<Rightarrow> (v, Inl e)
      | Inr None \<Rightarrow> (v, Inl (StoreRefused (ProfileLeaseNotFound (pl_Profile lease))))
      | Inr (Some cur) \<Rightarrow>
          if \<not> same_profile_lease cur lease then (v, Inl (StoreRefused (NotOwned (pl_OwnerID lease))))
          else if pl_ExpiresAt cur < now then (v, Inl (StoreRefused LeaseExpired))
          else
            (let cur' = cur\<lparr>pl_LastHeartbeatAt := now, pl_ExpiresAt := now + ttl\<rparr>
             in case putJSONSTM (cd_profile_lease c) (profileLeaseKey st (pl_Profile lease)) cur' stm of
                  Inl e \<Rightarrow> (v, Inl e) | Inr stm' \<Rightarrow> (cur', Inr stm')))"

definition Etcd_RenewProfileLease :: "codec \<Rightarrow> EtcdStore \<Rightarrow> time \<Rightarrow> kv list \<times> outcome \<Rightarrow> ProfileLease \<Rightarrow> int \<Rightarrow> kv \<Rightarrow> kv \<times> ProfileLease answer" where
  "Etcd_RenewProfileLease c st now io lease ttl =
     etcd_checked (guard (ttl \<le> 0) TTLNotPositive) (NewSTM (renew_profile_lease_txn c st now lease ttl) io zero_profile_lease)"

definition Etcd_GetProfileLease :: "codec \<Rightarrow> EtcdStore \<Rightarrow> time \<Rightarrow> string \<Rightarrow> kv option \<Rightarrow> ProfileLease option answer" where
  "Etcd_GetProfileLease c st now profile view =
     (case getJSONValue (cd_profile_lease c) (profileLeaseKey st profile) view of
        Inr (Some lease) \<Rightarrow> if pl_ExpiresAt lease < now then Inr None else Inr (Some lease)
      | r \<Rightarrow> r)"

definition release_profile_lease_txn :: "codec \<Rightarrow> EtcdStore \<Rightarrow> ProfileLease \<Rightarrow> unit \<Rightarrow> kv \<Rightarrow> unit \<times> kv answer" where
  "release_profile_lease_txn c st lease v stm =
     (case profileLeaseFromSTM c (profileLeaseKey st (pl_Profile lease)) stm of
        Inl e \<Rightarrow> (v, Inl e)
      | Inr None \<Rightarrow> (v, Inr stm)
      | Inr (Some cur) \<Rightarrow>
          if \<not> same_profile_lease cur lease then (v, Inr stm) else (v, Inr (mdel (profileLeaseKey st (pl_Profile lease)) stm)))"

definition Etcd_ReleaseProfileLease :: "codec \<Rightarrow> EtcdStore \<Rightarrow> kv list \<times> outcome \<Rightarrow> ProfileLease \<Rightarrow> kv \<Rightarrow> kv \<times> unit answer" where
  "Etcd_ReleaseProfileLease c st io lease = NewSTM (release_profile_lease_txn c st lease) io ()"

section \<open>Keys do not collide\<close>

text \<open>An ID without parent elements keeps to its own part of the key space.\<close>

definition clean_ref :: "string \<Rightarrow> bool" where
  "clean_ref p = (''..'' \<notin> set (split_on slash p))"

definition ref_elems :: "string \<Rightarrow> string list" where
  "ref_elems p = filter (\<lambda>e. e \<noteq> '''' \<and> e \<noteq> ''.'') (split_on slash p)"

lemma split_on_join_parts: "ps \<noteq> [] \<Longrightarrow> split_on slash (join ''/'' ps) = concat (map (split_on slash) ps)"
proof (induction ps)
  case (Cons p ps)
  then show ?case using split_on_append2 [of slash p] by (cases ps) (simp_all add: slash_def)
qed simp

lemma fold_clean_refs:
  "''..'' \<notin> set es \<Longrightarrow> foldl (\<lambda>out e. clean_elem True e out) out es = rev (filter (\<lambda>e. e \<noteq> '''' \<and> e \<noteq> ''.'') es) @ out"
  by (induction es arbitrary: out) (auto simp: clean_elem_def)

lemma refs_nonempty: "concat (map ref_elems (filter (\<lambda>p. p \<noteq> '''') ps)) = concat (map ref_elems ps)"
  by (induction ps) (simp_all add: ref_elems_def)

lemma elems_etcd_key:
  assumes "is_abs (es_root st)" "\<forall>p \<in> set parts. clean_ref p"
  shows "path_elems (etcd_key st parts) = path_elems (es_root st) @ concat (map ref_elems parts)"
proof -
  let ?ps = "filter (\<lambda>p. p \<noteq> '''') parts" and ?r = "es_root st"
  have r: "?r \<noteq> ''''" using assms(1) by (auto simp: is_abs_def has_prefix_def)
  have abs: "is_abs (join ''/'' (?r # ?ps))"
    using assms(1) r by (cases ?ps) (auto simp: is_abs_def has_prefix_iff)
  have no: "''..'' \<notin> set (concat (map (split_on slash) ?ps))" using assms(2) by (auto simp: clean_ref_def)
  have "path_elems (etcd_key st parts) = path_elems (join ''/'' (?r # ?ps))"
    using abs r by (simp add: etcd_key_def path_join_def)
  also have "\<dots> = clean_elems True (split_on slash ?r @ concat (map (split_on slash) ?ps))"
    using abs split_on_join_parts [of "?r # ?ps"] by (simp add: path_elems_def)
  also have "\<dots> = path_elems ?r @ filter (\<lambda>e. e \<noteq> '''' \<and> e \<noteq> ''.'') (concat (map (split_on slash) ?ps))"
    using assms(1) by (simp only: clean_elems_append fold_clean_refs [OF no]) (simp add: path_elems_def)
  also have "filter (\<lambda>e. e \<noteq> '''' \<and> e \<noteq> ''.'') (concat (map (split_on slash) ?ps)) = concat (map ref_elems ?ps)"
    by (simp add: filter_concat comp_def ref_elems_def [abs_def])
  finally show ?thesis by (simp only: refs_nonempty)
qed

lemma etcd_key_inj:
  assumes "is_abs (es_root st)" "\<forall>p \<in> set ps. clean_ref p" "\<forall>p \<in> set qs. clean_ref p" "etcd_key st ps = etcd_key st qs"
  shows "concat (map ref_elems ps) = concat (map ref_elems qs)"
  using elems_etcd_key [OF assms(1,2)] elems_etcd_key [OF assms(1,3)] assms(4) by simp

lemma areas_apart:
  assumes "is_abs (es_root st)" "\<forall>p \<in> set (p # ps). clean_ref p" "\<forall>p \<in> set (q # qs). clean_ref p"
    "ref_elems p \<noteq> []" "ref_elems q \<noteq> []" "hd (ref_elems p) \<noteq> hd (ref_elems q)"
  shows "etcd_key st (p # ps) \<noteq> etcd_key st (q # qs)"
  using etcd_key_inj [OF assms(1-3)] assms(4-6) by (cases "ref_elems p"; cases "ref_elems q") auto

lemma area_names:
  "ref_elems ''leader'' = [''leader'']" "ref_elems ''current'' = [''current'']" "ref_elems ''epoch'' = [''epoch'']"
  "ref_elems ''attested-nodes'' = [''attested-nodes'']" "ref_elems ''nodes'' = [''nodes'']" "ref_elems ''instances'' = [''instances'']"
  "ref_elems ''requests'' = [''requests'']" "ref_elems ''tasks'' = [''tasks'']" "ref_elems ''task_leases'' = [''task_leases'']"
  "ref_elems ''task_lease_epochs'' = [''task_lease_epochs'']" "ref_elems ''profile_leases'' = [''profile_leases'']"
  "ref_elems ''profile_lease_epochs'' = [''profile_lease_epochs'']"
  "clean_ref ''leader''" "clean_ref ''current''" "clean_ref ''epoch''" "clean_ref ''attested-nodes''" "clean_ref ''nodes''"
  "clean_ref ''instances''" "clean_ref ''requests''" "clean_ref ''tasks''" "clean_ref ''task_leases''" "clean_ref ''task_lease_epochs''"
  "clean_ref ''profile_leases''" "clean_ref ''profile_lease_epochs''"
  by (simp_all add: ref_elems_def clean_ref_def slash_def)

definition leader_key :: "EtcdStore \<Rightarrow> string \<Rightarrow> bool" where
  "leader_key st k = (k = leaderKey st \<or> k = leaderEpochKey st)"

lemma not_leader_key:
  assumes "is_abs (es_root st)"
  shows "clean_ref a \<Longrightarrow> \<not> leader_key st (attestedNodeKey st a)" "clean_ref a \<Longrightarrow> \<not> leader_key st (nodeKey st a)"
    "clean_ref a \<Longrightarrow> \<not> leader_key st (instanceKey st a)" "clean_ref a \<Longrightarrow> \<not> leader_key st (requestKey st a)"
    "clean_ref a \<Longrightarrow> clean_ref b \<Longrightarrow> \<not> leader_key st (taskKey st a b)"
    "clean_ref a \<Longrightarrow> clean_ref b \<Longrightarrow> \<not> leader_key st (taskLeaseKey st a b)"
    "clean_ref a \<Longrightarrow> clean_ref b \<Longrightarrow> \<not> leader_key st (taskLeaseEpochKey st a b)"
    "clean_ref a \<Longrightarrow> \<not> leader_key st (profileLeaseKey st a)" "clean_ref a \<Longrightarrow> \<not> leader_key st (profileLeaseEpochKey st a)"
  using areas_apart [OF assms]
  by (simp_all add: leader_key_def leaderKey_def leaderEpochKey_def attestedNodeKey_def nodeKey_def instanceKey_def requestKey_def taskKey_def
      taskLeaseKey_def taskLeaseEpochKey_def profileLeaseKey_def profileLeaseEpochKey_def area_names)

lemma epoch_key_apart: "is_abs (es_root st) \<Longrightarrow> leaderEpochKey st \<noteq> leaderKey st"
  using etcd_key_inj [of st "[''leader'', ''epoch'']" "[''leader'', ''current'']"]
  by (auto simp: leaderKey_def leaderEpochKey_def area_names)

section \<open>Numbers\<close>

lemma digits_value_digits: "digits_value acc (digits n @ cs) = digits_value (acc * 10 ^ length (digits n) + n) cs"
proof (induction n arbitrary: acc cs rule: digits.induct)
  case (1 n)
  show ?case
  proof (cases "n < 10")
    case True
    then show ?thesis by (subst digits.simps, subst (2) digits.simps) (simp add: of_char_of)
  next
    case False
    have d: "digits n = digits (n div 10) @ [char_of (48 + n mod 10)]" using False by (subst digits.simps) simp
    have ch: "(of_char (char_of (48 + n mod 10) :: char) :: nat) = 48 + n mod 10"
      using mod_less_divisor [of 10 n] by (simp add: of_char_of)
    have m: "n mod 10 \<le> 9" using mod_less_divisor [of 10 n] by simp
    have "digits_value acc (digits n @ cs) =
        digits_value (acc * 10 ^ length (digits (n div 10)) + n div 10) (char_of (48 + n mod 10) # cs)"
      using 1 [OF False, of acc "char_of (48 + n mod 10) # cs"] by (simp only: d append_assoc append_Cons append_Nil)
    also have "\<dots> = digits_value ((acc * 10 ^ length (digits (n div 10)) + n div 10) * 10 + n mod 10) cs"
      unfolding digits_value.simps ch using m by simp
    also have "(acc * 10 ^ length (digits (n div 10)) + n div 10) * 10 + n mod 10 = acc * 10 ^ length (digits n) + n"
      by (simp add: d algebra_simps)
    finally show ?thesis .
  qed
qed

lemma digits_head: "\<exists>ch cs. digits n = ch # cs \<and> ch \<noteq> CHR ''-'' \<and> ch \<noteq> CHR ''+''"
proof (induction n rule: digits.induct)
  case (1 n)
  show ?case
  proof (cases "n < 10")
    case True
    then have "(of_char (char_of (48 + n) :: char) :: nat) = 48 + n" by (simp add: of_char_of)
    then have "char_of (48 + n) \<noteq> CHR ''-''" "char_of (48 + n) \<noteq> CHR ''+''" by (auto dest: arg_cong [where f = "of_char :: char \<Rightarrow> nat"])
    then show ?thesis using True by (subst digits.simps) simp
  next
    case False
    then show ?thesis using 1 by (subst digits.simps) auto
  qed
qed

lemma ParseInt_json_int: "ParseInt (json_int n) = Some n"
proof -
  obtain ch cs where d: "digits (nat \<bar>n\<bar>) = ch # cs" "ch \<noteq> CHR ''-''" "ch \<noteq> CHR ''+''" using digits_head by blast
  have v: "digits_value 0 (ch # cs) = Some (nat \<bar>n\<bar>)" using digits_value_digits [of 0 "nat \<bar>n\<bar>" "[]"] d by simp
  show ?thesis
  proof (cases "n < 0")
    case True
    then have "json_int n = CHR ''-'' # ch # cs" using d by (simp add: json_int_def)
    then show ?thesis using v True by (simp only: ParseInt_def list.case if_True list.distinct if_False option.map simp_thms) simp
  next
    case False
    then have "json_int n = ch # cs" using d by (simp add: json_int_def)
    then show ?thesis using v d(2,3) False by (simp only: ParseInt_def list.case if_False option.map) simp
  qed
qed

lemma json_int_nonempty: "json_int n \<noteq> ''''"
  using digits_head [of "nat n"] by (auto simp: json_int_def)

section \<open>Runs of many clients\<close>

text \<open>What a transaction leaves is the space of before, or what its closure made of it with some value of its variables.\<close>

lemma NewSTM_result:
  assumes "I v" and "\<And>v seen v' s'. I v \<Longrightarrow> seen \<in> set (fst io) \<Longrightarrow> body v seen = (v', Inr s') \<Longrightarrow> I v'"
  shows "fst (NewSTM body io v s) = s \<or> (\<exists>v0 v1. I v0 \<and> body v0 s = (v1, Inr (fst (NewSTM body io v s))))"
proof -
  obtain conflicts out where io: "io = (conflicts, out)" by fastforce
  have "(\<And>v seen v' s'. I v \<Longrightarrow> seen \<in> set conflicts \<Longrightarrow> body v seen = (v', Inr s') \<Longrightarrow> I v') \<Longrightarrow> I v \<Longrightarrow>
    fst (NewSTM body (conflicts, out) v s) = s \<or>
    (\<exists>v0 v1. I v0 \<and> body v0 s = (v1, Inr (fst (NewSTM body (conflicts, out) v s))))"
  proof (induction conflicts arbitrary: v)
    case Nil
    show ?case
    proof (cases "body v s")
      case (Pair v' r)
      then show ?thesis using Nil(2) by (cases r; cases out) (auto simp: put_call_def)
    qed
  next
    case (Cons seen conflicts)
    show ?case
    proof (cases "body v seen")
      case (Pair v' r)
      show ?thesis
      proof (cases r)
        case (Inr s')
        have "I v'" by (rule Cons.prems(1) [of v seen v' s']) (use Cons.prems(2) Pair Inr in simp_all)
        have "NewSTM body (seen # conflicts, out) v s = NewSTM body (conflicts, out) v' s" by (simp add: Pair Inr)
        moreover have "fst (NewSTM body (conflicts, out) v' s) = s \<or>
            (\<exists>v0 v1. I v0 \<and> body v0 s = (v1, Inr (fst (NewSTM body (conflicts, out) v' s))))"
          by (rule Cons.IH [OF Cons.prems(1) \<open>I v'\<close>]) simp_all
        ultimately show ?thesis by (simp only:)
      qed (simp add: Pair)
    qed
  qed
  then show ?thesis using assms io by simp
qed

definition json_ok :: "'a json \<Rightarrow> bool" where
  "json_ok j = (\<forall>x v. fst j x = Some v \<longrightarrow> snd j v = Some x \<and> v \<noteq> '''')"

lemma fromSTM_put: "json_ok j \<Longrightarrow> fst j x = Some d \<Longrightarrow> fromSTM j k (mput k d s) = Inr (Some x)"
  by (auto simp: fromSTM_def stm_get_def mget0_def json_ok_def)

lemma fromSTM_other [simp]: "k' \<noteq> k \<Longrightarrow> fromSTM j k' (mput k d s) = fromSTM j k' s" "k' \<noteq> k \<Longrightarrow> fromSTM j k' (mdel k s) = fromSTM j k' s"
  by (simp_all add: fromSTM_def stm_get_def)

lemma fromSTM_mdel [simp]: "fromSTM j k (mdel k s) = Inr None"
  by (simp add: fromSTM_def stm_get_def mget0_def)

lemma int64_put [simp]: "int64FromSTM k (mput k (json_int n) s) = Inr n"
  by (simp add: int64FromSTM_def stm_get_def mget0_def json_int_nonempty ParseInt_json_int)

lemma int64_other [simp]: "k' \<noteq> k \<Longrightarrow> int64FromSTM k' (mput k d s) = int64FromSTM k' s" "k' \<noteq> k \<Longrightarrow> int64FromSTM k' (mdel k s) = int64FromSTM k' s"
  by (simp_all add: int64FromSTM_def stm_get_def)

text \<open>The holder of the leadership and the epoch counter, as they stand in the space.\<close>

definition etcd_leader :: "codec \<Rightarrow> EtcdStore \<Rightarrow> kv \<Rightarrow> LeaderLease option" where
  "etcd_leader c st s = (case leaderFromSTM c st s of Inr l \<Rightarrow> l | Inl _ \<Rightarrow> None)"

definition etcd_holder :: "codec \<Rightarrow> EtcdStore \<Rightarrow> kv \<Rightarrow> (string \<times> int) option" where
  "etcd_holder c st s = map_option (\<lambda>l. (ll_HolderID l, ll_Epoch l)) (etcd_leader c st s)"

definition etcd_top :: "EtcdStore \<Rightarrow> kv \<Rightarrow> int" where
  "etcd_top st s = (case int64FromSTM (leaderEpochKey st) s of Inr n \<Rightarrow> n | Inl _ \<Rightarrow> 0)"

definition same_leader :: "codec \<Rightarrow> EtcdStore \<Rightarrow> kv \<Rightarrow> kv \<Rightarrow> bool" where
  "same_leader c st s s' = (leaderFromSTM c st s' = leaderFromSTM c st s \<and> int64FromSTM (leaderEpochKey st) s' = int64FromSTM (leaderEpochKey st) s)"

lemma same_leader_refl [simp]: "same_leader c st s s" by (simp add: same_leader_def)

lemma same_leader_put: "\<not> leader_key st k \<Longrightarrow> same_leader c st s s' \<Longrightarrow> same_leader c st s (mput k d s')"
  by (auto simp: same_leader_def leader_key_def leaderFromSTM_def)

lemma same_leader_del: "\<not> leader_key st k \<Longrightarrow> same_leader c st s (mdel k s)"
  by (auto simp: same_leader_def leader_key_def leaderFromSTM_def)

lemma put_call_same:
  "(\<And>s. same_leader c st s (f s)) \<Longrightarrow> same_leader c st s (fst (put_call out f s))"
  by (simp add: put_call_def split: outcome.split)

lemma putJSON_same: "\<not> leader_key st k \<Longrightarrow> same_leader c st s (fst (putJSON j out k v s))"
  by (auto simp: putJSON_def intro!: put_call_same same_leader_put split: option.split)

lemma putJSONSTM_same: "\<not> leader_key st k \<Longrightarrow> putJSONSTM j k v s = Inr s' \<Longrightarrow> same_leader c st s s'"
  by (auto simp: putJSONSTM_def intro!: same_leader_put split: option.splits)

lemma NewSTM_same:
  assumes "I v" "\<And>v seen v' s'. I v \<Longrightarrow> seen \<in> set (fst io) \<Longrightarrow> body v seen = (v', Inr s') \<Longrightarrow> I v'"
    and "\<And>v v' s'. I v \<Longrightarrow> body v s = (v', Inr s') \<Longrightarrow> same_leader c st s s'"
  shows "same_leader c st s (fst (NewSTM body io v s))"
  using NewSTM_result [of I v io body s] assms by fastforce

lemma NewSTM_same_unit:
  assumes "\<And>v v' s'. body v s = (v', Inr s') \<Longrightarrow> same_leader c st s s'"
  shows "same_leader c st s (fst (NewSTM body io v s))"
  by (rule NewSTM_same [where I = "\<lambda>_. True"]) (use assms in auto)

text \<open>The calls that write. The clock, the conflicts and the outcome of the write belong to the call.\<close>

datatype etcd_call =
    EAcquireLeader time "kv list \<times> outcome" string string int
  | ERenewLeader time "kv list \<times> outcome" LeaderLease int
  | EReleaseLeader "kv list \<times> outcome" LeaderLease
  | EUpsertAttestedNode outcome AttestedNodeRecord
  | ERegisterNode time outcome Node
  | EHeartbeatNode time "kv list \<times> outcome" string time
  | ERegisterInstance time outcome AgentInstance
  | EHeartbeatInstance time "kv list \<times> outcome" string time
  | ERemoveInstance outcome string
  | EUpsertRequest time "kv option" outcome RequestRecord
  | EUpsertTask time outcome TaskRecord
  | EAcquireTaskLease time "kv list \<times> outcome" TaskLease int
  | ERenewTaskLease time "kv list \<times> outcome" TaskLease int
  | EReleaseTaskLease "kv list \<times> outcome" TaskLease
  | EAcquireProfileLease time "kv list \<times> outcome" ProfileLease int
  | ERenewProfileLease time "kv list \<times> outcome" ProfileLease int
  | EReleaseProfileLease "kv list \<times> outcome" ProfileLease

fun etcd_exec :: "codec \<Rightarrow> EtcdStore \<Rightarrow> etcd_call \<Rightarrow> kv \<Rightarrow> kv" where
  "etcd_exec c st (EAcquireLeader now io cand addr ttl) s = fst (Etcd_AcquireLeader c st now io cand addr ttl s)"
| "etcd_exec c st (ERenewLeader now io l ttl) s = fst (Etcd_RenewLeader c st now io l ttl s)"
| "etcd_exec c st (EReleaseLeader io l) s = fst (Etcd_ReleaseLeader c st io l s)"
| "etcd_exec c st (EUpsertAttestedNode out r) s = fst (Etcd_UpsertAttestedNode c st out r s)"
| "etcd_exec c st (ERegisterNode now out n) s = fst (Etcd_RegisterNode c st now out n s)"
| "etcd_exec c st (EHeartbeatNode now io n a) s = fst (Etcd_HeartbeatNode c st now io n a s)"
| "etcd_exec c st (ERegisterInstance now out i) s = fst (Etcd_RegisterInstance c st now out i s)"
| "etcd_exec c st (EHeartbeatInstance now io i a) s = fst (Etcd_HeartbeatInstance c st now io i a s)"
| "etcd_exec c st (ERemoveInstance out i) s = fst (Etcd_RemoveInstance st out i s)"
| "etcd_exec c st (EUpsertRequest now view out r) s = fst (Etcd_UpsertRequest c st now view out r s)"
| "etcd_exec c st (EUpsertTask now out k) s = fst (Etcd_UpsertTask c st now out k s)"
| "etcd_exec c st (EAcquireTaskLease now io l ttl) s = fst (Etcd_AcquireTaskLease c st now io l ttl s)"
| "etcd_exec c st (ERenewTaskLease now io l ttl) s = fst (Etcd_RenewTaskLease c st now io l ttl s)"
| "etcd_exec c st (EReleaseTaskLease io l) s = fst (Etcd_ReleaseTaskLease c st io l s)"
| "etcd_exec c st (EAcquireProfileLease now io l ttl) s = fst (Etcd_AcquireProfileLease c st now io l ttl s)"
| "etcd_exec c st (ERenewProfileLease now io l ttl) s = fst (Etcd_RenewProfileLease c st now io l ttl s)"
| "etcd_exec c st (EReleaseProfileLease io l) s = fst (Etcd_ReleaseProfileLease c st io l s)"

text \<open>Calls whose IDs have no parent elements; a lease read in a lost attempt names such IDs too.\<close>

definition clean_task_lease :: "TaskLease \<Rightarrow> bool" where
  "clean_task_lease l = (clean_ref (tl_RequestID l) \<and> clean_ref (tl_TaskID l))"

definition clean_conflicts :: "codec \<Rightarrow> kv list \<Rightarrow> bool" where
  "clean_conflicts c conflicts =
     (\<forall>seen \<in> set conflicts. \<forall>(k, data) \<in> set seen.
        (case snd (cd_task_lease c) data of None \<Rightarrow> True | Some l \<Rightarrow> clean_task_lease l) \<and>
        (case snd (cd_profile_lease c) data of None \<Rightarrow> True | Some l \<Rightarrow> clean_ref (pl_Profile l)))"

fun clean_call :: "codec \<Rightarrow> etcd_call \<Rightarrow> bool" where
  "clean_call c (EUpsertAttestedNode out r) = clean_ref (an_NodeID r)"
| "clean_call c (ERegisterNode now out n) = clean_ref (nd_ID n)"
| "clean_call c (EHeartbeatNode now io n a) = clean_ref n"
| "clean_call c (ERegisterInstance now out i) = clean_ref (in_ID i)"
| "clean_call c (EHeartbeatInstance now io i a) = clean_ref i"
| "clean_call c (ERemoveInstance out i) = clean_ref i"
| "clean_call c (EUpsertRequest now view out r) = clean_ref (rq_ID r)"
| "clean_call c (EUpsertTask now out k) = (clean_ref (tk_RequestID k) \<and> clean_ref (tk_TaskID k))"
| "clean_call c (EAcquireTaskLease now io l ttl) = (clean_task_lease l \<and> clean_conflicts c (fst io))"
| "clean_call c (ERenewTaskLease now io l ttl) = clean_task_lease l"
| "clean_call c (EReleaseTaskLease io l) = clean_task_lease l"
| "clean_call c (EAcquireProfileLease now io l ttl) = (clean_ref (pl_Profile l) \<and> clean_conflicts c (fst io))"
| "clean_call c (ERenewProfileLease now io l ttl) = clean_ref (pl_Profile l)"
| "clean_call c (EReleaseProfileLease io l) = clean_ref (pl_Profile l)"
| "clean_call c _ = True"

definition etcd_run :: "codec \<Rightarrow> EtcdStore \<Rightarrow> etcd_call list \<Rightarrow> kv \<Rightarrow> kv" where
  "etcd_run c st cs s = foldl (\<lambda>s call. etcd_exec c st call s) s (filter (clean_call c) cs)"

lemma checked_same: "(\<And>s. same_leader c st s (fst (f s))) \<Longrightarrow> same_leader c st s (fst (etcd_checked e f s))"
  by (simp add: etcd_checked_def split: option.split)

lemma stm_same_key:
  assumes "\<not> leader_key st k"
    and "\<And>v v' s'. f v s = (v', Inr s') \<Longrightarrow> s' = s \<or> s' = mdel k s \<or> (\<exists>d. s' = mput k d s)"
  shows "same_leader c st s (fst (NewSTM f io v s))"
  by (rule NewSTM_same_unit) (use assms same_leader_put same_leader_del same_leader_refl in metis)

lemma putJSONSTM_D: "putJSONSTM j k x s = Inr s' \<Longrightarrow> \<exists>d. s' = mput k d s"
  by (auto simp: putJSONSTM_def split: option.splits)

lemmas key_txn_defs = heartbeat_node_txn_def heartbeat_instance_txn_def renew_task_lease_txn_def release_task_lease_txn_def
  renew_profile_lease_txn_def release_profile_lease_txn_def

lemma key_txn:
  "heartbeat_node_txn c st n a v s = (v', Inr s') \<Longrightarrow> s' = s \<or> s' = mdel (nodeKey st n) s \<or> (\<exists>d. s' = mput (nodeKey st n) d s)"
  "heartbeat_instance_txn c st i a w s = (w', Inr s') \<Longrightarrow> s' = s \<or> s' = mdel (instanceKey st i) s \<or> (\<exists>d. s' = mput (instanceKey st i) d s)"
  "renew_task_lease_txn c st now l ttl x s = (x', Inr s') \<Longrightarrow>
     s' = s \<or> s' = mdel (taskLeaseKey st (tl_RequestID l) (tl_TaskID l)) s \<or> (\<exists>d. s' = mput (taskLeaseKey st (tl_RequestID l) (tl_TaskID l)) d s)"
  "release_task_lease_txn c st l v s = (v', Inr s') \<Longrightarrow>
     s' = s \<or> s' = mdel (taskLeaseKey st (tl_RequestID l) (tl_TaskID l)) s \<or> (\<exists>d. s' = mput (taskLeaseKey st (tl_RequestID l) (tl_TaskID l)) d s)"
  "renew_profile_lease_txn c st now p ttl y s = (y', Inr s') \<Longrightarrow>
     s' = s \<or> s' = mdel (profileLeaseKey st (pl_Profile p)) s \<or> (\<exists>d. s' = mput (profileLeaseKey st (pl_Profile p)) d s)"
  "release_profile_lease_txn c st p v s = (v', Inr s') \<Longrightarrow>
     s' = s \<or> s' = mdel (profileLeaseKey st (pl_Profile p)) s \<or> (\<exists>d. s' = mput (profileLeaseKey st (pl_Profile p)) d s)"
  by (auto simp: key_txn_defs Let_def split: sum.splits option.splits if_splits dest: putJSONSTM_D)

section \<open>The leader lease as a cell\<close>

lemma fromSTM_D: "fromSTM j k s = Inr (Some l) \<Longrightarrow> \<exists>d. (k, d) \<in> set s \<and> snd j d = Some l"
  by (auto simp: fromSTM_def stm_get_def mget0_def split: if_splits option.splits dest: map_of_SomeD)

lemma task_lease_txn_clean:
  assumes "clean_conflicts c [seen]" "clean_task_lease (fst v)" "task_lease_txn c st now ttl v seen = (v', Inr s')"
  shows "clean_task_lease (fst v')"
proof -
  have "clean_task_lease cur" if "taskLeaseFromSTM c k seen = Inr (Some cur)" for k cur
    using fromSTM_D [of "cd_task_lease c" k seen cur] that assms(1) by (force simp: taskLeaseFromSTM_def clean_conflicts_def)
  then show ?thesis
    using assms(2,3) by (auto simp: task_lease_txn_def Let_def clean_task_lease_def split: sum.splits option.splits if_splits)
qed

lemma profile_lease_txn_clean:
  assumes "clean_conflicts c [seen]" "clean_ref (pl_Profile (fst v))" "profile_lease_txn c st now ttl v seen = (v', Inr s')"
  shows "clean_ref (pl_Profile (fst v'))"
proof -
  have "clean_ref (pl_Profile cur)" if "profileLeaseFromSTM c k seen = Inr (Some cur)" for k cur
    using fromSTM_D [of "cd_profile_lease c" k seen cur] that assms(1) by (force simp: profileLeaseFromSTM_def clean_conflicts_def)
  then show ?thesis
    using assms(2,3) by (auto simp: profile_lease_txn_def Let_def split: sum.splits option.splits if_splits)
qed

lemma task_lease_txn_same:
  assumes "is_abs (es_root st)" "clean_task_lease (fst v)" "task_lease_txn c st now ttl v s = (v', Inr s')"
  shows "same_leader c st s s'"
  using assms(2,3) not_leader_key(6,7) [OF assms(1)]
  by (auto simp: task_lease_txn_def Let_def clean_task_lease_def split: sum.splits option.splits if_splits
      intro!: same_leader_put dest!: putJSONSTM_D)

lemma profile_lease_txn_same:
  assumes "is_abs (es_root st)" "clean_ref (pl_Profile (fst v))" "profile_lease_txn c st now ttl v s = (v', Inr s')"
  shows "same_leader c st s s'"
  using assms(2,3) not_leader_key(8,9) [OF assms(1)]
  by (auto simp: profile_lease_txn_def Let_def split: sum.splits option.splits if_splits intro!: same_leader_put dest!: putJSONSTM_D)

lemma clean_conflicts_in: "clean_conflicts c cs \<Longrightarrow> seen \<in> set cs \<Longrightarrow> clean_conflicts c [seen]"
  by (simp add: clean_conflicts_def)

lemma acquire_task_same:
  assumes "is_abs (es_root st)" "clean_task_lease l" "clean_conflicts c (fst io)"
  shows "same_leader c st s (fst (Etcd_AcquireTaskLease c st now io l ttl s))"
  unfolding Etcd_AcquireTaskLease_def
  by (intro checked_same NewSTM_same [where I = "\<lambda>v. clean_task_lease (fst v)"])
    (use assms task_lease_txn_clean clean_conflicts_in task_lease_txn_same in \<open>auto, blast\<close>)

lemma acquire_profile_same:
  assumes "is_abs (es_root st)" "clean_ref (pl_Profile l)" "clean_conflicts c (fst io)"
  shows "same_leader c st s (fst (Etcd_AcquireProfileLease c st now io l ttl s))"
  unfolding Etcd_AcquireProfileLease_def
  by (intro checked_same NewSTM_same [where I = "\<lambda>v. clean_ref (pl_Profile (fst v))"])
    (use assms profile_lease_txn_clean clean_conflicts_in profile_lease_txn_same in \<open>auto, blast\<close>)

definition leader_call :: "etcd_call \<Rightarrow> bool" where
  "leader_call call = (case call of EAcquireLeader _ _ _ _ _ \<Rightarrow> True | ERenewLeader _ _ _ _ \<Rightarrow> True | EReleaseLeader _ _ \<Rightarrow> True | _ \<Rightarrow> False)"

lemma upsert_request_same:
  "\<not> leader_key st (requestKey st (rq_ID r)) \<Longrightarrow> same_leader c st s (fst (Etcd_UpsertRequest c st now view out r s))"
  by (auto simp: Etcd_UpsertRequest_def Let_def intro!: checked_same putJSON_same split: sum.split)

lemma key_txn_same:
  "\<not> leader_key st (nodeKey st n) \<Longrightarrow> same_leader c st s (fst (NewSTM (heartbeat_node_txn c st n a) io u s))"
  "\<not> leader_key st (instanceKey st i) \<Longrightarrow> same_leader c st s (fst (NewSTM (heartbeat_instance_txn c st i a) io u s))"
  "\<not> leader_key st (taskLeaseKey st (tl_RequestID l) (tl_TaskID l)) \<Longrightarrow> same_leader c st s (fst (NewSTM (renew_task_lease_txn c st now l ttl) io x s))"
  "\<not> leader_key st (taskLeaseKey st (tl_RequestID l) (tl_TaskID l)) \<Longrightarrow> same_leader c st s (fst (NewSTM (release_task_lease_txn c st l) io u s))"
  "\<not> leader_key st (profileLeaseKey st (pl_Profile p)) \<Longrightarrow> same_leader c st s (fst (NewSTM (renew_profile_lease_txn c st now p ttl) io y s))"
  "\<not> leader_key st (profileLeaseKey st (pl_Profile p)) \<Longrightarrow> same_leader c st s (fst (NewSTM (release_profile_lease_txn c st p) io u s))"
  by (rule stm_same_key [OF _ key_txn(1)], assumption+, rule stm_same_key [OF _ key_txn(2)], assumption+,
      rule stm_same_key [OF _ key_txn(3)], assumption+, rule stm_same_key [OF _ key_txn(4)], assumption+,
      rule stm_same_key [OF _ key_txn(5)], assumption+, rule stm_same_key [OF _ key_txn(6)], assumption+)

lemma other_call_same:
  assumes "is_abs (es_root st)" "clean_call c call" "\<not> leader_call call"
  shows "same_leader c st s (etcd_exec c st call s)"
proof -
  note k = not_leader_key [OF assms(1)]
  show ?thesis
    using assms(2,3)
    by (cases call)
      (auto simp: leader_call_def clean_task_lease_def k Etcd_UpsertAttestedNode_def Etcd_RegisterNode_def Etcd_RegisterInstance_def
        Etcd_UpsertTask_def Etcd_HeartbeatNode_def Etcd_HeartbeatInstance_def Etcd_RemoveInstance_def Etcd_RenewTaskLease_def
        Etcd_ReleaseTaskLease_def Etcd_RenewProfileLease_def Etcd_ReleaseProfileLease_def
        intro!: checked_same putJSON_same put_call_same same_leader_del upsert_request_same
          acquire_task_same [OF assms(1)] acquire_profile_same [OF assms(1)]
          key_txn_same)
qed

text \<open>A codec whose leases read back, below an absolute root.\<close>

definition etcd_ok :: "codec \<Rightarrow> EtcdStore \<Rightarrow> bool" where
  "etcd_ok c st = (json_ok (cd_leader c) \<and> is_abs (es_root st))"

lemma leader_put:
  assumes "etcd_ok c st" "putJSONSTM (cd_leader c) (leaderKey st) l s = Inr s'"
  shows "leaderFromSTM c st s' = Inr (Some l)" "leaderFromSTM c st (mput (leaderEpochKey st) d s') = Inr (Some l)"
    "int64FromSTM (leaderEpochKey st) s' = int64FromSTM (leaderEpochKey st) s"
  using assms epoch_key_apart [of st]
  by (auto simp: etcd_ok_def putJSONSTM_def leaderFromSTM_def fromSTM_put split: option.splits)

lemma leader_txn_cases:
  assumes "etcd_ok c st" "leader_txn c st now cand addr ttl v s = (v', Inr s')"
  shows "s' = s \<and> snd v' = snd v \<and> (\<exists>cur. leaderFromSTM c st s = Inr (Some cur) \<and> fst v' = cur \<and> now < ll_ExpiresAt cur \<and> ll_HolderID cur \<noteq> cand) \<or>
    snd v' \<and> ll_HolderID (fst v') = cand \<and> ll_Epoch (fst v') = etcd_top st s + 1 \<and> etcd_top st s' = etcd_top st s + 1 \<and>
    leaderFromSTM c st s' = Inr (Some (fst v')) \<and>
    (\<forall>cur. etcd_leader c st s = Some cur \<longrightarrow> ll_ExpiresAt cur \<le> now \<or> ll_HolderID cur = cand)"
  using assms(2) leader_put [OF assms(1)]
  by (fastforce simp: leader_txn_def Let_def etcd_top_def etcd_leader_def split: sum.splits option.splits if_splits)

lemma renew_leader_txn_cases:
  assumes "etcd_ok c st" "renew_leader_txn c st now l ttl v s = (v', Inr s')"
  shows "\<exists>cur. leaderFromSTM c st s = Inr (Some cur) \<and> ll_HolderID cur = ll_HolderID l \<and> ll_Epoch cur = ll_Epoch l \<and> now \<le> ll_ExpiresAt cur \<and>
    v' = cur\<lparr>ll_LastHeartbeatAt := now, ll_ExpiresAt := now + ttl\<rparr> \<and> leaderFromSTM c st s' = Inr (Some v') \<and> etcd_top st s' = etcd_top st s"
  using assms(2) leader_put [OF assms(1)]
  by (auto simp: renew_leader_txn_def Let_def etcd_top_def split: sum.splits option.splits if_splits)

lemma release_leader_txn_cases:
  assumes "etcd_ok c st" "release_leader_txn c st l v s = (v', Inr s')"
  shows "s' = s \<or> leaderFromSTM c st s' = Inr None \<and> etcd_top st s' = etcd_top st s"
  using assms epoch_key_apart [of st]
  by (auto simp: etcd_ok_def release_leader_txn_def leaderFromSTM_def etcd_top_def split: sum.splits option.splits if_splits)

lemma same_leader_views: "same_leader c st s s' \<Longrightarrow> etcd_holder c st s' = etcd_holder c st s \<and> etcd_top st s' = etcd_top st s"
  by (simp add: same_leader_def etcd_holder_def etcd_leader_def etcd_top_def)

definition cell_step :: "codec \<Rightarrow> EtcdStore \<Rightarrow> kv \<Rightarrow> kv \<Rightarrow> bool" where
  "cell_step c st s s' =
     ((etcd_top st s' = etcd_top st s \<and> (etcd_holder c st s' = etcd_holder c st s \<or> etcd_holder c st s' = None)) \<or>
      (etcd_top st s' = etcd_top st s + 1 \<and> (\<exists>own. etcd_holder c st s' = Some (own, etcd_top st s + 1))))"

lemma cell_step_refl [simp]: "cell_step c st s s" by (simp add: cell_step_def)

lemma cell_step_checked: "(\<And>s. cell_step c st s (fst (f s))) \<Longrightarrow> cell_step c st s (fst (etcd_checked e f s))"
  by (simp add: etcd_checked_def split: option.split)

lemma cell_step_stm:
  assumes "\<And>v v' s'. body v s = (v', Inr s') \<Longrightarrow> cell_step c st s s'"
  shows "cell_step c st s (fst (NewSTM body io v s))"
proof -
  from NewSTM_result [of "\<lambda>_. True" v io body s]
  have "fst (NewSTM body io v s) = s \<or> (\<exists>v0 v1. body v0 s = (v1, Inr (fst (NewSTM body io v s))))" by blast
  then show ?thesis using assms by (elim disjE exE) simp_all
qed

lemma leader_txn_cell: "etcd_ok c st \<Longrightarrow> leader_txn c st now cand addr ttl v s = (v', Inr s') \<Longrightarrow> cell_step c st s s'"
  using leader_txn_cases [of c st now cand addr ttl v s v' s'] by (auto simp: cell_step_def etcd_holder_def etcd_leader_def)

lemma renew_leader_txn_cell: "etcd_ok c st \<Longrightarrow> renew_leader_txn c st now l ttl v s = (v', Inr s') \<Longrightarrow> cell_step c st s s'"
  using renew_leader_txn_cases [of c st now l ttl v s v' s'] by (auto simp: cell_step_def etcd_holder_def etcd_leader_def)

lemma release_leader_txn_cell: "etcd_ok c st \<Longrightarrow> release_leader_txn c st l v s = (v', Inr s') \<Longrightarrow> cell_step c st s s'"
  using release_leader_txn_cases [of c st l v s v' s'] by (auto simp: cell_step_def etcd_holder_def etcd_leader_def)

lemma etcd_step:
  assumes "etcd_ok c st" "clean_call c call"
  shows "cell_step c st s (etcd_exec c st call s)"
proof (cases "leader_call call")
  case True
  then show ?thesis
    by (cases call)
      (auto simp: leader_call_def Etcd_AcquireLeader_def Etcd_RenewLeader_def Etcd_ReleaseLeader_def intro!: cell_step_checked cell_step_stm
        dest: leader_txn_cell [OF assms(1)] renew_leader_txn_cell [OF assms(1)] release_leader_txn_cell [OF assms(1)])
next
  case False
  then have "same_leader c st s (etcd_exec c st call s)"
    using other_call_same assms by (simp add: etcd_ok_def)
  then show ?thesis using same_leader_views by (simp add: cell_step_def)
qed

lemma etcd_lease_cell:
  assumes "etcd_ok c st"
  shows "lease_cell (etcd_run c st) (etcd_holder c st) (etcd_top st)"
proof
  show "etcd_run c st (call # cs) s = etcd_run c st cs (etcd_run c st [call] s)" for call cs s
    by (simp add: etcd_run_def)
  show "(etcd_top st (etcd_run c st [call] s) = etcd_top st s \<and>
      (etcd_holder c st (etcd_run c st [call] s) = etcd_holder c st s \<or> etcd_holder c st (etcd_run c st [call] s) = None)) \<or>
     (etcd_top st (etcd_run c st [call] s) = etcd_top st s + 1 \<and> (\<exists>own. etcd_holder c st (etcd_run c st [call] s) = Some (own, etcd_top st s + 1)))" for call s
    using etcd_step [OF assms, of call s] by (simp add: etcd_run_def cell_step_def)
qed (simp add: etcd_run_def)

text \<open>The answer of a transaction is that of its last attempt.\<close>

lemma NewSTM_answer:
  "NewSTM body (conflicts, out) v s = (s', Inr r) \<Longrightarrow> \<exists>v0. body v0 s = (r, Inr s')"
proof (induction conflicts arbitrary: v)
  case Nil
  then show ?case by (cases "body v s"; cases "snd (body v s)"; cases out) (auto simp: put_call_def)
next
  case (Cons seen conflicts)
  then show ?case by (cases "body v seen"; cases "snd (body v seen)") (auto simp: Cons.IH)
qed

lemma etcd_checked_InrD: "etcd_checked e f s = (s', Inr r) \<Longrightarrow> f s = (s', Inr r)"
  by (auto simp: etcd_checked_def split: option.splits)

lemma AcquireLeader_granted:
  assumes "etcd_ok c st" "Etcd_AcquireLeader c st now io cand addr ttl s = (s1, Inr (l, True))" "ll_HolderID l = cand"
  shows "ll_Epoch l = etcd_top st s + 1" "etcd_top st s1 = ll_Epoch l" "etcd_holder c st s1 = Some (cand, ll_Epoch l)"
    "etcd_leader c st s1 = Some l"
proof -
  obtain conflicts out where io: "io = (conflicts, out)" by fastforce
  from assms(2) io have "NewSTM (leader_txn c st now cand addr ttl) (conflicts, out) (zero_leader, False) s = (s1, Inr (l, True))"
    unfolding Etcd_AcquireLeader_def by (blast dest: etcd_checked_InrD)
  from NewSTM_answer [OF this] obtain v0 where "leader_txn c st now cand addr ttl v0 s = ((l, True), Inr s1)" by blast
  from leader_txn_cases [OF assms(1) this] assms(3)
  show "ll_Epoch l = etcd_top st s + 1" "etcd_top st s1 = ll_Epoch l" "etcd_holder c st s1 = Some (cand, ll_Epoch l)"
    "etcd_leader c st s1 = Some l"
    by (auto simp: etcd_holder_def etcd_leader_def)
qed

text \<open>An answer in the name of another comes from a transaction that was tried again, and leaves the live lease of that one.\<close>

lemma AcquireLeader_raced:
  assumes "etcd_ok c st" "Etcd_AcquireLeader c st now io cand addr ttl s = (s1, Inr (l, True))" "ll_HolderID l \<noteq> cand"
  shows "fst io \<noteq> [] \<and> s1 = s \<and> etcd_leader c st s = Some l \<and> now < ll_ExpiresAt l"
proof -
  obtain conflicts out where io: "io = (conflicts, out)" by fastforce
  from assms(2) io have stm: "NewSTM (leader_txn c st now cand addr ttl) (conflicts, out) (zero_leader, False) s = (s1, Inr (l, True))"
    unfolding Etcd_AcquireLeader_def by (blast dest: etcd_checked_InrD)
  from NewSTM_answer [OF this] obtain v0 where "leader_txn c st now cand addr ttl v0 s = ((l, True), Inr s1)" by blast
  from leader_txn_cases [OF assms(1) this] assms(3)
  have c: "s1 = s" "leaderFromSTM c st s = Inr (Some l)" "now < ll_ExpiresAt l" by auto
  moreover have "conflicts \<noteq> []"
  proof
    assume "conflicts = []"
    moreover have "leader_txn c st now cand addr ttl (zero_leader, False) s = ((l, False), Inr s)"
      using c assms(3) by (simp add: leader_txn_def)
    ultimately show False using stm by (cases out) (simp_all add: put_call_def)
  qed
  ultimately show ?thesis by (simp add: io etcd_leader_def)
qed

lemma RenewLeader_renewed:
  assumes "etcd_ok c st" "Etcd_RenewLeader c st now io l ttl s = (s1, Inr l')"
  shows "\<exists>cur. etcd_leader c st s = Some cur \<and> ll_HolderID cur = ll_HolderID l \<and> ll_Epoch cur = ll_Epoch l \<and> now \<le> ll_ExpiresAt cur"
proof -
  obtain conflicts out where io: "io = (conflicts, out)" by fastforce
  from assms(2) io have "NewSTM (renew_leader_txn c st now l ttl) (conflicts, out) zero_leader s = (s1, Inr l')"
    unfolding Etcd_RenewLeader_def by (blast dest: etcd_checked_InrD)
  from NewSTM_answer [OF this] obtain v0 where "renew_leader_txn c st now l ttl v0 s = (l', Inr s1)" by blast
  from renew_leader_txn_cases [OF assms(1) this] show ?thesis by (auto simp: etcd_leader_def)
qed

lemma AcquireLeader_excluded:
  assumes "etcd_ok c st" "etcd_leader c st s = Some cur" "now < ll_ExpiresAt cur" "cand \<noteq> ll_HolderID cur"
  shows "fst (Etcd_AcquireLeader c st now io cand addr ttl s) = s"
    and "leader_checks cand ttl = None \<Longrightarrow> io = ([], Applied) \<Longrightarrow> snd (Etcd_AcquireLeader c st now io cand addr ttl s) = Inr (cur, False)"
proof -
  have l: "leaderFromSTM c st s = Inr (Some cur)" using assms(2) by (auto simp: etcd_leader_def split: sum.splits)
  have b: "leader_txn c st now cand addr ttl v s = ((cur, snd v), Inr s)" for v
    using l assms(3,4) by (simp add: leader_txn_def)
  have "fst (NewSTM (leader_txn c st now cand addr ttl) io v s) = s" for v
    using NewSTM_result [of "\<lambda>_. True" v io "leader_txn c st now cand addr ttl" s] b by auto
  then show "fst (Etcd_AcquireLeader c st now io cand addr ttl s) = s"
    by (simp add: Etcd_AcquireLeader_def etcd_checked_def split: option.split)
  show "snd (Etcd_AcquireLeader c st now io cand addr ttl s) = Inr (cur, False)" if "leader_checks cand ttl = None" "io = ([], Applied)"
    using that b by (simp add: Etcd_AcquireLeader_def etcd_checked_def put_call_def)
qed


section \<open>A concrete codec\<close>

text \<open>JSON texts as names of finitely many records.\<close>

definition named :: "('a \<times> string) list \<Rightarrow> 'a json" where
  "named names = (map_of names, map_of (map (\<lambda>(x, n). (n, x)) names))"

lemma named_ok:
  assumes "distinct (map snd names)" "'''' \<notin> snd ` set names"
  shows "json_ok (named names)"
  using assms by (force simp: json_ok_def named_def comp_def case_prod_unfold dest!: map_of_SomeD intro!: map_of_is_SomeI)

definition demo_etcd :: EtcdStore where
  "demo_etcd = \<lparr>es_fabric = ''fab'', es_root = ''/agentfab/fabrics/fab''\<rparr>"

definition demo_codec :: codec where
  "demo_codec = \<lparr>cd_attested = named [], cd_leader = named [(demo_leader ''c1'' 1 5, ''L1''), (demo_leader ''c2'' 2 21, ''L2''), (demo_leader ''c2'' 1 6, ''L3'')],
     cd_node = named [], cd_instance = named [], cd_request = named [], cd_task = named [],
     cd_task_lease = named [(demo_task_lease ''c1'' 1 5, ''T1''), 
       ((demo_task_lease ''c1'' 1 5)\<lparr>tl_LastHeartbeatAt := 6, tl_ExpiresAt := 16\<rparr>, ''T2''), (demo_task_lease ''c1'' 2 7, ''T3'')],
     cd_profile_lease = named []\<rparr>"

lemma demo_etcd_ok: "etcd_ok demo_codec demo_etcd"
  by (simp add: etcd_ok_def demo_codec_def demo_etcd_def is_abs_def has_prefix_def named_ok)


text \<open>
  The variables of a transaction outlive its attempts, and two kinds of retries answer wrongly. A candidate whose
  first attempt found no leader, and whose second finds one elected in between, is told that it acquired the lease,
  with the lease of the other: both candidates lead. A conductor whose first attempt saw the live lease of another,
  renewed in between, takes the lease over in the other's name with a new epoch, and the other's next renewal is refused.
\<close>

theorem etcd_retry_races:
  "(let s1 = fst (Etcd_AcquireLeader demo_codec demo_etcd 5 ([], Applied) ''c1'' ''addr'' 10 [])
   in snd (Etcd_AcquireLeader demo_codec demo_etcd 5 ([], Applied) ''c1'' ''addr'' 10 []) = Inr (demo_leader ''c1'' 1 5, True) \<and>
      Etcd_AcquireLeader demo_codec demo_etcd 6 ([[]], Applied) ''c2'' ''addr'' 10 s1 = (s1, Inr (demo_leader ''c1'' 1 5, True))) \<and>
   (let s1 = fst (Etcd_AcquireTaskLease demo_codec demo_etcd 5 ([], Applied) (demo_task_lease ''c1'' 0 0) 10 []);
       s2 = fst (Etcd_RenewTaskLease demo_codec demo_etcd 6 ([], Applied) (demo_task_lease ''c1'' 1 5) 10 s1);
       s3 = fst (Etcd_AcquireTaskLease demo_codec demo_etcd 7 ([s1], Applied) (demo_task_lease ''c2'' 0 0) 10 s2)
   in snd (Etcd_AcquireTaskLease demo_codec demo_etcd 7 ([s1], Applied) (demo_task_lease ''c2'' 0 0) 10 s2) =
        Inr (demo_task_lease ''c1'' 2 7, True) \<and>
      snd (Etcd_RenewTaskLease demo_codec demo_etcd 8 ([], Applied) (demo_task_lease ''c1'' 1 5) 10 s3) =
        Inl (StoreRefused (NotOwned ''c1'')))"
  by code_simp

end
