(* ===== verification/Placement.thy ===== *)
theory Placement
  imports Scheduler Service
begin

text \<open>
  Where the scheduler runs a task (internal/conductor/scheduler.go: prepareTaskPlacement,
  selectTaskInstance, prepareLoopAssignments, the leases it holds meanwhile, the load it counts for each
  instance and node, and the health checks of a running task). The control-plane store is a \<open>Store\<close> of \<open>Wire\<close>;
  a nil store is \<open>None\<close>. Tasks are not nil (nil checks on them are left out), events and warnings neither
  read nor change the state. A goroutine reads the loads when it selects an instance and counts its own
  only when it holds the lease: \<open>seen\<close> is what it read, and may be out of date by then.
\<close>

section \<open>Configuration, loads and errors\<close>

record ('s, 'e) SchedulerConf =
  sc_RequestID :: string
  sc_LeaseOwnerID :: string
  sc_Agents :: "AgentDefinition list"
  sc_ControlPlane :: "('s, 'e) Store option"

record loads =
  lo_instance :: "(string, int) gomap"
  lo_node :: "(string, int) gomap"

text \<open>The errors; \<open>isRecoverableDispatchError\<close> tells those after which the task is dispatched again.\<close>

datatype 'e place_error =
    ListInstancesFailed string 'e | SelectFailed string 'e | AllAtCapacity string
  | AcquireTaskLeaseFailed string 'e | TaskLeaseHeld string string
  | GetProfileLeaseFailed string 'e | LeasedUnavailable string string | ProfileReserved string string
  | ProfileRenewFailed string 'e | AcquireProfileLeaseFailed string 'e | NoInitialInstance string
  | NodeDisappeared string | NodeBecameUnavailable string
  | InstanceDisappeared string | InstanceBecameUnavailable string
  | TaskLeaseExpired string | TaskLeaseMoved string

fun isRecoverableDispatchError :: "'e place_error \<Rightarrow> bool" where
  "isRecoverableDispatchError (AllAtCapacity _) = True"
| "isRecoverableDispatchError (LeasedUnavailable _ _) = True"
| "isRecoverableDispatchError (ProfileReserved _ _) = True"
| "isRecoverableDispatchError (ProfileRenewFailed _ _) = True"
| "isRecoverableDispatchError (NodeDisappeared _) = True"
| "isRecoverableDispatchError (NodeBecameUnavailable _) = True"
| "isRecoverableDispatchError (InstanceDisappeared _) = True"
| "isRecoverableDispatchError (InstanceBecameUnavailable _) = True"
| "isRecoverableDispatchError (TaskLeaseExpired _) = True"
| "isRecoverableDispatchError (TaskLeaseMoved _) = True"
| "isRecoverableDispatchError _ = False"

definition taskLeaseTTL :: int where "taskLeaseTTL = 30000000000"
definition profileLeaseTTL :: int where "profileLeaseTTL = 30000000000"

definition leaseOwnerID :: "('s, 'e) SchedulerConf \<Rightarrow> string" where
  "leaseOwnerID c = (if trim_space (sc_LeaseOwnerID c) \<noteq> '''' then sc_LeaseOwnerID c else ''conductor'')"

definition acquireInstance :: "string \<Rightarrow> string \<Rightarrow> loads \<Rightarrow> loads" where
  "acquireInstance instanceID nodeID l =
     (if instanceID = '''' then l
      else l\<lparr>lo_instance := mput instanceID (mget0 0 (lo_instance l) instanceID + 1) (lo_instance l),
             lo_node := (if nodeID \<noteq> '''' then mput nodeID (mget0 0 (lo_node l) nodeID + 1) (lo_node l) else lo_node l)\<rparr>)"

definition releaseInstance :: "string \<Rightarrow> string \<Rightarrow> loads \<Rightarrow> loads" where
  "releaseInstance instanceID nodeID l =
     (if instanceID = '''' then l
      else l\<lparr>lo_instance := (if mget0 0 (lo_instance l) instanceID > 0
                             then mput instanceID (mget0 0 (lo_instance l) instanceID - 1) (lo_instance l) else lo_instance l),
             lo_node := (if nodeID \<noteq> '''' \<and> mget0 0 (lo_node l) nodeID > 0
                         then mput nodeID (mget0 0 (lo_node l) nodeID - 1) (lo_node l) else lo_node l)\<rparr>)"

definition instanceLoad :: "loads \<Rightarrow> string \<Rightarrow> int" where
  "instanceLoad l instanceID = mget0 0 (lo_instance l) instanceID"

definition nodeLoad :: "loads \<Rightarrow> string \<Rightarrow> int" where
  "nodeLoad l nodeID = mget0 0 (lo_node l) nodeID"

section \<open>Which instances and nodes can take a task\<close>

fun isSchedulableNodeState :: "NodeState \<Rightarrow> bool" where
  "isSchedulableNodeState NodeStateReady = True"
| "isSchedulableNodeState NodeStateDegraded = True"
| "isSchedulableNodeState _ = False"

fun isRunningNodeState :: "NodeState \<Rightarrow> bool" where
  "isRunningNodeState NodeStateReady = True"
| "isRunningNodeState NodeStateDegraded = True"
| "isRunningNodeState NodeStateDraining = True"
| "isRunningNodeState _ = False"

fun isSchedulableInstanceState :: "InstanceState \<Rightarrow> bool" where
  "isSchedulableInstanceState InstanceStateReady = True"
| "isSchedulableInstanceState InstanceStateBusy = True"
| "isSchedulableInstanceState _ = False"

fun isRunningInstanceState :: "InstanceState \<Rightarrow> bool" where
  "isRunningInstanceState InstanceStateReady = True"
| "isRunningInstanceState InstanceStateBusy = True"
| "isRunningInstanceState InstanceStateDraining = True"
| "isRunningInstanceState _ = False"

fun schedulableInstancePriority :: "InstanceState \<Rightarrow> int" where
  "schedulableInstancePriority InstanceStateReady = 0"
| "schedulableInstancePriority InstanceStateBusy = 1"
| "schedulableInstancePriority _ = 2"

definition no_agent :: AgentDefinition where
  "no_agent = \<lparr>ad_Name = '''', ad_Purpose = '''', ad_MaxConcurrentTasks = 0, ad_RequiredNodeLabels = [],
     ad_MaxKnowledgeNodes = 0, ad_TaskTimeout = 0, ad_ReviewGuidelines = '''', ad_ReviewPrompt = ''''\<rparr>"

definition agentDefinition :: "('s, 'e) SchedulerConf \<Rightarrow> string \<Rightarrow> AgentDefinition" where
  "agentDefinition c profile =
     (case find (\<lambda>d. ad_Name d = profile) (sc_Agents c) of Some d \<Rightarrow> d | None \<Rightarrow> no_agent)"

text \<open>A node that the store does not list is \<open>None\<close>.\<close>

definition isEligibleNodeForAgent :: "AgentDefinition \<Rightarrow> Node option \<Rightarrow> bool" where
  "isEligibleNodeForAgent def node =
     (if (case node of Some n \<Rightarrow> \<not> isSchedulableNodeState (nd_State n) | None \<Rightarrow> False) then False
      else if ad_RequiredNodeLabels def = [] then True
      else (case node of
              None \<Rightarrow> False
            | Some n \<Rightarrow> list_all (\<lambda>(key, v). mget0 '''' (nd_Labels n) key = v) (ad_RequiredNodeLabels def)))"

definition nodeAtCapacity :: "Node option \<Rightarrow> int \<Rightarrow> bool" where
  "nodeAtCapacity node currentLoad =
     (case node of
        None \<Rightarrow> False
      | Some n \<Rightarrow> if cap_MaxTasks (nd_Capacity n) \<le> 0 then False else currentLoad \<ge> cap_MaxTasks (nd_Capacity n))"

definition effectiveNodeTaskCapacity :: "Node option \<Rightarrow> int" where
  "effectiveNodeTaskCapacity node =
     (case node of
        None \<Rightarrow> 2 ^ 30
      | Some n \<Rightarrow> if cap_MaxTasks (nd_Capacity n) \<le> 0 then 2 ^ 30 else cap_MaxTasks (nd_Capacity n))"

definition instanceNodeMap :: "('s, 'e) SchedulerConf \<Rightarrow> AgentInstance list \<Rightarrow> 's \<Rightarrow> 's \<times> ('e + (string, Node) gomap)" where
  "instanceNodeMap c instances s =
     (case sc_ControlPlane c of
        None \<Rightarrow> (s, Inr [])
      | Some cp \<Rightarrow>
          (let nodeIDs = filter (\<lambda>n. n \<noteq> '''') (map in_NodeID instances)
           in if nodeIDs = [] then (s, Inr [])
              else (case mb_ListNodes (sto_membership cp) s of
                      (s1, Inl e) \<Rightarrow> (s1, Inl e)
                    | (s1, Inr registered) \<Rightarrow>
                        (s1, Inr (foldl (\<lambda>m n. if nd_ID n \<in> set nodeIDs then mput (nd_ID n) n m else m) [] registered)))))"

text \<open>How many other tasks of the request run or ran on a node.\<close>

definition requestNodeUsage :: "TaskGraph option \<Rightarrow> string \<Rightarrow> string \<Rightarrow> int" where
  "requestNodeUsage g currentTaskID nodeID =
     (case g of
        None \<Rightarrow> 0
      | Some g \<Rightarrow>
          if nodeID = '''' then 0
          else int (length (filter (\<lambda>t. tn_ID t \<noteq> currentTaskID \<and> tn_ExecutionNode t = nodeID \<and>
                 tn_Status t \<noteq> StatusFailed \<and> tn_Status t \<noteq> StatusCancelled) (tg_Tasks g))))"

definition is_candidate :: "AgentDefinition \<Rightarrow> loads \<Rightarrow> (string, Node) gomap \<Rightarrow> AgentInstance \<Rightarrow> bool" where
  "is_candidate def l nodes i =
     (if \<not> isSchedulableInstanceState (in_State i) \<or> ep_Address (in_Endpoint i) = '''' then False
      else if \<not> isEligibleNodeForAgent def (mget nodes (in_NodeID i)) then False
      else \<not> nodeAtCapacity (mget nodes (in_NodeID i)) (nodeLoad l (in_NodeID i)))"

definition less_loaded :: "loads \<Rightarrow> (string \<Rightarrow> int) \<Rightarrow> (string, Node) gomap \<Rightarrow> AgentInstance \<Rightarrow> AgentInstance \<Rightarrow> bool" where
  "less_loaded l usage nodes a b =
     (let leftNode = mget nodes (in_NodeID a); rightNode = mget nodes (in_NodeID b) in
      if nodeLoad l (in_NodeID a) \<noteq> nodeLoad l (in_NodeID b) then nodeLoad l (in_NodeID a) < nodeLoad l (in_NodeID b)
      else if instanceLoad l (in_ID a) \<noteq> instanceLoad l (in_ID b) then instanceLoad l (in_ID a) < instanceLoad l (in_ID b)
      else if usage (in_NodeID a) \<noteq> usage (in_NodeID b) then usage (in_NodeID a) < usage (in_NodeID b)
      else if effectiveNodeTaskCapacity leftNode \<noteq> effectiveNodeTaskCapacity rightNode
      then effectiveNodeTaskCapacity leftNode > effectiveNodeTaskCapacity rightNode
      else if schedulableInstancePriority (in_State a) \<noteq> schedulableInstancePriority (in_State b)
      then schedulableInstancePriority (in_State a) < schedulableInstancePriority (in_State b)
      else if in_LastHeartbeatAt a \<noteq> in_LastHeartbeatAt b then in_LastHeartbeatAt a > in_LastHeartbeatAt b
      else in_ID a < in_ID b)"

text \<open>The choice among the instances, given the nodes.\<close>

definition choose_instance :: "('s, 'e) SchedulerConf \<Rightarrow> loads \<Rightarrow> TaskGraph option \<Rightarrow> TaskNode \<Rightarrow> (string, Node) gomap \<Rightarrow>
    AgentInstance list \<Rightarrow> AgentInstance option" where
  "choose_instance c l g task nodes instances =
     (let candidates = filter (is_candidate (agentDefinition c (taskProfile task)) l nodes) instances
      in if candidates = [] then None
         else
           (case (if tn_AssignedInstance task \<noteq> ''''
                  then find (\<lambda>i. in_ID i = tn_AssignedInstance task) candidates else None) of
              Some i \<Rightarrow> Some i
            | None \<Rightarrow> Some (hd (sort_slice (less_loaded l (requestNodeUsage g (tn_ID task)) nodes) candidates))))"

definition selectTaskInstance :: "('s, 'e) SchedulerConf \<Rightarrow> loads \<Rightarrow> TaskGraph option \<Rightarrow> TaskNode \<Rightarrow> AgentInstance list \<Rightarrow>
    's \<Rightarrow> 's \<times> ('e + AgentInstance option)" where
  "selectTaskInstance c l g task instances s =
     (case instanceNodeMap c instances s of
        (s1, Inl e) \<Rightarrow> (s1, Inl e)
      | (s1, Inr nodes) \<Rightarrow> (s1, Inr (choose_instance c l g task nodes instances)))"

definition findSchedulableInstanceByID :: "('s, 'e) SchedulerConf \<Rightarrow> loads \<Rightarrow> TaskGraph option \<Rightarrow> TaskNode \<Rightarrow> AgentInstance list \<Rightarrow>
    string \<Rightarrow> 's \<Rightarrow> 's \<times> ('e + AgentInstance option)" where
  "findSchedulableInstanceByID c l g task instances instanceID s =
     (if trim_space instanceID = '''' then (s, Inr None)
      else selectTaskInstance c l g (task\<lparr>tn_AssignedInstance := instanceID\<rparr>) instances s)"

section \<open>Placing a task\<close>

record taskPlacement =
  tp_instanceID :: string
  tp_nodeID :: string
  tp_taskLease :: TaskLease

definition of_profile :: "string \<Rightarrow> InstanceFilter" where
  "of_profile p = \<lparr>if_Profile = p, if_NodeID = '''', if_State = InstanceStateUnset\<rparr>"

definition wanted_task_lease :: "('s, 'e) SchedulerConf \<Rightarrow> TaskNode \<Rightarrow> AgentInstance \<Rightarrow> TaskLease" where
  "wanted_task_lease c task i =
     \<lparr>tl_RequestID = sc_RequestID c, tl_TaskID = tn_ID task, tl_Profile = taskProfile task,
      tl_AssignedInstance = in_ID i, tl_ExecutionNode = in_NodeID i, tl_OwnerID = leaseOwnerID c,
      tl_Epoch = 0, tl_AcquiredAt = 0, tl_LastHeartbeatAt = 0, tl_ExpiresAt = 0\<rparr>"

definition prepareTaskPlacement :: "('s, 'e) SchedulerConf \<Rightarrow> loads \<Rightarrow> TaskGraph option \<Rightarrow> TaskNode \<Rightarrow> 's \<times> loads \<Rightarrow>
    ('s \<times> loads) \<times> TaskNode \<times> ('e place_error + taskPlacement option)" where
  "prepareTaskPlacement c seen g task w =
     (case w of (s, l) \<Rightarrow>
      case sc_ControlPlane c of
        None \<Rightarrow> (w, task, Inr None)
      | Some cp \<Rightarrow>
          if tn_LoopID task \<noteq> '''' \<or> taskProfile task = '''' then (w, task, Inr None)
          else
            (let profile = taskProfile task
             in case mb_ListInstances (sto_membership cp) (of_profile profile) s of
                  (s1, Inl e) \<Rightarrow> ((s1, l), task, Inl (ListInstancesFailed profile e))
                | (s1, Inr []) \<Rightarrow>
                    ((s1, l), task\<lparr>tn_AssignedInstance := '''', tn_ExecutionNode := '''', tn_LeaseEpoch := 0\<rparr>, Inr None)
                | (s1, Inr instances) \<Rightarrow>
                    (case selectTaskInstance c seen g task instances s1 of
                       (s2, Inl e) \<Rightarrow> ((s2, l), task, Inl (SelectFailed profile e))
                     | (s2, Inr None) \<Rightarrow> ((s2, l), task, Inl (AllAtCapacity profile))
                     | (s2, Inr (Some i)) \<Rightarrow>
                         (let task = task\<lparr>tn_AssignedInstance := in_ID i, tn_ExecutionNode := in_NodeID i\<rparr>
                          in case ls_AcquireTaskLease (sto_leases cp) (wanted_task_lease c task i) taskLeaseTTL s2 of
                               (s3, Inl e) \<Rightarrow> ((s3, l), task, Inl (AcquireTaskLeaseFailed (tn_ID task) e))
                             | (s3, Inr (lease, acquired)) \<Rightarrow>
                                 if \<not> acquired then ((s3, l), task, Inl (TaskLeaseHeld (tn_ID task) (tl_OwnerID lease)))
                                 else ((s3, acquireInstance (in_ID i) (in_NodeID i) l),
                                       task\<lparr>tn_LeaseEpoch := tl_Epoch lease\<rparr>,
                                       Inr (Some \<lparr>tp_instanceID = in_ID i, tp_nodeID = in_NodeID i, tp_taskLease = lease\<rparr>))))))"

definition finishTaskPlacement :: "('s, 'e) SchedulerConf \<Rightarrow> taskPlacement option \<Rightarrow> 's \<times> loads \<Rightarrow> 's \<times> loads" where
  "finishTaskPlacement c placement w =
     (case placement of
        None \<Rightarrow> w
      | Some p \<Rightarrow>
          (let l = (if tp_instanceID p \<noteq> '''' then releaseInstance (tp_instanceID p) (tp_nodeID p) (snd w) else snd w)
           in case sc_ControlPlane c of
                None \<Rightarrow> (fst w, l)
              | Some cp \<Rightarrow> (fst (ls_ReleaseTaskLease (sto_leases cp) (tp_taskLease p) (fst w)), l)))"

text \<open>One tick of the heartbeat of a task's lease; \<open>None\<close> when a failed renewal ends it.\<close>

definition runPlacementLeaseHeartbeat :: "('s, 'e) Store \<Rightarrow> TaskNode \<times> TaskLease \<Rightarrow> 's \<Rightarrow> 's \<times> (TaskNode \<times> TaskLease) option" where
  "runPlacementLeaseHeartbeat cp held s =
     (case ls_RenewTaskLease (sto_leases cp) (snd held) taskLeaseTTL s of
        (s1, Inl _) \<Rightarrow> (s1, None)
      | (s1, Inr renewed) \<Rightarrow> (s1, Some ((fst held)\<lparr>tn_LeaseEpoch := tl_Epoch renewed\<rparr>, renewed)))"

section \<open>Placing the agents of a loop\<close>

record loopPlacement =
  lp_leases :: "ProfileLease list"

text \<open>The empty instance and the empty lease stand for no placement.\<close>

definition wanted_profile_lease :: "('s, 'e) SchedulerConf \<Rightarrow> string \<Rightarrow> AgentInstance \<Rightarrow> ProfileLease" where
  "wanted_profile_lease c profile i =
     \<lparr>pl_Profile = profile, pl_AssignedInstance = in_ID i, pl_ExecutionNode = in_NodeID i, pl_OwnerID = leaseOwnerID c,
      pl_Epoch = 0, pl_AcquiredAt = 0, pl_LastHeartbeatAt = 0, pl_ExpiresAt = 0\<rparr>"

definition task_of_agent :: "string \<Rightarrow> TaskNode" where
  "task_of_agent a = \<lparr>tn_ID = '''', tn_Agent = a, tn_Profile = '''', tn_Description = '''', tn_DependsOn = [],
     tn_LoopID = '''', tn_Scope = ScopeOther '''', tn_Timeout = 0, tn_Budget = 0, tn_Status = StatusOther '''',
     tn_Result = '''', tn_ArtifactURI = '''', tn_ArtifactFiles = [], tn_AssignedInstance = '''', tn_ExecutionNode = '''',
     tn_LeaseEpoch = 0, tn_ChatContext = ''''\<rparr>"

definition acquireProfilePlacement :: "('s, 'e) SchedulerConf \<Rightarrow> ('s, 'e) Store \<Rightarrow> loads \<Rightarrow> TaskGraph option \<Rightarrow> string \<Rightarrow>
    AgentInstance list \<Rightarrow> 's \<Rightarrow> 's \<times> ('e place_error + (AgentInstance \<times> ProfileLease) option)" where
  "acquireProfilePlacement c cp l g profile instances s =
     (if profile = '''' then (s, Inr None)
      else case ls_GetProfileLease (sto_leases cp) profile s of
             (s1, Inl e) \<Rightarrow> (s1, Inl (GetProfileLeaseFailed profile e))
           | (s1, Inr (Some lease)) \<Rightarrow>
               (case findSchedulableInstanceByID c l g (task_of_agent profile) instances (pl_AssignedInstance lease) s1 of
                  (s2, Inl e) \<Rightarrow> (s2, Inl (SelectFailed profile e))
                | (s2, Inr None) \<Rightarrow> (s2, Inl (LeasedUnavailable profile (pl_AssignedInstance lease)))
                | (s2, Inr (Some i)) \<Rightarrow>
                    if pl_OwnerID lease \<noteq> leaseOwnerID c then (s2, Inl (ProfileReserved profile (pl_OwnerID lease)))
                    else (case ls_RenewProfileLease (sto_leases cp) lease profileLeaseTTL s2 of
                            (s3, Inl e) \<Rightarrow> (s3, Inl (ProfileRenewFailed profile e))
                          | (s3, Inr renewed) \<Rightarrow> (s3, Inr (Some (i, renewed)))))
           | (s1, Inr None) \<Rightarrow>
               (case selectTaskInstance c l g (task_of_agent profile) instances s1 of
                  (s2, Inl e) \<Rightarrow> (s2, Inl (SelectFailed profile e))
                | (s2, Inr None) \<Rightarrow> (s2, Inr None)
                | (s2, Inr (Some i)) \<Rightarrow>
                    (case ls_AcquireProfileLease (sto_leases cp) (wanted_profile_lease c profile i) profileLeaseTTL s2 of
                       (s3, Inl e) \<Rightarrow> (s3, Inl (AcquireProfileLeaseFailed profile e))
                     | (s3, Inr (acquiredLease, acquired)) \<Rightarrow>
                         if \<not> acquired then (s3, Inl (ProfileReserved profile (pl_OwnerID acquiredLease)))
                         else (s3, Inr (Some (i, acquiredLease))))))"

fun releaseLoopProfileLeases :: "('s, 'e) Store \<Rightarrow> ProfileLease list \<Rightarrow> 's \<Rightarrow> 's" where
  "releaseLoopProfileLeases cp [] s = s"
| "releaseLoopProfileLeases cp (lease # leases) s =
     releaseLoopProfileLeases cp leases (fst (ls_ReleaseProfileLease (sto_leases cp) lease s))"

text \<open>The states in turn: the assignments and the leases made so far, and the error that ended it.\<close>

fun assign_states :: "('s, 'e) SchedulerConf \<Rightarrow> ('s, 'e) Store \<Rightarrow> loads \<Rightarrow> TaskGraph option \<Rightarrow> StateConfig list \<Rightarrow>
    (string, AgentInstance) gomap \<times> ProfileLease list \<Rightarrow> 's \<Rightarrow>
    's \<times> ((string, AgentInstance) gomap \<times> ProfileLease list) \<times> 'e place_error option" where
  "assign_states c cp l g [] acc s = (s, acc, None)"
| "assign_states c cp l g (state # states) (assignments, leases) s =
     (if sc_Agent state = '''' \<or> mget assignments (sc_Agent state) \<noteq> None
      then assign_states c cp l g states (assignments, leases) s
      else case mb_ListInstances (sto_membership cp) (of_profile (sc_Agent state)) s of
             (s1, Inl e) \<Rightarrow> (s1, (assignments, leases), Some (ListInstancesFailed (sc_Agent state) e))
           | (s1, Inr instances) \<Rightarrow>
               if instances = [] then assign_states c cp l g states (assignments, leases) s1
               else (case acquireProfilePlacement c cp l g (sc_Agent state) instances s1 of
                       (s2, Inl e) \<Rightarrow> (s2, (assignments, leases), Some e)
                     | (s2, Inr None) \<Rightarrow> assign_states c cp l g states (assignments, leases) s2
                     | (s2, Inr (Some (i, lease))) \<Rightarrow>
                         if in_ID i = '''' then assign_states c cp l g states (assignments, leases) s2
                         else assign_states c cp l g states (mput (sc_Agent state) i assignments, leases @ [lease]) s2))"

definition prepareLoopAssignments :: "('s, 'e) SchedulerConf \<Rightarrow> loads \<Rightarrow> TaskGraph option \<Rightarrow> LoopDefinition \<Rightarrow> 's \<Rightarrow>
    's \<times> ('e place_error + ((string, AgentInstance) gomap \<times> loopPlacement \<times> AgentInstance option) option)" where
  "prepareLoopAssignments c l g def s =
     (case sc_ControlPlane c of
        None \<Rightarrow> (s, Inr None)
      | Some cp \<Rightarrow>
          (case assign_states c cp l g (ld_States def) ([], []) s of
             (s1, (assignments, leases), Some e) \<Rightarrow> (releaseLoopProfileLeases cp leases s1, Inl e)
           | (s1, (assignments, leases), None) \<Rightarrow>
               (let firstAgent = AgentForState def (ld_InitialState def);
                    firstInstance = mget assignments firstAgent
                in if assignments = [] then (s1, Inr None)
                   else if firstAgent \<noteq> '''' \<and> firstInstance = None
                   then (releaseLoopProfileLeases cp leases s1, Inl (NoInitialInstance firstAgent))
                   else (s1, Inr (Some (assignments, \<lparr>lp_leases = leases\<rparr>, firstInstance))))))"

definition finishLoopPlacement :: "('s, 'e) Store \<Rightarrow> loopPlacement option \<Rightarrow> 's \<Rightarrow> 's" where
  "finishLoopPlacement cp placement s =
     (case placement of None \<Rightarrow> s | Some p \<Rightarrow> releaseLoopProfileLeases cp (lp_leases p) s)"

definition runProfileLeaseHeartbeat :: "('s, 'e) Store \<Rightarrow> ProfileLease \<Rightarrow> 's \<Rightarrow> 's \<times> ProfileLease option" where
  "runProfileLeaseHeartbeat cp lease s =
     (case ls_RenewProfileLease (sto_leases cp) lease profileLeaseTTL s of
        (s1, Inl _) \<Rightarrow> (s1, None)
      | (s1, Inr renewed) \<Rightarrow> (s1, Some renewed))"

text \<open>A nil map is the empty map.\<close>

definition loopAssignedInstances :: "(string, AgentInstance) gomap \<Rightarrow> (string, string) gomap" where
  "loopAssignedInstances assignments = filter (\<lambda>(p, i). i \<noteq> '''') (map (\<lambda>(p, i). (p, in_ID i)) assignments)"

definition loopExecutionNodes :: "(string, AgentInstance) gomap \<Rightarrow> (string, string) gomap" where
  "loopExecutionNodes assignments = filter (\<lambda>(p, n). n \<noteq> '''') (map (\<lambda>(p, i). (p, in_NodeID i)) assignments)"

section \<open>The task's record and its health\<close>

fun status_text :: "TaskStatus \<Rightarrow> string" where
  "status_text StatusPending = ''pending''"
| "status_text StatusRunning = ''running''"
| "status_text StatusCompleted = ''completed''"
| "status_text StatusFailed = ''failed''"
| "status_text StatusEscalated = ''escalated''"
| "status_text StatusCancelled = ''cancelled''"
| "status_text (StatusOther s) = s"

definition task_record :: "('s, 'e) SchedulerConf \<Rightarrow> TaskNode \<Rightarrow> TaskRecord" where
  "task_record c task =
     \<lparr>tk_RequestID = sc_RequestID c, tk_TaskID = tn_ID task, tk_Profile = taskProfile task,
      tk_AssignedInstance = tn_AssignedInstance task, tk_ExecutionNode = tn_ExecutionNode task,
      tk_Status = status_text (tn_Status task), tk_LeaseEpoch = tn_LeaseEpoch task, tk_UpdatedAt = 0\<rparr>"

definition syncTaskState :: "('s, 'e) SchedulerConf \<Rightarrow> TaskNode \<Rightarrow> 's \<Rightarrow> 's" where
  "syncTaskState c task s =
     (case sc_ControlPlane c of
        None \<Rightarrow> s
      | Some cp \<Rightarrow> if sc_RequestID c = '''' then s else fst (rs_UpsertTask (sto_requests cp) (task_record c task) s))"

definition syncGraphState :: "('s, 'e) SchedulerConf \<Rightarrow> TaskGraph \<Rightarrow> 's \<Rightarrow> 's" where
  "syncGraphState c g s = (if sc_ControlPlane c = None then s else foldl (\<lambda>s t. syncTaskState c t s) s (tg_Tasks g))"

definition prepareTaskForRedispatch :: "('s, 'e) SchedulerConf \<Rightarrow> TaskNode \<Rightarrow> 's \<Rightarrow> 's \<times> TaskNode" where
  "prepareTaskForRedispatch c task s = (syncTaskState c (reset_task task) s, reset_task task)"

definition updateLoopTaskExecution :: "('s, 'e) SchedulerConf \<Rightarrow> TaskNode \<Rightarrow> Message \<Rightarrow> 's \<Rightarrow> 's \<times> TaskNode" where
  "updateLoopTaskExecution c task msg s =
     (let meta = mget0 '''' (m_Metadata msg)
      in if meta ''task_id'' \<noteq> tn_ID task \<or> meta ''loop_id'' = '''' then (s, task)
         else
           (let assigned = trim_space (meta ''assigned_instance'');
                newInstance = assigned \<noteq> '''' \<and> assigned \<noteq> tn_AssignedInstance task;
                task1 = (if newInstance then task\<lparr>tn_AssignedInstance := assigned\<rparr> else task);
                executionNode = trim_space (meta ''execution_node'');
                newNode = executionNode \<noteq> '''' \<and> executionNode \<noteq> tn_ExecutionNode task1;
                task2 = (if newNode then task1\<lparr>tn_ExecutionNode := executionNode\<rparr> else task1)
            in ((if newInstance \<or> newNode then syncTaskState c task2 s else s), task2)))"

text \<open>The three questions of a health check. A question the store fails to answer is passed.\<close>

definition node_health :: "('s, 'e) Store \<Rightarrow> TaskNode \<Rightarrow> 's \<Rightarrow> 's \<times> 'e place_error option" where
  "node_health cp task s =
     (let n = tn_ExecutionNode task in
      if n = '''' then (s, None)
      else case mb_GetNode (sto_membership cp) n s of
             (s1, Inl _) \<Rightarrow> (s1, None)
           | (s1, Inr None) \<Rightarrow> (s1, Some (NodeDisappeared n))
           | (s1, Inr (Some node)) \<Rightarrow> (s1, if \<not> isRunningNodeState (nd_State node) then Some (NodeBecameUnavailable n) else None))"

definition instance_health :: "('s, 'e) Store \<Rightarrow> TaskNode \<Rightarrow> 's \<Rightarrow> 's \<times> 'e place_error option" where
  "instance_health cp task s =
     (let i = tn_AssignedInstance task in
      if i = '''' then (s, None)
      else case mb_GetInstance (sto_membership cp) i s of
             (s1, Inl _) \<Rightarrow> (s1, None)
           | (s1, Inr None) \<Rightarrow> (s1, Some (InstanceDisappeared i))
           | (s1, Inr (Some inst)) \<Rightarrow>
               (s1, if \<not> isRunningInstanceState (in_State inst) \<or> ep_Address (in_Endpoint inst) = ''''
                    then Some (InstanceBecameUnavailable i) else None))"

definition lease_health :: "('s, 'e) SchedulerConf \<Rightarrow> ('s, 'e) Store \<Rightarrow> TaskNode \<Rightarrow> 's \<Rightarrow> 's \<times> 'e place_error option" where
  "lease_health c cp task s =
     (if tn_LeaseEpoch task = 0 then (s, None)
      else case ls_GetTaskLease (sto_leases cp) (sc_RequestID c) (tn_ID task) s of
             (s1, Inl _) \<Rightarrow> (s1, None)
           | (s1, Inr None) \<Rightarrow> (s1, Some (TaskLeaseExpired (tn_ID task)))
           | (s1, Inr (Some lease)) \<Rightarrow>
               (s1, if tl_OwnerID lease \<noteq> leaseOwnerID c \<or> tl_Epoch lease \<noteq> tn_LeaseEpoch task
                    then Some (TaskLeaseMoved (tn_ID task)) else None))"

definition checkTaskExecutionHealth :: "('s, 'e) SchedulerConf \<Rightarrow> TaskNode \<Rightarrow> 's \<Rightarrow> 's \<times> 'e place_error option" where
  "checkTaskExecutionHealth c task s =
     (case sc_ControlPlane c of
        None \<Rightarrow> (s, None)
      | Some cp \<Rightarrow>
          (case node_health cp task s of
             (s1, Some e) \<Rightarrow> (s1, Some e)
           | (s1, None) \<Rightarrow>
               (case instance_health cp task s1 of
                  (s2, Some e) \<Rightarrow> (s2, Some e)
                | (s2, None) \<Rightarrow> lease_health c cp task s2)))"

section \<open>The choice of an instance\<close>

text \<open>A comparison by a key that falls back to another comparison is a strict weak order if that one is.\<close>

lemma by_key_then:
  "slice_order lt \<Longrightarrow> slice_order (\<lambda>x y. if f x \<noteq> (f y :: 'k::linorder) then f x < f y else lt x y)"
  "slice_order lt \<Longrightarrow> slice_order (\<lambda>x y. if f x \<noteq> (f y :: 'k::linorder) then f x > f y else lt x y)"
  by (fastforce simp: slice_order_def split: if_splits)+

lemma less_loaded_slice_order: "slice_order (less_loaded l usage nodes)"
  unfolding less_loaded_def [abs_def] Let_def
  by (intro by_key_then by_key.slice_order_axioms)

interpretation placement_order: slice_order "less_loaded l usage nodes" for l usage nodes
  by (rule less_loaded_slice_order)

text \<open>The order in which the scheduler prefers candidates.\<close>

abbreviation preferred :: "loads \<Rightarrow> TaskGraph option \<Rightarrow> TaskNode \<Rightarrow> (string, Node) gomap \<Rightarrow> AgentInstance \<Rightarrow> AgentInstance \<Rightarrow> bool" where
  "preferred l g task nodes \<equiv> less_loaded l (requestNodeUsage g (tn_ID task)) nodes"

lemma choose_instance_None:
  "choose_instance c l g task nodes instances = None \<longleftrightarrow>
     (\<forall>i \<in> set instances. \<not> is_candidate (agentDefinition c (taskProfile task)) l nodes i)"
  by (auto simp: choose_instance_def Let_def filter_empty_conv split: option.splits)

lemma choose_instance_Some:
  assumes "choose_instance c l g task nodes instances = Some i"
  defines "cand \<equiv> is_candidate (agentDefinition c (taskProfile task)) l nodes"
  shows "i \<in> set instances \<and> cand i \<and>
    (if tn_AssignedInstance task \<noteq> '''' \<and> (\<exists>j \<in> set instances. cand j \<and> in_ID j = tn_AssignedInstance task)
     then in_ID i = tn_AssignedInstance task
     else \<forall>j \<in> set instances. cand j \<longrightarrow> \<not> preferred l g task nodes j i)"
proof -
  let ?cs = "filter cand instances"
  let ?sorted = "sort_slice (preferred l g task nodes) ?cs"
  have ne: "?cs \<noteq> []"
    using assms(1) by (auto simp: choose_instance_def Let_def cand_def split: if_splits)
  show ?thesis
  proof (cases "if tn_AssignedInstance task \<noteq> '''' then find (\<lambda>i. in_ID i = tn_AssignedInstance task) ?cs else None")
    case (Some j)
    with assms(1) ne have "j = i" by (simp add: choose_instance_def Let_def flip: cand_def)
    with Some show ?thesis by (auto dest!: find_SomeD split: if_splits)
  next
    case None
    with assms(1) ne have i: "i = hd ?sorted" by (simp add: choose_instance_def Let_def flip: cand_def)
    obtain ys where ys: "?sorted = i # ys"
      using i ne by (metis length_0_conv length_sort_slice list.collapse)
    then have "i \<in> set ?cs" by (metis list.set_intros(1) set_sort_slice)
    moreover have "\<not> preferred l g task nodes j i" if "j \<in> set ?cs" for j
      using placement_order.sort_slice_head [OF ys that] .
    moreover have "\<not> (\<exists>j \<in> set instances. cand j \<and> in_ID j = tn_AssignedInstance task)"
      if "tn_AssignedInstance task \<noteq> ''''"
      using None that by (auto simp: find_None_iff)
    ultimately show ?thesis by auto
  qed
qed

lemma is_candidate_iff:
  "is_candidate def l nodes i \<longleftrightarrow>
     isSchedulableInstanceState (in_State i) \<and> ep_Address (in_Endpoint i) \<noteq> '''' \<and>
     isEligibleNodeForAgent def (mget nodes (in_NodeID i)) \<and>
     \<not> nodeAtCapacity (mget nodes (in_NodeID i)) (nodeLoad l (in_NodeID i))"
  by (auto simp: is_candidate_def)

lemma isEligibleNode_iff:
  "isEligibleNodeForAgent def node \<longleftrightarrow>
     (\<forall>n. node = Some n \<longrightarrow> isSchedulableNodeState (nd_State n)) \<and>
     (\<forall>(key, v) \<in> set (ad_RequiredNodeLabels def). \<exists>n. node = Some n \<and> mget0 '''' (nd_Labels n) key = v)"
  by (cases "ad_RequiredNodeLabels def"; cases node) (auto simp: isEligibleNodeForAgent_def list_all_iff)

lemma nodeAtCapacity_iff:
  "nodeAtCapacity node k \<longleftrightarrow>
     (\<exists>n. node = Some n \<and> 0 < cap_MaxTasks (nd_Capacity n) \<and> cap_MaxTasks (nd_Capacity n) \<le> k)"
  by (auto simp: nodeAtCapacity_def split: option.splits)

section \<open>Loads\<close>

lemma load_acquire [simp]:
  "instanceLoad (acquireInstance i n l) k = instanceLoad l k + of_bool (i \<noteq> '''' \<and> k = i)"
  "nodeLoad (acquireInstance i n l) k = nodeLoad l k + of_bool (i \<noteq> '''' \<and> n \<noteq> '''' \<and> k = n)"
  by (simp_all add: acquireInstance_def instanceLoad_def nodeLoad_def)

lemma load_release [simp]:
  "instanceLoad (releaseInstance i n l) k = instanceLoad l k - of_bool (i \<noteq> '''' \<and> k = i \<and> 0 < instanceLoad l i)"
  "nodeLoad (releaseInstance i n l) k = nodeLoad l k - of_bool (i \<noteq> '''' \<and> n \<noteq> '''' \<and> k = n \<and> 0 < nodeLoad l n)"
  by (simp_all add: releaseInstance_def instanceLoad_def nodeLoad_def)

lemma releaseInstance_none: "releaseInstance '''' n l = l"
  by (simp add: releaseInstance_def)

lemma node_map_lookup:
  "mget (foldl (\<lambda>m n. if nd_ID n \<in> ids then mput (nd_ID n) n m else m) m0 ns) k =
     (case find (\<lambda>n. nd_ID n = k) (rev ns) of Some n \<Rightarrow> if k \<in> ids then Some n else mget m0 k | None \<Rightarrow> mget m0 k)"
proof (induction ns rule: rev_induct)
  case Nil
  then show ?case by simp
next
  case (snoc n ns)
  then show ?case by (auto split: option.splits)
qed

lemma instanceNodeMap_nodes:
  assumes "instanceNodeMap c instances s = (s', Inr nodes)" and "sc_ControlPlane c = Some cp" and "i \<in> set instances"
    and "in_NodeID i \<noteq> ''''"
  shows "\<exists>ns. mb_ListNodes (sto_membership cp) s = (s', Inr ns) \<and>
    mget nodes (in_NodeID i) = find (\<lambda>n. nd_ID n = in_NodeID i) (rev ns)"
proof -
  from assms(3,4) have ids: "in_NodeID i \<in> set (filter (\<lambda>n. n \<noteq> '''') (map in_NodeID instances))" by auto
  then have "filter (\<lambda>n. n \<noteq> '''') (map in_NodeID instances) \<noteq> []" by (metis empty_iff empty_set)
  with assms(1,2) obtain ns where "mb_ListNodes (sto_membership cp) s = (s', Inr ns)"
    "nodes = foldl (\<lambda>m n. if nd_ID n \<in> set (filter (\<lambda>n. n \<noteq> '''') (map in_NodeID instances)) then mput (nd_ID n) n m else m) [] ns"
    by (auto simp: instanceNodeMap_def Let_def split: prod.splits sum.splits)
  with ids show ?thesis by (simp only: node_map_lookup) (simp split: option.splits)
qed

section \<open>What a placement is\<close>

text \<open>The answers of the store behind a placement of \<open>task\<close>, and the instance chosen.\<close>

lemma prepareTaskPlacement_Some:
  assumes "prepareTaskPlacement c seen g task (s, l) = ((s', l'), task', Inr (Some p))"
  obtains cp s1 instances s2 nodes i where "sc_ControlPlane c = Some cp" "tn_LoopID task = ''''"
    "mb_ListInstances (sto_membership cp) (of_profile (taskProfile task)) s = (s1, Inr instances)"
    "instanceNodeMap c instances s1 = (s2, Inr nodes)"
    "choose_instance c seen g task nodes instances = Some i"
    "ls_AcquireTaskLease (sto_leases cp) (wanted_task_lease c task i) taskLeaseTTL s2 = (s', Inr (tp_taskLease p, True))"
    "l' = acquireInstance (in_ID i) (in_NodeID i) l" "tp_instanceID p = in_ID i" "tp_nodeID p = in_NodeID i"
    "task' = task\<lparr>tn_AssignedInstance := in_ID i, tn_ExecutionNode := in_NodeID i, tn_LeaseEpoch := tl_Epoch (tp_taskLease p)\<rparr>"
proof -
  have w: "wanted_task_lease c (task\<lparr>tn_AssignedInstance := a, tn_ExecutionNode := n\<rparr>) i = wanted_task_lease c task i" for a n i
    by (simp add: wanted_task_lease_def taskProfile_def TargetProfile_def)
  from assms show thesis
    by (auto simp: prepareTaskPlacement_def selectTaskInstance_def Let_def w intro: that
          split: option.splits if_splits sum.splits prod.splits list.splits)
qed

lemma placement_none_loads:
  "prepareTaskPlacement c seen g task (s, l) = ((s', l'), task', r) \<Longrightarrow> \<nexists>p. r = Inr (Some p) \<Longrightarrow> l' = l"
  by (auto simp: prepareTaskPlacement_def Let_def split: option.splits if_splits sum.splits prod.splits list.splits)

lemma placement_at_capacity:
  assumes "prepareTaskPlacement c seen g task (s, l) = ((s', l'), task', Inl (AllAtCapacity p))"
  shows "\<exists>cp s1 instances nodes. sc_ControlPlane c = Some cp \<and>
    mb_ListInstances (sto_membership cp) (of_profile (taskProfile task)) s = (s1, Inr instances) \<and>
    instanceNodeMap c instances s1 = (s', Inr nodes) \<and> choose_instance c seen g task nodes instances = None"
  using assms
  by (auto simp: prepareTaskPlacement_def selectTaskInstance_def Let_def split: option.splits if_splits sum.splits prod.splits list.splits)

section \<open>Runs of placements\<close>

text \<open>
  Tasks placed and finished one after the other: a placement reads the loads as they are. The events carry
  the instant of the calls; a placement that ended with an error or without an instance leaves nothing to finish.
\<close>

datatype placement_event = Place time "TaskGraph option" TaskNode | Finished time nat

fun placement_step :: "('s, 'e) SchedulerConf \<Rightarrow> (time \<Rightarrow> ('s, 'e) Store) \<Rightarrow> placement_event \<Rightarrow>
    ('s \<times> loads) \<times> taskPlacement list \<Rightarrow> ('s \<times> loads) \<times> taskPlacement list" where
  "placement_step c cp (Place now g task) (w, active) =
     (case prepareTaskPlacement (c\<lparr>sc_ControlPlane := Some (cp now)\<rparr>) (snd w) g task w of
        (w', _, Inr (Some p)) \<Rightarrow> (w', active @ [p])
      | (w', _, _) \<Rightarrow> (w', active))"
| "placement_step c cp (Finished now k) (w, active) =
     (if k < length active
      then (finishTaskPlacement (c\<lparr>sc_ControlPlane := Some (cp now)\<rparr>) (Some (active ! k)) w, take k active @ drop (Suc k) active)
      else (w, active))"

definition placement_run :: "('s, 'e) SchedulerConf \<Rightarrow> (time \<Rightarrow> ('s, 'e) Store) \<Rightarrow> placement_event list \<Rightarrow> 's \<Rightarrow>
    ('s \<times> loads) \<times> taskPlacement list" where
  "placement_run c cp evs s = foldl (\<lambda>w ev. placement_step c cp ev w) ((s, \<lparr>lo_instance = [], lo_node = []\<rparr>), []) evs"

definition placed_on_instance :: "string \<Rightarrow> taskPlacement list \<Rightarrow> int" where
  "placed_on_instance i active = int (length (filter (\<lambda>p. tp_instanceID p = i) active))"

definition placed_on_node :: "string \<Rightarrow> taskPlacement list \<Rightarrow> int" where
  "placed_on_node n active = int (length (filter (\<lambda>p. tp_instanceID p \<noteq> '''' \<and> tp_nodeID p = n) active))"

text \<open>The loads count the placements that are not finished.\<close>

definition loads_exact :: "loads \<Rightarrow> taskPlacement list \<Rightarrow> bool" where
  "loads_exact l active \<longleftrightarrow>
     (\<forall>i. i \<noteq> '''' \<longrightarrow> instanceLoad l i = placed_on_instance i active) \<and>
     (\<forall>n. n \<noteq> '''' \<longrightarrow> nodeLoad l n = placed_on_node n active)"

lemma placed_append [simp]:
  "placed_on_instance i (xs @ ys) = placed_on_instance i xs + placed_on_instance i ys"
  "placed_on_node n (xs @ ys) = placed_on_node n xs + placed_on_node n ys"
  by (simp_all add: placed_on_instance_def placed_on_node_def)

lemma placed_single [simp]:
  "placed_on_instance i [p] = of_bool (tp_instanceID p = i)"
  "placed_on_node n [p] = of_bool (tp_instanceID p \<noteq> '''' \<and> tp_nodeID p = n)"
  by (simp_all add: placed_on_instance_def placed_on_node_def)

lemma placed_nonneg [simp]: "0 \<le> placed_on_instance i xs" "0 \<le> placed_on_node n xs"
  by (simp_all add: placed_on_instance_def placed_on_node_def)

lemma placed_remove:
  assumes "k < length xs"
  shows "placed_on_instance i (take k xs @ drop (Suc k) xs) = placed_on_instance i xs - placed_on_instance i [xs ! k]"
    and "placed_on_node n (take k xs @ drop (Suc k) xs) = placed_on_node n xs - placed_on_node n [xs ! k]"
proof -
  have "xs = take k xs @ [xs ! k] @ drop (Suc k) xs" using assms by (simp add: id_take_nth_drop)
  then show "placed_on_instance i (take k xs @ drop (Suc k) xs) = placed_on_instance i xs - placed_on_instance i [xs ! k]"
    and "placed_on_node n (take k xs @ drop (Suc k) xs) = placed_on_node n xs - placed_on_node n [xs ! k]"
    by (metis add_diff_cancel_left' placed_append add.left_commute)+
qed

lemma loads_exact_acquire:
  assumes "loads_exact l active" and "tp_instanceID p = i" and "tp_nodeID p = n"
  shows "loads_exact (acquireInstance i n l) (active @ [p])"
  using assms by (auto simp: loads_exact_def)

lemma loads_exact_release:
  assumes "loads_exact l active" and "k < length active"
  defines "p \<equiv> active ! k"
  shows "loads_exact (releaseInstance (tp_instanceID p) (tp_nodeID p) l) (take k active @ drop (Suc k) active)"
proof -
  have pos: "placed_on_instance (tp_instanceID p) active > 0"
    "tp_instanceID p \<noteq> '''' \<Longrightarrow> placed_on_node (tp_nodeID p) active > 0"
    using placed_remove(1) [OF assms(2), of "tp_instanceID p"] placed_remove(2) [OF assms(2), of "tp_nodeID p"]
      placed_nonneg(1) [of "tp_instanceID p" "take k active @ drop (Suc k) active"]
      placed_nonneg(2) [of "tp_nodeID p" "take k active @ drop (Suc k) active"]
    by (simp_all add: p_def del: placed_append placed_nonneg)
  show ?thesis
    unfolding loads_exact_def placed_remove [OF assms(2)]
    using assms(1) pos by (auto simp: loads_exact_def simp flip: p_def)
qed

section \<open>The laws of a store with a fixed membership\<close>

text \<open>
  What placements rely on: while \<open>I\<close> holds of the store, a node with a limit is listed with that limit, and
  the calls that a placement makes keep \<open>I\<close>.
\<close>

locale placement_store =
  fixes cp :: "time \<Rightarrow> ('s, 'e) Store"
    and I :: "'s \<Rightarrow> bool"
    and limit :: "string \<Rightarrow> int"
  assumes list_nodes: "I s \<Longrightarrow> mb_ListNodes (sto_membership (cp now)) s = (s', Inr ns) \<Longrightarrow> 0 < limit N \<Longrightarrow>
      \<exists>n. find (\<lambda>n. nd_ID n = N) (rev ns) = Some n \<and> cap_MaxTasks (nd_Capacity n) = limit N"
    and keeps_nodes: "I s \<Longrightarrow> I (fst (mb_ListNodes (sto_membership (cp now)) s))"
    and keeps_instances: "I s \<Longrightarrow> I (fst (mb_ListInstances (sto_membership (cp now)) f s))"
    and keeps_acquire: "I s \<Longrightarrow> I (fst (ls_AcquireTaskLease (sto_leases (cp now)) lease ttl s))"
    and keeps_release: "I s \<Longrightarrow> I (fst (ls_ReleaseTaskLease (sto_leases (cp now)) lease s))"
begin

lemma keeps_node_map: "I s \<Longrightarrow> sc_ControlPlane c = Some (cp now) \<Longrightarrow> I (fst (instanceNodeMap c is s))"
  using keeps_nodes [of s now] by (auto simp: instanceNodeMap_def Let_def split: prod.splits sum.splits)

lemma keeps_select: "I s \<Longrightarrow> sc_ControlPlane c = Some (cp now) \<Longrightarrow> I (fst (selectTaskInstance c l g t is s))"
  using keeps_node_map [of s c now "is"] by (auto simp: selectTaskInstance_def split: prod.splits sum.splits)

lemma keeps_place:
  assumes "I s" and "sc_ControlPlane c = Some (cp now)"
  shows "I (fst (fst (prepareTaskPlacement c seen g task (s, l))))"
proof -
  obtain s1 r where s1: "mb_ListInstances (sto_membership (cp now)) (of_profile (taskProfile task)) s = (s1, r)"
    by fastforce
  with keeps_instances [OF assms(1)] have I1: "I s1" by (metis fst_conv)
  have I2: "I s2" if "selectTaskInstance c seen g task is s1 = (s2, r')" for "is" s2 r'
    using keeps_select [OF I1 assms(2)] that by (metis fst_conv)
  have I3: "I s3" if "selectTaskInstance c seen g task is s1 = (s2, r')"
    "ls_AcquireTaskLease (sto_leases (cp now)) w taskLeaseTTL s2 = (s3, r'')" for "is" s2 r' w s3 r''
    using keeps_acquire [OF I2 [OF that(1)]] that(2) by (metis fst_conv)
  show ?thesis
    using assms I1 I2 I3
    by (auto simp: prepareTaskPlacement_def Let_def s1 split: option.splits if_splits sum.splits prod.splits list.splits)
qed

lemma place_below_limit:
  assumes "I s" and "sc_ControlPlane c = Some (cp now)"
    and "prepareTaskPlacement c seen g task (s, l) = ((s', l'), task', Inr (Some p))"
    and "0 < limit (tp_nodeID p)" and "tp_nodeID p \<noteq> ''''"
  shows "nodeLoad seen (tp_nodeID p) < limit (tp_nodeID p)"
proof -
  from assms(3) obtain cp' s1 instances s2 nodes i where p: "sc_ControlPlane c = Some cp'"
    "mb_ListInstances (sto_membership cp') (of_profile (taskProfile task)) s = (s1, Inr instances)"
    "instanceNodeMap c instances s1 = (s2, Inr nodes)"
    "choose_instance c seen g task nodes instances = Some i" "tp_nodeID p = in_NodeID i"
    by (rule prepareTaskPlacement_Some)
  from choose_instance_Some [OF p(4)] have i: "i \<in> set instances"
    "is_candidate (agentDefinition c (taskProfile task)) seen nodes i" by auto
  from p(1,2) assms(2) keeps_instances [OF assms(1)] have "I s1" by (metis fst_conv option.inject)
  moreover from instanceNodeMap_nodes [OF p(3,1) i(1)] p(5) assms(5) obtain ns where
    "mb_ListNodes (sto_membership cp') s1 = (s2, Inr ns)"
    "mget nodes (in_NodeID i) = find (\<lambda>n. nd_ID n = in_NodeID i) (rev ns)" by auto
  ultimately obtain n where "mget nodes (in_NodeID i) = Some n" "cap_MaxTasks (nd_Capacity n) = limit (in_NodeID i)"
    using list_nodes assms(2,4) p(1,5) by (metis option.inject)
  with i(2) assms(4) p(5) show ?thesis by (auto simp: is_candidate_iff nodeAtCapacity_iff)
qed

definition run_inv :: "('s \<times> loads) \<times> taskPlacement list \<Rightarrow> bool" where
  "run_inv w \<longleftrightarrow> I (fst (fst w)) \<and> loads_exact (snd (fst w)) (snd w) \<and>
     (\<forall>N. N \<noteq> '''' \<longrightarrow> 0 < limit N \<longrightarrow> placed_on_node N (snd w) \<le> limit N)"

lemma run_inv_place:
  assumes "run_inv ((s, l), active)"
  shows "run_inv (placement_step c cp (Place now g task) ((s, l), active))"
proof -
  let ?c = "c\<lparr>sc_ControlPlane := Some (cp now)\<rparr>"
  have c: "sc_ControlPlane ?c = Some (cp now)" by simp
  from assms have inv: "I s" "loads_exact l active"
    "\<And>N. N \<noteq> '''' \<Longrightarrow> 0 < limit N \<Longrightarrow> placed_on_node N active \<le> limit N" by (auto simp: run_inv_def)
  obtain s' l' task' r where r: "prepareTaskPlacement ?c l g task (s, l) = ((s', l'), task', r)"
    by (metis prod.collapse)
  from keeps_place [OF inv(1) c] r have I': "I s'" by (metis fst_conv)
  show ?thesis
  proof (cases "\<exists>p. r = Inr (Some p)")
    case True
    then obtain p where p: "r = Inr (Some p)" by blast
    with r have placed: "prepareTaskPlacement ?c l g task (s, l) = ((s', l'), task', Inr (Some p))" by simp
    then have l': "l' = acquireInstance (tp_instanceID p) (tp_nodeID p) l"
      by (rule prepareTaskPlacement_Some) simp
    have "placed_on_node N (active @ [p]) \<le> limit N" if N: "N \<noteq> ''''" "0 < limit N" for N
    proof (cases "N = tp_nodeID p")
      case True
      have "placed_on_node N active = nodeLoad l N" using inv(2) N(1) by (simp add: loads_exact_def)
      also have "\<dots> < limit N" using place_below_limit [OF inv(1) c placed] N True by simp
      finally show ?thesis by simp
    next
      case False
      then show ?thesis using inv(3) [OF N] by simp
    qed
    with I' loads_exact_acquire [OF inv(2) refl refl, of p] show ?thesis
      by (simp add: r p run_inv_def l')
  next
    case False
    have "l' = l" using r False by (metis placement_none_loads)
  with False I' inv show ?thesis
      by (auto simp: r run_inv_def split: sum.splits option.splits)
  qed
qed

lemma run_inv_finish:
  assumes "run_inv ((s, l), active)"
  shows "run_inv (placement_step c cp (Finished now k) ((s, l), active))"
proof (cases "k < length active")
  case True
  let ?p = "active ! k"
  have le: "placed_on_node N (take k active @ drop (Suc k) active) \<le> placed_on_node N active" for N
    by (simp add: placed_remove [OF True] del: placed_append)
  from assms have inv: "I s" "loads_exact l active"
    "\<And>N. N \<noteq> '''' \<Longrightarrow> 0 < limit N \<Longrightarrow> placed_on_node N active \<le> limit N" by (auto simp: run_inv_def)
  have "I (fst (ls_ReleaseTaskLease (sto_leases (cp now)) (tp_taskLease ?p) s))" by (rule keeps_release [OF inv(1)])
  moreover have "placed_on_node N (take k active @ drop (Suc k) active) \<le> limit N" if "N \<noteq> ''''" "0 < limit N" for N
    using order_trans [OF le inv(3) [OF that]] .
  ultimately show ?thesis
    using loads_exact_release [OF inv(2) True]
    by (auto simp: True run_inv_def finishTaskPlacement_def releaseInstance_none simp del: placed_append)
qed (use assms in simp)

lemma run_inv_run: "I s \<Longrightarrow> run_inv (placement_run c cp evs s)"
proof (induction evs rule: rev_induct)
  case Nil
  then show ?case
    by (auto simp: run_inv_def placement_run_def loads_exact_def instanceLoad_def nodeLoad_def placed_on_instance_def placed_on_node_def)
next
  case (snoc ev evs)
  obtain s' l active where w: "placement_run c cp evs s = ((s', l), active)" by (metis prod.collapse)
  with snoc have "run_inv ((s', l), active)" by simp
  then have "run_inv (placement_step c cp ev ((s', l), active))"
    by (cases ev) (simp_all only: run_inv_place run_inv_finish)
  then show ?case by (simp add: placement_run_def flip: w)
qed

end

section \<open>The memory store\<close>

definition node_limit :: "MemoryStore \<Rightarrow> string \<Rightarrow> int" where
  "node_limit s N = (case mget (ms_nodes s) N of Some n \<Rightarrow> cap_MaxTasks (nd_Capacity n) | None \<Rightarrow> 0)"

lemma node_limit_normalize: "node_limit (normalize now s) = node_limit s"
  by (rule ext) (auto simp: node_limit_def normalize_def normalizeMembershipLiveness_def Let_def live_node_def split: option.splits)

lemma node_limit_cong: "ms_nodes s' = ms_nodes s \<Longrightarrow> node_limit s' = node_limit s"
  by (rule ext) (simp add: node_limit_def)

lemma find_node:
  assumes "gowf m" and "\<forall>k n. mget m k = Some n \<longrightarrow> nd_ID n = k"
  shows "find (\<lambda>n. nd_ID n = N) (rev (sort_slice lt (mvals m))) = mget m N"
proof (cases "find (\<lambda>n. nd_ID n = N) (rev (sort_slice lt (mvals m)))")
  case None
  have "mget m N = None"
  proof (rule ccontr)
    assume "mget m N \<noteq> None"
    then obtain n where n: "mget m N = Some n" by blast
    then have "n \<in> set (mvals m)" using set_mvals [OF assms(1)] by blast
    moreover have "nd_ID n = N" using n assms(2) by blast
    ultimately show False using None by (auto simp: find_None_iff)
  qed
  with None show ?thesis by simp
next
  case (Some n)
  from find_SomeD [OF this] assms(1) obtain k where "mget m k = Some n" "nd_ID n = N" by (auto simp: set_mvals)
  with assms(2) Some show ?thesis by auto
qed

lemma lease_calls_members:
  "ms_nodes (fst (AcquireTaskLease now t ttl s)) = ms_nodes s" "ms_instances (fst (AcquireTaskLease now t ttl s)) = ms_instances s"
  "ms_nodes (fst (ReleaseTaskLease t s)) = ms_nodes s" "ms_instances (fst (ReleaseTaskLease t s)) = ms_instances s"
  by (simp_all add: AcquireTaskLease_def fst_checked leases_keep_members)

lemma fixed_members:
  "members_wf (fst (AcquireTaskLease now t ttl s)) = members_wf s" "members_wf (fst (ReleaseTaskLease t s)) = members_wf s"
  "node_limit (fst (AcquireTaskLease now t ttl s)) = node_limit s" "node_limit (fst (ReleaseTaskLease t s)) = node_limit s"
  by (intro members_wf_cong node_limit_cong lease_calls_members)+

interpretation memory_placement: placement_store memory_Store "\<lambda>s. members_wf s \<and> node_limit s = M" M for M
proof unfold_locales
  fix s s' :: MemoryStore and now N and ns :: "Node list"
  assume I: "members_wf s \<and> node_limit s = M" and l: "mb_ListNodes (sto_membership (memory_Store now)) s = (s', Inr ns)"
    and pos: "0 < M N"
  from l have s': "s' = normalize now s" "ns = sort_slice (\<lambda>x y. nd_ID x < nd_ID y) (mvals (ms_nodes s'))"
    by (auto simp: memory_Store_def ListNodes_def Let_def)
  from I have wf: "members_wf s'" "node_limit s' = M" by (simp_all add: s'(1) node_limit_normalize)
  then have "find (\<lambda>n. nd_ID n = N) (rev ns) = mget (ms_nodes s') N"
    unfolding s'(2) by (intro find_node) (auto simp: members_wf_def)
  with wf(2) pos show "\<exists>n. find (\<lambda>n. nd_ID n = N) (rev ns) = Some n \<and> cap_MaxTasks (nd_Capacity n) = M N"
    by (auto simp: node_limit_def split: option.splits)
qed (simp_all add: memory_Store_def ListNodes_def ListInstances_def Let_def node_limit_normalize fixed_members)

section \<open>Properties\<close>

text \<open>
  What an instance needs to be given the task: it is ready or busy and has an address, and its node, when the store lists it, is ready or
  degraded, runs fewer tasks than its limit, if it has one, and carries every label the profile requires.
\<close>

definition qualifies :: "('s, 'e) SchedulerConf \<Rightarrow> loads \<Rightarrow> TaskNode \<Rightarrow> (string, Node) gomap \<Rightarrow> AgentInstance \<Rightarrow> bool" where
  "qualifies c seen task nodes i \<longleftrightarrow>
     in_State i \<in> {InstanceStateReady, InstanceStateBusy} \<and> ep_Address (in_Endpoint i) \<noteq> '''' \<and>
     (\<forall>n. mget nodes (in_NodeID i) = Some n \<longrightarrow> nd_State n \<in> {NodeStateReady, NodeStateDegraded} \<and>
        (0 < cap_MaxTasks (nd_Capacity n) \<longrightarrow> nodeLoad seen (in_NodeID i) < cap_MaxTasks (nd_Capacity n))) \<and>
     (\<forall>(k, v) \<in> set (ad_RequiredNodeLabels (agentDefinition c (taskProfile task))).
        \<exists>n. mget nodes (in_NodeID i) = Some n \<and> mget0 '''' (nd_Labels n) k = v)"

text \<open>
  The rank of an instance, smaller being better: the tasks on its node, the tasks on the instance, the tasks of the request on
  the node, the room of the node (a node without a limit counts as one with \<open>2 ^ 30\<close>), ready before busy, the fresher heartbeat,
  and the ID. Ranks are compared place by place.
\<close>

definition rank :: "loads \<Rightarrow> TaskGraph option \<Rightarrow> TaskNode \<Rightarrow> (string, Node) gomap \<Rightarrow> AgentInstance \<Rightarrow> int list" where
  "rank seen g task nodes i =
     [nodeLoad seen (in_NodeID i), instanceLoad seen (in_ID i), requestNodeUsage g (tn_ID task) (in_NodeID i),
      - (case mget nodes (in_NodeID i) of
           Some n \<Rightarrow> if 0 < cap_MaxTasks (nd_Capacity n) then cap_MaxTasks (nd_Capacity n) else 2 ^ 30 | None \<Rightarrow> 2 ^ 30),
      (if in_State i = InstanceStateReady then 0 else 1), - in_LastHeartbeatAt i]"

definition sound_choice :: "('s, 'e) SchedulerConf \<Rightarrow> loads \<Rightarrow> TaskGraph option \<Rightarrow> TaskNode \<Rightarrow> (string, Node) gomap \<Rightarrow>
    AgentInstance list \<Rightarrow> AgentInstance \<Rightarrow> bool" where
  "sound_choice c seen g task nodes instances i \<longleftrightarrow>
     i \<in> set instances \<and> qualifies c seen task nodes i \<and>
     (if tn_AssignedInstance task \<noteq> '''' \<and>
           (\<exists>j \<in> set instances. qualifies c seen task nodes j \<and> in_ID j = tn_AssignedInstance task)
      then in_ID i = tn_AssignedInstance task
      else \<forall>j \<in> set instances. qualifies c seen task nodes j \<longrightarrow>
        rank seen g task nodes i < rank seen g task nodes j \<or>
        rank seen g task nodes i = rank seen g task nodes j \<and> in_ID i \<le> in_ID j)"

lemma schedulable_iff:
  "isSchedulableInstanceState st \<longleftrightarrow> st \<in> {InstanceStateReady, InstanceStateBusy}"
  "isSchedulableNodeState nst \<longleftrightarrow> nst \<in> {NodeStateReady, NodeStateDegraded}"
  by (cases st; simp) (cases nst; simp)

lemma qualifies_iff: "qualifies c seen task nodes i \<longleftrightarrow> is_candidate (agentDefinition c (taskProfile task)) seen nodes i"
  by (auto simp: qualifies_def is_candidate_iff isEligibleNode_iff nodeAtCapacity_iff schedulable_iff not_le)

lemma rank_step:
  fixes x y :: int and xs ys :: "int list"
  assumes "\<not> P \<Longrightarrow> xs < ys \<or> xs = ys \<and> Q"
  shows "\<not> (if y \<noteq> x then y < x else P) \<Longrightarrow> x # xs < y # ys \<or> x # xs = y # ys \<and> Q"
    and "\<not> (if y \<noteq> x then y > x else P) \<Longrightarrow> - x # xs < - y # ys \<or> - x # xs = - y # ys \<and> Q"
  using assms by (auto split: if_split_asm)

lemma not_preferred_rank:
  assumes "is_candidate def seen nodes i" "is_candidate def seen nodes j" "\<not> preferred seen g task nodes j i"
  shows "rank seen g task nodes i < rank seen g task nodes j \<or>
    rank seen g task nodes i = rank seen g task nodes j \<and> in_ID i \<le> in_ID j"
proof -
  have p: "schedulableInstancePriority (in_State k) = (if in_State k = InstanceStateReady then 0 else 1)"
    if "is_candidate def seen nodes k" for k
    using that by (cases "in_State k") (auto simp: is_candidate_def)
  have e: "effectiveNodeTaskCapacity n = (case n of
      Some n \<Rightarrow> if 0 < cap_MaxTasks (nd_Capacity n) then cap_MaxTasks (nd_Capacity n) else 2 ^ 30 | None \<Rightarrow> 2 ^ 30)" for n
    by (auto simp: effectiveNodeTaskCapacity_def split: option.splits)
  show ?thesis
    using assms(3) unfolding rank_def less_loaded_def Let_def p [OF assms(1)] p [OF assms(2)] e
    by (elim rank_step [rotated]) simp
qed

lemma no_sound_choice: "choose_instance c seen g task nodes instances = None \<Longrightarrow> \<forall>i \<in> set instances. \<not> qualifies c seen task nodes i"
  by (simp add: choose_instance_None qualifies_iff)

lemma chosen_sound:
  assumes "choose_instance c seen g task nodes instances = Some i"
  shows "sound_choice c seen g task nodes instances i"
  using choose_instance_Some [OF assms] not_preferred_rank unfolding sound_choice_def qualifies_iff
  by (metis (no_types, lifting))

text \<open>
  Claim C7: a task is placed on an instance of its profile that the store lists, that is ready or busy and has
  an address, on a node that carries every label the profile requires and that, when the store lists it, is ready or degraded and below its
  limit of tasks. The instance the task had before is kept when it still qualifies; otherwise the chosen one has the least rank of all listed
  ones that qualify: fewest tasks on the node, then on the instance, then of the request on the node, the largest limit, ready before busy,
  the freshest heartbeat, the least ID. The store has granted the lease of the task for that instance, its node and the scheduler's owner,
  the task carries the epoch of that lease, and the loads are counted on the instance and the node. The error that all
  are at capacity, after which the task is tried again, is returned only when no listed instance qualifies; and without a placement no load is counted.
\<close>

theorem placement_sound:
  assumes "prepareTaskPlacement c seen g task (s, l) = ((s', l'), task', r)"
  shows "(\<forall>p. r = Inr (Some p) \<longrightarrow>
      (\<exists>cp s1 instances s2 nodes i. sc_ControlPlane c = Some cp \<and>
         mb_ListInstances (sto_membership cp) (of_profile (taskProfile task)) s = (s1, Inr instances) \<and>
         instanceNodeMap c instances s1 = (s2, Inr nodes) \<and> sound_choice c seen g task nodes instances i \<and>
         ls_AcquireTaskLease (sto_leases cp) (wanted_task_lease c task i) taskLeaseTTL s2 = (s', Inr (tp_taskLease p, True)) \<and>
         l' = acquireInstance (in_ID i) (in_NodeID i) l \<and>
         tn_AssignedInstance task' = in_ID i \<and> tn_ExecutionNode task' = in_NodeID i \<and> tn_LeaseEpoch task' = tl_Epoch (tp_taskLease p))) \<and>
    ((\<nexists>p. r = Inr (Some p)) \<longrightarrow> l' = l) \<and>
    (r = Inl (AllAtCapacity (taskProfile task)) \<longrightarrow> isRecoverableDispatchError (AllAtCapacity (taskProfile task)) \<and>
      (\<exists>cp s1 instances nodes. sc_ControlPlane c = Some cp \<and>
         mb_ListInstances (sto_membership cp) (of_profile (taskProfile task)) s = (s1, Inr instances) \<and>
         instanceNodeMap c instances s1 = (s', Inr nodes) \<and> (\<forall>i \<in> set instances. \<not> qualifies c seen task nodes i)))"
proof (intro conjI allI impI)
  fix p assume "r = Inr (Some p)"
  with assms have "prepareTaskPlacement c seen g task (s, l) = ((s', l'), task', Inr (Some p))" by simp
  then obtain cp s1 instances s2 nodes i where p: "sc_ControlPlane c = Some cp"
    "mb_ListInstances (sto_membership cp) (of_profile (taskProfile task)) s = (s1, Inr instances)"
    "instanceNodeMap c instances s1 = (s2, Inr nodes)"
    "choose_instance c seen g task nodes instances = Some i"
    "ls_AcquireTaskLease (sto_leases cp) (wanted_task_lease c task i) taskLeaseTTL s2 = (s', Inr (tp_taskLease p, True))"
    "l' = acquireInstance (in_ID i) (in_NodeID i) l"
    "task' = task\<lparr>tn_AssignedInstance := in_ID i, tn_ExecutionNode := in_NodeID i, tn_LeaseEpoch := tl_Epoch (tp_taskLease p)\<rparr>"
    by (rule prepareTaskPlacement_Some)
  show "\<exists>cp s1 instances s2 nodes i. sc_ControlPlane c = Some cp \<and>
         mb_ListInstances (sto_membership cp) (of_profile (taskProfile task)) s = (s1, Inr instances) \<and>
         instanceNodeMap c instances s1 = (s2, Inr nodes) \<and> sound_choice c seen g task nodes instances i \<and>
         ls_AcquireTaskLease (sto_leases cp) (wanted_task_lease c task i) taskLeaseTTL s2 = (s', Inr (tp_taskLease p, True)) \<and>
         l' = acquireInstance (in_ID i) (in_NodeID i) l \<and>
         tn_AssignedInstance task' = in_ID i \<and> tn_ExecutionNode task' = in_NodeID i \<and> tn_LeaseEpoch task' = tl_Epoch (tp_taskLease p)"
    by (intro exI conjI) (rule p chosen_sound [OF p(4)] | simp add: p(7))+
next
  assume "\<nexists>p. r = Inr (Some p)"
  then show "l' = l" by (rule placement_none_loads [OF assms])
next
  assume "r = Inl (AllAtCapacity (taskProfile task))"
  with assms have "prepareTaskPlacement c seen g task (s, l) = ((s', l'), task', Inl (AllAtCapacity (taskProfile task)))" by simp
  from placement_at_capacity [OF this]
  show "\<exists>cp s1 instances nodes. sc_ControlPlane c = Some cp \<and>
         mb_ListInstances (sto_membership cp) (of_profile (taskProfile task)) s = (s1, Inr instances) \<and>
         instanceNodeMap c instances s1 = (s', Inr nodes) \<and> (\<forall>i \<in> set instances. \<not> qualifies c seen task nodes i)"
    by (elim exE conjE, intro exI conjI) (assumption | erule no_sound_choice)+
qed simp

section \<open>A demonstration\<close>

definition demo_conf :: "(MemoryStore, store_error) SchedulerConf" where
  "demo_conf = \<lparr>sc_RequestID = ''r'', sc_LeaseOwnerID = '''', sc_Agents = [], sc_ControlPlane = Some (memory_Store 7)\<rparr>"

text \<open>One node that takes one task, with two instances of the profile dev.\<close>

definition demo_calls :: "store_call list" where
  "demo_calls =
     [CRegisterNode 5 5 ((Membership.demo_node ''n1'' NodeStateReady 5)\<lparr>nd_Capacity := \<lparr>cap_MaxInstances = 2, cap_MaxTasks = 1\<rparr>\<rparr>),
      CRegisterInstance 5 5 (demo_instance ''i1'' ''n1'' InstanceStateReady 5),
      CRegisterInstance 5 5 (demo_instance ''i2'' ''n1'' InstanceStateReady 6)]"

definition demo_cluster :: MemoryStore where
  "demo_cluster = run_store demo_calls (NewMemoryStore ''fab'')"

definition no_loads :: loads where "no_loads = \<lparr>lo_instance = [], lo_node = []\<rparr>"

definition dev_task :: "string \<Rightarrow> TaskNode" where
  "dev_task i = (task_of_agent ''dev'')\<lparr>tn_ID := i, tn_Status := StatusPending\<rparr>"

text \<open>
  Two goroutines that select before either has counted its load place two tasks on a node that takes one: the
  loads are read and written under the mutex, but not together.
\<close>

lemma placement_race:
  "(let (w1, _, r1) = prepareTaskPlacement demo_conf no_loads None (dev_task ''t1'') (demo_cluster, no_loads);
        (w2, _, r2) = prepareTaskPlacement demo_conf no_loads None (dev_task ''t2'') w1
    in node_limit demo_cluster ''n1'' = 1 \<and> nodeLoad (snd w2) ''n1'' = 2)"
  by code_simp

text \<open>
  A profile leased to an instance that is gone: the agent of a loop is placed on another instance under the
  renewed lease, which still names the one that is gone.
\<close>

lemma leased_instance_ignored:
  "(let gone = wanted_profile_lease demo_conf ''dev'' (demo_instance ''i0'' ''n0'' InstanceStateReady 5);
        s = fst (AcquireProfileLease 5 gone profileLeaseTTL demo_cluster);
        instances = list_instances (of_profile ''dev'') s
    in case snd (acquireProfilePlacement demo_conf (memory_Store 7) no_loads None ''dev'' instances s) of
         Inr (Some (i, lease)) \<Rightarrow> in_ID i = ''i2'' \<and> pl_AssignedInstance lease = ''i0'' | _ \<Rightarrow> False)"
  by code_simp

text \<open>The first task goes to the fresher instance; the second finds the node full.\<close>

lemma demo_placed:
  "(case prepareTaskPlacement demo_conf no_loads None (dev_task ''t1'') (demo_cluster, no_loads) of
      (w, task, Inr (Some p)) \<Rightarrow> tn_AssignedInstance task = ''i2'' | _ \<Rightarrow> False)"
  by code_simp

theorem placement_sound_witness:
  "\<exists>nodes instances i. sound_choice demo_conf no_loads None (dev_task ''t1'') nodes instances i \<and> in_ID i = ''i2''"
proof -
  obtain s' l' task' p where r: "prepareTaskPlacement demo_conf no_loads None (dev_task ''t1'') (demo_cluster, no_loads) =
      ((s', l'), task', Inr (Some p))" "tn_AssignedInstance task' = ''i2''"
    using demo_placed by (auto split: prod.splits sum.splits option.splits)
  from placement_sound [OF r(1)] obtain nodes instances i where
    "sound_choice demo_conf no_loads None (dev_task ''t1'') nodes instances i" "tn_AssignedInstance task' = in_ID i"
    by auto
  with r(2) show ?thesis by metis
qed


definition demo_events :: "placement_event list" where
  "demo_events = [Place 7 None (dev_task ''t1''), Place 7 None (dev_task ''t2''), Finished 8 0, Place 8 None (dev_task ''t2'')]"

lemma demo_placements: "length (snd (placement_run demo_conf memory_Store demo_events demo_cluster)) = 1"
  by code_simp

lemma demo_node_limit: "node_limit demo_cluster ''n1'' = 1"
  by code_simp


section \<open>Loops and health\<close>

text \<open>Every agent of a loop is placed at most once, with one lease for each placement.\<close>

lemma assign_states_shape:
  "assign_states c cp l g states (as, ls) s = (s', (as', ls'), r) \<Longrightarrow> gowf as \<Longrightarrow> length ls = length as \<Longrightarrow>
     gowf as' \<and> length ls' = length as' \<and> set (mkeys as') \<subseteq> set (mkeys as) \<union> (sc_Agent ` set states - {''''}) \<and>
     (\<forall>i \<in> set (mvals as'). i \<in> set (mvals as) \<or> in_ID i \<noteq> '''')"
proof (induction states arbitrary: "as" ls s)
  case Nil
  then show ?case by simp
next
  case (Cons state states)
  have len: "length (mput k v as) = Suc (length as)" if "mget as k = None" for k and v :: AgentInstance
    using that by (induction "as") (auto split: if_splits)
  have vals: "set (mvals (mput k v as)) \<subseteq> insert v (set (mvals as))" for k and v :: AgentInstance
    by (induction "as") auto
  from Cons.prems(1) consider (skip) s1 where "assign_states c cp l g states (as, ls) s1 = (s', (as', ls'), r)"
    | (fail) "as' = as" "ls' = ls"
    | (place) i lease s2 where "mget as (sc_Agent state) = None" "sc_Agent state \<noteq> ''''" "in_ID i \<noteq> ''''"
        "assign_states c cp l g states (mput (sc_Agent state) i as, ls @ [lease]) s2 = (s', (as', ls'), r)"
    by (auto split: if_splits prod.splits sum.splits option.splits)
  then show ?case
  proof cases
    case skip
    from Cons.IH [OF this Cons.prems(2,3)] show ?thesis by auto
  next
    case fail
    with Cons.prems show ?thesis by auto
  next
    case place
    from Cons.IH [OF place(4)] Cons.prems(2,3) place(1)
    have "gowf as'" "length ls' = length as'"
      "set (mkeys as') \<subseteq> set (mkeys (mput (sc_Agent state) i as)) \<union> (sc_Agent ` set states - {''''})"
      "\<forall>j \<in> set (mvals as'). j \<in> set (mvals (mput (sc_Agent state) i as)) \<or> in_ID j \<noteq> ''''"
      by (simp_all add: len distinct_update)
    moreover have "set (mkeys (mput (sc_Agent state) i as)) = insert (sc_Agent state) (set (mkeys as))"
      by (simp add: AList.dom_update)
    ultimately show ?thesis using vals [of "sc_Agent state" i] place(2,3) by (auto simp del: set_map)
  qed
qed

lemma loop_assignments_shape:
  assumes "prepareLoopAssignments c l g def s = (s', Inr (Some (assignments, p, first)))"
  shows "gowf assignments \<and> assignments \<noteq> [] \<and> length (lp_leases p) = length assignments \<and>
    (\<forall>a i. mget assignments a = Some i \<longrightarrow> a \<in> sc_Agent ` set (ld_States def) \<and> in_ID i \<noteq> '''') \<and>
    first = mget assignments (AgentForState def (ld_InitialState def)) \<and>
    (AgentForState def (ld_InitialState def) \<noteq> '''' \<longrightarrow> first \<noteq> None)"
proof -
  from assms obtain cp s1 where a: "assign_states c cp l g (ld_States def) ([], []) s = (s1, (assignments, lp_leases p), None)"
    and r: "assignments \<noteq> []" "first = mget assignments (AgentForState def (ld_InitialState def))"
      "AgentForState def (ld_InitialState def) \<noteq> '''' \<longrightarrow> first \<noteq> None"
    by (auto simp: prepareLoopAssignments_def Let_def split: option.splits prod.splits if_splits)
  from assign_states_shape [OF a] have shape: "gowf assignments" "length (lp_leases p) = length assignments"
    "set (mkeys assignments) \<subseteq> sc_Agent ` set (ld_States def)" "\<forall>i \<in> set (mvals assignments). in_ID i \<noteq> ''''"
    by auto
  have "a \<in> sc_Agent ` set (ld_States def) \<and> in_ID i \<noteq> ''''" if "mget assignments a = Some i" for a i
    using map_of_SomeD [OF that] shape(3,4) by force
  with shape r show ?thesis by blast
qed

lemma health_parts:
  "sc_ControlPlane c = Some cp \<Longrightarrow> snd (checkTaskExecutionHealth c task s) = None \<longleftrightarrow>
     snd (node_health cp task s) = None \<and> snd (instance_health cp task (fst (node_health cp task s))) = None \<and>
     snd (lease_health c cp task (fst (instance_health cp task (fst (node_health cp task s))))) = None"
  by (auto simp: checkTaskExecutionHealth_def split: prod.splits option.splits)

text \<open>On the memory store a task passes its health check exactly when its node, its instance and its lease are as they should be.\<close>

lemma health_iff:
  assumes "sc_ControlPlane c = Some (memory_Store now)"
  shows "snd (checkTaskExecutionHealth c task s) = None \<longleftrightarrow>
    (tn_ExecutionNode task \<noteq> '''' \<longrightarrow>
       (\<exists>n. mget (ms_nodes (normalize now s)) (tn_ExecutionNode task) = Some n \<and> isRunningNodeState (nd_State n))) \<and>
    (tn_AssignedInstance task \<noteq> '''' \<longrightarrow>
       (\<exists>i. mget (ms_instances (normalize now (fst (node_health (memory_Store now) task s)))) (tn_AssignedInstance task) = Some i \<and>
          isRunningInstanceState (in_State i) \<and> ep_Address (in_Endpoint i) \<noteq> '''')) \<and>
    (tn_LeaseEpoch task \<noteq> 0 \<longrightarrow>
       (\<exists>l. snd (GetTaskLease now (sc_RequestID c) (tn_ID task)
              (fst (instance_health (memory_Store now) task (fst (node_health (memory_Store now) task s))))) = Inr (Some l) \<and>
          tl_OwnerID l = leaseOwnerID c \<and> tl_Epoch l = tn_LeaseEpoch task))"
proof -
  let ?cp = "memory_Store now"
  have node: "snd (node_health ?cp task s) = None \<longleftrightarrow>
      (tn_ExecutionNode task \<noteq> '''' \<longrightarrow>
         (\<exists>n. mget (ms_nodes (normalize now s)) (tn_ExecutionNode task) = Some n \<and> isRunningNodeState (nd_State n)))" for s
    by (auto simp: node_health_def memory_Store_def GetNode_def Let_def simp del: normalize_members split: option.splits)
  have inst: "snd (instance_health ?cp task s) = None \<longleftrightarrow>
      (tn_AssignedInstance task \<noteq> '''' \<longrightarrow>
         (\<exists>i. mget (ms_instances (normalize now s)) (tn_AssignedInstance task) = Some i \<and>
            isRunningInstanceState (in_State i) \<and> ep_Address (in_Endpoint i) \<noteq> ''''))" for s
    by (auto simp: instance_health_def memory_Store_def GetInstance_def Let_def simp del: normalize_members split: option.splits)
  have get: "\<exists>r. snd (GetTaskLease now a b s) = Inr r" for a b s
    by (auto simp: GetTaskLease_def Let_def split: option.splits)
  have lease: "snd (lease_health c ?cp task s) = None \<longleftrightarrow>
      (tn_LeaseEpoch task \<noteq> 0 \<longrightarrow> (\<exists>l. snd (GetTaskLease now (sc_RequestID c) (tn_ID task) s) = Inr (Some l) \<and>
         tl_OwnerID l = leaseOwnerID c \<and> tl_Epoch l = tn_LeaseEpoch task))" for s
    using get [of "sc_RequestID c" "tn_ID task" s]
    by (auto simp: lease_health_def memory_Store_def split: option.splits prod.splits if_splits)
  show ?thesis unfolding health_parts [OF assms] node inst lease ..
qed

end
