(* ===== verification/ConductorText.thy ===== *)
theory ConductorText
  imports KnowledgeLookup AgentResult Placement Meter
begin

text \<open>
  The texts and data the conductor gives to models and agents: the context of a decomposition
  (internal/conductor/decompose_context.go) and the parts of a task assignment with what is read off a result
  (scheduler.go). Texts are their bytes. A storage is its function \<open>List\<close> from a pattern to the matching
  paths, \<open>None\<close> for an error; \<open>rnd\<close> rounds to a float64, as in \<open>KnowledgeLookup\<close>.
\<close>

section \<open>Texts of bounded length (decompose_context.go)\<close>

definition right_arrow :: string where "right_arrow = map char_of [226, 134, 146 :: nat]"

definition decomposeLookupMaxDepth :: int where "decomposeLookupMaxDepth = 1"
definition decomposeLookupMaxNodes :: int where "decomposeLookupMaxNodes = 8"
definition decomposeLineSummaryChars :: int where "decomposeLineSummaryChars = 180"
definition decomposeLineTitleChars :: int where "decomposeLineTitleChars = 72"
definition decomposeContextMaxChars :: int where "decomposeContextMaxChars = 2600"
definition decomposeArtifactMaxChars :: int where "decomposeArtifactMaxChars = 1200"
definition decomposeDecisionMaxChars :: int where "decomposeDecisionMaxChars = 800"
definition decomposeUserRequestMaxChars :: int where "decomposeUserRequestMaxChars = 800"

definition appendTruncated :: "string \<Rightarrow> string \<Rightarrow> int \<Rightarrow> string \<times> bool" where
  "appendTruncated b line maxChars =
     (let remaining = maxChars - int (length b)
      in if remaining \<le> 0 then (b, False)
         else if int (length line) + 1 > remaining then
           (if remaining \<le> 16 then (b, False)
            else (b @ take (nat (remaining - 16)) line @ '' ...[truncated]'' @ newline, False))
         else (b @ line @ newline, True))"

text \<open>The loops that append lines until one does not fit.\<close>

fun append_lines :: "int \<Rightarrow> string list \<Rightarrow> string \<Rightarrow> string" where
  "append_lines maxChars [] b = b"
| "append_lines maxChars (line # lines) b =
     (case appendTruncated b line maxChars of (b', ok) \<Rightarrow> if ok then append_lines maxChars lines b' else b')"

text \<open>
  \<open>htmlTagRE\<close> with \<open>ReplaceAllString\<close>: every leftmost run from an opening to the next closing angle bracket with
  something between becomes a space. \<open>strings.Fields\<close> splits at white space.
\<close>

fun strip_tags :: "nat \<Rightarrow> string \<Rightarrow> string" where
  "strip_tags fuel [] = []"
| "strip_tags 0 s = s"
| "strip_tags (Suc fuel) (c # s) =
     (if c = CHR ''<'' \<and> takeWhile (\<lambda>d. d \<noteq> CHR ''>'') s \<noteq> [] \<and> CHR ''>'' \<in> set s
      then CHR '' '' # strip_tags fuel (tl (dropWhile (\<lambda>d. d \<noteq> CHR ''>'') s))
      else c # strip_tags fuel s)"

fun fields_space :: "string \<Rightarrow> string \<Rightarrow> string list" where
  "fields_space acc [] = (if acc = [] then [] else [acc])"
| "fields_space acc (c # s) =
     (if is_space c then (if acc = [] then fields_space [] s else acc # fields_space [] s)
      else fields_space (acc @ [c]) s)"

definition sanitizeKnowledgeLine :: "string \<Rightarrow> int \<Rightarrow> string" where
  "sanitizeKnowledgeLine s max_chars =
     (if max_chars \<le> 0 then ''''
      else
        (let s1 = strip_tags (length s) s;
             s2 = filter (\<lambda>c. [c] \<noteq> btick) s1;
             s3 = join '' '' (fields_space [] s2)
         in if int (length s3) \<le> max_chars then trim_space s3
            else trim_space (take (nat max_chars) s3) @ ''...''))"

section \<open>The context of a decomposition (decompose_context.go)\<close>

definition knowledge_line :: "KNode \<Rightarrow> string" where
  "knowledge_line n =
     (let title0 = sanitizeKnowledgeLine (kn_Title n) decomposeLineTitleChars;
          title = (if title0 = '''' then sanitizeKnowledgeLine (kn_ID n) decomposeLineTitleChars else title0);
          summary = sanitizeKnowledgeLine (kn_Summary n) decomposeLineSummaryChars;
          req = sanitizeKnowledgeLine (kn_RequestName n) 40
      in ''- ['' @ kn_Agent n @ ''] '' @ title
         @ (if req \<noteq> '''' then '' (from '' @ quote req @ '')'' else '''')
         @ (if summary \<noteq> '''' then newline @ ''  '' @ summary else ''''))"

text \<open>The lookup counts its hits in the graph.\<close>

definition decomposeKnowledge :: "time \<Rightarrow> (rat \<Rightarrow> rat) \<Rightarrow> Graph option \<Rightarrow> string \<Rightarrow> string \<times> Graph option" where
  "decomposeKnowledge now rnd graph userRequest =
     (case graph of
        None \<Rightarrow> ('''', graph)
      | Some g \<Rightarrow>
          (let query = trim_space userRequest
           in if kg_Nodes g = [] \<or> query = '''' then ('''', graph)
              else
                (case Lookup now rnd (Some g) '''' query
                        \<lparr>lo_MaxDepth = decomposeLookupMaxDepth, lo_MaxNodes = decomposeLookupMaxNodes\<rparr> of
                   (r, graph') \<Rightarrow>
                     if lr_Related r = [] then ('''', graph')
                     else
                       (let nodes = concat (map (\<lambda>rn. case mget (kg_Nodes g) (rn_ID rn) of Some n \<Rightarrow> [n] | None \<Rightarrow> []) (lr_Related r))
                        in (trim_space (append_lines decomposeContextMaxChars (map knowledge_line nodes)
                              (''Prior relevant knowledge (shallow lookup):'' @ newline)), graph')))))"

definition artifact_pattern :: "nat \<Rightarrow> string" where
  "artifact_pattern depth = ''artifacts/'' @ concat (replicate (depth - 1) ''*/'') @ ''*''"

text \<open>The patterns of depth \<open>d\<close> to 5 in turn, up to the first that fails.\<close>

fun list_depths :: "(string \<Rightarrow> string list option) \<Rightarrow> nat list \<Rightarrow> string list" where
  "list_depths lst [] = []"
| "list_depths lst (d # ds) =
     (case lst (artifact_pattern d) of None \<Rightarrow> [] | Some files \<Rightarrow> files @ list_depths lst ds)"

fun first_seen :: "string list \<Rightarrow> string list" where
  "first_seen [] = []"
| "first_seen (f # fs) = f # filter (\<lambda>g. g \<noteq> f) (first_seen fs)"

definition conductor_noiseSegments :: "string list" where
  "conductor_noiseSegments = [''/node_modules/'', ''/_requests/'', ''/.git/'', ''/dist/'', ''/build/'', ''/.next/'',
     ''/__pycache__/'', ''/vendor/'', ''/.cache/'', ''/coverage/'', ''/.vite/'']"

definition conductor_isArtifactNoise :: "string \<Rightarrow> bool" where
  "conductor_isArtifactNoise path =
     (let p = to_lower path
      in if list_ex (contains p) conductor_noiseSegments then True
         else path_base p \<in> set [''package-lock.json'', ''yarn.lock'', ''pnpm-lock.yaml'', ''.ds_store''])"

definition shared_files :: "(string \<Rightarrow> string list option) \<Rightarrow> string list" where
  "shared_files lst = filter (\<lambda>f. \<not> conductor_isArtifactNoise f) (first_seen (list_depths lst [1, 2, 3, 4, 5]))"

definition add_agent_file :: "string \<Rightarrow> (string, string list) gomap \<Rightarrow> (string, string list) gomap" where
  "add_agent_file f m =
     (let parts = split_on slash f
      in if length parts < 3 then m
         else mput (parts ! 1) (mget0 [] m (parts ! 1) @ [join ''/'' (drop 2 parts)]) m)"

text \<open>The agents to show, in the order of their names.\<close>

definition relevant_agents :: "(rat \<Rightarrow> rat) \<Rightarrow> string \<Rightarrow> (string, string list) gomap \<Rightarrow> string list" where
  "relevant_agents rnd userRequest agentFiles =
     (let keywords = Tokenize userRequest;
          scored = sort_slice (\<lambda>a b. snd a > snd b)
            (map (\<lambda>(agent, files). (agent, KeywordRelevance rnd (agent @ '' '' @ join '' '' files) keywords)) agentFiles);
          hasRelevant = keywords \<noteq> [] \<and> snd (hd scored) \<ge> float_01
      in sort (map fst (if hasRelevant then filter (\<lambda>a. snd a \<ge> float_01) scored else scored)))"

definition decomposeArtifacts :: "(rat \<Rightarrow> rat) \<Rightarrow> (string \<Rightarrow> string list option) \<Rightarrow> string \<Rightarrow> string" where
  "decomposeArtifacts rnd lst userRequest =
     (let agentFiles = foldl (\<lambda>m f. add_agent_file f m) [] (shared_files lst)
      in if agentFiles = [] then ''''
         else trim_space (append_lines decomposeArtifactMaxChars
                (map (\<lambda>agent. ''- '' @ agent @ '': '' @ join '', '' (sort (mget0 [] agentFiles agent)))
                  (relevant_agents rnd userRequest agentFiles))
                (''Existing artifacts on disk:'' @ newline)))"

definition node_text :: "KNode \<Rightarrow> string" where
  "node_text n = kn_Title n @ '' '' @ kn_Summary n @ '' '' @ join '' '' (kn_Tags n)"

definition summary_or_title :: "KNode \<Rightarrow> string" where
  "summary_or_title n =
     (let summary = sanitizeKnowledgeLine (kn_Summary n) decomposeLineSummaryChars
      in if summary = '''' then sanitizeKnowledgeLine (kn_Title n) decomposeLineSummaryChars else summary)"

definition conflict_warning :: "DecisionConflict \<Rightarrow> string" where
  "conflict_warning c =
     ''CONFLICT ['' @ dc_Tag c @ '']: '' @ dc_NodeA c @ '' and '' @ dc_NodeB c @ '' both govern '' @ quote (dc_Tag c)
     @ '' '' @ em_dash @ '' resolve before proceeding''"

fun append_warnings :: "int \<Rightarrow> string list \<Rightarrow> string \<Rightarrow> string" where
  "append_warnings maxChars [] b = b"
| "append_warnings maxChars (w # ws) b =
     (if maxChars - int (length b) \<le> int (length w) + 1 then b else append_warnings maxChars ws (b @ w @ newline))"

definition decomposeDecisions :: "time \<Rightarrow> (rat \<Rightarrow> rat) \<Rightarrow> Graph option \<Rightarrow> string \<Rightarrow> string" where
  "decomposeDecisions now rnd graph userRequest =
     (case graph of
        None \<Rightarrow> ''''
      | Some g \<Rightarrow>
          (let decisions = ActiveDecisions now g;
               keywords = Tokenize userRequest;
               scored = map (\<lambda>n. (n, KeywordRelevance rnd (node_text n) keywords)) decisions;
               relevant = filter (\<lambda>(n, s). keywords = [] \<or> s \<ge> float_01) scored;
               conflicts = DetectDecisionConflicts now g
           in if kg_Nodes g = [] \<or> decisions = [] \<or> relevant = [] \<and> conflicts = [] then ''''
              else
                (let shown = sort_slice (\<lambda>a b. snd a > snd b) relevant;
                     b = (if relevant = [] then ''''
                          else append_lines decomposeDecisionMaxChars
                                 (map (\<lambda>(n, s). ''- ['' @ kn_Agent n @ ''] '' @ summary_or_title n) shown)
                                 (''Active project decisions:'' @ newline))
                 in trim_space (append_warnings decomposeDecisionMaxChars (map conflict_warning conflicts) b))))"

text \<open>The requests but the first: those about the words of the new one, each ID once.\<close>

fun include_requests :: "(KNode \<Rightarrow> bool) \<Rightarrow> string list \<Rightarrow> KNode list \<Rightarrow> KNode list" where
  "include_requests about included [] = []"
| "include_requests about included (n # ns) =
     (if about n \<and> kn_ID n \<notin> set included then n # include_requests about (kn_ID n # included) ns
      else include_requests about included ns)"

definition decomposeUserRequests :: "time \<Rightarrow> (rat \<Rightarrow> rat) \<Rightarrow> Graph option \<Rightarrow> string \<Rightarrow> string" where
  "decomposeUserRequests now rnd graph userRequest =
     (case graph of
        None \<Rightarrow> ''''
      | Some g \<Rightarrow>
          if kg_Nodes g = [] then ''''
          else
            (case RecentUserRequests now 10 g of
               [] \<Rightarrow> ''''
             | newest # older \<Rightarrow>
                 (let keywords = Tokenize userRequest;
                      about = (\<lambda>n. keywords = [] \<or> KeywordRelevance rnd (kn_Title n @ '' '' @ kn_Summary n) keywords \<ge> float_01);
                      filtered = newest # include_requests about [kn_ID newest] older
                  in trim_space (append_lines decomposeUserRequestMaxChars
                       (map (\<lambda>n. ''- '' @ summary_or_title n) filtered) (''Recent user requests:'' @ newline)))))"

section \<open>What is read off a result (scheduler.go)\<close>

definition extractMetaTaskID :: "Message \<Rightarrow> string" where
  "extractMetaTaskID msg = mget0 '''' (m_Metadata msg) ''task_id''"

fun text_of_part :: "Part \<Rightarrow> string option" where
  "text_of_part (TextPart t) = Some t"
| "text_of_part _ = None"

definition result_text :: "Message \<Rightarrow> string" where
  "result_text msg = (case first_some text_of_part (m_Parts msg) of Some t \<Rightarrow> t | None \<Rightarrow> '''')"

fun file_of_part :: "Part \<Rightarrow> ArtifactFile list" where
  "file_of_part (FilePart u m n) = [\<lparr>af_URI = u, af_MimeType = m, af_Name = n\<rparr>]"
| "file_of_part _ = []"

definition extractArtifactFiles :: "Message \<Rightarrow> ArtifactFile list" where
  "extractArtifactFiles msg = concat (map file_of_part (m_Parts msg))"

text \<open>A path up to and with its last slash: empty when it has none.\<close>

definition up_to_slash :: "string \<Rightarrow> string" where
  "up_to_slash p = rev (dropWhile (\<lambda>c. c \<noteq> slash) (rev p))"

definition trim_slash :: "string \<Rightarrow> string" where
  "trim_slash p = (if has_suffix p ''/'' then butlast p else p)"

text \<open>The prefix is cut back by whole directories until the path has it.\<close>

lemma up_to_slash_length: "length (up_to_slash p) \<le> length p"
  by (metis length_dropWhile_le length_rev up_to_slash_def)

lemma suffix_slash: "has_suffix p ''/'' \<longleftrightarrow> (\<exists>r. p = r @ [slash])"
  by (auto simp: has_suffix_iff slash_def)

lemma up_to_slash_strict: "\<not> has_suffix p ''/'' \<Longrightarrow> p \<noteq> [] \<Longrightarrow> length (up_to_slash p) < length p"
  by (cases p rule: rev_cases) (auto simp: suffix_slash up_to_slash_def less_Suc_eq_le intro: order_trans [OF length_dropWhile_le])

lemma cut_shorter:
  assumes "up_to_slash (trim_slash p) \<noteq> []"
  shows "length (up_to_slash (trim_slash p)) < length p"
proof (cases "has_suffix p ''/''")
  case True
  then show ?thesis using up_to_slash_length [of "trim_slash p"] by (auto simp: trim_slash_def suffix_slash)
next
  case False
  moreover from False assms have "p \<noteq> []" by (auto simp: trim_slash_def up_to_slash_def)
  ultimately show ?thesis using up_to_slash_strict [of p] by (simp add: trim_slash_def)
qed

function cut_back :: "string \<Rightarrow> string \<Rightarrow> string" where
  "cut_back prefix p =
     (if has_prefix p prefix then prefix
      else if up_to_slash (trim_slash prefix) = [] then []
      else cut_back (up_to_slash (trim_slash prefix)) p)"
  by pat_completeness auto

termination
  by (relation "measure (\<lambda>(prefix, p). length prefix)") (simp_all add: cut_shorter)

text \<open>An empty prefix from the loop is the early return of the empty string.\<close>

definition commonDirPrefix :: "string list \<Rightarrow> string" where
  "commonDirPrefix paths =
     (case paths of
        [] \<Rightarrow> ''''
      | path # rest \<Rightarrow>
          (let prefix = foldl cut_back path rest
           in if has_suffix prefix ''/'' then prefix else up_to_slash prefix))"

definition extractArtifactURI :: "Message \<Rightarrow> string" where
  "extractArtifactURI msg =
     (let uris = map af_URI (extractArtifactFiles msg)
      in if uris = [] then '''' else if length uris = 1 then hd uris else commonDirPrefix uris)"

definition recordRemoteUsage :: "Message \<Rightarrow> Meter \<Rightarrow> Meter" where
  "recordRemoteUsage result meter =
     (case m_TokenUsage result of
        None \<Rightarrow> meter
      | Some tu \<Rightarrow>
          if tu_TotalCalls tu = 0 then meter
          else if 0 < sint (us_TotalCalls (Usage (m_From result) meter)) then meter
          else
            (let blank = \<lparr>cr_AgentName = m_From result, cr_RequestID = m_RequestID result, cr_TaskID = '''', cr_Model = tu_Model tu,
                   cr_InputTokens = 0, cr_OutputTokens = 0, cr_CacheReadTokens = 0, cr_Duration = 0,
                   cr_Timestamp = m_Timestamp result, cr_FinishReason = ''''\<rparr>;
                 first = blank\<lparr>cr_InputTokens := of_int (tu_InputTokens tu), cr_OutputTokens := of_int (tu_OutputTokens tu),
                   cr_CacheReadTokens := of_int (tu_CacheReadTokens tu)\<rparr>
             in foldl (\<lambda>m r. Record r m) (Record first meter) (replicate (nat (tu_TotalCalls tu - 1)) blank)))"

section \<open>The parts of an assignment (scheduler.go)\<close>

text \<open>A Go map from IDs to lists, looked up in: the tasks that depend on a task, once for each mention.\<close>

definition downstream :: "TaskGraph \<Rightarrow> string \<Rightarrow> string list" where
  "downstream g tid = concat (map (\<lambda>t. map (\<lambda>_. tn_ID t) (filter (\<lambda>d. d = tid) (tn_DependsOn t))) (tg_Tasks g))"

definition agent_purpose :: "AgentDefinition list \<Rightarrow> string \<Rightarrow> string" where
  "agent_purpose agents name = (case find (\<lambda>a. ad_Name a = name) (rev agents) of Some a \<Rightarrow> ad_Purpose a | None \<Rightarrow> '''')"

definition pipeline_line :: "TaskGraph \<Rightarrow> TaskNode \<Rightarrow> TaskNode \<Rightarrow> string" where
  "pipeline_line g task t =
     ''- '' @ tn_ID t @ '' ('' @ taskProfile t @ '')'' @ (if tn_ID t = tn_ID task then '' [YOU]'' else '''') @ '': ''
     @ quote (tn_Description t)
     @ (if downstream g (tn_ID t) \<noteq> [] then '' '' @ right_arrow @ '' feeds into: '' @ join '', '' (downstream g (tn_ID t)) else '''')
     @ newline"

definition target_line :: "TaskGraph \<Rightarrow> AgentDefinition list \<Rightarrow> string \<Rightarrow> string" where
  "target_line g agents dsID =
     (case Get g dsID of
        None \<Rightarrow> ''''
      | Some t \<Rightarrow>
          (let purpose = (if agent_purpose agents (tn_Agent t) = '''' then tn_Agent t else agent_purpose agents (tn_Agent t))
           in ''- '' @ dsID @ '' ('' @ tn_Agent t @ ''): '' @ purpose @ newline))"

definition buildPipelineContext :: "TaskNode \<Rightarrow> TaskGraph \<Rightarrow> AgentDefinition list \<Rightarrow> string" where
  "buildPipelineContext task g agents =
     (if length (tg_Tasks g) \<le> 1 then ''''
      else
        ''## Task Pipeline'' @ newline @ ''You are executing task '' @ tn_ID task @ ''. Here is the full pipeline:'' @ newline
        @ concat (map (pipeline_line g task) (tg_Tasks g))
        @ (if downstream g (tn_ID task) = [] then ''''
           else newline @ ''## Output Targeting'' @ newline
             @ ''Your output will be passed to downstream tasks. Produce ONLY what they need:'' @ newline
             @ concat (map (target_line g agents) (downstream g (tn_ID task)))
             @ ''Every token in your output costs downstream budget.'' @ newline))"

definition filterArtifacts :: "TaskNode \<Rightarrow> Part list" where
  "filterArtifacts dep =
     (let hasDesignMD = list_ex (\<lambda>f. has_suffix (to_lower (af_Name f)) ''design.md'') (tn_ArtifactFiles dep)
      in map (\<lambda>f. FilePart (af_URI f) (af_MimeType f) (af_Name f))
           (filter (\<lambda>f. let name = to_lower (af_Name f)
                        in \<not> has_suffix name ''summary.md'' \<and> \<not> (hasDesignMD \<and> contains name ''decision''))
              (tn_ArtifactFiles dep)))"

definition truncation_mark :: string where
  "truncation_mark = newline @ ''[... truncated, full content in artifact_uri]''"

text \<open>What an assignment says of a dependency without files to pass.\<close>

definition dependency_data :: "TaskNode \<Rightarrow> data" where
  "dependency_data dep =
     [(''dependency_id'', AStr (tn_ID dep)), (''dependency_agent'', AStr (taskProfile dep))]
     @ (if tn_ArtifactURI dep \<noteq> ''''
        then (''artifact_uri'', AStr (tn_ArtifactURI dep))
          # (if tn_ArtifactFiles dep \<noteq> [] then [(''artifact_files'', AStrings (map af_Name (tn_ArtifactFiles dep)))] else [])
        else [])
     @ (if tn_Result dep \<noteq> ''''
        then [(''result'', AStr (if tn_ArtifactURI dep \<noteq> '''' \<and> length (tn_Result dep) > 4000
                then take 4000 (tn_Result dep) @ truncation_mark else tn_Result dep))]
        else [])"

definition completed_dependencies :: "TaskGraph \<Rightarrow> TaskNode \<Rightarrow> TaskNode list" where
  "completed_dependencies g task =
     concat (map (\<lambda>d. case Get g d of Some dep \<Rightarrow> if tn_Status dep = StatusCompleted then [dep] else [] | None \<Rightarrow> [])
       (tn_DependsOn task))"

definition worth_telling :: "TaskNode \<Rightarrow> bool" where
  "worth_telling dep = (tn_ArtifactURI dep \<noteq> '''' \<or> tn_Result dep \<noteq> '''')"

definition buildDepPartsData :: "TaskGraph \<Rightarrow> TaskNode \<Rightarrow> data list" where
  "buildDepPartsData g task = map dependency_data (filter worth_telling (completed_dependencies g task))"

definition dependency_parts :: "TaskNode \<Rightarrow> Part list" where
  "dependency_parts dep =
     (if filterArtifacts dep \<noteq> []
      then filterArtifacts dep
        @ [DataPart [(''dependency_id'', AStr (tn_ID dep)), (''dependency_agent'', AStr (taskProfile dep))]]
      else if worth_telling dep then [DataPart (dependency_data dep)] else [])"

definition own_entry :: "KNode \<Rightarrow> any" where
  "own_entry n = AMap [(''id'', AStr (kn_ID n)), (''title'', AStr (kn_Title n)), (''summary'', AStr (kn_Summary n)),
     (''tags'', AStrings (kn_Tags n)), (''file'', AStr (kn_FilePath n)), (''from_req'', AStr (kn_RequestName n))]"

definition related_entry :: "KNode \<Rightarrow> RelatedNode \<Rightarrow> any" where
  "related_entry n rn = AMap [(''id'', AStr (kn_ID n)), (''title'', AStr (kn_Title n)), (''summary'', AStr (kn_Summary n)),
     (''tags'', AStrings (kn_Tags n)), (''file'', AStr (kn_FilePath n)), (''from_req'', AStr (kn_RequestName n)),
     (''source_agent'', AStr (kn_Agent n)), (''relations'', AStrings (rn_Relations rn)), (''depth'', ANum (int (rn_Depth rn)))]"

text \<open>The nodes of the shared graph that are added whatever the words of the task: decisions, then requests of the user.\<close>

definition float_08 :: rat where "float_08 = 3602879701896397 / 4503599627370496"

definition tagged_nodes :: "string \<Rightarrow> score \<Rightarrow> (string \<Rightarrow> KNode \<Rightarrow> bool) \<Rightarrow> string list \<Rightarrow> Graph \<Rightarrow> RelatedNode list" where
  "tagged_nodes tag sc wanted found g =
     map (\<lambda>(k, n). \<lparr>rn_ID = k, rn_Depth = 0, rn_Relations = [tag], rn_Score = sc\<rparr>)
       (filter (\<lambda>(k, n). k \<notin> set found \<and> wanted k n \<and> HasTag tag n) (kg_Nodes g))"

definition add_standing :: "time \<Rightarrow> Graph option \<Rightarrow> LookupResult \<Rightarrow> LookupResult" where
  "add_standing now shared r =
     (case shared of
        None \<Rightarrow> r
      | Some g \<Rightarrow>
          (let found = lr_Own r @ map rn_ID (lr_Related r);
               related = lr_Related r @ tagged_nodes ''decision'' (Finite 1) (\<lambda>k n. active now g k n) found g;
               found' = lr_Own r @ map rn_ID related
           in r\<lparr>lr_Related := related @ tagged_nodes ''user-request'' (Finite float_08) (\<lambda>k n. \<not> IsStale now n) found' g\<rparr>))"

definition no_knowledge :: "Graph option \<Rightarrow> bool" where
  "no_knowledge g = (case g of None \<Rightarrow> True | Some g \<Rightarrow> kg_Nodes g = [])"

definition nodes_of :: "Graph option \<Rightarrow> string \<Rightarrow> KNode list" where
  "nodes_of g k = (case g of None \<Rightarrow> [] | Some g \<Rightarrow> (case mget (kg_Nodes g) k of Some n \<Rightarrow> [n] | None \<Rightarrow> []))"

definition knowledge_part :: "Graph option \<Rightarrow> Graph option \<Rightarrow> LookupResult \<Rightarrow> Part list" where
  "knowledge_part ownGraph shared r =
     (if lr_Own r = [] \<and> lr_Related r = [] then []
      else
        (let own = concat (map (\<lambda>k. map own_entry (nodes_of ownGraph k)) (lr_Own r));
             related = concat (map (\<lambda>rn. map (\<lambda>n. related_entry n rn) (nodes_of shared (rn_ID rn))) (lr_Related r))
         in [DataPart ((if own \<noteq> [] then [(''knowledge_context'', AList own)] else [])
               @ (if related \<noteq> [] then [(''related_knowledge'', AList related)] else []))]))"

text \<open>The graphs per agent are \<open>None\<close> where the code has a nil map. The hits of the lookup are counted in them.\<close>

definition buildKnowledgeContext :: "time \<Rightarrow> (rat \<Rightarrow> rat) \<Rightarrow> Graph option \<Rightarrow> (string, Graph) gomap option \<Rightarrow> TaskNode \<Rightarrow>
    Part list \<times> Graph option \<times> (string, Graph) gomap option" where
  "buildKnowledgeContext now rnd shared agents task =
     (let profile = taskProfile task;
          agentGraph = (case agents of None \<Rightarrow> None | Some m \<Rightarrow> mget m profile);
          opts = \<lparr>lo_MaxDepth = 0, lo_MaxNodes = 0\<rparr>
      in if no_knowledge shared \<and> no_knowledge agentGraph then ([], shared, agents)
         else
           (case agents of
              None \<Rightarrow>
                (case Lookup now rnd shared profile (tn_Description task) opts of
                   (r, shared') \<Rightarrow> (knowledge_part shared shared (add_standing now shared r), shared', None))
            | Some m \<Rightarrow>
                (case LookupDual now rnd agentGraph shared profile (tn_Description task) opts of
                   (r, agentGraph', shared') \<Rightarrow>
                     (knowledge_part (if agentGraph = None then shared else agentGraph) shared (add_standing now shared r),
                      shared', Some (case agentGraph' of None \<Rightarrow> m | Some ag \<Rightarrow> mput profile ag m)))))"

definition maxKnowledgeNodes :: "AgentDefinition list \<Rightarrow> string \<Rightarrow> int" where
  "maxKnowledgeNodes agents agent =
     (case find (\<lambda>d. ad_Name d = agent) agents of Some d \<Rightarrow> ad_MaxKnowledgeNodes d | None \<Rightarrow> 0)"

definition resolveTaskTimeout :: "AgentDefinition list \<Rightarrow> TaskNode \<Rightarrow> int" where
  "resolveTaskTimeout agents task =
     (if tn_Timeout task > 0 then tn_Timeout task
      else case find (\<lambda>d. ad_Name d = taskProfile task) agents of
             Some d \<Rightarrow> ad_TaskTimeout d
           | None \<Rightarrow> 300000000000)"

text \<open>One path of the tree, after the components of the path before it.\<close>

fun common_len :: "string list \<Rightarrow> string list \<Rightarrow> nat" where
  "common_len (a # as) (b # bs) = (if a = b then Suc (common_len as bs) else 0)"
| "common_len _ _ = 0"

definition indent :: "nat \<Rightarrow> string" where
  "indent n = concat (replicate n ''  '')"

definition tree_lines :: "string list \<Rightarrow> string list \<Rightarrow> string" where
  "tree_lines prevParts parts =
     concat (map (\<lambda>i. indent i @ parts ! i @ ''/'' @ newline) [common_len prevParts parts ..< length parts - 1])
     @ indent (length parts - 1) @ last parts @ newline"

fun tree_from :: "string list \<Rightarrow> string list \<Rightarrow> string" where
  "tree_from prevParts [] = ''''"
| "tree_from prevParts (p # ps) = tree_lines prevParts (split_on slash p) @ tree_from (split_on slash p) ps"

definition buildDirectoryTree :: "string list \<Rightarrow> string" where
  "buildDirectoryTree paths = tree_from [] (sort paths)"

text \<open>\<open>buildDirectoryTree\<close> sorts the slice it is given, so the data part lists the sorted paths.\<close>

definition buildExistingArtifacts :: "(string \<Rightarrow> string list option) option \<Rightarrow> string \<Rightarrow> Part list" where
  "buildExistingArtifacts storage agent =
     (case storage of
        None \<Rightarrow> []
      | Some lst \<Rightarrow>
          (let filePaths = shared_files lst
           in if filePaths = [] then []
              else
                [TextPart (''## Shared Artifacts'' @ newline
                   @ ''These files already exist in the shared workspace. ''
                   @ ''Inspect the tree to identify repositories, packages, and local dependencies before writing code. ''
                   @ ''Use shell commands to read specific files when you need more detail.'' @ newline @ newline
                   @ btick @ btick @ btick @ newline @ buildDirectoryTree filePaths @ btick @ btick @ btick),
                 DataPart [(''existing_artifacts'', ABool True), (''agent'', AStr agent), (''files'', AStrings (sort filePaths))]]))"

definition taskResultSummary :: "string \<Rightarrow> int \<Rightarrow> string" where
  "taskResultSummary result maxLen =
     (let s = join '' '' (fields_space [] result)
      in if maxLen > 0 \<and> int (length s) > maxLen then take (nat maxLen) s @ ''...'' else s)"

text \<open>The guidelines of the first definition with the name of a state's agent.\<close>

definition enrich_state :: "AgentDefinition list \<Rightarrow> StateConfig \<Rightarrow> StateConfig" where
  "enrich_state agents st =
     (if sc_Agent st = '''' then st
      else case find (\<lambda>a. ad_Name a = sc_Agent st) agents of
             None \<Rightarrow> st
           | Some ad \<Rightarrow>
               (let parts = filter (\<lambda>p. p \<noteq> '''') [ad_ReviewPrompt ad, ad_ReviewGuidelines ad]
                in if parts \<noteq> [] then st\<lparr>sc_ReviewGuidelines := join newline parts\<rparr> else st))"

definition enrichLoopGuidelines :: "AgentDefinition list \<Rightarrow> LoopDefinition \<Rightarrow> LoopDefinition" where
  "enrichLoopGuidelines agents def = def\<lparr>ld_States := map (enrich_state agents) (ld_States def)\<rparr>"

definition conductor_mimeForPath :: "string \<Rightarrow> string" where
  "conductor_mimeForPath path =
     (let ext = to_lower (path_ext path)
      in if ext = ''.go'' then ''text/x-go'' else if ext = ''.md'' then ''text/markdown''
         else if ext = ''.json'' then ''application/json'' else if ext \<in> set [''.yaml'', ''.yml''] then ''text/yaml''
         else if ext = ''.js'' then ''text/javascript'' else if ext = ''.ts'' then ''text/typescript''
         else if ext = ''.py'' then ''text/x-python'' else if ext \<in> set [''.html'', ''.htm''] then ''text/html''
         else if ext = ''.css'' then ''text/css'' else if ext = ''.png'' then ''image/png'' else ''text/plain'')"

section \<open>What the loop reports (scheduler.go)\<close>

record taskStatusEntry =
  te_ID :: string
  te_Agent :: string
  te_AssignedInstance :: string
  te_ExecutionNode :: string
  te_Description :: string
  te_Status :: string
  te_Error :: string
  te_ArtifactURI :: string

record graphStatusEntry =
  ge_RequestID :: string
  ge_UpdatedAt :: int
  ge_Tasks :: "taskStatusEntry list"

definition task_status_entry :: "TaskNode \<Rightarrow> taskStatusEntry" where
  "task_status_entry t =
     \<lparr>te_ID = tn_ID t, te_Agent = taskProfile t, te_AssignedInstance = tn_AssignedInstance t,
      te_ExecutionNode = tn_ExecutionNode t, te_Description = tn_Description t, te_Status = status_text (tn_Status t),
      te_Error = (if tn_Status t = StatusFailed \<and> tn_Result t \<noteq> '''' then tn_Result t else ''''),
      te_ArtifactURI = tn_ArtifactURI t\<rparr>"

text \<open>The path and the entry that are written; the JSON encoding is the library's.\<close>

definition writeGraphStatus :: "string \<Rightarrow> int \<Rightarrow> TaskGraph \<Rightarrow> string \<times> graphStatusEntry" where
  "writeGraphStatus requestID now g =
     (''logs/'' @ requestID @ ''_status.json'',
      \<lparr>ge_RequestID = requestID, ge_UpdatedAt = now, ge_Tasks = map task_status_entry (tg_Tasks g)\<rparr>)"

definition logTaskStatus :: "string \<Rightarrow> string \<times> int \<Rightarrow> TaskNode \<Rightarrow> string \<Rightarrow> Message" where
  "logTaskStatus requestID stamp task errMsg =
     \<lparr>m_ID = fst stamp, m_RequestID = requestID, m_From = ''conductor'', m_To = taskProfile task, m_Type = TypeStatusUpdate,
      m_Parts = [TextPart (''Task '' @ tn_ID task @ '': '' @ status_text (tn_Status task))],
      m_Metadata = [(''task_id'', tn_ID task), (''status'', status_text (tn_Status task))]
        @ (if errMsg \<noteq> '''' then [(''error'', errMsg)] else [])
        @ (if tn_ArtifactURI task \<noteq> '''' then [(''artifact_uri'', tn_ArtifactURI task)] else []),
      m_TokenUsage = None, m_Timestamp = snd stamp\<rparr>"

section \<open>Bounds of the texts\<close>

lemma appendTruncated_length:
  assumes "appendTruncated b line m = (b', ok)" and "int (length b) \<le> m"
  shows "int (length b') \<le> m"
  using assms by (auto simp: appendTruncated_def Let_def newline_def split: if_splits)

lemma append_lines_length: "int (length b) \<le> m \<Longrightarrow> int (length (append_lines m ls b)) \<le> m"
proof (induction ls arbitrary: b)
  case (Cons l ls)
  obtain b' ok where "appendTruncated b l m = (b', ok)" by fastforce
  with Cons appendTruncated_length [OF this Cons.prems] show ?case by simp
qed simp

lemma append_warnings_length: "int (length b) \<le> m \<Longrightarrow> int (length (append_warnings m ws b)) \<le> m"
  by (induction m ws b rule: append_warnings.induct) (auto simp: newline_def)

lemma trim_space_length: "length (trim_space s) \<le> length s"
  unfolding trim_space_def by (metis length_dropWhile_le length_rev le_trans)

text \<open>A section: a heading within the limit, lines, warnings, trimmed.\<close>

lemma section_length:
  "0 \<le> m \<Longrightarrow> length b \<le> nat m \<Longrightarrow> length (trim_space (append_lines m ls b)) \<le> nat m"
  "0 \<le> m \<Longrightarrow> length b \<le> nat m \<Longrightarrow> length (trim_space (append_warnings m ws (append_lines m ls b))) \<le> nat m"
  "0 \<le> m \<Longrightarrow> length (trim_space (append_warnings m ws [])) \<le> nat m"
proof -
  have lines: "length (append_lines m ls b) \<le> nat m" if "0 \<le> m" "length b \<le> nat m" for b
    using that append_lines_length [of b m ls] by linarith
  have warnings: "length (append_warnings m ws b) \<le> nat m" if "0 \<le> m" "length b \<le> nat m" for b
    using that append_warnings_length [of b m ws] by linarith
  show "0 \<le> m \<Longrightarrow> length b \<le> nat m \<Longrightarrow> length (trim_space (append_lines m ls b)) \<le> nat m"
    using lines trim_space_length le_trans by blast
  show "0 \<le> m \<Longrightarrow> length b \<le> nat m \<Longrightarrow> length (trim_space (append_warnings m ws (append_lines m ls b))) \<le> nat m"
    using lines warnings trim_space_length le_trans by blast
  show "0 \<le> m \<Longrightarrow> length (trim_space (append_warnings m ws [])) \<le> nat m"
    using warnings [of "[]"] trim_space_length le_trans by (metis list.size(3) zero_le)
qed

lemmas text_limits = decomposeContextMaxChars_def decomposeArtifactMaxChars_def decomposeDecisionMaxChars_def
  decomposeUserRequestMaxChars_def newline_def

text \<open>
  Claim C39: what the conductor tells the decomposing model of earlier work is bounded. Whatever the graph, the
  stored artifacts, the conflicts and the request are, the section on knowledge has at most 2600 bytes, the one on
  artifacts at most 1200, and those on decisions and on earlier requests at most 800.
\<close>

theorem decompose_context_bounded:
  "length (fst (decomposeKnowledge now rnd g req)) \<le> 2600 \<and> length (decomposeArtifacts rnd lst req) \<le> 1200 \<and>
   length (decomposeDecisions now rnd g req) \<le> 800 \<and> length (decomposeUserRequests now rnd g req) \<le> 800"
proof -
  have "length (fst (decomposeKnowledge now rnd g req)) \<le> nat decomposeContextMaxChars"
    by (auto simp: decomposeKnowledge_def Let_def intro!: section_length(1) split: option.splits prod.splits)
       (simp_all add: text_limits)
  moreover have "length (decomposeArtifacts rnd lst req) \<le> nat decomposeArtifactMaxChars"
    by (auto simp: decomposeArtifacts_def Let_def intro!: section_length(1)) (simp_all add: text_limits)
  moreover have "length (decomposeDecisions now rnd g req) \<le> nat decomposeDecisionMaxChars"
    by (auto simp: decomposeDecisions_def Let_def intro!: section_length(2,3) split: option.splits) (simp_all add: text_limits)
  moreover have "length (decomposeUserRequests now rnd g req) \<le> nat decomposeUserRequestMaxChars"
    by (auto simp: decomposeUserRequests_def Let_def intro!: section_length(1) simp del: append_lines.simps split: option.splits list.splits)
       (simp_all add: text_limits)
  ultimately show ?thesis by (simp add: text_limits)
qed

section \<open>The common directory\<close>

text \<open>The directories of a path: its prefixes that end in a slash.\<close>

definition dir_prefix :: "string \<Rightarrow> string \<Rightarrow> bool" where
  "dir_prefix d p \<longleftrightarrow> has_suffix d ''/'' \<and> has_prefix p d"

lemma up_to_slash_spec:
  shows "up_to_slash p = [] \<or> dir_prefix (up_to_slash p) p"
    and "dir_prefix d p \<Longrightarrow> has_prefix (up_to_slash p) d"
proof -
  let ?r = "dropWhile (\<lambda>c. c \<noteq> slash) (rev p)"
  have p: "p = up_to_slash p @ rev (takeWhile (\<lambda>c. c \<noteq> slash) (rev p))"
    unfolding up_to_slash_def by (metis rev_append rev_rev_ident takeWhile_dropWhile_id)
  show "up_to_slash p = [] \<or> dir_prefix (up_to_slash p) p"
  proof (cases ?r)
    case Nil
    then show ?thesis by (simp add: up_to_slash_def)
  next
    case (Cons c r)
    then have "c = slash" using hd_dropWhile [of "\<lambda>c. c \<noteq> slash" "rev p"] by simp
    with Cons have "up_to_slash p = rev r @ [slash]" by (simp add: up_to_slash_def)
    then show ?thesis using p by (metis dir_prefix_def has_prefix_iff suffix_slash)
  qed
  assume "dir_prefix d p"
  then obtain e t where d: "d = e @ [slash]" "p = d @ t" by (auto simp: dir_prefix_def suffix_slash has_prefix_iff)
  have "up_to_slash p = d @ up_to_slash t"
    unfolding d by (simp add: up_to_slash_def dropWhile_append)
  then show "has_prefix (up_to_slash p) d" by (simp add: has_prefix_iff)
qed

lemma has_prefix_trans: "has_prefix p q \<Longrightarrow> has_prefix q r \<Longrightarrow> has_prefix p r"
  by (auto simp: has_prefix_iff)

lemma has_prefix_linear: "has_prefix p a \<Longrightarrow> has_prefix p b \<Longrightarrow> length a \<le> length b \<Longrightarrow> has_prefix b a"
  by (auto simp: has_prefix_iff append_eq_append_conv2)

text \<open>What a cut keeps: every directory of both that is shorter than the prefix.\<close>

lemma cut_back_spec:
  "has_prefix prefix (cut_back prefix p) \<and> has_prefix p (cut_back prefix p) \<and>
   (\<forall>d. dir_prefix d prefix \<longrightarrow> dir_prefix d p \<longrightarrow> has_prefix (cut_back prefix p) d)"
proof (induction prefix p rule: cut_back.induct)
  case (1 prefix p)
  let ?q = "up_to_slash (trim_slash prefix)"
  show ?case
  proof (cases "has_prefix p prefix")
    case True
    then show ?thesis by (simp add: dir_prefix_def)
  next
    case False
    have pre: "has_prefix prefix (trim_slash prefix)"
      by (auto simp: trim_slash_def suffix_slash has_prefix_iff)
    have q: "has_prefix prefix ?q"
      using up_to_slash_spec(1) [of "trim_slash prefix"] pre by (auto simp: dir_prefix_def intro: has_prefix_trans)
    have keep: "has_prefix ?q d" if d: "dir_prefix d prefix" "dir_prefix d p" for d
    proof -
      have "d \<noteq> prefix" using d(2) False by (auto simp: dir_prefix_def)
      with d(1) obtain t where t: "prefix = d @ t" "t \<noteq> []" by (auto simp: dir_prefix_def has_prefix_iff)
      then have "trim_slash prefix = d @ trim_slash t"
        by (auto simp: trim_slash_def suffix_slash butlast_append append_eq_append_conv2 append_eq_Cons_conv)
      with d(1) have "dir_prefix d (trim_slash prefix)" by (auto simp: dir_prefix_def has_prefix_iff)
      then show ?thesis by (rule up_to_slash_spec(2))
    qed
    show ?thesis
    proof (cases "?q = []")
      case True
      have "\<not> dir_prefix d p" if "dir_prefix d prefix" for d
        using keep [OF that] that True by (auto simp: dir_prefix_def has_prefix_iff suffix_slash)
      with False True show ?thesis by (auto simp del: cut_back.simps simp add: cut_back.simps [of prefix])
    next
      case False': False
      from 1 [OF False False'] have IH: "has_prefix ?q (cut_back ?q p)" "has_prefix p (cut_back ?q p)"
        "\<And>d. dir_prefix d ?q \<Longrightarrow> dir_prefix d p \<Longrightarrow> has_prefix (cut_back ?q p) d" by auto
      have "has_prefix (cut_back ?q p) d" if "dir_prefix d prefix" "dir_prefix d p" for d
        using IH(3) keep [OF that] that by (simp add: dir_prefix_def)
      with IH q show ?thesis by (simp add: False False' del: cut_back.simps add: cut_back.simps [of prefix]) (meson has_prefix_trans)
    qed
  qed
qed

lemma cut_back_all:
  "has_prefix path (foldl cut_back path rest) \<and> (\<forall>p \<in> set rest. has_prefix p (foldl cut_back path rest)) \<and>
   (\<forall>d. dir_prefix d path \<longrightarrow> (\<forall>p \<in> set rest. dir_prefix d p) \<longrightarrow> has_prefix (foldl cut_back path rest) d)"
proof (induction rest arbitrary: path)
  case Nil
  then show ?case by (simp add: dir_prefix_def)
next
  case (Cons p rest)
  have c: "has_prefix path (cut_back path p)" "has_prefix p (cut_back path p)"
    "\<And>d. dir_prefix d path \<Longrightarrow> dir_prefix d p \<Longrightarrow> dir_prefix d (cut_back path p)"
    using cut_back_spec [of path p] by (auto simp: dir_prefix_def)
  with Cons [of "cut_back path p"] show ?case by (auto simp del: cut_back.simps intro: has_prefix_trans)
qed

text \<open>
  The artifact location of a result with several files is their common directory. It is empty or ends in
  a slash and is a prefix of every path, and it extends every directory that all of the paths lie under.
\<close>

theorem common_dir_longest:
  "(commonDirPrefix paths = '''' \<or> (\<forall>p \<in> set paths. dir_prefix (commonDirPrefix paths) p)) \<and>
   (\<forall>d. paths \<noteq> [] \<longrightarrow> (\<forall>p \<in> set paths. dir_prefix d p) \<longrightarrow> has_prefix (commonDirPrefix paths) d)"
proof (cases paths)
  case Nil
  then show ?thesis by (simp add: commonDirPrefix_def)
next
  case (Cons path rest)
  let ?q = "foldl cut_back path rest"
  have q: "\<forall>p \<in> set paths. has_prefix p ?q" "\<And>d. \<forall>p \<in> set paths. dir_prefix d p \<Longrightarrow> has_prefix ?q d"
    using cut_back_all [of path rest] by (auto simp: Cons)
  show ?thesis
  proof (cases "has_suffix ?q ''/''")
    case True
    with q show ?thesis by (simp add: commonDirPrefix_def Cons dir_prefix_def)
  next
    case False
    then have r: "commonDirPrefix paths = up_to_slash ?q" by (simp add: commonDirPrefix_def Cons)
    have "has_prefix (up_to_slash ?q) d" if d: "\<forall>p \<in> set paths. dir_prefix d p" for d
      using up_to_slash_spec(2) [of d ?q] q(2) [OF d] d by (simp add: dir_prefix_def Cons)
    moreover have "dir_prefix (up_to_slash ?q) p" if "up_to_slash ?q \<noteq> []" "p \<in> set paths" for p
      using up_to_slash_spec(1) [of ?q] that q(1) has_prefix_trans by (auto simp: dir_prefix_def)
    ultimately show ?thesis unfolding r by blast
  qed
qed

theorem common_dir_longest_witness:
  "has_prefix (commonDirPrefix [''artifacts/dev/a.go'', ''artifacts/dev/sub/b.go'']) ''artifacts/dev/''"
proof -
  have "\<forall>p \<in> set [''artifacts/dev/a.go'', ''artifacts/dev/sub/b.go'']. dir_prefix ''artifacts/dev/'' p"
    by (simp add: dir_prefix_def has_prefix_def has_suffix_def)
  with common_dir_longest [of "[''artifacts/dev/a.go'', ''artifacts/dev/sub/b.go'']"] show ?thesis by blast
qed

text \<open>
  The usage of an agent on another machine is counted once: when the agent reports again, what it reports is
  dropped because the meter knows the agent by then.
\<close>

definition usage_report :: "int \<Rightarrow> Message" where
  "usage_report n = \<lparr>m_ID = '''', m_RequestID = ''r'', m_From = ''dev'', m_To = ''conductor'', m_Type = TypeTaskResult, m_Parts = [],
     m_Metadata = [], m_TokenUsage = Some \<lparr>tu_InputTokens = n, tu_OutputTokens = 0, tu_TotalTokens = n, tu_TotalCalls = 1,
       tu_CacheReadTokens = 0, tu_Model = ''m''\<rparr>, m_Timestamp = 1\<rparr>"

lemma remote_usage_once:
  "us_InputTokens (Usage ''dev'' (recordRemoteUsage (usage_report 500) (recordRemoteUsage (usage_report 10) NewMeter))) = 10"
  by code_simp

text \<open>What is passed on of a dependency is what it produced.\<close>

lemma filterArtifacts_sound:
  "set (filterArtifacts dep) \<subseteq> (\<lambda>f. FilePart (af_URI f) (af_MimeType f) (af_Name f)) ` set (tn_ArtifactFiles dep)"
  by (auto simp: filterArtifacts_def Let_def)

lemma dependency_parts_completed:
  "dep \<in> set (completed_dependencies g task) \<Longrightarrow> tn_Status dep = StatusCompleted \<and> dep \<in> set (tg_Tasks g) \<and> tn_ID dep \<in> set (tn_DependsOn task)"
  by (auto simp: completed_dependencies_def Get_def split: option.split_asm if_split_asm dest!: find_SomeD [OF sym])

end
