(* ===== verification/Demux.thy ===== *)
theory Demux
  imports Placement Meter ConductorText "HOL-Library.Sublist" "HOL-Library.Multiset"
begin

text \<open>
  How a result reaches the goroutine that waits for it (internal/conductor/scheduler.go): the demultiplexer from
  the conductor's inbox to one channel per task, and the two loops that wait on such a channel. A channel is a
  place in a heap of buffers of at most 16 messages, as the waiter keeps its channel when the task is
  subscribed again. A nil map of metadata is the empty one.
\<close>

section \<open>The demultiplexer\<close>

record demux =
  dm_waiters :: "(string, nat) gomap"
  dm_chans :: "Message list list"
  dm_overflow :: "Message list"

definition newDemux :: demux where
  "newDemux = \<lparr>dm_waiters = [], dm_chans = [], dm_overflow = []\<rparr>"

definition waiter_cap :: nat where "waiter_cap = 16"

definition for_task :: "string \<Rightarrow> Message \<Rightarrow> bool" where
  "for_task tid msg = (m_Metadata msg \<noteq> [] \<and> mget0 '''' (m_Metadata msg) ''task_id'' = tid)"

text \<open>
  The messages kept for the task are sent into the new channel under the mutex. Nobody receives from it yet, so
  \<open>None\<close>: when they are more than it takes, the call never returns and the mutex stays locked.
\<close>

definition demux_subscribe :: "string \<Rightarrow> demux \<Rightarrow> (demux \<times> nat) option" where
  "demux_subscribe tid d =
     (let mine = filter (for_task tid) (dm_overflow d); ch = length (dm_chans d)
      in if length mine > waiter_cap then None
         else Some (d\<lparr>dm_waiters := mput tid ch (dm_waiters d), dm_chans := dm_chans d @ [mine],
                      dm_overflow := filter (\<lambda>m. \<not> for_task tid m) (dm_overflow d)\<rparr>, ch))"

definition clearOverflow :: "string \<Rightarrow> demux \<Rightarrow> demux" where
  "clearOverflow tid d = d\<lparr>dm_overflow := filter (\<lambda>m. \<not> for_task tid m) (dm_overflow d)\<rparr>"

definition demux_unsubscribe :: "string \<Rightarrow> demux \<Rightarrow> demux" where
  "demux_unsubscribe tid d =
     d\<lparr>dm_waiters := mdel tid (dm_waiters d), dm_overflow := filter (\<lambda>m. \<not> for_task tid m) (dm_overflow d)\<rparr>"

definition demux_route :: "Message \<Rightarrow> demux \<Rightarrow> demux" where
  "demux_route msg d =
     (let taskID = mget0 '''' (m_Metadata msg) ''task_id''; overflow = d\<lparr>dm_overflow := dm_overflow d @ [msg]\<rparr>
      in if taskID \<noteq> '''' then
           (case mget (dm_waiters d) taskID of
              Some ch \<Rightarrow>
                if length (dm_chans d ! ch) < waiter_cap
                then d\<lparr>dm_chans := (dm_chans d)[ch := dm_chans d ! ch @ [msg]]\<rparr>
                else overflow
            | None \<Rightarrow> overflow)
         else overflow)"

text \<open>One turn of \<open>runDemux\<close>: a status update with a text is shown, every message is routed.\<close>

definition runDemux :: "Message \<Rightarrow> demux \<Rightarrow> demux \<times> (string \<times> string) option" where
  "runDemux msg d =
     (demux_route msg d,
      if m_Type msg = TypeStatusUpdate
      then map_option (\<lambda>t. (m_From msg, t)) (first_some (\<lambda>p. case text_of_part p of Some t \<Rightarrow> if t \<noteq> '''' then Some t else None | None \<Rightarrow> None) (m_Parts msg))
      else None)"

definition demux_receive :: "nat \<Rightarrow> demux \<Rightarrow> (demux \<times> Message) option" where
  "demux_receive ch d =
     (if ch < length (dm_chans d)
      then (case dm_chans d ! ch of
              [] \<Rightarrow> None
            | msg # rest \<Rightarrow> Some (d\<lparr>dm_chans := (dm_chans d)[ch := rest]\<rparr>, msg))
      else None)"

section \<open>Runs of the demultiplexer\<close>

datatype demux_event = Routes Message | Subscribes string | Unsubscribes string | Clears string | Receives nat

text \<open>With what was routed, the task each channel was made for, and what was received from each.\<close>

record demux_run =
  dr_demux :: demux
  dr_routed :: "Message list"
  dr_tasks :: "string list"
  dr_received :: "(nat \<times> Message) list"

fun demux_step :: "demux_event \<Rightarrow> demux_run \<Rightarrow> demux_run option" where
  "demux_step (Routes m) r = Some (r\<lparr>dr_demux := fst (runDemux m (dr_demux r)), dr_routed := dr_routed r @ [m]\<rparr>)"
| "demux_step (Subscribes t) r =
     (case demux_subscribe t (dr_demux r) of
        None \<Rightarrow> None
      | Some (d, ch) \<Rightarrow> Some (r\<lparr>dr_demux := d, dr_tasks := dr_tasks r @ [t]\<rparr>))"
| "demux_step (Unsubscribes t) r = Some (r\<lparr>dr_demux := demux_unsubscribe t (dr_demux r)\<rparr>)"
| "demux_step (Clears t) r = Some (r\<lparr>dr_demux := clearOverflow t (dr_demux r)\<rparr>)"
| "demux_step (Receives ch) r =
     (case demux_receive ch (dr_demux r) of
        None \<Rightarrow> None
      | Some (d, m) \<Rightarrow> Some (r\<lparr>dr_demux := d, dr_received := dr_received r @ [(ch, m)]\<rparr>))"

fun demux_steps :: "demux_event list \<Rightarrow> demux_run \<Rightarrow> demux_run option" where
  "demux_steps [] r = Some r"
| "demux_steps (e # es) r = (case demux_step e r of None \<Rightarrow> None | Some r' \<Rightarrow> demux_steps es r')"

definition start_demux :: demux_run where
  "start_demux = \<lparr>dr_demux = newDemux, dr_routed = [], dr_tasks = [], dr_received = []\<rparr>"

definition received_on :: "nat \<Rightarrow> demux_run \<Rightarrow> Message list" where
  "received_on ch r = map snd (filter (\<lambda>(c, m). c = ch) (dr_received r))"

text \<open>What reached a channel: received from it or still in its buffer.\<close>

definition reached :: "nat \<Rightarrow> demux_run \<Rightarrow> Message list" where
  "reached ch r = received_on ch r @ dm_chans (dr_demux r) ! ch"

definition demux_inv :: "demux_run \<Rightarrow> bool" where
  "demux_inv r \<longleftrightarrow>
     (let d = dr_demux r in
      length (dm_chans d) = length (dr_tasks r) \<and>
      (\<forall>t ch. mget (dm_waiters d) t = Some ch \<longrightarrow> ch < length (dr_tasks r) \<and> dr_tasks r ! ch = t) \<and>
      (\<forall>p \<in> set (dr_received r). fst p < length (dr_tasks r)) \<and>
      (\<forall>ch < length (dr_tasks r). length (dm_chans d ! ch) \<le> waiter_cap \<and>
         subseq (reached ch r) (filter (for_task (dr_tasks r ! ch)) (dr_routed r))) \<and>
      subseq (dm_overflow d) (dr_routed r) \<and>
      mset (map snd (dr_received r)) + (mset (concat (dm_chans d)) + mset (dm_overflow d)) \<subseteq># mset (dr_routed r))"

lemma subseq_filter_both: "subseq xs ys \<Longrightarrow> subseq (filter P xs) (filter P ys)"
  by (induction rule: list_emb.induct) auto

lemma subseq_filter_left: "subseq (filter P xs) xs"
  by (induction xs) auto

lemma subseq_snoc: "subseq xs ys \<Longrightarrow> subseq xs (ys @ [y])"
  by (simp add: subseq_rev_drop_many)

lemma subseq_snoc_both: "subseq xs ys \<Longrightarrow> subseq (xs @ [y]) (ys @ [y])"
  by simp

lemma mset_concat_update:
  "ch < length cs \<Longrightarrow> mset (concat (cs[ch := x])) + mset (cs ! ch) = mset (concat cs) + mset x"
proof (induction cs arbitrary: ch)
  case (Cons c cs)
  then show ?case by (cases ch) (auto simp: ac_simps)
qed simp

lemma for_task_routed: "mget0 '''' (m_Metadata m) ''task_id'' = t \<Longrightarrow> t \<noteq> '''' \<Longrightarrow> for_task t m"
  by (auto simp: for_task_def)

text \<open>The parts of the invariant, one rule for each way a step changes the run.\<close>

lemma demux_invI:
  assumes "length (dm_chans d) = length ts"
    and "\<And>t ch. mget (dm_waiters d) t = Some ch \<Longrightarrow> ch < length ts \<and> ts ! ch = t"
    and "\<And>p. p \<in> set rc \<Longrightarrow> fst p < length ts"
    and "\<And>ch. ch < length ts \<Longrightarrow> length (dm_chans d ! ch) \<le> waiter_cap"
    and "\<And>ch. ch < length ts \<Longrightarrow> subseq (map snd (filter (\<lambda>(c, m). c = ch) rc) @ dm_chans d ! ch) (filter (for_task (ts ! ch)) ro)"
    and "subseq (dm_overflow d) ro"
    and "mset (map snd rc) + (mset (concat (dm_chans d)) + mset (dm_overflow d)) \<subseteq># mset ro"
  shows "demux_inv \<lparr>dr_demux = d, dr_routed = ro, dr_tasks = ts, dr_received = rc\<rparr>"
  using assms by (simp add: demux_inv_def reached_def received_on_def Let_def)

lemma demux_invD:
  assumes "demux_inv r"
  shows "length (dm_chans (dr_demux r)) = length (dr_tasks r)"
    and "mget (dm_waiters (dr_demux r)) t = Some ch \<Longrightarrow> ch < length (dr_tasks r) \<and> dr_tasks r ! ch = t"
    and "p \<in> set (dr_received r) \<Longrightarrow> fst p < length (dr_tasks r)"
    and "ch < length (dr_tasks r) \<Longrightarrow> length (dm_chans (dr_demux r) ! ch) \<le> waiter_cap"
    and "ch < length (dr_tasks r) \<Longrightarrow>
      subseq (map snd (filter (\<lambda>(c, m). c = ch) (dr_received r)) @ dm_chans (dr_demux r) ! ch)
        (filter (for_task (dr_tasks r ! ch)) (dr_routed r))"
    and "subseq (dm_overflow (dr_demux r)) (dr_routed r)"
    and "mset (map snd (dr_received r)) + (mset (concat (dm_chans (dr_demux r))) + mset (dm_overflow (dr_demux r))) \<subseteq># mset (dr_routed r)"
  using assms by (simp_all add: demux_inv_def reached_def received_on_def Let_def)

lemma demux_inv_drop:
  assumes "demux_inv r" and "dm_waiters d \<in> {dm_waiters (dr_demux r), mdel t (dm_waiters (dr_demux r))}"
    and "dm_chans d = dm_chans (dr_demux r)" and "dm_overflow d = filter P (dm_overflow (dr_demux r))"
  shows "demux_inv (r\<lparr>dr_demux := d\<rparr>)"
proof -
  note D = demux_invD [OF assms(1)]
  have "demux_inv \<lparr>dr_demux = d, dr_routed = dr_routed r, dr_tasks = dr_tasks r, dr_received = dr_received r\<rparr>"
  proof (rule demux_invI)
    show "mget (dm_waiters d) t = Some ch \<Longrightarrow> ch < length (dr_tasks r) \<and> dr_tasks r ! ch = t" for t ch
      using assms(2) D(2) by (auto split: if_splits)
    show "subseq (dm_overflow d) (dr_routed r)"
      unfolding assms(4) by (rule subseq_order.trans [OF subseq_filter_left D(6)])
    have "mset (filter P (dm_overflow (dr_demux r))) \<subseteq># mset (dm_overflow (dr_demux r))"
      by (simp add: multiset_filter_subset)
    then have "mset (map snd (dr_received r)) + (mset (concat (dm_chans d)) + mset (dm_overflow d)) \<subseteq>#
        mset (map snd (dr_received r)) + (mset (concat (dm_chans (dr_demux r))) + mset (dm_overflow (dr_demux r)))"
      unfolding assms(3,4) by simp
    then show "mset (map snd (dr_received r)) + (mset (concat (dm_chans d)) + mset (dm_overflow d)) \<subseteq># mset (dr_routed r)"
      using D(7) by (rule subset_mset.trans)
  qed (use D assms(3) in simp_all)
  then show ?thesis by (cases r) simp
qed

lemma demux_inv_overflow:
  assumes "demux_inv r"
  shows "demux_inv (r\<lparr>dr_demux := (dr_demux r)\<lparr>dm_overflow := dm_overflow (dr_demux r) @ [m]\<rparr>, dr_routed := dr_routed r @ [m]\<rparr>)"
proof -
  note D = demux_invD [OF assms]
  have "demux_inv \<lparr>dr_demux = (dr_demux r)\<lparr>dm_overflow := dm_overflow (dr_demux r) @ [m]\<rparr>, dr_routed = dr_routed r @ [m],
      dr_tasks = dr_tasks r, dr_received = dr_received r\<rparr>"
  proof (rule demux_invI)
    show "subseq (map snd (filter (\<lambda>(c, m). c = ch) (dr_received r)) @ dm_chans ((dr_demux r)\<lparr>dm_overflow := dm_overflow (dr_demux r) @ [m]\<rparr>) ! ch)
        (filter (for_task (dr_tasks r ! ch)) (dr_routed r @ [m]))" if "ch < length (dr_tasks r)" for ch
      using D(5) [OF that] by (simp add: subseq_snoc)
    show "mset (map snd (dr_received r)) + (mset (concat (dm_chans ((dr_demux r)\<lparr>dm_overflow := dm_overflow (dr_demux r) @ [m]\<rparr>))) +
        mset (dm_overflow ((dr_demux r)\<lparr>dm_overflow := dm_overflow (dr_demux r) @ [m]\<rparr>))) \<subseteq># mset (dr_routed r @ [m])"
      using D(7) by simp
  qed (use D in simp_all)
  then show ?thesis by (cases r) simp
qed

lemma demux_inv_deliver:
  assumes "demux_inv r" and "mget (dm_waiters (dr_demux r)) t = Some ch" and "for_task t m"
    and "length (dm_chans (dr_demux r) ! ch) < waiter_cap"
  shows "demux_inv (r\<lparr>dr_demux := (dr_demux r)\<lparr>dm_chans := (dm_chans (dr_demux r))[ch := dm_chans (dr_demux r) ! ch @ [m]]\<rparr>,
    dr_routed := dr_routed r @ [m]\<rparr>)"
proof -
  note D = demux_invD [OF assms(1)]
  from D(2) [OF assms(2)] have ch: "ch < length (dr_tasks r)" "dr_tasks r ! ch = t" by auto
  let ?d = "(dr_demux r)\<lparr>dm_chans := (dm_chans (dr_demux r))[ch := dm_chans (dr_demux r) ! ch @ [m]]\<rparr>"
  have "demux_inv \<lparr>dr_demux = ?d, dr_routed = dr_routed r @ [m], dr_tasks = dr_tasks r, dr_received = dr_received r\<rparr>"
  proof (rule demux_invI)
    show "length (dm_chans ?d ! c) \<le> waiter_cap" if "c < length (dr_tasks r)" for c
      using D(1,4) that assms(4) by (cases "c = ch") simp_all
    show "subseq (map snd (filter (\<lambda>(c', m). c' = c) (dr_received r)) @ dm_chans ?d ! c)
        (filter (for_task (dr_tasks r ! c)) (dr_routed r @ [m]))" if "c < length (dr_tasks r)" for c
      using D(5) [OF that] D(1) ch assms(3) that
      by (cases "c = ch") (simp_all add: subseq_snoc flip: append_assoc)
    show "mset (map snd (dr_received r)) + (mset (concat (dm_chans ?d)) + mset (dm_overflow ?d)) \<subseteq># mset (dr_routed r @ [m])"
    proof -
      have "mset (concat ((dm_chans (dr_demux r))[ch := dm_chans (dr_demux r) ! ch @ [m]])) = mset (concat (dm_chans (dr_demux r))) + {#m#}"
        using mset_concat_update [of ch "dm_chans (dr_demux r)" "dm_chans (dr_demux r) ! ch @ [m]"] ch(1) D(1) by simp
      with D(7) show ?thesis by simp
    qed
  qed (use D in \<open>simp_all add: subseq_snoc\<close>)
  then show ?thesis by (cases r) simp
qed

lemma demux_inv_route:
  assumes "demux_inv r" and "demux_step (Routes m) r = Some r'"
  shows "demux_inv r'"
proof -
  let ?t = "mget0 '''' (m_Metadata m) ''task_id''"
  let ?kept = "(dr_demux r)\<lparr>dm_overflow := dm_overflow (dr_demux r) @ [m]\<rparr>"
  have r': "r' = r\<lparr>dr_demux := demux_route m (dr_demux r), dr_routed := dr_routed r @ [m]\<rparr>"
    using assms(2) by (simp add: runDemux_def)
  show ?thesis
  proof (cases "\<exists>ch. mget (dm_waiters (dr_demux r)) ?t = Some ch \<and> ?t \<noteq> [] \<and> length (dm_chans (dr_demux r) ! ch) < waiter_cap")
    case True
    then obtain ch where ch: "mget (dm_waiters (dr_demux r)) ?t = Some ch" "?t \<noteq> []" "length (dm_chans (dr_demux r) ! ch) < waiter_cap"
      by blast
    then have sent: "demux_route m (dr_demux r) = (dr_demux r)\<lparr>dm_chans := (dm_chans (dr_demux r))[ch := dm_chans (dr_demux r) ! ch @ [m]]\<rparr>"
      by (simp add: demux_route_def)
    show ?thesis unfolding r' sent by (rule demux_inv_deliver [OF assms(1) ch(1) for_task_routed [OF refl ch(2)] ch(3)])
  next
    case False
    then have kept: "demux_route m (dr_demux r) = ?kept" by (auto simp: demux_route_def Let_def split: option.splits)
    show ?thesis unfolding r' kept by (rule demux_inv_overflow [OF assms(1)])
  qed
qed

lemma demux_inv_subscribe:
  assumes "demux_inv r" and "demux_step (Subscribes t) r = Some r'"
  shows "demux_inv r'"
proof -
  note D = demux_invD [OF assms(1)]
  let ?o = "dm_overflow (dr_demux r)"
  let ?mine = "filter (for_task t) ?o"
  let ?d = "(dr_demux r)\<lparr>dm_waiters := mput t (length (dr_tasks r)) (dm_waiters (dr_demux r)), dm_chans := dm_chans (dr_demux r) @ [?mine],
      dm_overflow := filter (\<lambda>m. \<not> for_task t m) ?o\<rparr>"
  from assms(2) D(1) have r': "r' = \<lparr>dr_demux = ?d, dr_routed = dr_routed r, dr_tasks = dr_tasks r @ [t], dr_received = dr_received r\<rparr>"
    and cap: "length ?mine \<le> waiter_cap"
    by (auto simp: demux_subscribe_def Let_def split: if_splits)
  have none: "filter (\<lambda>(c, m). c = length (dr_tasks r)) (dr_received r) = []"
    using D(3) by (force simp: filter_empty_conv)
  show ?thesis unfolding r'
  proof (rule demux_invI)
    show "subseq (map snd (filter (\<lambda>(c', m). c' = c) (dr_received r)) @ dm_chans ?d ! c) (filter (for_task ((dr_tasks r @ [t]) ! c)) (dr_routed r))"
      if "c < length (dr_tasks r @ [t])" for c
      using that D(1,5,6) none by (cases "c = length (dr_tasks r)") (auto simp: nth_append intro: subseq_filter_both)
    show "length (dm_chans ?d ! c) \<le> waiter_cap" if "c < length (dr_tasks r @ [t])" for c
      using that D(1,4) cap by (cases "c = length (dr_tasks r)") (auto simp: nth_append)
    show "subseq (dm_overflow ?d) (dr_routed r)"
      using subseq_order.trans [OF subseq_filter_left D(6)] by simp
    have "mset ?mine + mset (filter (\<lambda>m. \<not> for_task t m) ?o) = mset ?o" by simp
    then show "mset (map snd (dr_received r)) + (mset (concat (dm_chans ?d)) + mset (dm_overflow ?d)) \<subseteq># mset (dr_routed r)"
      using D(7) by (simp add: add.assoc del: mset_filter)
    show "mget (dm_waiters ?d) t' = Some c \<Longrightarrow> c < length (dr_tasks r @ [t]) \<and> (dr_tasks r @ [t]) ! c = t'" for t' c
      using D(2) [of t' c] by (auto simp: nth_append split: if_splits)
    show "fst p < length (dr_tasks r @ [t])" if "p \<in> set (dr_received r)" for p
      using D(3) [OF that] by simp
  qed (use D(1) in simp)
qed

lemma demux_inv_receive:
  assumes "demux_inv r" and "demux_step (Receives ch) r = Some r'"
  shows "demux_inv r'"
proof -
  note D = demux_invD [OF assms(1)]
  from assms(2) obtain m rest where ch: "ch < length (dm_chans (dr_demux r))" "dm_chans (dr_demux r) ! ch = m # rest"
    and r': "r' = r\<lparr>dr_demux := (dr_demux r)\<lparr>dm_chans := (dm_chans (dr_demux r))[ch := rest]\<rparr>, dr_received := dr_received r @ [(ch, m)]\<rparr>"
    by (auto simp: demux_receive_def split: if_splits list.splits option.splits)
  let ?d = "(dr_demux r)\<lparr>dm_chans := (dm_chans (dr_demux r))[ch := rest]\<rparr>"
  have "demux_inv \<lparr>dr_demux = ?d, dr_routed = dr_routed r, dr_tasks = dr_tasks r, dr_received = dr_received r @ [(ch, m)]\<rparr>"
  proof (rule demux_invI)
    show "length (dm_chans ?d ! c) \<le> waiter_cap" if "c < length (dr_tasks r)" for c
      using D(1) D(4) [OF that] ch that by (cases "c = ch") simp_all
    show "subseq (map snd (filter (\<lambda>(c', m). c' = c) (dr_received r @ [(ch, m)])) @ dm_chans ?d ! c)
        (filter (for_task (dr_tasks r ! c)) (dr_routed r))" if "c < length (dr_tasks r)" for c
      using D(1) D(5) [OF that] ch that by (cases "c = ch") simp_all
    have "mset (concat ((dm_chans (dr_demux r))[ch := rest])) + {#m#} = mset (concat (dm_chans (dr_demux r)))"
      using mset_concat_update [OF ch(1), of rest] ch(2) by simp
    then have "mset (concat (dm_chans (dr_demux r))) = add_mset m (mset (concat ((dm_chans (dr_demux r))[ch := rest])))" by simp
    then have eq: "mset (map snd (dr_received r @ [(ch, m)])) + (mset (concat (dm_chans ?d)) + mset (dm_overflow ?d)) =
        mset (map snd (dr_received r)) + (mset (concat (dm_chans (dr_demux r))) + mset (dm_overflow (dr_demux r)))"
      by simp
    show "mset (map snd (dr_received r @ [(ch, m)])) + (mset (concat (dm_chans ?d)) + mset (dm_overflow ?d)) \<subseteq># mset (dr_routed r)"
      unfolding eq by (rule D(7))
    show "mget (dm_waiters ?d) t' = Some c \<Longrightarrow> c < length (dr_tasks r) \<and> dr_tasks r ! c = t'" for t' c
      using D(2) [of t' c] by simp
    show "fst p < length (dr_tasks r)" if "p \<in> set (dr_received r @ [(ch, m)])" for p
      using that D(1) D(3) [of p] ch(1) by auto
  qed (use D(1,6) in simp_all)
  then show ?thesis unfolding r' by (cases r) simp
qed

lemma demux_inv_step: "demux_inv r \<Longrightarrow> demux_step e r = Some r' \<Longrightarrow> demux_inv r'"
proof (cases e)
  case (Unsubscribes t)
  then show "demux_inv r \<Longrightarrow> demux_step e r = Some r' \<Longrightarrow> demux_inv r'"
    by (auto simp: demux_unsubscribe_def intro!: demux_inv_drop [where t = t])
next
  case (Clears t)
  then show "demux_inv r \<Longrightarrow> demux_step e r = Some r' \<Longrightarrow> demux_inv r'"
    by (auto simp: clearOverflow_def intro!: demux_inv_drop [where t = t])
qed (use demux_inv_route demux_inv_subscribe demux_inv_receive in blast)+

lemma demux_inv_steps: "demux_inv r \<Longrightarrow> demux_steps es r = Some r' \<Longrightarrow> demux_inv r'"
  by (induction es arbitrary: r) (auto split: option.splits dest: demux_inv_step)

text \<open>
  Claim C10: the demultiplexer delivers a task's messages to its waiter, in order and at most once. In every run
  of arrivals, subscriptions, clean-ups and receives, what is received from a channel, followed by what it still buffers,
  is a part in order of the messages that arrived for the task the channel was made for; a channel
  holds at most 16 messages; and over all channels no message is received more often than it arrived.
\<close>

theorem demux_delivers_in_order:
  assumes "demux_steps evs start_demux = Some r" and "ch < length (dr_tasks r)"
  shows "subseq (reached ch r) (filter (for_task (dr_tasks r ! ch)) (dr_routed r)) \<and>
    length (dm_chans (dr_demux r) ! ch) \<le> 16 \<and> mset (map snd (dr_received r)) \<subseteq># mset (dr_routed r)"
proof -
  have "demux_inv start_demux" by (simp add: demux_inv_def start_demux_def newDemux_def Let_def)
  from demux_inv_steps [OF this assms(1)] have "demux_inv r" .
  from demux_invD(4,5) [OF this assms(2)] demux_invD(7) [OF this] show ?thesis
    by (auto simp: reached_def received_on_def waiter_cap_def intro: subset_mset.trans [OF mset_subset_eq_add_left])
qed

definition demux_message :: "MessageType \<Rightarrow> string \<Rightarrow> string \<Rightarrow> Message" where
  "demux_message ty i nonce = \<lparr>m_ID = i, m_RequestID = ''r'', m_From = ''dev'', m_To = ''conductor'', m_Type = ty, m_Parts = [],
     m_Metadata = [(''task_id'', ''t1''), (''dispatch_nonce'', nonce)], m_TokenUsage = None, m_Timestamp = 1\<rparr>"

definition demo_demux :: "demux_event list" where
  "demo_demux = [Routes (demux_message TypeStatusUpdate ''m1'' ''''), Subscribes ''t1'', Receives 0,
     Routes (demux_message TypeTaskResult ''m2'' ''n''), Receives 0]"

lemma demo_demux_run:
  "(case demux_steps demo_demux start_demux of
      Some r \<Rightarrow> dr_tasks r = [''t1''] \<and> map m_ID (received_on 0 r) = [''m1'', ''m2''] | None \<Rightarrow> False)"
  by code_simp

theorem demux_delivers_in_order_witness:
  "\<exists>r. map m_ID (received_on 0 r) = [''m1'', ''m2''] \<and> subseq (reached 0 r) (filter (for_task ''t1'') (dr_routed r))"
proof -
  from demo_demux_run obtain r where r: "demux_steps demo_demux start_demux = Some r" "dr_tasks r = [''t1'']"
    "map m_ID (received_on 0 r) = [''m1'', ''m2'']"
    by (auto split: option.splits)
  from demux_delivers_in_order [OF r(1), of 0] r(2,3) show ?thesis by (intro exI [of _ r]) simp
qed

text \<open>
  A task whose agent sent more than 16 messages before anyone waited can never be waited for: the subscription
  blocks with the mutex locked, and with it the demultiplexer of the whole request.
\<close>

lemma demux_subscribe_blocks:
  "demux_steps (replicate 17 (Routes (demux_message TypeStatusUpdate ''m'' '''')) @ [Subscribes ''t1'']) start_demux = None"
  by code_simp

text \<open>
  A result that finds the channel full is kept aside and not delivered when the waiter has caught up: after 16
  messages the waiter finds its channel empty, and the result is dropped when it gives up.
\<close>

lemma demux_result_stranded:
  "(case demux_steps ([Subscribes ''t1''] @ replicate 16 (Routes (demux_message TypeStatusUpdate ''m'' '''')) @
        [Routes (demux_message TypeTaskResult ''res'' ''n'')] @ replicate 16 (Receives 0)) start_demux of
      Some r \<Rightarrow> demux_receive 0 (dr_demux r) = None \<and> map m_ID (dm_overflow (dr_demux r)) = [''res''] \<and>
        dm_overflow (demux_unsubscribe ''t1'' (dr_demux r)) = []
    | None \<Rightarrow> False)"
  by code_simp

section \<open>Waiting for a result\<close>

text \<open>
  What the select of a waiting loop can see, with its instant: the context ends, the timer fires, a health check
  with its answer, a message (with the error of relaying it when it is a question to the user), the channel
  closes. The timer is armed at \<open>deadline\<close>, \<open>None\<close> without a timeout; before that it does not fire. Heartbeat events
  are only shown. \<open>None\<close> as the answer of a loop: it still waits.
\<close>

datatype 'e wait_event =
    CtxDone | TimerFires time | HealthTick "'e place_error option" | Arrives time Message "string option" | ChanClosed

datatype 'e wait_error =
    WaitCancelled | WaitTimedOut string | WaitUnhealthy "'e place_error" | WaitForwardFailed string | WaitClosed string

definition arm :: "int \<Rightarrow> time \<Rightarrow> time option" where
  "arm timeout now = (if timeout > 0 then Some (now + timeout) else None)"

definition fires :: "time option \<Rightarrow> time \<Rightarrow> bool" where
  "fires deadline now = (case deadline of Some d \<Rightarrow> d \<le> now | None \<Rightarrow> False)"

definition stale_result :: "string \<Rightarrow> Message \<Rightarrow> bool" where
  "stale_result expectedNonce msg =
     (expectedNonce \<noteq> '''' \<and> m_Type msg = TypeTaskResult \<and>
      (let n = mget0 '''' (m_Metadata msg) ''dispatch_nonce'' in n \<noteq> '''' \<and> n \<noteq> expectedNonce))"

fun waitForResult :: "int \<Rightarrow> string \<Rightarrow> string \<Rightarrow> time option \<Rightarrow> 'e wait_event list \<Rightarrow> ('e wait_error + Message) option" where
  "waitForResult timeout tid nonce deadline [] = None"
| "waitForResult timeout tid nonce deadline (CtxDone # evs) = Some (Inl WaitCancelled)"
| "waitForResult timeout tid nonce deadline (TimerFires now # evs) =
     (if fires deadline now then Some (Inl (WaitTimedOut tid)) else waitForResult timeout tid nonce deadline evs)"
| "waitForResult timeout tid nonce deadline (HealthTick None # evs) = waitForResult timeout tid nonce deadline evs"
| "waitForResult timeout tid nonce deadline (HealthTick (Some e) # evs) = Some (Inl (WaitUnhealthy e))"
| "waitForResult timeout tid nonce deadline (ChanClosed # evs) = Some (Inl (WaitClosed tid))"
| "waitForResult timeout tid nonce deadline (Arrives now msg fwd # evs) =
     (if stale_result nonce msg then waitForResult timeout tid nonce (arm timeout now) evs
      else if m_Type msg = TypeUserQuery then
        (case fwd of
           Some e \<Rightarrow> Some (Inl (WaitForwardFailed e))
         | None \<Rightarrow> waitForResult timeout tid nonce (arm timeout now) evs)
      else if m_Type msg = TypeTaskResult then Some (Inr msg)
      else if m_Type msg = TypeEscalation then Some (Inr msg)
      else waitForResult timeout tid nonce (arm timeout now) evs)"

text \<open>What the agent asked and the message with the answer (forwardUserQuery).\<close>

record UserQuery =
  uq_AgentName :: string
  uq_TaskID :: string
  uq_Question :: string

definition user_query_of :: "Message \<Rightarrow> UserQuery" where
  "user_query_of msg = \<lparr>uq_AgentName = m_From msg, uq_TaskID = extractMetaTaskID msg, uq_Question = result_text msg\<rparr>"

definition user_response :: "string \<Rightarrow> string \<times> int \<Rightarrow> Message \<Rightarrow> string \<Rightarrow> Message" where
  "user_response requestID stamp msg answer =
     \<lparr>m_ID = fst stamp, m_RequestID = requestID, m_From = ''conductor'', m_To = m_From msg, m_Type = TypeUserResponse,
      m_Parts = [TextPart answer], m_Metadata = [(''task_id'', uq_TaskID (user_query_of msg))], m_TokenUsage = None,
      m_Timestamp = snd stamp\<rparr>"

text \<open>What a result writes into its task.\<close>

definition take_result :: "Message \<Rightarrow> TaskNode \<Rightarrow> TaskNode" where
  "take_result msg task = task\<lparr>tn_Result := result_text msg, tn_ArtifactURI := extractArtifactURI msg,
     tn_ArtifactFiles := extractArtifactFiles msg\<rparr>"

definition loop_status :: "Message \<Rightarrow> TaskStatus" where
  "loop_status msg =
     (if mget0 '''' (m_Metadata msg) ''status'' = ''failed'' then StatusFailed
      else if mget0 '''' (m_Metadata msg) ''loop_escalated'' = ''true'' then StatusEscalated
      else StatusCompleted)"

text \<open>The loop that waits for the end of a review loop: the task, the store and the meter as it goes.\<close>

fun loop_wait :: "('s, 'e) SchedulerConf \<Rightarrow> int \<Rightarrow> string \<Rightarrow> time option \<Rightarrow> 'e wait_event list \<Rightarrow> TaskNode \<times> 's \<times> Meter \<Rightarrow>
    ((TaskNode \<times> 's \<times> Meter) \<times> 'e wait_error option) option" where
  "loop_wait c timeout nonce deadline [] w = None"
| "loop_wait c timeout nonce deadline (CtxDone # evs) w = Some (w, Some WaitCancelled)"
| "loop_wait c timeout nonce deadline (TimerFires now # evs) w =
     (if fires deadline now then Some (w, Some (WaitTimedOut (tn_ID (fst w)))) else loop_wait c timeout nonce deadline evs w)"
| "loop_wait c timeout nonce deadline (HealthTick None # evs) w = loop_wait c timeout nonce deadline evs w"
| "loop_wait c timeout nonce deadline (HealthTick (Some e) # evs) (task, s, meter) =
     (case prepareTaskForRedispatch c task s of (s', task') \<Rightarrow> Some ((task', s', meter), Some (WaitUnhealthy e)))"
| "loop_wait c timeout nonce deadline (ChanClosed # evs) w = Some (w, Some (WaitClosed (tn_ID (fst w))))"
| "loop_wait c timeout nonce deadline (Arrives now msg fwd # evs) (task, s, meter) =
     (if m_Type msg = TypeStatusUpdate then
        (case updateLoopTaskExecution c task msg s of
           (s', task') \<Rightarrow> loop_wait c timeout nonce (arm timeout now) evs (task', s', meter))
      else if m_Type msg = TypeUserQuery then
        (case fwd of
           Some e \<Rightarrow> Some ((task, s, meter), Some (WaitForwardFailed e))
         | None \<Rightarrow> loop_wait c timeout nonce (arm timeout now) evs (task, s, meter))
      else if m_Type msg = TypeTaskResult then
        (if stale_result nonce msg then loop_wait c timeout nonce (arm timeout now) evs (task, s, meter)
         else
           (let task' = (take_result msg task)\<lparr>tn_Status := loop_status msg\<rparr>
            in Some ((task', syncTaskState c task' s, recordRemoteUsage msg meter), None)))
      else loop_wait c timeout nonce deadline evs (task, s, meter))"

definition waitForLoopCompletion :: "('s, 'e) SchedulerConf \<Rightarrow> time \<Rightarrow> LoopDefinition \<Rightarrow> string \<Rightarrow> 'e wait_event list \<Rightarrow>
    TaskNode \<times> 's \<times> Meter \<Rightarrow> ((TaskNode \<times> 's \<times> Meter) \<times> 'e wait_error option) option" where
  "waitForLoopCompletion c now def nonce evs w =
     (let timeout0 = resolveTaskTimeout (sc_Agents c) (fst w);
          timeout = (if timeout0 > 0 then timeout0 * ld_MaxTransitions def else timeout0)
      in loop_wait c timeout nonce (arm timeout now) evs w)"

text \<open>A message that ends the wait for a result.\<close>

definition final :: "string \<Rightarrow> Message \<Rightarrow> bool" where
  "final nonce msg \<longleftrightarrow> m_Type msg = TypeEscalation \<or> m_Type msg = TypeTaskResult \<and> \<not> stale_result nonce msg"

text \<open>An event that a waiting loop lives through, with the timer armed at \<open>d\<close>; what it arms the timer at.\<close>

fun harmless :: "string \<Rightarrow> time option \<Rightarrow> 'e wait_event \<Rightarrow> bool" where
  "harmless nonce d CtxDone = False"
| "harmless nonce d (TimerFires now) = (\<not> fires d now)"
| "harmless nonce d (HealthTick e) = (e = None)"
| "harmless nonce d (Arrives now msg fwd) = (\<not> final nonce msg \<and> (m_Type msg = TypeUserQuery \<longrightarrow> fwd = None))"
| "harmless nonce d ChanClosed = False"

fun rearm :: "int \<Rightarrow> time option \<Rightarrow> 'e wait_event \<Rightarrow> time option" where
  "rearm timeout d (Arrives now msg fwd) = arm timeout now"
| "rearm timeout d _ = d"

fun all_harmless :: "int \<Rightarrow> string \<Rightarrow> time option \<Rightarrow> 'e wait_event list \<Rightarrow> bool" where
  "all_harmless timeout nonce d [] = True"
| "all_harmless timeout nonce d (e # es) = (harmless nonce d e \<and> all_harmless timeout nonce (rearm timeout d e) es)"

lemma stale_not_query: "stale_result nonce msg \<Longrightarrow> m_Type msg = TypeTaskResult"
  by (simp add: stale_result_def)

lemma wait_harmless:
  "harmless nonce d e \<Longrightarrow> waitForResult timeout tid nonce d (e # es) = waitForResult timeout tid nonce (rearm timeout d e) es"
  by (cases e) (auto simp: final_def dest: stale_not_query)

lemma wait_all_harmless:
  "all_harmless timeout nonce d pre \<Longrightarrow>
   waitForResult timeout tid nonce d (pre @ es) = waitForResult timeout tid nonce (foldl (rearm timeout) d pre) es"
proof (induction pre arbitrary: d)
  case (Cons e pre)
  then show ?case using wait_harmless [of nonce d e timeout tid "pre @ es"] by simp
qed simp

lemma wait_message:
  "waitForResult timeout tid nonce d evs = Some (Inr msg) \<Longrightarrow>
   \<exists>pre now fwd post. evs = pre @ Arrives now msg fwd # post \<and> all_harmless timeout nonce d pre \<and> final nonce msg"
proof (induction evs arbitrary: d)
  case (Cons e evs)
  show ?case
  proof (cases "harmless nonce d e")
    case True
    with Cons.prems have "waitForResult timeout tid nonce (rearm timeout d e) evs = Some (Inr msg)" by (simp add: wait_harmless)
    from Cons.IH [OF this] obtain pre now fwd post where
      "evs = pre @ Arrives now msg fwd # post" "all_harmless timeout nonce (rearm timeout d e) pre" "final nonce msg" by blast
    with True show ?thesis by (intro exI [of _ "e # pre"]) auto
  next
    case False
    from Cons.prems obtain now fwd where e: "e = Arrives now msg fwd" and f: "final nonce msg"
      using False by (cases e) (auto simp: final_def split: if_splits option.splits dest: stale_not_query)
    from e f show ?thesis by (intro exI [of _ "[]"]) auto
  qed
qed simp

lemma wait_timeout:
  "waitForResult timeout tid nonce d evs = Some (Inl (WaitTimedOut t)) \<Longrightarrow>
   \<exists>pre now post dl. evs = pre @ TimerFires now # post \<and> all_harmless timeout nonce d pre \<and>
     foldl (rearm timeout) d pre = Some dl \<and> dl \<le> now"
proof (induction evs arbitrary: d)
  case (Cons e evs)
  show ?case
  proof (cases "harmless nonce d e")
    case True
    with Cons.prems have "waitForResult timeout tid nonce (rearm timeout d e) evs = Some (Inl (WaitTimedOut t))" by (simp add: wait_harmless)
    from Cons.IH [OF this] obtain pre now post dl where
      "evs = pre @ TimerFires now # post" "all_harmless timeout nonce (rearm timeout d e) pre"
      "foldl (rearm timeout) (rearm timeout d e) pre = Some dl" "dl \<le> now" by blast
    with True show ?thesis by (intro exI [of _ "e # pre"]) auto
  next
    case False
    with Cons.prems obtain now dl where "e = TimerFires now" "d = Some dl" "dl \<le> now"
      by (cases e) (auto simp: final_def fires_def split: if_splits option.splits dest: stale_not_query)
    then show ?thesis by (intro exI [of _ "[]"]) auto
  qed
qed simp

text \<open>The instant of the last message, or of the start of the wait.\<close>

fun last_arrival :: "time \<Rightarrow> 'e wait_event list \<Rightarrow> time" where
  "last_arrival start [] = start"
| "last_arrival start (Arrives now msg fwd # es) = last_arrival now es"
| "last_arrival start (_ # es) = last_arrival start es"

lemma rearm_last: "foldl (rearm timeout) (arm timeout start) es = arm timeout (last_arrival start es)"
  by (induction start es rule: last_arrival.induct) simp_all

text \<open>
  Claim C11: a waiting goroutine takes exactly the first message that answers its dispatch. The wait ends with a
  message exactly when, after events it lives through, an escalation or a result arrives that carries the
  nonce of this dispatch or none; a result of an earlier dispatch never ends it. It ends with a timeout only if
  the task has one and no message arrived for that long.
\<close>

theorem wait_takes_answer:
  "(waitForResult timeout tid nonce (arm timeout start) evs = Some (Inr msg) \<longleftrightarrow>
     (\<exists>pre now fwd post. evs = pre @ Arrives now msg fwd # post \<and>
        all_harmless timeout nonce (arm timeout start) pre \<and> final nonce msg)) \<and>
   (waitForResult timeout tid nonce (arm timeout start) evs = Some (Inl (WaitTimedOut t)) \<longrightarrow>
     timeout > 0 \<and> (\<exists>pre now post. evs = pre @ TimerFires now # post \<and> now - last_arrival start pre \<ge> timeout))"
proof (intro conjI impI iffI)
  show "\<exists>pre now fwd post. evs = pre @ Arrives now msg fwd # post \<and>
        all_harmless timeout nonce (arm timeout start) pre \<and> final nonce msg"
    if "waitForResult timeout tid nonce (arm timeout start) evs = Some (Inr msg)"
    using wait_message [OF that] .
  show "waitForResult timeout tid nonce (arm timeout start) evs = Some (Inr msg)"
    if "\<exists>pre now fwd post. evs = pre @ Arrives now msg fwd # post \<and>
        all_harmless timeout nonce (arm timeout start) pre \<and> final nonce msg"
    using that by (auto simp: wait_all_harmless final_def stale_result_def)
  assume "waitForResult timeout tid nonce (arm timeout start) evs = Some (Inl (WaitTimedOut t))"
  from wait_timeout [OF this] obtain pre now post dl where w: "evs = pre @ TimerFires now # post"
    "arm timeout (last_arrival start pre) = Some dl" "dl \<le> now"
    by (auto simp: rearm_last)
  then have t: "timeout > 0" "now - last_arrival start pre \<ge> timeout" by (auto simp: arm_def split: if_splits)
  from t(1) show "timeout > 0" .
  from w(1) t(2) show "\<exists>pre now post. evs = pre @ TimerFires now # post \<and> now - last_arrival start pre \<ge> timeout" by blast
qed

definition demo_wait :: "store_error wait_event list" where
  "demo_wait = [Arrives 5 (demux_message TypeTaskResult ''old'' ''n0'') None, HealthTick None,
     Arrives 9 (demux_message TypeTaskResult ''new'' ''n1'') None]"

theorem wait_takes_answer_witness:
  "waitForResult 10 ''t1'' ''n1'' (arm 10 0) demo_wait = Some (Inr (demux_message TypeTaskResult ''new'' ''n1'')) \<and>
   (\<exists>e. waitForResult 3 ''t1'' ''n1'' (arm 3 0) [TimerFires 4 :: store_error wait_event] = Some (Inl (WaitTimedOut e)) \<and> 4 - 0 \<ge> (3 :: int))"
proof -
  let ?m = "demux_message TypeTaskResult ''new'' ''n1''"
  have "demo_wait = [Arrives 5 (demux_message TypeTaskResult ''old'' ''n0'') None, HealthTick None] @ Arrives 9 ?m None # []"
    by (simp add: demo_wait_def)
  moreover have "all_harmless 10 ''n1'' (arm 10 0) [Arrives 5 (demux_message TypeTaskResult ''old'' ''n0'') None, HealthTick None]"
    "final ''n1'' ?m"
    by (simp_all add: final_def stale_result_def demux_message_def Let_def)
  ultimately have "waitForResult 10 ''t1'' ''n1'' (arm 10 0) demo_wait = Some (Inr ?m)"
    using wait_takes_answer [of 10 "''t1''" "''n1''" 0 demo_wait ?m] by blast
  moreover have "waitForResult 3 ''t1'' ''n1'' (arm 3 0) [TimerFires 4 :: store_error wait_event] = Some (Inl (WaitTimedOut ''t1''))"
    by (simp add: arm_def fires_def)
  ultimately show ?thesis by auto
qed

text \<open>The wait for a loop: it ends without error only with a result that answers the dispatch, and sets the task by it.\<close>

lemma loop_wait_result:
  assumes "loop_wait c timeout nonce d evs w = Some ((task, s, meter), None)"
  shows "\<exists>now msg fwd. Arrives now msg fwd \<in> set evs \<and> m_Type msg = TypeTaskResult \<and> \<not> stale_result nonce msg \<and>
    tn_Status task = loop_status msg \<and> tn_Result task = result_text msg \<and> tn_ArtifactFiles task = extractArtifactFiles msg"
  using assms
proof (induction c timeout nonce d evs w rule: loop_wait.induct)
  case (7 c timeout nonce deadline now msg fwd evs task0 s0 meter0)
  then show ?case
    by (auto simp: Let_def take_result_def split: if_splits prod.splits option.splits) blast+
qed (auto split: prod.splits if_splits)

end
