(* ===== verification/Dispatch.thy ===== *)
theory Dispatch
  imports Demux LoopCodec VerdictProps
begin

text \<open>
  How a task is dispatched (internal/conductor/scheduler.go: dispatchTask, dispatchLoopTask): it is placed,
  its message is put together and sent, the result is waited for, and the placement is released whatever
  happened. What the goroutine sees while it waits is the list of events of \<open>Demux\<close>; sending is a function
  from the message to its error. IDs and instants of messages are given; logging is left out.
\<close>

section \<open>The state of a dispatch\<close>

record ('s, 'e) Dispatcher =
  di_conf :: "('s, 'e) SchedulerConf"
  di_UserRequest :: string
  di_storage :: "(string \<Rightarrow> string list option) option"
  di_send :: "Message \<Rightarrow> string option"
  di_rnd :: "rat \<Rightarrow> rat"

record 's dispatch_state =
  dp_world :: 's
  dp_loads :: loads
  dp_demux :: demux
  dp_nonces :: "(string, string) gomap"
  dp_shared :: "Graph option"
  dp_agents :: "(string, Graph) gomap option"
  dp_meter :: Meter

datatype 'e dispatch_error =
    PlacementFailed "'e place_error" | SendFailed string string | WaitFailed "'e wait_error"
  | UnknownLoop string string | BadLoop string loop_error | NoInitialAgent string string

fun recoverable :: "'e dispatch_error \<Rightarrow> bool" where
  "recoverable (PlacementFailed e) = isRecoverableDispatchError e"
| "recoverable (WaitFailed (WaitUnhealthy e)) = isRecoverableDispatchError e"
| "recoverable _ = False"

definition setNonce :: "string \<Rightarrow> string \<Rightarrow> 's dispatch_state \<Rightarrow> 's dispatch_state" where
  "setNonce taskID nonce st = st\<lparr>dp_nonces := mput taskID nonce (dp_nonces st)\<rparr>"

section \<open>A single task\<close>

definition no_upstream_note :: string where
  "no_upstream_note = ''You are the first task in the pipeline. There are no upstream artifacts or dependency files to read. All requirements come from the user request and task description above.''"

definition request_part :: "('s, 'e) Dispatcher \<Rightarrow> Part list" where
  "request_part di = (if di_UserRequest di \<noteq> '''' then [DataPart [(''user_request'', AStr (di_UserRequest di))]] else [])"

definition task_parts :: "('s, 'e) Dispatcher \<Rightarrow> TaskGraph \<Rightarrow> TaskNode \<Rightarrow> Part list \<Rightarrow> Part list" where
  "task_parts di g task knowledge =
     [TextPart (tn_Description task)]
     @ request_part di
     @ (if tn_ChatContext task \<noteq> '''' then [DataPart [(''chat_context'', AStr (tn_ChatContext task))]] else [])
     @ (let pctx = buildPipelineContext task g (sc_Agents (di_conf di))
        in if pctx \<noteq> '''' then [DataPart [(''pipeline_context'', AStr pctx)]] else [])
     @ knowledge
     @ buildExistingArtifacts (di_storage di) (taskProfile task)
     @ (if tn_DependsOn task = [] then [DataPart [(''no_upstream'', AStr no_upstream_note)]] else [])
     @ concat (map dependency_parts (completed_dependencies g task))"

fun scope_text :: "TaskScope \<Rightarrow> string" where
  "scope_text ScopeSmall = ''small''"
| "scope_text ScopeStandard = ''standard''"
| "scope_text ScopeLarge = ''large''"
| "scope_text (ScopeOther s) = s"

definition meta_if :: "bool \<Rightarrow> string \<Rightarrow> string \<Rightarrow> (string, string) gomap \<Rightarrow> (string, string) gomap" where
  "meta_if b k v m = (if b then mput k v m else m)"

definition task_message :: "('s, 'e) Dispatcher \<Rightarrow> string \<times> int \<Rightarrow> string \<Rightarrow> TaskNode \<Rightarrow> Part list \<Rightarrow> Message" where
  "task_message di stamp nonce task parts =
     \<lparr>m_ID = fst stamp, m_RequestID = sc_RequestID (di_conf di), m_From = ''conductor'', m_To = taskProfile task,
      m_Type = TypeTaskAssignment, m_Parts = parts,
      m_Metadata =
        meta_if (tn_LeaseEpoch task > 0) ''lease_epoch'' (json_int (tn_LeaseEpoch task))
          (meta_if (tn_ExecutionNode task \<noteq> '''') ''execution_node'' (tn_ExecutionNode task)
            (meta_if (tn_AssignedInstance task \<noteq> '''') ''assigned_instance'' (tn_AssignedInstance task)
              (meta_if (taskProfile task \<noteq> '''') ''profile'' (taskProfile task)
                [(''task_id'', tn_ID task), (''task_scope'', scope_text (EffectiveScope (tn_Scope task))),
                 (''dispatch_nonce'', nonce)]))),
      m_TokenUsage = None, m_Timestamp = snd stamp\<rparr>"

text \<open>The knowledge of the task is read, and its hits are counted, before the message is built.\<close>

definition knowledge_step :: "time \<Rightarrow> ('s, 'e) Dispatcher \<Rightarrow> TaskNode \<Rightarrow> 's dispatch_state \<Rightarrow> Part list \<times> 's dispatch_state" where
  "knowledge_step now di task st =
     (case buildKnowledgeContext now (di_rnd di) (dp_shared st) (dp_agents st) task of
        (parts, shared, agents) \<Rightarrow> (parts, st\<lparr>dp_shared := shared, dp_agents := agents\<rparr>))"

text \<open>An error sends the task back to be dispatched again when it is recoverable.\<close>

definition fail_dispatch :: "('s, 'e) Dispatcher \<Rightarrow> 'e dispatch_error \<Rightarrow> TaskNode \<Rightarrow> 's dispatch_state \<Rightarrow>
    's dispatch_state \<times> TaskNode \<times> 'e dispatch_error option" where
  "fail_dispatch di e task st =
     (if recoverable e
      then (case prepareTaskForRedispatch (di_conf di) task (dp_world st) of (s, task') \<Rightarrow> (st\<lparr>dp_world := s\<rparr>, task', Some e))
      else (st, task, Some e))"

text \<open>From the placed task to its outcome; \<open>None\<close> while it waits or when the subscription blocks.\<close>

definition run_task :: "time \<Rightarrow> ('s, 'e) Dispatcher \<Rightarrow> TaskGraph \<Rightarrow> string \<times> int \<Rightarrow> string \<Rightarrow> 'e wait_event list \<Rightarrow> TaskNode \<Rightarrow>
    's dispatch_state \<Rightarrow> ('s dispatch_state \<times> TaskNode \<times> 'e dispatch_error option) option" where
  "run_task now di g stamp nonce evs task st =
     (case knowledge_step now di task st of
        (knowledge, st1) \<Rightarrow>
          (let msg = task_message di stamp nonce task (task_parts di g task knowledge)
           in case di_send di msg of
                Some e \<Rightarrow> Some (st1, task, Some (SendFailed (ExecutionTarget (Some task)) e))
              | None \<Rightarrow>
                  (let timeout = resolveTaskTimeout (sc_Agents (di_conf di)) task
                   in case demux_subscribe (tn_ID task) (dp_demux st1) of
                        None \<Rightarrow> None
                      | Some (d, ch) \<Rightarrow>
                          (let st2 = st1\<lparr>dp_demux := demux_unsubscribe (tn_ID task) d\<rparr>
                           in case waitForResult timeout (tn_ID task) nonce (arm timeout now) evs of
                                None \<Rightarrow> None
                              | Some (Inl e) \<Rightarrow> Some (fail_dispatch di (WaitFailed e) task st2)
                              | Some (Inr result) \<Rightarrow>
                                  (let task' = (take_result result task)\<lparr>tn_Status :=
                                         (if mget0 '''' (m_Metadata result) ''status'' = ''failed'' then StatusFailed else StatusCompleted)\<rparr>
                                   in Some (st2\<lparr>dp_meter := recordRemoteUsage result (dp_meter st2),
                                                dp_world := syncTaskState (di_conf di) task' (dp_world st2)\<rparr>, task', None))))))"

text \<open>\<open>seen\<close>: the loads read while the instance is selected.\<close>

definition dispatchTask :: "time \<Rightarrow> ('s, 'e) Dispatcher \<Rightarrow> loads \<Rightarrow> TaskGraph \<Rightarrow> string \<times> int \<Rightarrow> string \<Rightarrow> 'e wait_event list \<Rightarrow> TaskNode \<Rightarrow>
    's dispatch_state \<Rightarrow> ('s dispatch_state \<times> TaskNode \<times> 'e dispatch_error option) option" where
  "dispatchTask now di seen g stamp nonce evs task st0 =
     (let st = (setNonce (tn_ID task) nonce st0)\<lparr>dp_demux := clearOverflow (tn_ID task) (dp_demux st0)\<rparr>
      in case prepareTaskPlacement (di_conf di) seen (Some g) task (dp_world st, dp_loads st) of
           ((s1, l1), task1, Inl e) \<Rightarrow> Some (fail_dispatch di (PlacementFailed e) task1 (st\<lparr>dp_world := s1, dp_loads := l1\<rparr>))
         | ((s1, l1), task1, Inr placement) \<Rightarrow>
             (case run_task now di g stamp nonce evs task1 (st\<lparr>dp_world := s1, dp_loads := l1\<rparr>) of
                None \<Rightarrow> None
              | Some (st2, task2, r) \<Rightarrow>
                  (case finishTaskPlacement (di_conf di) placement (dp_world st2, dp_loads st2) of
                     (s3, l3) \<Rightarrow> Some (st2\<lparr>dp_world := s3, dp_loads := l3\<rparr>, task2, r))))"

section \<open>A review loop\<close>

definition loop_context :: "('s, 'e) Dispatcher \<Rightarrow> LoopDefinition \<Rightarrow> TaskNode \<Rightarrow> data list \<Rightarrow> (string, AgentInstance) gomap \<Rightarrow> string \<Rightarrow> string \<Rightarrow> LoopContext" where
  "loop_context di def task depParts assignments nonce decisionCtx =
     \<lparr>lc_Definition = def,
      lc_State = \<lparr>ls_LoopID = ld_ID def, ls_CurrentState = ld_InitialState def, ls_TransitionCount = 0\<rparr>,
      lc_TaskID = tn_ID task, lc_Conductor = ''conductor'', lc_OriginalTask = tn_Description task,
      lc_UserRequest = di_UserRequest di, lc_DepParts = depParts,
      lc_AssignedInstances = loopAssignedInstances assignments, lc_ExecutionNodes = loopExecutionNodes assignments,
      lc_WorkSummary = '''', lc_WorkArtifactURI = '''', lc_WorkArtifactFiles = [], lc_DispatchNonce = nonce,
      lc_DecisionContext = decisionCtx\<rparr>"

definition loop_message :: "('s, 'e) Dispatcher \<Rightarrow> string \<times> int \<Rightarrow> string \<Rightarrow> TaskNode \<Rightarrow> LoopContext \<Rightarrow> Part list \<Rightarrow> Message" where
  "loop_message di stamp nonce task lc parts =
     (let def = lc_Definition lc; firstAgent = AgentForState def (ld_InitialState def);
          assigned = mget0 '''' (lc_AssignedInstances lc) firstAgent; node = mget0 '''' (lc_ExecutionNodes lc) firstAgent
      in \<lparr>m_ID = fst stamp, m_RequestID = sc_RequestID (di_conf di), m_From = ''conductor'', m_To = firstAgent,
          m_Type = TypeTaskAssignment, m_Parts = parts,
          m_Metadata =
            meta_if (node \<noteq> '''') ''execution_node'' node
              (meta_if (assigned \<noteq> '''') ''assigned_instance'' assigned
                [(''task_id'', tn_ID task), (''task_scope'', scope_text (EffectiveScope (tn_Scope task))),
                 (''loop_id'', ld_ID def), (''loop_state'', ld_InitialState def), (''dispatch_nonce'', nonce)]),
          m_TokenUsage = None, m_Timestamp = snd stamp\<rparr>)"

text \<open>From the placed loop to its outcome.\<close>

definition run_loop :: "time \<Rightarrow> ('s, 'e) Dispatcher \<Rightarrow> string \<times> int \<Rightarrow> string \<Rightarrow> 'e wait_event list \<Rightarrow> LoopDefinition \<Rightarrow>
    data list \<Rightarrow> (string, AgentInstance) gomap \<Rightarrow> TaskNode \<Rightarrow> 's dispatch_state \<Rightarrow>
    ('s dispatch_state \<times> TaskNode \<times> 'e dispatch_error option) option" where
  "run_loop now di stamp nonce evs def depParts assignments task st =
     (let decisionCtx = decomposeDecisions now (di_rnd di) (dp_shared st) (tn_Description task);
          lc = loop_context di def task depParts assignments nonce decisionCtx;
          firstAgent = AgentForState def (ld_InitialState def)
      in if firstAgent = '''' then Some (st, task, Some (NoInitialAgent (ld_ID def) (ld_InitialState def)))
         else
           (case knowledge_step now di task st of
              (knowledge, st1) \<Rightarrow>
                (let parts = [TextPart (BuildStatePrompt (tn_Description task) def (ld_InitialState def) '''' '''' decisionCtx [])]
                       @ request_part di @ knowledge @ buildExistingArtifacts (di_storage di) firstAgent
                       @ map DataPart depParts @ [EncodeContext lc]
                 in case di_send di (loop_message di stamp nonce task lc parts) of
                      Some e \<Rightarrow> Some (st1, task, Some (SendFailed firstAgent e))
                    | None \<Rightarrow>
                        (case demux_subscribe (tn_ID task) (dp_demux st1) of
                           None \<Rightarrow> None
                         | Some (d, ch) \<Rightarrow>
                             (case waitForLoopCompletion (di_conf di) now def nonce evs (task, dp_world st1, dp_meter st1) of
                                None \<Rightarrow> None
                              | Some ((task', s, meter), r) \<Rightarrow>
                                  Some (st1\<lparr>dp_demux := demux_unsubscribe (tn_ID task) d, dp_world := s, dp_meter := meter\<rparr>,
                                        task', map_option WaitFailed r))))))"

text \<open>
  The guidelines are written into the definition of the graph; writing them again changes nothing, so the
  graph is left as it is.
\<close>

definition dispatchLoopTask :: "time \<Rightarrow> ('s, 'e) Dispatcher \<Rightarrow> TaskGraph \<Rightarrow> string \<times> int \<Rightarrow> string \<Rightarrow> 'e wait_event list \<Rightarrow> TaskNode \<Rightarrow>
    's dispatch_state \<Rightarrow> ('s dispatch_state \<times> TaskNode \<times> 'e dispatch_error option) option" where
  "dispatchLoopTask now di g stamp nonce evs task st0 =
     (let st = (setNonce (tn_ID task) nonce st0)\<lparr>dp_demux := clearOverflow (tn_ID task) (dp_demux st0)\<rparr>
      in case GetLoop g (tn_LoopID task) of
           None \<Rightarrow> Some (st, task, Some (UnknownLoop (tn_ID task) (tn_LoopID task)))
         | Some def0 \<Rightarrow>
             (let def = enrichLoopGuidelines (sc_Agents (di_conf di)) def0
              in case NewFSM def of
                   Inl e \<Rightarrow> Some (st, task, Some (BadLoop (ld_ID def) e))
                 | Inr fsm \<Rightarrow>
                     (let depParts = buildDepPartsData g task
                      in case prepareLoopAssignments (di_conf di) (dp_loads st) (Some g) def (dp_world st) of
                           (s1, Inl e) \<Rightarrow> Some (fail_dispatch di (PlacementFailed e) task (st\<lparr>dp_world := s1\<rparr>))
                         | (s1, Inr None) \<Rightarrow> run_loop now di stamp nonce evs def depParts [] task (st\<lparr>dp_world := s1\<rparr>)
                         | (s1, Inr (Some (assignments, placement, first))) \<Rightarrow>
                             (let task1 = task\<lparr>tn_AssignedInstance := (case first of Some i \<Rightarrow> in_ID i | None \<Rightarrow> ''''),
                                    tn_ExecutionNode := (case first of Some i \<Rightarrow> in_NodeID i | None \<Rightarrow> ''''), tn_LeaseEpoch := 0\<rparr>
                              in case run_loop now di stamp nonce evs def depParts assignments task1 (st\<lparr>dp_world := s1\<rparr>) of
                                   None \<Rightarrow> None
                                 | Some (st2, task2, r) \<Rightarrow>
                                     (case sc_ControlPlane (di_conf di) of
                                        None \<Rightarrow> Some (st2, task2, r)
                                      | Some cp \<Rightarrow> Some (st2\<lparr>dp_world := finishLoopPlacement cp (Some placement) (dp_world st2)\<rparr>, task2, r))))))"

section \<open>What a dispatch leaves behind\<close>

lemma recoverable_reset:
  "fail_dispatch di e task st = (st', task', r) \<Longrightarrow>
     r = Some e \<and> dp_loads st' = dp_loads st \<and> dp_demux st' = dp_demux st \<and> tn_ID task' = tn_ID task \<and>
     (recoverable e \<longrightarrow> tn_Status task' = StatusPending \<and> tn_AssignedInstance task' = '''' \<and> tn_LeaseEpoch task' = 0)"
  by (auto simp: fail_dispatch_def prepareTaskForRedispatch_def reset_task_def split: if_splits)

text \<open>How a task stands when its dispatch is over.\<close>

definition settled_by :: "string \<Rightarrow> 'e wait_event list \<Rightarrow> TaskNode \<Rightarrow> 'e dispatch_error option \<Rightarrow> bool" where
  "settled_by nonce evs task r \<longleftrightarrow>
     (case r of
        None \<Rightarrow> tn_Status task \<in> {StatusCompleted, StatusFailed} \<and>
          (\<exists>now msg fwd. Arrives now msg fwd \<in> set evs \<and> final nonce msg \<and> tn_Result task = result_text msg)
      | Some e \<Rightarrow> recoverable e \<longrightarrow> tn_Status task = StatusPending \<and> tn_AssignedInstance task = '''' \<and> tn_LeaseEpoch task = 0)"

text \<open>No message of the task is buffered.\<close>

definition none_kept :: "string \<Rightarrow> demux \<Rightarrow> bool" where
  "none_kept tid d \<longleftrightarrow> (\<forall>m \<in> set (dm_overflow d). \<not> for_task tid m)"

lemma subscribe_unsubscribe:
  "demux_subscribe t d = Some (d', ch) \<Longrightarrow>
     mget (dm_waiters (demux_unsubscribe t d')) t = None \<and> none_kept t (demux_unsubscribe t d')"
  by (simp add: demux_unsubscribe_def none_kept_def)

lemma run_task_facts:
  assumes "run_task now di g stamp nonce evs task st = Some (st', task', r)"
  shows "dp_loads st' = dp_loads st \<and> settled_by nonce evs task' r \<and>
    (mget (dm_waiters (dp_demux st)) (tn_ID task) = None \<longrightarrow> mget (dm_waiters (dp_demux st')) (tn_ID task) = None) \<and>
    (none_kept (tn_ID task) (dp_demux st) \<longrightarrow> none_kept (tn_ID task) (dp_demux st'))"
proof -
  obtain knowledge st1 where k: "knowledge_step now di task st = (knowledge, st1)" by fastforce
  then have st1: "dp_loads st1 = dp_loads st" "dp_demux st1 = dp_demux st"
    by (auto simp: knowledge_step_def split: prod.splits)
  let ?msg = "task_message di stamp nonce task (task_parts di g task knowledge)"
  let ?timeout = "resolveTaskTimeout (sc_Agents (di_conf di)) task"
  show ?thesis
  proof (cases "di_send di ?msg")
    case (Some e)
    with assms st1 show ?thesis by (auto simp: run_task_def k Let_def settled_by_def)
  next
    case None
    with assms obtain d ch w where d: "demux_subscribe (tn_ID task) (dp_demux st1) = Some (d, ch)"
      and w: "waitForResult ?timeout (tn_ID task) nonce (arm ?timeout now) evs = Some w"
      by (auto simp: run_task_def k Let_def split: option.splits)
    show ?thesis
    proof (cases w)
      case (Inl e)
      with assms None d w have f: "fail_dispatch di (WaitFailed e) task (st1\<lparr>dp_demux := demux_unsubscribe (tn_ID task) d\<rparr>) = (st', task', r)"
        by (simp add: run_task_def k Let_def)
      from recoverable_reset [OF f] st1 subscribe_unsubscribe [OF d] show ?thesis by (auto simp: settled_by_def)
    next
      case (Inr result)
      with assms None d w have r: "r = None" "dp_loads st' = dp_loads st1" "dp_demux st' = demux_unsubscribe (tn_ID task) d"
        "tn_Status task' \<in> {StatusCompleted, StatusFailed}" "tn_Result task' = result_text result"
        by (auto simp: run_task_def k Let_def take_result_def)
      from wait_message [OF w [unfolded Inr]] obtain pre now' fwd post where
        "evs = pre @ Arrives now' result fwd # post" "final nonce result" by blast
      then have "Arrives now' result fwd \<in> set evs" "final nonce result" by simp_all
      with r st1 subscribe_unsubscribe [OF d] show ?thesis by (auto simp: settled_by_def)
    qed
  qed
qed

lemma prepare_keeps_ID: "prepareTaskPlacement c seen g task w = (w', task', r) \<Longrightarrow> tn_ID task' = tn_ID task"
  by (auto simp: prepareTaskPlacement_def Let_def split: option.splits if_splits sum.splits prod.splits list.splits)


definition demo_dispatcher :: "(MemoryStore, store_error) Dispatcher" where
  "demo_dispatcher = \<lparr>di_conf = demo_conf, di_UserRequest = ''build it'', di_storage = None, di_send = (\<lambda>m. None), di_rnd = (\<lambda>x. x)\<rparr>"

definition demo_dispatch_state :: "MemoryStore dispatch_state" where
  "demo_dispatch_state = \<lparr>dp_world = demo_cluster, dp_loads = no_loads, dp_demux = newDemux, dp_nonces = [], dp_shared = None,
     dp_agents = None, dp_meter = NewMeter\<rparr>"

definition demo_dispatch_graph :: TaskGraph where
  "demo_dispatch_graph = \<lparr>tg_RequestID = ''r'', tg_Name = ''demo'', tg_Tasks = [dev_task ''t1''], tg_Loops = []\<rparr>"

lemma demo_dispatch:
  "(case dispatchTask 7 demo_dispatcher no_loads demo_dispatch_graph (''m'', 7) ''n1'' demo_wait (dev_task ''t1'') demo_dispatch_state of
      Some (st, task, None) \<Rightarrow> tn_Status task = StatusCompleted \<and> tn_AssignedInstance task = ''i2'' | _ \<Rightarrow> False)"
  by code_simp


text \<open>Writing the guidelines again changes nothing; the definition keeps its states and transitions.\<close>

lemma enrich_idem: "enrichLoopGuidelines agents (enrichLoopGuidelines agents def) = enrichLoopGuidelines agents def"
  by (auto simp: enrichLoopGuidelines_def enrich_state_def Let_def split: option.splits)

lemma enrich_validates: "Validate (enrichLoopGuidelines agents def) = None \<longleftrightarrow> Validate def = None"
proof -
  have n: "sc_Name (enrich_state agents s) = sc_Name s" "sc_Agent (enrich_state agents s) = sc_Agent s" for s
    by (auto simp: enrich_state_def Let_def split: option.splits)
  show ?thesis by (simp add: Validate_def Let_def enrichLoopGuidelines_def StateNames_def n comp_def)
qed

text \<open>The message of a loop names the first agent, and carries the context that agent will decode.\<close>

lemma loop_message_to: "m_To (loop_message di stamp nonce task lc parts) = AgentForState (lc_Definition lc) (ld_InitialState (lc_Definition lc))"
  by (simp add: loop_message_def Let_def)

end
