(* ===== verification/Decompose.thy ===== *)
theory Decompose
  imports ConductorText
begin

text \<open>
  How a request becomes a task graph (internal/conductor/decompose.go, templates.go) and the question whether it
  is clear (disambiguate.go). The model is a function from the number of the call and the messages to an
  error or a reply; \<open>valid\<close> and \<open>decode\<close> are \<open>json.Valid\<close> and \<open>json.Unmarshal\<close>, and \<open>render\<close> gives the text of an
  error, which only the message of a retry contains.
\<close>

section \<open>Prompts\<close>

definition decompose_head :: string where
  "decompose_head =
     ''You are the Conductor of an AgentFab fabric. Decompose the user'' @ squote @ ''s request into a task graph.'' @ newline
     @ newline
     @ ''Before decomposing, evaluate whether the input is actionable.'' @ newline
     @ ''Actionable = a concrete task, question, or instruction that requires work.'' @ newline
     @ ''Non-actionable = greetings, filler, gibberish, or empty content.'' @ newline
     @ ''If non-actionable, respond with: {'' @ dquote @ ''actionable'' @ dquote @ '': false, '' @ dquote @ ''message'' @ dquote @ '': '' @ dquote @ ''friendly one-sentence reply'' @ dquote @ ''}'' @ newline
     @ ''If actionable, include '' @ dquote @ ''actionable'' @ dquote @ '': true in the full task graph JSON.'' @ newline
     @ newline
     @ ''Available agents:'' @ newline"

definition decompose_mid :: string where
  "decompose_mid =
     newline"

definition decompose_rules_1 :: string where
  "decompose_rules_1 =
     ''Output a JSON object with this schema:'' @ newline
     @ ''{'' @ newline
     @ ''  '' @ dquote @ ''name'' @ dquote @ '': '' @ dquote @ ''short-descriptive-name'' @ dquote @ '','' @ newline
     @ ''  '' @ dquote @ ''tasks'' @ dquote @ '': ['' @ newline
     @ ''    {'' @ newline
     @ ''      '' @ dquote @ ''id'' @ dquote @ '': '' @ dquote @ ''t1'' @ dquote @ '','' @ newline
     @ ''      '' @ dquote @ ''agent'' @ dquote @ '': '' @ dquote @ ''agent-name'' @ dquote @ '','' @ newline
     @ ''      '' @ dquote @ ''description'' @ dquote @ '': '' @ dquote @ ''What the agent should do'' @ dquote @ '','' @ newline
     @ ''      '' @ dquote @ ''depends_on'' @ dquote @ '': [],'' @ newline
     @ ''      '' @ dquote @ ''scope'' @ dquote @ '': '' @ dquote @ ''standard'' @ dquote @ '','' @ newline"

definition decompose_rules_2 :: string where
  "decompose_rules_2 =
     ''      '' @ dquote @ ''loop_id'' @ dquote @ '': '' @ dquote @ dquote @ newline
     @ ''    }'' @ newline
     @ ''  ],'' @ newline
     @ ''  '' @ dquote @ ''loops'' @ dquote @ '': ['' @ newline
     @ ''    {'' @ newline
     @ ''      '' @ dquote @ ''id'' @ dquote @ '': '' @ dquote @ ''loop-1'' @ dquote @ '','' @ newline
     @ ''      '' @ dquote @ ''participants'' @ dquote @ '': ['' @ dquote @ ''agent-a'' @ dquote @ '', '' @ dquote @ ''agent-b'' @ dquote @ ''],'' @ newline
     @ ''      '' @ dquote @ ''states'' @ dquote @ '': ['' @ newline
     @ ''        {'' @ dquote @ ''name'' @ dquote @ '': '' @ dquote @ ''WORKING'' @ dquote @ '', '' @ dquote @ ''agent'' @ dquote @ '': '' @ dquote @ ''agent-a'' @ dquote @ ''},'' @ newline
     @ ''        {'' @ dquote @ ''name'' @ dquote @ '': '' @ dquote @ ''REVIEWING'' @ dquote @ '', '' @ dquote @ ''agent'' @ dquote @ '': '' @ dquote @ ''agent-b'' @ dquote @ ''},'' @ newline"

definition decompose_rules_3 :: string where
  "decompose_rules_3 =
     ''        {'' @ dquote @ ''name'' @ dquote @ '': '' @ dquote @ ''REVISING'' @ dquote @ '', '' @ dquote @ ''agent'' @ dquote @ '': '' @ dquote @ ''agent-a'' @ dquote @ ''},'' @ newline
     @ ''        {'' @ dquote @ ''name'' @ dquote @ '': '' @ dquote @ ''APPROVED'' @ dquote @ '', '' @ dquote @ ''agent'' @ dquote @ '': '' @ dquote @ dquote @ ''},'' @ newline
     @ ''        {'' @ dquote @ ''name'' @ dquote @ '': '' @ dquote @ ''ESCALATED'' @ dquote @ '', '' @ dquote @ ''agent'' @ dquote @ '': '' @ dquote @ dquote @ ''}'' @ newline
     @ ''      ],'' @ newline
     @ ''      '' @ dquote @ ''transitions'' @ dquote @ '': ['' @ newline
     @ ''        {'' @ dquote @ ''from'' @ dquote @ '': '' @ dquote @ ''WORKING'' @ dquote @ '', '' @ dquote @ ''to'' @ dquote @ '': '' @ dquote @ ''REVIEWING'' @ dquote @ ''},'' @ newline
     @ ''        {'' @ dquote @ ''from'' @ dquote @ '': '' @ dquote @ ''REVIEWING'' @ dquote @ '', '' @ dquote @ ''to'' @ dquote @ '': '' @ dquote @ ''APPROVED'' @ dquote @ '', '' @ dquote @ ''condition'' @ dquote @ '': '' @ dquote @ ''approved'' @ dquote @ ''},'' @ newline
     @ ''        {'' @ dquote @ ''from'' @ dquote @ '': '' @ dquote @ ''REVIEWING'' @ dquote @ '', '' @ dquote @ ''to'' @ dquote @ '': '' @ dquote @ ''REVISING'' @ dquote @ '', '' @ dquote @ ''condition'' @ dquote @ '': '' @ dquote @ ''revise'' @ dquote @ ''},'' @ newline
     @ ''        {'' @ dquote @ ''from'' @ dquote @ '': '' @ dquote @ ''REVISING'' @ dquote @ '', '' @ dquote @ ''to'' @ dquote @ '': '' @ dquote @ ''REVIEWING'' @ dquote @ ''}'' @ newline
     @ ''      ],'' @ newline"

definition decompose_rules_4 :: string where
  "decompose_rules_4 =
     ''      '' @ dquote @ ''initial_state'' @ dquote @ '': '' @ dquote @ ''WORKING'' @ dquote @ '','' @ newline
     @ ''      '' @ dquote @ ''terminal_states'' @ dquote @ '': ['' @ dquote @ ''APPROVED'' @ dquote @ '', '' @ dquote @ ''ESCALATED'' @ dquote @ ''],'' @ newline
     @ ''      '' @ dquote @ ''max_transitions'' @ dquote @ '': 5'' @ newline
     @ ''    }'' @ newline
     @ ''  ]'' @ newline
     @ ''}'' @ newline
     @ newline
     @ ''Rules:'' @ newline
     @ ''- CRITICAL: You have an ongoing project context. Read '' @ dquote @ ''Existing artifacts on disk'' @ dquote @ '', '' @ dquote @ ''Recent user requests'' @ dquote @ '', and '' @ dquote @ ''Active project decisions'' @ dquote @ '' BEFORE interpreting the user'' @ squote @ ''s request. When the user says '' @ dquote @ ''the app'' @ dquote @ '', '' @ dquote @ ''it'' @ dquote @ '', '' @ dquote @ ''the project'' @ dquote @ '', or makes any follow-up request without naming a specific app, they are referring to the most recent project in context. NEVER ask the user to clarify which app when there is only one project in the artifact listing'' @ newline
     @ ''- If artifacts exist, task descriptions MUST name the concrete app/files (e.g., '' @ dquote @ ''Update the todo-app in artifacts/developer/todo-app/ to use Material Design 3 components'' @ dquote @ ''). Never treat existing work as greenfield and never use vague references like '' @ dquote @ ''the existing application'' @ dquote @ '' or '' @ dquote @ ''the current project'' @ dquote @ newline"

definition decompose_rules_5 :: string where
  "decompose_rules_5 =
     ''- Before creating tasks, review '' @ dquote @ ''Prior relevant knowledge'' @ dquote @ '' carefully. If prior work already addresses the user'' @ squote @ ''s request, produce ONLY a minimal task graph (e.g., a single task to verify existing artifacts)'' @ newline
     @ ''- If the request is an exact repeat, respond with a single task: '' @ dquote @ ''Review and confirm existing work on [topic]'' @ dquote @ newline
     @ ''- Only create full multi-task graphs when the request asks for genuinely new work not covered by existing knowledge'' @ newline
     @ ''- EXPLICIT FAN-OUT EXCEPTION: When the user request explicitly enumerates a list of independent items (files, packages, services, papers, components, modules, directories, etc.) and asks for one task per item, create exactly one task per item even if the count is large. Independent fan-out is a legitimate workload shape '' @ em_dash @ '' do not aggregate, summarize, or fold the items into a smaller number of tasks. The '' @ dquote @ ''keep the graph small'' @ dquote @ '' rule does not apply when the user has already chosen the granularity. The user-provided enumeration is the task list.'' @ newline
     @ ''- Each task must be assigned to one of the available agents'' @ newline
     @ ''- Use depends_on to express ordering constraints'' @ newline
     @ ''- Keep the graph as small as possible '' @ em_dash @ '' but never skip review loops to save tasks'' @ newline
     @ ''- For multi-agent workflows, prefer sequential flow: upstream specification agents first, then implementation agents, then review. An implementing agent should depend on upstream spec outputs '' @ em_dash @ '' do not parallelize implementation with spec generation'' @ newline
     @ ''- '' @ dquote @ ''name'' @ dquote @ '' should be 2-5 words, lowercase with hyphens, describing the request (e.g., '' @ dquote @ ''todo-app-mvp'' @ dquote @ '')'' @ newline
     @ ''- The conductor does NOT appear as a task agent'' @ newline"

definition decompose_rules_6 :: string where
  "decompose_rules_6 =
     ''- Assign a scope to every task: '' @ dquote @ ''small'' @ dquote @ '' (trivial change, boilerplate, single-file), '' @ dquote @ ''standard'' @ dquote @ '' (moderate feature, multi-file), '' @ dquote @ ''large'' @ dquote @ '' (complex feature, cross-cutting concerns)'' @ newline
     @ ''- Small tasks: do NOT assign a loop_id '' @ em_dash @ '' they bypass code review entirely'' @ newline
     @ ''- Standard tasks: use a review loop with max_transitions: 3 (one review pass)'' @ newline
     @ ''- Large tasks: use a review loop with max_transitions: 5 (full review cycle)'' @ newline
     @ ''- Assign the appropriate available agent as reviewer based on the task type '' @ em_dash @ '' the reviewing agent validates against its own specifications'' @ newline
     @ ''- Match the reviewer to the agent whose specs the implementing agent must follow most closely'' @ newline
     @ ''- A task with a loop_id is driven by the loop FSM: the scheduler dispatches to different agents per state'' @ newline
     @ ''- Terminal states (APPROVED, ESCALATED) have empty agent fields'' @ newline
     @ ''- Non-terminal states must have an agent assigned'' @ newline
     @ ''- A loop task already covers the full work cycle for its agent (working + revision). NEVER create a separate follow-up task for the same agent after a loop task '' @ em_dash @ '' the APPROVED state means the work is done'' @ newline"

definition decompose_rules_7 :: string where
  "decompose_rules_7 =
     ''- Do NOT include verification or testing instructions in implementation task descriptions (e.g., '' @ dquote @ ''test locally'' @ dquote @ '', '' @ dquote @ ''ensure all features work'' @ dquote @ '', '' @ dquote @ ''validate functionality'' @ dquote @ ''). The agent'' @ squote @ ''s profile handles build verification. Focus on WHAT to build'' @ newline
     @ ''- The '' @ dquote @ ''Active project decisions'' @ dquote @ '' section lists established technology choices, design systems, and architectural patterns. Every task description for affected agents MUST explicitly state the relevant constraints (e.g., if the project uses Material Design 3, a task for the relevant agent must say '' @ dquote @ ''using Material Design 3 design system'' @ dquote @ '')'' @ newline
     @ ''- Never produce a task description that contradicts or ignores an active project decision'' @ newline
     @ ''- Each agent'' @ squote @ ''s purpose defines its scope of authority. Do not ask an agent to prescribe details outside its stated purpose'' @ newline
     @ ''- Upstream specification task descriptions must stay within the agent'' @ squote @ ''s stated purpose. NEVER include instructions that cross into another agent'' @ squote @ ''s scope of authority '' @ em_dash @ '' those decisions belong to the agent whose purpose covers them'' @ newline
     @ ''- When multiple agents produce specs for the same project, each agent owns only the details within its stated purpose. Overlapping prescriptions create conflicts '' @ em_dash @ '' avoid this by respecting agent boundaries'' @ newline
     @ ''- When an agent'' @ squote @ ''s output specifies multiple deliverable units (separate packages, repos, or modules), create separate tasks for each unit. The library/core task must be listed as a dependency of the application task. Each task description must name the specific unit (e.g., '' @ dquote @ ''Implement the audio-engine npm package'' @ dquote @ '' and '' @ dquote @ ''Implement the browser-daw React app, importing audio-engine as a dependency'' @ dquote @ '')'' @ newline
     @ ''- Output ONLY the JSON, no explanation''"

definition decompose_rules :: string where
  "decompose_rules = decompose_rules_1 @ decompose_rules_2 @ decompose_rules_3 @ decompose_rules_4 @ decompose_rules_5 @ decompose_rules_6 @ decompose_rules_7"

definition single_agent_head :: string where
  "single_agent_head =
     ''You are a TASK DECOMPOSER '' @ em_dash @ '' not a developer, not a coder. You do NOT solve problems.'' @ newline
     @ ''Your ONLY job: read the user'' @ squote @ ''s request and output a JSON task graph assigning it to the ''"

definition single_agent_mid_1 :: string where
  "single_agent_mid_1 =
     '' agent.'' @ newline
     @ newline
     @ ''CRITICAL RULES:'' @ newline
     @ ''- Output ONLY a JSON object. Nothing else.'' @ newline
     @ ''- Do NOT write code, bash commands, XML, or <function_calls> tags.'' @ newline
     @ ''- Do NOT analyze code or try to fix bugs yourself.'' @ newline
     @ ''- Do NOT include code snippets in your output.'' @ newline
     @ ''- The task description should summarize WHAT needs to be done, not HOW.'' @ newline
     @ newline
     @ ''Format:'' @ newline"

definition single_agent_mid_2 :: string where
  "single_agent_mid_2 =
     ''{'' @ dquote @ ''actionable'' @ dquote @ '': true, '' @ dquote @ ''name'' @ dquote @ '': '' @ dquote @ ''short-name'' @ dquote @ '', '' @ dquote @ ''tasks'' @ dquote @ '': [{'' @ dquote @ ''id'' @ dquote @ '': '' @ dquote @ ''t1'' @ dquote @ '', '' @ dquote @ ''agent'' @ dquote @ '': ''"

definition single_agent_mid :: string where
  "single_agent_mid = single_agent_mid_1 @ single_agent_mid_2"

definition single_agent_tail :: string where
  "single_agent_tail =
     '', '' @ dquote @ ''description'' @ dquote @ '': '' @ dquote @ ''what to do'' @ dquote @ '', '' @ dquote @ ''depends_on'' @ dquote @ '': [], '' @ dquote @ ''scope'' @ dquote @ '': '' @ dquote @ ''standard'' @ dquote @ ''}]}'' @ newline
     @ newline
     @ ''If the request is not actionable (greeting/filler), respond: {'' @ dquote @ ''actionable'' @ dquote @ '': false, '' @ dquote @ ''message'' @ dquote @ '': '' @ dquote @ ''friendly reply'' @ dquote @ ''}''"

definition disambiguate_head :: string where
  "disambiguate_head =
     ''You are the Conductor of an AgentFab fabric. Before decomposing a user request into tasks, evaluate whether the request is specific enough for agents to produce correct output.'' @ newline
     @ newline
     @ ''Available agents:'' @ newline"

definition disambiguate_tail_1 :: string where
  "disambiguate_tail_1 =
     newline
     @ newline
     @ ''Evaluate: '' @ dquote @ ''If I hand this request to agents as-is, will they know exactly what to build?'' @ dquote @ newline
     @ newline
     @ ''Consider:'' @ newline
     @ ''- Are there ambiguous scope boundaries (e.g., '' @ dquote @ ''decoupled'' @ dquote @ '' but unclear how)?'' @ newline
     @ ''- Are target platforms or deployment constraints missing when they matter?'' @ newline
     @ ''- Are there multiple reasonable interpretations of what the user wants?'' @ newline
     @ ''- Are key features mentioned but underspecified?'' @ newline
     @ newline"

definition disambiguate_tail_2 :: string where
  "disambiguate_tail_2 =
     ''Do NOT flag:'' @ newline
     @ ''- Implementation details agents decide themselves (CSS framework, state management, folder structure)'' @ newline
     @ ''- Standard technology choices that agents handle'' @ newline
     @ ''- Requests that are already concrete and specific'' @ newline
     @ newline
     @ ''Respond with JSON only:'' @ newline
     @ ''{'' @ dquote @ ''clear'' @ dquote @ '': true}'' @ newline
     @ ''or'' @ newline
     @ ''{'' @ dquote @ ''clear'' @ dquote @ '': false, '' @ dquote @ ''question'' @ dquote @ '': '' @ dquote @ ''Single concise question with concrete options when possible'' @ dquote @ ''}''"

definition disambiguate_tail :: string where
  "disambiguate_tail = disambiguate_tail_1 @ disambiguate_tail_2"

definition decomposePrompt :: "string \<Rightarrow> string \<Rightarrow> string" where
  "decomposePrompt agentDesc extra = decompose_head @ agentDesc @ decompose_mid @ extra @ decompose_rules"

definition singleAgentPrompt :: "string \<Rightarrow> string" where
  "singleAgentPrompt agent = single_agent_head @ quote agent @ single_agent_mid @ quote agent @ single_agent_tail"

definition single_agent_prefill :: string where
  "single_agent_prefill = ''{'' @ dquote @ ''actionable'' @ dquote @ '': true, '' @ dquote @ ''name'' @ dquote @ '': '' @ dquote"

definition disambiguatePrompt :: "string \<Rightarrow> string" where
  "disambiguatePrompt roster = disambiguate_head @ roster @ disambiguate_tail"

section \<open>The JSON of a graph\<close>

record stateJSON =
  stj_name :: string
  stj_agent :: string

record transitionJSON =
  trj_from :: string
  trj_to :: string
  trj_condition :: string

record loopJSON =
  lj_id :: string
  lj_participants :: "string list"
  lj_states :: "stateJSON list"
  lj_transitions :: "transitionJSON list"
  lj_initial_state :: string
  lj_terminal_states :: "string list"
  lj_max_transitions :: int

text \<open>A task of the JSON and of a template have the same fields.\<close>

record taskNodeJSON =
  nj_id :: string
  nj_agent :: string
  nj_description :: string
  nj_depends_on :: "string list"
  nj_scope :: string
  nj_loop_id :: string

record taskGraphJSON =
  gj_actionable :: "bool option"
  gj_message :: string
  gj_name :: string
  gj_tasks :: "taskNodeJSON list"
  gj_loops :: "loopJSON list"

definition scope_of :: "string \<Rightarrow> TaskScope" where
  "scope_of s = (if s = ''small'' then ScopeSmall else if s = ''standard'' then ScopeStandard
     else if s = ''large'' then ScopeLarge else ScopeOther s)"

definition task_of_json :: "taskNodeJSON \<Rightarrow> TaskNode" where
  "task_of_json t = \<lparr>tn_ID = nj_id t, tn_Agent = nj_agent t, tn_Profile = '''', tn_Description = nj_description t,
     tn_DependsOn = nj_depends_on t, tn_LoopID = nj_loop_id t, tn_Scope = EffectiveScope (scope_of (nj_scope t)),
     tn_Timeout = 0, tn_Budget = 0, tn_Status = StatusPending, tn_Result = '''', tn_ArtifactURI = '''', tn_ArtifactFiles = [],
     tn_AssignedInstance = '''', tn_ExecutionNode = '''', tn_LeaseEpoch = 0, tn_ChatContext = ''''\<rparr>"

definition loop_of_json :: "loopJSON \<Rightarrow> LoopDefinition" where
  "loop_of_json l = \<lparr>ld_ID = lj_id l, ld_Participants = lj_participants l,
     ld_States = map (\<lambda>s. \<lparr>sc_Name = stj_name s, sc_Agent = stj_agent s, sc_ReviewGuidelines = ''''\<rparr>) (lj_states l),
     ld_Transitions = map (\<lambda>t. \<lparr>tr_From = trj_from t, tr_To = trj_to t, tr_Condition = trj_condition t\<rparr>) (lj_transitions l),
     ld_InitialState = lj_initial_state l, ld_TerminalStates = lj_terminal_states l, ld_MaxTransitions = lj_max_transitions l\<rparr>"

definition graph_of_json :: "string \<Rightarrow> string \<Rightarrow> taskNodeJSON list \<Rightarrow> loopJSON list \<Rightarrow> TaskGraph" where
  "graph_of_json requestID name tasks loops =
     \<lparr>tg_RequestID = requestID, tg_Name = name, tg_Tasks = map task_of_json tasks, tg_Loops = map loop_of_json loops\<rparr>"

section \<open>Templates (templates.go)\<close>

record DecomposeTemplate =
  dt_Name :: string
  dt_Description :: string
  dt_MatchKeywords :: "string list"
  dt_Strict :: bool
  dt_Tasks :: "taskNodeJSON list"
  dt_Loops :: "loopJSON list"

text \<open>A file system: the entries of its directory of templates and the contents of its files.\<close>

definition LoadTemplates :: "(string \<Rightarrow> DecomposeTemplate option) \<Rightarrow> (string \<times> bool) list option \<Rightarrow> (string \<Rightarrow> string option) \<Rightarrow>
    DecomposeTemplate list option" where
  "LoadTemplates decodeYAML entries readFile =
     map_option (\<lambda>es. concat (map (\<lambda>(name, isDir).
         if isDir \<or> \<not> has_suffix name ''.yaml'' then []
         else case readFile (''templates/'' @ name) of
                None \<Rightarrow> []
              | Some data \<Rightarrow>
                  (case decodeYAML data of
                     None \<Rightarrow> []
                   | Some tmpl \<Rightarrow> if dt_Name tmpl \<noteq> '''' then [tmpl] else [])) es)) entries"

definition MatchScore :: "DecomposeTemplate \<Rightarrow> string \<Rightarrow> nat" where
  "MatchScore t userRequest =
     length (filter (\<lambda>kw. kw \<noteq> '''' \<and> contains (to_lower userRequest) (to_lower kw)) (dt_MatchKeywords t))"

definition strictMatchThreshold :: nat where "strictMatchThreshold = 3"

definition better_template :: "string \<Rightarrow> DecomposeTemplate option \<times> nat \<Rightarrow> DecomposeTemplate \<Rightarrow> DecomposeTemplate option \<times> nat" where
  "better_template req b t =
     (if \<not> dt_Strict t then b
      else if MatchScore t req > snd b then (Some t, MatchScore t req) else b)"

definition selectStrictTemplate :: "DecomposeTemplate list \<Rightarrow> string \<Rightarrow> DecomposeTemplate option" where
  "selectStrictTemplate templates userRequest =
     fst (foldl (better_template userRequest) (None, strictMatchThreshold - 1) templates)"

datatype decompose_error =
    ModelCallFailed string | NoJSON string | BadJSON | ZeroTasks string | InvalidGraph graph_error
  | StrictZeroTasks string | StrictInvalid string graph_error | StrictUnknownAgent string graph_error | ExhaustedRetries

definition BuildTaskGraph :: "DecomposeTemplate \<Rightarrow> string \<Rightarrow> decompose_error + TaskGraph \<times> string" where
  "BuildTaskGraph t requestID =
     (if dt_Tasks t = [] then Inl (StrictZeroTasks (dt_Name t))
      else
        (let g = graph_of_json requestID (dt_Name t) (dt_Tasks t) (dt_Loops t)
         in case Graph_Validate g of
              Some e \<Rightarrow> Inl (StrictInvalid (dt_Name t) e)
            | None \<Rightarrow> Inr (g, dt_Name t)))"

definition template_text :: "DecomposeTemplate \<Rightarrow> string" where
  "template_text t =
     ''- '' @ dt_Name t @ '': '' @ dt_Description t @ '' [keywords: '' @ join '', '' (dt_MatchKeywords t) @ '']'' @ newline
     @ ''  Tasks: '' @ join ('' '' @ right_arrow @ '' '')
         (map (\<lambda>k. nj_agent k @ (if nj_loop_id k \<noteq> '''' then ''(loop)'' else '''')) (dt_Tasks t)) @ newline"

definition formatTemplatesForPrompt :: "DecomposeTemplate list \<Rightarrow> string" where
  "formatTemplatesForPrompt templates =
     (if templates = [] then ''''
      else ''Available decomposition templates (use as starting points, adapt as needed):'' @ newline
        @ concat (map template_text templates) @ newline)"

section \<open>Reading the model's graph\<close>

definition truncate :: "string \<Rightarrow> nat \<Rightarrow> string" where
  "truncate s n = (if length s \<le> n then s else take n s @ ''...'')"

datatype parsed = ParsedGraph TaskGraph string | NotActionable string | ParseFailed decompose_error

definition parseTaskGraph :: "(string \<Rightarrow> bool) \<Rightarrow> (string \<Rightarrow> taskGraphJSON option) \<Rightarrow> string \<Rightarrow> string \<Rightarrow> parsed" where
  "parseTaskGraph valid decode content requestID =
     (case ExtractJSONFromContent valid content of
        None \<Rightarrow> ParseFailed (NoJSON (truncate content 200))
      | Some rawJSON \<Rightarrow>
          (case decode rawJSON of
             None \<Rightarrow> ParseFailed BadJSON
           | Some raw \<Rightarrow>
               if gj_actionable raw = Some False then NotActionable (gj_message raw)
               else if gj_tasks raw = [] then ParseFailed (ZeroTasks (truncate content 200))
               else
                 (let g = graph_of_json requestID (gj_name raw) (gj_tasks raw) (gj_loops raw)
                  in case Graph_Validate g of
                       Some e \<Rightarrow> ParseFailed (InvalidGraph e)
                     | None \<Rightarrow> ParsedGraph g (gj_name raw))))"

definition parseTaskGraphWithRoster :: "(string \<Rightarrow> bool) \<Rightarrow> (string \<Rightarrow> taskGraphJSON option) \<Rightarrow> string \<Rightarrow> string \<Rightarrow> string list \<Rightarrow> parsed" where
  "parseTaskGraphWithRoster valid decode content requestID roster =
     (case parseTaskGraph valid decode content requestID of
        ParsedGraph g name \<Rightarrow>
          (if roster \<noteq> [] then
             (case ValidateWithRoster g roster of Some e \<Rightarrow> ParseFailed (InvalidGraph e) | None \<Rightarrow> ParsedGraph g name)
           else ParsedGraph g name)
      | r \<Rightarrow> r)"

section \<open>Decomposition\<close>

datatype chat = SystemMessage string | UserMessage string | AssistantMessage string

record reply =
  ry_Content :: string
  ry_Usage :: "(int \<times> int) option"

definition no_usage :: TokenUsage where
  "no_usage = \<lparr>tu_InputTokens = 0, tu_OutputTokens = 0, tu_TotalTokens = 0, tu_TotalCalls = 0, tu_CacheReadTokens = 0, tu_Model = ''''\<rparr>"

definition accumulateUsage :: "TokenUsage \<Rightarrow> reply \<Rightarrow> TokenUsage" where
  "accumulateUsage sum_usage resp =
     (case ry_Usage resp of
        None \<Rightarrow> sum_usage
      | Some (prompt, completion) \<Rightarrow>
          sum_usage\<lparr>tu_InputTokens := tu_InputTokens sum_usage + prompt, tu_OutputTokens := tu_OutputTokens sum_usage + completion,
            tu_TotalTokens := tu_TotalTokens sum_usage + (prompt + completion)\<rparr>)"

record DecomposeResult =
  dcr_Graph :: "TaskGraph option"
  dcr_Name :: string
  dcr_Actionable :: bool
  dcr_Message :: string
  dcr_TokenUsage :: TokenUsage

definition decomposeMaxRetries :: nat where "decomposeMaxRetries = 1"

definition retry_prompt :: "(decompose_error \<Rightarrow> string) \<Rightarrow> decompose_error \<Rightarrow> string" where
  "retry_prompt render e = ''Your output failed validation: '' @ render e @ newline @ newline
     @ ''Please fix the issues and output the corrected JSON.''"

text \<open>The attempts from number \<open>k\<close> on, with \<open>left\<close> retries left; the number of calls made is part of the answer.\<close>

fun decompose_attempts :: "(decompose_error \<Rightarrow> string) \<Rightarrow> (string \<Rightarrow> bool) \<Rightarrow> (string \<Rightarrow> taskGraphJSON option) \<Rightarrow>
    (nat \<Rightarrow> chat list \<Rightarrow> string + reply) \<Rightarrow> string list \<Rightarrow> string \<Rightarrow> nat \<Rightarrow> nat \<Rightarrow> chat list \<Rightarrow> TokenUsage \<Rightarrow>
    nat \<times> (decompose_error + DecomposeResult)" where
  "decompose_attempts render valid decode generate roster prefill k left input usage =
     (case generate k input of
        Inl e \<Rightarrow> (Suc k, Inl (ModelCallFailed e))
      | Inr resp \<Rightarrow>
          (let usage = accumulateUsage usage resp
           in case parseTaskGraphWithRoster valid decode (prefill @ ry_Content resp) ''req-0'' roster of
                ParsedGraph g name \<Rightarrow>
                  (Suc k, Inr \<lparr>dcr_Graph = Some g, dcr_Name = name, dcr_Actionable = True, dcr_Message = '''', dcr_TokenUsage = usage\<rparr>)
              | NotActionable msg \<Rightarrow>
                  (Suc k, Inr \<lparr>dcr_Graph = None, dcr_Name = '''', dcr_Actionable = False, dcr_Message = msg, dcr_TokenUsage = usage\<rparr>)
              | ParseFailed e \<Rightarrow>
                  (case left of
                     0 \<Rightarrow> (Suc k, Inl e)
                   | Suc left' \<Rightarrow>
                       decompose_attempts render valid decode generate roster prefill (Suc k) left'
                         (input @ [AssistantMessage (ry_Content resp), UserMessage (retry_prompt render e)]) usage)))"

declare decompose_attempts.simps [simp del]

text \<open>The agents of a fabric, with the capabilities that the prompt shows.\<close>

record CapableAgent = AgentDefinition +
  ad_Capabilities :: "string list"

definition roster_of :: "CapableAgent list \<Rightarrow> string list" where
  "roster_of agents = filter (\<lambda>n. n \<noteq> ''conductor'') (map ad_Name agents)"

definition agent_line :: "CapableAgent \<Rightarrow> string" where
  "agent_line a = ''- '' @ ad_Name a @ '': '' @ ad_Purpose a @ '' (capabilities: ['' @ join '' '' (ad_Capabilities a) @ ''])'' @ newline"

definition decompose_input :: "CapableAgent list \<Rightarrow> string \<Rightarrow> string \<Rightarrow> DecomposeTemplate list \<Rightarrow> chat list \<times> string" where
  "decompose_input agents userRequest conductorKnowledge templates =
     (let roster = roster_of agents;
          knowledge = (if conductorKnowledge \<noteq> '''' then ''Conductor knowledge:'' @ newline @ conductorKnowledge @ newline @ newline else '''');
          agentDesc = concat (map agent_line (filter (\<lambda>a. ad_Name a \<noteq> ''conductor'') agents))
      in if length roster = 1
         then ([SystemMessage (singleAgentPrompt (hd roster)), UserMessage userRequest, AssistantMessage single_agent_prefill],
               single_agent_prefill)
         else ([SystemMessage (decomposePrompt agentDesc (knowledge @ formatTemplatesForPrompt templates)), UserMessage userRequest], ''''))"

definition Decompose :: "(decompose_error \<Rightarrow> string) \<Rightarrow> (string \<Rightarrow> bool) \<Rightarrow> (string \<Rightarrow> taskGraphJSON option) \<Rightarrow>
    (nat \<Rightarrow> chat list \<Rightarrow> string + reply) \<Rightarrow> CapableAgent list \<Rightarrow> string \<Rightarrow> string \<Rightarrow> DecomposeTemplate list \<Rightarrow>
    nat \<times> (decompose_error + DecomposeResult)" where
  "Decompose render valid decode generate agents userRequest conductorKnowledge templates =
     (let roster = roster_of agents
      in case selectStrictTemplate templates userRequest of
           Some strict \<Rightarrow>
             (case BuildTaskGraph strict ''req-0'' of
                Inl e \<Rightarrow> (0, Inl e)
              | Inr (g, name) \<Rightarrow>
                  (case (if roster \<noteq> [] then ValidateWithRoster g roster else None) of
                     Some e \<Rightarrow> (0, Inl (StrictUnknownAgent (dt_Name strict) e))
                   | None \<Rightarrow> (0, Inr \<lparr>dcr_Graph = Some g, dcr_Name = name, dcr_Actionable = True, dcr_Message = '''', dcr_TokenUsage = no_usage\<rparr>)))
         | None \<Rightarrow>
             (case decompose_input agents userRequest conductorKnowledge templates of
                (input, prefill) \<Rightarrow>
                  decompose_attempts render valid decode generate roster prefill 0 decomposeMaxRetries input no_usage))"

section \<open>Clear or not (disambiguate.go)\<close>

record DisambiguateResult =
  dg_Clear :: bool
  dg_Question :: string
  dg_TokenUsage :: "TokenUsage option"

definition Disambiguate :: "(string \<Rightarrow> bool) \<Rightarrow> (string \<Rightarrow> (bool \<times> string) option) \<Rightarrow> (chat list \<Rightarrow> string + reply) \<Rightarrow> string \<Rightarrow> string list \<Rightarrow>
    decompose_error + DisambiguateResult" where
  "Disambiguate valid decode generate userRequest roster =
     (case generate [SystemMessage (disambiguatePrompt (concat (map (\<lambda>n. ''- '' @ n @ newline) roster))), UserMessage userRequest] of
        Inl e \<Rightarrow> Inl (ModelCallFailed e)
      | Inr resp \<Rightarrow>
          (case ExtractJSONFromContent valid (ry_Content resp) of
             None \<Rightarrow> Inl (NoJSON (ry_Content resp))
           | Some rawJSON \<Rightarrow>
               (case decode rawJSON of
                  None \<Rightarrow> Inl BadJSON
                | Some (clear, question) \<Rightarrow>
                    Inr \<lparr>dg_Clear = clear, dg_Question = question,
                      dg_TokenUsage = map_option (\<lambda>_. accumulateUsage no_usage resp) (ry_Usage resp)\<rparr>)))"

section \<open>What a decomposition promises\<close>

definition runnable :: "string list \<Rightarrow> TaskGraph \<Rightarrow> bool" where
  "runnable roster g \<longleftrightarrow>
     valid_graph g \<and> tg_Tasks g \<noteq> [] \<and>
     (\<forall>t \<in> set (tg_Tasks g). tn_Status t = StatusPending \<and> tn_AssignedInstance t = '''' \<and> tn_LeaseEpoch t = 0 \<and>
        tn_Scope t \<in> {ScopeSmall, ScopeStandard, ScopeLarge}) \<and>
     (roster \<noteq> [] \<longrightarrow> (\<forall>t \<in> set (tg_Tasks g). TargetProfile (Some t) \<in> insert '''' (set roster)) \<and>
        (\<forall>l \<in> set (tg_Loops g). sc_Agent ` set (ld_States l) \<subseteq> insert '''' (set roster)))"

lemma scope_effective: "EffectiveScope s \<in> {ScopeSmall, ScopeStandard, ScopeLarge}"
  by (cases s) simp_all

lemma json_graph_runnable:
  assumes "Graph_Validate (graph_of_json rid name tasks loops) = None" and "tasks \<noteq> []"
    and "roster \<noteq> [] \<Longrightarrow> ValidateWithRoster (graph_of_json rid name tasks loops) roster = None"
  shows "runnable roster (graph_of_json rid name tasks loops)"
proof -
  let ?g = "graph_of_json rid name tasks loops"
  have "valid_graph ?g" using assms(1) by (simp add: Graph_Validate_iff)
  moreover have "tg_Tasks ?g \<noteq> []" using assms(2) by (simp add: graph_of_json_def)
  moreover have "\<forall>t \<in> set (tg_Tasks ?g). tn_Status t = StatusPending \<and> tn_AssignedInstance t = '''' \<and> tn_LeaseEpoch t = 0 \<and>
      tn_Scope t \<in> {ScopeSmall, ScopeStandard, ScopeLarge}"
    using scope_effective by (simp add: graph_of_json_def task_of_json_def)
  ultimately show ?thesis using assms(3) unfolding runnable_def by (auto simp: ValidateWithRoster_def Graph_Validate_iff)
qed

lemma parsed_runnable:
  "parseTaskGraphWithRoster valid decode content rid roster = ParsedGraph g name \<Longrightarrow> runnable roster g"
  by (auto simp: parseTaskGraphWithRoster_def parseTaskGraph_def Let_def intro!: json_graph_runnable
      split: parsed.splits option.splits if_splits)

lemma decompose_attempts_facts:
  "decompose_attempts render valid decode generate roster prefill k left input usage = (n, r) \<Longrightarrow>
     k < n \<and> n \<le> Suc (k + left) \<and>
     (\<forall>d. r = Inr d \<longrightarrow> (if dcr_Actionable d then \<exists>g. dcr_Graph d = Some g \<and> runnable roster g else dcr_Graph d = None))"
proof (induction left arbitrary: k input usage)
  case 0
  then show ?case
    by (subst (asm) decompose_attempts.simps)
       (auto simp: Let_def dest: parsed_runnable split: sum.splits parsed.splits)
next
  case (Suc left)
  from Suc.prems show ?case
    by (subst (asm) decompose_attempts.simps)
       (auto simp: Let_def dest: parsed_runnable dest!: Suc.IH split: sum.splits parsed.splits)
qed

text \<open>
  Claim C12: whatever the model answers, a decomposition yields a graph that can be run, a reply, or an error. An
  actionable result has tasks, unique and acyclic as validation demands, all pending with a known scope and,
  when the fabric has agents, only on its agents. The model is called at most twice, and not at all when a
  strict template matches.
\<close>

theorem decomposition_runnable:
  assumes "Decompose render valid decode generate agents req knowledge templates = (n, r)"
  shows "n \<le> 2 \<and> (n = 0 \<longleftrightarrow> selectStrictTemplate templates req \<noteq> None) \<and>
    (\<forall>d. r = Inr d \<longrightarrow>
      (if dcr_Actionable d then \<exists>g. dcr_Graph d = Some g \<and> runnable (roster_of agents) g else dcr_Graph d = None))"
proof (cases "selectStrictTemplate templates req")
  case None
  obtain input prefill where "decompose_input agents req knowledge templates = (input, prefill)" by fastforce
  with assms None have "decompose_attempts render valid decode generate (roster_of agents) prefill 0 decomposeMaxRetries input no_usage = (n, r)"
    by (simp add: Decompose_def Let_def)
  from decompose_attempts_facts [OF this] None show ?thesis by (simp add: decomposeMaxRetries_def)
next
  case (Some strict)
  with assms show ?thesis
    by (auto simp: Decompose_def Let_def BuildTaskGraph_def split: sum.splits option.splits if_splits intro!: json_graph_runnable)
qed

text \<open>The template chosen is strict, matches at least three words, and is the first of those that match most.\<close>

lemma selectStrictTemplate_best:
  "selectStrictTemplate ts req = Some t \<Longrightarrow>
     t \<in> set ts \<and> dt_Strict t \<and> MatchScore t req \<ge> 3 \<and> (\<forall>u \<in> set ts. dt_Strict u \<longrightarrow> MatchScore u req \<le> MatchScore t req)"
proof -
  have inv: "(case foldl (better_template req) (None, 2) ts of
      (None, s) \<Rightarrow> s = 2 \<and> (\<forall>u \<in> set ts. dt_Strict u \<longrightarrow> MatchScore u req \<le> 2)
    | (Some t, s) \<Rightarrow> t \<in> set ts \<and> dt_Strict t \<and> s = MatchScore t req \<and> s \<ge> 3 \<and> (\<forall>u \<in> set ts. dt_Strict u \<longrightarrow> MatchScore u req \<le> s))"
  proof (induction ts rule: rev_induct)
    case (snoc u ts)
    then show ?case by (auto simp: better_template_def split: prod.splits option.splits)
  qed simp
  assume "selectStrictTemplate ts req = Some t"
  with inv show ?thesis by (auto simp: selectStrictTemplate_def strictMatchThreshold_def split: prod.splits)
qed

definition demo_template :: DecomposeTemplate where
  "demo_template = \<lparr>dt_Name = ''one'', dt_Description = ''one task'', dt_MatchKeywords = [''fix'', ''the'', ''bug''], dt_Strict = True,
     dt_Tasks = [\<lparr>nj_id = ''t1'', nj_agent = ''dev'', nj_description = ''fix it'', nj_depends_on = [], nj_scope = '''', nj_loop_id = ''''\<rparr>],
     dt_Loops = []\<rparr>"

lemma demo_decompose:
  "(case Decompose (\<lambda>_. '''') (\<lambda>_. False) (\<lambda>_. None) (\<lambda>_ _. Inl ''down'') [] ''Fix the bug'' '''' [demo_template] of
      (n, Inr d) \<Rightarrow> dcr_Actionable d \<and> n = 0 | _ \<Rightarrow> False)"
  by code_simp

theorem decomposition_runnable_witness:
  "\<exists>g. runnable [] g \<and> (\<exists>d. snd (Decompose (\<lambda>_. '''') (\<lambda>_. False) (\<lambda>_. None) (\<lambda>_ _. Inl ''down'') [] ''Fix the bug'' '''' [demo_template]) = Inr d \<and>
     dcr_Graph d = Some g)"
proof -
  obtain n d where d: "Decompose (\<lambda>_. '''') (\<lambda>_. False) (\<lambda>_. None) (\<lambda>_ _. Inl ''down'') [] ''Fix the bug'' '''' [demo_template] = (n, Inr d)"
    "dcr_Actionable d"
    using demo_decompose by (auto split: prod.splits sum.splits)
  from decomposition_runnable [OF d(1)] d(2) obtain g where "dcr_Graph d = Some g" "runnable [] g" by (auto simp: roster_of_def)
  with d(1) show ?thesis by auto
qed

end
