(* ===== verification/Sandbox.thy ===== *)
theory Sandbox
  imports Dispatch
begin

text \<open>
  Running commands for agents: the environment and the end of a sandboxed command (internal/sandbox/local.go), the
  Landlock rules (restrict_linux.go, toolchains.go), the tools offered to the model (internal/agent/toolbind.go,
  internal/runtime/types.go) and the executor of its calls (internal/agent/toolexec.go). What the operating system does with a command
  is an argument.
\<close>

section \<open>Tools (runtime/types.go, toolbind.go)\<close>

record ToolParam =
  tpm_Type :: string
  tpm_Description :: string
  tpm_Required :: bool

record ToolConfig =
  tcf_Name :: string
  tcf_Instructions :: string
  tcf_Command :: string
  tcf_Config :: "(string, string) gomap"
  tcf_Parameters :: "(string, ToolParam) gomap"
  tcf_Mode :: string
  tcf_PassthroughEnv :: "string list"

definition IsLive :: "ToolConfig \<Rightarrow> bool" where
  "IsLive tc =
     (if tcf_Mode tc \<in> {''live'', ''both''} then True
      else if tcf_Mode tc = ''post_process'' then False
      else tcf_Parameters tc \<noteq> [])"

definition IsPostProcess :: "ToolConfig \<Rightarrow> bool" where
  "IsPostProcess tc =
     (if tcf_Mode tc \<in> {''post_process'', ''both''} then True
      else if tcf_Mode tc = ''live'' then False
      else tcf_Command tc \<noteq> '''' \<and> tcf_Parameters tc = [])"

definition LiveTools :: "ToolConfig list \<Rightarrow> (string, ToolConfig) gomap" where
  "LiveTools tools = foldl (\<lambda>m tc. if IsLive tc then mput (tcf_Name tc) tc m else m) [] tools"

datatype DataType = DTString | DTInteger | DTBoolean | DTNumber

record ToolInfo =
  tin_Name :: string
  tin_Desc :: string
  tin_Params :: "(string, DataType \<times> string \<times> bool) gomap"

definition shellToolInfo :: ToolInfo where
  "shellToolInfo =
     \<lparr>tin_Name = ''shell'', tin_Desc = ''Execute a shell command. Use for file operations, builds, git, or any CLI tool.'',
      tin_Params = [(''command'', DTString, ''The shell command to execute'', True)]\<rparr>"

definition dataTypeMap :: "(string, DataType) gomap" where
  "dataTypeMap = [(''string'', DTString), (''integer'', DTInteger), (''boolean'', DTBoolean), (''number'', DTNumber)]"

definition BuildToolInfos :: "ToolConfig list \<Rightarrow> ToolInfo list" where
  "BuildToolInfos tools =
     map (\<lambda>tc. if tcf_Name tc = ''shell'' then shellToolInfo
               else \<lparr>tin_Name = tcf_Name tc, tin_Desc = tcf_Instructions tc,
                     tin_Params = map (\<lambda>(n, p). (n, mget0 DTString dataTypeMap (tpm_Type p), tpm_Description p, tpm_Required p))
                       (tcf_Parameters tc)\<rparr>)
       (filter IsLive tools)"

section \<open>The environment of a command (sandbox/local.go)\<close>

definition allowedEnvPrefixes :: "string list" where
  "allowedEnvPrefixes = [''PATH'', ''SHELL'', ''USER'', ''LOGNAME'', ''TERM'', ''GOROOT'', ''GOPATH'', ''GOBIN'', ''GOPROXY'', ''GONOSUMCHECK'',
     ''NVM_DIR'', ''NODE_PATH'', ''PYTHON'', ''VIRTUAL_ENV'', ''CONDA'', ''JAVA_HOME'', ''ANDROID_HOME'', ''EDITOR'', ''VISUAL'', ''PAGER'',
     ''LC_'', ''LANG'', ''XDG_'', ''SSH_AUTH_SOCK'']"

definition blockedEnvSubstrings :: "string list" where
  "blockedEnvSubstrings = [''KEY'', ''SECRET'', ''TOKEN'', ''PASSWORD'', ''CREDENTIAL'', ''AUTH'', ''PRIVATE'']"

definition isAllowedEnv :: "string \<Rightarrow> bool" where
  "isAllowedEnv upper \<longleftrightarrow> list_ex (has_prefix upper) allowedEnvPrefixes \<and> \<not> list_ex (contains upper) blockedEnvSubstrings"

text \<open>The name of an entry \<open>KEY=VALUE\<close>; none without an equals sign after at least one character.\<close>

definition env_key :: "string \<Rightarrow> string option" where
  "env_key entry =
     (case index_of entry ''='' of Some (Suc n) \<Rightarrow> Some (take (Suc n) entry) | _ \<Rightarrow> None)"

text \<open>\<open>overrides\<close> are listed in the order in which the map is iterated.\<close>

definition inheritHostEnv :: "string list \<Rightarrow> (string, string) gomap \<Rightarrow> string list" where
  "inheritHostEnv host overrides =
     filter (\<lambda>entry. case env_key entry of
          None \<Rightarrow> False
        | Some k \<Rightarrow> to_upper k \<notin> set (map to_upper (mkeys overrides)) \<and> isAllowedEnv (to_upper k)) host
     @ map (\<lambda>(k, v). k @ ''='' @ v) overrides"

definition same_key :: "string \<Rightarrow> string \<Rightarrow> bool" where
  "same_key k entry = (case env_key entry of Some k' \<Rightarrow> to_lower k' = to_lower k | None \<Rightarrow> False)"

fun replace_key :: "string \<Rightarrow> string \<Rightarrow> string list \<Rightarrow> string list" where
  "replace_key k entry [] = [entry]"
| "replace_key k entry (e # es) = (if same_key k e then entry # es else e # replace_key k entry es)"

definition setEnvAll :: "string list \<Rightarrow> string list \<Rightarrow> string list" where
  "setEnvAll base entries = foldl (\<lambda>env entry. case env_key entry of None \<Rightarrow> env | Some k \<Rightarrow> replace_key k entry env) base entries"

record Policy =
  po_ReadOnly :: "string list"
  po_ReadWrite :: "string list"

record Config =
  cf_WorkDir :: string
  cf_Timeout :: int
  cf_AllowedDirs :: "string list"
  cf_KeepBackground :: bool
  cf_Restrict :: "Policy option"

definition sandboxTempDir :: "string \<Rightarrow> string" where
  "sandboxTempDir tmp = path_join2 tmp ''agentfab-sandbox''"

definition command_env :: "string list \<Rightarrow> string \<Rightarrow> Config \<Rightarrow> string list \<Rightarrow> string list" where
  "command_env host tmp cfg env =
     setEnvAll
       (inheritHostEnv host [(''HOME'', cf_WorkDir cfg), (''TMPDIR'', sandboxTempDir tmp), (''LANG'', ''en_US.UTF-8'')]
        @ map (\<lambda>(i, d). ''SANDBOX_ALLOWED_DIR_'' @ json_int (int i) @ ''='' @ d) (enumerate 0 (cf_AllowedDirs cfg)))
       env"

definition KillProcessGroup :: "int \<Rightarrow> int list" where
  "KillProcessGroup pgid = (if pgid > 0 then [pgid] else [])"

definition with_timeout :: "Config \<Rightarrow> Config" where
  "with_timeout cfg = (if cf_Timeout cfg \<le> 0 then cfg\<lparr>cf_Timeout := 30000000000\<rparr> else cfg)"

text \<open>
  How a command ends: it could not be prepared or started, it ran out of the given time, or its shell ended in process group \<open>pgid\<close> with an output and perhaps
  an error. \<open>Run\<close> gives the output, the group left running (0 for none), the error, and the groups it killed.
\<close>

datatype ending = NotPrepared string | NotStarted string | TimedOut string int string | Ended string int "string option"

definition Run :: "Config \<Rightarrow> ending \<Rightarrow> (string \<times> int \<times> string option) \<times> int list" where
  "Run cfg out =
     (case out of
        NotPrepared e \<Rightarrow> (('''', 0, Some e), [])
      | NotStarted e \<Rightarrow> (('''', 0, Some (''start command: '' @ e)), [])
      | TimedOut output pgid dur \<Rightarrow> ((output, 0, Some (''command timed out after '' @ dur)), KillProcessGroup pgid)
      | Ended output pgid e \<Rightarrow>
          if cf_KeepBackground cfg \<and> pgid > 0 then ((output, pgid, e), [])
          else if pgid > 0 then ((output, 0, e), [pgid])
          else ((output, pgid, e), []))"

section \<open>Landlock rules (restrict_linux.go, toolchains.go)\<close>

datatype fs_access = FsExecute | FsWriteFile | FsReadFile | FsReadDir | FsMakeReg | FsMakeDir | FsMakeSym | FsRemoveFile | FsRemoveDir

definition handled_access :: "fs_access list" where
  "handled_access = [FsExecute, FsWriteFile, FsReadFile, FsReadDir, FsMakeReg, FsMakeDir, FsMakeSym]"

definition rwAccess :: "fs_access list" where
  "rwAccess = [FsReadFile, FsReadDir, FsWriteFile, FsMakeReg, FsMakeDir, FsMakeSym]"

definition roAccess :: "fs_access list" where "roAccess = [FsReadFile, FsReadDir]"

definition systemAccess :: "fs_access list" where "systemAccess = [FsReadFile, FsReadDir, FsExecute]"

definition devAccess :: "fs_access list" where "devAccess = systemAccess @ [FsWriteFile]"

definition systemReadPaths :: "string list" where
  "systemReadPaths = [''/usr'', ''/bin'', ''/sbin'', ''/lib'', ''/lib64'', ''/etc'', ''/proc'']"

definition knownToolchains :: "(string \<times> string) list" where
  "knownToolchains = [(''NVM_DIR'', ''.nvm''), (''FNM_MULTISHELL_PATH'', ''.fnm''), (''VOLTA_HOME'', ''.volta''), (''N_PREFIX'', ''''),
     (''BUN_INSTALL'', ''.bun''), (''DENO_DIR'', ''.deno''), (''PYENV_ROOT'', ''.pyenv''), (''CONDA_PREFIX'', ''''), (''RBENV_ROOT'', ''.rbenv''),
     (''rvm_path'', ''.rvm''), (''RUSTUP_HOME'', ''.rustup''), (''CARGO_HOME'', ''.cargo''), (''SDKMAN_DIR'', ''.sdkman''), (''JAVA_HOME'', ''''),
     (''GOROOT'', ''''), (''GOPATH'', ''go''), (''ANDROID_HOME'', ''''), (''FLUTTER_ROOT'', '''')]"

definition miscFallbacks :: "string list" where "miscFallbacks = [''.local/bin'']"

text \<open>What the file system and the environment of the process answer.\<close>

record host_files =
  hf_getenv :: "string \<Rightarrow> string"
  hf_home :: "string option"
  hf_resolve :: "string \<Rightarrow> string option"
  hf_exists :: "string \<Rightarrow> bool"
  hf_abs :: "string \<Rightarrow> string option"
  hf_addRule :: "string \<Rightarrow> bool"
  hf_tmp :: string

definition add_toolchain :: "host_files \<Rightarrow> string list \<Rightarrow> string \<Rightarrow> string list" where
  "add_toolchain h paths p =
     (if p = '''' then paths
      else
        (let p = (case hf_resolve h p of Some r \<Rightarrow> r | None \<Rightarrow> p)
         in if \<not> hf_exists h p then paths else if p \<in> set paths then paths else paths @ [p]))"

definition probeToolchainPaths :: "host_files \<Rightarrow> string list" where
  "probeToolchainPaths h =
     (case hf_home h of
        None \<Rightarrow> []
      | Some home \<Rightarrow>
          foldl (\<lambda>ps rel. add_toolchain h ps (path_join2 home rel))
            (foldl (\<lambda>ps (v, fallback).
                if hf_getenv h v \<noteq> '''' then add_toolchain h ps (hf_getenv h v)
                else if fallback \<noteq> '''' then add_toolchain h ps (path_join2 home fallback)
                else ps) [] knownToolchains)
            miscFallbacks)"

text \<open>The rules of a list of paths; an absolute path that cannot be added is the error.\<close>

fun add_rules :: "host_files \<Rightarrow> fs_access list \<Rightarrow> string list \<Rightarrow> string + (string \<times> fs_access list) list" where
  "add_rules h acc [] = Inr []"
| "add_rules h acc (p # ps) =
     (case hf_abs h p of
        None \<Rightarrow> add_rules h acc ps
      | Some a \<Rightarrow>
          if \<not> hf_addRule h a then Inl a
          else (case add_rules h acc ps of Inl e \<Rightarrow> Inl e | Inr rs \<Rightarrow> Inr ((a, acc) # rs)))"

definition optional_rules :: "host_files \<Rightarrow> fs_access list \<Rightarrow> string list \<Rightarrow> (string \<times> fs_access list) list" where
  "optional_rules h acc ps = map (\<lambda>p. (p, acc)) (filter (hf_addRule h) ps)"

definition EnforceLandlock :: "host_files \<Rightarrow> Policy \<Rightarrow> string + (string \<times> fs_access list) list" where
  "EnforceLandlock h policy =
     (case add_rules h rwAccess (po_ReadWrite policy) of
        Inl e \<Rightarrow> Inl e
      | Inr rw \<Rightarrow>
          (case add_rules h roAccess (po_ReadOnly policy) of
             Inl e \<Rightarrow> Inl e
           | Inr ro \<Rightarrow>
               Inr (rw @ ro
                 @ optional_rules h systemAccess (filter (hf_exists h) systemReadPaths)
                 @ optional_rules h devAccess (filter (hf_exists h) [''/dev''])
                 @ optional_rules h roAccess (probeToolchainPaths h)
                 @ optional_rules h rwAccess [hf_tmp h])))"

section \<open>The executor of tool calls (agent/toolexec.go)\<close>

definition maxToolOutputBytes :: nat where "maxToolOutputBytes = 50000"
definition shellForegroundWait :: int where "shellForegroundWait = 10"
definition toolOutputDirName :: string where "toolOutputDirName = ''.tool-results''"

definition wrapper_head :: string where
  "wrapper_head =
     ''_LOG=''"

definition wrapper_middle_1 :: string where
  "wrapper_middle_1 =
     newline
     @ ''eval '' @ dquote @ ''$_SANDBOX_CMD'' @ dquote @ '' > '' @ dquote @ ''$_LOG'' @ dquote @ '' 2>&1 &'' @ newline
     @ ''_PID=$!'' @ newline
     @ ''# Quick check for instant commands'' @ newline
     @ ''sleep 0.1'' @ newline
     @ ''if ! kill -0 $_PID 2>/dev/null; then'' @ newline
     @ ''  wait $_PID; _RC=$?; cat '' @ dquote @ ''$_LOG'' @ dquote @ ''; exit $_RC'' @ newline
     @ ''fi'' @ newline
     @ ''# Poll every second up to foreground wait'' @ newline
     @ ''_i=0'' @ newline"

definition wrapper_middle_2 :: string where
  "wrapper_middle_2 =
     ''while [ $_i -lt ''"

definition wrapper_middle :: string where
  "wrapper_middle = wrapper_middle_1 @ wrapper_middle_2"

definition wrapper_tail_1 :: string where
  "wrapper_tail_1 =
     '' ]; do'' @ newline
     @ ''  sleep 1'' @ newline
     @ ''  if ! kill -0 $_PID 2>/dev/null; then'' @ newline
     @ ''    wait $_PID; _RC=$?'' @ newline
     @ ''    cat '' @ dquote @ ''$_LOG'' @ dquote @ newline
     @ ''    exit $_RC'' @ newline
     @ ''  fi'' @ newline
     @ ''  _i=$((_i + 1))'' @ newline
     @ ''done'' @ newline
     @ ''# Still running '' @ em_dash @ '' it'' @ squote @ ''s a server or long process. Return immediately.'' @ newline"

definition wrapper_tail_2 :: string where
  "wrapper_tail_2 =
     ''printf '' @ dquote @ ''[Process %d running in background]'' @ [backslash] @ ''n'' @ dquote @ '' '' @ dquote @ ''$_PID'' @ dquote @ newline
     @ ''printf '' @ dquote @ ''[Output log: %s]'' @ [backslash] @ ''n'' @ dquote @ '' '' @ dquote @ ''$_LOG'' @ dquote @ newline
     @ ''printf '' @ dquote @ ''[Check status: kill -0 %d 2>/dev/null && echo running || echo stopped]'' @ [backslash] @ ''n'' @ dquote @ '' '' @ dquote @ ''$_PID'' @ dquote @ newline
     @ ''_TAIL=$(tail -20 '' @ dquote @ ''$_LOG'' @ dquote @ '' 2>/dev/null)'' @ newline
     @ ''[ -n '' @ dquote @ ''$_TAIL'' @ dquote @ '' ] && printf '' @ dquote @ ''--- recent output ---'' @ [backslash] @ ''n%s'' @ [backslash] @ ''n'' @ dquote @ '' '' @ dquote @ ''$_TAIL'' @ dquote @ newline
     @ ''exit 0'' @ newline"

definition wrapper_tail :: string where
  "wrapper_tail = wrapper_tail_1 @ wrapper_tail_2"

definition shellWrapper :: "string \<Rightarrow> int \<Rightarrow> string" where
  "shellWrapper logFile wait = wrapper_head @ quote logFile @ wrapper_middle @ json_int wait @ wrapper_tail"

record ToolExecutor =
  tx_Tools :: "(string, ToolConfig) gomap"
  tx_TierPaths :: "string list"
  tx_AgentName :: string
  tx_MaxOutputTokens :: int
  tx_ContextLimit :: int
  tx_bgGroups :: "int list"

definition SandboxEnv :: "ToolExecutor \<Rightarrow> string list" where
  "SandboxEnv e =
     (case tx_TierPaths e of
        scratch # agent # shared # _ \<Rightarrow>
          [''SCRATCH_DIR='' @ scratch, ''AGENT_DIR='' @ agent, ''SHARED_DIR='' @ shared, ''HOME='' @ agent]
      | _ \<Rightarrow> [])"

definition scratch_dir :: "ToolExecutor \<Rightarrow> string" where
  "scratch_dir e = (case tx_TierPaths e of [] \<Rightarrow> '''' | d # _ \<Rightarrow> d)"

definition SandboxConfig :: "ToolExecutor \<Rightarrow> int \<Rightarrow> Config" where
  "SandboxConfig e timeout =
     \<lparr>cf_WorkDir = scratch_dir e, cf_Timeout = timeout, cf_AllowedDirs = tx_TierPaths e, cf_KeepBackground = False,
      cf_Restrict = (case tx_TierPaths e of
          scratch # agent # shared # _ \<Rightarrow> Some \<lparr>po_ReadOnly = [shared], po_ReadWrite = [scratch, agent]\<rparr>
        | _ \<Rightarrow> None)\<rparr>"

record ToolCall =
  tc_ID :: string
  tc_Name :: string
  tc_Arguments :: string

text \<open>
  What a call meets: the time, the decoder, printer and encoder of its arguments, the environment of the process, the end of the
  command, the writing of its output, and the synchronisation of the workspace (\<open>None\<close> when there is none).
\<close>

record exec_io =
  xi_Now :: int
  xi_Stamp :: string
  xi_Decode :: "string \<Rightarrow> data option"
  xi_Marshal :: "data \<Rightarrow> string"
  xi_Show :: "any \<Rightarrow> string"
  xi_LookupEnv :: "string \<Rightarrow> string option"
  xi_Environ :: "string list"
  xi_TempDir :: string
  xi_Ending :: "Config \<Rightarrow> string list \<Rightarrow> string \<Rightarrow> ending"
  xi_CanSave :: bool
  xi_Sync :: "string option"

definition truncateOutput :: "string \<Rightarrow> string" where
  "truncateOutput s =
     (if length s \<le> maxToolOutputBytes then s
      else take maxToolOutputBytes s @ newline @ newline @ ''[... truncated, '' @ json_int (int (length s - maxToolOutputBytes)) @ '' bytes omitted]'')"

text \<open>\<open>strings.Trim\<close> with the set \<open>._-\<close>.\<close>

definition trim_marks :: "string \<Rightarrow> string" where
  "trim_marks s = (let m = (\<lambda>c. c \<in> set ''._-'') in rev (dropWhile m (rev (dropWhile m s))))"

definition sanitizePathPart :: "string \<Rightarrow> string" where
  "sanitizePathPart s = take 48 (trim_marks (map (\<lambda>c. if char_alnum c then char_lower c else if c \<in> set ''-_.'' then c else CHR ''_'') s))"

definition or_else :: "string \<Rightarrow> string \<Rightarrow> string" where "or_else d s = (if s = '''' then d else s)"

text \<open>The file a call's output is kept in, by the name the model is told; the index and the metadata beside it are not read again.\<close>

definition persistToolOutput :: "exec_io \<Rightarrow> ToolExecutor \<Rightarrow> ToolCall \<Rightarrow> string" where
  "persistToolOutput io e call =
     (if tx_TierPaths e = [] \<or> \<not> xi_CanSave io then ''''
      else ''$SCRATCH_DIR/'' @ toolOutputDirName @ ''/'' @ xi_Stamp io @ ''-'' @ or_else ''tool'' (sanitizePathPart (tc_Name call))
        @ ''-'' @ or_else ''call'' (sanitizePathPart (tc_ID call)) @ ''.out'')"

definition with_hint :: "string \<Rightarrow> string \<Rightarrow> string" where
  "with_hint savedRef result =
     (if savedRef = '''' then result
      else
        (let hint = ''[Saved tool output: '' @ savedRef @ '']''
         in if contains result hint then result
            else if trim_space result = '''' then hint
            else result @ newline @ newline @ hint))"

definition tool_timeout :: "(string \<Rightarrow> int option) \<Rightarrow> ToolConfig option \<Rightarrow> int" where
  "tool_timeout atoi tc =
     (case tc of
        None \<Rightarrow> 30000000000
      | Some t \<Rightarrow>
          (case mget (tcf_Config t) ''timeout'' of
             None \<Rightarrow> 30000000000
           | Some v \<Rightarrow> (case atoi v of Some secs \<Rightarrow> if secs > 0 then secs * 1000000000 else 30000000000 | None \<Rightarrow> 30000000000)))"

datatype tool_error = BadArguments | NoCommandArgument | UnknownTool string | NoCommand string | ToolFailed string string

text \<open>The command line, the environment and whether the process may stay; \<open>Inl\<close> when the call is refused.\<close>

definition tool_command :: "exec_io \<Rightarrow> ToolExecutor \<Rightarrow> ToolCall \<Rightarrow> tool_error + string \<times> string list \<times> bool" where
  "tool_command io e call =
     (case (if tc_Arguments call = '''' then Some [] else xi_Decode io (tc_Arguments call)) of
        None \<Rightarrow> Inl BadArguments
      | Some args \<Rightarrow>
          if tc_Name call = ''shell'' then
            (case mget args ''command'' of
               Some (AStr cmd) \<Rightarrow>
                 if cmd = '''' then Inl NoCommandArgument
                 else Inr (shellWrapper (path_join2 (scratch_dir e) (''.cmd_'' @ json_int (xi_Now io) @ ''.log'')) shellForegroundWait,
                           (''_SANDBOX_CMD='' @ cmd) # SandboxEnv e, True)
             | _ \<Rightarrow> Inl NoCommandArgument)
          else
            (case mget (tx_Tools e) (tc_Name call) of
               None \<Rightarrow> Inl (UnknownTool (tc_Name call))
             | Some tc \<Rightarrow>
                 if tcf_Command tc = '''' then Inl (NoCommand (tc_Name call))
                 else Inr (tcf_Command tc,
                   map (\<lambda>(k, v). ''TOOL_ARG_'' @ to_upper k @ ''='' @ xi_Show io v) args
                   @ [''TOOL_ARGS_JSON='' @ xi_Marshal io args]
                   @ map (\<lambda>(k, v). ''TOOL_'' @ to_upper k @ ''='' @ v) (filter (\<lambda>(k, v). k \<notin> {''timeout'', ''match''}) (tcf_Config tc))
                   @ concat (map (\<lambda>n. case xi_LookupEnv io n of Some v \<Rightarrow> [n @ ''='' @ v] | None \<Rightarrow> []) (tcf_PassthroughEnv tc))
                   @ SandboxEnv e, False)))"

text \<open>The end of a command that runs in the environment \<open>Run\<close> composes.\<close>

definition ending_of :: "exec_io \<Rightarrow> Config \<Rightarrow> string list \<Rightarrow> string \<Rightarrow> ending" where
  "ending_of io cfg env command =
     xi_Ending io (with_timeout cfg) (command_env (xi_Environ io) (xi_TempDir io) (with_timeout cfg) env) command"

text \<open>The text of the result, the error, the executor with the groups it has to kill later, and the groups already killed.\<close>

definition Execute :: "(string \<Rightarrow> int option) \<Rightarrow> exec_io \<Rightarrow> ToolExecutor \<Rightarrow> ToolCall \<Rightarrow> (string \<times> tool_error option) \<times> ToolExecutor \<times> int list" where
  "Execute atoi io e call =
     (case tool_command io e call of
        Inl err \<Rightarrow> (('''', Some err), e, [])
      | Inr (command, env, keep) \<Rightarrow>
          (let cfg = (SandboxConfig e (tool_timeout atoi (mget (tx_Tools e) (tc_Name call))))\<lparr>cf_KeepBackground := keep\<rparr>
           in case Run cfg (ending_of io cfg env command) of
                ((output, pgid, err), killed) \<Rightarrow>
                  (let rawOutput = (case err of Some x \<Rightarrow> if output = '''' then ''Error: '' @ x @ newline else output | None \<Rightarrow> output);
                       savedRef = persistToolOutput io e call;
                       e' = (if pgid > 0 then e\<lparr>tx_bgGroups := tx_bgGroups e @ [pgid]\<rparr> else e);
                       err' = (case err of
                           Some x \<Rightarrow> Some x
                         | None \<Rightarrow> map_option (\<lambda>x. ''sync workspace: '' @ x) (xi_Sync io))
                   in case err' of
                        Some x \<Rightarrow>
                          ((with_hint savedRef (truncateOutput (or_else x rawOutput)), Some (ToolFailed (tc_Name call) x)), e', killed)
                      | None \<Rightarrow>
                          ((with_hint savedRef (or_else ''(no output)'' (truncateOutput rawOutput)), None), e', killed))))"

definition Cleanup :: "ToolExecutor \<Rightarrow> ToolExecutor \<times> int list" where
  "Cleanup e = (e\<lparr>tx_bgGroups := []\<rparr>, concat (map KillProcessGroup (tx_bgGroups e)))"

section \<open>What the environment of a command holds\<close>

lemma set_replace_key: "set (replace_key k entry es) \<subseteq> insert entry (set es)"
  by (induction es) auto

lemma setEnvAll_snoc [simp]:
  "setEnvAll base (es @ [e]) = (case env_key e of None \<Rightarrow> setEnvAll base es | Some k \<Rightarrow> replace_key k e (setEnvAll base es))"
  "setEnvAll base [] = base"
  by (simp_all add: setEnvAll_def split: option.split)

lemma set_setEnvAll: "set (setEnvAll base es) \<subseteq> set base \<union> set es"
proof (induction es rule: rev_induct)
  case (snoc e es)
  then show ?case using set_replace_key by (fastforce split: option.splits)
qed simp

text \<open>Entries of one key: a replacement leaves one where there was at most one.\<close>

definition entries_of :: "string \<Rightarrow> string list \<Rightarrow> string list" where
  "entries_of k es = filter (same_key k) es"

lemma same_key_same: "same_key k e \<Longrightarrow> env_key e = Some k' \<Longrightarrow> same_key k' x = same_key k x"
  by (auto simp: same_key_def split: option.splits)

lemma same_key_other: "\<not> same_key k e \<Longrightarrow> env_key e = Some k' \<Longrightarrow> same_key k' x \<Longrightarrow> \<not> same_key k x"
  by (auto simp: same_key_def split: option.splits)

lemma entries_replace_same:
  "same_key k e \<Longrightarrow> env_key e = Some k' \<Longrightarrow> length (entries_of k es) \<le> 1 \<Longrightarrow> entries_of k (replace_key k' e es) = [e]"
  by (induction es) (auto simp: entries_of_def same_key_same split: if_splits)

lemma entries_replace_other:
  "\<not> same_key k e \<Longrightarrow> env_key e = Some k' \<Longrightarrow> entries_of k (replace_key k' e es) = entries_of k es"
  by (induction es) (auto simp: entries_of_def dest: same_key_other)

lemma entries_setEnvAll_le: "length (entries_of k base) \<le> 1 \<Longrightarrow> length (entries_of k (setEnvAll base es)) \<le> 1"
proof (induction es rule: rev_induct)
  case (snoc e es)
  then show ?case
    by (cases "same_key k e") (auto simp: entries_replace_same entries_replace_other split: option.splits)
qed simp

lemma setEnvAll_sets:
  assumes "length (entries_of k base) \<le> 1" and "same_key k e" and "\<forall>x \<in> set post. \<not> same_key k x"
  shows "entries_of k (setEnvAll base (pre @ e # post)) = [e]"
  using assms(3)
proof (induction post rule: rev_induct)
  case Nil
  obtain k' where k': "env_key e = Some k'" using assms(2) by (auto simp: same_key_def split: option.splits)
  have "length (entries_of k (setEnvAll base pre)) \<le> 1" using entries_setEnvAll_le [OF assms(1)] .
  then show ?case using k' entries_replace_same [OF assms(2) k'] by simp
next
  case (snoc x post)
  then have ih: "entries_of k (setEnvAll base (pre @ e # post)) = [e]" and x: "\<not> same_key k x" by auto
  have "pre @ e # post @ [x] = (pre @ e # post) @ [x]" by simp
  then show ?case using ih x by (simp only: setEnvAll_snoc) (auto simp: entries_replace_other split: option.splits)
qed

definition set_by_sandbox :: "Config \<Rightarrow> string \<Rightarrow> string \<Rightarrow> bool" where
  "set_by_sandbox cfg tmp entry \<longleftrightarrow>
     entry \<in> {''HOME='' @ cf_WorkDir cfg, ''TMPDIR='' @ sandboxTempDir tmp, ''LANG=en_US.UTF-8''} \<or>
     (\<exists>i d. entry = ''SANDBOX_ALLOWED_DIR_'' @ json_int i @ ''='' @ d \<and> d \<in> set (cf_AllowedDirs cfg))"

lemma inherit_entries:
  assumes "entry \<in> set (inheritHostEnv host overrides)"
  shows "entry \<in> set (map (\<lambda>(k, v). k @ ''='' @ v) overrides) \<or>
    entry \<in> set host \<and> (\<exists>k. env_key entry = Some k \<and> isAllowedEnv (to_upper k) \<and> to_upper k \<notin> set (map to_upper (mkeys overrides)))"
  using assms unfolding inheritHostEnv_def by (cases "env_key entry") (auto simp del: set_map)

lemma allowed_dir_entries:
  assumes "entry \<in> set (map (\<lambda>(i, d). ''SANDBOX_ALLOWED_DIR_'' @ json_int (int i) @ ''='' @ d) (enumerate 0 (cf_AllowedDirs cfg)))"
  shows "set_by_sandbox cfg tmp entry"
proof -
  from assms obtain i d where "(i, d) \<in> set (enumerate 0 (cf_AllowedDirs cfg))" and e: "entry = ''SANDBOX_ALLOWED_DIR_'' @ json_int (int i) @ ''='' @ d"
    by auto
  then have "d \<in> set (cf_AllowedDirs cfg)" by (auto simp: in_set_enumerate_eq)
  with e show ?thesis unfolding set_by_sandbox_def by blast
qed

lemma command_env_entries:
  assumes "entry \<in> set (command_env host tmp cfg env)"
  shows "entry \<in> set env \<or> set_by_sandbox cfg tmp entry \<or>
    entry \<in> set host \<and> (\<exists>k. env_key entry = Some k \<and> isAllowedEnv (to_upper k))"
proof -
  let ?over = "[(''HOME'', cf_WorkDir cfg), (''TMPDIR'', sandboxTempDir tmp), (''LANG'', ''en_US.UTF-8'')]"
  let ?dirs = "map (\<lambda>(i, d). ''SANDBOX_ALLOWED_DIR_'' @ json_int (int i) @ ''='' @ d) (enumerate 0 (cf_AllowedDirs cfg))"
  from assms consider "entry \<in> set env" | "entry \<in> set (inheritHostEnv host ?over)" | "entry \<in> set ?dirs"
    unfolding command_env_def using set_setEnvAll [of "inheritHostEnv host ?over @ ?dirs" env] by auto
  then show ?thesis
  proof cases
    case 2
    from inherit_entries [OF this] show ?thesis unfolding set_by_sandbox_def by auto
  qed (use allowed_dir_entries in auto)
qed

section \<open>The directories a tool is told\<close>

lemma char_upper_lower: "char_upper (char_lower c) = char_upper c"
proof -
  have "of_char c < (256 :: nat)" by (rule nat_of_char_less_256)
  then show ?thesis unfolding char_upper_def char_lower_def Let_def by auto
qed

lemma to_upper_lower: "to_upper (to_lower a) = to_upper a"
  by (simp add: to_lower_def to_upper_def char_upper_lower)

lemma to_upper_eqI: "to_lower a = to_lower b \<Longrightarrow> to_upper a = to_upper b"
  by (metis to_upper_lower)

lemma index_past: "CHR ''='' \<notin> set p \<Longrightarrow> index_of (p @ s) ''='' = map_option (\<lambda>n. length p + n) (index_of s ''='')"
proof (induction p)
  case Nil
  show ?case by (cases "index_of s ''=''"; simp only: append_Nil list.size option.map add_0)
next
  case (Cons c p)
  then have "index_of (p @ s) ''='' = map_option (\<lambda>n. length p + n) (index_of s ''='')" and "c \<noteq> CHR ''=''" by auto
  then show ?case by (simp add: has_prefix_def option.map_comp comp_def)
qed

lemma env_key_entry:
  assumes "CHR ''='' \<notin> set k" "k \<noteq> ''''"
  shows "env_key (k @ ''='' @ v) = Some k"
proof -
  have "index_of (k @ ''='' @ v) ''='' = Some (length k)" using index_past [OF assms(1)] by (simp add: has_prefix_def)
  moreover obtain n where "length k = Suc n" using assms(2) by (cases k) auto
  ultimately show ?thesis by (simp only: env_key_def option.case nat.case) (metis append_eq_conv_conj)
qed

lemma env_key_past:
  assumes "CHR ''='' \<notin> set p" "env_key (p @ s) = Some k"
  shows "\<exists>r. k = p @ r"
proof -
  from assms(2) obtain n where n: "index_of (p @ s) ''='' = Some n" "k = take n (p @ s)"
    by (auto simp only: env_key_def split: option.splits nat.splits)
  then have "length p \<le> n" using index_past [OF assms(1)] by auto
  then have "take n (p @ s) = p @ take (n - length p) s" by simp
  with n(2) show ?thesis by blast
qed

lemma same_key_entry: "CHR ''='' \<notin> set k \<Longrightarrow> k \<noteq> '''' \<Longrightarrow> same_key k' (k @ ''='' @ v) \<longleftrightarrow> to_lower k = to_lower k'"
  by (simp add: same_key_def env_key_entry del: append_Cons append_assoc)

abbreviation tier_names :: "string set" where
  "tier_names \<equiv> {''HOME'', ''SCRATCH_DIR'', ''AGENT_DIR'', ''SHARED_DIR''}"

lemma tier_names_facts:
  "to_lower ''SCRATCH_DIR'' = ''scratch_dir''" "to_lower ''AGENT_DIR'' = ''agent_dir''"
  "to_lower ''SHARED_DIR'' = ''shared_dir''" "to_lower ''HOME'' = ''home''" "to_lower ''TMPDIR'' = ''tmpdir''" "to_lower ''LANG'' = ''lang''"
  "to_lower ''SANDBOX_ALLOWED_DIR_'' = ''sandbox_allowed_dir_''"
  "\<not> isAllowedEnv (to_upper ''HOME'')" "\<not> isAllowedEnv (to_upper ''SCRATCH_DIR'')"
  "\<not> isAllowedEnv (to_upper ''AGENT_DIR'')" "\<not> isAllowedEnv (to_upper ''SHARED_DIR'')"
  by code_simp+

lemma to_lower_append [simp]: "to_lower (a @ b) = to_lower a @ to_lower b"
  by (simp add: to_lower_def)

lemma allowed_dir_key:
  assumes "k \<in> tier_names"
  shows "\<not> same_key k (''SANDBOX_ALLOWED_DIR_'' @ s)"
proof
  assume "same_key k (''SANDBOX_ALLOWED_DIR_'' @ s)"
  then obtain k' where k': "env_key (''SANDBOX_ALLOWED_DIR_'' @ s) = Some k'" "to_lower k' = to_lower k"
    by (auto simp only: same_key_def split: option.splits)
  have "CHR ''='' \<notin> set ''SANDBOX_ALLOWED_DIR_''" by simp
  from env_key_past [OF this k'(1)] obtain r where "k' = ''SANDBOX_ALLOWED_DIR_'' @ r" by blast
  with k'(2) have "to_lower ''SANDBOX_ALLOWED_DIR_'' @ to_lower r = to_lower k" by (simp only: to_lower_append)
  with assms show False unfolding tier_names_facts by (auto simp: tier_names_facts)
qed

text \<open>Before the caller's entries no variable of the tiers is set, and HOME is set once.\<close>

lemma host_entries:
  assumes "k \<in> tier_names"
  shows "entries_of k (inheritHostEnv host over) = entries_of k (map (\<lambda>(k, v). k @ ''='' @ v) over)"
proof -
  have "\<not> same_key k e" if "case env_key e of None \<Rightarrow> False | Some k \<Rightarrow> P k \<and> isAllowedEnv (to_upper k)" for e P
  proof
    assume "same_key k e"
    with that obtain k' where "to_lower k' = to_lower k" "isAllowedEnv (to_upper k')"
      by (auto simp: same_key_def split: option.splits)
    then have "isAllowedEnv (to_upper k)" using to_upper_eqI by metis
    with assms tier_names_facts show False by auto
  qed
  then show ?thesis unfolding inheritHostEnv_def entries_of_def by (simp add: filter_empty_conv)
qed

lemma base_entries:
  assumes "k \<in> tier_names"
  shows "length (entries_of k (inheritHostEnv host [(''HOME'', h), (''TMPDIR'', t), (''LANG'', l)]
      @ map (\<lambda>(i, d). ''SANDBOX_ALLOWED_DIR_'' @ json_int (int i) @ ''='' @ d) (enumerate 0 ds))) \<le> 1"
proof -
  have "entries_of k (map (\<lambda>(i, d). ''SANDBOX_ALLOWED_DIR_'' @ json_int (int i) @ ''='' @ d) (enumerate 0 ds)) = []"
    using allowed_dir_key [OF assms] by (auto simp only: entries_of_def filter_empty_conv set_map)
  moreover have "\<not> same_key k (''TMPDIR='' @ t)" "\<not> same_key k (''LANG='' @ l)"
    using same_key_entry [of "''TMPDIR''" k t] same_key_entry [of "''LANG''" k l] assms by (auto simp: tier_names_facts)
  then have "length (entries_of k (map (\<lambda>(k, v). k @ ''='' @ v) [(''HOME'', h), (''TMPDIR'', t), (''LANG'', l)])) \<le> 1"
    by (simp add: entries_of_def)
  ultimately show ?thesis using host_entries [OF assms] by (simp add: entries_of_def)
qed

lemma tier_entries:
  assumes "tx_TierPaths e = scratch # agent # shared # rest"
    and "(k, v) \<in> {(''SCRATCH_DIR'', scratch), (''AGENT_DIR'', agent), (''SHARED_DIR'', shared), (''HOME'', agent)}"
  shows "\<exists>pre post. SandboxEnv e = pre @ (k @ ''='' @ v) # post \<and> same_key k (k @ ''='' @ v) \<and> (\<forall>x \<in> set post. \<not> same_key k x)"
proof -
  let ?s = "''SCRATCH_DIR='' @ scratch" and ?a = "''AGENT_DIR='' @ agent" and ?sh = "''SHARED_DIR='' @ shared" and ?h = "''HOME='' @ agent"
  have env: "SandboxEnv e = [?s, ?a, ?sh, ?h]" using assms(1) by (simp add: SandboxEnv_def)
  have same: "same_key k ?s \<longleftrightarrow> ''scratch_dir'' = to_lower k" "same_key k ?a \<longleftrightarrow> ''agent_dir'' = to_lower k"
    "same_key k ?sh \<longleftrightarrow> ''shared_dir'' = to_lower k" "same_key k ?h \<longleftrightarrow> ''home'' = to_lower k" for k
    using same_key_entry [of "''SCRATCH_DIR''" k scratch] same_key_entry [of "''AGENT_DIR''" k agent]
      same_key_entry [of "''SHARED_DIR''" k shared] same_key_entry [of "''HOME''" k agent]
    by (simp_all add: tier_names_facts)
  have split: "SandboxEnv e = [] @ ?s # [?a, ?sh, ?h]" "SandboxEnv e = [?s] @ ?a # [?sh, ?h]"
    "SandboxEnv e = [?s, ?a] @ ?sh # [?h]" "SandboxEnv e = [?s, ?a, ?sh] @ ?h # []"
    using env by simp_all
  have ex: "\<exists>pre post. SandboxEnv e = pre @ x # post \<and> same_key k x \<and> (\<forall>x \<in> set post. \<not> same_key k x)"
    if "SandboxEnv e = pre @ x # post" "same_key k x" "\<forall>x \<in> set post. \<not> same_key k x" for pre x post
    using that by blast
  from assms(2) consider "k = ''SCRATCH_DIR''" "v = scratch" | "k = ''AGENT_DIR''" "v = agent" | "k = ''SHARED_DIR''" "v = shared" | "k = ''HOME''" "v = agent"
    by auto
  then show ?thesis
  proof cases
    case 1
    then have "k @ ''='' @ v = ?s" by simp
    then show ?thesis using ex [OF split(1)] same [of k] 1 tier_names_facts by simp
  next
    case 2
    then have "k @ ''='' @ v = ?a" by simp
    then show ?thesis using ex [OF split(2)] same [of k] 2 tier_names_facts by simp
  next
    case 3
    then have "k @ ''='' @ v = ?sh" by simp
    then show ?thesis using ex [OF split(3)] same [of k] 3 tier_names_facts by simp
  next
    case 4
    then have "k @ ''='' @ v = ?h" by simp
    then show ?thesis using ex [OF split(4)] same [of k] 4 tier_names_facts by simp
  qed
qed

section \<open>Properties\<close>

text \<open>What a command finds in its environment by the name \<open>k\<close>: the entries with that name.\<close>

lemma tier_in_command_env:
  assumes "tx_TierPaths e = scratch # agent # shared # rest"
    and "(k, v) \<in> {(''SCRATCH_DIR'', scratch), (''AGENT_DIR'', agent), (''SHARED_DIR'', shared), (''HOME'', agent)}"
  shows "entries_of k (command_env host tmp cfg (env @ SandboxEnv e)) = [k @ ''='' @ v]"
proof -
  from assms(2) have k: "k \<in> tier_names" by auto
  from tier_entries [OF assms] obtain pre post where "SandboxEnv e = pre @ (k @ ''='' @ v) # post"
    and "same_key k (k @ ''='' @ v)" "\<forall>x \<in> set post. \<not> same_key k x" by blast
  then show ?thesis
    using setEnvAll_sets [OF base_entries [OF k], where e = "k @ ''='' @ v" and pre = "env @ pre" and post = post]
    unfolding command_env_def by simp
qed

lemma tool_command_env:
  assumes "tool_command io e call = Inr (command, env, keep)"
  shows "\<exists>own. env = own @ SandboxEnv e"
proof -
  consider own where "env = own # SandboxEnv e" | own where "env = own @ SandboxEnv e"
    using assms unfolding tool_command_def by (auto split: option.splits if_splits any.splits)
  then show ?thesis by (metis append_Cons append_Nil)
qed

text \<open>
  What a call itself gives to the environment of its command: the line of the shell; or the arguments of the model and the
  configuration of the tool, under names that begin with TOOL.
\<close>

definition given_by_call :: "exec_io \<Rightarrow> ToolExecutor \<Rightarrow> ToolCall \<Rightarrow> string \<Rightarrow> bool" where
  "given_by_call io e call entry \<longleftrightarrow>
     (\<exists>args. (if tc_Arguments call = '''' then Some [] else xi_Decode io (tc_Arguments call)) = Some args \<and>
        (if tc_Name call = ''shell'' then \<exists>line. mget args ''command'' = Some (AStr line) \<and> entry = ''_SANDBOX_CMD='' @ line
         else (\<exists>(k, v) \<in> set args. entry = ''TOOL_ARG_'' @ to_upper k @ ''='' @ xi_Show io v) \<or>
              entry = ''TOOL_ARGS_JSON='' @ xi_Marshal io args \<or>
              (\<exists>tc. mget (tx_Tools e) (tc_Name call) = Some tc \<and>
                 (\<exists>(k, v) \<in> set (tcf_Config tc). entry = ''TOOL_'' @ to_upper k @ ''='' @ v))))"

text \<open>A variable of the host that the definition of the called tool names in its \<open>passthrough_env\<close>.\<close>

definition passed_through :: "exec_io \<Rightarrow> ToolExecutor \<Rightarrow> ToolCall \<Rightarrow> string \<Rightarrow> bool" where
  "passed_through io e call entry \<longleftrightarrow>
     tc_Name call \<noteq> ''shell'' \<and>
     (\<exists>tc n v. mget (tx_Tools e) (tc_Name call) = Some tc \<and> n \<in> set (tcf_PassthroughEnv tc) \<and>
        xi_LookupEnv io n = Some v \<and> entry = n @ ''='' @ v)"

lemma tool_command_gives:
  assumes "tool_command io e call = Inr (command, env, keep)" and "entry \<in> set env"
  shows "given_by_call io e call entry \<or> passed_through io e call entry \<or> entry \<in> set (SandboxEnv e)"
  using assms unfolding tool_command_def given_by_call_def passed_through_def
  by (fastforce split: option.splits if_splits any.splits)

text \<open>
  Claim C28: which variables a command of a tool sees. Every entry of the environment of a tool call's command is a directory of
  a tier, an entry the sandbox itself sets, one that the call gives (the line of the shell; the arguments of the model and the
  configuration of the tool), a variable of the host that the called tool's definition names in its passthrough list, or a
  variable of the host whose name begins with one of the safe prefixes and contains none of the words for secrets. So a variable
  of the host with a secret's name reaches a command only when the definition of the called tool lists it, which is meant to go
  around the list of secrets, and never a command of the shell. SCRATCH_DIR, AGENT_DIR, SHARED_DIR and HOME have exactly one
  entry each, the tier's directory, whatever the host, the arguments, the configuration or the passthrough list say.
\<close>

theorem command_env_clean:
  assumes "tool_command io e call = Inr (command, env, keep)" and "tx_TierPaths e = scratch # agent # shared # rest"
  shows "(\<forall>entry \<in> set (command_env host tmp cfg env).
      entry \<in> set (SandboxEnv e) \<or> set_by_sandbox cfg tmp entry \<or> given_by_call io e call entry \<or> passed_through io e call entry \<or>
      entry \<in> set host \<and> (\<exists>k. env_key entry = Some k \<and> (\<exists>p \<in> set allowedEnvPrefixes. has_prefix (to_upper k) p) \<and>
        (\<forall>b \<in> set blockedEnvSubstrings. \<not> contains (to_upper k) b))) \<and>
    entries_of ''SCRATCH_DIR'' (command_env host tmp cfg env) = [''SCRATCH_DIR='' @ scratch] \<and>
    entries_of ''AGENT_DIR'' (command_env host tmp cfg env) = [''AGENT_DIR='' @ agent] \<and>
    entries_of ''SHARED_DIR'' (command_env host tmp cfg env) = [''SHARED_DIR='' @ shared] \<and>
    entries_of ''HOME'' (command_env host tmp cfg env) = [''HOME='' @ agent]"
proof -
  from tool_command_env [OF assms(1)] obtain own where env: "env = own @ SandboxEnv e" by blast
  have "\<forall>entry \<in> set (command_env host tmp cfg env). entry \<in> set env \<or> set_by_sandbox cfg tmp entry \<or>
      entry \<in> set host \<and> (\<exists>k. env_key entry = Some k \<and> isAllowedEnv (to_upper k))"
    using command_env_entries by blast
  then have "\<forall>entry \<in> set (command_env host tmp cfg env).
      entry \<in> set (SandboxEnv e) \<or> set_by_sandbox cfg tmp entry \<or> given_by_call io e call entry \<or> passed_through io e call entry \<or>
      entry \<in> set host \<and> (\<exists>k. env_key entry = Some k \<and> isAllowedEnv (to_upper k))"
    using tool_command_gives [OF assms(1)] by blast
  then show ?thesis
    using tier_in_command_env [OF assms(2), of "''SCRATCH_DIR''" scratch] tier_in_command_env [OF assms(2), of "''AGENT_DIR''" agent]
      tier_in_command_env [OF assms(2), of "''SHARED_DIR''" shared] tier_in_command_env [OF assms(2), of "''HOME''" agent]
    unfolding env isAllowedEnv_def by (simp add: list_ex_iff)
qed

text \<open>
  The list of safe prefixes names SSH_AUTH_SOCK, which the list of secrets excludes; and a call of the shell is run for an agent
  that was given no tools.
\<close>

lemma ssh_sock_never_inherited: "\<not> isAllowedEnv ''SSH_AUTH_SOCK''"
  by code_simp

definition demo_io :: "ending \<Rightarrow> exec_io" where
  "demo_io out = \<lparr>xi_Now = 7, xi_Stamp = ''t'', xi_Decode = (\<lambda>_. Some [(''command'', AStr ''ls'')]), xi_Marshal = (\<lambda>_. ''{}''), xi_Show = (\<lambda>_. ''''),
     xi_LookupEnv = (\<lambda>_. None), xi_Environ = [''HOME=/root'', ''API_KEY=x'', ''PATH=/bin''], xi_TempDir = ''/tmp'', xi_Ending = (\<lambda>_ _ _. out),
     xi_CanSave = False, xi_Sync = None\<rparr>"

definition demo_executor :: ToolExecutor where
  "demo_executor = \<lparr>tx_Tools = [], tx_TierPaths = [''/s'', ''/a'', ''/sh''], tx_AgentName = ''dev'', tx_MaxOutputTokens = 0, tx_ContextLimit = 0,
     tx_bgGroups = []\<rparr>"

definition demo_call :: ToolCall where
  "demo_call = \<lparr>tc_ID = ''c1'', tc_Name = ''shell'', tc_Arguments = ''{}''\<rparr>"

lemma shell_not_granted:
  "mget (tx_Tools demo_executor) ''shell'' = None \<and>
   Execute (\<lambda>_. None) (demo_io (Ended ''ok'' 42 None)) demo_executor demo_call = ((''ok'', None), demo_executor\<lparr>tx_bgGroups := [42]\<rparr>, [])"
  by (simp add: Execute_def tool_command_def demo_io_def demo_executor_def demo_call_def ending_of_def Run_def persistToolOutput_def
      with_hint_def or_else_def truncateOutput_def maxToolOutputBytes_def)

theorem command_env_clean_witness:
  "\<exists>command env. tool_command (demo_io (Ended ''ok'' 42 None)) demo_executor demo_call = Inr (command, env, True) \<and>
     entries_of ''HOME'' (command_env [''HOME=/root'', ''API_KEY=x'', ''PATH=/bin''] ''/tmp'' (SandboxConfig demo_executor 0) env) = [''HOME='' @ ''/a'']"
proof -
  obtain command env where c: "tool_command (demo_io (Ended ''ok'' 42 None)) demo_executor demo_call = Inr (command, env, True)"
    by (simp add: tool_command_def demo_call_def demo_io_def)
  have "tx_TierPaths demo_executor = ''/s'' # ''/a'' # ''/sh'' # []" by (simp add: demo_executor_def)
  from command_env_clean [OF c this] c show ?thesis by blast
qed

section \<open>No process is left behind\<close>

fun run_calls :: "(string \<Rightarrow> int option) \<Rightarrow> (exec_io \<times> ToolCall) list \<Rightarrow> ToolExecutor \<Rightarrow> ToolExecutor \<times> int list" where
  "run_calls atoi [] e = (e, [])"
| "run_calls atoi ((io, call) # cs) e =
     (case Execute atoi io e call of
        (_, e', killed) \<Rightarrow> (case run_calls atoi cs e' of (e'', killed') \<Rightarrow> (e'', killed @ killed')))"

fun group_of :: "ending \<Rightarrow> int list" where
  "group_of (TimedOut _ pgid _) = KillProcessGroup pgid"
| "group_of (Ended _ pgid _) = KillProcessGroup pgid"
| "group_of _ = []"

text \<open>The process groups that the commands of the calls started.\<close>

definition started :: "(string \<Rightarrow> int option) \<Rightarrow> exec_io \<Rightarrow> ToolExecutor \<Rightarrow> ToolCall \<Rightarrow> int list" where
  "started atoi io e call =
     (case tool_command io e call of
        Inl _ \<Rightarrow> []
      | Inr (command, env, keep) \<Rightarrow>
          group_of (ending_of io ((SandboxConfig e (tool_timeout atoi (mget (tx_Tools e) (tc_Name call))))\<lparr>cf_KeepBackground := keep\<rparr>) env command))"

fun all_started :: "(string \<Rightarrow> int option) \<Rightarrow> (exec_io \<times> ToolCall) list \<Rightarrow> ToolExecutor \<Rightarrow> int list" where
  "all_started atoi [] e = []"
| "all_started atoi ((io, call) # cs) e = started atoi io e call @ all_started atoi cs (fst (snd (Execute atoi io e call)))"

lemma Run_group:
  "set (group_of out) = set (snd (Run cfg out)) \<union> set (KillProcessGroup (fst (snd (fst (Run cfg out)))))"
  by (cases out) (auto simp: Run_def KillProcessGroup_def)

lemma Execute_groups:
  assumes "Execute atoi io e call = (r, e', killed)"
  shows "set (started atoi io e call) \<union> set (snd (Cleanup e)) = set killed \<union> set (snd (Cleanup e'))"
proof (cases "tool_command io e call")
  case (Inl err)
  with assms show ?thesis by (auto simp: Execute_def started_def)
next
  case (Inr cmd)
  obtain command env keep where cmd: "cmd = (command, env, keep)" by (cases cmd)
  let ?cfg = "(SandboxConfig e (tool_timeout atoi (mget (tx_Tools e) (tc_Name call))))\<lparr>cf_KeepBackground := keep\<rparr>"
  obtain res pgid err k where run: "Run ?cfg (ending_of io ?cfg env command) = ((res, pgid, err), k)" by (metis prod_cases3 surj_pair)
  have "e' = (if pgid > 0 then e\<lparr>tx_bgGroups := tx_bgGroups e @ [pgid]\<rparr> else e) \<and> killed = k"
    using assms by (auto simp: Execute_def Inr cmd run Let_def split: option.splits)
  moreover have "started atoi io e call = group_of (ending_of io ?cfg env command)" by (simp add: started_def Inr cmd)
  ultimately show ?thesis
    using Run_group [of "ending_of io ?cfg env command" ?cfg] run by (auto simp: Cleanup_def KillProcessGroup_def)
qed

text \<open>
  Claim C29: a tool loop leaves no process behind. Whatever calls the model makes and however their commands end, the process groups
  that were killed when a command ended or timed out and those that are killed at the cleanup are exactly the groups that the commands
  started.
\<close>

theorem processes_killed:
  "set (all_started atoi calls e) \<union> set (snd (Cleanup e)) =
     set (snd (run_calls atoi calls e)) \<union> set (snd (Cleanup (fst (run_calls atoi calls e))))"
proof (induction atoi calls e rule: run_calls.induct)
  case (2 atoi io call cs e)
  obtain r e' killed where x: "Execute atoi io e call = (r, e', killed)" by (metis prod_cases3)
  from 2 [OF x [symmetric]] Execute_groups [OF x] x show ?case by (auto split: prod.splits)
qed simp

section \<open>What Landlock lets a command write\<close>

lemma add_rules_access: "add_rules h acc ps = Inr rs \<Longrightarrow> (p, a) \<in> set rs \<Longrightarrow> a = acc \<and> (\<exists>q \<in> set ps. hf_abs h q = Some p)"
  by (induction ps arbitrary: rs) (auto split: option.splits sum.splits if_splits)

text \<open>
  A rule with the right to write files is for a directory of the policy, the devices or the temporary directory; removing
  files is not among the handled rights, so no rule restrains it.
\<close>

lemma landlock_write_rules:
  assumes "EnforceLandlock h policy = Inr rules" and "(p, access) \<in> set rules" and "FsWriteFile \<in> set access"
  shows "(\<exists>q \<in> set (po_ReadWrite policy). hf_abs h q = Some p) \<or> p = ''/dev'' \<or> p = hf_tmp h"
proof -
  from assms(1) obtain rw ro where r: "add_rules h rwAccess (po_ReadWrite policy) = Inr rw" "add_rules h roAccess (po_ReadOnly policy) = Inr ro"
    and rules: "rules = rw @ ro @ optional_rules h systemAccess (filter (hf_exists h) systemReadPaths)
      @ optional_rules h devAccess (filter (hf_exists h) [''/dev'']) @ optional_rules h roAccess (probeToolchainPaths h) @ optional_rules h rwAccess [hf_tmp h]"
    by (auto simp: EnforceLandlock_def split: sum.splits)
  have "(p, access) \<notin> set ro"
  proof
    assume "(p, access) \<in> set ro"
    from add_rules_access [OF r(2) this] assms(3) show False by (simp add: roAccess_def)
  qed
  moreover have "(p, access) \<notin> set (optional_rules h acc ps)" if "FsWriteFile \<notin> set acc" for acc ps
    using assms(3) that by (auto simp: optional_rules_def)
  moreover have "FsWriteFile \<notin> set systemAccess" "FsWriteFile \<notin> set roAccess" by code_simp+
  ultimately consider "(p, access) \<in> set rw" | "(p, access) \<in> set (optional_rules h devAccess (filter (hf_exists h) [''/dev'']))"
    | "(p, access) \<in> set (optional_rules h rwAccess [hf_tmp h])"
    using assms(2) rules by auto
  then show ?thesis
  proof cases
    case 1
    from add_rules_access [OF r(1) this] show ?thesis by blast
  qed (auto simp: optional_rules_def split: if_splits)
qed

lemma removal_unrestricted: "FsRemoveFile \<notin> set handled_access \<and> FsRemoveDir \<notin> set handled_access"
  by code_simp

end
