(* ===== verification/ToolText.thy ===== *)
theory ToolText
  imports Sandbox LoopRouting
begin

text \<open>
  What the loop between model and tools does with texts (internal/agent/agent.go): the conversation and its compaction, the
  truncation of results, the file blocks collected on the way, the recognition of commands that only read, the listing of the
  scratch directory and its paths.
\<close>

section \<open>The conversation\<close>

datatype role = RoleSystem | RoleUser | RoleAssistant | RoleTool

record ChatMsg =
  cm_Role :: role
  cm_Content :: string
  cm_ToolCalls :: "ToolCall list"
  cm_ToolCallID :: string
  cm_Finish :: string

definition user_msg :: "string \<Rightarrow> ChatMsg" where
  "user_msg s = \<lparr>cm_Role = RoleUser, cm_Content = s, cm_ToolCalls = [], cm_ToolCallID = '''', cm_Finish = ''''\<rparr>"

definition tool_msg :: "string \<Rightarrow> string \<Rightarrow> ChatMsg" where
  "tool_msg s i = \<lparr>cm_Role = RoleTool, cm_Content = s, cm_ToolCalls = [], cm_ToolCallID = i, cm_Finish = ''''\<rparr>"

definition assistant_msg :: "string \<Rightarrow> ChatMsg" where
  "assistant_msg s = \<lparr>cm_Role = RoleAssistant, cm_Content = s, cm_ToolCalls = [], cm_ToolCallID = '''', cm_Finish = ''''\<rparr>"

definition isResponseTruncated :: "ChatMsg \<Rightarrow> bool" where
  "isResponseTruncated resp \<longleftrightarrow> cm_Finish resp = ''length''"

section \<open>Bounds on what is sent\<close>

definition maxTrimmedToolResult :: nat where "maxTrimmedToolResult = 80"
definition maxRecentToolResult :: nat where "maxRecentToolResult = 12000"

definition middle_marker :: string where
  "middle_marker = newline @ ''[... truncated middle ...]'' @ newline"

definition truncateToolResult :: "string \<Rightarrow> nat \<Rightarrow> string" where
  "truncateToolResult s max_len =
     (if max_len = 0 \<or> length s \<le> max_len then s
      else
        (let headSize = max_len div 3; tailSize = max_len - headSize - length middle_marker
         in take headSize s @ middle_marker @ drop (length s - tailSize) s))"

definition trim_result :: "ChatMsg \<Rightarrow> ChatMsg" where
  "trim_result m =
     (if cm_Role m = RoleTool \<and> length (cm_Content m) > maxTrimmedToolResult
      then tool_msg (take maxTrimmedToolResult (cm_Content m) @ newline @ ''[... truncated]'') (cm_ToolCallID m)
      else m)"

text \<open>The messages before the last answer of the model; all of them are kept when there is none.\<close>

definition trimOldToolResults :: "ChatMsg list \<Rightarrow> ChatMsg list" where
  "trimOldToolResults msgs =
     (let recent = length (takeWhile (\<lambda>m. cm_Role m \<noteq> RoleAssistant) (rev msgs))
      in if recent = length msgs then msgs
         else map trim_result (take (length msgs - recent - 1) msgs) @ drop (length msgs - recent - 1) msgs)"

definition call_cost :: "ToolCall \<Rightarrow> int" where
  "call_cost tc = int (length (tc_Arguments tc) div 4) + int (length (tc_ID tc))"

definition text_cost :: "ChatMsg \<Rightarrow> int" where
  "text_cost m = int (length (cm_Content m) div 4) + 4"

definition msg_cost :: "ChatMsg \<Rightarrow> int" where
  "msg_cost m = text_cost m + sum_list (map call_cost (cm_ToolCalls m))"

definition estimateTokens :: "ChatMsg list \<Rightarrow> int" where
  "estimateTokens msgs = sum_list (map msg_cost msgs)"

text \<open>How many of the messages, from the last, fit into what remains of the budget.\<close>

fun fitting :: "int \<Rightarrow> ChatMsg list \<Rightarrow> nat" where
  "fitting remaining [] = 0"
| "fitting remaining (m # ms) = (if remaining - msg_cost m < 0 then 0 else Suc (fitting (remaining - msg_cost m) ms))"

definition dedupStrings :: "string list \<Rightarrow> string list" where
  "dedupStrings ss = foldl (\<lambda>out s. if s \<in> set out then out else out @ [s]) [] ss"

definition compact_summary :: "ChatMsg list \<Rightarrow> string" where
  "compact_summary dropped =
     (let toolNames = dedupStrings (concat (map (\<lambda>m. map tc_Name (cm_ToolCalls m)) dropped))
      in ''['' @ json_int (int (length (filter (\<lambda>m. cm_Role m = RoleAssistant) dropped))) @ '' earlier iteration(s)''
         @ (if toolNames \<noteq> [] then '' using: '' @ join '', '' toolNames else '''')
         @ '' '' @ em_dash @ '' history compacted to stay within context budget]'')"

definition compactToolHistory :: "ChatMsg list \<Rightarrow> int \<Rightarrow> ChatMsg list" where
  "compactToolHistory msgs budget =
     (if length msgs \<le> 2 then msgs
      else
        (let remaining = budget - sum_list (map text_cost (take 2 msgs));
             keepFrom = length msgs - fitting remaining (rev (drop 2 msgs))
         in if keepFrom \<le> 2 then msgs
            else take 2 msgs @ [user_msg (compact_summary (drop 2 (take keepFrom msgs)))] @ drop keepFrom msgs))"

definition isContextOverflowError :: "string \<Rightarrow> bool" where
  "isContextOverflowError msg \<longleftrightarrow>
     contains msg ''context limit'' \<or> contains msg ''context length'' \<or> contains msg ''maximum context'' \<or>
     contains msg ''max_tokens'' \<and> contains msg ''exceed''"

section \<open>File blocks collected on the way\<close>

definition fileBlockPaths :: "FileBlock list \<Rightarrow> string" where
  "fileBlockPaths blocks =
     (let paths = map fb_Path blocks
      in if length paths \<le> 8 then join '', '' paths
         else join '', '' (take 8 paths) @ '', +'' @ json_int (int (length paths - 8)) @ '' more'')"

definition block_text :: "FileBlock \<Rightarrow> string" where
  "block_text b = btick @ btick @ btick @ ''file:'' @ fb_Path b @ newline @ fb_Content b @ newline @ btick @ btick @ btick @ newline @ newline"

definition latest_content :: "FileBlock list \<Rightarrow> string \<Rightarrow> string option" where
  "latest_content blocks = map_of (rev (map (\<lambda>b. (fb_Path b, fb_Content b)) blocks))"

definition stripRedundantBlocks :: "ChatMsg \<Rightarrow> FileBlock list \<Rightarrow> ChatMsg" where
  "stripRedundantBlocks resp accumulated =
     (case ParseFileBlocks (cm_Content resp) of
        (finalBlocks, summary) \<Rightarrow>
          if finalBlocks = [] then resp
          else
            (let kept = filter (\<lambda>b. case latest_content accumulated (fb_Path b) of
                     None \<Rightarrow> True
                   | Some prev \<Rightarrow> trim_space (fb_Content b) \<noteq> trim_space prev) finalBlocks
             in if length finalBlocks = length kept then resp
                else resp\<lparr>cm_Content := trim_space ((if summary \<noteq> '''' then trim_space summary @ newline @ newline else '''')
                       @ concat (map block_text kept))\<rparr>))"

text \<open>The collected blocks that the final answer has no block for, the first of each path.\<close>

fun missing_blocks :: "string set \<Rightarrow> FileBlock list \<Rightarrow> FileBlock list" where
  "missing_blocks paths [] = []"
| "missing_blocks paths (b # bs) =
     (if fb_Path b \<in> paths then missing_blocks paths bs else b # missing_blocks (insert (fb_Path b) paths) bs)"

definition mergeAccumulatedBlocks :: "ChatMsg \<Rightarrow> FileBlock list \<Rightarrow> ChatMsg" where
  "mergeAccumulatedBlocks resp accumulated =
     (if accumulated = [] then resp
      else
        (let merged = missing_blocks (set (map fb_Path (fst (ParseFileBlocks (cm_Content resp))))) accumulated
         in if merged = [] then resp
            else resp\<lparr>cm_Content := concat (map block_text merged) @ cm_Content resp\<rparr>))"

definition uniqueFilePaths :: "FileBlock list \<Rightarrow> string list" where
  "uniqueFilePaths blocks = dedupStrings (filter (\<lambda>p. p \<noteq> '''') (map fb_Path blocks))"

definition latestBlockContent :: "FileBlock list \<Rightarrow> string \<Rightarrow> string" where
  "latestBlockContent blocks path = (case latest_content blocks path of Some c \<Rightarrow> c | None \<Rightarrow> '''')"

definition synthesizeFinalFromAccumulated :: "FileBlock list \<Rightarrow> ChatMsg" where
  "synthesizeFinalFromAccumulated accumulated =
     (let files = uniqueFilePaths accumulated
      in assistant_msg (trim_space
          (''Summary: Finalized from materialized scratch files after tool-loop convergence.'' @ newline
           @ ''Files: '' @ join '', '' files @ newline
           @ ''Verify: Previously executed in tool loop; no additional finalization commands run.'' @ newline
           @ ''Commit: no-op'' @ newline @ newline
           @ concat (map (\<lambda>f. block_text \<lparr>fb_Path = f, fb_Content = latestBlockContent accumulated f\<rparr>) files))))"

section \<open>Commands that only read\<close>

text \<open>\<open>strings.Split\<close> with a separator of more than one character.\<close>

fun split_by :: "string \<Rightarrow> string \<Rightarrow> string \<Rightarrow> string list" where
  "split_by sep acc [] = [acc]"
| "split_by sep acc (c # s) =
     (if sep \<noteq> '''' \<and> has_prefix (c # s) sep then acc # split_by sep '''' (drop (length sep - 1) s)
      else split_by sep (acc @ [c]) s)"

definition hasWriteRedirection :: "string \<Rightarrow> bool" where
  "hasWriteRedirection cmd \<longleftrightarrow>
     contains cmd ''<<'' \<or>
     list_ex (\<lambda>tok. contains tok ''>'' \<and>
       tok \<notin> {''2>&1'', ''1>&2'', ''2>/dev/null'', ''1>/dev/null'', ''>/dev/null'', ''&>/dev/null''}) (fields_space '''' cmd)"

definition readOnlyCommands :: "string list" where
  "readOnlyCommands = [''ls'', ''find'', ''grep'', ''rg'', ''head'', ''tail'', ''wc'', ''cat'', ''curl'', ''test'', ''file'', ''diff'', ''stat'',
     ''pwd'', ''sleep'', ''true'']"

definition reads_only :: "string \<Rightarrow> bool" where
  "reads_only p \<longleftrightarrow>
     \<not> hasWriteRedirection p \<and>
     (case fields_space '''' p of
        [] \<Rightarrow> True
      | f # _ \<Rightarrow> path_base f = ''cd'' \<or> path_base f \<in> set readOnlyCommands)"

text \<open>The simple commands of a line: it is split at semicolons and newlines, then at \<open>&&\<close>, then at \<open>||\<close>.\<close>

definition simple_commands :: "string \<Rightarrow> string list" where
  "simple_commands cmd =
     concat (map (\<lambda>seg. concat (map (\<lambda>part. filter (\<lambda>p. p \<noteq> '''') (map trim_space (split_by ''||'' '''' part)))
         (filter (\<lambda>p. p \<noteq> '''') (map trim_space (split_by ''&&'' '''' seg)))))
       (filter (\<lambda>seg. seg \<noteq> '''') (split_on CHR '';'' (map (\<lambda>c. if [c] = newline then CHR '';'' else c) cmd))))"

definition isReadOnlyCommand :: "string \<Rightarrow> bool" where
  "isReadOnlyCommand cmd =
     (let cmd = trim_space cmd
      in if cmd = '''' then False
         else if filter (\<lambda>seg. seg \<noteq> '''') (split_on CHR '';'' (map (\<lambda>c. if [c] = newline then CHR '';'' else c) cmd)) = [] then False
         else list_all reads_only (simple_commands cmd))"

definition extractShellCommand :: "(string \<Rightarrow> string option) \<Rightarrow> string \<Rightarrow> string" where
  "extractShellCommand decode args = (case decode args of Some c \<Rightarrow> c | None \<Rightarrow> '''')"

definition isVerificationOnly :: "(string \<Rightarrow> string option) \<Rightarrow> ToolCall list \<Rightarrow> bool" where
  "isVerificationOnly decode toolCalls \<longleftrightarrow>
     toolCalls \<noteq> [] \<and> list_all (\<lambda>tc. tc_Name tc = ''shell'' \<and> isReadOnlyCommand (extractShellCommand decode (tc_Arguments tc))) toolCalls"

section \<open>The scratch directory\<close>

text \<open>The tree of a directory in lexical order, as far as it can be read.\<close>

datatype entry = FileEntry string | DirEntry string "entry list"

definition listing_noise :: "string list" where
  "listing_noise = [''node_modules/'', ''_requests/'', ''.git/'', ''dist/'', ''build/'', ''.next/'', ''__pycache__/'', ''vendor/'',
     ''.cache/'', ''coverage/'', ''.vite/'', ''.tool-results/'']"

definition is_noise_path :: "string \<Rightarrow> bool" where
  "is_noise_path rel \<longleftrightarrow> list_ex (contains (to_lower rel @ ''/'')) listing_noise"

fun entry_size :: "entry \<Rightarrow> nat" and entries_size :: "entry list \<Rightarrow> nat" where
  "entry_size (FileEntry _) = 1"
| "entry_size (DirEntry _ es) = Suc (entries_size es)"
| "entries_size [] = 0"
| "entries_size (e # es) = Suc (entry_size e + entries_size es)"

text \<open>The walk below \<open>pre\<close>, whose entries have \<open>depth\<close> separators in their names; the answer tells whether the walk was stopped.\<close>

function walk :: "string \<Rightarrow> nat \<Rightarrow> entry list \<Rightarrow> string list \<Rightarrow> string list \<times> bool" where
  "walk pre depth [] paths = (paths, False)"
| "walk pre depth (FileEntry n # es) paths =
     (if depth \<ge> 5 \<or> is_noise_path (pre @ n) \<or> to_lower n \<in> set noiseFiles then walk pre depth es paths
      else
        (let paths = paths @ [pre @ n]
         in if length paths \<ge> 50 then (paths, True) else walk pre depth es paths))"
| "walk pre depth (DirEntry n sub # es) paths =
     (if depth \<ge> 5 \<or> is_noise_path (pre @ n) then walk pre depth es paths
      else
        (let paths = (if to_lower n \<in> set noiseFiles then paths else paths @ [pre @ n @ ''/''])
         in if to_lower n \<notin> set noiseFiles \<and> length paths \<ge> 50 then (paths, True)
            else (case walk (pre @ n @ ''/'') (Suc depth) sub paths of
                    (paths, True) \<Rightarrow> (paths, True)
                  | (paths, False) \<Rightarrow> walk pre depth es paths)))"
  by pat_completeness auto
termination by (relation "measure (\<lambda>(pre, depth, es, paths). entries_size es)") auto

definition listing_lines :: "string list \<Rightarrow> string \<Rightarrow> string" where
  "listing_lines prevParts p =
     (let clean = (if has_suffix p ''/'' then butlast p else p); parts = split_on slash clean
      in concat (map (\<lambda>i. indent i @ parts ! i @ ''/'' @ newline) [common_len prevParts parts ..< length parts - 1])
         @ indent (length parts - 1) @ last parts @ (if has_suffix p ''/'' then ''/'' else '''') @ newline)"

fun listing_from :: "string list \<Rightarrow> string list \<Rightarrow> string" where
  "listing_from prevParts [] = ''''"
| "listing_from prevParts (p # ps) =
     listing_lines prevParts p @ listing_from (split_on slash (if has_suffix p ''/'' then butlast p else p)) ps"

definition scratchListing :: "entry list \<Rightarrow> string" where
  "scratchListing tree = listing_from [] (sort (fst (walk '''' 0 tree [])))"

text \<open>\<open>cwd\<close> is the working directory of the process, if it can be told.\<close>

definition path_abs :: "string option \<Rightarrow> string \<Rightarrow> string option" where
  "path_abs cwd p = (if is_abs p then Some (path_clean p) else map_option (\<lambda>d. path_join2 d p) cwd)"

definition safeScratchPath :: "string option \<Rightarrow> string \<Rightarrow> string \<Rightarrow> string option" where
  "safeScratchPath cwd scratchDir relPath =
     (case path_abs cwd (path_join2 scratchDir relPath) of
        None \<Rightarrow> None
      | Some full \<Rightarrow>
          (case path_abs cwd scratchDir of
             None \<Rightarrow> None
           | Some base \<Rightarrow>
               (case path_rel base full of
                  None \<Rightarrow> None
                | Some rel \<Rightarrow> if has_prefix rel ''..'' then None else Some full)))"

definition manifests :: "string list" where
  "manifests = [''package.json'', ''go.mod'', ''Cargo.toml'', ''pyproject.toml'', ''requirements.txt'', ''pom.xml'', ''build.gradle'', ''Makefile'']"

definition detectProjectRoot :: "(string \<Rightarrow> bool) \<Rightarrow> (string \<times> bool) list option \<Rightarrow> string \<Rightarrow> string" where
  "detectProjectRoot exists entries scratchDir =
     (if list_ex (\<lambda>m. exists (path_join2 scratchDir m)) manifests then scratchDir
      else (case entries of
          None \<Rightarrow> scratchDir
        | Some es \<Rightarrow>
            (case filter (\<lambda>(n, isDir). isDir \<and> \<not> has_prefix n ''.'' \<and>
                  list_ex (\<lambda>m. exists (path_join2 (path_join2 scratchDir n) m)) manifests) es of
               [] \<Rightarrow> scratchDir
             | (n, _) # _ \<Rightarrow> path_join2 scratchDir n)))"

end
