(* ===== verification/ToolLoop.thy ===== *)
theory ToolLoop
  imports ToolText
begin

text \<open>
  The loop between the model and its tools (internal/agent/agent.go, generateWithTools). Everything outside, the model, the
  tools, the meter, the scratch directory and the verification command, is a record of functions over a world \<open>'w\<close> that they may change,
  so a statement about the loop holds for every model and every tool.
\<close>

section \<open>The world of the loop\<close>

record VerifyConfig =
  vc_Command :: string
  vc_MaxRetries :: int
  vc_BonusIterations :: int
  vc_Timeout :: int

record 'w LoopEnv =
  le_ShellOnly :: bool
  le_Verify :: "VerifyConfig option"
  le_PromptCache :: bool
  le_ContextLimit :: int
  le_MaxOutputTokens :: int
  le_ScratchDir :: string
  le_Cwd :: "string option"
  le_Command :: "string \<Rightarrow> string option"
  le_Generate :: "ChatMsg list \<Rightarrow> 'w \<Rightarrow> 'w \<times> (string + ChatMsg)"
  le_Execute :: "ToolCall \<Rightarrow> 'w \<Rightarrow> 'w \<times> string \<times> string option"
  le_Budget :: "('w \<Rightarrow> string option) option"
  le_RunCommand :: "int \<Rightarrow> string \<Rightarrow> string \<Rightarrow> 'w \<Rightarrow> 'w \<times> string \<times> string option"
  le_Exists :: "string \<Rightarrow> 'w \<Rightarrow> bool"
  le_ReadDir :: "'w \<Rightarrow> (string \<times> bool) list option"
  le_ReadFile :: "string \<Rightarrow> 'w \<Rightarrow> string option"
  le_WriteFile :: "string \<Rightarrow> string \<Rightarrow> 'w \<Rightarrow> 'w"
  le_Tree :: "'w \<Rightarrow> entry list"

definition contextBudget :: "'w LoopEnv \<Rightarrow> int" where
  "contextBudget env =
     (if le_ContextLimit env \<le> 0 then 0
      else (let b = le_ContextLimit env - le_MaxOutputTokens env in if b < 0 then 0 else b))"

definition maxIterationsForScope :: "string \<Rightarrow> int" where
  "maxIterationsForScope scope = (if scope = ''small'' then 10 else if scope = ''large'' then 75 else 30)"

definition verifyTimeout :: "VerifyConfig \<Rightarrow> int" where
  "verifyTimeout vc = (if vc_Timeout vc > 0 then vc_Timeout vc else 120000000000)"

definition verifyMaxRetries :: "VerifyConfig \<Rightarrow> nat" where
  "verifyMaxRetries vc = (if vc_MaxRetries vc > 0 then nat (vc_MaxRetries vc) else 2)"

definition verifyBonusIterations :: "VerifyConfig \<Rightarrow> nat" where
  "verifyBonusIterations vc = (if vc_BonusIterations vc > 0 then nat (vc_BonusIterations vc) else 5)"

definition runVerify :: "'w LoopEnv \<Rightarrow> 'w \<Rightarrow> 'w \<times> bool \<times> string" where
  "runVerify env w =
     (case le_Verify env of
        None \<Rightarrow> (w, True, '''')
      | Some vc \<Rightarrow>
          if vc_Command vc = '''' then (w, True, '''')
          else
            (let projectDir = detectProjectRoot (\<lambda>p. le_Exists env p w) (le_ReadDir env w) (le_ScratchDir env)
             in case le_RunCommand env (verifyTimeout vc) projectDir (vc_Command vc) w of
                  (w, raw, None) \<Rightarrow> (w, True, '''')
                | (w, raw, Some e) \<Rightarrow>
                    (w, False, truncateToolResult (if raw = '''' then ''Error: '' @ e else raw) 4000)))"

definition materializeBlocksToScratch :: "'w LoopEnv \<Rightarrow> FileBlock list \<Rightarrow> 'w \<Rightarrow> 'w" where
  "materializeBlocksToScratch env blocks w =
     foldl (\<lambda>w b. case safeScratchPath (le_Cwd env) (le_ScratchDir env) (fb_Path b) of
         None \<Rightarrow> w
       | Some dest \<Rightarrow> le_WriteFile env dest (fb_Content b) w) w blocks"

definition captureFromScratch :: "'w LoopEnv \<Rightarrow> 'w \<Rightarrow> FileBlock list \<Rightarrow> FileBlock list" where
  "captureFromScratch env w blocks =
     map (\<lambda>b. case safeScratchPath (le_Cwd env) (le_ScratchDir env) (fb_Path b) of
         None \<Rightarrow> b
       | Some p \<Rightarrow> (case le_ReadFile env p w of None \<Rightarrow> b | Some data \<Rightarrow> b\<lparr>fb_Content := data\<rparr>)) blocks"

section \<open>One iteration\<close>

record 'w tool_state =
  ts_input :: "ChatMsg list"
  ts_blocks :: "FileBlock list"
  ts_streak :: nat
  ts_calls :: nat
  ts_verify :: nat
  ts_redir :: nat
  ts_i :: nat
  ts_max :: nat
  ts_world :: 'w

text \<open>An iteration is followed by another, or by the finalization, or it ends the loop: the number of tool calls, and the error or the answer with whether verification failed.\<close>

datatype 'w tool_result = Again "'w tool_state" | Finalize "'w tool_state" | Finished 'w nat "string + ChatMsg \<times> bool"

text \<open>Trimming and compaction before a call of the model.\<close>

definition prepared_input :: "'w LoopEnv \<Rightarrow> nat \<Rightarrow> ChatMsg list \<Rightarrow> ChatMsg list" where
  "prepared_input env i msgs =
     (let msgs = (if i > 0 \<and> \<not> le_PromptCache env then trimOldToolResults msgs else msgs);
          b = contextBudget env;
          msgs = (if i \<ge> 4 \<and> b > 0 \<and> estimateTokens msgs > b * 3 div 4 then compactToolHistory msgs (b * 3 div 4) else msgs)
      in if b > 0 \<and> estimateTokens msgs > b then compactToolHistory msgs b else msgs)"

text \<open>A call of the model, repeated with a compacted conversation when the context was too long.\<close>

definition call_model :: "'w LoopEnv \<Rightarrow> ChatMsg list \<Rightarrow> 'w \<Rightarrow> 'w \<times> ChatMsg list \<times> (string + ChatMsg)" where
  "call_model env msgs w =
     (case le_Generate env msgs w of
        (w1, Inr resp) \<Rightarrow> (w1, msgs, Inr resp)
      | (w1, Inl e) \<Rightarrow>
          (let compacted = compactToolHistory msgs (contextBudget env * 3 div 4)
           in if contextBudget env > 0 \<and> isContextOverflowError e \<and> length compacted < length msgs
              then (case le_Generate env compacted w1 of
                      (w2, Inr resp) \<Rightarrow> (w2, compacted, Inr resp)
                    | (w2, Inl e2) \<Rightarrow> (w2, msgs, Inl e2))
              else (w1, msgs, Inl e)))"

definition shell_nudge :: "FileBlock list \<Rightarrow> string" where
  "shell_nudge blocks =
     (if blocks \<noteq> [] then
        ''[SHELL-ONLY MODE] You produced file blocks ('' @ fileBlockPaths blocks @ '') but those are IGNORED. ''
        @ ''You MUST use the shell tool to edit files directly in $SCRATCH_DIR/repo. ''
        @ ''Use python3 -c or sed -i '' @ squote @ squote @ '' to apply the same changes via shell commands. ''
        @ ''Do NOT produce '' @ btick @ btick @ btick @ ''file:path'' @ btick @ btick @ btick @ '' blocks.''
      else
        ''[SHELL-ONLY MODE] You MUST use the shell tool to make all file changes. ''
        @ ''Do NOT produce '' @ btick @ btick @ btick @ ''file:path'' @ btick @ btick @ btick @ '' blocks '' @ em_dash @ '' they will be IGNORED. ''
        @ ''Use shell commands like python3 -c or sed -i '' @ squote @ squote @ '' to edit files directly in $SCRATCH_DIR/repo.'')"

definition verify_feedback :: "VerifyConfig \<Rightarrow> nat \<Rightarrow> string \<Rightarrow> string" where
  "verify_feedback vc attempt result =
     ''[AUTOMATIC VERIFICATION FAILED '' @ em_dash @ '' attempt '' @ json_int (int attempt) @ ''/'' @ json_int (int (verifyMaxRetries vc)) @ '']'' @ newline
     @ ''Your output has errors. Fix them before finalizing.'' @ newline @ newline @ ''Verification command: '' @ vc_Command vc @ newline
     @ ''Output:'' @ newline @ result @ newline @ newline
     @ ''Fix the errors above. Do not explore docs or add features '' @ em_dash @ '' focus exclusively on fixing these errors.''"

text \<open>An answer without tool calls: it is redirected, sent back with the errors of the verification, or the result.\<close>

definition final_answer :: "'w LoopEnv \<Rightarrow> ChatMsg \<Rightarrow> 'w tool_state \<Rightarrow> 'w tool_result" where
  "final_answer env resp st =
     (let fbs = fst (ParseFileBlocks (cm_Content resp))
      in if le_ShellOnly env \<and> ts_redir st < 2 \<and> (fbs \<noteq> [] \<or> ts_calls st = 0)
         then Again (st\<lparr>ts_redir := ts_redir st + 1, ts_input := ts_input st @ [resp, user_msg (shell_nudge fbs)],
                        ts_max := ts_i st + 1 + 5, ts_i := ts_i st + 1\<rparr>)
         else
           (case (case le_Verify env of
                    None \<Rightarrow> (ts_world st, None)
                  | Some vc \<Rightarrow>
                      if ts_verify st < verifyMaxRetries vc
                      then (case runVerify env (ts_world st) of (w, passed, result) \<Rightarrow> (w, if passed then None else Some (vc, result)))
                      else (ts_world st, None)) of
              (w, Some (vc, result)) \<Rightarrow>
                Again (st\<lparr>ts_world := w, ts_verify := ts_verify st + 1,
                          ts_input := ts_input st @ [resp, user_msg (verify_feedback vc (ts_verify st + 1) result)],
                          ts_max := ts_i st + 1 + verifyBonusIterations vc, ts_i := ts_i st + 1\<rparr>)
            | (w, None) \<Rightarrow>
                (let blocks = captureFromScratch env w (ts_blocks st);
                     resp = (if ts_blocks st \<noteq> [] then stripRedundantBlocks resp blocks else resp)
                 in Finished w (ts_calls st) (Inr (mergeAccumulatedBlocks resp blocks, False)))))"

definition produced_note :: "FileBlock list \<Rightarrow> string" where
  "produced_note blocks =
     newline @ newline @ ''[Produced '' @ json_int (int (length blocks)) @ '' file(s): '' @ fileBlockPaths blocks
     @ '' '' @ em_dash @ '' materialized to scratch. Only produce file blocks for files you need to CHANGE.]''"

text \<open>The tool calls of an answer, in order; a failed call is answered with its error only.\<close>

fun run_tools :: "'w LoopEnv \<Rightarrow> ToolCall list \<Rightarrow> 'w \<Rightarrow> 'w \<times> ChatMsg list" where
  "run_tools env [] w = (w, [])"
| "run_tools env (tc # tcs) w =
     (case le_Execute env tc w of
        (w1, result, e) \<Rightarrow>
          (let result = (case e of None \<Rightarrow> result | Some x \<Rightarrow> ''Error: '' @ x)
           in case run_tools env tcs w1 of
                (w2, ms) \<Rightarrow> (w2, tool_msg (truncateToolResult result maxRecentToolResult) (tc_ID tc) # ms)))"

definition with_tip :: "ChatMsg list \<Rightarrow> ChatMsg list" where
  "with_tip msgs =
     butlast msgs @ [tool_msg (cm_Content (last msgs) @ newline @ newline
       @ ''[Tip: batch multiple commands in one shell call to save time, e.g., cmd1 && cmd2 && cmd3]'') (cm_ToolCallID (last msgs))]"

text \<open>An answer with tool calls: its file blocks are taken out and written to the scratch directory before the calls are run.\<close>

definition tool_answer :: "'w LoopEnv \<Rightarrow> ChatMsg \<Rightarrow> 'w tool_state \<Rightarrow> 'w tool_result" where
  "tool_answer env resp st =
     (case (if le_ShellOnly env then ([], '''') else ParseFileBlocks (cm_Content resp)) of
        (blocks, summary) \<Rightarrow>
          (let resp' = (if blocks = [] then resp else resp\<lparr>cm_Content := summary @ produced_note blocks\<rparr>);
               all = ts_blocks st @ blocks
           in case run_tools env (cm_ToolCalls resp) (materializeBlocksToScratch env blocks (ts_world st)) of
                (w, results) \<Rightarrow>
                  (let msgs = ts_input st @ resp' # results;
                       streak = (if all \<noteq> [] \<and> isVerificationOnly (le_Command env) (cm_ToolCalls resp) \<and> blocks = []
                                 then ts_streak st + 1 else 0);
                       st' = st\<lparr>ts_input := msgs, ts_blocks := all, ts_streak := streak,
                                ts_calls := ts_calls st + length (cm_ToolCalls resp), ts_world := w\<rparr>
                   in if streak \<ge> 3 then Finalize st'
                      else Again (st'\<lparr>ts_input := (if ts_i st > 0 \<and> length (cm_ToolCalls resp) = 1 then with_tip msgs else msgs),
                                      ts_i := ts_i st + 1\<rparr>))))"

definition tool_step :: "'w LoopEnv \<Rightarrow> 'w tool_state \<Rightarrow> 'w tool_result" where
  "tool_step env st =
     (case (if ts_i st > 0 then (case le_Budget env of None \<Rightarrow> None | Some f \<Rightarrow> f (ts_world st)) else None) of
        Some e \<Rightarrow> Finished (ts_world st) (ts_calls st) (Inl (''budget exceeded during tool loop: '' @ e))
      | None \<Rightarrow>
          (case call_model env (prepared_input env (ts_i st) (ts_input st)) (ts_world st) of
             (w, msgs, Inl e) \<Rightarrow> Finished w (ts_calls st) (Inl e)
           | (w, msgs, Inr resp) \<Rightarrow>
               (let st = st\<lparr>ts_input := msgs, ts_world := w\<rparr>
                in if cm_ToolCalls resp = [] then final_answer env resp st else tool_answer env resp st)))"

section \<open>The end of the loop\<close>

definition last_call :: "bool \<Rightarrow> string" where
  "last_call shellOnly =
     (if shellOnly then
        ''You have reached the iteration limit. You have ONE final chance to apply your fix. ''
        @ ''Use the shell tool NOW to make the edit (python3 -c or sed -i '' @ squote @ squote @ ''). ''
        @ ''If you already made the edit, run '' @ btick @ ''git diff'' @ btick @ '' to confirm. ''
        @ ''Do NOT produce '' @ btick @ btick @ btick @ ''file:path'' @ btick @ btick @ btick @ '' blocks '' @ em_dash @ '' they are ignored.''
      else
        ''You have reached the iteration limit. Submit your best work now '' @ em_dash @ '' do not call tools. ''
        @ ''Return a concise summary of what you implemented and what remains incomplete, ''
        @ ''plus '' @ btick @ btick @ btick @ ''file:path'' @ btick @ btick @ btick @ '' blocks for all files you created or modified. ''
        @ ''Partial working output is always better than no output.'')"

definition failure_tag :: "VerifyConfig \<Rightarrow> string \<Rightarrow> string" where
  "failure_tag vc result =
     ''## VERIFICATION FAILED'' @ newline @ newline @ ''Verification command: '' @ vc_Command vc @ newline @ ''Output:'' @ newline @ result @ newline @ newline
     @ ''---'' @ newline @ newline"

text \<open>Calls in the answer to the last request are run only when the agent works with the shell alone; their results are passed on as they are.\<close>

fun run_last_tools :: "'w LoopEnv \<Rightarrow> ToolCall list \<Rightarrow> 'w \<Rightarrow> 'w \<times> ChatMsg list" where
  "run_last_tools env [] w = (w, [])"
| "run_last_tools env (tc # tcs) w =
     (case le_Execute env tc w of
        (w1, result, _) \<Rightarrow> (case run_last_tools env tcs w1 of (w2, ms) \<Rightarrow> (w2, tool_msg result (tc_ID tc) # ms)))"

definition last_chance :: "'w LoopEnv \<Rightarrow> string \<Rightarrow> 'w tool_state \<Rightarrow> 'w \<times> nat \<times> (string + ChatMsg \<times> bool)" where
  "last_chance env tag st =
     (let msgs = ts_input st @ [user_msg (last_call (le_ShellOnly env))];
          tagged = (\<lambda>m. (m\<lparr>cm_Content := tag @ cm_Content m\<rparr>, tag \<noteq> ''''))
      in case le_Generate env msgs (ts_world st) of
           (w, Inl e) \<Rightarrow> (w, ts_calls st, Inl e)
         | (w, Inr resp) \<Rightarrow>
             if cm_ToolCalls resp = [] then (w, ts_calls st, Inr (tagged resp))
             else if le_ShellOnly env then
               (case run_last_tools env (cm_ToolCalls resp) w of
                  (w1, results) \<Rightarrow>
                    (case le_Generate env (msgs @ resp # results) w1 of
                       (w2, r) \<Rightarrow> (w2, ts_calls st + length (cm_ToolCalls resp),
                                   Inr (tagged (case r of Inr final_resp \<Rightarrow> final_resp | Inl _ \<Rightarrow> resp)))))
             else (w, ts_calls st, Inl (''tool loop did not converge after '' @ json_int (int (ts_max st)) @ '' iterations'')))"

definition finalize :: "'w LoopEnv \<Rightarrow> 'w tool_state \<Rightarrow> 'w \<times> nat \<times> (string + ChatMsg \<times> bool)" where
  "finalize env st =
     (case (case le_Verify env of
              None \<Rightarrow> (ts_world st, '''')
            | Some vc \<Rightarrow> (case runVerify env (ts_world st) of (w, passed, result) \<Rightarrow> (w, if passed then '''' else failure_tag vc result))) of
        (w, tag) \<Rightarrow>
          if ts_blocks st \<noteq> [] then
            (let m = synthesizeFinalFromAccumulated (captureFromScratch env w (ts_blocks st))
             in (w, ts_calls st, Inr (m\<lparr>cm_Content := tag @ cm_Content m\<rparr>, tag \<noteq> '''')))
          else last_chance env tag (st\<lparr>ts_world := w\<rparr>))"

section \<open>The loop\<close>

definition retries_allowed :: "'w LoopEnv \<Rightarrow> nat" where
  "retries_allowed env = (case le_Verify env of None \<Rightarrow> 0 | Some vc \<Rightarrow> verifyMaxRetries vc)"

definition bonus_allowed :: "'w LoopEnv \<Rightarrow> nat" where
  "bonus_allowed env = (case le_Verify env of None \<Rightarrow> 0 | Some vc \<Rightarrow> verifyBonusIterations vc)"

text \<open>What an iteration that is followed by another has used up.\<close>

lemma final_answer_again:
  "final_answer env resp st = Again st' \<Longrightarrow>
     ts_redir st < 2 \<and> ts_redir st' = Suc (ts_redir st) \<and> ts_verify st' = ts_verify st \<and> ts_i st' = Suc (ts_i st) \<and> ts_max st' = ts_i st + 6 \<or>
     ts_verify st < retries_allowed env \<and> ts_verify st' = Suc (ts_verify st) \<and> ts_redir st' = ts_redir st \<and> ts_i st' = Suc (ts_i st) \<and>
       ts_max st' = Suc (ts_i st) + bonus_allowed env"
  by (auto simp: final_answer_def Let_def retries_allowed_def bonus_allowed_def split: if_splits option.splits prod.splits)

lemma tool_answer_again:
  "tool_answer env resp st = Again st' \<Longrightarrow>
     ts_redir st' = ts_redir st \<and> ts_verify st' = ts_verify st \<and> ts_i st' = Suc (ts_i st) \<and> ts_max st' = ts_max st"
  by (auto simp: tool_answer_def Let_def split: if_splits prod.splits)

lemma tool_step_again:
  assumes "tool_step env st = Again st'"
  shows "ts_redir st < 2 \<and> ts_redir st' = Suc (ts_redir st) \<and> ts_verify st' = ts_verify st \<and> ts_i st' = Suc (ts_i st) \<and> ts_max st' = ts_i st + 6 \<or>
     ts_verify st < retries_allowed env \<and> ts_verify st' = Suc (ts_verify st) \<and> ts_redir st' = ts_redir st \<and> ts_i st' = Suc (ts_i st) \<and>
       ts_max st' = Suc (ts_i st) + bonus_allowed env \<or>
     ts_redir st' = ts_redir st \<and> ts_verify st' = ts_verify st \<and> ts_i st' = Suc (ts_i st) \<and> ts_max st' = ts_max st"
proof -
  obtain r where r: "call_model env (prepared_input env (ts_i st) (ts_input st)) (ts_world st) = r" by simp
  from assms obtain w msgs resp where
    "final_answer env resp (st\<lparr>ts_input := msgs, ts_world := w\<rparr>) = Again st' \<or> tool_answer env resp (st\<lparr>ts_input := msgs, ts_world := w\<rparr>) = Again st'"
    unfolding tool_step_def by (auto simp: Let_def split: option.splits prod.splits sum.splits if_splits)
  then show ?thesis
    using final_answer_again [of env resp "st\<lparr>ts_input := msgs, ts_world := w\<rparr>" st']
      tool_answer_again [of env resp "st\<lparr>ts_input := msgs, ts_world := w\<rparr>" st'] by auto
qed

function tool_loop :: "'w LoopEnv \<Rightarrow> 'w tool_state \<Rightarrow> 'w \<times> nat \<times> (string + ChatMsg \<times> bool)" where
  "tool_loop env st =
     (if ts_i st \<ge> ts_max st then finalize env st
      else (case tool_step env st of
              Again st' \<Rightarrow> tool_loop env st'
            | Finalize st' \<Rightarrow> finalize env st'
            | Finished w n r \<Rightarrow> (w, n, r)))"
  by pat_completeness auto
termination
proof (relation "measures [\<lambda>(env, st). 2 - ts_redir st + (retries_allowed env - ts_verify st), \<lambda>(env, st). ts_max st - ts_i st]", goal_cases)
  case (2 env st st')
  from tool_step_again [OF 2(2)] 2(1) show ?case by auto
qed simp

declare tool_loop.simps [simp del]

definition listing_hint :: "bool \<Rightarrow> string \<Rightarrow> string" where
  "listing_hint shellOnly listing =
     ''## Working Directory ($SCRATCH_DIR)'' @ newline
     @ (if shellOnly then ''These files already exist in your working directory.''
        else ''These files already exist in your working directory. ''
          @ ''Use paths relative to this root when producing '' @ btick @ btick @ btick @ ''file:path'' @ btick @ btick @ btick @ '' blocks.'')
     @ newline @ newline @ btick @ btick @ btick @ newline @ listing @ btick @ btick @ btick"

definition start_tools :: "'w LoopEnv \<Rightarrow> ChatMsg list \<Rightarrow> int \<Rightarrow> 'w \<Rightarrow> 'w tool_state" where
  "start_tools env msgs maxIter w =
     (let listing = scratchListing (le_Tree env w)
      in \<lparr>ts_input = (if listing \<noteq> '''' then msgs @ [user_msg (listing_hint (le_ShellOnly env) listing)] else msgs),
          ts_blocks = [], ts_streak = 0, ts_calls = 0, ts_verify = 0, ts_redir = 0, ts_i = 0,
          ts_max = (if maxIter \<le> 0 then 7 else nat maxIter), ts_world = w\<rparr>)"

definition generateWithTools :: "'w LoopEnv \<Rightarrow> bool \<Rightarrow> ChatMsg list \<Rightarrow> int \<Rightarrow> 'w \<Rightarrow> 'w \<times> nat \<times> (string + ChatMsg \<times> bool)" where
  "generateWithTools env hasExecutor msgs maxIter w =
     (if \<not> hasExecutor then
        (case le_Generate env msgs w of (w', Inl e) \<Rightarrow> (w', 0, Inl e) | (w', Inr resp) \<Rightarrow> (w', 0, Inr (resp, False)))
      else tool_loop env (start_tools env msgs maxIter w))"

end
