(* ===== verification/ToolProps.thy ===== *)
theory ToolProps
  imports ToolLoop
begin

text \<open>
  What holds of the loop between model and tools for every model and every tool: it ends within a number of model calls fixed in
  advance, the conversation it shows the model keeps the task and the answers to the calls, and no collected file is lost.
\<close>

section \<open>The conversations the model is shown\<close>

text \<open>The environment that keeps a record of every conversation given to the model.\<close>

definition recorded :: "'w LoopEnv \<Rightarrow> (ChatMsg list list \<times> 'w) LoopEnv" where
  "recorded env =
     \<lparr>le_ShellOnly = le_ShellOnly env, le_Verify = le_Verify env, le_PromptCache = le_PromptCache env,
      le_ContextLimit = le_ContextLimit env, le_MaxOutputTokens = le_MaxOutputTokens env, le_ScratchDir = le_ScratchDir env,
      le_Cwd = le_Cwd env, le_Command = le_Command env,
      le_Generate = (\<lambda>ms (log, w). case le_Generate env ms w of (w', r) \<Rightarrow> ((log @ [ms], w'), r)),
      le_Execute = (\<lambda>tc (log, w). case le_Execute env tc w of (w', r) \<Rightarrow> ((log, w'), r)),
      le_Budget = map_option (\<lambda>f (log, w). f w) (le_Budget env),
      le_RunCommand = (\<lambda>t d c (log, w). case le_RunCommand env t d c w of (w', r) \<Rightarrow> ((log, w'), r)),
      le_Exists = (\<lambda>p (log, w). le_Exists env p w), le_ReadDir = (\<lambda>(log, w). le_ReadDir env w),
      le_ReadFile = (\<lambda>p (log, w). le_ReadFile env p w), le_WriteFile = (\<lambda>p d (log, w). (log, le_WriteFile env p d w)),
      le_Tree = (\<lambda>(log, w). le_Tree env w)\<rparr>"

lemma recorded_simps [simp]:
  "le_ShellOnly (recorded env) = le_ShellOnly env" "le_Verify (recorded env) = le_Verify env"
  "le_PromptCache (recorded env) = le_PromptCache env" "le_Command (recorded env) = le_Command env"
  "contextBudget (recorded env) = contextBudget env"
  "retries_allowed (recorded env) = retries_allowed env" "bonus_allowed (recorded env) = bonus_allowed env"
  "le_ScratchDir (recorded env) = le_ScratchDir env" "le_Cwd (recorded env) = le_Cwd env"
  by (simp_all add: recorded_def contextBudget_def retries_allowed_def bonus_allowed_def)

lemma recorded_generate [simp]:
  "le_Generate (recorded env) ms w = ((fst w @ [ms], fst (le_Generate env ms (snd w))), snd (le_Generate env ms (snd w)))"
  by (simp add: recorded_def split: prod.split)

lemma prepared_recorded [simp]: "prepared_input (recorded env) i ms = prepared_input env i ms"
  by (simp add: prepared_input_def Let_def)

text \<open>Only calls of the model add to the record.\<close>

lemma log_write [simp]: "fst (le_WriteFile (recorded env) p d w) = fst w"
  by (cases w) (simp add: recorded_def)

lemma log_execute: "le_Execute (recorded env) tc w = (w', r) \<Longrightarrow> fst w' = fst w"
  by (cases w) (auto simp: recorded_def split: prod.splits)

lemma log_command: "le_RunCommand (recorded env) t d c w = (w', r) \<Longrightarrow> fst w' = fst w"
  by (cases w) (auto simp: recorded_def split: prod.splits)

lemma log_verify: "runVerify (recorded env) w = (w', r) \<Longrightarrow> fst w' = fst w"
  by (auto simp: runVerify_def Let_def dest: log_command split: option.splits if_splits prod.splits)

lemma log_materialize [simp]: "fst (materializeBlocksToScratch (recorded env) blocks w) = fst w"
  unfolding materializeBlocksToScratch_def by (induction blocks arbitrary: w) (auto split: option.split)

lemma log_tools: "run_tools (recorded env) tcs w = (w', ms) \<Longrightarrow> fst w' = fst w"
  by (induction tcs arbitrary: w w' ms) (auto simp: Let_def dest!: log_execute split: prod.splits)

lemma log_last_tools: "run_last_tools (recorded env) tcs w = (w', ms) \<Longrightarrow> fst w' = fst w"
  by (induction tcs arbitrary: w w' ms) (auto dest!: log_execute split: prod.splits)

lemma log_final_answer:
  "final_answer (recorded env) resp st = Again st' \<Longrightarrow> fst (ts_world st') = fst (ts_world st)"
  "final_answer (recorded env) resp st = Finished w n r \<Longrightarrow> fst w = fst (ts_world st)"
  "final_answer (recorded env) resp st = Finalize st' \<Longrightarrow> False"
  by (auto simp: final_answer_def Let_def dest: log_verify split: if_splits option.splits prod.splits)

lemma log_tool_answer:
  "tool_answer (recorded env) resp st = Again st' \<Longrightarrow> fst (ts_world st') = fst (ts_world st)"
  "tool_answer (recorded env) resp st = Finalize st' \<Longrightarrow> fst (ts_world st') = fst (ts_world st)"
  "tool_answer (recorded env) resp st = Finished w n r \<Longrightarrow> False"
  by (auto simp: tool_answer_def Let_def dest: log_tools split: if_splits prod.splits)

section \<open>The number of calls\<close>

lemma call_model_log:
  "call_model (recorded env) msgs w = (w', msgs', r) \<Longrightarrow> \<exists>l. fst w' = fst w @ l \<and> length l \<le> 2"
  by (auto simp: call_model_def Let_def split: sum.splits if_splits)

text \<open>The iterations that are left at most: those of the budget, and those that redirections and failed verifications add.\<close>

definition iterations_left :: "'w LoopEnv \<Rightarrow> 'v tool_state \<Rightarrow> nat" where
  "iterations_left env st =
     (ts_max st - ts_i st) + 5 * (2 - ts_redir st) + bonus_allowed env * (retries_allowed env - ts_verify st)"

lemma iterations_left_step:
  assumes "tool_step env st = Again st'" and "ts_i st < ts_max st"
  shows "Suc (iterations_left env st') \<le> iterations_left env st"
proof -
  have diff: "Suc a \<le> b \<Longrightarrow> c * (b - Suc a) + c = c * (b - a)" for a b c :: nat
    by (metis Suc_diff_le diff_Suc_Suc mult_Suc_right add.commute)
  from tool_step_again [OF assms(1)] show ?thesis
  proof (elim disjE conjE)
    assume a: "ts_redir st < 2" "ts_redir st' = Suc (ts_redir st)" "ts_verify st' = ts_verify st" "ts_i st' = Suc (ts_i st)" "ts_max st' = ts_i st + 6"
    have "5 * (2 - Suc (ts_redir st)) + 5 = 5 * (2 - ts_redir st)" using a(1) by (intro diff) simp
    with a assms(2) show ?thesis by (simp add: iterations_left_def)
  next
    assume a: "ts_verify st < retries_allowed env" "ts_verify st' = Suc (ts_verify st)" "ts_redir st' = ts_redir st" "ts_i st' = Suc (ts_i st)"
      "ts_max st' = Suc (ts_i st) + bonus_allowed env"
    have "bonus_allowed env * (retries_allowed env - Suc (ts_verify st)) + bonus_allowed env = bonus_allowed env * (retries_allowed env - ts_verify st)"
      using a(1) by (intro diff) simp
    with a assms(2) show ?thesis by (simp add: iterations_left_def)
  next
    assume "ts_redir st' = ts_redir st" "ts_verify st' = ts_verify st" "ts_i st' = Suc (ts_i st)" "ts_max st' = ts_max st"
    with assms(2) show ?thesis by (simp add: iterations_left_def)
  qed
qed

lemma tool_step_log:
  "tool_step (recorded env) st = Again st' \<Longrightarrow> length (fst (ts_world st')) \<le> length (fst (ts_world st)) + 2"
  "tool_step (recorded env) st = Finalize st' \<Longrightarrow> length (fst (ts_world st')) \<le> length (fst (ts_world st)) + 2"
  "tool_step (recorded env) st = Finished w n r \<Longrightarrow> length (fst w) \<le> length (fst (ts_world st)) + 2"
  by (auto simp: tool_step_def Let_def dest!: call_model_log log_final_answer log_tool_answer
      split: option.splits prod.splits sum.splits if_splits)

lemma finalize_log: "finalize (recorded env) st = (w, n, r) \<Longrightarrow> length (fst w) \<le> length (fst (ts_world st)) + 2"
  by (auto simp: finalize_def last_chance_def Let_def dest!: log_verify log_last_tools
      split: option.splits prod.splits sum.splits if_splits)

lemma tool_loop_log:
  "tool_loop (recorded env) st = (w, n, r) \<Longrightarrow> length (fst w) \<le> length (fst (ts_world st)) + 2 * iterations_left env st + 2"
proof (induction "recorded env" st arbitrary: w n r rule: tool_loop.induct)
  case (1 st)
  show ?case
  proof (cases "ts_i st \<ge> ts_max st")
    case True
    with 1(2) finalize_log [of env st w n r] show ?thesis by (simp add: tool_loop.simps)
  next
    case False
    show ?thesis
    proof (cases "tool_step (recorded env) st")
      case (Again st')
      with 1(2) False have "tool_loop (recorded env) st' = (w, n, r)" by (simp add: tool_loop.simps [of _ st])
      from 1(1) [OF False Again this] tool_step_log(1) [OF Again] iterations_left_step [OF Again]
      show ?thesis using False by (simp add: iterations_left_def)
    next
      case (Finalize st')
      with 1(2) False have "finalize (recorded env) st' = (w, n, r)" by (simp add: tool_loop.simps [of _ st])
      from finalize_log [OF this] tool_step_log(2) [OF Finalize] False show ?thesis by (simp add: iterations_left_def)
    next
      case (Finished w' n' r')
      with 1(2) False have "w' = w" by (simp add: tool_loop.simps [of _ st])
      with tool_step_log(3) [OF Finished] show ?thesis by simp
    qed
  qed
qed

text \<open>
  Claim C13: the loop between model and tools ends, whatever the model answers and the tools do, within a number of calls of the model
  that is known beforehand: two for each of the iterations allowed, of the at most ten that redirections add and of the
  bonus iterations of the retries of the verification, and two at the end.
\<close>

theorem tool_loop_bounded:
  "length (fst (fst (generateWithTools (recorded env) hasExecutor msgs maxIter ([], w)))) \<le>
     2 * ((if maxIter \<le> 0 then 7 else nat maxIter) + 10 + bonus_allowed env * retries_allowed env) + 2"
proof (cases hasExecutor)
  case True
  let ?st = "start_tools (recorded env) msgs maxIter ([], w)"
  obtain w' n r where l: "tool_loop (recorded env) ?st = (w', n, r)" by (metis prod_cases3)
  have "length (fst (ts_world ?st)) = 0"
    and "iterations_left env ?st = (if maxIter \<le> 0 then 7 else nat maxIter) + 10 + bonus_allowed env * retries_allowed env"
    by (simp_all add: start_tools_def iterations_left_def Let_def)
  with tool_loop_log [OF l] l True show ?thesis by (simp add: generateWithTools_def)
qed (auto simp: generateWithTools_def split: sum.split)

section \<open>Answered calls\<close>

text \<open>The identifiers of the calls that are still to be answered after some messages; \<open>None\<close> when an answer is out of place.\<close>

fun unanswered :: "string list \<Rightarrow> ChatMsg list \<Rightarrow> string list option" where
  "unanswered ids [] = Some ids"
| "unanswered ids (m # ms) =
     (case cm_Role m of
        RoleTool \<Rightarrow> (case ids of [] \<Rightarrow> None | i # is \<Rightarrow> if cm_ToolCallID m = i then unanswered is ms else None)
      | RoleAssistant \<Rightarrow> if ids = [] then unanswered (map tc_ID (cm_ToolCalls m)) ms else None
      | _ \<Rightarrow> if ids = [] then unanswered [] ms else None)"

definition answered :: "ChatMsg list \<Rightarrow> bool" where
  "answered ms \<longleftrightarrow> unanswered [] ms = Some []"

lemma unanswered_append:
  "unanswered ids (xs @ ys) = (case unanswered ids xs of None \<Rightarrow> None | Some ids' \<Rightarrow> unanswered ids' ys)"
  by (induction ids xs rule: unanswered.induct) (auto split: role.split list.split)

lemma unanswered_trim: "unanswered ids (map trim_result ms) = unanswered ids ms"
  by (induction ids ms rule: unanswered.induct) (auto simp: trim_result_def tool_msg_def split: role.split list.split)

lemma answered_trim: "answered (trimOldToolResults ms) = answered ms"
proof -
  have "unanswered [] (map trim_result (take k ms) @ drop k ms) = unanswered [] (take k ms @ drop k ms)" for k
    by (simp only: unanswered_append unanswered_trim)
  then show ?thesis by (simp add: answered_def trimOldToolResults_def Let_def)
qed

lemma answered_run_tools: "run_tools env tcs w = (w', ms) \<Longrightarrow> unanswered (map tc_ID tcs) ms = Some []"
  by (induction tcs arbitrary: w w' ms) (auto simp: Let_def tool_msg_def split: prod.splits)

lemma answered_last_tools: "run_last_tools env tcs w = (w', ms) \<Longrightarrow> unanswered (map tc_ID tcs) ms = Some []"
  by (induction tcs arbitrary: w w' ms) (auto simp: tool_msg_def split: prod.splits)

lemma unanswered_with_tip:
  assumes "unanswered ids (xs @ [m]) = Some []" and "cm_Role m = RoleTool"
  shows "unanswered ids (with_tip (xs @ [m])) = Some []"
  using assms by (auto simp: with_tip_def unanswered_append tool_msg_def split: option.splits list.splits if_splits)

lemma run_tools_last: "run_tools env [tc] w = (w', ms) \<Longrightarrow> \<exists>m. ms = [m] \<and> cm_Role m = RoleTool"
  by (auto simp: Let_def tool_msg_def split: prod.splits)

section \<open>What every conversation keeps\<close>

text \<open>
  A conversation that starts with the system prompt and the task, and in which every call is answered as long as nothing has to be compacted.
\<close>

definition sound_chat :: "'w LoopEnv \<Rightarrow> ChatMsg \<Rightarrow> ChatMsg \<Rightarrow> ChatMsg list \<Rightarrow> bool" where
  "sound_chat env sys task ms \<longleftrightarrow>
     (\<exists>rest. ms = sys # task # rest) \<and> (contextBudget env = 0 \<longrightarrow> answered ms)"

definition plain_start :: "ChatMsg \<Rightarrow> ChatMsg \<Rightarrow> bool" where
  "plain_start sys task \<longleftrightarrow> cm_Role sys = RoleSystem \<and> cm_Role task = RoleUser"

lemma trim_keeps_start:
  assumes "plain_start sys task" shows "\<exists>rest'. trimOldToolResults (sys # task # rest) = sys # task # rest'"
proof -
  have t: "trim_result sys = sys" "trim_result task = task" using assms by (auto simp: plain_start_def trim_result_def)
  let ?ms = "sys # task # rest"
  have "\<exists>rest'. map trim_result (take k ?ms) @ drop k ?ms = sys # task # rest'" for k
    by (cases k; cases "k - 1") (use t in auto)
  then show ?thesis by (simp add: trimOldToolResults_def Let_def)
qed

lemma compact_keeps_start: "\<exists>rest'. compactToolHistory (sys # task # rest) b = sys # task # rest'"
  by (auto simp: compactToolHistory_def Let_def numeral_2_eq_2)

lemma sound_prepared:
  assumes "sound_chat env sys task ms" "plain_start sys task"
  shows "sound_chat env sys task (prepared_input env i ms)"
proof -
  obtain rest where ms: "ms = sys # task # rest" using assms(1) by (auto simp: sound_chat_def)
  let ?ms1 = "if i > 0 \<and> \<not> le_PromptCache env then trimOldToolResults ms else ms"
  obtain rest1 where ms1: "?ms1 = sys # task # rest1" using trim_keeps_start [OF assms(2)] ms by (cases "i > 0 \<and> \<not> le_PromptCache env") auto
  have "contextBudget env = 0 \<longrightarrow> answered ?ms1" using assms(1) by (simp add: sound_chat_def answered_trim)
  moreover have "contextBudget env = 0 \<Longrightarrow> prepared_input env i ms = ?ms1" by (simp add: prepared_input_def Let_def)
  moreover have "\<exists>rest'. prepared_input env i ms = sys # task # rest'"
  proof -
    let ?b = "contextBudget env"
    let ?ms2 = "if i \<ge> 4 \<and> ?b > 0 \<and> estimateTokens ?ms1 > ?b * 3 div 4 then compactToolHistory ?ms1 (?b * 3 div 4) else ?ms1"
    obtain rest2 where ms2: "?ms2 = sys # task # rest2" unfolding ms1 using compact_keeps_start by (metis (full_types))
    have "prepared_input env i ms = (if ?b > 0 \<and> estimateTokens ?ms2 > ?b then compactToolHistory ?ms2 ?b else ?ms2)"
      by (simp only: prepared_input_def Let_def)
    then show ?thesis unfolding ms2 using compact_keeps_start by (metis (full_types))
  qed
  ultimately show ?thesis by (simp add: sound_chat_def)
qed

definition answers_as_assistant :: "'w LoopEnv \<Rightarrow> bool" where
  "answers_as_assistant env \<longleftrightarrow> (\<forall>ms w m. snd (le_Generate env ms w) = Inr m \<longrightarrow> cm_Role m = RoleAssistant)"

definition log_sound :: "'w LoopEnv \<Rightarrow> ChatMsg \<Rightarrow> ChatMsg \<Rightarrow> ChatMsg list list \<times> 'w \<Rightarrow> bool" where
  "log_sound env sys task w \<longleftrightarrow> (\<forall>ms \<in> set (fst w). sound_chat env sys task ms)"

lemma log_sound_eq: "fst w' = fst w \<Longrightarrow> log_sound env sys task w' = log_sound env sys task w"
  by (simp add: log_sound_def)

lemma sound_call_model:
  assumes "call_model (recorded env) ms w = (w', ms', r)" and "sound_chat env sys task ms" and "log_sound env sys task w"
    and "answers_as_assistant env"
  shows "log_sound env sys task w' \<and> sound_chat env sys task ms' \<and> (\<forall>m. r = Inr m \<longrightarrow> cm_Role m = RoleAssistant)"
proof -
  obtain rest where ms: "ms = sys # task # rest" using assms(2) by (auto simp: sound_chat_def)
  have c: "contextBudget env > 0 \<Longrightarrow> sound_chat env sys task (compactToolHistory ms b)" for b
    using compact_keeps_start [of sys task rest b] by (simp add: sound_chat_def ms)
  have a: "snd (le_Generate env ms w) = Inr m \<Longrightarrow> cm_Role m = RoleAssistant" for ms w m
    using assms(4) by (auto simp: answers_as_assistant_def)
  show ?thesis using assms(1,2,3) c a by (auto simp: call_model_def Let_def log_sound_def split: sum.splits if_splits)
qed

lemma sound_extend:
  assumes "sound_chat env sys task ms" and "contextBudget env = 0 \<Longrightarrow> unanswered [] new = Some []"
  shows "sound_chat env sys task (ms @ new)"
  using assms by (auto simp: sound_chat_def answered_def unanswered_append)

lemma sound_with_tip:
  assumes "sound_chat env sys task (ms @ [resp, m])" and "cm_Role m = RoleTool" and "\<exists>rest. ms = sys # task # rest"
  shows "sound_chat env sys task (with_tip (ms @ [resp, m]))"
  using assms unanswered_with_tip [of "[]" "ms @ [resp]" m]
  by (auto simp: sound_chat_def answered_def with_tip_def)

lemma sound_final_answer:
  assumes "final_answer (recorded env) resp st = Again st'" and "sound_chat env sys task (ts_input st)"
    and "cm_Role resp = RoleAssistant" "cm_ToolCalls resp = []"
  shows "sound_chat env sys task (ts_input st')"
proof -
  from assms(1) obtain t where "ts_input st' = ts_input st @ [resp, user_msg t]"
    by (auto simp: final_answer_def Let_def split: if_splits option.splits prod.splits)
  then show ?thesis using sound_extend [OF assms(2), of "[resp, user_msg t]"] assms(3,4) by (simp add: user_msg_def)
qed

lemma sound_tool_answer:
  assumes "tool_answer (recorded env) resp st = Again st' \<or> tool_answer (recorded env) resp st = Finalize st'"
    and "sound_chat env sys task (ts_input st)" and "cm_Role resp = RoleAssistant"
  shows "sound_chat env sys task (ts_input st')"
proof -
  obtain blocks summary where p: "(if le_ShellOnly env then ([], '''') else ParseFileBlocks (cm_Content resp)) = (blocks, summary)"
    by (metis surj_pair)
  define resp' where "resp' = (if blocks = [] then resp else resp\<lparr>cm_Content := summary @ produced_note blocks\<rparr>)"
  obtain w results where t: "run_tools (recorded env) (cm_ToolCalls resp) (materializeBlocksToScratch (recorded env) blocks (ts_world st)) = (w, results)"
    by (metis surj_pair)
  have r: "cm_Role resp' = RoleAssistant" "cm_ToolCalls resp' = cm_ToolCalls resp" using assms(3) by (simp_all add: resp'_def)
  have s: "sound_chat env sys task (ts_input st @ resp' # results)"
    using sound_extend [OF assms(2), of "resp' # results"] answered_run_tools [OF t] r by simp
  have "ts_input st' = ts_input st @ resp' # results \<or>
      length (cm_ToolCalls resp) = 1 \<and> ts_input st' = with_tip (ts_input st @ resp' # results)"
    using assms(1) p t by (auto simp: tool_answer_def Let_def resp'_def split: if_splits)
  then show ?thesis
  proof
    assume a: "length (cm_ToolCalls resp) = 1 \<and> ts_input st' = with_tip (ts_input st @ resp' # results)"
    then obtain tc where "cm_ToolCalls resp = [tc]" by (metis One_nat_def length_0_conv length_Suc_conv)
    with run_tools_last t obtain m where "results = [m]" "cm_Role m = RoleTool" by metis
    with a s sound_with_tip [of env sys task "ts_input st" resp' m] assms(2) show ?thesis by (auto simp: sound_chat_def)
  qed (use s in simp)
qed

text \<open>One iteration keeps the record and the conversation sound.\<close>

definition sound_state :: "'w LoopEnv \<Rightarrow> ChatMsg \<Rightarrow> ChatMsg \<Rightarrow> (ChatMsg list list \<times> 'w) tool_state \<Rightarrow> bool" where
  "sound_state env sys task st \<longleftrightarrow> log_sound env sys task (ts_world st) \<and> sound_chat env sys task (ts_input st)"

fun sound_result :: "'w LoopEnv \<Rightarrow> ChatMsg \<Rightarrow> ChatMsg \<Rightarrow> (ChatMsg list list \<times> 'w) tool_result \<Rightarrow> bool" where
  "sound_result env sys task (Again st) = sound_state env sys task st"
| "sound_result env sys task (Finalize st) = sound_state env sys task st"
| "sound_result env sys task (Finished w _ _) = log_sound env sys task w"

lemma sound_tool_step:
  assumes "sound_state env sys task st" "plain_start sys task" "answers_as_assistant env"
  shows "sound_result env sys task (tool_step (recorded env) st)"
proof -
  obtain w ms r where c: "call_model (recorded env) (prepared_input env (ts_i st) (ts_input st)) (ts_world st) = (w, ms, r)"
    by (metis prod_cases3)
  from assms(1) have "sound_chat env sys task (prepared_input env (ts_i st) (ts_input st))" "log_sound env sys task (ts_world st)"
    using sound_prepared assms(2) by (auto simp: sound_state_def)
  from sound_call_model [OF c this assms(3)] have s: "log_sound env sys task w" "sound_chat env sys task ms"
    and role: "\<And>m. r = Inr m \<Longrightarrow> cm_Role m = RoleAssistant" by auto
  show ?thesis
  proof (cases "if ts_i st > 0 then (case le_Budget (recorded env) of None \<Rightarrow> None | Some f \<Rightarrow> f (ts_world st)) else None")
    case (Some e)
    then have "tool_step (recorded env) st = Finished (ts_world st) (ts_calls st) (Inl (''budget exceeded during tool loop: '' @ e))"
      by (simp only: tool_step_def option.case)
    with assms(1) show ?thesis by (simp add: sound_state_def)
  next
    case None
    note budget = this
    show ?thesis
    proof (cases r)
      case (Inl e)
      with None c s show ?thesis by (simp add: tool_step_def)
    next
      case (Inr resp)
      let ?st = "st\<lparr>ts_input := ms, ts_world := w\<rparr>"
      have st: "sound_chat env sys task (ts_input ?st)" "log_sound env sys task (ts_world ?st)" using s by simp_all
      have step: "tool_step (recorded env) st = (if cm_ToolCalls resp = [] then final_answer (recorded env) resp ?st else tool_answer (recorded env) resp ?st)"
        using budget c Inr by (simp add: tool_step_def)
      show ?thesis
      proof (cases "cm_ToolCalls resp = []")
        case True
        show ?thesis
          using step True sound_final_answer [of env resp ?st _ sys task, OF _ st(1) role [OF Inr] True] st(2) log_sound_eq
          by (cases "final_answer (recorded env) resp ?st") (auto simp: sound_state_def log_sound_def dest!: log_final_answer)
      next
        case False
        show ?thesis
          using step False sound_tool_answer [of env resp ?st _ sys task, OF _ st(1) role [OF Inr]] st(2) log_sound_eq
          by (cases "tool_answer (recorded env) resp ?st") (auto simp: sound_state_def log_sound_def dest!: log_tool_answer)
      qed
    qed
  qed
qed

lemma sound_last_chance:
  assumes "sound_state env sys task st" "answers_as_assistant env" and "last_chance (recorded env) tag st = (w, n, r)"
  shows "log_sound env sys task w"
proof -
  define ms where "ms = ts_input st @ [user_msg (last_call (le_ShellOnly env))]"
  have s: "sound_chat env sys task ms" "log_sound env sys task (ts_world st)"
    using assms(1) sound_extend [of env sys task "ts_input st" "[user_msg (last_call (le_ShellOnly env))]"]
    by (simp_all add: ms_def sound_state_def user_msg_def)
  obtain w0 x where g: "le_Generate (recorded env) ms (ts_world st) = (w0, x)" by (metis surj_pair)
  then have l: "log_sound env sys task w0" using s by (auto simp: log_sound_def)
  show ?thesis
  proof (cases x)
    case (Inl e)
    with assms(3) g l show ?thesis by (simp add: last_chance_def Let_def ms_def [symmetric])
  next
    case (Inr resp)
    obtain w1 results where t: "run_last_tools (recorded env) (cm_ToolCalls resp) w0 = (w1, results)" by (metis surj_pair)
    have "cm_Role resp = RoleAssistant" using g Inr assms(2) by (auto simp: answers_as_assistant_def)
    with answered_last_tools [OF t] have a: "sound_chat env sys task (ms @ resp # results)"
      by (intro sound_extend [OF s(1)]) simp
    have "fst w1 = fst w0" using log_last_tools [OF t] .
    with a l have "log_sound env sys task (fst (le_Generate (recorded env) (ms @ resp # results) w1))"
      by (auto simp: log_sound_def)
    moreover have "w = w0 \<or> w = fst (le_Generate (recorded env) (ms @ resp # results) w1)"
      using assms(3) g Inr t by (auto simp: last_chance_def Let_def ms_def [symmetric] simp del: recorded_generate split: if_splits prod.splits)
    ultimately show ?thesis using l by auto
  qed
qed

lemma sound_finalize:
  assumes "sound_state env sys task st" "answers_as_assistant env" and "finalize (recorded env) st = (w, n, r)"
  shows "log_sound env sys task w"
proof -
  obtain w0 tag where v: "(case le_Verify env of None \<Rightarrow> (ts_world st, '''')
      | Some vc \<Rightarrow> (case runVerify (recorded env) (ts_world st) of (w, passed, result) \<Rightarrow> (w, if passed then '''' else failure_tag vc result))) = (w0, tag)"
    by (metis surj_pair)
  then have "fst w0 = fst (ts_world st)" by (auto dest: log_verify split: option.splits prod.splits)
  with assms(1) have s: "log_sound env sys task w0" "sound_state env sys task (st\<lparr>ts_world := w0\<rparr>)"
    by (auto simp: sound_state_def log_sound_def)
  from assms(3) v have "w = w0 \<or> last_chance (recorded env) tag (st\<lparr>ts_world := w0\<rparr>) = (w, n, r)"
    by (auto simp: finalize_def Let_def split: if_splits)
  then show ?thesis using s sound_last_chance [OF _ assms(2)] by blast
qed

lemma sound_tool_loop:
  assumes "plain_start sys task" "answers_as_assistant env"
  shows "tool_loop (recorded env) st = (w, n, r) \<Longrightarrow> sound_state env sys task st \<Longrightarrow> log_sound env sys task w"
proof (induction "recorded env" st arbitrary: w n r rule: tool_loop.induct)
  case (1 st)
  note step = sound_tool_step [OF 1(3) assms]
  show ?case
  proof (cases "ts_i st \<ge> ts_max st")
    case True
    with 1(2) have "finalize (recorded env) st = (w, n, r)" by (simp add: tool_loop.simps)
    from sound_finalize [OF 1(3) assms(2) this] show ?thesis .
  next
    case False
    show ?thesis
    proof (cases "tool_step (recorded env) st")
      case (Again st')
      with 1(2) False have "tool_loop (recorded env) st' = (w, n, r)" by (simp add: tool_loop.simps [of _ st])
      from 1(1) [OF False Again this] step Again show ?thesis by simp
    next
      case (Finalize st')
      with 1(2) False have f: "finalize (recorded env) st' = (w, n, r)" by (simp add: tool_loop.simps [of _ st])
      from step Finalize have "sound_state env sys task st'" by simp
      from sound_finalize [OF this assms(2) f] show ?thesis .
    next
      case (Finished w' n' r')
      with 1(2) False have "w' = w" by (simp add: tool_loop.simps [of _ st])
      with step Finished show ?thesis by simp
    qed
  qed
qed

text \<open>
  Claim C14: whatever the model, the tools and the verification do, every conversation that is given to the model starts with the system
  prompt and the task, also after results were trimmed and history was compacted; and when the context has no limit
  every tool call in it is answered, in order and under its identifier, before the conversation goes on, as the interfaces of
  the models require.
\<close>

theorem conversation_sound:
  assumes "plain_start sys task" and "answers_as_assistant env" and "answered (sys # task # rest)"
    and "ms \<in> set (fst (fst (generateWithTools (recorded env) hasExecutor (sys # task # rest) maxIter ([], w))))"
  shows "(\<exists>rest'. ms = sys # task # rest') \<and> (contextBudget env = 0 \<longrightarrow> answered ms)"
proof -
  let ?start = "sys # task # rest"
  have s: "sound_chat env sys task ?start" using assms(3) by (simp add: sound_chat_def)
  have user: "sound_chat env sys task (sys # task # rest @ [user_msg t])" for t
    using sound_extend [OF s, of "[user_msg t]"] by (simp add: user_msg_def)
  have "log_sound env sys task (fst (generateWithTools (recorded env) hasExecutor ?start maxIter ([], w)))"
  proof (cases hasExecutor)
    case True
    have "sound_state env sys task (start_tools (recorded env) ?start maxIter ([], w))"
      using s user by (simp add: sound_state_def log_sound_def start_tools_def Let_def)
    then show ?thesis
      using True sound_tool_loop [OF assms(1,2), of "start_tools (recorded env) ?start maxIter ([], w)"]
      by (cases "tool_loop (recorded env) (start_tools (recorded env) ?start maxIter ([], w))") (simp add: generateWithTools_def)
  next
    case False
    with s show ?thesis by (auto simp: generateWithTools_def log_sound_def split: sum.split)
  qed
  then show ?thesis using assms(4) by (auto simp: log_sound_def sound_chat_def)
qed

text \<open>A model that calls a tool once and then answers.\<close>

definition demo_answer :: ChatMsg where
  "demo_answer = \<lparr>cm_Role = RoleAssistant, cm_Content = '''', cm_ToolCalls = [\<lparr>tc_ID = ''1'', tc_Name = ''ls'', tc_Arguments = ''''\<rparr>], cm_ToolCallID = '''', cm_Finish = ''''\<rparr>"

definition demo_env :: "unit LoopEnv" where
  "demo_env =
     \<lparr>le_ShellOnly = False, le_Verify = None, le_PromptCache = False, le_ContextLimit = 0, le_MaxOutputTokens = 0, le_ScratchDir = '''',
      le_Cwd = None, le_Command = (\<lambda>_. None),
      le_Generate = (\<lambda>ms w. (w, Inr (if length ms = 2 then demo_answer else demo_answer\<lparr>cm_ToolCalls := []\<rparr>))),
      le_Execute = (\<lambda>_ w. (w, ''a'', None)), le_Budget = None, le_RunCommand = (\<lambda>_ _ _ w. (w, '''', None)), le_Exists = (\<lambda>_ _. False),
      le_ReadDir = (\<lambda>_. None), le_ReadFile = (\<lambda>_ _. None), le_WriteFile = (\<lambda>_ _ w. w), le_Tree = (\<lambda>_. [])\<rparr>"

definition demo_system :: ChatMsg where
  "demo_system = \<lparr>cm_Role = RoleSystem, cm_Content = ''s'', cm_ToolCalls = [], cm_ToolCallID = '''', cm_Finish = ''''\<rparr>"

definition demo_task :: ChatMsg where
  "demo_task = user_msg ''t''"

definition demo_second :: "ChatMsg list" where
  "demo_second = [demo_system, demo_task, demo_answer, tool_msg ''a'' ''1'']"

lemma demo_run:
  "fst (fst (generateWithTools (recorded demo_env) True [demo_system, demo_task] 3 ([], ()))) = [[demo_system, demo_task], demo_second]"
  by code_simp

theorem conversation_sound_witness:
  "demo_second \<in> set (fst (fst (generateWithTools (recorded demo_env) True [demo_system, demo_task] 3 ([], ())))) \<and> answered demo_second"
proof -
  have m: "demo_second \<in> set (fst (fst (generateWithTools (recorded demo_env) True [demo_system, demo_task] 3 ([], ()))))"
    by (simp add: demo_run)
  have "answered demo_second"
    using conversation_sound [of demo_system demo_task demo_env "[]" demo_second True 3 "()", OF _ _ _ m]
    by (simp add: plain_start_def answers_as_assistant_def answered_def demo_system_def demo_task_def user_msg_def demo_env_def demo_answer_def
        contextBudget_def)
  with m show ?thesis by simp
qed

end
