(* ===== verification/ToolFiles.thy ===== *)
theory ToolFiles
  imports ToolProps
begin

text \<open>
  What becomes of the file blocks that an agent writes between its tool calls, and four cases in which the loop loses something:
  the output of a failed call, the iterations of a large task, the order of calls and results in a compacted history,
  and the lines of a file behind a fence.
\<close>

section \<open>Collected files\<close>

lemma join_snoc: "ls \<noteq> [] \<Longrightarrow> join sep (ls @ [l]) = join sep ls @ sep @ l"
  by (induction sep ls rule: join.induct) auto

lemma block_text_lines: "block_text b = join newline (render_lines b) @ newline @ newline"
proof -
  have "join newline (split_on (char_of (10 :: nat)) (fb_Content b)) = fb_Content b"
    unfolding newline_def by (rule join_split_on)
  then have "join newline (h # split_on (char_of (10 :: nat)) (fb_Content b) @ [t]) = h @ newline @ fb_Content b @ newline @ t" for h t
    using join_snoc [of "h # split_on (char_of (10 :: nat)) (fb_Content b)" newline t]
    by (cases "split_on (char_of (10 :: nat)) (fb_Content b)") simp_all
  then show ?thesis by (simp add: render_lines_def block_text_def btick_def backtick_def numeral_3_eq_3)
qed

lemma split_on_lines:
  "ls \<noteq> [] \<Longrightarrow> (\<forall>l \<in> set ls. d \<notin> set l) \<Longrightarrow> split_on d (join [d] ls @ d # s) = ls @ split_on d s"
proof (induction ls rule: join.induct)
  case (3 sep x y ys)
  then show ?case by (simp add: split_on_append)
qed (simp_all add: split_on_append)

lemma split_block_texts:
  "\<forall>b \<in> set bs. renderable b \<Longrightarrow>
     split_on (char_of (10 :: nat)) (concat (map block_text bs) @ s) =
       concat (map (\<lambda>b. render_lines b @ [[]]) bs) @ split_on (char_of (10 :: nat)) s"
proof (induction bs)
  case (Cons b bs)
  let ?d = "char_of (10 :: nat)"
  have "\<forall>l \<in> set (render_lines b). ?d \<notin> set l" using Cons.prems render_lines_no_newline by auto
  moreover have "render_lines b \<noteq> []" by (simp add: render_lines_def)
  ultimately have "split_on ?d (join newline (render_lines b) @ newline @ newline @ t) = render_lines b @ [] # split_on ?d t" for t
    using split_on_lines [of "render_lines b" ?d "?d # t"] by (simp add: newline_def)
  with Cons show ?case by (simp add: block_text_lines)
qed simp

text \<open>Lines outside of blocks only grow the summary, and blocks that were read before do not change how the rest is read.\<close>

lemma parse_empty_line: "ps_current s = None \<Longrightarrow> parse_line [] s = s\<lparr>ps_summary := ps_summary s @ [[]]\<rparr>"
  by (simp add: parse_line_def parseFileFence_def ticks_def trim_space_def Let_def)

lemma parse_block_lines:
  "\<forall>b \<in> set bs. renderable b \<Longrightarrow> ps_current s = None \<Longrightarrow>
     \<exists>ps. parse_lines (concat (map (\<lambda>b. render_lines b @ [[]]) bs)) s = s\<lparr>ps_blocks := ps_blocks s @ bs, ps_summary := ps\<rparr>"
proof (induction bs arbitrary: s)
  case (Cons b bs)
  let ?s = "s\<lparr>ps_blocks := ps_blocks s @ [b], ps_summary := ps_summary s @ [[]]\<rparr>"
  have "parse_lines (render_lines b @ [[]]) s = ?s" using Cons.prems by (simp add: parse_render parse_empty_line)
  moreover obtain ps where "parse_lines (concat (map (\<lambda>b. render_lines b @ [[]]) bs)) ?s = ?s\<lparr>ps_blocks := ps_blocks ?s @ bs, ps_summary := ps\<rparr>"
    using Cons.IH [of ?s] Cons.prems by auto
  ultimately show ?case by (auto intro!: exI [of _ ps])
next
  case Nil
  show ?case by (intro exI [of _ "ps_summary s"]) simp
qed

lemma parse_line_frame:
  "ps_current s = ps_current t \<Longrightarrow> ps_blocks s = bs @ ps_blocks t \<Longrightarrow>
     ps_current (parse_line l s) = ps_current (parse_line l t) \<and> ps_blocks (parse_line l s) = bs @ ps_blocks (parse_line l t)"
  by (simp add: parse_line_def Let_def split: option.split prod.split)

lemma parse_lines_frame:
  "ps_current s = ps_current t \<Longrightarrow> ps_blocks s = bs @ ps_blocks t \<Longrightarrow>
     ps_current (parse_lines ls s) = ps_current (parse_lines ls t) \<and> ps_blocks (parse_lines ls s) = bs @ ps_blocks (parse_lines ls t)"
proof (induction ls arbitrary: s t)
  case (Cons l ls)
  from parse_line_frame [OF Cons.prems, of l] Cons.IH [of "parse_line l s" "parse_line l t"] show ?case by simp
qed simp

lemma fst_parse:
  "fst (ParseFileBlocks content) =
     (let s = parse_lines (split_on (char_of (10 :: nat)) content) parse_init
      in ps_blocks s @ (case ps_current s of Some b \<Rightarrow> [close_block b] | None \<Rightarrow> []))"
  by (simp add: ParseFileBlocks_def Let_def)

lemma parse_prepended:
  assumes "\<forall>b \<in> set bs. renderable b"
  shows "fst (ParseFileBlocks (concat (map block_text bs) @ content)) = bs @ fst (ParseFileBlocks content)"
proof -
  let ?ls = "split_on (char_of (10 :: nat)) content"
  obtain ps where "parse_lines (concat (map (\<lambda>b. render_lines b @ [[]]) bs)) parse_init = parse_init\<lparr>ps_blocks := bs, ps_summary := ps\<rparr>"
    using parse_block_lines [OF assms, of parse_init] by (auto simp: parse_init_def)
  with parse_lines_frame [of "parse_init\<lparr>ps_blocks := bs, ps_summary := ps\<rparr>" parse_init bs ?ls] show ?thesis
    by (simp add: fst_parse split_block_texts [OF assms] Let_def parse_init_def split: option.split)
qed

lemma missing_blocks_subset: "set (missing_blocks paths bs) \<subseteq> set bs"
  by (induction paths bs rule: missing_blocks.induct) auto

lemma missing_blocks_paths: "fb_Path ` set (missing_blocks paths bs) = fb_Path ` set bs - paths"
  by (induction paths bs rule: missing_blocks.induct) auto

text \<open>
  Claim C30: the merge of the files an agent wrote between its tool calls into its final answer loses none of them, as long as
  they can be written as a block: their paths are clean relative ones on one line, and in their content the fences of code blocks
  match, each fence without a language closing a block that a fence with a language has opened, and none staying open. Then the
  merged answer names exactly the files of both, the blocks of the final answer come back unchanged and last, and every other block
  is one that was collected, for a path the final answer does not name. (The answer of the model itself is any text.) A file whose
  content does not fit is cut, as \<open>merge_cuts_at_fence\<close> shows.
\<close>

theorem merge_keeps_files:
  assumes "\<forall>b \<in> set accumulated. renderable b"
  shows "let last_blocks = fst (ParseFileBlocks (cm_Content resp));
             merged = fst (ParseFileBlocks (cm_Content (mergeAccumulatedBlocks resp accumulated)))
         in fb_Path ` set merged = fb_Path ` set accumulated \<union> fb_Path ` set last_blocks \<and>
            (\<exists>kept. merged = kept @ last_blocks \<and> set kept \<subseteq> set accumulated \<and> fb_Path ` set kept \<inter> fb_Path ` set last_blocks = {})"
proof -
  let ?last = "fst (ParseFileBlocks (cm_Content resp))"
  let ?kept = "missing_blocks (fb_Path ` set ?last) accumulated"
  have "\<forall>b \<in> set ?kept. renderable b" using assms missing_blocks_subset by blast
  then have "fst (ParseFileBlocks (concat (map block_text ?kept) @ cm_Content resp)) = ?kept @ ?last" by (rule parse_prepended)
  then have "fst (ParseFileBlocks (cm_Content (mergeAccumulatedBlocks resp accumulated))) = ?kept @ ?last"
    by (auto simp: mergeAccumulatedBlocks_def Let_def)
  then show ?thesis
    using missing_blocks_subset [of "fb_Path ` set ?last" accumulated] missing_blocks_paths [of "fb_Path ` set ?last" accumulated]
    by (auto simp: image_Un Let_def)
qed

definition demo_block :: FileBlock where
  "demo_block = \<lparr>fb_Path = ''a'', fb_Content = ''x''\<rparr>"

definition demo_readme :: FileBlock where
  "demo_readme = demo_block\<lparr>fb_Content := ''run:'' @ newline @ replicate 3 backtick @ ''sh'' @ newline @ ''make'' @ newline @
     replicate 3 backtick @ newline\<rparr>"

definition demo_history :: "ChatMsg list" where
  "demo_history = [demo_system, demo_task, demo_answer\<lparr>cm_Content := replicate 40 CHR ''x''\<rparr>, tool_msg ''a'' ''1'']"

text \<open>The evaluations of this theory, in one step.\<close>

lemma demo_evaluated:
  "renderable demo_block \<and> renderable demo_readme \<and> fst (ParseFileBlocks ''ok'') = [] \<and>
   fst (ParseFileBlocks (cm_Content (mergeAccumulatedBlocks (assistant_msg ''ok'') [demo_block, demo_block\<lparr>fb_Content := ''y''\<rparr>]))) = [demo_block] \<and>
   fst (ParseFileBlocks (cm_Content (mergeAccumulatedBlocks (assistant_msg ''ok'')
     [demo_block\<lparr>fb_Content := ''x'' @ newline @ replicate 3 backtick @ newline @ ''y''\<rparr>]))) = [demo_block] \<and>
   answered demo_history \<and> \<not> answered (compactToolHistory demo_history 14)"
  by code_simp

theorem merge_keeps_files_witness:
  "fb_Path ` set (fst (ParseFileBlocks (cm_Content (mergeAccumulatedBlocks (assistant_msg ''ok'') [demo_block])))) = {''a''}"
  using merge_keeps_files [of "[demo_block]" "assistant_msg ''ok''"] demo_evaluated by (simp add: demo_block_def assistant_msg_def Let_def)

section \<open>What is lost\<close>

text \<open>Of two collected blocks of one path the older is merged, when the file itself cannot be read back.\<close>

lemma merge_keeps_oldest:
  "fst (ParseFileBlocks (cm_Content (mergeAccumulatedBlocks (assistant_msg ''ok'') [demo_block, demo_block\<lparr>fb_Content := ''y''\<rparr>]))) = [demo_block]"
  using demo_evaluated by blast

text \<open>
  A file that holds a code block with a language, like the README of a program, is kept; one that holds a fence without a language is
  cut at this fence.
\<close>

lemma readme_kept: "renderable demo_readme"
  using demo_evaluated by blast

lemma merge_cuts_at_fence:
  "fst (ParseFileBlocks (cm_Content (mergeAccumulatedBlocks (assistant_msg ''ok'')
     [demo_block\<lparr>fb_Content := ''x'' @ newline @ replicate 3 backtick @ newline @ ''y''\<rparr>]))) = [demo_block]"
  using demo_evaluated by blast

text \<open>The model is shown the same for a call that failed, whatever the call has put out.\<close>

lemma failed_output_lost:
  assumes "le_Execute env tc w = (w1, log1, Some e)" and "le_Execute env' tc w = (w1, log2, Some e)"
  shows "run_tools env [tc] w = run_tools env' [tc] w"
  using assms by simp

text \<open>A redirection in the first iteration leaves a task that was allowed any number of iterations five more.\<close>

lemma redirection_cuts_iterations:
  assumes "le_ShellOnly env" and "ts_calls st = 0" and "ts_redir st = 0" and "ts_i st = 0"
  shows "\<exists>st'. final_answer env resp st = Again st' \<and> ts_max st' - ts_i st' = 5"
  using assms by (simp add: final_answer_def Let_def)

text \<open>Compaction may keep the result of a call and drop the call.\<close>

lemma compaction_orphans: "answered demo_history \<and> \<not> answered (compactToolHistory demo_history 14)"
  using demo_evaluated by blast

end
