(* ===== verification/Bundle.thy ===== *)
theory Bundle
  imports Storage Subject Verdict
begin

text \<open>
  Signed bundles of agent definitions (internal/config/bundle.go, manifest.go, signed_bundle.go): the checksums of the files of the
  agents directory, the digests of the definitions, signatures over both, and the verification before a fabric is started.
  SHA-256, Ed25519, the JSON encoder and the file system are functions of an environment.
\<close>

section \<open>Hexadecimal text\<close>

definition hex_encode :: "string \<Rightarrow> string" where
  "hex_encode s = concat (map (\<lambda>c. [hex_digit (of_char c div 16), hex_digit (of_char c mod 16)]) s)"

fun hex_decode :: "string \<Rightarrow> string option" where
  "hex_decode [] = Some []"
| "hex_decode [a] = None"
| "hex_decode (a # b # s) =
     (case (unhex a, unhex b) of
        (Some x, Some y) \<Rightarrow> map_option (Cons (char_of (16 * x + y))) (hex_decode s)
      | _ \<Rightarrow> None)"

section \<open>The data\<close>

record Manifest =
  mf_Version :: int
  mf_GeneratedAt :: string
  mf_Checksums :: "(string, string) gomap"

record BundleSignature =
  bs_KeyID :: string
  bs_Algorithm :: string
  bs_Signature :: string

record SignedBundle =
  sb_Version :: int
  sb_GeneratedAt :: string
  sb_FabricName :: string
  sb_FabricVersion :: int
  sb_Checksums :: "(string, string) gomap"
  sb_BundleDigest :: string
  sb_ProfileDigests :: "(string, string) gomap"
  sb_Signatures :: "BundleSignature list"

record BundleFingerprint =
  fp_BundleDigest :: string
  fp_ProfileDigests :: "(string, string) gomap"

record BundleVerificationResult =
  vr_BundleDigest :: string
  vr_ProfileDigests :: "(string, string) gomap"
  vr_ManifestVerified :: bool
  vr_SignedBundleUsed :: bool
  vr_SignatureVerified :: bool

text \<open>An agent definition with the fields that bundles look at, and the rest of it.\<close>

record 'd profile_def =
  pd_Name :: string
  pd_SpecialKnowledgeFile :: string
  pd_Rest :: 'd

record ('d, 'f) FabricDef =
  fd_Name :: string
  fd_Version :: int
  fd_AgentsDir :: string
  fd_Agents :: "'d profile_def list"
  fd_TrustedBundlePublicKeys :: "string list"
  fd_RequireSignedBundles :: bool
  fd_Rest :: 'f

text \<open>What a walk over the agents directory meets: an error, a directory, or a file with its relative path and its contents or the error of reading them.\<close>

datatype walk_item = WalkFailed string | WalkDir string | WalkFile string "string + string"

record ('d, 'f, 'pk, 'sk) bundle_env =
  be_sha256 :: "string \<Rightarrow> string"
  be_verify :: "'pk \<Rightarrow> string \<Rightarrow> string \<Rightarrow> bool"
  be_sign :: "'sk \<Rightarrow> string \<Rightarrow> string"
  be_public :: "'sk \<Rightarrow> 'pk"
  be_valid_private :: "'sk \<Rightarrow> bool"
  be_key_bytes :: "'pk \<Rightarrow> string"
  be_load_key :: "string \<Rightarrow> string + 'pk"
  be_walk :: "string \<Rightarrow> walk_item list"
  be_now :: string
  be_read_file :: "string \<Rightarrow> string + string option"
  be_load_manifest :: "string \<Rightarrow> string + Manifest"
  be_load_bundle :: "string \<Rightarrow> string + SignedBundle"
  be_payload_json :: "SignedBundle \<Rightarrow> string + string"
  be_profile_json :: "'d profile_def \<times> string \<Rightarrow> string + string"
  be_fabric_json :: "string \<times> int \<times> 'f \<times> (string, 'd profile_def \<times> string) gomap \<Rightarrow> string + string"

datatype bundle_error =
    FabricRequired | AgentsDirRequired | AgentNameRequired | BundleRequired | BadPrivateKey
  | WalkError string | HashError string string | KnowledgeError string string | DigestError string string | FabricDigestError string
  | LoadError string | KeyError string | NoKeysLoaded | NoKeysConfigured | NoSignatures | PayloadError string | NotVerified
  | NameMismatch string string | VersionMismatch int int | ManifestError bundle_error | ManifestMismatch "string list"
  | DigestMismatch string string | ProfilesMismatch

section \<open>The manifest\<close>

definition manifestExtensions :: "string list" where
  "manifestExtensions = [''.yaml'', ''.md'']"

definition hash_data :: "('d, 'f, 'pk, 'sk) bundle_env \<Rightarrow> string \<Rightarrow> string" where
  "hash_data env data = hex_encode (be_sha256 env data)"

fun walk_checksums :: "('d, 'f, 'pk, 'sk) bundle_env \<Rightarrow> walk_item list \<Rightarrow> (string, string) gomap \<Rightarrow> bundle_error + (string, string) gomap" where
  "walk_checksums env [] sums = Inr sums"
| "walk_checksums env (WalkFailed e # ws) sums = Inl (WalkError e)"
| "walk_checksums env (WalkDir d # ws) sums = walk_checksums env ws sums"
| "walk_checksums env (WalkFile rel contents # ws) sums =
     (if to_lower (path_ext rel) \<notin> set manifestExtensions then walk_checksums env ws sums
      else (case contents of
              Inl e \<Rightarrow> Inl (HashError rel e)
            | Inr data \<Rightarrow> walk_checksums env ws (mput rel (hash_data env data) sums)))"

definition GenerateManifest :: "('d, 'f, 'pk, 'sk) bundle_env \<Rightarrow> string \<Rightarrow> bundle_error + Manifest" where
  "GenerateManifest env agentsDir =
     (case walk_checksums env (be_walk env agentsDir) [] of
        Inl e \<Rightarrow> Inl e
      | Inr sums \<Rightarrow> Inr \<lparr>mf_Version = 1, mf_GeneratedAt = be_now env, mf_Checksums = sums\<rparr>)"

definition ManifestPath :: "string \<Rightarrow> string" where
  "ManifestPath agentsDir = path_join2 agentsDir ''manifest.json''"

definition sortedKeys :: "(string, string) gomap \<Rightarrow> string list" where
  "sortedKeys m = sort (mkeys m)"

definition stored_mismatch :: "(string, string) gomap \<Rightarrow> (string, string) gomap \<Rightarrow> string \<Rightarrow> string list" where
  "stored_mismatch stored current rel =
     (case mget current rel of
        None \<Rightarrow> [''missing: '' @ rel]
      | Some actual \<Rightarrow> if actual \<noteq> mget0 '''' stored rel then [''modified: '' @ rel] else [])"

definition added_file :: "(string, string) gomap \<Rightarrow> string \<Rightarrow> string list" where
  "added_file stored rel = (if mget stored rel = None then [''added: '' @ rel] else [])"

definition VerifyManifest :: "('d, 'f, 'pk, 'sk) bundle_env \<Rightarrow> string \<Rightarrow> Manifest \<Rightarrow> bundle_error + bool \<times> string list" where
  "VerifyManifest env agentsDir m =
     (case GenerateManifest env agentsDir of
        Inl e \<Rightarrow> Inl e
      | Inr current \<Rightarrow>
          (let mismatches = concat (map (stored_mismatch (mf_Checksums m) (mf_Checksums current)) (sortedKeys (mf_Checksums m)))
                 @ concat (map (added_file (mf_Checksums m)) (sortedKeys (mf_Checksums current)))
           in Inr (mismatches = [], mismatches)))"

definition VerifyAgentsManifest :: "('d, 'f, 'pk, 'sk) bundle_env \<Rightarrow> string \<Rightarrow> bundle_error + bool \<times> string list" where
  "VerifyAgentsManifest env agentsDir =
     (case be_load_manifest env (ManifestPath agentsDir) of
        Inl e \<Rightarrow> Inl (LoadError e)
      | Inr m \<Rightarrow> VerifyManifest env agentsDir m)"

section \<open>Fingerprints\<close>

definition readSpecialKnowledge :: "('d, 'f, 'pk, 'sk) bundle_env \<Rightarrow> string \<Rightarrow> string \<Rightarrow> string + string" where
  "readSpecialKnowledge env agentsDir file =
     (if file = '''' then Inr ''''
      else (case be_read_file env (if agentsDir \<noteq> '''' \<and> \<not> is_abs file then path_join2 agentsDir file else file) of
              Inl e \<Rightarrow> Inl e
            | Inr None \<Rightarrow> Inr ''''
            | Inr (Some data) \<Rightarrow> Inr data))"

definition profilePayloadFor :: "('d, 'f, 'pk, 'sk) bundle_env \<Rightarrow> ('d, 'f) FabricDef \<Rightarrow> 'd profile_def \<Rightarrow> bundle_error + 'd profile_def \<times> string" where
  "profilePayloadFor env td def =
     (if pd_SpecialKnowledgeFile def = '''' then Inr (def, '''')
      else (case readSpecialKnowledge env (fd_AgentsDir td) (pd_SpecialKnowledgeFile def) of
              Inl e \<Rightarrow> Inl (KnowledgeError (pd_Name def) e)
            | Inr content \<Rightarrow> Inr (def, content)))"

definition stableDigest :: "('d, 'f, 'pk, 'sk) bundle_env \<Rightarrow> string + string \<Rightarrow> string + string" where
  "stableDigest env marshalled = (case marshalled of Inl e \<Rightarrow> Inl e | Inr data \<Rightarrow> Inr (hash_data env data))"

fun profile_digests :: "('d, 'f, 'pk, 'sk) bundle_env \<Rightarrow> ('d, 'f) FabricDef \<Rightarrow> 'd profile_def list \<Rightarrow>
    (string, 'd profile_def \<times> string) gomap \<Rightarrow> (string, string) gomap \<Rightarrow>
    bundle_error + (string, 'd profile_def \<times> string) gomap \<times> (string, string) gomap" where
  "profile_digests env td [] profiles digests = Inr (profiles, digests)"
| "profile_digests env td (def # defs) profiles digests =
     (if pd_Name def = '''' then Inl AgentNameRequired
      else (case profilePayloadFor env td def of
              Inl e \<Rightarrow> Inl e
            | Inr payload \<Rightarrow>
                (case stableDigest env (be_profile_json env payload) of
                   Inl e \<Rightarrow> Inl (DigestError (pd_Name def) e)
                 | Inr d \<Rightarrow> profile_digests env td defs (mput (pd_Name def) payload profiles) (mput (pd_Name def) d digests))))"

definition ComputeBundleFingerprint :: "('d, 'f, 'pk, 'sk) bundle_env \<Rightarrow> ('d, 'f) FabricDef \<Rightarrow> bundle_error + BundleFingerprint" where
  "ComputeBundleFingerprint env td =
     (case profile_digests env td (fd_Agents td) [] [] of
        Inl e \<Rightarrow> Inl e
      | Inr (profiles, digests) \<Rightarrow>
          (case stableDigest env (be_fabric_json env (fd_Name td, fd_Version td, fd_Rest td, profiles)) of
             Inl e \<Rightarrow> Inl (FabricDigestError e)
           | Inr d \<Rightarrow> Inr \<lparr>fp_BundleDigest = d, fp_ProfileDigests = digests\<rparr>))"

section \<open>Signing\<close>

definition BundlePath :: "string \<Rightarrow> string" where
  "BundlePath agentsDir = path_join2 agentsDir ''bundle.json''"

definition bundleAlgorithm :: string where
  "bundleAlgorithm = ''ed25519''"

definition GenerateSignedBundle :: "('d, 'f, 'pk, 'sk) bundle_env \<Rightarrow> ('d, 'f) FabricDef option \<Rightarrow> bundle_error + SignedBundle" where
  "GenerateSignedBundle env td_opt =
     (case td_opt of
        None \<Rightarrow> Inl FabricRequired
      | Some td \<Rightarrow>
          if fd_AgentsDir td = '''' then Inl AgentsDirRequired
          else (case GenerateManifest env (fd_AgentsDir td) of
                  Inl e \<Rightarrow> Inl e
                | Inr manifest \<Rightarrow>
                    (case ComputeBundleFingerprint env td of
                       Inl e \<Rightarrow> Inl e
                     | Inr fp \<Rightarrow>
                         Inr \<lparr>sb_Version = 1, sb_GeneratedAt = be_now env, sb_FabricName = fd_Name td, sb_FabricVersion = fd_Version td,
                              sb_Checksums = mf_Checksums manifest, sb_BundleDigest = fp_BundleDigest fp,
                              sb_ProfileDigests = fp_ProfileDigests fp, sb_Signatures = []\<rparr>)))"

text \<open>What is signed: the bundle without its signatures.\<close>

definition bundlePayload :: "('d, 'f, 'pk, 'sk) bundle_env \<Rightarrow> SignedBundle \<Rightarrow> string + string" where
  "bundlePayload env b = be_payload_json env (b\<lparr>sb_Signatures := []\<rparr>)"

definition bundleKeyID :: "('d, 'f, 'pk, 'sk) bundle_env \<Rightarrow> 'pk \<Rightarrow> string" where
  "bundleKeyID env pk = hex_encode (take 8 (be_sha256 env (be_key_bytes env pk)))"

definition SignBundle :: "('d, 'f, 'pk, 'sk) bundle_env \<Rightarrow> SignedBundle \<Rightarrow> 'sk \<Rightarrow> bundle_error + SignedBundle" where
  "SignBundle env b sk =
     (if \<not> be_valid_private env sk then Inl BadPrivateKey
      else (case bundlePayload env b of
              Inl e \<Rightarrow> Inl (PayloadError e)
            | Inr payload \<Rightarrow>
                (let keyID = bundleKeyID env (be_public env sk);
                     kept = filter (\<lambda>s. bs_KeyID s \<noteq> keyID) (sb_Signatures b);
                     new = \<lparr>bs_KeyID = keyID, bs_Algorithm = bundleAlgorithm, bs_Signature = hex_encode (be_sign env sk payload)\<rparr>
                 in Inr (b\<lparr>sb_Signatures := sort_slice (\<lambda>x y. bs_KeyID x < bs_KeyID y) (kept @ [new])\<rparr>))))"

section \<open>Verification\<close>

fun load_keys :: "('d, 'f, 'pk, 'sk) bundle_env \<Rightarrow> string list \<Rightarrow> (string, 'pk) gomap \<Rightarrow> bundle_error + (string, 'pk) gomap" where
  "load_keys env [] keys = Inr keys"
| "load_keys env (path # paths) keys =
     (if path = '''' then load_keys env paths keys
      else (case be_load_key env path of
              Inl e \<Rightarrow> Inl (KeyError e)
            | Inr pk \<Rightarrow> load_keys env paths (mput (bundleKeyID env pk) pk keys)))"

definition LoadBundlePublicKeys :: "('d, 'f, 'pk, 'sk) bundle_env \<Rightarrow> string list \<Rightarrow> bundle_error + (string, 'pk) gomap" where
  "LoadBundlePublicKeys env paths =
     (case load_keys env paths [] of
        Inl e \<Rightarrow> Inl e
      | Inr keys \<Rightarrow> if keys = [] then Inl NoKeysLoaded else Inr keys)"

definition signature_ok :: "('d, 'f, 'pk, 'sk) bundle_env \<Rightarrow> (string, 'pk) gomap \<Rightarrow> string \<Rightarrow> BundleSignature \<Rightarrow> bool" where
  "signature_ok env keys payload s =
     (if bs_Algorithm s \<noteq> bundleAlgorithm then False
      else (case mget keys (bs_KeyID s) of
              None \<Rightarrow> False
            | Some pk \<Rightarrow> (case hex_decode (bs_Signature s) of None \<Rightarrow> False | Some raw \<Rightarrow> be_verify env pk payload raw)))"

definition VerifyBundleSignature :: "('d, 'f, 'pk, 'sk) bundle_env \<Rightarrow> SignedBundle \<Rightarrow> (string, 'pk) gomap \<Rightarrow> bundle_error option" where
  "VerifyBundleSignature env b keys =
     (if sb_Signatures b = [] then Some NoSignatures
      else (case bundlePayload env b of
              Inl e \<Rightarrow> Some (PayloadError e)
            | Inr payload \<Rightarrow> if list_ex (signature_ok env keys payload) (sb_Signatures b) then None else Some NotVerified))"

definition cloneChecksums :: "(string, string) gomap \<Rightarrow> (string, string) gomap" where
  "cloneChecksums input = input"

definition equalChecksums :: "(string, string) gomap \<Rightarrow> (string, string) gomap \<Rightarrow> bool" where
  "equalChecksums l r \<longleftrightarrow> length l = length r \<and> list_all (\<lambda>(key, v). mget0 '''' r key = v) l"

definition validateBundleAgainstFabric ::
    "('d, 'f, 'pk, 'sk) bundle_env \<Rightarrow> ('d, 'f) FabricDef \<Rightarrow> SignedBundle \<Rightarrow> BundleFingerprint \<Rightarrow> bundle_error option" where
  "validateBundleAgainstFabric env td b fp =
     (if sb_FabricName b \<noteq> fd_Name td then Some (NameMismatch (sb_FabricName b) (fd_Name td))
      else if sb_FabricVersion b \<noteq> fd_Version td then Some (VersionMismatch (sb_FabricVersion b) (fd_Version td))
      else
        (case VerifyManifest env (fd_AgentsDir td)
                \<lparr>mf_Version = sb_Version b, mf_GeneratedAt = sb_GeneratedAt b, mf_Checksums = sb_Checksums b\<rparr> of
           Inl e \<Rightarrow> Some (ManifestError e)
         | Inr (ok, mismatches) \<Rightarrow>
             if \<not> ok then Some (ManifestMismatch mismatches)
             else if sb_BundleDigest b \<noteq> fp_BundleDigest fp then Some (DigestMismatch (sb_BundleDigest b) (fp_BundleDigest fp))
             else if \<not> equalChecksums (sb_ProfileDigests b) (fp_ProfileDigests fp) then Some ProfilesMismatch
             else None))"

definition manifest_verified :: "('d, 'f, 'pk, 'sk) bundle_env \<Rightarrow> string \<Rightarrow> bool" where
  "manifest_verified env agentsDir = (case VerifyAgentsManifest env agentsDir of Inl _ \<Rightarrow> False | Inr (ok, _) \<Rightarrow> ok)"

definition VerifySignedBundle :: "('d, 'f, 'pk, 'sk) bundle_env \<Rightarrow> ('d, 'f) FabricDef option \<Rightarrow> bundle_error + BundleVerificationResult" where
  "VerifySignedBundle env td_opt =
     (case td_opt of
        None \<Rightarrow> Inl FabricRequired
      | Some td \<Rightarrow>
          (case ComputeBundleFingerprint env td of
             Inl e \<Rightarrow> Inl e
           | Inr fp \<Rightarrow>
               (let result = \<lparr>vr_BundleDigest = fp_BundleDigest fp, vr_ProfileDigests = fp_ProfileDigests fp, vr_ManifestVerified = False,
                              vr_SignedBundleUsed = False, vr_SignatureVerified = False\<rparr>
                in if fd_AgentsDir td = '''' then Inr result
                   else if fd_TrustedBundlePublicKeys td = [] \<and> \<not> fd_RequireSignedBundles td
                   then Inr (result\<lparr>vr_ManifestVerified := manifest_verified env (fd_AgentsDir td)\<rparr>)
                   else if fd_TrustedBundlePublicKeys td = [] then Inl NoKeysConfigured
                   else
                     (case be_load_bundle env (BundlePath (fd_AgentsDir td)) of
                        Inl e \<Rightarrow> Inl (LoadError e)
                      | Inr b \<Rightarrow>
                          (case validateBundleAgainstFabric env td b fp of
                             Some e \<Rightarrow> Inl e
                           | None \<Rightarrow>
                               (case LoadBundlePublicKeys env (fd_TrustedBundlePublicKeys td) of
                                  Inl e \<Rightarrow> Inl e
                                | Inr keys \<Rightarrow>
                                    (case VerifyBundleSignature env b keys of
                                       Some e \<Rightarrow> Inl e
                                     | None \<Rightarrow>
                                         Inr \<lparr>vr_BundleDigest = sb_BundleDigest b, vr_ProfileDigests = cloneChecksums (sb_ProfileDigests b),
                                              vr_ManifestVerified = manifest_verified env (fd_AgentsDir td),
                                              vr_SignedBundleUsed = True, vr_SignatureVerified = True\<rparr>)))))))"

section \<open>Hexadecimal round trip\<close>

lemma unhex_hex_digit: "n < 16 \<Longrightarrow> unhex (hex_digit n) = Some n"
  by (auto simp: unhex_def hex_digit_def is_digit_def code_of_def)

lemma hex_roundtrip: "hex_decode (hex_encode s) = Some s"
proof (induction s)
  case (Cons c s)
  have "(of_char c :: nat) < 16 * 16" using of_char_mod_256 [of c, where 'a = nat] by linarith
  then have "of_char c div 16 < (16 :: nat)" by (rule less_mult_imp_div_less)
  with Cons show ?case by (simp add: hex_encode_def unhex_hex_digit)
qed (simp add: hex_encode_def)

section \<open>The manifest detects every change\<close>

lemma concat_map_Nil: "concat (map f xs) = [] \<longleftrightarrow> (\<forall>x \<in> set xs. f x = [])"
  by (induction xs) auto

lemma stored_mismatch_Nil:
  "mget stored rel \<noteq> None \<Longrightarrow> stored_mismatch stored current rel = [] \<longleftrightarrow> mget current rel = mget stored rel"
  by (auto simp: stored_mismatch_def split: option.splits)

lemma added_file_Nil: "added_file stored rel = [] \<longleftrightarrow> mget stored rel \<noteq> None"
  by (simp add: added_file_def)

lemma no_mismatch:
  "(\<forall>rel \<in> set (sortedKeys stored). stored_mismatch stored current rel = []) \<and> (\<forall>rel \<in> set (sortedKeys current). added_file stored rel = []) \<longleftrightarrow>
     (\<forall>rel. mget stored rel = mget current rel)" (is "?l \<longleftrightarrow> ?r")
proof
  assume l: ?l
  show ?r
  proof
    fix rel
    show "mget stored rel = mget current rel"
    proof (cases "mget stored rel")
      case (Some h)
      then have "rel \<in> set (sortedKeys stored)" by (auto simp: sortedKeys_def dest: map_of_SomeD intro: rev_image_eqI)
      with l have "stored_mismatch stored current rel = []" by blast
      with Some show ?thesis by (simp add: stored_mismatch_Nil)
    next
      case None
      then have "rel \<notin> set (sortedKeys current)" using l by (auto simp: added_file_Nil)
      then have "mget current rel = None" by (simp add: sortedKeys_def map_of_eq_None_iff)
      with None show ?thesis by simp
    qed
  qed
next
  assume r: ?r
  have keys: "rel \<in> set (sortedKeys m) \<longleftrightarrow> mget m rel \<noteq> None" for m :: "(string, string) gomap" and rel
    by (simp add: sortedKeys_def map_of_eq_None_iff)
  have "mget stored rel \<noteq> None" if "rel \<in> set (sortedKeys stored) \<or> rel \<in> set (sortedKeys current)" for rel
    using that r by (auto simp: keys)
  with r show ?l by (simp add: stored_mismatch_Nil added_file_Nil)
qed

text \<open>
  The manifest check passes exactly when nothing was changed. It is passed when the files of the agents directory that a
  manifest covers and their hashes are those of the manifest, and it names a file as soon as one was removed, changed or added.
\<close>

theorem manifest_exact:
  assumes "GenerateManifest env agentsDir = Inr current"
  shows "\<exists>mismatches. VerifyManifest env agentsDir m = Inr (\<forall>rel. mget (mf_Checksums m) rel = mget (mf_Checksums current) rel, mismatches) \<and>
    (mismatches = [] \<longleftrightarrow> (\<forall>rel. mget (mf_Checksums m) rel = mget (mf_Checksums current) rel))"
  using no_mismatch [of "mf_Checksums m" "mf_Checksums current"]
  by (auto simp: VerifyManifest_def assms Let_def concat_map_Nil)

lemma verify_manifest_ok:
  assumes "VerifyManifest env agentsDir m = Inr (True, mismatches)"
  obtains current where "GenerateManifest env agentsDir = Inr current" "\<forall>rel. mget (mf_Checksums m) rel = mget (mf_Checksums current) rel"
proof -
  from assms obtain current where c: "GenerateManifest env agentsDir = Inr current"
    by (auto simp: VerifyManifest_def split: sum.splits)
  with assms no_mismatch [of "mf_Checksums m" "mf_Checksums current"] have "\<forall>rel. mget (mf_Checksums m) rel = mget (mf_Checksums current) rel"
    by (auto simp: VerifyManifest_def Let_def concat_map_Nil)
  with c show thesis by (rule that)
qed

section \<open>Keys\<close>

lemma load_keys_trusted:
  "load_keys env paths keys = Inr keys' \<Longrightarrow> mget keys' kid = Some pk \<Longrightarrow>
     mget keys kid = Some pk \<or> (\<exists>path \<in> set paths. path \<noteq> '''' \<and> be_load_key env path = Inr pk \<and> kid = bundleKeyID env pk)"
proof (induction env paths keys rule: load_keys.induct)
  case (2 env path paths keys)
  then show ?case by (auto split: if_splits sum.splits)
qed simp

lemma equalChecksums_length: "equalChecksums l r \<Longrightarrow> length l = length r"
  by (simp add: equalChecksums_def)

lemma equalChecksums_get: "equalChecksums l r \<Longrightarrow> mget l key = Some v \<Longrightarrow> mget0 '''' r key = v"
  by (auto simp: equalChecksums_def list_all_iff dest: map_of_SomeD)

section \<open>Trust\<close>

text \<open>
  Claim C40: a fabric for which signatures are asked starts only with what a trusted key has signed. When keys are configured or
  signatures required and the fabric has an agents directory, a verification that succeeds has found, in the bundle of
  that directory, a signature over the bundle's contents by a key from one of the configured files; the bundle names
  the fabric and its version, its checksums are those of the files in the directory, none added and none missing, and its digest
  is the digest computed from the definitions that were loaded.
\<close>

theorem bundle_trusted:
  assumes "VerifySignedBundle env (Some td) = Inr res"
    and "fd_RequireSignedBundles td \<or> fd_TrustedBundlePublicKeys td \<noteq> []" and "fd_AgentsDir td \<noteq> ''''"
  shows "\<exists>b pk path sig raw payload current fp.
    be_load_bundle env (BundlePath (fd_AgentsDir td)) = Inr b \<and>
    path \<in> set (fd_TrustedBundlePublicKeys td) \<and> be_load_key env path = Inr pk \<and>
    sig \<in> set (sb_Signatures b) \<and> bs_KeyID sig = bundleKeyID env pk \<and> bs_Algorithm sig = bundleAlgorithm \<and> hex_decode (bs_Signature sig) = Some raw \<and>
    bundlePayload env b = Inr payload \<and> be_verify env pk payload raw \<and>
    sb_FabricName b = fd_Name td \<and> sb_FabricVersion b = fd_Version td \<and>
    GenerateManifest env (fd_AgentsDir td) = Inr current \<and> (\<forall>rel. mget (sb_Checksums b) rel = mget (mf_Checksums current) rel) \<and>
    ComputeBundleFingerprint env td = Inr fp \<and> vr_BundleDigest res = fp_BundleDigest fp \<and> vr_BundleDigest res = sb_BundleDigest b \<and>
    vr_SignatureVerified res"
proof -
  from assms obtain fp b keys where fp: "ComputeBundleFingerprint env td = Inr fp"
    and b: "be_load_bundle env (BundlePath (fd_AgentsDir td)) = Inr b"
    and v: "validateBundleAgainstFabric env td b fp = None"
    and k: "LoadBundlePublicKeys env (fd_TrustedBundlePublicKeys td) = Inr keys"
    and s: "VerifyBundleSignature env b keys = None"
    and res: "vr_BundleDigest res = sb_BundleDigest b" "vr_SignatureVerified res"
    by (auto simp: VerifySignedBundle_def Let_def split: sum.splits option.splits if_splits)
  let ?m = "\<lparr>mf_Version = sb_Version b, mf_GeneratedAt = sb_GeneratedAt b, mf_Checksums = sb_Checksums b\<rparr>"
  from v have v': "sb_FabricName b = fd_Name td" "sb_FabricVersion b = fd_Version td" "sb_BundleDigest b = fp_BundleDigest fp"
    by (simp_all add: validateBundleAgainstFabric_def split: if_splits sum.splits prod.splits)
  from v obtain mismatches where "VerifyManifest env (fd_AgentsDir td) ?m = Inr (True, mismatches)"
    by (auto simp: validateBundleAgainstFabric_def split: if_splits sum.splits prod.splits)
  then obtain current where c: "GenerateManifest env (fd_AgentsDir td) = Inr current"
      "\<forall>rel. mget (sb_Checksums b) rel = mget (mf_Checksums current) rel"
    by (rule verify_manifest_ok) simp
  from s obtain payload sig where p: "bundlePayload env b = Inr payload" and sig: "sig \<in> set (sb_Signatures b)" "signature_ok env keys payload sig"
    by (auto simp: VerifyBundleSignature_def list_ex_iff split: if_splits sum.splits)
  from sig(2) obtain pk raw where pk: "mget keys (bs_KeyID sig) = Some pk" "hex_decode (bs_Signature sig) = Some raw" "be_verify env pk payload raw"
      "bs_Algorithm sig = bundleAlgorithm"
    by (auto simp: signature_ok_def split: if_splits option.splits)
  from k have "load_keys env (fd_TrustedBundlePublicKeys td) [] = Inr keys"
    by (auto simp: LoadBundlePublicKeys_def split: sum.splits if_splits)
  from load_keys_trusted [OF this pk(1)] obtain path where
    "path \<in> set (fd_TrustedBundlePublicKeys td)" "be_load_key env path = Inr pk" "bs_KeyID sig = bundleKeyID env pk" by auto
  with b pk sig(1) p v' c fp res show ?thesis by metis
qed

lemma count_insert_slice:
  "length (filter p (insert_slice lt x xs)) = length (filter p (x # xs))"
  by (induction xs) auto

lemma count_sort_slice: "length (filter p (sort_slice lt xs)) = length (filter p xs)"
  by (induction xs) (simp_all add: count_insert_slice)

text \<open>
  A bundle that was signed verifies with the key of the signer, whatever signatures it carried before. Signing does not change
  what is signed, leaves the signatures of other keys in place, and replaces an earlier signature of the same key.
\<close>

theorem sign_then_verify:
  assumes "\<forall>m. be_verify env (be_public env sk) m (be_sign env sk m)" and "SignBundle env b sk = Inr b'"
    and "mget keys (bundleKeyID env (be_public env sk)) = Some (be_public env sk)"
  shows "VerifyBundleSignature env b' keys = None \<and> bundlePayload env b' = bundlePayload env b \<and>
    (\<forall>s. bs_KeyID s \<noteq> bundleKeyID env (be_public env sk) \<longrightarrow> (s \<in> set (sb_Signatures b') \<longleftrightarrow> s \<in> set (sb_Signatures b))) \<and>
    length (filter (\<lambda>s. bs_KeyID s = bundleKeyID env (be_public env sk)) (sb_Signatures b')) = 1"
proof -
  let ?id = "bundleKeyID env (be_public env sk)"
  from assms(2) obtain payload where p: "bundlePayload env b = Inr payload"
    by (auto simp: SignBundle_def split: if_splits sum.splits)
  define new where "new = \<lparr>bs_KeyID = ?id, bs_Algorithm = bundleAlgorithm, bs_Signature = hex_encode (be_sign env sk payload)\<rparr>"
  let ?kept = "filter (\<lambda>s. bs_KeyID s \<noteq> ?id) (sb_Signatures b)"
  have b': "b' = b\<lparr>sb_Signatures := sort_slice (\<lambda>x y. bs_KeyID x < bs_KeyID y) (?kept @ [new])\<rparr>"
    using assms(2) p by (simp add: SignBundle_def new_def Let_def split: if_splits)
  have p': "bundlePayload env b' = Inr payload" using p by (simp add: b' bundlePayload_def)
  have "signature_ok env keys payload new"
    using assms(1,3) by (simp add: signature_ok_def new_def hex_roundtrip)
  then have "VerifyBundleSignature env b' keys = None"
    using p' by (simp add: VerifyBundleSignature_def b' list_ex_iff flip: length_0_conv)
  moreover have "length (filter (\<lambda>s. bs_KeyID s = ?id) (sb_Signatures b')) = 1"
    by (simp add: b' new_def count_sort_slice)
  moreover have "s \<in> set (sb_Signatures b') \<longleftrightarrow> s \<in> set (sb_Signatures b)" if "bs_KeyID s \<noteq> ?id" for s
    using that by (auto simp: b' new_def)
  ultimately show ?thesis using p p' by simp
qed

section \<open>Witnesses\<close>

text \<open>Hashes and signatures that can be computed: the text itself, and the text behind the key.\<close>

definition demo_bundle :: SignedBundle where
  "demo_bundle =
     \<lparr>sb_Version = 1, sb_GeneratedAt = '''', sb_FabricName = ''n'', sb_FabricVersion = 1, sb_Checksums = [(''a.md'', hex_encode ''x'')],
      sb_BundleDigest = hex_encode ''f'', sb_ProfileDigests = [],
      sb_Signatures = [\<lparr>bs_KeyID = hex_encode ''K'', bs_Algorithm = ''ed25519'', bs_Signature = hex_encode ''Kn''\<rparr>]\<rparr>"

definition demo_bundle_env :: "(unit, unit, string, string) bundle_env" where
  "demo_bundle_env =
     \<lparr>be_sha256 = (\<lambda>s. s), be_verify = (\<lambda>pk m s. s = pk @ m), be_sign = (\<lambda>sk m. sk @ m), be_public = (\<lambda>sk. sk), be_valid_private = (\<lambda>_. True),
      be_key_bytes = (\<lambda>pk. pk), be_load_key = (\<lambda>_. Inr ''K''),
      be_walk = (\<lambda>_. [WalkDir '''', WalkFile ''a.md'' (Inr ''x''), WalkFile ''run.sh'' (Inr ''y'')]), be_now = '''',
      be_read_file = (\<lambda>_. Inr None), be_load_manifest = (\<lambda>_. Inr \<lparr>mf_Version = 1, mf_GeneratedAt = '''', mf_Checksums = []\<rparr>),
      be_load_bundle = (\<lambda>_. Inr demo_bundle),
      be_payload_json = (\<lambda>b. Inr (sb_FabricName b)), be_profile_json = (\<lambda>_. Inr ''p''), be_fabric_json = (\<lambda>_. Inr ''f'')\<rparr>"

definition demo_fabric :: "string \<Rightarrow> string list \<Rightarrow> (unit, unit) FabricDef" where
  "demo_fabric dir keys =
     \<lparr>fd_Name = ''n'', fd_Version = 1, fd_AgentsDir = dir, fd_Agents = [], fd_TrustedBundlePublicKeys = keys,
      fd_RequireSignedBundles = (keys \<noteq> []), fd_Rest = ()\<rparr>"

lemma covered_files:
  "to_lower (path_ext ''a.md'') \<in> set manifestExtensions" "to_lower (path_ext ''run.sh'') \<notin> set manifestExtensions"
  by (simp_all add: path_ext_def to_lower_def char_lower_def slash_def manifestExtensions_def Let_def)

lemma demo_manifest:
  "GenerateManifest demo_bundle_env ''d'' = Inr \<lparr>mf_Version = 1, mf_GeneratedAt = '''', mf_Checksums = [(''a.md'', hex_encode ''x'')]\<rparr>"
  using covered_files by (simp add: GenerateManifest_def demo_bundle_env_def hash_data_def)

theorem manifest_exact_witness:
  "\<exists>mismatches. VerifyManifest demo_bundle_env ''d'' \<lparr>mf_Version = 1, mf_GeneratedAt = '''', mf_Checksums = [(''b.md'', '''')]\<rparr> = Inr (False, mismatches)"
proof -
  let ?stored = "[(''b.md'', '''')]" and ?current = "[(''a.md'', hex_encode ''x'')]"
  have "mget ?stored ''b.md'' \<noteq> mget ?current ''b.md''" by simp
  then have "(\<forall>rel. mget ?stored rel = mget ?current rel) = False" by blast
  with manifest_exact [OF demo_manifest, of "\<lparr>mf_Version = 1, mf_GeneratedAt = '''', mf_Checksums = ?stored\<rparr>"] show ?thesis
    by (simp only: Manifest.select_convs) blast
qed

lemma demo_verify:
  "VerifyManifest demo_bundle_env ''d'' \<lparr>mf_Version = v, mf_GeneratedAt = t, mf_Checksums = [(''a.md'', hex_encode ''x'')]\<rparr> = Inr (True, [])"
  by (simp add: VerifyManifest_def demo_manifest stored_mismatch_def added_file_def sortedKeys_def mget0_def)

lemma modified_demo: "VerifyAgentsManifest demo_bundle_env ''d'' = Inr (False, [''added: a.md''])"
proof -
  have "be_load_manifest demo_bundle_env p = Inr \<lparr>mf_Version = 1, mf_GeneratedAt = '''', mf_Checksums = []\<rparr>" for p
    by (simp add: demo_bundle_env_def)
  then show ?thesis by (simp add: VerifyAgentsManifest_def VerifyManifest_def demo_manifest added_file_def sortedKeys_def)
qed

lemma demo_load: "be_load_bundle demo_bundle_env p = Inr demo_bundle"
  by (simp add: demo_bundle_env_def)

lemma demo_digest: "hash_data demo_bundle_env x = hex_encode x" "be_fabric_json demo_bundle_env f = Inr ''f''"
  by (simp_all add: hash_data_def demo_bundle_env_def)

lemma demo_verification:
  "VerifySignedBundle demo_bundle_env (Some (demo_fabric ''d'' [''k''])) =
     Inr \<lparr>vr_BundleDigest = hex_encode ''f'', vr_ProfileDigests = [], vr_ManifestVerified = False, vr_SignedBundleUsed = True, vr_SignatureVerified = True\<rparr>"
proof -
  have fp: "ComputeBundleFingerprint demo_bundle_env (demo_fabric ''d'' [''k'']) = Inr \<lparr>fp_BundleDigest = hex_encode ''f'', fp_ProfileDigests = []\<rparr>"
    by (simp add: ComputeBundleFingerprint_def stableDigest_def demo_digest demo_fabric_def)
  have "validateBundleAgainstFabric demo_bundle_env (demo_fabric ''d'' [''k'']) demo_bundle
      \<lparr>fp_BundleDigest = hex_encode ''f'', fp_ProfileDigests = []\<rparr> = None"
    by (simp add: validateBundleAgainstFabric_def demo_bundle_def demo_fabric_def demo_verify equalChecksums_def)
  moreover have "LoadBundlePublicKeys demo_bundle_env [''k''] = Inr [(hex_encode ''K'', ''K'')]"
    by (simp add: LoadBundlePublicKeys_def bundleKeyID_def demo_bundle_env_def)
  moreover have "VerifyBundleSignature demo_bundle_env demo_bundle [(hex_encode ''K'', ''K'')] = None"
    by (simp add: VerifyBundleSignature_def bundlePayload_def signature_ok_def bundleAlgorithm_def hex_roundtrip demo_bundle_env_def demo_bundle_def)
  moreover have "manifest_verified demo_bundle_env ''d'' = False" using modified_demo by (simp add: manifest_verified_def)
  ultimately show ?thesis
    using fp by (simp add: VerifySignedBundle_def demo_fabric_def demo_load cloneChecksums_def) (simp add: demo_bundle_def)
qed

theorem bundle_trusted_witness:
  "\<exists>path sig. path \<in> set (fd_TrustedBundlePublicKeys (demo_fabric ''d'' [''k''])) \<and> be_load_key demo_bundle_env path = Inr ''K'' \<and>
     sig \<in> set (sb_Signatures demo_bundle) \<and> bs_KeyID sig = bundleKeyID demo_bundle_env ''K''"
proof -
  have "fd_RequireSignedBundles (demo_fabric ''d'' [''k'']) \<or> fd_TrustedBundlePublicKeys (demo_fabric ''d'' [''k'']) \<noteq> []"
    "fd_AgentsDir (demo_fabric ''d'' [''k'']) \<noteq> ''''"
    by (simp_all add: demo_fabric_def)
  from bundle_trusted [OF demo_verification this] obtain pk path sig where
    "path \<in> set (fd_TrustedBundlePublicKeys (demo_fabric ''d'' [''k'']))" "be_load_key demo_bundle_env path = Inr pk"
    "sig \<in> set (sb_Signatures demo_bundle)" "bs_KeyID sig = bundleKeyID demo_bundle_env pk"
    by (auto simp: demo_load)
  moreover then have "pk = ''K''" by (simp add: demo_bundle_env_def)
  ultimately show ?thesis by blast
qed

theorem sign_then_verify_witness:
  "\<exists>b'. SignBundle demo_bundle_env demo_bundle ''L'' = Inr b' \<and> VerifyBundleSignature demo_bundle_env b' [(hex_encode ''L'', ''L'')] = None"
proof -
  obtain b' where b': "SignBundle demo_bundle_env demo_bundle ''L'' = Inr b'"
    by (simp add: SignBundle_def bundlePayload_def demo_bundle_env_def Let_def)
  have "mget [(hex_encode ''L'', ''L'')] (bundleKeyID demo_bundle_env (be_public demo_bundle_env ''L'')) = Some (be_public demo_bundle_env ''L'')"
    by (simp add: bundleKeyID_def demo_bundle_env_def)
  from sign_then_verify [OF _ b' this] b' show ?thesis by (auto simp: demo_bundle_env_def)
qed

section \<open>What verification lets pass\<close>

text \<open>Without an agents directory nothing is verified, even when signatures are required.\<close>

lemma required_signature_bypassed:
  "fd_RequireSignedBundles (demo_fabric '''' [''k'']) \<and>
   (\<exists>res. VerifySignedBundle demo_bundle_env (Some (demo_fabric '''' [''k''])) = Inr res \<and> \<not> vr_SignatureVerified res)"
  by (auto simp: VerifySignedBundle_def ComputeBundleFingerprint_def stableDigest_def demo_bundle_env_def demo_fabric_def)

text \<open>Without keys a directory whose files do not match its manifest is no error either.\<close>

lemma modified_files_accepted:
  "\<exists>res mismatches. VerifyAgentsManifest demo_bundle_env ''d'' = Inr (False, mismatches) \<and>
     VerifySignedBundle demo_bundle_env (Some (demo_fabric ''d'' [])) = Inr res"
proof -
  have "\<exists>res. VerifySignedBundle demo_bundle_env (Some (demo_fabric ''d'' [])) = Inr res"
    by (simp add: VerifySignedBundle_def ComputeBundleFingerprint_def stableDigest_def demo_bundle_env_def demo_fabric_def)
  then show ?thesis using modified_demo by blast
qed

text \<open>Programs beside the definitions are not covered: two directories that differ in a script have the same manifest.\<close>

lemma scripts_not_covered:
  assumes "to_lower (path_ext rel) \<notin> set manifestExtensions"
  shows "walk_checksums env (WalkFile rel c1 # ws) sums = walk_checksums env (WalkFile rel c2 # ws) sums"
  using assms by simp

text \<open>A missing key counts as an empty digest.\<close>

lemma equal_checksums_blank: "equalChecksums [(''a'', '''')] [(''b'', ''x'')]"
  by (simp add: equalChecksums_def mget0_def)

end
