(* ===== verification/Materialize.thy ===== *)
theory Materialize
  imports Storage
begin

text \<open>
  Local copies of storage tiers (internal/runtime/materialize.go): a tier is copied into a directory, commands change the
  directory, and the changes are written back. What a storage promises is the locale \<open>tier_store\<close>, interpreted for
  the scratch tier of the local storage. The directory is the map of its regular files by their relative paths.
\<close>

section \<open>A storage tier and its copy\<close>

record ('w, 'e) TierStorage =
  sr_ListAll :: "'w \<Rightarrow> 'e + string list"
  sr_Read :: "string \<Rightarrow> 'w \<Rightarrow> 'e + string"
  sr_Write :: "string \<Rightarrow> string \<Rightarrow> 'w \<Rightarrow> 'w \<times> 'e option"
  sr_Delete :: "string \<Rightarrow> 'w \<Rightarrow> 'w \<times> 'e option"

record stagedTier =
  sg_dir :: "(string, string) gomap"
  sg_files :: "string list"

text \<open>
  The outcomes of the system calls on the directory: removing it may fail and leave some of its files; making a directory, writing, walking to
  and reading a file may fail.
\<close>

record 'e stage_io =
  si_mktemp :: "'e option"
  si_remove :: "('e \<times> (string \<Rightarrow> bool)) option"
  si_mkdir :: "'e option"
  si_parent :: "string \<Rightarrow> 'e option"
  si_write :: "string \<Rightarrow> 'e option"
  si_walk :: "string \<Rightarrow> 'e option"
  si_read :: "string \<Rightarrow> 'e option"

fun copy_files :: "('w, 'e) TierStorage \<Rightarrow> 'e stage_io \<Rightarrow> 'w \<Rightarrow> string list \<Rightarrow> (string, string) gomap \<Rightarrow> string list \<Rightarrow>
    (string, string) gomap \<times> ('e + string list)" where
  "copy_files st io w [] dir known = (dir, Inr known)"
| "copy_files st io w (rel # rels) dir known =
     (case sr_Read st rel w of
        Inl e \<Rightarrow> (dir, Inl e)
      | Inr data \<Rightarrow>
          (case si_parent io rel of
             Some e \<Rightarrow> (dir, Inl e)
           | None \<Rightarrow>
               (case si_write io rel of
                  Some e \<Rightarrow> (dir, Inl e)
                | None \<Rightarrow> copy_files st io w rels (mput rel data dir) (if rel \<in> set known then known else known @ [rel]))))"

definition refreshFromStorage :: "('w, 'e) TierStorage \<Rightarrow> 'e stage_io \<Rightarrow> 'w \<Rightarrow> string list \<Rightarrow> stagedTier \<Rightarrow> stagedTier \<times> 'e option" where
  "refreshFromStorage st io w files s =
     (case si_remove io of
        Some (e, kept) \<Rightarrow> (s\<lparr>sg_dir := filter (\<lambda>(p, _). kept p) (sg_dir s)\<rparr>, Some e)
      | None \<Rightarrow>
          (case si_mkdir io of
             Some e \<Rightarrow> (s\<lparr>sg_dir := []\<rparr>, Some e)
           | None \<Rightarrow>
               (case copy_files st io w files [] [] of
                  (dir, Inl e) \<Rightarrow> (s\<lparr>sg_dir := dir\<rparr>, Some e)
                | (dir, Inr known) \<Rightarrow> (s\<lparr>sg_dir := dir, sg_files := known\<rparr>, None))))"

definition Refresh :: "('w, 'e) TierStorage \<Rightarrow> 'e stage_io \<Rightarrow> 'w \<Rightarrow> stagedTier \<Rightarrow> stagedTier \<times> 'e option" where
  "Refresh st io w s = (case sr_ListAll st w of Inl e \<Rightarrow> (s, Some e) | Inr files \<Rightarrow> refreshFromStorage st io w files s)"

definition newStagedTier :: "('w, 'e) TierStorage \<Rightarrow> 'e stage_io \<Rightarrow> 'w \<Rightarrow> 'e + stagedTier" where
  "newStagedTier st io w =
     (case si_mktemp io of
        Some e \<Rightarrow> Inl e
      | None \<Rightarrow>
          (case sr_ListAll st w of
             Inl e \<Rightarrow> Inl e
           | Inr files \<Rightarrow>
               (case refreshFromStorage st io w files \<lparr>sg_dir = [], sg_files = []\<rparr> of
                  (s, Some e) \<Rightarrow> Inl e
                | (s, None) \<Rightarrow> Inr s)))"

text \<open>The files in the order of \<open>filepath.WalkDir\<close>, by the elements of their paths.\<close>

definition walk_order :: "(string, string) gomap \<Rightarrow> string list" where
  "walk_order dir = sort_key (split_on slash) (mkeys dir)"

fun write_back :: "('w, 'e) TierStorage \<Rightarrow> 'e stage_io \<Rightarrow> (string, string) gomap \<Rightarrow> string list \<Rightarrow> 'w \<Rightarrow> 'w \<times> 'e option" where
  "write_back st io dir [] w = (w, None)"
| "write_back st io dir (rel # rels) w =
     (case si_walk io rel of
        Some e \<Rightarrow> (w, Some e)
      | None \<Rightarrow>
          (case si_read io rel of
             Some e \<Rightarrow> (w, Some e)
           | None \<Rightarrow>
               (case sr_Write st rel (mget0 '''' dir rel) w of
                  (w', Some e) \<Rightarrow> (w', Some e)
                | (w', None) \<Rightarrow> write_back st io dir rels w')))"

text \<open>Files that were copied and are gone are deleted; the order, that of a Go map, is that of the list.\<close>

fun delete_gone :: "('w, 'e) TierStorage \<Rightarrow> string list \<Rightarrow> string list \<Rightarrow> 'w \<Rightarrow> 'w \<times> 'e option" where
  "delete_gone st current [] w = (w, None)"
| "delete_gone st current (rel # rels) w =
     (if rel \<in> set current then delete_gone st current rels w
      else (case sr_Delete st rel w of
              (w', Some e) \<Rightarrow> (w', Some e)
            | (w', None) \<Rightarrow> delete_gone st current rels w'))"

definition Sync :: "('w, 'e) TierStorage \<Rightarrow> 'e stage_io \<Rightarrow> stagedTier \<Rightarrow> 'w \<Rightarrow> 'w \<times> stagedTier \<times> 'e option" where
  "Sync st io s w =
     (let current = walk_order (sg_dir s)
      in case write_back st io (sg_dir s) current w of
           (w1, Some e) \<Rightarrow> (w1, s, Some e)
         | (w1, None) \<Rightarrow>
             (case delete_gone st current (sg_files s) w1 of
                (w2, Some e) \<Rightarrow> (w2, s, Some e)
              | (w2, None) \<Rightarrow> (w2, s\<lparr>sg_files := current\<rparr>, None)))"

definition Close :: "'e stage_io \<Rightarrow> stagedTier \<Rightarrow> stagedTier \<times> 'e option" where
  "Close io s =
     (case si_remove io of
        Some (e, kept) \<Rightarrow> (s\<lparr>sg_dir := filter (\<lambda>(p, _). kept p) (sg_dir s)\<rparr>, Some e)
      | None \<Rightarrow> (s\<lparr>sg_dir := []\<rparr>, None))"

definition HasPathPrefix :: "string \<Rightarrow> string \<Rightarrow> bool" where
  "HasPathPrefix path pre =
     (let pre = trim_slashes pre; path = trim_slashes path
      in pre = '''' \<or> path = pre \<or> has_prefix path (pre @ ''/''))"

section \<open>Workspaces\<close>

record ('w, 'e) MaterializedTier =
  mt_Path :: string
  mt_Refresh :: "'w \<Rightarrow> 'w \<times> 'e option"
  mt_Sync :: "'w \<Rightarrow> 'w \<times> 'e option"
  mt_Close :: "'w \<Rightarrow> 'w \<times> 'e option"

record ('w, 'e) Workspace =
  wk_Scratch :: "('w, 'e) MaterializedTier"
  wk_Agent :: "('w, 'e) MaterializedTier"
  wk_Shared :: "('w, 'e) MaterializedTier"

definition OpenWorkspace :: "(StorageTier \<Rightarrow> 'w \<Rightarrow> 'w \<times> ('e + ('w, 'e) MaterializedTier)) \<Rightarrow> 'w \<Rightarrow> 'w \<times> ('e + ('w, 'e) Workspace)" where
  "OpenWorkspace materialize w0 =
     (case materialize TierScratch w0 of
        (w1, Inl e) \<Rightarrow> (w1, Inl e)
      | (w1, Inr scratch) \<Rightarrow>
          (case materialize TierAgent w1 of
             (w2, Inl e) \<Rightarrow> (fst (mt_Close scratch w2), Inl e)
           | (w2, Inr agent) \<Rightarrow>
               (case materialize TierShared w2 of
                  (w3, Inl e) \<Rightarrow> (fst (mt_Close scratch (fst (mt_Close agent w3))), Inl e)
                | (w3, Inr shared) \<Rightarrow> (w3, Inr \<lparr>wk_Scratch = scratch, wk_Agent = agent, wk_Shared = shared\<rparr>))))"

definition TierPaths :: "('w, 'e) Workspace option \<Rightarrow> string list" where
  "TierPaths wk = (case wk of None \<Rightarrow> [] | Some k \<Rightarrow> [mt_Path (wk_Scratch k), mt_Path (wk_Agent k), mt_Path (wk_Shared k)])"

fun until_error :: "('w \<Rightarrow> 'w \<times> 'e option) list \<Rightarrow> 'w \<Rightarrow> 'w \<times> 'e option" where
  "until_error [] w = (w, None)"
| "until_error (f # fs) w = (case f w of (w', Some e) \<Rightarrow> (w', Some e) | (w', None) \<Rightarrow> until_error fs w')"

fun first_error :: "('w \<Rightarrow> 'w \<times> 'e option) list \<Rightarrow> 'w \<Rightarrow> 'w \<times> 'e option" where
  "first_error [] w = (w, None)"
| "first_error (f # fs) w =
     (case f w of (w', e) \<Rightarrow> (case first_error fs w' of (w'', e') \<Rightarrow> (w'', if e = None then e' else e)))"

definition workspace_Sync :: "('w, 'e) Workspace option \<Rightarrow> 'w \<Rightarrow> 'w \<times> 'e option" where
  "workspace_Sync wk w =
     (case wk of None \<Rightarrow> (w, None) | Some k \<Rightarrow> until_error [mt_Sync (wk_Scratch k), mt_Sync (wk_Agent k), mt_Sync (wk_Shared k)] w)"

definition workspace_Refresh :: "('w, 'e) Workspace option \<Rightarrow> 'w \<Rightarrow> 'w \<times> 'e option" where
  "workspace_Refresh wk w =
     (case wk of None \<Rightarrow> (w, None) | Some k \<Rightarrow> until_error [mt_Refresh (wk_Shared k), mt_Refresh (wk_Agent k), mt_Refresh (wk_Scratch k)] w)"

definition workspace_Close :: "('w, 'e) Workspace option \<Rightarrow> 'w \<Rightarrow> 'w \<times> 'e option" where
  "workspace_Close wk w =
     (case wk of None \<Rightarrow> (w, None) | Some k \<Rightarrow> first_error [mt_Close (wk_Shared k), mt_Close (wk_Agent k), mt_Close (wk_Scratch k)] w)"

section \<open>What a storage promises\<close>

text \<open>
  Over the files with valid names, as \<open>contents\<close> gives them: the listing has every file, reading gives its contents, a write or a deletion
  that succeeds changes that file, and others at most where they are below a deleted one.
\<close>

locale tier_store =
  fixes st :: "('w, 'e) TierStorage"
    and valid :: "string \<Rightarrow> bool"
    and contents :: "'w \<Rightarrow> string \<Rightarrow> string option"
  assumes read_contents: "valid p \<Longrightarrow> sr_Read st p w = Inr d \<Longrightarrow> contents w p = Some d"
    and write_contents: "valid p \<Longrightarrow> valid q \<Longrightarrow> sr_Write st p d w = (w', None) \<Longrightarrow> contents w' q = (if q = p then Some d else contents w q)"
    and delete_same: "valid p \<Longrightarrow> sr_Delete st p w = (w', None) \<Longrightarrow> contents w' p = None"
    and delete_other: "valid p \<Longrightarrow> valid q \<Longrightarrow> \<not> below p q \<Longrightarrow> sr_Delete st p w = (w', None) \<Longrightarrow> contents w' q = contents w q"
begin

lemma write_back_contents:
  "write_back st io dir rels w = (w', None) \<Longrightarrow> \<forall>p \<in> set rels. valid p \<Longrightarrow> valid q \<Longrightarrow>
     contents w' q = (if q \<in> set rels then Some (mget0 '''' dir q) else contents w q)"
proof (induction rels arbitrary: w)
  case (Cons rel rels)
  then obtain w1 where w1: "sr_Write st rel (mget0 '''' dir rel) w = (w1, None)" "write_back st io dir rels w1 = (w', None)"
    by (auto split: option.splits prod.splits)
  with Cons write_contents [of rel q "mget0 '''' dir rel" w w1] show ?case by auto
qed simp

lemma delete_gone_contents:
  "delete_gone st current rels w = (w', None) \<Longrightarrow> \<forall>p \<in> set rels. valid p \<Longrightarrow> valid q \<Longrightarrow>
     (\<forall>p \<in> set rels - set current. \<not> below p q) \<Longrightarrow> contents w' q = contents w q"
proof (induction rels arbitrary: w)
  case (Cons rel rels)
  show ?case
  proof (cases "rel \<in> set current")
    case False
    with Cons.prems obtain w1 where "sr_Delete st rel w = (w1, None)" "delete_gone st current rels w1 = (w', None)"
      by (auto split: option.splits prod.splits)
    with Cons False delete_other [of rel q w w1] show ?thesis by simp
  qed (use Cons in simp)
qed simp

lemma delete_gone_none:
  "delete_gone st current rels w = (w', None) \<Longrightarrow> \<forall>p \<in> set rels. valid p \<Longrightarrow> q \<in> set rels - set current \<Longrightarrow>
     (\<forall>p \<in> set rels - set current. below p q \<longrightarrow> p = q) \<Longrightarrow> contents w' q = None"
proof (induction rels arbitrary: w)
  case (Cons rel rels)
  show ?case
  proof (cases "rel \<in> set current")
    case False
    with Cons.prems obtain w1 where d: "sr_Delete st rel w = (w1, None)" "delete_gone st current rels w1 = (w', None)"
      by (auto split: option.splits prod.splits)
    show ?thesis
    proof (cases "q \<in> set rels")
      case True
      with Cons d show ?thesis by auto
    next
      case q: False
      with Cons.prems have "q = rel" by simp
      with d(1) Cons.prems delete_same have "contents w1 q = None" by simp
      moreover have "\<forall>p \<in> set rels - set current. \<not> below p q" using Cons.prems q by auto
      ultimately show ?thesis using delete_gone_contents [OF d(2), of q] Cons.prems by auto
    qed
  qed (use Cons in auto)
qed simp

end

section \<open>The scratch tier of the local storage\<close>

text \<open>The operations of \<open>Storage\<close> on the scratch tier as a tier, with the outcome of each write and deletion given.\<close>

definition scratch_tier :: "Storage \<Rightarrow> (string \<Rightarrow> write_io) \<Rightarrow> (string \<Rightarrow> string \<Rightarrow> bool) \<Rightarrow> string list \<Rightarrow> (files, storage_error) TierStorage" where
  "scratch_tier s wio kept walk =
     \<lparr>sr_ListAll = (\<lambda>_. Inr (ListAll walk '''')), sr_Read = (\<lambda>p fs. Read s TierScratch p fs),
      sr_Write = (\<lambda>p d fs. Write s TierScratch p d (wio p) fs), sr_Delete = (\<lambda>p fs. Delete s TierScratch p (kept p) fs)\<rparr>"

text \<open>Names that a walk gives: all their elements are proper names.\<close>

definition tier_name :: "string \<Rightarrow> bool" where
  "tier_name p \<longleftrightarrow> (\<forall>e \<in> set (split_on slash p). plain e)"

definition scratch_name :: "Storage \<Rightarrow> string \<Rightarrow> bool" where
  "scratch_name s p \<longleftrightarrow> is_abs (tierPath s TierScratch) \<and> tier_name p"

definition scratch_contents :: "Storage \<Rightarrow> files \<Rightarrow> string \<Rightarrow> string option" where
  "scratch_contents s fs p = mget fs (path_join2 (tierPath s TierScratch) p)"

lemma tier_name_elems: "tier_name p \<Longrightarrow> rel_elems p = split_on slash p"
  using fold_clean_plain [of "split_on slash p" False "[]"] by (simp add: rel_elems_def clean_elems_def tier_name_def)

lemma tier_name_join:
  assumes "is_abs base" "tier_name p"
  shows "path_elems (path_join2 base p) = path_elems base @ split_on slash p"
proof -
  have "''..'' \<notin> set (rel_elems p)" using assms(2) by (auto simp: tier_name_elems tier_name_def plain_def)
  then show ?thesis using join_below [OF assms(1)] assms(2) by (simp add: tier_name_elems)
qed

lemma split_on_inject: "split_on d p = split_on d q \<Longrightarrow> p = q"
  by (metis join_split_on)

lemma split_clean_join:
  assumes "is_abs base" "tier_name p"
  shows "split_on slash (path_join2 base p) = '''' # path_elems (path_join2 base p)"
proof -
  let ?f = "path_join2 base p"
  have base: "base \<noteq> ''''" using assms(1) by (auto simp: is_abs_def has_prefix_def)
  moreover have "is_abs (base @ ''/'' @ p)" using assms(1) by (auto simp: is_abs_def has_prefix_iff)
  then have "path_clean (path_clean (base @ ''/'' @ p)) = path_clean (base @ ''/'' @ p)"
    by (metis is_abs_clean path_clean_abs path_elems_clean)
  ultimately have "path_clean ?f = ?f" by (simp add: path_join2_def)
  then have f: "?f = ''/'' @ join ''/'' (path_elems ?f)" using path_clean_abs elems_join(2) [OF assms(1)] by metis
  have ne: "path_elems ?f \<noteq> []" using tier_name_join [OF assms] by simp
  have "split_on slash (join ''/'' (path_elems ?f)) = path_elems ?f"
    using split_on_join [of "path_elems ?f" slash] ne path_elems_plain [OF elems_join(2) [OF assms(1)]]
    by (auto simp: slash_def plain_def)
  then have "split_on slash (''/'' @ join ''/'' (path_elems ?f)) = '''' # path_elems ?f" by (simp add: slash_def)
  then show ?thesis using f by metis
qed

lemma tier_name_inject:
  "is_abs base \<Longrightarrow> tier_name p \<Longrightarrow> tier_name q \<Longrightarrow> path_join2 base p = path_join2 base q \<Longrightarrow> p = q"
  by (metis tier_name_join same_append_eq split_on_inject)

lemma split_on_prefix: "has_prefix q (p @ [d]) \<Longrightarrow> \<exists>es. es \<noteq> [] \<and> split_on d q = split_on d p @ es"
  using split_on_append2 [of d p] by (auto simp: has_prefix_iff)

lemma join_append: "ws \<noteq> [] \<Longrightarrow> vs \<noteq> [] \<Longrightarrow> join sep (ws @ vs) = join sep ws @ sep @ join sep vs"
  by (induction sep ws rule: join.induct) (auto simp: neq_Nil_conv)

lemma split_on_prefix_iff:
  assumes "split_on d q = split_on d p @ es"
  shows "q = p \<or> has_prefix q (p @ [d])"
proof (cases es)
  case Nil
  with assms show ?thesis by (metis append_Nil2 split_on_inject)
next
  case (Cons e es')
  have "q = join [d] (split_on d p @ e # es')" using join_split_on [of d q] assms Cons by simp
  also have "\<dots> = p @ [d] @ join [d] (e # es')"
    using join_append [of "split_on d p" "e # es'" "[d]"] join_split_on [of d p] by simp
  finally show ?thesis by (auto simp: has_prefix_iff)
qed

lemma below_join:
  assumes "is_abs base" "tier_name p" "tier_name q"
  shows "below (path_join2 base p) (path_join2 base q) \<Longrightarrow> below p q"
proof -
  let ?p = "path_join2 base p" and ?q = "path_join2 base q"
  have "path_elems ?p = path_elems base @ split_on slash p" "path_elems ?q = path_elems base @ split_on slash q"
    using tier_name_join assms by blast+
  moreover have "split_on slash ?p = '''' # path_elems ?p" "split_on slash ?q = '''' # path_elems ?q"
    using split_clean_join assms by blast+
  moreover assume "below ?p ?q"
  then have "\<exists>es. split_on slash ?q = split_on slash ?p @ es"
    using split_on_prefix [of ?q ?p slash] by (auto simp: below_def slash_def)
  ultimately obtain es where "split_on slash q = split_on slash p @ es" by auto
  then show "below p q" using split_on_prefix_iff [of slash q p es] by (auto simp: below_def slash_def)
qed

lemma read_scratch: "Read s TierScratch p fs = Inr d \<Longrightarrow> is_abs (tierPath s TierScratch) \<Longrightarrow> scratch_contents s fs p = Some d"
  by (auto simp: Read_def scratch_contents_def dest: fullPath_below(2) split: sum.splits option.splits)

lemma write_scratch:
  "Write s TierScratch p d io fs = (fs', None) \<Longrightarrow> is_abs (tierPath s TierScratch) \<Longrightarrow> fs' = mput (path_join2 (tierPath s TierScratch) p) d fs"
  by (auto simp: Write_def dest: fullPath_below(2) split: sum.splits option.splits write_io.splits)

lemma map_of_filter_key: "map_of (filter (\<lambda>(k, _). P k) m) k = (if P k then map_of m k else None)"
  by (induction m) auto

lemma delete_scratch:
  assumes "Delete s TierScratch p kept fs = (fs', None)" and "is_abs (tierPath s TierScratch)"
  shows "mget fs' k = (if below (path_join2 (tierPath s TierScratch) p) k then None else mget fs k)"
proof -
  let ?full = "path_join2 (tierPath s TierScratch) p"
  from assms have f: "fs' = filter (\<lambda>(k, _). \<not> below ?full k \<or> kept k) fs" and none: "\<not> list_ex (\<lambda>(k, _). below ?full k) fs'"
    by (auto simp: Delete_def Let_def dest: fullPath_below(2) split: sum.splits option.splits if_splits)
  have "mget fs' k = None" if "below ?full k"
    using none that by (auto simp: map_of_eq_None_iff list_ex_iff)
  then show ?thesis by (auto simp: f map_of_filter_key)
qed

interpretation scratch: tier_store "scratch_tier s wio kept walk" "scratch_name s" "scratch_contents s"
  for s wio kept walk
proof
  fix p q d w w'
  show "scratch_name s p \<Longrightarrow> sr_Read (scratch_tier s wio kept walk) p w = Inr d \<Longrightarrow> scratch_contents s w p = Some d"
    by (auto simp: scratch_tier_def scratch_name_def read_scratch)
  show "scratch_name s p \<Longrightarrow> scratch_name s q \<Longrightarrow> sr_Write (scratch_tier s wio kept walk) p d w = (w', None) \<Longrightarrow>
      scratch_contents s w' q = (if q = p then Some d else scratch_contents s w q)"
    by (auto simp: scratch_tier_def scratch_name_def scratch_contents_def dest!: write_scratch dest: tier_name_inject)
  show "scratch_name s p \<Longrightarrow> sr_Delete (scratch_tier s wio kept walk) p w = (w', None) \<Longrightarrow> scratch_contents s w' p = None"
    by (auto simp: scratch_tier_def scratch_name_def scratch_contents_def delete_scratch below_def)
  show "scratch_name s p \<Longrightarrow> scratch_name s q \<Longrightarrow> \<not> below p q \<Longrightarrow> sr_Delete (scratch_tier s wio kept walk) p w = (w', None) \<Longrightarrow>
      scratch_contents s w' q = scratch_contents s w q"
    using below_join [of "tierPath s TierScratch" p q]
    by (auto simp: scratch_tier_def scratch_name_def scratch_contents_def delete_scratch)
qed

section \<open>Writing back\<close>

lemma set_walk_order [simp]: "set (walk_order dir) = set (mkeys dir)"
  by (simp add: walk_order_def)

lemma Sync_split:
  assumes "Sync st io s w = (w', s', None)"
  obtains w1 where "write_back st io (sg_dir s) (walk_order (sg_dir s)) w = (w1, None)"
    "delete_gone st (walk_order (sg_dir s)) (sg_files s) w1 = (w', None)" "s' = s\<lparr>sg_files := walk_order (sg_dir s)\<rparr>"
  using assms by (auto simp: Sync_def Let_def split: prod.splits option.splits)

definition gone :: "stagedTier \<Rightarrow> string set" where
  "gone s = set (sg_files s) - set (mkeys (sg_dir s))"

context tier_store
begin

lemma Sync_other:
  assumes "Sync st io s w = (w', s', None)" and "\<forall>p \<in> set (mkeys (sg_dir s)) \<union> set (sg_files s). valid p"
    and "valid q" and "\<forall>p \<in> gone s. \<not> below p q"
  shows "contents w' q = (if q \<in> set (mkeys (sg_dir s)) then mget (sg_dir s) q else contents w q)"
proof -
  from assms(1) obtain w1 where w: "write_back st io (sg_dir s) (walk_order (sg_dir s)) w = (w1, None)"
    and d: "delete_gone st (walk_order (sg_dir s)) (sg_files s) w1 = (w', None)" by (rule Sync_split)
  have "contents w' q = contents w1 q"
    using delete_gone_contents [OF d _ assms(3)] assms(2,4) by (simp add: gone_def)
  also have "\<dots> = (if q \<in> set (mkeys (sg_dir s)) then Some (mget0 '''' (sg_dir s) q) else contents w q)"
    using write_back_contents [OF w _ assms(3)] assms(2) by simp
  also have "\<dots> = (if q \<in> set (mkeys (sg_dir s)) then mget (sg_dir s) q else contents w q)"
    by (cases "mget (sg_dir s) q") (auto simp: mget0_def map_of_eq_None_iff)
  finally show ?thesis .
qed

lemma Sync_gone:
  assumes "Sync st io s w = (w', s', None)" and "\<forall>p \<in> set (mkeys (sg_dir s)) \<union> set (sg_files s). valid p"
    and "q \<in> gone s" and "\<forall>p \<in> gone s. below p q \<longrightarrow> p = q"
  shows "contents w' q = None"
proof -
  from assms(1) obtain w1 where d: "delete_gone st (walk_order (sg_dir s)) (sg_files s) w1 = (w', None)" by (rule Sync_split)
  show ?thesis using delete_gone_none [OF d] assms(2,3,4) by (simp add: gone_def)
qed

lemma copied_contents:
  "copy_files st io w rels dir known = (dir', Inr known') \<Longrightarrow> \<forall>p \<in> set rels. valid p \<Longrightarrow>
     set known = set (mkeys dir) \<Longrightarrow> \<forall>p d. mget dir p = Some d \<longrightarrow> contents w p = Some d \<Longrightarrow>
     set known' = set (mkeys dir') \<and> set known' = set known \<union> set rels \<and> (\<forall>p d. mget dir' p = Some d \<longrightarrow> contents w p = Some d)"
proof (induction rels arbitrary: dir known)
  case (Cons rel rels)
  then obtain data where r: "sr_Read st rel w = Inr data"
      and c: "copy_files st io w rels (mput rel data dir) (if rel \<in> set known then known else known @ [rel]) = (dir', Inr known')"
    by (auto split: sum.splits option.splits)
  have "contents w rel = Some data" using r Cons.prems(2) read_contents by simp
  with Cons.prems(4) have get: "\<forall>p d. mget (mput rel data dir) p = Some d \<longrightarrow> contents w p = Some d" by simp
  have known: "set (if rel \<in> set known then known else known @ [rel]) = insert rel (set known)" by auto
  have "set (mkeys (mput rel data dir)) = insert rel (set known)"
    unfolding Cons.prems(3) set_map dom_update by simp
  then have keys: "set (if rel \<in> set known then known else known @ [rel]) = set (mkeys (mput rel data dir))"
    using known by (rule trans [OF _ sym, rotated])
  have v: "\<forall>p \<in> set rels. valid p" using Cons.prems(2) by simp
  show ?case using Cons.IH [OF c v keys get] unfolding known by auto
qed auto

end

text \<open>
  Writing back makes the storage agree with the directory, and changes nothing else. After a successful \<open>Sync\<close> every file of the directory
  is in the storage with its contents, every file that had been copied and is gone from the directory is gone from the
  storage, and every other file that is not below such a one is as it was.
\<close>

theorem sync_exact:
  assumes "tier_store st valid contents" and "Sync st io s w = (w', s', None)"
    and "\<forall>p \<in> set (mkeys (sg_dir s)) \<union> set (sg_files s). valid p"
    and "\<forall>p \<in> gone s. \<forall>q \<in> set (mkeys (sg_dir s)) \<union> gone s. below p q \<longrightarrow> p = q"
  shows "(\<forall>p d. mget (sg_dir s) p = Some d \<longrightarrow> contents w' p = Some d) \<and> (\<forall>p \<in> gone s. contents w' p = None) \<and>
    (\<forall>q. valid q \<and> q \<notin> set (mkeys (sg_dir s)) \<and> (\<forall>p \<in> gone s. \<not> below p q) \<longrightarrow> contents w' q = contents w q)"
proof (intro conjI allI impI ballI)
  fix p d assume d: "mget (sg_dir s) p = Some d"
  then have p: "p \<in> set (mkeys (sg_dir s))" by (auto dest: map_of_SomeD intro: rev_image_eqI)
  moreover have "\<forall>q \<in> gone s. \<not> below q p" using assms(4) p by (auto simp: gone_def)
  ultimately show "contents w' p = Some d"
    using tier_store.Sync_other [OF assms(1-3), of p] assms(3) d by simp
next
  fix p assume "p \<in> gone s"
  with tier_store.Sync_gone [OF assms(1-3) this] assms(4) show "contents w' p = None" by blast
next
  fix q assume "valid q \<and> q \<notin> set (mkeys (sg_dir s)) \<and> (\<forall>p \<in> gone s. \<not> below p q)"
  with tier_store.Sync_other [OF assms(1-3), of q] show "contents w' q = contents w q" by simp
qed

text \<open>
  Copying a tier and writing it back unchanged leaves every file of the storage as it was, and the copy holds exactly the files of the
  listing with their contents.
\<close>

theorem refresh_sync_roundtrip:
  assumes "tier_store st valid contents" and "sr_ListAll st w = Inr files" and "\<forall>p \<in> set files. valid p"
    and "Refresh st io w s = (s', None)" and "Sync st io' s' w = (w', s'', None)"
  shows "set (mkeys (sg_dir s')) = set files \<and> (\<forall>p \<in> set files. mget (sg_dir s') p = contents w p) \<and>
    (\<forall>q. valid q \<longrightarrow> contents w' q = contents w q)"
proof -
  from assms(2,4) obtain dir known where c: "copy_files st io w files [] [] = (dir, Inr known)" and s': "s' = s\<lparr>sg_dir := dir, sg_files := known\<rparr>"
    by (auto simp: Refresh_def refreshFromStorage_def split: sum.splits option.splits prod.splits)
  from tier_store.copied_contents [OF assms(1) c assms(3)]
  have k: "set (mkeys dir) = set files" "set known = set files" "\<And>p d. mget dir p = Some d \<Longrightarrow> contents w p = Some d" by auto
  have get: "mget dir p = contents w p" if "p \<in> set files" for p
    using that k by (cases "mget dir p") (auto simp: map_of_eq_None_iff)
  have s: "sg_dir s' = dir" "sg_files s' = known" by (simp_all add: s')
  have g: "gone s' = {}" using k by (simp add: gone_def s)
  have v: "\<forall>p \<in> set (mkeys (sg_dir s')) \<union> set (sg_files s'). valid p" using assms(3) by (simp only: s k Un_absorb)
  have same: "contents w' q = contents w q" if "valid q" for q
  proof -
    have "contents w' q = (if q \<in> set (mkeys dir) then mget dir q else contents w q)"
      using tier_store.Sync_other [OF assms(1,5) v that] by (simp only: g s ball_empty HOL.simp_thms)
    then show ?thesis using get [of q] k(1) by metis
  qed
  show ?thesis
  proof (intro conjI ballI allI impI)
    show "set (mkeys (sg_dir s')) = set files" unfolding s by (rule k(1))
    show "mget (sg_dir s') p = contents w p" if "p \<in> set files" for p unfolding s by (rule get [OF that])
    show "contents w' q = contents w q" if "valid q" for q by (rule same [OF that])
  qed
qed

section \<open>A storage to try it on\<close>

definition demo_scratch :: "(files, storage_error) TierStorage" where
  "demo_scratch = scratch_tier demo_storage (\<lambda>_. WriteOK) (\<lambda>_ _. False) [''a'', ''b'']"

definition demo_stage_io :: "storage_error stage_io" where
  "demo_stage_io = \<lparr>si_mktemp = None, si_remove = None, si_mkdir = None, si_parent = (\<lambda>_. None), si_write = (\<lambda>_. None), si_walk = (\<lambda>_. None),
     si_read = (\<lambda>_. None)\<rparr>"

definition scratch_file :: "string \<Rightarrow> string" where
  "scratch_file p = ''/tmp/agentfab-dev/'' @ p"

definition demo_tier_files :: files where
  "demo_tier_files = [(scratch_file ''a'', ''1''), (scratch_file ''b'', ''2'')]"

lemma demo_tier_store: "tier_store demo_scratch (scratch_name demo_storage) (scratch_contents demo_storage)"
  unfolding demo_scratch_def by (rule scratch.tier_store_axioms)

lemma demo_names: "scratch_name demo_storage ''a''" "scratch_name demo_storage ''b''"
  by code_simp+

text \<open>\<open>a\<close> is changed and \<open>b\<close> removed in the copy.\<close>

definition demo_stage :: stagedTier where
  "demo_stage = \<lparr>sg_dir = [(''a'', ''3'')], sg_files = [''a'', ''b'']\<rparr>"

lemma demo_sync:
  "Sync demo_scratch demo_stage_io demo_stage demo_tier_files = ([(scratch_file ''a'', ''3'')], demo_stage\<lparr>sg_files := [''a'']\<rparr>, None)"
  by code_simp

theorem sync_exact_witness:
  "scratch_contents demo_storage [(scratch_file ''a'', ''3'')] ''a'' = Some ''3'' \<and>
   scratch_contents demo_storage [(scratch_file ''a'', ''3'')] ''b'' = None"
proof -
  have "gone demo_stage = {''b''}" by (auto simp: gone_def demo_stage_def)
  then show ?thesis
    using sync_exact [OF demo_tier_store demo_sync] demo_names by (simp add: demo_stage_def below_def has_prefix_def)
qed

lemma demo_refresh:
  "Refresh demo_scratch demo_stage_io demo_tier_files \<lparr>sg_dir = [], sg_files = []\<rparr> =
     (\<lparr>sg_dir = [(''a'', ''1''), (''b'', ''2'')], sg_files = [''a'', ''b'']\<rparr>, None)"
  by code_simp

lemma demo_resync:
  "Sync demo_scratch demo_stage_io \<lparr>sg_dir = [(''a'', ''1''), (''b'', ''2'')], sg_files = [''a'', ''b'']\<rparr> demo_tier_files =
     (demo_tier_files, \<lparr>sg_dir = [(''a'', ''1''), (''b'', ''2'')], sg_files = [''a'', ''b'']\<rparr>, None)"
  by code_simp

lemma demo_listing: "sr_ListAll demo_scratch demo_tier_files = Inr [''a'', ''b'']"
  by code_simp

theorem refresh_sync_roundtrip_witness:
  "scratch_contents demo_storage demo_tier_files ''a'' = mget [(''a'', ''1''), (''b'', ''2'')] ''a''"
  using refresh_sync_roundtrip [OF demo_tier_store demo_listing _ demo_refresh demo_resync] demo_names by simp

section \<open>What is lost\<close>

text \<open>Another agent updates \<open>a\<close> after it was copied; writing the copy back brings the old contents back.\<close>

lemma update_reverted:
  "Sync demo_scratch demo_stage_io \<lparr>sg_dir = [(''a'', ''1''), (''b'', ''2'')], sg_files = [''a'', ''b'']\<rparr>
     [(scratch_file ''a'', ''new''), (scratch_file ''b'', ''2'')] =
     (demo_tier_files, \<lparr>sg_dir = [(''a'', ''1''), (''b'', ''2'')], sg_files = [''a'', ''b'']\<rparr>, None)"
  by code_simp

text \<open>
  A refresh that fails in the middle leaves an empty or partial directory and the names of the files it held before, so writing back
  deletes from the storage all that was not copied again.
\<close>

lemma failed_refresh_deletes:
  "let io = demo_stage_io\<lparr>si_parent := (\<lambda>p. Some FileError)\<rparr>;
       s = \<lparr>sg_dir = [(''a'', ''1''), (''b'', ''2'')], sg_files = [''a'', ''b'']\<rparr>
   in case Refresh demo_scratch io demo_tier_files s of
        (s', e) \<Rightarrow> e = Some FileError \<and> fst (Sync demo_scratch demo_stage_io s' demo_tier_files) = []"
  by code_simp

end
