(* ===== verification/TaskInput.thy ===== *)
theory TaskInput
  imports ToolText
begin

text \<open>
  What an agent is told (internal/agent/prompt.go and agent.go): the system prompt, the message of a task with the context of its
  dependencies cut to a budget, and the artifacts read from storage or copied to the scratch directory.
\<close>

section \<open>The system prompt\<close>

text \<open>The fields of an agent definition that its prompt and its tools depend on.\<close>

record PromptDef =
  pr_Name :: string
  pr_Purpose :: string
  pr_Capabilities :: "string list"
  pr_ShellOnly :: bool
  pr_Tools :: "ToolConfig list"

definition peer_line :: "string \<Rightarrow> PromptDef \<Rightarrow> string" where
  "peer_line name p =
     (if name = ''conductor'' \<and> pr_Capabilities p \<noteq> []
      then ''- '' @ pr_Name p @ '': '' @ pr_Purpose p @ '' ('' @ join '', '' (pr_Capabilities p) @ '')'' @ newline
      else ''- '' @ pr_Name p @ '': '' @ pr_Purpose p @ newline)"

definition prompt_rules :: string where
  "prompt_rules =
     ''## Rules'' @ newline @ ''- Use ASK_USER rather than guess when uncertain'' @ newline
     @ ''- Produce documentation files only when the task explicitly requests them'' @ newline @ ''- When you receive context from upstream tasks, use it as the basis for your work'' @ newline
     @ ''- If you need clarification from the user to proceed, write ASK_USER: followed by your question on its own line'' @ newline @ ''- Only use ASK_USER when you genuinely cannot proceed without human guidance'' @ newline
     @ ''- Never use ASK_USER to request permission for routine actions (for example: reading listed artifacts or running normal tool commands)'' @ newline
     @ ''- If dependency context lists visual artifacts (HTML/images), treat them as binding constraints; if you cannot inspect an image with available tools, state that limitation explicitly and proceed using the machine-readable artifacts'' @ newline @ newline"

definition prompt_economy :: "bool \<Rightarrow> string" where
  "prompt_economy shellOnly =
     ''## Output Economy'' @ newline
     @ (if shellOnly then
          ''- Prefer brevity: describe what you changed and why'' @ newline @ ''- Do NOT produce '' @ btick @ btick @ btick @ ''file:path'' @ btick @ btick @ btick @ '' blocks '' @ em_dash @ '' all file changes must be made via shell tool commands'' @ newline
          @ ''- Your text output should summarize the changes made via shell'' @ newline @ newline
        else
          ''- Avoid duplicating information already available from other tasks'' @ newline @ ''- Prefer code and structured specs over verbose prose'' @ newline
          @ ''- Always produce concrete artifacts via '' @ btick @ btick @ btick @ ''file:path'' @ btick @ btick @ btick @ '' blocks '' @ em_dash @ '' a response with only text and no files is almost always wrong'' @ newline
          @ ''- Favor brevity: a 200-word spec beats a 2000-word one. Include only what downstream agents need to do their job'' @ newline @ newline)"

definition prompt_tools :: "PromptDef \<Rightarrow> string" where
  "prompt_tools d =
     (if pr_Tools d = [] then ''''
      else
        ''## Tools'' @ newline
        @ (if list_ex IsLive (pr_Tools d) then
             ''You can call tools during your work. When you need to run a command, read a file, or use an external tool, call the appropriate tool function. You'' @ squote @ ''ll receive the result and can continue your work.'' @ newline @ newline
             @ concat (map (\<lambda>tc. ''- **'' @ tcf_Name tc @ ''**: '' @ tcf_Instructions tc @ newline) (filter IsLive (pr_Tools d)))
             @ (if pr_ShellOnly d then newline @ ''Use tools for ALL file operations. Do not produce file blocks.'' @ newline
                else newline @ ''Use tools when they help you produce better results. Don'' @ squote @ ''t use tools unnecessarily.'' @ newline)
           else
             ''You have tools at your disposal defined in tools.yaml in your working directory.'' @ newline
             @ ''Read it to understand what external programs are available and how to use them.'' @ newline)
        @ newline)"

definition prompt_storage :: "bool \<Rightarrow> string" where
  "prompt_storage shellOnly =
     ''## Storage'' @ newline @ ''Three storage tiers are available, exposed as environment variables in tool commands:'' @ newline
     @ (if shellOnly then ''- '' @ btick @ ''$SCRATCH_DIR'' @ btick @ '' '' @ em_dash @ '' your working directory. All file operations happen here via shell tools.'' @ newline
        else
          ''- '' @ btick @ ''$SCRATCH_DIR'' @ btick @ '' '' @ em_dash @ '' your working directory (ephemeral, cleaned after request completes). ''
          @ ''Files you produce via '' @ btick @ btick @ btick @ ''file:path'' @ btick @ btick @ btick @ '' blocks are automatically materialized here for subsequent shell commands.'' @ newline)
     @ ''- '' @ btick @ ''$AGENT_DIR'' @ btick @ '' '' @ em_dash @ '' your persistent agent storage.'' @ newline
     @ ''- '' @ btick @ ''$SHARED_DIR'' @ btick @ '' '' @ em_dash @ '' shared storage root. Upstream artifacts from other agents are at '' @ btick @ ''$SHARED_DIR/artifacts/<agent-name>/'' @ btick @ ''.'' @ newline
     @ (if \<not> shellOnly then
          ''When referencing upstream files in shell commands, always use '' @ btick @ ''$SHARED_DIR/artifacts/<agent>/'' @ btick @ '' '' @ em_dash @ '' never bare relative paths.'' @ newline
          @ ''Important: if dependency context provides artifact URIs or file listings, read those upstream artifacts FIRST via shell, extract constraints, then implement.'' @ newline
          @ ''Treat upstream artifact files as source-of-truth and call out their filenames explicitly in your working notes/output summary.'' @ newline
        else '''')
     @ ''Every tool call persists full output under '' @ btick @ ''$SCRATCH_DIR/.tool-results/'' @ btick @ ''; if a response is truncated, read the saved output file before continuing.'' @ newline @ newline"

definition prompt_files :: "bool \<Rightarrow> string" where
  "prompt_files shellOnly =
     ''## File Operations'' @ newline
     @ (if shellOnly then
          ''ALL file operations must be performed via shell tool commands (cat, sed, patch, python scripts).'' @ newline
          @ ''Do NOT output '' @ btick @ btick @ btick @ ''file:path'' @ btick @ btick @ btick @ '' blocks. Shell edits to $SCRATCH_DIR are persistent.'' @ newline @ newline
        else
          ''You must interact with files systematically:'' @ newline @ ''- **Reading**: Use shell commands to explore and read existing files.'' @ newline
          @ ''- **Creating**: Output a '' @ btick @ btick @ btick @ ''file:path'' @ btick @ btick @ btick @ '' block containing the full new file content.'' @ newline
          @ ''- **Modifying**: ANY modifications made locally via shell (e.g. sed) MUST be surfaced by outputting a '' @ btick @ btick @ btick @ ''file:path'' @ btick @ btick @ btick @ '' block with the updated content. Scratch edits are lost unless explicitly output in a file block.'' @ newline @ newline
          @ ''## Output Format'' @ newline @ ''Each file block starts with '' @ btick @ btick @ btick @ ''file:path and ends with '' @ btick @ btick @ btick @ ''.'' @ newline @ ''Text outside file blocks is treated as a brief summary '' @ em_dash @ '' keep it minimal.'' @ newline
          @ ''Use relative paths (e.g., my-project/src/main.go, my-project/README.md).'' @ newline
          @ ''When existing artifacts are listed, you MUST write to the same paths to update files in-place. Never create a new directory when one already exists for the same project.'' @ newline
          @ ''On revision iterations, only produce file blocks for files you are CHANGING '' @ em_dash @ '' not every file in the project.'' @ newline)"

definition BuildSystemPrompt :: "PromptDef \<Rightarrow> string \<Rightarrow> PromptDef list \<Rightarrow> string" where
  "BuildSystemPrompt d specialKnowledge peers =
     ''You are '' @ quote (pr_Name d)
     @ '', an AI agent in an AgentFab fabric. AgentFab is a multi-agent system where specialized agents collaborate on tasks '' @ em_dash @ '' each handles a specific role and communicates through a shared message bus.'' @ newline @ newline
     @ ''## Purpose'' @ newline @ pr_Purpose d @ newline @ newline
     @ (if peers \<noteq> [] then ''## Agents in this fabric'' @ newline @ concat (map (peer_line (pr_Name d)) peers) @ newline else '''')
     @ ''## Escalation'' @ newline @ ''If you cannot confidently complete a task, use ASK_USER to ask the user for guidance rather than guessing.'' @ newline @ newline
     @ (if specialKnowledge \<noteq> '''' then ''## Special Knowledge'' @ newline @ specialKnowledge @ newline else '''')
     @ prompt_rules @ prompt_economy (pr_ShellOnly d) @ prompt_tools d @ prompt_storage (pr_ShellOnly d) @ prompt_files (pr_ShellOnly d)"

definition scopeHint :: "string \<Rightarrow> bool \<Rightarrow> string" where
  "scopeHint scope shellOnly =
     (if scope = ''small'' then ''## Scope: Small'' @ newline @ ''This is a small task. Be concise. Do not over-engineer.'' @ newline
      else if scope = ''large'' then ''## Scope: Large'' @ newline @ ''This is a large task. Be thorough with the implementation.'' @ newline
      else ''## Scope: Standard'' @ newline @ ''This is a standard task. Produce working code.'' @ newline)
     @ (if shellOnly then ''Make all changes via shell tool commands.'' @ newline @ newline
        else ''When fixing errors, only produce file blocks for files that need changes.'' @ newline @ newline)"

section \<open>The context of the dependencies\<close>

definition str_field :: "data \<Rightarrow> string \<Rightarrow> string option" where
  "str_field d k = (case mget d k of Some (AStr s) \<Rightarrow> Some s | _ \<Rightarrow> None)"

definition str_field0 :: "data \<Rightarrow> string \<Rightarrow> string" where
  "str_field0 d k = (case str_field d k of Some s \<Rightarrow> s | None \<Rightarrow> '''')"

definition toMapSlice :: "any \<Rightarrow> data list" where
  "toMapSlice v = (case v of AList vs \<Rightarrow> concat (map (\<lambda>x. case x of AMap m \<Rightarrow> [m] | _ \<Rightarrow> []) vs) | _ \<Rightarrow> [])"

definition knowledge_entry :: "string \<Rightarrow> data \<Rightarrow> string" where
  "knowledge_entry origin m =
     ''**'' @ str_field0 m ''title'' @ ''**'' @ origin @ newline
     @ (if str_field0 m ''summary'' \<noteq> '''' then str_field0 m ''summary'' @ newline else '''')
     @ (if str_field0 m ''file'' \<noteq> '''' then ''Full doc: '' @ str_field0 m ''file'' @ newline else '''')
     @ newline"

definition formatKnowledgeContext :: "any \<Rightarrow> string" where
  "formatKnowledgeContext kc =
     (if toMapSlice kc = [] then ''''
      else ''--- Prior Knowledge ---'' @ newline
        @ concat (map (\<lambda>m. knowledge_entry (if str_field0 m ''from_req'' \<noteq> '''' then '' (from: '' @ str_field0 m ''from_req'' @ '')'' else '''') m)
            (toMapSlice kc)))"

definition formatRelatedKnowledge :: "any \<Rightarrow> string" where
  "formatRelatedKnowledge rk =
     (if toMapSlice rk = [] then ''''
      else ''--- Related Knowledge (from other agents) ---'' @ newline
        @ concat (map (\<lambda>m. knowledge_entry
              ((if str_field0 m ''source_agent'' \<noteq> '''' then '' (from '' @ str_field0 m ''source_agent'' @ '')'' else '''')
               @ (if str_field0 m ''from_req'' \<noteq> '''' then '' [req: '' @ str_field0 m ''from_req'' @ '']'' else '''')) m)
            (toMapSlice rk)))"

definition isBinaryMime :: "string \<Rightarrow> bool" where
  "isBinaryMime mime \<longleftrightarrow>
     has_prefix mime ''image/'' \<or> has_prefix mime ''audio/'' \<or> has_prefix mime ''video/'' \<or> mime = ''application/octet-stream''"

definition truncateForPrompt :: "string \<Rightarrow> nat \<Rightarrow> string" where
  "truncateForPrompt s mx = (if mx = 0 \<or> length s \<le> mx then s else take mx s @ newline @ ''[... truncated]'')"

definition joinFileList :: "string list \<Rightarrow> nat \<Rightarrow> string" where
  "joinFileList files mx =
     (if files = [] then ''''
      else if mx = 0 \<or> length files \<le> mx then join newline files
      else join newline (take mx files) @ newline @ ''... +'' @ json_int (int (length files - mx)) @ '' more'')"

definition file_reference :: "string \<Rightarrow> string \<Rightarrow> string \<Rightarrow> string" where
  "file_reference uri mime name =
     ''--- File Reference: '' @ name @ '' ('' @ (if isBinaryMime mime then ''binary'' else ''text'') @ '') ---'' @ newline @ ''URI: '' @ uri @ newline
     @ ''Use shell tools to inspect this file from shared artifacts when needed.''"

definition artifact_listing :: "string list \<Rightarrow> string" where
  "artifact_listing files =
     ''--- Existing Artifacts (READ FIRST before solutioning) ---'' @ newline @ ''These files exist from prior work and may be binding constraints.'' @ newline
     @ ''Use your shell tool to read the specific upstream files you depend on before implementing changes.'' @ newline @ newline
     @ concat (map (\<lambda>f. f @ newline) files)"

definition binding_constraints :: string where
  "binding_constraints =
     ''After reading upstream artifacts, extract and list binding constraints before implementing:'' @ newline @ ''- Exact color values (hex codes)'' @ newline @ ''- Type/interface definitions (field names, types)'' @ newline
     @ ''- Required dependencies/libraries'' @ newline @ ''- Layout structure and CSS properties'' @ newline @ ''- UI component types from HTML mockups (e.g., button group vs dropdown, specific input types)'' @ newline
     @ ''- Specific element labels, placeholder text, and filter/tab names'' @ newline @ ''- Which fields and features are present '' @ em_dash @ '' do NOT add features absent from specs, do NOT omit specified ones'' @ newline
     @ ''Your implementation MUST use these exact values and component patterns '' @ em_dash @ '' do not substitute alternatives.''"

text \<open>The section of one dependency; \<open>None\<close> when there is nothing to say of it.\<close>

definition dependency_text :: "string \<Rightarrow> string \<Rightarrow> data \<Rightarrow> string option" where
  "dependency_text taskID depID d =
     (let agent = str_field0 d ''dependency_agent'';
          label = (if agent \<noteq> '''' then depID @ '' ('' @ agent @ '')'' else depID);
          feedback = (str_field0 d ''context_kind'' = ''loop_feedback'' \<or> taskID \<noteq> '''' \<and> depID = taskID);
          anchor = (if feedback then '' (iterative feedback '' @ em_dash @ '' validate against binding upstream artifacts)''
                    else if agent \<noteq> '''' then '' (binding constraint '' @ em_dash @ '' implement faithfully)'' else '''');
          uri = str_field0 d ''artifact_uri''; files = toStringSlice (mget d ''artifact_files''); result = str_field0 d ''result'';
          content =
            (if feedback then [''This context is iterative loop feedback. Validate it against upstream dependency artifacts; if conflicts exist, prioritize upstream artifacts and note the conflict.''] else [])
            @ (if uri \<noteq> '''' then
                 [''Upstream artifact source (READ FIRST): '' @ uri]
                 @ (if files \<noteq> [] then [''Upstream artifact files (READ FIRST):'' @ newline @ joinFileList files 25] else [])
                 @ (if \<not> feedback then
                      [''Do not assume file contents from this prompt. Read referenced upstream artifacts via shell before solutioning.'', binding_constraints]
                    else [])
               else [])
            @ (if trim_space result \<noteq> '''' then [''Upstream summary:'' @ newline @ truncateForPrompt result (if feedback then 1200 else 2000)] else [])
      in if content = [] then None
         else Some (''--- Context from '' @ label @ anchor @ '' ---'' @ newline @ join newline content))"

record input_parts =
  ip_desc :: string
  ip_pipeline :: string
  ip_request :: string
  ip_chat :: string
  ip_deps :: "string list"

abbreviation add_deps :: "string list \<Rightarrow> input_parts \<Rightarrow> input_parts" where
  "add_deps ds ip \<equiv> ip\<lparr>ip_deps := ip_deps ip @ ds\<rparr>"

definition data_part :: "(data \<Rightarrow> string) \<Rightarrow> string \<Rightarrow> data \<Rightarrow> input_parts \<Rightarrow> input_parts" where
  "data_part marshal taskID d ip =
     (if mget d ''loop_context'' \<noteq> None then ip
      else case str_field d ''user_request'' of Some s \<Rightarrow> ip\<lparr>ip_request := s\<rparr>
      | None \<Rightarrow>
      (case str_field d ''pipeline_context'' of Some s \<Rightarrow> ip\<lparr>ip_pipeline := s\<rparr>
      | None \<Rightarrow>
      (case str_field d ''chat_context'' of Some s \<Rightarrow> ip\<lparr>ip_chat := s\<rparr>
      | None \<Rightarrow>
        (let known = (case mget d ''knowledge_context'' of None \<Rightarrow> [] | Some kc \<Rightarrow> [formatKnowledgeContext kc])
               @ (case mget d ''related_knowledge'' of None \<Rightarrow> [] | Some rk \<Rightarrow> [formatRelatedKnowledge rk])
         in if known \<noteq> [] then add_deps known ip
            else
              (case str_field d ''no_upstream'' of
                 Some hint \<Rightarrow> add_deps [''--- No Upstream Dependencies ---'' @ newline @ hint] ip
               | None \<Rightarrow>
                   if mget d ''existing_artifacts'' \<noteq> None then
                     (let files = toStringSlice (mget d ''files'') in if files \<noteq> [] then add_deps [artifact_listing files] ip else ip)
                   else
                     (case str_field d ''dependency_id'' of
                        Some depID \<Rightarrow> (case dependency_text taskID depID d of None \<Rightarrow> ip | Some t \<Rightarrow> add_deps [t] ip)
                      | None \<Rightarrow> add_deps [''--- Additional data ---'' @ newline @ marshal d] ip))))))"

definition input_part :: "(data \<Rightarrow> string) \<Rightarrow> string \<Rightarrow> Part \<Rightarrow> input_parts \<Rightarrow> input_parts" where
  "input_part marshal taskID p ip =
     (case p of
        TextPart s \<Rightarrow> if ip_desc ip = '''' then ip\<lparr>ip_desc := s\<rparr> else ip
      | FilePart uri mime name \<Rightarrow> add_deps [file_reference uri mime name] ip
      | DataPart d \<Rightarrow> data_part marshal taskID d ip)"

definition input_of :: "(data \<Rightarrow> string) \<Rightarrow> Message \<Rightarrow> input_parts" where
  "input_of marshal msg =
     foldl (\<lambda>ip p. input_part marshal (mget0 '''' (m_Metadata msg) ''task_id'') p ip)
       \<lparr>ip_desc = '''', ip_pipeline = '''', ip_request = '''', ip_chat = '''', ip_deps = []\<rparr> (m_Parts msg)"

section \<open>Cutting the context to the budget\<close>

definition min_dep_budget :: nat where
  "min_dep_budget = 4096"

text \<open>The last newline before the limit, if it lies in the second half.\<close>

definition cut_point :: "string \<Rightarrow> nat \<Rightarrow> nat" where
  "cut_point d limit =
     (let rest = dropWhile (\<lambda>c. [c] \<noteq> newline) (rev (take limit d))
      in if rest \<noteq> [] \<and> length rest - 1 > limit div 2 then length rest - 1 else limit)"

definition omitted_note :: "nat \<Rightarrow> string" where
  "omitted_note n = newline @ newline @ ''[... truncated, '' @ json_int (int n) @ '' chars omitted]''"

definition cut_dep :: "nat \<Rightarrow> nat \<Rightarrow> string \<Rightarrow> string" where
  "cut_dep perDep longBudget d =
     (let limit = (if length d \<le> perDep then length d else longBudget)
      in if length d > limit then take (cut_point d limit) d @ omitted_note (length d - limit) else d)"

definition truncateDeps :: "string list \<Rightarrow> int \<Rightarrow> string list" where
  "truncateDeps deps requested =
     (if deps = [] then deps
      else
        (let budget = (if requested < int min_dep_budget then min_dep_budget else nat requested)
         in if sum_list (map length deps) \<le> budget then deps
            else
              (let perDep = budget div length deps;
                   short = filter (\<lambda>d. length d \<le> perDep) deps;
                   surplus = sum_list (map (\<lambda>d. perDep - length d) short);
                   longCount = length deps - length short;
                   longBudget = (if longCount > 0 then perDep + surplus div longCount else perDep)
               in map (cut_dep perDep longBudget) deps)))"

definition max_input_chars :: int where
  "max_input_chars = 500000"

definition upstream_intro :: string where
  "upstream_intro =
     newline @ newline @ ''## Upstream Dependency Context'' @ newline @ ''The following is OUTPUT from completed upstream tasks that YOUR work depends on.'' @ newline
     @ ''These specifications are BINDING REQUIREMENTS, not suggestions.'' @ newline @ ''Deviation from upstream specs (e.g., using different colors, types, or libraries) is a defect.'' @ newline
     @ ''Common defects: substituting a dropdown for a button group, changing filter/tab labels,'' @ newline @ ''adding features not in the spec, omitting specified fields (e.g., time picker).'' @ newline @ newline
     @ ''Before writing any code:'' @ newline @ ''1. Read the referenced upstream artifact files via shell.'' @ newline @ ''2. List the specific values you extracted (colors, types, deps, layout).'' @ newline
     @ ''3. List every UI component pattern from HTML mockups (element type, labels, input types).'' @ newline @ ''4. Implement using those exact values and patterns. Do not add or remove features.'' @ newline @ newline"

definition buildTaskInput :: "(data \<Rightarrow> string) \<Rightarrow> bool \<Rightarrow> Message \<Rightarrow> string \<Rightarrow> string" where
  "buildTaskInput marshal shellOnly msg scope =
     (let ip = input_of marshal msg;
          overhead = int (length (ip_desc ip)) + int (length (ip_pipeline ip)) + 4;
          deps = (if ip_deps ip \<noteq> [] then truncateDeps (ip_deps ip) (max_input_chars - overhead) else [])
      in scopeHint scope shellOnly
         @ (if ip_request ip \<noteq> '''' then ''## Original User Request'' @ newline @ ip_request ip @ newline @ newline else '''')
         @ ip_desc ip
         @ (if ip_chat ip \<noteq> '''' then
              newline @ newline @ ''## User Feedback (from chat amendment)'' @ newline @ ''The user chatted with you about this task and provided the following feedback.'' @ newline @ ''Incorporate these refinements into your output:'' @ newline @ newline
              @ ip_chat ip
            else '''')
         @ (if ip_pipeline ip \<noteq> '''' then newline @ newline @ ip_pipeline ip else '''')
         @ (if deps \<noteq> [] then upstream_intro @ join (newline @ newline) deps else ''''))"

section \<open>Artifacts in storage\<close>

definition binaryExtensions :: "string list" where
  "binaryExtensions = [''.png'', ''.jpg'', ''.jpeg'', ''.gif'', ''.webp'', ''.svg'', ''.ico'', ''.bmp'', ''.tiff'', ''.mp3'', ''.wav'', ''.ogg'', ''.mp4'',
     ''.webm'', ''.avi'', ''.zip'', ''.tar'', ''.gz'', ''.pdf'', ''.woff'', ''.woff2'', ''.ttf'', ''.eot'']"

definition isBinaryPath :: "string \<Rightarrow> bool" where
  "isBinaryPath path \<longleftrightarrow> to_lower (path_ext path) \<in> set binaryExtensions"

text \<open>The files that match each of the patterns, until a listing fails.\<close>

fun list_depths :: "(string \<Rightarrow> string list option) \<Rightarrow> string list \<Rightarrow> string list" where
  "list_depths listing [] = []"
| "list_depths listing (p # ps) = (case listing p of None \<Rightarrow> [] | Some files \<Rightarrow> files @ list_depths listing ps)"

definition trim_prefix :: "string \<Rightarrow> string \<Rightarrow> string" where
  "trim_prefix s p = (if has_prefix s p then drop (length p) s else s)"

definition readArtifactDir :: "(string \<Rightarrow> string list option) \<Rightarrow> (string \<Rightarrow> string option) \<Rightarrow> string \<Rightarrow> string \<Rightarrow> string" where
  "readArtifactDir listing read uri agent =
     (let patterns = map (\<lambda>depth. uri @ concat (replicate depth ''*/'') @ ''*'') [0, 1, 2, 3, 4];
          unique = dedupStrings (list_depths listing patterns)
      in join (newline @ newline)
           (concat (map (\<lambda>f.
              (let name = trim_prefix f uri
               in if isBinaryPath f then [''--- File: '' @ name @ '' from '' @ agent @ '' (binary, skipped) ---'']
                  else (case read f of
                          None \<Rightarrow> []
                        | Some data \<Rightarrow> [''--- File: '' @ name @ '' from '' @ agent @ '' ---'' @ newline @ data]))) unique)))"

definition readArtifact :: "(string \<Rightarrow> string list option) \<Rightarrow> (string \<Rightarrow> string option) \<Rightarrow> string \<Rightarrow> string \<Rightarrow> string" where
  "readArtifact listing read uri agent =
     (if has_suffix uri ''/'' then readArtifactDir listing read uri agent
      else (case read uri of None \<Rightarrow> '''' | Some data \<Rightarrow> data))"

text \<open>What is read of some files: the parts and the number of characters they took.\<close>

fun read_some :: "(string \<Rightarrow> string option) \<Rightarrow> string \<Rightarrow> nat \<Rightarrow> nat \<Rightarrow> nat \<Rightarrow> string list \<Rightarrow> string list" where
  "read_some read dir perFile mx used [] = []"
| "read_some read dir perFile mx used (f # fs) =
     (if isBinaryPath f then (''--- '' @ f @ '' (binary, skipped) ---'') # read_some read dir perFile mx used fs
      else (case read (dir @ f) of
              None \<Rightarrow> read_some read dir perFile mx used fs
            | Some data \<Rightarrow>
                (let s = (if length data > perFile then take perFile data @ newline @ ''[... truncated]'' else data)
                 in if used + length s > mx then [''--- '' @ f @ '' (skipped, context budget reached) ---'']
                    else (''--- File: '' @ f @ '' ---'' @ newline @ s) # read_some read dir perFile mx (used + length s) fs)))"

definition readArtifactFiles :: "(string \<Rightarrow> string option) \<Rightarrow> string \<Rightarrow> string list \<Rightarrow> nat \<Rightarrow> nat \<Rightarrow> nat \<Rightarrow> string" where
  "readArtifactFiles read dir files maxFiles maxCharsPerFile maxTotal =
     join (newline @ newline) (read_some read dir maxCharsPerFile maxTotal 0 (take maxFiles files))"

section \<open>Artifacts in the scratch directory\<close>

text \<open>What is read and written when files are copied: the shared tier, and the scratch directory with the outcome of each write.\<close>

record copy_env =
  ce_list :: "string \<Rightarrow> string list option"
  ce_read :: "string \<Rightarrow> string option"
  ce_write :: "string \<Rightarrow> bool"
  ce_cwd :: "string option"

definition copy_missing :: "copy_env \<Rightarrow> string \<Rightarrow> string \<Rightarrow> string \<Rightarrow> (string, string) gomap \<Rightarrow> (string, string) gomap" where
  "copy_missing ce scratchDir relPath from fs =
     (case safeScratchPath (ce_cwd ce) scratchDir relPath of
        None \<Rightarrow> fs
      | Some dest \<Rightarrow>
          if mget fs dest \<noteq> None then fs
          else (case ce_read ce from of None \<Rightarrow> fs | Some data \<Rightarrow> if ce_write ce dest then mput dest data fs else fs))"

definition populateScratchWithArtifacts :: "copy_env \<Rightarrow> string \<Rightarrow> string list \<Rightarrow> (string, string) gomap \<Rightarrow> (string, string) gomap" where
  "populateScratchWithArtifacts ce name tierPaths fs =
     (if length tierPaths < 3 then fs
      else
        (let pre = ''artifacts/'' @ name @ ''/''
         in case ce_list ce pre of
              None \<Rightarrow> fs
            | Some files \<Rightarrow>
                foldl (\<lambda>fs f.
                  (let relPath = drop (length pre) f
                   in if \<not> has_prefix f pre \<or> contains relPath ''_requests/'' \<or> isArtifactNoise relPath then fs
                      else copy_missing ce (hd tierPaths) relPath f fs)) fs (dedupStrings files)))"

definition ensureScratchFromShared :: "copy_env \<Rightarrow> string \<Rightarrow> string \<Rightarrow> string list \<Rightarrow> (string, string) gomap \<Rightarrow> (string, string) gomap" where
  "ensureScratchFromShared ce scratchDir uri files fs =
     (if files = [] \<or> uri = '''' then fs
      else foldl (\<lambda>fs relPath. copy_missing ce scratchDir relPath (uri @ relPath) fs) fs files)"

section \<open>The budget holds\<close>

lemma cut_point_le: "cut_point d limit \<le> limit"
proof -
  have "length (dropWhile (\<lambda>c. [c] \<noteq> newline) (rev (take limit d))) \<le> limit"
    by (rule order_trans [OF length_dropWhile_le]) simp
  then show ?thesis unfolding cut_point_def Let_def by (auto simp del: length_dropWhile_le)
qed

lemma fair_share_bound:
  fixes deps :: "'a list list" and budget :: nat
  assumes "deps \<noteq> []"
  defines "perDep \<equiv> budget div length deps"
  defines "short \<equiv> filter (\<lambda>d. length d \<le> perDep) deps"
  defines "long \<equiv> filter (\<lambda>d. \<not> length d \<le> perDep) deps"
  shows "sum_list (map length short) + length long * (perDep + sum_list (map (\<lambda>d. perDep - length d) short) div length long) \<le> budget"
proof -
  let ?surplus = "sum_list (map (\<lambda>d. perDep - length d) short)"
  have "sum_list (map length ds) + sum_list (map (\<lambda>d. perDep - length d) ds) = length ds * perDep"
    if "\<forall>d \<in> set ds. length d \<le> perDep" for ds :: "'a list list"
    using that by (induction ds) auto
  then have s: "sum_list (map length short) + ?surplus = length short * perDep" by (simp add: short_def)
  have d: "length long * (?surplus div length long) \<le> ?surplus" by (metis div_times_less_eq_dividend mult.commute)
  have "length short + length long = length deps" by (simp add: short_def long_def sum_length_filter_compl)
  then have l: "length short * perDep + length long * perDep = length deps * perDep" by (metis add_mult_distrib)
  have "length deps * perDep \<le> budget" unfolding perDep_def by (metis div_times_less_eq_dividend mult.commute)
  with d l s show ?thesis unfolding add_mult_distrib2 by linarith
qed

lemma sum_kept:
  fixes longBudget :: nat
  shows "sum_list (map (\<lambda>d. if length d \<le> perDep then length d else longBudget) ds) =
    sum_list (map length (filter (\<lambda>d. length d \<le> perDep) ds)) + length (filter (\<lambda>d. \<not> length d \<le> perDep) ds) * longBudget"
  by (induction ds) auto

text \<open>How much of a dependency is kept: all of one within its share, of a longer one at most the share of the long ones.\<close>

lemma cut_dep_kept:
  "\<exists>n \<le> (if length d \<le> perDep then length d else longBudget). n \<le> length d \<and>
     (n = length d \<and> cut_dep perDep longBudget d = d \<or> cut_dep perDep longBudget d = take n d @ omitted_note (length d - longBudget))"
proof (cases "length d \<le> perDep \<or> length d \<le> longBudget")
  case True
  then show ?thesis by (intro exI [of _ "length d"]) (auto simp: cut_dep_def)
next
  case False
  then show ?thesis using cut_point_le [of d longBudget]
    by (intro exI [of _ "cut_point d longBudget"]) (auto simp: cut_dep_def)
qed

text \<open>
  The context of the dependencies fits the budget and none of them is dropped. Each dependency is kept, whole or as a
  beginning of it followed by a note of what is missing; all that is kept has together at most as many characters as the budget,
  or 4096 when that is more; and a dependency that is no longer than its equal share is kept whole.
\<close>

theorem deps_within_budget:
  "\<exists>kept. length kept = length deps \<and> length (truncateDeps deps requested) = length deps \<and>
     int (sum_list kept) \<le> max requested 4096 \<and>
     (\<forall>i < length deps. kept ! i = length (deps ! i) \<and> truncateDeps deps requested ! i = deps ! i \<or>
        (\<exists>n. kept ! i \<le> length (deps ! i) \<and> truncateDeps deps requested ! i = take (kept ! i) (deps ! i) @ omitted_note n \<and>
           nat (max requested 4096) div length deps < length (deps ! i)))"
proof -
  define budget where "budget = nat (max requested 4096)"
  have b: "(if requested < int min_dep_budget then min_dep_budget else nat requested) = budget"
    by (auto simp: budget_def min_dep_budget_def max_def)
  have m: "int budget = max requested 4096" by (auto simp: budget_def max_def)
  show ?thesis
  proof (cases "deps = [] \<or> sum_list (map length deps) \<le> budget")
    case True
    then have "truncateDeps deps requested = deps" by (auto simp: truncateDeps_def b)
    moreover have "int (sum_list (map length deps)) \<le> max requested 4096" using True m by (cases "deps = []") auto
    ultimately show ?thesis by (intro exI [of _ "map length deps"]) simp
  next
    case False
    define perDep where "perDep = budget div length deps"
    let ?short = "filter (\<lambda>d. length d \<le> perDep) deps" and ?long = "filter (\<lambda>d. \<not> length d \<le> perDep) deps"
    define longBudget where "longBudget = perDep + sum_list (map (\<lambda>d. perDep - length d) ?short) div length ?long"
    have len: "length deps - length ?short = length ?long"
      using sum_length_filter_compl [of "\<lambda>d. length d \<le> perDep" deps] by linarith
    have lb: "(if length ?long > 0 then perDep + sum_list (map (\<lambda>d. perDep - length d) ?short) div length ?long else perDep) = longBudget"
      by (cases "length ?long") (simp_all add: longBudget_def)
    have t: "truncateDeps deps requested = map (cut_dep perDep longBudget) deps"
      unfolding truncateDeps_def b Let_def perDep_def [symmetric] len lb using False by simp
    let ?share = "\<lambda>d. if length d \<le> perDep then length d else longBudget"
    have "\<forall>d. \<exists>n. n \<le> ?share d \<and> n \<le> length d \<and> (n = length d \<and> cut_dep perDep longBudget d = d \<or>
        cut_dep perDep longBudget d = take n d @ omitted_note (length d - longBudget))"
      using cut_dep_kept [of _ perDep longBudget] by blast
    then obtain keep where k: "\<forall>d. keep d \<le> ?share d \<and> keep d \<le> length d \<and> (keep d = length d \<and> cut_dep perDep longBudget d = d \<or>
        cut_dep perDep longBudget d = take (keep d) d @ omitted_note (length d - longBudget))"
      by (rule choice [THEN exE])
    have whole: "cut_dep perDep longBudget d = d" if "length d \<le> perDep" for d using that by (simp add: cut_dep_def)
    define kept where "kept = map (\<lambda>d. if length d \<le> perDep then length d else keep d) deps"
    have "sum_list kept \<le> sum_list (map ?share deps)" unfolding kept_def using k by (intro sum_list_mono) (metis order_refl)
    also have "\<dots> \<le> budget"
      unfolding sum_kept longBudget_def perDep_def using fair_share_bound [of deps budget] False by blast
    finally have "int (sum_list kept) \<le> max requested 4096" using m by linarith
    moreover have "kept ! i = length (deps ! i) \<and> truncateDeps deps requested ! i = deps ! i \<or>
        (\<exists>n. kept ! i \<le> length (deps ! i) \<and> truncateDeps deps requested ! i = take (kept ! i) (deps ! i) @ omitted_note n \<and>
           nat (max requested 4096) div length deps < length (deps ! i))" if "i < length deps" for i
    proof (cases "length (deps ! i) \<le> perDep")
      case True
      with that whole show ?thesis by (simp add: t kept_def)
    next
      case long: False
      have "perDep = nat (max requested 4096) div length deps" by (simp add: perDep_def budget_def)
      with that long k [rule_format, of "deps ! i"] show ?thesis by (auto simp: t kept_def)
    qed
    ultimately show ?thesis by (intro exI [of _ kept]) (auto simp: t kept_def)
  qed
qed

theorem deps_within_budget_witness:
  "\<exists>kept. length kept = 1 \<and> int (sum_list kept) \<le> 4096 \<and> length (truncateDeps [''ab''] 10) = 1"
  using deps_within_budget [of "[''ab'']" 10] by auto

text \<open>The note tells less than what is missing when the cut is moved back to the end of a line: here 3 characters instead of 5.\<close>

lemma omitted_undercounted:
  "cut_dep 2 8 (''abcdef'' @ newline @ ''hijk'') = ''abcdef'' @ omitted_note 3"
  by code_simp

text \<open>The request and the chat are no part of the budget: the message is at least as long as they are.\<close>

lemma request_not_counted:
  "length (ip_request (input_of marshal msg)) \<le> length (buildTaskInput marshal shellOnly msg scope) \<and>
   length (ip_chat (input_of marshal msg)) \<le> length (buildTaskInput marshal shellOnly msg scope)"
  by (simp add: buildTaskInput_def Let_def)

section \<open>Copies stay in the scratch directory\<close>

lemma safeScratchPath_below:
  assumes "safeScratchPath cwd scratchDir relPath = Some dest" and "is_abs scratchDir"
  shows "\<exists>es. path_elems dest = path_elems scratchDir @ es" and "is_abs dest"
proof -
  have j: "is_abs (path_join2 scratchDir relPath)" by (rule elems_join(2) [OF assms(2)])
  from assms obtain rel where r: "path_rel (path_clean scratchDir) dest = Some rel" "\<not> has_prefix rel ''..''"
      and d: "dest = path_clean (path_join2 scratchDir relPath)"
    using j by (auto simp: safeScratchPath_def path_abs_def split: option.splits if_splits)
  show "is_abs dest" using d j by simp
  then show "\<exists>es. path_elems dest = path_elems scratchDir @ es" using path_rel_below [OF r] assms(2) by simp
qed

definition scratch_only :: "string \<Rightarrow> (string, string) gomap \<Rightarrow> (string, string) gomap \<Rightarrow> bool" where
  "scratch_only scratchDir fs fs' \<longleftrightarrow>
     (\<forall>k. mget fs' k = mget fs k \<or> mget fs k = None \<and> (\<exists>es. path_elems k = path_elems scratchDir @ es))"

lemma scratch_only_trans: "scratch_only d fs fs' \<Longrightarrow> scratch_only d fs' fs'' \<Longrightarrow> scratch_only d fs fs''"
  unfolding scratch_only_def by metis

lemma copy_missing_scratch:
  "is_abs scratchDir \<Longrightarrow> scratch_only scratchDir fs (copy_missing ce scratchDir relPath from fs)"
  using safeScratchPath_below(1) by (auto simp: copy_missing_def scratch_only_def split: option.split)

lemma fold_scratch_only:
  "(\<And>x fs. scratch_only d fs (f fs x)) \<Longrightarrow> scratch_only d fs (foldl f fs xs)"
proof (induction xs arbitrary: fs)
  case (Cons x xs)
  then show ?case using scratch_only_trans by (metis foldl_Cons)
qed (simp add: scratch_only_def)

text \<open>
  Filling the scratch directory overwrites nothing and stays inside. Whatever the names of the artifacts, listed in storage or given by a
  loop, a file that was there before is as it was, and every new file is below the scratch directory.
\<close>

theorem scratch_filled_safely:
  assumes "is_abs scratchDir"
  shows "scratch_only scratchDir fs (populateScratchWithArtifacts ce name (scratchDir # tiers) fs) \<and>
    scratch_only scratchDir fs (ensureScratchFromShared ce scratchDir uri files fs)"
proof
  have same: "scratch_only scratchDir fs fs" for fs by (simp add: scratch_only_def)
  note copy = copy_missing_scratch [OF assms]
  show "scratch_only scratchDir fs (populateScratchWithArtifacts ce name (scratchDir # tiers) fs)"
    by (auto simp: populateScratchWithArtifacts_def Let_def same intro!: fold_scratch_only copy split: option.split)
  show "scratch_only scratchDir fs (ensureScratchFromShared ce scratchDir uri files fs)"
    by (auto simp: ensureScratchFromShared_def same intro!: fold_scratch_only copy)
qed

theorem scratch_filled_safely_witness:
  "scratch_only ''/s'' [(''/s/a'', ''old'')]
     (ensureScratchFromShared \<lparr>ce_list = (\<lambda>_. None), ce_read = (\<lambda>_. Some ''new''), ce_write = (\<lambda>_. True), ce_cwd = None\<rparr> ''/s'' ''u/''
        [''a'', ''../b'', ''c''] [(''/s/a'', ''old'')])"
proof -
  have "is_abs ''/s''" by code_simp
  from scratch_filled_safely [OF this] show ?thesis by blast
qed

end
