(* ===== verification/Spec2Isabelle.thy ===== *)
theory Spec2Isabelle
  imports Loop Cascade Discovery FileRefine Routing Artifact VerdictProps Message Circuit Hub LoopRun SchedulerProps JoinToken Meter Storage KnowledgeLookup Server Etcd Dispatch Decompose ToolFiles Bundle Materialize TaskInput
begin

text \<open>
  AgentFab runs a team of language-model agents. A conductor turns a request into a graph of tasks
  and dispatches the tasks to agents over messages; agents run a task once, or hop by hop through a
  review loop; a control-plane store keeps nodes, agent instances and leases, and decides who leads.
  This library models the parts of that program that decide something: it leaves out transport,
  terminals, the reading of configuration files and calls to model providers. Paths below are relative to src/internal.

  \<^bold>\<open>How the parts interact.\<close> A request is decomposed (\<open>Decompose\<close>, with the context of \<open>ConductorText\<close>), validated
  (\<open>Dag\<close>) and given to the dispatch loop (\<open>Scheduler\<close>), which picks ready tasks (\<open>ReadyTasks\<close>), starts a goroutine per task within the
  concurrency limits of the agents, and cascades a failure to the dependents (\<open>Cascade\<close>). The goroutine places
  the task on an instance (\<open>Placement\<close>), sends it (\<open>Dispatch\<close>) and waits for its result (\<open>Demux\<close>). A task with a
  loop is sent to the first agent of the loop with a context (\<open>LoopContext\<close>, encoded by \<open>LoopCodec\<close>
  into a message of \<open>Message\<close>); the agent runs one hop (\<open>LoopRouting\<close>), reads the verdict of its model
  (\<open>Verdict\<close>), asks the FSM for the next state (\<open>Loop\<close>) and forwards the context or sends the result to
  the conductor (\<open>AgentResult\<close>). To do its work an agent lets its model call tools (\<open>ToolLoop\<close>), whose commands run in a sandbox
  (\<open>Sandbox\<close>). Names are resolved to endpoints by \<open>Discovery\<close> over the store, which is
  in memory (\<open>MemoryStore\<close>), in a file shared by processes (\<open>FileStore\<close>) or in etcd (\<open>Etcd\<close>); nodes and agents of other machines
  reach it through \<open>Remote\<close>, the handlers of the server and the checks of \<open>Service\<close>, by the identity of
  their certificate (\<open>Subject\<close>). What the agents learn is merged into a graph per agent (\<open>Knowledge\<close>), archived
  (\<open>KnowledgeCold\<close>) and looked up for the next request (\<open>KnowledgeLookup\<close>).

  \<^bold>\<open>The theories.\<close>
  \<^item> \<open>Prelude\<close>: Go maps as association lists in key order of insertion, bytewise string order,
    \<open>sort.Slice\<close> with the locale \<open>slice_order\<close> of its laws, early returns; the collections
    \<open>gomap_simps\<close> and \<open>frame_simps\<close>. \<open>GoStrings\<close>: the functions of package strings and \<open>strconv.Quote\<close>.
  \<^item> \<open>Loop\<close> (loop/types.go, fsm.go, resolve.go): definitions, \<open>Validate\<close>, the FSM, \<open>ResolveNextState\<close>.
    A run of the FSM stays in declared states, has a next step unless it is terminal, and ends within
    its budget of transitions; resolution fails exactly when no transition leaves the state.
  \<^item> \<open>LoopContext\<close>, \<open>LoopCodec\<close> (loop/context.go, resolve.go): the context that travels, the prompt an
    agent is given, the JSON shape of the context, with the round trip for counters up to 2 ^ 53.
  \<^item> \<open>TaskGraph\<close>, \<open>Dag\<close>, \<open>Cascade\<close> (taskgraph/types.go, dag.go): validation against its specification,
    Kahn's sort (sorts every acyclic graph, refuses a cyclic one), readiness, the cascade as reachability,
    the reports of what failed. The loops over a queue have a measure, so they are total functions.
  \<^item> \<open>Membership\<close> (controlplane/types.go, liveness.go): the records and the pass that marks silent nodes
    and instances. \<open>MemoryStore\<close> (memory.go): every method as a function on the store. \<open>Leases\<close>: runs of
    the store and the contract \<open>lease_cell\<close> (epochs grow, a lease keeps its holder within its epoch),
    interpreted for the leader, each profile and each task. \<open>Etcd\<close> (etcd.go): every operation over a keyspace, transactions
    that may be retried and answers that may be lost, the same contract again and the races of the retries. \<open>FileStore\<close>, \<open>FileLeases\<close> (file.go): the file
    store with the outcome of each system call as an argument, several processes with their own caches,
    and the same contract on the file. \<open>FileRefine\<close>: the file store refines the memory store. \<open>Discovery\<close> (discovery.go): resolution of names.
  \<^item> \<open>Routing\<close> (routing/router.go, tracker.go): model tiers and escalation.
  \<^item> \<open>Message\<close> (message/types.go, json.go, convert.go, annotated.go): messages, their protobuf and JSON
    encodings. \<open>Hub\<close> (local/communicator.go): the in-process transport; a received message was sent, in order.
  \<^item> \<open>Artifact\<close> (agent/artifact.go): file blocks in an answer and the cleaning of their paths.
    \<open>Circuit\<close> (agent/circuit.go): the circuit breaker.
  \<^item> \<open>Verdict\<close>, \<open>VerdictProps\<close> (agent/agent.go, envelope.go, structuredoutput/validate.go): verdicts,
    evidence and merged summaries; the extraction of a JSON object out of prose.
  \<^item> \<open>AgentResult\<close>, \<open>LoopRouting\<close>, \<open>LoopRun\<close> (agent/agent.go): what an agent sends and stores when work
    is over, one hop of a loop, the handling of a message; runs of hops through the agents.
  \<^item> \<open>Scheduler\<close>, \<open>SchedulerInv\<close>, \<open>SchedulerOrder\<close>, \<open>SchedulerQuiet\<close>, \<open>SchedulerProps\<close> (conductor/scheduler.go): the dispatch
    loop, its goroutines and the calls from outside as a step function over actions, and the relation
    \<open>reach\<close> of the states a run can visit: limits hold under all interference, tasks keep the order of their dependencies as long
    as no task is amended and the graph is not replaced, and a run without interference can always be finished; three races are exhibited.
  \<^item> \<open>Placement\<close> (conductor/scheduler.go): the choice of an instance, task and profile leases, the loads of
    instances and nodes, health checks. The locale \<open>placement_store\<close> says what placing needs of a control-plane store and is interpreted
    for the memory store; the comparison of instances is an instance of \<open>slice_order\<close>. A placed task runs on a good node, and
    loads stay exact and within capacity as long as placements read current loads.
  \<^item> \<open>Demux\<close> (conductor/scheduler.go): the demultiplexer of replies as a run of events, and the waiting for a
    result as a function of the events in the order that select takes them. \<open>Dispatch\<close>: a dispatch from its nonce
    to the release of its placement. \<open>ConductorText\<close> (conductor/decompose_context.go, scheduler.go): the texts and parts that tell an
    agent its context, with their budgets, and what is read off results. \<open>Decompose\<close> (conductor/decompose.go, templates.go,
    disambiguate.go): prompts, strict templates, parsing and the retry; a decomposition yields a runnable graph.
  \<^item> \<open>JoinToken\<close> (identity/jointoken.go): enrollment tokens, signed and counted; a token admits what it was bound to.
    \<open>Subject\<close> (identity/types.go): identities and their URIs, with the reading of a URI as \<open>url.Parse\<close> does it.
  \<^item> \<open>Wire\<close> (controlplane/interfaces.go, controlplanesvc/service.go): the store's interfaces as records of functions, and
    the records of the store on the wire. \<open>Service\<close> (controlplanesvc/service.go): every call with its checks.
    \<open>Remote\<close> (controlplane/remote.go, grpc/server.go): the handlers and the remote client; for a conductor the remote store
    refines the store. \<open>Server\<close> (grpc/server.go, communicator.go, discovery.go): the message server, with the
    invariant that its inbox holds authentic messages only.
  \<^item> \<open>Meter\<close> (local/meter.go, llm/meter.go): usage, budgets and retried model calls. \<open>Storage\<close> (local/storage.go): the tiers of files of an agent.
  \<^item> \<open>Knowledge\<close>, \<open>KnowledgeCold\<close>, \<open>KnowledgeLookup\<close> (knowledge): merging and pruning, the cold graph and idle curation,
    and lookups against a specification of what may be returned; a well-formedness type that every step preserves.
  \<^item> \<open>Sandbox\<close> (sandbox, agent/toolexec.go, toolbind.go): the environment, the file system rules and the processes of a tool
    command. \<open>ToolText\<close>, \<open>ToolLoop\<close> (agent/agent.go): the conversation of an agent with its model and its tools, over any model and
    any tools. \<open>ToolProps\<close>, \<open>ToolFiles\<close>: it ends within a fixed number of calls of the model, every conversation is well formed, and no collected file
    is lost that can be written as a block; the cases in which something else is.
  \<^item> \<open>TaskInput\<close> (agent/prompt.go, agent.go): the system prompt, the input of a task with its budget for the context of the dependencies,
    and the copying of artifacts into the scratch directory, which overwrites nothing and stays inside.
  \<^item> \<open>Materialize\<close> (runtime/materialize.go): the copy of a storage tier an agent works on, with the locale \<open>tier_store\<close> of what it
    needs of a storage, interpreted for the scratch tier of \<open>Storage\<close>; writing back makes the storage agree with the directory.
  \<^item> \<open>Bundle\<close> (config/bundle.go, manifest.go, signed_bundle.go): the digests of a fabric, the manifest of its files and signed
    bundles, with what a verification that succeeds has checked, and what it leaves unchecked.

  \<^bold>\<open>Time, effects, bounds.\<close> A reading of the clock is an argument of the operation that makes it, so a
  run may contain any readings; a time or duration is a number of nanoseconds. System calls, model
  answers, sends and identifiers are functions or values of an environment. The only fuel is that of
  \<open>run_hops\<close>: each hop raises the transition counter that the FSM bounds by \<open>MaxTransitions\<close>, so
  \<open>MaxTransitions\<close> minus the counter plus one suffices, and that is what \<open>loop_ends_with_result\<close>
  proves. The loop between model and tools is a total function; its measure counts the redirections and retries that are
  left and then the iterations. Asking a model in a loop makes at most three attempts, as in the code. Go ints that count hops,
  errors or epochs are unbounded here: they do not reach their width.

  \<^bold>\<open>Parameters.\<close> The JSON decoder and validator, protobuf's \<open>Struct\<close> conversion, SHA-256 and ed25519, the base model factory, the
  clock, the random identifiers and the storage are arguments of the definitions that use them.

  \<^bold>\<open>Not modelled.\<close> Clients of model providers (llm), the macOS sandbox profile, the connections of gRPC
  and TLS and of etcd (grpc/factory.go, tls.go, mtls), the issuing of certificates,
  the YAML of configuration files, terminals and benchmarks (ui, bench, cmd), generated code (gen): they
  are input and output, or services the program only calls. Of conductor.go, the starting of agents and servers and the
  chat; of agent.go, the goroutines that receive messages and the knowledge written after a task; of the knowledge graph, the reading
  of its files and of the answers it is generated from.
\<close>

end
